(* ===== verification/Kernel_Prelude.thy ===== *)
theory Kernel_Prelude
  imports
    Complex_Main
    "HOL-Library.AList"
    "HOL-Library.Char_ord"
    "HOL-Library.List_Lexorder"
begin

text \<open>
  Shared vocabulary of the development: Python exceptions as values, the string
  operations of \<^verbatim>\<open>str\<close> that the kernel uses, insertion-ordered dictionaries, and
  JSON-like values of type \<^verbatim>\<open>Any\<close>.  Strings are sequences of code points below 256, so
  \<^verbatim>\<open>strip\<close> and \<^verbatim>\<open>lower\<close> follow Python on Latin-1; finite floats are exact rationals.
\<close>

named_theorems kernel_simps \<open>unfolding rules shared by the component proofs\<close>

section \<open>Exceptions and results\<close>

text \<open>
  A raised exception is a value.  The constructors are the exception classes that the
  modelled code raises or catches by name; \<open>OtherError\<close> stands for any further class
  (of an injected executor or store) and carries its class name.
\<close>

datatype exn =
    ValueError string
  | TypeError string
  | KeyError string
  | RuntimeError string
  | DedupeStoreStateError string
  | CapabilitySnapshotBuildError string
  | PolicyResolutionError string
  | SchemaMigrationError string
  | CompensationExhaustedError string
  | OperationalError string
  | OtherError string string

type_synonym 'a result = "exn + 'a"

text \<open>\<^verbatim>\<open>type(err).__name__\<close>\<close>

fun exn_name :: "exn \<Rightarrow> string" where
  "exn_name (ValueError _) = ''ValueError''"
| "exn_name (TypeError _) = ''TypeError''"
| "exn_name (KeyError _) = ''KeyError''"
| "exn_name (RuntimeError _) = ''RuntimeError''"
| "exn_name (DedupeStoreStateError _) = ''DedupeStoreStateError''"
| "exn_name (CapabilitySnapshotBuildError _) = ''CapabilitySnapshotBuildError''"
| "exn_name (PolicyResolutionError _) = ''PolicyResolutionError''"
| "exn_name (SchemaMigrationError _) = ''SchemaMigrationError''"
| "exn_name (CompensationExhaustedError _) = ''CompensationExhaustedError''"
| "exn_name (OperationalError _) = ''OperationalError''"
| "exn_name (OtherError n _) = n"

text \<open>The classes among them that derive from \<^verbatim>\<open>ValueError\<close>.\<close>

fun is_value_error :: "exn \<Rightarrow> bool" where
  "is_value_error (ValueError _) = True"
| "is_value_error (DedupeStoreStateError _) = True"
| "is_value_error (CapabilitySnapshotBuildError _) = True"
| "is_value_error (PolicyResolutionError _) = True"
| "is_value_error _ = False"

definition bind_result :: "'a result \<Rightarrow> ('a \<Rightarrow> 'b result) \<Rightarrow> 'b result" where
  "bind_result r f = (case r of Inl e \<Rightarrow> Inl e | Inr x \<Rightarrow> f x)"

lemma bind_result_simps [simp]:
  "bind_result (Inl e) f = Inl e"
  "bind_result (Inr x) f = f x"
  by (simp_all add: bind_result_def)

lemma bind_result_InrE:
  assumes "bind_result r f = Inr y"
  obtains x where "r = Inr x" "f x = Inr y"
  using assms by (cases r) auto

definition is_ok :: "'a result \<Rightarrow> bool" where
  "is_ok r = (case r of Inl _ \<Rightarrow> False | Inr _ \<Rightarrow> True)"

lemma is_ok_simps [simp]: "is_ok (Inr x)" "\<not> is_ok (Inl e)"
  by (simp_all add: is_ok_def)

section \<open>Strings\<close>

definition startswith :: "string \<Rightarrow> string \<Rightarrow> bool" where
  "startswith s p = (take (length p) s = p)"

definition removeprefix :: "string \<Rightarrow> string \<Rightarrow> string" where
  "removeprefix s p = (if startswith s p then drop (length p) s else s)"

lemma startswith_append [simp]: "startswith (p @ s) p"
  by (simp add: startswith_def)

lemma startswith_iff: "startswith s p \<longleftrightarrow> (\<exists>t. s = p @ t)"
  unfolding startswith_def by (metis append_eq_conv_conj append_take_drop_id)

lemma removeprefix_append [simp]: "removeprefix (p @ s) p = s"
  by (simp add: removeprefix_def)

text \<open>The code points below 256 for which \<^verbatim>\<open>str.isspace\<close> holds.\<close>

definition py_space :: "char \<Rightarrow> bool" where
  "py_space c = (let n = of_char c :: nat in
     (9 \<le> n \<and> n \<le> 13) \<or> (28 \<le> n \<and> n \<le> 32) \<or> n = 133 \<or> n = 160)"

definition strip :: "string \<Rightarrow> string" where
  "strip s = rev (dropWhile py_space (rev (dropWhile py_space s)))"

text \<open>\<^verbatim>\<open>str.lower\<close> on one code point below 256.\<close>

definition lower_char :: "char \<Rightarrow> char" where
  "lower_char c = (let n = of_char c :: nat in
     if (65 \<le> n \<and> n \<le> 90) \<or> (192 \<le> n \<and> n \<le> 222 \<and> n \<noteq> 215) then char_of (n + 32) else c)"

definition lower :: "string \<Rightarrow> string" where
  "lower s = map lower_char s"

text \<open>\<^verbatim>\<open>needle in s\<close> for strings.\<close>

fun str_contains :: "string \<Rightarrow> string \<Rightarrow> bool" where
  "str_contains needle [] = (needle = [])"
| "str_contains needle (c # s) = (startswith (c # s) needle \<or> str_contains needle s)"

lemma str_contains_append: "str_contains n (xs @ n @ ys)"
proof (induction xs)
  case Nil
  then show ?case by (cases "n @ ys") (auto simp: startswith_iff, metis)
next
  case (Cons x xs)
  then show ?case by simp
qed

text \<open>
  \<^verbatim>\<open>repr(s)\<close>, as \<^verbatim>\<open>{s!r}\<close> renders it, for strings without quotes, backslashes and
  non-printable characters.
\<close>

definition repr_str :: "string \<Rightarrow> string" where
  "repr_str s = CHR 0x27 # s @ [CHR 0x27]"

text \<open>Decimal rendering of an integer, as \<^verbatim>\<open>str(n)\<close> and f-strings do.\<close>

definition digit_char :: "nat \<Rightarrow> char" where
  "digit_char d = char_of (48 + d)"

fun show_nat :: "nat \<Rightarrow> string" where
  "show_nat n = (if n < 10 then [digit_char n] else show_nat (n div 10) @ [digit_char (n mod 10)])"

declare show_nat.simps [simp del]

definition show_int :: "int \<Rightarrow> string" where
  "show_int i = (if i < 0 then CHR ''-'' # show_nat (nat (- i)) else show_nat (nat i))"

lemma digit_char_inj: "d < 10 \<Longrightarrow> e < 10 \<Longrightarrow> digit_char d = digit_char e \<Longrightarrow> d = e"
proof -
  assume lt: "d < 10" "e < 10" and eq: "digit_char d = digit_char e"
  have "(of_char (char_of (48 + d) :: char) :: nat) = of_char (char_of (48 + e) :: char)"
    using eq by (simp add: digit_char_def)
  then show ?thesis using lt by simp
qed

lemma show_nat_nonempty [simp]: "show_nat n \<noteq> []" "[] \<noteq> show_nat n"
  by (subst show_nat.simps, simp)+

lemma show_nat_inj: "show_nat m = show_nat n \<Longrightarrow> m = n"
proof (induction m arbitrary: n rule: show_nat.induct)
  case (1 m)
  show ?case
  proof (cases "m < 10 \<or> n < 10")
    case True
    with "1.prems" show ?thesis
      by (auto simp: show_nat.simps [of m] show_nat.simps [of n] digit_char_inj split: if_splits)
  next
    case False
    with "1.prems" have "show_nat (m div 10) = show_nat (n div 10)"
      and "digit_char (m mod 10) = digit_char (n mod 10)"
      by (simp_all add: show_nat.simps [of m] show_nat.simps [of n])
    with "1.IH" False have "m div 10 = n div 10" "m mod 10 = n mod 10"
      by (auto intro: digit_char_inj)
    then show ?thesis by (metis mult_div_mod_eq)
  qed
qed

lemma show_nat_digits: "set (show_nat n) \<subseteq> digit_char ` {..<10}"
proof (induction n rule: show_nat.induct)
  case (1 n)
  then show ?case by (subst show_nat.simps) (auto simp: image_iff)
qed

lemma of_char_digit_char: "d < 10 \<Longrightarrow> (of_char (digit_char d) :: nat) = 48 + d"
  by (simp add: digit_char_def)

lemma digit_not_sign:
  assumes "d < 10"
  shows "digit_char d \<noteq> CHR ''-''" "digit_char d \<noteq> CHR '':''"
  using of_char_digit_char [OF assms] assms by auto

lemma show_nat_no_sign: "CHR ''-'' \<notin> set (show_nat n)" "CHR '':'' \<notin> set (show_nat n)"
  using show_nat_digits [of n] digit_not_sign by fastforce+

lemma show_int_inj [simp]: "show_int i = show_int j \<longleftrightarrow> i = j"
proof
  assume eq: "show_int i = show_int j"
  have "(i < 0) = (j < 0)"
    using eq show_nat_no_sign by (auto simp: show_int_def split: if_splits) (metis list.set_intros(1))+
  then show "i = j"
    using eq by (auto simp: show_int_def dest!: show_nat_inj split: if_splits)
qed simp

lemma show_int_no_colon: "CHR '':'' \<notin> set (show_int i)"
  using show_nat_no_sign by (auto simp: show_int_def)

text \<open>\<^verbatim>\<open>a or b\<close> where the operands are optional strings: the empty string is falsy.\<close>

definition truthy :: "string option \<Rightarrow> bool" where
  "truthy v = (case v of None \<Rightarrow> False | Some s \<Rightarrow> s \<noteq> [])"

definition or_else :: "string option \<Rightarrow> string option \<Rightarrow> string option" where
  "or_else a b = (if truthy a then a else b)"

lemma truthy_simps [simp]: "\<not> truthy None" "truthy (Some s) \<longleftrightarrow> s \<noteq> []"
  by (simp_all add: truthy_def)

lemma or_else_simps [simp]:
  "or_else None b = b"
  "s \<noteq> [] \<Longrightarrow> or_else (Some s) b = Some s"
  "or_else (Some []) b = b"
  "or_else a a = a"
  by (simp_all add: or_else_def)

section \<open>Insertion-ordered dictionaries\<close>

text \<open>
  A Python \<^verbatim>\<open>dict\<close> is an association list without duplicate keys, in insertion order:
  assigning to a present key keeps its position, a new key goes to the end.
\<close>

type_synonym ('k, 'v) dict = "('k \<times> 'v) list"

definition dict_wf :: "('k, 'v) dict \<Rightarrow> bool" where
  "dict_wf d = distinct (map fst d)"

definition dict_get :: "('k, 'v) dict \<Rightarrow> 'k \<Rightarrow> 'v option" where
  "dict_get d k = map_of d k"

definition dict_has :: "('k, 'v) dict \<Rightarrow> 'k \<Rightarrow> bool" where
  "dict_has d k = (k \<in> set (map fst d))"

definition dict_set :: "'k \<Rightarrow> 'v \<Rightarrow> ('k, 'v) dict \<Rightarrow> ('k, 'v) dict" where
  "dict_set k v d = AList.update k v d"

definition dict_pop :: "'k \<Rightarrow> ('k, 'v) dict \<Rightarrow> ('k, 'v) dict" where
  "dict_pop k d = AList.delete k d"

definition dict_setdefault :: "'k \<Rightarrow> 'v \<Rightarrow> ('k, 'v) dict \<Rightarrow> ('k, 'v) dict" where
  "dict_setdefault k v d = (if dict_has d k then d else dict_set k v d)"

definition dict_get_or :: "('k, 'v) dict \<Rightarrow> 'k \<Rightarrow> 'v \<Rightarrow> 'v" where
  "dict_get_or d k v = (case dict_get d k of None \<Rightarrow> v | Some x \<Rightarrow> x)"

lemma dict_get_Nil [simp]: "dict_get [] k = None"
  by (simp add: dict_get_def)

lemma dict_get_set [simp]: "dict_get (dict_set k v d) k' = (if k' = k then Some v else dict_get d k')"
  by (simp add: dict_get_def dict_set_def AList.update_conv')

lemma dict_get_pop [simp]: "dict_get (dict_pop k d) k' = (if k' = k then None else dict_get d k')"
  by (simp add: dict_get_def dict_pop_def AList.delete_conv')

lemma dict_has_iff: "dict_has d k \<longleftrightarrow> dict_get d k \<noteq> None"
  by (simp add: dict_has_def dict_get_def map_of_eq_None_iff)

lemma dict_keys_set:
  "map fst (dict_set k v d) = (if dict_has d k then map fst d else map fst d @ [k])"
  by (simp add: dict_set_def AList.update_keys dict_has_def)

lemma dict_wf_Nil [simp, intro]: "dict_wf []"
  by (simp add: dict_wf_def)

lemma dict_wf_set [simp, intro]: "dict_wf d \<Longrightarrow> dict_wf (dict_set k v d)"
  by (simp add: dict_wf_def dict_set_def AList.distinct_update)

lemma dict_wf_pop [simp, intro]: "dict_wf d \<Longrightarrow> dict_wf (dict_pop k d)"
  by (simp add: dict_wf_def dict_pop_def AList.distinct_delete)

lemma dict_set_keys: "set (map fst (dict_set k v d)) = insert k (set (map fst d))"
  using AList.dom_update [of k v d] by (simp add: dict_set_def)

lemma dict_in_set: "dict_wf d \<Longrightarrow> (k, v) \<in> set d \<longleftrightarrow> dict_get d k = Some v"
  by (simp add: dict_wf_def dict_get_def)

lemma dict_get_or_simps [simp]: "dict_get_or [] k v = v"
  by (simp add: dict_get_or_def)

text \<open>Mapping a function over the values of a dictionary.\<close>

definition dict_map :: "('v \<Rightarrow> 'w) \<Rightarrow> ('k, 'v) dict \<Rightarrow> ('k, 'w) dict" where
  "dict_map f d = map (\<lambda>(k, v). (k, f v)) d"

lemma dict_map_keys [simp]: "map fst (dict_map f d) = map fst d"
  by (induction d) (auto simp: dict_map_def)

lemma dict_map_length [simp]: "length (dict_map f d) = length d"
  by (simp add: dict_map_def)

lemma dict_get_map [simp]: "dict_get (dict_map f d) k = map_option f (dict_get d k)"
  by (induction d) (auto simp: dict_map_def dict_get_def)

lemma dict_has_map [simp]: "dict_has (dict_map f d) k = dict_has d k"
  by (simp add: dict_has_def)

lemma dict_map_set [simp]: "dict_map f (dict_set k v d) = dict_set k (f v) (dict_map f d)"
  by (induction d) (auto simp: dict_map_def dict_set_def)

lemma dict_map_pop [simp]: "dict_map f (dict_pop k d) = dict_pop k (dict_map f d)"
  by (induction d) (auto simp: dict_map_def dict_pop_def AList.delete_eq)

section \<open>Values of type Any\<close>

text \<open>
  A float is a finite one, given by its exact rational value, one of the two infinities or NaN.
  Dictionaries are association lists as above.
\<close>

datatype pyfloat = PFin rat | PInf | PNegInf | PNaN

datatype json =
    JNull
  | JBool bool
  | JInt int
  | JFloat pyfloat
  | JStr string
  | JList "json list"
  | JDict "(string \<times> json) list"

type_synonym jdict = "(string, json) dict"

text \<open>\<^verbatim>\<open>d.get(k)\<close> on a payload dictionary: a missing key reads as \<^verbatim>\<open>None\<close>.\<close>

definition jget :: "jdict \<Rightarrow> string \<Rightarrow> json" where
  "jget d k = (case dict_get d k of None \<Rightarrow> JNull | Some v \<Rightarrow> v)"

definition as_str :: "json \<Rightarrow> string option" where
  "as_str v = (case v of JStr s \<Rightarrow> Some s | _ \<Rightarrow> None)"

definition as_dict :: "json \<Rightarrow> jdict option" where
  "as_dict v = (case v of JDict d \<Rightarrow> Some d | _ \<Rightarrow> None)"

text \<open>\<^verbatim>\<open>bool(v)\<close>\<close>

fun py_bool :: "json \<Rightarrow> bool" where
  "py_bool JNull = False"
| "py_bool (JBool b) = b"
| "py_bool (JInt i) = (i \<noteq> 0)"
| "py_bool (JFloat f) = (f \<noteq> PFin 0)"
| "py_bool (JStr s) = (s \<noteq> [])"
| "py_bool (JList xs) = (xs \<noteq> [])"
| "py_bool (JDict d) = (d \<noteq> [])"

lemma jget_Nil [simp]: "jget [] k = JNull"
  by (simp add: jget_def)

lemma jget_Cons [simp]: "jget ((k, v) # d) k' = (if k' = k then v else jget d k')"
  by (simp add: jget_def dict_get_def)

lemma jget_set [simp]: "jget (dict_set k v d) k' = (if k' = k then v else jget d k')"
  by (simp add: jget_def)

text \<open>
  A value with the keys of its dictionaries in order, and equality of payloads as Python compares
  them, where the order of keys does not matter.
\<close>

fun json_sort :: "json \<Rightarrow> json" where
  "json_sort (JList xs) = JList (map json_sort xs)"
| "json_sort (JDict d) = JDict (sort_key fst (map (\<lambda>(k, v). (k, json_sort v)) d))"
| "json_sort v = v"

definition json_sort_dict :: "jdict \<Rightarrow> jdict" where
  "json_sort_dict d = sort_key fst (map (\<lambda>(k, v). (k, json_sort v)) d)"

definition same_payload :: "jdict option \<Rightarrow> jdict option \<Rightarrow> bool" where
  "same_payload p q \<longleftrightarrow> map_option json_sort_dict p = map_option json_sort_dict q"

lemma same_payload_refl [simp]: "same_payload p p"
  by (simp add: same_payload_def)

lemma same_payload_sym: "same_payload p q \<Longrightarrow> same_payload q p"
  by (simp add: same_payload_def)

lemma sort_key_sorted: "sorted (map f xs) \<Longrightarrow> sort_key f xs = xs"
  by (induction xs) (auto simp: insort_is_Cons)

lemma json_sort_idem: "json_sort (json_sort v) = json_sort v"
proof (induction v rule: json_sort.induct)
  case (2 d)
  let ?d = "map (\<lambda>(k, v). (k, json_sort v)) d"
  have "map (\<lambda>(k, v). (k, json_sort v)) (sort_key fst ?d) = sort_key fst ?d"
    by (rule map_idI) (use 2 in auto)
  then show ?case by (simp add: sort_key_sorted)
qed simp_all

lemma json_sort_dict_idem [simp]: "json_sort_dict (json_sort_dict d) = json_sort_dict d"
  using json_sort_idem [of "JDict d"] by (simp add: json_sort_dict_def)

lemma same_payload_sorted [simp]: "same_payload p (map_option json_sort_dict p)" "same_payload (map_option json_sort_dict p) p"
  by (cases p; simp add: same_payload_def)+

section \<open>Untyped data\<close>

text \<open>
  The conversion of JSON into typed data: a value, an exception, or a field of a type the target does
  not declare, which Python stores all the same and about which the model says nothing.
\<close>

datatype 'a parsed = Typed 'a | Raises exn | Untyped string

primrec bind_parsed :: "'a parsed \<Rightarrow> ('a \<Rightarrow> 'b parsed) \<Rightarrow> 'b parsed" where
  "bind_parsed (Typed x) f = f x"
| "bind_parsed (Raises e) f = Raises e"
| "bind_parsed (Untyped k) f = Untyped k"

fun json_type_name :: "json \<Rightarrow> string" where
  "json_type_name JNull = ''NoneType''"
| "json_type_name (JBool _) = ''bool''"
| "json_type_name (JInt _) = ''int''"
| "json_type_name (JFloat _) = ''float''"
| "json_type_name (JStr _) = ''str''"
| "json_type_name (JList _) = ''list''"
| "json_type_name (JDict _) = ''dict''"

end
