(* ===== verification/Kernel_Effects.thy ===== *)
theory Kernel_Effects
  imports Kernel_Prelude
begin

text \<open>
  Sequencing of stateful calls that may raise: a call takes a state to the next state and an
  exception or a value, and keeps the state it reached when it raises.  With the combinators go
  the rules by which the clients reason about them: elimination of successful runs, and
  preservation of an invariant by every run, successful or not.
\<close>

type_synonym ('s, 'a) act = "'s \<Rightarrow> 's \<times> 'a result"

definition return_act :: "'a \<Rightarrow> ('s, 'a) act" where
  "return_act x s = (s, Inr x)"

definition raise_act :: "exn \<Rightarrow> ('s, 'a) act" where
  "raise_act e s = (s, Inl e)"

definition bind_act :: "('s, 'a) act \<Rightarrow> ('a \<Rightarrow> ('s, 'b) act) \<Rightarrow> ('s, 'b) act" where
  "bind_act m f s = (case m s of (s', Inl e) \<Rightarrow> (s', Inl e) | (s', Inr x) \<Rightarrow> f x s')"

text \<open>\<^verbatim>\<open>try\<close> with a handler for every exception, and \<^verbatim>\<open>contextlib.suppress(Exception)\<close>.\<close>

definition catch_act :: "('s, 'a) act \<Rightarrow> (exn \<Rightarrow> ('s, 'a) act) \<Rightarrow> ('s, 'a) act" where
  "catch_act m h s = (case m s of (s', Inl e) \<Rightarrow> h e s' | (s', Inr x) \<Rightarrow> (s', Inr x))"

definition suppress_act :: "('s, 'a) act \<Rightarrow> ('s, unit) act" where
  "suppress_act m s = (fst (m s), Inr ())"

definition modify_act :: "('s \<Rightarrow> 's) \<Rightarrow> ('s, unit) act" where
  "modify_act f s = (f s, Inr ())"

definition read_act :: "('s \<Rightarrow> 'a) \<Rightarrow> ('s, 'a) act" where
  "read_act f s = (s, Inr (f s))"

text \<open>A call on the first component of a pair of states.\<close>

definition on_fst :: "('s, 'a) act \<Rightarrow> ('s \<times> 't, 'a) act" where
  "on_fst m st = (case m (fst st) of (s', r) \<Rightarrow> ((s', snd st), r))"

lemma act_simps [simp]:
  "return_act x s = (s, Inr x)"
  "raise_act e s = (s, Inl e)"
  "modify_act f s = (f s, Inr ())"
  "read_act g s = (s, Inr (g s))"
  "suppress_act m s = (fst (m s), Inr ())"
  by (simp_all add: return_act_def raise_act_def modify_act_def read_act_def suppress_act_def)

lemma bind_act_Inr [simp]: "m s = (s', Inr x) \<Longrightarrow> bind_act m f s = f x s'"
  by (simp add: bind_act_def)

lemma bind_act_Inl [simp]: "m s = (s', Inl e) \<Longrightarrow> bind_act m f s = (s', Inl e)"
  by (simp add: bind_act_def)

lemma bind_act_return [simp]:
  "bind_act (return_act x) f = f x"
  "bind_act (read_act g) h s = h (g s) s"
  "bind_act (modify_act u) k s = k () (u s)"
  "bind_act (raise_act e) f = raise_act e"
  by (simp_all add: bind_act_def fun_eq_iff)

lemma bind_act_InrE:
  assumes "bind_act m f s = (s', Inr y)"
  obtains s1 x where "m s = (s1, Inr x)" "f x s1 = (s', Inr y)"
  using assms unfolding bind_act_def by (auto split: prod.splits sum.splits)

lemma catch_act_Inr [simp]: "m s = (s', Inr x) \<Longrightarrow> catch_act m h s = (s', Inr x)"
  by (simp add: catch_act_def)

lemma catch_act_Inl [simp]: "m s = (s', Inl e) \<Longrightarrow> catch_act m h s = h e s'"
  by (simp add: catch_act_def)

lemma on_fst_simp: "m s = (s', r) \<Longrightarrow> on_fst m (s, t) = ((s', t), r)"
  by (simp add: on_fst_def)

section \<open>Preservation\<close>

text \<open>Every run of a call, also one that raises, keeps an invariant of the state.\<close>

definition preserves :: "('s \<Rightarrow> bool) \<Rightarrow> ('s, 'a) act \<Rightarrow> bool" where
  "preserves P m \<longleftrightarrow> (\<forall>s. P s \<longrightarrow> P (fst (m s)))"

named_theorems preserves_intros \<open>preservation of an invariant by the combinators and the calls\<close>

lemma preservesI: "(\<And>s s' r. P s \<Longrightarrow> m s = (s', r) \<Longrightarrow> P s') \<Longrightarrow> preserves P m"
  unfolding preserves_def by (metis prod.collapse)

lemma preservesD: "preserves P m \<Longrightarrow> P s \<Longrightarrow> m s = (s', r) \<Longrightarrow> P s'"
  unfolding preserves_def by (metis fst_conv)

lemma preserves_run: "preserves P m \<Longrightarrow> P s \<Longrightarrow> P (fst (m s))"
  by (simp add: preserves_def)

lemma preserves_pure [preserves_intros]:
  "preserves P (return_act x)" "preserves P (raise_act e)" "preserves P (read_act f)"
  by (simp_all add: preserves_def)

lemma preserves_modify [preserves_intros]: "(\<And>s. P s \<Longrightarrow> P (f s)) \<Longrightarrow> preserves P (modify_act f)"
  by (simp add: preserves_def)

lemma preserves_bind [preserves_intros]:
  assumes "preserves P m" "\<And>x. preserves P (f x)"
  shows "preserves P (bind_act m f)"
  unfolding preserves_def
proof (intro allI impI)
  fix s
  assume "P s"
  obtain s' r where m: "m s = (s', r)" by fastforce
  have "P s'" using preservesD [OF assms(1) \<open>P s\<close> m] .
  then have "P (fst (f x s'))" for x using assms(2) by (simp add: preserves_def)
  then show "P (fst (bind_act m f s))" using \<open>P s'\<close> m by (cases r) simp_all
qed

lemma preserves_catch [preserves_intros]:
  assumes "preserves P m" "\<And>e. preserves P (h e)"
  shows "preserves P (catch_act m h)"
  unfolding preserves_def
proof (intro allI impI)
  fix s
  assume "P s"
  obtain s' r where m: "m s = (s', r)" by fastforce
  have "P s'" using preservesD [OF assms(1) \<open>P s\<close> m] .
  then have "P (fst (h x s'))" for x using assms(2) by (simp add: preserves_def)
  then show "P (fst (catch_act m h s))" using \<open>P s'\<close> m by (cases r) simp_all
qed

lemma preserves_suppress [preserves_intros]: "preserves P m \<Longrightarrow> preserves P (suppress_act m)"
  by (simp add: preserves_def)

lemma preserves_on_fst: "(\<And>t. preserves (\<lambda>s. P (s, t)) m) \<Longrightarrow> preserves P (on_fst m)"
  unfolding preserves_def on_fst_def by (auto split: prod.splits) (metis fst_conv)

lemma preserves_if [preserves_intros]:
  "(c \<Longrightarrow> preserves P m) \<Longrightarrow> (\<not> c \<Longrightarrow> preserves P m') \<Longrightarrow> preserves P (if c then m else m')"
  by simp

lemma preserves_option [preserves_intros]:
  "preserves P m \<Longrightarrow> (\<And>x. preserves P (f x)) \<Longrightarrow> preserves P (case v of None \<Rightarrow> m | Some x \<Rightarrow> f x)"
  by (cases v) simp_all

end
