(* ===== verification/Kernel_Contracts.thy ===== *)
theory Kernel_Contracts
  imports Kernel_Prelude
begin

text \<open>
  The data transfer objects of \<^verbatim>\<open>kernel/contracts.py\<close> that the modelled components
  exchange: frozen dataclasses as records (a field prefix keeps the selectors of different
  classes apart), closed \<^verbatim>\<open>Literal\<close> types as datatypes.  Recovery modes and event types stay
  strings, because the code extends both through registries.
\<close>

section \<open>Closed literal types\<close>

datatype run_lifecycle_state =
    Created | Ready | Dispatching | Waiting_result | Waiting_external
  | Recovering | Completed | Failed | Aborted

datatype effect_class =
    READ_ONLY | IDEMPOTENT_WRITE | COMPENSATABLE_WRITE | IRREVERSIBLE_WRITE

fun effect_class_str :: "effect_class \<Rightarrow> string" where
  "effect_class_str READ_ONLY = ''read_only''"
| "effect_class_str IDEMPOTENT_WRITE = ''idempotent_write''"
| "effect_class_str COMPENSATABLE_WRITE = ''compensatable_write''"
| "effect_class_str IRREVERSIBLE_WRITE = ''irreversible_write''"

lemma effect_class_str_inj: "effect_class_str a = effect_class_str b \<Longrightarrow> a = b"
  by (cases a; cases b) simp_all

datatype external_idempotency_level = Guaranteed | Best_effort | Unknown_level

datatype interaction_target =
    Agent_peer | It_service | Data_system | Tool_executor | Human_actor | Event_stream

datatype side_effect_class =
    SE_READ_ONLY | SE_LOCAL_WRITE | SE_EXTERNAL_WRITE | SE_IRREVERSIBLE_SUBMIT

datatype event_class = Fact | Derived

datatype event_authority = Authoritative_fact | Derived_replayable | Derived_diagnostic

datatype wake_policy = Wake_actor | Projection_only

fun event_class_str :: "event_class \<Rightarrow> string" where
  "event_class_str Fact = ''fact''"
| "event_class_str Derived = ''derived''"

fun event_authority_str :: "event_authority \<Rightarrow> string" where
  "event_authority_str Authoritative_fact = ''authoritative_fact''"
| "event_authority_str Derived_replayable = ''derived_replayable''"
| "event_authority_str Derived_diagnostic = ''derived_diagnostic''"

fun wake_policy_str :: "wake_policy \<Rightarrow> string" where
  "wake_policy_str Wake_actor = ''wake_actor''"
| "wake_policy_str Projection_only = ''projection_only''"

text \<open>Dispatch hosts; the literal type is repeated in \<^verbatim>\<open>SandboxGrant\<close> and \<^verbatim>\<open>HostKind\<close>.\<close>

datatype host_kind =
    Local_process | Local_cli | Cli_process | In_process_python | Remote_service

fun host_kind_str :: "host_kind \<Rightarrow> string" where
  "host_kind_str Local_process = ''local_process''"
| "host_kind_str Local_cli = ''local_cli''"
| "host_kind_str Cli_process = ''cli_process''"
| "host_kind_str In_process_python = ''in_process_python''"
| "host_kind_str Remote_service = ''remote_service''"

datatype network_policy = Deny_all | Allow_list | Allow_all

datatype admission_reason =
    Reason_ok | Permission_denied | Quota_exceeded | Policy_denied
  | Dependency_not_ready | Stale_policy | Idempotency_contract_insufficient

section \<open>Events, actions and commits\<close>

record runtime_event =
  ev_run_id :: string
  ev_event_id :: string
  ev_commit_offset :: int
  ev_event_type :: string
  ev_event_class :: event_class
  ev_event_authority :: event_authority
  ev_ordering_key :: string
  ev_wake_policy :: wake_policy
  ev_created_at :: string
  ev_idempotency_key :: "string option"
  ev_payload_ref :: "string option"
  ev_payload_json :: "jdict option"
  ev_schema_version :: string

record action =
  act_action_id :: string
  act_run_id :: string
  act_action_type :: string
  act_effect_class :: effect_class
  act_external_idempotency_level :: "external_idempotency_level option"
  act_interaction_target :: "interaction_target option"
  act_input_ref :: "string option"
  act_input_json :: "jdict option"
  act_policy_tags :: "string list"
  act_timeout_ms :: "int option"
  act_side_effect_class :: "side_effect_class option"

record action_commit =
  cm_run_id :: string
  cm_commit_id :: string
  cm_events :: "runtime_event list"
  cm_created_at :: string
  cm_action :: "action option"
  cm_caused_by :: "string option"

record sandbox_grant =
  sg_grant_ref :: string
  sg_host_kind :: host_kind
  sg_sandbox_profile_ref :: "string option"
  sg_allowed_mounts :: "string list"
  sg_denied_mounts :: "string list"
  sg_network_policy :: network_policy
  sg_allowed_hosts :: "string list"

record execution_context =
  xc_run_id :: string
  xc_action_id :: string
  xc_causation_id :: "string option"
  xc_correlation_id :: "string option"
  xc_lineage_id :: "string option"
  xc_capability_snapshot_ref :: "string option"
  xc_capability_snapshot_hash :: "string option"
  xc_context_binding_ref :: "string option"
  xc_grant_ref :: "string option"
  xc_policy_snapshot_ref :: "string option"
  xc_rule_bundle_hash :: "string option"
  xc_declarative_bundle_digest :: "(string, string) dict option"
  xc_timeout_ms :: "int option"
  xc_budget_ref :: "string option"
  xc_trace_context :: "string option"

section \<open>Projection, admission and remote contracts\<close>

record run_policy_versions =
  pv_route_policy_version :: "string option"
  pv_acceptance_policy_version :: "string option"
  pv_memory_policy_version :: "string option"
  pv_skill_policy_version :: "string option"
  pv_evaluation_policy_version :: "string option"
  pv_task_view_policy_version :: "string option"
  pv_pinned_at :: string

record run_projection =
  pr_run_id :: string
  pr_lifecycle_state :: run_lifecycle_state
  pr_projected_offset :: int
  pr_waiting_external :: bool
  pr_ready_for_dispatch :: bool
  pr_current_action_id :: "string option"
  pr_recovery_mode :: "string option"
  pr_recovery_reason :: "string option"
  pr_active_child_runs :: "string list"
  pr_policy_versions :: "run_policy_versions option"
  pr_task_contract_ref :: "string option"

record admission_result =
  ad_admitted :: bool
  ad_reason_code :: admission_reason
  ad_expires_at :: "string option"
  ad_grant_ref :: "string option"
  ad_policy_snapshot_ref :: "string option"
  ad_sandbox_grant :: "sandbox_grant option"
  ad_idempotency_envelope :: "jdict option"

definition AdmissionResult :: "bool \<Rightarrow> admission_reason \<Rightarrow> admission_result" where
  "AdmissionResult admitted reason =
     \<lparr>ad_admitted = admitted, ad_reason_code = reason, ad_expires_at = None, ad_grant_ref = None,
      ad_policy_snapshot_ref = None, ad_sandbox_grant = None, ad_idempotency_envelope = None\<rparr>"

record tool_activity_input =
  ta_run_id :: string
  ta_action_id :: string
  ta_tool_name :: string
  ta_arguments :: jdict

record mcp_activity_input =
  mc_run_id :: string
  mc_action_id :: string
  mc_server_name :: string
  mc_operation :: string
  mc_arguments :: jdict

record remote_service_idempotency_contract =
  rc_accepts_dispatch_idempotency_key :: bool
  rc_returns_stable_ack :: bool
  rc_peer_retry_model :: string
  rc_default_retry_policy :: string

section \<open>Failure and recovery\<close>

datatype failed_stage = Stage_admission | Stage_execution | Stage_verification
  | Stage_reconciliation | Stage_callback

datatype failure_class = Class_deterministic | Class_transient | Class_policy
  | Class_side_effect | Class_unknown

datatype evidence_source = Src_external_ack_ref | Src_evidence_ref | Src_local_inference | Src_none

datatype retryability = Retryable | Non_retryable | Retryability_unknown

datatype trace_failure_code =
    MISSING_EVIDENCE | INVALID_CONTEXT | HARNESS_DENIED | MODEL_OUTPUT_INVALID | MODEL_REFUSAL
  | CALLBACK_TIMEOUT | NO_PROGRESS | CONTRADICTORY_EVIDENCE | UNSAFE_ACTION_BLOCKED
  | EXPLORATION_BUDGET_EXHAUSTED | EXECUTION_BUDGET_EXHAUSTED

fun is_budget_exhausted :: "trace_failure_code \<Rightarrow> bool" where
  "is_budget_exhausted code =
     (code \<in> {EXPLORATION_BUDGET_EXHAUSTED, EXECUTION_BUDGET_EXHAUSTED})"

record failure_envelope =
  fe_run_id :: string
  fe_action_id :: "string option"
  fe_failed_stage :: failed_stage
  fe_failed_component :: string
  fe_failure_code :: string
  fe_failure_class :: failure_class
  fe_evidence_ref :: "string option"
  fe_external_ack_ref :: "string option"
  fe_local_inference :: "string option"
  fe_evidence_priority_source :: evidence_source
  fe_evidence_priority_ref :: "string option"
  fe_retryability :: retryability
  fe_compensation_hint :: "string option"
  fe_human_escalation_hint :: "string option"
  fe_trace_failure_code :: "trace_failure_code option"

record circuit_breaker_policy =
  cb_threshold :: int
  cb_half_open_after_ms :: int

record recovery_decision =
  rd_run_id :: string
  rd_mode :: string
  rd_reason :: string
  rd_compensation_action_id :: "string option"
  rd_escalation_channel_ref :: "string option"
  rd_corrected_action :: "action option"
  rd_retry_after_ms :: "int option"
  rd_failure_count :: int

record recovery_outcome =
  ro_run_id :: string
  ro_action_id :: "string option"
  ro_recovery_mode :: string
  ro_outcome_state :: string
  ro_written_at :: string
  ro_operator_escalation_ref :: "string option"
  ro_emitted_event_ids :: "string list"

record reflection_policy =
  rp_max_rounds :: int
  rp_reflection_timeout_ms :: int
  rp_reflectable_failure_kinds :: "string list"
  rp_non_reflectable_failure_kinds :: "string list"
  rp_escalate_on_exhaustion :: bool

definition is_reflectable :: "reflection_policy \<Rightarrow> string \<Rightarrow> bool" where
  "is_reflectable p failure_kind =
     (if failure_kind \<in> set (rp_non_reflectable_failure_kinds p) then False
      else failure_kind \<in> set (rp_reflectable_failure_kinds p))"

end
