(* ===== verification/Schema_Migration.thy ===== *)
theory Schema_Migration
  imports Kernel_Contracts
begin

text \<open>
  \<^verbatim>\<open>persistence/event_schema_migration.py\<close>: the registry of migration steps between event
  schema versions, the breadth-first search for a path of steps and the migration of an event
  along it.  A migration step is an injected function that may raise.
\<close>

section \<open>Registry and search\<close>

type_synonym migration_fn = "runtime_event \<Rightarrow> runtime_event result"

type_synonym migrations = "(string \<times> string, migration_fn) dict"

definition register_migration ::
  "migrations \<Rightarrow> string \<Rightarrow> string \<Rightarrow> migration_fn \<Rightarrow> migrations result" where
  "register_migration migs from_version to_version fn =
     (if from_version = to_version
      then Inl (ValueError ''from_version and to_version must differ.'')
      else Inr (dict_set (from_version, to_version) fn migs))"

text \<open>
  The search state: the queue, the \<^verbatim>\<open>parent\<close> dictionary (the start has no parent) and
  \<^verbatim>\<open>edge_to\<close>.  \<open>scan_edges\<close> is the inner loop over the registered steps.
\<close>

type_synonym bfs_state =
  "string list \<times> (string, string option) dict \<times> (string, string \<times> string) dict"

fun scan_edges :: "string \<Rightarrow> (string \<times> string) list \<Rightarrow> bfs_state \<Rightarrow> bfs_state" where
  "scan_edges current [] st = st"
| "scan_edges current ((src, dst) # es) (queue, parent, edge_to) =
     (if src \<noteq> current \<or> dict_has parent dst
      then scan_edges current es (queue, parent, edge_to)
      else scan_edges current es
             (queue @ [dst], dict_set dst (Some current) parent, dict_set dst (src, dst) edge_to))"

definition unseen :: "(string \<times> string) list \<Rightarrow> (string, string option) dict \<Rightarrow> string set" where
  "unseen es parent = snd ` set es - set (map fst parent)"

lemma finite_unseen [simp]: "finite (unseen es parent)"
  by (simp add: unseen_def)

lemma scan_edges_measure:
  assumes "set es \<subseteq> set all" "scan_edges current es (q, p, e) = (q', p', e')"
  shows "length q' + card (unseen all p') = length q + card (unseen all p)"
  using assms
proof (induction es arbitrary: q p e)
  case (Cons x es)
  obtain src dst where x: "x = (src, dst)" by fastforce
  show ?case
  proof (cases "src \<noteq> current \<or> dict_has p dst")
    case True
    with Cons x show ?thesis by simp
  next
    case False
    have "dst \<in> unseen all p"
      using False Cons.prems(1) x by (force simp: unseen_def dict_has_def)
    moreover have "unseen all (dict_set dst (Some current) p) = unseen all p - {dst}"
      by (auto simp: unseen_def dict_set_keys simp del: set_map)
    ultimately have "Suc (card (unseen all (dict_set dst (Some current) p))) = card (unseen all p)"
      using card.remove [of "unseen all p" dst] by simp
    with Cons False x show ?thesis by simp
  qed
qed simp

text \<open>The \<^verbatim>\<open>while queue\<close> loop.  Every iteration takes one version off the queue for good.\<close>

function bfs :: "(string \<times> string) list \<Rightarrow> string \<Rightarrow> bfs_state \<Rightarrow> bfs_state" where
  "bfs es target ([], parent, edge_to) = ([], parent, edge_to)"
| "bfs es target (current # queue, parent, edge_to) =
     (if current = target then (queue, parent, edge_to)
      else bfs es target (scan_edges current es (queue, parent, edge_to)))"
  by pat_completeness auto
termination
proof (relation "measure (\<lambda>(es, target, queue, parent, edge_to).
    length queue + card (unseen es parent))", goal_cases)
  case (2 es target current queue parent edge_to)
  obtain q p e where "scan_edges current es (queue, parent, edge_to) = (q, p, e)"
    using prod_cases3 by blast
  with scan_edges_measure [OF order_refl this] show ?case by simp
qed simp

text \<open>
  The walk back from the target; \<open>None\<close> when the fuel runs out or a lookup fails.  The number
  of entries of \<^verbatim>\<open>parent\<close> is enough fuel (\<open>resolve_path_total\<close> below).
\<close>

fun walk_back :: "nat \<Rightarrow> string \<Rightarrow> (string, string option) dict \<Rightarrow> (string, string \<times> string) dict
    \<Rightarrow> string \<Rightarrow> (string \<times> string) list \<Rightarrow> (string \<times> string) list option" where
  "walk_back fuel from_version parent edge_to node path =
     (if node = from_version then Some path
      else case fuel of 0 \<Rightarrow> None
        | Suc n \<Rightarrow>
            (case (dict_get edge_to node, dict_get parent node) of
               (Some edge, Some (Some up)) \<Rightarrow> walk_back n from_version parent edge_to up (edge # path)
             | _ \<Rightarrow> None))"

declare walk_back.simps [simp del]

definition resolve_path :: "(string \<times> string) list \<Rightarrow> string \<Rightarrow> string \<Rightarrow> (string \<times> string) list option" where
  "resolve_path es from_version target_version =
     (case bfs es target_version ([from_version], [(from_version, None)], []) of
        (_, parent, edge_to) \<Rightarrow>
          if \<not> dict_has parent target_version then Some []
          else walk_back (length parent) from_version parent edge_to target_version [])"

section \<open>Migration of an event\<close>

fun apply_path :: "migrations \<Rightarrow> (string \<times> string) list \<Rightarrow> runtime_event \<Rightarrow> runtime_event result" where
  "apply_path migs [] migrated = Inr migrated"
| "apply_path migs ((from_version, to_version) # path) migrated =
     (case dict_get migs (from_version, to_version) of
        None \<Rightarrow> Inl (KeyError from_version)
      | Some migrate_fn \<Rightarrow>
          bind_result (migrate_fn migrated) (\<lambda>migrated.
            apply_path migs path
              (if ev_schema_version migrated \<noteq> to_version
               then migrated\<lparr>ev_schema_version := to_version\<rparr> else migrated)))"

definition attach_original_schema_version :: "runtime_event \<Rightarrow> runtime_event \<Rightarrow> runtime_event" where
  "attach_original_schema_version original migrated =
     (if ev_schema_version original = ev_schema_version migrated then migrated
      else migrated\<lparr>ev_payload_json :=
        Some (dict_setdefault ''original_schema_version'' (JStr (ev_schema_version original))
          (case ev_payload_json migrated of None \<Rightarrow> [] | Some d \<Rightarrow> d))\<rparr>)"

definition no_path_error :: "string \<Rightarrow> string \<Rightarrow> exn" where
  "no_path_error source target = SchemaMigrationError
     (''No schema migration path from '' @ repr_str source @ '' to '' @ repr_str target @ ''.'')"

definition migrate :: "migrations \<Rightarrow> runtime_event \<Rightarrow> string \<Rightarrow> runtime_event result" where
  "migrate migs event target_version =
     (if ev_schema_version event = target_version then Inr event
      else case resolve_path (map fst migs) (ev_schema_version event) target_version of
        None \<Rightarrow> Inl (KeyError target_version)
      | Some path \<Rightarrow>
          if path = [] then Inl (no_path_error (ev_schema_version event) target_version)
          else bind_result (apply_path migs path event)
                 (\<lambda>migrated. Inr (attach_original_schema_version event migrated)))"

fun migrate_batch :: "migrations \<Rightarrow> runtime_event list \<Rightarrow> string \<Rightarrow> runtime_event list result" where
  "migrate_batch migs [] target_version = Inr []"
| "migrate_batch migs (event # events) target_version =
     bind_result (migrate migs event target_version) (\<lambda>e.
       bind_result (migrate_batch migs events target_version) (\<lambda>es. Inr (e # es)))"

section \<open>The search finds a path exactly when there is one\<close>

text \<open>
  Invariant of the search: the keys of \<^verbatim>\<open>parent\<close> are distinct and begin with the start, and
  every other key has an earlier key as its parent, with the registered step between them.
\<close>

definition bfs_ok :: "(string \<times> string) list \<Rightarrow> string \<Rightarrow> (string, string option) dict
    \<Rightarrow> (string, string \<times> string) dict \<Rightarrow> bool" where
  "bfs_ok es from_version parent edge_to \<longleftrightarrow>
     dict_wf parent \<and> (\<exists>rest. parent = (from_version, None) # rest) \<and>
     (\<forall>pre v up post. parent = pre @ (v, up) # post \<longrightarrow> v \<noteq> from_version \<longrightarrow>
        (\<exists>u. up = Some u \<and> u \<in> set (map fst pre) \<and> (u, v) \<in> set es \<and> dict_get edge_to v = Some (u, v)))"

lemma dict_set_fresh: "\<not> dict_has d k \<Longrightarrow> dict_set k v d = d @ [(k, v)]"
  unfolding dict_set_def dict_has_def by (induction d) auto

lemma bfs_ok_init: "bfs_ok es v [(v, None)] []"
  by (auto simp: bfs_ok_def dict_wf_def Cons_eq_append_conv)

lemma bfs_ok_add:
  assumes ok: "bfs_ok es s parent edge_to" and new: "\<not> dict_has parent dst"
    and up: "dict_has parent src" and edge: "(src, dst) \<in> set es"
  shows "bfs_ok es s (dict_set dst (Some src) parent) (dict_set dst (src, dst) edge_to)"
proof -
  have start: "s \<in> set (map fst parent)" using ok by (auto simp: bfs_ok_def)
  then have "dst \<noteq> s" using new by (auto simp: dict_has_def)
  have "\<exists>u. upv = Some u \<and> u \<in> set (map fst pre) \<and> (u, v) \<in> set es
      \<and> dict_get (dict_set dst (src, dst) edge_to) v = Some (u, v)"
    if split: "parent @ [(dst, Some src)] = pre @ (v, upv) # post" and "v \<noteq> s" for pre v upv post
  proof (cases post rule: rev_cases)
    case Nil
    with split up edge show ?thesis by (auto simp: dict_has_def)
  next
    case (snoc post' x)
    with split have p: "parent = pre @ (v, upv) # post'" by simp
    then have "v \<in> set (map fst parent)" by simp
    then have "v \<noteq> dst" using new by (auto simp: dict_has_def)
    with p ok \<open>v \<noteq> s\<close> show ?thesis unfolding bfs_ok_def by simp
  qed
  then show ?thesis
    using ok dict_wf_set [of parent dst "Some src"]
    unfolding bfs_ok_def dict_set_fresh [OF new] by fastforce
qed

lemma scan_edges_ok:
  assumes "bfs_ok all s p e" "set es \<subseteq> set all" "dict_has p current" "scan_edges current es (q, p, e) = (q', p', e')"
  shows "bfs_ok all s p' e' \<and> (\<exists>new. q' = q @ new \<and> set (map fst p') = set (map fst p) \<union> set new)
    \<and> (\<forall>dst. (current, dst) \<in> set es \<longrightarrow> dict_has p' dst)"
  using assms
proof (induction es arbitrary: q p e)
  case (Cons x es)
  obtain src dst where x: "x = (src, dst)" by fastforce
  show ?case
  proof (cases "src \<noteq> current \<or> dict_has p dst")
    case True
    with Cons x have "bfs_ok all s p' e' \<and> (\<exists>new. q' = q @ new \<and> set (map fst p') = set (map fst p) \<union> set new)
      \<and> (\<forall>dst. (current, dst) \<in> set es \<longrightarrow> dict_has p' dst)" by simp
    with True x show ?thesis by (auto simp: dict_has_def)
  next
    case False
    let ?p = "dict_set dst (Some current) p" and ?e = "dict_set dst (src, dst) e"
    have ok: "bfs_ok all s ?p ?e"
      using bfs_ok_add [of all s p e dst src] Cons.prems False x by simp
    have "dict_has ?p current" using Cons.prems(3) by (simp add: dict_has_iff)
    from Cons.IH [OF ok _ this, of "q @ [dst]"] Cons.prems False x
    have IH: "bfs_ok all s p' e'" "\<exists>new. q' = (q @ [dst]) @ new \<and> set (map fst p') = set (map fst ?p) \<union> set new"
      "\<forall>dst. (current, dst) \<in> set es \<longrightarrow> dict_has p' dst" by simp_all
    then obtain new where new: "q' = q @ (dst # new)" "set (map fst p') = set (map fst p) \<union> set (dst # new)"
      by (auto simp: dict_set_keys simp del: set_map)
    then have "dict_has p' dst" by (simp add: dict_has_def)
    with IH new x show ?thesis by auto
  qed
qed auto

text \<open>
  When the search ends without having met the target, the set of parents is closed under the
  steps; the versions still queued are the only ones not yet expanded.
\<close>

definition bfs_closed :: "(string \<times> string) list \<Rightarrow> string list \<Rightarrow> (string, string option) dict \<Rightarrow> bool" where
  "bfs_closed es queue parent \<longleftrightarrow>
     (\<forall>u v. (u, v) \<in> set es \<longrightarrow> dict_has parent u \<longrightarrow> u \<notin> set queue \<longrightarrow> dict_has parent v)"

lemma bfs_result:
  assumes "bfs es target (q, p, e) = (q', p', e')" "bfs_ok es s p e"
    "set q \<subseteq> set (map fst p)" "bfs_closed es q p"
  shows "bfs_ok es s p' e' \<and> (dict_has p' target \<or> bfs_closed es [] p')"
  using assms
proof (induction es target "(q, p, e)" arbitrary: q p e rule: bfs.induct)
  case (2 es target current queue parent edge_to)
  obtain q1 p1 e1 where scan: "scan_edges current es (queue, parent, edge_to) = (q1, p1, e1)"
    using prod_cases3 by blast
  show ?case
  proof (cases "current = target")
    case True
    with 2 show ?thesis by (auto simp: dict_has_def)
  next
    case False
    have cur: "dict_has parent current" using "2.prems"(3) by (auto simp: dict_has_def)
    from scan_edges_ok [OF "2.prems"(2) order_refl cur scan]
    obtain new where ok: "bfs_ok es s p1 e1" and q1: "q1 = queue @ new"
      and p1: "set (map fst p1) = set (map fst parent) \<union> set new"
      and all: "\<And>dst. (current, dst) \<in> set es \<Longrightarrow> dict_has p1 dst" by blast
    have sub: "set q1 \<subseteq> set (map fst p1)" using "2.prems"(3) q1 p1 by auto
    have "bfs_closed es q1 p1"
      using "2.prems"(4) q1 p1 all unfolding bfs_closed_def dict_has_def by (metis UnCI UnE set_ConsD set_append)
    then show ?thesis
      using "2.hyps" [OF False] ok sub "2.prems"(1) False scan by simp
  qed
qed auto

lemma closed_reaches:
  assumes "(s, v) \<in> (set es)\<^sup>*" "bfs_closed es [] p" "dict_has p s"
  shows "dict_has p v"
  using assms by (induction rule: rtrancl_induct) (auto simp: bfs_closed_def)

text \<open>A path of steps from one version to another.\<close>

fun path_from :: "string \<Rightarrow> (string \<times> string) list \<Rightarrow> string \<Rightarrow> bool" where
  "path_from u [] v = (u = v)"
| "path_from u ((a, b) # es) v = (u = a \<and> path_from b es v)"

lemma path_from_rtrancl: "path_from u path v \<Longrightarrow> set path \<subseteq> R \<Longrightarrow> (u, v) \<in> R\<^sup>*"
  by (induction u path v rule: path_from.induct) (auto intro: converse_rtrancl_into_rtrancl)

lemma walk_back_path:
  assumes "bfs_ok es s parent edge_to" "parent = pre @ (v, up) # post" "length pre \<le> fuel"
    "path_from v acc t" "set acc \<subseteq> set es"
  shows "\<exists>path. walk_back fuel s parent edge_to v acc = Some path \<and> path_from s path t
    \<and> set path \<subseteq> set es \<and> (v \<noteq> s \<longrightarrow> path \<noteq> []) \<and> (acc \<noteq> [] \<longrightarrow> path \<noteq> [])"
  using assms
proof (induction fuel arbitrary: v acc pre up post)
  case 0
  then have "parent = (v, up) # post" by simp
  with 0 have "v = s" by (auto simp: bfs_ok_def)
  with 0 show ?case by (simp add: walk_back.simps)
next
  case (Suc n)
  show ?case
  proof (cases "v = s")
    case True
    with Suc.prems show ?thesis by (subst walk_back.simps) simp
  next
    case False
    with Suc.prems obtain u where u: "up = Some u" "u \<in> set (map fst pre)" "(u, v) \<in> set es"
      "dict_get edge_to v = Some (u, v)" unfolding bfs_ok_def by blast
    have wf: "dict_wf parent" using Suc.prems(1) by (simp add: bfs_ok_def)
    have get: "dict_get parent v = Some (Some u)"
      using dict_in_set [OF wf, of v "Some u"] Suc.prems(2) u(1) by simp
    obtain pre' upu post' where pre: "pre = pre' @ (u, upu) # post'"
      using u(2) by (auto dest!: split_list)
    have "\<exists>path. walk_back n s parent edge_to u ((u, v) # acc) = Some path \<and> path_from s path t
      \<and> set path \<subseteq> set es \<and> (u \<noteq> s \<longrightarrow> path \<noteq> []) \<and> ((u, v) # acc \<noteq> [] \<longrightarrow> path \<noteq> [])"
      using Suc.prems pre u by (intro Suc.IH [of pre' u upu "post' @ (v, up) # post"]) auto
    then show ?thesis
      using False u(4) get by (subst walk_back.simps) auto
  qed
qed

lemma resolve_path_total:
  "\<exists>path. resolve_path es s t = Some path \<and>
     (if (s, t) \<in> (set es)\<^sup>* then path_from s path t \<and> set path \<subseteq> set es \<and> (s \<noteq> t \<longrightarrow> path \<noteq> [])
      else path = [])"
proof -
  obtain q p e where run: "bfs es t ([s], [(s, None)], []) = (q, p, e)"
    using prod_cases3 by blast
  have res: "bfs_ok es s p e" "dict_has p t \<or> bfs_closed es [] p"
    using bfs_result [OF run bfs_ok_init] by (auto simp: bfs_closed_def dict_has_def)
  have start: "dict_has p s" using res(1) by (auto simp: bfs_ok_def dict_has_def)
  show ?thesis
  proof (cases "dict_has p t")
    case True
    then obtain pre up post where p: "p = pre @ (t, up) # post"
      by (auto simp: dict_has_def dest!: split_list)
    from walk_back_path [OF res(1) p, of "length p" "[]" t] p
    obtain path where "walk_back (length p) s p e t [] = Some path" "path_from s path t"
      "set path \<subseteq> set es" "t \<noteq> s \<longrightarrow> path \<noteq> []" by auto
    with True run show ?thesis
      by (auto simp: resolve_path_def intro: path_from_rtrancl)
  next
    case False
    then have "(s, t) \<notin> (set es)\<^sup>*" using res(2) closed_reaches start by blast
    with False run show ?thesis by (simp add: resolve_path_def)
  qed
qed

section \<open>Properties of migration\<close>

lemma apply_path_version:
  assumes "apply_path migs path e = Inr e'" "path_from v path t" "path \<noteq> []"
  shows "ev_schema_version e' = t"
  using assms
proof (induction migs path e arbitrary: v rule: apply_path.induct)
  case (2 migs a b path e)
  then show ?case
    by (cases path) (auto elim!: bind_result_InrE split: option.splits if_splits)
qed simp

text \<open>
  Migration succeeds only with an event at the target version, and the payload of
  an event that changed version records the version it came from (unless a step already wrote
  such a key).
\<close>

theorem migrate_reaches_target:
  assumes "migrate migs event target_version = Inr migrated"
  shows "ev_schema_version migrated = target_version \<and>
    (ev_schema_version event \<noteq> target_version \<longrightarrow>
       (\<exists>d. ev_payload_json migrated = Some d \<and> dict_has d ''original_schema_version''))"
proof (cases "ev_schema_version event = target_version")
  case True
  with assms show ?thesis by (simp add: migrate_def)
next
  case False
  obtain path where path: "resolve_path (map fst migs) (ev_schema_version event) target_version = Some path"
    and ok: "if (ev_schema_version event, target_version) \<in> (set (map fst migs))\<^sup>*
      then path_from (ev_schema_version event) path target_version else path = []"
    using resolve_path_total [of "map fst migs" "ev_schema_version event" target_version]
    by (auto split: if_splits)
  with assms False have ne: "path \<noteq> []" and "bind_result (apply_path migs path event)
      (\<lambda>migrated. Inr (attach_original_schema_version event migrated)) = Inr migrated"
    by (auto simp: migrate_def split: if_splits)
  then obtain e' where e': "apply_path migs path event = Inr e'"
    and m: "migrated = attach_original_schema_version event e'"
    by (auto elim: bind_result_InrE)
  have "ev_schema_version e' = target_version"
    using apply_path_version [OF e' _ ne] ok ne by (auto split: if_splits)
  with m False show ?thesis
    by (auto simp: attach_original_schema_version_def dict_setdefault_def dict_has_iff split: option.splits)
qed

definition sample_event :: "string \<Rightarrow> string \<Rightarrow> runtime_event" where
  "sample_event eid etype =
     \<lparr>ev_run_id = ''r1'', ev_event_id = eid, ev_commit_offset = 0, ev_event_type = etype,
      ev_event_class = Fact, ev_event_authority = Authoritative_fact, ev_ordering_key = ''k'',
      ev_wake_policy = Wake_actor, ev_created_at = ''t'', ev_idempotency_key = None,
      ev_payload_ref = None, ev_payload_json = None, ev_schema_version = ''1''\<rparr>"

definition sample_migrations :: migrations where
  "sample_migrations = [((''1'', ''2''), Inr), ((''2'', ''3''), Inr)]"

theorem migrate_reaches_target_witness:
  "\<exists>migrated. migrate sample_migrations (sample_event ''e'' ''run.created'') ''3'' = Inr migrated
     \<and> ev_schema_version migrated = ''3''"
proof -
  have "is_ok (migrate sample_migrations (sample_event ''e'' ''run.created'') ''3'')"
    by code_simp
  then obtain migrated where "migrate sample_migrations (sample_event ''e'' ''run.created'') ''3'' = Inr migrated"
    by (auto simp: is_ok_def split: sum.splits)
  with migrate_reaches_target [OF this] show ?thesis by blast
qed

text \<open>
  C37 (termination): migration fails for want of a path exactly when the registered steps do not lead from
  the event's version to the target; the search never fails otherwise.
\<close>

theorem migrate_fails_iff_unreachable:
  "if (ev_schema_version event, target_version) \<in> (set (map fst migs))\<^sup>*
   then \<exists>path. path_from (ev_schema_version event) path target_version \<and> set path \<subseteq> set (map fst migs)
          \<and> migrate migs event target_version =
            (if path = [] then Inr event
             else bind_result (apply_path migs path event)
               (\<lambda>migrated. Inr (attach_original_schema_version event migrated)))
   else migrate migs event target_version =
          Inl (no_path_error (ev_schema_version event) target_version)"
proof (cases "ev_schema_version event = target_version")
  case True
  then show ?thesis by (auto simp: migrate_def intro!: exI [of _ "[]"])
next
  case False
  obtain path where "resolve_path (map fst migs) (ev_schema_version event) target_version = Some path"
    and "if (ev_schema_version event, target_version) \<in> (set (map fst migs))\<^sup>*
      then path_from (ev_schema_version event) path target_version \<and> set path \<subseteq> set (map fst migs) \<and> path \<noteq> []
      else path = []"
    using resolve_path_total [of "map fst migs" "ev_schema_version event" target_version] False
    by (metis (no_types, lifting))
  with False show ?thesis
    unfolding migrate_def by (cases "path = []") (simp_all split: if_splits, blast)
qed

end
