(* ===== verification/Event_Log.thy ===== *)
theory Event_Log
  imports Schema_Migration
begin

text \<open>
  The authoritative event log: the contract of \<^verbatim>\<open>KernelRuntimeEventLog\<close> as a locale and
  \<^verbatim>\<open>InMemoryKernelRuntimeEventLog\<close> of \<^verbatim>\<open>kernel/minimal_runtime.py\<close>, with its cap on the number
  of retained runs.
\<close>

section \<open>The in-memory log\<close>

record event_log =
  el_events_by_run :: "(string, runtime_event list) dict"
  el_next_offset_by_run :: "(string, int) dict"
  el_commit_sequence :: int

definition MAX_RETAINED_RUNS :: nat where
  "MAX_RETAINED_RUNS = 5000"

definition empty_event_log :: event_log where
  "empty_event_log =
     \<lparr>el_events_by_run = [], el_next_offset_by_run = [], el_commit_sequence = 0\<rparr>"

text \<open>
  The loop over the events of a commit: each gets the next offset.  The new event is built
  field by field without \<^verbatim>\<open>schema_version\<close>, which therefore takes its default.
\<close>

definition normalize_event :: "int \<Rightarrow> runtime_event \<Rightarrow> runtime_event" where
  "normalize_event offset event =
     \<lparr>ev_run_id = ev_run_id event, ev_event_id = ev_event_id event, ev_commit_offset = offset,
      ev_event_type = ev_event_type event, ev_event_class = ev_event_class event,
      ev_event_authority = ev_event_authority event, ev_ordering_key = ev_ordering_key event,
      ev_wake_policy = ev_wake_policy event, ev_created_at = ev_created_at event,
      ev_idempotency_key = ev_idempotency_key event, ev_payload_ref = ev_payload_ref event,
      ev_payload_json = ev_payload_json event, ev_schema_version = ''1''\<rparr>"

fun normalize_events :: "int \<Rightarrow> runtime_event list \<Rightarrow> runtime_event list" where
  "normalize_events next_offset [] = []"
| "normalize_events next_offset (event # events) =
     normalize_event next_offset event # normalize_events (next_offset + 1) events"

definition append_action_commit :: "event_log \<Rightarrow> action_commit \<Rightarrow> event_log \<times> string result" where
  "append_action_commit s commit =
     (if cm_events commit = [] then
        (s, Inl (ValueError ''ActionCommit.events must contain at least one event.''))
      else
        let events_by_run = dict_setdefault (cm_run_id commit) [] (el_events_by_run s);
            run_events = dict_get_or events_by_run (cm_run_id commit) [];
            next_offset = dict_get_or (el_next_offset_by_run s) (cm_run_id commit) 1;
            events_by_run = dict_set (cm_run_id commit)
              (run_events @ normalize_events next_offset (cm_events commit)) events_by_run;
            next_offset_by_run = dict_set (cm_run_id commit)
              (next_offset + int (length (cm_events commit))) (el_next_offset_by_run s);
            commit_sequence = el_commit_sequence s + 1;
            s' = (if length events_by_run > MAX_RETAINED_RUNS then
                    let oldest = fst (hd events_by_run)
                    in \<lparr>el_events_by_run = dict_pop oldest events_by_run,
                        el_next_offset_by_run = dict_pop oldest next_offset_by_run,
                        el_commit_sequence = commit_sequence\<rparr>
                  else \<lparr>el_events_by_run = events_by_run,
                        el_next_offset_by_run = next_offset_by_run,
                        el_commit_sequence = commit_sequence\<rparr>)
        in (s', Inr (''commit-ref-'' @ show_int commit_sequence)))"

definition load_events :: "event_log \<Rightarrow> string \<Rightarrow> int \<Rightarrow> runtime_event list" where
  "load_events s run_id after_offset =
     filter (\<lambda>event. ev_commit_offset event > after_offset)
       (dict_get_or (el_events_by_run s) run_id [])"

definition cleanup_completed_run :: "event_log \<Rightarrow> string \<Rightarrow> event_log" where
  "cleanup_completed_run s run_id =
     s\<lparr>el_events_by_run := dict_pop run_id (el_events_by_run s),
       el_next_offset_by_run := dict_pop run_id (el_next_offset_by_run s)\<rparr>"

section \<open>The contract of an event log\<close>

text \<open>
  What the readers of a log rely on: the events of a run carry the offsets 1, 2, 3, ... in
  this order, \<^verbatim>\<open>load\<close> returns those after an offset, and a successful append adds one stored
  event per event of the commit, equal to it up to offset, schema version and key order.  \<open>retained\<close>
  says which runs survive an append: the log may forget others.
\<close>

definition same_event :: "runtime_event \<Rightarrow> runtime_event \<Rightarrow> bool" where
  "same_event e e' \<longleftrightarrow>
     e'\<lparr>ev_commit_offset := ev_commit_offset e, ev_schema_version := ev_schema_version e,
        ev_payload_json := ev_payload_json e\<rparr> = e
     \<and> same_payload (ev_payload_json e) (ev_payload_json e')"

definition offsets_from :: "int \<Rightarrow> runtime_event list \<Rightarrow> bool" where
  "offsets_from k es \<longleftrightarrow> map ev_commit_offset es = map (\<lambda>i. k + int i) [0..<length es]"

lemma offsets_from_Cons: "offsets_from k (e # es) \<longleftrightarrow> ev_commit_offset e = k \<and> offsets_from (k + 1) es"
proof -
  have "map (\<lambda>i. k + int i) [0..<Suc n] = k # map (\<lambda>i. k + 1 + int i) [0..<n]" for n
    by (simp add: upt_conv_Cons map_Suc_upt [symmetric] del: upt_Suc)
  then show ?thesis by (simp add: offsets_from_def)
qed

lemma offsets_from_Nil [simp]: "offsets_from k []"
  by (simp add: offsets_from_def)

lemma offsets_from_append:
  "offsets_from k (xs @ ys) \<longleftrightarrow> offsets_from k xs \<and> offsets_from (k + int (length xs)) ys"
  by (induction xs arbitrary: k) (auto simp: offsets_from_Cons ac_simps)

lemma offsets_from_bounds: "offsets_from k es \<Longrightarrow> e \<in> set es \<Longrightarrow> k \<le> ev_commit_offset e"
  by (induction es arbitrary: k) (auto simp: offsets_from_Cons, fastforce)

locale event_log_port =
  fixes append :: "'s \<Rightarrow> action_commit \<Rightarrow> 's \<times> string result"
    and load :: "'s \<Rightarrow> string \<Rightarrow> int \<Rightarrow> runtime_event list"
    and invar :: "'s \<Rightarrow> bool"
    and retained :: "'s \<Rightarrow> action_commit \<Rightarrow> string \<Rightarrow> bool"
  assumes load_after: "invar s \<Longrightarrow> load s run_id k = filter (\<lambda>e. ev_commit_offset e > k) (load s run_id 0)"
    and load_offsets: "invar s \<Longrightarrow> offsets_from 1 (load s run_id 0)"
    and append_invar: "invar s \<Longrightarrow> append s commit = (s', res) \<Longrightarrow> invar s'"
    and append_error: "invar s \<Longrightarrow> append s commit = (s', Inl e) \<Longrightarrow> load s' run_id 0 = load s run_id 0"
    and append_run: "invar s \<Longrightarrow> append s commit = (s', Inr ref) \<Longrightarrow>
      \<exists>new. load s' (cm_run_id commit) 0 = load s (cm_run_id commit) 0 @ new
        \<and> list_all2 same_event (cm_events commit) new"
    and append_other: "invar s \<Longrightarrow> append s commit = (s', Inr ref) \<Longrightarrow> run_id \<noteq> cm_run_id commit \<Longrightarrow>
      retained s commit run_id \<Longrightarrow> load s' run_id 0 = load s run_id 0"
begin

lemma load_sorted: "invar s \<Longrightarrow> sorted_wrt (<) (map ev_commit_offset (load s run_id 0))"
  using load_offsets [of s run_id] by (auto simp: offsets_from_def sorted_wrt_iff_nth_less)

lemma load_positive: "invar s \<Longrightarrow> e \<in> set (load s run_id 0) \<Longrightarrow> 0 < ev_commit_offset e"
  using offsets_from_bounds [OF load_offsets] by fastforce

text \<open>A successful append gives the new events the next offsets without a gap.\<close>

lemma append_next_offsets:
  assumes "invar s" "append s commit = (s', Inr ref)"
  shows "\<exists>new. load s' (cm_run_id commit) 0 = load s (cm_run_id commit) 0 @ new
    \<and> list_all2 same_event (cm_events commit) new
    \<and> offsets_from (int (length (load s (cm_run_id commit) 0)) + 1) new"
  using append_run [OF assms] load_offsets [OF append_invar [OF assms], of "cm_run_id commit"]
  by (auto simp: offsets_from_append ac_simps)

end

section \<open>The in-memory log fulfils the contract\<close>

lemma length_normalize_events [simp]: "length (normalize_events k es) = length es"
  by (induction es arbitrary: k) auto

lemma normalize_event_simps [simp]:
  "ev_commit_offset (normalize_event k e) = k"
  "same_event e (normalize_event k e)"
  by (cases e; simp add: normalize_event_def same_event_def)+

lemma same_normalize_events: "list_all2 same_event es (normalize_events k es)"
  by (induction es arbitrary: k) auto

lemma offsets_normalize: "offsets_from k (normalize_events k es)"
  by (induction es arbitrary: k) (auto simp: offsets_from_Cons)

definition log_invar :: "event_log \<Rightarrow> bool" where
  "log_invar s \<longleftrightarrow>
     dict_wf (el_events_by_run s) \<and> length (el_events_by_run s) \<le> MAX_RETAINED_RUNS \<and>
     (\<forall>r. dict_get (el_next_offset_by_run s) r =
        map_option (\<lambda>es. int (length es) + 1) (dict_get (el_events_by_run s) r)) \<and>
     (\<forall>r es. dict_get (el_events_by_run s) r = Some es \<longrightarrow> offsets_from 1 es)"

text \<open>A run is retained by an append unless the cap is reached and it is the oldest.\<close>

definition log_retains :: "event_log \<Rightarrow> action_commit \<Rightarrow> string \<Rightarrow> bool" where
  "log_retains s commit run_id \<longleftrightarrow>
     dict_has (el_events_by_run s) (cm_run_id commit) \<or>
     length (el_events_by_run s) < MAX_RETAINED_RUNS \<or>
     run_id \<noteq> fst (hd (el_events_by_run s))"

lemma log_invar_empty [simp]: "log_invar empty_event_log"
  by (simp add: log_invar_def empty_event_log_def)

lemma load_events_0:
  assumes "log_invar s"
  shows "load_events s run_id 0 = dict_get_or (el_events_by_run s) run_id []"
proof -
  have "offsets_from 1 (dict_get_or (el_events_by_run s) run_id [])"
    using assms by (auto simp: log_invar_def dict_get_or_def split: option.splits)
  then show ?thesis
    using offsets_from_bounds unfolding load_events_def by (force intro!: filter_True)
qed

text \<open>What an accepted commit does to the stored events, before the cap is applied.\<close>

definition log_extend :: "event_log \<Rightarrow> action_commit \<Rightarrow> (string, runtime_event list) dict" where
  "log_extend s commit =
     (let old = dict_get_or (el_events_by_run s) (cm_run_id commit) []
      in dict_set (cm_run_id commit)
           (old @ normalize_events (int (length old) + 1) (cm_events commit)) (el_events_by_run s))"

lemma dict_set_setdefault: "dict_set k v (dict_setdefault k w d) = dict_set k v d"
  by (auto simp: dict_setdefault_def dict_set_def dict_has_def)

lemma append_action_commit_eq:
  assumes inv: "log_invar s" and ne: "cm_events commit \<noteq> []"
  shows "append_action_commit s commit =
    ((if length (log_extend s commit) > MAX_RETAINED_RUNS
      then let oldest = fst (hd (log_extend s commit)) in
        \<lparr>el_events_by_run = dict_pop oldest (log_extend s commit),
         el_next_offset_by_run = dict_pop oldest (dict_set (cm_run_id commit)
           (int (length (dict_get_or (log_extend s commit) (cm_run_id commit) [])) + 1)
           (el_next_offset_by_run s)),
         el_commit_sequence = el_commit_sequence s + 1\<rparr>
      else
        \<lparr>el_events_by_run = log_extend s commit,
         el_next_offset_by_run = dict_set (cm_run_id commit)
           (int (length (dict_get_or (log_extend s commit) (cm_run_id commit) [])) + 1)
           (el_next_offset_by_run s),
         el_commit_sequence = el_commit_sequence s + 1\<rparr>),
     Inr (''commit-ref-'' @ show_int (el_commit_sequence s + 1)))"
proof -
  let ?r = "cm_run_id commit"
  have "dict_get_or (dict_setdefault ?r [] (el_events_by_run s)) ?r [] = dict_get_or (el_events_by_run s) ?r []"
    by (auto simp: dict_get_or_def dict_setdefault_def dict_has_iff split: option.splits)
  moreover have "dict_get_or (el_next_offset_by_run s) ?r 1 =
      int (length (dict_get_or (el_events_by_run s) ?r [])) + 1"
    using inv by (auto simp: log_invar_def dict_get_or_def split: option.splits)
  ultimately show ?thesis
    using ne by (simp add: append_action_commit_def log_extend_def dict_set_setdefault Let_def
        dict_get_or_def ac_simps)
qed

lemma log_extend_get:
  "dict_get (log_extend s commit) r =
     (if r = cm_run_id commit
      then Some (dict_get_or (el_events_by_run s) r [] @
        normalize_events (int (length (dict_get_or (el_events_by_run s) r [])) + 1) (cm_events commit))
      else dict_get (el_events_by_run s) r)"
  by (simp add: log_extend_def Let_def)

lemma log_extend_keys:
  "map fst (log_extend s commit) =
     (if dict_has (el_events_by_run s) (cm_run_id commit) then map fst (el_events_by_run s)
      else map fst (el_events_by_run s) @ [cm_run_id commit])"
  by (simp add: log_extend_def Let_def dict_keys_set)

lemma log_extend_over_cap:
  assumes "log_invar s" "length (log_extend s commit) > MAX_RETAINED_RUNS"
  shows "fst (hd (log_extend s commit)) = fst (hd (el_events_by_run s))"
    and "fst (hd (log_extend s commit)) \<noteq> cm_run_id commit"
    and "\<not> dict_has (el_events_by_run s) (cm_run_id commit)"
    and "length (el_events_by_run s) = MAX_RETAINED_RUNS"
    and "dict_has (log_extend s commit) (fst (hd (log_extend s commit)))"
proof -
  have len: "length (log_extend s commit) = length (map fst (log_extend s commit))" by simp
  show new: "\<not> dict_has (el_events_by_run s) (cm_run_id commit)"
    using assms len by (auto simp: log_extend_keys log_invar_def split: if_splits)
  show full: "length (el_events_by_run s) = MAX_RETAINED_RUNS"
    using assms len new by (auto simp: log_extend_keys log_invar_def)
  then obtain x xs where x: "el_events_by_run s = x # xs"
    by (cases "el_events_by_run s") (auto simp: MAX_RETAINED_RUNS_def)
  have keys: "map fst (log_extend s commit) = fst x # map fst xs @ [cm_run_id commit]"
    using new x by (simp add: log_extend_keys)
  then obtain y ys where y: "log_extend s commit = y # ys" "fst y = fst x" by auto
  show "fst (hd (log_extend s commit)) = fst (hd (el_events_by_run s))" using x y by simp
  show "fst (hd (log_extend s commit)) \<noteq> cm_run_id commit" using new x y by (auto simp: dict_has_def)
  show "dict_has (log_extend s commit) (fst (hd (log_extend s commit)))" using y by (simp add: dict_has_def)
qed

lemma length_dict_pop: "dict_wf d \<Longrightarrow> dict_has d k \<Longrightarrow> Suc (length (dict_pop k d)) = length d"
proof (induction d)
  case (Cons x d)
  show ?case
  proof (cases "fst x = k")
    case True
    with Cons.prems show ?thesis by (cases x) (simp add: dict_pop_def dict_wf_def)
  next
    case False
    with Cons have "Suc (length (dict_pop k d)) = length d" by (simp add: dict_has_def dict_wf_def)
    with False show ?thesis by (cases x) (simp add: dict_pop_def)
  qed
qed (simp add: dict_has_def)

lemma log_invar_append:
  assumes inv: "log_invar s" and run: "append_action_commit s commit = (s', res)"
  shows "log_invar s'"
proof (cases "cm_events commit = []")
  case True
  with assms show ?thesis by (simp add: append_action_commit_def)
next
  case False
  let ?L = "log_extend s commit"
  have wf: "dict_wf ?L" using inv by (simp add: log_extend_def Let_def log_invar_def)
  have offs: "offsets_from 1 es" if "dict_get ?L r = Some es" for r es
  proof -
    have "offsets_from 1 (dict_get_or (el_events_by_run s) r [])"
      using inv by (auto simp: log_invar_def dict_get_or_def split: option.splits)
    with that inv show ?thesis
      by (auto simp: log_extend_get offsets_from_append offsets_normalize log_invar_def ac_simps split: if_splits)
  qed
  have nexts: "dict_get (dict_set (cm_run_id commit) (int (length (dict_get_or ?L (cm_run_id commit) [])) + 1)
      (el_next_offset_by_run s)) r = map_option (\<lambda>es. int (length es) + 1) (dict_get ?L r)" for r
    using inv by (simp add: log_extend_get dict_get_or_def log_invar_def)
  show ?thesis
  proof (cases "length ?L > MAX_RETAINED_RUNS")
    case True
    note cap = log_extend_over_cap [OF inv True]
    have "length ?L \<le> Suc MAX_RETAINED_RUNS"
      using arg_cong [OF log_extend_keys, of length s commit] cap by simp
    then have "length (dict_pop (fst (hd ?L)) ?L) \<le> MAX_RETAINED_RUNS"
      using length_dict_pop [OF wf cap(5)] by simp
    then show ?thesis
      using run append_action_commit_eq [OF inv False] True wf offs nexts
      by (auto simp: log_invar_def Let_def split: if_splits)
  next
    case F: False
    then show ?thesis
      using run append_action_commit_eq [OF inv False] wf offs nexts
      by (auto simp: log_invar_def)
  qed
qed

lemma log_append_load:
  assumes inv: "log_invar s" and run: "append_action_commit s commit = (s', Inr ref)"
  shows "load_events s' r 0 =
    (if r = cm_run_id commit
     then load_events s r 0 @ normalize_events (int (length (load_events s r 0)) + 1) (cm_events commit)
     else if log_retains s commit r then load_events s r 0 else [])"
proof -
  have ne: "cm_events commit \<noteq> []" using run by (auto simp: append_action_commit_def)
  note eq = run [unfolded append_action_commit_eq [OF inv ne]]
  have get: "dict_get_or (log_extend s commit) r [] =
      (if r = cm_run_id commit
       then load_events s r 0 @ normalize_events (int (length (load_events s r 0)) + 1) (cm_events commit)
       else load_events s r 0)"
    by (simp add: dict_get_or_def log_extend_get load_events_0 [OF inv])
  show ?thesis
  proof (cases "length (log_extend s commit) > MAX_RETAINED_RUNS")
    case True
    note cap = log_extend_over_cap [OF inv True]
    have "load_events s' r 0 = (if r = fst (hd (el_events_by_run s)) then [] else dict_get_or (log_extend s commit) r [])"
      using eq True cap(1) load_events_0 [OF log_invar_append [OF inv run]]
      by (auto simp: Let_def dict_get_or_def)
    with cap get show ?thesis by (auto simp: log_retains_def)
  next
    case False
    have "log_retains s commit r"
      using False arg_cong [OF log_extend_keys, of length s commit]
      by (auto simp: log_retains_def split: if_splits)
    moreover have "load_events s' r 0 = dict_get_or (log_extend s commit) r []"
      using eq False load_events_0 [OF log_invar_append [OF inv run]] by auto
    ultimately show ?thesis using get by simp
  qed
qed

interpretation mlog: event_log_port append_action_commit load_events log_invar log_retains
proof
  fix s run_id k
  assume inv: "log_invar s"
  show "load_events s run_id k = filter (\<lambda>e. ev_commit_offset e > k) (load_events s run_id 0)"
    by (simp add: load_events_0 [OF inv]) (simp add: load_events_def)
  show "offsets_from 1 (load_events s run_id 0)"
    using inv by (auto simp: load_events_0 [OF inv] log_invar_def dict_get_or_def split: option.splits)
next
  fix s commit s' and res :: "string result"
  assume "log_invar s" "append_action_commit s commit = (s', res)"
  then show "log_invar s'" by (rule log_invar_append)
next
  fix s commit s' e run_id
  assume "append_action_commit s commit = (s', Inl e)"
  then show "load_events s' run_id 0 = load_events s run_id 0"
    by (auto simp: append_action_commit_def Let_def split: if_splits)
next
  fix s commit s' ref
  assume "log_invar s" "append_action_commit s commit = (s', Inr ref)"
  then show "\<exists>new. load_events s' (cm_run_id commit) 0 = load_events s (cm_run_id commit) 0 @ new
      \<and> list_all2 same_event (cm_events commit) new"
    by (simp add: log_append_load same_normalize_events)
next
  fix s commit s' ref run_id
  assume "log_invar s" "append_action_commit s commit = (s', Inr ref)" "run_id \<noteq> cm_run_id commit"
    "log_retains s commit run_id"
  then show "load_events s' run_id 0 = load_events s run_id 0"
    by (simp add: log_append_load)
qed

section \<open>Properties of the log\<close>

fun append_all :: "event_log \<Rightarrow> action_commit list \<Rightarrow> event_log" where
  "append_all s [] = s"
| "append_all s (c # cs) = append_all (fst (append_action_commit s c)) cs"

lemma log_invar_append_all: "log_invar s \<Longrightarrow> log_invar (append_all s cs)"
proof (induction cs arbitrary: s)
  case (Cons c cs)
  then show ?case
    using log_invar_append [of s c "fst (append_action_commit s c)" "snd (append_action_commit s c)"] by simp
qed simp

text \<open>
  C34 (invariant): whatever commits a log has taken, the stored events of every run carry the
  offsets 1, 2, 3, ... without gap or repetition, and at most 5000 runs are retained.
\<close>

theorem event_log_offsets_contiguous:
  "offsets_from 1 (load_events (append_all empty_event_log commits) run_id 0)
   \<and> length (el_events_by_run (append_all empty_event_log commits)) \<le> 5000"
  using log_invar_append_all [OF log_invar_empty, of commits] mlog.load_offsets
  by (auto simp: log_invar_def MAX_RETAINED_RUNS_def)

text \<open>
  An accepted commit appends exactly its events, in order and with the next
  offsets, to its own run, which is never the run evicted; every other run is untouched, except
  that the oldest is dropped when a new run exceeds the cap.  An empty commit changes nothing.
\<close>

theorem append_action_commit_effect:
  assumes "log_invar s" "append_action_commit s commit = (s', res)"
  shows "case res of
      Inl e \<Rightarrow> cm_events commit = [] \<and> s' = s
    | Inr ref \<Rightarrow> load_events s' r 0 =
       (if r = cm_run_id commit
        then load_events s r 0 @ normalize_events (int (length (load_events s r 0)) + 1) (cm_events commit)
        else if dict_has (el_events_by_run s) (cm_run_id commit)
          \<or> length (el_events_by_run s) < 5000 \<or> r \<noteq> fst (hd (el_events_by_run s))
        then load_events s r 0 else [])"
proof (cases res)
  case (Inl e)
  with assms(2) show ?thesis by (auto simp: append_action_commit_def Let_def split: if_splits)
next
  case (Inr ref)
  with log_append_load [OF assms(1), of commit s' ref r] assms(2) show ?thesis
    by (simp add: log_retains_def MAX_RETAINED_RUNS_def)
qed

definition sample_commit :: "string \<Rightarrow> runtime_event list \<Rightarrow> action_commit" where
  "sample_commit run_id events =
     \<lparr>cm_run_id = run_id, cm_commit_id = ''c'', cm_events = events, cm_created_at = ''t'',
      cm_action = None, cm_caused_by = None\<rparr>"

theorem append_action_commit_effect_witness:
  "load_events (fst (append_action_commit empty_event_log
       (sample_commit ''r1'' [sample_event ''a'' ''run.created'', sample_event ''b'' ''run.ready'']))) ''r1'' 0
   = [normalize_event 1 (sample_event ''a'' ''run.created''), normalize_event 2 (sample_event ''b'' ''run.ready'')]"
proof -
  let ?c = "sample_commit ''r1'' [sample_event ''a'' ''run.created'', sample_event ''b'' ''run.ready'']"
  have run: "append_action_commit empty_event_log ?c =
      (fst (append_action_commit empty_event_log ?c), Inr ''commit-ref-1'')"
    by code_simp
  have old: "load_events empty_event_log ''r1'' 0 = []"
    by (simp add: load_events_def empty_event_log_def)
  from append_action_commit_effect [OF log_invar_empty run, of "''r1''"] old show ?thesis
    by (simp add: sample_commit_def)
qed

end
