(* ===== verification/Projection.thy ===== *)
theory Projection
  imports Event_Log
begin

text \<open>
  \<^verbatim>\<open>InMemoryDecisionProjectionService\<close> of \<^verbatim>\<open>kernel/minimal_runtime.py\<close>: the transition function
  from events to the run projection, and the service that replays unseen events of an event
  log into a cached projection per run.  The service reads the log through the contract of
  \<open>event_log_port\<close>.
\<close>

section \<open>Projecting one event\<close>

definition default_projection :: "string \<Rightarrow> run_projection" where
  "default_projection run_id =
     \<lparr>pr_run_id = run_id, pr_lifecycle_state = Created, pr_projected_offset = 0,
      pr_waiting_external = False, pr_ready_for_dispatch = False, pr_current_action_id = None,
      pr_recovery_mode = None, pr_recovery_reason = None, pr_active_child_runs = [],
      pr_policy_versions = None, pr_task_contract_ref = None\<rparr>"

type_synonym transition = "run_lifecycle_state \<times> bool \<times> bool \<times> string option \<times> string option"

definition STATIC_EVENT_TRANSITIONS ::
  "(string, run_lifecycle_state \<times> bool \<times> bool \<times> string option) dict" where
  "STATIC_EVENT_TRANSITIONS =
     [(''run.created'', (Created, False, False, None)),
      (''run.ready'', (Ready, False, True, None)),
      (''run.resume_requested'', (Recovering, False, False, Some ''static_compensation'')),
      (''run.cancel_requested'', (Aborted, False, False, Some ''abort'')),
      (''run.recovery_succeeded'', (Ready, False, True, None)),
      (''run.recovery_aborted'', (Aborted, False, False, Some ''abort'')),
      (''run.waiting_external'', (Waiting_external, True, False, Some ''human_escalation'')),
      (''run.dispatching'', (Dispatching, False, True, None)),
      (''run.recovering'', (Recovering, False, False, Some ''static_compensation'')),
      (''run.completed'', (Completed, False, False, None)),
      (''run.aborted'', (Aborted, False, False, Some ''abort''))]"

datatype operational_class = External_callback | Timeout_class | Hard_failure | Cancel

fun OPERATIONAL_PRIORITY_RANK :: "operational_class \<Rightarrow> int" where
  "OPERATIONAL_PRIORITY_RANK External_callback = 1"
| "OPERATIONAL_PRIORITY_RANK Timeout_class = 2"
| "OPERATIONAL_PRIORITY_RANK Hard_failure = 3"
| "OPERATIONAL_PRIORITY_RANK Cancel = 4"

definition is_cancel_reason :: "string option \<Rightarrow> bool" where
  "is_cancel_reason reason =
     (if \<not> truthy reason then False else str_contains ''cancel'' (lower (the reason)))"

definition projection_operational_priority :: "run_projection \<Rightarrow> operational_class option" where
  "projection_operational_priority p =
     (if pr_lifecycle_state p = Aborted then
        if is_cancel_reason (pr_recovery_reason p) then Some Cancel else Some Hard_failure
      else if pr_lifecycle_state p = Waiting_external then Some Timeout_class
      else None)"

definition event_operational_priority :: "string \<Rightarrow> operational_class option" where
  "event_operational_priority event_type =
     (if event_type = ''run.cancel_requested'' then Some Cancel
      else if event_type \<in> {''run.recovery_aborted'', ''run.aborted''} then Some Hard_failure
      else if event_type \<in> {''run.waiting_external'', ''reconcile.failed''} then Some Timeout_class
      else if event_type \<in> {''signal.external_callback'', ''signal.callback''} then Some External_callback
      else None)"

definition is_lower_priority_operational_conflict :: "run_projection \<Rightarrow> runtime_event \<Rightarrow> bool" where
  "is_lower_priority_operational_conflict p e =
     (case (projection_operational_priority p, event_operational_priority (ev_event_type e)) of
        (Some current, Some incoming) \<Rightarrow>
          OPERATIONAL_PRIORITY_RANK incoming < OPERATIONAL_PRIORITY_RANK current
      | _ \<Rightarrow> False)"

definition resolve_dynamic_transition ::
  "string \<Rightarrow> (run_lifecycle_state \<times> bool \<times> bool \<times> string option) option" where
  "resolve_dynamic_transition event_type =
     (if event_type \<in> {''signal.child_spawned'', ''signal.child_completed'', ''signal.child_run_completed''}
      then None
      else if startswith event_type ''signal.'' then Some (Ready, False, True, None)
      else None)"

definition event_payload :: "runtime_event \<Rightarrow> jdict" where
  "event_payload e = (case ev_payload_json e of None \<Rightarrow> [] | Some d \<Rightarrow> d)"

definition derive_recovery_reason :: "runtime_event \<Rightarrow> string option \<Rightarrow> string option" where
  "derive_recovery_reason e fallback =
     (case jget (event_payload e) ''reason'' of
        JStr reason \<Rightarrow> Some reason
      | _ \<Rightarrow> if ev_event_type e \<in> {''run.ready'', ''run.completed'', ''run.created''} then None else fallback)"

definition derive_cancel_reason :: "runtime_event \<Rightarrow> string option \<Rightarrow> string" where
  "derive_cancel_reason e fallback =
     (case derive_recovery_reason e fallback of Some r \<Rightarrow> r | None \<Rightarrow> ''cancel_requested'')"

definition projection_unchanged_state :: "run_projection \<Rightarrow> transition" where
  "projection_unchanged_state p =
     (pr_lifecycle_state p, pr_waiting_external p, pr_ready_for_dispatch p, pr_recovery_mode p,
      pr_recovery_reason p)"

definition resolve_projection_transition :: "run_projection \<Rightarrow> runtime_event \<Rightarrow> transition" where
  "resolve_projection_transition p e =
     (if pr_lifecycle_state p = Completed
         \<or> is_lower_priority_operational_conflict p e
         \<or> (pr_lifecycle_state p = Aborted \<and> ev_event_type e \<noteq> ''run.cancel_requested'')
      then projection_unchanged_state p
      else if ev_event_type e = ''run.cancel_requested'' then
        (Aborted, False, False, Some ''abort'', Some (derive_cancel_reason e (pr_recovery_reason p)))
      else if ev_event_type e = ''reconcile.failed'' then
        (Waiting_external, True, False, Some ''human_escalation'',
         derive_recovery_reason e (pr_recovery_reason p))
      else case dict_get STATIC_EVENT_TRANSITIONS (ev_event_type e) of
        Some (st, waiting, ready, mode) \<Rightarrow>
          (st, waiting, ready, mode, derive_recovery_reason e (pr_recovery_reason p))
      | None \<Rightarrow>
          (case resolve_dynamic_transition (ev_event_type e) of
             Some (st, waiting, ready, mode) \<Rightarrow> (st, waiting, ready, mode, pr_recovery_reason p)
           | None \<Rightarrow> projection_unchanged_state p))"

definition extract_child_run_id :: "runtime_event \<Rightarrow> string option" where
  "extract_child_run_id e =
     (case jget (event_payload e) ''child_run_id'' of
        JStr child \<Rightarrow> if child \<noteq> [] then Some child else None
      | _ \<Rightarrow> None)"

definition resolve_active_child_runs :: "run_projection \<Rightarrow> runtime_event \<Rightarrow> string list" where
  "resolve_active_child_runs p e =
     (if pr_lifecycle_state p \<in> {Aborted, Completed} then pr_active_child_runs p
      else case extract_child_run_id e of
        None \<Rightarrow> pr_active_child_runs p
      | Some child_run_id \<Rightarrow>
          if ev_event_type e \<in> {''run.child_spawned'', ''signal.child_spawned''} then
            if child_run_id \<in> set (pr_active_child_runs p) then pr_active_child_runs p
            else pr_active_child_runs p @ [child_run_id]
          else if ev_event_type e \<in> {''run.child_completed'', ''run.child_run_completed'',
                    ''signal.child_completed'', ''signal.child_run_completed''} then
            filter (\<lambda>run_id. run_id \<noteq> child_run_id) (pr_active_child_runs p)
          else pr_active_child_runs p)"

definition apply_projection_event :: "run_projection \<Rightarrow> runtime_event \<Rightarrow> run_projection" where
  "apply_projection_event p e =
     (case resolve_projection_transition p e of
        (lifecycle_state, waiting_external, ready_for_dispatch, recovery_mode, recovery_reason) \<Rightarrow>
          \<lparr>pr_run_id = pr_run_id p, pr_lifecycle_state = lifecycle_state,
           pr_projected_offset = ev_commit_offset e, pr_waiting_external = waiting_external,
           pr_ready_for_dispatch = ready_for_dispatch, pr_current_action_id = pr_current_action_id p,
           pr_recovery_mode = recovery_mode, pr_recovery_reason = recovery_reason,
           pr_active_child_runs = resolve_active_child_runs p e,
           pr_policy_versions = None, pr_task_contract_ref = None\<rparr>)"

definition validate_projection_authority_input :: "runtime_event \<Rightarrow> bool \<Rightarrow> bool" where
  "validate_projection_authority_input e reject_diagnostic =
     (\<not> (reject_diagnostic \<and> ev_event_authority e = Derived_diagnostic))"

section \<open>The service\<close>

record projection_config =
  pc_reject_derived_diagnostic :: bool
  pc_event_schema_migrator :: "migrations option"
  pc_target_event_schema_version :: "string option"

definition maybe_migrate_event :: "projection_config \<Rightarrow> runtime_event \<Rightarrow> runtime_event result" where
  "maybe_migrate_event cfg e =
     (case pc_event_schema_migrator cfg of
        None \<Rightarrow> Inr e
      | Some migs \<Rightarrow>
          (case pc_target_event_schema_version cfg of
             None \<Rightarrow> Inr e
           | Some target \<Rightarrow> migrate migs e target))"

text \<open>The replay loop shared by \<^verbatim>\<open>catch_up\<close> and \<^verbatim>\<open>get\<close>.\<close>

fun replay :: "projection_config \<Rightarrow> run_projection \<Rightarrow> runtime_event list \<Rightarrow> run_projection result" where
  "replay cfg p [] = Inr p"
| "replay cfg p (e # es) =
     bind_result (maybe_migrate_event cfg e) (\<lambda>e'.
       if \<not> validate_projection_authority_input e' (pc_reject_derived_diagnostic cfg)
       then replay cfg p es
       else replay cfg (apply_projection_event p e') es)"

text \<open>The cached projections, and the log read through \<open>load\<close>.\<close>

type_synonym projections = "(string, run_projection) dict"

definition catch_up :: "projection_config \<Rightarrow> (string \<Rightarrow> int \<Rightarrow> runtime_event list) \<Rightarrow> projections
    \<Rightarrow> string \<Rightarrow> int \<Rightarrow> projections \<times> run_projection result" where
  "catch_up cfg load ps run_id through_offset =
     (let p = dict_get_or ps run_id (default_projection run_id);
          unseen_events = load run_id (pr_projected_offset p)
      in case replay cfg p (takeWhile (\<lambda>e. \<not> ev_commit_offset e > through_offset) unseen_events) of
           Inl err \<Rightarrow> (ps, Inl err)
         | Inr p' \<Rightarrow> (dict_set run_id p' ps, Inr p'))"

definition get_projection :: "projection_config \<Rightarrow> (string \<Rightarrow> int \<Rightarrow> runtime_event list) \<Rightarrow> projections
    \<Rightarrow> string \<Rightarrow> projections \<times> run_projection result" where
  "get_projection cfg load ps run_id =
     (let p = dict_get_or ps run_id (default_projection run_id);
          unseen_events = load run_id (pr_projected_offset p)
      in case replay cfg p unseen_events of
           Inl err \<Rightarrow> (ps, Inl err)
         | Inr p' \<Rightarrow> (dict_set run_id p' ps, Inr p'))"

definition readiness :: "projection_config \<Rightarrow> (string \<Rightarrow> int \<Rightarrow> runtime_event list) \<Rightarrow> projections
    \<Rightarrow> string \<Rightarrow> int \<Rightarrow> projections \<times> bool result" where
  "readiness cfg load ps run_id required_offset =
     (case get_projection cfg load ps run_id of
        (ps', Inl err) \<Rightarrow> (ps', Inl err)
      | (ps', Inr p) \<Rightarrow> (ps', Inr (pr_projected_offset p \<ge> required_offset)))"

section \<open>Lifecycle invariants\<close>

text \<open>
  A projection is coherent when its flags agree with its lifecycle state: it waits exactly in
  \<open>Waiting_external\<close>, it may dispatch exactly in \<open>Ready\<close> and \<open>Dispatching\<close>, the recovery mode is the one
  of its state, and no child is listed twice.
\<close>

fun mode_of_state :: "run_lifecycle_state \<Rightarrow> string option" where
  "mode_of_state Aborted = Some ''abort''"
| "mode_of_state Recovering = Some ''static_compensation''"
| "mode_of_state Waiting_external = Some ''human_escalation''"
| "mode_of_state _ = None"

definition coherent :: "run_projection \<Rightarrow> bool" where
  "coherent p \<longleftrightarrow>
     pr_waiting_external p = (pr_lifecycle_state p = Waiting_external) \<and>
     pr_ready_for_dispatch p = (pr_lifecycle_state p \<in> {Ready, Dispatching}) \<and>
     pr_recovery_mode p = mode_of_state (pr_lifecycle_state p) \<and>
     distinct (pr_active_child_runs p)"

lemma apply_projection_event_simps [simp]:
  "pr_run_id (apply_projection_event p e) = pr_run_id p"
  "pr_projected_offset (apply_projection_event p e) = ev_commit_offset e"
  "pr_active_child_runs (apply_projection_event p e) = resolve_active_child_runs p e"
  by (simp_all add: apply_projection_event_def split: prod.split)

lemma static_transition_coherent:
  assumes "dict_get STATIC_EVENT_TRANSITIONS t = Some (st, waiting, ready, mode)"
  shows "waiting = (st = Waiting_external) \<and> ready = (st \<in> {Ready, Dispatching}) \<and> mode = mode_of_state st"
  using assms by (auto simp: STATIC_EVENT_TRANSITIONS_def dict_get_def split: if_splits)

lemma transition_coherent:
  assumes "coherent p" "resolve_projection_transition p e = (st, waiting, ready, mode, reason)"
  shows "waiting = (st = Waiting_external) \<and> ready = (st \<in> {Ready, Dispatching}) \<and> mode = mode_of_state st"
  using assms
  by (auto simp: resolve_projection_transition_def projection_unchanged_state_def coherent_def
      resolve_dynamic_transition_def split: if_splits option.splits dest!: static_transition_coherent)

lemma distinct_child_runs:
  "distinct (pr_active_child_runs p) \<Longrightarrow> distinct (resolve_active_child_runs p e)"
  by (auto simp: resolve_active_child_runs_def split: option.splits)

lemma coherent_apply: "coherent p \<Longrightarrow> coherent (apply_projection_event p e)"
proof -
  assume p: "coherent p"
  obtain st waiting ready mode reason
    where t: "resolve_projection_transition p e = (st, waiting, ready, mode, reason)"
    using prod_cases5 by blast
  show ?thesis
    using transition_coherent [OF p t] distinct_child_runs [of p e] p
    by (simp add: apply_projection_event_def t coherent_def)
qed

lemma coherent_default [simp]: "coherent (default_projection run_id)"
  by (simp add: coherent_def default_projection_def)

text \<open>An invariant of single events is an invariant of replay.\<close>

lemma replay_invariant:
  assumes "replay cfg p es = Inr p'" "P p" "\<And>p e. P p \<Longrightarrow> P (apply_projection_event p e)"
  shows "P p'"
  using assms(1,2)
proof (induction es arbitrary: p)
  case (Cons e es)
  then show ?case using assms(3) by (auto elim!: bind_result_InrE split: if_splits)
qed simp

lemma completed_apply:
  "pr_lifecycle_state p = Completed \<Longrightarrow> pr_lifecycle_state (apply_projection_event p e) = Completed"
  by (simp add: apply_projection_event_def resolve_projection_transition_def projection_unchanged_state_def)

lemma aborted_apply:
  "pr_lifecycle_state p = Aborted \<Longrightarrow> pr_lifecycle_state (apply_projection_event p e) = Aborted"
  by (simp add: apply_projection_event_def resolve_projection_transition_def projection_unchanged_state_def)

lemma cancel_not_lower: "ev_event_type e = ''run.cancel_requested'' \<Longrightarrow> \<not> is_lower_priority_operational_conflict p e"
  by (auto simp: is_lower_priority_operational_conflict_def event_operational_priority_def
      projection_operational_priority_def)

lemma cancel_apply:
  "ev_event_type e = ''run.cancel_requested'' \<Longrightarrow> pr_lifecycle_state p \<noteq> Completed \<Longrightarrow>
     pr_lifecycle_state (apply_projection_event p e) = Aborted"
  by (simp add: apply_projection_event_def resolve_projection_transition_def cancel_not_lower)

section \<open>Incremental replay\<close>

text \<open>
  The projection remembers the offset of the last event it applied, so migration must not
  change offsets for the service to work; schema migrations rewrite payloads only.
\<close>

definition migration_keeps_offset :: "projection_config \<Rightarrow> bool" where
  "migration_keeps_offset cfg \<longleftrightarrow>
     (\<forall>e e'. maybe_migrate_event cfg e = Inr e' \<longrightarrow> ev_commit_offset e' = ev_commit_offset e)"

lemma replay_append:
  "replay cfg p (xs @ ys) = bind_result (replay cfg p xs) (\<lambda>p'. replay cfg p' ys)"
proof (induction xs arbitrary: p)
  case (Cons e xs)
  then show ?case by (cases "maybe_migrate_event cfg e") auto
qed simp

lemma replay_run_id: "replay cfg p es = Inr p' \<Longrightarrow> pr_run_id p' = pr_run_id p"
  using replay_invariant [of cfg p es p' "\<lambda>q. pr_run_id q = pr_run_id p"] by simp

lemma replay_offset_bound:
  assumes "migration_keeps_offset cfg" "replay cfg p es = Inr p'" "pr_projected_offset p \<le> k"
    "\<And>e. e \<in> set es \<Longrightarrow> ev_commit_offset e \<le> k"
  shows "pr_projected_offset p' \<le> k"
  using assms(2-4)
proof (induction es arbitrary: p)
  case (Cons e es)
  obtain e' where e': "maybe_migrate_event cfg e = Inr e'"
    and rest: "(if \<not> validate_projection_authority_input e' (pc_reject_derived_diagnostic cfg)
      then replay cfg p es else replay cfg (apply_projection_event p e') es) = Inr p'"
    using Cons.prems(1) by (auto elim!: bind_result_InrE)
  have "ev_commit_offset e' = ev_commit_offset e"
    using assms(1) e' by (auto simp: migration_keeps_offset_def)
  with rest Cons.prems Cons.IH [of p] Cons.IH [of "apply_projection_event p e'"] show ?case
    by (auto split: if_splits)
qed simp

text \<open>
  Diagnostic events are skipped.  After a replay, the events beyond the projected offset are
  skipped ones at the end, so replaying them again changes nothing.
\<close>

definition skipped :: "projection_config \<Rightarrow> runtime_event \<Rightarrow> bool" where
  "skipped cfg e \<longleftrightarrow>
     (\<exists>e'. maybe_migrate_event cfg e = Inr e'
        \<and> \<not> validate_projection_authority_input e' (pc_reject_derived_diagnostic cfg))"

lemma replay_skipped: "(\<And>e. e \<in> set es \<Longrightarrow> skipped cfg e) \<Longrightarrow> replay cfg p es = Inr p"
proof (induction es)
  case (Cons e es)
  then have "skipped cfg e" "replay cfg p es = Inr p" by simp_all
  then show ?case by (auto simp: skipped_def)
qed simp

lemma replay_unseen_skipped:
  assumes mig: "migration_keeps_offset cfg"
    and sorted: "sorted_wrt (<) (map ev_commit_offset es)"
    and run: "replay cfg p es = Inr p'"
    and x: "x \<in> set es" "ev_commit_offset x > pr_projected_offset p'"
  shows "skipped cfg x"
  using sorted run x
proof (induction es arbitrary: p' rule: rev_induct)
  case (snoc e es)
  obtain p1 where p1: "replay cfg p es = Inr p1" and last: "replay cfg p1 [e] = Inr p'"
    using snoc.prems(2) by (auto simp: replay_append elim!: bind_result_InrE)
  obtain e' where e': "maybe_migrate_event cfg e = Inr e'"
    using last by (auto elim!: bind_result_InrE)
  have off: "ev_commit_offset e' = ev_commit_offset e"
    using mig e' by (auto simp: migration_keeps_offset_def)
  show ?case
  proof (cases "validate_projection_authority_input e' (pc_reject_derived_diagnostic cfg)")
    case True
    with last e' off have "pr_projected_offset p' = ev_commit_offset e" by auto
    with snoc.prems show ?thesis by (auto simp: sorted_wrt_append)
  next
    case False
    with last e' have "p' = p1" by simp
    with snoc p1 False e' show ?thesis by (auto simp: sorted_wrt_append skipped_def)
  qed
qed simp

lemma dropWhile_above:
  fixes f :: "'a \<Rightarrow> int"
  shows "sorted_wrt (<) (map f ys) \<Longrightarrow> y \<in> set (dropWhile (\<lambda>x. \<not> f x > k) ys) \<Longrightarrow> f y > k"
proof (induction ys)
  case (Cons x ys)
  then show ?case by (cases "f x > k") fastforce+
qed simp

text \<open>The cache is in step with the log: every entry is the replay of a prefix of its run's events.\<close>

definition cache_ok :: "projection_config \<Rightarrow> (string \<Rightarrow> int \<Rightarrow> runtime_event list) \<Rightarrow> projections \<Rightarrow> bool" where
  "cache_ok cfg load ps \<longleftrightarrow>
     (\<forall>r p. dict_get ps r = Some p \<longrightarrow>
        (\<exists>xs ys. load r 0 = xs @ ys \<and> replay cfg (default_projection r) xs = Inr p))"

lemma cache_ok_Nil [simp]: "cache_ok cfg load []"
  by (simp add: cache_ok_def)

lemma default_projection_offset [simp]: "pr_projected_offset (default_projection r) = 0"
  by (simp add: default_projection_def)

context event_log_port
begin

lemma cached_prefix:
  assumes "cache_ok cfg (load s) ps"
  shows "\<exists>xs ys. load s r 0 = xs @ ys \<and>
    replay cfg (default_projection r) xs = Inr (dict_get_or ps r (default_projection r))"
proof (cases "dict_get ps r")
  case None
  then have "load s r 0 = [] @ load s r 0 \<and>
      replay cfg (default_projection r) [] = Inr (dict_get_or ps r (default_projection r))"
    by (simp add: dict_get_or_def)
  then show ?thesis by blast
next
  case (Some p)
  with assms show ?thesis by (auto simp: cache_ok_def dict_get_or_def)
qed

text \<open>Replaying the unseen events from the cached projection is replaying the whole run.\<close>

lemma unseen_split:
  assumes inv: "invar s" and mig: "migration_keeps_offset cfg" and cache: "cache_ok cfg (load s) ps"
    and p: "p = dict_get_or ps r (default_projection r)"
  obtains xs ys zs where "load s r 0 = xs @ ys" "replay cfg (default_projection r) xs = Inr p"
    "load s r (pr_projected_offset p) = zs @ ys" "\<And>e. e \<in> set zs \<Longrightarrow> e \<in> set xs \<and> skipped cfg e"
proof -
  obtain xs ys where split: "load s r 0 = xs @ ys" and xs: "replay cfg (default_projection r) xs = Inr p"
    using cached_prefix [OF cache, of r] p by auto
  have sorted: "sorted_wrt (<) (map ev_commit_offset (xs @ ys))"
    using load_sorted [OF inv, of r] split by simp
  have pos: "0 < ev_commit_offset e" if "e \<in> set (xs @ ys)" for e
    using load_positive [OF inv, of e r] that split by simp
  have "ev_commit_offset y > pr_projected_offset p" if "y \<in> set ys" for y
  proof -
    have "\<And>x. x \<in> set xs \<Longrightarrow> ev_commit_offset x \<le> ev_commit_offset y - 1"
      using sorted that by (auto simp: sorted_wrt_append)
    then show ?thesis
      using replay_offset_bound [OF mig xs, of "ev_commit_offset y - 1"] pos [of y] that by simp
  qed
  then have ys: "filter (\<lambda>e. ev_commit_offset e > pr_projected_offset p) ys = ys"
    by (simp add: filter_id_conv)
  show thesis
  proof (rule that [OF split xs])
    show "load s r (pr_projected_offset p) = filter (\<lambda>e. ev_commit_offset e > pr_projected_offset p) xs @ ys"
      by (simp add: load_after [OF inv, of r "pr_projected_offset p"] split ys)
    show "e \<in> set xs \<and> skipped cfg e"
      if "e \<in> set (filter (\<lambda>e. ev_commit_offset e > pr_projected_offset p) xs)" for e
      using replay_unseen_skipped [OF mig _ xs] sorted that by (auto simp: sorted_wrt_append)
  qed
qed

lemma replay_from_cache:
  assumes inv: "invar s" and mig: "migration_keeps_offset cfg" and cache: "cache_ok cfg (load s) ps"
    and p: "p = dict_get_or ps r (default_projection r)"
  shows "replay cfg p (load s r (pr_projected_offset p)) = replay cfg (default_projection r) (load s r 0)"
proof -
  from unseen_split [OF assms] obtain xs ys zs where "load s r 0 = xs @ ys"
    "replay cfg (default_projection r) xs = Inr p" "load s r (pr_projected_offset p) = zs @ ys"
    "\<And>e. e \<in> set zs \<Longrightarrow> e \<in> set xs \<and> skipped cfg e" by metis
  then show ?thesis by (simp add: replay_append replay_skipped)
qed

lemma cache_ok_set:
  assumes "cache_ok cfg (load s) ps" "load s r 0 = xs @ ys" "replay cfg (default_projection r) xs = Inr p"
  shows "cache_ok cfg (load s) (dict_set r p ps)"
  using assms unfolding cache_ok_def by auto

lemma get_projection_correct:
  assumes inv: "invar s" and mig: "migration_keeps_offset cfg" and cache: "cache_ok cfg (load s) ps"
    and run: "get_projection cfg (load s) ps r = (ps', res)"
  shows "res = replay cfg (default_projection r) (load s r 0)" "cache_ok cfg (load s) ps'"
proof -
  let ?p = "dict_get_or ps r (default_projection r)"
  note eq = replay_from_cache [OF inv mig cache refl, of r]
  show res: "res = replay cfg (default_projection r) (load s r 0)"
    using run eq by (auto simp: get_projection_def Let_def split: sum.splits)
  show "cache_ok cfg (load s) ps'"
    using run eq cache cache_ok_set [OF cache, of r "load s r 0" "[]"]
    by (auto simp: get_projection_def Let_def split: sum.splits)
qed

text \<open>
  Catching up through an offset also leaves a cache of replayed prefixes: the events left out
  are a suffix of the run.
\<close>

lemma catch_up_correct:
  assumes inv: "invar s" and mig: "migration_keeps_offset cfg" and cache: "cache_ok cfg (load s) ps"
    and run: "catch_up cfg (load s) ps r through = (ps', Inr p')"
  shows "cache_ok cfg (load s) ps'"
    "\<exists>xs ys. load s r 0 = xs @ ys \<and> replay cfg (default_projection r) xs = Inr p'
       \<and> (\<forall>e\<in>set ys. ev_commit_offset e > through)"
proof -
  let ?p = "dict_get_or ps r (default_projection r)"
  let ?Q = "\<lambda>e. \<not> ev_commit_offset e > through"
  have p': "replay cfg ?p (takeWhile ?Q (load s r (pr_projected_offset ?p))) = Inr p'"
    and ps': "ps' = dict_set r p' ps"
    using run by (auto simp: catch_up_def Let_def split: sum.splits)
  from unseen_split [OF inv mig cache refl, of r] obtain xs ys zs where split: "load s r 0 = xs @ ys"
    and xs: "replay cfg (default_projection r) xs = Inr ?p"
    and unseen: "load s r (pr_projected_offset ?p) = zs @ ys"
    and zs: "\<And>e. e \<in> set zs \<Longrightarrow> e \<in> set xs \<and> skipped cfg e" by metis
  have sorted: "sorted_wrt (<) (map ev_commit_offset (xs @ ys))"
    using load_sorted [OF inv, of r] split by simp
  show goal: "\<exists>xs ys. load s r 0 = xs @ ys \<and> replay cfg (default_projection r) xs = Inr p'
       \<and> (\<forall>e\<in>set ys. ev_commit_offset e > through)"
  proof (cases "\<forall>z\<in>set zs. ?Q z")
    case True
    then have "replay cfg ?p (takeWhile ?Q ys) = Inr p'"
      using p' unseen zs by (simp add: takeWhile_append replay_append replay_skipped)
    then have "replay cfg (default_projection r) (xs @ takeWhile ?Q ys) = Inr p'"
      by (simp add: replay_append xs)
    moreover have "load s r 0 = (xs @ takeWhile ?Q ys) @ dropWhile ?Q ys" using split by simp
    moreover have "sorted_wrt (<) (map ev_commit_offset ys)" using sorted by (simp add: sorted_wrt_append)
    then have "\<forall>e\<in>set (dropWhile ?Q ys). ev_commit_offset e > through"
      by (intro ballI dropWhile_above)
    ultimately show ?thesis by blast
  next
    case False
    then obtain z where z: "z \<in> set zs" "ev_commit_offset z > through" by auto
    have "takeWhile ?Q (zs @ ys) = takeWhile ?Q zs" 
      using z by (intro takeWhile_append1) auto
    moreover have "replay cfg ?p (takeWhile ?Q zs) = Inr ?p"
      using zs set_takeWhileD by (intro replay_skipped) fast
    ultimately have "p' = ?p" using p' unseen by simp
    moreover have "ev_commit_offset z < ev_commit_offset e" if "e \<in> set ys" for e
      using sorted zs [OF z(1)] that by (simp add: sorted_wrt_append)
    then have "\<forall>e\<in>set ys. ev_commit_offset e > through" using z(2) by fastforce
    ultimately show ?thesis using split xs by blast
  qed
  show "cache_ok cfg (load s) ps'"
    using goal cache_ok_set [OF cache] ps' by blast
qed

lemma cache_ok_append:
  assumes inv: "invar s" and run: "append s commit = (s', res)" and cache: "cache_ok cfg (load s) ps"
    and kept: "\<And>r. dict_has ps r \<Longrightarrow> r \<noteq> cm_run_id commit \<Longrightarrow> retained s commit r"
  shows "cache_ok cfg (load s') ps"
  unfolding cache_ok_def
proof (intro allI impI)
  fix r p
  assume p: "dict_get ps r = Some p"
  then obtain xs ys where split: "load s r 0 = xs @ ys" "replay cfg (default_projection r) xs = Inr p"
    using cache unfolding cache_ok_def by blast
  have "\<exists>zs. load s' r 0 = load s r 0 @ zs"
  proof (cases res)
    case (Inl e)
    with append_error [OF inv, of commit s' e r] run show ?thesis by simp
  next
    case (Inr ref)
    then show ?thesis
      using append_run [OF inv, of commit s' ref] append_other [OF inv, of commit s' ref r] run
        kept [of r] p by (cases "r = cm_run_id commit") (auto simp: dict_has_iff)
  qed
  with split show "\<exists>xs ys. load s' r 0 = xs @ ys \<and> replay cfg (default_projection r) xs = Inr p"
    by auto
qed

end

section \<open>Log and service together\<close>

text \<open>
  One kernel: commits are appended to the log and projections are read, in any order.  An
  append is a step as long as it does not evict a run that has a cached projection (the cap of
  5000 runs of the in-memory log; see the note on \<open>stale_after_cleanup\<close>).
\<close>

record projected_log =
  pl_log :: event_log
  pl_projections :: projections

inductive kernel_step :: "projection_config \<Rightarrow> projected_log \<Rightarrow> projected_log \<Rightarrow> bool"
  for cfg where
  append_step:
    "append_action_commit (pl_log k) commit = (log', res) \<Longrightarrow>
     (\<And>r. dict_has (pl_projections k) r \<Longrightarrow> r \<noteq> cm_run_id commit \<Longrightarrow> log_retains (pl_log k) commit r) \<Longrightarrow>
     kernel_step cfg k (k\<lparr>pl_log := log'\<rparr>)"
| get_step:
    "get_projection cfg (load_events (pl_log k)) (pl_projections k) r = (ps', res) \<Longrightarrow>
     kernel_step cfg k (k\<lparr>pl_projections := ps'\<rparr>)"
| catch_up_step:
    "catch_up cfg (load_events (pl_log k)) (pl_projections k) r through = (ps', res) \<Longrightarrow>
     kernel_step cfg k (k\<lparr>pl_projections := ps'\<rparr>)"

definition empty_projected_log :: projected_log where
  "empty_projected_log = \<lparr>pl_log = empty_event_log, pl_projections = []\<rparr>"

definition reachable :: "projection_config \<Rightarrow> projected_log \<Rightarrow> bool" where
  "reachable cfg k \<longleftrightarrow> (kernel_step cfg)\<^sup>*\<^sup>* empty_projected_log k"

definition in_step :: "projection_config \<Rightarrow> projected_log \<Rightarrow> bool" where
  "in_step cfg k \<longleftrightarrow>
     log_invar (pl_log k) \<and> cache_ok cfg (load_events (pl_log k)) (pl_projections k)"

lemma kernel_step_in_step:
  assumes mig: "migration_keeps_offset cfg" and "kernel_step cfg k k'" "in_step cfg k"
  shows "in_step cfg k'"
  using assms(2,3)
proof (cases rule: kernel_step.cases)
  case (append_step commit log' res)
  then show ?thesis
    using \<open>in_step cfg k\<close> log_invar_append mlog.cache_ok_append [of "pl_log k" commit log' res cfg "pl_projections k"]
    by (auto simp: in_step_def)
next
  case (get_step r ps' res)
  then show ?thesis
    using \<open>in_step cfg k\<close> mlog.get_projection_correct [OF _ mig, of "pl_log k" "pl_projections k" r ps' res]
    by (auto simp: in_step_def)
next
  case (catch_up_step r through ps' res)
  then show ?thesis
    using \<open>in_step cfg k\<close> mlog.catch_up_correct(1) [OF _ mig, of "pl_log k" "pl_projections k" r through ps']
    by (cases res) (auto simp: in_step_def catch_up_def Let_def split: sum.splits)
qed

lemma reachable_in_step:
  assumes "migration_keeps_offset cfg" "reachable cfg k"
  shows "in_step cfg k"
  using assms(2) unfolding reachable_def
proof (induction rule: rtranclp_induct)
  case base
  then show ?case by (simp add: in_step_def empty_projected_log_def)
next
  case (step k k')
  then show ?case using kernel_step_in_step [OF assms(1)] by blast
qed

section \<open>Properties of the projection\<close>


definition plain_config :: projection_config where
  "plain_config = \<lparr>pc_reject_derived_diagnostic = True, pc_event_schema_migrator = None,
     pc_target_event_schema_version = None\<rparr>"

lemma plain_config_keeps_offset: "migration_keeps_offset plain_config"
  by (simp add: migration_keeps_offset_def plain_config_def maybe_migrate_event_def)


text \<open>
  Catching up through an offset replays a prefix of the run's events from the
  initial projection, and that prefix contains every event up to the offset.
\<close>

theorem catch_up_covers_offset:
  assumes "migration_keeps_offset cfg" "reachable cfg k"
    "catch_up cfg (load_events (pl_log k)) (pl_projections k) run_id through = (ps', Inr p)"
  shows "\<exists>seen rest. load_events (pl_log k) run_id 0 = seen @ rest
    \<and> replay cfg (default_projection run_id) seen = Inr p
    \<and> filter (\<lambda>e. ev_commit_offset e \<le> through) rest = []"
proof -
  have "log_invar (pl_log k)" "cache_ok cfg (load_events (pl_log k)) (pl_projections k)"
    using reachable_in_step [OF assms(1,2)] by (simp_all add: in_step_def)
  from mlog.catch_up_correct(2) [OF this(1) assms(1) this(2) assms(3)] show ?thesis
    by (fastforce simp: filter_empty_conv)
qed

theorem catch_up_covers_offset_witness:
  "\<exists>seen rest. load_events (fst (append_action_commit empty_event_log
       (sample_commit ''r1'' [sample_event ''a'' ''run.created'', sample_event ''b'' ''run.ready'']))) ''r1'' 0 = seen @ rest
    \<and> replay plain_config (default_projection ''r1'') seen = Inr (apply_projection_event (default_projection ''r1'')
        (normalize_event 1 (sample_event ''a'' ''run.created'')))
    \<and> filter (\<lambda>e. ev_commit_offset e \<le> 1) rest = []"
proof -
  let ?c = "sample_commit ''r1'' [sample_event ''a'' ''run.created'', sample_event ''b'' ''run.ready'']"
  let ?log = "fst (append_action_commit empty_event_log ?c)"
  let ?k = "empty_projected_log\<lparr>pl_log := ?log\<rparr>"
  let ?p = "apply_projection_event (default_projection ''r1'') (normalize_event 1 (sample_event ''a'' ''run.created''))"
  have "kernel_step plain_config empty_projected_log ?k"
    by (rule append_step [of _ ?c _ "snd (append_action_commit empty_event_log ?c)"])
      (simp_all add: empty_projected_log_def dict_has_def)
  then have r: "reachable plain_config ?k" by (simp add: reachable_def)
  have k: "pl_log ?k = ?log" "pl_projections ?k = []" by (simp_all add: empty_projected_log_def)
  have "catch_up plain_config (load_events ?log) [] ''r1'' 1 = ([(''r1'', ?p)], Inr ?p)"
    by (simp add: append_action_commit_def sample_commit_def empty_event_log_def dict_setdefault_def
        dict_has_def dict_set_def dict_get_or_def dict_get_def Let_def MAX_RETAINED_RUNS_def load_events_def
        catch_up_def default_projection_def plain_config_def maybe_migrate_event_def
        validate_projection_authority_input_def normalize_event_def sample_event_def)
  then have "catch_up plain_config (load_events (pl_log ?k)) (pl_projections ?k) ''r1'' 1 = ([(''r1'', ?p)], Inr ?p)"
    by (simp only: k)
  from catch_up_covers_offset [OF plain_config_keeps_offset r this] show ?thesis by (simp only: k)
qed

text \<open>
  C33 (invariant): every projection a replay produces is coherent: it is marked waiting exactly in
  the state waiting_external, dispatchable exactly in ready and dispatching, carries the
  recovery mode of its state, and lists no child run twice.
\<close>

theorem projection_coherent:
  assumes "replay cfg (default_projection run_id) events = Inr p"
  shows "pr_waiting_external p = (pr_lifecycle_state p = Waiting_external)
    \<and> pr_ready_for_dispatch p = (pr_lifecycle_state p \<in> {Ready, Dispatching})
    \<and> pr_recovery_mode p = mode_of_state (pr_lifecycle_state p)
    \<and> distinct (pr_active_child_runs p)"
proof -
  have "coherent p" by (rule replay_invariant [OF assms coherent_default coherent_apply])
  then show ?thesis by (simp add: coherent_def)
qed

theorem projection_coherent_witness:
  "\<exists>p. replay plain_config (default_projection ''r1'')
       [normalize_event 1 (sample_event ''a'' ''run.created''), normalize_event 2 (sample_event ''b'' ''run.waiting_external'')]
     = Inr p \<and> pr_waiting_external p \<and> pr_waiting_external p = (pr_lifecycle_state p = Waiting_external)
     \<and> pr_recovery_mode p = mode_of_state (pr_lifecycle_state p)"
proof -
  let ?es = "[normalize_event 1 (sample_event ''a'' ''run.created''), normalize_event 2 (sample_event ''b'' ''run.waiting_external'')]"
  let ?r = "replay plain_config (default_projection ''r1'') ?es"
  have "case ?r of Inl _ \<Rightarrow> False | Inr p \<Rightarrow> pr_waiting_external p"
    by code_simp
  then obtain p where p: "?r = Inr p" "pr_waiting_external p" by (auto split: sum.splits)
  with projection_coherent [OF p(1)] show ?thesis by blast
qed

text \<open>
  C32 (safety): terminal states are final. Once a replay has reached completed or aborted, no
  further events leave that state.
\<close>

theorem terminal_states_absorbing:
  assumes "pr_lifecycle_state p \<in> {Completed, Aborted}" "replay cfg p events = Inr p'"
  shows "pr_lifecycle_state p' = pr_lifecycle_state p"
  using replay_invariant [OF assms(2), of "\<lambda>q. pr_lifecycle_state q = pr_lifecycle_state p"]
    assms(1) completed_apply aborted_apply by auto

theorem terminal_states_absorbing_witness:
  "\<exists>p'. replay plain_config ((default_projection ''r1'')\<lparr>pr_lifecycle_state := Aborted\<rparr>)
      [normalize_event 1 (sample_event ''a'' ''run.ready''), normalize_event 2 (sample_event ''b'' ''signal.resume'')] = Inr p'
    \<and> pr_lifecycle_state p' = Aborted"
proof -
  let ?p = "(default_projection ''r1'')\<lparr>pr_lifecycle_state := Aborted\<rparr>"
  let ?r = "replay plain_config ?p
      [normalize_event 1 (sample_event ''a'' ''run.ready''), normalize_event 2 (sample_event ''b'' ''signal.resume'')]"
  have "is_ok ?r" by code_simp
  then obtain p' where p': "?r = Inr p'" by (auto simp: is_ok_def split: sum.splits)
  from terminal_states_absorbing [OF _ p'] p' show ?thesis by simp
qed

text \<open>
  Cancellation wins. A cancel request that is replayed on a run that has not
  completed aborts it for good, whatever the run was doing and whatever events follow.
\<close>

theorem cancel_request_is_final:
  assumes "ev_event_type e = ''run.cancel_requested''" "ev_event_authority e = Authoritative_fact"
    "pr_lifecycle_state p \<noteq> Completed" "maybe_migrate_event cfg e = Inr e"
    "replay cfg p (e # later) = Inr p'"
  shows "pr_lifecycle_state p' = Aborted \<and> pr_recovery_mode p' = Some ''abort''
    \<and> \<not> pr_ready_for_dispatch p' \<and> \<not> pr_waiting_external p'"
proof -
  let ?P = "\<lambda>q. pr_lifecycle_state q = Aborted \<and> pr_recovery_mode q = Some ''abort''
    \<and> \<not> pr_ready_for_dispatch q \<and> \<not> pr_waiting_external q"
  have "replay cfg (apply_projection_event p e) later = Inr p'"
    using assms by (simp add: validate_projection_authority_input_def)
  moreover have "?P (apply_projection_event p e)"
    using assms(1,3) by (simp add: apply_projection_event_def resolve_projection_transition_def cancel_not_lower)
  moreover have "?P (apply_projection_event q x)" if "?P q" for q x
    using that by (simp add: apply_projection_event_def resolve_projection_transition_def
        projection_unchanged_state_def)
  ultimately show ?thesis using replay_invariant [of cfg _ later p' ?P] by blast
qed

theorem cancel_request_is_final_witness:
  "\<exists>p'. replay plain_config (default_projection ''r1'')
      [normalize_event 1 (sample_event ''a'' ''run.cancel_requested''), normalize_event 2 (sample_event ''b'' ''run.ready'')] = Inr p'
    \<and> pr_lifecycle_state p' = Aborted"
proof -
  let ?e = "normalize_event 1 (sample_event ''a'' ''run.cancel_requested'')"
  let ?r = "replay plain_config (default_projection ''r1'') [?e, normalize_event 2 (sample_event ''b'' ''run.ready'')]"
  have "is_ok ?r" by code_simp
  then obtain p' where p': "?r = Inr p'" by (auto simp: is_ok_def split: sum.splits)
  have h: "ev_event_type ?e = ''run.cancel_requested''" "ev_event_authority ?e = Authoritative_fact"
    "pr_lifecycle_state (default_projection ''r1'') \<noteq> Completed" "maybe_migrate_event plain_config ?e = Inr ?e"
    by (simp_all add: normalize_event_def sample_event_def default_projection_def maybe_migrate_event_def plain_config_def)
  from cancel_request_is_final [OF h p'] p' show ?thesis by blast
qed

text \<open>
  While a run waits for an external party, callback signals do not change its state,
  as the precedence of timeouts over callbacks demands.
\<close>

theorem waiting_run_ignores_callbacks:
  assumes "pr_lifecycle_state p = Waiting_external"
    "ev_event_type e \<in> {''signal.external_callback'', ''signal.callback''}"
  shows "apply_projection_event p e =
    p\<lparr>pr_projected_offset := ev_commit_offset e, pr_policy_versions := None, pr_task_contract_ref := None\<rparr>"
proof -
  have "is_lower_priority_operational_conflict p e"
    using assms by (auto simp: is_lower_priority_operational_conflict_def event_operational_priority_def
        projection_operational_priority_def)
  moreover have "resolve_active_child_runs p e = pr_active_child_runs p"
    using assms by (auto simp: resolve_active_child_runs_def split: option.splits)
  ultimately show ?thesis
    by (cases p) (simp add: apply_projection_event_def resolve_projection_transition_def projection_unchanged_state_def)
qed

theorem waiting_run_ignores_callbacks_witness:
  "let p = (default_projection ''r1'')\<lparr>pr_lifecycle_state := Waiting_external, pr_waiting_external := True\<rparr>
   in pr_lifecycle_state (apply_projection_event p (normalize_event 7 (sample_event ''a'' ''signal.callback''))) = Waiting_external"
  using waiting_run_ignores_callbacks [of "(default_projection ''r1'')\<lparr>pr_lifecycle_state := Waiting_external, pr_waiting_external := True\<rparr>"
      "normalize_event 7 (sample_event ''a'' ''signal.callback'')"]
  by (simp add: normalize_event_def sample_event_def)

text \<open>
  The offsets of a run restart when the log forgets it: a cached projection of the earlier events
  then hides the new ones.
\<close>

lemma stale_after_cleanup:
  "let c1 = sample_commit ''r1'' [sample_event ''a'' ''run.created'', sample_event ''b'' ''run.waiting_external''];
       c2 = sample_commit ''r1'' [sample_event ''c'' ''run.ready''];
       log1 = fst (append_action_commit empty_event_log c1);
       ps = fst (get_projection plain_config (load_events log1) [] ''r1'');
       log2 = fst (append_action_commit (cleanup_completed_run log1 ''r1'') c2)
   in map_option pr_lifecycle_state (dict_get ps ''r1'') = Some Waiting_external
      \<and> (case snd (get_projection plain_config (load_events log2) ps ''r1'') of
           Inl _ \<Rightarrow> False | Inr p \<Rightarrow> pr_lifecycle_state p = Waiting_external)
      \<and> (case snd (get_projection plain_config (load_events log2) [] ''r1'') of
           Inl _ \<Rightarrow> False | Inr p \<Rightarrow> pr_lifecycle_state p = Ready)"
  by code_simp

end
