(* ===== verification/Python_Float.thy ===== *)
theory Python_Float
  imports Kernel_Prelude "HOL-Library.Log_Nat"
begin

text \<open>
  Python floats as far as the kernel uses them: rounding of a rational to a double,
  \<^verbatim>\<open>float(text)\<close> and \<^verbatim>\<open>float(n)\<close> for an integer.  Signed zeros are not distinguished.
\<close>

definition floor_log2 :: "rat \<Rightarrow> int" where
  "floor_log2 r =
     (case quotient_of r of (n, d) \<Rightarrow>
        let e = bitlen n - bitlen d in if r < 2 powi e then e - 1 else e)"

definition round_half_even :: "rat \<Rightarrow> int" where
  "round_half_even r =
     (let f = \<lfloor>r\<rfloor>; d = r - of_int f
      in if d < 1 / 2 then f else if d > 1 / 2 then f + 1 else if even f then f else f + 1)"

text \<open>Round to nearest, ties to even, 53 significant bits, gradual underflow.\<close>

definition to_double :: "rat \<Rightarrow> pyfloat" where
  "to_double r =
     (if r = 0 then PFin 0
      else
        let a = \<bar>r\<bar>;
            q = 2 powi (max (floor_log2 a) (- 1022) - 52);
            m = of_int (round_half_even (a / q)) * q
        in if m \<ge> 2 powi 1024 then (if r < 0 then PNegInf else PInf)
           else PFin (if r < 0 then - m else m))"

definition is_digit :: "char \<Rightarrow> bool" where
  "is_digit c = (let n = of_char c :: nat in 48 \<le> n \<and> n \<le> 57)"

definition digits_value :: "string \<Rightarrow> int" where
  "digits_value ds = foldl (\<lambda>v c. v * 10 + (of_char c - 48)) 0 ds"

text \<open>Underscores are allowed between two digits only; \<open>prev\<close> is the character before.\<close>

fun remove_underscores :: "char \<Rightarrow> string \<Rightarrow> string option" where
  "remove_underscores prev [] = (if prev = CHR ''_'' then None else Some [])"
| "remove_underscores prev (c # cs) =
     (if c = CHR ''_'' then
        (if is_digit prev then remove_underscores c cs else None)
      else if prev = CHR ''_'' \<and> \<not> is_digit c then None
      else map_option (\<lambda>s. c # s) (remove_underscores c cs))"

definition parse_exponent :: "string \<Rightarrow> int option" where
  "parse_exponent s =
     (case s of [] \<Rightarrow> None
      | c # r \<Rightarrow>
          let (sgn, ds) = (if c = CHR ''-'' then (- 1, r) else if c = CHR ''+'' then (1, r) else (1, c # r))
          in if ds \<noteq> [] \<and> list_all is_digit ds then Some (sgn * digits_value ds) else None)"

definition parse_decimal :: "string \<Rightarrow> rat option" where
  "parse_decimal s =
     (let ds = takeWhile is_digit s; rest = dropWhile is_digit s;
          (frac, tail) = (case rest of
             c # r \<Rightarrow> if c = CHR ''.'' then (takeWhile is_digit r, dropWhile is_digit r) else ([], rest)
           | [] \<Rightarrow> ([], []));
          mant = of_int (digits_value (ds @ frac)) / 10 ^ length frac
      in if ds = [] \<and> frac = [] then None
         else case tail of
           [] \<Rightarrow> Some mant
         | c # r \<Rightarrow>
             if c = CHR ''e'' \<or> c = CHR ''E'' then map_option (\<lambda>e. mant * 10 powi e) (parse_exponent r)
             else None)"

text \<open>\<^verbatim>\<open>float(text)\<close>; \<open>None\<close> is a \<^verbatim>\<open>ValueError\<close>.\<close>

definition float_of_string :: "string \<Rightarrow> pyfloat option" where
  "float_of_string text =
     (case remove_underscores CHR ''+'' (strip text) of
        None \<Rightarrow> None
      | Some s \<Rightarrow>
          let (neg, u) = (case s of
                c # r \<Rightarrow> if c = CHR ''-'' then (True, r) else if c = CHR ''+'' then (False, r) else (False, s)
              | [] \<Rightarrow> (False, []))
          in if lower u = ''inf'' \<or> lower u = ''infinity'' then Some (if neg then PNegInf else PInf)
             else if lower u = ''nan'' then Some PNaN
             else map_option (\<lambda>r. to_double (if neg then - r else r)) (parse_decimal u))"

text \<open>\<^verbatim>\<open>float(n)\<close> of an integer raises \<^verbatim>\<open>OverflowError\<close> beyond the range of a double.\<close>

definition float_of_int :: "int \<Rightarrow> rat result" where
  "float_of_int i =
     (case to_double (of_int i) of
        PFin r \<Rightarrow> Inr r
      | _ \<Rightarrow> Inl (OtherError ''OverflowError'' ''int too large to convert to float''))"

end
