(* ===== verification/Dispatch_Policy.thy ===== *)
theory Dispatch_Policy
  imports Kernel_Contracts Python_Float
begin

text \<open>
  Where an action is dispatched and whether it may be: \<^verbatim>\<open>kernel/remote_service_policy.py\<close>, the
  host-kind and contract parsing of \<^verbatim>\<open>kernel/turn_engine.py\<close> (five host kinds) and its copy in
  \<^verbatim>\<open>kernel/minimal_runtime.py\<close> (three host kinds), the static admission rules of the latter, and
  \<^verbatim>\<open>kernel/failure_evidence.py\<close>.
\<close>

section \<open>Remote-service policy\<close>

record remote_dispatch_policy_decision =
  rpd_effective_idempotency_level :: external_idempotency_level
  rpd_default_retry_policy :: string
  rpd_auto_retry_enabled :: bool
  rpd_can_claim_guaranteed :: bool
  rpd_reason :: string

definition evaluate_remote_service_policy ::
  "external_idempotency_level option \<Rightarrow> remote_service_idempotency_contract option
     \<Rightarrow> remote_dispatch_policy_decision" where
  "evaluate_remote_service_policy external_level contract =
     (let normalized_level = (case external_level of None \<Rightarrow> Unknown_level | Some l \<Rightarrow> l)
      in case contract of
        None \<Rightarrow>
          \<lparr>rpd_effective_idempotency_level =
             (if normalized_level = Guaranteed then Best_effort else normalized_level),
           rpd_default_retry_policy = ''no_auto_retry'',
           rpd_auto_retry_enabled = False,
           rpd_can_claim_guaranteed = False,
           rpd_reason = ''missing_remote_idempotency_contract''\<rparr>
      | Some c \<Rightarrow>
          let can_claim_guaranteed = (normalized_level = Guaranteed
                \<and> rc_accepts_dispatch_idempotency_key c \<and> rc_returns_stable_ack c);
              effective_level =
                (if can_claim_guaranteed then Guaranteed
                 else if normalized_level = Guaranteed then Best_effort
                 else normalized_level)
          in \<lparr>rpd_effective_idempotency_level = effective_level,
              rpd_default_retry_policy = rc_default_retry_policy c,
              rpd_auto_retry_enabled = (rc_default_retry_policy c = ''bounded_retry''),
              rpd_can_claim_guaranteed = can_claim_guaranteed,
              rpd_reason = (if can_claim_guaranteed then ''validated_remote_contract''
                            else ''remote_contract_constrained'')\<rparr>)"

section \<open>Host kinds\<close>

definition te_normalize_host_kind :: "json \<Rightarrow> host_kind option" where
  "te_normalize_host_kind value =
     (case value of
        JStr s \<Rightarrow>
          let v = lower (strip s)
          in if v = ''local_cli'' then Some Local_cli
             else if v = ''local_process'' then Some Local_process
             else if v = ''remote_service'' then Some Remote_service
             else if v = ''cli_process'' then Some Cli_process
             else if v = ''in_process_python'' then Some In_process_python
             else None
      | _ \<Rightarrow> None)"

definition mr_normalize_host_kind :: "json \<Rightarrow> host_kind option" where
  "mr_normalize_host_kind value =
     (case value of
        JStr s \<Rightarrow>
          let v = lower (strip s)
          in if v = ''local_cli'' then Some Local_cli
             else if v = ''local_process'' then Some Local_process
             else if v = ''remote_service'' then Some Remote_service
             else None
      | _ \<Rightarrow> None)"

text \<open>The first candidate that a partial function accepts: the shape of the lookup loops.\<close>

fun first_some :: "('a \<Rightarrow> 'b option) \<Rightarrow> 'a list \<Rightarrow> 'b option" where
  "first_some f [] = None"
| "first_some f (x # xs) = (case f x of None \<Rightarrow> first_some f xs | Some y \<Rightarrow> Some y)"

definition host_tag_prefixes :: "string list" where
  "host_tag_prefixes = [''host:'', ''host_kind:'', ''dispatch_host:'', ''dispatch_host_kind:'']"

definition extract_host_kind_from_policy_tags ::
  "(json \<Rightarrow> host_kind option) \<Rightarrow> string list \<Rightarrow> host_kind option" where
  "extract_host_kind_from_policy_tags normalize_host_kind policy_tags =
     first_some (\<lambda>tag.
       let normalized_tag = lower (strip tag)
       in first_some (\<lambda>prefix.
            if \<not> startswith normalized_tag prefix then None
            else normalize_host_kind (JStr (removeprefix normalized_tag prefix))) host_tag_prefixes)
       policy_tags"

definition host_payload_keys :: "string list" where
  "host_payload_keys = [''host_kind'', ''dispatch_host_kind'', ''host'', ''dispatch_host'']"

definition extract_host_kind_from_payload ::
  "(json \<Rightarrow> host_kind option) \<Rightarrow> jdict \<Rightarrow> host_kind option" where
  "extract_host_kind_from_payload normalize_host_kind payload =
     (case first_some (\<lambda>key. normalize_host_kind (jget payload key)) host_payload_keys of
        Some hk \<Rightarrow> Some hk
      | None \<Rightarrow>
          (case jget payload ''dispatch'' of
             JDict d \<Rightarrow> first_some (\<lambda>key. normalize_host_kind (jget d key)) host_payload_keys
           | _ \<Rightarrow> None))"

definition action_payload :: "action \<Rightarrow> jdict" where
  "action_payload a = (case act_input_json a of None \<Rightarrow> [] | Some d \<Rightarrow> d)"

definition resolve_explicit_host_kind ::
  "(json \<Rightarrow> host_kind option) \<Rightarrow> action \<Rightarrow> host_kind option" where
  "resolve_explicit_host_kind normalize_host_kind a =
     (case extract_host_kind_from_policy_tags normalize_host_kind (act_policy_tags a) of
        Some hk \<Rightarrow> Some hk
      | None \<Rightarrow> extract_host_kind_from_payload normalize_host_kind (action_payload a))"

definition resolve_host_kind :: "(json \<Rightarrow> host_kind option) \<Rightarrow> action \<Rightarrow> host_kind" where
  "resolve_host_kind normalize_host_kind a =
     (case resolve_explicit_host_kind normalize_host_kind a of
        Some hk \<Rightarrow> hk
      | None \<Rightarrow>
          if act_effect_class a \<noteq> READ_ONLY \<and> act_external_idempotency_level a \<noteq> None
          then Remote_service else Local_cli)"

definition te_resolve_dispatch_host_kind :: "action \<Rightarrow> host_kind" where
  "te_resolve_dispatch_host_kind a = resolve_host_kind te_normalize_host_kind a"

definition mr_resolve_dispatch_host_kind :: "action \<Rightarrow> host_kind" where
  "mr_resolve_dispatch_host_kind a = resolve_host_kind mr_normalize_host_kind a"

section \<open>Remote contracts in payloads\<close>

definition parse_remote_service_contract :: "json \<Rightarrow> remote_service_idempotency_contract option" where
  "parse_remote_service_contract payload =
     (case payload of
        JDict d \<Rightarrow>
          (case (jget d ''accepts_dispatch_idempotency_key'', jget d ''returns_stable_ack'',
                 jget d ''peer_retry_model'', jget d ''default_retry_policy'') of
             (JBool accepts, JBool stable_ack, JStr model, JStr retry) \<Rightarrow>
               if model \<notin> {''unknown'', ''at_most_once'', ''at_least_once'', ''exactly_once_claimed''} then None
               else if retry \<notin> {''no_auto_retry'', ''bounded_retry''} then None
               else Some \<lparr>rc_accepts_dispatch_idempotency_key = accepts, rc_returns_stable_ack = stable_ack,
                          rc_peer_retry_model = model, rc_default_retry_policy = retry\<rparr>
           | _ \<Rightarrow> None)
      | _ \<Rightarrow> None)"

definition extract_remote_service_contract ::
  "jdict option \<Rightarrow> remote_service_idempotency_contract option" where
  "extract_remote_service_contract input_json =
     (case input_json of
        None \<Rightarrow> None
      | Some d \<Rightarrow>
          let candidates =
                [jget d ''remote_service_idempotency_contract'', jget d ''remote_idempotency_contract'',
                 jget d ''idempotency_contract''] @
                (case jget d ''remote_service'' of
                   JDict r \<Rightarrow> [jget r ''idempotency_contract'', jget r ''contract'']
                 | _ \<Rightarrow> [])
          in first_some parse_remote_service_contract candidates)"

section \<open>Dispatch policy of a turn\<close>

record dispatch_policy =
  dp_host_kind :: host_kind
  dp_should_block :: bool
  dp_block_reason :: "string option"
  dp_remote_policy_decision :: "remote_dispatch_policy_decision option"

definition resolve_dispatch_policy :: "action \<Rightarrow> dispatch_policy" where
  "resolve_dispatch_policy a =
     (let host_kind = te_resolve_dispatch_host_kind a
      in if host_kind \<noteq> Remote_service \<or> act_effect_class a = READ_ONLY
         then \<lparr>dp_host_kind = host_kind, dp_should_block = False, dp_block_reason = None,
               dp_remote_policy_decision = None\<rparr>
         else
           let remote_contract = extract_remote_service_contract (act_input_json a);
               remote_policy = evaluate_remote_service_policy (act_external_idempotency_level a) remote_contract;
               requested_guaranteed = (act_external_idempotency_level a = Some Guaranteed)
           in if requested_guaranteed \<and> \<not> rpd_can_claim_guaranteed remote_policy
              then \<lparr>dp_host_kind = host_kind, dp_should_block = True,
                    dp_block_reason = Some ''idempotency_contract_insufficient'',
                    dp_remote_policy_decision = Some remote_policy\<rparr>
              else \<lparr>dp_host_kind = host_kind, dp_should_block = False, dp_block_reason = None,
                    dp_remote_policy_decision = Some remote_policy\<rparr>)"

section \<open>Static admission\<close>

definition requires_remote_idempotency_contract_block :: "action \<Rightarrow> bool" where
  "requires_remote_idempotency_contract_block a =
     (if act_effect_class a = READ_ONLY then False
      else if act_external_idempotency_level a \<noteq> Some Guaranteed then False
      else if mr_resolve_dispatch_host_kind a \<noteq> Remote_service then False
      else \<not> rpd_can_claim_guaranteed
             (evaluate_remote_service_policy (act_external_idempotency_level a)
               (extract_remote_service_contract (act_input_json a))))"

definition parse_finite_float :: "string \<Rightarrow> rat option" where
  "parse_finite_float raw_value =
     (case float_of_string raw_value of Some (PFin r) \<Rightarrow> Some r | _ \<Rightarrow> None)"

definition extract_max_cost_from_policy_tags :: "string list \<Rightarrow> rat option" where
  "extract_max_cost_from_policy_tags policy_tags =
     first_some (\<lambda>tag.
       if \<not> startswith tag ''max_cost:'' then None
       else parse_finite_float (strip (removeprefix tag ''max_cost:''))) policy_tags"

definition coerce_finite_number :: "json \<Rightarrow> rat option result" where
  "coerce_finite_number value =
     (case value of
        JInt i \<Rightarrow> bind_result (float_of_int i) (\<lambda>r. Inr (Some r))
      | JFloat (PFin r) \<Rightarrow> Inr (Some r)
      | _ \<Rightarrow> Inr None)"

definition extract_estimated_cost :: "jdict option \<Rightarrow> rat option result" where
  "extract_estimated_cost input_json =
     (case input_json of None \<Rightarrow> Inr None | Some d \<Rightarrow> coerce_finite_number (jget d ''estimated_cost''))"

definition evaluate_action_policy_denies :: "action \<Rightarrow> admission_result option result" where
  "evaluate_action_policy_denies a =
     (if ''requires_human_review'' \<in> set (act_policy_tags a)
      then Inr (Some (AdmissionResult False Policy_denied))
      else if (case act_timeout_ms a of None \<Rightarrow> False | Some t \<Rightarrow> t > 0 \<and> t > 300000)
      then Inr (Some (AdmissionResult False Policy_denied))
      else
        let max_cost = extract_max_cost_from_policy_tags (act_policy_tags a)
        in bind_result (extract_estimated_cost (act_input_json a)) (\<lambda>estimated_cost.
          if (case (max_cost, estimated_cost) of (Some m, Some c) \<Rightarrow> c > m | _ \<Rightarrow> False)
          then Inr (Some (AdmissionResult False Quota_exceeded))
          else if requires_remote_idempotency_contract_block a
          then Inr (Some (AdmissionResult False Idempotency_contract_insufficient))
          else Inr None))"

definition resolve_sandbox_host_kind :: "action \<Rightarrow> host_kind" where
  "resolve_sandbox_host_kind a =
     (let normalized_tags = set (map (\<lambda>tag. lower (strip tag)) (act_policy_tags a))
      in case first_some (\<lambda>(candidate, hk). if candidate \<in> normalized_tags then Some hk else None)
           [(''host:local_process'', Local_process), (''host:local_cli'', Local_cli),
            (''host:remote_service'', Remote_service), (''host_kind:local_process'', Local_process),
            (''host_kind:local_cli'', Local_cli), (''host_kind:remote_service'', Remote_service)] of
           Some hk \<Rightarrow> hk
         | None \<Rightarrow>
             if act_external_idempotency_level a \<noteq> None \<and> act_effect_class a \<noteq> READ_ONLY
             then Remote_service else Local_cli)"

definition build_admitted_result :: "action \<Rightarrow> admission_result" where
  "build_admitted_result a =
     (let host_kind = resolve_sandbox_host_kind a;
          grant_ref = ''grant:'' @ act_action_id a
      in (AdmissionResult True Reason_ok)
        \<lparr>ad_grant_ref := Some grant_ref,
         ad_sandbox_grant := Some
           \<lparr>sg_grant_ref = grant_ref, sg_host_kind = host_kind,
            sg_sandbox_profile_ref = Some (''sandbox:'' @ host_kind_str host_kind @ '':default''),
            sg_allowed_mounts = [''workspace:/''], sg_denied_mounts = [],
            sg_network_policy = (if host_kind \<noteq> Remote_service then Deny_all else Allow_list),
            sg_allowed_hosts = []\<rparr>,
         ad_idempotency_envelope := Some
           [(''dispatch_idempotency_key'', JStr (''dispatch:'' @ act_run_id a @ '':'' @ act_action_id a)),
            (''operation_fingerprint'', JStr (act_run_id a @ '':'' @ act_action_id a)),
            (''attempt_seq'', JInt 1),
            (''effect_scope'', JStr (effect_class_str (act_effect_class a))),
            (''host_kind'', JStr (host_kind_str host_kind))]\<rparr>)"

definition static_admit :: "action \<Rightarrow> admission_result result" where
  "static_admit a =
     bind_result (evaluate_action_policy_denies a) (\<lambda>denied.
       case denied of Some r \<Rightarrow> Inr r | None \<Rightarrow> Inr (build_admitted_result a))"

definition static_check :: "action \<Rightarrow> run_projection \<Rightarrow> admission_result result" where
  "static_check a p =
     bind_result (evaluate_action_policy_denies a) (\<lambda>denied.
       case denied of
         Some r \<Rightarrow> Inr r
       | None \<Rightarrow>
           if pr_lifecycle_state p \<in> {Ready, Dispatching} \<and> pr_ready_for_dispatch p \<and> \<not> pr_waiting_external p
           then Inr (build_admitted_result a)
           else Inr (AdmissionResult False Dependency_not_ready))"

section \<open>Activity routing\<close>

datatype activity_execution_route = Route_tool | Route_mcp

definition resolve_activity_execution_route :: "action \<Rightarrow> activity_execution_route" where
  "resolve_activity_execution_route a =
     (if (case jget (action_payload a) ''mcp'' of JDict _ \<Rightarrow> True | _ \<Rightarrow> False) then Route_mcp
      else if act_action_type a = ''mcp'' \<or> startswith (act_action_type a) ''mcp.'' then Route_mcp
      else Route_tool)"

definition first_non_empty_string :: "json list \<Rightarrow> string option" where
  "first_non_empty_string values =
     first_some (\<lambda>value. case value of JStr s \<Rightarrow> if s \<noteq> [] then Some s else None | _ \<Rightarrow> None) values"

definition build_tool_activity_input :: "action \<Rightarrow> tool_activity_input" where
  "build_tool_activity_input a =
     (let payload = action_payload a
      in \<lparr>ta_run_id = act_run_id a, ta_action_id = act_action_id a,
          ta_tool_name =
            (case first_non_empty_string [jget payload ''tool_name'', jget payload ''name''] of
               Some n \<Rightarrow> n | None \<Rightarrow> act_action_type a),
          ta_arguments = (case jget payload ''arguments'' of JDict d \<Rightarrow> d | _ \<Rightarrow> payload)\<rparr>)"

definition build_mcp_activity_input :: "action \<Rightarrow> mcp_activity_input" where
  "build_mcp_activity_input a =
     (let payload = action_payload a;
          mcp_dict = (case jget payload ''mcp'' of JDict d \<Rightarrow> d | _ \<Rightarrow> [])
      in \<lparr>mc_run_id = act_run_id a, mc_action_id = act_action_id a,
          mc_server_name =
            (case first_non_empty_string
               [jget mcp_dict ''server_name'', jget mcp_dict ''server_id'',
                jget payload ''server_name'', jget payload ''server_id''] of
               Some n \<Rightarrow> n | None \<Rightarrow> ''default_mcp_server''),
          mc_operation =
            (case first_non_empty_string
               [jget mcp_dict ''operation'', jget mcp_dict ''capability_id'', jget mcp_dict ''name'',
                jget payload ''operation'', jget payload ''capability_id''] of
               Some n \<Rightarrow> n | None \<Rightarrow> act_action_type a),
          mc_arguments =
            (case jget mcp_dict ''arguments'' of JDict d \<Rightarrow> d
             | _ \<Rightarrow> (case jget payload ''arguments'' of JDict d \<Rightarrow> d | _ \<Rightarrow> []))\<rparr>)"

text \<open>\<^verbatim>\<open>ActivityBackedExecutorService.execute\<close>, over the two methods of the activity gateway.\<close>

definition activity_execute ::
  "(tool_activity_input \<Rightarrow> 'r) \<Rightarrow> (mcp_activity_input \<Rightarrow> 'r) \<Rightarrow> action \<Rightarrow> 'r" where
  "activity_execute execute_tool execute_mcp a =
     (case resolve_activity_execution_route a of
        Route_mcp \<Rightarrow> execute_mcp (build_mcp_activity_input a)
      | Route_tool \<Rightarrow> execute_tool (build_tool_activity_input a))"

section \<open>Failure evidence\<close>

record failure_evidence_resolution =
  fr_source :: evidence_source
  fr_evidence_ref :: "string option"

definition normalize_optional_ref :: "string option \<Rightarrow> string option" where
  "normalize_optional_ref value =
     (case value of None \<Rightarrow> None | Some v \<Rightarrow> if strip v = [] then None else Some (strip v))"

definition resolve_failure_evidence :: "failure_envelope \<Rightarrow> failure_evidence_resolution" where
  "resolve_failure_evidence e =
     (case normalize_optional_ref (fe_external_ack_ref e) of
        Some r \<Rightarrow> \<lparr>fr_source = Src_external_ack_ref, fr_evidence_ref = Some r\<rparr>
      | None \<Rightarrow>
          (case normalize_optional_ref (fe_evidence_ref e) of
             Some r \<Rightarrow> \<lparr>fr_source = Src_evidence_ref, fr_evidence_ref = Some r\<rparr>
           | None \<Rightarrow>
               (case normalize_optional_ref (fe_local_inference e) of
                  Some r \<Rightarrow> \<lparr>fr_source = Src_local_inference, fr_evidence_ref = Some r\<rparr>
                | None \<Rightarrow> \<lparr>fr_source = Src_none, fr_evidence_ref = None\<rparr>)))"

definition apply_failure_evidence_priority :: "failure_envelope \<Rightarrow> failure_envelope" where
  "apply_failure_evidence_priority e =
     (let resolution = resolve_failure_evidence e
      in e\<lparr>fe_evidence_priority_source := fr_source resolution,
           fe_evidence_priority_ref := fr_evidence_ref resolution\<rparr>)"

section \<open>The two host resolutions agree on remote hosts\<close>

text \<open>
  A hint that the turn engine reads as one of the three kinds of the admission service is read
  by both in the same way, and a hint the turn engine ignores is ignored by both.
\<close>

definition mr_kind :: "host_kind \<Rightarrow> bool" where
  "mr_kind hk \<longleftrightarrow> hk \<in> {Local_cli, Local_process, Remote_service}"

lemma normalize_agree:
  "te_normalize_host_kind v = None \<Longrightarrow> mr_normalize_host_kind v = None"
  "te_normalize_host_kind v = Some hk \<Longrightarrow> mr_kind hk \<Longrightarrow> mr_normalize_host_kind v = Some hk"
  by (auto simp: te_normalize_host_kind_def mr_normalize_host_kind_def mr_kind_def Let_def
      split: json.splits if_splits)

definition hint_agree :: "host_kind option \<Rightarrow> host_kind option \<Rightarrow> bool" where
  "hint_agree te mr \<longleftrightarrow> (te = None \<longrightarrow> mr = None) \<and> (\<forall>hk. te = Some hk \<longrightarrow> mr_kind hk \<longrightarrow> mr = Some hk)"

lemma hint_agree_first_some:
  assumes "\<And>x. hint_agree (f x) (g x)"
  shows "hint_agree (first_some f xs) (first_some g xs)"
proof (induction xs)
  case (Cons x xs)
  with assms [of x] show ?case by (auto simp: hint_agree_def split: option.splits)
qed (simp add: hint_agree_def)

lemma hint_agree_normalize: "hint_agree (te_normalize_host_kind v) (mr_normalize_host_kind v)"
  using normalize_agree by (auto simp: hint_agree_def)

lemma hint_agree_None [simp]: "hint_agree None None"
  by (simp add: hint_agree_def)

lemma hint_agree_tags:
  "hint_agree (extract_host_kind_from_policy_tags te_normalize_host_kind tags)
     (extract_host_kind_from_policy_tags mr_normalize_host_kind tags)"
  unfolding extract_host_kind_from_policy_tags_def Let_def
  by (intro hint_agree_first_some) (simp add: hint_agree_normalize)

lemma hint_agree_payload:
  "hint_agree (extract_host_kind_from_payload te_normalize_host_kind d)
     (extract_host_kind_from_payload mr_normalize_host_kind d)"
proof -
  have one: "hint_agree (first_some (\<lambda>key. te_normalize_host_kind (jget d key)) ks)
      (first_some (\<lambda>key. mr_normalize_host_kind (jget d key)) ks)" for d ks
    by (intro hint_agree_first_some hint_agree_normalize)
  show ?thesis
    using one [of d host_payload_keys] one [of _ host_payload_keys]
    by (auto simp: extract_host_kind_from_payload_def hint_agree_def split: option.splits json.splits)
qed

lemma remote_hosts_agree:
  assumes "te_resolve_dispatch_host_kind a = Remote_service"
  shows "mr_resolve_dispatch_host_kind a = Remote_service"
proof -
  have "hint_agree (resolve_explicit_host_kind te_normalize_host_kind a)
      (resolve_explicit_host_kind mr_normalize_host_kind a)"
    using hint_agree_tags [of "act_policy_tags a"] hint_agree_payload [of "action_payload a"]
    by (auto simp: resolve_explicit_host_kind_def hint_agree_def split: option.splits)
  with assms show ?thesis
    by (auto simp: te_resolve_dispatch_host_kind_def mr_resolve_dispatch_host_kind_def
        resolve_host_kind_def hint_agree_def mr_kind_def split: option.splits if_splits)
qed

lemma dispatch_block_implies_admission_block:
  "dp_should_block (resolve_dispatch_policy a) \<Longrightarrow> requires_remote_idempotency_contract_block a"
  using remote_hosts_agree [of a]
  by (auto simp: resolve_dispatch_policy_def requires_remote_idempotency_contract_block_def Let_def
      split: if_splits)

section \<open>Properties of dispatch policy and admission\<close>

text \<open>
  A dispatch is reported as guaranteed exactly when the action asked for it and the remote
  contract both accepts the dispatch key and returns stable acknowledgements; retries are
  automatic only under a contract with bounded retry.
\<close>

theorem guaranteed_claims_are_backed:
  "(rpd_effective_idempotency_level (evaluate_remote_service_policy level contract) = Guaranteed) =
     (level = Some Guaranteed \<and> (\<exists>c. contract = Some c \<and> rc_accepts_dispatch_idempotency_key c
        \<and> rc_returns_stable_ack c))
   \<and> rpd_can_claim_guaranteed (evaluate_remote_service_policy level contract) =
     (rpd_effective_idempotency_level (evaluate_remote_service_policy level contract) = Guaranteed)
   \<and> rpd_auto_retry_enabled (evaluate_remote_service_policy level contract) =
     (\<exists>c. contract = Some c \<and> rc_default_retry_policy c = ''bounded_retry'')"
  by (cases contract; cases level) (auto simp: evaluate_remote_service_policy_def Let_def split: if_splits)

text \<open>
  The static admission service is a second safety net: whatever host hints an action
  carries, an action it admits is never blocked later by the turn's dispatch policy.
\<close>

theorem admitted_action_not_dispatch_blocked:
  assumes "static_admit a = Inr r" "ad_admitted r"
  shows "\<not> dp_should_block (resolve_dispatch_policy a)"
proof
  assume "dp_should_block (resolve_dispatch_policy a)"
  then have "requires_remote_idempotency_contract_block a"
    by (rule dispatch_block_implies_admission_block)
  with assms show False
    by (auto simp: static_admit_def evaluate_action_policy_denies_def AdmissionResult_def Let_def
        elim!: bind_result_InrE split: if_splits option.splits)
qed

definition plain_action :: "string list \<Rightarrow> jdict option \<Rightarrow> action" where
  "plain_action tags payload =
     \<lparr>act_action_id = ''a1'', act_run_id = ''r1'', act_action_type = ''tool_call'',
      act_effect_class = IDEMPOTENT_WRITE, act_external_idempotency_level = None,
      act_interaction_target = None, act_input_ref = None, act_input_json = payload,
      act_policy_tags = tags, act_timeout_ms = None, act_side_effect_class = None\<rparr>"

lemma plain_admitted: "static_admit (plain_action [] None) = Inr (build_admitted_result (plain_action [] None))"
  by (simp add: static_admit_def evaluate_action_policy_denies_def plain_action_def
      extract_max_cost_from_policy_tags_def extract_estimated_cost_def
      requires_remote_idempotency_contract_block_def)

theorem admitted_action_not_dispatch_blocked_witness:
  "\<not> dp_should_block (resolve_dispatch_policy (plain_action [] None))"
  by (rule admitted_action_not_dispatch_blocked [OF plain_admitted])
    (simp add: build_admitted_result_def AdmissionResult_def Let_def)

text \<open>
  The static admission decision on every branch: human review and timeouts over
  five minutes are refused by policy, an estimated cost over the first valid cost cap by quota,
  an unproven remote guarantee by contract, and everything else is admitted with a grant; the
  only exception is an integer cost too large for a float.
\<close>

theorem static_admit_decision:
  "case static_admit a of
     Inl e \<Rightarrow> exn_name e = ''OverflowError''
   | Inr r \<Rightarrow>
       if ''requires_human_review'' \<in> set (act_policy_tags a)
          \<or> (\<exists>t. act_timeout_ms a = Some t \<and> t > 300000)
       then r = AdmissionResult False Policy_denied
       else if \<exists>m c. extract_max_cost_from_policy_tags (act_policy_tags a) = Some m
          \<and> extract_estimated_cost (act_input_json a) = Inr (Some c) \<and> c > m
       then r = AdmissionResult False Quota_exceeded
       else if requires_remote_idempotency_contract_block a
       then r = AdmissionResult False Idempotency_contract_insufficient
       else r = build_admitted_result a \<and> ad_admitted r"
proof (cases "extract_estimated_cost (act_input_json a)")
  case (Inl e)
  then have "exn_name e = ''OverflowError''"
    by (auto simp: extract_estimated_cost_def coerce_finite_number_def float_of_int_def bind_result_def
        split: option.splits json.splits pyfloat.splits sum.splits)
  with Inl show ?thesis
    by (auto simp: static_admit_def evaluate_action_policy_denies_def Let_def split: option.splits)
next
  case (Inr c)
  have "ad_admitted (build_admitted_result a)"
    by (simp add: build_admitted_result_def AdmissionResult_def Let_def)
  with Inr show ?thesis
    by (cases c; cases "extract_max_cost_from_policy_tags (act_policy_tags a)"; cases "act_timeout_ms a")
      (simp_all add: static_admit_def evaluate_action_policy_denies_def)
qed

text \<open>
  Evidence is resolved in the documented order: an external acknowledgement over an
  evidence reference over a local inference, blank references counting as absent; the raw
  fields of the envelope are kept, and resolving again changes nothing.
\<close>

theorem evidence_priority_resolved:
  "let e' = apply_failure_evidence_priority e;
       ack = normalize_optional_ref (fe_external_ack_ref e);
       evi = normalize_optional_ref (fe_evidence_ref e);
       inf = normalize_optional_ref (fe_local_inference e)
   in (fe_evidence_priority_source e', fe_evidence_priority_ref e') =
        (if ack \<noteq> None then (Src_external_ack_ref, ack)
         else if evi \<noteq> None then (Src_evidence_ref, evi)
         else if inf \<noteq> None then (Src_local_inference, inf)
         else (Src_none, None))
      \<and> fe_external_ack_ref e' = fe_external_ack_ref e \<and> fe_evidence_ref e' = fe_evidence_ref e
      \<and> fe_local_inference e' = fe_local_inference e
      \<and> apply_failure_evidence_priority e' = e'"
  by (auto simp: apply_failure_evidence_priority_def resolve_failure_evidence_def Let_def split: option.splits)

text \<open>
  The grant of an admitted action may name another host than its dispatch: the admission service
  resolves the sandbox host from two tag spellings only and ignores the payload.
\<close>

lemma sandbox_host_differs_from_dispatch_host:
  "let a = plain_action [] (Some [(''host_kind'', JStr ''remote_service'')])
   in resolve_sandbox_host_kind a = Local_cli \<and> te_resolve_dispatch_host_kind a = Remote_service"
  by code_simp

end
