(* ===== verification/Sha256.thy ===== *)
theory Sha256
  imports Kernel_Prelude "HOL-Library.Word"
begin

unbundle bit_operations_syntax

text \<open>
  The parts of Python's standard library that the kernel uses to derive stable identifiers:
  \<^verbatim>\<open>json.dumps(..., sort_keys=True, separators=(",", ":"))\<close>, UTF-8 encoding and
  \<^verbatim>\<open>hashlib.sha256(...).hexdigest()\<close> (FIPS 180-4) on 32-bit words.
\<close>

section \<open>SHA-256\<close>

type_synonym w32 = "32 word"

definition rotr32 :: "nat \<Rightarrow> w32 \<Rightarrow> w32" where
  "rotr32 n x = drop_bit n x OR push_bit (32 - n) x"

text \<open>
  The constants are the first 32 bits of the fractional parts of the cube roots of the first 64
  primes, the initial state those of the square roots of the first eight.  \<open>root_bits\<close> finds the
  integer root of a target bit by bit.
\<close>

fun root_bits :: "nat \<Rightarrow> nat \<Rightarrow> int \<Rightarrow> int \<Rightarrow> int" where
  "root_bits k 0 target acc = acc"
| "root_bits k (Suc b) target acc =
     root_bits k b target (if (acc + 2 ^ b) ^ k \<le> target then acc + 2 ^ b else acc)"

definition root_fraction :: "nat \<Rightarrow> int \<Rightarrow> w32" where
  "root_fraction k p = word_of_int (root_bits k 37 (p * 2 ^ (32 * k)) 0)"

definition is_prime_nat :: "nat \<Rightarrow> bool" where
  "is_prime_nat n = (2 \<le> n \<and> list_all (\<lambda>d. n mod d \<noteq> 0) [2..<n])"

definition small_primes :: "int list" where
  "small_primes = map int (filter is_prime_nat [2..<312])"

definition sha_k :: "w32 list" where
  "sha_k = map (root_fraction 3) small_primes"

record sha_state =
  sha_a :: w32
  sha_b :: w32
  sha_c :: w32
  sha_d :: w32
  sha_e :: w32
  sha_f :: w32
  sha_g :: w32
  sha_h :: w32

definition sha_init :: sha_state where
  "sha_init =
     (let f = (\<lambda>i. root_fraction 2 (small_primes ! i))
      in \<lparr>sha_a = f 0, sha_b = f 1, sha_c = f 2, sha_d = f 3,
          sha_e = f 4, sha_f = f 5, sha_g = f 6, sha_h = f 7\<rparr>)"

text \<open>Message schedule: the list grows to 64 words.\<close>

fun sha_schedule :: "nat \<Rightarrow> w32 list \<Rightarrow> w32 list" where
  "sha_schedule 0 w = w"
| "sha_schedule (Suc n) w =
     (let t = length w;
          w15 = w ! (t - 15);
          w2 = w ! (t - 2);
          s0 = rotr32 7 w15 XOR rotr32 18 w15 XOR drop_bit 3 w15;
          s1 = rotr32 17 w2 XOR rotr32 19 w2 XOR drop_bit 10 w2
      in sha_schedule n (w @ [w ! (t - 16) + s0 + w ! (t - 7) + s1]))"

definition sha_round :: "w32 \<Rightarrow> w32 \<Rightarrow> sha_state \<Rightarrow> sha_state" where
  "sha_round k w st =
     (let e = sha_e st; a = sha_a st;
          S1 = rotr32 6 e XOR rotr32 11 e XOR rotr32 25 e;
          ch = (e AND sha_f st) XOR (NOT e AND sha_g st);
          t1 = sha_h st + S1 + ch + k + w;
          S0 = rotr32 2 a XOR rotr32 13 a XOR rotr32 22 a;
          maj = (a AND sha_b st) XOR (a AND sha_c st) XOR (sha_b st AND sha_c st);
          t2 = S0 + maj
      in \<lparr>sha_a = t1 + t2, sha_b = a, sha_c = sha_b st, sha_d = sha_c st,
          sha_e = sha_d st + t1, sha_f = e, sha_g = sha_f st, sha_h = sha_g st\<rparr>)"

definition sha_block :: "sha_state \<Rightarrow> w32 list \<Rightarrow> sha_state" where
  "sha_block h block =
     (let st = fold (\<lambda>(k, w). sha_round k w) (zip sha_k (sha_schedule 48 block)) h
      in \<lparr>sha_a = sha_a h + sha_a st, sha_b = sha_b h + sha_b st, sha_c = sha_c h + sha_c st,
          sha_d = sha_d h + sha_d st, sha_e = sha_e h + sha_e st, sha_f = sha_f h + sha_f st,
          sha_g = sha_g h + sha_g st, sha_h = sha_h h + sha_h st\<rparr>)"

text \<open>Padding: a one bit, zeros, and the length in bits as 64 bits, to a multiple of 64 bytes.\<close>

fun be_bytes :: "nat \<Rightarrow> nat \<Rightarrow> nat list" where
  "be_bytes 0 n = []"
| "be_bytes (Suc k) n = be_bytes k (n div 256) @ [n mod 256]"

definition sha_pad :: "nat list \<Rightarrow> nat list" where
  "sha_pad bytes =
     (let n = length bytes
      in bytes @ [128] @ replicate ((119 - n mod 64) mod 64) 0 @ be_bytes 8 (8 * n))"

fun be_words :: "nat list \<Rightarrow> w32 list" where
  "be_words (a # b # c # d # bytes) =
     word_of_nat (((a * 256 + b) * 256 + c) * 256 + d) # be_words bytes"
| "be_words _ = []"

function sha_blocks :: "sha_state \<Rightarrow> w32 list \<Rightarrow> sha_state" where
  "sha_blocks h ws =
     (if length ws < 16 then h else sha_blocks (sha_block h (take 16 ws)) (drop 16 ws))"
  by pat_completeness auto
termination by (relation "measure (\<lambda>(h, ws). length ws)") auto

declare sha_blocks.simps [simp del]

definition hex_digit :: "nat \<Rightarrow> char" where
  "hex_digit d = (if d < 10 then char_of (48 + d) else char_of (87 + d))"

definition hex_word :: "w32 \<Rightarrow> string" where
  "hex_word w = concat (map (\<lambda>b. [hex_digit (b div 16), hex_digit (b mod 16)]) (be_bytes 4 (unat w)))"

definition sha256_hexdigest :: "nat list \<Rightarrow> string" where
  "sha256_hexdigest bytes =
     (let st = sha_blocks sha_init (be_words (sha_pad bytes))
      in concat (map hex_word [sha_a st, sha_b st, sha_c st, sha_d st, sha_e st, sha_f st, sha_g st, sha_h st]))"

lemma length_be_bytes [simp]: "length (be_bytes k n) = k"
  by (induction k arbitrary: n) auto

lemma length_hex_word [simp]: "length (hex_word w) = 8"
proof -
  have "length (concat (map (\<lambda>b. [hex_digit (b div 16), hex_digit (b mod 16)]) bs)) = 2 * length bs" for bs
    by (induction bs) auto
  then show ?thesis by (simp add: hex_word_def)
qed

lemma sha256_hexdigest_length: "length (sha256_hexdigest bytes) = 64"
  by (simp add: sha256_hexdigest_def Let_def)

lemma hex_digit_no_colon: "d < 16 \<Longrightarrow> hex_digit d \<noteq> CHR '':''"
proof
  assume d: "d < 16" and "hex_digit d = CHR '':''"
  then have "(of_char (hex_digit d) :: nat) = 58" by simp
  with d show False by (simp add: hex_digit_def split: if_splits)
qed

lemma be_bytes_less: "b \<in> set (be_bytes k n) \<Longrightarrow> b < 256"
  by (induction k arbitrary: n) auto

lemma hex_word_no_colon: "CHR '':'' \<notin> set (hex_word w)"
proof -
  have "hex_digit (b div 16) \<noteq> CHR '':''" "hex_digit (b mod 16) \<noteq> CHR '':''"
    if "b \<in> set (be_bytes 4 (unat w))" for b
    using be_bytes_less [OF that] by (auto intro!: hex_digit_no_colon)
  then show ?thesis by (fastforce simp: hex_word_def)
qed

lemma sha256_hexdigest_no_colon: "CHR '':'' \<notin> set (sha256_hexdigest bytes)"
  by (simp add: sha256_hexdigest_def Let_def hex_word_no_colon)

section \<open>UTF-8\<close>

text \<open>Code points below 256 take one or two bytes.\<close>

definition utf8_char :: "char \<Rightarrow> nat list" where
  "utf8_char c = (let n = of_char c in if n < 128 then [n] else [192 + n div 64, 128 + n mod 64])"

definition utf8_encode :: "string \<Rightarrow> nat list" where
  "utf8_encode s = concat (map utf8_char s)"

section \<open>JSON text\<close>

definition json_u_escape :: "nat \<Rightarrow> string" where
  "json_u_escape n = CHR 0x5C # ''u00'' @ [hex_digit (n div 16), hex_digit (n mod 16)]"

definition json_escape_char :: "bool \<Rightarrow> char \<Rightarrow> string" where
  "json_escape_char ensure_ascii c =
     (let n = of_char c :: nat in
      if n = 34 then [CHR 0x5C, CHR 0x22]
      else if n = 92 then [CHR 0x5C, CHR 0x5C]
      else if n = 10 then [CHR 0x5C, CHR ''n'']
      else if n = 13 then [CHR 0x5C, CHR ''r'']
      else if n = 9 then [CHR 0x5C, CHR ''t'']
      else if n = 12 then [CHR 0x5C, CHR ''f'']
      else if n = 8 then [CHR 0x5C, CHR ''b'']
      else if n < 32 \<or> (ensure_ascii \<and> n > 126) then json_u_escape n
      else [c])"

definition json_string :: "bool \<Rightarrow> string \<Rightarrow> string" where
  "json_string ensure_ascii s = CHR 0x22 # concat (map (json_escape_char ensure_ascii) s) @ [CHR 0x22]"

fun join :: "string \<Rightarrow> string list \<Rightarrow> string" where
  "join sep [] = []"
| "join sep [x] = x"
| "join sep (x # y # xs) = x @ sep @ join sep (y # xs)"

text \<open>
  \<^verbatim>\<open>json.dumps\<close> with sorted keys and compact separators.  How a finite float is rendered
  (\<^verbatim>\<open>float.__repr__\<close>, the shortest decimal that reads back) is the argument \<open>float_repr\<close>.
\<close>

fun json_dumps :: "(rat \<Rightarrow> string) \<Rightarrow> bool \<Rightarrow> json \<Rightarrow> string" where
  "json_dumps float_repr asc JNull = ''null''"
| "json_dumps float_repr asc (JBool b) = (if b then ''true'' else ''false'')"
| "json_dumps float_repr asc (JInt i) = show_int i"
| "json_dumps float_repr asc (JFloat PNaN) = ''NaN''"
| "json_dumps float_repr asc (JFloat PInf) = ''Infinity''"
| "json_dumps float_repr asc (JFloat PNegInf) = ''-Infinity''"
| "json_dumps float_repr asc (JFloat (PFin r)) = float_repr r"
| "json_dumps float_repr asc (JStr s) = json_string asc s"
| "json_dumps float_repr asc (JList xs) = CHR ''['' # join '','' (map (json_dumps float_repr asc) xs) @ '']''"
| "json_dumps float_repr asc (JDict d) =
     CHR ''{'' # join '','' (map (\<lambda>(k, v). json_string asc k @ '':'' @ v)
       (sort_key fst (map (\<lambda>(k, v). (k, json_dumps float_repr asc v)) d))) @ ''}''"

end
