(* ===== verification/Capability_Snapshot.thy ===== *)
theory Capability_Snapshot
  imports Kernel_Contracts Sha256
begin

text \<open>
  \<^verbatim>\<open>kernel/capability_snapshot.py\<close> and \<^verbatim>\<open>kernel/idempotency_key_policy.py\<close>: the frozen capability
  snapshot with its canonical JSON and hash, and the dispatch keys derived from it.  The clock
  is the argument \<open>now\<close>; the rendering of floats in JSON is the argument \<open>float_repr\<close>.
\<close>

section \<open>Snapshot input and snapshot\<close>

record declarative_bundle_digest =
  bd_bundle_ref :: string
  bd_semantics_version :: string
  bd_content_hash :: string
  bd_compile_hash :: string

record capability_snapshot_input =
  si_run_id :: string
  si_based_on_offset :: int
  si_tenant_policy_ref :: string
  si_permission_mode :: string
  si_tool_bindings :: "string list"
  si_mcp_bindings :: "string list"
  si_skill_bindings :: "string list"
  si_feature_flags :: "string list"
  si_context_binding_ref :: "string option"
  si_context_content_hash :: "string option"
  si_budget_ref :: "string option"
  si_quota_ref :: "string option"
  si_session_mode :: "string option"
  si_approval_state :: "string option"
  si_declarative_bundle_digest :: "declarative_bundle_digest option"
  si_peer_run_bindings :: "string list"

record capability_snapshot =
  sn_snapshot_ref :: string
  sn_snapshot_hash :: string
  sn_run_id :: string
  sn_based_on_offset :: int
  sn_tenant_policy_ref :: string
  sn_permission_mode :: string
  sn_tool_bindings :: "string list"
  sn_mcp_bindings :: "string list"
  sn_skill_bindings :: "string list"
  sn_feature_flags :: "string list"
  sn_context_binding_ref :: "string option"
  sn_context_content_hash :: "string option"
  sn_budget_ref :: "string option"
  sn_quota_ref :: "string option"
  sn_session_mode :: "string option"
  sn_approval_state :: "string option"
  sn_declarative_bundle_digest :: "declarative_bundle_digest option"
  sn_created_at :: string
  sn_snapshot_schema_version :: string
  sn_peer_run_bindings :: "string list"

definition CURRENT_SNAPSHOT_SCHEMA_VERSION :: string where
  "CURRENT_SNAPSHOT_SCHEMA_VERSION = ''1''"

definition CapabilitySnapshotInput :: "string \<Rightarrow> int \<Rightarrow> string \<Rightarrow> string \<Rightarrow> capability_snapshot_input" where
  "CapabilitySnapshotInput run_id based_on_offset tenant_policy_ref permission_mode =
     \<lparr>si_run_id = run_id, si_based_on_offset = based_on_offset,
      si_tenant_policy_ref = tenant_policy_ref, si_permission_mode = permission_mode,
      si_tool_bindings = [], si_mcp_bindings = [], si_skill_bindings = [], si_feature_flags = [],
      si_context_binding_ref = None, si_context_content_hash = None, si_budget_ref = None,
      si_quota_ref = None, si_session_mode = None, si_approval_state = None,
      si_declarative_bundle_digest = None, si_peer_run_bindings = []\<rparr>"

section \<open>The builder\<close>

definition validate_input :: "capability_snapshot_input \<Rightarrow> unit result" where
  "validate_input x =
     (if si_run_id x = [] then Inl (CapabilitySnapshotBuildError ''run_id is required.'')
      else if si_based_on_offset x < 0 then
        Inl (CapabilitySnapshotBuildError ''based_on_offset must be >= 0.'')
      else if si_tenant_policy_ref x = [] then
        Inl (CapabilitySnapshotBuildError ''tenant_policy_ref is required.'')
      else if si_permission_mode x = [] then
        Inl (CapabilitySnapshotBuildError ''permission_mode is required.'')
      else if truthy (si_context_binding_ref x) \<and> \<not> truthy (si_context_content_hash x) then
        Inl (CapabilitySnapshotBuildError
          ''context_content_hash is required when context_binding_ref is set.'')
      else Inr ())"

definition normalize_bundle_digest :: "declarative_bundle_digest option \<Rightarrow> json" where
  "normalize_bundle_digest digest =
     (case digest of None \<Rightarrow> JNull
      | Some d \<Rightarrow> JDict
          [(''bundle_ref'', JStr (bd_bundle_ref d)),
           (''semantics_version'', JStr (bd_semantics_version d)),
           (''content_hash'', JStr (bd_content_hash d)),
           (''compile_hash'', JStr (bd_compile_hash d))])"

definition normalize_string_list :: "string list \<Rightarrow> string list" where
  "normalize_string_list values = sort (remdups (filter (\<lambda>value. value \<noteq> []) values))"

definition json_opt_str :: "string option \<Rightarrow> json" where
  "json_opt_str v = (case v of None \<Rightarrow> JNull | Some s \<Rightarrow> JStr s)"

definition json_str_list :: "string list \<Rightarrow> json" where
  "json_str_list xs = JList (map JStr xs)"

definition canonical_payload :: "capability_snapshot_input \<Rightarrow> json" where
  "canonical_payload x = JDict
     [(''snapshot_schema_version'', JStr CURRENT_SNAPSHOT_SCHEMA_VERSION),
      (''run_id'', JStr (si_run_id x)),
      (''based_on_offset'', JInt (si_based_on_offset x)),
      (''tenant_policy_ref'', JStr (si_tenant_policy_ref x)),
      (''permission_mode'', JStr (si_permission_mode x)),
      (''tool_bindings'', json_str_list (normalize_string_list (si_tool_bindings x))),
      (''mcp_bindings'', json_str_list (normalize_string_list (si_mcp_bindings x))),
      (''skill_bindings'', json_str_list (normalize_string_list (si_skill_bindings x))),
      (''feature_flags'', json_str_list (normalize_string_list (si_feature_flags x))),
      (''context_content_hash'', json_opt_str (si_context_content_hash x)),
      (''budget_ref'', json_opt_str (si_budget_ref x)),
      (''quota_ref'', json_opt_str (si_quota_ref x)),
      (''session_mode'', json_opt_str (si_session_mode x)),
      (''approval_state'', json_opt_str (si_approval_state x)),
      (''declarative_bundle_digest'', normalize_bundle_digest (si_declarative_bundle_digest x)),
      (''peer_run_bindings'', json_str_list (normalize_string_list (si_peer_run_bindings x)))]"

text \<open>The canonical payload holds no float, so no float is ever rendered here.\<close>

definition build_stable_sha256 :: "json \<Rightarrow> string" where
  "build_stable_sha256 payload =
     sha256_hexdigest (utf8_encode (json_dumps (\<lambda>_. []) False payload))"

definition build_snapshot :: "string \<Rightarrow> capability_snapshot_input \<Rightarrow> capability_snapshot result" where
  "build_snapshot now x =
     bind_result (validate_input x) (\<lambda>_.
       let snapshot_hash = build_stable_sha256 (canonical_payload x)
       in Inr
         \<lparr>sn_snapshot_ref = ''snapshot:'' @ si_run_id x @ '':'' @ show_int (si_based_on_offset x) @
            '':'' @ take 12 snapshot_hash,
          sn_snapshot_hash = snapshot_hash,
          sn_run_id = si_run_id x,
          sn_based_on_offset = si_based_on_offset x,
          sn_tenant_policy_ref = si_tenant_policy_ref x,
          sn_permission_mode = si_permission_mode x,
          sn_tool_bindings = normalize_string_list (si_tool_bindings x),
          sn_mcp_bindings = normalize_string_list (si_mcp_bindings x),
          sn_skill_bindings = normalize_string_list (si_skill_bindings x),
          sn_feature_flags = normalize_string_list (si_feature_flags x),
          sn_context_binding_ref = si_context_binding_ref x,
          sn_context_content_hash = si_context_content_hash x,
          sn_budget_ref = si_budget_ref x,
          sn_quota_ref = si_quota_ref x,
          sn_session_mode = si_session_mode x,
          sn_approval_state = si_approval_state x,
          sn_declarative_bundle_digest = si_declarative_bundle_digest x,
          sn_created_at = now,
          sn_snapshot_schema_version = CURRENT_SNAPSHOT_SCHEMA_VERSION,
          sn_peer_run_bindings = normalize_string_list (si_peer_run_bindings x)\<rparr>)"

definition assert_snapshot_compatible :: "capability_snapshot \<Rightarrow> unit result" where
  "assert_snapshot_compatible s =
     (if sn_snapshot_schema_version s \<noteq> CURRENT_SNAPSHOT_SCHEMA_VERSION
      then Inl (ValueError (''CapabilitySnapshot schema_version='' @ repr_str (sn_snapshot_schema_version s) @
        '' is incompatible with the current kernel version ('' @
        repr_str CURRENT_SNAPSHOT_SCHEMA_VERSION @
        ''). Rebuild the snapshot using CapabilitySnapshotBuilder.''))
      else Inr ())"

section \<open>Dispatch keys\<close>

fun canonicalize_json :: "json \<Rightarrow> json" where
  "canonicalize_json (JDict d) = JDict (map (\<lambda>(k, v). (k, canonicalize_json v)) d)"
| "canonicalize_json (JList xs) = JList (map canonicalize_json xs)"
| "canonicalize_json v = v"

definition content_hash :: "(rat \<Rightarrow> string) \<Rightarrow> action \<Rightarrow> string \<Rightarrow> string" where
  "content_hash float_repr a snapshot_hash =
     (let input_json_value = (case act_input_json a of None \<Rightarrow> [] | Some d \<Rightarrow> d);
          payload = JDict
            [(''action_type'', JStr (act_action_type a)),
             (''input_json'', canonicalize_json (JDict input_json_value)),
             (''policy_tags'', json_str_list (act_policy_tags a)),
             (''effect_class'', JStr (effect_class_str (act_effect_class a))),
             (''snapshot_hash'', JStr snapshot_hash)]
      in sha256_hexdigest (utf8_encode (json_dumps float_repr True payload)))"

definition generate_key :: "(rat \<Rightarrow> string) \<Rightarrow> string \<Rightarrow> string \<Rightarrow> action \<Rightarrow> string \<Rightarrow> string" where
  "generate_key float_repr namespace run_id a snapshot_hash =
     namespace @ '':'' @ run_id @ '':'' @ act_action_id a @ '':'' @ content_hash float_repr a snapshot_hash"

definition generate_compensation_key :: "string \<Rightarrow> string \<Rightarrow> string" where
  "generate_compensation_key effect_cls action_id = ''compensation:'' @ effect_cls @ '':'' @ action_id"

section \<open>Properties of snapshots\<close>

lemma normalize_string_list_set [simp]: "set (normalize_string_list xs) = {x \<in> set xs. x \<noteq> []}"
  by (auto simp: normalize_string_list_def)

lemma normalize_string_list_sorted: "sorted (normalize_string_list xs) \<and> distinct (normalize_string_list xs)"
  by (simp add: normalize_string_list_def)

lemma normalize_string_list_cong:
  assumes "{x \<in> set xs. x \<noteq> []} = {x \<in> set ys. x \<noteq> []}"
  shows "normalize_string_list xs = normalize_string_list ys"
  using assms sorted_distinct_set_unique normalize_string_list_sorted normalize_string_list_set by metis

lemma normalize_string_list_idem [simp]:
  "normalize_string_list (normalize_string_list xs) = normalize_string_list xs"
  by (rule normalize_string_list_cong) auto

text \<open>Inputs with the same capabilities: bindings are compared as sets of non-empty names.\<close>

definition same_names :: "string list \<Rightarrow> string list \<Rightarrow> bool" where
  "same_names xs ys \<longleftrightarrow> {x \<in> set xs. x \<noteq> []} = {x \<in> set ys. x \<noteq> []}"

definition same_capabilities :: "capability_snapshot_input \<Rightarrow> capability_snapshot_input \<Rightarrow> bool" where
  "same_capabilities x y \<longleftrightarrow>
     same_names (si_tool_bindings x) (si_tool_bindings y) \<and>
     same_names (si_mcp_bindings x) (si_mcp_bindings y) \<and>
     same_names (si_skill_bindings x) (si_skill_bindings y) \<and>
     same_names (si_feature_flags x) (si_feature_flags y) \<and>
     same_names (si_peer_run_bindings x) (si_peer_run_bindings y) \<and>
     si_run_id x = si_run_id y \<and> si_based_on_offset x = si_based_on_offset y \<and>
     si_tenant_policy_ref x = si_tenant_policy_ref y \<and> si_permission_mode x = si_permission_mode y \<and>
     si_context_content_hash x = si_context_content_hash y \<and> si_budget_ref x = si_budget_ref y \<and>
     si_quota_ref x = si_quota_ref y \<and> si_session_mode x = si_session_mode y \<and>
     si_approval_state x = si_approval_state y \<and>
     si_declarative_bundle_digest x = si_declarative_bundle_digest y"

lemma same_names_normalize: "same_names xs ys \<Longrightarrow> normalize_string_list xs = normalize_string_list ys"
  unfolding same_names_def by (rule normalize_string_list_cong)

text \<open>
  Two builds from inputs with the same capabilities, in whatever order and
  multiplicity the bindings are listed and whatever the mutable context reference and the
  clock, give the same snapshot hash and the same snapshot reference.
\<close>

theorem snapshot_hash_stable:
  assumes "same_capabilities x y" "build_snapshot now x = Inr s" "build_snapshot now' y = Inr t"
  shows "sn_snapshot_hash s = sn_snapshot_hash t \<and> sn_snapshot_ref s = sn_snapshot_ref t"
proof -
  have "canonical_payload x = canonical_payload y"
    using assms(1) by (auto simp: canonical_payload_def same_capabilities_def dest!: same_names_normalize)
  moreover have "si_run_id x = si_run_id y" "si_based_on_offset x = si_based_on_offset y"
    using assms(1) by (simp_all add: same_capabilities_def)
  ultimately show ?thesis
    using assms(2,3) by (auto simp: build_snapshot_def Let_def elim!: bind_result_InrE)
qed

definition sample_input :: "string list \<Rightarrow> capability_snapshot_input" where
  "sample_input tools =
     (CapabilitySnapshotInput ''r1'' 3 ''policy:default'' ''strict'')\<lparr>si_tool_bindings := tools\<rparr>"

lemma sample_input_valid: "validate_input (sample_input tools) = Inr ()"
  by (simp add: validate_input_def sample_input_def CapabilitySnapshotInput_def)

theorem snapshot_hash_stable_witness:
  "\<exists>s t. build_snapshot ''now'' (sample_input [''b'', ''a'', ''b'', '''']) = Inr s
     \<and> build_snapshot ''later'' (sample_input [''a'', ''b'']) = Inr t
     \<and> sn_snapshot_hash s = sn_snapshot_hash t"
proof -
  let ?x = "sample_input [''b'', ''a'', ''b'', '''']" and ?y = "sample_input [''a'', ''b'']"
  obtain s t where st: "build_snapshot ''now'' ?x = Inr s" "build_snapshot ''later'' ?y = Inr t"
    by (simp add: build_snapshot_def sample_input_valid Let_def)
  have "same_capabilities ?x ?y"
    by (auto simp: same_capabilities_def sample_input_def same_names_def)
  from snapshot_hash_stable [OF this st] st show ?thesis by blast
qed

text \<open>
  A snapshot is built exactly from inputs with a run, a non-negative offset, a policy, a
  permission mode and a content hash for any bound context; the result is accepted by the
  schema check and its bindings are sorted and without duplicates or empty names.
\<close>

theorem build_snapshot_spec:
  "case build_snapshot now x of
     Inl e \<Rightarrow> (\<exists>m. e = CapabilitySnapshotBuildError m)
       \<and> (si_run_id x = [] \<or> si_based_on_offset x < 0 \<or> si_tenant_policy_ref x = []
          \<or> si_permission_mode x = []
          \<or> truthy (si_context_binding_ref x) \<and> si_context_content_hash x \<in> {None, Some []})
   | Inr s \<Rightarrow> si_run_id x \<noteq> [] \<and> 0 \<le> si_based_on_offset x \<and> si_tenant_policy_ref x \<noteq> []
       \<and> si_permission_mode x \<noteq> []
       \<and> assert_snapshot_compatible s = Inr ()
       \<and> sorted (sn_tool_bindings s) \<and> distinct (sn_tool_bindings s)
       \<and> set (sn_tool_bindings s) = {t \<in> set (si_tool_bindings x). t \<noteq> []}
       \<and> length (sn_snapshot_hash s) = 64"
proof (cases "validate_input x")
  case (Inl e)
  then show ?thesis
    by (auto simp: build_snapshot_def validate_input_def truthy_def split: if_splits option.splits)
next
  case (Inr u)
  then show ?thesis
    by (auto simp: build_snapshot_def Let_def validate_input_def assert_snapshot_compatible_def
        normalize_string_list_sorted build_stable_sha256_def sha256_hexdigest_length split: if_splits)
qed

section \<open>Properties of dispatch keys\<close>

lemma canonicalize_json_id [simp]: "canonicalize_json v = v"
proof (induction v)
  case (JDict d)
  then show ?case by (auto simp: map_idI split: prod.splits)
next
  case (JList xs)
  then show ?case by (simp add: map_idI)
qed simp_all

lemma content_hash_no_colon: "CHR '':'' \<notin> set (content_hash float_repr a h)"
  by (simp add: content_hash_def Let_def sha256_hexdigest_no_colon)

lemma split_at_first:
  assumes "c \<notin> set a" "c \<notin> set a'" "a @ c # b = a' @ c # b'"
  shows "a = a' \<and> b = b'"
  using assms
proof (induction a arbitrary: a')
  case Nil
  then show ?case by (cases a') auto
next
  case (Cons x a)
  then show ?case by (cases a') auto
qed

lemma split_at_last:
  assumes "c \<notin> set b" "c \<notin> set b'" "a @ c # b = a' @ c # b'"
  shows "a = a' \<and> b = b'"
proof -
  have "rev b @ c # rev a = rev b' @ c # rev a'"
    using arg_cong [OF assms(3), of rev] by simp
  with split_at_first [of c "rev b" "rev b'" "rev a" "rev a'"] assms(1,2) show ?thesis by simp
qed

text \<open>
  Dispatch keys keep dispatches apart. For run identifiers without a colon, equal keys
  in the dispatch namespace belong to the same run, the same action identifier and actions
  with the same content hash.
\<close>

theorem dispatch_keys_separate:
  assumes "CHR '':'' \<notin> set run_id" "CHR '':'' \<notin> set run_id'"
    "generate_key float_repr ''dispatch'' run_id a h = generate_key float_repr ''dispatch'' run_id' b h'"
  shows "run_id = run_id' \<and> act_action_id a = act_action_id b
    \<and> content_hash float_repr a h = content_hash float_repr b h'"
proof -
  have "(run_id @ '':'' @ act_action_id a) @ CHR '':'' # content_hash float_repr a h =
      (run_id' @ '':'' @ act_action_id b) @ CHR '':'' # content_hash float_repr b h'"
    using assms(3) by (simp add: generate_key_def)
  from split_at_last [OF content_hash_no_colon content_hash_no_colon this]
  have "run_id @ CHR '':'' # act_action_id a = run_id' @ CHR '':'' # act_action_id b"
    and "content_hash float_repr a h = content_hash float_repr b h'" by simp_all
  with split_at_first [OF assms(1,2)] show ?thesis by blast
qed

definition sample_action :: "string \<Rightarrow> effect_class \<Rightarrow> action" where
  "sample_action aid eff =
     \<lparr>act_action_id = aid, act_run_id = ''r1'', act_action_type = ''tool_call'', act_effect_class = eff,
      act_external_idempotency_level = None, act_interaction_target = None, act_input_ref = None,
      act_input_json = None, act_policy_tags = [], act_timeout_ms = None, act_side_effect_class = None\<rparr>"

theorem dispatch_keys_separate_witness:
  "generate_key (\<lambda>_. []) ''dispatch'' ''r1'' (sample_action ''a'' READ_ONLY) ''h''
   \<noteq> generate_key (\<lambda>_. []) ''dispatch'' ''r2'' (sample_action ''a'' READ_ONLY) ''h''"
  using dispatch_keys_separate [of "''r1''" "''r2''"
      "\<lambda>_. []" "sample_action ''a'' READ_ONLY" "''h''" "sample_action ''a'' READ_ONLY" "''h''"]
  by fastforce

end
