(* ===== verification/Dedupe_Store.thy ===== *)
theory Dedupe_Store
  imports Kernel_Contracts
begin

text \<open>
  The dispatch ledger of \<^verbatim>\<open>kernel/dedupe_store.py\<close>: the records and states, the port
  (\<^verbatim>\<open>DedupeStorePort\<close>) as a record of operations with a locale for the laws its clients rely
  on, and the in-memory store, which interprets the locale.  The lemmas of the locale hold for
  every implementation of the port, also one whose calls may fail.
\<close>

section \<open>Records and states\<close>

datatype dedupe_state = Reserved | Dispatched | Acknowledged | Succeeded | Unknown_effect

fun dedupe_state_str :: "dedupe_state \<Rightarrow> string" where
  "dedupe_state_str Reserved = ''reserved''"
| "dedupe_state_str Dispatched = ''dispatched''"
| "dedupe_state_str Acknowledged = ''acknowledged''"
| "dedupe_state_str Succeeded = ''succeeded''"
| "dedupe_state_str Unknown_effect = ''unknown_effect''"

record idempotency_envelope =
  en_dispatch_idempotency_key :: string
  en_operation_fingerprint :: string
  en_attempt_seq :: int
  en_effect_scope :: string
  en_capability_snapshot_hash :: string
  en_host_kind :: host_kind
  en_peer_operation_id :: "string option"
  en_policy_snapshot_ref :: "string option"
  en_rule_bundle_hash :: "string option"

record dedupe_record =
  dr_dispatch_idempotency_key :: string
  dr_operation_fingerprint :: string
  dr_attempt_seq :: int
  dr_state :: dedupe_state
  dr_peer_operation_id :: "string option"
  dr_external_ack_ref :: "string option"

datatype reservation_reason = Duplicate | Reserved_slot | Accepted

record dedupe_reservation =
  rv_accepted :: bool
  rv_reason :: reservation_reason
  rv_existing_record :: "dedupe_record option"

definition duplicate_reservation :: "dedupe_record \<Rightarrow> dedupe_reservation" where
  "duplicate_reservation existing =
     \<lparr>rv_accepted = False, rv_reason = Duplicate, rv_existing_record = Some existing\<rparr>"

definition accepted_reservation :: dedupe_reservation where
  "accepted_reservation =
     \<lparr>rv_accepted = True, rv_reason = Accepted, rv_existing_record = None\<rparr>"

lemma reservation_simps [simp]:
  "rv_accepted accepted_reservation"
  "\<not> rv_accepted (duplicate_reservation r)"
  "rv_existing_record (duplicate_reservation r) = Some r"
  by (simp_all add: accepted_reservation_def duplicate_reservation_def)

section \<open>The in-memory store\<close>

type_synonym dedupe_mem = "(string, dedupe_record) dict"

definition mem_get_required_record :: "dedupe_mem \<Rightarrow> string \<Rightarrow> dedupe_record result" where
  "mem_get_required_record s k =
     (case dict_get s k of
        None \<Rightarrow> Inl (DedupeStoreStateError (''Unknown dispatch_idempotency_key: '' @ k @ ''.''))
      | Some r \<Rightarrow> Inr r)"

definition cannot_transition :: "dedupe_state \<Rightarrow> string \<Rightarrow> exn" where
  "cannot_transition st target =
     DedupeStoreStateError (''Cannot transition '' @ dedupe_state_str st @ '' -> '' @ target @ ''.'')"

definition mem_reserve ::
  "dedupe_mem \<Rightarrow> idempotency_envelope \<Rightarrow> dedupe_mem \<times> dedupe_reservation result" where
  "mem_reserve s env =
     (case dict_get s (en_dispatch_idempotency_key env) of
        Some existing \<Rightarrow> (s, Inr (duplicate_reservation existing))
      | None \<Rightarrow>
          (dict_set (en_dispatch_idempotency_key env)
             \<lparr>dr_dispatch_idempotency_key = en_dispatch_idempotency_key env,
              dr_operation_fingerprint = en_operation_fingerprint env,
              dr_attempt_seq = en_attempt_seq env,
              dr_state = Reserved,
              dr_peer_operation_id = en_peer_operation_id env,
              dr_external_ack_ref = None\<rparr> s,
           Inr accepted_reservation))"

definition mem_mark_dispatched ::
  "dedupe_mem \<Rightarrow> string \<Rightarrow> string option \<Rightarrow> dedupe_mem \<times> unit result" where
  "mem_mark_dispatched s k peer =
     (case mem_get_required_record s k of
        Inl e \<Rightarrow> (s, Inl e)
      | Inr r \<Rightarrow>
          if dr_state r \<notin> {Reserved, Dispatched}
          then (s, Inl (cannot_transition (dr_state r) ''dispatched''))
          else (dict_set k
             \<lparr>dr_dispatch_idempotency_key = dr_dispatch_idempotency_key r,
              dr_operation_fingerprint = dr_operation_fingerprint r,
              dr_attempt_seq = dr_attempt_seq r,
              dr_state = Dispatched,
              dr_peer_operation_id = or_else peer (dr_peer_operation_id r),
              dr_external_ack_ref = dr_external_ack_ref r\<rparr> s, Inr ()))"

definition mem_mark_acknowledged ::
  "dedupe_mem \<Rightarrow> string \<Rightarrow> string option \<Rightarrow> dedupe_mem \<times> unit result" where
  "mem_mark_acknowledged s k ack =
     (case mem_get_required_record s k of
        Inl e \<Rightarrow> (s, Inl e)
      | Inr r \<Rightarrow>
          if dr_state r \<notin> {Dispatched, Acknowledged}
          then (s, Inl (cannot_transition (dr_state r) ''acknowledged''))
          else (dict_set k
             \<lparr>dr_dispatch_idempotency_key = dr_dispatch_idempotency_key r,
              dr_operation_fingerprint = dr_operation_fingerprint r,
              dr_attempt_seq = dr_attempt_seq r,
              dr_state = Acknowledged,
              dr_peer_operation_id = dr_peer_operation_id r,
              dr_external_ack_ref = or_else ack (dr_external_ack_ref r)\<rparr> s, Inr ()))"

definition mem_mark_succeeded ::
  "dedupe_mem \<Rightarrow> string \<Rightarrow> string option \<Rightarrow> dedupe_mem \<times> unit result" where
  "mem_mark_succeeded s k ack =
     (case mem_get_required_record s k of
        Inl e \<Rightarrow> (s, Inl e)
      | Inr r \<Rightarrow>
          if dr_state r \<notin> {Acknowledged, Succeeded}
          then (s, Inl (cannot_transition (dr_state r) ''succeeded''))
          else (dict_set k
             \<lparr>dr_dispatch_idempotency_key = dr_dispatch_idempotency_key r,
              dr_operation_fingerprint = dr_operation_fingerprint r,
              dr_attempt_seq = dr_attempt_seq r,
              dr_state = Succeeded,
              dr_peer_operation_id = dr_peer_operation_id r,
              dr_external_ack_ref = or_else ack (dr_external_ack_ref r)\<rparr> s, Inr ()))"

definition mem_mark_unknown_effect :: "dedupe_mem \<Rightarrow> string \<Rightarrow> dedupe_mem \<times> unit result" where
  "mem_mark_unknown_effect s k =
     (case mem_get_required_record s k of
        Inl e \<Rightarrow> (s, Inl e)
      | Inr r \<Rightarrow>
          if dr_state r \<notin> {Dispatched, Unknown_effect}
          then (s, Inl (cannot_transition (dr_state r) ''unknown_effect''))
          else (dict_set k
             \<lparr>dr_dispatch_idempotency_key = dr_dispatch_idempotency_key r,
              dr_operation_fingerprint = dr_operation_fingerprint r,
              dr_attempt_seq = dr_attempt_seq r,
              dr_state = Unknown_effect,
              dr_peer_operation_id = dr_peer_operation_id r,
              dr_external_ack_ref = dr_external_ack_ref r\<rparr> s, Inr ()))"

definition mem_reserve_and_dispatch ::
  "dedupe_mem \<Rightarrow> idempotency_envelope \<Rightarrow> string option
     \<Rightarrow> dedupe_mem \<times> dedupe_reservation result" where
  "mem_reserve_and_dispatch s env peer =
     (case dict_get s (en_dispatch_idempotency_key env) of
        Some existing \<Rightarrow> (s, Inr (duplicate_reservation existing))
      | None \<Rightarrow>
          (dict_set (en_dispatch_idempotency_key env)
             \<lparr>dr_dispatch_idempotency_key = en_dispatch_idempotency_key env,
              dr_operation_fingerprint = en_operation_fingerprint env,
              dr_attempt_seq = en_attempt_seq env,
              dr_state = Dispatched,
              dr_peer_operation_id = or_else peer (en_peer_operation_id env),
              dr_external_ack_ref = None\<rparr> s,
           Inr accepted_reservation))"

definition mem_get :: "dedupe_mem \<Rightarrow> string \<Rightarrow> dedupe_mem \<times> dedupe_record option result" where
  "mem_get s k = (s, Inr (dict_get s k))"

definition mem_count_by_run :: "dedupe_mem \<Rightarrow> string \<Rightarrow> nat" where
  "mem_count_by_run s run_id = length (filter (\<lambda>key. startswith key run_id) (map fst s))"

section \<open>The port and its abstract ledger\<close>

text \<open>
  The operations of \<^verbatim>\<open>DedupeStorePort\<close>, over any store state \<open>'s\<close>.  Every call returns the
  next store and either an exception or its value.
\<close>

record 's dedupe_port =
  port_reserve :: "'s \<Rightarrow> idempotency_envelope \<Rightarrow> 's \<times> dedupe_reservation result"
  port_mark_dispatched :: "'s \<Rightarrow> string \<Rightarrow> string option \<Rightarrow> 's \<times> unit result"
  port_mark_acknowledged :: "'s \<Rightarrow> string \<Rightarrow> string option \<Rightarrow> 's \<times> unit result"
  port_mark_succeeded :: "'s \<Rightarrow> string \<Rightarrow> string option \<Rightarrow> 's \<times> unit result"
  port_mark_unknown_effect :: "'s \<Rightarrow> string \<Rightarrow> 's \<times> unit result"
  port_reserve_and_dispatch ::
    "'s \<Rightarrow> idempotency_envelope \<Rightarrow> string option \<Rightarrow> 's \<times> dedupe_reservation result"
  port_get :: "'s \<Rightarrow> string \<Rightarrow> 's \<times> dedupe_record option result"

definition mem_port :: "dedupe_mem dedupe_port" where
  "mem_port =
     \<lparr>port_reserve = mem_reserve,
      port_mark_dispatched = mem_mark_dispatched,
      port_mark_acknowledged = mem_mark_acknowledged,
      port_mark_succeeded = mem_mark_succeeded,
      port_mark_unknown_effect = mem_mark_unknown_effect,
      port_reserve_and_dispatch = mem_reserve_and_dispatch,
      port_get = mem_get\<rparr>"

lemma mem_port_simps [simp]:
  "port_reserve mem_port = mem_reserve"
  "port_mark_dispatched mem_port = mem_mark_dispatched"
  "port_mark_acknowledged mem_port = mem_mark_acknowledged"
  "port_mark_succeeded mem_port = mem_mark_succeeded"
  "port_mark_unknown_effect mem_port = mem_mark_unknown_effect"
  "port_reserve_and_dispatch mem_port = mem_reserve_and_dispatch"
  "port_get mem_port = mem_get"
  by (simp_all add: mem_port_def)

text \<open>
  The abstract ledger maps keys to records.  A mark is one of the four state transitions with
  its optional reference; \<open>mark_from\<close> says from which states it is allowed and \<open>mark_record\<close>
  what it does to the record.
\<close>

type_synonym ledger = "string \<rightharpoonup> dedupe_record"

datatype mark =
    MarkDispatched "string option"
  | MarkAcknowledged "string option"
  | MarkSucceeded "string option"
  | MarkUnknown

fun mark_from :: "mark \<Rightarrow> dedupe_state \<Rightarrow> bool" where
  "mark_from (MarkDispatched _) st = (st = Reserved \<or> st = Dispatched)"
| "mark_from (MarkAcknowledged _) st = (st = Dispatched \<or> st = Acknowledged)"
| "mark_from (MarkSucceeded _) st = (st = Acknowledged \<or> st = Succeeded)"
| "mark_from MarkUnknown st = (st = Dispatched \<or> st = Unknown_effect)"

fun mark_target :: "mark \<Rightarrow> dedupe_state" where
  "mark_target (MarkDispatched _) = Dispatched"
| "mark_target (MarkAcknowledged _) = Acknowledged"
| "mark_target (MarkSucceeded _) = Succeeded"
| "mark_target MarkUnknown = Unknown_effect"

fun mark_record :: "mark \<Rightarrow> dedupe_record \<Rightarrow> dedupe_record" where
  "mark_record (MarkDispatched p) r =
     r\<lparr>dr_state := Dispatched, dr_peer_operation_id := or_else p (dr_peer_operation_id r)\<rparr>"
| "mark_record (MarkAcknowledged a) r =
     r\<lparr>dr_state := Acknowledged, dr_external_ack_ref := or_else a (dr_external_ack_ref r)\<rparr>"
| "mark_record (MarkSucceeded a) r =
     r\<lparr>dr_state := Succeeded, dr_external_ack_ref := or_else a (dr_external_ack_ref r)\<rparr>"
| "mark_record MarkUnknown r = r\<lparr>dr_state := Unknown_effect\<rparr>"

lemma mark_record_simps [simp]:
  "dr_state (mark_record m r) = mark_target m"
  "dr_dispatch_idempotency_key (mark_record m r) = dr_dispatch_idempotency_key r"
  "dr_operation_fingerprint (mark_record m r) = dr_operation_fingerprint r"
  "dr_attempt_seq (mark_record m r) = dr_attempt_seq r"
  by (cases m; simp)+

fun port_mark :: "'s dedupe_port \<Rightarrow> 's \<Rightarrow> mark \<Rightarrow> string \<Rightarrow> 's \<times> unit result" where
  "port_mark port s (MarkDispatched p) k = port_mark_dispatched port s k p"
| "port_mark port s (MarkAcknowledged a) k = port_mark_acknowledged port s k a"
| "port_mark port s (MarkSucceeded a) k = port_mark_succeeded port s k a"
| "port_mark port s MarkUnknown k = port_mark_unknown_effect port s k"

definition fresh_record ::
  "idempotency_envelope \<Rightarrow> dedupe_state \<Rightarrow> string option \<Rightarrow> dedupe_record" where
  "fresh_record env st peer =
     \<lparr>dr_dispatch_idempotency_key = en_dispatch_idempotency_key env,
      dr_operation_fingerprint = en_operation_fingerprint env,
      dr_attempt_seq = en_attempt_seq env,
      dr_state = st, dr_peer_operation_id = peer, dr_external_ack_ref = None\<rparr>"

lemma fresh_record_simps [simp]:
  "dr_state (fresh_record env st peer) = st"
  "dr_dispatch_idempotency_key (fresh_record env st peer) = en_dispatch_idempotency_key env"
  "dr_operation_fingerprint (fresh_record env st peer) = en_operation_fingerprint env"
  by (simp_all add: fresh_record_def)

definition ledger_reserve ::
  "ledger \<Rightarrow> idempotency_envelope \<Rightarrow> dedupe_record \<Rightarrow> ledger \<times> dedupe_reservation" where
  "ledger_reserve L env new =
     (case L (en_dispatch_idempotency_key env) of
        Some r \<Rightarrow> (L, duplicate_reservation r)
      | None \<Rightarrow> (L(en_dispatch_idempotency_key env \<mapsto> new), accepted_reservation))"

section \<open>The order of states\<close>

text \<open>
  \<open>Reserved < Dispatched < Acknowledged < Succeeded\<close> and \<open>Dispatched < Unknown_effect\<close>: the
  documented transition graph, as a partial order.
\<close>

instantiation dedupe_state :: order
begin

fun less_eq_dedupe_state :: "dedupe_state \<Rightarrow> dedupe_state \<Rightarrow> bool" where
  "less_eq_dedupe_state Reserved y = True"
| "less_eq_dedupe_state Dispatched y = (y \<noteq> Reserved)"
| "less_eq_dedupe_state Acknowledged y = (y = Acknowledged \<or> y = Succeeded)"
| "less_eq_dedupe_state Succeeded y = (y = Succeeded)"
| "less_eq_dedupe_state Unknown_effect y = (y = Unknown_effect)"

definition less_dedupe_state :: "dedupe_state \<Rightarrow> dedupe_state \<Rightarrow> bool" where
  "less_dedupe_state x y = (x \<le> y \<and> \<not> y \<le> x)"

instance
proof
  fix x y z :: dedupe_state
  show "x < y \<longleftrightarrow> x \<le> y \<and> \<not> y \<le> x" by (simp add: less_dedupe_state_def)
  show "x \<le> x" by (cases x) simp_all
  show "x \<le> y \<Longrightarrow> y \<le> z \<Longrightarrow> x \<le> z" by (cases x; cases y; cases z) simp_all
  show "x \<le> y \<Longrightarrow> y \<le> x \<Longrightarrow> x = y" by (cases x; cases y) simp_all
qed

end

lemma mark_from_le: "mark_from m st \<Longrightarrow> st \<le> mark_target m"
  by (cases m) auto

section \<open>The contract of the port\<close>

text \<open>
  A sequence of calls on a port: the resulting store and the keys whose reservation was
  accepted, in order.  Exceptions are the caller's business; the store goes on.
\<close>

datatype dedupe_op =
    OpReserve idempotency_envelope
  | OpReserveAndDispatch idempotency_envelope "string option"
  | OpMark mark string
  | OpGet string

definition reserved_key :: "idempotency_envelope \<Rightarrow> dedupe_reservation result \<Rightarrow> string list" where
  "reserved_key env res =
     (case res of Inl _ \<Rightarrow> []
      | Inr r \<Rightarrow> if rv_accepted r then [en_dispatch_idempotency_key env] else [])"

fun run_op :: "'s dedupe_port \<Rightarrow> 's \<Rightarrow> dedupe_op \<Rightarrow> 's \<times> string list" where
  "run_op port s (OpReserve env) =
     (case port_reserve port s env of (s', res) \<Rightarrow> (s', reserved_key env res))"
| "run_op port s (OpReserveAndDispatch env p) =
     (case port_reserve_and_dispatch port s env p of (s', res) \<Rightarrow> (s', reserved_key env res))"
| "run_op port s (OpMark m k) = (fst (port_mark port s m k), [])"
| "run_op port s (OpGet k) = (fst (port_get port s k), [])"

fun run_ops :: "'s dedupe_port \<Rightarrow> 's \<Rightarrow> dedupe_op list \<Rightarrow> 's \<times> string list" where
  "run_ops port s [] = (s, [])"
| "run_ops port s (x # xs) =
     (case run_op port s x of (s', ks) \<Rightarrow>
        case run_ops port s' xs of (s'', ks') \<Rightarrow> (s'', ks @ ks'))"

text \<open>The record of a key may only move up the state order, and keeps its identity fields.\<close>

definition record_le :: "dedupe_record \<Rightarrow> dedupe_record \<Rightarrow> bool" where
  "record_le r r' \<longleftrightarrow>
     dr_state r \<le> dr_state r' \<and>
     dr_dispatch_idempotency_key r' = dr_dispatch_idempotency_key r \<and>
     dr_operation_fingerprint r' = dr_operation_fingerprint r \<and>
     dr_attempt_seq r' = dr_attempt_seq r"

definition ledger_le :: "ledger \<Rightarrow> ledger \<Rightarrow> bool" where
  "ledger_le L L' \<longleftrightarrow> (\<forall>k r. L k = Some r \<longrightarrow> (\<exists>r'. L' k = Some r' \<and> record_le r r'))"

lemma record_le_refl [simp]: "record_le r r"
  by (simp add: record_le_def)

lemma ledger_le_refl [simp]: "ledger_le L L"
  by (auto simp: ledger_le_def)

lemma record_le_trans: "record_le r r' \<Longrightarrow> record_le r' r'' \<Longrightarrow> record_le r r''"
  by (auto simp: record_le_def intro: order_trans)

lemma ledger_le_trans: "ledger_le L L' \<Longrightarrow> ledger_le L' L'' \<Longrightarrow> ledger_le L L''"
  unfolding ledger_le_def by (blast intro: record_le_trans)

lemma ledger_le_dom: "ledger_le L L' \<Longrightarrow> L' k = None \<Longrightarrow> L k = None"
  unfolding ledger_le_def by (cases "L k") fastforce+

lemma ledger_le_mark: "L k = Some r \<Longrightarrow> mark_from m (dr_state r) \<Longrightarrow> ledger_le L (L(k \<mapsto> mark_record m r))"
  by (auto simp: ledger_le_def record_le_def dest: mark_from_le)

lemma ledger_le_reserve: "ledger_le L (fst (ledger_reserve L env new))"
  by (auto simp: ledger_le_def ledger_reserve_def split: option.splits)

locale dedupe_store_port =
  fixes port :: "'s dedupe_port"
    and invar :: "'s \<Rightarrow> bool"
    and ledger :: "'s \<Rightarrow> ledger"
  assumes reserve_law:
      "invar s \<Longrightarrow> port_reserve port s env = (s', res) \<Longrightarrow>
         invar s' \<and> (case res of Inl e \<Rightarrow> ledger s' = ledger s
           | Inr r \<Rightarrow> (ledger s', r) =
               ledger_reserve (ledger s) env (fresh_record env Reserved (en_peer_operation_id env)))"
    and reserve_and_dispatch_law:
      "invar s \<Longrightarrow> port_reserve_and_dispatch port s env p = (s', res) \<Longrightarrow>
         invar s' \<and> (case res of Inl e \<Rightarrow> ledger s' = ledger s
           | Inr r \<Rightarrow> (ledger s', r) =
               ledger_reserve (ledger s) env
                 (fresh_record env Dispatched (or_else p (en_peer_operation_id env))))"
    and mark_law:
      "invar s \<Longrightarrow> port_mark port s m k = (s', mres) \<Longrightarrow>
         invar s' \<and> (case mres of Inl e \<Rightarrow> ledger s' = ledger s
           | Inr u \<Rightarrow> (\<exists>r. ledger s k = Some r \<and> mark_from m (dr_state r)
               \<and> ledger s' = (ledger s)(k \<mapsto> mark_record m r)))"
    and get_law:
      "invar s \<Longrightarrow> port_get port s k = (s', gres) \<Longrightarrow>
         invar s' \<and> ledger s' = ledger s \<and> (case gres of Inl e \<Rightarrow> True | Inr r \<Rightarrow> r = ledger s k)"
begin

lemma reserve_cases:
  assumes "invar s" "port_reserve port s env = (s', res)"
  shows "invar s'" "ledger_le (ledger s) (ledger s')"
    "k \<in> set (reserved_key env res) \<Longrightarrow> ledger s k = None \<and> ledger s' k \<noteq> None"
  using reserve_law [OF assms] ledger_le_reserve [of "ledger s"]
  by (auto simp: reserved_key_def ledger_reserve_def ledger_le_def split: sum.splits option.splits if_splits)

lemma reserve_and_dispatch_cases:
  assumes "invar s" "port_reserve_and_dispatch port s env p = (s', res)"
  shows "invar s'" "ledger_le (ledger s) (ledger s')"
    "k \<in> set (reserved_key env res) \<Longrightarrow> ledger s k = None \<and> ledger s' k \<noteq> None"
  using reserve_and_dispatch_law [OF assms] ledger_le_reserve [of "ledger s"]
  by (auto simp: reserved_key_def ledger_reserve_def ledger_le_def split: sum.splits option.splits if_splits)

lemma mark_cases:
  assumes "invar s" "port_mark port s m k = (s', res)"
  shows "invar s'" "ledger_le (ledger s) (ledger s')"
  using mark_law [OF assms] by (auto split: sum.splits intro: ledger_le_mark)

lemma run_op_step:
  assumes "invar s" "run_op port s x = (s', ks)"
  shows "invar s' \<and> ledger_le (ledger s) (ledger s') \<and> distinct ks
    \<and> (\<forall>k \<in> set ks. ledger s k = None \<and> ledger s' k \<noteq> None)"
proof (cases x)
  case (OpReserve env)
  with assms show ?thesis
    by (auto simp: reserved_key_def split: prod.splits sum.splits dest: reserve_cases)
next
  case (OpReserveAndDispatch env p)
  with assms show ?thesis
    by (auto simp: reserved_key_def split: prod.splits sum.splits dest: reserve_and_dispatch_cases)
next
  case (OpMark m k)
  with assms mark_cases [of s m k "fst (port_mark port s m k)" "snd (port_mark port s m k)"]
  show ?thesis by auto
next
  case (OpGet k)
  with assms get_law [of s k "fst (port_get port s k)" "snd (port_get port s k)"]
  show ?thesis by auto
qed

lemma run_ops_step:
  assumes "invar s" "run_ops port s xs = (s', ks)"
  shows "invar s' \<and> ledger_le (ledger s) (ledger s') \<and> distinct ks
    \<and> (\<forall>k \<in> set ks. ledger s k = None \<and> ledger s' k \<noteq> None)"
  using assms
proof (induction xs arbitrary: s s' ks)
  case Nil
  then show ?case by simp
next
  case (Cons x xs)
  obtain s1 k1 where one: "run_op port s x = (s1, k1)" by fastforce
  obtain k2 where rest: "run_ops port s1 xs = (s', k2)" and ks: "ks = k1 @ k2"
    using Cons.prems one by (auto split: prod.splits)
  note h1 = run_op_step [OF Cons.prems(1) one]
  then have h2: "invar s' \<and> ledger_le (ledger s1) (ledger s') \<and> distinct k2
      \<and> (\<forall>k \<in> set k2. ledger s1 k = None \<and> ledger s' k \<noteq> None)"
    using Cons.IH rest by blast
  have before: "ledger s k = None" if "k \<in> set k2" for k
    using that h1 h2 ledger_le_dom by blast
  have after: "ledger s' k \<noteq> None" if "k \<in> set k1" for k
    using that h1 h2 ledger_le_dom by blast
  show ?case
    using h1 h2 before after ks by (auto intro: ledger_le_trans)
qed

lemma accepted_at_most_once: "invar s \<Longrightarrow> distinct (snd (run_ops port s xs))"
  using run_ops_step [of s xs "fst (run_ops port s xs)" "snd (run_ops port s xs)"] by simp

lemma run_ops_monotone:
  assumes "invar s" "ledger s k = Some r"
  shows "\<exists>r'. ledger (fst (run_ops port s xs)) k = Some r' \<and> record_le r r'"
  using run_ops_step [of s xs "fst (run_ops port s xs)" "snd (run_ops port s xs)"] assms
  by (auto simp: ledger_le_def)

end

section \<open>The in-memory store implements the port\<close>

definition mem_invar :: "dedupe_mem \<Rightarrow> bool" where
  "mem_invar s \<longleftrightarrow>
     dict_wf s \<and> (\<forall>k r. dict_get s k = Some r \<longrightarrow> dr_dispatch_idempotency_key r = k)"

lemma mem_invar_Nil [simp]: "mem_invar []"
  by (simp add: mem_invar_def)

lemma mem_invar_set: "mem_invar s \<Longrightarrow> dr_dispatch_idempotency_key r = k \<Longrightarrow> mem_invar (dict_set k r s)"
  by (auto simp: mem_invar_def)

lemma mem_invar_key: "mem_invar s \<Longrightarrow> dict_get s k = Some r \<Longrightarrow> dr_dispatch_idempotency_key r = k"
  by (auto simp: mem_invar_def)

lemmas mem_mark_defs = mem_mark_dispatched_def mem_mark_acknowledged_def mem_mark_succeeded_def
  mem_mark_unknown_effect_def mem_get_required_record_def

lemma mem_mark_eq:
  "port_mark mem_port s m k =
     (case dict_get s k of
        None \<Rightarrow> (s, Inl (DedupeStoreStateError (''Unknown dispatch_idempotency_key: '' @ k @ ''.'')))
      | Some r \<Rightarrow>
          if mark_from m (dr_state r) then (dict_set k (mark_record m r) s, Inr ())
          else (s, Inl (cannot_transition (dr_state r) (dedupe_state_str (mark_target m)))))"
proof (cases "dict_get s k")
  case None
  then show ?thesis by (cases m) (simp_all add: mem_mark_defs)
next
  case (Some r)
  then show ?thesis by (cases m; cases r) (auto simp: mem_mark_defs)
qed

interpretation mem: dedupe_store_port mem_port mem_invar dict_get
proof
  fix s env s' res
  assume "mem_invar s" "port_reserve mem_port s env = (s', res)"
  then show "mem_invar s' \<and> (case res of Inl e \<Rightarrow> dict_get s' = dict_get s
      | Inr r \<Rightarrow> (dict_get s', r) =
          ledger_reserve (dict_get s) env (fresh_record env Reserved (en_peer_operation_id env)))"
    by (auto simp: mem_reserve_def ledger_reserve_def fresh_record_def mem_invar_set fun_eq_iff
        split: option.splits)
next
  fix s env p s' res
  assume "mem_invar s" "port_reserve_and_dispatch mem_port s env p = (s', res)"
  then show "mem_invar s' \<and> (case res of Inl e \<Rightarrow> dict_get s' = dict_get s
      | Inr r \<Rightarrow> (dict_get s', r) = ledger_reserve (dict_get s) env
          (fresh_record env Dispatched (or_else p (en_peer_operation_id env))))"
    by (auto simp: mem_reserve_and_dispatch_def ledger_reserve_def fresh_record_def mem_invar_set
        fun_eq_iff split: option.splits)
next
  fix s m k s' res
  assume "mem_invar s" "port_mark mem_port s m k = (s', res)"
  then show "mem_invar s' \<and> (case res of Inl e \<Rightarrow> dict_get s' = dict_get s
      | Inr u \<Rightarrow> (\<exists>r. dict_get s k = Some r \<and> mark_from m (dr_state r)
          \<and> dict_get s' = (dict_get s)(k \<mapsto> mark_record m r)))"
    by (auto simp: mem_mark_eq mem_invar_set mem_invar_key fun_eq_iff
        split: option.splits if_splits)
next
  fix s k s' res
  assume "mem_invar s" "port_get mem_port s k = (s', res)"
  then show "mem_invar s' \<and> dict_get s' = dict_get s
      \<and> (case res of Inl e \<Rightarrow> True | Inr r \<Rightarrow> r = dict_get s k)"
    by (auto simp: mem_get_def)
qed

section \<open>Properties of the in-memory store\<close>

text \<open>
  Whatever sequence of calls a fresh in-memory store serves, no dispatch key is
  ever accepted for reservation twice.
\<close>

theorem mem_accepts_each_key_once: "distinct (snd (run_ops mem_port [] xs))"
  by (rule mem.accepted_at_most_once) simp

text \<open>
  C36 (invariant): a recorded key is never removed, its fingerprint and attempt number never
  change, and its state only moves up the order
  \<open>Reserved < Dispatched < Acknowledged < Succeeded\<close>, \<open>Dispatched < Unknown_effect\<close>.
\<close>

theorem mem_records_never_regress:
  assumes "mem_invar s" "dict_get s k = Some r"
  shows "\<exists>r'. dict_get (fst (run_ops mem_port s xs)) k = Some r'
    \<and> dr_state r \<le> dr_state r' \<and> dr_operation_fingerprint r' = dr_operation_fingerprint r
    \<and> dr_attempt_seq r' = dr_attempt_seq r"
  using mem.run_ops_monotone [OF assms, of xs] by (auto simp: record_le_def)

definition sample_envelope :: "string \<Rightarrow> idempotency_envelope" where
  "sample_envelope k =
     \<lparr>en_dispatch_idempotency_key = k, en_operation_fingerprint = ''fp'', en_attempt_seq = 1,
      en_effect_scope = ''idempotent_write'', en_capability_snapshot_hash = ''h'',
      en_host_kind = Local_process, en_peer_operation_id = None, en_policy_snapshot_ref = None,
      en_rule_bundle_hash = None\<rparr>"

theorem mem_records_never_regress_witness:
  "\<exists>r'. dict_get (fst (run_ops mem_port (fst (mem_reserve_and_dispatch [] (sample_envelope ''a'') None))
       [OpMark (MarkAcknowledged None) ''a'', OpMark (MarkDispatched None) ''a''])) ''a'' = Some r'
     \<and> Dispatched \<le> dr_state r' \<and> dr_operation_fingerprint r' = ''fp'' \<and> dr_attempt_seq r' = 1"
proof -
  let ?s = "fst (mem_reserve_and_dispatch [] (sample_envelope ''a'') None)"
  let ?r = "\<lparr>dr_dispatch_idempotency_key = ''a'', dr_operation_fingerprint = ''fp'', dr_attempt_seq = 1,
    dr_state = Dispatched, dr_peer_operation_id = None, dr_external_ack_ref = None\<rparr>"
  have get: "dict_get ?s ''a'' = Some ?r"
    by (simp add: mem_reserve_and_dispatch_def sample_envelope_def)
  have "mem_invar ?s"
    by (simp add: mem_reserve_and_dispatch_def sample_envelope_def mem_invar_set)
  from mem_records_never_regress [OF this get] show ?thesis by (simp only: dedupe_record.select_convs)
qed

end
