(* ===== verification/Turn_Engine.thy ===== *)
theory Turn_Engine
  imports Dispatch_Policy Capability_Snapshot Dedupe_Store
begin

text \<open>
  \<^verbatim>\<open>kernel/turn_engine.py\<close>: the phases of one turn, from the action to the executor call, over an
  injected snapshot builder, admission service, executor and reasoning loop and over any
  implementation of the dedupe port.  The injected services read and change an environment of
  type \<open>'w\<close>; the model also logs every executor call.  Observability hooks, whose exceptions are
  suppressed, the optional phase timeout and a ready-made \<^verbatim>\<open>IdempotencyEnvelope\<close> object in an
  admission result (a dictionary is modelled) are not modelled.
\<close>

section \<open>Python text of values\<close>

fun py_repr :: "(rat \<Rightarrow> string) \<Rightarrow> json \<Rightarrow> string" where
  "py_repr float_repr JNull = ''None''"
| "py_repr float_repr (JBool b) = (if b then ''True'' else ''False'')"
| "py_repr float_repr (JInt i) = show_int i"
| "py_repr float_repr (JFloat (PFin r)) = float_repr r"
| "py_repr float_repr (JFloat PInf) = ''inf''"
| "py_repr float_repr (JFloat PNegInf) = ''-inf''"
| "py_repr float_repr (JFloat PNaN) = ''nan''"
| "py_repr float_repr (JStr s) = repr_str s"
| "py_repr float_repr (JList xs) = ''['' @ join '', '' (map (py_repr float_repr) xs) @ '']''"
| "py_repr float_repr (JDict d) =
     ''{'' @ join '', '' (map (\<lambda>(k, v). repr_str k @ '': '' @ py_repr float_repr v) d) @ ''}''"

definition py_str :: "(rat \<Rightarrow> string) \<Rightarrow> json \<Rightarrow> string" where
  "py_str float_repr v = (case v of JStr s \<Rightarrow> s | _ \<Rightarrow> py_repr float_repr v)"

section \<open>Data of a turn\<close>

datatype turn_trigger_type = Trigger_start | Trigger_signal | Trigger_child_join | Trigger_recovery_resume

fun turn_trigger_str :: "turn_trigger_type \<Rightarrow> string" where
  "turn_trigger_str Trigger_start = ''start''"
| "turn_trigger_str Trigger_signal = ''signal''"
| "turn_trigger_str Trigger_child_join = ''child_join''"
| "turn_trigger_str Trigger_recovery_resume = ''recovery_resume''"

datatype turn_outcome_kind = Outcome_noop | Outcome_blocked | Outcome_dispatched | Outcome_recovery_pending

record turn_state_event =
  se_state :: string
  se_reason :: "string option"
  se_metadata :: jdict

definition TurnStateEvent :: "string \<Rightarrow> turn_state_event" where
  "TurnStateEvent state = \<lparr>se_state = state, se_reason = None, se_metadata = []\<rparr>"

record turn_input =
  ti_run_id :: string
  ti_through_offset :: int
  ti_based_on_offset :: int
  ti_trigger_type :: turn_trigger_type
  ti_history :: "json list"

record turn_engine_defaults =
  td_model_ref :: string
  td_tenant_policy_ref :: string
  td_permission_mode :: string

record turn_result =
  tr_state :: string
  tr_outcome_kind :: turn_outcome_kind
  tr_decision_ref :: string
  tr_decision_fingerprint :: string
  tr_dispatch_dedupe_key :: "string option"
  tr_intent_commit_ref :: "string option"
  tr_host_kind :: "host_kind option"
  tr_remote_policy_decision :: "remote_dispatch_policy_decision option"
  tr_action_commit :: "jdict option"
  tr_recovery_input :: "failure_envelope option"
  tr_emitted_events :: "turn_state_event list"

record turn_identity =
  tid_decision_ref :: string
  tid_decision_fingerprint :: string
  tid_intent_commit_ref :: string
  tid_dispatch_dedupe_key :: string

text \<open>Admission may answer with a plain bool or with an admission result.\<close>

datatype admission_value = AdmBool bool | AdmResult admission_result

record turn_phase_context =
  tc_input :: turn_input
  tc_action :: "action option"
  tc_emitted_events :: "turn_state_event list"
  tc_result :: "turn_result option"
  tc_turn_identity :: "turn_identity option"
  tc_snapshot :: "capability_snapshot option"
  tc_admission_result :: "admission_value option"
  tc_dispatch_policy :: "dispatch_policy option"
  tc_envelope :: "idempotency_envelope option"
  tc_execute_result :: "jdict option"
  tc_dedupe_available :: bool
  tc_dedupe_outcome :: string
  tc_legacy_alias_key :: "string option"

text \<open>The store, the environment of the injected services, and the log of executor calls.\<close>

record exec_call =
  xl_key :: string
  xl_action :: action
  xl_dedupe_available :: bool

record ('s, 'w) turn_world =
  tw_store :: 's
  tw_env :: 'w
  tw_calls :: "exec_call list"

record ('s, 'w) turn_engine =
  te_port :: "'s dedupe_port"
  te_snapshot_builder :: "capability_snapshot_input \<Rightarrow> capability_snapshot result"
  te_admit :: "'w \<Rightarrow> action \<Rightarrow> capability_snapshot \<Rightarrow> 'w \<times> admission_value result"
  te_execute :: "'w \<Rightarrow> action \<Rightarrow> capability_snapshot \<Rightarrow> idempotency_envelope
    \<Rightarrow> execution_context option \<Rightarrow> 'w \<times> jdict result"
  te_executor_accepts_context :: bool
  te_snapshot_input_resolver :: "(turn_input \<Rightarrow> action \<Rightarrow> capability_snapshot_input result) option"
  te_require_declared_snapshot_inputs :: bool
  te_reasoning_loop :: "('w \<Rightarrow> string \<Rightarrow> capability_snapshot \<Rightarrow> json list \<Rightarrow> string \<Rightarrow> string
    \<Rightarrow> 'w \<times> action list result) option"
  te_defaults :: turn_engine_defaults
  te_float_repr :: "rat \<Rightarrow> string"
  te_now :: "'w \<Rightarrow> string"

section \<open>Identity and snapshot input\<close>

definition legacy_dispatch_dedupe_key :: "string \<Rightarrow> string \<Rightarrow> int \<Rightarrow> string" where
  "legacy_dispatch_dedupe_key run_id action_id based_on_offset =
     run_id @ '':'' @ action_id @ '':'' @ show_int based_on_offset"

definition build_turn_identity ::
  "(rat \<Rightarrow> string) \<Rightarrow> turn_input \<Rightarrow> action \<Rightarrow> string option \<Rightarrow> turn_identity" where
  "build_turn_identity float_repr i a snapshot_hash =
     \<lparr>tid_decision_ref = ''decision:'' @ ti_run_id i @ '':'' @ show_int (ti_based_on_offset i),
      tid_decision_fingerprint = ti_run_id i @ '':'' @ turn_trigger_str (ti_trigger_type i) @ '':'' @
        act_action_id a @ '':'' @ show_int (ti_based_on_offset i),
      tid_intent_commit_ref = ''intent:'' @ act_action_id a @ '':'' @ show_int (ti_through_offset i),
      tid_dispatch_dedupe_key =
        (case snapshot_hash of
           Some h \<Rightarrow> generate_key float_repr ''dispatch'' (ti_run_id i) a h
         | None \<Rightarrow> legacy_dispatch_dedupe_key (ti_run_id i) (act_action_id a) (ti_based_on_offset i))\<rparr>"

text \<open>
  Fields of a declared snapshot payload.  A field whose value does not have the type of the
  dataclass field (a list of strings, an optional string) is answered with \<^verbatim>\<open>TypeError\<close>; the
  code stores such values unchecked, and they are outside the model.
\<close>

definition str_list_field :: "jdict \<Rightarrow> string \<Rightarrow> string list result" where
  "str_list_field d k =
     (case dict_get d k of
        None \<Rightarrow> Inr []
      | Some (JList xs) \<Rightarrow>
          if list_all (\<lambda>x. as_str x \<noteq> None) xs then Inr (map (\<lambda>x. the (as_str x)) xs)
          else Inl (TypeError (k @ '' must be a list of strings''))
      | Some _ \<Rightarrow> Inl (TypeError (k @ '' must be a list of strings'')))"

definition opt_str_field :: "jdict \<Rightarrow> string \<Rightarrow> string option result" where
  "opt_str_field d k =
     (case jget d k of
        JNull \<Rightarrow> Inr None
      | JStr s \<Rightarrow> Inr (Some s)
      | _ \<Rightarrow> Inl (TypeError (k @ '' must be a string'')))"

definition str_field :: "(rat \<Rightarrow> string) \<Rightarrow> jdict \<Rightarrow> string \<Rightarrow> string" where
  "str_field float_repr d k = (case dict_get d k of None \<Rightarrow> [] | Some v \<Rightarrow> py_str float_repr v)"

definition declared_snapshot_input ::
  "(rat \<Rightarrow> string) \<Rightarrow> turn_input \<Rightarrow> jdict \<Rightarrow> capability_snapshot_input result" where
  "declared_snapshot_input float_repr i d =
     bind_result (str_list_field d ''tool_bindings'') (\<lambda>tools.
     bind_result (str_list_field d ''mcp_bindings'') (\<lambda>mcps.
     bind_result (str_list_field d ''skill_bindings'') (\<lambda>skills.
     bind_result (str_list_field d ''feature_flags'') (\<lambda>flags.
     bind_result (opt_str_field d ''context_binding_ref'') (\<lambda>cref.
     bind_result (opt_str_field d ''context_content_hash'') (\<lambda>chash.
     bind_result (opt_str_field d ''budget_ref'') (\<lambda>budget.
     bind_result (opt_str_field d ''quota_ref'') (\<lambda>quota.
     bind_result (opt_str_field d ''session_mode'') (\<lambda>mode.
     bind_result (opt_str_field d ''approval_state'') (\<lambda>approval.
       Inr \<lparr>si_run_id = ti_run_id i, si_based_on_offset = ti_based_on_offset i,
            si_tenant_policy_ref = str_field float_repr d ''tenant_policy_ref'',
            si_permission_mode = str_field float_repr d ''permission_mode'',
            si_tool_bindings = tools, si_mcp_bindings = mcps, si_skill_bindings = skills,
            si_feature_flags = flags, si_context_binding_ref = cref, si_context_content_hash = chash,
            si_budget_ref = budget, si_quota_ref = quota, si_session_mode = mode,
            si_approval_state = approval, si_declarative_bundle_digest = None,
            si_peer_run_bindings = []\<rparr>))))))))))"

definition resolve_snapshot_input ::
  "('s, 'w) turn_engine \<Rightarrow> turn_input \<Rightarrow> action \<Rightarrow> capability_snapshot_input result" where
  "resolve_snapshot_input eng i a =
     (case te_snapshot_input_resolver eng of
        Some resolve \<Rightarrow> resolve i a
      | None \<Rightarrow>
          (case jget (action_payload a) ''capability_snapshot_input'' of
             JDict d \<Rightarrow> declared_snapshot_input (te_float_repr eng) i d
           | _ \<Rightarrow>
               if te_require_declared_snapshot_inputs eng
               then Inl (CapabilitySnapshotBuildError ''capability_snapshot_input is required in strict mode.'')
               else Inr (CapabilitySnapshotInput (ti_run_id i) (ti_based_on_offset i)
                      ''policy:default'' ''strict'')))"

section \<open>Idempotency envelope\<close>

definition read_optional_string :: "jdict \<Rightarrow> string \<Rightarrow> string option" where
  "read_optional_string payload key =
     (case jget payload key of
        JStr v \<Rightarrow> if strip v \<noteq> [] then Some (strip v) else None
      | _ \<Rightarrow> None)"

text \<open>\<^verbatim>\<open>isinstance(v, int)\<close> also holds of booleans.\<close>

definition json_as_int :: "json \<Rightarrow> int option" where
  "json_as_int v = (case v of JInt i \<Rightarrow> Some i | JBool b \<Rightarrow> Some (if b then 1 else 0) | _ \<Rightarrow> None)"

definition non_empty_str :: "json \<Rightarrow> string option" where
  "non_empty_str v = (case v of JStr s \<Rightarrow> if s = [] then None else Some s | _ \<Rightarrow> None)"

definition parse_idempotency_envelope ::
  "(rat \<Rightarrow> string) \<Rightarrow> jdict option \<Rightarrow> string \<Rightarrow> idempotency_envelope option" where
  "parse_idempotency_envelope float_repr envelope_payload capability_snapshot_hash =
     (case envelope_payload of
        None \<Rightarrow> None
      | Some d \<Rightarrow>
          (case (non_empty_str (jget d ''dispatch_idempotency_key''),
                 non_empty_str (jget d ''operation_fingerprint''),
                 json_as_int (jget d ''attempt_seq''),
                 non_empty_str (jget d ''effect_scope''),
                 te_normalize_host_kind (jget d ''host_kind'')) of
             (Some key, Some operation_fingerprint, Some attempt_seq, Some effect_scope, Some hk) \<Rightarrow>
               if attempt_seq \<le> 0 then None
               else Some
                 \<lparr>en_dispatch_idempotency_key = key,
                  en_operation_fingerprint = operation_fingerprint,
                  en_attempt_seq = attempt_seq,
                  en_effect_scope = effect_scope,
                  en_capability_snapshot_hash =
                    (case dict_get d ''capability_snapshot_hash'' of
                       None \<Rightarrow> capability_snapshot_hash | Some v \<Rightarrow> py_str float_repr v),
                  en_host_kind = hk,
                  en_peer_operation_id = read_optional_string d ''peer_operation_id'',
                  en_policy_snapshot_ref = read_optional_string d ''policy_snapshot_ref'',
                  en_rule_bundle_hash = read_optional_string d ''rule_bundle_hash''\<rparr>
           | _ \<Rightarrow> None))"

text \<open>\<^verbatim>\<open>getattr(admission_result, name, None)\<close>: only an admission result has attributes.\<close>

definition admission_attr :: "admission_value option \<Rightarrow> (admission_result \<Rightarrow> 'a option) \<Rightarrow> 'a option" where
  "admission_attr v f = (case v of Some (AdmResult r) \<Rightarrow> f r | _ \<Rightarrow> None)"

definition resolve_idempotency_envelope ::
  "(rat \<Rightarrow> string) \<Rightarrow> admission_value option \<Rightarrow> turn_identity \<Rightarrow> action \<Rightarrow> capability_snapshot \<Rightarrow> host_kind
     \<Rightarrow> idempotency_envelope" where
  "resolve_idempotency_envelope float_repr adm tid a snap hk =
     (case parse_idempotency_envelope float_repr (admission_attr adm ad_idempotency_envelope)
             (sn_snapshot_hash snap) of
        Some parsed \<Rightarrow>
          \<lparr>en_dispatch_idempotency_key = tid_dispatch_dedupe_key tid,
           en_operation_fingerprint = tid_decision_fingerprint tid,
           en_attempt_seq = en_attempt_seq parsed,
           en_effect_scope = en_effect_scope parsed,
           en_capability_snapshot_hash = en_capability_snapshot_hash parsed,
           en_host_kind = en_host_kind parsed,
           en_peer_operation_id = en_peer_operation_id parsed,
           en_policy_snapshot_ref = en_policy_snapshot_ref parsed,
           en_rule_bundle_hash = en_rule_bundle_hash parsed\<rparr>
      | None \<Rightarrow>
          \<lparr>en_dispatch_idempotency_key = tid_dispatch_dedupe_key tid,
           en_operation_fingerprint = tid_decision_fingerprint tid,
           en_attempt_seq = 1,
           en_effect_scope = effect_class_str (act_effect_class a),
           en_capability_snapshot_hash = sn_snapshot_hash snap,
           en_host_kind = hk,
           en_peer_operation_id = None,
           en_policy_snapshot_ref = None,
           en_rule_bundle_hash = None\<rparr>)"

section \<open>Execution context and results\<close>

definition build_execution_context ::
  "turn_input \<Rightarrow> action \<Rightarrow> capability_snapshot \<Rightarrow> turn_identity \<Rightarrow> admission_value option
     \<Rightarrow> idempotency_envelope \<Rightarrow> execution_context" where
  "build_execution_context i a snap tid adm env =
     \<lparr>xc_run_id = ti_run_id i,
      xc_action_id = act_action_id a,
      xc_causation_id = Some (tid_intent_commit_ref tid),
      xc_correlation_id = Some (tid_decision_ref tid),
      xc_lineage_id = Some (tid_decision_fingerprint tid),
      xc_capability_snapshot_ref = Some (sn_snapshot_ref snap),
      xc_capability_snapshot_hash = Some (sn_snapshot_hash snap),
      xc_context_binding_ref = sn_context_binding_ref snap,
      xc_grant_ref = admission_attr adm ad_grant_ref,
      xc_policy_snapshot_ref = admission_attr adm ad_policy_snapshot_ref,
      xc_rule_bundle_hash = en_rule_bundle_hash env,
      xc_declarative_bundle_digest = map_option (\<lambda>b.
        [(''bundle_ref'', bd_bundle_ref b), (''semantics_version'', bd_semantics_version b),
         (''content_hash'', bd_content_hash b), (''compile_hash'', bd_compile_hash b)])
        (sn_declarative_bundle_digest snap),
      xc_timeout_ms = act_timeout_ms a,
      xc_budget_ref = sn_budget_ref snap,
      xc_trace_context = None\<rparr>"

definition execution_context_payload :: "execution_context \<Rightarrow> jdict" where
  "execution_context_payload x =
     [(''run_id'', JStr (xc_run_id x)),
      (''action_id'', JStr (xc_action_id x)),
      (''causation_id'', json_opt_str (xc_causation_id x)),
      (''correlation_id'', json_opt_str (xc_correlation_id x)),
      (''lineage_id'', json_opt_str (xc_lineage_id x)),
      (''capability_snapshot_ref'', json_opt_str (xc_capability_snapshot_ref x)),
      (''capability_snapshot_hash'', json_opt_str (xc_capability_snapshot_hash x)),
      (''context_binding_ref'', json_opt_str (xc_context_binding_ref x)),
      (''grant_ref'', json_opt_str (xc_grant_ref x)),
      (''policy_snapshot_ref'', json_opt_str (xc_policy_snapshot_ref x)),
      (''rule_bundle_hash'', json_opt_str (xc_rule_bundle_hash x)),
      (''declarative_bundle_digest'',
        case xc_declarative_bundle_digest x of None \<Rightarrow> JNull
        | Some d \<Rightarrow> JDict (map (\<lambda>(k, v). (k, JStr v)) d)),
      (''timeout_ms'', case xc_timeout_ms x of None \<Rightarrow> JNull | Some t \<Rightarrow> JInt t),
      (''budget_ref'', json_opt_str (xc_budget_ref x))]"

definition turn_result_of :: "string \<Rightarrow> turn_outcome_kind \<Rightarrow> turn_identity \<Rightarrow> turn_state_event list \<Rightarrow> turn_result" where
  "turn_result_of state kind tid evs =
     \<lparr>tr_state = state, tr_outcome_kind = kind, tr_decision_ref = tid_decision_ref tid,
      tr_decision_fingerprint = tid_decision_fingerprint tid,
      tr_dispatch_dedupe_key = Some (tid_dispatch_dedupe_key tid),
      tr_intent_commit_ref = Some (tid_intent_commit_ref tid),
      tr_host_kind = None, tr_remote_policy_decision = None, tr_action_commit = None,
      tr_recovery_input = None, tr_emitted_events = evs\<rparr>"

definition noop_result :: "turn_input \<Rightarrow> turn_state_event list \<Rightarrow> turn_result" where
  "noop_result i evs =
     \<lparr>tr_state = ''completed_noop'', tr_outcome_kind = Outcome_noop,
      tr_decision_ref = ''decision:'' @ ti_run_id i @ '':'' @ show_int (ti_based_on_offset i),
      tr_decision_fingerprint = ti_run_id i @ '':'' @ turn_trigger_str (ti_trigger_type i) @ '':noop:'' @
        show_int (ti_based_on_offset i),
      tr_dispatch_dedupe_key = None, tr_intent_commit_ref = None, tr_host_kind = None,
      tr_remote_policy_decision = None, tr_action_commit = None, tr_recovery_input = None,
      tr_emitted_events = evs\<rparr>"

definition build_recovery_pending_turn_result ::
  "turn_input \<Rightarrow> action \<Rightarrow> turn_identity \<Rightarrow> jdict \<Rightarrow> host_kind \<Rightarrow> remote_dispatch_policy_decision option
     \<Rightarrow> turn_state_event list \<Rightarrow> turn_result" where
  "build_recovery_pending_turn_result i a tid execute_result hk rpd evs =
     (let failure_envelope =
        \<lparr>fe_run_id = ti_run_id i, fe_action_id = Some (act_action_id a),
         fe_failed_stage = Stage_execution, fe_failed_component = ''executor'',
         fe_failure_code = ''effect_unknown'', fe_failure_class = Class_unknown,
         fe_evidence_ref = read_optional_string execute_result ''evidence_ref'',
         fe_external_ack_ref = read_optional_string execute_result ''external_ack_ref'',
         fe_local_inference = or_else (read_optional_string execute_result ''local_inference'')
           (Some ''turn_engine:effect_unknown_without_ack''),
         fe_evidence_priority_source = Src_none, fe_evidence_priority_ref = None,
         fe_retryability = Retryability_unknown, fe_compensation_hint = None,
         fe_human_escalation_hint = Some ''manual_verification_required'',
         fe_trace_failure_code = None\<rparr>
      in (turn_result_of ''recovery_pending'' Outcome_recovery_pending tid evs)
        \<lparr>tr_host_kind := Some hk, tr_remote_policy_decision := rpd,
         tr_recovery_input := Some (apply_failure_evidence_priority failure_envelope)\<rparr>)"

section \<open>Phases\<close>

text \<open>
  A phase takes the context and the world and returns the next world with either the next
  context or the exception that leaves \<^verbatim>\<open>run_turn\<close>.  An \<^verbatim>\<open>assert\<close> that fails raises.
\<close>

definition assertion_error :: exn where
  "assertion_error = OtherError ''AssertionError'' []"

definition emit :: "turn_state_event \<Rightarrow> turn_phase_context \<Rightarrow> turn_phase_context" where
  "emit e ctx = ctx\<lparr>tc_emitted_events := tc_emitted_events ctx @ [e]\<rparr>"

definition conclude :: "(turn_state_event list \<Rightarrow> turn_result) \<Rightarrow> turn_phase_context \<Rightarrow> turn_phase_context" where
  "conclude r ctx = ctx\<lparr>tc_result := Some (r (tc_emitted_events ctx))\<rparr>"

definition conclude_noop :: "turn_phase_context \<Rightarrow> turn_phase_context" where
  "conclude_noop ctx = conclude (noop_result (tc_input ctx)) (emit (TurnStateEvent ''completed_noop'') ctx)"

definition phase_noop_or_reasoning ::
  "('s, 'w) turn_engine \<Rightarrow> turn_phase_context \<Rightarrow> ('s, 'w) turn_world
     \<Rightarrow> ('s, 'w) turn_world \<times> turn_phase_context result" where
  "phase_noop_or_reasoning eng ctx w =
     (case tc_action ctx of
        Some _ \<Rightarrow> (w, Inr ctx)
      | None \<Rightarrow>
          (case te_reasoning_loop eng of
             None \<Rightarrow> (w, Inr (conclude_noop ctx))
           | Some run_once \<Rightarrow>
               let i = tc_input ctx;
                   ctx = emit (TurnStateEvent ''reasoning'') ctx;
                   key = ti_run_id i @ '':'' @ show_int (ti_based_on_offset i) @ '':reasoning'';
                   failed = conclude_noop (emit (TurnStateEvent ''reasoning_failed'') ctx)
               in case te_snapshot_builder eng (CapabilitySnapshotInput (ti_run_id i) (ti_based_on_offset i)
                        (td_tenant_policy_ref (te_defaults eng)) (td_permission_mode (te_defaults eng))) of
                    Inl e \<Rightarrow> (w, Inr failed)
                  | Inr snap \<Rightarrow>
                      (case run_once (tw_env w) (ti_run_id i) snap (ti_history i)
                              (td_model_ref (te_defaults eng)) key of
                         (env', Inl e) \<Rightarrow> (w\<lparr>tw_env := env'\<rparr>, Inr failed)
                       | (env', Inr actions) \<Rightarrow>
                           (w\<lparr>tw_env := env'\<rparr>,
                            Inr (case actions of
                                   [] \<Rightarrow> conclude_noop ctx
                                 | a # _ \<Rightarrow> ctx\<lparr>tc_action := Some a\<rparr>)))))"

definition phase_snapshot ::
  "('s, 'w) turn_engine \<Rightarrow> turn_phase_context \<Rightarrow> ('s, 'w) turn_world
     \<Rightarrow> ('s, 'w) turn_world \<times> turn_phase_context result" where
  "phase_snapshot eng ctx w =
     (case tc_action ctx of
        None \<Rightarrow> (w, Inl assertion_error)
      | Some a \<Rightarrow>
          let i = tc_input ctx;
              tid = build_turn_identity (te_float_repr eng) i a None;
              ctx = ctx\<lparr>tc_turn_identity := Some tid\<rparr>;
              handler = (\<lambda>e ctx. if is_value_error e
                then Inr (conclude (turn_result_of ''completed_noop'' Outcome_noop tid)
                       (emit (TurnStateEvent ''completed_noop'') ctx))
                else Inl e)
          in (w,
              case bind_result (resolve_snapshot_input eng i a) (te_snapshot_builder eng) of
                Inl e \<Rightarrow> handler e ctx
              | Inr snap \<Rightarrow>
                  let ctx = ctx\<lparr>tc_snapshot := Some snap\<rparr>
                  in case assert_snapshot_compatible snap of
                       Inl e \<Rightarrow> handler e ctx
                     | Inr _ \<Rightarrow>
                         Inr (emit (TurnStateEvent ''snapshot_built'')
                           (ctx\<lparr>tc_turn_identity := Some (build_turn_identity (te_float_repr eng) i a
                                  (Some (sn_snapshot_hash snap)))\<rparr>))))"

fun is_admitted :: "admission_value \<Rightarrow> bool" where
  "is_admitted (AdmBool b) = b"
| "is_admitted (AdmResult r) = ad_admitted r"

definition phase_admission ::
  "('s, 'w) turn_engine \<Rightarrow> turn_phase_context \<Rightarrow> ('s, 'w) turn_world
     \<Rightarrow> ('s, 'w) turn_world \<times> turn_phase_context result" where
  "phase_admission eng ctx w =
     (case (tc_action ctx, tc_snapshot ctx, tc_turn_identity ctx) of
        (Some a, Some snap, Some tid) \<Rightarrow>
          (case te_admit eng (tw_env w) a snap of
             (env', Inl e) \<Rightarrow> (w\<lparr>tw_env := env'\<rparr>, Inl e)
           | (env', Inr adm) \<Rightarrow>
               let ctx = emit (TurnStateEvent ''admission_checked'') (ctx\<lparr>tc_admission_result := Some adm\<rparr>)
               in (w\<lparr>tw_env := env'\<rparr>,
                   Inr (if is_admitted adm then ctx
                        else conclude (turn_result_of ''dispatch_blocked'' Outcome_blocked tid)
                               (emit (TurnStateEvent ''dispatch_blocked'') ctx))))
      | _ \<Rightarrow> (w, Inl assertion_error))"

definition blocked_result :: "turn_identity \<Rightarrow> dispatch_policy \<Rightarrow> turn_state_event list \<Rightarrow> turn_result" where
  "blocked_result tid dp evs =
     (turn_result_of ''dispatch_blocked'' Outcome_blocked tid evs)
       \<lparr>tr_host_kind := Some (dp_host_kind dp),
        tr_remote_policy_decision := dp_remote_policy_decision dp\<rparr>"

definition phase_dispatch_policy ::
  "('s, 'w) turn_engine \<Rightarrow> turn_phase_context \<Rightarrow> ('s, 'w) turn_world
     \<Rightarrow> ('s, 'w) turn_world \<times> turn_phase_context result" where
  "phase_dispatch_policy eng ctx w =
     (case (tc_action ctx, tc_turn_identity ctx) of
        (Some a, Some tid) \<Rightarrow>
          let dp = resolve_dispatch_policy a;
              ctx = ctx\<lparr>tc_dispatch_policy := Some dp\<rparr>
          in (w, Inr (if dp_should_block dp
                then conclude (blocked_result tid dp)
                       (emit \<lparr>se_state = ''dispatch_blocked'', se_reason = dp_block_reason dp,
                              se_metadata = []\<rparr> ctx)
                else ctx))
      | _ \<Rightarrow> (w, Inl assertion_error))"

fun resolve_dedupe_downgrade_scope :: "host_kind \<Rightarrow> string" where
  "resolve_dedupe_downgrade_scope hk =
     (if hk = Remote_service then ''irreversible_write'' else ''compensatable_write'')"

text \<open>
  The reservation: the store, and either an exception or the reservation with the envelope to
  use, whether the store answered, and the events emitted.
\<close>

definition reserve_with_degradation ::
  "'s dedupe_port \<Rightarrow> 's \<Rightarrow> idempotency_envelope \<Rightarrow> action \<Rightarrow> host_kind
     \<Rightarrow> 's \<times> (dedupe_reservation \<times> idempotency_envelope \<times> bool \<times> turn_state_event list) result" where
  "reserve_with_degradation port s env a hk =
     (case port_reserve_and_dispatch port s env None of
        (s', Inr res) \<Rightarrow> (s', Inr (res, env, True, []))
      | (s', Inl e) \<Rightarrow>
          if act_effect_class a \<noteq> IDEMPOTENT_WRITE then (s', Inl e)
          else
            let scope = resolve_dedupe_downgrade_scope hk
            in (s', Inr (accepted_reservation, env\<lparr>en_effect_scope := scope\<rparr>, False,
                 [\<lparr>se_state = ''dedupe_degraded'', se_reason = Some (exn_name e),
                   se_metadata = [(''from_effect_scope'', JStr ''idempotent_write''),
                                  (''to_effect_scope'', JStr scope)]\<rparr>])))"

text \<open>The mirror of the reservation under the historical key; its exceptions are suppressed.\<close>

definition mirror_legacy_key ::
  "'s dedupe_port \<Rightarrow> 's \<Rightarrow> idempotency_envelope \<Rightarrow> string \<Rightarrow> 's \<times> string option" where
  "mirror_legacy_key port s env legacy_key =
     (case port_reserve_and_dispatch port s (env\<lparr>en_dispatch_idempotency_key := legacy_key\<rparr>)
             (en_peer_operation_id env) of
        (s', Inl e) \<Rightarrow> (s', None)
      | (s', Inr res) \<Rightarrow> (s', if rv_accepted res then Some legacy_key else None))"

text \<open>The lookup of the historical key, with exceptions suppressed.\<close>

definition legacy_lookup :: "'s dedupe_port \<Rightarrow> 's \<Rightarrow> string \<Rightarrow> string \<Rightarrow> 's \<times> dedupe_record option" where
  "legacy_lookup port s legacy_key key =
     (if legacy_key \<noteq> key then
        (case port_get port s legacy_key of
           (s', Inl e) \<Rightarrow> (s', None)
         | (s', Inr r) \<Rightarrow> (s', r))
      else (s, None))"

definition phase_dedupe ::
  "('s, 'w) turn_engine \<Rightarrow> turn_phase_context \<Rightarrow> ('s, 'w) turn_world
     \<Rightarrow> ('s, 'w) turn_world \<times> turn_phase_context result" where
  "phase_dedupe eng ctx w =
     (case (tc_action ctx, tc_snapshot ctx, tc_turn_identity ctx, tc_dispatch_policy ctx) of
        (Some a, Some snap, Some tid, Some dp) \<Rightarrow>
          let key = tid_dispatch_dedupe_key tid;
              legacy_key = legacy_dispatch_dedupe_key (ti_run_id (tc_input ctx)) (act_action_id a)
                (ti_based_on_offset (tc_input ctx))
          in case legacy_lookup (te_port eng) (tw_store w) legacy_key key of
               (s0, Some _) \<Rightarrow>
                 (w\<lparr>tw_store := s0\<rparr>,
                  Inr (conclude (blocked_result tid dp) (emit (TurnStateEvent ''dispatch_blocked'') ctx)))
             | (s0, None) \<Rightarrow>
                 let env = resolve_idempotency_envelope (te_float_repr eng) (tc_admission_result ctx)
                   tid a snap (dp_host_kind dp)
                 in case reserve_with_degradation (te_port eng) s0 env a (dp_host_kind dp) of
                      (s1, Inl e) \<Rightarrow> (w\<lparr>tw_store := s1\<rparr>, Inl e)
                    | (s1, Inr (res, env', available, evs)) \<Rightarrow>
                        let ctx = ctx\<lparr>tc_envelope := Some env', tc_dedupe_available := available,
                                      tc_emitted_events := tc_emitted_events ctx @ evs\<rparr>
                        in if \<not> rv_accepted res then
                             (w\<lparr>tw_store := s1\<rparr>,
                              Inr (conclude (blocked_result tid dp)
                                (emit (TurnStateEvent ''dispatch_blocked'') ctx)))
                           else
                             case (if available \<and> legacy_key \<noteq> key
                                   then mirror_legacy_key (te_port eng) s1 env' legacy_key
                                   else (s1, None)) of
                               (s2, alias) \<Rightarrow>
                                 (w\<lparr>tw_store := s2\<rparr>,
                                  Inr (emit (TurnStateEvent ''dispatched'')
                                    (ctx\<lparr>tc_dedupe_outcome := (if available then ''accepted'' else ''degraded''),
                                         tc_legacy_alias_key :=
                                           (case alias of None \<Rightarrow> tc_legacy_alias_key ctx | Some k \<Rightarrow> Some k)\<rparr>)))
      | _ \<Rightarrow> (w, Inl assertion_error))"

text \<open>A mark whose exception is suppressed, and one on the optional alias key.\<close>

definition mark_suppressed :: "'s dedupe_port \<Rightarrow> 's \<Rightarrow> mark \<Rightarrow> string \<Rightarrow> 's" where
  "mark_suppressed port s m k = fst (port_mark port s m k)"

definition mark_alias :: "'s dedupe_port \<Rightarrow> 's \<Rightarrow> mark \<Rightarrow> string option \<Rightarrow> 's" where
  "mark_alias port s m alias =
     (case alias of None \<Rightarrow> s | Some k \<Rightarrow> mark_suppressed port s m k)"

text \<open>The two marks after the executor answered: the first may raise.\<close>

definition mark_both :: "'s dedupe_port \<Rightarrow> 's \<Rightarrow> mark \<Rightarrow> string \<Rightarrow> string option \<Rightarrow> 's \<times> unit result" where
  "mark_both port s m k alias =
     (case port_mark port s m k of
        (s', Inl e) \<Rightarrow> (s', Inl e)
      | (s', Inr _) \<Rightarrow> (mark_alias port s' m alias, Inr ()))"

definition executor_call :: "turn_phase_context \<Rightarrow> idempotency_envelope \<Rightarrow> action \<Rightarrow> exec_call" where
  "executor_call ctx env a =
     \<lparr>xl_key = en_dispatch_idempotency_key env, xl_action = a, xl_dedupe_available = tc_dedupe_available ctx\<rparr>"

text \<open>What follows a returned executor call: the marks, then the result.\<close>

definition record_outcome ::
  "('s, 'w) turn_engine \<Rightarrow> turn_phase_context \<Rightarrow> ('s, 'w) turn_world \<Rightarrow> action \<Rightarrow> turn_identity
     \<Rightarrow> dispatch_policy \<Rightarrow> execution_context \<Rightarrow> jdict \<Rightarrow> ('s, 'w) turn_world \<times> turn_phase_context result" where
  "record_outcome eng ctx w a tid dp xctx execute_result =
     (let ctx = ctx\<lparr>tc_execute_result := Some execute_result\<rparr>;
          acknowledged = py_bool (dict_get_or execute_result ''acknowledged'' (JBool False));
          m = (if acknowledged then MarkAcknowledged None else MarkUnknown)
      in case (if tc_dedupe_available ctx
               then mark_both (te_port eng) (tw_store w) m (tid_dispatch_dedupe_key tid) (tc_legacy_alias_key ctx)
               else (tw_store w, Inr ())) of
           (s', Inl e) \<Rightarrow> (w\<lparr>tw_store := s'\<rparr>, Inl e)
         | (s', Inr _) \<Rightarrow>
             (w\<lparr>tw_store := s'\<rparr>,
              Inr (if acknowledged
                then conclude (\<lambda>evs.
                   (turn_result_of ''dispatch_acknowledged'' Outcome_dispatched tid evs)
                     \<lparr>tr_host_kind := Some (dp_host_kind dp),
                      tr_remote_policy_decision := dp_remote_policy_decision dp,
                      tr_action_commit := Some
                        [(''action_id'', JStr (act_action_id a)),
                         (''run_id'', JStr (ti_run_id (tc_input ctx))),
                         (''committed_at'', JStr (te_now eng (tw_env w))),
                         (''execution_context'', JDict (execution_context_payload xctx))]\<rparr>)
                   (emit (TurnStateEvent ''dispatch_acknowledged'') ctx)
                else conclude
                   (build_recovery_pending_turn_result (tc_input ctx) a tid execute_result (dp_host_kind dp)
                     (dp_remote_policy_decision dp))
                   (emit (TurnStateEvent ''recovery_pending'')
                     (emit (TurnStateEvent ''effect_unknown'') ctx)))))"

definition phase_execute ::
  "('s, 'w) turn_engine \<Rightarrow> turn_phase_context \<Rightarrow> ('s, 'w) turn_world
     \<Rightarrow> ('s, 'w) turn_world \<times> turn_phase_context result" where
  "phase_execute eng ctx w =
     (case (tc_action ctx, tc_snapshot ctx, tc_turn_identity ctx, tc_dispatch_policy ctx, tc_envelope ctx) of
        (Some a, Some snap, Some tid, Some dp, Some env) \<Rightarrow>
          let xctx = build_execution_context (tc_input ctx) a snap tid (tc_admission_result ctx) env
          in case te_execute eng (tw_env w) a snap env
                    (if te_executor_accepts_context eng then Some xctx else None) of
               (env', outcome) \<Rightarrow>
                 let w = w\<lparr>tw_env := env', tw_calls := tw_calls w @ [executor_call ctx env a]\<rparr>
                 in case outcome of
                      Inl e \<Rightarrow>
                        (if tc_dedupe_available ctx
                         then w\<lparr>tw_store := mark_alias (te_port eng)
                                (mark_suppressed (te_port eng) (tw_store w) MarkUnknown (tid_dispatch_dedupe_key tid))
                                MarkUnknown (tc_legacy_alias_key ctx)\<rparr>
                         else w, Inl e)
                    | Inr execute_result \<Rightarrow> record_outcome eng ctx w a tid dp xctx execute_result
      | _ \<Rightarrow> (w, Inl assertion_error))"

section \<open>The turn\<close>

definition TURN_PHASES :: "string list" where
  "TURN_PHASES =
     [''_phase_noop_or_reasoning'', ''_phase_snapshot'', ''_phase_admission'',
      ''_phase_dispatch_policy'', ''_phase_dedupe'', ''_phase_execute'']"

definition run_phase ::
  "('s, 'w) turn_engine \<Rightarrow> string \<Rightarrow> turn_phase_context \<Rightarrow> ('s, 'w) turn_world
     \<Rightarrow> ('s, 'w) turn_world \<times> turn_phase_context result" where
  "run_phase eng name ctx w =
     (if name = ''_phase_noop_or_reasoning'' then phase_noop_or_reasoning eng ctx w
      else if name = ''_phase_snapshot'' then phase_snapshot eng ctx w
      else if name = ''_phase_admission'' then phase_admission eng ctx w
      else if name = ''_phase_dispatch_policy'' then phase_dispatch_policy eng ctx w
      else if name = ''_phase_dedupe'' then phase_dedupe eng ctx w
      else if name = ''_phase_execute'' then phase_execute eng ctx w
      else (w, Inl (OtherError ''AttributeError'' name)))"

definition initial_context :: "turn_input \<Rightarrow> action option \<Rightarrow> turn_phase_context" where
  "initial_context i a =
     \<lparr>tc_input = i, tc_action = a,
      tc_emitted_events = [TurnStateEvent ''collecting'', TurnStateEvent ''intent_committed''],
      tc_result = None, tc_turn_identity = None, tc_snapshot = None, tc_admission_result = None,
      tc_dispatch_policy = None, tc_envelope = None, tc_execute_result = None,
      tc_dedupe_available = True, tc_dedupe_outcome = ''accepted'', tc_legacy_alias_key = None\<rparr>"

fun run_phases ::
  "('s, 'w) turn_engine \<Rightarrow> string list \<Rightarrow> turn_phase_context \<Rightarrow> ('s, 'w) turn_world
     \<Rightarrow> ('s, 'w) turn_world \<times> turn_result result" where
  "run_phases eng [] ctx w =
     (w, Inl (RuntimeError ''TurnEngine phases completed without setting ctx.result.''))"
| "run_phases eng (phase # phases) ctx w =
     (case run_phase eng phase ctx w of
        (w', Inl e) \<Rightarrow> (w', Inl e)
      | (w', Inr ctx') \<Rightarrow>
          (case tc_result ctx' of
             Some r \<Rightarrow> (w', Inr r)
           | None \<Rightarrow> run_phases eng phases ctx' w'))"

definition run_turn ::
  "('s, 'w) turn_engine \<Rightarrow> turn_input \<Rightarrow> action option \<Rightarrow> ('s, 'w) turn_world
     \<Rightarrow> ('s, 'w) turn_world \<times> turn_result result" where
  "run_turn eng i a w = run_phases eng TURN_PHASES (initial_context i a) w"

text \<open>\<^verbatim>\<open>register_phase\<close> on the tuple of phase names of a class.\<close>

definition insert_at :: "nat \<Rightarrow> string \<Rightarrow> string list \<Rightarrow> string list" where
  "insert_at idx name phases = take idx phases @ [name] @ drop idx phases"

definition index_of :: "string \<Rightarrow> string list \<Rightarrow> nat" where
  "index_of anchor phases = length (takeWhile (\<lambda>p. p \<noteq> anchor) phases)"

definition register_phase ::
  "string \<Rightarrow> string list \<Rightarrow> string \<Rightarrow> string option \<Rightarrow> string option \<Rightarrow> string list result" where
  "register_phase cls_name phases name after before =
     (let missing = (\<lambda>anchor. Inl (ValueError (''Anchor phase '' @ repr_str anchor @ '' not found in '' @
            cls_name @ ''._TURN_PHASES.'')))
      in if after \<noteq> None \<and> before \<noteq> None
      then Inl (TypeError (''Provide at most one of '' @ repr_str ''after'' @ '' or '' @
             repr_str ''before'' @ '', not both.''))
      else if name \<in> set phases
      then Inl (ValueError (''Phase '' @ repr_str name @ '' is already registered in '' @ cls_name @ ''._TURN_PHASES.''))
      else case after of
        Some anchor \<Rightarrow>
          if anchor \<notin> set phases then missing anchor
          else Inr (insert_at (index_of anchor phases + 1) name phases)
      | None \<Rightarrow>
          (case before of
             Some anchor \<Rightarrow>
               if anchor \<notin> set phases then missing anchor
               else Inr (insert_at (index_of anchor phases) name phases)
           | None \<Rightarrow> Inr (phases @ [name])))"

end
