(* ===== verification/Recovery_Planner.thy ===== *)
theory Recovery_Planner
  imports Capability_Snapshot
begin

text \<open>
  The deterministic recovery planner of \<^verbatim>\<open>kernel/recovery/planner.py\<close> and the registry of
  recovery modes of \<^verbatim>\<open>kernel/recovery/mode_registry.py\<close>.  Plan actions and modes are strings,
  since the registry is open to extension.
\<close>

record recovery_input =
  ri_run_id :: string
  ri_reason_code :: string
  ri_lifecycle_state :: run_lifecycle_state
  ri_projection :: run_projection
  ri_failed_action_id :: "string option"
  ri_reflection_round :: int
  ri_capability_snapshot :: "capability_snapshot option"
  ri_failed_effect_class :: "string option"

record recovery_plan =
  pl_run_id :: string
  pl_action :: string
  pl_reason :: string
  pl_compensation_action_id :: "string option"
  pl_escalation_channel_ref :: "string option"

datatype reason_classification = Reason_transient | Reason_fatal | Reason_human | Reason_unknown

record planner_heuristic_policy =
  hp_reason_prefix :: string
  hp_default_escalation_channel_ref :: string
  hp_human_reason_prefixes :: "string list"
  hp_transient_reason_prefixes :: "string list"
  hp_fatal_reason_prefixes :: "string list"
  hp_abort_reason_prefixes :: "string list"
  hp_transient_action :: string
  hp_fatal_action :: string
  hp_human_action :: string
  hp_unknown_action :: string

definition PlannerHeuristicPolicy :: planner_heuristic_policy where
  "PlannerHeuristicPolicy =
     \<lparr>hp_reason_prefix = ''recovery'',
      hp_default_escalation_channel_ref = ''human://operator'',
      hp_human_reason_prefixes = [''human_'', ''manual_'', ''requires_human'', ''waiting_external'', ''external_''],
      hp_transient_reason_prefixes = [''transient_'', ''executor_transient'', ''retryable_''],
      hp_fatal_reason_prefixes = [''fatal'', ''non_recoverable'', ''permission_denied'', ''policy_denied''],
      hp_abort_reason_prefixes = [],
      hp_transient_action = ''schedule_compensation'',
      hp_fatal_action = ''abort_run'',
      hp_human_action = ''notify_human_operator'',
      hp_unknown_action = ''schedule_compensation''\<rparr>"

definition has_prefix :: "string \<Rightarrow> string list \<Rightarrow> bool" where
  "has_prefix v prefixes = list_ex (startswith v) prefixes"

definition classify_reason :: "planner_heuristic_policy \<Rightarrow> string \<Rightarrow> reason_classification" where
  "classify_reason pol reason_code =
     (let normalized_reason = lower (strip reason_code)
      in if has_prefix normalized_reason (hp_human_reason_prefixes pol) then Reason_human
         else if has_prefix normalized_reason (hp_fatal_reason_prefixes pol @ hp_abort_reason_prefixes pol)
         then Reason_fatal
         else if has_prefix normalized_reason (hp_transient_reason_prefixes pol) then Reason_transient
         else Reason_unknown)"

fun action_for_classification :: "planner_heuristic_policy \<Rightarrow> reason_classification \<Rightarrow> string" where
  "action_for_classification pol Reason_human = hp_human_action pol"
| "action_for_classification pol Reason_fatal = hp_fatal_action pol"
| "action_for_classification pol Reason_transient = hp_transient_action pol"
| "action_for_classification pol Reason_unknown = hp_unknown_action pol"

definition build_plan :: "recovery_decision \<Rightarrow> run_projection \<Rightarrow> recovery_plan result" where
  "build_plan decision projection =
     (if rd_run_id decision \<noteq> pr_run_id projection
      then Inl (ValueError ''recovery decision run_id must match projection run_id.'')
      else if rd_mode decision = ''static_compensation''
      then Inr \<lparr>pl_run_id = rd_run_id decision, pl_action = ''schedule_compensation'',
                pl_reason = rd_reason decision,
                pl_compensation_action_id = rd_compensation_action_id decision,
                pl_escalation_channel_ref = None\<rparr>
      else if rd_mode decision = ''human_escalation''
      then Inr \<lparr>pl_run_id = rd_run_id decision, pl_action = ''notify_human_operator'',
                pl_reason = rd_reason decision, pl_compensation_action_id = None,
                pl_escalation_channel_ref = rd_escalation_channel_ref decision\<rparr>
      else Inr \<lparr>pl_run_id = rd_run_id decision, pl_action = ''abort_run'',
                pl_reason = rd_reason decision, pl_compensation_action_id = None,
                pl_escalation_channel_ref = None\<rparr>)"

definition build_plan_from_input :: "planner_heuristic_policy \<Rightarrow> recovery_input \<Rightarrow> recovery_plan result" where
  "build_plan_from_input pol x =
     (let projection = ri_projection x;
          reason = hp_reason_prefix pol @ '':'' @ ri_reason_code x;
          compensation_action_id = or_else (ri_failed_action_id x) (pr_current_action_id projection);
          channel = Some (hp_default_escalation_channel_ref pol);
          plan = (\<lambda>action comp esc.
            \<lparr>pl_run_id = ri_run_id x, pl_action = action, pl_reason = reason,
             pl_compensation_action_id = comp, pl_escalation_channel_ref = esc\<rparr>)
      in if ri_run_id x \<noteq> pr_run_id projection
         then Inl (ValueError ''recovery input run_id must match projection run_id.'')
         else Inr (
           if pr_recovery_mode projection = Some ''human_escalation''
           then plan ''notify_human_operator'' None channel
           else if pr_recovery_mode projection = Some ''static_compensation''
           then plan ''schedule_compensation'' compensation_action_id None
           else if pr_recovery_mode projection = Some ''abort''
           then plan ''abort_run'' None None
           else
             let normalized_reason = lower (strip (ri_reason_code x))
             in if ri_lifecycle_state x = Waiting_external
                then plan ''notify_human_operator'' None channel
                else
                  let action = action_for_classification pol (classify_reason pol normalized_reason)
                  in if action = ''notify_human_operator'' then plan action None channel
                     else if action = ''schedule_compensation''
                     then (if compensation_action_id \<noteq> None then plan action compensation_action_id None
                           else plan ''abort_run'' None None)
                     else plan action None None))"

section \<open>Recovery modes\<close>

type_synonym mode_registry = "(string, string) dict"

definition register_mode :: "mode_registry \<Rightarrow> string \<Rightarrow> string \<Rightarrow> mode_registry result" where
  "register_mode entries plan_action mode =
     (case dict_get entries plan_action of
        Some m \<Rightarrow> Inl (ValueError (''Recovery plan action '' @ repr_str plan_action @
          '' is already registered with mode '' @ repr_str m @
          ''. Use a unique plan_action or update the existing entry.''))
      | None \<Rightarrow> Inr (dict_set plan_action mode entries))"

definition get_mode :: "mode_registry \<Rightarrow> string \<Rightarrow> string option" where
  "get_mode entries plan_action = dict_get entries plan_action"

definition known_actions :: "mode_registry \<Rightarrow> string set" where
  "known_actions entries = set (map fst entries)"

definition BUILTIN_MAPPINGS :: "(string \<times> string) list" where
  "BUILTIN_MAPPINGS =
     [(''schedule_compensation'', ''static_compensation''),
      (''notify_human_operator'', ''human_escalation''),
      (''abort_run'', ''abort'')]"

fun register_modes :: "mode_registry \<Rightarrow> (string \<times> string) list \<Rightarrow> mode_registry result" where
  "register_modes entries [] = Inr entries"
| "register_modes entries ((a, m) # rest) =
     bind_result (register_mode entries a m) (\<lambda>entries'. register_modes entries' rest)"

definition KERNEL_RECOVERY_MODE_REGISTRY :: mode_registry where
  "KERNEL_RECOVERY_MODE_REGISTRY =
     (case register_modes [] BUILTIN_MAPPINGS of Inl _ \<Rightarrow> [] | Inr entries \<Rightarrow> entries)"

lemma kernel_registry_eq: "KERNEL_RECOVERY_MODE_REGISTRY = BUILTIN_MAPPINGS"
  by code_simp

lemma register_mode_keeps:
  assumes "register_mode entries a m = Inr entries'"
  shows "get_mode entries' a = Some m" "get_mode entries b \<noteq> None \<Longrightarrow> get_mode entries' b = get_mode entries b"
  using assms by (auto simp: register_mode_def get_mode_def split: option.splits)

section \<open>Plans\<close>

lemma default_policy_simps [simp]:
  "hp_default_escalation_channel_ref PlannerHeuristicPolicy = ''human://operator''"
  "hp_reason_prefix PlannerHeuristicPolicy = ''recovery''"
  by (simp_all add: PlannerHeuristicPolicy_def)

text \<open>
  The shape of a plan under the default policy: one of the three built-in actions, an escalation
  channel exactly for a notification, a compensation target only for a compensation.
\<close>

lemma default_action_cases:
  "action_for_classification PlannerHeuristicPolicy c
     \<in> {''schedule_compensation'', ''notify_human_operator'', ''abort_run''}"
  by (cases c) (simp_all add: PlannerHeuristicPolicy_def)

definition plan_shape :: "recovery_input \<Rightarrow> recovery_plan \<Rightarrow> bool" where
  "plan_shape x plan \<longleftrightarrow> pl_run_id plan = ri_run_id x \<and> pl_reason plan = ''recovery:'' @ ri_reason_code x
    \<and> (pl_action plan = ''notify_human_operator'' \<and> pl_compensation_action_id plan = None
          \<and> pl_escalation_channel_ref plan = Some ''human://operator''
       \<or> pl_action plan = ''schedule_compensation'' \<and> pl_escalation_channel_ref plan = None
       \<or> pl_action plan = ''abort_run'' \<and> pl_compensation_action_id plan = None
          \<and> pl_escalation_channel_ref plan = None)"

lemma plan_shapes:
  "plan_shape x \<lparr>pl_run_id = ri_run_id x, pl_action = ''notify_human_operator'',
     pl_reason = ''recovery'' @ '':'' @ ri_reason_code x, pl_compensation_action_id = None,
     pl_escalation_channel_ref = Some ''human://operator''\<rparr>"
  "plan_shape x \<lparr>pl_run_id = ri_run_id x, pl_action = ''schedule_compensation'',
     pl_reason = ''recovery'' @ '':'' @ ri_reason_code x, pl_compensation_action_id = c,
     pl_escalation_channel_ref = None\<rparr>"
  "plan_shape x \<lparr>pl_run_id = ri_run_id x, pl_action = ''abort_run'',
     pl_reason = ''recovery'' @ '':'' @ ri_reason_code x, pl_compensation_action_id = None,
     pl_escalation_channel_ref = None\<rparr>"
  by (simp_all add: plan_shape_def)

lemma default_plan_shape:
  assumes "build_plan_from_input PlannerHeuristicPolicy x = Inr plan"
  shows "plan_shape x plan" "ri_run_id x = pr_run_id (ri_projection x)"
proof -
  define act where "act = action_for_classification PlannerHeuristicPolicy
    (classify_reason PlannerHeuristicPolicy (lower (strip (ri_reason_code x))))"
  have act: "act = ''schedule_compensation'' \<or> act = ''notify_human_operator'' \<or> act = ''abort_run''"
    using default_action_cases by (simp add: act_def)
  show run: "ri_run_id x = pr_run_id (ri_projection x)"
    using assms by (rule contrapos_pp) (simp add: build_plan_from_input_def Let_def)
  have "case build_plan_from_input PlannerHeuristicPolicy x of Inl e \<Rightarrow> True | Inr plan \<Rightarrow> plan_shape x plan"
    unfolding build_plan_from_input_def Let_def act_def [symmetric] default_policy_simps
    using act by (elim disjE) (simp_all only: plan_shapes sum.case split: if_split, simp_all)
  with assms show "plan_shape x plan" by simp
qed

end
