(* ===== verification/Circuit_Breaker.thy ===== *)
theory Circuit_Breaker
  imports Kernel_Contracts Python_Float
begin

text \<open>
  The circuit breaker of the recovery gate: the in-memory counters of
  \<^verbatim>\<open>PlannedRecoveryGateService\<close>, the table of \<^verbatim>\<open>persistence/sqlite_circuit_breaker_store.py\<close> and
  the half-open probe of \<^verbatim>\<open>recovery/circuit_breaker_probe.py\<close>.  A clock reading is a finite
  float, hence a rational; the arithmetic on readings is that of doubles.
\<close>

section \<open>Elapsed time\<close>

text \<open>\<^verbatim>\<open>(now - last) * 1000\<close> and its comparison with an integer number of milliseconds.\<close>

definition float_scale :: "pyfloat \<Rightarrow> rat \<Rightarrow> pyfloat" where
  "float_scale f c = (case f of PFin r \<Rightarrow> to_double (r * c) | x \<Rightarrow> x)"

definition elapsed_ms :: "rat \<Rightarrow> rat \<Rightarrow> pyfloat" where
  "elapsed_ms now last_failure = float_scale (to_double (now - last_failure)) 1000"

definition float_less_int :: "pyfloat \<Rightarrow> int \<Rightarrow> bool" where
  "float_less_int f n =
     (case f of PFin r \<Rightarrow> r < of_int n | PInf \<Rightarrow> False | PNegInf \<Rightarrow> True | PNaN \<Rightarrow> False)"

section \<open>The two stores\<close>

text \<open>The counters and times kept in the gate itself.\<close>

record breaker_counters =
  bc_circuit_failures :: "(string, int) dict"
  bc_circuit_last_failure_mono :: "(string, rat) dict"

definition counters_get_state :: "breaker_counters \<Rightarrow> string \<Rightarrow> int \<times> rat" where
  "counters_get_state b effect_class =
     (dict_get_or (bc_circuit_failures b) effect_class 0,
      dict_get_or (bc_circuit_last_failure_mono b) effect_class 0)"

definition counters_record_failure :: "rat \<Rightarrow> breaker_counters \<Rightarrow> string \<Rightarrow> breaker_counters \<times> int" where
  "counters_record_failure now b effect_class =
     (let new_count = dict_get_or (bc_circuit_failures b) effect_class 0 + 1
      in (\<lparr>bc_circuit_failures = dict_set effect_class new_count (bc_circuit_failures b),
           bc_circuit_last_failure_mono = dict_set effect_class now (bc_circuit_last_failure_mono b)\<rparr>,
          new_count))"

definition counters_reset :: "breaker_counters \<Rightarrow> string \<Rightarrow> breaker_counters" where
  "counters_reset b effect_class =
     \<lparr>bc_circuit_failures = dict_pop effect_class (bc_circuit_failures b),
      bc_circuit_last_failure_mono = dict_pop effect_class (bc_circuit_last_failure_mono b)\<rparr>"

definition no_counters :: breaker_counters where
  "no_counters = \<lparr>bc_circuit_failures = [], bc_circuit_last_failure_mono = []\<rparr>"

text \<open>
  The table \<^verbatim>\<open>circuit_breaker_state\<close>: one row per effect class (its primary key), holding the
  failure count and the time of the last failure.
\<close>

type_synonym breaker_table = "(string \<times> int \<times> rat) list"

definition select_row :: "breaker_table \<Rightarrow> string \<Rightarrow> (int \<times> rat) option" where
  "select_row rows effect_class = map_option snd (find (\<lambda>r. fst r = effect_class) rows)"

definition store_get_state :: "breaker_table \<Rightarrow> string \<Rightarrow> int \<times> rat" where
  "store_get_state rows effect_class =
     (case select_row rows effect_class of None \<Rightarrow> (0, 0) | Some row \<Rightarrow> row)"

text \<open>\<^verbatim>\<open>INSERT ... ON CONFLICT(effect_class) DO UPDATE\<close>\<close>

definition upsert_failure :: "rat \<Rightarrow> breaker_table \<Rightarrow> string \<Rightarrow> breaker_table" where
  "upsert_failure now rows effect_class =
     (if \<exists>r \<in> set rows. fst r = effect_class
      then map (\<lambda>(e, count, ts). if e = effect_class then (e, count + 1, now) else (e, count, ts)) rows
      else rows @ [(effect_class, 1, now)])"

definition store_record_failure :: "rat \<Rightarrow> breaker_table \<Rightarrow> string \<Rightarrow> breaker_table \<times> int result" where
  "store_record_failure now rows effect_class =
     (let rows' = upsert_failure now rows effect_class
      in (rows',
          case select_row rows' effect_class of
            None \<Rightarrow> Inl (RuntimeError (''circuit_breaker_store: row for effect_class='' @
              repr_str effect_class @ '' disappeared after UPSERT''))
          | Some (count, _) \<Rightarrow> Inr count))"

definition store_reset :: "breaker_table \<Rightarrow> string \<Rightarrow> breaker_table" where
  "store_reset rows effect_class = filter (\<lambda>r. fst r \<noteq> effect_class) rows"

definition store_list_effect_classes :: "breaker_table \<Rightarrow> string list" where
  "store_list_effect_classes rows = sort (map fst rows)"

section \<open>The contract of a breaker store\<close>

datatype breaker_op = Failure rat string | Success string

text \<open>
  The specification in terms of the history, oldest first: the failures of a class since its
  last success, newest first, as times.
\<close>

definition failure_times :: "breaker_op list \<Rightarrow> string \<Rightarrow> rat list" where
  "failure_times ops e =
     List.map_filter (\<lambda>op. case op of Failure t e' \<Rightarrow> if e' = e then Some t else None | Success _ \<Rightarrow> None)
       (takeWhile (\<lambda>op. op \<noteq> Success e) (rev ops))"

lemma failure_times_snoc [simp]:
  "failure_times [] e = []"
  "failure_times (ops @ [Failure t e']) e = (if e' = e then t # failure_times ops e else failure_times ops e)"
  "failure_times (ops @ [Success e']) e = (if e' = e then [] else failure_times ops e)"
  by (simp_all add: failure_times_def map_filter_simps)

locale breaker_store =
  fixes get_state :: "'b \<Rightarrow> string \<Rightarrow> int \<times> rat"
    and record_failure :: "rat \<Rightarrow> 'b \<Rightarrow> string \<Rightarrow> 'b \<times> int result"
    and reset :: "'b \<Rightarrow> string \<Rightarrow> 'b"
    and fresh :: 'b
  assumes get_fresh: "get_state fresh e = (0, 0)"
    and get_record: "get_state (fst (record_failure t b e)) e' =
      (if e' = e then (fst (get_state b e) + 1, t) else get_state b e')"
    and record_value: "snd (record_failure t b e) = Inr (fst (get_state b e) + 1)"
    and get_reset: "get_state (reset b e) e' = (if e' = e then (0, 0) else get_state b e')"
begin

fun breaker_step :: "'b \<Rightarrow> breaker_op \<Rightarrow> 'b" where
  "breaker_step b (Failure t e) = fst (record_failure t b e)"
| "breaker_step b (Success e) = reset b e"

lemma state_of_history:
  "get_state (foldl breaker_step fresh ops) e =
     (int (length (failure_times ops e)), case failure_times ops e of [] \<Rightarrow> 0 | t # _ \<Rightarrow> t)"
proof (induction ops rule: rev_induct)
  case Nil
  then show ?case by (simp add: get_fresh)
next
  case (snoc op ops)
  then show ?case by (cases op) (auto simp: get_record get_reset)
qed

end

interpretation counters: breaker_store counters_get_state
  "\<lambda>t b e. map_prod id Inr (counters_record_failure t b e)" counters_reset no_counters
  by unfold_locales
    (auto simp: counters_get_state_def counters_record_failure_def counters_reset_def no_counters_def
      dict_get_or_def Let_def)

lemma select_row_update:
  "select_row (map (\<lambda>(x, count, ts). if x = e then (x, count + 1, t) else (x, count, ts)) rows) e' =
     (if e' = e then map_option (\<lambda>(count, ts). (count + 1, t)) (select_row rows e) else select_row rows e')"
  by (induction rows) (auto simp: select_row_def)

lemma select_row_append: "select_row (rows @ [(e, row)]) e' =
    (case select_row rows e' of None \<Rightarrow> if e' = e then Some row else None | Some r \<Rightarrow> Some r)"
  by (induction rows) (auto simp: select_row_def)

lemma select_row_None: "select_row rows e = None \<longleftrightarrow> (\<forall>r \<in> set rows. fst r \<noteq> e)"
  by (auto simp: select_row_def find_None_iff)

lemma select_row_upsert:
  "select_row (upsert_failure t rows e) e' =
     (if e' = e then Some (fst (store_get_state rows e) + 1, t) else select_row rows e')"
proof (cases "select_row rows e")
  case None
  then show ?thesis
    using select_row_None [of rows e]
    by (auto simp: upsert_failure_def select_row_append store_get_state_def split: option.splits)
next
  case (Some row)
  then have "\<exists>r \<in> set rows. fst r = e" using select_row_None [of rows e] by auto
  with Some show ?thesis
    by (cases row) (simp add: upsert_failure_def select_row_update store_get_state_def)
qed

lemma select_row_reset: "select_row (store_reset rows e) e' = (if e' = e then None else select_row rows e')"
  by (induction rows) (auto simp: store_reset_def select_row_def)

interpretation table: breaker_store store_get_state store_record_failure store_reset "[]"
proof
  show "store_get_state [] e = (0, 0)" for e by (simp add: store_get_state_def select_row_def)
  show "store_get_state (fst (store_record_failure t b e)) e' =
      (if e' = e then (fst (store_get_state b e) + 1, t) else store_get_state b e')" for t b e e'
    by (simp add: store_record_failure_def store_get_state_def [of "upsert_failure t b e"] select_row_upsert
        store_get_state_def [of b e'])
  show "snd (store_record_failure t b e) = Inr (fst (store_get_state b e) + 1)" for t b e
    by (simp add: store_record_failure_def select_row_upsert)
  show "store_get_state (store_reset b e) e' = (if e' = e then (0, 0) else store_get_state b e')" for b e e'
    by (simp add: store_get_state_def select_row_reset)
qed

section \<open>The store as a port\<close>

text \<open>\<^verbatim>\<open>CircuitBreakerStore\<close>: its calls may raise; the failure call reads the clock itself.\<close>

record 'b breaker_port =
  bp_get_state :: "'b \<Rightarrow> string \<Rightarrow> (int \<times> rat) result"
  bp_record_failure :: "rat \<Rightarrow> 'b \<Rightarrow> string \<Rightarrow> 'b \<times> int result"
  bp_reset :: "'b \<Rightarrow> string \<Rightarrow> 'b \<times> unit result"

definition sqlite_breaker_port :: "breaker_table breaker_port" where
  "sqlite_breaker_port =
     \<lparr>bp_get_state = (\<lambda>b e. Inr (store_get_state b e)),
      bp_record_failure = store_record_failure,
      bp_reset = (\<lambda>b e. (store_reset b e, Inr ()))\<rparr>"

section \<open>Open circuits\<close>

text \<open>\<^verbatim>\<open>_is_circuit_open\<close> on a state that was read: enough failures and not yet cooled down.\<close>

definition state_is_open :: "circuit_breaker_policy \<Rightarrow> rat \<Rightarrow> int \<times> rat \<Rightarrow> bool" where
  "state_is_open policy now st =
     (case st of (count, last_failure) \<Rightarrow>
        if count < cb_threshold policy then False
        else float_less_int (elapsed_ms now last_failure) (cb_half_open_after_ms policy))"

section \<open>The probe\<close>

text \<open>
  \<^verbatim>\<open>CircuitBreakerProbeScheduler\<close>: the health checks act on an environment and may raise, which
  ends the sweep.  \<open>listed\<close> is what \<^verbatim>\<open>list_effect_classes\<close> gives, \<open>None\<close> when the store lacks the
  method or it raised.
\<close>

type_synonym 'w probe_fns = "(string, 'w \<Rightarrow> 'w \<times> bool result) dict"

definition iter_effect_classes :: "'w probe_fns \<Rightarrow> string list option \<Rightarrow> string list" where
  "iter_effect_classes probe_fns listed =
     sort (remdups (map fst probe_fns @ (case listed of None \<Rightarrow> [] | Some xs \<Rightarrow> xs)))"

fun probe_sweep ::
  "circuit_breaker_policy \<Rightarrow> 'w probe_fns \<Rightarrow> rat \<Rightarrow> string list \<Rightarrow> breaker_table \<Rightarrow> 'w \<Rightarrow> string list
     \<Rightarrow> breaker_table \<times> 'w \<times> string list result" where
  "probe_sweep policy probe_fns now [] b w shut = (b, w, Inr shut)"
| "probe_sweep policy probe_fns now (e # classes) b w shut =
     (case dict_get probe_fns e of
        None \<Rightarrow> probe_sweep policy probe_fns now classes b w shut
      | Some probe \<Rightarrow>
          (case store_get_state b e of (count, last_failure) \<Rightarrow>
             if count < cb_threshold policy then probe_sweep policy probe_fns now classes b w shut
             else if float_less_int (elapsed_ms now last_failure) (cb_half_open_after_ms policy)
             then probe_sweep policy probe_fns now classes b w shut
             else case probe w of
               (w', Inl err) \<Rightarrow> (b, w', Inl err)
             | (w', Inr False) \<Rightarrow> probe_sweep policy probe_fns now classes b w' shut
             | (w', Inr True) \<Rightarrow>
                 probe_sweep policy probe_fns now classes (store_reset b e) w' (shut @ [e])))"

definition probe_once ::
  "circuit_breaker_policy \<Rightarrow> 'w probe_fns \<Rightarrow> rat \<Rightarrow> breaker_table \<Rightarrow> 'w
     \<Rightarrow> breaker_table \<times> 'w \<times> string list result" where
  "probe_once policy probe_fns now b w =
     probe_sweep policy probe_fns now (iter_effect_classes probe_fns (Some (store_list_effect_classes b))) b w []"

section \<open>Properties\<close>

definition counters_step :: "breaker_counters \<Rightarrow> breaker_op \<Rightarrow> breaker_counters" where
  "counters_step b op =
     (case op of Failure t e \<Rightarrow> fst (counters_record_failure t b e) | Success e \<Rightarrow> counters_reset b e)"

definition table_step :: "breaker_table \<Rightarrow> breaker_op \<Rightarrow> breaker_table" where
  "table_step b op =
     (case op of Failure t e \<Rightarrow> fst (store_record_failure t b e) | Success e \<Rightarrow> store_reset b e)"

lemma step_eqs: "counters.breaker_step = counters_step" "table.breaker_step = table_step"
  by (auto simp: fun_eq_iff counters_step_def table_step_def split: breaker_op.splits)

text \<open>
  Both breaker stores implement one specification. After any history of recorded
  failures and successes the circuit of a class is open exactly when the failures since its last
  success reach the threshold and the last of them is not yet cooled down; the in-memory counters
  and the SQLite table never differ.
\<close>

theorem breaker_opens_on_recent_failures:
  "let times = failure_times ops e;
       last_failure = (case times of [] \<Rightarrow> 0 | t # _ \<Rightarrow> t);
       opened = (cb_threshold policy \<le> int (length times)
         \<and> float_less_int (elapsed_ms now last_failure) (cb_half_open_after_ms policy))
   in state_is_open policy now (counters_get_state (foldl counters_step no_counters ops) e) = opened
    \<and> state_is_open policy now (store_get_state (foldl table_step [] ops) e) = opened"
  by (simp add: Let_def state_is_open_def not_less counters.state_of_history [unfolded step_eqs]
      table.state_of_history [unfolded step_eqs])

text \<open>A class that the probe may close: it has a health check, is tripped and has cooled down.\<close>

definition probe_due :: "circuit_breaker_policy \<Rightarrow> 'w probe_fns \<Rightarrow> rat \<Rightarrow> breaker_table \<Rightarrow> string \<Rightarrow> bool" where
  "probe_due policy probe_fns now b e =
     (dict_has probe_fns e \<and> cb_threshold policy \<le> fst (store_get_state b e)
      \<and> \<not> float_less_int (elapsed_ms now (snd (store_get_state b e))) (cb_half_open_after_ms policy))"

definition check_failed :: "'w probe_fns \<Rightarrow> string \<Rightarrow> bool" where
  "check_failed probe_fns e \<longleftrightarrow> (\<exists>probe v v'. dict_get probe_fns e = Some probe \<and> probe v = (v', Inr False))"

lemma probe_sweep_skip:
  assumes "\<not> probe_due policy fns now b e"
  shows "probe_sweep policy fns now (e # es) b w shut = probe_sweep policy fns now es b w shut"
  using assms by (auto simp: probe_due_def dict_has_iff split: option.splits prod.splits)

lemma probe_due_reset: "e' \<noteq> e \<Longrightarrow> probe_due policy fns now (store_reset b e) e' = probe_due policy fns now b e'"
  by (simp add: probe_due_def table.get_reset)

lemma probe_sweep_effect:
  assumes "probe_sweep policy fns now es b w shut = (b', w', Inr shut')" "distinct es"
  shows "\<exists>new. shut' = shut @ new \<and> distinct new \<and> set new \<subseteq> set es
    \<and> (\<forall>e \<in> set new. probe_due policy fns now b e)
    \<and> (\<forall>e \<in> set es. probe_due policy fns now b e \<longrightarrow> e \<in> set new \<or> check_failed fns e)
    \<and> (\<forall>e. store_get_state b' e = (if e \<in> set new then (0, 0) else store_get_state b e))"
  using assms
proof (induction es arbitrary: b w shut)
  case Nil
  then show ?case by auto
next
  case (Cons e es)
  show ?case
  proof (cases "probe_due policy fns now b e")
    case False
    with Cons.prems have "probe_sweep policy fns now es b w shut = (b', w', Inr shut')"
      using probe_sweep_skip [OF False] by metis
    from Cons.IH [OF this] Cons.prems(2) False show ?thesis by fastforce
  next
    case True
    then obtain probe where pr: "dict_get fns e = Some probe" by (auto simp: probe_due_def dict_has_iff)
    obtain w1 r where r: "probe w = (w1, r)" by fastforce
    from True pr have step: "probe_sweep policy fns now (e # es) b w shut =
      (case r of Inl err \<Rightarrow> (b, w1, Inl err)
       | Inr ok \<Rightarrow> if ok then probe_sweep policy fns now es (store_reset b e) w1 (shut @ [e])
                 else probe_sweep policy fns now es b w1 shut)"
      by (auto simp: probe_due_def r not_less split: prod.splits sum.splits bool.splits)
    show ?thesis
    proof (cases r)
      case (Inl err)
      with step Cons.prems show ?thesis by simp
    next
      case (Inr ok)
      show ?thesis
      proof (cases ok)
        case False
        with step Inr Cons.prems have "probe_sweep policy fns now es b w1 shut = (b', w', Inr shut')" by simp
        from Cons.IH [OF this] Cons.prems(2) obtain new where
          new: "shut' = shut @ new" "distinct new" "set new \<subseteq> set es"
          "\<forall>e \<in> set new. probe_due policy fns now b e"
          "\<forall>e \<in> set es. probe_due policy fns now b e \<longrightarrow> e \<in> set new \<or> check_failed fns e"
          "\<forall>e. store_get_state b' e = (if e \<in> set new then (0, 0) else store_get_state b e)" by auto
        have "check_failed fns e" using pr r Inr False by (auto simp: check_failed_def)
        with new show ?thesis by (intro exI [of _ new]) auto
      next
        case True
        with step Inr Cons.prems
        have "probe_sweep policy fns now es (store_reset b e) w1 (shut @ [e]) = (b', w', Inr shut')" by simp
        from Cons.IH [OF this] Cons.prems(2) obtain new where
          new: "shut' = (shut @ [e]) @ new" "distinct new" "set new \<subseteq> set es"
          "\<forall>x \<in> set new. probe_due policy fns now (store_reset b e) x"
          "\<forall>x \<in> set es. probe_due policy fns now (store_reset b e) x \<longrightarrow> x \<in> set new \<or> check_failed fns x"
          "\<forall>x. store_get_state b' x = (if x \<in> set new then (0, 0) else store_get_state (store_reset b e) x)" by auto
        have "e \<notin> set es" using Cons.prems(2) by simp
        then have due: "\<forall>x \<in> set es. probe_due policy fns now (store_reset b e) x = probe_due policy fns now b x"
          using probe_due_reset [of _ e policy fns now b] by metis
        have "\<forall>x \<in> set new. probe_due policy fns now b x" using due new(3,4) by blast
        with new due \<open>e \<notin> set es\<close> \<open>probe_due policy fns now b e\<close> show ?thesis
          by (intro exI [of _ "e # new"]) (auto simp: table.get_reset)
      qed
    qed
  qed
qed

text \<open>
  A probe sweep closes exactly circuits that are due. Every class it reports was
  tripped, cooled down and has a health check, and is reset; every other class keeps its
  count and time; a class that was due and stays open failed its health check.
\<close>

theorem probe_closes_only_due_circuits:
  assumes "probe_once policy probe_fns now b w = (b', w', Inr shut)"
  shows "distinct shut \<and> (\<forall>e \<in> set shut. probe_due policy probe_fns now b e)
    \<and> (\<forall>e. store_get_state b' e = (if e \<in> set shut then (0, 0) else store_get_state b e))
    \<and> (\<forall>e. probe_due policy probe_fns now b e \<longrightarrow> e \<in> set shut \<or> check_failed probe_fns e)"
proof -
  let ?es = "iter_effect_classes probe_fns (Some (store_list_effect_classes b))"
  have d: "distinct ?es" by (simp add: iter_effect_classes_def)
  have "e \<in> set ?es" if "probe_due policy probe_fns now b e" for e
    using that by (auto simp: iter_effect_classes_def probe_due_def dict_has_def)
  with probe_sweep_effect [OF assms [unfolded probe_once_def] d] show ?thesis by auto
qed

definition sample_probes :: "unit probe_fns" where
  "sample_probes = [(''payment'', \<lambda>w. (w, Inr True))]"

definition sample_table :: breaker_table where
  "sample_table = [(''payment'', 3, 10), (''search'', 7, 10)]"

definition sample_breaker_policy :: circuit_breaker_policy where
  "sample_breaker_policy = \<lparr>cb_threshold = 1, cb_half_open_after_ms = 0\<rparr>"

theorem probe_closes_only_due_circuits_witness:
  "\<exists>b' shut. probe_once sample_breaker_policy sample_probes 10 sample_table () = (b', (), Inr shut)
     \<and> store_get_state b' ''payment'' = (0, 0) \<and> store_get_state b' ''search'' = (7, 10)"
proof -
  obtain b' u r where p: "probe_once sample_breaker_policy sample_probes 10 sample_table () = (b', u, r)"
    by (rule prod_cases3)
  have "is_ok (snd (snd (probe_once sample_breaker_policy sample_probes 10 sample_table ())))" by code_simp
  then obtain shut where run: "probe_once sample_breaker_policy sample_probes 10 sample_table () = (b', (), Inr shut)"
    unfolding p by (cases r) auto
  note law = probe_closes_only_due_circuits [OF run]
  have due: "probe_due sample_breaker_policy sample_probes 10 sample_table ''payment''" by code_simp
  have notdue: "\<not> probe_due sample_breaker_policy sample_probes 10 sample_table ''search''" by code_simp
  have "\<not> check_failed sample_probes ''payment''"
    by (simp add: check_failed_def sample_probes_def dict_get_def)
  with law due have "''payment'' \<in> set shut" by blast
  moreover have "''search'' \<notin> set shut" using law notdue by blast
  moreover have "store_get_state sample_table ''search'' = (7, 10)" by code_simp
  ultimately show ?thesis using run law by auto
qed

end
