(* ===== verification/Compensation.thy ===== *)
theory Compensation
  imports Dedupe_Store Capability_Snapshot
begin

text \<open>
  The compensation registry of \<^verbatim>\<open>kernel/recovery/compensation_registry.py\<close>: registration and
  lookup of handlers, and their execution under the dispatch ledger with bounded retries.  A
  handler acts on an environment; what the awaited call gives, its timeout included, is its
  outcome, an expired timeout being the exception \<^verbatim>\<open>TimeoutError\<close>.
\<close>

record 'w compensation_entry =
  ce_effect_class :: string
  ce_compensate :: "'w \<Rightarrow> action \<Rightarrow> 'w \<times> unit result"
  ce_description :: string
  ce_timeout_ms :: int
  ce_max_attempts :: int
  ce_backoff_base_ms :: int

type_synonym 'w compensation_registry = "(string, 'w compensation_entry) dict"

definition register_compensation ::
  "'w compensation_registry \<Rightarrow> string \<Rightarrow> ('w \<Rightarrow> action \<Rightarrow> 'w \<times> unit result) \<Rightarrow> string \<Rightarrow> int \<Rightarrow> int \<Rightarrow> int
     \<Rightarrow> 'w compensation_registry" where
  "register_compensation entries effect_cls compensate description timeout_ms max_attempts backoff_base_ms =
     dict_set effect_cls
       \<lparr>ce_effect_class = effect_cls, ce_compensate = compensate, ce_description = description,
        ce_timeout_ms = timeout_ms, ce_max_attempts = max_attempts, ce_backoff_base_ms = backoff_base_ms\<rparr>
       entries"

definition lookup_compensation :: "'w compensation_registry \<Rightarrow> string \<Rightarrow> 'w compensation_entry option" where
  "lookup_compensation entries effect_cls = dict_get entries effect_cls"

definition has_handler :: "'w compensation_registry \<Rightarrow> string \<Rightarrow> bool" where
  "has_handler entries effect_cls = dict_has entries effect_cls"

definition registered_effect_classes :: "'w compensation_registry \<Rightarrow> string list" where
  "registered_effect_classes entries = sort (map fst entries)"

text \<open>The exception classes that the retry loop distinguishes.\<close>

definition is_timeout_error :: "exn \<Rightarrow> bool" where
  "is_timeout_error e = (exn_name e \<in> {''TimeoutError'', ''CompensationTimeoutError''})"

definition is_transient_compensation_error :: "exn \<Rightarrow> bool" where
  "is_transient_compensation_error e = (exn_name e = ''TransientCompensationError'')"

text \<open>\<^verbatim>\<open>_retry_delay_seconds\<close> in milliseconds; \<open>jitter\<close> is the value of \<^verbatim>\<open>random.randint(0, 100)\<close>.\<close>

definition retry_delay_ms :: "int \<Rightarrow> int \<Rightarrow> int \<Rightarrow> int" where
  "retry_delay_ms base_ms attempt jitter = max base_ms 1 * 2 ^ nat (max (attempt - 1) 0) + jitter"

text \<open>The ledger, the environment, the handler calls and the sleeps in milliseconds.\<close>

record ('s, 'w) compensation_world =
  cw_store :: 's
  cw_env :: 'w
  cw_calls :: "action list"
  cw_sleeps :: "int list"

definition acknowledge_compensation ::
  "('s dedupe_port \<times> string) option \<Rightarrow> ('s, 'w) compensation_world \<Rightarrow> ('s, 'w) compensation_world \<times> unit result" where
  "acknowledge_compensation ded w =
     (case ded of
        None \<Rightarrow> (w, Inr ())
      | Some (port, key) \<Rightarrow>
          (case port_mark_acknowledged port (cw_store w) key None of
             (s', r) \<Rightarrow> (w\<lparr>cw_store := s'\<rparr>, r)))"

text \<open>
  The attempt loop: \<open>n\<close> attempts are left, \<open>attempt\<close> have been made.  The boolean says whether
  the loop returned \<^verbatim>\<open>True\<close>; otherwise it was left with an error.
\<close>

fun attempt_loop ::
  "('s dedupe_port \<times> string) option \<Rightarrow> ('w \<Rightarrow> int) \<Rightarrow> 'w compensation_entry \<Rightarrow> action \<Rightarrow> nat \<Rightarrow> int
     \<Rightarrow> ('s, 'w) compensation_world \<Rightarrow> ('s, 'w) compensation_world \<times> bool" where
  "attempt_loop ded randint entry a 0 attempt w = (w, False)"
| "attempt_loop ded randint entry a (Suc n) attempt w =
     (case ce_compensate entry (cw_env w) a of
        (env', out) \<Rightarrow>
          let w = w\<lparr>cw_env := env', cw_calls := cw_calls w @ [a]\<rparr>;
              attempt = attempt + 1
          in case (case out of Inl e \<Rightarrow> (w, Inl e) | Inr _ \<Rightarrow> acknowledge_compensation ded w) of
               (w', Inr _) \<Rightarrow> (w', True)
             | (w', Inl e) \<Rightarrow>
                 if is_timeout_error e \<or> is_transient_compensation_error e
                 then if attempt \<ge> ce_max_attempts entry then (w', False)
                      else attempt_loop ded randint entry a n attempt
                        (w'\<lparr>cw_sleeps := cw_sleeps w' @
                           [retry_delay_ms (ce_backoff_base_ms entry) attempt (randint (cw_env w'))]\<rparr>)
                 else (w', False))"

definition compensation_key :: "action \<Rightarrow> string" where
  "compensation_key a = generate_compensation_key (effect_class_str (act_effect_class a)) (act_action_id a)"

definition compensation_envelope :: "action \<Rightarrow> idempotency_envelope" where
  "compensation_envelope a =
     \<lparr>en_dispatch_idempotency_key = compensation_key a,
      en_operation_fingerprint = compensation_key a,
      en_attempt_seq = 1,
      en_effect_scope = effect_class_str (act_effect_class a),
      en_capability_snapshot_hash = ''compensation'',
      en_host_kind = Local_process,
      en_peer_operation_id = None, en_policy_snapshot_ref = None, en_rule_bundle_hash = None\<rparr>"

definition exhausted_error :: "'w compensation_entry \<Rightarrow> action \<Rightarrow> exn" where
  "exhausted_error entry a =
     CompensationExhaustedError (''compensation attempts exhausted effect_class='' @
       effect_class_str (act_effect_class a) @ '' action_id='' @ act_action_id a @
       '' attempts='' @ show_int (ce_max_attempts entry))"

text \<open>What follows an accepted reservation: the loop and, when it gave up, the mark and the error.\<close>

definition run_compensation ::
  "('s dedupe_port \<times> string) option \<Rightarrow> ('w \<Rightarrow> int) \<Rightarrow> 'w compensation_entry \<Rightarrow> action \<Rightarrow> bool
     \<Rightarrow> ('s, 'w) compensation_world \<Rightarrow> ('s, 'w) compensation_world \<times> bool result" where
  "run_compensation ded randint entry a raise_on_failure w =
     (case attempt_loop ded randint entry a (nat (max (ce_max_attempts entry) 1)) 0 w of
        (w', True) \<Rightarrow> (w', Inr True)
      | (w', False) \<Rightarrow>
          ((case ded of
              None \<Rightarrow> w'
            | Some (port, key) \<Rightarrow> w'\<lparr>cw_store := fst (port_mark_unknown_effect port (cw_store w') key)\<rparr>),
           if raise_on_failure then Inl (exhausted_error entry a) else Inr False))"

definition execute_compensation ::
  "'w compensation_registry \<Rightarrow> 's dedupe_port option \<Rightarrow> ('w \<Rightarrow> int) \<Rightarrow> action \<Rightarrow> bool
     \<Rightarrow> ('s, 'w) compensation_world \<Rightarrow> ('s, 'w) compensation_world \<times> bool result" where
  "execute_compensation entries dedupe_store randint a raise_on_failure w =
     (case dict_get entries (effect_class_str (act_effect_class a)) of
        None \<Rightarrow> (w, Inr False)
      | Some entry \<Rightarrow>
          (case dedupe_store of
             None \<Rightarrow> run_compensation None randint entry a raise_on_failure w
           | Some port \<Rightarrow>
               (case port_reserve port (cw_store w) (compensation_envelope a) of
                  (s1, Inl e) \<Rightarrow> (w\<lparr>cw_store := s1\<rparr>, Inl e)
                | (s1, Inr reservation) \<Rightarrow>
                    if \<not> rv_accepted reservation then (w\<lparr>cw_store := s1\<rparr>, Inr True)
                    else case port_mark_dispatched port s1 (compensation_key a) None of
                      (s2, Inl e) \<Rightarrow> (w\<lparr>cw_store := s2\<rparr>, Inl e)
                    | (s2, Inr _) \<Rightarrow>
                        run_compensation (Some (port, compensation_key a)) randint entry a raise_on_failure
                          (w\<lparr>cw_store := s2\<rparr>))))"

section \<open>What an execution does\<close>

lemma compensation_key_inj:
  assumes "compensation_key a = compensation_key b"
  shows "act_effect_class a = act_effect_class b \<and> act_action_id a = act_action_id b"
proof -
  have nocolon: "CHR '':'' \<notin> set (effect_class_str e)" for e by (cases e) simp_all
  have "effect_class_str (act_effect_class a) @ CHR '':'' # act_action_id a =
      effect_class_str (act_effect_class b) @ CHR '':'' # act_action_id b"
    using assms by (simp add: compensation_key_def generate_compensation_key_def)
  from split_at_first [OF nocolon nocolon this] show ?thesis using effect_class_str_inj by blast
qed

text \<open>Without regard to its outcome, the loop calls the handler of one action a bounded number of times.\<close>

lemma attempt_loop_calls:
  "attempt_loop ded randint entry a n attempt w = (w', ok) \<Longrightarrow>
     \<exists>m \<le> n. cw_calls w' = cw_calls w @ replicate m a"
proof (induction ded randint entry a n attempt w arbitrary: w' ok rule: attempt_loop.induct)
  case (1 ded randint entry a attempt w)
  then show ?case by simp
next
  case (2 ded randint entry a n attempt w)
  obtain env' out where out: "ce_compensate entry (cw_env w) a = (env', out)" by fastforce
  let ?w = "w\<lparr>cw_env := env', cw_calls := cw_calls w @ [a]\<rparr>"
  obtain w1 r where r: "(case out of Inl e \<Rightarrow> (?w, Inl e) | Inr _ \<Rightarrow> acknowledge_compensation ded ?w) = (w1, r)"
    by fastforce
  have calls: "cw_calls w1 = cw_calls w @ [a]"
    using r by (auto simp: acknowledge_compensation_def split: sum.splits option.splits prod.splits)
  show ?case
  proof (cases "\<exists>e. r = Inl e \<and> (is_timeout_error e \<or> is_transient_compensation_error e)
      \<and> \<not> attempt + 1 \<ge> ce_max_attempts entry")
    case True
    then obtain e where e: "r = Inl e" "is_timeout_error e \<or> is_transient_compensation_error e"
      "\<not> attempt + 1 \<ge> ce_max_attempts entry" by blast
    let ?v = "w1\<lparr>cw_sleeps := cw_sleeps w1 @
      [retry_delay_ms (ce_backoff_base_ms entry) (attempt + 1) (randint (cw_env w1))]\<rparr>"
    have "attempt_loop ded randint entry a n (attempt + 1) ?v = (w', ok)"
      using "2.prems" out r e by (simp add: Let_def)
    from "2.IH" [OF out [symmetric] refl refl r [symmetric] e(1,2,3) this]
    obtain m where m: "m \<le> n" "cw_calls w' = cw_calls ?v @ replicate m a" by blast
    then have "cw_calls w' = cw_calls w @ replicate (Suc m) a" using calls by simp
    with m(1) show ?thesis by (intro exI [of _ "Suc m"]) auto
  next
    case False
    then have "w' = w1" using "2.prems" out r by (auto simp: Let_def split: sum.splits if_splits)
    with calls show ?thesis by (intro exI [of _ 1]) simp
  qed
qed

context dedupe_store_port
begin

lemma acknowledge_law:
  assumes "invar (cw_store w)" "acknowledge_compensation (Some (port, k)) w = (w', r)"
  shows "invar (cw_store w') \<and> ledger_le (ledger (cw_store w)) (ledger (cw_store w'))"
proof -
  obtain s' u where m: "port_mark port (cw_store w) (MarkAcknowledged None) k = (s', u)" by fastforce
  with assms(2) have "cw_store w' = s'" by (auto simp: acknowledge_compensation_def)
  with mark_cases [OF assms(1) m] show ?thesis by simp
qed

lemma attempt_loop_law:
  "ded = Some (port, k) \<Longrightarrow> invar (cw_store w) \<Longrightarrow> attempt_loop ded randint entry a n attempt w = (w', ok) \<Longrightarrow>
     invar (cw_store w') \<and> ledger_le (ledger (cw_store w)) (ledger (cw_store w'))"
proof (induction n arbitrary: attempt w)
  case 0
  then show ?case by simp
next
  case (Suc n)
  obtain env' out where out: "ce_compensate entry (cw_env w) a = (env', out)" by fastforce
  let ?w = "w\<lparr>cw_env := env', cw_calls := cw_calls w @ [a]\<rparr>"
  obtain w1 r where r: "(case out of Inl e \<Rightarrow> (?w, Inl e) | Inr _ \<Rightarrow> acknowledge_compensation ded ?w) = (w1, r)"
    by fastforce
  have inv: "invar (cw_store w1) \<and> ledger_le (ledger (cw_store w)) (ledger (cw_store w1))"
  proof (cases out)
    case (Inl e)
    with r have "w1 = ?w" by simp
    with Suc.prems(2) show ?thesis by simp
  next
    case (Inr u)
    with r Suc.prems(1) have "acknowledge_compensation (Some (port, k)) ?w = (w1, r)" by simp
    from acknowledge_law [OF _ this] Suc.prems(2) show ?thesis by simp
  qed
  show ?case
  proof (cases "\<exists>e. r = Inl e \<and> (is_timeout_error e \<or> is_transient_compensation_error e)
      \<and> \<not> attempt + 1 \<ge> ce_max_attempts entry")
    case True
    then obtain e where e: "r = Inl e" "is_timeout_error e \<or> is_transient_compensation_error e"
      "\<not> attempt + 1 \<ge> ce_max_attempts entry" by blast
    then have "attempt_loop ded randint entry a n (attempt + 1) (w1\<lparr>cw_sleeps := cw_sleeps w1 @
        [retry_delay_ms (ce_backoff_base_ms entry) (attempt + 1) (randint (cw_env w1))]\<rparr>) = (w', ok)"
      using Suc.prems(3) out r by (simp add: Let_def)
    from Suc.IH [OF Suc.prems(1) _ this] inv show ?thesis by (auto intro: ledger_le_trans)
  next
    case False
    then have "w' = w1" using Suc.prems(3) out r by (auto simp: Let_def split: sum.splits if_splits)
    with inv show ?thesis by simp
  qed
qed

lemma run_compensation_law:
  assumes "invar (cw_store w)" "run_compensation (Some (port, k)) randint entry a rof w = (w', r)"
  shows "invar (cw_store w') \<and> ledger_le (ledger (cw_store w)) (ledger (cw_store w'))
    \<and> (\<exists>m \<le> nat (max (ce_max_attempts entry) 1). cw_calls w' = cw_calls w @ replicate m a)"
proof -
  obtain w1 ok where l: "attempt_loop (Some (port, k)) randint entry a (nat (max (ce_max_attempts entry) 1)) 0 w = (w1, ok)"
    by fastforce
  note law = attempt_loop_law [OF refl assms(1) l] attempt_loop_calls [OF l]
  show ?thesis
  proof (cases ok)
    case True
    with assms(2) l law show ?thesis by (simp add: run_compensation_def)
  next
    case False
    obtain s2 u where m: "port_mark port (cw_store w1) MarkUnknown k = (s2, u)" by fastforce
    with False assms(2) l have "cw_store w' = s2" "cw_calls w' = cw_calls w1"
      by (auto simp: run_compensation_def)
    with law mark_cases [OF _ m] show ?thesis by (auto intro: ledger_le_trans)
  qed
qed

text \<open>
  An execution under the ledger either calls no handler, or it is the one whose reservation of the
  action's key was accepted, and then calls the handler of its action a bounded number of times.
\<close>

lemma execute_compensation_law:
  assumes inv: "invar (cw_store w)"
    and run: "execute_compensation entries (Some port) randint a rof w = (w', r)"
  shows "invar (cw_store w') \<and> ledger_le (ledger (cw_store w)) (ledger (cw_store w'))
    \<and> (cw_calls w' = cw_calls w
       \<or> (\<exists>entry m. dict_get entries (effect_class_str (act_effect_class a)) = Some entry
            \<and> ledger (cw_store w) (compensation_key a) = None
            \<and> ledger (cw_store w') (compensation_key a) \<noteq> None
            \<and> m \<le> nat (max (ce_max_attempts entry) 1)
            \<and> cw_calls w' = cw_calls w @ replicate m a))"
proof (cases "dict_get entries (effect_class_str (act_effect_class a))")
  case None
  with inv run show ?thesis by (auto simp: execute_compensation_def)
next
  case (Some entry)
  obtain s1 rs where rs: "port_reserve port (cw_store w) (compensation_envelope a) = (s1, rs)" by fastforce
  note c1 = reserve_cases [OF inv rs]
  show ?thesis
  proof (cases "\<exists>rv. rs = Inr rv \<and> rv_accepted rv")
    case False
    with run Some rs c1(1,2) show ?thesis
      by (auto simp: execute_compensation_def split: sum.splits if_splits)
  next
    case True
    then obtain rv where rv: "rs = Inr rv" "rv_accepted rv" by blast
    then have new: "ledger (cw_store w) (compensation_key a) = None" "ledger s1 (compensation_key a) \<noteq> None"
      using c1(3) by (simp_all add: reserved_key_def compensation_envelope_def)
    obtain s2 u where m: "port_mark port s1 (MarkDispatched None) (compensation_key a) = (s2, u)" by fastforce
    note c2 = mark_cases [OF c1(1) m]
    show ?thesis
    proof (cases u)
      case (Inl e)
      with run Some rs rv m c1 c2 show ?thesis
        by (auto simp: execute_compensation_def intro: ledger_le_trans)
    next
      case (Inr x)
      with run Some rs rv m
      have rc: "run_compensation (Some (port, compensation_key a)) randint entry a rof (w\<lparr>cw_store := s2\<rparr>) = (w', r)"
        by (simp add: execute_compensation_def)
      note law = run_compensation_law [OF _ rc]
      have le: "ledger_le (ledger s2) (ledger (cw_store w'))" using law c2(1) by simp
      have "ledger (cw_store w') (compensation_key a) \<noteq> None"
        using new(2) ledger_le_dom [OF c2(2)] ledger_le_dom [OF le] by metis
      with law c1 c2 new(1) Some show ?thesis by (auto intro: ledger_le_trans)
    qed
  qed
qed

end

section \<open>Properties\<close>

text \<open>A sequence of executions over one world, whatever each of them returns or raises.\<close>

fun execute_all ::
  "'w compensation_registry \<Rightarrow> 's dedupe_port \<Rightarrow> ('w \<Rightarrow> int) \<Rightarrow> (action \<times> bool) list
     \<Rightarrow> ('s, 'w) compensation_world \<Rightarrow> ('s, 'w) compensation_world" where
  "execute_all entries port randint [] w = w"
| "execute_all entries port randint ((a, rof) # rest) w =
     execute_all entries port randint rest (fst (execute_compensation entries (Some port) randint a rof w))"

definition calls_of_key :: "string \<Rightarrow> ('s, 'w) compensation_world \<Rightarrow> nat" where
  "calls_of_key k w = length (filter (\<lambda>c. compensation_key c = k) (cw_calls w))"

definition calls_bounded :: "'w compensation_registry \<Rightarrow> (string \<Rightarrow> bool) \<Rightarrow> ('s, 'w) compensation_world \<Rightarrow> bool" where
  "calls_bounded entries known w \<longleftrightarrow>
     (\<forall>a. (calls_of_key (compensation_key a) w > 0 \<longrightarrow> known (compensation_key a))
        \<and> (\<forall>entry. dict_get entries (effect_class_str (act_effect_class a)) = Some entry \<longrightarrow>
             calls_of_key (compensation_key a) w \<le> nat (max (ce_max_attempts entry) 1)))"

context dedupe_store_port
begin

lemma execute_compensation_bounded:
  assumes inv: "invar (cw_store w)"
    and run: "execute_compensation entries (Some port) randint a rof w = (w', r)"
    and bounded: "calls_bounded entries (\<lambda>k. ledger (cw_store w) k \<noteq> None) w"
  shows "calls_bounded entries (\<lambda>k. ledger (cw_store w') k \<noteq> None) w'"
proof -
  note law = execute_compensation_law [OF inv run]
  have le: "ledger_le (ledger (cw_store w)) (ledger (cw_store w'))" using law by simp
  have keep: "ledger (cw_store w) k \<noteq> None \<Longrightarrow> ledger (cw_store w') k \<noteq> None" for k
    using ledger_le_dom [OF le, of k] by metis
  show ?thesis
  proof (cases "cw_calls w' = cw_calls w")
    case True
    with bounded keep show ?thesis by (auto simp: calls_bounded_def calls_of_key_def)
  next
    case False
    then obtain entry m where e: "dict_get entries (effect_class_str (act_effect_class a)) = Some entry"
      and new: "ledger (cw_store w) (compensation_key a) = None" "ledger (cw_store w') (compensation_key a) \<noteq> None"
      and m: "m \<le> nat (max (ce_max_attempts entry) 1)" "cw_calls w' = cw_calls w @ replicate m a"
      using law by blast
    have zero: "calls_of_key (compensation_key a) w = 0"
      using bounded new(1) unfolding calls_bounded_def by blast
    have calls: "calls_of_key k w' = calls_of_key k w + (if compensation_key a = k then m else 0)" for k
      using m(2) by (simp add: calls_of_key_def)
    show ?thesis
      unfolding calls_bounded_def
    proof (intro allI conjI impI)
      fix b :: action
      show "ledger (cw_store w') (compensation_key b) \<noteq> None" if "calls_of_key (compensation_key b) w' > 0"
        using that calls bounded keep new(2) by (cases "compensation_key a = compensation_key b")
          (auto simp: calls_bounded_def)
    next
      fix b :: action and entry'
      assume e': "dict_get entries (effect_class_str (act_effect_class b)) = Some entry'"
      show "calls_of_key (compensation_key b) w' \<le> nat (max (ce_max_attempts entry') 1)"
      proof (cases "compensation_key a = compensation_key b")
        case True
        with compensation_key_inj [OF True] e e' m(1) calls zero show ?thesis by simp
      next
        case False
        with calls bounded e' show ?thesis by (simp add: calls_bounded_def)
      qed
    qed
  qed
qed

lemma execute_all_bounded:
  assumes "invar (cw_store w)" "calls_bounded entries (\<lambda>k. ledger (cw_store w) k \<noteq> None) w"
  shows "calls_bounded entries (\<lambda>k. ledger (cw_store (execute_all entries port randint xs w)) k \<noteq> None)
    (execute_all entries port randint xs w)"
  using assms
proof (induction xs arbitrary: w)
  case Nil
  then show ?case by simp
next
  case (Cons x xs)
  obtain a rof where x: "x = (a, rof)" by fastforce
  obtain w1 r where r: "execute_compensation entries (Some port) randint a rof w = (w1, r)" by fastforce
  from Cons.IH [of w1] execute_compensation_law [OF Cons.prems(1) r]
    execute_compensation_bounded [OF Cons.prems(1) r Cons.prems(2)] x r
  show ?case by simp
qed

end

text \<open>
  C38 (safety): compensation is attempted by one execution only. Over a fresh in-memory ledger, however
  often recovery executes compensations and whatever the handlers do, the handler is called for
  one action (its effect class and identifier) at most as often as its entry allows attempts.
\<close>

theorem compensation_attempts_bounded:
  fixes a :: action
  assumes "dict_get entries (effect_class_str (act_effect_class a)) = Some entry"
  shows "length (filter (\<lambda>c :: action. act_effect_class c = act_effect_class a \<and> act_action_id c = act_action_id a)
      (cw_calls (execute_all entries mem_port randint xs
         \<lparr>cw_store = [], cw_env = env, cw_calls = [], cw_sleeps = sleeps\<rparr>)))
    \<le> nat (max (ce_max_attempts entry) 1)"
proof -
  let ?w = "\<lparr>cw_store = [], cw_env = env, cw_calls = [], cw_sleeps = sleeps\<rparr>"
  have same: "(act_effect_class c = act_effect_class a \<and> act_action_id c = act_action_id a) =
      (compensation_key c = compensation_key a)" for c
    using compensation_key_inj [of c a] by (auto simp: compensation_key_def)
  have "calls_bounded entries (\<lambda>k. dict_get (cw_store ?w) k \<noteq> None) ?w"
    by (simp add: calls_bounded_def calls_of_key_def)
  from mem.execute_all_bounded [OF _ this, of randint xs] assms show ?thesis
    unfolding same by (simp add: calls_bounded_def calls_of_key_def)
qed

definition sample_entry :: "nat compensation_entry" where
  "sample_entry =
     \<lparr>ce_effect_class = ''compensatable_write'',
      ce_compensate = (\<lambda>w a. (w + 1, Inl (OtherError ''TimeoutError'' []))),
      ce_description = [], ce_timeout_ms = 30000, ce_max_attempts = 2, ce_backoff_base_ms = 1000\<rparr>"

theorem compensation_attempts_bounded_witness:
  "length (filter (\<lambda>c :: action. act_effect_class c = COMPENSATABLE_WRITE \<and> act_action_id c = ''a1'')
      (cw_calls (execute_all [(''compensatable_write'', sample_entry)] mem_port (\<lambda>_. 7)
         [(sample_action ''a1'' COMPENSATABLE_WRITE, False), (sample_action ''a1'' COMPENSATABLE_WRITE, True)]
         \<lparr>cw_store = [], cw_env = 0, cw_calls = [], cw_sleeps = []\<rparr>))) \<le> 2"
  using compensation_attempts_bounded [of "[(''compensatable_write'', sample_entry)]"
      "sample_action ''a1'' COMPENSATABLE_WRITE" sample_entry "\<lambda>_. 7"
      "[(sample_action ''a1'' COMPENSATABLE_WRITE, False), (sample_action ''a1'' COMPENSATABLE_WRITE, True)]" 0 "[]"]
  by (simp add: sample_action_def sample_entry_def dict_get_def)

text \<open>The loop over the in-memory ledger, from a key that is dispatched.\<close>

lemma attempt_loop_mem:
  assumes "attempt_loop (Some (mem_port, k)) randint entry a n attempt w = (w', ok)"
    "dict_get (cw_store w) k = Some r" "dr_state r = Dispatched"
  shows "\<exists>r'. dict_get (cw_store w') k = Some r' \<and> dr_state r' = (if ok then Acknowledged else Dispatched)"
  using assms
proof (induction n arbitrary: attempt w)
  case 0
  then show ?case by simp
next
  case (Suc n)
  obtain env' out where out: "ce_compensate entry (cw_env w) a = (env', out)" by fastforce
  show ?case
  proof (cases out)
    case (Inr u)
    with Suc.prems out show ?thesis
      by (auto simp: acknowledge_compensation_def mem_mark_acknowledged_def mem_get_required_record_def Let_def)
  next
    case (Inl e)
    show ?thesis
    proof (cases "(is_timeout_error e \<or> is_transient_compensation_error e) \<and> \<not> attempt + 1 \<ge> ce_max_attempts entry")
      case True
      let ?w = "w\<lparr>cw_env := env', cw_calls := cw_calls w @ [a], cw_sleeps := cw_sleeps w @
        [retry_delay_ms (ce_backoff_base_ms entry) (attempt + 1) (randint env')]\<rparr>"
      from True Inl out Suc.prems(1)
      have "attempt_loop (Some (mem_port, k)) randint entry a n (attempt + 1) ?w = (w', ok)"
        by (simp add: Let_def)
      from Suc.IH [OF this] Suc.prems(2,3) show ?thesis by simp
    next
      case False
      with Inl out Suc.prems show ?thesis by (auto simp: Let_def split: if_splits)
    qed
  qed
qed

text \<open>
  The ledger tells what became of a compensation. Over the in-memory ledger, an
  execution for a key that is already there changes nothing and reports success; the first one
  reports success exactly when it left the key acknowledged, and otherwise leaves it with an
  unknown effect and raises or reports the exhaustion, as asked.
\<close>

theorem compensation_outcome_recorded:
  assumes "dict_get entries (effect_class_str (act_effect_class a)) = Some entry"
    "execute_compensation entries (Some mem_port) randint a raise_on_failure w = (w', res)"
  shows "if dict_get (cw_store w) (compensation_key a) \<noteq> None then w' = w \<and> res = Inr True
    else \<exists>r. dict_get (cw_store w') (compensation_key a) = Some r
      \<and> (dr_state r = Acknowledged \<and> res = Inr True
         \<or> dr_state r = Unknown_effect
           \<and> res = (if raise_on_failure then Inl (exhausted_error entry a) else Inr False))"
proof (cases "dict_get (cw_store w) (compensation_key a)")
  case (Some old)
  with assms show ?thesis
    by (simp add: execute_compensation_def mem_reserve_def compensation_envelope_def)
next
  case None
  let ?k = "compensation_key a"
  define s2 where "s2 = fst (mem_mark_dispatched (fst (mem_reserve (cw_store w) (compensation_envelope a))) ?k None)"
  note ops = mem_reserve_def compensation_envelope_def mem_mark_dispatched_def mem_get_required_record_def
  have s2: "\<exists>r2. dict_get s2 ?k = Some r2 \<and> dr_state r2 = Dispatched"
    using None by (simp add: s2_def ops)
  have run: "run_compensation (Some (mem_port, ?k)) randint entry a raise_on_failure (w\<lparr>cw_store := s2\<rparr>) = (w', res)"
    using None assms by (simp add: execute_compensation_def s2_def ops)
  obtain w1 ok where l: "attempt_loop (Some (mem_port, ?k)) randint entry a (nat (max (ce_max_attempts entry) 1)) 0
      (w\<lparr>cw_store := s2\<rparr>) = (w1, ok)" by fastforce
  from attempt_loop_mem [OF l] s2 obtain r' where r': "dict_get (cw_store w1) ?k = Some r'"
    "dr_state r' = (if ok then Acknowledged else Dispatched)" by auto
  show ?thesis
    using run l r' None by (cases ok) (auto simp: run_compensation_def mem_mark_unknown_effect_def
        mem_get_required_record_def)
qed

theorem compensation_outcome_recorded_witness:
  "\<exists>w' r. execute_compensation [(''compensatable_write'', sample_entry)] (Some mem_port) (\<lambda>_. 7)
       (sample_action ''a1'' COMPENSATABLE_WRITE) False \<lparr>cw_store = [], cw_env = 0, cw_calls = [], cw_sleeps = []\<rparr>
       = (w', Inr False)
     \<and> dict_get (cw_store w') (compensation_key (sample_action ''a1'' COMPENSATABLE_WRITE)) = Some r
     \<and> dr_state r = Unknown_effect"
proof -
  let ?run = "execute_compensation [(''compensatable_write'', sample_entry)] (Some mem_port) (\<lambda>_. 7)
       (sample_action ''a1'' COMPENSATABLE_WRITE) False \<lparr>cw_store = [], cw_env = 0, cw_calls = [], cw_sleeps = []\<rparr>"
  have "snd ?run = Inr False" by code_simp
  then obtain w' where run: "?run = (w', Inr False)" by (metis prod.collapse)
  have e: "dict_get [(''compensatable_write'', sample_entry)]
      (effect_class_str (act_effect_class (sample_action ''a1'' COMPENSATABLE_WRITE))) = Some sample_entry"
    by (simp add: sample_action_def dict_get_def)
  from compensation_outcome_recorded [OF e run] run show ?thesis by auto
qed

end
