(* ===== verification/Recovery_Gate.thy ===== *)
theory Recovery_Gate
  imports Recovery_Planner Circuit_Breaker Compensation
begin

text \<open>
  The recovery gate of \<^verbatim>\<open>kernel/recovery/gate.py\<close> with the reflection context builder of
  \<^verbatim>\<open>kernel/recovery/reflection_builder.py\<close>, and the static gate, decision deduper and outcome
  store of \<^verbatim>\<open>kernel/minimal_runtime.py\<close>.  The observability hooks, whose exceptions are
  suppressed and whose results are not used, are left out.
\<close>

section \<open>Reflection context\<close>

record token_budget =
  tb_max_input :: int
  tb_max_output :: int
  tb_reasoning_budget :: "int option"

record inference_config =
  ic_model_ref :: string
  ic_token_budget :: token_budget
  ic_temperature :: pyfloat
  ic_stop_sequences :: "string list"
  ic_turn_kind_overrides :: "(string, token_budget) dict"

definition InferenceConfig :: "string \<Rightarrow> inference_config" where
  "InferenceConfig model_ref =
     \<lparr>ic_model_ref = model_ref,
      ic_token_budget = \<lparr>tb_max_input = 32768, tb_max_output = 4096, tb_reasoning_budget = None\<rparr>,
      ic_temperature = PFin 0, ic_stop_sequences = [], ic_turn_kind_overrides = []\<rparr>"

text \<open>Tool and skill definitions are passed through unread.\<close>

record context_window =
  cx_system_instructions :: string
  cx_tool_definitions :: "json list"
  cx_skill_definitions :: "json list"
  cx_history :: "jdict list"
  cx_current_state :: jdict
  cx_memory_ref :: "string option"
  cx_recovery_context :: "jdict option"
  cx_inference_config :: "inference_config option"

definition ContextWindow :: "string \<Rightarrow> context_window" where
  "ContextWindow system_instructions =
     \<lparr>cx_system_instructions = system_instructions, cx_tool_definitions = [], cx_skill_definitions = [],
      cx_history = [], cx_current_state = [], cx_memory_ref = None, cx_recovery_context = None,
      cx_inference_config = None\<rparr>"

record script_failure_evidence =
  sf_script_id :: string
  sf_failure_kind :: string
  sf_budget_consumed_ratio :: pyfloat
  sf_output_produced :: bool
  sf_suspected_cause :: "string option"
  sf_partial_output :: "string option"
  sf_original_script :: string
  sf_stderr_tail :: "string option"

text \<open>\<^verbatim>\<open>ReflectionContextBuilder.build\<close>; of a successful branch only its action identifier is read.\<close>

definition build_reflection_context ::
  "script_failure_evidence \<Rightarrow> string list \<Rightarrow> context_window \<Rightarrow> int \<Rightarrow> context_window" where
  "build_reflection_context evidence successful_branches base_context reflection_round =
     base_context\<lparr>cx_recovery_context := Some
       [(''failure_kind'', JStr (sf_failure_kind evidence)),
        (''suspected_cause'', json_opt_str (sf_suspected_cause evidence)),
        (''budget_consumed_ratio'', JFloat (sf_budget_consumed_ratio evidence)),
        (''original_script'', JStr (sf_original_script evidence)),
        (''partial_output'', json_opt_str (sf_partial_output evidence)),
        (''stderr_tail'', json_opt_str (sf_stderr_tail evidence)),
        (''successful_branch_ids'', json_str_list successful_branches),
        (''reflection_round'', JInt reflection_round),
        (''instruction'', JStr ''Analyse the failure and produce a corrected script'')]\<rparr>"

definition known_failure_kinds :: "string list" where
  "known_failure_kinds =
     [''heartbeat_timeout'', ''runtime_error'', ''permission_denied'', ''resource_exhausted'',
      ''output_validation_failed'']"

definition build_evidence_from_input :: "recovery_input \<Rightarrow> script_failure_evidence" where
  "build_evidence_from_input x =
     (let reason = ri_reason_code x
      in \<lparr>sf_script_id = (case or_else (ri_failed_action_id x) (Some ''unknown'') of
             None \<Rightarrow> ''unknown'' | Some s \<Rightarrow> s),
          sf_failure_kind = (if reason \<in> set known_failure_kinds then reason else ''runtime_error''),
          sf_budget_consumed_ratio = PFin 0, sf_output_produced = False,
          sf_suspected_cause = Some reason, sf_partial_output = None, sf_original_script = [],
          sf_stderr_tail = None\<rparr>)"

section \<open>The gate and its state\<close>

type_synonym 'w reasoning_loop =
  "'w \<Rightarrow> string \<Rightarrow> capability_snapshot \<Rightarrow> json list \<Rightarrow> inference_config \<Rightarrow> context_window \<Rightarrow> string
     \<Rightarrow> 'w \<times> action list result"

record ('s, 'b, 'w) recovery_gate =
  rg_policy :: planner_heuristic_policy
  rg_modes :: mode_registry
  rg_compensation_registry :: "'w compensation_registry option"
  rg_reflection_policy :: "reflection_policy option"
  rg_reasoning_loop :: "'w reasoning_loop option"
  rg_reflection_builder ::
    "(script_failure_evidence \<Rightarrow> string list \<Rightarrow> context_window \<Rightarrow> int \<Rightarrow> context_window) option"
  rg_default_inference_config :: "inference_config option"
  rg_circuit_breaker_policy :: "circuit_breaker_policy option"
  rg_circuit_breaker_store :: "'b breaker_port option"
  rg_dedupe_store :: "'s dedupe_port option"
  rg_randint :: "'w \<Rightarrow> int"
  rg_utc_now :: "'w \<Rightarrow> string"

record ('s, 'b, 'w) gate_state =
  gs_failure_counts :: "(string, int) dict"
  gs_counters :: breaker_counters
  gs_breaker :: 'b
  gs_world :: "('s, 'w) compensation_world"

section \<open>Circuit breaking and backoff\<close>

text \<open>\<open>now\<close> is the reading of the clock the check uses: wall clock with a store, else monotonic.\<close>

definition is_circuit_open ::
  "('s, 'b, 'w) recovery_gate \<Rightarrow> ('s, 'b, 'w) gate_state \<Rightarrow> rat \<Rightarrow> string option \<Rightarrow> bool result" where
  "is_circuit_open g st now effect_cls =
     (case (rg_circuit_breaker_policy g, effect_cls) of
        (Some policy, Some e) \<Rightarrow>
          (case rg_circuit_breaker_store g of
             Some port \<Rightarrow> bind_result (bp_get_state port (gs_breaker st) e) (\<lambda>s. Inr (state_is_open policy now s))
           | None \<Rightarrow> Inr (state_is_open policy now (counters_get_state (gs_counters st) e)))
      | _ \<Rightarrow> Inr False)"

definition record_circuit_failure ::
  "('s, 'b, 'w) recovery_gate \<Rightarrow> ('s, 'b, 'w) gate_state \<Rightarrow> rat \<Rightarrow> string option
     \<Rightarrow> ('s, 'b, 'w) gate_state \<times> unit result" where
  "record_circuit_failure g st now effect_cls =
     (case (rg_circuit_breaker_policy g, effect_cls) of
        (Some policy, Some e) \<Rightarrow>
          (case rg_circuit_breaker_store g of
             Some port \<Rightarrow>
               (case bp_record_failure port now (gs_breaker st) e of
                  (b', r) \<Rightarrow> (st\<lparr>gs_breaker := b'\<rparr>, bind_result r (\<lambda>_. Inr ())))
           | None \<Rightarrow> (st\<lparr>gs_counters := fst (counters_record_failure now (gs_counters st) e)\<rparr>, Inr ()))
      | _ \<Rightarrow> (st, Inr ()))"

definition on_action_success ::
  "('s, 'b, 'w) recovery_gate \<Rightarrow> ('s, 'b, 'w) gate_state \<Rightarrow> string \<Rightarrow> ('s, 'b, 'w) gate_state \<times> unit result" where
  "on_action_success g st effect_cls =
     (case rg_circuit_breaker_store g of
        Some port \<Rightarrow>
          (case bp_reset port (gs_breaker st) effect_cls of (b', r) \<Rightarrow> (st\<lparr>gs_breaker := b'\<rparr>, r))
      | None \<Rightarrow> (st\<lparr>gs_counters := counters_reset (gs_counters st) effect_cls\<rparr>, Inr ()))"

definition BACKOFF_BASE_MS :: int where "BACKOFF_BASE_MS = 500"

definition BACKOFF_MAX_MS :: int where "BACKOFF_MAX_MS = 30000"

text \<open>\<^verbatim>\<open>int(base * math.pow(2, e))\<close>: exact for \<open>0 \<le> e \<le> 16\<close>, truncated towards zero below.\<close>

definition compute_retry_after_ms :: "string \<Rightarrow> int \<Rightarrow> int option" where
  "compute_retry_after_ms mode failure_count =
     (if mode \<notin> {''static_compensation'', ''reflect_and_retry''} then None
      else
        let exponent = min (failure_count - 1) 16;
            delay = \<lfloor>of_int BACKOFF_BASE_MS * (2 powi exponent :: rat)\<rfloor>
        in Some (min delay BACKOFF_MAX_MS))"

definition attach_backoff :: "recovery_decision \<Rightarrow> int \<Rightarrow> recovery_decision" where
  "attach_backoff decision failure_count =
     decision\<lparr>rd_retry_after_ms := compute_retry_after_ms (rd_mode decision) failure_count,
              rd_failure_count := failure_count\<rparr>"

section \<open>Reflection\<close>

definition RecoveryDecision :: "string \<Rightarrow> string \<Rightarrow> string \<Rightarrow> recovery_decision" where
  "RecoveryDecision run_id mode reason =
     \<lparr>rd_run_id = run_id, rd_mode = mode, rd_reason = reason, rd_compensation_action_id = None,
      rd_escalation_channel_ref = None, rd_corrected_action = None, rd_retry_after_ms = None,
      rd_failure_count = 0\<rparr>"

definition should_reflect :: "('s, 'b, 'w) recovery_gate \<Rightarrow> recovery_input \<Rightarrow> string \<Rightarrow> bool" where
  "should_reflect g x mode =
     (case (rg_reflection_policy g, rg_reasoning_loop g, rg_reflection_builder g) of
        (Some policy, Some _, Some _) \<Rightarrow>
          if mode \<notin> {''static_compensation'', ''abort''} then False
          else if \<not> is_reflectable policy (ri_reason_code x) then False
          else ri_reflection_round x < rp_max_rounds policy
      | _ \<Rightarrow> False)"

definition fallback_decision :: "reflection_policy \<Rightarrow> recovery_input \<Rightarrow> string \<Rightarrow> recovery_decision" where
  "fallback_decision policy x base_reason =
     (if rp_escalate_on_exhaustion policy
      then RecoveryDecision (ri_run_id x) ''human_escalation'' (base_reason @ '':reflect_exhausted:escalated'')
      else RecoveryDecision (ri_run_id x) ''abort'' (base_reason @ '':reflect_exhausted:aborted''))"

definition decide_reflect_and_retry ::
  "('s, 'b, 'w) recovery_gate \<Rightarrow> recovery_input \<Rightarrow> string \<Rightarrow> 'w \<Rightarrow> 'w \<times> recovery_decision result" where
  "decide_reflect_and_retry g x base_reason env =
     (case (rg_reflection_policy g, rg_reasoning_loop g, rg_reflection_builder g) of
        (Some policy, Some run_once, Some build) \<Rightarrow>
          let reflection_round = ri_reflection_round x + 1;
              enriched_context = build (build_evidence_from_input x) [] (ContextWindow []) reflection_round;
              config = (case rg_default_inference_config g of
                 None \<Rightarrow> InferenceConfig ''gpt-4o-mini'' | Some c \<Rightarrow> c);
              based_on_offset = pr_projected_offset (ri_projection x);
              snapshot = (case ri_capability_snapshot x of
                 Some s \<Rightarrow> Inr s
               | None \<Rightarrow> build_snapshot (rg_utc_now g env)
                   (CapabilitySnapshotInput (ri_run_id x) based_on_offset ''policy:default'' ''strict''));
              key = ri_run_id x @ '':'' @ show_int based_on_offset @ '':reflection:'' @ show_int reflection_round
          in (case snapshot of
                Inl e \<Rightarrow> (env, Inl e)
              | Inr snap \<Rightarrow>
                  (case run_once env (ri_run_id x) snap [] config enriched_context key of
                     (env', Inl e) \<Rightarrow> (env', Inr (fallback_decision policy x base_reason))
                   | (env', Inr actions) \<Rightarrow>
                       (env',
                        Inr (case actions of
                               [] \<Rightarrow> fallback_decision policy x base_reason
                             | corrected # _ \<Rightarrow>
                                 (RecoveryDecision (ri_run_id x) ''reflect_and_retry''
                                    (base_reason @ '':reflect_and_retry:round='' @ show_int reflection_round))
                                   \<lparr>rd_corrected_action := Some corrected\<rparr>))))
      | _ \<Rightarrow> (env, Inl (OtherError ''AssertionError'' [])))"

section \<open>The decision\<close>

definition extract_effect_class :: "recovery_input \<Rightarrow> string option" where
  "extract_effect_class x =
     (let reason = lower (ri_reason_code x)
      in if CHR '':'' \<in> set reason then Some (takeWhile (\<lambda>c. c \<noteq> CHR '':'') reason) else None)"

text \<open>
  The mode, reason and references in force after the compensation check.  \<open>failing_action\<close> is
  what \<^verbatim>\<open>getattr(recovery_input, "failing_action", None)\<close> gives: \<open>None\<close> for every
  \<^verbatim>\<open>RecoveryInput\<close>, which has no such field.
\<close>

definition check_compensation ::
  "('s, 'b, 'w) recovery_gate \<Rightarrow> action option \<Rightarrow> recovery_input \<Rightarrow> recovery_plan \<Rightarrow> string
     \<Rightarrow> ('s, 'w) compensation_world
     \<Rightarrow> ('s, 'w) compensation_world \<times> string \<times> string \<times> string option \<times> string option" where
  "check_compensation g failing_action x plan mode w =
     (let unchanged = (mode, pl_reason plan, pl_compensation_action_id plan, pl_escalation_channel_ref plan)
      in case (rg_compensation_registry g, extract_effect_class x) of
        (Some entries, Some e) \<Rightarrow>
          if mode \<noteq> ''static_compensation'' then (w, unchanged)
          else if \<not> has_handler entries e
          then (w, ''abort'', pl_reason plan @ '':no_compensation_handler'', None, None)
          else (case failing_action of
                  None \<Rightarrow> (w, unchanged)
                | Some a \<Rightarrow>
                    (case execute_compensation entries (rg_dedupe_store g) (rg_randint g) a True w of
                       (w', Inr _) \<Rightarrow> (w', unchanged)
                     | (w', Inl err) \<Rightarrow>
                         (w', ''human_escalation'', pl_reason plan @ '':compensation_exhausted'', None,
                          pl_escalation_channel_ref plan)))
      | _ \<Rightarrow> (w, unchanged))"

text \<open>
  \<open>t_check\<close> and \<open>t_record\<close> are the clock readings at the circuit check and at the recording of
  the failure.
\<close>

definition decide ::
  "('s, 'b, 'w) recovery_gate \<Rightarrow> action option \<Rightarrow> rat \<Rightarrow> rat \<Rightarrow> recovery_input \<Rightarrow> ('s, 'b, 'w) gate_state
     \<Rightarrow> ('s, 'b, 'w) gate_state \<times> recovery_decision result" where
  "decide g failing_action t_check t_record x st =
     (let failure_count = dict_get_or (gs_failure_counts st) (ri_run_id x) 0 + 1;
          st = st\<lparr>gs_failure_counts := dict_set (ri_run_id x) failure_count (gs_failure_counts st)\<rparr>
      in case is_circuit_open g st t_check (ri_failed_effect_class x) of
           Inl e \<Rightarrow> (st, Inl e)
         | Inr True \<Rightarrow>
             (st, Inr ((RecoveryDecision (ri_run_id x) ''abort'' (ri_reason_code x @ '':circuit_open''))
                         \<lparr>rd_failure_count := failure_count\<rparr>))
         | Inr False \<Rightarrow>
             (case build_plan_from_input (rg_policy g) x of
                Inl e \<Rightarrow> (st, Inl e)
              | Inr plan \<Rightarrow>
                  (case get_mode (rg_modes g) (pl_action plan) of
                     None \<Rightarrow> (st, Inl (ValueError (''unsupported recovery plan action: '' @ pl_action plan)))
                   | Some mode0 \<Rightarrow>
                       (case check_compensation g failing_action x plan mode0 (gs_world st) of
                          (w1, mode, reason, comp_id, esc_ref) \<Rightarrow>
                            let st = st\<lparr>gs_world := w1\<rparr>
                            in if should_reflect g x mode
                               then (case decide_reflect_and_retry g x reason (cw_env w1) of
                                       (env', r) \<Rightarrow>
                                         (st\<lparr>gs_world := w1\<lparr>cw_env := env'\<rparr>\<rparr>,
                                          bind_result r (\<lambda>d. Inr (attach_backoff d failure_count))))
                               else
                                 let d = \<lparr>rd_run_id = pl_run_id plan, rd_mode = mode, rd_reason = reason,
                                          rd_compensation_action_id = comp_id,
                                          rd_escalation_channel_ref = esc_ref, rd_corrected_action = None,
                                          rd_retry_after_ms = compute_retry_after_ms mode failure_count,
                                          rd_failure_count = failure_count\<rparr>
                                 in (case record_circuit_failure g st t_record (ri_failed_effect_class x) of
                                       (st', r) \<Rightarrow> (st', bind_result r (\<lambda>_. Inr d)))))))"

section \<open>The services of the minimal runtime\<close>

record static_recovery_policy =
  sr_mode :: string
  sr_reason_prefix :: string

definition static_decide :: "static_recovery_policy \<Rightarrow> recovery_input \<Rightarrow> recovery_decision" where
  "static_decide policy x =
     RecoveryDecision (ri_run_id x) (sr_mode policy) (sr_reason_prefix policy @ '':'' @ ri_reason_code x)"

type_synonym decision_deduper = "string list"

definition deduper_seen :: "decision_deduper \<Rightarrow> string \<Rightarrow> bool" where
  "deduper_seen fingerprints fingerprint = (fingerprint \<in> set fingerprints)"

definition deduper_mark :: "decision_deduper \<Rightarrow> string \<Rightarrow> decision_deduper" where
  "deduper_mark fingerprints fingerprint = List.insert fingerprint fingerprints"

type_synonym outcome_store = "(string, recovery_outcome list) dict"

definition write_outcome :: "outcome_store \<Rightarrow> recovery_outcome \<Rightarrow> outcome_store" where
  "write_outcome s outcome =
     dict_set (ro_run_id outcome) (dict_get_or s (ro_run_id outcome) [] @ [outcome]) s"

definition latest_for_run :: "outcome_store \<Rightarrow> string \<Rightarrow> recovery_outcome option" where
  "latest_for_run s run_id =
     (let run_outcomes = dict_get_or s run_id []
      in if run_outcomes = [] then None else Some (last run_outcomes))"

section \<open>Properties of the gate\<close>

definition retryable_modes :: "string set" where
  "retryable_modes = {''static_compensation'', ''reflect_and_retry''}"

lemma retry_after_eq:
  assumes "1 \<le> n"
  shows "compute_retry_after_ms mode n =
    (if mode \<in> retryable_modes then Some (min (500 * 2 ^ nat (min (n - 1) 16)) 30000) else None)"
proof -
  have "(2 powi min (n - 1) 16 :: rat) = 2 ^ nat (min (n - 1) 16)"
    using assms by (simp add: power_int_def)
  then have "of_int BACKOFF_BASE_MS * (2 powi min (n - 1) 16 :: rat) = of_int (500 * 2 ^ nat (min (n - 1) 16))"
    by (simp add: BACKOFF_BASE_MS_def)
  then have "\<lfloor>of_int BACKOFF_BASE_MS * (2 powi min (n - 1) 16 :: rat)\<rfloor> = 500 * 2 ^ nat (min (n - 1) 16)"
    by (simp only: floor_of_int)
  then show ?thesis by (simp add: compute_retry_after_ms_def retryable_modes_def BACKOFF_MAX_MS_def Let_def)
qed

text \<open>
  The backoff of a retryable decision starts at half a second, doubles with every failure
  of the run, never decreases and is capped at thirty seconds, which it reaches at the seventh
  failure; other modes carry no backoff.
\<close>

theorem backoff_bounds:
  assumes "1 \<le> n" "n \<le> n'" "mode \<in> retryable_modes"
  shows "\<exists>d d'. compute_retry_after_ms mode n = Some d \<and> compute_retry_after_ms mode n' = Some d'
    \<and> 500 \<le> d \<and> d \<le> d' \<and> d' \<le> 30000
    \<and> (n' \<le> 6 \<longrightarrow> d' = 500 * 2 ^ nat (n' - 1)) \<and> (7 \<le> n' \<longrightarrow> d' = 30000)
    \<and> (\<forall>other. other \<notin> retryable_modes \<longrightarrow> compute_retry_after_ms other n = None)"
proof -
  let ?f = "\<lambda>k. min (500 * 2 ^ nat (min (k - 1) 16)) 30000 :: int"
  have mono: "?f n \<le> ?f n'"
  proof -
    have "(2::int) ^ nat (min (n - 1) 16) \<le> 2 ^ nat (min (n' - 1) 16)"
      using assms(2) by (intro power_increasing) auto
    then have "500 * (2::int) ^ nat (min (n - 1) 16) \<le> 500 * 2 ^ nat (min (n' - 1) 16)"
      by (rule mult_left_mono) simp
    then show ?thesis by (rule min.mono) simp
  qed
  have one: "(1::int) \<le> 2 ^ k" for k :: nat by simp
  have low: "500 \<le> ?f n" using one [of "nat (min (n - 1) 16)"] by simp
  have small: "?f n' = 500 * 2 ^ nat (n' - 1)" if "n' \<le> 6"
  proof -
    have "(2::int) ^ nat (n' - 1) \<le> 2 ^ 5" using that by (intro power_increasing) auto
    with that show ?thesis by (simp add: min_absorb1)
  qed
  have big: "?f n' = 30000" if "7 \<le> n'"
  proof -
    have "(2::int) ^ 6 \<le> 2 ^ nat (min (n' - 1) 16)" using that by (intro power_increasing) auto
    then show ?thesis by simp
  qed
  have none: "compute_retry_after_ms other n = None" if "other \<notin> retryable_modes" for other
    using that by (simp add: compute_retry_after_ms_def retryable_modes_def)
  show ?thesis
    using assms low mono small big none by (simp add: retry_after_eq)
qed

theorem backoff_bounds_witness:
  "\<exists>d d'. compute_retry_after_ms ''static_compensation'' 3 = Some d
    \<and> compute_retry_after_ms ''static_compensation'' 9 = Some d' \<and> d \<le> d' \<and> d' = 30000"
  using backoff_bounds [of 3 9 "''static_compensation''"] by (auto simp: retryable_modes_def)

text \<open>Requests to the gate, one after the other: clock readings and input of each.\<close>

fun decide_all ::
  "('s, 'b, 'w) recovery_gate \<Rightarrow> (rat \<times> rat \<times> recovery_input) list \<Rightarrow> ('s, 'b, 'w) gate_state
     \<Rightarrow> ('s, 'b, 'w) gate_state \<times> recovery_decision result list" where
  "decide_all g [] st = (st, [])"
| "decide_all g ((t, t', x) # reqs) st =
     (case decide g None t t' x st of (st1, d) \<Rightarrow>
        case decide_all g reqs st1 of (st2, ds) \<Rightarrow> (st2, d # ds))"

lemma decide_open:
  assumes "rg_circuit_breaker_policy g = Some policy" "rg_circuit_breaker_store g = None"
    "ri_failed_effect_class x = Some e" "state_is_open policy t (counters_get_state (gs_counters st) e)"
  shows "decide g fa t t' x st =
    (let n = dict_get_or (gs_failure_counts st) (ri_run_id x) 0 + 1
     in (st\<lparr>gs_failure_counts := dict_set (ri_run_id x) n (gs_failure_counts st)\<rparr>,
         Inr ((RecoveryDecision (ri_run_id x) ''abort'' (ri_reason_code x @ '':circuit_open''))\<lparr>rd_failure_count := n\<rparr>)))"
  using assms by (simp add: decide_def is_circuit_open_def Let_def)

text \<open>
  While the circuit of an effect class is open, every request for it is answered with an
  abort without planning, compensating or reasoning, and leaves counts and times of the breaker
  alone: rejected requests never postpone the half-open probe, however many there are.
\<close>

theorem open_circuit_rejects:
  assumes "rg_circuit_breaker_policy g = Some policy" "rg_circuit_breaker_store g = None"
    "list_all (\<lambda>(t, t', x). ri_failed_effect_class x = Some e
       \<and> state_is_open policy t (counters_get_state (gs_counters st) e)) reqs"
    "decide_all g reqs st = (st', ds)"
  shows "gs_counters st' = gs_counters st \<and> gs_world st' = gs_world st
    \<and> length ds = length reqs
    \<and> list_all (\<lambda>d. case d of Inl _ \<Rightarrow> False | Inr d \<Rightarrow> rd_mode d = ''abort'' \<and> rd_retry_after_ms d = None) ds"
  using assms(3,4)
proof (induction reqs arbitrary: st ds)
  case Nil
  then show ?case by simp
next
  case (Cons r reqs)
  obtain t t' x where r: "r = (t, t', x)" by (rule prod_cases3)
  define n where "n = dict_get_or (gs_failure_counts st) (ri_run_id x) 0 + 1"
  have d: "decide g None t t' x st =
      (st\<lparr>gs_failure_counts := dict_set (ri_run_id x) n (gs_failure_counts st)\<rparr>,
       Inr ((RecoveryDecision (ri_run_id x) ''abort'' (ri_reason_code x @ '':circuit_open''))\<lparr>rd_failure_count := n\<rparr>))"
    using decide_open [OF assms(1,2), of x e t st None t'] Cons.prems(1) r by (auto simp: n_def Let_def)
  obtain ds' where "decide_all g reqs (st\<lparr>gs_failure_counts := dict_set (ri_run_id x) n (gs_failure_counts st)\<rparr>) = (st', ds')"
    and ds: "ds = Inr ((RecoveryDecision (ri_run_id x) ''abort'' (ri_reason_code x @ '':circuit_open''))\<lparr>rd_failure_count := n\<rparr>) # ds'"
    using Cons.prems(2) r d by (auto split: prod.splits)
  from Cons.IH [OF _ this(1)] Cons.prems(1) ds r show ?case
    by (simp add: RecoveryDecision_def)
qed

definition sample_recovery_input :: "string \<Rightarrow> recovery_input" where
  "sample_recovery_input reason =
     \<lparr>ri_run_id = ''r1'', ri_reason_code = reason, ri_lifecycle_state = Recovering,
      ri_projection = \<lparr>pr_run_id = ''r1'', pr_lifecycle_state = Recovering, pr_projected_offset = 4,
        pr_waiting_external = False, pr_ready_for_dispatch = False, pr_current_action_id = Some ''a1'',
        pr_recovery_mode = None, pr_recovery_reason = None, pr_active_child_runs = [],
        pr_policy_versions = None, pr_task_contract_ref = None\<rparr>,
      ri_failed_action_id = Some ''a1'', ri_reflection_round = 0, ri_capability_snapshot = None,
      ri_failed_effect_class = Some ''payment''\<rparr>"

definition sample_gate :: "(dedupe_mem, breaker_table, unit) recovery_gate" where
  "sample_gate =
     \<lparr>rg_policy = PlannerHeuristicPolicy, rg_modes = KERNEL_RECOVERY_MODE_REGISTRY,
      rg_compensation_registry = None, rg_reflection_policy = None, rg_reasoning_loop = None,
      rg_reflection_builder = None, rg_default_inference_config = None,
      rg_circuit_breaker_policy = Some \<lparr>cb_threshold = 1, cb_half_open_after_ms = 500\<rparr>,
      rg_circuit_breaker_store = None, rg_dedupe_store = None, rg_randint = (\<lambda>_. 0), rg_utc_now = (\<lambda>_. ''now'')\<rparr>"

definition sample_gate_state :: "(string, int) dict \<Rightarrow> (string, rat) dict \<Rightarrow> (dedupe_mem, breaker_table, unit) gate_state" where
  "sample_gate_state counts stamps =
     \<lparr>gs_failure_counts = [],
      gs_counters = \<lparr>bc_circuit_failures = counts, bc_circuit_last_failure_mono = stamps\<rparr>, gs_breaker = [],
      gs_world = \<lparr>cw_store = [], cw_env = (), cw_calls = [], cw_sleeps = []\<rparr>\<rparr>"

theorem open_circuit_rejects_witness:
  "let st = sample_gate_state [(''payment'', 3)] [(''payment'', 10)];
       x = sample_recovery_input ''executor_transient''
   in gs_counters (fst (decide_all sample_gate [(10, 10, x), (10, 10, x)] st)) = gs_counters st
    \<and> length (snd (decide_all sample_gate [(10, 10, x), (10, 10, x)] st)) = 2"
proof -
  let ?st = "sample_gate_state [(''payment'', 3)] [(''payment'', 10)]"
  let ?x = "sample_recovery_input ''executor_transient''"
  have "state_is_open \<lparr>cb_threshold = 1, cb_half_open_after_ms = 500\<rparr> 10 (counters_get_state (gs_counters ?st) ''payment'')"
    by code_simp
  then have "list_all (\<lambda>(t, t', x). ri_failed_effect_class x = Some ''payment''
       \<and> state_is_open \<lparr>cb_threshold = 1, cb_half_open_after_ms = 500\<rparr> t (counters_get_state (gs_counters ?st) ''payment''))
       [(10, 10, ?x), (10, 10, ?x)]"
    by (simp add: sample_recovery_input_def)
  from open_circuit_rejects [OF _ _ this surjective_pairing [of "decide_all sample_gate [(10, 10, ?x), (10, 10, ?x)] ?st"]]
  show ?thesis by (simp add: sample_gate_def)
qed

text \<open>How a decision comes about: from an open circuit, from reflection, or from the plan.\<close>

lemma decide_cases:
  assumes "decide g fa t t' x st = (st', Inr d)"
  obtains
    (opened) "d = (RecoveryDecision (ri_run_id x) ''abort'' (ri_reason_code x @ '':circuit_open''))
        \<lparr>rd_failure_count := dict_get_or (gs_failure_counts st) (ri_run_id x) 0 + 1\<rparr>"
      "gs_failure_counts st' =
         dict_set (ri_run_id x) (dict_get_or (gs_failure_counts st) (ri_run_id x) 0 + 1) (gs_failure_counts st)"
      "is_circuit_open g (st\<lparr>gs_failure_counts := dict_set (ri_run_id x)
         (dict_get_or (gs_failure_counts st) (ri_run_id x) 0 + 1) (gs_failure_counts st)\<rparr>) t (ri_failed_effect_class x) = Inr True"
  | (planned) plan mode0 w1 mode reason comp_id esc_ref
    where "build_plan_from_input (rg_policy g) x = Inr plan" "get_mode (rg_modes g) (pl_action plan) = Some mode0"
      "check_compensation g fa x plan mode0 (gs_world st) = (w1, mode, reason, comp_id, esc_ref)"
      "gs_failure_counts st' =
         dict_set (ri_run_id x) (dict_get_or (gs_failure_counts st) (ri_run_id x) 0 + 1) (gs_failure_counts st)"
      "if should_reflect g x mode
       then \<exists>env' d0. decide_reflect_and_retry g x reason (cw_env w1) = (env', Inr d0)
              \<and> d = attach_backoff d0 (dict_get_or (gs_failure_counts st) (ri_run_id x) 0 + 1)
       else d = \<lparr>rd_run_id = pl_run_id plan, rd_mode = mode, rd_reason = reason, rd_compensation_action_id = comp_id,
              rd_escalation_channel_ref = esc_ref, rd_corrected_action = None,
              rd_retry_after_ms = compute_retry_after_ms mode (dict_get_or (gs_failure_counts st) (ri_run_id x) 0 + 1),
              rd_failure_count = dict_get_or (gs_failure_counts st) (ri_run_id x) 0 + 1\<rparr>"
proof -
  let ?n = "dict_get_or (gs_failure_counts st) (ri_run_id x) 0 + 1"
  let ?st = "st\<lparr>gs_failure_counts := dict_set (ri_run_id x) ?n (gs_failure_counts st)\<rparr>"
  have keep: "gs_failure_counts (fst (record_circuit_failure g s tt ee)) = gs_failure_counts s" for s tt ee
    by (auto simp: record_circuit_failure_def split: option.splits prod.splits)
  obtain c where c: "is_circuit_open g ?st t (ri_failed_effect_class x) = Inr c"
    using assms by (auto simp: decide_def Let_def split: sum.splits)
  show thesis
  proof (cases c)
    case True
    with assms c show thesis by (intro opened) (auto simp: decide_def Let_def)
  next
    case False
    obtain plan mode0 where plan: "build_plan_from_input (rg_policy g) x = Inr plan"
      "get_mode (rg_modes g) (pl_action plan) = Some mode0"
      using assms c False by (auto simp: decide_def Let_def split: sum.splits option.splits)
    obtain w1 mode reason comp_id esc_ref where
      comp: "check_compensation g fa x plan mode0 (gs_world st) = (w1, mode, reason, comp_id, esc_ref)"
      by (rule prod_cases5)
    show thesis
    proof (cases "should_reflect g x mode")
      case True
      obtain env' r where "decide_reflect_and_retry g x reason (cw_env w1) = (env', r)" by fastforce
      with assms c False plan comp True show thesis
        by (intro planned [OF plan comp]) (auto simp: decide_def Let_def elim!: bind_result_InrE)
    next
      case no: False
      obtain s2 r where r: "record_circuit_failure g (?st\<lparr>gs_world := w1\<rparr>) t' (ri_failed_effect_class x) = (s2, r)"
        by fastforce
      have "gs_failure_counts s2 = gs_failure_counts ?st"
        using keep [of "?st\<lparr>gs_world := w1\<rparr>" t' "ri_failed_effect_class x"] r by simp
      with assms c False plan comp no r show thesis
        by (intro planned [OF plan comp]) (auto simp: decide_def Let_def elim!: bind_result_InrE)
    qed
  qed
qed

lemma reflect_decision:
  assumes "decide_reflect_and_retry g x reason env = (env', Inr d)"
  shows "rd_run_id d = ri_run_id x
    \<and> (rd_mode d = ''reflect_and_retry'' \<and> rd_corrected_action d \<noteq> None
       \<or> rd_mode d \<in> {''human_escalation'', ''abort''} \<and> rd_corrected_action d = None)"
proof -
  obtain policy run_once build where g: "rg_reflection_policy g = Some policy" "rg_reasoning_loop g = Some run_once"
    "rg_reflection_builder g = Some build"
    using assms by (auto simp: decide_reflect_and_retry_def split: option.splits)
  have fb: "rd_run_id (fallback_decision policy x reason) = ri_run_id x"
    "rd_mode (fallback_decision policy x reason) \<in> {''human_escalation'', ''abort''}"
    "rd_corrected_action (fallback_decision policy x reason) = None"
    by (simp_all add: fallback_decision_def RecoveryDecision_def)
  have "d = fallback_decision policy x reason \<or> (\<exists>msg a. d = (RecoveryDecision (ri_run_id x) ''reflect_and_retry'' msg)
      \<lparr>rd_corrected_action := Some a\<rparr>)"
    using assms g by (auto simp: decide_reflect_and_retry_def Let_def split: sum.splits prod.splits list.splits)
  with fb show ?thesis by (auto simp: RecoveryDecision_def)
qed

lemma check_compensation_mode:
  assumes "check_compensation g fa x plan mode0 w = (w1, mode, reason, comp_id, esc_ref)"
  shows "mode = mode0 \<or> mode = ''abort'' \<or> mode = ''human_escalation''"
    "mode = ''static_compensation'' \<Longrightarrow> rg_compensation_registry g = Some entries
       \<Longrightarrow> extract_effect_class x = Some e \<Longrightarrow> has_handler entries e"
  using assms by (auto simp: check_compensation_def Let_def split: option.splits if_splits sum.splits prod.splits)

lemma builtin_mode:
  assumes "get_mode KERNEL_RECOVERY_MODE_REGISTRY action = Some mode"
  shows "mode \<in> {''static_compensation'', ''human_escalation'', ''abort''}"
  using assms by (simp add: kernel_registry_eq get_mode_def BUILTIN_MAPPINGS_def dict_get_def split: if_splits)

lemma plan_run_id: "build_plan_from_input pol x = Inr plan \<Longrightarrow> pl_run_id plan = ri_run_id x"
  by (auto simp: build_plan_from_input_def Let_def split: if_splits)

definition next_failure_count :: "('s, 'b, 'w) gate_state \<Rightarrow> recovery_input \<Rightarrow> int" where
  "next_failure_count st x = dict_get_or (gs_failure_counts st) (ri_run_id x) 0 + 1"

text \<open>
  Every decision of a gate with the built-in modes is well formed. It is for the run
  that failed and carries the next failure count of that run, which the gate remembers; it has a
  backoff exactly in a retryable mode; it asks for a reflected retry only with a corrected action,
  for a reflectable reason and below the round limit; and it asks for compensation only if no
  registry rules it out.
\<close>

theorem decision_well_formed:
  assumes "rg_modes g = KERNEL_RECOVERY_MODE_REGISTRY"
    "decide g failing_action t t' x st = (st', Inr d)"
  shows "rd_run_id d = ri_run_id x
    \<and> rd_failure_count d = next_failure_count st x
    \<and> dict_get (gs_failure_counts st') (ri_run_id x) = Some (next_failure_count st x)
    \<and> (rd_retry_after_ms d \<noteq> None) = (rd_mode d \<in> retryable_modes)
    \<and> (rd_mode d = ''reflect_and_retry'' \<longrightarrow> rd_corrected_action d \<noteq> None
        \<and> (\<exists>policy. rg_reflection_policy g = Some policy \<and> is_reflectable policy (ri_reason_code x)
             \<and> ri_reflection_round x < rp_max_rounds policy))
    \<and> (rd_mode d = ''static_compensation'' \<longrightarrow>
        (\<forall>entries e. rg_compensation_registry g = Some entries \<longrightarrow> extract_effect_class x = Some e
           \<longrightarrow> has_handler entries e))"
  using assms(2)
proof (cases rule: decide_cases)
  case opened
  then show ?thesis by (simp add: RecoveryDecision_def next_failure_count_def retryable_modes_def)
next
  case (planned plan mode0 w1 mode reason comp_id esc_ref)
  have retry: "(compute_retry_after_ms m n \<noteq> None) = (m \<in> retryable_modes)" for m n
    by (simp add: compute_retry_after_ms_def retryable_modes_def Let_def)
  have count: "dict_get (gs_failure_counts st') (ri_run_id x) = Some (next_failure_count st x)"
    using planned(4) by (simp add: next_failure_count_def)
  show ?thesis
  proof (cases "should_reflect g x mode")
    case True
    then obtain env' d0 where d0: "decide_reflect_and_retry g x reason (cw_env w1) = (env', Inr d0)"
      and d: "d = attach_backoff d0 (next_failure_count st x)"
      using planned(5) by (auto simp: next_failure_count_def)
    from True have "\<exists>policy. rg_reflection_policy g = Some policy \<and> is_reflectable policy (ri_reason_code x)
        \<and> ri_reflection_round x < rp_max_rounds policy"
      by (auto simp: should_reflect_def split: option.splits if_splits)
    with reflect_decision [OF d0] d count retry show ?thesis
      by (auto simp: attach_backoff_def)
  next
    case False
    then have d: "rd_run_id d = ri_run_id x" "rd_mode d = mode" "rd_failure_count d = next_failure_count st x"
      "rd_retry_after_ms d = compute_retry_after_ms mode (next_failure_count st x)"
      using planned(5) plan_run_id [OF planned(1)] by (simp_all add: next_failure_count_def)
    have "mode \<noteq> ''reflect_and_retry''"
      using check_compensation_mode(1) [OF planned(3)] builtin_mode planned(2) assms(1) by auto
    with d count retry check_compensation_mode(2) [OF planned(3)] show ?thesis by auto
  qed
qed

theorem decision_well_formed_witness:
  "\<exists>st' d. decide sample_gate None 10 10 (sample_recovery_input ''executor_transient'') (sample_gate_state [] []) = (st', Inr d)
     \<and> rd_failure_count d = 1 \<and> rd_run_id d = ''r1''"
proof -
  let ?run = "decide sample_gate None 10 10 (sample_recovery_input ''executor_transient'') (sample_gate_state [] [])"
  have "is_ok (snd ?run)" by code_simp
  then obtain st' d where run: "?run = (st', Inr d)"
    by (cases ?run; cases "snd ?run") auto
  have "rg_modes sample_gate = KERNEL_RECOVERY_MODE_REGISTRY" by (simp add: sample_gate_def)
  from decision_well_formed [OF this run] run show ?thesis
    by (simp add: next_failure_count_def sample_gate_state_def sample_recovery_input_def)
qed

text \<open>
  The gate translates plans faithfully. For a gate with the default policy and the
  built-in modes, without compensation registry and reflection, the decision made while the
  circuit is closed maps back, through the planner's own reading of decisions, to the very plan
  the planner made of the failure.
\<close>

theorem decision_maps_back_to_plan:
  assumes "rg_policy g = PlannerHeuristicPolicy" "rg_modes g = KERNEL_RECOVERY_MODE_REGISTRY"
    "rg_compensation_registry g = None" "rg_reflection_policy g = None"
    "is_circuit_open g (st\<lparr>gs_failure_counts := dict_set (ri_run_id x) (next_failure_count st x) (gs_failure_counts st)\<rparr>)
       t (ri_failed_effect_class x) = Inr False"
    "decide g failing_action t t' x st = (st', Inr d)"
  shows "build_plan d (ri_projection x) = build_plan_from_input PlannerHeuristicPolicy x"
  using assms(6)
proof (cases rule: decide_cases)
  case opened
  with assms(5) show ?thesis by (simp add: next_failure_count_def)
next
  case (planned plan mode0 w1 mode reason comp_id esc_ref)
  have same: "mode = mode0" "reason = pl_reason plan" "comp_id = pl_compensation_action_id plan"
    "esc_ref = pl_escalation_channel_ref plan"
    using planned(3) assms(3) by (simp_all add: check_compensation_def)
  have "\<not> should_reflect g x mode" by (simp add: should_reflect_def assms(4))
  with planned(5) same have d: "rd_run_id d = pl_run_id plan" "rd_mode d = mode0" "rd_reason d = pl_reason plan"
    "rd_compensation_action_id d = pl_compensation_action_id plan"
    "rd_escalation_channel_ref d = pl_escalation_channel_ref plan" by simp_all
  note shape = default_plan_shape [OF planned(1) [unfolded assms(1)]]
  have run: "rd_run_id d = pr_run_id (ri_projection x)"
    using d(1) plan_run_id [OF planned(1)] shape(2) by simp
  have mode: "mode0 = (if pl_action plan = ''schedule_compensation'' then ''static_compensation''
      else if pl_action plan = ''notify_human_operator'' then ''human_escalation'' else ''abort'')"
    using planned(2) shape(1) by (auto simp: assms(2) kernel_registry_eq get_mode_def BUILTIN_MAPPINGS_def
        dict_get_def plan_shape_def)
  consider "pl_action plan = ''notify_human_operator''" "pl_compensation_action_id plan = None"
    | "pl_action plan = ''schedule_compensation''" "pl_escalation_channel_ref plan = None"
    | "pl_action plan = ''abort_run''" "pl_compensation_action_id plan = None" "pl_escalation_channel_ref plan = None"
    using shape(1) unfolding plan_shape_def by (elim conjE disjE) simp_all
  then have "build_plan d (ri_projection x) = Inr plan"
    by cases (use run d mode in \<open>simp_all add: build_plan_def recovery_plan.equality\<close>)
  with planned(1) assms(1) show ?thesis by simp
qed

theorem decision_maps_back_to_plan_witness:
  "\<exists>st' d. decide sample_gate None 10 10 (sample_recovery_input ''requires_human_ok'') (sample_gate_state [] []) = (st', Inr d)
     \<and> build_plan d (ri_projection (sample_recovery_input ''requires_human_ok''))
         = build_plan_from_input PlannerHeuristicPolicy (sample_recovery_input ''requires_human_ok'')"
proof -
  let ?x = "sample_recovery_input ''requires_human_ok''"
  let ?st = "sample_gate_state [] []"
  let ?run = "decide sample_gate None 10 10 ?x ?st"
  have "is_ok (snd ?run)" by code_simp
  then obtain st' d where run: "?run = (st', Inr d)"
    by (cases ?run; cases "snd ?run") auto
  have shut: "is_circuit_open sample_gate (?st\<lparr>gs_failure_counts :=
      dict_set (ri_run_id ?x) (next_failure_count ?st ?x) (gs_failure_counts ?st)\<rparr>) 10 (ri_failed_effect_class ?x) = Inr False"
    by code_simp
  have "rg_policy sample_gate = PlannerHeuristicPolicy" "rg_modes sample_gate = KERNEL_RECOVERY_MODE_REGISTRY"
    "rg_compensation_registry sample_gate = None" "rg_reflection_policy sample_gate = None"
    by (simp_all add: sample_gate_def)
  from decision_maps_back_to_plan [OF this shut run] run show ?thesis by blast
qed

text \<open>
  A \<^verbatim>\<open>RecoveryInput\<close> has no failing action, so a gate decision never runs a compensation handler.
\<close>

lemma gate_runs_no_compensation:
  "cw_calls (gs_world (fst (decide g None t t' x st))) = cw_calls (gs_world st)"
proof -
  have keep: "gs_world (fst (record_circuit_failure g s tt ee)) = gs_world s" for s tt ee
    by (auto simp: record_circuit_failure_def split: option.splits prod.splits)
  have same: "fst (check_compensation g None x plan mode w) = w" for plan mode w
    by (auto simp: check_compensation_def Let_def split: option.splits)
  have fst_eq: "fst (case p of (a, b) \<Rightarrow> (f a b, h a b)) = f (fst p) (snd p)"
    for p :: "'k \<times> 'l" and f :: "'k \<Rightarrow> 'l \<Rightarrow> 'm" and h :: "'k \<Rightarrow> 'l \<Rightarrow> 'n"
    by (cases p) simp
  show ?thesis
    using same keep
    by (auto simp: decide_def Let_def fst_eq split: sum.splits bool.splits option.splits prod.splits)
      (metis fst_conv)+
qed

end
