(* ===== verification/Run_Actor.thy ===== *)
theory Run_Actor
  imports Kernel_Effects Projection Turn_Engine Recovery_Gate
begin

text \<open>
  \<^verbatim>\<open>substrate/temporal/run_actor_workflow.py\<close>: the actor that owns the lifecycle of one run, and
  \<^verbatim>\<open>kernel/peer_auth.py\<close>.  The services the actor is built from are shared by all runs: the event
  log (any log, through its two calls), the projection service, the decision deduper, the turn
  engine with its ledger, and the recovery gate, which sees the log and the environment.  The
  environment of the injected services also tells the time.  Whether the code runs inside a
  Temporal workflow is an argument; the wait for a terminal state inside a workflow is the
  sequence of the calls, and the signal to a parent workflow is recorded as sent.
\<close>

section \<open>Data\<close>

record actor_signal =
  sig_signal_type :: string
  sig_signal_payload :: "jdict option"
  sig_caused_by :: "string option"
  sig_signal_token :: "string option"
  sig_from_peer_run_id :: "string option"

record run_input =
  in_run_id :: string
  in_session_id :: "string option"
  in_parent_run_id :: "string option"
  in_input_ref :: "string option"
  in_input_json :: "jdict option"
  in_runtime_context_ref :: "string option"
  in_trace_context :: "string option"
  in_pending_signals :: "actor_signal list option"
  in_policy_versions :: "run_policy_versions option"
  in_initial_stage_id :: "string option"
  in_task_contract_ref :: "string option"

record turn_intent_record =
  it_run_id :: string
  it_intent_commit_ref :: string
  it_decision_ref :: string
  it_decision_fingerprint :: string
  it_dispatch_dedupe_key :: "string option"
  it_host_kind :: "host_kind option"
  it_outcome_kind :: turn_outcome_kind
  it_written_at :: string
  it_reflection_round :: int

text \<open>The services, and the state they share.\<close>

record ('l, 's, 'w) actor_services =
  sv_append :: "'l \<Rightarrow> action_commit \<Rightarrow> 'l \<times> string result"
  sv_load :: "'l \<Rightarrow> string \<Rightarrow> int \<Rightarrow> runtime_event list"
  sv_projection :: projection_config
  sv_engine :: "('s, 'w) turn_engine"
  sv_decide :: "'l \<Rightarrow> 'w \<Rightarrow> recovery_input \<Rightarrow> ('l \<times> 'w) \<times> recovery_decision result"
  sv_on_action_success :: "('w \<Rightarrow> string \<Rightarrow> 'w \<times> unit result) option"
  sv_write_intent :: "('w \<Rightarrow> turn_intent_record \<Rightarrow> 'w \<times> unit result) option"
  sv_write_outcome :: "('w \<Rightarrow> recovery_outcome \<Rightarrow> 'w \<times> unit result) option"
  sv_history_event_threshold :: int
  sv_workflow_id_prefix :: string

record ('l, 's, 'w) kernel_state =
  kn_log :: 'l
  kn_projections :: projections
  kn_deduper :: decision_deduper
  kn_turn :: "('s, 'w) turn_world"

text \<open>
  The attributes of one actor.  No call of the actor sets \<^verbatim>\<open>_last_snapshot\<close>, which the peer check
  reads with \<^verbatim>\<open>getattr\<close>.
\<close>

record run_actor =
  ra_run_id :: "string option"
  ra_session_id :: "string option"
  ra_parent_run_id :: "string option"
  ra_policy_versions :: "run_policy_versions option"
  ra_active_stage_id :: "string option"
  ra_last_projection :: "run_projection option"
  ra_last_snapshot :: "capability_snapshot option"
  ra_pending_signals :: "actor_signal list"
  ra_signal_sequence :: int
  ra_seen_signal_tokens :: "string list"
  ra_history_event_count :: int
  ra_continued_as :: "run_input option"
  ra_sent :: "(string \<times> actor_signal) list"

definition RunActorWorkflow :: run_actor where
  "RunActorWorkflow =
     \<lparr>ra_run_id = None, ra_session_id = None, ra_parent_run_id = None, ra_policy_versions = None,
      ra_active_stage_id = None, ra_last_projection = None, ra_last_snapshot = None,
      ra_pending_signals = [], ra_signal_sequence = 0, ra_seen_signal_tokens = [],
      ra_history_event_count = 0, ra_continued_as = None, ra_sent = []\<rparr>"

section \<open>Names\<close>

definition SIGNAL_EVENT_TYPE_MAP :: "(string, string) dict" where
  "SIGNAL_EVENT_TYPE_MAP =
     [(''resume_from_snapshot'', ''run.resume_requested''),
      (''cancel_requested'', ''run.cancel_requested''),
      (''hard_failure'', ''run.recovery_aborted''),
      (''timeout'', ''run.waiting_external''),
      (''recovery_succeeded'', ''run.recovery_succeeded''),
      (''recovery_aborted'', ''run.recovery_aborted''),
      (''plan_submitted'', ''run.plan_submitted''),
      (''approval_submitted'', ''run.approval_submitted''),
      (''speculation_committed'', ''run.speculation_committed''),
      (''child_run_completed'', ''run.child_run_completed'')]"

definition signal_event_type :: "string \<Rightarrow> string" where
  "signal_event_type signal_type =
     (case dict_get SIGNAL_EVENT_TYPE_MAP signal_type of
        Some mapped \<Rightarrow> mapped
      | None \<Rightarrow> ''signal.'' @ signal_type)"

definition normalize_signal_payload :: "string \<Rightarrow> jdict option \<Rightarrow> jdict option" where
  "normalize_signal_payload signal_type signal_payload =
     (let d = (case signal_payload of None \<Rightarrow> [] | Some d \<Rightarrow> d);
          d = (if signal_type = ''cancel_requested''
               then dict_setdefault ''reason'' (JStr ''cancel_requested'') d
               else if signal_type = ''hard_failure''
               then dict_setdefault ''reason'' (JStr ''hard_failure'') (dict_setdefault ''mode'' (JStr ''abort'') d)
               else if signal_type = ''timeout''
               then dict_setdefault ''reason'' (JStr ''timeout'') (dict_setdefault ''mode'' (JStr ''human_escalation'') d)
               else d)
      in if d = [] then None else Some d)"

fun turn_outcome_str :: "turn_outcome_kind \<Rightarrow> string" where
  "turn_outcome_str Outcome_noop = ''noop''"
| "turn_outcome_str Outcome_blocked = ''blocked''"
| "turn_outcome_str Outcome_dispatched = ''dispatched''"
| "turn_outcome_str Outcome_recovery_pending = ''recovery_pending''"

fun turn_outcome_event_type :: "turn_outcome_kind \<Rightarrow> string" where
  "turn_outcome_event_type Outcome_dispatched = ''run.dispatching''"
| "turn_outcome_event_type Outcome_recovery_pending = ''run.recovering''"
| "turn_outcome_event_type Outcome_blocked = ''run.ready''"
| "turn_outcome_event_type Outcome_noop = ''run.ready''"

definition recovery_event_type :: "string \<Rightarrow> string" where
  "recovery_event_type mode =
     (if mode = ''abort'' then ''run.recovery_aborted''
      else if mode = ''human_escalation'' then ''run.waiting_external''
      else ''run.recovering'')"

definition recovery_outcome_state :: "string \<Rightarrow> string" where
  "recovery_outcome_state mode =
     (if mode = ''abort'' then ''aborted''
      else if mode = ''human_escalation'' then ''escalated''
      else ''executed'')"

definition workflow_id_for_parent_run :: "string \<Rightarrow> string \<Rightarrow> string" where
  "workflow_id_for_parent_run parent_run_id workflow_id_prefix =
     (if startswith parent_run_id (workflow_id_prefix @ '':'') then parent_run_id
      else workflow_id_prefix @ '':'' @ parent_run_id)"

definition is_peer_run_authorized :: "string \<Rightarrow> capability_snapshot \<Rightarrow> string list \<Rightarrow> bool" where
  "is_peer_run_authorized peer_run_id snapshot active_child_runs =
     (if sn_peer_run_bindings snapshot \<noteq> [] then peer_run_id \<in> set (sn_peer_run_bindings snapshot)
      else peer_run_id \<in> set active_child_runs)"

section \<open>Payloads\<close>

fun idempotency_level_str :: "external_idempotency_level \<Rightarrow> string" where
  "idempotency_level_str Guaranteed = ''guaranteed''"
| "idempotency_level_str Best_effort = ''best_effort''"
| "idempotency_level_str Unknown_level = ''unknown''"

fun failed_stage_str :: "failed_stage \<Rightarrow> string" where
  "failed_stage_str Stage_admission = ''admission''"
| "failed_stage_str Stage_execution = ''execution''"
| "failed_stage_str Stage_verification = ''verification''"
| "failed_stage_str Stage_reconciliation = ''reconciliation''"
| "failed_stage_str Stage_callback = ''callback''"

fun failure_class_str :: "failure_class \<Rightarrow> string" where
  "failure_class_str Class_deterministic = ''deterministic''"
| "failure_class_str Class_transient = ''transient''"
| "failure_class_str Class_policy = ''policy''"
| "failure_class_str Class_side_effect = ''side_effect''"
| "failure_class_str Class_unknown = ''unknown''"

fun evidence_source_str :: "evidence_source \<Rightarrow> string" where
  "evidence_source_str Src_external_ack_ref = ''external_ack_ref''"
| "evidence_source_str Src_evidence_ref = ''evidence_ref''"
| "evidence_source_str Src_local_inference = ''local_inference''"
| "evidence_source_str Src_none = ''none''"

definition build_remote_policy_decision_payload :: "turn_result \<Rightarrow> jdict option" where
  "build_remote_policy_decision_payload tr =
     map_option (\<lambda>d.
       [(''effective_idempotency_level'', JStr (idempotency_level_str (rpd_effective_idempotency_level d))),
        (''default_retry_policy'', JStr (rpd_default_retry_policy d)),
        (''auto_retry_enabled'', JBool (rpd_auto_retry_enabled d)),
        (''can_claim_guaranteed'', JBool (rpd_can_claim_guaranteed d)),
        (''reason'', JStr (rpd_reason d))]) (tr_remote_policy_decision tr)"

definition extract_turn_emitted_states :: "turn_state_event list \<Rightarrow> string list" where
  "extract_turn_emitted_states evs = filter (\<lambda>s. s \<noteq> []) (map se_state evs)"

definition build_recovery_input_payload :: "turn_result \<Rightarrow> jdict" where
  "build_recovery_input_payload tr =
     (case tr_recovery_input tr of
        None \<Rightarrow> []
      | Some r \<Rightarrow>
          [(''failure_code'', JStr (fe_failure_code r)),
           (''failed_stage'', JStr (failed_stage_str (fe_failed_stage r))),
           (''failed_component'', JStr (fe_failed_component r)),
           (''failure_class'', JStr (failure_class_str (fe_failure_class r))),
           (''evidence_priority_source'', JStr (evidence_source_str (fe_evidence_priority_source r))),
           (''evidence_priority_ref'', json_opt_str (fe_evidence_priority_ref r))])"

text \<open>An entry that is only present when there is a value.\<close>

definition opt_entry :: "string \<Rightarrow> json option \<Rightarrow> jdict" where
  "opt_entry key v = (case v of None \<Rightarrow> [] | Some x \<Rightarrow> [(key, x)])"

definition build_turn_outcome_payload :: "turn_result \<Rightarrow> jdict" where
  "build_turn_outcome_payload tr =
     [(''state'', JStr (tr_state tr)),
      (''outcome_kind'', JStr (turn_outcome_str (tr_outcome_kind tr))),
      (''decision_ref'', JStr (tr_decision_ref tr)),
      (''decision_fingerprint'', JStr (tr_decision_fingerprint tr))] @
     opt_entry ''intent_commit_ref'' (map_option JStr (tr_intent_commit_ref tr)) @
     opt_entry ''dispatch_dedupe_key'' (map_option JStr (tr_dispatch_dedupe_key tr)) @
     opt_entry ''host_kind'' (map_option (\<lambda>h. JStr (host_kind_str h)) (tr_host_kind tr)) @
     opt_entry ''remote_policy_decision'' (map_option JDict (build_remote_policy_decision_payload tr)) @
     opt_entry ''emitted_states''
       (if extract_turn_emitted_states (tr_emitted_events tr) = [] then None
        else Some (JList (map JStr (extract_turn_emitted_states (tr_emitted_events tr))))) @
     opt_entry ''action_commit'' (map_option JDict (tr_action_commit tr)) @
     opt_entry ''recovery_input''
       (if tr_recovery_input tr = None then None else Some (JDict (build_recovery_input_payload tr)))"

text \<open>A \<^verbatim>\<open>RuntimeEvent\<close> of the actor: a fact for the projection, or a diagnostic.\<close>

definition actor_event ::
  "string \<Rightarrow> string \<Rightarrow> int \<Rightarrow> string \<Rightarrow> wake_policy \<Rightarrow> string \<Rightarrow> string option \<Rightarrow> jdict option \<Rightarrow> runtime_event" where
  "actor_event run_id event_id offset event_type wake now idem payload =
     \<lparr>ev_run_id = run_id, ev_event_id = event_id, ev_commit_offset = offset, ev_event_type = event_type,
      ev_event_class = Fact, ev_event_authority = Authoritative_fact, ev_ordering_key = run_id,
      ev_wake_policy = wake, ev_created_at = now, ev_idempotency_key = idem, ev_payload_ref = None,
      ev_payload_json = payload, ev_schema_version = ''1''\<rparr>"

definition actor_commit :: "string \<Rightarrow> string \<Rightarrow> string \<Rightarrow> string option \<Rightarrow> runtime_event list \<Rightarrow> action_commit" where
  "actor_commit run_id commit_id now caused_by events =
     \<lparr>cm_run_id = run_id, cm_commit_id = commit_id, cm_events = events, cm_created_at = now,
      cm_action = None, cm_caused_by = caused_by\<rparr>"

section \<open>Calls on the shared services\<close>

definition now_iso :: "('l, 's, 'w) actor_services \<Rightarrow> ('l, 's, 'w) kernel_state \<Rightarrow> string" where
  "now_iso sv k = te_now (sv_engine sv) (tw_env (kn_turn k))"

definition set_env :: "'w \<Rightarrow> ('l, 's, 'w) kernel_state \<Rightarrow> ('l, 's, 'w) kernel_state" where
  "set_env w k = k\<lparr>kn_turn := (kn_turn k)\<lparr>tw_env := w\<rparr>\<rparr>"

definition append_commit ::
  "('l, 's, 'w) actor_services \<Rightarrow> action_commit \<Rightarrow> (('l, 's, 'w) kernel_state, string) act" where
  "append_commit sv commit k =
     (case sv_append sv (kn_log k) commit of (l, r) \<Rightarrow> (k\<lparr>kn_log := l\<rparr>, r))"

definition projection_get ::
  "('l, 's, 'w) actor_services \<Rightarrow> string \<Rightarrow> (('l, 's, 'w) kernel_state, run_projection) act" where
  "projection_get sv run_id k =
     (case get_projection (sv_projection sv) (sv_load sv (kn_log k)) (kn_projections k) run_id of
        (ps, r) \<Rightarrow> (k\<lparr>kn_projections := ps\<rparr>, r))"

definition projection_catch_up ::
  "('l, 's, 'w) actor_services \<Rightarrow> string \<Rightarrow> int \<Rightarrow> (('l, 's, 'w) kernel_state, run_projection) act" where
  "projection_catch_up sv run_id through k =
     (case catch_up (sv_projection sv) (sv_load sv (kn_log k)) (kn_projections k) run_id through of
        (ps, r) \<Rightarrow> (k\<lparr>kn_projections := ps\<rparr>, r))"

definition projection_readiness ::
  "('l, 's, 'w) actor_services \<Rightarrow> string \<Rightarrow> int \<Rightarrow> (('l, 's, 'w) kernel_state, bool) act" where
  "projection_readiness sv run_id offset k =
     (case readiness (sv_projection sv) (sv_load sv (kn_log k)) (kn_projections k) run_id offset of
        (ps, r) \<Rightarrow> (k\<lparr>kn_projections := ps\<rparr>, r))"

definition latest_run_offset :: "('l, 's, 'w) actor_services \<Rightarrow> string \<Rightarrow> ('l, 's, 'w) kernel_state \<Rightarrow> int" where
  "latest_run_offset sv run_id k =
     (let events = sv_load sv (kn_log k) run_id 0
      in if events = [] then 0 else Max (set (map ev_commit_offset events)))"

definition recovery_decide ::
  "('l, 's, 'w) actor_services \<Rightarrow> recovery_input \<Rightarrow> (('l, 's, 'w) kernel_state, recovery_decision) act" where
  "recovery_decide sv x k =
     (case sv_decide sv (kn_log k) (tw_env (kn_turn k)) x of
        ((l, w), r) \<Rightarrow> (set_env w (k\<lparr>kn_log := l\<rparr>), r))"

text \<open>A call of an optional service on the environment.\<close>

definition env_call ::
  "('w \<Rightarrow> 'x \<Rightarrow> 'w \<times> unit result) option \<Rightarrow> 'x \<Rightarrow> (('l, 's, 'w) kernel_state, unit) act" where
  "env_call f x k =
     (case f of
        None \<Rightarrow> (k, Inr ())
      | Some f \<Rightarrow> (case f (tw_env (kn_turn k)) x of (w, r) \<Rightarrow> (set_env w k, r)))"

definition engine_turn ::
  "('l, 's, 'w) actor_services \<Rightarrow> turn_input \<Rightarrow> action \<Rightarrow> (('l, 's, 'w) kernel_state, turn_result) act" where
  "engine_turn sv i a k =
     (case run_turn (sv_engine sv) i (Some a) (kn_turn k) of (w, r) \<Rightarrow> (k\<lparr>kn_turn := w\<rparr>, r))"

definition ledger_mark_unknown ::
  "('l, 's, 'w) actor_services \<Rightarrow> string \<Rightarrow> (('l, 's, 'w) kernel_state, unit) act" where
  "ledger_mark_unknown sv key k =
     (case port_mark_unknown_effect (te_port (sv_engine sv)) (tw_store (kn_turn k)) key of
        (s, r) \<Rightarrow> (k\<lparr>kn_turn := (kn_turn k)\<lparr>tw_store := s\<rparr>\<rparr>, r))"

section \<open>Outcome and recovery commits\<close>

definition turn_outcome_event ::
  "string \<Rightarrow> int \<Rightarrow> string \<Rightarrow> turn_result \<Rightarrow> runtime_event" where
  "turn_outcome_event run_id offset now tr =
     actor_event run_id (''evt-turn-'' @ turn_outcome_str (tr_outcome_kind tr) @ ''-'' @ show_int offset) offset
       (turn_outcome_event_type (tr_outcome_kind tr)) Wake_actor now (Some (tr_decision_fingerprint tr))
       (Some (build_turn_outcome_payload tr))"

definition append_turn_outcome_commit ::
  "('l, 's, 'w) actor_services \<Rightarrow> string \<Rightarrow> int \<Rightarrow> turn_result \<Rightarrow> string option
     \<Rightarrow> (('l, 's, 'w) kernel_state, int) act" where
  "append_turn_outcome_commit sv run_id offset tr caused_by =
     bind_act (read_act (now_iso sv)) (\<lambda>now.
     bind_act (case tr_intent_commit_ref tr of
         None \<Rightarrow> return_act ()
       | Some ref \<Rightarrow> env_call (sv_write_intent sv)
           \<lparr>it_run_id = run_id, it_intent_commit_ref = ref, it_decision_ref = tr_decision_ref tr,
            it_decision_fingerprint = tr_decision_fingerprint tr,
            it_dispatch_dedupe_key = tr_dispatch_dedupe_key tr, it_host_kind = tr_host_kind tr,
            it_outcome_kind = tr_outcome_kind tr, it_written_at = now,
            it_reflection_round = 0\<rparr>) (\<lambda>_.
     bind_act (append_commit sv (actor_commit run_id
         (''turn:'' @ turn_outcome_str (tr_outcome_kind tr) @ '':'' @ show_int offset) now caused_by
         [turn_outcome_event run_id offset now tr])) (\<lambda>_.
     return_act (offset + 1))))"

definition recovery_events :: "string \<Rightarrow> int \<Rightarrow> string \<Rightarrow> recovery_decision \<Rightarrow> runtime_event list" where
  "recovery_events run_id offset now d =
     [(actor_event run_id (''evt-recovery-plan-'' @ show_int offset) offset ''recovery.plan_selected''
         Projection_only now None
         (Some [(''planned_mode'', JStr (rd_mode d)), (''reason'', JStr (rd_reason d)),
                (''compensation_action_id'', json_opt_str (rd_compensation_action_id d)),
                (''escalation_channel_ref'', json_opt_str (rd_escalation_channel_ref d))]))
        \<lparr>ev_event_class := Derived, ev_event_authority := Derived_diagnostic\<rparr>,
      actor_event run_id (''evt-recovery-'' @ show_int offset) (offset + 1) (recovery_event_type (rd_mode d))
         Wake_actor now None (Some [(''mode'', JStr (rd_mode d)), (''reason'', JStr (rd_reason d))])]"

definition assert_recovery_event_type_allowed :: "string \<Rightarrow> ('s, unit) act" where
  "assert_recovery_event_type_allowed event_type =
     (if event_type \<notin> {''run.recovering'', ''run.waiting_external'', ''run.recovery_aborted''}
      then raise_act (RuntimeError (''Recovery event type is not allowed for lifecycle safety: '' @ event_type))
      else return_act ())"

definition append_recovery_event ::
  "('l, 's, 'w) actor_services \<Rightarrow> string \<Rightarrow> int \<Rightarrow> recovery_decision \<Rightarrow> string option
     \<Rightarrow> (('l, 's, 'w) kernel_state, int) act" where
  "append_recovery_event sv run_id offset d caused_by =
     bind_act (assert_recovery_event_type_allowed (recovery_event_type (rd_mode d))) (\<lambda>_.
     bind_act (read_act (now_iso sv)) (\<lambda>now.
     bind_act (append_commit sv (actor_commit run_id
         (''recovery:'' @ recovery_event_type (rd_mode d) @ '':'' @ show_int offset) now caused_by
         (recovery_events run_id offset now d))) (\<lambda>_.
     bind_act (env_call (sv_write_outcome sv)
         \<lparr>ro_run_id = run_id, ro_action_id = caused_by, ro_recovery_mode = rd_mode d,
          ro_outcome_state = recovery_outcome_state (rd_mode d), ro_written_at = now,
          ro_operator_escalation_ref = rd_escalation_channel_ref d,
          ro_emitted_event_ids = [''evt-recovery-plan-'' @ show_int offset, ''evt-recovery-'' @ show_int offset]\<rparr>) (\<lambda>_.
     return_act (offset + 2)))))"

section \<open>The decision round\<close>

text \<open>The gate decides and must not append events itself; its decision is appended.\<close>

definition recover_action ::
  "('l, 's, 'w) actor_services \<Rightarrow> string \<Rightarrow> action \<Rightarrow> string \<Rightarrow> run_projection \<Rightarrow> int
     \<Rightarrow> (('l, 's, 'w) kernel_state, unit) act" where
  "recover_action sv run_id a reason p offset =
     bind_act (read_act (latest_run_offset sv run_id)) (\<lambda>before_offset.
     bind_act (recovery_decide sv
         \<lparr>ri_run_id = run_id, ri_reason_code = reason, ri_lifecycle_state = pr_lifecycle_state p,
          ri_projection = p, ri_failed_action_id = Some (act_action_id a), ri_reflection_round = 0,
          ri_capability_snapshot = None,
          ri_failed_effect_class = Some (effect_class_str (act_effect_class a))\<rparr>) (\<lambda>d.
     bind_act (read_act (latest_run_offset sv run_id)) (\<lambda>after_offset.
     if after_offset \<noteq> before_offset
     then raise_act (RuntimeError
       ''Recovery gate must be read-only and cannot append runtime events directly.'')
     else bind_act (append_recovery_event sv run_id offset d (Some (act_action_id a))) (\<lambda>_. return_act ()))))"

definition record_turn_outcome ::
  "('l, 's, 'w) actor_services \<Rightarrow> string \<Rightarrow> int \<Rightarrow> turn_result \<Rightarrow> string option
     \<Rightarrow> (('l, 's, 'w) kernel_state, int) act" where
  "record_turn_outcome sv run_id offset tr caused_by =
     catch_act (append_turn_outcome_commit sv run_id offset tr caused_by) (\<lambda>e.
       bind_act (case tr_dispatch_dedupe_key tr of
           None \<Rightarrow> return_act ()
         | Some key \<Rightarrow> suppress_act (ledger_mark_unknown sv key)) (\<lambda>_. raise_act e))"

definition assert_single_dispatch_attempt_in_turn :: "turn_result \<Rightarrow> ('s, unit) act" where
  "assert_single_dispatch_attempt_in_turn tr =
     (if length (filter (\<lambda>e. se_state e = ''dispatched'') (tr_emitted_events tr)) > 1
      then raise_act (RuntimeError ''Single turn must not contain multiple authoritative dispatch attempts.'')
      else return_act ())"

definition turn_round ::
  "('l, 's, 'w) actor_services \<Rightarrow> string \<Rightarrow> int \<Rightarrow> action \<Rightarrow> run_projection
     \<Rightarrow> (('l, 's, 'w) kernel_state, unit) act" where
  "turn_round sv run_id offset a p =
     bind_act (engine_turn sv
         \<lparr>ti_run_id = run_id, ti_through_offset = offset, ti_based_on_offset = offset,
          ti_trigger_type = Trigger_signal, ti_history = []\<rparr> a) (\<lambda>tr.
     bind_act (record_turn_outcome sv run_id (offset + 1) tr (Some (act_action_id a))) (\<lambda>next_offset.
     bind_act (assert_single_dispatch_attempt_in_turn tr) (\<lambda>_.
     bind_act (if tr_outcome_kind tr = Outcome_dispatched
         then suppress_act (env_call (sv_on_action_success sv) (effect_class_str (act_effect_class a)))
         else return_act ()) (\<lambda>_.
     if tr_outcome_kind tr = Outcome_recovery_pending
     then recover_action sv run_id a
       (case tr_recovery_input tr of Some r \<Rightarrow> fe_failure_code r | None \<Rightarrow> ''effect_unknown'') p next_offset
     else return_act ()))))"

definition decision_round ::
  "('l, 's, 'w) actor_services \<Rightarrow> string \<Rightarrow> int \<Rightarrow> action \<Rightarrow> run_projection
     \<Rightarrow> (('l, 's, 'w) kernel_state, unit) act" where
  "decision_round sv run_id offset a p =
     catch_act (turn_round sv run_id offset a p) (\<lambda>err.
       bind_act (recover_action sv run_id a (lower (exn_name err)) p (offset + 1)) (\<lambda>_. raise_act err))"

definition decision_fingerprint :: "action_commit \<Rightarrow> int \<Rightarrow> string" where
  "decision_fingerprint commit offset = cm_run_id commit @ '':'' @ cm_commit_id commit @ '':'' @ show_int offset"

definition assert_no_derived_diagnostic_authority_input :: "action_commit \<Rightarrow> ('s, unit) act" where
  "assert_no_derived_diagnostic_authority_input commit =
     (if list_ex (\<lambda>e. ev_event_authority e = Derived_diagnostic) (cm_events commit)
      then raise_act (ValueError ''derived_diagnostic events must not enter authority input path.'')
      else return_act ())"

definition last_event_offset :: "action_commit \<Rightarrow> ('s, int) act" where
  "last_event_offset commit =
     (if cm_events commit = [] then raise_act (OtherError ''IndexError'' ''list index out of range'')
      else return_act (ev_commit_offset (last (cm_events commit))))"

type_synonym ('l, 's, 'w) actor_state = "('l, 's, 'w) kernel_state \<times> run_actor"

definition process_action_commit ::
  "('l, 's, 'w) actor_services \<Rightarrow> action_commit \<Rightarrow> (('l, 's, 'w) actor_state, unit) act" where
  "process_action_commit sv commit =
     bind_act (assert_no_derived_diagnostic_authority_input commit) (\<lambda>_.
     bind_act (last_event_offset commit) (\<lambda>offset.
     bind_act (on_fst (projection_catch_up sv (cm_run_id commit) offset)) (\<lambda>p.
     bind_act (modify_act (\<lambda>(k, a). (k, a\<lparr>ra_last_projection := Some p\<rparr>))) (\<lambda>_.
     bind_act (on_fst (projection_readiness sv (cm_run_id commit) offset)) (\<lambda>ready.
     if \<not> ready then return_act ()
     else bind_act (read_act (\<lambda>(k, a). deduper_seen (kn_deduper k) (decision_fingerprint commit offset))) (\<lambda>seen.
       if seen then return_act ()
       else bind_act (modify_act (\<lambda>(k, a).
           (k\<lparr>kn_deduper := deduper_mark (kn_deduper k) (decision_fingerprint commit offset)\<rparr>, a))) (\<lambda>_.
         case cm_action commit of
           None \<Rightarrow> return_act ()
         | Some a \<Rightarrow> on_fst (decision_round sv (cm_run_id commit) offset a p))))))))"

section \<open>Signals\<close>

text \<open>The check on a peer: the snapshot decides if there is one, else the active children.\<close>

definition peer_accepted :: "run_actor \<Rightarrow> string \<Rightarrow> bool" where
  "peer_accepted a peer =
     (let active_children = (case ra_last_projection a of None \<Rightarrow> [] | Some p \<Rightarrow> pr_active_child_runs p)
      in case ra_last_snapshot a of
           Some snapshot \<Rightarrow> is_peer_run_authorized peer snapshot active_children
         | None \<Rightarrow> peer \<in> set active_children)"

definition signal_token :: "actor_signal \<Rightarrow> string option" where
  "signal_token sg =
     (case sig_caused_by sg of
        Some c \<Rightarrow> if c = [] then None else Some (sig_signal_type sg @ '':'' @ c)
      | None \<Rightarrow> None)"

definition remember_signal :: "actor_signal \<Rightarrow> run_actor \<Rightarrow> run_actor" where
  "remember_signal sg a =
     (case signal_token sg of
        None \<Rightarrow> a
      | Some t \<Rightarrow> a\<lparr>ra_seen_signal_tokens := ra_seen_signal_tokens a @ [t]\<rparr>)"

text \<open>A signal the actor drops without a trace: from an unknown peer, or seen before.\<close>

definition signal_dropped :: "run_actor \<Rightarrow> actor_signal \<Rightarrow> bool" where
  "signal_dropped a sg \<longleftrightarrow>
     (case sig_from_peer_run_id sg of Some peer \<Rightarrow> \<not> peer_accepted a peer | None \<Rightarrow> False) \<or>
     (case signal_token sg of Some t \<Rightarrow> t \<in> set (ra_seen_signal_tokens a) | None \<Rightarrow> False)"

definition signal_commit :: "string \<Rightarrow> int \<Rightarrow> int \<Rightarrow> string \<Rightarrow> actor_signal \<Rightarrow> action_commit" where
  "signal_commit run_id sequence next_offset now sg =
     actor_commit run_id
       (''signal:'' @ sig_signal_type sg @ '':'' @
        (case sig_caused_by sg of Some c \<Rightarrow> if c = [] then ''seq-'' @ show_int sequence else c
         | None \<Rightarrow> ''seq-'' @ show_int sequence)) now (sig_caused_by sg)
       [actor_event run_id (''evt-signal-'' @ show_int sequence) next_offset
          (signal_event_type (sig_signal_type sg)) Wake_actor now None
          (normalize_signal_payload (sig_signal_type sg) (sig_signal_payload sg))]"

definition is_terminal_state :: "run_lifecycle_state \<Rightarrow> bool" where
  "is_terminal_state st \<longleftrightarrow> st = Completed \<or> st = Aborted"

definition should_continue_as_new :: "bool \<Rightarrow> ('l, 's, 'w) actor_services \<Rightarrow> run_actor \<Rightarrow> bool" where
  "should_continue_as_new in_workflow sv a =
     (in_workflow \<and> \<not> ra_history_event_count a < sv_history_event_threshold sv \<and>
      (case ra_last_projection a of
         None \<Rightarrow> False
       | Some p \<Rightarrow> ra_pending_signals a = [] \<and> \<not> is_terminal_state (pr_lifecycle_state p)))"

text \<open>\<^verbatim>\<open>continue_as_new\<close> ends the execution by an exception that carries the next start payload.\<close>

definition trigger_continue_as_new :: "string \<Rightarrow> (('k \<times> run_actor), unit) act" where
  "trigger_continue_as_new run_id =
     bind_act (modify_act (\<lambda>(k, a). (k, a\<lparr>ra_continued_as := Some
         \<lparr>in_run_id = run_id, in_session_id = ra_session_id a, in_parent_run_id = ra_parent_run_id a,
          in_input_ref = None, in_input_json = None, in_runtime_context_ref = None, in_trace_context = None,
          in_pending_signals = (if ra_pending_signals a = [] then None else Some (ra_pending_signals a)),
          in_policy_versions = None, in_initial_stage_id = None, in_task_contract_ref = None\<rparr>\<rparr>))) (\<lambda>_.
     raise_act (OtherError ''ContinueAsNewError'' ''Workflow continued as new''))"

text \<open>The part of \<^verbatim>\<open>_handle_signal\<close> behind the guards: commit the signal, remember it, decide on it.\<close>

definition deliver_signal ::
  "bool \<Rightarrow> ('l, 's, 'w) actor_services \<Rightarrow> string \<Rightarrow> actor_signal \<Rightarrow> (('l, 's, 'w) actor_state, unit) act" where
  "deliver_signal in_workflow sv run_id sg =
     bind_act (modify_act (\<lambda>(k, a). (k, a\<lparr>ra_signal_sequence := ra_signal_sequence a + 1\<rparr>))) (\<lambda>_.
     bind_act (on_fst (projection_get sv run_id)) (\<lambda>p.
     bind_act (read_act (\<lambda>(k, a). signal_commit run_id (ra_signal_sequence a) (pr_projected_offset p + 1)
         (now_iso sv k) sg)) (\<lambda>commit.
     bind_act (on_fst (append_commit sv commit)) (\<lambda>_.
     bind_act (modify_act (\<lambda>(k, a). (k, remember_signal sg a))) (\<lambda>_.
     bind_act (process_action_commit sv commit) (\<lambda>_.
     bind_act (modify_act (\<lambda>(k, a). (k, a\<lparr>ra_history_event_count := ra_history_event_count a + 1\<rparr>))) (\<lambda>_.
     bind_act (read_act (\<lambda>(k, a). should_continue_as_new in_workflow sv a)) (\<lambda>continue.
     if continue then trigger_continue_as_new run_id else return_act ()))))))))"

definition handle_signal ::
  "bool \<Rightarrow> ('l, 's, 'w) actor_services \<Rightarrow> actor_signal \<Rightarrow> (('l, 's, 'w) actor_state, unit) act" where
  "handle_signal in_workflow sv sg st =
     (case ra_run_id (snd st) of
        None \<Rightarrow> (st, Inl (RuntimeError ''RunActorWorkflow.run must be called first.''))
      | Some run_id \<Rightarrow>
          if run_id = [] then (st, Inl (RuntimeError ''RunActorWorkflow.run must be called first.''))
          else if signal_dropped (snd st) sg then (st, Inr ())
          else deliver_signal in_workflow sv run_id sg st)"

definition signal_actor ::
  "bool \<Rightarrow> ('l, 's, 'w) actor_services \<Rightarrow> actor_signal \<Rightarrow> (('l, 's, 'w) actor_state, unit) act" where
  "signal_actor in_workflow sv sg st =
     (if ra_run_id (snd st) \<in> {None, Some []}
      then ((fst st, (snd st)\<lparr>ra_pending_signals := ra_pending_signals (snd st) @ [sg]\<rparr>), Inr ())
      else handle_signal in_workflow sv sg st)"

fun handle_signals ::
  "bool \<Rightarrow> ('l, 's, 'w) actor_services \<Rightarrow> actor_signal list \<Rightarrow> (('l, 's, 'w) actor_state, unit) act" where
  "handle_signals in_workflow sv [] = return_act ()"
| "handle_signals in_workflow sv (sg # sgs) =
     bind_act (handle_signal in_workflow sv sg) (\<lambda>_. handle_signals in_workflow sv sgs)"

section \<open>The workflow\<close>

definition policy_versions_pinned_commit :: "string \<Rightarrow> string \<Rightarrow> run_policy_versions \<Rightarrow> action_commit" where
  "policy_versions_pinned_commit run_id now pv =
     actor_commit run_id (''policy-versions-pinned:'' @ run_id) now (Some ''run.start'')
       [actor_event run_id (''evt-policy-pinned-'' @ run_id) 0 ''run.policy_versions_pinned'' Projection_only now None
          (Some [(''route_policy_version'', json_opt_str (pv_route_policy_version pv)),
                 (''skill_policy_version'', json_opt_str (pv_skill_policy_version pv)),
                 (''evaluation_policy_version'', json_opt_str (pv_evaluation_policy_version pv)),
                 (''task_view_policy_version'', json_opt_str (pv_task_view_policy_version pv)),
                 (''pinned_at'', JStr (pv_pinned_at pv))])]"

text \<open>\<^verbatim>\<open>run\<close> up to the point where a workflow waits for a terminal state.\<close>

definition run_start ::
  "bool \<Rightarrow> ('l, 's, 'w) actor_services \<Rightarrow> run_input \<Rightarrow> (('l, 's, 'w) actor_state, unit) act" where
  "run_start in_workflow sv i =
     bind_act (modify_act (\<lambda>(k, a). (k, a\<lparr>ra_run_id := Some (in_run_id i), ra_session_id := in_session_id i,
         ra_parent_run_id := in_parent_run_id i, ra_policy_versions := in_policy_versions i,
         ra_active_stage_id := in_initial_stage_id i\<rparr>))) (\<lambda>_.
     bind_act (on_fst (projection_get sv (in_run_id i))) (\<lambda>p.
     bind_act (modify_act (\<lambda>(k, a). (k, a\<lparr>ra_last_projection := Some p\<rparr>))) (\<lambda>_.
     bind_act (case in_policy_versions i of
         None \<Rightarrow> return_act []
       | Some pv \<Rightarrow>
           bind_act (read_act (\<lambda>(k, a). policy_versions_pinned_commit (in_run_id i) (now_iso sv k) pv)) (\<lambda>commit.
             on_fst (append_commit sv commit))) (\<lambda>_.
     bind_act (modify_act (\<lambda>(k, a). (k, a\<lparr>ra_pending_signals := ra_pending_signals a @
         (case in_pending_signals i of None \<Rightarrow> [] | Some sgs \<Rightarrow> sgs)\<rparr>))) (\<lambda>_.
     bind_act (read_act (\<lambda>(k, a). ra_pending_signals a)) (\<lambda>pending.
     bind_act (modify_act (\<lambda>(k, a). (k, a\<lparr>ra_pending_signals := []\<rparr>))) (\<lambda>_.
       handle_signals in_workflow sv pending)))))))"

definition final_state :: "run_lifecycle_state \<Rightarrow> string" where
  "final_state st = (if st = Aborted then ''aborted'' else if st = Failed then ''failed'' else ''completed'')"

definition notify_parent_child_completed ::
  "bool \<Rightarrow> ('l, 's, 'w) actor_services \<Rightarrow> string option \<Rightarrow> (('k \<times> run_actor), unit) act" where
  "notify_parent_child_completed in_workflow sv parent_run_id =
     modify_act (\<lambda>(k, a).
       if \<not> truthy parent_run_id \<or> \<not> truthy (ra_run_id a) \<or> \<not> in_workflow then (k, a)
       else (k, a\<lparr>ra_sent := ra_sent a @
         [(workflow_id_for_parent_run (the parent_run_id) (sv_workflow_id_prefix sv),
           \<lparr>sig_signal_type = ''child_run_completed'',
            sig_signal_payload = Some
              [(''child_run_id'', JStr (the (ra_run_id a))),
               (''outcome'', JStr (case ra_last_projection a of None \<Rightarrow> ''completed''
                 | Some p \<Rightarrow> final_state (pr_lifecycle_state p))),
               (''task_id'', JNull)],
            sig_caused_by = Some (''child:'' @ the (ra_run_id a)), sig_signal_token = None,
            sig_from_peer_run_id = None\<rparr>)]\<rparr>))"

text \<open>The rest of \<^verbatim>\<open>run\<close>: inside a workflow the projection is read again after the wait.\<close>

definition run_finish ::
  "bool \<Rightarrow> ('l, 's, 'w) actor_services \<Rightarrow> run_input \<Rightarrow> (('l, 's, 'w) actor_state, (string \<times> string)) act" where
  "run_finish in_workflow sv i =
     bind_act (if in_workflow
         then bind_act (on_fst (projection_get sv (in_run_id i))) (\<lambda>p.
           modify_act (\<lambda>(k, a). (k, a\<lparr>ra_last_projection := Some p\<rparr>)))
         else return_act ()) (\<lambda>_.
     bind_act (read_act (\<lambda>(k, a). case ra_last_projection a of None \<Rightarrow> ''completed''
         | Some p \<Rightarrow> final_state (pr_lifecycle_state p))) (\<lambda>final.
     bind_act (notify_parent_child_completed in_workflow sv (in_parent_run_id i)) (\<lambda>_.
       return_act (in_run_id i, final))))"

definition is_run_terminal :: "run_actor \<Rightarrow> bool" where
  "is_run_terminal a =
     (case ra_last_projection a of None \<Rightarrow> False | Some p \<Rightarrow> is_terminal_state (pr_lifecycle_state p))"

definition actor_query :: "run_actor \<Rightarrow> run_projection result" where
  "actor_query a =
     (if ra_run_id a \<in> {None, Some []} then Inl (RuntimeError ''RunActorWorkflow.run must be called first.'')
      else case ra_last_projection a of
        None \<Rightarrow> Inl (RuntimeError ''RunActorWorkflow projection is not initialized.'')
      | Some p \<Rightarrow> Inr p)"

end
