(* ===== verification/Run_Lifecycle.thy ===== *)
theory Run_Lifecycle
  imports Run_Actor
begin

text \<open>
  The run actor in step with its log, over every event log that keeps the contract of the log: the
  cached projection of the run is a replayed prefix, and every call of the actor and every step of
  the parties around it keep it so.  A signal that passes the guards becomes the next event of the
  run, and a commit of the run is processed against the current projection.
\<close>

section \<open>Reading the projection of one run\<close>

text \<open>The cached projection of a run is the replay of a prefix of its events.\<close>

definition run_cached ::
  "projection_config \<Rightarrow> (string \<Rightarrow> int \<Rightarrow> runtime_event list) \<Rightarrow> projections \<Rightarrow> string \<Rightarrow> bool" where
  "run_cached cfg load ps r \<longleftrightarrow>
     (\<forall>p. dict_get ps r = Some p \<longrightarrow>
        (\<exists>xs ys. load r 0 = xs @ ys \<and> replay cfg (default_projection r) xs = Inr p))"

definition restrict_run :: "projections \<Rightarrow> string \<Rightarrow> projections" where
  "restrict_run ps r = (case dict_get ps r of None \<Rightarrow> [] | Some p \<Rightarrow> [(r, p)])"

lemma restrict_run_get [simp]: "dict_get_or (restrict_run ps r) r p = dict_get_or ps r p"
  by (simp add: restrict_run_def dict_get_or_def dict_get_def split: option.split)

lemma run_cached_restrict: "run_cached cfg load ps r \<Longrightarrow> cache_ok cfg load (restrict_run ps r)"
  by (auto simp: run_cached_def cache_ok_def restrict_run_def dict_get_def split: option.splits if_splits)

lemma run_cached_set [simp]:
  "run_cached cfg load (dict_set r p ps) r \<longleftrightarrow>
     (\<exists>xs ys. load r 0 = xs @ ys \<and> replay cfg (default_projection r) xs = Inr p)"
  by (simp add: run_cached_def)

lemma get_projection_local:
  "snd (get_projection cfg load (restrict_run ps r) r) = snd (get_projection cfg load ps r)"
  by (simp add: get_projection_def Let_def split: sum.split)

lemma catch_up_local:
  "snd (catch_up cfg load (restrict_run ps r) r through) = snd (catch_up cfg load ps r through)"
  by (simp add: catch_up_def Let_def split: sum.split)

lemma get_projection_cache:
  "fst (get_projection cfg load ps r) =
     (case snd (get_projection cfg load ps r) of Inl _ \<Rightarrow> ps | Inr p \<Rightarrow> dict_set r p ps)"
  by (simp add: get_projection_def Let_def split: sum.split)

lemma catch_up_cache:
  "fst (catch_up cfg load ps r through) =
     (case snd (catch_up cfg load ps r through) of Inl _ \<Rightarrow> ps | Inr p \<Rightarrow> dict_set r p ps)"
  by (simp add: catch_up_def Let_def split: sum.split)

text \<open>Without a migrator a replay does not fail, and offsets are kept.\<close>

lemma replay_total: "pc_event_schema_migrator cfg = None \<Longrightarrow> \<exists>p'. replay cfg p es = Inr p'"
  by (induction es arbitrary: p) (auto simp: maybe_migrate_event_def)

lemma no_migrator_keeps_offset: "pc_event_schema_migrator cfg = None \<Longrightarrow> migration_keeps_offset cfg"
  by (simp add: migration_keeps_offset_def maybe_migrate_event_def)

lemma no_migrator_skipped:
  "pc_event_schema_migrator cfg = None \<Longrightarrow> skipped cfg e \<Longrightarrow> ev_event_authority e = Derived_diagnostic"
  by (auto simp: skipped_def maybe_migrate_event_def validate_projection_authority_input_def)

lemma replay_snoc_offset:
  assumes "pc_event_schema_migrator cfg = None" "\<not> skipped cfg e" "replay cfg p (es @ [e]) = Inr p'"
  shows "pr_projected_offset p' = ev_commit_offset e"
  using assms by (auto simp: replay_append skipped_def maybe_migrate_event_def elim!: bind_result_InrE)

context event_log_port
begin

lemma get_run_projection:
  assumes "invar s" "migration_keeps_offset cfg" "run_cached cfg (load s) ps r"
    and run: "get_projection cfg (load s) ps r = (ps', res)"
  shows "res = replay cfg (default_projection r) (load s r 0)" "run_cached cfg (load s) ps' r"
proof -
  obtain qs res' where q: "get_projection cfg (load s) (restrict_run ps r) r = (qs, res')" by fastforce
  have "res' = res" using get_projection_local [of cfg "load s" ps r] run q by simp
  then show res: "res = replay cfg (default_projection r) (load s r 0)"
    using get_projection_correct(1) [OF assms(1,2) run_cached_restrict [OF assms(3)] q] by simp
  have ps': "ps' = (case res of Inl _ \<Rightarrow> ps | Inr p \<Rightarrow> dict_set r p ps)"
    using get_projection_cache [of cfg "load s" ps r] run by simp
  show "run_cached cfg (load s) ps' r"
  proof (cases res)
    case (Inr p)
    then have "load s r 0 = load s r 0 @ []" "replay cfg (default_projection r) (load s r 0) = Inr p"
      using res by simp_all
    then show ?thesis unfolding ps' using Inr by (auto intro: exI [of _ "[]"])
  qed (use assms(3) ps' in simp)
qed

lemma catch_up_run:
  assumes "invar s" "migration_keeps_offset cfg" "run_cached cfg (load s) ps r"
    and run: "catch_up cfg (load s) ps r through = (ps', res)"
  shows "run_cached cfg (load s) ps' r"
    "res = Inr p \<Longrightarrow> \<exists>xs ys. load s r 0 = xs @ ys \<and> replay cfg (default_projection r) xs = Inr p
       \<and> (\<forall>e\<in>set ys. ev_commit_offset e > through)"
proof -
  obtain qs res' where q: "catch_up cfg (load s) (restrict_run ps r) r through = (qs, res')" by fastforce
  have same: "res' = res" using catch_up_local [of cfg "load s" ps r through] run q by simp
  have prefix: "\<exists>xs ys. load s r 0 = xs @ ys \<and> replay cfg (default_projection r) xs = Inr p
       \<and> (\<forall>e\<in>set ys. ev_commit_offset e > through)" if "res = Inr p" for p
    using catch_up_correct(2) [OF assms(1,2) run_cached_restrict [OF assms(3)]] q same that by blast
  then show "res = Inr p \<Longrightarrow> \<exists>xs ys. load s r 0 = xs @ ys \<and> replay cfg (default_projection r) xs = Inr p
       \<and> (\<forall>e\<in>set ys. ev_commit_offset e > through)" .
  show "run_cached cfg (load s) ps' r"
    using catch_up_cache [of cfg "load s" ps r through] run prefix assms(3) by (cases res) fastforce+
qed

end

section \<open>The actor in step with the log\<close>

text \<open>
  The log keeps its invariant, the cached projection of the run is a replayed prefix, and the
  last event of the run is one the projection applies.
\<close>

definition synced ::
  "('l, 's, 'w) actor_services \<Rightarrow> ('l \<Rightarrow> bool) \<Rightarrow> string \<Rightarrow> ('l, 's, 'w) kernel_state \<Rightarrow> bool" where
  "synced sv invar run k \<longleftrightarrow>
     invar (kn_log k) \<and> run_cached (sv_projection sv) (sv_load sv (kn_log k)) (kn_projections k) run \<and>
     (sv_load sv (kn_log k) run 0 \<noteq> [] \<longrightarrow> \<not> skipped (sv_projection sv) (last (sv_load sv (kn_log k) run 0)))"

text \<open>The projection a full replay of the run's events gives.\<close>

definition current_projection ::
  "('l, 's, 'w) actor_services \<Rightarrow> string \<Rightarrow> ('l, 's, 'w) kernel_state \<Rightarrow> run_projection result" where
  "current_projection sv run k =
     replay (sv_projection sv) (default_projection run) (sv_load sv (kn_log k) run 0)"

definition last_authoritative :: "runtime_event list \<Rightarrow> bool" where
  "last_authoritative es \<longleftrightarrow> es \<noteq> [] \<and> ev_event_authority (last es) \<noteq> Derived_diagnostic"

lemma same_event_fields:
  assumes "same_event e e'"
  shows "ev_event_authority e' = ev_event_authority e" "ev_event_type e' = ev_event_type e"
    "ev_idempotency_key e' = ev_idempotency_key e" "same_payload (ev_payload_json e) (ev_payload_json e')"
  using assms unfolding same_event_def by (auto elim!: subst)

lemma synced_cong:
  "kn_log k' = kn_log k \<Longrightarrow> kn_projections k' = kn_projections k \<Longrightarrow>
     synced sv invar run k' = synced sv invar run k"
  by (simp add: synced_def)

text \<open>
  Everything that can happen around the actor of a run: signals, decisions on commits of the run,
  commits by other parties (to this run, if their last event is not a diagnostic, or to a run
  that does not push this one out of the log) and projections read for any run.
\<close>

inductive actor_step ::
  "bool \<Rightarrow> ('l, 's, 'w) actor_services \<Rightarrow> ('l \<Rightarrow> action_commit \<Rightarrow> string \<Rightarrow> bool) \<Rightarrow> string
     \<Rightarrow> ('l, 's, 'w) actor_state \<Rightarrow> ('l, 's, 'w) actor_state \<Rightarrow> bool"
  for inw sv retained run where
  signal_step: "signal_actor inw sv sg st = (st', res) \<Longrightarrow> actor_step inw sv retained run st st'"
| decide_step: "cm_run_id commit = run \<Longrightarrow> process_action_commit sv commit st = (st', res) \<Longrightarrow>
    actor_step inw sv retained run st st'"
| commit_step: "append_commit sv commit k = (k', res) \<Longrightarrow>
    (cm_run_id commit = run \<Longrightarrow> last_authoritative (cm_events commit)) \<Longrightarrow>
    (cm_run_id commit \<noteq> run \<Longrightarrow> retained (kn_log k) commit run) \<Longrightarrow>
    actor_step inw sv retained run (k, a) (k', a)"
| read_step: "projection_get sv r k = (k', res) \<Longrightarrow> actor_step inw sv retained run (k, a) (k', a)"

definition actor_reachable ::
  "bool \<Rightarrow> ('l, 's, 'w) actor_services \<Rightarrow> ('l \<Rightarrow> action_commit \<Rightarrow> string \<Rightarrow> bool) \<Rightarrow> 'l
     \<Rightarrow> ('s, 'w) turn_world \<Rightarrow> run_input \<Rightarrow> ('l, 's, 'w) actor_state \<Rightarrow> bool" where
  "actor_reachable inw sv retained l0 tw i st \<longleftrightarrow>
     (actor_step inw sv retained (in_run_id i))\<^sup>*\<^sup>*
       (fst (run_start inw sv i (\<lparr>kn_log = l0, kn_projections = [], kn_deduper = [], kn_turn = tw\<rparr>,
          RunActorWorkflow))) st"

text \<open>The actor after a signal was committed and decided on.\<close>

definition signal_received :: "run_actor \<Rightarrow> actor_signal \<Rightarrow> run_projection \<Rightarrow> run_actor" where
  "signal_received a sg p =
     a\<lparr>ra_signal_sequence := ra_signal_sequence a + 1,
       ra_seen_signal_tokens := ra_seen_signal_tokens a @ (case signal_token sg of None \<Rightarrow> [] | Some t \<Rightarrow> [t]),
       ra_last_projection := Some p, ra_history_event_count := ra_history_event_count a + 1\<rparr>"

text \<open>A decision on a commit, and the mark that it was taken.\<close>

definition fingerprint_seen :: "string \<Rightarrow> ('l, 's, 'w) kernel_state \<Rightarrow> bool" where
  "fingerprint_seen f k \<longleftrightarrow> deduper_seen (kn_deduper k) f"

definition commit_fingerprint :: "action_commit \<Rightarrow> string" where
  "commit_fingerprint commit = decision_fingerprint commit (ev_commit_offset (last (cm_events commit)))"

definition mark_decided :: "action_commit \<Rightarrow> ('l, 's, 'w) kernel_state \<Rightarrow> ('l, 's, 'w) kernel_state" where
  "mark_decided commit k = k\<lparr>kn_deduper := deduper_mark (kn_deduper k) (commit_fingerprint commit)\<rparr>"

definition decide_commit ::
  "('l, 's, 'w) actor_services \<Rightarrow> action_commit \<Rightarrow> run_projection \<Rightarrow> (('l, 's, 'w) actor_state, unit) act" where
  "decide_commit sv commit p =
     (case cm_action commit of
        None \<Rightarrow> return_act ()
      | Some a \<Rightarrow> on_fst (decision_round sv (cm_run_id commit) (ev_commit_offset (last (cm_events commit))) a p))"

text \<open>A commit the actor accepts as input of a decision.\<close>

definition decidable_commit :: "action_commit \<Rightarrow> bool" where
  "decidable_commit commit \<longleftrightarrow>
     cm_events commit \<noteq> [] \<and> list_all (\<lambda>e. ev_event_authority e \<noteq> Derived_diagnostic) (cm_events commit)"

text \<open>The commits of the actor.\<close>

lemma actor_commit_simps [simp]:
  "cm_run_id (actor_commit run_id cid now cause es) = run_id"
  "cm_events (actor_commit run_id cid now cause es) = es"
  "cm_action (actor_commit run_id cid now cause es) = None"
  by (simp_all add: actor_commit_def)

lemma actor_event_simps [simp]:
  "ev_event_authority (actor_event run_id eid off t wake now idem payload) = Authoritative_fact"
  "ev_event_type (actor_event run_id eid off t wake now idem payload) = t"
  "ev_commit_offset (actor_event run_id eid off t wake now idem payload) = off"
  by (simp_all add: actor_event_def)

lemma authoritative_commits [simp]:
  "last_authoritative [turn_outcome_event run_id off now tr]"
  "last_authoritative (recovery_events run_id off now d)"
  by (simp_all add: last_authoritative_def turn_outcome_event_def recovery_events_def)

lemma signal_commit_simps [simp]:
  "cm_run_id (signal_commit run_id n off now sg) = run_id"
  "cm_action (signal_commit run_id n off now sg) = None"
  "last_authoritative (cm_events (signal_commit run_id n off now sg))"
  "ev_commit_offset (last (cm_events (signal_commit run_id n off now sg))) = off"
  by (simp_all add: signal_commit_def last_authoritative_def)

text \<open>
  The wiring of the actor: a log that keeps the contract, no schema migrator, and a recovery gate
  that leaves the log alone.
\<close>

locale actor_log = event_log_port append load invar retained
  for append :: "'l \<Rightarrow> action_commit \<Rightarrow> 'l \<times> string result"
    and load :: "'l \<Rightarrow> string \<Rightarrow> int \<Rightarrow> runtime_event list"
    and invar :: "'l \<Rightarrow> bool"
    and retained :: "'l \<Rightarrow> action_commit \<Rightarrow> string \<Rightarrow> bool" +
  fixes sv :: "('l, 's, 'w) actor_services"
  assumes sv_append: "sv_append sv = append"
    and sv_load: "sv_load sv = load"
    and no_migrator: "pc_event_schema_migrator (sv_projection sv) = None"
    and gate_read_only: "fst (fst (sv_decide sv l w x)) = l"
begin

lemmas mig = no_migrator_keeps_offset [OF no_migrator]

lemma current_total: "\<exists>p. current_projection sv run k = Inr p"
  unfolding current_projection_def by (rule replay_total [OF no_migrator])

lemma projection_get_synced:
  assumes "synced sv invar run k"
  obtains ps p where "projection_get sv run k = (k\<lparr>kn_projections := ps\<rparr>, Inr p)"
    "current_projection sv run k = Inr p" "synced sv invar run (k\<lparr>kn_projections := ps\<rparr>)"
proof -
  obtain ps res where g: "get_projection (sv_projection sv) (load (kn_log k)) (kn_projections k) run = (ps, res)"
    by fastforce
  have s: "invar (kn_log k)" "run_cached (sv_projection sv) (load (kn_log k)) (kn_projections k) run"
    using assms by (simp_all add: synced_def sv_load)
  note r = get_run_projection [OF s(1) mig s(2) g]
  obtain p where "current_projection sv run k = Inr p" using current_total by blast
  with r g assms show thesis
    by (intro that) (simp_all add: projection_get_def sv_load current_projection_def synced_def)
qed

lemma projection_catch_up_synced:
  assumes "synced sv invar run k"
  obtains ps p xs ys where "projection_catch_up sv run through k = (k\<lparr>kn_projections := ps\<rparr>, Inr p)"
    "synced sv invar run (k\<lparr>kn_projections := ps\<rparr>)" "load (kn_log k) run 0 = xs @ ys"
    "replay (sv_projection sv) (default_projection run) xs = Inr p"
    "\<forall>e\<in>set ys. ev_commit_offset e > through"
proof -
  obtain ps res where g: "catch_up (sv_projection sv) (load (kn_log k)) (kn_projections k) run through = (ps, res)"
    by fastforce
  have s: "invar (kn_log k)" "run_cached (sv_projection sv) (load (kn_log k)) (kn_projections k) run"
    using assms by (simp_all add: synced_def sv_load)
  note r = catch_up_run [OF s(1) mig s(2) g]
  have "\<exists>p. res = Inr p"
    using g replay_total [OF no_migrator] by (auto simp: catch_up_def Let_def split: sum.splits)
  then obtain p where p: "res = Inr p" by blast
  from r(2) [OF p] obtain xs ys where "load (kn_log k) run 0 = xs @ ys"
    "replay (sv_projection sv) (default_projection run) xs = Inr p" "\<forall>e\<in>set ys. ev_commit_offset e > through"
    by blast
  with r(1) g p assms show thesis
    by (intro that) (simp_all add: projection_catch_up_def sv_load synced_def)
qed

lemma readiness_synced:
  assumes "synced sv invar run k"
  obtains ps p where "projection_readiness sv run off k = (k\<lparr>kn_projections := ps\<rparr>, Inr (pr_projected_offset p \<ge> off))"
    "current_projection sv run k = Inr p" "synced sv invar run (k\<lparr>kn_projections := ps\<rparr>)"
proof -
  obtain ps p where g: "projection_get sv run k = (k\<lparr>kn_projections := ps\<rparr>, Inr p)"
    "current_projection sv run k = Inr p" "synced sv invar run (k\<lparr>kn_projections := ps\<rparr>)"
    by (rule projection_get_synced [OF assms])
  obtain qs where "get_projection (sv_projection sv) (sv_load sv (kn_log k)) (kn_projections k) run = (qs, Inr p)"
    "k\<lparr>kn_projections := qs\<rparr> = k\<lparr>kn_projections := ps\<rparr>"
    using g(1) by (auto simp: projection_get_def split: prod.splits)
  with g(2,3) show thesis
    by (intro that [of qs p]) (simp_all add: projection_readiness_def readiness_def)
qed

text \<open>Appending to the run, or to another run that does not push this one out.\<close>

lemma append_own:
  assumes "invar (kn_log k)" "append_commit sv commit k = (k', Inr ref)" "cm_run_id commit = run"
  obtains new where "kn_log k' = fst (append (kn_log k) commit)" "invar (kn_log k')"
    "load (kn_log k') run 0 = load (kn_log k) run 0 @ new" "list_all2 same_event (cm_events commit) new"
    "offsets_from (int (length (load (kn_log k) run 0)) + 1) new" "k' = k\<lparr>kn_log := kn_log k'\<rparr>"
proof -
  obtain l where l: "append (kn_log k) commit = (l, Inr ref)" "k' = k\<lparr>kn_log := l\<rparr>"
    using assms(2) by (auto simp: append_commit_def sv_append split: prod.splits)
  from append_next_offsets [OF assms(1) l(1)] append_invar [OF assms(1) l(1)] l assms(3) that show thesis
    by fastforce
qed

lemma append_synced:
  assumes s: "synced sv invar run k" and run: "append_commit sv commit k = (k', res)"
    and own: "cm_run_id commit = run \<Longrightarrow> last_authoritative (cm_events commit)"
    and other: "cm_run_id commit \<noteq> run \<Longrightarrow> retained (kn_log k) commit run"
  shows "synced sv invar run k'"
proof -
  have inv: "invar (kn_log k)" using s by (simp add: synced_def)
  obtain l where l: "append (kn_log k) commit = (l, res)" "k' = k\<lparr>kn_log := l\<rparr>"
    using run by (auto simp: append_commit_def sv_append split: prod.splits)
  have inv': "invar l" using append_invar [OF inv l(1)] .
  show ?thesis
  proof (cases "cm_run_id commit = run \<and> is_ok res")
    case True
    then obtain ref where "res = Inr ref" by (cases res) auto
    with append_own [OF inv _ conjunct1 [OF True], of k' ref] run obtain new where
      new: "load l run 0 = load (kn_log k) run 0 @ new" "list_all2 same_event (cm_events commit) new"
      using l(2) by auto
    have la: "last_authoritative (cm_events commit)" using own True by simp
    then have ne: "new \<noteq> []" using new(2) by (auto simp: last_authoritative_def)
    then have "same_event (last (cm_events commit)) (last new)"
      using new(2) la by (simp add: last_authoritative_def list_all2_conv_all_nth last_conv_nth)
    then have "\<not> skipped (sv_projection sv) (last new)"
      using la no_migrator_skipped [OF no_migrator] same_event_fields(1) by (fastforce simp: last_authoritative_def)
    then show ?thesis
      using s l(2) inv' new(1) ne by (auto simp: synced_def sv_load run_cached_def) (metis append.assoc)
  next
    case False
    then have "load l run 0 = load (kn_log k) run 0"
      using append_error [OF inv, of commit l] append_other [OF inv, of commit l] l(1) other
      by (cases res) auto
    then show ?thesis using s l(2) inv' by (simp add: synced_def sv_load run_cached_def)
  qed
qed

text \<open>Calls that leave the log and the projections alone.\<close>

definition frame_act :: "(('l, 's, 'w) kernel_state, 'a) act \<Rightarrow> bool" where
  "frame_act m \<longleftrightarrow> (\<forall>k. kn_log (fst (m k)) = kn_log k \<and> kn_projections (fst (m k)) = kn_projections k
     \<and> kn_deduper (fst (m k)) = kn_deduper k)"

lemma frame_calls:
  "frame_act (env_call f x)" "frame_act (engine_turn sv i a)" "frame_act (ledger_mark_unknown sv key)"
  "frame_act (recovery_decide sv y)"
  using gate_read_only
  by (auto simp: frame_act_def env_call_def engine_turn_def ledger_mark_unknown_def recovery_decide_def
      set_env_def split: option.splits prod.splits) (metis fst_conv)

lemma frame_synced: "frame_act m \<Longrightarrow> preserves (synced sv invar run) m"
  unfolding preserves_def frame_act_def by (metis synced_cong)

lemmas frame_synced_calls [preserves_intros] = frame_calls [THEN frame_synced]

lemma append_commit_synced [preserves_intros]:
  "cm_run_id commit = run \<Longrightarrow> last_authoritative (cm_events commit) \<Longrightarrow>
     preserves (synced sv invar run) (append_commit sv commit)"
  by (rule preservesI) (erule append_synced, assumption, simp_all)

lemma projection_get_preserves [preserves_intros]: "preserves (synced sv invar run) (projection_get sv run)"
proof (rule preservesI)
  fix k k' r
  assume s: "synced sv invar run k" and run: "projection_get sv run k = (k', r)"
  obtain ps p where "projection_get sv run k = (k\<lparr>kn_projections := ps\<rparr>, Inr p)"
    "synced sv invar run (k\<lparr>kn_projections := ps\<rparr>)" by (rule projection_get_synced [OF s])
  then show "synced sv invar run k'" using run by simp
qed

lemma projection_catch_up_preserves [preserves_intros]:
  "preserves (synced sv invar run) (projection_catch_up sv run through)"
proof (rule preservesI)
  fix k k' r
  assume s: "synced sv invar run k" and run: "projection_catch_up sv run through k = (k', r)"
  obtain ps p where "projection_catch_up sv run through k = (k\<lparr>kn_projections := ps\<rparr>, Inr p)"
    "synced sv invar run (k\<lparr>kn_projections := ps\<rparr>)" by (rule projection_catch_up_synced [OF s])
  then show "synced sv invar run k'" using run by simp
qed

lemma readiness_preserves [preserves_intros]:
  "preserves (synced sv invar run) (projection_readiness sv run off)"
proof (rule preservesI)
  fix k k' r
  assume s: "synced sv invar run k" and run: "projection_readiness sv run off k = (k', r)"
  obtain ps p where "projection_readiness sv run off k = (k\<lparr>kn_projections := ps\<rparr>, Inr (pr_projected_offset p \<ge> off))"
    "current_projection sv run k = Inr p" "synced sv invar run (k\<lparr>kn_projections := ps\<rparr>)"
    by (rule readiness_synced [OF s])
  then show "synced sv invar run k'" using run by simp
qed

lemma decision_round_synced [preserves_intros]:
  "preserves (synced sv invar run) (decision_round sv run off a p)"
  unfolding decision_round_def turn_round_def record_turn_outcome_def append_turn_outcome_commit_def
    recover_action_def append_recovery_event_def assert_single_dispatch_attempt_in_turn_def
    assert_recovery_event_type_allowed_def
  by (intro preserves_intros) simp_all

text \<open>An actor of the run, in step with the log.\<close>

definition actor_ok :: "string \<Rightarrow> ('l, 's, 'w) actor_state \<Rightarrow> bool" where
  "actor_ok run st \<longleftrightarrow> synced sv invar run (fst st) \<and> ra_run_id (snd st) = Some run"

lemma on_fst_actor_ok [preserves_intros]:
  "preserves (synced sv invar run) m \<Longrightarrow> preserves (actor_ok run) (on_fst m)"
  by (rule preserves_on_fst) (auto simp: preserves_def actor_ok_def)

lemma process_action_commit_ok [preserves_intros]:
  "preserves (actor_ok (cm_run_id commit)) (process_action_commit sv commit)"
  unfolding process_action_commit_def assert_no_derived_diagnostic_authority_input_def last_event_offset_def
  by (intro preserves_intros) (auto simp: actor_ok_def synced_def)

text \<open>What processing a commit of the run does before the decision.\<close>

lemma process_run:
  assumes s: "synced sv invar (cm_run_id commit) k" and c: "decidable_commit commit"
  obtains qs p q where
    "process_action_commit sv commit (k, a) =
       (if ev_commit_offset (last (cm_events commit)) \<le> pr_projected_offset q
           \<and> \<not> fingerprint_seen (commit_fingerprint commit) k
        then decide_commit sv commit p
          (mark_decided commit (k\<lparr>kn_projections := qs\<rparr>), a\<lparr>ra_last_projection := Some p\<rparr>)
        else ((k\<lparr>kn_projections := qs\<rparr>, a\<lparr>ra_last_projection := Some p\<rparr>), Inr ()))"
    "current_projection sv (cm_run_id commit) k = Inr q" "synced sv invar (cm_run_id commit) (k\<lparr>kn_projections := qs\<rparr>)"
    "\<exists>xs ys. load (kn_log k) (cm_run_id commit) 0 = xs @ ys
       \<and> replay (sv_projection sv) (default_projection (cm_run_id commit)) xs = Inr p
       \<and> (\<forall>e\<in>set ys. ev_commit_offset e > ev_commit_offset (last (cm_events commit)))"
proof -
  let ?run = "cm_run_id commit" and ?off = "ev_commit_offset (last (cm_events commit))"
  obtain ps p xs ys where cu: "projection_catch_up sv ?run ?off k = (k\<lparr>kn_projections := ps\<rparr>, Inr p)"
    "synced sv invar ?run (k\<lparr>kn_projections := ps\<rparr>)" "load (kn_log k) ?run 0 = xs @ ys"
    "replay (sv_projection sv) (default_projection ?run) xs = Inr p" "\<forall>e\<in>set ys. ev_commit_offset e > ?off"
    by (rule projection_catch_up_synced [OF s])
  obtain qs q where rd: "projection_readiness sv ?run ?off (k\<lparr>kn_projections := ps\<rparr>) =
      (k\<lparr>kn_projections := qs\<rparr>, Inr (pr_projected_offset q \<ge> ?off))"
    "current_projection sv ?run (k\<lparr>kn_projections := ps\<rparr>) = Inr q" "synced sv invar ?run (k\<lparr>kn_projections := qs\<rparr>)"
    using readiness_synced [OF cu(2), of ?off] by auto
  have "current_projection sv ?run k = Inr q" using rd(2) by (simp add: current_projection_def)
  moreover have "\<exists>xs ys. load (kn_log k) ?run 0 = xs @ ys \<and> replay (sv_projection sv) (default_projection ?run) xs = Inr p
      \<and> (\<forall>e\<in>set ys. ev_commit_offset e > ?off)"
    using cu(3-5) by blast
  ultimately show thesis using rd(1,3) cu(1) c
    by (intro that [of q p qs])
      (simp_all add: process_action_commit_def assert_no_derived_diagnostic_authority_input_def decidable_commit_def
        last_event_offset_def on_fst_def bind_act_def list_ex_iff list_all_iff fingerprint_seen_def
        commit_fingerprint_def decide_commit_def mark_decided_def split: option.split)
qed

text \<open>Processing a commit of the run without an action only refreshes the projection.\<close>

lemma process_plain_commit:
  assumes s: "synced sv invar run k" and c: "cm_run_id commit = run" "cm_action commit = None" "decidable_commit commit"
  obtains k' p where "process_action_commit sv commit (k, a) = ((k', a\<lparr>ra_last_projection := Some p\<rparr>), Inr ())"
    "synced sv invar run k'" "kn_log k' = kn_log k" "kn_turn k' = kn_turn k"
    "set (kn_deduper k) \<subseteq> set (kn_deduper k')"
    "\<exists>xs ys. load (kn_log k) run 0 = xs @ ys \<and> replay (sv_projection sv) (default_projection run) xs = Inr p
       \<and> (\<forall>e\<in>set ys. ev_commit_offset e > ev_commit_offset (last (cm_events commit)))"
proof (rule process_run [OF s [folded c(1)] c(3), of a], goal_cases)
  case (1 qs p q)
  let ?c = "ev_commit_offset (last (cm_events commit)) \<le> pr_projected_offset q
    \<and> \<not> fingerprint_seen (commit_fingerprint commit) k"
  let ?k = "if ?c then mark_decided commit (k\<lparr>kn_projections := qs\<rparr>) else k\<lparr>kn_projections := qs\<rparr>"
  have "process_action_commit sv commit (k, a) = ((?k, a\<lparr>ra_last_projection := Some p\<rparr>), Inr ())"
    using 1(2) c(2) by (simp add: decide_commit_def)
  moreover have "synced sv invar run ?k" using 1(4) c(1) by (simp add: synced_def mark_decided_def)
  ultimately show ?case
    using 1(1) [of ?k p] 1(5) c(1) by (auto simp: mark_decided_def deduper_mark_def split: if_splits)
qed

text \<open>The current projection has seen the whole log.\<close>

lemma synced_offset:
  assumes s: "synced sv invar run k" and p: "current_projection sv run k = Inr p"
  shows "pr_projected_offset p = int (length (load (kn_log k) run 0))"
proof (cases "load (kn_log k) run 0" rule: rev_cases)
  case Nil
  then show ?thesis using p by (auto simp: current_projection_def sv_load)
next
  case (snoc es e)
  have "\<not> skipped (sv_projection sv) e" using s snoc by (simp add: synced_def sv_load)
  then have "pr_projected_offset p = ev_commit_offset e"
    using replay_snoc_offset [OF no_migrator] p snoc by (simp add: current_projection_def sv_load)
  moreover have "offsets_from 1 (es @ [e])" using load_offsets [of "kn_log k" run] s snoc by (simp add: synced_def)
  then have "ev_commit_offset e = 1 + int (length es)" by (simp add: offsets_from_append offsets_from_Cons)
  ultimately show ?thesis using snoc by simp
qed

lemma load_offset_le:
  assumes "invar s" "e \<in> set (load s run 0)"
  shows "ev_commit_offset e \<le> int (length (load s run 0))"
proof -
  have "map ev_commit_offset (load s run 0) = map (\<lambda>i. 1 + int i) [0..<length (load s run 0)]"
    using load_offsets [OF assms(1), of run] by (simp add: offsets_from_def)
  then have "ev_commit_offset e \<in> set (map (\<lambda>i. 1 + int i) [0..<length (load s run 0)])"
    using assms(2) by (metis image_eqI set_map)
  then show ?thesis by auto
qed

text \<open>
  A signal that passes the guards: either its append fails and nothing of the run changes, or its
  event is the next event of the run, the actor remembers it, and its projection is current.
\<close>

lemma deliver_signal_run:
  assumes s: "synced sv invar run k"
  obtains
    (append_failed) k' e where
      "deliver_signal inw sv run sg (k, a) = ((k', a\<lparr>ra_signal_sequence := ra_signal_sequence a + 1\<rparr>), Inl e)"
      "synced sv invar run k'" "load (kn_log k') run 0 = load (kn_log k) run 0" "kn_turn k' = kn_turn k"
      "kn_deduper k' = kn_deduper k"
      "\<exists>commit. cm_events commit \<noteq> [] \<and> snd (append (kn_log k) commit) = Inl e"
  | (committed) k' a' p new where
      "fst (deliver_signal inw sv run sg (k, a)) = (k', a')"
      "a' = (signal_received a sg p)\<lparr>ra_continued_as := ra_continued_as a'\<rparr>"
      "synced sv invar run k'" "current_projection sv run k' = Inr p"
      "load (kn_log k') run 0 = load (kn_log k) run 0 @ [new]"
      "ev_event_type new = signal_event_type (sig_signal_type sg)"
      "ev_event_authority new = Authoritative_fact"
      "kn_turn k' = kn_turn k" "set (kn_deduper k) \<subseteq> set (kn_deduper k')"
      "snd (deliver_signal inw sv run sg (k, a)) = Inr () \<or> inw \<and> ra_continued_as a' \<noteq> None"
proof -
  obtain ps p0 where g: "projection_get sv run k = (k\<lparr>kn_projections := ps\<rparr>, Inr p0)"
    "current_projection sv run k = Inr p0" "synced sv invar run (k\<lparr>kn_projections := ps\<rparr>)"
    by (rule projection_get_synced [OF s])
  let ?n = "ra_signal_sequence a + 1"
  define commit where "commit = signal_commit run ?n (pr_projected_offset p0 + 1)
    (now_iso sv (k\<lparr>kn_projections := ps\<rparr>)) sg"
  obtain k2 res where ap: "append_commit sv commit (k\<lparr>kn_projections := ps\<rparr>) = (k2, res)" by fastforce
  have ev: "cm_events commit = [last (cm_events commit)]"
    "ev_event_type (last (cm_events commit)) = signal_event_type (sig_signal_type sg)"
    "ev_event_authority (last (cm_events commit)) = Authoritative_fact"
    by (simp_all add: commit_def signal_commit_def)
  have s2: "synced sv invar run k2"
    by (rule append_synced [OF g(3) ap]) (simp_all add: commit_def)
  have k2: "kn_turn k2 = kn_turn k" "kn_deduper k2 = kn_deduper k"
    using ap by (auto simp: append_commit_def split: prod.splits)
  have inv: "invar (kn_log k)" using s by (simp add: synced_def)
  show thesis
  proof (cases res)
    case (Inl e)
    have "load (kn_log k2) run 0 = load (kn_log k) run 0"
      using ap Inl append_error [OF inv, of commit] by (auto simp: append_commit_def sv_append split: prod.splits)
    moreover have "deliver_signal inw sv run sg (k, a) = ((k2, a\<lparr>ra_signal_sequence := ?n\<rparr>), Inl e)"
      using g(1) ap Inl by (simp add: deliver_signal_def on_fst_def bind_act_def commit_def)
    moreover have "cm_events commit \<noteq> [] \<and> snd (append (kn_log k) commit) = Inl e"
      using ap Inl ev(1) by (auto simp: append_commit_def sv_append split: prod.splits)
    ultimately show thesis using append_failed s2 k2 by blast
  next
    case (Inr ref)
    have inv1: "invar (kn_log (k\<lparr>kn_projections := ps\<rparr>))" using inv by simp
    have own: "cm_run_id commit = run" by (simp add: commit_def)
    have plain: "cm_action commit = None" "decidable_commit commit"
      by (simp_all add: commit_def signal_commit_def decidable_commit_def)
    obtain new where "kn_log k2 = fst (append (kn_log (k\<lparr>kn_projections := ps\<rparr>)) commit)" "invar (kn_log k2)"
      "load (kn_log k2) run 0 = load (kn_log (k\<lparr>kn_projections := ps\<rparr>)) run 0 @ new"
      "list_all2 same_event (cm_events commit) new"
      "offsets_from (int (length (load (kn_log (k\<lparr>kn_projections := ps\<rparr>)) run 0)) + 1) new"
      "k2 = (k\<lparr>kn_projections := ps\<rparr>)\<lparr>kn_log := kn_log k2\<rparr>"
      by (rule append_own [OF inv1 ap [unfolded Inr] own])
    then have new: "load (kn_log k2) run 0 = load (kn_log k) run 0 @ new"
      "list_all2 same_event (cm_events commit) new" "invar (kn_log k2)" by simp_all
    then obtain e where e: "new = [e]" "same_event (last (cm_events commit)) e"
      using ev(1) by (metis list_all2_Cons1 list_all2_Nil)
    let ?a2 = "a\<lparr>ra_signal_sequence := ?n, ra_seen_signal_tokens := ra_seen_signal_tokens a @
      (case signal_token sg of None \<Rightarrow> [] | Some t \<Rightarrow> [t])\<rparr>"
    obtain k3 p where pr: "process_action_commit sv commit (k2, ?a2) = ((k3, ?a2\<lparr>ra_last_projection := Some p\<rparr>), Inr ())"
      "synced sv invar run k3" "kn_log k3 = kn_log k2" "kn_turn k3 = kn_turn k2"
      "set (kn_deduper k2) \<subseteq> set (kn_deduper k3)"
      "\<exists>xs ys. load (kn_log k2) run 0 = xs @ ys \<and> replay (sv_projection sv) (default_projection run) xs = Inr p
         \<and> (\<forall>e\<in>set ys. ev_commit_offset e > ev_commit_offset (last (cm_events commit)))"
      by (rule process_plain_commit [OF s2 own plain, of ?a2])
    have len: "ev_commit_offset (last (cm_events commit)) = int (length (load (kn_log k2) run 0))"
      using synced_offset [OF s g(2)] new(1) e(1) by (simp add: commit_def)
    obtain xs ys where xy: "load (kn_log k2) run 0 = xs @ ys"
      "replay (sv_projection sv) (default_projection run) xs = Inr p"
      "\<forall>e\<in>set ys. ev_commit_offset e > ev_commit_offset (last (cm_events commit))" using pr(6) by blast
    have "ys = []"
    proof (rule ccontr)
      assume "ys \<noteq> []"
      then have "hd ys \<in> set ys" by simp
      then show False using xy(1,3) load_offset_le [OF new(3), of "hd ys" run] len by fastforce
    qed
    then have cur: "current_projection sv run k3 = Inr p"
      using xy(1,2) pr(3) by (simp add: current_projection_def sv_load)
    let ?a4 = "signal_received a sg p"
    let ?c = "should_continue_as_new inw sv ?a4"
    have tok: "remember_signal sg (a\<lparr>ra_signal_sequence := ?n\<rparr>) = ?a2"
      by (cases "signal_token sg") (simp_all add: remember_signal_def)
    have a4: "(?a2\<lparr>ra_last_projection := Some p\<rparr>)\<lparr>ra_history_event_count := ra_history_event_count a + 1\<rparr> = ?a4"
      by (simp add: signal_received_def)
    have run: "deliver_signal inw sv run sg (k, a) =
        (if ?c then trigger_continue_as_new run (k3, ?a4) else ((k3, ?a4), Inr ()))"
      unfolding deliver_signal_def using g(1) ap Inr pr(1) a4
      by (simp add: on_fst_def bind_act_def commit_def [symmetric] tok)
    have "\<exists>c. fst (deliver_signal inw sv run sg (k, a)) = (k3, ?a4\<lparr>ra_continued_as := c\<rparr>)
      \<and> (snd (deliver_signal inw sv run sg (k, a)) = Inr () \<or> inw \<and> c \<noteq> None)"
    proof (cases ?c)
      case True
      then show ?thesis unfolding run by (auto simp: trigger_continue_as_new_def should_continue_as_new_def)
    next
      case False
      have "?a4 = ?a4\<lparr>ra_continued_as := ra_continued_as ?a4\<rparr>" by simp
      then show ?thesis unfolding run using False by (intro exI [of _ "ra_continued_as ?a4"]) simp
    qed
    then obtain c where c: "fst (deliver_signal inw sv run sg (k, a)) = (k3, ?a4\<lparr>ra_continued_as := c\<rparr>)"
      and ok: "snd (deliver_signal inw sv run sg (k, a)) = Inr () \<or> inw \<and> c \<noteq> None" by blast
    show thesis
      using committed [OF c _ pr(2) cur, of e] ok new(1) e pr k2 ev(2,3) same_event_fields(2)
        same_event_fields(1) by simp
  qed
qed

lemma handle_signal_ok [preserves_intros]: "preserves (actor_ok run) (handle_signal inw sv sg)"
proof (rule preservesI)
  fix st st' res
  assume ok: "actor_ok run st" and run: "handle_signal inw sv sg st = (st', res)"
  obtain k a where st: "st = (k, a)" by (rule prod.exhaust)
  have s: "synced sv invar run k" and id: "ra_run_id a = Some run" using ok st by (simp_all add: actor_ok_def)
  have "st' = st \<or> st' = fst (deliver_signal inw sv run sg (k, a))"
    using run st id by (auto simp: handle_signal_def split: if_splits)
  moreover have "actor_ok run (fst (deliver_signal inw sv run sg (k, a)))"
  proof (rule deliver_signal_run [OF s, of inw sg a])
    fix k' a' p new
    assume "fst (deliver_signal inw sv run sg (k, a)) = (k', a')"
      "a' = (signal_received a sg p)\<lparr>ra_continued_as := ra_continued_as a'\<rparr>" "synced sv invar run k'"
    moreover from this(2) have "ra_run_id a' = ra_run_id a"
      by (metis (no_types, lifting) run_actor.select_convs(1) run_actor.surjective run_actor.update_convs(3,6,9,10,11,12) signal_received_def)
    ultimately show ?thesis using id by (simp add: actor_ok_def)
  qed (use id in \<open>simp add: actor_ok_def\<close>)
  ultimately show "actor_ok run st'" using ok by auto
qed

lemma handle_signals_ok [preserves_intros]: "preserves (actor_ok run) (handle_signals inw sv sgs)"
proof (induction sgs)
  case Nil
  show ?case unfolding handle_signals.simps by (rule preserves_pure(1))
next
  case (Cons sg sgs)
  then show ?case unfolding handle_signals.simps by (intro preserves_bind handle_signal_ok)
qed

lemma signal_actor_ok [preserves_intros]: "preserves (actor_ok run) (signal_actor inw sv sg)"
  using handle_signal_ok [of run inw sg]
  by (auto simp: preserves_def signal_actor_def actor_ok_def)

lemma actor_step_ok: "actor_step inw sv retained run st st' \<Longrightarrow> actor_ok run st \<Longrightarrow> actor_ok run st'"
proof (induction rule: actor_step.induct)
  case (signal_step sg st st' res)
  then show ?case using preservesD [OF signal_actor_ok] by blast
next
  case (decide_step commit st st' res)
  then show ?case using preservesD [OF process_action_commit_ok] by blast
next
  case (commit_step commit k k' res a)
  then show ?case using append_synced [of run k commit k' res] by (simp add: actor_ok_def)
next
  case (read_step r k k' res a)
  show ?case
  proof (cases "r = run")
    case True
    then show ?thesis using read_step preservesD [OF projection_get_preserves, of run k k' res] by (simp add: actor_ok_def)
  next
    case False
    then show ?thesis using read_step
      by (auto simp: actor_ok_def synced_def run_cached_def projection_get_def get_projection_def Let_def
          split: sum.splits)
  qed
qed

lemma pin_policy_versions_ok:
  "preserves (actor_ok run) (bind_act
     (read_act (\<lambda>(k, a). policy_versions_pinned_commit run (now_iso sv k) pv)) (\<lambda>commit. on_fst (append_commit sv commit)))"
proof (rule preservesI)
  fix st st' res
  assume ok: "actor_ok run st" and st': "bind_act (read_act (\<lambda>(k, a). policy_versions_pinned_commit run (now_iso sv k) pv))
     (\<lambda>commit. on_fst (append_commit sv commit)) st = (st', res)"
  obtain k a where st: "st = (k, a)" by (rule prod.exhaust)
  let ?c = "policy_versions_pinned_commit run (now_iso sv k) pv"
  obtain k' where k': "append_commit sv ?c k = (k', res)" "st' = (k', a)"
    using st' st by (auto simp: on_fst_def split: prod.splits)
  have "synced sv invar run k'"
    by (rule append_synced [OF _ k'(1)])
      (use ok st in \<open>simp_all add: actor_ok_def policy_versions_pinned_commit_def actor_commit_def last_authoritative_def actor_event_def\<close>)
  then show "actor_ok run st'" using ok st k'(2) by (simp add: actor_ok_def)
qed

lemma run_start_ok:
  assumes "synced sv invar (in_run_id i) k"
  shows "actor_ok (in_run_id i) (fst (run_start inw sv i (k, a)))"
proof -
  let ?run = "in_run_id i"
  let ?a = "a\<lparr>ra_run_id := Some ?run, ra_session_id := in_session_id i, ra_parent_run_id := in_parent_run_id i,
    ra_policy_versions := in_policy_versions i, ra_active_stage_id := in_initial_stage_id i\<rparr>"
  have read: "preserves (actor_ok ?run) (on_fst (projection_get sv ?run))"
    by (rule preserves_on_fst)
      (use projection_get_preserves in \<open>auto simp: actor_ok_def preserves_def\<close>)
  have ok: "actor_ok ?run (k, ?a)" using assms by (simp add: actor_ok_def)
  show ?thesis
    unfolding run_start_def
    by (subst bind_act_return(3), unfold prod.case, rule preserves_run [where P = "actor_ok ?run", OF _ ok])
      (intro preserves_bind preserves_modify preserves_option preserves_pure handle_signals_ok
        pin_policy_versions_ok read, auto simp: actor_ok_def)
qed

lemma actor_reachable_ok:
  assumes "invar l0" "load l0 (in_run_id i) 0 = []" "actor_reachable inw sv retained l0 tw i st"
  shows "actor_ok (in_run_id i) st"
proof -
  let ?k = "\<lparr>kn_log = l0, kn_projections = [], kn_deduper = [], kn_turn = tw\<rparr>"
  have "synced sv invar (in_run_id i) ?k"
    using assms(1,2) by (simp add: synced_def run_cached_def dict_get_def sv_load)
  note start = run_start_ok [OF this, of inw RunActorWorkflow]
  from assms(3) show ?thesis unfolding actor_reachable_def
    by (induction rule: rtranclp_induct) (use start in \<open>auto intro: actor_step_ok\<close>)
qed

end

end
