(* ===== verification/Turn_Trace.thy ===== *)
theory Turn_Trace
  imports Turn_Engine
begin

text \<open>
  The trace a turn leaves: a turn that returns reports the events it emitted, and a turn emits
  the dispatch event at most once, which the run actor asserts of every turn.
\<close>

definition dispatch_attempts :: "turn_state_event list \<Rightarrow> nat" where
  "dispatch_attempts evs = length (filter (\<lambda>e. se_state e = ''dispatched'') evs)"

lemma dispatch_attempts_simps [simp]:
  "dispatch_attempts [] = 0"
  "dispatch_attempts (xs @ ys) = dispatch_attempts xs + dispatch_attempts ys"
  "dispatch_attempts (e # es) = (if se_state e = ''dispatched'' then 1 else 0) + dispatch_attempts es"
  by (simp_all add: dispatch_attempts_def)

text \<open>What one phase adds: \<open>n\<close> dispatch events at most, and a result that reports the events.\<close>

definition traced :: "nat \<Rightarrow> turn_phase_context \<Rightarrow> turn_phase_context result \<Rightarrow> bool" where
  "traced n ctx r \<longleftrightarrow>
     (\<forall>ctx'. r = Inr ctx' \<longrightarrow>
        dispatch_attempts (tc_emitted_events ctx') \<le> dispatch_attempts (tc_emitted_events ctx) + n
        \<and> (tc_result ctx = None \<longrightarrow> (\<forall>tr. tc_result ctx' = Some tr \<longrightarrow> tr_emitted_events tr = tc_emitted_events ctx')))"

lemma result_events [simp]:
  "tr_emitted_events (turn_result_of st kind tid evs) = evs"
  "tr_emitted_events (noop_result i evs) = evs"
  "tr_emitted_events (blocked_result tid dp evs) = evs"
  "tr_emitted_events (build_recovery_pending_turn_result i a tid x hk rpd evs) = evs"
  by (simp_all add: turn_result_of_def noop_result_def blocked_result_def
      build_recovery_pending_turn_result_def Let_def)

lemmas trace_simps = traced_def conclude_def conclude_noop_def emit_def TurnStateEvent_def

lemma traced_noop: "traced 0 ctx (snd (phase_noop_or_reasoning eng ctx w))"
  by (auto simp: phase_noop_or_reasoning_def trace_simps Let_def split: option.splits prod.splits sum.splits list.splits)

lemma traced_snapshot: "traced 0 ctx (snd (phase_snapshot eng ctx w))"
  by (auto simp: phase_snapshot_def trace_simps Let_def split: option.splits sum.splits if_splits)

lemma traced_admission: "traced 0 ctx (snd (phase_admission eng ctx w))"
  by (auto simp: phase_admission_def trace_simps Let_def split: option.splits prod.splits sum.splits if_splits)

lemma traced_dispatch_policy: "traced 0 ctx (snd (phase_dispatch_policy eng ctx w))"
  by (auto simp: phase_dispatch_policy_def trace_simps Let_def split: option.splits prod.splits)

lemma reserve_events:
  "reserve_with_degradation port s env a hk = (s', Inr (res, env', available, evs)) \<Longrightarrow> dispatch_attempts evs = 0"
  by (auto simp: reserve_with_degradation_def Let_def split: prod.splits sum.splits if_splits)

lemma traced_dedupe: "traced 1 ctx (snd (phase_dedupe eng ctx w))"
  by (auto simp: phase_dedupe_def trace_simps Let_def dest!: reserve_events
      split: option.splits prod.splits sum.splits if_splits)

lemma traced_execute: "traced 0 ctx (snd (phase_execute eng ctx w))"
  by (auto simp: phase_execute_def record_outcome_def trace_simps Let_def
      split: option.splits prod.splits sum.splits if_splits)

lemma traced_phase:
  "traced (if name = ''_phase_dedupe'' then 1 else 0) ctx (snd (run_phase eng name ctx w))"
  using traced_noop [of ctx eng w] traced_snapshot [of ctx eng w] traced_admission [of ctx eng w]
    traced_dispatch_policy [of ctx eng w] traced_dedupe [of ctx eng w] traced_execute [of ctx eng w]
  by (simp add: run_phase_def traced_def)

lemma run_phases_traced:
  assumes "run_phases eng phases ctx w = (w', Inr tr)" "tc_result ctx = None"
  shows "dispatch_attempts (tr_emitted_events tr) \<le>
    dispatch_attempts (tc_emitted_events ctx) + length (filter (\<lambda>p. p = ''_phase_dedupe'') phases)"
  using assms
proof (induction phases arbitrary: ctx w)
  case (Cons p phases)
  obtain w1 r where p: "run_phase eng p ctx w = (w1, r)" by fastforce
  then obtain ctx1 where r: "r = Inr ctx1" using Cons.prems(1) by (cases r) auto
  have t: "traced (if p = ''_phase_dedupe'' then 1 else 0) ctx (Inr ctx1)"
    using traced_phase [of p ctx eng w] p r by simp
  show ?case
  proof (cases "tc_result ctx1")
    case None
    then have "dispatch_attempts (tr_emitted_events tr) \<le>
        dispatch_attempts (tc_emitted_events ctx1) + length (filter (\<lambda>p. p = ''_phase_dedupe'') phases)"
      using Cons.IH [of ctx1 w1] Cons.prems(1) p r by simp
    with t show ?thesis by (auto simp: traced_def split: if_splits)
  next
    case (Some tr')
    then show ?thesis using t Cons.prems p r by (auto simp: traced_def split: if_splits)
  qed
qed simp

lemma run_turn_single_dispatch:
  "run_turn eng i a w = (w', Inr tr) \<Longrightarrow> dispatch_attempts (tr_emitted_events tr) \<le> 1"
  unfolding run_turn_def
  by (drule run_phases_traced) (simp_all add: initial_context_def TURN_PHASES_def TurnStateEvent_def)

end
