(* ===== verification/SQLite_Dedupe.thy ===== *)
theory SQLite_Dedupe
  imports Dedupe_Store
begin

text \<open>
  \<^verbatim>\<open>persistence/sqlite_dedupe_store.py\<close>: the same port on a SQLite table.  The database is a
  list of rows with the rows saved at \<^verbatim>\<open>BEGIN IMMEDIATE\<close> while a transaction is open, and a
  stream of faults: each statement may raise \<^verbatim>\<open>sqlite3.OperationalError\<close> (a locked or failing
  database) before it has any effect.  \<^verbatim>\<open>ROLLBACK\<close> of an open transaction does not fail.  The
  store interprets the port's locale for every stream of faults, so a failed call leaves the
  ledger as it was.
\<close>

section \<open>Database statements\<close>

record sqlite_db =
  db_rows :: "dedupe_record list"
  db_saved :: "dedupe_record list option"
  db_faults :: "bool list"

definition sql_exec :: "sqlite_db \<Rightarrow> (sqlite_db \<Rightarrow> sqlite_db \<times> 'a result) \<Rightarrow> sqlite_db \<times> 'a result" where
  "sql_exec s f =
     (case db_faults s of
        [] \<Rightarrow> f s
      | b # fs \<Rightarrow>
          if b then (s\<lparr>db_faults := fs\<rparr>, Inl (OperationalError ''database is locked''))
          else f (s\<lparr>db_faults := fs\<rparr>))"

definition begin_immediate :: "sqlite_db \<Rightarrow> sqlite_db \<times> unit result" where
  "begin_immediate s = sql_exec s (\<lambda>s.
     case db_saved s of
       None \<Rightarrow> (s\<lparr>db_saved := Some (db_rows s)\<rparr>, Inr ())
     | Some _ \<Rightarrow> (s, Inl (OperationalError ''cannot start a transaction within a transaction'')))"

definition commit_tx :: "sqlite_db \<Rightarrow> sqlite_db \<times> unit result" where
  "commit_tx s = sql_exec s (\<lambda>s.
     case db_saved s of
       None \<Rightarrow> (s, Inl (OperationalError ''cannot commit - no transaction is active''))
     | Some _ \<Rightarrow> (s\<lparr>db_saved := None\<rparr>, Inr ()))"

definition rollback_tx :: "sqlite_db \<Rightarrow> sqlite_db \<times> unit result" where
  "rollback_tx s =
     (case db_saved s of
        None \<Rightarrow> (s, Inl (OperationalError ''cannot rollback - no transaction is active''))
      | Some rows \<Rightarrow> (s\<lparr>db_rows := rows, db_saved := None\<rparr>, Inr ()))"

definition row_with_key :: "dedupe_record list \<Rightarrow> string \<Rightarrow> dedupe_record option" where
  "row_with_key rows k = find (\<lambda>r. dr_dispatch_idempotency_key r = k) rows"

definition insert_row :: "sqlite_db \<Rightarrow> dedupe_record \<Rightarrow> sqlite_db \<times> unit result" where
  "insert_row s r = sql_exec s (\<lambda>s.
     if row_with_key (db_rows s) (dr_dispatch_idempotency_key r) \<noteq> None
     then (s, Inl (OtherError ''IntegrityError'' ''UNIQUE constraint failed''))
     else (s\<lparr>db_rows := db_rows s @ [r]\<rparr>, Inr ()))"

text \<open>\<^verbatim>\<open>UPDATE ... WHERE dispatch_idempotency_key = ?\<close>, returning the row count.\<close>

definition update_rows ::
  "sqlite_db \<Rightarrow> string \<Rightarrow> (dedupe_record \<Rightarrow> dedupe_record) \<Rightarrow> sqlite_db \<times> nat result" where
  "update_rows s k f = sql_exec s (\<lambda>s.
     (s\<lparr>db_rows := map (\<lambda>r. if dr_dispatch_idempotency_key r = k then f r else r) (db_rows s)\<rparr>,
      Inr (length (filter (\<lambda>r. dr_dispatch_idempotency_key r = k) (db_rows s)))))"

section \<open>The store\<close>

definition sq_ensure_schema :: "bool list \<Rightarrow> sqlite_db" where
  "sq_ensure_schema faults = \<lparr>db_rows = [], db_saved = None, db_faults = faults\<rparr>"

definition sq_get :: "sqlite_db \<Rightarrow> string \<Rightarrow> sqlite_db \<times> dedupe_record option result" where
  "sq_get s k = sql_exec s (\<lambda>s. (s, Inr (row_with_key (db_rows s) k)))"

definition sq_get_required_record :: "sqlite_db \<Rightarrow> string \<Rightarrow> sqlite_db \<times> dedupe_record result" where
  "sq_get_required_record s k =
     (case sq_get s k of
        (s1, Inl e) \<Rightarrow> (s1, Inl e)
      | (s1, Inr None) \<Rightarrow>
          (s1, Inl (DedupeStoreStateError (''Unknown dispatch_idempotency_key: '' @ k @ ''.'')))
      | (s1, Inr (Some r)) \<Rightarrow> (s1, Inr r))"

definition sq_update_state ::
  "sqlite_db \<Rightarrow> string \<Rightarrow> dedupe_state \<Rightarrow> string option \<Rightarrow> string option \<Rightarrow> sqlite_db \<times> unit result" where
  "sq_update_state s k st peer ack =
     (case update_rows s k (\<lambda>r. r\<lparr>dr_state := st, dr_peer_operation_id := peer,
                                    dr_external_ack_ref := ack\<rparr>) of
        (s1, Inl e) \<Rightarrow> (s1, Inl e)
      | (s1, Inr n) \<Rightarrow>
          if n \<noteq> 1
          then (s1, Inl (DedupeStoreStateError (''Lost-update: key '' @ repr_str k @
            '' not found during state transition to '' @ repr_str (dedupe_state_str st) @ ''.'')))
          else (s1, Inr ()))"

text \<open>
  The shape shared by the four mark methods: \<^verbatim>\<open>BEGIN IMMEDIATE\<close>, a body and \<^verbatim>\<open>COMMIT\<close> in one
  \<^verbatim>\<open>try\<close>; on any exception a suppressed \<^verbatim>\<open>ROLLBACK\<close>, then the exception again.
\<close>

definition sq_transact ::
  "sqlite_db \<Rightarrow> (sqlite_db \<Rightarrow> sqlite_db \<times> 'a result) \<Rightarrow> sqlite_db \<times> 'a result" where
  "sq_transact s body =
     (case begin_immediate s of
        (s1, Inl e) \<Rightarrow> (fst (rollback_tx s1), Inl e)
      | (s1, Inr _) \<Rightarrow>
          (case body s1 of
             (s2, Inl e) \<Rightarrow> (fst (rollback_tx s2), Inl e)
           | (s2, Inr x) \<Rightarrow>
               (case commit_tx s2 of
                  (s3, Inl e) \<Rightarrow> (fst (rollback_tx s3), Inl e)
                | (s3, Inr _) \<Rightarrow> (s3, Inr x))))"

definition sq_mark_dispatched ::
  "sqlite_db \<Rightarrow> string \<Rightarrow> string option \<Rightarrow> sqlite_db \<times> unit result" where
  "sq_mark_dispatched s k peer = sq_transact s (\<lambda>s.
     case sq_get_required_record s k of
       (s1, Inl e) \<Rightarrow> (s1, Inl e)
     | (s1, Inr r) \<Rightarrow>
         if dr_state r \<notin> {Reserved, Dispatched}
         then (s1, Inl (cannot_transition (dr_state r) ''dispatched''))
         else sq_update_state s1 k Dispatched (or_else peer (dr_peer_operation_id r))
                (dr_external_ack_ref r))"

definition sq_mark_acknowledged ::
  "sqlite_db \<Rightarrow> string \<Rightarrow> string option \<Rightarrow> sqlite_db \<times> unit result" where
  "sq_mark_acknowledged s k ack = sq_transact s (\<lambda>s.
     case sq_get_required_record s k of
       (s1, Inl e) \<Rightarrow> (s1, Inl e)
     | (s1, Inr r) \<Rightarrow>
         if dr_state r \<notin> {Dispatched, Acknowledged}
         then (s1, Inl (cannot_transition (dr_state r) ''acknowledged''))
         else sq_update_state s1 k Acknowledged (dr_peer_operation_id r)
                (or_else ack (dr_external_ack_ref r)))"

definition sq_mark_succeeded ::
  "sqlite_db \<Rightarrow> string \<Rightarrow> string option \<Rightarrow> sqlite_db \<times> unit result" where
  "sq_mark_succeeded s k ack = sq_transact s (\<lambda>s.
     case sq_get_required_record s k of
       (s1, Inl e) \<Rightarrow> (s1, Inl e)
     | (s1, Inr r) \<Rightarrow>
         if dr_state r \<notin> {Acknowledged, Succeeded}
         then (s1, Inl (cannot_transition (dr_state r) ''succeeded''))
         else sq_update_state s1 k Succeeded (dr_peer_operation_id r)
                (or_else ack (dr_external_ack_ref r)))"

definition sq_mark_unknown_effect :: "sqlite_db \<Rightarrow> string \<Rightarrow> sqlite_db \<times> unit result" where
  "sq_mark_unknown_effect s k = sq_transact s (\<lambda>s.
     case sq_get_required_record s k of
       (s1, Inl e) \<Rightarrow> (s1, Inl e)
     | (s1, Inr r) \<Rightarrow>
         if dr_state r \<notin> {Dispatched, Unknown_effect}
         then (s1, Inl (cannot_transition (dr_state r) ''unknown_effect''))
         else sq_update_state s1 k Unknown_effect (dr_peer_operation_id r) (dr_external_ack_ref r))"

text \<open>An exception handler that rolls back without suppressing a failing \<^verbatim>\<open>ROLLBACK\<close>.\<close>

definition rollback_reraise :: "sqlite_db \<Rightarrow> exn \<Rightarrow> sqlite_db \<times> 'a result" where
  "rollback_reraise s e =
     (case rollback_tx s of (s1, Inl e') \<Rightarrow> (s1, Inl e') | (s1, Inr _) \<Rightarrow> (s1, Inl e))"

definition sq_insert_if_absent ::
  "sqlite_db \<Rightarrow> dedupe_record \<Rightarrow> (sqlite_db \<Rightarrow> exn \<Rightarrow> sqlite_db \<times> dedupe_reservation result)
     \<Rightarrow> sqlite_db \<times> dedupe_reservation result" where
  "sq_insert_if_absent s new handler =
     (case begin_immediate s of
        (s1, Inl e) \<Rightarrow> (s1, Inl e)
      | (s1, Inr _) \<Rightarrow>
          (case sq_get s1 (dr_dispatch_idempotency_key new) of
             (s2, Inl e) \<Rightarrow> handler s2 e
           | (s2, Inr (Some existing)) \<Rightarrow>
               (case rollback_tx s2 of
                  (s3, Inl e) \<Rightarrow> handler s3 e
                | (s3, Inr _) \<Rightarrow> (s3, Inr (duplicate_reservation existing)))
           | (s2, Inr None) \<Rightarrow>
               (case insert_row s2 new of
                  (s3, Inl e) \<Rightarrow> handler s3 e
                | (s3, Inr _) \<Rightarrow>
                    (case commit_tx s3 of
                       (s4, Inl e) \<Rightarrow> handler s4 e
                     | (s4, Inr _) \<Rightarrow> (s4, Inr accepted_reservation)))))"

definition sq_reserve :: "sqlite_db \<Rightarrow> idempotency_envelope \<Rightarrow> sqlite_db \<times> dedupe_reservation result" where
  "sq_reserve s env =
     sq_insert_if_absent s
       \<lparr>dr_dispatch_idempotency_key = en_dispatch_idempotency_key env,
        dr_operation_fingerprint = en_operation_fingerprint env,
        dr_attempt_seq = en_attempt_seq env,
        dr_state = Reserved,
        dr_peer_operation_id = en_peer_operation_id env,
        dr_external_ack_ref = None\<rparr>
       rollback_reraise"

definition sq_reserve_and_dispatch ::
  "sqlite_db \<Rightarrow> idempotency_envelope \<Rightarrow> string option \<Rightarrow> sqlite_db \<times> dedupe_reservation result" where
  "sq_reserve_and_dispatch s env peer =
     sq_insert_if_absent s
       \<lparr>dr_dispatch_idempotency_key = en_dispatch_idempotency_key env,
        dr_operation_fingerprint = en_operation_fingerprint env,
        dr_attempt_seq = en_attempt_seq env,
        dr_state = Dispatched,
        dr_peer_operation_id = or_else peer (en_peer_operation_id env),
        dr_external_ack_ref = None\<rparr>
       (\<lambda>s e. (fst (rollback_tx s), Inl e))"

section \<open>Counting the keys of a run\<close>

text \<open>
  SQLite's \<^verbatim>\<open>LIKE ... ESCAPE '\'\<close>: \<^verbatim>\<open>%\<close> matches any sequence and \<^verbatim>\<open>_\<close> any character, the escape
  character makes the next one literal, and letters are compared without regard to ASCII case.
\<close>

definition ascii_lower :: "char \<Rightarrow> char" where
  "ascii_lower c = (let n = of_char c :: nat in
     if 65 \<le> n \<and> n \<le> 90 then char_of (n + 32) else c)"

definition backslash :: char where
  "backslash = CHR 0x5C"

definition replace_char :: "char \<Rightarrow> string \<Rightarrow> string \<Rightarrow> string" where
  "replace_char c r s = concat (map (\<lambda>x. if x = c then r else [x]) s)"

definition like_escape :: "string \<Rightarrow> string" where
  "like_escape s =
     replace_char (CHR ''_'') [backslash, CHR ''_'']
       (replace_char (CHR ''%'') [backslash, CHR ''%'']
         (replace_char backslash [backslash, backslash] s))"

fun sql_like :: "string \<Rightarrow> string \<Rightarrow> bool" where
  "sql_like [] s = (s = [])"
| "sql_like (p # ps) s =
     (if p = CHR ''%'' then sql_like ps s \<or> (case s of [] \<Rightarrow> False | _ # s' \<Rightarrow> sql_like (p # ps) s')
      else if p = backslash then
        (case ps of [] \<Rightarrow> False
         | q # qs \<Rightarrow> (case s of [] \<Rightarrow> False | c # s' \<Rightarrow> ascii_lower q = ascii_lower c \<and> sql_like qs s'))
      else (case s of [] \<Rightarrow> False
         | c # s' \<Rightarrow> (p = CHR ''_'' \<or> ascii_lower p = ascii_lower c) \<and> sql_like ps s'))"

definition sq_count_by_run :: "sqlite_db \<Rightarrow> string \<Rightarrow> nat" where
  "sq_count_by_run s run_id =
     length (filter (\<lambda>r. sql_like (like_escape run_id @ '':%'') (dr_dispatch_idempotency_key r))
       (db_rows s))"

definition sq_port :: "sqlite_db dedupe_port" where
  "sq_port =
     \<lparr>port_reserve = sq_reserve,
      port_mark_dispatched = sq_mark_dispatched,
      port_mark_acknowledged = sq_mark_acknowledged,
      port_mark_succeeded = sq_mark_succeeded,
      port_mark_unknown_effect = sq_mark_unknown_effect,
      port_reserve_and_dispatch = sq_reserve_and_dispatch,
      port_get = sq_get\<rparr>"

section \<open>Transactions leave the table unchanged when they fail\<close>

lemmas sql_splits = list.splits option.splits sum.splits prod.splits if_splits

lemma begin_immediate_cases:
  assumes "db_saved s = None" "begin_immediate s = (s1, r)"
  shows "db_rows s1 = db_rows s"
    and "db_saved s1 = (if is_ok r then Some (db_rows s) else None)"
  using assms by (auto simp: begin_immediate_def sql_exec_def split: sql_splits)

lemma commit_tx_cases:
  assumes "db_saved s = Some rows" "commit_tx s = (s1, r)"
  shows "db_rows s1 = db_rows s"
    and "db_saved s1 = (if is_ok r then None else Some rows)"
  using assms by (auto simp: commit_tx_def sql_exec_def split: sql_splits)

lemma rollback_tx_simps [simp]:
  "db_saved (fst (rollback_tx s)) = None"
  "db_rows (fst (rollback_tx s)) = (case db_saved s of None \<Rightarrow> db_rows s | Some rows \<Rightarrow> rows)"
  by (auto simp: rollback_tx_def split: option.splits)

lemma sq_get_cases:
  assumes "sq_get s k = (s1, r)"
  shows "db_rows s1 = db_rows s" "db_saved s1 = db_saved s"
    "r = Inr v \<Longrightarrow> v = row_with_key (db_rows s) k"
  using assms by (auto simp: sq_get_def sql_exec_def split: sql_splits)

lemma insert_row_cases:
  assumes "insert_row s r = (s1, res)"
  shows "db_saved s1 = db_saved s"
    "res = Inr u \<Longrightarrow> db_rows s1 = db_rows s @ [r] \<and> row_with_key (db_rows s) (dr_dispatch_idempotency_key r) = None"
  using assms by (auto simp: insert_row_def sql_exec_def split: sql_splits)

lemma update_state_cases:
  assumes "sq_update_state s k st peer ack = (s1, res)"
  shows "db_saved s1 = db_saved s"
    "res = Inr u \<Longrightarrow> db_rows s1 = map (\<lambda>r. if dr_dispatch_idempotency_key r = k
       then r\<lparr>dr_state := st, dr_peer_operation_id := peer, dr_external_ack_ref := ack\<rparr> else r) (db_rows s)"
  using assms
  by (auto simp: sq_update_state_def update_rows_def sql_exec_def split: sql_splits)

text \<open>A transaction either commits what its body did, or the table is as before.\<close>

lemma sq_transact_law:
  assumes none: "db_saved s = None"
    and body: "\<And>s1 s2 r. body s1 = (s2, r) \<Longrightarrow> db_saved s2 = db_saved s1"
    and run: "sq_transact s body = (s', res)"
  shows "db_saved s' = None
    \<and> (case res of Inl e \<Rightarrow> db_rows s' = db_rows s
       | Inr x \<Rightarrow> \<exists>s1 s2. db_rows s1 = db_rows s \<and> body s1 = (s2, Inr x) \<and> db_rows s' = db_rows s2)"
proof -
  obtain s1 b where b: "begin_immediate s = (s1, b)" by fastforce
  note c = begin_immediate_cases [OF none b]
  show ?thesis
  proof (cases b)
    case (Inl e)
    with b c run show ?thesis by (auto simp: sq_transact_def)
  next
    case (Inr u)
    obtain s2 r where r: "body s1 = (s2, r)" by fastforce
    have saved: "db_saved s2 = Some (db_rows s)" using body [OF r] c Inr by simp
    obtain s3 d where d: "commit_tx s2 = (s3, d)" by fastforce
    show ?thesis
      using commit_tx_cases [OF saved d] b c run r d saved Inr
      by (cases r; cases d) (auto simp: sq_transact_def, metis)
  qed
qed

section \<open>The SQLite store implements the port\<close>

definition sq_invar :: "sqlite_db \<Rightarrow> bool" where
  "sq_invar s \<longleftrightarrow> db_saved s = None \<and> distinct (map dr_dispatch_idempotency_key (db_rows s))"

definition sq_ledger :: "sqlite_db \<Rightarrow> ledger" where
  "sq_ledger s = row_with_key (db_rows s)"

lemma row_with_key_simps [simp]:
  "row_with_key [] k = None"
  "row_with_key (r # rs) k = (if dr_dispatch_idempotency_key r = k then Some r else row_with_key rs k)"
  by (simp_all add: row_with_key_def)

lemma row_with_key_key: "row_with_key rows k = Some r \<Longrightarrow> dr_dispatch_idempotency_key r = k"
  by (induction rows) (auto split: if_splits)

lemma row_with_key_None: "row_with_key rows k = None \<longleftrightarrow> k \<notin> set (map dr_dispatch_idempotency_key rows)"
  by (induction rows) auto

lemma row_with_key_append:
  "row_with_key (rows @ [r]) k =
     (case row_with_key rows k of Some r' \<Rightarrow> Some r'
      | None \<Rightarrow> if dr_dispatch_idempotency_key r = k then Some r else None)"
  by (induction rows) auto

lemma row_with_key_update:
  assumes "\<And>r. dr_dispatch_idempotency_key (f r) = dr_dispatch_idempotency_key r"
  shows "row_with_key (map (\<lambda>r. if dr_dispatch_idempotency_key r = k then f r else r) rows) =
    (row_with_key rows)(k := map_option f (row_with_key rows k))"
proof
  fix k'
  show "row_with_key (map (\<lambda>r. if dr_dispatch_idempotency_key r = k then f r else r) rows) k' =
    ((row_with_key rows)(k := map_option f (row_with_key rows k))) k'"
    using assms by (induction rows) auto
qed

definition sq_mark_body :: "mark \<Rightarrow> string \<Rightarrow> sqlite_db \<Rightarrow> sqlite_db \<times> unit result" where
  "sq_mark_body m k s =
     (case sq_get_required_record s k of
        (s1, Inl e) \<Rightarrow> (s1, Inl e)
      | (s1, Inr r) \<Rightarrow>
          if \<not> mark_from m (dr_state r)
          then (s1, Inl (cannot_transition (dr_state r) (dedupe_state_str (mark_target m))))
          else sq_update_state s1 k (mark_target m)
                 (dr_peer_operation_id (mark_record m r)) (dr_external_ack_ref (mark_record m r)))"

lemma sq_port_simps [simp]:
  "port_reserve sq_port = sq_reserve"
  "port_reserve_and_dispatch sq_port = sq_reserve_and_dispatch"
  "port_get sq_port = sq_get"
  "port_mark_dispatched sq_port = sq_mark_dispatched"
  "port_mark_acknowledged sq_port = sq_mark_acknowledged"
  "port_mark_succeeded sq_port = sq_mark_succeeded"
  "port_mark_unknown_effect sq_port = sq_mark_unknown_effect"
  by (simp_all add: sq_port_def)

lemma sq_mark_eq: "port_mark sq_port s m k = sq_transact s (sq_mark_body m k)"
  by (cases m)
    (auto simp: sq_mark_dispatched_def sq_mark_acknowledged_def sq_mark_succeeded_def
      sq_mark_unknown_effect_def sq_mark_body_def intro!: arg_cong [where f = "sq_transact s"] ext
      split: sum.splits prod.splits)

lemma sq_mark_body_law:
  assumes "sq_mark_body m k s = (s1, res)"
  shows "db_saved s1 = db_saved s"
    "res = Inr u \<Longrightarrow> \<exists>r. row_with_key (db_rows s) k = Some r \<and> mark_from m (dr_state r) \<and>
       db_rows s1 = map (\<lambda>x. if dr_dispatch_idempotency_key x = k
         then x\<lparr>dr_state := mark_target m,
                dr_peer_operation_id := dr_peer_operation_id (mark_record m r),
                dr_external_ack_ref := dr_external_ack_ref (mark_record m r)\<rparr> else x) (db_rows s)"
  using assms
  by (auto simp: sq_mark_body_def sq_get_required_record_def sq_get_def sq_update_state_def
      update_rows_def sql_exec_def split: sql_splits)

lemma sq_mark_law:
  assumes "sq_invar s" and run: "port_mark sq_port s m k = (s', res)"
  shows "sq_invar s' \<and> (case res of Inl e \<Rightarrow> sq_ledger s' = sq_ledger s
    | Inr u \<Rightarrow> (\<exists>r. sq_ledger s k = Some r \<and> mark_from m (dr_state r)
        \<and> sq_ledger s' = (sq_ledger s)(k \<mapsto> mark_record m r)))"
proof -
  have none: "db_saved s = None" and dist: "distinct (map dr_dispatch_idempotency_key (db_rows s))"
    using assms by (simp_all add: sq_invar_def)
  have law: "db_saved s' = None
    \<and> (case res of Inl e \<Rightarrow> db_rows s' = db_rows s
       | Inr x \<Rightarrow> \<exists>s1 s2. db_rows s1 = db_rows s \<and> sq_mark_body m k s1 = (s2, Inr x) \<and> db_rows s' = db_rows s2)"
    by (rule sq_transact_law [OF none _ run [unfolded sq_mark_eq]]) (rule sq_mark_body_law(1))
  show ?thesis
  proof (cases res)
    case (Inl e)
    with law dist show ?thesis by (simp add: sq_invar_def sq_ledger_def)
  next
    case (Inr u)
    let ?f = "\<lambda>r x. x\<lparr>dr_state := mark_target m,
      dr_peer_operation_id := dr_peer_operation_id (mark_record m r),
      dr_external_ack_ref := dr_external_ack_ref (mark_record m r)\<rparr>"
    from law Inr obtain s1 s2 where "db_rows s1 = db_rows s"
      and "sq_mark_body m k s1 = (s2, Inr u)" and "db_rows s' = db_rows s2" and tx: "db_saved s' = None"
      by auto
    with sq_mark_body_law(2) [of m k s1 s2 "Inr u" u]
    obtain r where r: "row_with_key (db_rows s) k = Some r" "mark_from m (dr_state r)"
      and rows: "db_rows s' = map (\<lambda>x. if dr_dispatch_idempotency_key x = k then ?f r x else x) (db_rows s)"
      by auto
    have f: "?f r r = mark_record m r" by (cases m; cases r) simp_all
    have "sq_ledger s' = (sq_ledger s)(k := map_option (?f r) (sq_ledger s k))"
      by (simp add: sq_ledger_def rows row_with_key_update)
    then have "sq_ledger s' = (sq_ledger s)(k \<mapsto> mark_record m r)"
      by (simp only: sq_ledger_def r(1) option.map f)
    moreover have "map dr_dispatch_idempotency_key (db_rows s') = map dr_dispatch_idempotency_key (db_rows s)"
      by (simp add: rows)
    ultimately show ?thesis
      using r tx dist Inr by (auto simp: sq_invar_def sq_ledger_def)
  qed
qed

lemma sq_insert_law:
  assumes inv: "sq_invar s" and run: "sq_insert_if_absent s new handler = (s', res)"
    and handler: "\<And>s1 e. db_saved s1 = Some (db_rows s) \<Longrightarrow>
      \<exists>s2 e'. handler s1 e = (s2, Inl e') \<and> db_saved s2 = None \<and> db_rows s2 = db_rows s"
  shows "sq_invar s' \<and> (case res of Inl e \<Rightarrow> sq_ledger s' = sq_ledger s
    | Inr r \<Rightarrow> (sq_ledger s', r) =
        (case sq_ledger s (dr_dispatch_idempotency_key new) of
           Some x \<Rightarrow> (sq_ledger s, duplicate_reservation x)
         | None \<Rightarrow> ((sq_ledger s)(dr_dispatch_idempotency_key new \<mapsto> new), accepted_reservation)))"
proof -
  let ?k = "dr_dispatch_idempotency_key new"
  have none: "db_saved s = None" and dist: "distinct (map dr_dispatch_idempotency_key (db_rows s))"
    using inv by (simp_all add: sq_invar_def)
  obtain s1 b where b: "begin_immediate s = (s1, b)" by fastforce
  note bc = begin_immediate_cases [OF none b]
  obtain s2 g where g: "sq_get s1 ?k = (s2, g)" by fastforce
  note gc = sq_get_cases [OF g]
  obtain s3 i where i: "insert_row s2 new = (s3, i)" by fastforce
  note ic = insert_row_cases [OF i]
  obtain s4 c where c: "commit_tx s3 = (s4, c)" by fastforce
  have failed: ?thesis if "(s', res) = handler t e" "db_saved t = Some (db_rows s)" for t e
    using handler [OF that(2), of e] that(1) dist by (auto simp: sq_invar_def sq_ledger_def)
  show ?thesis
  proof (cases b)
    case (Inl e)
    with b bc run dist show ?thesis by (auto simp: sq_insert_if_absent_def sq_invar_def sq_ledger_def)
  next
    case ok: (Inr u)
    have saved: "db_saved s2 = Some (db_rows s)" "db_saved s3 = Some (db_rows s)"
      using ok bc gc ic by simp_all
    have found: "g = Inr v \<Longrightarrow> sq_ledger s ?k = v" for v
      using gc(3) bc by (simp add: sq_ledger_def)
    consider (err) e where "g = Inl e" | (dup) x where "g = Inr (Some x)" | (new) "g = Inr None"
      using option.exhaust sum.exhaust by metis
    then show ?thesis
    proof cases
      case err
      with run b ok g show ?thesis by (intro failed [of s2 e] saved(1)) (auto simp: sq_insert_if_absent_def)
    next
      case dup
      have "sq_ledger s ?k = Some x" using found [OF dup] by simp
      with run b ok g dup saved dist show ?thesis
        by (auto simp: sq_insert_if_absent_def rollback_tx_def sq_invar_def sq_ledger_def)
    next
      case new
      have absent: "sq_ledger s ?k = None" using found [OF new] by simp
      show ?thesis
      proof (cases "is_ok i \<and> is_ok c")
        case True
        then have rows: "db_rows s4 = db_rows s @ [new]" and tx: "db_saved s4 = None"
          using commit_tx_cases [OF saved(2) c] ic bc gc by (auto simp: is_ok_def split: sum.splits)
        have res: "s' = s4" "res = Inr accepted_reservation"
          using run b ok g new i c True by (auto simp: sq_insert_if_absent_def is_ok_def split: sum.splits)
        have "sq_ledger s4 = (sq_ledger s)(?k \<mapsto> new)"
          using absent by (auto simp: sq_ledger_def rows row_with_key_append fun_eq_iff split: option.splits)
        moreover have "?k \<notin> set (map dr_dispatch_idempotency_key (db_rows s))"
          using absent by (simp only: sq_ledger_def row_with_key_None not_False_eq_True)
        ultimately show ?thesis
          using rows tx res absent dist by (simp add: sq_invar_def)
      next
        case False
        then have "(s', res) = handler s3 (projl i) \<or> (s', res) = handler s4 (projl c) \<and> \<not> is_ok c"
          using run b ok g new i c
          by (auto simp: sq_insert_if_absent_def is_ok_def split: sum.splits)
        moreover have "\<not> is_ok c \<Longrightarrow> db_saved s4 = Some (db_rows s)"
          using commit_tx_cases [OF saved(2) c] by simp
        ultimately show ?thesis using failed saved by blast
      qed
    qed
  qed
qed

interpretation sq: dedupe_store_port sq_port sq_invar sq_ledger
proof
  fix s env s' res
  assume inv: "sq_invar s" and "port_reserve sq_port s env = (s', res)"
  then show "sq_invar s' \<and> (case res of Inl e \<Rightarrow> sq_ledger s' = sq_ledger s
      | Inr r \<Rightarrow> (sq_ledger s', r) =
          ledger_reserve (sq_ledger s) env (fresh_record env Reserved (en_peer_operation_id env)))"
    using sq_insert_law [OF inv, of "fresh_record env Reserved (en_peer_operation_id env)" rollback_reraise]
    by (auto simp: sq_reserve_def fresh_record_def rollback_reraise_def rollback_tx_def
        ledger_reserve_def split: sum.splits option.splits)
next
  fix s env p s' res
  assume inv: "sq_invar s" and "port_reserve_and_dispatch sq_port s env p = (s', res)"
  then show "sq_invar s' \<and> (case res of Inl e \<Rightarrow> sq_ledger s' = sq_ledger s
      | Inr r \<Rightarrow> (sq_ledger s', r) = ledger_reserve (sq_ledger s) env
          (fresh_record env Dispatched (or_else p (en_peer_operation_id env))))"
    using sq_insert_law [OF inv, of "fresh_record env Dispatched (or_else p (en_peer_operation_id env))"
        "\<lambda>s e. (fst (rollback_tx s), Inl e)"]
    by (auto simp: sq_reserve_and_dispatch_def fresh_record_def
        ledger_reserve_def split: sum.splits option.splits)
next
  fix s m k s' res
  assume "sq_invar s" "port_mark sq_port s m k = (s', res)"
  then show "sq_invar s' \<and> (case res of Inl e \<Rightarrow> sq_ledger s' = sq_ledger s
      | Inr u \<Rightarrow> (\<exists>r. sq_ledger s k = Some r \<and> mark_from m (dr_state r)
          \<and> sq_ledger s' = (sq_ledger s)(k \<mapsto> mark_record m r)))"
    by (rule sq_mark_law)
next
  fix s k s' res
  assume "sq_invar s" "port_get sq_port s k = (s', res)"
  then show "sq_invar s' \<and> sq_ledger s' = sq_ledger s
      \<and> (case res of Inl e \<Rightarrow> True | Inr r \<Rightarrow> r = sq_ledger s k)"
    by (auto simp: sq_invar_def sq_ledger_def sq_get_def sql_exec_def split: sql_splits)
qed

section \<open>Prefix counting\<close>

lemma backslash_distinct [simp]:
  "backslash \<noteq> CHR ''%''" "backslash \<noteq> CHR ''_''"
  "CHR ''%'' \<noteq> backslash" "CHR ''_'' \<noteq> backslash" "CHR '':'' \<noteq> backslash"
  by (simp_all add: backslash_def)

lemma replace_char_Nil [simp]: "replace_char c r [] = []"
  by (simp add: replace_char_def)

lemma replace_char_Cons [simp]:
  "replace_char c r (x # s) = (if x = c then r else [x]) @ replace_char c r s"
  by (simp add: replace_char_def)

lemma replace_char_append [simp]:
  "replace_char c r (s @ t) = replace_char c r s @ replace_char c r t"
  by (simp add: replace_char_def)

lemma like_escape_Cons:
  "like_escape (c # s) =
     (if c = backslash \<or> c = CHR ''%'' \<or> c = CHR ''_'' then [backslash, c] else [c]) @ like_escape s"
  by (auto simp: like_escape_def)

lemma like_escape_Nil [simp]: "like_escape [] = []"
  by (simp add: like_escape_def)

lemma sql_like_percent: "sql_like [CHR ''%''] s"
  by (induction s) auto

lemma sql_like_colon:
  "sql_like (CHR '':'' # CHR ''%'' # []) u \<longleftrightarrow>
     (\<exists>c u'. u = c # u' \<and> ascii_lower c = ascii_lower (CHR '':''))"
  by (subst sql_like.simps) (auto simp: backslash_def sql_like_percent simp del: sql_like.simps split: list.splits)

text \<open>An escaped prefix matches literally, up to the ASCII case of letters.\<close>

lemma sql_like_escape:
  "sql_like (like_escape p @ rest) s \<longleftrightarrow>
     (\<exists>t u. s = t @ u \<and> map ascii_lower t = map ascii_lower p \<and> sql_like rest u)"
proof (induction p arbitrary: s)
  case Nil
  then show ?case by simp
next
  case (Cons c p)
  have step: "sql_like (like_escape (c # p) @ rest) s \<longleftrightarrow>
      (\<exists>d s'. s = d # s' \<and> ascii_lower c = ascii_lower d \<and> sql_like (like_escape p @ rest) s')"
    by (auto simp: like_escape_Cons split: list.splits)
  show ?case
    unfolding step Cons.IH
    by (auto simp: map_eq_Cons_conv) (metis append_Cons list.simps(9))+
qed

lemma like_run_prefix:
  "sql_like (like_escape run_id @ '':%'') key \<longleftrightarrow>
     startswith (map ascii_lower key) (map ascii_lower (run_id @ '':''))"
proof -
  have "sql_like (like_escape run_id @ '':%'') key \<longleftrightarrow>
      (\<exists>t c u. key = t @ c # u \<and> map ascii_lower t = map ascii_lower run_id
        \<and> ascii_lower c = ascii_lower (CHR '':''))"
    unfolding sql_like_escape sql_like_colon by blast
  also have "\<dots> \<longleftrightarrow> (\<exists>w. map ascii_lower key = map ascii_lower (run_id @ '':'') @ w)"
  proof
    assume "\<exists>w. map ascii_lower key = map ascii_lower (run_id @ '':'') @ w"
    then obtain w where "map ascii_lower key =
        map ascii_lower run_id @ ascii_lower (CHR '':'') # w" by auto
    then show "\<exists>t c u. key = t @ c # u \<and> map ascii_lower t = map ascii_lower run_id
        \<and> ascii_lower c = ascii_lower (CHR '':'')"
      unfolding map_eq_append_conv by (auto simp: map_eq_Cons_conv) metis
  qed auto
  finally show ?thesis unfolding startswith_iff .
qed

lemma sq_count_by_run_eq:
  "sq_count_by_run s run_id =
     length (filter (\<lambda>r. startswith (map ascii_lower (dr_dispatch_idempotency_key r))
       (map ascii_lower (run_id @ '':''))) (db_rows s))"
  by (simp only: sq_count_by_run_def like_run_prefix)

section \<open>A fault-free database\<close>

text \<open>Without faults every statement takes effect, and the calls answer as the ledger says.\<close>

lemma sql_exec_no_faults [simp]: "db_faults s = [] \<Longrightarrow> sql_exec s f = f s"
  by (simp add: sql_exec_def)

lemmas sql_statement_defs = begin_immediate_def commit_tx_def rollback_tx_def insert_row_def
  update_rows_def sq_get_def

lemma sq_insert_no_faults:
  assumes "sq_invar s" "db_faults s = []"
  shows "sq_insert_if_absent s new handler =
    (case sq_ledger s (dr_dispatch_idempotency_key new) of
       Some x \<Rightarrow> (s, Inr (duplicate_reservation x))
     | None \<Rightarrow> (s\<lparr>db_rows := db_rows s @ [new]\<rparr>, Inr accepted_reservation))"
  using assms
  by (cases s) (simp add: sq_insert_if_absent_def sql_statement_defs sq_invar_def sq_ledger_def
      split: option.splits)

lemma length_filter_key:
  assumes "distinct (map dr_dispatch_idempotency_key rows)" "row_with_key rows k = Some r"
  shows "length (filter (\<lambda>x. dr_dispatch_idempotency_key x = k) rows) = 1"
  using assms
proof (induction rows)
  case (Cons x rows)
  have "filter (\<lambda>x. dr_dispatch_idempotency_key x = k) rows = []" if "dr_dispatch_idempotency_key x = k"
    using that Cons.prems(1) by (auto simp: filter_empty_conv image_iff)
  then show ?case using Cons by auto
qed simp

lemma sq_mark_no_faults:
  assumes inv: "sq_invar s" and "db_faults s = []"
  shows "snd (port_mark sq_port s m k) =
      (case sq_ledger s k of
         None \<Rightarrow> Inl (DedupeStoreStateError (''Unknown dispatch_idempotency_key: '' @ k @ ''.''))
       | Some r \<Rightarrow> if mark_from m (dr_state r) then Inr ()
           else Inl (cannot_transition (dr_state r) (dedupe_state_str (mark_target m))))"
    and "db_faults (fst (port_mark sq_port s m k)) = []"
  using assms length_filter_key [of "db_rows s" k]
  by (auto simp: sq_mark_eq sq_transact_def sq_mark_body_def sq_get_required_record_def
      sq_update_state_def sql_statement_defs sq_invar_def sq_ledger_def split: option.splits)

definition same_ledger :: "sqlite_db \<Rightarrow> dedupe_mem \<Rightarrow> bool" where
  "same_ledger s m \<longleftrightarrow>
     sq_invar s \<and> db_faults s = [] \<and> mem_invar m \<and> sq_ledger s = dict_get m"

lemma same_ledger_op:
  assumes same: "same_ledger s m"
  shows "same_ledger (fst (run_op sq_port s x)) (fst (run_op mem_port m x))
    \<and> snd (run_op sq_port s x) = snd (run_op mem_port m x)"
proof -
  have s: "sq_invar s" "db_faults s = []" "mem_invar m" and eq: "sq_ledger s = dict_get m"
    using same by (simp_all add: same_ledger_def)
  have inv: "sq_invar (fst (run_op sq_port s x))" "mem_invar (fst (run_op mem_port m x))"
    using sq.run_op_step [OF s(1), of x "fst (run_op sq_port s x)" "snd (run_op sq_port s x)"]
      mem.run_op_step [OF s(3), of x "fst (run_op mem_port m x)" "snd (run_op mem_port m x)"]
    by simp_all
  have insert: "sq_ledger (s\<lparr>db_rows := db_rows s @ [new]\<rparr>) = dict_get (dict_set k new m)"
    if "dict_get m k = None" "dr_dispatch_idempotency_key new = k" for new k
    using that eq [symmetric]
    by (auto simp: sq_ledger_def row_with_key_append fun_eq_iff split: option.splits)
  have "db_faults (fst (run_op sq_port s x)) = []
      \<and> sq_ledger (fst (run_op sq_port s x)) = dict_get (fst (run_op mem_port m x))
      \<and> snd (run_op sq_port s x) = snd (run_op mem_port m x)"
  proof (cases x)
    case (OpReserve env)
    then show ?thesis
      using s eq
      by (cases "dict_get m (en_dispatch_idempotency_key env)")
        (simp_all add: sq_reserve_def sq_insert_no_faults mem_reserve_def insert)
  next
    case (OpReserveAndDispatch env p)
    then show ?thesis
      using s eq
      by (cases "dict_get m (en_dispatch_idempotency_key env)")
        (simp_all add: sq_reserve_and_dispatch_def sq_insert_no_faults mem_reserve_and_dispatch_def insert)
  next
    case (OpMark mk k)
    obtain s1 r1 where r1: "port_mark sq_port s mk k = (s1, r1)" by fastforce
    have "sq_ledger s1 = dict_get (fst (port_mark mem_port m mk k))"
      using sq.mark_law [OF s(1) r1] sq_mark_no_faults(1) [OF s(1,2), of mk k] r1 eq
      by (auto simp: mem_mark_eq fun_eq_iff split: option.splits if_splits sum.splits)
    then show ?thesis
      using OpMark r1 sq_mark_no_faults(2) [OF s(1,2), of mk k] by simp
  next
    case (OpGet k)
    then show ?thesis using s eq by (simp add: sq_get_def mem_get_def)
  qed
  with inv show ?thesis by (simp add: same_ledger_def)
qed

lemma same_ledger_ops:
  "same_ledger s m \<Longrightarrow>
     same_ledger (fst (run_ops sq_port s xs)) (fst (run_ops mem_port m xs))
     \<and> snd (run_ops sq_port s xs) = snd (run_ops mem_port m xs)"
proof (induction xs arbitrary: s m)
  case (Cons x xs)
  note step = same_ledger_op [OF Cons.prems, of x]
  from step Cons.IH [OF conjunct1 [OF step]] show ?case by (simp add: case_prod_beta)
qed simp

section \<open>Properties of the SQLite store\<close>

lemma sq_invar_ensure_schema [simp]: "sq_invar (sq_ensure_schema faults)"
  by (simp add: sq_invar_def sq_ensure_schema_def)

text \<open>
  On a fresh SQLite store no dispatch key is accepted twice, whatever calls are made
  and whichever of their statements fail.
\<close>

theorem sqlite_accepts_each_key_once:
  "distinct (snd (run_ops sq_port (sq_ensure_schema faults) xs))"
  by (rule sq.accepted_at_most_once) simp


text \<open>
  A mark that raises, because of a fault in any of its statements or of a forbidden
  transition, leaves every record as it was and no transaction open.
\<close>

theorem sqlite_failed_mark_rolls_back:
  assumes "sq_invar s" "port_mark sq_port s m k = (s', Inl e)"
  shows "sq_ledger s' = sq_ledger s \<and> db_saved s' = None"
  using sq.mark_law [OF assms] by (simp add: sq_invar_def)

theorem sqlite_failed_mark_rolls_back_witness:
  "let s = fst (sq_reserve (sq_ensure_schema [False, False, False, False, False, False, False, True])
                  (sample_envelope ''a''));
       s' = fst (sq_mark_dispatched s ''a'' None)
   in snd (sq_mark_dispatched s ''a'' None) = Inl (OperationalError ''database is locked'')
      \<and> sq_ledger s' = sq_ledger s \<and> db_saved s' = None"
proof -
  let ?s = "fst (sq_reserve (sq_ensure_schema [False, False, False, False, False, False, False, True])
                  (sample_envelope ''a''))"
  let ?s' = "fst (sq_mark_dispatched ?s ''a'' None)"
  have inv: "sq_invar ?s"
    by (simp add: sq_reserve_def sq_ensure_schema_def sample_envelope_def sq_insert_if_absent_def
        sql_statement_defs sql_exec_def sq_invar_def)
  have run: "port_mark sq_port ?s (MarkDispatched None) ''a'' =
      (?s', Inl (OperationalError ''database is locked''))"
    by (simp add: sq_reserve_def sq_ensure_schema_def sample_envelope_def sq_insert_if_absent_def
        sql_statement_defs sql_exec_def sq_mark_dispatched_def sq_transact_def
        sq_get_required_record_def sq_update_state_def)
  have err: "snd (sq_mark_dispatched ?s ''a'' None) = Inl (OperationalError ''database is locked'')"
    using arg_cong [OF run, of snd] by (simp only: port_mark.simps sq_port_simps snd_conv)
  show ?thesis
    unfolding Let_def by (intro conjI err sqlite_failed_mark_rolls_back [OF inv run, THEN conjunct1]
      sqlite_failed_mark_rolls_back [OF inv run, THEN conjunct2])
qed

text \<open>
  \<^verbatim>\<open>count_by_run\<close> of the SQLite store counts the keys that begin with the run
  identifier and a colon, comparing letters without regard to ASCII case, and no wildcard in
  the run identifier is interpreted.
\<close>

theorem sqlite_count_by_run_prefix:
  "sq_count_by_run s run_id =
     length (filter (\<lambda>r. startswith (map ascii_lower (dr_dispatch_idempotency_key r))
       (map ascii_lower (run_id @ '':''))) (db_rows s))"
  by (rule sq_count_by_run_eq)

end
