(* ===== verification/Turn_Safety.thy ===== *)
theory Turn_Safety
  imports Turn_Engine SQLite_Dedupe
begin

text \<open>
  Safety of the turn engine over any dedupe store that fulfils the port's contract, proved in
  the locale of the port and instantiated with the in-memory and the SQLite store.  Turns may
  be interleaved at phase boundaries.
\<close>

section \<open>What a phase changes\<close>

lemmas ctx_op_defs = emit_def conclude_def conclude_noop_def

lemma ctx_op_simps [simp]:
  "tc_result (emit e ctx) = tc_result ctx"
  "tc_envelope (emit e ctx) = tc_envelope ctx"
  "tc_envelope (conclude r ctx) = tc_envelope ctx"
  "tc_envelope (conclude_noop ctx) = tc_envelope ctx"
  "tc_result (conclude r ctx) = Some (r (tc_emitted_events ctx))"
  "tc_result (conclude_noop ctx) \<noteq> None"
  "tc_action (emit e ctx) = tc_action ctx"
  "tc_turn_identity (emit e ctx) = tc_turn_identity ctx"
  "tc_dedupe_available (emit e ctx) = tc_dedupe_available ctx"
  "tc_legacy_alias_key (emit e ctx) = tc_legacy_alias_key ctx"
  "tc_legacy_alias_key (conclude r ctx) = tc_legacy_alias_key ctx"
  "tc_legacy_alias_key (conclude_noop ctx) = tc_legacy_alias_key ctx"
  by (simp_all add: ctx_op_defs)

text \<open>A context whose result, if any, is not a dispatch.\<close>

definition no_dispatch :: "turn_phase_context \<Rightarrow> bool" where
  "no_dispatch ctx \<longleftrightarrow>
     (\<forall>res. tc_result ctx = Some res \<longrightarrow> tr_outcome_kind res \<in> {Outcome_noop, Outcome_blocked})"

lemma outcome_simps [simp]:
  "tr_outcome_kind (turn_result_of st kind tid evs) = kind"
  "tr_outcome_kind (noop_result i evs) = Outcome_noop"
  "tr_outcome_kind (blocked_result tid dp evs) = Outcome_blocked"
  "tr_dispatch_dedupe_key (turn_result_of st kind tid evs) = Some (tid_dispatch_dedupe_key tid)"
  by (simp_all add: turn_result_of_def noop_result_def blocked_result_def)

lemma no_dispatch_simps [simp]:
  "no_dispatch (emit e ctx) = no_dispatch ctx"
  "no_dispatch (conclude_noop ctx)"
  "no_dispatch (conclude (blocked_result tid dp) ctx)"
  "no_dispatch (conclude (turn_result_of st Outcome_noop tid) ctx)"
  "no_dispatch (conclude (turn_result_of st Outcome_blocked tid) ctx)"
  "tc_result ctx = None \<Longrightarrow> no_dispatch ctx"
  by (simp_all add: no_dispatch_def ctx_op_defs)

text \<open>The first four phases touch neither the store nor the executor.\<close>

lemma phase_noop_frame:
  assumes "phase_noop_or_reasoning eng ctx w = (w', r)"
  shows "tw_store w' = tw_store w" "tw_calls w' = tw_calls w"
    "r = Inr ctx' \<Longrightarrow> tc_envelope ctx' = tc_envelope ctx \<and> tc_legacy_alias_key ctx' = tc_legacy_alias_key ctx
       \<and> (tc_result ctx = None \<longrightarrow> no_dispatch ctx')"
  using assms by (auto simp: phase_noop_or_reasoning_def Let_def
      split: option.splits sum.splits prod.splits list.splits)

lemma phase_snapshot_frame:
  assumes "phase_snapshot eng ctx w = (w', r)"
  shows "tw_store w' = tw_store w" "tw_calls w' = tw_calls w"
    "r = Inr ctx' \<Longrightarrow> tc_envelope ctx' = tc_envelope ctx \<and> tc_legacy_alias_key ctx' = tc_legacy_alias_key ctx
       \<and> (tc_result ctx = None \<longrightarrow> no_dispatch ctx')"
  using assms by (auto simp: phase_snapshot_def Let_def split: option.splits sum.splits if_splits)

lemma phase_admission_frame:
  assumes "phase_admission eng ctx w = (w', r)"
  shows "tw_store w' = tw_store w" "tw_calls w' = tw_calls w"
    "r = Inr ctx' \<Longrightarrow> tc_envelope ctx' = tc_envelope ctx \<and> tc_legacy_alias_key ctx' = tc_legacy_alias_key ctx
       \<and> (tc_result ctx = None \<longrightarrow> no_dispatch ctx')"
  using assms by (auto simp: phase_admission_def Let_def split: option.splits sum.splits prod.splits if_splits)

lemma phase_dispatch_policy_frame:
  assumes "phase_dispatch_policy eng ctx w = (w', r)"
  shows "tw_store w' = tw_store w" "tw_calls w' = tw_calls w"
    "r = Inr ctx' \<Longrightarrow> tc_envelope ctx' = tc_envelope ctx \<and> tc_legacy_alias_key ctx' = tc_legacy_alias_key ctx
       \<and> (tc_result ctx = None \<longrightarrow> no_dispatch ctx')"
  using assms by (auto simp: phase_dispatch_policy_def Let_def split: option.splits if_splits)

definition early_phases :: "string list" where
  "early_phases = [''_phase_noop_or_reasoning'', ''_phase_snapshot'', ''_phase_admission'', ''_phase_dispatch_policy'']"

lemma early_phase_frame:
  assumes "run_phase eng ph ctx w = (w', r)" "ph \<in> set early_phases"
  shows "tw_store w' = tw_store w" "tw_calls w' = tw_calls w"
    "r = Inr ctx' \<Longrightarrow> tc_envelope ctx' = tc_envelope ctx \<and> tc_legacy_alias_key ctx' = tc_legacy_alias_key ctx
       \<and> (tc_result ctx = None \<longrightarrow> no_dispatch ctx')"
  using assms by (auto simp: run_phase_def early_phases_def split: if_splits
      dest: phase_noop_frame phase_snapshot_frame phase_admission_frame phase_dispatch_policy_frame)

text \<open>
  After the dedupe phase a turn that goes on is ready: its envelope carries the turn's key, the
  alias is another key, and only an idempotent write may proceed without the store, and only if
  the store can fail.
\<close>

definition may_fail :: "'s dedupe_port \<Rightarrow> bool" where
  "may_fail port \<longleftrightarrow> (\<exists>s env p s' e. port_reserve_and_dispatch port s env p = (s', Inl e))"

lemma may_failI: "port_reserve_and_dispatch port s env p = (s', Inl e) \<Longrightarrow> may_fail port"
  unfolding may_fail_def by blast

definition ready_ctx :: "'s dedupe_port \<Rightarrow> turn_phase_context \<Rightarrow> bool" where
  "ready_ctx port ctx \<longleftrightarrow>
     (\<exists>a tid env. tc_action ctx = Some a \<and> tc_turn_identity ctx = Some tid \<and> tc_envelope ctx = Some env
        \<and> en_dispatch_idempotency_key env = tid_dispatch_dedupe_key tid
        \<and> tc_legacy_alias_key ctx \<noteq> Some (tid_dispatch_dedupe_key tid)
        \<and> (\<not> tc_dedupe_available ctx \<longrightarrow> act_effect_class a = IDEMPOTENT_WRITE \<and> may_fail port))"

lemma resolve_envelope_key [simp]:
  "en_dispatch_idempotency_key (resolve_idempotency_envelope fr adm tid a snap hk) = tid_dispatch_dedupe_key tid"
  by (simp add: resolve_idempotency_envelope_def split: option.splits)

context dedupe_store_port
begin

lemma reserve_with_degradation_law:
  assumes inv: "invar s" and run: "reserve_with_degradation port s env a hk = (s', res)"
  shows "invar s' \<and> ledger_le (ledger s) (ledger s')"
    and "res = Inr (rv, env', available, evs) \<Longrightarrow>
      en_dispatch_idempotency_key env' = en_dispatch_idempotency_key env
      \<and> (\<not> available \<longrightarrow> act_effect_class a = IDEMPOTENT_WRITE \<and> may_fail port)
      \<and> (available \<and> rv_accepted rv \<longrightarrow>
           ledger s (en_dispatch_idempotency_key env) = None
           \<and> ledger s' (en_dispatch_idempotency_key env) \<noteq> None)"
proof -
  obtain s1 r1 where r1: "port_reserve_and_dispatch port s env None = (s1, r1)" by fastforce
  have "s' = s1"
    using run r1 by (auto simp: reserve_with_degradation_def Let_def split: sum.splits if_splits)
  with reserve_and_dispatch_cases(1,2) [OF inv r1]
  show "invar s' \<and> ledger_le (ledger s) (ledger s')" by simp
  assume "res = Inr (rv, env', available, evs)"
  with run r1 \<open>s' = s1\<close> reserve_and_dispatch_cases(3) [OF inv r1, of "en_dispatch_idempotency_key env"]
  show "en_dispatch_idempotency_key env' = en_dispatch_idempotency_key env
      \<and> (\<not> available \<longrightarrow> act_effect_class a = IDEMPOTENT_WRITE \<and> may_fail port)
      \<and> (available \<and> rv_accepted rv \<longrightarrow>
           ledger s (en_dispatch_idempotency_key env) = None
           \<and> ledger s' (en_dispatch_idempotency_key env) \<noteq> None)"
    by (auto simp: reserve_with_degradation_def Let_def reserved_key_def split: sum.splits if_splits
        intro: may_failI)
qed

lemma mirror_legacy_key_law:
  assumes inv: "invar s" and run: "mirror_legacy_key port s env k = (s', alias)"
  shows "invar s' \<and> ledger_le (ledger s) (ledger s')"
proof -
  obtain s1 r1 where r1: "port_reserve_and_dispatch port s (env\<lparr>en_dispatch_idempotency_key := k\<rparr>)
      (en_peer_operation_id env) = (s1, r1)" by fastforce
  with run have "s' = s1" by (auto simp: mirror_legacy_key_def split: sum.splits)
  with reserve_and_dispatch_cases(1,2) [OF inv r1] show ?thesis by simp
qed

lemma legacy_lookup_law:
  assumes inv: "invar s" and run: "legacy_lookup port s lk k = (s', r)"
  shows "invar s' \<and> ledger s' = ledger s \<and> (\<forall>x. r = Some x \<longrightarrow> ledger s lk = Some x)"
proof -
  obtain s1 r1 where r1: "port_get port s lk = (s1, r1)" by fastforce
  from get_law [OF inv r1] run r1 inv show ?thesis
    by (auto simp: legacy_lookup_def split: sum.splits if_splits)
qed

lemma mark_both_law:
  assumes inv: "invar s" and run: "mark_both port s m k alias = (s', res)"
  shows "invar s' \<and> ledger_le (ledger s) (ledger s')"
proof -
  obtain s1 r1 where r1: "port_mark port s m k = (s1, r1)" by fastforce
  note one = mark_cases [OF inv r1]
  have "invar (mark_alias port s1 m alias) \<and> ledger_le (ledger s1) (ledger (mark_alias port s1 m alias))"
  proof (cases "alias")
    case (Some k2)
    then show ?thesis
      using mark_cases [OF one(1), of m k2 "fst (port_mark port s1 m k2)" "snd (port_mark port s1 m k2)"]
      by (simp add: mark_alias_def mark_suppressed_def)
  qed (simp add: mark_alias_def one)
  with one run r1 show ?thesis
    by (auto simp: mark_both_def split: sum.splits intro: ledger_le_trans)
qed

lemma mark_suppressed_law:
  assumes inv: "invar s"
  shows "invar (mark_suppressed port s m k) \<and> ledger_le (ledger s) (ledger (mark_suppressed port s m k))"
  using mark_cases [OF inv, of m k "fst (port_mark port s m k)" "snd (port_mark port s m k)"]
  by (simp add: mark_suppressed_def)

lemma mark_alias_law:
  assumes inv: "invar s"
  shows "invar (mark_alias port s m alias) \<and> ledger_le (ledger s) (ledger (mark_alias port s m alias))"
  using mark_suppressed_law [OF inv] by (simp add: mark_alias_def inv split: option.splits)

lemma phase_dedupe_law:
  assumes eng: "te_port eng = port" and inv: "invar (tw_store w)"
    and alias0: "tc_legacy_alias_key ctx = None" and res0: "tc_result ctx = None"
    and run: "phase_dedupe eng ctx w = (w', r)"
  shows "invar (tw_store w') \<and> ledger_le (ledger (tw_store w)) (ledger (tw_store w')) \<and> tw_calls w' = tw_calls w"
    and "r = Inr ctx' \<Longrightarrow> no_dispatch ctx' \<and> (tc_result ctx' = None \<longrightarrow> ready_ctx port ctx'
      \<and> (\<forall>env. tc_envelope ctx' = Some env \<longrightarrow> tc_dedupe_available ctx' \<longrightarrow>
           ledger (tw_store w) (en_dispatch_idempotency_key env) = None
           \<and> ledger (tw_store w') (en_dispatch_idempotency_key env) \<noteq> None))"
proof -
  have "invar (tw_store w') \<and> ledger_le (ledger (tw_store w)) (ledger (tw_store w')) \<and> tw_calls w' = tw_calls w
    \<and> (\<forall>ctx'. r = Inr ctx' \<longrightarrow> no_dispatch ctx' \<and> (tc_result ctx' = None \<longrightarrow> ready_ctx port ctx'
      \<and> (\<forall>env. tc_envelope ctx' = Some env \<longrightarrow> tc_dedupe_available ctx' \<longrightarrow>
           ledger (tw_store w) (en_dispatch_idempotency_key env) = None
           \<and> ledger (tw_store w') (en_dispatch_idempotency_key env) \<noteq> None)))"
  proof (cases "\<exists>a snap tid dp. tc_action ctx = Some a \<and> tc_snapshot ctx = Some snap
      \<and> tc_turn_identity ctx = Some tid \<and> tc_dispatch_policy ctx = Some dp")
    case False
    with run inv show ?thesis by (auto simp: phase_dedupe_def split: option.splits)
  next
    case True
    then obtain a snap tid dp where c: "tc_action ctx = Some a" "tc_snapshot ctx = Some snap"
      "tc_turn_identity ctx = Some tid" "tc_dispatch_policy ctx = Some dp" by blast
    let ?lk = "legacy_dispatch_dedupe_key (ti_run_id (tc_input ctx)) (act_action_id a) (ti_based_on_offset (tc_input ctx))"
    let ?env = "resolve_idempotency_envelope (te_float_repr eng) (tc_admission_result ctx) tid a snap (dp_host_kind dp)"
    obtain s0 lr where l: "legacy_lookup port (tw_store w) ?lk (tid_dispatch_dedupe_key tid) = (s0, lr)" by fastforce
    note ll = legacy_lookup_law [OF inv l]
    show ?thesis
    proof (cases lr)
      case (Some x)
      with run c l ll eng show ?thesis by (auto simp: phase_dedupe_def Let_def)
    next
      case None
      obtain s1 rr where rr: "reserve_with_degradation port s0 ?env a (dp_host_kind dp) = (s1, rr)" by fastforce
      have s0: "invar s0" "ledger s0 = ledger (tw_store w)" using ll by simp_all
      note rl = reserve_with_degradation_law [OF s0(1) rr]
      show ?thesis
      proof (cases rr)
        case (Inl e)
        with run c l rr None eng rl(1) s0 show ?thesis by (auto simp: phase_dedupe_def Let_def)
      next
        case (Inr q)
        then obtain rv env' av evs where q: "rr = Inr (rv, env', av, evs)" by (cases q) auto
        note rq = rl(2) [OF q]
        show ?thesis
        proof (cases "rv_accepted rv")
          case False
          with run c l rr None eng rl(1) s0 q show ?thesis by (auto simp: phase_dedupe_def Let_def)
        next
          case True
          obtain s2 al where m: "(if av \<and> ?lk \<noteq> tid_dispatch_dedupe_key tid
              then mirror_legacy_key port s1 env' ?lk else (s1, None)) = (s2, al)" by fastforce
          have s2: "invar s2 \<and> ledger_le (ledger s1) (ledger s2)"
            using m mirror_legacy_key_law [of s1 env' ?lk s2 al] rl(1) by (auto split: if_splits)
          have le: "ledger_le (ledger (tw_store w)) (ledger s2)"
            using s2 rl(1) s0 ledger_le_trans by metis
          have w': "w' = w\<lparr>tw_store := s2\<rparr>"
            using run c l rr None eng q True m by (auto simp: phase_dedupe_def Let_def)
          obtain c' where r: "r = Inr c'" "tc_envelope c' = Some env'" "tc_dedupe_available c' = av"
            "tc_action c' = Some a" "tc_turn_identity c' = Some tid" "tc_result c' = None"
            "tc_legacy_alias_key c' = al"
            using run c l rr None eng q True m res0 alias0
            by (auto simp: phase_dedupe_def Let_def split: option.splits)
          have al: "al \<noteq> Some (tid_dispatch_dedupe_key tid)"
            using m by (auto simp: mirror_legacy_key_def split: if_splits prod.splits sum.splits)
          have keys: "av \<Longrightarrow> ledger s2 (tid_dispatch_dedupe_key tid) \<noteq> None"
            using rq True s2 ledger_le_dom [of "ledger s1" "ledger s2" "tid_dispatch_dedupe_key tid"]
            by (cases "ledger s2 (tid_dispatch_dedupe_key tid)") auto
          show ?thesis
            using w' r c s2 le rq True s0 keys al by (auto simp: ready_ctx_def)
        qed
      qed
    qed
  qed
  then show "invar (tw_store w') \<and> ledger_le (ledger (tw_store w)) (ledger (tw_store w')) \<and> tw_calls w' = tw_calls w"
    and "r = Inr ctx' \<Longrightarrow> no_dispatch ctx' \<and> (tc_result ctx' = None \<longrightarrow> ready_ctx port ctx'
      \<and> (\<forall>env. tc_envelope ctx' = Some env \<longrightarrow> tc_dedupe_available ctx' \<longrightarrow>
           ledger (tw_store w) (en_dispatch_idempotency_key env) = None
           \<and> ledger (tw_store w') (en_dispatch_idempotency_key env) \<noteq> None))"
    by blast+
qed

lemma record_outcome_law:
  assumes eng: "te_port eng = port" and inv: "invar (tw_store w)"
    and run: "record_outcome eng ctx w a tid dp xctx res = (w', r)"
  shows "invar (tw_store w') \<and> ledger_le (ledger (tw_store w)) (ledger (tw_store w'))
    \<and> tw_calls w' = tw_calls w \<and> (\<forall>ctx'. r = Inr ctx' \<longrightarrow> tc_result ctx' \<noteq> None)"
proof -
  define m where "m = (if py_bool (dict_get_or res ''acknowledged'' (JBool False)) then MarkAcknowledged None else MarkUnknown)"
  obtain s1 r1 where s1: "(if tc_dedupe_available ctx
      then mark_both port (tw_store w) m (tid_dispatch_dedupe_key tid) (tc_legacy_alias_key ctx)
      else (tw_store w, Inr ())) = (s1, r1)" by fastforce
  have le: "invar s1 \<and> ledger_le (ledger (tw_store w)) (ledger s1)"
    using s1 mark_both_law [OF inv] inv by (auto split: if_splits)
  show ?thesis
    using run le s1 unfolding record_outcome_def Let_def m_def [symmetric] eng
    by (auto split: sum.splits if_splits)
qed

lemma phase_execute_law:
  assumes eng: "te_port eng = port" and inv: "invar (tw_store w)"
    and run: "phase_execute eng ctx w = (w', r)"
  shows "invar (tw_store w') \<and> ledger_le (ledger (tw_store w)) (ledger (tw_store w'))
    \<and> (\<forall>ctx'. r = Inr ctx' \<longrightarrow> tc_result ctx' \<noteq> None)
    \<and> (tw_calls w' = tw_calls w \<or> (\<exists>a env. tc_action ctx = Some a \<and> tc_envelope ctx = Some env
         \<and> tw_calls w' = tw_calls w @ [executor_call ctx env a]))"
proof (cases "\<exists>a snap tid dp env. tc_action ctx = Some a \<and> tc_snapshot ctx = Some snap
      \<and> tc_turn_identity ctx = Some tid \<and> tc_dispatch_policy ctx = Some dp \<and> tc_envelope ctx = Some env")
  case False
  with run inv show ?thesis by (auto simp: phase_execute_def split: option.splits)
next
  case True
  then obtain a snap tid dp env where c: "tc_action ctx = Some a" "tc_snapshot ctx = Some snap"
    "tc_turn_identity ctx = Some tid" "tc_dispatch_policy ctx = Some dp" "tc_envelope ctx = Some env" by blast
  let ?x = "build_execution_context (tc_input ctx) a snap tid (tc_admission_result ctx) env"
  obtain env' out where x: "te_execute eng (tw_env w) a snap env
      (if te_executor_accepts_context eng then Some ?x else None) = (env', out)" by fastforce
  let ?w = "w\<lparr>tw_env := env', tw_calls := tw_calls w @ [executor_call ctx env a]\<rparr>"
  show ?thesis
  proof (cases out)
    case (Inl e)
    let ?s1 = "mark_suppressed port (tw_store w) MarkUnknown (tid_dispatch_dedupe_key tid)"
    have "invar ?s1" "ledger_le (ledger (tw_store w)) (ledger ?s1)"
      using mark_suppressed_law [OF inv] by simp_all
    then have "invar (mark_alias port ?s1 MarkUnknown (tc_legacy_alias_key ctx))"
      "ledger_le (ledger (tw_store w)) (ledger (mark_alias port ?s1 MarkUnknown (tc_legacy_alias_key ctx)))"
      using mark_alias_law ledger_le_trans by blast+
    then show ?thesis
      using run c x Inl eng inv by (auto simp: phase_execute_def Let_def split: if_splits)
  next
    case (Inr res)
    then have "record_outcome eng ctx ?w a tid dp ?x res = (w', r)"
      using run c x by (simp add: phase_execute_def Let_def)
    from record_outcome_law [OF eng _ this] inv c show ?thesis by auto
  qed
qed

end

section \<open>Interleaved turns\<close>

text \<open>
  A pool of turns over one world.  Each turn is the list of phases still to run with its
  context; a step starts a turn or runs the next phase of one of them.  A turn that has a
  result, or whose phase raised, leaves the pool.
\<close>

record ('s, 'w) turn_pool =
  tp_world :: "('s, 'w) turn_world"
  tp_turns :: "(string list \<times> turn_phase_context) list"

inductive pool_step :: "('s, 'w) turn_engine \<Rightarrow> ('s, 'w) turn_pool \<Rightarrow> ('s, 'w) turn_pool \<Rightarrow> bool"
  for eng where
  start_turn:
    "pool_step eng p (p\<lparr>tp_turns := tp_turns p @ [(TURN_PHASES, initial_context i a)]\<rparr>)"
| phase_continues:
    "tp_turns p = xs @ (ph # phs, ctx) # ys \<Longrightarrow>
     run_phase eng ph ctx (tp_world p) = (w', Inr ctx') \<Longrightarrow> tc_result ctx' = None \<Longrightarrow>
     pool_step eng p \<lparr>tp_world = w', tp_turns = xs @ (phs, ctx') # ys\<rparr>"
| phase_concludes:
    "tp_turns p = xs @ (ph # phs, ctx) # ys \<Longrightarrow>
     run_phase eng ph ctx (tp_world p) = (w', Inr ctx') \<Longrightarrow> tc_result ctx' = Some res \<Longrightarrow>
     pool_step eng p \<lparr>tp_world = w', tp_turns = xs @ ys\<rparr>"
| phase_raises:
    "tp_turns p = xs @ (ph # phs, ctx) # ys \<Longrightarrow>
     run_phase eng ph ctx (tp_world p) = (w', Inl e) \<Longrightarrow>
     pool_step eng p \<lparr>tp_world = w', tp_turns = xs @ ys\<rparr>"

text \<open>The keys of executor calls made under a reservation, and the keys reserved for a pending call.\<close>

definition called_keys :: "('s, 'w) turn_world \<Rightarrow> string list" where
  "called_keys w = map xl_key (filter xl_dedupe_available (tw_calls w))"

definition pending_key :: "turn_phase_context \<Rightarrow> string list" where
  "pending_key ctx =
     (case tc_envelope ctx of
        Some env \<Rightarrow> if tc_dedupe_available ctx then [en_dispatch_idempotency_key env] else []
      | None \<Rightarrow> [])"

definition pending_keys :: "(string list \<times> turn_phase_context) list \<Rightarrow> string list" where
  "pending_keys ts = concat (map (\<lambda>(phs, ctx). pending_key ctx) ts)"

lemma pending_keys_simps [simp]:
  "pending_keys [] = []"
  "pending_keys ((phs, ctx) # ts) = pending_key ctx @ pending_keys ts"
  "pending_keys (ts @ us) = pending_keys ts @ pending_keys us"
  by (simp_all add: pending_keys_def)

text \<open>A turn in the pool has not reserved yet, or is ready for the executor.\<close>

definition turn_stage_ok :: "'s dedupe_port \<Rightarrow> string list \<times> turn_phase_context \<Rightarrow> bool" where
  "turn_stage_ok port t \<longleftrightarrow>
     tc_result (snd t) = None \<and>
     ((fst t = [''_phase_execute''] \<and> ready_ctx port (snd t)) \<or>
     (\<exists>pre. early_phases @ [''_phase_dedupe'', ''_phase_execute''] = pre @ fst t
        \<and> length pre \<le> 4 \<and> tc_envelope (snd t) = None \<and> tc_legacy_alias_key (snd t) = None))"

definition degraded_ok :: "'s dedupe_port \<Rightarrow> ('s, 'w) turn_world \<Rightarrow> bool" where
  "degraded_ok port w \<longleftrightarrow>
     (\<forall>c \<in> set (tw_calls w). \<not> xl_dedupe_available c \<longrightarrow>
        act_effect_class (xl_action c) = IDEMPOTENT_WRITE \<and> may_fail port)"

lemma turn_stage_cases:
  assumes "turn_stage_ok port (ph # phs, ctx)"
  obtains (early) "ph \<in> set early_phases" "tc_envelope ctx = None"
      "\<And>ctx'. tc_envelope ctx' = None \<Longrightarrow> tc_legacy_alias_key ctx' = None \<Longrightarrow>
         tc_result ctx' = None \<Longrightarrow> turn_stage_ok port (phs, ctx')"
      "tc_legacy_alias_key ctx = None"
    | (dedupe) "ph = ''_phase_dedupe''" "phs = [''_phase_execute'']" "tc_envelope ctx = None" "tc_legacy_alias_key ctx = None"
    | (execute) "ph = ''_phase_execute''" "phs = []" "ready_ctx port ctx"
proof -
  consider "ph = ''_phase_execute''" "phs = []" "ready_ctx port ctx"
    | pre where "early_phases @ [''_phase_dedupe'', ''_phase_execute''] = pre @ ph # phs"
        "length pre \<le> 4" "tc_envelope ctx = None" "tc_legacy_alias_key ctx = None"
    using assms by (auto simp: turn_stage_ok_def)
  then show thesis
  proof cases
    case 1
    then show thesis by (rule execute)
  next
    case 2
    show thesis
    proof (cases "length pre = 4")
      case True
      then have "pre = early_phases \<and> [''_phase_dedupe'', ''_phase_execute''] = ph # phs"
        using 2(1) append_eq_append_conv [of early_phases pre] by (simp add: early_phases_def)
      with 2 show thesis by (intro dedupe) auto
    next
      case False
      with 2 have len: "length (pre @ [ph]) \<le> 4" by simp
      have split: "early_phases @ [''_phase_dedupe'', ''_phase_execute''] = (pre @ [ph]) @ phs"
        using 2(1) by simp
      have "ph = (early_phases @ [''_phase_dedupe'', ''_phase_execute'']) ! length pre"
        using 2(1) by simp
      moreover have "length pre < length early_phases" using len by (simp add: early_phases_def)
      ultimately have "ph \<in> set early_phases" by (simp add: nth_append)
      with split len 2 show thesis by (intro early) (auto simp: turn_stage_ok_def)
    qed
  qed
qed

text \<open>The exceptions that some phase of the engine raises.\<close>

definition raised_by_phase :: "('s, 'w) turn_engine \<Rightarrow> exn \<Rightarrow> bool" where
  "raised_by_phase eng e \<longleftrightarrow> (\<exists>phase ctx w1 w2. run_phase eng phase ctx w1 = (w2, Inl e))"

lemma raised_by_phaseI: "run_phase eng phase ctx w1 = (w2, Inl e) \<Longrightarrow> raised_by_phase eng e"
  unfolding raised_by_phase_def by blast

text \<open>Keys that are pairwise distinct and present in the ledger.\<close>

definition keys_ok :: "ledger \<Rightarrow> string list \<Rightarrow> bool" where
  "keys_ok L ks \<longleftrightarrow> distinct ks \<and> (\<forall>k \<in> set ks. L k \<noteq> None)"

lemma keys_ok_mono: "keys_ok L ks \<Longrightarrow> ledger_le L L' \<Longrightarrow> keys_ok L' ks"
  using ledger_le_dom [of L L'] unfolding keys_ok_def by blast

lemma keys_ok_drop: "keys_ok L (ks @ xs @ p @ ys) \<Longrightarrow> keys_ok L (ks @ xs @ ys)"
  by (auto simp: keys_ok_def)

lemma keys_ok_move: "keys_ok L (ks @ xs @ p @ ys) \<Longrightarrow> keys_ok L ((ks @ p) @ xs @ ys)"
  by (auto simp: keys_ok_def)

lemma keys_ok_insert:
  assumes "keys_ok L (ks @ xs @ ys)" "ledger_le L L'" "distinct p"
    "\<And>k. k \<in> set p \<Longrightarrow> L k = None \<and> L' k \<noteq> None"
  shows "keys_ok L' (ks @ xs @ p @ ys)"
proof -
  have "keys_ok L' (ks @ xs @ ys)" using assms(1,2) by (rule keys_ok_mono)
  moreover have "set p \<inter> set (ks @ xs @ ys) = {}"
    using assms(1,4) unfolding keys_ok_def by blast
  ultimately show ?thesis using assms(3,4) by (auto simp: keys_ok_def)
qed

context dedupe_store_port
begin

definition pool_ok :: "('s, 'w) turn_pool \<Rightarrow> bool" where
  "pool_ok p \<longleftrightarrow>
     invar (tw_store (tp_world p)) \<and>
     list_all (turn_stage_ok port) (tp_turns p) \<and>
     keys_ok (ledger (tw_store (tp_world p))) (called_keys (tp_world p) @ pending_keys (tp_turns p)) \<and>
     degraded_ok port (tp_world p)"

lemma pool_ok_smaller:
  assumes ok: "pool_ok p" and turns: "tp_turns p = xs @ t # ys" and inv: "invar (tw_store w')"
    and le: "ledger_le (ledger (tw_store (tp_world p))) (ledger (tw_store w'))"
    and calls: "tw_calls w' = tw_calls (tp_world p)"
  shows "pool_ok \<lparr>tp_world = w', tp_turns = xs @ ys\<rparr>"
proof -
  have "keys_ok (ledger (tw_store (tp_world p))) (called_keys (tp_world p) @ pending_keys xs @ pending_keys ys)"
    using ok turns by (cases t) (auto simp: pool_ok_def intro: keys_ok_drop)
  with ok turns inv le calls show ?thesis
    by (auto simp: pool_ok_def called_keys_def degraded_ok_def intro: keys_ok_mono)
qed

text \<open>A finished executor phase turns its pending key into a called one.\<close>

lemma pool_ok_execute:
  assumes ok: "pool_ok p" and turns: "tp_turns p = xs @ ([''_phase_execute''], ctx) # ys"
    and ready: "ready_ctx port ctx" and inv: "invar (tw_store w')"
    and le: "ledger_le (ledger (tw_store (tp_world p))) (ledger (tw_store w'))"
    and calls: "tw_calls w' = tw_calls (tp_world p) \<or> (\<exists>a env. tc_action ctx = Some a
      \<and> tc_envelope ctx = Some env \<and> tw_calls w' = tw_calls (tp_world p) @ [executor_call ctx env a])"
  shows "pool_ok \<lparr>tp_world = w', tp_turns = xs @ ys\<rparr>"
  using calls
proof (elim disjE exE conjE)
  assume "tw_calls w' = tw_calls (tp_world p)"
  with pool_ok_smaller [OF ok turns inv le] show ?thesis by simp
next
  fix a env
  assume a: "tc_action ctx = Some a" and env: "tc_envelope ctx = Some env"
    and new: "tw_calls w' = tw_calls (tp_world p) @ [executor_call ctx env a]"
  have keys: "called_keys w' = called_keys (tp_world p) @ pending_key ctx"
    using env by (simp add: called_keys_def new executor_call_def pending_key_def)
  have "keys_ok (ledger (tw_store w')) (called_keys w' @ pending_keys xs @ pending_keys ys)"
    unfolding keys using ok turns le by (intro keys_ok_mono [OF keys_ok_move]) (auto simp: pool_ok_def)
  moreover have "degraded_ok port w'"
    using ok new ready a by (auto simp: degraded_ok_def pool_ok_def executor_call_def ready_ctx_def)
  ultimately show ?thesis
    using ok turns inv by (simp add: pool_ok_def)
qed

lemma pool_step_ok:
  assumes eng: "te_port eng = port" and step: "pool_step eng p p'" and ok: "pool_ok p"
  shows "pool_ok p'"
  using step
proof cases
  case (start_turn i a)
  have "turn_stage_ok port (TURN_PHASES, initial_context i a)"
    by (simp add: turn_stage_ok_def TURN_PHASES_def early_phases_def initial_context_def exI [of _ "[]"])
  then show ?thesis
    using ok start_turn by (simp add: pool_ok_def pending_key_def initial_context_def)
next
  case (phase_continues xs ph phs ctx ys w' ctx')
  have inv: "invar (tw_store (tp_world p))" and stage: "turn_stage_ok port (ph # phs, ctx)"
    using ok phase_continues(2) by (simp_all add: pool_ok_def)
  have res0: "tc_result ctx = None" using stage by (simp add: turn_stage_ok_def)
  from stage show ?thesis
  proof (cases rule: turn_stage_cases)
    case early
    note f = early_phase_frame [OF phase_continues(3) early(1)]
    have none: "tc_envelope ctx' = None" "tc_legacy_alias_key ctx' = None" using f(3) early(2,4) by simp_all
    then show ?thesis
      using ok phase_continues f early(2) early(3) [OF none phase_continues(4)]
      by (simp add: pool_ok_def called_keys_def degraded_ok_def pending_key_def)
  next
    case dedupe
    have run: "phase_dedupe eng ctx (tp_world p) = (w', Inr ctx')"
      using phase_continues(3) dedupe(1) by (simp add: run_phase_def)
    note law = phase_dedupe_law [OF eng inv dedupe(4) res0 run]
    have ready: "ready_ctx port ctx'" and fresh: "\<And>env. tc_envelope ctx' = Some env \<Longrightarrow> tc_dedupe_available ctx' \<Longrightarrow>
        ledger (tw_store (tp_world p)) (en_dispatch_idempotency_key env) = None
        \<and> ledger (tw_store w') (en_dispatch_idempotency_key env) \<noteq> None"
      using law(2) [OF refl] phase_continues(4) by simp_all
    have old: "keys_ok (ledger (tw_store (tp_world p))) (called_keys (tp_world p) @ pending_keys xs @ pending_keys ys)"
      using ok phase_continues(2) dedupe(3) by (simp add: pool_ok_def pending_key_def)
    have new: "distinct (pending_key ctx')" "\<And>k. k \<in> set (pending_key ctx') \<Longrightarrow>
        ledger (tw_store (tp_world p)) k = None \<and> ledger (tw_store w') k \<noteq> None"
      using fresh by (auto simp: pending_key_def split: option.splits if_splits)
    have "keys_ok (ledger (tw_store w')) (called_keys w' @ pending_keys xs @ pending_key ctx' @ pending_keys ys)"
      using keys_ok_insert [OF old _ new] law(1) by (simp add: called_keys_def)
    then show ?thesis
      using ok phase_continues(1,2,4) law(1) ready dedupe(2)
      by (simp add: pool_ok_def turn_stage_ok_def degraded_ok_def)
  next
    case execute
    have run: "phase_execute eng ctx (tp_world p) = (w', Inr ctx')"
      using phase_continues(3) execute(1) by (simp add: run_phase_def)
    from phase_execute_law [OF eng inv run] phase_continues(4) show ?thesis by simp
  qed
next
  case (phase_concludes xs ph phs ctx ys w' ctx' res)
  have inv: "invar (tw_store (tp_world p))" and stage: "turn_stage_ok port (ph # phs, ctx)"
    using ok phase_concludes(2) by (simp_all add: pool_ok_def)
  have res0: "tc_result ctx = None" using stage by (simp add: turn_stage_ok_def)
  from stage show ?thesis
  proof (cases rule: turn_stage_cases)
    case early
    note f = early_phase_frame [OF phase_concludes(3) early(1)]
    show ?thesis using pool_ok_smaller [OF ok phase_concludes(2), of w'] f inv phase_concludes(1) by simp
  next
    case dedupe
    have run: "phase_dedupe eng ctx (tp_world p) = (w', Inr ctx')"
      using phase_concludes(3) dedupe(1) by (simp add: run_phase_def)
    show ?thesis
      using pool_ok_smaller [OF ok phase_concludes(2), of w'] phase_dedupe_law(1) [OF eng inv dedupe(4) res0 run] phase_concludes(1) by simp
  next
    case execute
    have run: "phase_execute eng ctx (tp_world p) = (w', Inr ctx')"
      using phase_concludes(3) execute(1) by (simp add: run_phase_def)
    show ?thesis
      using pool_ok_execute [OF ok phase_concludes(2) [unfolded execute(1,2)] execute(3), of w']
        phase_execute_law [OF eng inv run] phase_concludes(1) by simp
  qed
next
  case (phase_raises xs ph phs ctx ys w' e)
  have inv: "invar (tw_store (tp_world p))" and stage: "turn_stage_ok port (ph # phs, ctx)"
    using ok phase_raises(2) by (simp_all add: pool_ok_def)
  have res0: "tc_result ctx = None" using stage by (simp add: turn_stage_ok_def)
  from stage show ?thesis
  proof (cases rule: turn_stage_cases)
    case early
    note f = early_phase_frame [OF phase_raises(3) early(1)]
    show ?thesis using pool_ok_smaller [OF ok phase_raises(2), of w'] f inv phase_raises(1) by simp
  next
    case dedupe
    have run: "phase_dedupe eng ctx (tp_world p) = (w', Inl e)"
      using phase_raises(3) dedupe(1) by (simp add: run_phase_def)
    show ?thesis
      using pool_ok_smaller [OF ok phase_raises(2), of w'] phase_dedupe_law(1) [OF eng inv dedupe(4) res0 run] phase_raises(1) by simp
  next
    case execute
    have run: "phase_execute eng ctx (tp_world p) = (w', Inl e)"
      using phase_raises(3) execute(1) by (simp add: run_phase_def)
    show ?thesis
      using pool_ok_execute [OF ok phase_raises(2) [unfolded execute(1,2)] execute(3), of w']
        phase_execute_law [OF eng inv run] phase_raises(1) by simp
  qed
qed

lemma pool_reachable_ok:
  assumes eng: "te_port eng = port" and "invar s"
    and reach: "(pool_step eng)\<^sup>*\<^sup>* \<lparr>tp_world = \<lparr>tw_store = s, tw_env = env, tw_calls = []\<rparr>, tp_turns = []\<rparr> p"
  shows "pool_ok p"
  using reach
proof (induction rule: rtranclp_induct)
  case base
  then show ?case using assms(2) by (simp add: pool_ok_def keys_ok_def called_keys_def degraded_ok_def)
next
  case (step p p')
  then show ?case using pool_step_ok [OF eng] by blast
qed

lemma executor_called_once_per_key:
  assumes "te_port eng = port" "invar s"
    "(pool_step eng)\<^sup>*\<^sup>* \<lparr>tp_world = \<lparr>tw_store = s, tw_env = env, tw_calls = []\<rparr>, tp_turns = []\<rparr> p"
  shows "distinct (map xl_key (filter xl_dedupe_available (tw_calls (tp_world p))))
    \<and> (\<forall>c \<in> set (tw_calls (tp_world p)). \<not> xl_dedupe_available c \<longrightarrow>
         act_effect_class (xl_action c) = IDEMPOTENT_WRITE \<and> may_fail port)"
  using pool_reachable_ok [OF assms] by (simp add: pool_ok_def keys_ok_def called_keys_def degraded_ok_def)

text \<open>
  One turn from its first phase to its result.  A result that is not a dispatch goes with no
  executor call; a dispatch goes with exactly one call under the result's key, and if the call
  was made under a reservation, the ledger shows what became of it.
\<close>

definition result_recorded :: "('s, 'w) turn_world \<Rightarrow> ('s, 'w) turn_world \<Rightarrow> turn_result \<Rightarrow> bool" where
  "result_recorded w w' res \<longleftrightarrow>
     (if tr_outcome_kind res \<in> {Outcome_noop, Outcome_blocked} then tw_calls w' = tw_calls w
      else \<exists>c. tw_calls w' = tw_calls w @ [c] \<and> tr_dispatch_dedupe_key res = Some (xl_key c)
        \<and> (xl_dedupe_available c \<longrightarrow>
             (\<exists>r. ledger (tw_store w') (xl_key c) = Some r \<and>
                dr_state r = (if tr_outcome_kind res = Outcome_dispatched then Acknowledged else Unknown_effect))))"

lemma result_recorded_cong: "tw_calls w1 = tw_calls w \<Longrightarrow> result_recorded w1 w' res = result_recorded w w' res"
  by (simp add: result_recorded_def)

lemma mark_both_records:
  assumes inv: "invar s" and run: "mark_both port s m k al = (s', Inr u)" and "al \<noteq> Some k"
  shows "\<exists>r. ledger s' k = Some r \<and> dr_state r = mark_target m"
proof -
  obtain s1 u1 where r1: "port_mark port s m k = (s1, Inr u1)" and s': "s' = mark_alias port s1 m al"
    using run by (auto simp: mark_both_def split: prod.splits sum.splits)
  from mark_law [OF inv r1] obtain r where "invar s1" and r: "ledger s1 k = Some (mark_record m r)"
    by auto
  show ?thesis
  proof (cases "al")
    case None
    with s' r show ?thesis by (simp add: mark_alias_def)
  next
    case (Some k2)
    obtain s2 r2 where r2: "port_mark port s1 m k2 = (s2, r2)" by fastforce
    have "k2 \<noteq> k" using Some assms(3) by simp
    then have "ledger s2 k = ledger s1 k"
      using mark_law [OF \<open>invar s1\<close> r2] by (auto split: sum.splits)
    with s' Some r2 r show ?thesis by (simp add: mark_alias_def mark_suppressed_def)
  qed
qed

lemma record_outcome_records:
  assumes eng: "te_port eng = port" and inv: "invar (tw_store w)"
    and al: "tc_legacy_alias_key ctx \<noteq> Some (tid_dispatch_dedupe_key tid)"
    and run: "record_outcome eng ctx w a tid dp xctx er = (w', Inr ctx')"
  shows "\<exists>res. tc_result ctx' = Some res \<and> tr_dispatch_dedupe_key res = Some (tid_dispatch_dedupe_key tid)
    \<and> tr_outcome_kind res \<in> {Outcome_dispatched, Outcome_recovery_pending}
    \<and> (tc_dedupe_available ctx \<longrightarrow> (\<exists>r. ledger (tw_store w') (tid_dispatch_dedupe_key tid) = Some r
         \<and> dr_state r = (if tr_outcome_kind res = Outcome_dispatched then Acknowledged else Unknown_effect)))"
proof -
  define ack where "ack = py_bool (dict_get_or er ''acknowledged'' (JBool False))"
  define m where "m = (if ack then MarkAcknowledged None else MarkUnknown)"
  obtain s1 r1 where s1: "(if tc_dedupe_available ctx
      then mark_both port (tw_store w) m (tid_dispatch_dedupe_key tid) (tc_legacy_alias_key ctx)
      else (tw_store w, Inr ())) = (s1, r1)" by fastforce
  have ok: "r1 = Inr ()" "tw_store w' = s1"
    and res: "\<exists>res. tc_result ctx' = Some res \<and> tr_dispatch_dedupe_key res = Some (tid_dispatch_dedupe_key tid)
      \<and> tr_outcome_kind res = (if ack then Outcome_dispatched else Outcome_recovery_pending)"
    using run s1 unfolding record_outcome_def Let_def ack_def [symmetric] m_def [symmetric] eng
    by (auto simp: build_recovery_pending_turn_result_def Let_def split: sum.splits if_splits)
  have "tc_dedupe_available ctx \<Longrightarrow> \<exists>r. ledger s1 (tid_dispatch_dedupe_key tid) = Some r \<and> dr_state r = mark_target m"
    using s1 ok mark_both_records [OF inv _ al] by auto
  with res ok show ?thesis by (cases ack) (auto simp: m_def)
qed

lemma phase_execute_records:
  assumes eng: "te_port eng = port" and inv: "invar (tw_store w)" and ready: "ready_ctx port ctx"
    and run: "phase_execute eng ctx w = (w', Inr ctx')"
  shows "\<exists>res. tc_result ctx' = Some res \<and> result_recorded w w' res"
proof -
  from ready obtain a tid env where c: "tc_action ctx = Some a" "tc_turn_identity ctx = Some tid"
    "tc_envelope ctx = Some env" "en_dispatch_idempotency_key env = tid_dispatch_dedupe_key tid"
    "tc_legacy_alias_key ctx \<noteq> Some (tid_dispatch_dedupe_key tid)"
    by (auto simp: ready_ctx_def)
  from run c obtain snap dp where d: "tc_snapshot ctx = Some snap" "tc_dispatch_policy ctx = Some dp"
    by (auto simp: phase_execute_def split: option.splits)
  let ?x = "build_execution_context (tc_input ctx) a snap tid (tc_admission_result ctx) env"
  obtain env' out where x: "te_execute eng (tw_env w) a snap env
      (if te_executor_accepts_context eng then Some ?x else None) = (env', out)" by fastforce
  let ?w = "w\<lparr>tw_env := env', tw_calls := tw_calls w @ [executor_call ctx env a]\<rparr>"
  obtain er where "record_outcome eng ctx ?w a tid dp ?x er = (w', Inr ctx')"
    using run c d x by (cases out) (auto simp: phase_execute_def Let_def)
  note ro = this
  from record_outcome_records [OF eng _ c(5) ro] inv obtain res where
    res: "tc_result ctx' = Some res" "tr_dispatch_dedupe_key res = Some (tid_dispatch_dedupe_key tid)"
    "tr_outcome_kind res \<in> {Outcome_dispatched, Outcome_recovery_pending}"
    "tc_dedupe_available ctx \<Longrightarrow> \<exists>r. ledger (tw_store w') (tid_dispatch_dedupe_key tid) = Some r
       \<and> dr_state r = (if tr_outcome_kind res = Outcome_dispatched then Acknowledged else Unknown_effect)"
    by auto
  have calls: "tw_calls w' = tw_calls w @ [executor_call ctx env a]"
    using record_outcome_law [OF eng _ ro] inv by simp
  have "result_recorded w w' res"
    unfolding result_recorded_def using res(2-4) c(4) calls
    by (auto simp: executor_call_def)
  with res(1) show ?thesis by blast
qed

lemma run_phases_law:
  assumes eng: "te_port eng = port"
  shows "turn_stage_ok port (phs, ctx) \<Longrightarrow> invar (tw_store w) \<Longrightarrow> run_phases eng phs ctx w = (w', out) \<Longrightarrow>
    invar (tw_store w') \<and> ledger_le (ledger (tw_store w)) (ledger (tw_store w'))
    \<and> (tw_calls w' = tw_calls w \<or> (\<exists>c. tw_calls w' = tw_calls w @ [c]))
    \<and> (case out of
         Inl e \<Rightarrow> raised_by_phase eng e
       | Inr res \<Rightarrow> result_recorded w w' res)"
proof (induction phs arbitrary: ctx w)
  case Nil
  then show ?case by (auto simp: turn_stage_ok_def early_phases_def)
next
  case (Cons ph phs)
  note inv = Cons.prems(2)
  have res0: "tc_result ctx = None" using Cons.prems(1) by (simp add: turn_stage_ok_def)
  obtain w1 r where r: "run_phase eng ph ctx w = (w1, r)" by fastforce
  from Cons.prems(1) show ?case
  proof (cases rule: turn_stage_cases)
    case early
    note f = early_phase_frame [OF r early(1)]
    show ?thesis
    proof (cases r)
      case (Inl e)
      with r Cons.prems(3) f inv show ?thesis by (auto intro: raised_by_phaseI)
    next
      case (Inr c1)
      have c1: "tc_envelope c1 = None" "tc_legacy_alias_key c1 = None" "no_dispatch c1"
        using f(3) [OF Inr] early(2,4) res0 by simp_all
      show ?thesis
      proof (cases "tc_result c1")
        case None
        with early(3) [OF c1(1,2)] have "turn_stage_ok port (phs, c1)" by simp
        from Cons.IH [OF this, of w1] r Inr None Cons.prems(3) f inv
        show ?thesis by (cases out) (simp_all add: result_recorded_cong [OF f(2)])
      next
        case (Some res)
        with r Inr Cons.prems(3) f inv c1(3) show ?thesis
          by (auto simp: result_recorded_def no_dispatch_def)
      qed
    qed
  next
    case dedupe
    have run: "phase_dedupe eng ctx w = (w1, r)" using r dedupe(1) by (simp add: run_phase_def)
    note law = phase_dedupe_law [OF eng inv dedupe(4) res0 run]
    show ?thesis
    proof (cases r)
      case (Inl e)
      with r Cons.prems(3) law(1) show ?thesis by (auto intro: raised_by_phaseI)
    next
      case (Inr c1)
      show ?thesis
      proof (cases "tc_result c1")
        case None
        with law(2) [OF Inr] dedupe(2) have "turn_stage_ok port (phs, c1)" by (simp add: turn_stage_ok_def)
        from Cons.IH [OF this, of w1] r Inr None Cons.prems(3) law(1) show ?thesis
          by (cases out) (auto simp: result_recorded_cong [of w1 w] intro: ledger_le_trans)
      next
        case (Some res)
        with r Inr Cons.prems(3) law(1) law(2) [OF Inr] show ?thesis
          by (auto simp: result_recorded_def no_dispatch_def)
      qed
    qed
  next
    case execute
    have run: "phase_execute eng ctx w = (w1, r)" using r execute(1) by (simp add: run_phase_def)
    note law = phase_execute_law [OF eng inv run]
    show ?thesis
    proof (cases r)
      case (Inl e)
      with r Cons.prems(3) law show ?thesis by (auto intro: raised_by_phaseI)
    next
      case (Inr c1)
      from phase_execute_records [OF eng inv execute(3) run [unfolded Inr]] obtain res
        where "tc_result c1 = Some res" "result_recorded w w1 res" by blast
      with r Inr Cons.prems(3) law show ?thesis by auto
    qed
  qed
qed

lemma initial_stage_ok: "turn_stage_ok port (TURN_PHASES, initial_context i a)"
  by (simp add: turn_stage_ok_def TURN_PHASES_def early_phases_def initial_context_def exI [of _ "[]"])

lemmas run_turn_law = run_phases_law [OF _ initial_stage_ok, folded run_turn_def]

end

section \<open>Properties of turns\<close>

lemma mem_never_fails: "\<not> may_fail mem_port"
  by (auto simp: may_fail_def mem_reserve_and_dispatch_def split: option.splits)

text \<open>
  C1 (safety): with the in-memory store, however any number of turns are interleaved and whatever the
  admission service, the executor and the reasoning loop do, the executor is called at most
  once for every dispatch key.
\<close>

theorem executor_called_once_per_key_mem:
  assumes "te_port eng = mem_port"
    "(pool_step eng)\<^sup>*\<^sup>* \<lparr>tp_world = \<lparr>tw_store = [], tw_env = env, tw_calls = []\<rparr>, tp_turns = []\<rparr> p"
  shows "distinct (map xl_key (tw_calls (tp_world p)))"
proof -
  note law = mem.executor_called_once_per_key [OF assms(1) _ assms(2)]
  then have "filter xl_dedupe_available (tw_calls (tp_world p)) = tw_calls (tp_world p)"
    using mem_never_fails by (auto simp: filter_id_conv)
  with law show ?thesis by simp
qed

definition sample_engine :: "(dedupe_mem, unit) turn_engine" where
  "sample_engine =
     \<lparr>te_port = mem_port, te_snapshot_builder = build_snapshot ''now'',
      te_admit = (\<lambda>w a s. (w, Inr (AdmBool True))),
      te_execute = (\<lambda>w a s e x. (w, Inr [(''acknowledged'', JBool True)])),
      te_executor_accepts_context = True, te_snapshot_input_resolver = None,
      te_require_declared_snapshot_inputs = False, te_reasoning_loop = None,
      te_defaults = \<lparr>td_model_ref = ''echo'', td_tenant_policy_ref = ''policy:default'', td_permission_mode = ''strict''\<rparr>,
      te_float_repr = (\<lambda>_. []), te_now = (\<lambda>_. ''now'')\<rparr>"

definition sample_turn_input :: turn_input where
  "sample_turn_input =
     \<lparr>ti_run_id = ''r1'', ti_through_offset = 1, ti_based_on_offset = 1, ti_trigger_type = Trigger_start,
      ti_history = []\<rparr>"

theorem executor_called_once_per_key_mem_witness:
  "\<exists>p. (pool_step sample_engine)\<^sup>*\<^sup>*
       \<lparr>tp_world = \<lparr>tw_store = [], tw_env = (), tw_calls = []\<rparr>, tp_turns = []\<rparr> p
     \<and> tp_turns p \<noteq> [] \<and> distinct (map xl_key (tw_calls (tp_world p)))"
proof -
  let ?p = "\<lparr>tp_world = \<lparr>tw_store = [], tw_env = (), tw_calls = []\<rparr>, tp_turns = []\<rparr> :: (dedupe_mem, unit) turn_pool"
  let ?q = "?p\<lparr>tp_turns := tp_turns ?p @ [(TURN_PHASES, initial_context sample_turn_input None)]\<rparr>"
  have "te_port sample_engine = mem_port" by (simp add: sample_engine_def)
  moreover have "(pool_step sample_engine)\<^sup>*\<^sup>* ?p ?q" by (rule r_into_rtranclp) (rule start_turn)
  ultimately have "distinct (map xl_key (tw_calls (tp_world ?q)))"
    by (rule executor_called_once_per_key_mem)
  with \<open>(pool_step sample_engine)\<^sup>*\<^sup>* ?p ?q\<close> show ?thesis by (intro exI [of _ ?q]) simp
qed

text \<open>
  C31 (safety): with the SQLite store, under any pattern of statement faults and any interleaving of
  turns, calls made under a reservation have distinct keys, and the executor runs without a
  reservation only for actions declared as idempotent writes.
\<close>

theorem executor_called_once_per_key_sqlite:
  assumes "te_port eng = sq_port"
    "(pool_step eng)\<^sup>*\<^sup>* \<lparr>tp_world = \<lparr>tw_store = sq_ensure_schema faults, tw_env = env, tw_calls = []\<rparr>, tp_turns = []\<rparr> p"
  shows "distinct (map xl_key (filter xl_dedupe_available (tw_calls (tp_world p))))
    \<and> (\<forall>c \<in> set (tw_calls (tp_world p)). xl_dedupe_available c
         \<or> act_effect_class (xl_action c) = IDEMPOTENT_WRITE)"
  using sq.executor_called_once_per_key [OF assms(1) _ assms(2)] by simp blast

definition sample_sqlite_engine :: "(sqlite_db, unit) turn_engine" where
  "sample_sqlite_engine =
     \<lparr>te_port = sq_port, te_snapshot_builder = build_snapshot ''now'',
      te_admit = (\<lambda>w a s. (w, Inr (AdmBool True))),
      te_execute = (\<lambda>w a s e x. (w, Inr [(''acknowledged'', JBool True)])),
      te_executor_accepts_context = True, te_snapshot_input_resolver = None,
      te_require_declared_snapshot_inputs = False, te_reasoning_loop = None,
      te_defaults = \<lparr>td_model_ref = ''echo'', td_tenant_policy_ref = ''policy:default'', td_permission_mode = ''strict''\<rparr>,
      te_float_repr = (\<lambda>_. []), te_now = (\<lambda>_. ''now'')\<rparr>"

theorem executor_called_once_per_key_sqlite_witness:
  "\<exists>p. (pool_step sample_sqlite_engine)\<^sup>*\<^sup>*
       \<lparr>tp_world = \<lparr>tw_store = sq_ensure_schema [True], tw_env = (), tw_calls = []\<rparr>, tp_turns = []\<rparr> p
     \<and> tp_turns p \<noteq> [] \<and> distinct (map xl_key (filter xl_dedupe_available (tw_calls (tp_world p))))"
proof -
  let ?p = "\<lparr>tp_world = \<lparr>tw_store = sq_ensure_schema [True], tw_env = (), tw_calls = []\<rparr>, tp_turns = []\<rparr> :: (sqlite_db, unit) turn_pool"
  let ?q = "?p\<lparr>tp_turns := tp_turns ?p @ [(TURN_PHASES, initial_context sample_turn_input None)]\<rparr>"
  have "te_port sample_sqlite_engine = sq_port" by (simp add: sample_sqlite_engine_def)
  moreover have "(pool_step sample_sqlite_engine)\<^sup>*\<^sup>* ?p ?q" by (rule r_into_rtranclp) (rule start_turn)
  ultimately have "distinct (map xl_key (filter xl_dedupe_available (tw_calls (tp_world ?q))))"
    by (rule executor_called_once_per_key_sqlite [THEN conjunct1])
  with \<open>(pool_step sample_sqlite_engine)\<^sup>*\<^sup>* ?p ?q\<close> show ?thesis by (intro exI [of _ ?q]) simp
qed

text \<open>
  Progress, phase by phase: each phase either sets the result or fills the fields of the context
  that the next one asserts.
\<close>

definition staged :: "nat \<Rightarrow> turn_phase_context \<Rightarrow> bool" where
  "staged n ctx \<longleftrightarrow>
     (n \<ge> 1 \<longrightarrow> tc_action ctx \<noteq> None)
     \<and> (n \<ge> 2 \<longrightarrow> tc_snapshot ctx \<noteq> None \<and> tc_turn_identity ctx \<noteq> None)
     \<and> (n \<ge> 3 \<longrightarrow> tc_dispatch_policy ctx \<noteq> None)"

lemma phase_noop_progress:
  "\<exists>w' ctx'. phase_noop_or_reasoning eng ctx w = (w', Inr ctx') \<and> (tc_result ctx' = None \<longrightarrow> staged 1 ctx')"
  by (auto simp: phase_noop_or_reasoning_def staged_def Let_def split: option.splits sum.splits prod.splits list.splits)

lemma phase_snapshot_progress:
  assumes "staged 1 ctx"
    "\<And>i a e. bind_result (resolve_snapshot_input eng i a) (te_snapshot_builder eng) = Inl e \<Longrightarrow> is_value_error e"
  shows "\<exists>w' ctx'. phase_snapshot eng ctx w = (w', Inr ctx') \<and> (tc_result ctx' = None \<longrightarrow> staged 2 ctx')"
proof -
  obtain a where a: "tc_action ctx = Some a" using assms(1) by (auto simp: staged_def)
  let ?b = "bind_result (resolve_snapshot_input eng (tc_input ctx) a) (te_snapshot_builder eng)"
  show ?thesis
  proof (cases ?b)
    case (Inl e)
    with a assms(2) [OF Inl] show ?thesis by (simp add: phase_snapshot_def Let_def)
  next
    case (Inr snap)
    have "is_value_error e" if "assert_snapshot_compatible snap = Inl e" for e
      using that by (auto simp: assert_snapshot_compatible_def split: if_splits)
    with a Inr show ?thesis
      by (auto simp: phase_snapshot_def Let_def staged_def emit_def split: sum.splits)
  qed
qed

lemma phase_admission_progress:
  assumes "staged 2 ctx" "\<And>w a s. is_ok (snd (te_admit eng w a s))"
  shows "\<exists>w' ctx'. phase_admission eng ctx w = (w', Inr ctx') \<and> (tc_result ctx' = None \<longrightarrow> staged 2 ctx')"
proof -
  obtain a snap tid where c: "tc_action ctx = Some a" "tc_snapshot ctx = Some snap" "tc_turn_identity ctx = Some tid"
    using assms(1) by (auto simp: staged_def)
  obtain env' adm where "te_admit eng (tw_env w) a snap = (env', Inr adm)"
    using assms(2) [of "tw_env w" a snap]
    by (cases "te_admit eng (tw_env w) a snap"; cases "snd (te_admit eng (tw_env w) a snap)") auto
  with c show ?thesis by (auto simp: phase_admission_def Let_def staged_def emit_def)
qed

lemma phase_dispatch_policy_progress:
  assumes "staged 2 ctx"
  shows "\<exists>w' ctx'. phase_dispatch_policy eng ctx w = (w', Inr ctx') \<and> (tc_result ctx' = None \<longrightarrow> staged 3 ctx')"
  using assms by (auto simp: phase_dispatch_policy_def Let_def staged_def)

text \<open>After the dedupe phase of a turn that goes on, the in-memory store holds its key as dispatched.\<close>

definition key_dispatched :: "turn_phase_context \<Rightarrow> dedupe_mem \<Rightarrow> bool" where
  "key_dispatched ctx s \<longleftrightarrow> (\<exists>tid r. tc_turn_identity ctx = Some tid
     \<and> dict_get s (tid_dispatch_dedupe_key tid) = Some r \<and> dr_state r = Dispatched)"

lemma mem_reserve_other:
  "mem_reserve_and_dispatch s env p = (s', res) \<Longrightarrow> k \<noteq> en_dispatch_idempotency_key env
     \<Longrightarrow> dict_get s' k = dict_get s k"
  by (auto simp: mem_reserve_and_dispatch_def split: option.splits)

lemma phase_dedupe_progress:
  assumes "staged 3 ctx" and port: "te_port eng = mem_port"
  shows "\<exists>w' ctx'. phase_dedupe eng ctx w = (w', Inr ctx') \<and> (tc_result ctx' = None \<longrightarrow>
    staged 3 ctx' \<and> tc_envelope ctx' \<noteq> None \<and> key_dispatched ctx' (tw_store w'))"
proof -
  obtain a snap tid dp where c: "tc_action ctx = Some a" "tc_snapshot ctx = Some snap"
    "tc_turn_identity ctx = Some tid" "tc_dispatch_policy ctx = Some dp"
    using assms(1) by (auto simp: staged_def)
  let ?key = "tid_dispatch_dedupe_key tid"
  let ?lk = "legacy_dispatch_dedupe_key (ti_run_id (tc_input ctx)) (act_action_id a) (ti_based_on_offset (tc_input ctx))"
  let ?env = "resolve_idempotency_envelope (te_float_repr eng) (tc_admission_result ctx) tid a snap (dp_host_kind dp)"
  let ?s = "tw_store w"
  have "fst (legacy_lookup mem_port ?s ?lk ?key) = ?s"
    by (simp add: legacy_lookup_def mem_get_def)
  then obtain lr where l: "legacy_lookup mem_port ?s ?lk ?key = (?s, lr)"
    by (metis prod.collapse)
  show ?thesis
  proof (cases "lr \<noteq> None \<or> dict_get ?s ?key \<noteq> None")
    case True
    then show ?thesis
      using c port l by (cases lr) (auto simp: phase_dedupe_def Let_def reserve_with_degradation_def
          mem_reserve_and_dispatch_def)
  next
    case False
    then obtain s1 r where s1: "mem_reserve_and_dispatch ?s ?env None = (s1, Inr accepted_reservation)"
      and r: "dict_get s1 ?key = Some r" "dr_state r = Dispatched"
      by (simp add: mem_reserve_and_dispatch_def)
    obtain s2 al where m: "(if ?lk \<noteq> ?key then mirror_legacy_key mem_port s1 ?env ?lk else (s1, None)) = (s2, al)"
      by fastforce
    have "dict_get s2 ?key = Some r"
    proof (cases "?lk = ?key")
      case True
      with m r show ?thesis by simp
    next
      case neq: False
      obtain s3 r3 where m3: "mem_reserve_and_dispatch s1 (?env\<lparr>en_dispatch_idempotency_key := ?lk\<rparr>)
          (en_peer_operation_id ?env) = (s3, r3)" by fastforce
      then have "s3 = s2" using m neq by (auto simp: mirror_legacy_key_def split: sum.splits)
      with mem_reserve_other [OF m3, of ?key] neq r(1) show ?thesis by simp
    qed
    with r(2) c have "key_dispatched ctx s2" by (auto simp: key_dispatched_def)
    moreover have "lr = None" using False by simp
    ultimately show ?thesis
      using c port l s1 m
      by (auto simp: phase_dedupe_def Let_def reserve_with_degradation_def staged_def key_dispatched_def emit_def
          split: option.splits)
  qed
qed

lemma mem_mark_from_dispatched:
  assumes "dict_get s k = Some r" "dr_state r = Dispatched" "m = MarkAcknowledged None \<or> m = MarkUnknown"
  shows "\<exists>s'. mark_both mem_port s m k al = (s', Inr ())"
  using assms by (auto simp: mark_both_def mem_mark_acknowledged_def mem_mark_unknown_effect_def
      mem_get_required_record_def)

lemma phase_execute_progress:
  assumes "staged 3 ctx" "tc_envelope ctx \<noteq> None" "key_dispatched ctx (tw_store w)" and port: "te_port eng = mem_port"
    and ok: "\<And>w a s e x. is_ok (snd (te_execute eng w a s e x))"
  shows "\<exists>w' ctx'. phase_execute eng ctx w = (w', Inr ctx') \<and> tc_result ctx' \<noteq> None"
proof -
  obtain a snap tid dp env where c: "tc_action ctx = Some a" "tc_snapshot ctx = Some snap"
    "tc_turn_identity ctx = Some tid" "tc_dispatch_policy ctx = Some dp" "tc_envelope ctx = Some env"
    using assms(1,2) by (auto simp: staged_def)
  obtain r where r: "dict_get (tw_store w) (tid_dispatch_dedupe_key tid) = Some r" "dr_state r = Dispatched"
    using assms(3) c(3) by (auto simp: key_dispatched_def)
  let ?x = "build_execution_context (tc_input ctx) a snap tid (tc_admission_result ctx) env"
  obtain env' er where x: "te_execute eng (tw_env w) a snap env
      (if te_executor_accepts_context eng then Some ?x else None) = (env', Inr er)"
    using ok by (metis is_ok_simps(2) obj_sumE prod.collapse)
  define m where "m = (if py_bool (dict_get_or er ''acknowledged'' (JBool False)) then MarkAcknowledged None else MarkUnknown)"
  obtain s' where "mark_both mem_port (tw_store w) m (tid_dispatch_dedupe_key tid) (tc_legacy_alias_key ctx) = (s', Inr ())"
    using mem_mark_from_dispatched [OF r] m_def by metis
  with c x port show ?thesis
    by (auto simp: phase_execute_def Let_def record_outcome_def m_def)
qed

text \<open>
  C29 (liveness): a turn always concludes. Over the in-memory store, when snapshot building fails only
  with value errors and the admission service and the executor answer, every turn ends with a
  result, whatever the store holds: no assertion of a phase fails, no mark is refused, and the
  final safety net of the phase loop is never reached.
\<close>

theorem turn_concludes:
  assumes "te_port eng = mem_port"
    "\<And>i a e. bind_result (resolve_snapshot_input eng i a) (te_snapshot_builder eng) = Inl e \<Longrightarrow> is_value_error e"
    "\<And>w a s. is_ok (snd (te_admit eng w a s))"
    "\<And>w a s e x. is_ok (snd (te_execute eng w a s e x))"
  shows "is_ok (snd (run_turn eng i a w))"
proof -
  obtain w1 c1 where 1: "phase_noop_or_reasoning eng (initial_context i a) w = (w1, Inr c1)"
    "tc_result c1 = None \<longrightarrow> staged 1 c1"
    using phase_noop_progress [of eng "initial_context i a" w] by (elim exE conjE)
  have 2: "tc_result c1 = None \<Longrightarrow> \<exists>w' c'. phase_snapshot eng c1 w1 = (w', Inr c') \<and> (tc_result c' = None \<longrightarrow> staged 2 c')"
    by (rule phase_snapshot_progress) (use 1(2) assms(2) in simp_all)
  have 3: "staged 2 c \<Longrightarrow> \<exists>w' c'. phase_admission eng c v = (w', Inr c') \<and> (tc_result c' = None \<longrightarrow> staged 2 c')" for c v
    by (rule phase_admission_progress) (use assms(3) in simp_all)
  note 4 = phase_dispatch_policy_progress [of _ eng]
  note 5 = phase_dedupe_progress [OF _ assms(1)]
  have 6: "staged 3 c \<Longrightarrow> tc_envelope c \<noteq> None \<Longrightarrow> key_dispatched c (tw_store v)
      \<Longrightarrow> \<exists>w' c'. phase_execute eng c v = (w', Inr c') \<and> tc_result c' \<noteq> None" for c v
    by (rule phase_execute_progress) (use assms(1,4) in simp_all)
  have p6: "is_ok (snd (run_phases eng [''_phase_execute''] c v))"
    if "staged 3 c \<and> tc_envelope c \<noteq> None \<and> key_dispatched c (tw_store v)" for c v
    using 6 [of c v] that by (auto simp: run_phase_def)
  have p5: "is_ok (snd (run_phases eng [''_phase_dedupe'', ''_phase_execute''] c v))" if "staged 3 c" for c v
    using 5 [OF that, of v] p6 by (auto simp: run_phase_def split: option.splits)
  have p4: "is_ok (snd (run_phases eng [''_phase_dispatch_policy'', ''_phase_dedupe'', ''_phase_execute''] c v))"
    if "staged 2 c" for c v
    using 4 [OF that, of v] p5 by (auto simp: run_phase_def split: option.splits)
  have p3: "is_ok (snd (run_phases eng [''_phase_admission'', ''_phase_dispatch_policy'', ''_phase_dedupe'', ''_phase_execute''] c v))"
    if "staged 2 c" for c v
    using 3 [OF that, of v] p4 by (auto simp: run_phase_def split: option.splits)
  show ?thesis
    using 1(1) 2 p3 by (auto simp: run_turn_def TURN_PHASES_def run_phase_def split: option.splits)
qed

lemma build_snapshot_value_error: "build_snapshot now x = Inl e \<Longrightarrow> is_value_error e"
  by (auto simp: build_snapshot_def validate_input_def Let_def split: if_splits)

theorem turn_concludes_witness:
  "is_ok (snd (run_turn (sample_engine\<lparr>te_snapshot_input_resolver := Some (\<lambda>i a. Inr (sample_input []))\<rparr>)
     sample_turn_input (Some (sample_action ''a1'' READ_ONLY)) \<lparr>tw_store = [], tw_env = (), tw_calls = []\<rparr>))"
  by (rule turn_concludes)
    (auto simp: sample_engine_def resolve_snapshot_input_def intro: build_snapshot_value_error)



end
