(* ===== verification/Run_Guarantees.thy ===== *)
theory Run_Guarantees
  imports Run_Lifecycle Turn_Trace Turn_Safety
begin

text \<open>
  The guarantees of a run over the in-memory event log: the projection a query returns is current
  after every signal, a cancel request aborts the run, a signal with a cause is applied once, a
  commit is decided once, and every decision round leaves its outcome in the log.
\<close>

section \<open>What later steps never undo\<close>

text \<open>A remembered signal token and a marked fingerprint stay.\<close>

definition token_seen :: "string \<Rightarrow> ('l, 's, 'w) actor_state \<Rightarrow> bool" where
  "token_seen t st \<longleftrightarrow> t \<in> set (ra_seen_signal_tokens (snd st))"

lemma token_seen_on_fst [preserves_intros]: "preserves (token_seen t) (on_fst m)"
  by (rule preserves_on_fst) (simp add: preserves_def token_seen_def)

lemma token_seen_process [preserves_intros]: "preserves (token_seen t) (process_action_commit sv commit)"
  unfolding process_action_commit_def assert_no_derived_diagnostic_authority_input_def last_event_offset_def
  by (intro preserves_intros) (auto simp: token_seen_def)

lemma token_seen_deliver [preserves_intros]: "preserves (token_seen t) (deliver_signal inw sv run sg)"
  unfolding deliver_signal_def trigger_continue_as_new_def
  by (intro preserves_intros) (auto simp: token_seen_def remember_signal_def split: option.split)

lemma token_seen_signal [preserves_intros]: "preserves (token_seen t) (signal_actor inw sv sg)"
  using token_seen_deliver [of t inw sv _ sg]
  by (auto simp: preserves_def signal_actor_def handle_signal_def token_seen_def split: option.splits)

lemma token_seen_step: "actor_step inw sv retained run st st' \<Longrightarrow> token_seen t st \<Longrightarrow> token_seen t st'"
proof (induction rule: actor_step.induct)
  case (signal_step sg st st' res)
  then show ?case by (metis preservesD token_seen_signal)
next
  case (decide_step commit st st' res)
  then show ?case by (metis preservesD token_seen_process)
qed (simp_all add: token_seen_def)

lemma fingerprint_seen_calls [preserves_intros]:
  "preserves (fingerprint_seen f) (append_commit sv commit)"
  "preserves (fingerprint_seen f) (projection_get sv run)"
  "preserves (fingerprint_seen f) (projection_catch_up sv run off)"
  "preserves (fingerprint_seen f) (projection_readiness sv run off)"
  "preserves (fingerprint_seen f) (recovery_decide sv y)"
  "preserves (fingerprint_seen f) (env_call g x)"
  "preserves (fingerprint_seen f) (engine_turn sv i a)"
  "preserves (fingerprint_seen f) (ledger_mark_unknown sv key)"
  by (auto simp: preserves_def fingerprint_seen_def append_commit_def projection_get_def projection_catch_up_def
      projection_readiness_def recovery_decide_def env_call_def engine_turn_def ledger_mark_unknown_def set_env_def
      split: prod.splits option.splits)

lemma fingerprint_seen_on_fst:
  "preserves (fingerprint_seen f) m \<Longrightarrow> preserves (\<lambda>st. fingerprint_seen f (fst st)) (on_fst m)"
  by (rule preserves_on_fst) simp

lemma fingerprint_seen_round [preserves_intros]:
  "preserves (fingerprint_seen f) (decision_round sv run off a p)"
  unfolding decision_round_def turn_round_def record_turn_outcome_def append_turn_outcome_commit_def
    recover_action_def append_recovery_event_def assert_single_dispatch_attempt_in_turn_def
    assert_recovery_event_type_allowed_def
  by (intro preserves_intros)

lemmas fingerprint_on_fst = fingerprint_seen_calls [THEN fingerprint_seen_on_fst]
  fingerprint_seen_round [THEN fingerprint_seen_on_fst]

lemma fingerprint_seen_process:
  "preserves (\<lambda>st. fingerprint_seen f (fst st)) (process_action_commit sv commit)"
  unfolding process_action_commit_def assert_no_derived_diagnostic_authority_input_def last_event_offset_def
  by (intro preserves_intros fingerprint_on_fst)
    (auto simp: fingerprint_seen_def deduper_seen_def deduper_mark_def)

lemma fingerprint_seen_deliver:
  "preserves (\<lambda>st. fingerprint_seen f (fst st)) (deliver_signal inw sv run sg)"
  unfolding deliver_signal_def trigger_continue_as_new_def
  by (intro preserves_intros fingerprint_on_fst fingerprint_seen_process) auto

lemma fingerprint_seen_step:
  "actor_step inw sv retained run st st' \<Longrightarrow> fingerprint_seen f (fst st) \<Longrightarrow> fingerprint_seen f (fst st')"
proof (induction rule: actor_step.induct)
  case (signal_step sg st st' res)
  have "preserves (\<lambda>st. fingerprint_seen f (fst st)) (signal_actor inw sv sg)"
    using fingerprint_seen_deliver [of f inw sv _ sg]
    by (auto simp: preserves_def signal_actor_def handle_signal_def split: option.splits)
  with signal_step show ?case by (metis preservesD)
next
  case (decide_step commit st st' res)
  then show ?case by (metis preservesD fingerprint_seen_process)
next
  case (commit_step commit k k' res a)
  then show ?case using preservesD [OF fingerprint_seen_calls(1)] by auto
next
  case (read_step r k k' res a)
  then show ?case using preservesD [OF fingerprint_seen_calls(2)] by auto
qed

section \<open>Signals\<close>

text \<open>A log whose appends of at least one event succeed.\<close>

locale reliable_actor_log = actor_log +
  assumes append_ok: "cm_events commit \<noteq> [] \<Longrightarrow> \<exists>ref. snd (append s commit) = Inr ref"
begin

text \<open>
  A signal that is not dropped becomes the next event of the run, and the actor answers queries
  with the replayed projection after that event.
\<close>

lemma handle_signal_effect:
  assumes ok: "actor_ok run (k, a)" "run \<noteq> []" and sg: "\<not> signal_dropped a sg"
    and old: "current_projection sv run k = Inr p"
  obtains k' a' res e where "handle_signal inw sv sg (k, a) = ((k', a'), res)"
    "res = Inr () \<or> inw \<and> ra_continued_as a' \<noteq> None"
    "load (kn_log k') run 0 = load (kn_log k) run 0 @ [e]"
    "ev_event_type e = signal_event_type (sig_signal_type sg)"
    "actor_query a' = Inr (apply_projection_event p e)"
    "current_projection sv run k' = Inr (apply_projection_event p e)"
    "\<And>t. signal_token sg = Some t \<Longrightarrow> token_seen t (k', a')"
proof -
  have s: "synced sv invar run k" and id: "ra_run_id a = Some run" using ok by (simp_all add: actor_ok_def)
  have h: "handle_signal inw sv sg (k, a) = deliver_signal inw sv run sg (k, a)"
    using id ok(2) sg by (simp add: handle_signal_def)
  show thesis
  proof (rule deliver_signal_run [OF s, of inw sg a])
    fix k' e
    assume "\<exists>commit. cm_events commit \<noteq> [] \<and> snd (append (kn_log k) commit) = Inl e"
    then obtain commit where "cm_events commit \<noteq> []" "snd (append (kn_log k) commit) = Inl e" by blast
    with append_ok [of commit "kn_log k"] show thesis by auto
  next
    fix k' a' q e
    assume c: "fst (deliver_signal inw sv run sg (k, a)) = (k', a')"
      "a' = (signal_received a sg q)\<lparr>ra_continued_as := ra_continued_as a'\<rparr>" "synced sv invar run k'"
      "current_projection sv run k' = Inr q" "load (kn_log k') run 0 = load (kn_log k) run 0 @ [e]"
      "ev_event_type e = signal_event_type (sig_signal_type sg)" "ev_event_authority e = Authoritative_fact"
      "snd (deliver_signal inw sv run sg (k, a)) = Inr () \<or> inw \<and> ra_continued_as a' \<noteq> None"
    have "\<not> skipped (sv_projection sv) e" using no_migrator_skipped [OF no_migrator] c(7) by fastforce
    then have q: "q = apply_projection_event p e"
      using old c(4,5) no_migrator
      by (auto simp: current_projection_def sv_load replay_append skipped_def maybe_migrate_event_def)
    have a': "ra_run_id a' = Some run" "ra_last_projection a' = Some q"
      "signal_token sg = Some t \<Longrightarrow> t \<in> set (ra_seen_signal_tokens a')" for t
      using id by (subst c(2), simp add: signal_received_def)+
    then have "actor_query a' = Inr q" using ok(2) by (simp add: actor_query_def)
    moreover have "handle_signal inw sv sg (k, a) = ((k', a'), snd (handle_signal inw sv sg (k, a)))"
      using h c(1) by (metis prod.collapse)
    ultimately show thesis
      using that [of k' a' "snd (handle_signal inw sv sg (k, a))" e] a'(3) c(4-6,8) q h
      by (simp add: token_seen_def)
  qed
qed

lemma cancel_effect:
  assumes ok: "actor_ok run (k, a)" "run \<noteq> []" and sg: "\<not> signal_dropped a sg"
    and cancel: "sig_signal_type sg = ''cancel_requested''"
  shows "\<exists>k' a' res p p'. handle_signal inw sv sg (k, a) = ((k', a'), res)
    \<and> current_projection sv run k = Inr p \<and> actor_query a' = Inr p'
    \<and> pr_lifecycle_state p' = (if pr_lifecycle_state p = Completed then Completed else Aborted)"
proof -
  obtain p where p: "current_projection sv run k = Inr p" using current_total by blast
  obtain k' a' res e where e: "handle_signal inw sv sg (k, a) = ((k', a'), res)"
    "ev_event_type e = signal_event_type (sig_signal_type sg)"
    "actor_query a' = Inr (apply_projection_event p e)"
    by (rule handle_signal_effect [OF ok sg p])
  have "ev_event_type e = ''run.cancel_requested''"
    using e(2) cancel by (simp add: signal_event_type_def SIGNAL_EVENT_TYPE_MAP_def dict_get_def)
  then have "pr_lifecycle_state (apply_projection_event p e) =
      (if pr_lifecycle_state p = Completed then Completed else Aborted)"
    using cancel_apply completed_apply by simp
  with e(1,3) p show ?thesis by blast
qed

end

section \<open>Decisions\<close>

lemma process_rejects: "\<not> decidable_commit commit \<Longrightarrow> \<exists>e. process_action_commit sv commit st = (st, Inl e)"
  by (auto simp: decidable_commit_def process_action_commit_def assert_no_derived_diagnostic_authority_input_def
      last_event_offset_def list_ex_iff list_all_iff bind_act_def)

lemma mark_decided_seen: "fingerprint_seen (commit_fingerprint commit) (mark_decided commit k)"
  by (simp add: fingerprint_seen_def mark_decided_def deduper_seen_def deduper_mark_def)

lemma fingerprint_seen_decide: "preserves (\<lambda>st. fingerprint_seen f (fst st)) (decide_commit sv commit p)"
  unfolding decide_commit_def by (intro preserves_intros fingerprint_on_fst)

context actor_log
begin

text \<open>A marked commit runs no turn, and a commit is marked once the projection has caught up with it.\<close>

lemma process_decided:
  assumes s: "synced sv invar (cm_run_id commit) k" and seen: "fingerprint_seen (commit_fingerprint commit) k"
    and run: "process_action_commit sv commit (k, a) = ((k', a'), res)"
  shows "kn_turn k' = kn_turn k \<and> kn_log k' = kn_log k"
proof (cases "decidable_commit commit")
  case True
  show ?thesis by (rule process_run [OF s True, of a]) (use run seen in auto)
qed (use process_rejects [of commit sv "(k, a)"] run in auto)

lemma process_marks:
  assumes s: "synced sv invar (cm_run_id commit) k" and c: "decidable_commit commit"
    and caught_up: "ev_commit_offset (last (cm_events commit)) \<le> int (length (load (kn_log k) (cm_run_id commit) 0))"
    and run: "process_action_commit sv commit (k, a) = ((k', a'), res)"
  shows "fingerprint_seen (commit_fingerprint commit) k'"
proof (rule process_run [OF s c, of a], goal_cases)
  case (1 qs p q)
  have ready: "ev_commit_offset (last (cm_events commit)) \<le> pr_projected_offset q"
    using synced_offset [OF s 1(2)] caught_up by simp
  show ?case
  proof (cases "fingerprint_seen (commit_fingerprint commit) k")
    case True
    then show ?thesis using preservesD [OF fingerprint_seen_process, of _ "(k, a)"] run by fastforce
  next
    case False
    then have "decide_commit sv commit p
        (mark_decided commit (k\<lparr>kn_projections := qs\<rparr>), a\<lparr>ra_last_projection := Some p\<rparr>) = ((k', a'), res)"
      using 1(1) run ready by simp
    from preservesD [OF fingerprint_seen_decide _ this] show ?thesis by (simp add: mark_decided_seen)
  qed
qed

end

section \<open>What a decision round leaves in the log\<close>

text \<open>A recovery decision is logged as the plan, a diagnostic, and the change of state, a fact.\<close>

definition recovery_logged :: "runtime_event list \<Rightarrow> bool" where
  "recovery_logged new \<longleftrightarrow>
     map ev_event_authority new = [Derived_diagnostic, Authoritative_fact] \<and>
     map ev_event_type new \<in> (\<lambda>t. [''recovery.plan_selected'', t]) `
       {''run.recovering'', ''run.waiting_external'', ''run.recovery_aborted''}"

text \<open>
  The record of a round: a turn that raised is recovered and its exception goes on; a turn that
  returned is logged with its result, and recovered when its effect is unknown.
\<close>

definition round_logged :: "turn_result result \<Rightarrow> unit result \<Rightarrow> runtime_event list \<Rightarrow> bool" where
  "round_logged turn res new \<longleftrightarrow>
     (case turn of
        Inl err \<Rightarrow> res = Inl err \<and> recovery_logged new
      | Inr tr \<Rightarrow> res = Inr () \<and> new \<noteq> [] \<and>
          ev_event_type (hd new) = turn_outcome_event_type (tr_outcome_kind tr) \<and>
          ev_idempotency_key (hd new) = Some (tr_decision_fingerprint tr) \<and>
          same_payload (Some (build_turn_outcome_payload tr)) (ev_payload_json (hd new)) \<and>
          (if tr_outcome_kind tr = Outcome_recovery_pending then recovery_logged (tl new) else tl new = []))"

text \<open>The optional stores do not raise, and the gate decides.\<close>

definition services_answer :: "('l, 's, 'w) actor_services \<Rightarrow> bool" where
  "services_answer sv \<longleftrightarrow>
     (\<forall>f w x. sv_write_intent sv = Some f \<longrightarrow> is_ok (snd (f w x))) \<and>
     (\<forall>f w x. sv_write_outcome sv = Some f \<longrightarrow> is_ok (snd (f w x))) \<and>
     (\<forall>l w x. is_ok (snd (sv_decide sv l w x)))"

lemma same_events_map:
  assumes "list_all2 same_event es new"
  shows "map ev_event_authority new = map ev_event_authority es" "map ev_event_type new = map ev_event_type es"
  using assms by (induction rule: list_all2_induct) (auto dest: same_event_fields)

lemma recovery_event_type_allowed:
  "recovery_event_type m \<in> {''run.recovering'', ''run.waiting_external'', ''run.recovery_aborted''}"
  by (simp add: recovery_event_type_def)

lemma recovery_logged_events:
  assumes "list_all2 same_event (recovery_events run off now d) new"
  shows "recovery_logged new"
  using same_events_map [OF assms] recovery_event_type_allowed [of "rd_mode d"]
  by (auto simp: recovery_events_def recovery_logged_def)

lemma is_okE: "is_ok r \<Longrightarrow> (\<And>x. r = Inr x \<Longrightarrow> thesis) \<Longrightarrow> thesis"
  by (cases r) auto

lemma env_call_ok:
  "(\<And>f w. h = Some f \<Longrightarrow> is_ok (snd (f w x))) \<Longrightarrow>
     \<exists>w. env_call h x k = (set_env w k, Inr ())"
proof (cases h)
  case (Some f)
  assume "\<And>f w. h = Some f \<Longrightarrow> is_ok (snd (f w x))"
  then obtain w where "f (tw_env (kn_turn k)) x = (w, Inr ())"
    using Some by (metis is_okE old.unit.exhaust prod.collapse)
  then show ?thesis using Some by (auto simp: env_call_def)
qed (auto simp: env_call_def set_env_def intro!: exI [of _ "tw_env (kn_turn k)"])

context reliable_actor_log
begin

lemma append_commit_effect:
  assumes "invar (kn_log k)" "cm_run_id c = run" "cm_events c \<noteq> []"
  obtains l ref new where "append_commit sv c k = (k\<lparr>kn_log := l\<rparr>, Inr ref)" "invar l"
    "load l run 0 = load (kn_log k) run 0 @ new" "list_all2 same_event (cm_events c) new"
proof -
  obtain ref where ref: "snd (append (kn_log k) c) = Inr ref" using append_ok assms(3) by blast
  then have ap: "append_commit sv c k = (k\<lparr>kn_log := fst (append (kn_log k) c)\<rparr>, Inr ref)"
    by (auto simp: append_commit_def sv_append split: prod.split)
  obtain new where new: "kn_log (k\<lparr>kn_log := fst (append (kn_log k) c)\<rparr>) = fst (append (kn_log k) c)"
    "invar (kn_log (k\<lparr>kn_log := fst (append (kn_log k) c)\<rparr>))"
    "load (kn_log (k\<lparr>kn_log := fst (append (kn_log k) c)\<rparr>)) run 0 = load (kn_log k) run 0 @ new"
    "list_all2 same_event (cm_events c) new"
    "offsets_from (int (length (load (kn_log k) run 0)) + 1) new"
    "k\<lparr>kn_log := fst (append (kn_log k) c)\<rparr> = k\<lparr>kn_log := kn_log (k\<lparr>kn_log := fst (append (kn_log k) c)\<rparr>)\<rparr>"
    by (rule append_own [OF assms(1) ap assms(2)])
  show thesis using that [OF ap] new(2-4) by simp
qed

lemma recovery_decide_effect:
  assumes "services_answer sv"
  obtains w d where "recovery_decide sv x k = (set_env w k, Inr d)"
proof -
  obtain l w r where d: "sv_decide sv (kn_log k) (tw_env (kn_turn k)) x = ((l, w), r)" by (metis prod.exhaust)
  then have "l = kn_log k" using gate_read_only [of "kn_log k" "tw_env (kn_turn k)" x] by simp
  moreover have "is_ok r" using assms d unfolding services_answer_def by (metis snd_conv)
  ultimately show thesis using that d by (auto simp: recovery_decide_def set_env_def elim!: is_okE)
qed

lemma recover_action_effect:
  assumes inv: "invar (kn_log k)" and svc: "services_answer sv"
  obtains k' new where "recover_action sv run act reason p off k = (k', Inr ())"
    "load (kn_log k') run 0 = load (kn_log k) run 0 @ new" "recovery_logged new"
proof -
  let ?x = "\<lparr>ri_run_id = run, ri_reason_code = reason, ri_lifecycle_state = pr_lifecycle_state p,
    ri_projection = p, ri_failed_action_id = Some (act_action_id act), ri_reflection_round = 0,
    ri_capability_snapshot = None, ri_failed_effect_class = Some (effect_class_str (act_effect_class act))\<rparr>"
  obtain w d where d: "recovery_decide sv ?x k = (set_env w k, Inr d)" by (rule recovery_decide_effect [OF svc])
  let ?k = "set_env w k"
  let ?c = "actor_commit run (''recovery:'' @ recovery_event_type (rd_mode d) @ '':'' @ show_int off) (now_iso sv ?k)
    (Some (act_action_id act)) (recovery_events run off (now_iso sv ?k) d)"
  have log: "kn_log ?k = kn_log k" by (simp add: set_env_def)
  obtain l ref new where ap: "append_commit sv ?c ?k = (?k\<lparr>kn_log := l\<rparr>, Inr ref)" "invar l"
    "load l run 0 = load (kn_log ?k) run 0 @ new" "list_all2 same_event (cm_events ?c) new"
    by (rule append_commit_effect [of ?k ?c run]) (simp_all add: log inv recovery_events_def)
  have latest: "latest_run_offset sv run ?k = latest_run_offset sv run k" by (simp add: latest_run_offset_def log)
  let ?o = "\<lparr>ro_run_id = run, ro_action_id = Some (act_action_id act), ro_recovery_mode = rd_mode d,
    ro_outcome_state = recovery_outcome_state (rd_mode d), ro_written_at = now_iso sv ?k,
    ro_operator_escalation_ref = rd_escalation_channel_ref d,
    ro_emitted_event_ids = [''evt-recovery-plan-'' @ show_int off, ''evt-recovery-'' @ show_int off]\<rparr>"
  obtain w' where w': "env_call (sv_write_outcome sv) ?o (?k\<lparr>kn_log := l\<rparr>) = (set_env w' (?k\<lparr>kn_log := l\<rparr>), Inr ())"
    using env_call_ok [of "sv_write_outcome sv" ?o "?k\<lparr>kn_log := l\<rparr>"] svc unfolding services_answer_def by blast
  have "recover_action sv run act reason p off k = (set_env w' (?k\<lparr>kn_log := l\<rparr>), Inr ())"
    using d latest ap(1) w' recovery_event_type_allowed [of "rd_mode d"]
    by (simp add: recover_action_def append_recovery_event_def assert_recovery_event_type_allowed_def
        bind_act_def del: insert_iff)
  moreover have "recovery_logged new" using ap(4) by (simp add: recovery_logged_events)
  ultimately show thesis using that ap(3) log by (simp add: set_env_def)
qed

lemma append_turn_outcome_effect:
  assumes inv: "invar (kn_log k)" and svc: "services_answer sv"
  obtains k' e where "append_turn_outcome_commit sv run off tr cause k = (k', Inr (off + 1))" "invar (kn_log k')"
    "load (kn_log k') run 0 = load (kn_log k) run 0 @ [e]" "same_event (turn_outcome_event run off (now_iso sv k) tr) e"
proof -
  let ?now = "now_iso sv k"
  let ?x = "\<lambda>ref. \<lparr>it_run_id = run, it_intent_commit_ref = ref, it_decision_ref = tr_decision_ref tr,
    it_decision_fingerprint = tr_decision_fingerprint tr, it_dispatch_dedupe_key = tr_dispatch_dedupe_key tr,
    it_host_kind = tr_host_kind tr, it_outcome_kind = tr_outcome_kind tr, it_written_at = ?now,
    it_reflection_round = 0\<rparr>"
  let ?w = "case tr_intent_commit_ref tr of None \<Rightarrow> return_act () | Some ref \<Rightarrow> env_call (sv_write_intent sv) (?x ref)"
  have "\<exists>w. ?w k = (set_env w k, Inr ())"
  proof (cases "tr_intent_commit_ref tr")
    case None
    then show ?thesis by (auto simp: set_env_def intro!: exI [of _ "tw_env (kn_turn k)"])
  next
    case (Some ref)
    then show ?thesis
      using env_call_ok [of "sv_write_intent sv" "?x ref" k] svc unfolding services_answer_def by simp
  qed
  then obtain w where w: "?w k = (set_env w k, Inr ())" by blast
  let ?k = "set_env w k"
  let ?c = "actor_commit run (''turn:'' @ turn_outcome_str (tr_outcome_kind tr) @ '':'' @ show_int off) ?now cause
    [turn_outcome_event run off ?now tr]"
  have log: "kn_log ?k = kn_log k" by (simp add: set_env_def)
  obtain l ref new where ap: "append_commit sv ?c ?k = (?k\<lparr>kn_log := l\<rparr>, Inr ref)" "invar l"
    "load l run 0 = load (kn_log ?k) run 0 @ new" "list_all2 same_event (cm_events ?c) new"
    by (rule append_commit_effect [of ?k ?c run]) (simp_all add: log inv)
  have "append_turn_outcome_commit sv run off tr cause k = (?k\<lparr>kn_log := l\<rparr>, Inr (off + 1))"
    unfolding append_turn_outcome_commit_def using w ap(1) by simp
  moreover obtain e where "new = [e]" "same_event (turn_outcome_event run off ?now tr) e"
    using ap(4) by (auto simp: list_all2_Cons1)
  ultimately show thesis using that ap(2,3) log by simp
qed

lemma suppressed_success_log:
  "\<exists>w. suppress_act (env_call h x) k = (set_env w k, Inr ())"
  by (auto simp: env_call_def set_env_def split: option.split prod.split intro: exI [of _ "tw_env (kn_turn k)"])

lemma turn_outcome_logged:
  assumes "same_event (turn_outcome_event run off now tr) e"
    "if tr_outcome_kind tr = Outcome_recovery_pending then recovery_logged rest else rest = []"
  shows "round_logged (Inr tr) (Inr ()) (e # rest)"
  using same_event_fields [OF assms(1)] assms(2)
  by (simp add: round_logged_def turn_outcome_event_def actor_event_def)

lemma turn_round_logged:
  assumes inv: "invar (kn_log k)" and svc: "services_answer sv"
    and turn: "run_turn (sv_engine sv) \<lparr>ti_run_id = run, ti_through_offset = off, ti_based_on_offset = off,
          ti_trigger_type = Trigger_signal, ti_history = []\<rparr> (Some act) (kn_turn k) = (w, Inr tr)"
  obtains k' new where "turn_round sv run off act p k = (k', Inr ())"
    "load (kn_log k') run 0 = load (kn_log k) run 0 @ new" "round_logged (Inr tr) (Inr ()) new"
proof -
  let ?k = "k\<lparr>kn_turn := w\<rparr>"
  have inv': "invar (kn_log ?k)" using inv by simp
  obtain k1 e where k1: "append_turn_outcome_commit sv run (off + 1) tr (Some (act_action_id act)) ?k = (k1, Inr (off + 1 + 1))"
    "invar (kn_log k1)" "load (kn_log k1) run 0 = load (kn_log ?k) run 0 @ [e]"
    "same_event (turn_outcome_event run (off + 1) (now_iso sv ?k) tr) e"
    by (rule append_turn_outcome_effect [OF inv' svc])
  have single: "assert_single_dispatch_attempt_in_turn tr k1 = (k1, Inr ())"
    using run_turn_single_dispatch [OF turn] by (simp add: assert_single_dispatch_attempt_in_turn_def dispatch_attempts_def)
  let ?s = "if tr_outcome_kind tr = Outcome_dispatched
    then suppress_act (env_call (sv_on_action_success sv) (effect_class_str (act_effect_class act))) else return_act ()"
  have "\<exists>w'. ?s k1 = (set_env w' k1, Inr ())"
    using suppressed_success_log [of "sv_on_action_success sv" _ k1]
    by (auto simp: set_env_def simp del: act_simps(5) intro: exI [of _ "tw_env (kn_turn k1)"])
  then obtain w' where w': "?s k1 = (set_env w' k1, Inr ())" by blast
  let ?k2 = "set_env w' k1"
  let ?r = "case tr_recovery_input tr of Some r \<Rightarrow> fe_failure_code r | None \<Rightarrow> ''effect_unknown''"
  have log: "kn_log ?k2 = kn_log k1" by (simp add: set_env_def)
  have run: "turn_round sv run off act p k =
      (if tr_outcome_kind tr = Outcome_recovery_pending then recover_action sv run act ?r p (off + 1 + 1) else return_act ()) ?k2"
    unfolding turn_round_def record_turn_outcome_def using turn k1(1) single w'
    by (cases "tr_outcome_kind tr = Outcome_dispatched") (simp_all add: engine_turn_def bind_act_def)
  show thesis
  proof (cases "tr_outcome_kind tr = Outcome_recovery_pending")
    case True
    have inv2: "invar (kn_log ?k2)" using k1(2) log by simp
    obtain k3 new where k3: "recover_action sv run act ?r p (off + 1 + 1) ?k2 = (k3, Inr ())"
      "load (kn_log k3) run 0 = load (kn_log ?k2) run 0 @ new" "recovery_logged new"
      by (rule recover_action_effect [OF inv2 svc])
    show thesis
      by (rule that [of k3 "e # new"])
        (use run True k3 k1(3) log turn_outcome_logged [OF k1(4), of new] in simp_all)
  next
    case False
    show thesis
      by (rule that [of ?k2 "[e]"])
        (use run False k1(3) log turn_outcome_logged [OF k1(4), of "[]"] in simp_all)
  qed
qed

lemma decision_round_logged:
  assumes inv: "invar (kn_log k)" and svc: "services_answer sv"
    and turn: "run_turn (sv_engine sv) \<lparr>ti_run_id = run, ti_through_offset = off, ti_based_on_offset = off,
          ti_trigger_type = Trigger_signal, ti_history = []\<rparr> (Some act) (kn_turn k) = (w, turn)"
  obtains k' res new where "decision_round sv run off act p k = (k', res)"
    "load (kn_log k') run 0 = load (kn_log k) run 0 @ new" "round_logged turn res new"
proof (cases turn)
  case (Inr tr)
  obtain k' new where "turn_round sv run off act p k = (k', Inr ())"
    "load (kn_log k') run 0 = load (kn_log k) run 0 @ new" "round_logged (Inr tr) (Inr ()) new"
    by (rule turn_round_logged [OF inv svc turn [unfolded Inr]])
  then show thesis using that [of k' "Inr ()" new] Inr by (simp add: decision_round_def)
next
  case (Inl err)
  let ?k = "k\<lparr>kn_turn := w\<rparr>"
  have inv': "invar (kn_log ?k)" using inv by simp
  obtain k' new where k': "recover_action sv run act (lower (exn_name err)) p (off + 1) ?k = (k', Inr ())"
    "load (kn_log k') run 0 = load (kn_log ?k) run 0 @ new" "recovery_logged new"
    by (rule recover_action_effect [OF inv' svc])
  have "turn_round sv run off act p k = (?k, Inl err)"
    using turn Inl by (simp add: turn_round_def engine_turn_def bind_act_def)
  then have "decision_round sv run off act p k = (k', Inl err)"
    using k'(1) by (simp add: decision_round_def)
  then show thesis using that [of k' "Inl err" new] k'(2,3) Inl by (simp add: round_logged_def)
qed

end

text \<open>The in-memory log appends every commit that has an event.\<close>

definition in_memory_services ::
  "('w \<Rightarrow> recovery_input \<Rightarrow> 'w \<times> recovery_decision result) \<Rightarrow> (event_log, 's, 'w) actor_services
     \<Rightarrow> (event_log, 's, 'w) actor_services" where
  "in_memory_services gate sv =
     sv\<lparr>sv_append := append_action_commit, sv_load := load_events,
        sv_projection := (sv_projection sv)\<lparr>pc_event_schema_migrator := None\<rparr>,
        sv_decide := (\<lambda>l w x. case gate w x of (w', r) \<Rightarrow> ((l, w'), r))\<rparr>"

interpretation mrun: reliable_actor_log append_action_commit load_events log_invar log_retains
  "in_memory_services gate sv" for gate sv
  by unfold_locales
    (auto simp: in_memory_services_def append_action_commit_def Let_def split: prod.splits)

lemma mrun_reachable_ok:
  "actor_reachable inw (in_memory_services gate sv) log_retains empty_event_log tw i st \<Longrightarrow>
     mrun.actor_ok gate sv (in_run_id i) st"
  by (rule mrun.actor_reachable_ok) (simp_all add: empty_event_log_def load_events_def dict_get_or_def dict_get_def
      log_invar_empty [unfolded empty_event_log_def])

lemma later_steps:
  assumes "(actor_step inw (in_memory_services gate sv) log_retains run)\<^sup>*\<^sup>* st st'"
  shows "mrun.actor_ok gate sv run st \<Longrightarrow> mrun.actor_ok gate sv run st'"
    and "token_seen t st \<Longrightarrow> token_seen t st'"
    and "fingerprint_seen f (fst st) \<Longrightarrow> fingerprint_seen f (fst st')"
  using assms
  by (induction rule: rtranclp_induct)
    (auto intro: mrun.actor_step_ok token_seen_step fingerprint_seen_step)

section \<open>The guarantees\<close>

text \<open>
  C6 (refinement): a signal that is not dropped becomes the next event of the run, and the answer
  to a query is then the replay of the whole log of the run; the call returns, or it ends the
  execution of the workflow by continuing it as new.
\<close>

theorem query_current_after_signal:
  assumes "actor_reachable inw (in_memory_services gate sv) log_retains empty_event_log tw i (k, a)"
    "in_run_id i \<noteq> []" "\<not> signal_dropped a sg"
  shows "\<exists>k' a' res e p. handle_signal inw (in_memory_services gate sv) sg (k, a) = ((k', a'), res)
    \<and> (res = Inr () \<or> inw \<and> ra_continued_as a' \<noteq> None)
    \<and> load_events (kn_log k') (in_run_id i) 0 = load_events (kn_log k) (in_run_id i) 0 @ [e]
    \<and> ev_event_type e = signal_event_type (sig_signal_type sg)
    \<and> actor_query a' = Inr p \<and> current_projection (in_memory_services gate sv) (in_run_id i) k' = Inr p"
proof -
  obtain p where "current_projection (in_memory_services gate sv) (in_run_id i) k = Inr p"
    using mrun.current_total by blast
  from mrun.handle_signal_effect [OF mrun_reachable_ok [OF assms(1)] assms(2,3) this] show ?thesis by metis
qed



text \<open>
  C8 (safety): a commit is decided once.  After it was processed with its events in the log,
  processing it again in any later state runs no turn and adds nothing to the log.
\<close>

theorem commit_decided_once:
  assumes "actor_reachable inw (in_memory_services gate sv) log_retains empty_event_log tw i (k, a)"
    "cm_run_id commit = in_run_id i"
    "decidable_commit commit"
    "ev_commit_offset (last (cm_events commit)) \<le> int (length (load_events (kn_log k) (in_run_id i) 0))"
    "process_action_commit (in_memory_services gate sv) commit (k, a) = ((k', a'), res)"
    "(actor_step inw (in_memory_services gate sv) log_retains (in_run_id i))\<^sup>*\<^sup>* (k', a') (k1, a1)"
    "process_action_commit (in_memory_services gate sv) commit (k1, a1) = ((k2, a2), res')"
  shows "kn_turn k2 = kn_turn k1 \<and> kn_log k2 = kn_log k1"
proof -
  note ok = mrun_reachable_ok [OF assms(1)]
  have s: "synced (in_memory_services gate sv) log_invar (cm_run_id commit) k"
    using ok assms(2) by (simp add: mrun.actor_ok_def)
  have "fingerprint_seen (commit_fingerprint commit) k'"
    using mrun.process_marks [OF s assms(3) _ assms(5)] assms(2,4) by simp
  then have seen: "fingerprint_seen (commit_fingerprint commit) k1"
    using later_steps(3) [OF assms(6)] by simp
  have "mrun.actor_ok gate sv (in_run_id i) (k', a')"
    using preservesD [OF mrun.process_action_commit_ok _ assms(5)] ok assms(2) by metis
  then have "mrun.actor_ok gate sv (in_run_id i) (k1, a1)" using later_steps(1) [OF assms(6)] by blast
  then show ?thesis using mrun.process_decided [OF _ seen assms(7)] assms(2) by (simp add: mrun.actor_ok_def)
qed


section \<open>A run\<close>

text \<open>
  A run with the turn engine of the sample turns: it starts, another party commits an action, and
  the actor decides on it.
\<close>

definition sample_run_gate :: "unit \<Rightarrow> recovery_input \<Rightarrow> unit \<times> recovery_decision result" where
  "sample_run_gate w x = (w, Inr (static_decide \<lparr>sr_mode = ''abort'', sr_reason_prefix = ''recovery''\<rparr> x))"

definition sample_services :: "(event_log, dedupe_mem, unit) actor_services" where
  "sample_services =
     \<lparr>sv_append = append_action_commit, sv_load = load_events,
      sv_projection = \<lparr>pc_reject_derived_diagnostic = True, pc_event_schema_migrator = None,
        pc_target_event_schema_version = None\<rparr>,
      sv_engine = sample_engine, sv_decide = (\<lambda>l w x. case sample_run_gate w x of (w', r) \<Rightarrow> ((l, w'), r)),
      sv_on_action_success = None, sv_write_intent = None, sv_write_outcome = None,
      sv_history_event_threshold = 10000, sv_workflow_id_prefix = ''agent-kernel''\<rparr>"

definition sample_run_input :: run_input where
  "sample_run_input =
     \<lparr>in_run_id = ''r1'', in_session_id = None, in_parent_run_id = None, in_input_ref = None, in_input_json = None,
      in_runtime_context_ref = None, in_trace_context = None, in_pending_signals = None,
      in_policy_versions = None, in_initial_stage_id = None, in_task_contract_ref = None\<rparr>"

definition sample_signal :: "string \<Rightarrow> actor_signal" where
  "sample_signal t =
     \<lparr>sig_signal_type = t, sig_signal_payload = None, sig_caused_by = Some ''user-1'', sig_signal_token = None,
      sig_from_peer_run_id = None\<rparr>"

definition sample_turn_world :: "(dedupe_mem, unit) turn_world" where
  "sample_turn_world = \<lparr>tw_store = [], tw_env = (), tw_calls = []\<rparr>"

definition sample_started :: "(event_log, dedupe_mem, unit) actor_state" where
  "sample_started = fst (run_start False (in_memory_services sample_run_gate sample_services) sample_run_input
     (\<lparr>kn_log = empty_event_log, kn_projections = [], kn_deduper = [], kn_turn = sample_turn_world\<rparr>, RunActorWorkflow))"

definition sample_commit :: action_commit where
  "sample_commit =
     (actor_commit ''r1'' ''commit-1'' ''now'' None
        [actor_event ''r1'' ''evt-1'' 1 ''run.ready'' Wake_actor ''now'' None None])
       \<lparr>cm_action := Some (sample_action ''a1'' READ_ONLY)\<rparr>"

lemma sample_reachable:
  "actor_reachable False (in_memory_services sample_run_gate sample_services) log_retains empty_event_log
     sample_turn_world sample_run_input (fst sample_started, snd sample_started)"
  by (simp add: actor_reachable_def sample_started_def)

lemma sample_no_tokens: "ra_seen_signal_tokens (snd sample_started) = []"
  by code_simp

lemma sample_not_dropped: "\<not> signal_dropped (snd sample_started) (sample_signal t)"
  by (simp add: sample_no_tokens sample_signal_def signal_dropped_def signal_token_def)

lemma sample_run_id: "in_run_id sample_run_input = ''r1''"
  by (simp add: sample_run_input_def)

theorem query_current_after_signal_witness:
  "\<exists>k' a' res e p. handle_signal False (in_memory_services sample_run_gate sample_services) (sample_signal ''timeout'')
      (fst sample_started, snd sample_started) = ((k', a'), res)
    \<and> (res = Inr () \<or> False \<and> ra_continued_as a' \<noteq> None)
    \<and> load_events (kn_log k') (in_run_id sample_run_input) 0 =
        load_events (kn_log (fst sample_started)) (in_run_id sample_run_input) 0 @ [e]
    \<and> ev_event_type e = signal_event_type (sig_signal_type (sample_signal ''timeout''))
    \<and> actor_query a' = Inr p
    \<and> current_projection (in_memory_services sample_run_gate sample_services) (in_run_id sample_run_input) k' = Inr p"
  by (rule query_current_after_signal [OF sample_reachable _ sample_not_dropped]) (simp add: sample_run_id)



text \<open>The commit of the action, and the decision on it.\<close>

definition sample_committed :: "(event_log, dedupe_mem, unit) actor_state" where
  "sample_committed =
     (fst (append_commit (in_memory_services sample_run_gate sample_services) sample_commit (fst sample_started)),
      snd sample_started)"

lemma sample_committed_reachable:
  "actor_reachable False (in_memory_services sample_run_gate sample_services) log_retains empty_event_log
     sample_turn_world sample_run_input (fst sample_committed, snd sample_committed)"
proof -
  have "actor_step False (in_memory_services sample_run_gate sample_services) log_retains ''r1''
      (fst sample_started, snd sample_started) (fst sample_committed, snd sample_committed)"
    unfolding sample_committed_def fst_conv snd_conv
    by (rule commit_step [where commit = sample_commit, OF prod.collapse [symmetric]])
      (simp_all add: sample_commit_def last_authoritative_def)
  with sample_reachable show ?thesis
    unfolding actor_reachable_def sample_run_id by (rule rtranclp.rtrancl_into_rtrancl)
qed

lemma sample_commit_ready:
  "decidable_commit sample_commit" "cm_action sample_commit = Some (sample_action ''a1'' READ_ONLY)"
  "cm_run_id sample_commit = in_run_id sample_run_input"
  "ev_commit_offset (last (cm_events sample_commit)) = 1"
  "length (load_events (kn_log (fst sample_committed)) ''r1'' 0) = 1"
  "kn_deduper (fst sample_committed) = []"
  by code_simp+


theorem commit_decided_once_witness:
  "\<exists>k' a' res k2 a2 res'. process_action_commit (in_memory_services sample_run_gate sample_services) sample_commit
      (fst sample_committed, snd sample_committed) = ((k', a'), res)
    \<and> process_action_commit (in_memory_services sample_run_gate sample_services) sample_commit (k', a') = ((k2, a2), res')
    \<and> kn_turn k2 = kn_turn k' \<and> kn_log k2 = kn_log k'"
proof -
  let ?p = "process_action_commit (in_memory_services sample_run_gate sample_services) sample_commit"
  obtain k' a' res where 1: "?p (fst sample_committed, snd sample_committed) = ((k', a'), res)" by (metis prod.exhaust)
  obtain k2 a2 res' where 2: "?p (k', a') = ((k2, a2), res')" by (metis prod.exhaust)
  have "kn_turn k2 = kn_turn k' \<and> kn_log k2 = kn_log k'"
    by (rule commit_decided_once [OF sample_committed_reachable sample_commit_ready(3,1) _ 1 rtranclp.rtrancl_refl 2])
      (simp add: sample_commit_ready(4-6) sample_run_id)
  with 1 2 show ?thesis by blast
qed

end
