(* ===== verification/Retry_Executor.thy ===== *)
theory Retry_Executor
  imports Kernel_Contracts
begin

text \<open>
  The retrying executor of \<^verbatim>\<open>kernel/retry_executor.py\<close>: an inner executor is called again after
  a transient failure, up to a number of attempts, with jittered exponential backoff.
\<close>

datatype transient_kind =
    TransientExecutionError | ConnectionTransientError | TimeoutTransientError
  | RateLimitTransientError | ServiceOverloadTransientError

record transient_error =
  tx_kind :: transient_kind
  tx_message :: string
  tx_backoff_hint_ms :: "int option"
  tx_may_have_executed :: bool

text \<open>An execution fails with a transient error or with any other exception.\<close>

datatype execution_failure = Transient transient_error | Permanent exn

type_synonym execution_outcome = "execution_failure + json"

fun is_transient :: "execution_outcome \<Rightarrow> bool" where
  "is_transient (Inl (Transient _)) = True"
| "is_transient _ = False"

record 'w retrying_executor =
  rx_inner :: "'w \<Rightarrow> action \<Rightarrow> 'w \<times> execution_outcome"
  rx_max_attempts :: int
  rx_base_delay_ms :: int
  rx_jitter_ms :: int
  rx_randint :: "'w \<Rightarrow> int \<Rightarrow> int"

definition RetryingExecutorService ::
  "('w \<Rightarrow> action \<Rightarrow> 'w \<times> execution_outcome) \<Rightarrow> int \<Rightarrow> int \<Rightarrow> int \<Rightarrow> ('w \<Rightarrow> int \<Rightarrow> int) \<Rightarrow> 'w retrying_executor result" where
  "RetryingExecutorService inner max_attempts base_delay_ms jitter_ms randint =
     (if max_attempts < 1
      then Inl (ValueError (''max_attempts must be >= 1, got '' @ show_int max_attempts))
      else Inr \<lparr>rx_inner = inner, rx_max_attempts = max_attempts, rx_base_delay_ms = base_delay_ms,
                rx_jitter_ms = jitter_ms, rx_randint = randint\<rparr>)"

text \<open>\<open>jitter\<close> is the value of \<^verbatim>\<open>random.randint(0, self._jitter_ms)\<close>.\<close>

definition compute_delay :: "'w retrying_executor \<Rightarrow> transient_error \<Rightarrow> nat \<Rightarrow> int \<Rightarrow> int" where
  "compute_delay x err attempt jitter =
     (case tx_backoff_hint_ms err of
        Some hint \<Rightarrow> max hint (rx_base_delay_ms x) + jitter
      | None \<Rightarrow>
          (let multiplier =
             (case tx_kind err of
                ConnectionTransientError \<Rightarrow> 1
              | TimeoutTransientError \<Rightarrow> 4
              | ServiceOverloadTransientError \<Rightarrow> 2
              | _ \<Rightarrow> 1)
           in rx_base_delay_ms x * multiplier * 2 ^ attempt + jitter))"

text \<open>The environment, the outcomes of the inner calls and the sleeps in milliseconds.\<close>

record 'w retry_world =
  rw_env :: 'w
  rw_outcomes :: "execution_outcome list"
  rw_sleeps :: "int list"

text \<open>
  The loop over \<^verbatim>\<open>range(max_attempts)\<close>: \<open>n\<close> rounds are left.  After the last round the last
  transient error is raised; that there is none cannot happen, since at least one round runs,
  and would be a \<^verbatim>\<open>TypeError\<close>.
\<close>

fun retry_rounds ::
  "'w retrying_executor \<Rightarrow> action \<Rightarrow> nat \<Rightarrow> nat \<Rightarrow> transient_error option \<Rightarrow> 'w retry_world
     \<Rightarrow> 'w retry_world \<times> execution_outcome" where
  "retry_rounds x a 0 attempt last_exc w =
     (w, Inl (case last_exc of
        Some e \<Rightarrow> Transient e
      | None \<Rightarrow> Permanent (TypeError ''exceptions must derive from BaseException'')))"
| "retry_rounds x a (Suc n) attempt last_exc w =
     (case rx_inner x (rw_env w) a of
        (env', out) \<Rightarrow>
          let w = w\<lparr>rw_env := env', rw_outcomes := rw_outcomes w @ [out]\<rparr>
          in case out of
               Inl (Transient e) \<Rightarrow>
                 retry_rounds x a n (Suc attempt) (Some e)
                   (if int attempt < rx_max_attempts x - 1
                    then w\<lparr>rw_sleeps := rw_sleeps w @
                           [compute_delay x e attempt (rx_randint x (rw_env w) (rx_jitter_ms x))]\<rparr>
                    else w)
             | _ \<Rightarrow> (w, out))"

definition retry_execute ::
  "'w retrying_executor \<Rightarrow> action \<Rightarrow> 'w retry_world \<Rightarrow> 'w retry_world \<times> execution_outcome" where
  "retry_execute x a w = retry_rounds x a (nat (rx_max_attempts x)) 0 None w"

section \<open>Properties\<close>

lemma retry_rounds_law:
  assumes "retry_rounds x a n attempt last_exc w = (w', out)" "nat (rx_max_attempts x) = attempt + n"
    "n = 0 \<Longrightarrow> last_exc = Some e0"
  shows "\<exists>outs delays. rw_outcomes w' = rw_outcomes w @ outs \<and> rw_sleeps w' = rw_sleeps w @ delays
    \<and> length outs \<le> n \<and> length delays = length outs - 1
    \<and> out = (if outs = [] then Inl (Transient e0) else last outs)
    \<and> (outs = [] \<longrightarrow> n = 0) \<and> list_all is_transient (butlast outs) \<and> (is_transient out \<longrightarrow> length outs = n)"
  using assms
proof (induction n arbitrary: attempt last_exc w e0)
  case 0
  then show ?case by auto
next
  case (Suc n)
  obtain env' o1 where o1: "rx_inner x (rw_env w) a = (env', o1)" by fastforce
  let ?w = "w\<lparr>rw_env := env', rw_outcomes := rw_outcomes w @ [o1]\<rparr>"
  show ?case
  proof (cases "is_transient o1")
    case False
    then have r: "(w', out) = (?w, o1)"
      using Suc.prems(1) o1 by (cases o1 rule: is_transient.cases) (auto simp: Let_def)
    with False show ?thesis by (intro exI [of _ "[o1]"] exI [of _ "[]"]) auto
  next
    case True
    then obtain e where e: "o1 = Inl (Transient e)" by (cases o1 rule: is_transient.cases) auto
    let ?v = "if int attempt < rx_max_attempts x - 1
      then ?w\<lparr>rw_sleeps := rw_sleeps ?w @ [compute_delay x e attempt (rx_randint x (rw_env ?w) (rx_jitter_ms x))]\<rparr> else ?w"
    have "retry_rounds x a n (Suc attempt) (Some e) ?v = (w', out)"
      using Suc.prems(1) o1 e by (auto simp: Let_def split: if_splits)
    from Suc.IH [OF this, of e] Suc.prems(2) obtain outs delays where
      h: "rw_outcomes w' = rw_outcomes ?v @ outs" "rw_sleeps w' = rw_sleeps ?v @ delays"
      "length outs \<le> n" "length delays = length outs - 1"
      "out = (if outs = [] then Inl (Transient e) else last outs)"
      "outs = [] \<longrightarrow> n = 0" "list_all is_transient (butlast outs)" "is_transient out \<longrightarrow> length outs = n"
      by auto
    have more: "int attempt < rx_max_attempts x - 1 \<longleftrightarrow> n \<noteq> 0"
      using Suc.prems(2) by auto
    let ?d = "if n \<noteq> 0 then [compute_delay x e attempt (rx_randint x env' (rx_jitter_ms x))] else []"
    have "rw_sleeps w' = rw_sleeps w @ (?d @ delays)" "rw_outcomes w' = rw_outcomes w @ (o1 # outs)"
      using h(1,2) more by simp_all
    moreover have "length (?d @ delays) = length outs"
      using h(3,4,6) by (cases outs) auto
    ultimately show ?thesis
      using h(3,5-8) e by (intro exI [of _ "o1 # outs"] exI [of _ "?d @ delays"]) auto
  qed
qed

text \<open>
  Retries are bounded and only for transient failures. The inner executor is called at
  least once and at most \<open>max_attempts\<close> times; every call but the last failed transiently; the
  outcome is that of the last call, which is transient only when the attempts are used up; and
  there is one delay between two calls.
\<close>

theorem retry_execute_law:
  assumes "RetryingExecutorService inner max_attempts base_delay_ms jitter_ms randint = Inr x"
    "retry_execute x a \<lparr>rw_env = env, rw_outcomes = [], rw_sleeps = []\<rparr> = (w', out)"
  shows "1 \<le> length (rw_outcomes w') \<and> int (length (rw_outcomes w')) \<le> max_attempts
    \<and> out = last (rw_outcomes w') \<and> list_all is_transient (butlast (rw_outcomes w'))
    \<and> (is_transient out \<longrightarrow> int (length (rw_outcomes w')) = max_attempts)
    \<and> length (rw_sleeps w') = length (rw_outcomes w') - 1"
proof -
  have x: "rx_max_attempts x = max_attempts" "1 \<le> max_attempts"
    using assms(1) by (auto simp: RetryingExecutorService_def split: if_splits)
  from retry_rounds_law [OF assms(2) [unfolded retry_execute_def]] x show ?thesis
    by (fastforce simp: Suc_le_eq)
qed

definition flaky_executor :: "nat retrying_executor" where
  "flaky_executor =
     \<lparr>rx_inner = (\<lambda>n a. (n + 1, if n < 2
          then Inl (Transient \<lparr>tx_kind = TimeoutTransientError, tx_message = [], tx_backoff_hint_ms = None,
                              tx_may_have_executed = True\<rparr>)
          else Inr (JStr ''ok''))),
      rx_max_attempts = 3, rx_base_delay_ms = 100, rx_jitter_ms = 50, rx_randint = (\<lambda>_ _. 7)\<rparr>"

definition any_action :: action where
  "any_action =
     \<lparr>act_action_id = ''a'', act_run_id = ''r'', act_action_type = ''t'', act_effect_class = READ_ONLY,
      act_external_idempotency_level = None, act_interaction_target = None, act_input_ref = None,
      act_input_json = None, act_policy_tags = [], act_timeout_ms = None, act_side_effect_class = None\<rparr>"

theorem retry_execute_law_witness:
  "\<exists>w' out. retry_execute flaky_executor any_action \<lparr>rw_env = 0, rw_outcomes = [], rw_sleeps = []\<rparr> = (w', out)
     \<and> out = Inr (JStr ''ok'') \<and> length (rw_sleeps w') = length (rw_outcomes w') - 1 \<and> length (rw_sleeps w') = 2"
proof -
  let ?run = "retry_execute flaky_executor any_action \<lparr>rw_env = 0, rw_outcomes = [], rw_sleeps = []\<rparr>"
  have x: "RetryingExecutorService (rx_inner flaky_executor) 3 100 50 (\<lambda>_ _. 7) = Inr flaky_executor"
    by (simp add: RetryingExecutorService_def flaky_executor_def)
  have "snd ?run = Inr (JStr ''ok'')" "rw_sleeps (fst ?run) = [407, 807]" by code_simp+
  moreover obtain w' out where run: "?run = (w', out)" by (rule prod.exhaust)
  moreover note retry_execute_law [OF x run]
  ultimately show ?thesis by auto
qed

end
