(* ===== verification/Task_Manager.thy ===== *)
theory Task_Manager
  imports Kernel_Contracts
begin

text \<open>
  Task lifecycle management of \<^verbatim>\<open>kernel/task_manager\<close>: the registry of tasks and attempts, the
  log of task events with its replay into a fresh registry, and the watchdog.  The registry lock
  makes each operation atomic, so an operation is a function on the registry; clock readings are
  arguments.  An operation returns the event it emits, if any.
\<close>

section \<open>Contracts\<close>

datatype task_lifecycle_state =
    Task_pending | Task_running | Task_completed | Task_failed
  | Task_restarting | Task_reflecting | Task_escalated | Task_aborted

datatype exhausted_policy = Exhausted_reflect | Exhausted_escalate | Exhausted_abort

datatype task_kind = Kind_root | Kind_plan_step | Kind_parallel_branch | Kind_speculative_candidate

record task_restart_policy =
  tp_max_attempts :: int
  tp_backoff_base_ms :: int
  tp_max_backoff_ms :: int
  tp_on_exhausted :: exhausted_policy
  tp_heartbeat_timeout_ms :: int

record task_descriptor =
  ds_task_id :: string
  ds_session_id :: string
  ds_task_kind :: task_kind
  ds_goal_description :: string
  ds_parent_task_id :: "string option"
  ds_dependency_task_ids :: "string list"
  ds_restart_policy :: task_restart_policy
  ds_metadata :: jdict

record task_attempt =
  at_attempt_id :: string
  at_task_id :: string
  at_run_id :: string
  at_attempt_seq :: int
  at_started_at :: string
  at_completed_at :: "string option"
  at_outcome :: "string option"
  at_failure :: "failure_envelope option"
  at_reflection_output :: "string option"

record task_health_status =
  th_task_id :: string
  th_lifecycle_state :: task_lifecycle_state
  th_current_run_id :: "string option"
  th_attempt_seq :: nat
  th_max_attempts :: int
  th_last_heartbeat_ms :: "int option"
  th_consecutive_missed_beats :: int
  th_is_stalled :: bool

section \<open>Task events\<close>

text \<open>
  The events the registry emits, with the keys of their payloads.  The payload of a registration
  carries the restart policy without \<^verbatim>\<open>max_backoff_ms\<close>, that of an attempt only its identity.
\<close>

record policy_payload =
  pp_max_attempts :: int
  pp_backoff_base_ms :: int
  pp_on_exhausted :: exhausted_policy
  pp_heartbeat_timeout_ms :: int

record registered_payload =
  rp_task_id :: string
  rp_session_id :: string
  rp_task_kind :: task_kind
  rp_goal_description :: string
  rp_parent_task_id :: "string option"
  rp_dependency_task_ids :: "string list"
  rp_metadata :: jdict
  rp_restart_policy :: policy_payload

record attempt_payload =
  ap_attempt_id :: string
  ap_task_id :: string
  ap_run_id :: string
  ap_attempt_seq :: int
  ap_started_at :: string

text \<open>\<open>Ev_attempt_ended\<close> stands for \<^verbatim>\<open>task.attempt_completed\<close> and \<^verbatim>\<open>task.attempt_failed\<close>.\<close>

datatype task_event =
    Ev_registered registered_payload
  | Ev_attempt_started attempt_payload
  | Ev_attempt_ended string string string
  | Ev_state string task_lifecycle_state

section \<open>The registry\<close>

record task_entry =
  tk_descriptor :: task_descriptor
  tk_lifecycle_state :: task_lifecycle_state
  tk_attempts :: "task_attempt list"
  tk_last_heartbeat_ms :: "int option"
  tk_consecutive_missed_beats :: int

record task_registry =
  tg_tasks :: "(string, task_entry) dict"
  tg_session_index :: "(string, string list) dict"
  tg_run_index :: "(string, string) dict"
  tg_max_tasks :: int

definition TaskRegistry :: "int \<Rightarrow> task_registry" where
  "TaskRegistry max_tasks =
     \<lparr>tg_tasks = [], tg_session_index = [], tg_run_index = [], tg_max_tasks = max_tasks\<rparr>"

definition evict_task :: "string \<Rightarrow> task_registry \<Rightarrow> task_registry" where
  "evict_task tid r =
     (case dict_get (tg_tasks r) tid of
        None \<Rightarrow> r
      | Some entry \<Rightarrow>
          let sid = ds_session_id (tk_descriptor entry);
              r = r\<lparr>tg_tasks := dict_pop tid (tg_tasks r)\<rparr>
          in (case dict_get (tg_session_index r) sid of
                None \<Rightarrow> r
              | Some ids \<Rightarrow>
                  r\<lparr>tg_session_index := dict_set sid (filter (\<lambda>t. t \<noteq> tid) ids) (tg_session_index r)\<rparr>))"

definition evict_if_needed :: "task_registry \<Rightarrow> task_registry" where
  "evict_if_needed r =
     (if int (length (tg_tasks r)) < tg_max_tasks r then r
      else
        let terminal = map fst (filter (\<lambda>(tid, e). tk_lifecycle_state e \<in> {Task_completed, Task_aborted, Task_escalated})
              (tg_tasks r));
            to_evict = take (max 1 (length terminal div 2)) terminal
        in fold evict_task to_evict r)"

definition registered_event :: "task_descriptor \<Rightarrow> task_event" where
  "registered_event d = Ev_registered
     \<lparr>rp_task_id = ds_task_id d, rp_session_id = ds_session_id d, rp_task_kind = ds_task_kind d,
      rp_goal_description = ds_goal_description d, rp_parent_task_id = ds_parent_task_id d,
      rp_dependency_task_ids = ds_dependency_task_ids d, rp_metadata = ds_metadata d,
      rp_restart_policy =
        \<lparr>pp_max_attempts = tp_max_attempts (ds_restart_policy d),
         pp_backoff_base_ms = tp_backoff_base_ms (ds_restart_policy d),
         pp_on_exhausted = tp_on_exhausted (ds_restart_policy d),
         pp_heartbeat_timeout_ms = tp_heartbeat_timeout_ms (ds_restart_policy d)\<rparr>\<rparr>"

text \<open>Each mutating operation gives the next registry and the emitted event, or an exception.\<close>

definition register_task :: "task_registry \<Rightarrow> task_descriptor \<Rightarrow> (task_registry \<times> task_event option) result" where
  "register_task r d =
     (if dict_has (tg_tasks r) (ds_task_id d)
      then Inl (ValueError (''Task '' @ repr_str (ds_task_id d) @
             '' is already registered. Use a different task_id or call update_state() instead.''))
      else
        let r = evict_if_needed r
        in Inr (r\<lparr>tg_tasks := dict_set (ds_task_id d)
                    \<lparr>tk_descriptor = d, tk_lifecycle_state = Task_pending, tk_attempts = [],
                     tk_last_heartbeat_ms = None, tk_consecutive_missed_beats = 0\<rparr> (tg_tasks r),
                  tg_session_index := dict_set (ds_session_id d)
                    (dict_get_or (tg_session_index r) (ds_session_id d) [] @ [ds_task_id d]) (tg_session_index r)\<rparr>,
                Some (registered_event d)))"

definition start_attempt :: "int \<Rightarrow> task_registry \<Rightarrow> task_attempt \<Rightarrow> (task_registry \<times> task_event option) result" where
  "start_attempt now_ms r a =
     (case dict_get (tg_tasks r) (at_task_id a) of
        None \<Rightarrow> Inl (KeyError (at_task_id a))
      | Some entry \<Rightarrow>
          Inr (r\<lparr>tg_tasks := dict_set (at_task_id a)
                   (entry\<lparr>tk_attempts := tk_attempts entry @ [a], tk_lifecycle_state := Task_running,
                          tk_last_heartbeat_ms := Some now_ms\<rparr>) (tg_tasks r),
                 tg_run_index := dict_set (at_run_id a) (at_task_id a) (tg_run_index r)\<rparr>,
               Some (Ev_attempt_started
                 \<lparr>ap_attempt_id = at_attempt_id a, ap_task_id = at_task_id a, ap_run_id = at_run_id a,
                  ap_attempt_seq = at_attempt_seq a, ap_started_at = at_started_at a\<rparr>)))"

text \<open>An attempt that \<^verbatim>\<open>complete_attempt\<close> closes: it belongs to the run and has no outcome yet.\<close>

definition active_attempt :: "string \<Rightarrow> task_attempt \<Rightarrow> bool" where
  "active_attempt run_id a = (at_run_id a = run_id \<and> at_outcome a = None)"

definition close_attempt :: "string \<Rightarrow> string \<Rightarrow> string \<Rightarrow> failure_envelope option \<Rightarrow> task_attempt \<Rightarrow> task_attempt" where
  "close_attempt now_iso run_id outcome failure a =
     (if active_attempt run_id a
      then a\<lparr>at_outcome := Some outcome, at_completed_at := Some now_iso,
             at_failure := (if outcome \<noteq> ''completed'' then failure else None)\<rparr>
      else a)"

definition complete_attempt ::
  "string \<Rightarrow> task_registry \<Rightarrow> string \<Rightarrow> string \<Rightarrow> string \<Rightarrow> failure_envelope option
     \<Rightarrow> task_registry \<times> task_event option" where
  "complete_attempt now_iso r task_id run_id outcome failure =
     (case dict_get (tg_tasks r) task_id of
        None \<Rightarrow> (r, None)
      | Some entry \<Rightarrow>
          if \<not> list_ex (active_attempt run_id) (tk_attempts entry) then (r, None)
          else
            (r\<lparr>tg_tasks := dict_set task_id
                 (entry\<lparr>tk_attempts := map (close_attempt now_iso run_id outcome failure) (tk_attempts entry),
                        tk_lifecycle_state := (if outcome = ''completed'' then Task_completed else Task_failed)\<rparr>)
                 (tg_tasks r),
               tg_run_index := dict_pop run_id (tg_run_index r)\<rparr>,
             Some (Ev_attempt_ended task_id run_id outcome)))"

definition state_is_logged :: "task_lifecycle_state \<Rightarrow> bool" where
  "state_is_logged s = (s \<in> {Task_restarting, Task_reflecting, Task_completed, Task_escalated, Task_aborted})"

definition update_state :: "task_registry \<Rightarrow> string \<Rightarrow> task_lifecycle_state \<Rightarrow> task_registry \<times> task_event option" where
  "update_state r task_id s =
     (case dict_get (tg_tasks r) task_id of
        None \<Rightarrow> (r, None)
      | Some entry \<Rightarrow>
          (r\<lparr>tg_tasks := dict_set task_id (entry\<lparr>tk_lifecycle_state := s\<rparr>) (tg_tasks r)\<rparr>,
           if state_is_logged s then Some (Ev_state task_id s) else None))"

definition beat :: "int \<Rightarrow> task_entry \<Rightarrow> task_entry" where
  "beat now_ms entry =
     entry\<lparr>tk_last_heartbeat_ms :=
             Some (case tk_last_heartbeat_ms entry of
                     None \<Rightarrow> now_ms
                   | Some last_ms \<Rightarrow> if now_ms \<le> last_ms then last_ms + 1 else now_ms),
           tk_consecutive_missed_beats := 0\<rparr>"

definition heartbeat :: "int \<Rightarrow> task_registry \<Rightarrow> string \<Rightarrow> task_registry" where
  "heartbeat now_ms r task_id =
     (case dict_get (tg_tasks r) task_id of
        None \<Rightarrow> r
      | Some entry \<Rightarrow> r\<lparr>tg_tasks := dict_set task_id (beat now_ms entry) (tg_tasks r)\<rparr>)"

definition heartbeat_for_run :: "int \<Rightarrow> task_registry \<Rightarrow> string \<Rightarrow> task_registry" where
  "heartbeat_for_run now_ms r run_id =
     (case dict_get (tg_run_index r) run_id of None \<Rightarrow> r | Some task_id \<Rightarrow> heartbeat now_ms r task_id)"

section \<open>Queries\<close>

definition get_descriptor :: "task_registry \<Rightarrow> string \<Rightarrow> task_descriptor option" where
  "get_descriptor r task_id = map_option tk_descriptor (dict_get (tg_tasks r) task_id)"

definition entry_is_stalled :: "int \<Rightarrow> task_entry \<Rightarrow> bool" where
  "entry_is_stalled now_ms entry =
     (tk_lifecycle_state entry \<in> {Task_running, Task_restarting}
      \<and> (case tk_last_heartbeat_ms entry of
           None \<Rightarrow> False
         | Some last_ms \<Rightarrow> now_ms - last_ms > tp_heartbeat_timeout_ms (ds_restart_policy (tk_descriptor entry))))"

definition entry_health :: "string \<Rightarrow> task_entry \<Rightarrow> bool \<Rightarrow> task_health_status" where
  "entry_health task_id entry stalled =
     \<lparr>th_task_id = task_id, th_lifecycle_state = tk_lifecycle_state entry,
      th_current_run_id =
        (if tk_attempts entry = [] then None
         else let a = last (tk_attempts entry) in if at_outcome a = None then Some (at_run_id a) else None),
      th_attempt_seq = length (tk_attempts entry),
      th_max_attempts = tp_max_attempts (ds_restart_policy (tk_descriptor entry)),
      th_last_heartbeat_ms = tk_last_heartbeat_ms entry,
      th_consecutive_missed_beats = tk_consecutive_missed_beats entry,
      th_is_stalled = stalled\<rparr>"

definition get_health :: "int \<Rightarrow> task_registry \<Rightarrow> string \<Rightarrow> task_health_status option" where
  "get_health now_ms r task_id =
     map_option (\<lambda>entry. entry_health task_id entry (entry_is_stalled now_ms entry)) (dict_get (tg_tasks r) task_id)"

definition get_attempts :: "task_registry \<Rightarrow> string \<Rightarrow> task_attempt list" where
  "get_attempts r task_id = (case dict_get (tg_tasks r) task_id of None \<Rightarrow> [] | Some entry \<Rightarrow> tk_attempts entry)"

definition list_session_tasks :: "task_registry \<Rightarrow> string \<Rightarrow> task_descriptor list" where
  "list_session_tasks r session_id =
     List.map_filter (\<lambda>tid. map_option tk_descriptor (dict_get (tg_tasks r) tid))
       (dict_get_or (tg_session_index r) session_id [])"

definition get_task_id_for_run :: "task_registry \<Rightarrow> string \<Rightarrow> string option" where
  "get_task_id_for_run r run_id = dict_get (tg_run_index r) run_id"

definition miss_beat :: "int \<Rightarrow> task_entry \<Rightarrow> task_entry" where
  "miss_beat now_ms entry =
     (if entry_is_stalled now_ms entry
      then entry\<lparr>tk_consecutive_missed_beats := tk_consecutive_missed_beats entry + 1\<rparr> else entry)"

definition get_stalled_tasks :: "int \<Rightarrow> task_registry \<Rightarrow> task_registry \<times> task_health_status list" where
  "get_stalled_tasks now_ms r =
     (r\<lparr>tg_tasks := dict_map (miss_beat now_ms) (tg_tasks r)\<rparr>,
      map (\<lambda>(task_id, entry). entry_health task_id (miss_beat now_ms entry) True)
        (filter (\<lambda>(task_id, entry). entry_is_stalled now_ms entry) (tg_tasks r)))"

section \<open>The event log and its replay\<close>

record task_event_log =
  tl_events :: "task_event list"
  tl_max_events :: int

definition append_task_event :: "task_event_log \<Rightarrow> task_event \<Rightarrow> task_event_log" where
  "append_task_event l ev =
     (let events = (if int (length (tl_events l)) \<ge> tl_max_events l
            then drop (nat (max 1 (tl_max_events l div 4))) (tl_events l) else tl_events l)
      in l\<lparr>tl_events := events @ [ev]\<rparr>)"

definition descriptor_of_payload :: "registered_payload \<Rightarrow> task_descriptor" where
  "descriptor_of_payload p =
     \<lparr>ds_task_id = rp_task_id p, ds_session_id = rp_session_id p, ds_task_kind = rp_task_kind p,
      ds_goal_description = rp_goal_description p, ds_parent_task_id = rp_parent_task_id p,
      ds_dependency_task_ids = rp_dependency_task_ids p,
      ds_restart_policy =
        \<lparr>tp_max_attempts = pp_max_attempts (rp_restart_policy p),
         tp_backoff_base_ms = pp_backoff_base_ms (rp_restart_policy p),
         tp_max_backoff_ms = 30000,
         tp_on_exhausted = pp_on_exhausted (rp_restart_policy p),
         tp_heartbeat_timeout_ms = pp_heartbeat_timeout_ms (rp_restart_policy p)\<rparr>,
      ds_metadata = rp_metadata p\<rparr>"

definition attempt_of_payload :: "attempt_payload \<Rightarrow> task_attempt" where
  "attempt_of_payload p =
     \<lparr>at_attempt_id = ap_attempt_id p, at_task_id = ap_task_id p, at_run_id = ap_run_id p,
      at_attempt_seq = ap_attempt_seq p, at_started_at = ap_started_at p, at_completed_at = None,
      at_outcome = None, at_failure = None, at_reflection_output = None\<rparr>"

definition same_attempt :: "task_attempt \<Rightarrow> task_attempt \<Rightarrow> bool" where
  "same_attempt a b =
     (at_attempt_id b = at_attempt_id a \<or> at_run_id b = at_run_id a \<and> at_attempt_seq b = at_attempt_seq a)"

text \<open>One replayed event; the suppressed exceptions leave the registry as it is.\<close>

fun replay_task_event :: "int \<Rightarrow> string \<Rightarrow> task_event \<Rightarrow> task_registry \<Rightarrow> task_registry" where
  "replay_task_event now_ms now_iso (Ev_registered p) r =
     (case register_task r (descriptor_of_payload p) of Inl _ \<Rightarrow> r | Inr (r', _) \<Rightarrow> r')"
| "replay_task_event now_ms now_iso (Ev_attempt_started p) r =
     (let a = attempt_of_payload p
      in if list_ex (same_attempt a) (get_attempts r (at_task_id a)) then r
         else case start_attempt now_ms r a of Inl _ \<Rightarrow> r | Inr (r', _) \<Rightarrow> r')"
| "replay_task_event now_ms now_iso (Ev_attempt_ended task_id run_id outcome) r =
     fst (complete_attempt now_iso r task_id run_id outcome None)"
| "replay_task_event now_ms now_iso (Ev_state task_id s) r = fst (update_state r task_id s)"

definition replay_into_registry :: "int \<Rightarrow> string \<Rightarrow> task_event list \<Rightarrow> task_registry \<Rightarrow> task_registry" where
  "replay_into_registry now_ms now_iso events r = fold (replay_task_event now_ms now_iso) events r"

section \<open>The watchdog\<close>

text \<open>
  One sweep: the stalled tasks with an active run, each handed to the optional callback, whose
  exceptions are logged and swallowed; the result names the tasks handled.
\<close>

fun notify_stalled ::
  "('w \<Rightarrow> string \<Rightarrow> string \<Rightarrow> 'w \<times> unit result) option \<Rightarrow> task_health_status list \<Rightarrow> 'w \<Rightarrow> 'w \<times> string list" where
  "notify_stalled on_stall [] w = (w, [])"
| "notify_stalled on_stall (h # hs) w =
     (case th_current_run_id h of
        None \<Rightarrow> notify_stalled on_stall hs w
      | Some run_id \<Rightarrow>
          (case (case on_stall of None \<Rightarrow> (w, Inr ()) | Some f \<Rightarrow> f w (th_task_id h) run_id) of
             (w', Inl e) \<Rightarrow> notify_stalled on_stall hs w'
           | (w', Inr _) \<Rightarrow>
               (case notify_stalled on_stall hs w' of (w'', processed) \<Rightarrow> (w'', th_task_id h # processed))))"

definition watchdog_once ::
  "int \<Rightarrow> ('w \<Rightarrow> string \<Rightarrow> string \<Rightarrow> 'w \<times> unit result) option \<Rightarrow> task_registry \<Rightarrow> 'w
     \<Rightarrow> task_registry \<times> 'w \<times> string list" where
  "watchdog_once now_ms on_stall r w =
     (case get_stalled_tasks now_ms r of (r', stalled) \<Rightarrow> (r', notify_stalled on_stall stalled w))"

text \<open>The hooks: every one is a heartbeat; the end of a run also ends its attempt.\<close>

definition on_run_lifecycle_transition ::
  "int \<Rightarrow> string \<Rightarrow> task_registry \<Rightarrow> string \<Rightarrow> run_lifecycle_state \<Rightarrow> task_registry \<times> task_event option" where
  "on_run_lifecycle_transition now_ms now_iso r run_id to_state =
     (let r = heartbeat_for_run now_ms r run_id
      in if to_state \<in> {Completed, Aborted}
         then (case get_task_id_for_run r run_id of
                 None \<Rightarrow> (r, None)
               | Some task_id \<Rightarrow>
                   if task_id = [] then (r, None)
                   else complete_attempt now_iso r task_id run_id
                     (if to_state = Completed then ''completed'' else ''failed'') None)
         else (r, None))"

definition on_run_activity :: "int \<Rightarrow> task_registry \<Rightarrow> string \<Rightarrow> task_registry" where
  "on_run_activity now_ms r run_id = heartbeat_for_run now_ms r run_id"

section \<open>What a replay restores\<close>

text \<open>
  The part of the registry that the events determine: descriptors up to the backoff cap, states,
  and attempts up to completion time, failure and reflection output; not the heartbeats.
\<close>

definition strip_attempt :: "task_attempt \<Rightarrow> task_attempt" where
  "strip_attempt a = a\<lparr>at_completed_at := None, at_failure := None, at_reflection_output := None\<rparr>"

definition strip_descriptor :: "task_descriptor \<Rightarrow> task_descriptor" where
  "strip_descriptor d = d\<lparr>ds_restart_policy := (ds_restart_policy d)\<lparr>tp_max_backoff_ms := 30000\<rparr>\<rparr>"

definition strip_entry :: "task_entry \<Rightarrow> task_entry" where
  "strip_entry e =
     \<lparr>tk_descriptor = strip_descriptor (tk_descriptor e), tk_lifecycle_state = tk_lifecycle_state e,
      tk_attempts = map strip_attempt (tk_attempts e), tk_last_heartbeat_ms = None,
      tk_consecutive_missed_beats = 0\<rparr>"

definition strip_registry :: "task_registry \<Rightarrow> task_registry" where
  "strip_registry r = r\<lparr>tg_tasks := dict_map strip_entry (tg_tasks r)\<rparr>"

lemma strip_simps [simp]:
  "tk_lifecycle_state (strip_entry e) = tk_lifecycle_state e"
  "ds_session_id (tk_descriptor (strip_entry e)) = ds_session_id (tk_descriptor e)"
  "tk_attempts (strip_entry e) = map strip_attempt (tk_attempts e)"
  "at_run_id (strip_attempt a) = at_run_id a" "at_outcome (strip_attempt a) = at_outcome a"
  "at_attempt_id (strip_attempt a) = at_attempt_id a" "at_task_id (strip_attempt a) = at_task_id a"
  "at_attempt_seq (strip_attempt a) = at_attempt_seq a"
  "tg_tasks (strip_registry r) = dict_map strip_entry (tg_tasks r)"
  "tg_session_index (strip_registry r) = tg_session_index r"
  "tg_run_index (strip_registry r) = tg_run_index r"
  "tg_max_tasks (strip_registry r) = tg_max_tasks r"
  "ds_task_id (strip_descriptor d) = ds_task_id d" "ds_session_id (strip_descriptor d) = ds_session_id d"
  by (simp_all add: strip_entry_def strip_descriptor_def strip_attempt_def strip_registry_def)

lemma strip_registry_eq_iff:
  "strip_registry r = strip_registry r' \<longleftrightarrow>
     dict_map strip_entry (tg_tasks r) = dict_map strip_entry (tg_tasks r')
     \<and> tg_session_index r = tg_session_index r' \<and> tg_run_index r = tg_run_index r' \<and> tg_max_tasks r = tg_max_tasks r'"
  by (cases r; cases r') (simp add: strip_registry_def)

text \<open>Every operation commutes with the projection to this part.\<close>

lemma strip_evict_task: "strip_registry (evict_task tid r) = evict_task tid (strip_registry r)"
  by (auto simp: evict_task_def Let_def strip_registry_def split: option.splits)

lemma strip_evict_fold: "strip_registry (fold evict_task tids r) = fold evict_task tids (strip_registry r)"
  by (induction tids arbitrary: r) (simp_all add: strip_evict_task)

lemma filter_dict_map:
  "map fst (filter (\<lambda>(k, v). P v) (dict_map f d)) = map fst (filter (\<lambda>(k, v). P (f v)) d)"
  by (induction d) (auto simp: dict_map_def)

lemma strip_evict: "strip_registry (evict_if_needed r) = evict_if_needed (strip_registry r)"
  by (simp add: evict_if_needed_def Let_def strip_evict_fold filter_dict_map)

definition strip_result :: "(task_registry \<times> task_event option) result \<Rightarrow> task_registry option" where
  "strip_result x = (case x of Inl _ \<Rightarrow> None | Inr (r, _) \<Rightarrow> Some (strip_registry r))"

lemma strip_register:
  assumes "strip_registry r = strip_registry r'" "strip_descriptor d = strip_descriptor d'"
  shows "strip_result (register_task r d) = strip_result (register_task r' d')"
proof -
  have ids: "ds_task_id d = ds_task_id d'" "ds_session_id d = ds_session_id d'"
    using assms(2) by (metis strip_simps(13), metis strip_simps(14))
  have has: "dict_has (tg_tasks r) k = dict_has (tg_tasks r') k" for k
    using arg_cong [OF assms(1), of "\<lambda>x. dict_has (tg_tasks x) k"] by simp
  have "strip_registry (evict_if_needed r) = strip_registry (evict_if_needed r')"
    using assms(1) by (simp add: strip_evict)
  then show ?thesis
    using ids has assms(2)
    by (simp add: register_task_def strip_result_def Let_def strip_registry_eq_iff strip_entry_def)
qed

lemma strip_start:
  assumes "strip_registry r = strip_registry r'" "strip_attempt a = strip_attempt a'"
  shows "strip_result (start_attempt now r a) = strip_result (start_attempt now' r' a')"
proof -
  have ids: "at_task_id a = at_task_id a'" "at_run_id a = at_run_id a'"
    using assms(2) by (metis strip_simps(7), metis strip_simps(4))
  have get: "map_option strip_entry (dict_get (tg_tasks r) k) = map_option strip_entry (dict_get (tg_tasks r') k)" for k
    using arg_cong [OF assms(1), of "\<lambda>x. dict_get (tg_tasks x) k"] by simp
  show ?thesis
  proof (cases "dict_get (tg_tasks r) (at_task_id a)")
    case None
    with get [of "at_task_id a"] ids show ?thesis by (simp add: start_attempt_def strip_result_def)
  next
    case (Some e)
    with get [of "at_task_id a"] obtain e' where e': "dict_get (tg_tasks r') (at_task_id a) = Some e'"
      "strip_entry e = strip_entry e'" by (cases "dict_get (tg_tasks r') (at_task_id a)") auto
    with Some assms ids show ?thesis
      by (simp add: start_attempt_def strip_result_def strip_registry_eq_iff) (simp add: strip_entry_def)
  qed
qed

lemma strip_complete:
  assumes "strip_registry r = strip_registry r'"
  shows "strip_registry (fst (complete_attempt stamp r task_id run_id outcome failure)) =
      strip_registry (fst (complete_attempt stamp' r' task_id run_id outcome failure'))"
proof -
  have get: "map_option strip_entry (dict_get (tg_tasks r) task_id) = map_option strip_entry (dict_get (tg_tasks r') task_id)"
    using arg_cong [OF assms, of "\<lambda>x. dict_get (tg_tasks x) task_id"] by simp
  have closed: "strip_attempt (close_attempt i run_id outcome f a) =
      (if active_attempt run_id (strip_attempt a) then (strip_attempt a)\<lparr>at_outcome := Some outcome\<rparr> else strip_attempt a)"
    for i f a by (simp add: close_attempt_def active_attempt_def strip_attempt_def)
  show ?thesis
  proof (cases "dict_get (tg_tasks r) task_id")
    case None
    with get assms show ?thesis by (simp add: complete_attempt_def)
  next
    case (Some e)
    with get obtain e' where e': "dict_get (tg_tasks r') task_id = Some e'" "strip_entry e = strip_entry e'"
      by (cases "dict_get (tg_tasks r') task_id") auto
    have atts: "map strip_attempt (tk_attempts e) = map strip_attempt (tk_attempts e')"
      using e'(2) by (simp add: strip_entry_def)
    have active: "list_ex (active_attempt run_id) xs = list_ex (active_attempt run_id) (map strip_attempt xs)" for xs
      by (induction xs) (auto simp: active_attempt_def)
    have same: "map (strip_attempt \<circ> close_attempt stamp run_id outcome failure) (tk_attempts e) =
        map (strip_attempt \<circ> close_attempt stamp' run_id outcome failure') (tk_attempts e')"
      using arg_cong [OF atts, of "map (\<lambda>a. if active_attempt run_id a then a\<lparr>at_outcome := Some outcome\<rparr> else a)"]
      by (simp add: closed comp_def)
    define st where "st = (if outcome = ''completed'' then Task_completed else Task_failed)"
    have new: "strip_entry (e\<lparr>tk_attempts := map (close_attempt stamp run_id outcome failure) (tk_attempts e),
          tk_lifecycle_state := st\<rparr>) =
        strip_entry (e'\<lparr>tk_attempts := map (close_attempt stamp' run_id outcome failure') (tk_attempts e'),
          tk_lifecycle_state := st\<rparr>)"
      using e'(2) same by (simp add: strip_entry_def)
    have ex: "list_ex (active_attempt run_id) (tk_attempts e) = list_ex (active_attempt run_id) (tk_attempts e')"
      using active [of "tk_attempts e"] active [of "tk_attempts e'"] atts by simp
    show ?thesis
      using Some e'(1) assms new unfolding complete_attempt_def st_def [symmetric]
      by (simp add: strip_registry_eq_iff ex)
  qed
qed

lemma strip_update:
  assumes "strip_registry r = strip_registry r'"
  shows "strip_registry (fst (update_state r task_id s)) = strip_registry (fst (update_state r' task_id s))"
proof -
  have get: "map_option strip_entry (dict_get (tg_tasks r) task_id) = map_option strip_entry (dict_get (tg_tasks r') task_id)"
    using arg_cong [OF assms, of "\<lambda>x. dict_get (tg_tasks x) task_id"] by simp
  then show ?thesis
    using assms by (cases "dict_get (tg_tasks r) task_id"; cases "dict_get (tg_tasks r') task_id")
      (auto simp: update_state_def strip_registry_eq_iff strip_entry_def)
qed

lemma dict_set_same: "dict_get d k = Some v \<Longrightarrow> dict_set k v d = d"
  by (induction d) (auto simp: dict_get_def dict_set_def)

lemma strip_heartbeat [simp]: "strip_registry (heartbeat now r task_id) = strip_registry r"
proof (cases "dict_get (tg_tasks r) task_id")
  case (Some e)
  have "strip_entry (beat now e) = strip_entry e" by (simp add: beat_def strip_entry_def)
  moreover have "dict_set task_id (strip_entry e) (dict_map strip_entry (tg_tasks r)) = dict_map strip_entry (tg_tasks r)"
    by (rule dict_set_same) (simp add: Some)
  ultimately show ?thesis using Some by (simp add: heartbeat_def strip_registry_def)
qed (simp add: heartbeat_def)

lemma strip_heartbeat_for_run [simp]: "strip_registry (heartbeat_for_run now r run_id) = strip_registry r"
  by (simp add: heartbeat_for_run_def split: option.splits)

lemma strip_sweep [simp]: "strip_registry (fst (get_stalled_tasks now r)) = strip_registry r"
proof -
  have "strip_entry (miss_beat now e) = strip_entry e" for e by (simp add: miss_beat_def strip_entry_def)
  then have "dict_map strip_entry (dict_map (miss_beat now) d) = dict_map strip_entry d" for d :: "(string, task_entry) dict"
    by (induction d) (auto simp: dict_map_def)
  then show ?thesis by (simp add: get_stalled_tasks_def strip_registry_def)
qed

section \<open>Properties\<close>

text \<open>The operations on a registry, in sequence, with the events they emit.\<close>

datatype task_op =
    TaskRegister task_descriptor
  | TaskStart int task_attempt
  | TaskComplete string string string string "failure_envelope option"
  | TaskUpdate string task_lifecycle_state
  | TaskHeartbeat int string
  | TaskRunHeartbeat int string
  | TaskSweep int

definition settle :: "task_registry \<Rightarrow> (task_registry \<times> task_event option) result \<Rightarrow> task_registry \<times> task_event option" where
  "settle r x = (case x of Inl _ \<Rightarrow> (r, None) | Inr y \<Rightarrow> y)"

fun run_task_op :: "task_op \<Rightarrow> task_registry \<Rightarrow> task_registry \<times> task_event option" where
  "run_task_op (TaskRegister d) r = settle r (register_task r d)"
| "run_task_op (TaskStart now a) r = settle r (start_attempt now r a)"
| "run_task_op (TaskComplete stamp task_id run_id outcome failure) r = complete_attempt stamp r task_id run_id outcome failure"
| "run_task_op (TaskUpdate task_id s) r = update_state r task_id s"
| "run_task_op (TaskHeartbeat now task_id) r = (heartbeat now r task_id, None)"
| "run_task_op (TaskRunHeartbeat now run_id) r = (heartbeat_for_run now r run_id, None)"
| "run_task_op (TaskSweep now) r = (fst (get_stalled_tasks now r), None)"

fun run_task_ops :: "task_op list \<Rightarrow> task_registry \<Rightarrow> task_registry \<times> task_event list" where
  "run_task_ops [] r = (r, [])"
| "run_task_ops (op # ops) r =
     (case run_task_op op r of (r1, ev) \<Rightarrow>
        case run_task_ops ops r1 of (r2, evs) \<Rightarrow> (r2, (case ev of None \<Rightarrow> evs | Some e \<Rightarrow> e # evs)))"

text \<open>
  The calls a replay can reproduce: a started attempt is open and new to its task, and an explicit
  state is one that is logged.
\<close>

fun op_replayable :: "task_op \<Rightarrow> task_registry \<Rightarrow> bool" where
  "op_replayable (TaskStart now a) r =
     (at_outcome a = None \<and> \<not> list_ex (same_attempt a) (get_attempts r (at_task_id a)))"
| "op_replayable (TaskUpdate task_id s) r = state_is_logged s"
| "op_replayable _ r = True"

fun ops_replayable :: "task_op list \<Rightarrow> task_registry \<Rightarrow> bool" where
  "ops_replayable [] r = True"
| "ops_replayable (op # ops) r = (op_replayable op r \<and> ops_replayable ops (fst (run_task_op op r)))"

lemma payload_descriptor: "registered_event d = Ev_registered p \<Longrightarrow> strip_descriptor (descriptor_of_payload p) = strip_descriptor d"
  by (auto simp: registered_event_def descriptor_of_payload_def strip_descriptor_def)

lemma list_ex_same_attempt:
  assumes "strip_attempt a = strip_attempt a'"
  shows "list_ex (same_attempt a) xs = list_ex (same_attempt (strip_attempt a')) (map strip_attempt xs)"
proof -
  have "same_attempt a b = same_attempt (strip_attempt a') (strip_attempt b)" for b
    unfolding assms [symmetric] by (simp add: same_attempt_def)
  then show ?thesis by (induction xs) auto
qed

lemma get_attempts_strip:
  assumes "strip_registry r = strip_registry r'" "strip_attempt a = strip_attempt a'"
  shows "list_ex (same_attempt a) (get_attempts r t) = list_ex (same_attempt a') (get_attempts r' t)"
proof -
  have "map strip_attempt (get_attempts r t) = map strip_attempt (get_attempts r' t)"
    using arg_cong [OF assms(1), of "\<lambda>x. get_attempts x t"] by (auto simp: get_attempts_def split: option.splits)
  then show ?thesis
    using list_ex_same_attempt [OF assms(2), of "get_attempts r t"]
      list_ex_same_attempt [OF refl, of a' "get_attempts r' t"] by simp
qed

lemma strip_result_SomeE:
  assumes "strip_result x = Some s"
  obtains r e where "x = Inr (r, e)" "strip_registry r = s"
  using assms by (auto simp: strip_result_def split: sum.splits)

lemma replay_one:
  assumes "strip_registry r = strip_registry r'" "op_replayable op r" "run_task_op op r = (r1, ev)"
  shows "strip_registry r1 = strip_registry (case ev of None \<Rightarrow> r' | Some e \<Rightarrow> replay_task_event now stamp e r')"
proof (cases op)
  case (TaskRegister d)
  show ?thesis
  proof (cases "register_task r d")
    case (Inl e)
    with assms TaskRegister show ?thesis by (simp add: settle_def)
  next
    case (Inr y)
    then have y: "register_task r d = Inr (r1, Some (registered_event d))" "ev = Some (registered_event d)"
      using assms(3) TaskRegister by (auto simp: settle_def register_task_def Let_def split: if_splits)
    obtain p where p: "registered_event d = Ev_registered p" by (simp add: registered_event_def)
    have "strip_result (register_task r' (descriptor_of_payload p)) = Some (strip_registry r1)"
      using strip_register [OF assms(1), of d "descriptor_of_payload p"] payload_descriptor [OF p] y(1)
      by (simp add: strip_result_def)
    then show ?thesis using y(2) p by (elim strip_result_SomeE) simp
  qed
next
  case (TaskStart t a)
  show ?thesis
  proof (cases "start_attempt t r a")
    case (Inl e)
    with assms TaskStart show ?thesis by (simp add: settle_def)
  next
    case (Inr y)
    define p where "p = \<lparr>ap_attempt_id = at_attempt_id a, ap_task_id = at_task_id a, ap_run_id = at_run_id a,
      ap_attempt_seq = at_attempt_seq a, ap_started_at = at_started_at a\<rparr>"
    have y: "start_attempt t r a = Inr (r1, Some (Ev_attempt_started p))" "ev = Some (Ev_attempt_started p)"
      using Inr assms(3) TaskStart by (auto simp: settle_def start_attempt_def p_def split: option.splits)
    have a: "strip_attempt a = strip_attempt (attempt_of_payload p)" "at_task_id (attempt_of_payload p) = at_task_id a"
      using assms(2) TaskStart by (simp_all add: strip_attempt_def attempt_of_payload_def p_def)
    have "\<not> list_ex (same_attempt (attempt_of_payload p)) (get_attempts r' (at_task_id a))"
      using assms(2) TaskStart get_attempts_strip [OF assms(1) a(1)] by simp
    moreover have "strip_result (start_attempt now r' (attempt_of_payload p)) = Some (strip_registry r1)"
      using strip_start [OF assms(1) a(1), of t now] y(1) by (simp add: strip_result_def)
    ultimately show ?thesis using y(2) a(2) by (elim strip_result_SomeE) (simp add: Let_def)
  qed
next
  case (TaskComplete i task_id run_id outcome failure)
  then have c: "complete_attempt i r task_id run_id outcome failure = (r1, ev)" using assms(3) by simp
  show ?thesis
  proof (cases ev)
    case None
    with c have "r1 = r" by (auto simp: complete_attempt_def split: option.splits if_splits)
    with None assms(1) show ?thesis by simp
  next
    case (Some e)
    with c have "e = Ev_attempt_ended task_id run_id outcome"
      by (auto simp: complete_attempt_def split: option.splits if_splits)
    with Some c strip_complete [OF assms(1), of i task_id run_id outcome failure stamp None] show ?thesis by simp
  qed
next
  case (TaskUpdate task_id s)
  then have u: "update_state r task_id s = (r1, ev)" and l: "state_is_logged s" using assms(2,3) by simp_all
  show ?thesis
  proof (cases ev)
    case None
    with u l have "r1 = r" by (auto simp: update_state_def split: option.splits)
    with None assms(1) show ?thesis by simp
  next
    case (Some e)
    with u l have "e = Ev_state task_id s" by (auto simp: update_state_def split: option.splits)
    with Some u strip_update [OF assms(1), of task_id s] show ?thesis by simp
  qed
next
  case (TaskHeartbeat t task_id)
  with assms strip_heartbeat [of t r task_id] show ?thesis by auto
next
  case (TaskRunHeartbeat t run_id)
  with assms strip_heartbeat_for_run [of t r run_id] show ?thesis by auto
next
  case (TaskSweep t)
  with assms strip_sweep [of t r] show ?thesis by auto
qed

lemma replay_all:
  assumes "strip_registry r = strip_registry r'" "ops_replayable ops r" "run_task_ops ops r = (r1, evs)"
  shows "strip_registry (replay_into_registry now stamp evs r') = strip_registry r1"
  using assms
proof (induction ops arbitrary: r r' evs)
  case Nil
  then show ?case by (simp add: replay_into_registry_def)
next
  case (Cons op ops)
  obtain r2 ev where one: "run_task_op op r = (r2, ev)" by fastforce
  obtain evs' where rest: "run_task_ops ops r2 = (r1, evs')" and evs: "evs = (case ev of None \<Rightarrow> evs' | Some e \<Rightarrow> e # evs')"
    using Cons.prems(3) one by (auto split: prod.splits)
  let ?r = "case ev of None \<Rightarrow> r' | Some e \<Rightarrow> replay_task_event now stamp e r'"
  have "strip_registry r2 = strip_registry ?r"
    using replay_one [OF Cons.prems(1) _ one] Cons.prems(2) by simp
  from Cons.IH [OF this _ rest] Cons.prems(2) one evs show ?case
    by (cases ev) (simp_all add: replay_into_registry_def)
qed

lemma append_all_events:
  assumes "int (length (tl_events l) + length evs) \<le> tl_max_events l"
  shows "tl_events (fold (\<lambda>ev l. append_task_event l ev) evs l) = tl_events l @ evs"
  using assms
proof (induction evs arbitrary: l)
  case (Cons ev evs)
  have "append_task_event l ev = l\<lparr>tl_events := tl_events l @ [ev]\<rparr>"
    using Cons.prems by (simp add: append_task_event_def)
  with Cons.IH [of "l\<lparr>tl_events := tl_events l @ [ev]\<rparr>"] Cons.prems show ?case by simp
qed simp

text \<open>
  C39 (roundtrip): task state survives a restart. Replaying the logged events of any sequence of
  registry operations into a fresh registry of the same size gives the same tasks, states,
  attempts and indices, evictions included, up to the fields no event carries (heartbeats,
  completion times, failures, reflection outputs and the backoff cap); provided the log did not
  overflow, started attempts were new and open, and explicit states are logged ones.
\<close>

theorem task_replay_restores_registry:
  assumes "ops_replayable ops (TaskRegistry max_tasks)"
    "run_task_ops ops (TaskRegistry max_tasks) = (r, evs)" "int (length evs) \<le> max_events"
  shows "strip_registry (replay_into_registry now_ms now_iso
      (tl_events (fold (\<lambda>ev l. append_task_event l ev) evs \<lparr>tl_events = [], tl_max_events = max_events\<rparr>))
      (TaskRegistry max_tasks)) = strip_registry r"
  using replay_all [OF refl assms(1,2)] append_all_events [of "\<lparr>tl_events = [], tl_max_events = max_events\<rparr>" evs] assms(3)
  by simp

definition sample_task :: "string \<Rightarrow> task_descriptor" where
  "sample_task tid =
     \<lparr>ds_task_id = tid, ds_session_id = ''s1'', ds_task_kind = Kind_root, ds_goal_description = ''goal'',
      ds_parent_task_id = None, ds_dependency_task_ids = [],
      ds_restart_policy = \<lparr>tp_max_attempts = 3, tp_backoff_base_ms = 2000, tp_max_backoff_ms = 5000,
        tp_on_exhausted = Exhausted_reflect, tp_heartbeat_timeout_ms = 100\<rparr>,
      ds_metadata = []\<rparr>"

definition sample_attempt :: "string \<Rightarrow> string \<Rightarrow> task_attempt" where
  "sample_attempt tid run_id =
     \<lparr>at_attempt_id = ''att'', at_task_id = tid, at_run_id = run_id, at_attempt_seq = 1, at_started_at = ''t'',
      at_completed_at = None, at_outcome = None, at_failure = None, at_reflection_output = None\<rparr>"

definition sample_task_ops :: "task_op list" where
  "sample_task_ops =
     [TaskRegister (sample_task ''t1''), TaskStart 5 (sample_attempt ''t1'' ''r1''), TaskRunHeartbeat 9 ''r1'',
      TaskComplete ''now'' ''t1'' ''r1'' ''failed'' None, TaskUpdate ''t1'' Task_escalated, TaskRegister (sample_task ''t2'')]"

theorem task_replay_restores_registry_witness:
  "\<exists>r evs. run_task_ops sample_task_ops (TaskRegistry 1) = (r, evs)
     \<and> strip_registry (replay_into_registry 0 [] (tl_events (fold (\<lambda>ev l. append_task_event l ev) evs
          \<lparr>tl_events = [], tl_max_events = 100\<rparr>)) (TaskRegistry 1)) = strip_registry r"
proof -
  have ok: "ops_replayable sample_task_ops (TaskRegistry 1)" by code_simp
  obtain r evs where run: "run_task_ops sample_task_ops (TaskRegistry 1) = (r, evs)" by fastforce
  have "length (snd (run_task_ops sample_task_ops (TaskRegistry 1))) = 5" by code_simp
  with run have "int (length evs) \<le> 100" by simp
  from task_replay_restores_registry [OF ok run this] run show ?thesis by blast
qed

text \<open>The task has an open last attempt.\<close>

definition has_active_run :: "task_entry \<Rightarrow> bool" where
  "has_active_run e = (tk_attempts e \<noteq> [] \<and> at_outcome (last (tk_attempts e)) = None)"

lemma health_run [simp]: "(th_current_run_id (entry_health tid e b) \<noteq> None) = has_active_run e"
  "(th_current_run_id (entry_health tid e b) = None) = (\<not> has_active_run e)"
  by (auto simp: entry_health_def has_active_run_def Let_def)

lemma active_run_miss_beat [simp]: "has_active_run (miss_beat now e) = has_active_run e"
  by (simp add: has_active_run_def miss_beat_def)

lemma notify_stalled_subset:
  "set (snd (notify_stalled f hs w)) \<subseteq> set (map th_task_id (filter (\<lambda>h. th_current_run_id h \<noteq> None) hs))"
proof (induction hs arbitrary: w)
  case (Cons h hs)
  show ?case
  proof (cases "th_current_run_id h")
    case None
    then show ?thesis using Cons.IH [of w] by simp
  next
    case (Some run_id)
    obtain w1 x where x: "(case f of None \<Rightarrow> (w, Inr ()) | Some g \<Rightarrow> g w (th_task_id h) run_id) = (w1, x)" by fastforce
    obtain w2 ps where ps: "notify_stalled f hs w1 = (w2, ps)" by fastforce
    show ?thesis
      using Some x ps Cons.IH [of w1] by (cases x) auto
  qed
qed simp

lemma notify_stalled_no_callback:
  "snd (notify_stalled None hs w) = map th_task_id (filter (\<lambda>h. th_current_run_id h \<noteq> None) hs)"
proof (induction hs)
  case (Cons h hs)
  obtain w2 ps where "notify_stalled None hs w = (w2, ps)" by fastforce
  with Cons show ?case by (auto split: option.splits)
qed simp

lemma stalled_ids:
  "map th_task_id (filter (\<lambda>h. th_current_run_id h \<noteq> None) (snd (get_stalled_tasks now r))) =
     map fst (filter (\<lambda>(tid, e). entry_is_stalled now e \<and> has_active_run e) (tg_tasks r))"
proof -
  have ids: "th_task_id (entry_health tid e b) = tid" for tid e b by (simp add: entry_health_def)
  have "map th_task_id (filter (\<lambda>h. th_current_run_id h \<noteq> None)
      (map (\<lambda>(tid, e). entry_health tid (miss_beat now e) True) (filter (\<lambda>(tid, e). entry_is_stalled now e) d))) =
    map fst (filter (\<lambda>(tid, e). entry_is_stalled now e \<and> has_active_run e) d)" for d
    by (induction d) (simp_all del: not_None_eq add: ids split_beta)
  then show ?thesis by (simp add: get_stalled_tasks_def)
qed

text \<open>
  A watchdog sweep handles only stalled tasks: running or restarting, with an open
  attempt and no heartbeat within their timeout, and without a callback it reports all of them.
  Its only effect on the registry is one more missed beat for every stalled task.
\<close>

theorem watchdog_handles_stalled_tasks:
  assumes "dict_wf (tg_tasks r)" "watchdog_once now_ms on_stall r w = (r', w', processed)"
  shows "set processed \<subseteq> {tid. \<exists>e. dict_get (tg_tasks r) tid = Some e \<and> entry_is_stalled now_ms e \<and> has_active_run e}
    \<and> (on_stall = None \<longrightarrow>
        set processed = {tid. \<exists>e. dict_get (tg_tasks r) tid = Some e \<and> entry_is_stalled now_ms e \<and> has_active_run e})
    \<and> r' = r\<lparr>tg_tasks := dict_map (miss_beat now_ms) (tg_tasks r)\<rparr>"
proof -
  let ?T = "{tid. \<exists>e. dict_get (tg_tasks r) tid = Some e \<and> entry_is_stalled now_ms e \<and> has_active_run e}"
  have p: "processed = snd (notify_stalled on_stall (snd (get_stalled_tasks now_ms r)) w)"
    and r': "r' = fst (get_stalled_tasks now_ms r)"
    using assms(2) by (auto simp: watchdog_once_def split: prod.splits)
  have T: "set (map fst (filter (\<lambda>(tid, e). entry_is_stalled now_ms e \<and> has_active_run e) (tg_tasks r))) = ?T"
    using dict_in_set [OF assms(1)] by (auto simp: image_iff)
  have "set processed \<subseteq> ?T"
    using notify_stalled_subset [of on_stall "snd (get_stalled_tasks now_ms r)" w] unfolding p stalled_ids T .
  moreover have "set processed = ?T" if "on_stall = None"
    unfolding p that notify_stalled_no_callback stalled_ids T ..
  ultimately show ?thesis unfolding r' by (simp add: get_stalled_tasks_def)
qed

definition stalled_registry :: task_registry where
  "stalled_registry = fst (run_task_ops
     [TaskRegister (sample_task ''t1''), TaskStart 5 (sample_attempt ''t1'' ''r1'')] (TaskRegistry 9))"

theorem watchdog_handles_stalled_tasks_witness:
  "\<exists>r' w' processed. watchdog_once 500 None stalled_registry () = (r', w', processed)
     \<and> ''t1'' \<in> set processed \<and> ''t2'' \<notin> set processed"
proof -
  obtain r' w' processed where run: "watchdog_once 500 None stalled_registry () = (r', w', processed)"
    by (rule prod_cases3)
  have "dict_wf (tg_tasks stalled_registry)" by code_simp
  note law = watchdog_handles_stalled_tasks [OF this run]
  have "list_ex (\<lambda>e. entry_is_stalled 500 e \<and> has_active_run e)
      (case dict_get (tg_tasks stalled_registry) ''t1'' of None \<Rightarrow> [] | Some e \<Rightarrow> [e])" by code_simp
  then have "\<exists>e. dict_get (tg_tasks stalled_registry) ''t1'' = Some e \<and> entry_is_stalled 500 e \<and> has_active_run e"
    by (auto split: option.splits)
  moreover have "\<not> dict_has (tg_tasks stalled_registry) ''t2''" by code_simp
  then have "dict_get (tg_tasks stalled_registry) ''t2'' = None" by (simp add: dict_has_iff)
  ultimately show ?thesis using run law by auto
qed

lemma registry_may_exceed_max_tasks:
  "length (tg_tasks (fst (run_task_ops [TaskRegister (sample_task ''t1''), TaskRegister (sample_task ''t2'')]
     (TaskRegistry 1)))) = 2"
  by code_simp

lemma backoff_cap_lost_in_replay:
  "map_option (\<lambda>d. tp_max_backoff_ms (ds_restart_policy d)) (get_descriptor (replay_into_registry 0 []
     (snd (run_task_ops [TaskRegister (sample_task ''t1'')] (TaskRegistry 9))) (TaskRegistry 9)) ''t1'') = Some 30000
   \<and> tp_max_backoff_ms (ds_restart_policy (sample_task ''t1'')) = 5000"
  by code_simp

lemma unlogged_state_lost_in_replay:
  "map_option th_lifecycle_state (get_health 0 (replay_into_registry 0 []
     (snd (run_task_ops [TaskRegister (sample_task ''t1''), TaskUpdate ''t1'' Task_failed] (TaskRegistry 9)))
     (TaskRegistry 9)) ''t1'') = Some Task_pending"
  by code_simp

end
