(* ===== verification/Admission.thy ===== *)
theory Admission
  imports Capability_Snapshot Python_Float
begin

text \<open>
  Snapshot-driven admission of \<^verbatim>\<open>kernel/admission\<close>: tenant policies and their resolution, and
  the pipeline of five rules with its sliding-window rate limiter.  The file system with
  \<^verbatim>\<open>json.loads\<close> is a parameter: for a path it gives the parsed value, or what went wrong.
\<close>

section \<open>Tenant policies\<close>

record tenant_policy =
  tn_policy_id :: json
  tn_max_allowed_risk_tier :: int
  tn_allow_non_idempotent_remote_writes :: bool
  tn_max_actions_per_minute :: int

definition DEFAULT_POLICY :: tenant_policy where
  "DEFAULT_POLICY =
     \<lparr>tn_policy_id = JStr ''default'', tn_max_allowed_risk_tier = 3,
      tn_allow_non_idempotent_remote_writes = False, tn_max_actions_per_minute = 120\<rparr>"

text \<open>\<^verbatim>\<open>int(text)\<close> and \<^verbatim>\<open>int(v)\<close> on parsed JSON.\<close>

definition int_of_string :: "string \<Rightarrow> int option" where
  "int_of_string text =
     (case remove_underscores CHR ''+'' (strip text) of
        None \<Rightarrow> None
      | Some s \<Rightarrow>
          let (neg, ds) = (case s of
                c # r \<Rightarrow> if c = CHR ''-'' then (True, r) else if c = CHR ''+'' then (False, r) else (False, s)
              | [] \<Rightarrow> (False, []))
          in if ds \<noteq> [] \<and> list_all is_digit ds
             then Some (if neg then - digits_value ds else digits_value ds) else None)"

definition int_argument_error :: "string \<Rightarrow> exn" where
  "int_argument_error type_name =
     TypeError (''int() argument must be a string, a bytes-like object or a real number, not '' @ repr_str type_name)"

fun int_of_json :: "json \<Rightarrow> int result" where
  "int_of_json (JInt i) = Inr i"
| "int_of_json (JBool b) = Inr (if b then 1 else 0)"
| "int_of_json (JFloat (PFin r)) = Inr (if r < 0 then - \<lfloor>- r\<rfloor> else \<lfloor>r\<rfloor>)"
| "int_of_json (JFloat PNaN) = Inl (ValueError ''cannot convert float NaN to integer'')"
| "int_of_json (JFloat _) = Inl (OtherError ''OverflowError'' ''cannot convert float infinity to integer'')"
| "int_of_json (JStr s) =
     (case int_of_string s of
        Some i \<Rightarrow> Inr i
      | None \<Rightarrow> Inl (ValueError (''invalid literal for int() with base 10: '' @ repr_str s)))"
| "int_of_json JNull = Inl (int_argument_error ''NoneType'')"
| "int_of_json (JList _) = Inl (int_argument_error ''list'')"
| "int_of_json (JDict _) = Inl (int_argument_error ''dict'')"

datatype policy_file = Unreadable string | Invalid_json string | Parsed json

record policy_files =
  pf_read :: "string \<Rightarrow> policy_file"
  pf_stem :: "string \<Rightarrow> string"

definition exn_text :: "exn \<Rightarrow> string" where
  "exn_text e = (case e of ValueError m \<Rightarrow> m | TypeError m \<Rightarrow> m | OtherError _ m \<Rightarrow> m | _ \<Rightarrow> [])"

definition policy_of_dict :: "string \<Rightarrow> string \<Rightarrow> jdict \<Rightarrow> tenant_policy result" where
  "policy_of_dict path stem data =
     (case bind_result (int_of_json (dict_get_or data ''max_allowed_risk_tier'' (JInt 3))) (\<lambda>tier.
             bind_result (int_of_json (dict_get_or data ''max_actions_per_minute'' (JInt 120))) (\<lambda>rate.
               Inr \<lparr>tn_policy_id = dict_get_or data ''policy_id'' (JStr stem),
                    tn_max_allowed_risk_tier = tier,
                    tn_allow_non_idempotent_remote_writes =
                      py_bool (dict_get_or data ''allow_non_idempotent_remote_writes'' (JBool False)),
                    tn_max_actions_per_minute = rate\<rparr>)) of
        Inr policy \<Rightarrow> Inr policy
      | Inl (OtherError n m) \<Rightarrow> Inl (OtherError n m)
      | Inl e \<Rightarrow> Inl (PolicyResolutionError (''Policy file '' @ path @ '' contains invalid field values: '' @ exn_text e)))"

definition resolve_file :: "policy_files \<Rightarrow> string \<Rightarrow> tenant_policy result" where
  "resolve_file fs policy_ref =
     (let path = removeprefix policy_ref ''file://''
      in case pf_read fs path of
           Unreadable msg \<Rightarrow> Inl (PolicyResolutionError (''Cannot read policy file '' @ path @ '': '' @ msg))
         | Invalid_json msg \<Rightarrow> Inl (PolicyResolutionError (''Policy file '' @ path @ '' is not valid JSON: '' @ msg))
         | Parsed (JDict data) \<Rightarrow> policy_of_dict path (pf_stem fs path) data
         | Parsed _ \<Rightarrow> Inl (OtherError ''AttributeError'' ''object has no attribute get''))"

definition resolve_policy :: "policy_files \<Rightarrow> string \<Rightarrow> tenant_policy result" where
  "resolve_policy fs policy_ref =
     (if policy_ref = ''policy:default'' then Inr DEFAULT_POLICY
      else if startswith policy_ref ''file://'' then resolve_file fs policy_ref
      else Inl (PolicyResolutionError (''Unknown policy_ref format: '' @ repr_str policy_ref @
        ''. Supported formats: '' @ repr_str ''policy:default'' @ '', '' @
        repr_str ''file:///absolute/path/to/policy.json'' @ ''.'')))"

section \<open>The rules\<close>

text \<open>
  What \<^verbatim>\<open>getattr\<close> finds on the action object beyond the fields of \<^verbatim>\<open>Action\<close>.  An \<^verbatim>\<open>Action\<close> has
  none of these attributes.
\<close>

record action_attributes =
  aa_tool_name :: "string option"
  aa_mcp_server :: "string option"
  aa_mcp_capability :: "string option"
  aa_peer_run_id :: "string option"
  aa_idempotency_level :: "string option"
  aa_risk_tier :: "int option"

definition no_attributes :: action_attributes where
  "no_attributes =
     \<lparr>aa_tool_name = None, aa_mcp_server = None, aa_mcp_capability = None, aa_peer_run_id = None,
      aa_idempotency_level = None, aa_risk_tier = None\<rparr>"

definition check_permission_mode :: "action \<Rightarrow> capability_snapshot \<Rightarrow> admission_result option" where
  "check_permission_mode a snapshot =
     (if sn_permission_mode snapshot \<in> {''readonly'', ''read_only''} \<and> act_action_type a \<notin> {''noop'', ''read''}
      then Some (AdmissionResult False Permission_denied) else None)"

definition check_binding_existence ::
  "action \<Rightarrow> action_attributes \<Rightarrow> capability_snapshot \<Rightarrow> admission_result option" where
  "check_binding_existence a x snapshot =
     (let denied = Some (AdmissionResult False Policy_denied)
      in if act_action_type a = ''tool_call'' then
           (case aa_tool_name x of
              Some t \<Rightarrow> if t \<notin> set (sn_tool_bindings snapshot) then denied else None
            | None \<Rightarrow> None)
         else if act_action_type a = ''mcp_call'' then
           (case (aa_mcp_server x, aa_mcp_capability x) of
              (Some server, Some capability) \<Rightarrow>
                if server @ ''/'' @ capability \<notin> set (sn_mcp_bindings snapshot) then denied else None
            | _ \<Rightarrow> None)
         else if act_action_type a = ''peer_signal'' then
           (if sn_peer_run_bindings snapshot \<noteq> [] then
              (case aa_peer_run_id x of
                 Some p \<Rightarrow> if p \<notin> set (sn_peer_run_bindings snapshot) then denied else None
               | None \<Rightarrow> None)
            else None)
         else None)"

definition check_idempotency :: "action \<Rightarrow> action_attributes \<Rightarrow> tenant_policy \<Rightarrow> admission_result option" where
  "check_idempotency a x policy =
     (if \<not> tn_allow_non_idempotent_remote_writes policy
         \<and> aa_idempotency_level x = Some ''non_idempotent''
         \<and> effect_class_str (act_effect_class a) \<in> {''remote_write'', ''irreversible_write''}
      then Some (AdmissionResult False Policy_denied) else None)"

definition check_risk_tier :: "action_attributes \<Rightarrow> tenant_policy \<Rightarrow> admission_result option" where
  "check_risk_tier x policy =
     (let risk_tier = (case aa_risk_tier x of None \<Rightarrow> 0 | Some t \<Rightarrow> t)
      in if risk_tier > tn_max_allowed_risk_tier policy then Some (AdmissionResult False Policy_denied) else None)"

text \<open>The windows: admission times per run.  A clock reading is a finite float.\<close>

type_synonym rate_windows = "(string, rat list) dict"

definition window_start :: "rat \<Rightarrow> pyfloat" where
  "window_start now = to_double (now - 60)"

definition before :: "rat \<Rightarrow> pyfloat \<Rightarrow> bool" where
  "before t f = (case f of PFin r \<Rightarrow> t < r | PInf \<Rightarrow> True | _ \<Rightarrow> False)"

definition check_rate_limit ::
  "rate_windows \<Rightarrow> rat \<Rightarrow> action \<Rightarrow> tenant_policy \<Rightarrow> rate_windows \<times> admission_result option" where
  "check_rate_limit ws now a policy =
     (let run_id = act_run_id a;
          window = dropWhile (\<lambda>t. before t (window_start now)) (dict_get_or ws run_id [])
      in if int (length window) \<ge> tn_max_actions_per_minute policy
         then (dict_set run_id window ws, Some (AdmissionResult False Quota_exceeded))
         else (dict_set run_id (window @ [now]) ws, None))"

definition snapshot_admit ::
  "policy_files \<Rightarrow> rate_windows \<Rightarrow> rat \<Rightarrow> action \<Rightarrow> action_attributes \<Rightarrow> capability_snapshot
     \<Rightarrow> rate_windows \<times> admission_result result" where
  "snapshot_admit fs ws now a x snapshot =
     (let policy_ref = (if sn_tenant_policy_ref snapshot = [] then ''policy:default'' else sn_tenant_policy_ref snapshot)
      in case resolve_policy fs policy_ref of
           Inl e \<Rightarrow> (ws, Inl e)
         | Inr policy \<Rightarrow>
             (case check_permission_mode a snapshot of
                Some r \<Rightarrow> (ws, Inr r)
              | None \<Rightarrow>
                  (case check_binding_existence a x snapshot of
                     Some r \<Rightarrow> (ws, Inr r)
                   | None \<Rightarrow>
                       (case check_idempotency a x policy of
                          Some r \<Rightarrow> (ws, Inr r)
                        | None \<Rightarrow>
                            (case check_risk_tier x policy of
                               Some r \<Rightarrow> (ws, Inr r)
                             | None \<Rightarrow>
                                 (case check_rate_limit ws now a policy of
                                    (ws', Some r) \<Rightarrow> (ws', Inr r)
                                  | (ws', None) \<Rightarrow> (ws', Inr (AdmissionResult True Reason_ok))))))))"

section \<open>Properties\<close>

text \<open>
  On a plain \<^verbatim>\<open>Action\<close> the rules on bindings, idempotency and risk never deny: only the permission
  mode and the rate limit decide.
\<close>

lemma plain_action_rules:
  assumes "0 \<le> tn_max_allowed_risk_tier policy"
  shows "check_binding_existence a no_attributes snapshot = None"
    "check_idempotency a no_attributes policy = None" "check_risk_tier no_attributes policy = None"
  using assms by (simp_all add: check_binding_existence_def check_idempotency_def check_risk_tier_def no_attributes_def Let_def)

text \<open>Requests in sequence: the windows, and the admissions granted, as run and time.\<close>

record admission_request =
  aq_now :: rat
  aq_action :: action
  aq_attributes :: action_attributes
  aq_snapshot :: capability_snapshot

fun admit_all ::
  "policy_files \<Rightarrow> admission_request list \<Rightarrow> rate_windows \<times> (string \<times> rat) list \<Rightarrow> rate_windows \<times> (string \<times> rat) list" where
  "admit_all fs [] st = st"
| "admit_all fs (q # qs) (ws, grants) =
     (case snapshot_admit fs ws (aq_now q) (aq_action q) (aq_attributes q) (aq_snapshot q) of
        (ws', Inr r) \<Rightarrow> admit_all fs qs (ws', if ad_admitted r then grants @ [(act_run_id (aq_action q), aq_now q)] else grants)
      | (ws', Inl e) \<Rightarrow> admit_all fs qs (ws', grants))"

definition granted :: "string \<Rightarrow> (string \<times> rat) list \<Rightarrow> rat list" where
  "granted run_id grants = map snd (filter (\<lambda>(r, t). r = run_id) grants)"

definition recent :: "rat \<Rightarrow> rat list \<Rightarrow> rat list" where
  "recent now ts = filter (\<lambda>t. \<not> before t (window_start now)) ts"

text \<open>The window starts of two readings do not go back.\<close>

definition window_le :: "rat \<Rightarrow> rat \<Rightarrow> bool" where
  "window_le now now' =
     (case (window_start now, window_start now') of (PFin x, PFin y) \<Rightarrow> x \<le> y | _ \<Rightarrow> False)"

lemma granted_append [simp]:
  "granted run_id (grants @ [(r, t)]) = (if r = run_id then granted run_id grants @ [t] else granted run_id grants)"
  "granted run_id [] = []"
  by (simp_all add: granted_def)

lemma recent_append [simp]: "recent now (xs @ ys) = recent now xs @ recent now ys" "recent now [] = []"
  by (simp_all add: recent_def)

lemma recent_later: "window_le now now' \<Longrightarrow> recent now' (recent now ts) = recent now' ts"
  by (induction ts) (auto simp: recent_def window_le_def before_def split: pyfloat.splits)

lemma recent_evicted: "recent now (dropWhile (\<lambda>t. before t (window_start now)) ts) = recent now ts"
  by (induction ts) (auto simp: recent_def)

definition rate_ok :: "int \<Rightarrow> rat \<Rightarrow> rate_windows \<Rightarrow> (string \<times> rat) list \<Rightarrow> bool" where
  "rate_ok cap now ws grants \<longleftrightarrow>
     (\<forall>run_id. recent now (granted run_id grants) = recent now (dict_get_or ws run_id [])
        \<and> int (length (dict_get_or ws run_id [])) \<le> max 0 cap)"

lemma rate_ok_later:
  assumes "rate_ok cap now ws grants" "window_le now now'"
  shows "rate_ok cap now' ws grants"
  unfolding rate_ok_def
proof (intro allI conjI)
  fix run_id
  have "recent now (granted run_id grants) = recent now (dict_get_or ws run_id [])"
    using assms(1) by (simp add: rate_ok_def)
  then show "recent now' (granted run_id grants) = recent now' (dict_get_or ws run_id [])"
    using recent_later [OF assms(2)] by metis
  show "int (length (dict_get_or ws run_id [])) \<le> max 0 cap"
    using assms(1) by (simp add: rate_ok_def)
qed

lemma rate_limit_step:
  assumes "rate_ok (tn_max_actions_per_minute policy) now ws grants" "check_rate_limit ws now a policy = (ws', r)"
  shows "rate_ok (tn_max_actions_per_minute policy) now ws' (if r = None then grants @ [(act_run_id a, now)] else grants)"
proof -
  let ?w = "dropWhile (\<lambda>t. before t (window_start now)) (dict_get_or ws (act_run_id a) [])"
  have len: "int (length ?w) \<le> max 0 (tn_max_actions_per_minute policy)"
    using assms(1) length_dropWhile_le [of "\<lambda>t. before t (window_start now)" "dict_get_or ws (act_run_id a) []"]
    unfolding rate_ok_def by (meson le_trans of_nat_le_iff order.trans)
  have rec: "recent now (granted (act_run_id a) grants) = recent now ?w"
    using assms(1) by (simp add: rate_ok_def recent_evicted)
  have get: "dict_get_or (dict_set k v ws) k' d = (if k' = k then v else dict_get_or ws k' d)" for k v k' d
    by (simp add: dict_get_or_def)
  show ?thesis
    using assms len rec by (auto simp: check_rate_limit_def Let_def rate_ok_def get split: if_splits)
qed

lemma admitted_simps [simp]: "ad_admitted (AdmissionResult b c) = b"
  by (simp add: AdmissionResult_def)

lemma rules_deny:
  "check_permission_mode a snap = Some r \<Longrightarrow> \<not> ad_admitted r"
  "check_binding_existence a x snap = Some r \<Longrightarrow> \<not> ad_admitted r"
  "check_idempotency a x policy = Some r \<Longrightarrow> \<not> ad_admitted r"
  "check_risk_tier x policy = Some r \<Longrightarrow> \<not> ad_admitted r"
proof -
  have if_Some: "(if b then Some y else None) = Some r \<Longrightarrow> r = y" for b and y r :: admission_result
    by (simp split: if_splits)
  show "check_permission_mode a snap = Some r \<Longrightarrow> \<not> ad_admitted r"
    unfolding check_permission_mode_def by (drule if_Some) simp
  show "check_idempotency a x policy = Some r \<Longrightarrow> \<not> ad_admitted r"
    unfolding check_idempotency_def by (drule if_Some) simp
  show "check_risk_tier x policy = Some r \<Longrightarrow> \<not> ad_admitted r"
    unfolding check_risk_tier_def Let_def by (drule if_Some) simp
  have "check_binding_existence a x snap = None
      \<or> check_binding_existence a x snap = Some (AdmissionResult False Policy_denied)"
    unfolding check_binding_existence_def Let_def by (simp split: option.split)
  then show "check_binding_existence a x snap = Some r \<Longrightarrow> \<not> ad_admitted r" by auto
qed

lemma snapshot_admit_step:
  assumes ok: "rate_ok (tn_max_actions_per_minute policy) now ws grants"
    and pol: "resolve_policy fs (if sn_tenant_policy_ref snap = [] then ''policy:default'' else sn_tenant_policy_ref snap) = Inr policy"
    and run: "snapshot_admit fs ws now a x snap = (ws', res)"
  shows "\<exists>r. res = Inr r
    \<and> rate_ok (tn_max_actions_per_minute policy) now ws' (if ad_admitted r then grants @ [(act_run_id a, now)] else grants)"
proof -
  note deny = rules_deny
  obtain ws1 r1 where rl: "check_rate_limit ws now a policy = (ws1, r1)" by fastforce
  have deny1: "r1 = Some r \<Longrightarrow> \<not> ad_admitted r" for r
    using rl by (auto simp: check_rate_limit_def Let_def split: if_splits)
  note step = rate_limit_step [OF ok rl]
  have "ws' = ws \<and> (\<exists>r. res = Inr r \<and> \<not> ad_admitted r)
      \<or> ws' = ws1 \<and> res = Inr (case r1 of None \<Rightarrow> AdmissionResult True Reason_ok | Some r \<Rightarrow> r)"
    using run pol rl deny unfolding snapshot_admit_def Let_def
    by (auto split: option.splits)
  then show ?thesis
    using ok step deny1 by (elim disjE conjE) (simp_all split: option.splits, blast)
qed

lemma admit_all_rate_ok:
  assumes "rate_ok (tn_max_actions_per_minute policy) (aq_now q) ws grants"
    "list_all (\<lambda>q. resolve_policy fs (if sn_tenant_policy_ref (aq_snapshot q) = [] then ''policy:default''
        else sn_tenant_policy_ref (aq_snapshot q)) = Inr policy) (q # qs)"
    "sorted_wrt window_le (map aq_now (q # qs))" "admit_all fs (q # qs) (ws, grants) = (ws', grants')"
  shows "rate_ok (tn_max_actions_per_minute policy) (aq_now (last (q # qs))) ws' grants'"
  using assms
proof (induction qs arbitrary: q ws grants)
  case Nil
  obtain ws1 res where r: "snapshot_admit fs ws (aq_now q) (aq_action q) (aq_attributes q) (aq_snapshot q) = (ws1, res)"
    by fastforce
  from snapshot_admit_step [OF Nil.prems(1) _ r] Nil.prems(2,4) r show ?case by auto
next
  case (Cons q2 qs)
  obtain ws1 res where r: "snapshot_admit fs ws (aq_now q) (aq_action q) (aq_attributes q) (aq_snapshot q) = (ws1, res)"
    by fastforce
  then obtain x where x: "res = Inr x" "rate_ok (tn_max_actions_per_minute policy) (aq_now q) ws1
      (if ad_admitted x then grants @ [(act_run_id (aq_action q), aq_now q)] else grants)"
    using snapshot_admit_step [OF Cons.prems(1) _ r] Cons.prems(2) by auto
  have "window_le (aq_now q) (aq_now q2)" using Cons.prems(3) by simp
  note later = rate_ok_later [OF x(2) this]
  have "admit_all fs (q2 # qs) (ws1, if ad_admitted x then grants @ [(act_run_id (aq_action q), aq_now q)] else grants)
      = (ws', grants')"
    using Cons.prems(4) r x(1) by simp
  from Cons.IH [OF later _ _ this] Cons.prems(2,3) show ?case by simp
qed


definition sample_snapshot :: "string \<Rightarrow> capability_snapshot" where
  "sample_snapshot mode =
     \<lparr>sn_snapshot_ref = ''s'', sn_snapshot_hash = ''h'', sn_run_id = ''r1'', sn_based_on_offset = 0,
      sn_tenant_policy_ref = ''policy:default'', sn_permission_mode = mode, sn_tool_bindings = [],
      sn_mcp_bindings = [], sn_skill_bindings = [], sn_feature_flags = [], sn_context_binding_ref = None,
      sn_context_content_hash = None, sn_budget_ref = None, sn_quota_ref = None, sn_session_mode = None,
      sn_approval_state = None, sn_declarative_bundle_digest = None, sn_created_at = ''t'',
      sn_snapshot_schema_version = ''1'', sn_peer_run_bindings = []\<rparr>"

definition sample_request :: admission_request where
  "sample_request =
     \<lparr>aq_now = 60, aq_action = sample_action ''a1'' READ_ONLY, aq_attributes = no_attributes,
      aq_snapshot = sample_snapshot ''strict''\<rparr>"

definition no_files :: policy_files where
  "no_files = \<lparr>pf_read = (\<lambda>_. Unreadable ''no such file''), pf_stem = (\<lambda>p. p)\<rparr>"


text \<open>An unbound tool call: admitted when it is an \<^verbatim>\<open>Action\<close>, denied when the object names the tool.\<close>

lemma binding_rule_needs_tool_name:
  "is_ok (snd (snapshot_admit no_files [] 60 ((sample_action ''a1'' READ_ONLY)\<lparr>act_action_type := ''tool_call''\<rparr>)
     no_attributes (sample_snapshot ''strict'')))
   \<and> check_binding_existence ((sample_action ''a1'' READ_ONLY)\<lparr>act_action_type := ''tool_call''\<rparr>)
     no_attributes (sample_snapshot ''strict'') = None
   \<and> check_binding_existence ((sample_action ''a1'' READ_ONLY)\<lparr>act_action_type := ''tool_call''\<rparr>)
     (no_attributes\<lparr>aa_tool_name := Some ''rm''\<rparr>) (sample_snapshot ''strict'') = Some (AdmissionResult False Policy_denied)"
  by code_simp

end
