(* ===== verification/Outbox.thy ===== *)
theory Outbox
  imports Event_Log SQLite_Dedupe
begin

text \<open>
  \<^verbatim>\<open>persistence/consistency.py\<close> and \<^verbatim>\<open>persistence/dispatch_outbox_reconciler.py\<close>: the check of a
  run's ledger keys against its events, the repair of the keys without an event, and the
  periodic sweep over the runs of the log.  The ledger is any \<^verbatim>\<open>DedupeStorePort\<close>, with the
  enumeration of its keys beside it, because the code reads the keys from the private state
  of the store; the event log is the in-memory one, read through the migrating view when a
  migrator is configured.  Log messages and the observability hook are left out.
\<close>

section \<open>Consistency of a run's keys with its events\<close>

datatype violation_kind =
    Orphaned_dedupe_key | Unknown_effect_no_log_evidence | Event_log_unavailable

record consistency_violation =
  vi_kind :: violation_kind
  vi_idempotency_key :: "string option"
  vi_dedupe_state :: "dedupe_state option"
  vi_event_count :: "nat option"
  vi_detail :: string

record consistency_report =
  cr_run_id :: string
  cr_violations :: "consistency_violation list"
  cr_events_checked :: nat
  cr_dedupe_keys_checked :: nat

definition report_is_consistent :: "consistency_report \<Rightarrow> bool" where
  "report_is_consistent report = (cr_violations report = [])"

text \<open>The two tables \<^verbatim>\<open>_detect_violations\<close> builds from the events; a key is truthy, so not empty.\<close>

definition event_idempotency_keys :: "runtime_event list \<Rightarrow> string set" where
  "event_idempotency_keys events =
     {k \<in> set (List.map_filter ev_idempotency_key events). k \<noteq> []}"

definition event_types_by_key :: "runtime_event list \<Rightarrow> string \<Rightarrow> string list" where
  "event_types_by_key events k =
     remdups (map ev_event_type
       (filter (\<lambda>e. ev_idempotency_key e = Some k \<and> k \<noteq> [] \<and> ev_event_type e \<noteq> []) events))"

definition dispatch_evidence_types :: "string list" where
  "dispatch_evidence_types = [''turn.dispatched'', ''turn.effect_unknown'', ''turn.effect_recorded'']"

definition orphaned_violation :: "string \<Rightarrow> string \<Rightarrow> dedupe_state \<Rightarrow> consistency_violation" where
  "orphaned_violation run_id key st =
     \<lparr>vi_kind = Orphaned_dedupe_key, vi_idempotency_key = Some key, vi_dedupe_state = Some st,
      vi_event_count = Some 0,
      vi_detail = ''DedupeStore key '' @ repr_str key @ '' (state='' @ repr_str (dedupe_state_str st) @
        '') has no matching event in the EventLog for run '' @ repr_str run_id @
        ''. Possible crash between reserve() and event append.''\<rparr>"

definition unknown_effect_violation :: "string \<Rightarrow> string \<Rightarrow> nat \<Rightarrow> consistency_violation" where
  "unknown_effect_violation run_id key n =
     \<lparr>vi_kind = Unknown_effect_no_log_evidence, vi_idempotency_key = Some key,
      vi_dedupe_state = Some Unknown_effect, vi_event_count = Some n,
      vi_detail = ''DedupeStore key '' @ repr_str key @ '' is in state '' @ repr_str ''unknown_effect'' @
        '' but no dispatch/effect event was found in the EventLog for run '' @ repr_str run_id @
        ''. Human review recommended.''\<rparr>"

definition key_violations ::
  "runtime_event list \<Rightarrow> string \<Rightarrow> string \<Rightarrow> dedupe_state \<Rightarrow> consistency_violation list" where
  "key_violations events run_id key st =
     (if key \<notin> event_idempotency_keys events then [orphaned_violation run_id key st]
      else if st = Unknown_effect \<and>
              list_all (\<lambda>t. t \<notin> set dispatch_evidence_types) (event_types_by_key events key)
      then [unknown_effect_violation run_id key (length (event_types_by_key events key))]
      else [])"

fun detect_keys ::
  "'s dedupe_port \<Rightarrow> runtime_event list \<Rightarrow> string \<Rightarrow> string list \<Rightarrow> 's
     \<Rightarrow> 's \<times> consistency_violation list result" where
  "detect_keys port events run_id [] s = (s, Inr [])"
| "detect_keys port events run_id (key # keys) s =
     (case port_get port s key of
        (s1, Inl e) \<Rightarrow> (s1, Inl e)
      | (s1, Inr rec) \<Rightarrow>
          (case detect_keys port events run_id keys s1 of
             (s2, Inl e) \<Rightarrow> (s2, Inl e)
           | (s2, Inr vs) \<Rightarrow>
               (s2, Inr ((case rec of None \<Rightarrow> [] | Some r \<Rightarrow> key_violations events run_id key (dr_state r)) @ vs))))"

definition detect_violations ::
  "'s dedupe_port \<Rightarrow> ('s \<Rightarrow> string \<Rightarrow> 's \<times> string list) \<Rightarrow> runtime_event list \<Rightarrow> string \<Rightarrow> 's
     \<Rightarrow> 's \<times> consistency_report result" where
  "detect_violations port collect events run_id s =
     (case collect s run_id of (s1, keys) \<Rightarrow>
      case detect_keys port events run_id keys s1 of
        (s2, Inl e) \<Rightarrow> (s2, Inl e)
      | (s2, Inr vs) \<Rightarrow>
          (s2, Inr \<lparr>cr_run_id = run_id, cr_violations = vs,
                    cr_events_checked = length events, cr_dedupe_keys_checked = length keys\<rparr>))"

text \<open>
  \<^verbatim>\<open>_collect_dedupe_keys\<close> on the two stores: the in-memory one, whose records are in
  \<^verbatim>\<open>_records_by_key\<close>, and the SQLite one, where the query on the table of the colocated bundle
  always fails and the one on the store's own table answers, unless the database raises; then
  there is no further attribute to read the keys from.
\<close>

definition mem_collect_dedupe_keys :: "dedupe_mem \<Rightarrow> string \<Rightarrow> dedupe_mem \<times> string list" where
  "mem_collect_dedupe_keys s run_id = (s, filter (\<lambda>k. startswith k (run_id @ '':'')) (map fst s))"

definition sq_collect_dedupe_keys :: "sqlite_db \<Rightarrow> string \<Rightarrow> sqlite_db \<times> string list" where
  "sq_collect_dedupe_keys s run_id =
     (case sql_exec s (\<lambda>s. (s, Inl (OperationalError ''no such table: colocated_dedupe_store'') :: string list result)) of
        (s1, Inr keys) \<Rightarrow> (s1, keys)
      | (s1, Inl _) \<Rightarrow>
          (case sql_exec s1 (\<lambda>s. (s, Inr (filter (sql_like (like_escape run_id @ '':%''))
                  (map dr_dispatch_idempotency_key (db_rows s))) :: string list result)) of
             (s2, Inr keys) \<Rightarrow> (s2, keys)
           | (s2, Inl _) \<Rightarrow> (s2, [])))"

text \<open>\<^verbatim>\<open>str(exc)\<close>: the message, which \<^verbatim>\<open>KeyError\<close> renders by its \<^verbatim>\<open>repr\<close>.\<close>

fun exn_message :: "exn \<Rightarrow> string" where
  "exn_message (ValueError m) = m"
| "exn_message (TypeError m) = m"
| "exn_message (KeyError m) = repr_str m"
| "exn_message (RuntimeError m) = m"
| "exn_message (DedupeStoreStateError m) = m"
| "exn_message (CapabilitySnapshotBuildError m) = m"
| "exn_message (PolicyResolutionError m) = m"
| "exn_message (SchemaMigrationError m) = m"
| "exn_message (CompensationExhaustedError m) = m"
| "exn_message (OperationalError m) = m"
| "exn_message (OtherError _ m) = m"

definition unavailable_report :: "string \<Rightarrow> string \<Rightarrow> consistency_report" where
  "unavailable_report run_id detail =
     \<lparr>cr_run_id = run_id,
      cr_violations =
        [\<lparr>vi_kind = Event_log_unavailable, vi_idempotency_key = None, vi_dedupe_state = None,
          vi_event_count = None, vi_detail = detail\<rparr>],
      cr_events_checked = 0, cr_dedupe_keys_checked = 0\<rparr>"

definition averify_event_dedupe_consistency ::
  "'s dedupe_port \<Rightarrow> ('s \<Rightarrow> string \<Rightarrow> 's \<times> string list) \<Rightarrow> runtime_event list result \<Rightarrow> string \<Rightarrow> 's
     \<Rightarrow> 's \<times> consistency_report result" where
  "averify_event_dedupe_consistency port collect loaded run_id s =
     (case loaded of
        Inl e \<Rightarrow> (s, Inr (unavailable_report run_id
          (''event_log.load('' @ repr_str run_id @ '') raised: '' @ exn_message e)))
      | Inr events \<Rightarrow> detect_violations port collect events run_id s)"

text \<open>
  \<^verbatim>\<open>verify_event_dedupe_consistency\<close>, called where no event loop runs.  The first argument is
  what \<^verbatim>\<open>list_events()\<close> returns when the log has that method; without it, and without an
  \<^verbatim>\<open>_events\<close> attribute, which the logs of the kernel do not have, the events come from
  \<^verbatim>\<open>asyncio.run(load(run_id))\<close>.
\<close>

definition verify_event_dedupe_consistency ::
  "'s dedupe_port \<Rightarrow> ('s \<Rightarrow> string \<Rightarrow> 's \<times> string list) \<Rightarrow> runtime_event list result option
     \<Rightarrow> runtime_event list result \<Rightarrow> string \<Rightarrow> 's \<Rightarrow> 's \<times> consistency_report result" where
  "verify_event_dedupe_consistency port collect list_events loaded run_id s =
     (let events = (case list_events of
          Some listed \<Rightarrow> bind_result listed (\<lambda>es. Inr (filter (\<lambda>e. ev_run_id e = run_id) es))
        | None \<Rightarrow> loaded)
      in case events of
        Inl e \<Rightarrow> (s, Inr (unavailable_report run_id
          (''event_log load failed for run '' @ repr_str run_id @ '': '' @ exn_message e)))
      | Inr events \<Rightarrow> detect_violations port collect events run_id s)"

section \<open>Repair\<close>

datatype reconciliation_step = Marked_unknown_effect | Logged_for_review | Skipped

record reconciliation_action =
  ra_idempotency_key :: string
  ra_violation_kind :: violation_kind
  ra_action_taken :: reconciliation_step
  ra_detail :: string

record reconciliation_result =
  rr_run_id :: string
  rr_actions :: "reconciliation_action list"
  rr_violations_found :: nat
  rr_violations_repaired :: nat

definition result_is_clean :: "reconciliation_result \<Rightarrow> bool" where
  "result_is_clean r = (rr_violations_found r = 0)"

definition TERMINAL_STATES :: "dedupe_state list" where
  "TERMINAL_STATES = [Acknowledged, Unknown_effect]"

definition REPAIRABLE_STATES :: "dedupe_state list" where
  "REPAIRABLE_STATES = [Reserved, Dispatched]"

definition orphan_action :: "string \<Rightarrow> reconciliation_step \<Rightarrow> string \<Rightarrow> reconciliation_action" where
  "orphan_action key taken detail =
     \<lparr>ra_idempotency_key = key, ra_violation_kind = Orphaned_dedupe_key,
      ra_action_taken = taken, ra_detail = detail\<rparr>"

text \<open>\<^verbatim>\<open>repr\<close> of the optional state of a key.\<close>

definition repr_state :: "dedupe_state option \<Rightarrow> string" where
  "repr_state st = (case st of None \<Rightarrow> ''None'' | Some st \<Rightarrow> repr_str (dedupe_state_str st))"

text \<open>The two calls of the \<^verbatim>\<open>try\<close> block that advance an orphaned key.\<close>

definition advance_to_unknown ::
  "'s dedupe_port \<Rightarrow> string \<Rightarrow> dedupe_state option \<Rightarrow> 's \<Rightarrow> 's \<times> unit result" where
  "advance_to_unknown port key current s =
     (if current = Some Reserved then
        (case port_mark_dispatched port s key None of
           (s1, Inl e) \<Rightarrow> (s1, Inl e)
         | (s1, Inr _) \<Rightarrow> port_mark_unknown_effect port s1 key)
      else port_mark_unknown_effect port s key)"

definition repair_orphaned_key ::
  "'s dedupe_port \<Rightarrow> string \<Rightarrow> consistency_violation \<Rightarrow> 's \<Rightarrow> 's \<times> reconciliation_action result" where
  "repair_orphaned_key port key violation s =
     (case port_get port s key of
        (s1, Inl e) \<Rightarrow> (s1, Inl e)
      | (s1, Inr rec) \<Rightarrow>
          let current = (case rec of Some r \<Rightarrow> Some (dr_state r) | None \<Rightarrow> vi_dedupe_state violation) in
          if current \<in> Some ` set TERMINAL_STATES then
            (s1, Inr (orphan_action key Skipped (''Key '' @ repr_str key @
               '' is already in terminal state '' @ repr_state current @ ''; no transition required.'')))
          else if current \<notin> Some ` set REPAIRABLE_STATES then
            (s1, Inr (orphan_action key Skipped (''Key '' @ repr_str key @ '' has unrecognised state '' @
               repr_state current @ ''; cannot determine safe repair action.'')))
          else
            case advance_to_unknown port key current s1 of
              (s2, Inl (DedupeStoreStateError m)) \<Rightarrow>
                (s2, Inr (orphan_action key Skipped (''DedupeStoreStateError during repair: '' @ m)))
            | (s2, Inl e) \<Rightarrow> (s2, Inl e)
            | (s2, Inr _) \<Rightarrow>
                (s2, Inr (orphan_action key Marked_unknown_effect (''Key '' @ repr_str key @
                   '' was in state '' @ repr_state current @
                   '' with no event log evidence; transitioned to '' @ repr_str ''unknown_effect'' @
                   '' for recovery surface.''))))"

definition repair_unknown_effect_no_evidence :: "string \<Rightarrow> string \<Rightarrow> reconciliation_action" where
  "repair_unknown_effect_no_evidence run_id key =
     \<lparr>ra_idempotency_key = key, ra_violation_kind = Unknown_effect_no_log_evidence,
      ra_action_taken = Logged_for_review,
      ra_detail = ''Key '' @ repr_str key @ '' is '' @ repr_str ''unknown_effect'' @
        '' with no event log evidence for run '' @ repr_str run_id @
        ''. Logged at WARNING for human review.''\<rparr>"

definition repair_violation ::
  "'s dedupe_port \<Rightarrow> string \<Rightarrow> string \<Rightarrow> consistency_violation \<Rightarrow> 's
     \<Rightarrow> 's \<times> reconciliation_action result" where
  "repair_violation port run_id key violation s =
     (case vi_kind violation of
        Orphaned_dedupe_key \<Rightarrow> repair_orphaned_key port key violation s
      | Unknown_effect_no_log_evidence \<Rightarrow> (s, Inr (repair_unknown_effect_no_evidence run_id key))
      | Event_log_unavailable \<Rightarrow>
          (s, Inr \<lparr>ra_idempotency_key = key, ra_violation_kind = Event_log_unavailable,
                   ra_action_taken = Skipped,
                   ra_detail = ''Unknown violation kind '' @ repr_str ''event_log_unavailable'' @
                     ''; skipped conservatively.''\<rparr>))"

fun repair_all ::
  "'s dedupe_port \<Rightarrow> string \<Rightarrow> consistency_violation list \<Rightarrow> 's
     \<Rightarrow> 's \<times> reconciliation_action list result" where
  "repair_all port run_id [] s = (s, Inr [])"
| "repair_all port run_id (v # vs) s =
     (case repair_violation port run_id (case vi_idempotency_key v of None \<Rightarrow> [] | Some k \<Rightarrow> k) v s of
        (s1, Inl e) \<Rightarrow> (s1, Inl e)
      | (s1, Inr a) \<Rightarrow>
          (case repair_all port run_id vs s1 of
             (s2, Inl e) \<Rightarrow> (s2, Inl e)
           | (s2, Inr as) \<Rightarrow> (s2, Inr (a # as))))"

definition apply_repairs ::
  "'s dedupe_port \<Rightarrow> string \<Rightarrow> consistency_report \<Rightarrow> 's \<Rightarrow> 's \<times> reconciliation_result result" where
  "apply_repairs port run_id report s =
     (case repair_all port run_id (cr_violations report) s of
        (s1, Inl e) \<Rightarrow> (s1, Inl e)
      | (s1, Inr as) \<Rightarrow>
          (s1, Inr \<lparr>rr_run_id = run_id, rr_actions = as,
                    rr_violations_found = length (cr_violations report),
                    rr_violations_repaired = length (filter (\<lambda>a. ra_action_taken a \<noteq> Skipped) as)\<rparr>))"

text \<open>
  The reconciler's configuration and its view of the in-memory event log: with a migrator and a
  target version, \<^verbatim>\<open>load\<close> migrates what it reads, and \<^verbatim>\<open>list_events\<close> exists but finds neither
  \<^verbatim>\<open>list_events\<close> nor \<^verbatim>\<open>_events\<close> on the inner log.
\<close>

record outbox_reconciler =
  or_event_schema_migrator :: "migrations option"
  or_target_event_schema_version :: "string option"

definition view_load :: "outbox_reconciler \<Rightarrow> event_log \<Rightarrow> string \<Rightarrow> runtime_event list result" where
  "view_load rc elog run_id =
     (case (or_event_schema_migrator rc, or_target_event_schema_version rc) of
        (Some migs, Some target) \<Rightarrow> migrate_batch migs (load_events elog run_id 0) target
      | _ \<Rightarrow> Inr (load_events elog run_id 0))"

definition view_list_events :: "outbox_reconciler \<Rightarrow> runtime_event list result option" where
  "view_list_events rc =
     (case (or_event_schema_migrator rc, or_target_event_schema_version rc) of
        (Some _, Some _) \<Rightarrow> Some (Inr [])
      | _ \<Rightarrow> None)"

definition reconcile ::
  "outbox_reconciler \<Rightarrow> 's dedupe_port \<Rightarrow> ('s \<Rightarrow> string \<Rightarrow> 's \<times> string list) \<Rightarrow> event_log \<Rightarrow> string \<Rightarrow> 's
     \<Rightarrow> 's \<times> reconciliation_result result" where
  "reconcile rc port collect elog run_id s =
     (case averify_event_dedupe_consistency port collect (view_load rc elog run_id) run_id s of
        (s1, Inl e) \<Rightarrow> (s1, Inl e)
      | (s1, Inr report) \<Rightarrow> apply_repairs port run_id report s1)"

definition reconcile_sync ::
  "outbox_reconciler \<Rightarrow> 's dedupe_port \<Rightarrow> ('s \<Rightarrow> string \<Rightarrow> 's \<times> string list) \<Rightarrow> event_log \<Rightarrow> string \<Rightarrow> 's
     \<Rightarrow> 's \<times> reconciliation_result result" where
  "reconcile_sync rc port collect elog run_id s =
     (case verify_event_dedupe_consistency port collect (view_list_events rc)
             (view_load rc elog run_id) run_id s of
        (s1, Inl e) \<Rightarrow> (s1, Inl e)
      | (s1, Inr report) \<Rightarrow> apply_repairs port run_id report s1)"

section \<open>The periodic sweep\<close>

record scheduled_result =
  sr_scanned_run_ids :: "string list"
  sr_violations_found :: nat
  sr_violations_repaired :: nat
  sr_finished_at_ms :: int

text \<open>
  The run ids come from the provider, when there is one, or from \<^verbatim>\<open>_events_by_run\<close> of the log.
  A provider may return \<^verbatim>\<open>None\<close>.
\<close>

definition discover_run_ids :: "string list option option \<Rightarrow> event_log \<Rightarrow> string list" where
  "discover_run_ids provided elog =
     (case provided of
        Some None \<Rightarrow> []
      | Some (Some run_ids) \<Rightarrow> run_ids
      | None \<Rightarrow> map fst (el_events_by_run elog))"

fun reconcile_runs ::
  "outbox_reconciler \<Rightarrow> 's dedupe_port \<Rightarrow> ('s \<Rightarrow> string \<Rightarrow> 's \<times> string list) \<Rightarrow> event_log \<Rightarrow> string list
     \<Rightarrow> nat \<Rightarrow> nat \<Rightarrow> 's \<Rightarrow> 's \<times> (nat \<times> nat) result" where
  "reconcile_runs rc port collect elog [] found repaired s = (s, Inr (found, repaired))"
| "reconcile_runs rc port collect elog (run_id # run_ids) found repaired s =
     (case reconcile rc port collect elog run_id s of
        (s1, Inl e) \<Rightarrow> (s1, Inl e)
      | (s1, Inr result) \<Rightarrow>
          reconcile_runs rc port collect elog run_ids (found + rr_violations_found result)
            (repaired + rr_violations_repaired result) s1)"

definition reconcile_once ::
  "outbox_reconciler \<Rightarrow> 's dedupe_port \<Rightarrow> ('s \<Rightarrow> string \<Rightarrow> 's \<times> string list) \<Rightarrow> string list option option
     \<Rightarrow> event_log \<Rightarrow> int \<Rightarrow> 's \<Rightarrow> 's \<times> scheduled_result result" where
  "reconcile_once rc port collect provided elog finished_at_ms s =
     (let run_ids = discover_run_ids provided elog in
      case reconcile_runs rc port collect elog run_ids 0 0 s of
        (s1, Inl e) \<Rightarrow> (s1, Inl e)
      | (s1, Inr (found, repaired)) \<Rightarrow>
          (s1, Inr \<lparr>sr_scanned_run_ids = run_ids, sr_violations_found = found,
                    sr_violations_repaired = repaired, sr_finished_at_ms = finished_at_ms\<rparr>))"

section \<open>What a repair may change\<close>

definition orphaned :: "runtime_event list \<Rightarrow> string \<Rightarrow> bool" where
  "orphaned events key \<longleftrightarrow> key \<notin> event_idempotency_keys events"

definition repairable :: "dedupe_record \<Rightarrow> bool" where
  "repairable r \<longleftrightarrow> dr_state r = Reserved \<or> dr_state r = Dispatched"

definition repaired_record :: "dedupe_record \<Rightarrow> dedupe_record" where
  "repaired_record r = (if repairable r then r\<lparr>dr_state := Unknown_effect\<rparr> else r)"

lemma repaired_record_idem [simp]: "repaired_record (repaired_record r) = repaired_record r"
  by (simp add: repaired_record_def repairable_def)

lemma repaired_record_final [simp]: "\<not> repairable (repaired_record r)"
  by (simp add: repaired_record_def repairable_def)

text \<open>
  From one ledger to the next, a key in \<open>K\<close> with a reserved or dispatched record may have its
  state advanced to dispatched or unknown effect; nothing else changes.
\<close>

definition advanced :: "dedupe_record \<Rightarrow> dedupe_record \<Rightarrow> bool" where
  "advanced r r' \<longleftrightarrow> r' = r \<or>
     repairable r \<and> (r' = r\<lparr>dr_state := Dispatched\<rparr> \<or> r' = r\<lparr>dr_state := Unknown_effect\<rparr>)"

definition repairs_only :: "(string \<Rightarrow> bool) \<Rightarrow> ledger \<Rightarrow> ledger \<Rightarrow> bool" where
  "repairs_only K L L' \<longleftrightarrow> (\<forall>k. L' k = L k \<or>
     K k \<and> (\<exists>r r'. L k = Some r \<and> L' k = Some r' \<and> advanced r r'))"

text \<open>A key is settled when no repair is left to be made on it.\<close>

definition settled :: "ledger \<Rightarrow> string \<Rightarrow> bool" where
  "settled L k \<longleftrightarrow> (\<forall>r. L k = Some r \<longrightarrow> \<not> repairable r)"

lemma advanced_trans: "advanced r r' \<Longrightarrow> advanced r' r'' \<Longrightarrow> advanced r r''"
  by (cases r; cases r') (auto simp: advanced_def repairable_def)

lemma repairs_only_refl [simp]: "repairs_only K L L"
  by (simp add: repairs_only_def)

lemma repairs_only_trans:
  assumes a: "repairs_only K L L'" and b: "repairs_only K L' L''"
  shows "repairs_only K L L''"
  unfolding repairs_only_def
proof
  fix k
  consider "L' k = L k" | r r' where "K k" "L k = Some r" "L' k = Some r'" "advanced r r'"
    using a unfolding repairs_only_def by blast
  then show "L'' k = L k \<or> K k \<and> (\<exists>r r'. L k = Some r \<and> L'' k = Some r' \<and> advanced r r')"
  proof cases
    case 1
    then show ?thesis using b unfolding repairs_only_def by metis
  next
    case (2 r r')
    have "L'' k = L' k \<or> (\<exists>q q'. L' k = Some q \<and> L'' k = Some q' \<and> advanced q q')"
      using b unfolding repairs_only_def by blast
    then show ?thesis using 2 advanced_trans by fastforce
  qed
qed

lemma repairs_only_mono: "(\<And>k. K k \<Longrightarrow> K' k) \<Longrightarrow> repairs_only K L L' \<Longrightarrow> repairs_only K' L L'"
  unfolding repairs_only_def by blast

lemma repairs_only_upd:
  "K k \<Longrightarrow> L k = Some r \<Longrightarrow> advanced r r' \<Longrightarrow> repairs_only K L (L(k \<mapsto> r'))"
  by (auto simp: repairs_only_def)

text \<open>
  The contract of a ledger whose keys can be enumerated: the port's laws, and an enumeration that
  changes nothing and lists only keys that belong to the run.
\<close>

locale enumerable_store_port = dedupe_store_port port invar ledger
  for port :: "'s dedupe_port" and invar :: "'s \<Rightarrow> bool" and ledger :: "'s \<Rightarrow> ledger" +
  fixes collect :: "'s \<Rightarrow> string \<Rightarrow> 's \<times> string list"
    and belongs :: "string \<Rightarrow> string \<Rightarrow> bool"
  assumes collect_law:
    "invar s \<Longrightarrow> collect s run_id = (s', keys) \<Longrightarrow>
       invar s' \<and> ledger s' = ledger s \<and> (\<forall>k\<in>set keys. belongs run_id k)"
begin

lemma detect_keys_law:
  assumes "invar s" "detect_keys port events run_id keys s = (s', res)"
  shows "invar s' \<and> ledger s' = ledger s \<and>
    (\<forall>vs. res = Inr vs \<longrightarrow> vs = concat (map (\<lambda>k. case ledger s k of None \<Rightarrow> []
       | Some r \<Rightarrow> key_violations events run_id k (dr_state r)) keys))"
  using assms
proof (induction keys arbitrary: s s' res)
  case (Cons k ks)
  obtain s1 g where g: "port_get port s k = (s1, g)" by fastforce
  note gl = get_law [OF Cons.prems(1) g]
  show ?case
  proof (cases g)
    case (Inr r)
    obtain s2 w where w: "detect_keys port events run_id ks s1 = (s2, w)" by fastforce
    have IH: "invar s2 \<and> ledger s2 = ledger s1 \<and>
      (\<forall>vs. w = Inr vs \<longrightarrow> vs = concat (map (\<lambda>k. case ledger s1 k of None \<Rightarrow> []
         | Some r \<Rightarrow> key_violations events run_id k (dr_state r)) ks))"
      using gl by (intro Cons.IH [OF _ w]) simp
    then show ?thesis using Cons.prems(2) g gl w Inr by (cases w) (auto split: option.splits)
  qed (use Cons.prems(2) g gl in auto)
qed simp

lemma mark_step:
  assumes "invar s" "port_mark port s m k = (s', res)" "K k"
    and adv: "\<And>r. ledger s k = Some r \<Longrightarrow> mark_from m (dr_state r) \<Longrightarrow> advanced r (mark_record m r)"
  shows "invar s' \<and> repairs_only K (ledger s) (ledger s')"
  using mark_law [OF assms(1,2)] repairs_only_upd [where K = K, OF assms(3) _ adv]
  by (auto split: sum.splits)

lemma advance_law:
  assumes inv: "invar s" and K: "K key" and run: "advance_to_unknown port key current s = (s', res)"
    and cur: "current = Some Reserved \<or> current = Some Dispatched"
    and state: "\<And>r. ledger s key = Some r \<Longrightarrow> current = Some (dr_state r)"
  shows "invar s' \<and> repairs_only K (ledger s) (ledger s')"
proof -
  have unknown: "invar t' \<and> repairs_only K (ledger t) (ledger t')"
    if "invar t" "port_mark_unknown_effect port t key = (t', res')"
      "\<And>r. ledger t key = Some r \<Longrightarrow> dr_state r = Dispatched" for t t' res'
    using that K by (intro mark_step [OF that(1), of MarkUnknown key t' res'])
      (auto simp: advanced_def repairable_def)
  show ?thesis
  proof (cases "current = Some Reserved")
    case True
    obtain s1 d where d: "port_mark_dispatched port s key None = (s1, d)" by fastforce
    have d': "port_mark port s (MarkDispatched None) key = (s1, d)" using d by simp
    have one: "invar s1 \<and> repairs_only K (ledger s) (ledger s1)"
      by (rule mark_step [where K = K, OF inv d' K]) (use True state in \<open>auto simp: advanced_def repairable_def\<close>)
    show ?thesis
    proof (cases d)
      case (Inl e)
      then show ?thesis using one run True d by (simp add: advance_to_unknown_def)
    next
      case (Inr u)
      then have "port_mark_unknown_effect port s1 key = (s', res)"
        using run True d by (simp add: advance_to_unknown_def)
      moreover have "dr_state r = Dispatched" if "ledger s1 key = Some r" for r
        using mark_law [OF inv d'] Inr that by auto
      ultimately show ?thesis using one unknown repairs_only_trans by blast
    qed
  next
    case False
    then show ?thesis using unknown [OF inv] run cur state by (auto simp: advance_to_unknown_def)
  qed
qed

lemma repair_orphaned_key_law:
  assumes inv: "invar s" and K: "K key" and run: "repair_orphaned_key port key v s = (s', res)"
  shows "invar s' \<and> repairs_only K (ledger s) (ledger s')"
proof -
  obtain s1 g where g: "port_get port s key = (s1, g)" by fastforce
  note gl = get_law [OF inv g]
  show ?thesis
  proof (cases g)
    case (Inl e)
    then show ?thesis using run g gl by (simp add: repair_orphaned_key_def)
  next
    case (Inr rec)
    define current where "current = (case rec of Some r \<Rightarrow> Some (dr_state r) | None \<Rightarrow> vi_dedupe_state v)"
    obtain s2 a where a: "advance_to_unknown port key current s1 = (s2, a)" by fastforce
    have state: "current = Some (dr_state r)" if "ledger s1 key = Some r" for r
      using gl Inr that by (simp add: current_def)
    have "s' = s1 \<or> s' = s2 \<and> (current = Some Reserved \<or> current = Some Dispatched)"
      using run g Inr a unfolding repair_orphaned_key_def current_def [symmetric]
      by (auto simp: Let_def TERMINAL_STATES_def REPAIRABLE_STATES_def current_def [symmetric]
        split: sum.splits exn.splits if_splits)
    then show ?thesis
    proof
      assume "s' = s2 \<and> (current = Some Reserved \<or> current = Some Dispatched)"
      then show ?thesis using advance_law [where K = K, OF _ K a _ state] gl by auto
    qed (use gl in simp)
  qed
qed

lemma repair_all_law:
  assumes "invar s" "repair_all port run_id vs s = (s', res)"
    and "\<And>v k. v \<in> set vs \<Longrightarrow> vi_kind v = Orphaned_dedupe_key \<Longrightarrow> vi_idempotency_key v = Some k \<Longrightarrow> K k"
    and "\<And>v. v \<in> set vs \<Longrightarrow> vi_kind v = Orphaned_dedupe_key \<Longrightarrow> vi_idempotency_key v \<noteq> None"
  shows "invar s' \<and> repairs_only K (ledger s) (ledger s')"
  using assms
proof (induction vs arbitrary: s s' res)
  case (Cons v vs)
  let ?k = "case vi_idempotency_key v of None \<Rightarrow> [] | Some k \<Rightarrow> k"
  obtain s1 a where a: "repair_violation port run_id ?k v s = (s1, a)" by fastforce
  have one: "invar s1 \<and> repairs_only K (ledger s) (ledger s1)"
  proof (cases "vi_kind v = Orphaned_dedupe_key")
    case True
    have "repair_orphaned_key port ?k v s = (s1, a)" using a True by (simp add: repair_violation_def)
    moreover have "K ?k" using Cons.prems(3,4) [of v] True by (auto split: option.splits)
    ultimately show ?thesis using repair_orphaned_key_law [OF Cons.prems(1)] by blast
  next
    case False
    then show ?thesis using a Cons.prems(1) by (auto simp: repair_violation_def split: violation_kind.splits)
  qed
  show ?case
  proof (cases a)
    case (Inl e)
    then show ?thesis using one Cons.prems(2) a by simp
  next
    case (Inr x)
    obtain s2 b where b: "repair_all port run_id vs s1 = (s2, b)" by fastforce
    have "invar s2 \<and> repairs_only K (ledger s1) (ledger s2)"
      using one Cons.prems(3,4) by (intro Cons.IH [OF _ b]) auto
    moreover have "s' = s2" using Cons.prems(2) a b Inr by (auto split: sum.splits)
    ultimately show ?thesis using one repairs_only_trans by blast
  qed
qed simp

lemma detect_violations_law:
  assumes inv: "invar s" and run: "detect_violations port collect events run_id s = (s', res)"
  shows "invar s' \<and> ledger s' = ledger s \<and> (\<forall>rep. res = Inr rep \<longrightarrow>
    (\<exists>t keys. collect s run_id = (t, keys) \<and>
      cr_violations rep = concat (map (\<lambda>k. case ledger s k of None \<Rightarrow> []
        | Some r \<Rightarrow> key_violations events run_id k (dr_state r)) keys)))"
proof -
  obtain t keys where c: "collect s run_id = (t, keys)" by fastforce
  note cl = collect_law [OF inv c]
  obtain s2 w where w: "detect_keys port events run_id keys t = (s2, w)" by fastforce
  have "invar t" using cl by simp
  from detect_keys_law [OF this w] show ?thesis
    using run c w cl by (cases w) (auto simp: detect_violations_def)
qed

lemma key_violations_orphan:
  assumes "v \<in> set (key_violations events run_id k st)"
  shows "vi_idempotency_key v = Some k" "vi_kind v = Orphaned_dedupe_key \<longleftrightarrow> orphaned events k"
  using assms by (auto simp: key_violations_def orphaned_violation_def unknown_effect_violation_def
      orphaned_def split: if_splits)

lemma reconcile_law:
  assumes inv: "invar s" and run: "reconcile rc port collect elog run_id s = (s', res)"
  shows "invar s' \<and> repairs_only
    (\<lambda>k. \<exists>events. view_load rc elog run_id = Inr events \<and> belongs run_id k \<and> orphaned events k) (ledger s) (ledger s')"
    (is "_ \<and> repairs_only ?K _ _")
proof (cases "view_load rc elog run_id")
  case (Inl e)
  then show ?thesis using inv run
    by (auto simp: reconcile_def averify_event_dedupe_consistency_def apply_repairs_def
      unavailable_report_def repair_violation_def)
next
  case (Inr events)
  obtain s1 d where d: "detect_violations port collect events run_id s = (s1, d)" by fastforce
  note dl = detect_violations_law [OF inv d]
  show ?thesis
  proof (cases d)
    case Inl': (Inl e)
    then show ?thesis using dl run d Inr by (auto simp: reconcile_def averify_event_dedupe_consistency_def)
  next
    case Inr': (Inr rep)
    then obtain t keys where c: "collect s run_id = (t, keys)"
      and vs: "cr_violations rep = concat (map (\<lambda>k. case ledger s k of None \<Rightarrow> []
        | Some r \<Rightarrow> key_violations events run_id k (dr_state r)) keys)" using dl by blast
    obtain s2 b where b: "repair_all port run_id (cr_violations rep) s1 = (s2, b)" by fastforce
    have in_vs: "\<exists>k\<in>set keys. \<exists>st. v \<in> set (key_violations events run_id k st)"
      if "v \<in> set (cr_violations rep)" for v
      using that unfolding vs by (auto split: option.splits)
    have "invar s2 \<and> repairs_only ?K (ledger s1) (ledger s2)"
    proof (rule repair_all_law [OF _ b])
      fix v k
      assume v: "v \<in> set (cr_violations rep)" "vi_kind v = Orphaned_dedupe_key"
      obtain k' st where k': "k' \<in> set keys" "v \<in> set (key_violations events run_id k' st)"
        using in_vs [OF v(1)] by blast
      note kv = key_violations_orphan [OF k'(2)]
      show "vi_idempotency_key v \<noteq> None" using kv by simp
      show "?K k" if "vi_idempotency_key v = Some k"
        using that kv v(2) k'(1) collect_law [OF inv c] Inr by (auto)
    qed (use dl in simp)
    moreover have "s' = s2"
      using run d Inr Inr' b
      by (auto simp: reconcile_def averify_event_dedupe_consistency_def apply_repairs_def split: sum.splits)
    ultimately show ?thesis using dl by simp
  qed
qed

end

text \<open>
  A store that answers: reads do not fail, an allowed transition succeeds and the enumeration is
  complete.  Then a pass repairs exactly the orphaned keys.
\<close>

locale reliable_store_port = enumerable_store_port port invar ledger collect belongs
  for port :: "'s dedupe_port" and invar :: "'s \<Rightarrow> bool" and ledger :: "'s \<Rightarrow> ledger"
    and collect :: "'s \<Rightarrow> string \<Rightarrow> 's \<times> string list" and belongs :: "string \<Rightarrow> string \<Rightarrow> bool" +
  assumes get_ok: "invar s \<Longrightarrow> is_ok (snd (port_get port s k))"
    and mark_ok: "invar s \<Longrightarrow> ledger s k = Some r \<Longrightarrow> mark_from m (dr_state r) \<Longrightarrow>
      is_ok (snd (port_mark port s m k))"
    and collect_complete: "invar s \<Longrightarrow> ledger s k \<noteq> None \<Longrightarrow> belongs run_id k \<Longrightarrow>
      k \<in> set (snd (collect s run_id))"
begin

lemma get_value:
  assumes "invar s"
  obtains s' where "port_get port s k = (s', Inr (ledger s k))" "invar s'" "ledger s' = ledger s"
proof -
  obtain s' g where g: "port_get port s k = (s', g)" by fastforce
  from get_ok [OF assms, of k] g obtain r where "g = Inr r" by (cases g) auto
  with get_law [OF assms g] g that show thesis by simp
qed

lemma mark_value:
  assumes "invar s" "ledger s k = Some r" "mark_from m (dr_state r)"
  obtains s' where "port_mark port s m k = (s', Inr ())" "invar s'"
    "ledger s' = (ledger s)(k \<mapsto> mark_record m r)"
proof -
  obtain s' g where g: "port_mark port s m k = (s', g)" by fastforce
  from mark_ok [OF assms] g obtain u where "g = Inr u" by (cases g) auto
  with mark_law [OF assms(1) g] g assms that show thesis by simp
qed

lemma advance_value:
  assumes inv: "invar s" and r: "ledger s key = Some r" "repairable r"
  obtains s' where "advance_to_unknown port key (Some (dr_state r)) s = (s', Inr ())" "invar s'"
    "ledger s' = (ledger s)(key \<mapsto> repaired_record r)"
proof (cases "dr_state r = Reserved")
  case True
  then have "mark_from (MarkDispatched None) (dr_state r)" by simp
  from mark_value [OF inv r(1) this] obtain s1 where
    s1: "port_mark_dispatched port s key None = (s1, Inr ())" "invar s1"
      "ledger s1 = (ledger s)(key \<mapsto> mark_record (MarkDispatched None) r)" by auto
  have "ledger s1 key = Some (mark_record (MarkDispatched None) r)" using s1 by simp
  from mark_value [OF s1(2) this, of MarkUnknown] obtain s2 where
    "port_mark_unknown_effect port s1 key = (s2, Inr ())" "invar s2"
    "ledger s2 = (ledger s1)(key \<mapsto> mark_record MarkUnknown (mark_record (MarkDispatched None) r))" by auto
  then show thesis using that s1 True r by (simp add: advance_to_unknown_def repaired_record_def)
next
  case False
  then have "mark_from MarkUnknown (dr_state r)" using r(2) by (simp add: repairable_def)
  from mark_value [OF inv r(1) this] obtain s1 where
    "port_mark_unknown_effect port s key = (s1, Inr ())" "invar s1"
    "ledger s1 = (ledger s)(key \<mapsto> mark_record MarkUnknown r)" by auto
  then show thesis using that False r by (simp add: advance_to_unknown_def repaired_record_def)
qed

lemma repair_orphaned_key_value:
  assumes inv: "invar s" and r: "ledger s key = Some r"
  obtains s' a where "repair_orphaned_key port key v s = (s', Inr a)" "invar s'"
    "ledger s' = (ledger s)(key \<mapsto> repaired_record r)"
proof -
  obtain s1 where g: "port_get port s key = (s1, Inr (ledger s key))" "invar s1" "ledger s1 = ledger s"
    by (rule get_value [OF inv])
  show thesis
  proof (cases "repairable r")
    case True
    have "ledger s1 key = Some r" using g r by simp
    from advance_value [OF g(2) this True] obtain s2 where
      "advance_to_unknown port key (Some (dr_state r)) s1 = (s2, Inr ())" "invar s2"
      "ledger s2 = (ledger s)(key \<mapsto> repaired_record r)" using g(3) by auto
    then show thesis using that g r True
      by (auto simp: repair_orphaned_key_def Let_def TERMINAL_STATES_def REPAIRABLE_STATES_def repairable_def)
  next
    case False
    then have "ledger s1 = (ledger s)(key \<mapsto> repaired_record r)"
      using g r by (simp add: repaired_record_def fun_upd_idem)
    moreover have "\<exists>a. repair_orphaned_key port key v s = (s1, Inr a)"
      using g r False by (cases "dr_state r")
        (simp_all add: repair_orphaned_key_def TERMINAL_STATES_def REPAIRABLE_STATES_def repairable_def)
    ultimately show thesis using that g(2) by blast
  qed
qed

text \<open>The orphaned keys that a list of violations names.\<close>

lemma repair_all_value:
  assumes "invar s"
    and "\<And>v. v \<in> set vs \<Longrightarrow> \<exists>k. vi_idempotency_key v = Some k \<and> ledger s k \<noteq> None"
  obtains s' as where "repair_all port run_id vs s = (s', Inr as)" "invar s'"
    "ledger s' = (\<lambda>k. if \<exists>v\<in>set vs. vi_kind v = Orphaned_dedupe_key \<and> vi_idempotency_key v = Some k
       then map_option repaired_record (ledger s k) else ledger s k)"
  using assms
proof (induction vs arbitrary: s thesis)
  case Nil
  then show ?case by auto
next
  case (Cons v vs)
  obtain k r where k: "vi_idempotency_key v = Some k" "ledger s k = Some r"
    using Cons.prems(3) [of v] by auto
  define L where "L = (if vi_kind v = Orphaned_dedupe_key then (ledger s)(k \<mapsto> repaired_record r) else ledger s)"
  have "\<exists>s1 a. repair_violation port run_id k v s = (s1, Inr a) \<and> invar s1 \<and> ledger s1 = L"
  proof (cases "vi_kind v")
    case Orphaned_dedupe_key
    obtain s1 a where "repair_orphaned_key port k v s = (s1, Inr a)" "invar s1"
      "ledger s1 = (ledger s)(k \<mapsto> repaired_record r)"
      by (rule repair_orphaned_key_value [OF Cons.prems(2) k(2)])
    then show ?thesis using Orphaned_dedupe_key by (auto simp: repair_violation_def L_def)
  qed (use Cons.prems(2) in \<open>auto simp: repair_violation_def L_def\<close>)
  then obtain s1 a where a: "repair_violation port run_id k v s = (s1, Inr a)" "invar s1" "ledger s1 = L"
    by blast
  have dom: "L j \<noteq> None" if "ledger s j \<noteq> None" for j using that by (simp add: L_def)
  have known: "\<exists>k. vi_idempotency_key w = Some k \<and> ledger s1 k \<noteq> None" if "w \<in> set vs" for w
    using Cons.prems(3) [of w] that a(3) dom by auto
  obtain s2 as where b: "repair_all port run_id vs s1 = (s2, Inr as)" "invar s2"
    "ledger s2 = (\<lambda>k. if \<exists>v\<in>set vs. vi_kind v = Orphaned_dedupe_key \<and> vi_idempotency_key v = Some k
       then map_option repaired_record (ledger s1 k) else ledger s1 k)"
    by (rule Cons.IH [OF _ a(2) known])
  have "ledger s2 = (\<lambda>k. if \<exists>v\<in>set (v # vs). vi_kind v = Orphaned_dedupe_key \<and> vi_idempotency_key v = Some k
       then map_option repaired_record (ledger s k) else ledger s k)"
    unfolding b(3) a(3) L_def using k by (auto simp: fun_eq_iff)
  then show ?case using Cons.prems(1) k(1) a(1) b(1,2) by simp
qed

lemma detect_violations_value:
  assumes inv: "invar s"
  obtains s' rep where "detect_violations port collect events run_id s = (s', Inr rep)" "invar s'"
    "ledger s' = ledger s"
    "cr_violations rep = concat (map (\<lambda>k. case ledger s k of None \<Rightarrow> []
        | Some r \<Rightarrow> key_violations events run_id k (dr_state r)) (snd (collect s run_id)))"
proof -
  have ok: "is_ok (snd (detect_keys port events run_id keys t))" if "invar t" for keys t
    using that
  proof (induction keys arbitrary: t)
    case (Cons k ks)
    obtain t' where t': "port_get port t k = (t', Inr (ledger t k))" "invar t'" "ledger t' = ledger t"
      by (rule get_value [OF Cons.prems])
    obtain u w where w: "detect_keys port events run_id ks t' = (u, w)" by fastforce
    show ?case using Cons.IH [OF t'(2)] t'(1) w by (cases w) auto
  qed simp
  obtain s' d where d: "detect_violations port collect events run_id s = (s', d)" by fastforce
  obtain t keys where c: "collect s run_id = (t, keys)" by fastforce
  obtain u w where w: "detect_keys port events run_id keys t = (u, w)" by fastforce
  have "invar t" using collect_law [OF inv c] by simp
  from ok [OF this, of keys] w obtain vs where "w = Inr vs" by (cases w) auto
  then obtain rep where "d = Inr rep" using d c w by (auto simp: detect_violations_def)
  then show thesis using that d detect_violations_law [OF inv d] by auto
qed

lemma reconcile_value:
  assumes inv: "invar s" and ev: "view_load rc elog run_id = Inr events"
  obtains s' r where "reconcile rc port collect elog run_id s = (s', Inr r)" "invar s'"
    "ledger s' = (\<lambda>k. if belongs run_id k \<and> orphaned events k
       then map_option repaired_record (ledger s k) else ledger s k)"
proof -
  obtain s1 rep where d: "detect_violations port collect events run_id s = (s1, Inr rep)" "invar s1"
    "ledger s1 = ledger s"
    and vs: "cr_violations rep = concat (map (\<lambda>k. case ledger s k of None \<Rightarrow> []
        | Some r \<Rightarrow> key_violations events run_id k (dr_state r)) (snd (collect s run_id)))"
    by (rule detect_violations_value [OF inv])
  have v_iff: "v \<in> set (cr_violations rep) \<longleftrightarrow> (\<exists>k r. k \<in> set (snd (collect s run_id)) \<and>
      ledger s k = Some r \<and> v \<in> set (key_violations events run_id k (dr_state r)))" for v
    unfolding vs by (auto split: option.splits) force+
  have known: "\<exists>k. vi_idempotency_key v = Some k \<and> ledger s1 k \<noteq> None" if "v \<in> set (cr_violations rep)" for v
    using that key_violations_orphan(1) unfolding v_iff d(3) by fastforce
  obtain s2 as where b: "repair_all port run_id (cr_violations rep) s1 = (s2, Inr as)" "invar s2"
    "ledger s2 = (\<lambda>k. if \<exists>v\<in>set (cr_violations rep). vi_kind v = Orphaned_dedupe_key \<and> vi_idempotency_key v = Some k
       then map_option repaired_record (ledger s1 k) else ledger s1 k)"
    by (rule repair_all_value [OF d(2) known])
  have named: "(\<exists>v\<in>set (cr_violations rep). vi_kind v = Orphaned_dedupe_key \<and> vi_idempotency_key v = Some k)
      \<longleftrightarrow> belongs run_id k \<and> orphaned events k" if "ledger s k = Some r" for k r
  proof
    assume "belongs run_id k \<and> orphaned events k"
    then have "orphaned_violation run_id k (dr_state r) \<in> set (cr_violations rep)"
      using collect_complete [OF inv, of k run_id] that unfolding v_iff
      by (intro exI [of _ k] exI [of _ r]) (simp add: key_violations_def orphaned_def)
    then show "\<exists>v\<in>set (cr_violations rep). vi_kind v = Orphaned_dedupe_key \<and> vi_idempotency_key v = Some k"
      by (force simp: orphaned_violation_def)
  next
    assume "\<exists>v\<in>set (cr_violations rep). vi_kind v = Orphaned_dedupe_key \<and> vi_idempotency_key v = Some k"
    then obtain v where v: "v \<in> set (cr_violations rep)" "vi_kind v = Orphaned_dedupe_key"
      "vi_idempotency_key v = Some k" by blast
    then obtain k' and r' :: dedupe_record where "k' \<in> set (snd (collect s run_id))"
      "v \<in> set (key_violations events run_id k' (dr_state r'))"
      using iffD1 [OF v_iff v(1)] by blast
    then show "belongs run_id k \<and> orphaned events k"
      using v(2,3) key_violations_orphan collect_law [OF inv, of run_id] by (metis option.inject prod.collapse)
  qed
  have "ledger s2 = (\<lambda>k. if belongs run_id k \<and> orphaned events k
       then map_option repaired_record (ledger s k) else ledger s k)"
    unfolding b(3) d(3) using named by (intro ext) (case_tac "ledger s k"; simp)
  then show thesis using that d(1) b(1,2) ev
    by (simp add: reconcile_def averify_event_dedupe_consistency_def apply_repairs_def)
qed

text \<open>After a sweep no orphaned key of a scanned run is left reserved or dispatched.\<close>

lemma reconcile_runs_settle:
  assumes "invar s" and "\<And>r. r \<in> set run_ids \<Longrightarrow> is_ok (view_load rc elog r)"
  shows "\<exists>s' n. reconcile_runs rc port collect elog run_ids f p s = (s', Inr n) \<and> invar s' \<and>
    (\<forall>k. settled (ledger s) k \<or> (\<exists>r\<in>set run_ids. belongs r k \<and> orphaned (projr (view_load rc elog r)) k)
       \<longrightarrow> settled (ledger s') k)"
  using assms
proof (induction run_ids arbitrary: s f p)
  case (Cons run runs)
  obtain events where ev: "view_load rc elog run = Inr events"
    using Cons.prems(2) [of run] by (cases "view_load rc elog run") auto
  obtain s1 res where one: "reconcile rc port collect elog run s = (s1, Inr res)" "invar s1"
    "ledger s1 = (\<lambda>k. if belongs run k \<and> orphaned events k
       then map_option repaired_record (ledger s k) else ledger s k)"
    by (rule reconcile_value [OF Cons.prems(1) ev])
  have step: "settled (ledger s1) k" if "settled (ledger s) k \<or> belongs run k \<and> orphaned events k" for k
    using that by (auto simp: settled_def one(3))
  obtain s2 n where "reconcile_runs rc port collect elog runs (f + rr_violations_found res)
      (p + rr_violations_repaired res) s1 = (s2, Inr n)" "invar s2"
    "\<forall>k. settled (ledger s1) k \<or> (\<exists>r\<in>set runs. belongs r k \<and> orphaned (projr (view_load rc elog r)) k)
       \<longrightarrow> settled (ledger s2) k"
    using Cons.IH [OF one(2), of "f + rr_violations_found res" "p + rr_violations_repaired res"]
      Cons.prems(2) by auto
  then show ?case using one(1) step ev by fastforce
qed simp

end

section \<open>The two stores\<close>

lemma mem_mark_ok:
  "dict_get s k = Some r \<Longrightarrow> mark_from m (dr_state r) \<Longrightarrow> is_ok (snd (port_mark mem_port s m k))"
  by (cases m) (simp_all add: mem_mark_dispatched_def mem_mark_acknowledged_def mem_mark_succeeded_def
    mem_mark_unknown_effect_def mem_get_required_record_def)

lemma dict_get_key: "dict_get s k = Some y \<Longrightarrow> k \<in> fst ` set s"
  by (auto simp: dict_get_def dest!: map_of_SomeD intro: rev_image_eqI)

interpretation mem_outbox: reliable_store_port mem_port mem_invar dict_get mem_collect_dedupe_keys
  "\<lambda>run_id k. startswith k (run_id @ '':'')"
proof
  fix s k
  show "is_ok (snd (port_get mem_port s k))" by (simp add: mem_get_def)
next
  fix s :: dedupe_mem and k r m
  assume "dict_get s k = Some r" "mark_from m (dr_state r)"
  then show "is_ok (snd (port_mark mem_port s m k))" by (rule mem_mark_ok)
qed (auto simp: mem_collect_dedupe_keys_def dict_get_key)

lemma sql_exec_read:
  assumes "sql_exec s (\<lambda>s. (s, f s)) = (s', res)"
  shows "db_rows s' = db_rows s \<and> db_saved s' = db_saved s"
  using assms by (auto simp: sql_exec_def split: list.splits if_splits)

lemma sql_exec_read_value:
  assumes "sql_exec s (\<lambda>s. (s, Inr (g (db_rows s)))) = (s', Inr x)"
  shows "x = g (db_rows s)"
  using assms by (auto simp: sql_exec_def split: list.splits if_splits)

interpretation sq_outbox: enumerable_store_port sq_port sq_invar sq_ledger sq_collect_dedupe_keys
  "\<lambda>run_id k. sql_like (like_escape run_id @ '':%'') k"
proof
  fix s run_id s' keys
  assume inv: "sq_invar s" and run: "sq_collect_dedupe_keys s run_id = (s', keys)"
  obtain s1 a where a: "sql_exec s (\<lambda>s. (s, Inl (OperationalError ''no such table: colocated_dedupe_store'')
      :: string list result)) = (s1, a)" by fastforce
  obtain s2 b where b: "sql_exec s1 (\<lambda>s. (s, Inr (filter (sql_like (like_escape run_id @ '':%''))
      (map dr_dispatch_idempotency_key (db_rows s))) :: string list result)) = (s2, b)" by fastforce
  note rows = sql_exec_read [OF a] sql_exec_read [OF b]
  have "\<exists>e. a = Inl e" using a by (auto simp: sql_exec_def split: list.splits if_splits)
  then have res: "s' = s2" "keys = (case b of Inl _ \<Rightarrow> [] | Inr ks \<Rightarrow> ks)"
    using run a b by (auto simp: sq_collect_dedupe_keys_def split: sum.splits)
  have "set keys \<subseteq> {k. sql_like (like_escape run_id @ '':%'') k}"
  proof (cases b)
    case (Inr ks)
    have "ks = filter (sql_like (like_escape run_id @ '':%'')) (map dr_dispatch_idempotency_key (db_rows s1))"
      by (rule sql_exec_read_value) (use b Inr in simp)
    then show ?thesis using res(2) Inr by auto
  qed (use res(2) in simp)
  then show "sq_invar s' \<and> sq_ledger s' = sq_ledger s \<and> (\<forall>k\<in>set keys. sql_like (like_escape run_id @ '':%'') k)"
    using rows inv res(1) by (auto simp: sq_invar_def sq_ledger_def)
qed

text \<open>
  A reconciliation pass over the in-memory ledger returns a result, and when
  the events of the run can be read it moves exactly the keys of the run (those that begin with
  the run id and a colon) that no event carries, and that are reserved or dispatched, to
  unknown_effect; every other record stays as it is, a second pass changes nothing, and when the
  events cannot be read the ledger is left alone.
\<close>

theorem reconcile_repairs_exactly_orphans:
  assumes "mem_invar s"
    and run: "reconcile rc mem_port mem_collect_dedupe_keys elog run_id s = (s', res)"
  shows "is_ok res \<and> dict_get s' k = (case view_load rc elog run_id of
        Inl e \<Rightarrow> dict_get s k
      | Inr events \<Rightarrow>
          (case dict_get s k of
             None \<Rightarrow> None
           | Some r \<Rightarrow> Some (if startswith k (run_id @ '':'') \<and> k \<notin> event_idempotency_keys events
                            \<and> dr_state r \<in> {Reserved, Dispatched}
                          then r\<lparr>dr_state := Unknown_effect\<rparr> else r)))
    \<and> dict_get (fst (reconcile rc mem_port mem_collect_dedupe_keys elog run_id s')) k = dict_get s' k"
proof -
  have all: "is_ok res \<and> (dict_get s' k = (case view_load rc elog run_id of
        Inl e \<Rightarrow> dict_get s k
      | Inr events \<Rightarrow> (if startswith k (run_id @ '':'') \<and> orphaned events k
           then map_option repaired_record (dict_get s k) else dict_get s k)) \<and> mem_invar s')"
    if "mem_invar s" "reconcile rc mem_port mem_collect_dedupe_keys elog run_id s = (s', res)" for s s' res
  proof (cases "view_load rc elog run_id")
    case (Inl e)
    then show ?thesis using that
      by (auto simp: reconcile_def averify_event_dedupe_consistency_def apply_repairs_def
        unavailable_report_def repair_violation_def)
  next
    case (Inr events)
    then show ?thesis using that mem_outbox.reconcile_value [OF that(1) Inr] by fastforce
  qed
  note first = all [OF assms]
  have changed: "dict_get s' k = (case view_load rc elog run_id of
        Inl e \<Rightarrow> dict_get s k
      | Inr events \<Rightarrow>
          (case dict_get s k of
             None \<Rightarrow> None
           | Some r \<Rightarrow> Some (if startswith k (run_id @ '':'') \<and> k \<notin> event_idempotency_keys events
                            \<and> dr_state r \<in> {Reserved, Dispatched}
                          then r\<lparr>dr_state := Unknown_effect\<rparr> else r)))"
    using first by (auto simp: orphaned_def repaired_record_def repairable_def split: sum.splits option.splits)
  obtain s'' res' where again: "reconcile rc mem_port mem_collect_dedupe_keys elog run_id s' = (s'', res')"
    by fastforce
  have "dict_get s'' k = dict_get s' k"
    using all [OF _ again] first by (auto simp: option.map_comp comp_def split: sum.splits)
  then show ?thesis using first changed by (simp add: again)
qed

definition sample_key_record :: dedupe_record where
  "sample_key_record =
     \<lparr>dr_dispatch_idempotency_key = ''r1:a:0'', dr_operation_fingerprint = ''f'', dr_attempt_seq = 1,
      dr_state = Reserved, dr_peer_operation_id = None, dr_external_ack_ref = None\<rparr>"

definition plain_reconciler :: outbox_reconciler where
  "plain_reconciler = \<lparr>or_event_schema_migrator = None, or_target_event_schema_version = None\<rparr>"

theorem reconcile_repairs_exactly_orphans_witness:
  "dict_get (fst (reconcile plain_reconciler mem_port mem_collect_dedupe_keys empty_event_log ''r1''
     [(''r1:a:0'', sample_key_record)])) ''r1:a:0'' = Some (sample_key_record\<lparr>dr_state := Unknown_effect\<rparr>)"
proof -
  have inv: "mem_invar [(''r1:a:0'', sample_key_record)]"
    by (simp add: mem_invar_def dict_wf_def dict_get_def sample_key_record_def)
  show ?thesis
    using reconcile_repairs_exactly_orphans [OF inv prod.collapse [symmetric],
      of plain_reconciler empty_event_log "''r1''" "''r1:a:0''"]
    by (simp add: view_load_def plain_reconciler_def load_events_def empty_event_log_def startswith_def
      dict_get_def event_idempotency_keys_def sample_key_record_def map_filter_def)
qed

text \<open>
  The sweep over the runs of the log: it returns, and afterwards every key of a retained run that
  no event carries is out of the reserved and dispatched states.
\<close>

lemma sweep_settles_orphans:
  assumes "mem_invar s" and elog: "run_id \<in> set (map fst (el_events_by_run elog))"
    and key: "startswith k (run_id @ '':'')" "k \<notin> event_idempotency_keys (load_events elog run_id 0)"
  shows "\<exists>s' r. reconcile_once plain_reconciler mem_port mem_collect_dedupe_keys None elog t s = (s', Inr r)
    \<and> (\<forall>r. dict_get s' k = Some r \<longrightarrow> dr_state r \<notin> {Reserved, Dispatched})"
proof -
  have view: "view_load plain_reconciler elog r = Inr (load_events elog r 0)" for r
    by (simp add: view_load_def plain_reconciler_def)
  obtain s' n where "reconcile_runs plain_reconciler mem_port mem_collect_dedupe_keys elog
      (map fst (el_events_by_run elog)) 0 0 s = (s', Inr n)" "settled (dict_get s') k"
    using mem_outbox.reconcile_runs_settle [OF assms(1), of "map fst (el_events_by_run elog)"
        plain_reconciler elog 0 0] elog key
    by (auto simp: view orphaned_def)
  then show ?thesis
    by (cases n) (auto simp: reconcile_once_def discover_run_ids_def settled_def repairable_def)
qed

text \<open>
  Over the SQLite ledger, whichever statements fail, a reconciliation pass only
  ever moves reserved or dispatched records forward, to dispatched or unknown_effect, and only
  for keys matched by the run's pattern that no event of the run carries.
\<close>

theorem reconcile_sqlite_safe:
  assumes "sq_invar s"
    and run: "reconcile rc sq_port sq_collect_dedupe_keys elog run_id s = (s', res)"
    and changed: "sq_ledger s' k \<noteq> sq_ledger s k"
  shows "\<exists>events r r'. view_load rc elog run_id = Inr events \<and> k \<notin> event_idempotency_keys events
    \<and> sql_like (like_escape run_id @ '':%'') k
    \<and> sq_ledger s k = Some r \<and> dr_state r \<in> {Reserved, Dispatched}
    \<and> sq_ledger s' k = Some r'
    \<and> r' \<in> {r\<lparr>dr_state := Dispatched\<rparr>, r\<lparr>dr_state := Unknown_effect\<rparr>}"
  using sq_outbox.reconcile_law [OF assms(1,2)] changed
  unfolding repairs_only_def advanced_def orphaned_def repairable_def by fastforce

theorem reconcile_sqlite_safe_witness:
  "\<exists>events r r'. view_load plain_reconciler empty_event_log ''r1'' = Inr events
    \<and> ''r1:a:0'' \<notin> event_idempotency_keys events
    \<and> sql_like (like_escape ''r1'' @ '':%'') ''r1:a:0''
    \<and> sq_ledger \<lparr>db_rows = [sample_key_record], db_saved = None, db_faults = []\<rparr> ''r1:a:0'' = Some r
    \<and> dr_state r \<in> {Reserved, Dispatched}
    \<and> sq_ledger (fst (reconcile plain_reconciler sq_port sq_collect_dedupe_keys empty_event_log ''r1''
        \<lparr>db_rows = [sample_key_record], db_saved = None, db_faults = []\<rparr>)) ''r1:a:0'' = Some r'
    \<and> r' \<in> {r\<lparr>dr_state := Dispatched\<rparr>, r\<lparr>dr_state := Unknown_effect\<rparr>}"
proof (rule reconcile_sqlite_safe [OF _ prod.collapse [symmetric]])
  show "sq_invar \<lparr>db_rows = [sample_key_record], db_saved = None, db_faults = []\<rparr>"
    by (simp add: sq_invar_def)
  show "sq_ledger (fst (reconcile plain_reconciler sq_port sq_collect_dedupe_keys empty_event_log ''r1''
      \<lparr>db_rows = [sample_key_record], db_saved = None, db_faults = []\<rparr>)) ''r1:a:0'' \<noteq>
    sq_ledger \<lparr>db_rows = [sample_key_record], db_saved = None, db_faults = []\<rparr> ''r1:a:0''"
    by code_simp
qed

section \<open>The synchronous variant with a migrator\<close>

text \<open>
  With a migrator configured, the view's \<^verbatim>\<open>list_events\<close> is found first and returns nothing for the
  in-memory log, so the events are ignored and every unfinished key of the run counts as orphaned.
\<close>

lemma sync_with_migrator_ignores_events:
  assumes "or_event_schema_migrator rc = Some migs" "or_target_event_schema_version rc = Some target"
  shows "reconcile_sync rc port collect elog run_id s = reconcile_sync rc port collect empty_event_log run_id s"
  using assms by (simp add: reconcile_sync_def verify_event_dedupe_consistency_def view_list_events_def)

end
