(* ===== verification/SQLite_Connection.thy ===== *)
theory SQLite_Connection
  imports Kernel_Effects
begin

text \<open>
  A connection of Python's \<^verbatim>\<open>sqlite3\<close> to a database whose tables are of any type: the tables, the
  tables as they were when the open transaction began, and a stream of faults.  Every statement
  may raise \<^verbatim>\<open>sqlite3.OperationalError\<close> (a locked or failing database) before it has any effect;
  the rollback of an open transaction does not fail.  With \<^verbatim>\<open>isolation_level=None\<close> a transaction is
  opened by \<^verbatim>\<open>BEGIN\<close>; in the default mode the module opens one before an \<^verbatim>\<open>INSERT\<close>, \<^verbatim>\<open>UPDATE\<close> or
  \<^verbatim>\<open>DELETE\<close>.
\<close>

section \<open>Statements\<close>

record 't connection =
  cn_tables :: 't
  cn_saved :: "'t option"
  cn_faults :: "bool list"

definition connect :: "'t \<Rightarrow> bool list \<Rightarrow> 't connection" where
  "connect tables faults = \<lparr>cn_tables = tables, cn_saved = None, cn_faults = faults\<rparr>"

definition execute :: "('t connection, 'a) act \<Rightarrow> ('t connection, 'a) act" where
  "execute f c =
     (case cn_faults c of
        [] \<Rightarrow> f c
      | fault # faults \<Rightarrow>
          if fault then (c\<lparr>cn_faults := faults\<rparr>, Inl (OperationalError ''database is locked''))
          else f (c\<lparr>cn_faults := faults\<rparr>))"

definition sql_select :: "('t \<Rightarrow> 'a) \<Rightarrow> ('t connection, 'a) act" where
  "sql_select f = execute (\<lambda>c. (c, Inr (f (cn_tables c))))"

text \<open>A statement that changes the tables, or violates a constraint and changes nothing.\<close>

definition sql_change :: "('t \<Rightarrow> ('t \<times> 'a) result) \<Rightarrow> ('t connection, 'a) act" where
  "sql_change f = execute (\<lambda>c.
     case f (cn_tables c) of
       Inl e \<Rightarrow> (c, Inl e)
     | Inr (t, x) \<Rightarrow> (c\<lparr>cn_tables := t\<rparr>, Inr x))"

section \<open>Explicit transactions\<close>

definition sql_begin :: "('t connection, unit) act" where
  "sql_begin = execute (\<lambda>c.
     case cn_saved c of
       None \<Rightarrow> (c\<lparr>cn_saved := Some (cn_tables c)\<rparr>, Inr ())
     | Some _ \<Rightarrow> (c, Inl (OperationalError ''cannot start a transaction within a transaction'')))"

definition sql_commit :: "('t connection, unit) act" where
  "sql_commit = execute (\<lambda>c.
     case cn_saved c of
       None \<Rightarrow> (c, Inl (OperationalError ''cannot commit - no transaction is active''))
     | Some _ \<Rightarrow> (c\<lparr>cn_saved := None\<rparr>, Inr ()))"

definition sql_rollback :: "('t connection, unit) act" where
  "sql_rollback c =
     (case cn_saved c of
        None \<Rightarrow> (c, Inl (OperationalError ''cannot rollback - no transaction is active''))
      | Some t \<Rightarrow> (c\<lparr>cn_tables := t, cn_saved := None\<rparr>, Inr ()))"

text \<open>
  \<^verbatim>\<open>try: BEGIN; body; COMMIT\<close> with a handler that rolls back, suppressing a failure of the rollback,
  and raises the exception again.
\<close>

definition explicit_transaction :: "('t connection, 'a) act \<Rightarrow> ('t connection, 'a) act" where
  "explicit_transaction body =
     catch_act (bind_act sql_begin (\<lambda>_. bind_act body (\<lambda>x. bind_act sql_commit (\<lambda>_. return_act x))))
       (\<lambda>e. bind_act (suppress_act sql_rollback) (\<lambda>_. raise_act e))"

text \<open>
  \<^verbatim>\<open>BEGIN\<close>, then a \<^verbatim>\<open>try\<close> around a body that says whether to keep its changes: it ends by \<^verbatim>\<open>COMMIT\<close> or
  \<^verbatim>\<open>ROLLBACK\<close>.  The handler \<open>undo\<close> rolls back and the exception is raised again.
\<close>

definition guarded_transaction ::
  "('t connection, unit) act \<Rightarrow> ('t connection, bool \<times> 'a) act \<Rightarrow> ('t connection, 'a) act" where
  "guarded_transaction undo body =
     bind_act sql_begin (\<lambda>_.
     catch_act (bind_act body (\<lambda>(keep, x). bind_act (if keep then sql_commit else sql_rollback) (\<lambda>_. return_act x)))
       (\<lambda>e. bind_act undo (\<lambda>_. raise_act e)))"

section \<open>Implicit transactions\<close>

definition implicit_begin :: "'t connection \<Rightarrow> 't connection" where
  "implicit_begin c = (case cn_saved c of None \<Rightarrow> c\<lparr>cn_saved := Some (cn_tables c)\<rparr> | Some _ \<Rightarrow> c)"

definition dml :: "('t \<Rightarrow> ('t \<times> 'a) result) \<Rightarrow> ('t connection, 'a) act" where
  "dml f = execute (\<lambda>c.
     case f (cn_tables c) of
       Inl e \<Rightarrow> (implicit_begin c, Inl e)
     | Inr (t, x) \<Rightarrow> ((implicit_begin c)\<lparr>cn_tables := t\<rparr>, Inr x))"

text \<open>\<^verbatim>\<open>connection.commit()\<close> and \<^verbatim>\<open>connection.rollback()\<close>, which do nothing outside a transaction.\<close>

definition conn_commit :: "('t connection, unit) act" where
  "conn_commit c = (if cn_saved c = None then (c, Inr ()) else execute (\<lambda>c. (c\<lparr>cn_saved := None\<rparr>, Inr ())) c)"

definition conn_rollback :: "('t connection, unit) act" where
  "conn_rollback c =
     (case cn_saved c of None \<Rightarrow> (c, Inr ()) | Some t \<Rightarrow> (c\<lparr>cn_tables := t, cn_saved := None\<rparr>, Inr ()))"

text \<open>
  The block \<^verbatim>\<open>with connection:\<close> commits when its body returns and rolls back when the body or the
  commit raises, and \<^verbatim>\<open>try: body; commit() except: rollback(); raise\<close> does the same.
\<close>

definition in_transaction :: "('t connection, 'a) act \<Rightarrow> ('t connection, 'a) act" where
  "in_transaction body =
     catch_act (bind_act body (\<lambda>x. bind_act conn_commit (\<lambda>_. return_act x)))
       (\<lambda>e. bind_act conn_rollback (\<lambda>_. raise_act e))"

text \<open>A statement that returns has changed the tables as it says.\<close>

lemma select_Inr: "sql_select f c = (c', Inr x) \<Longrightarrow> cn_tables c' = cn_tables c \<and> cn_saved c' = cn_saved c \<and> x = f (cn_tables c)"
  by (auto simp: sql_select_def execute_def split: list.splits if_splits)

lemma dml_Inr: "dml f c = (c', Inr x) \<Longrightarrow> \<exists>t. f (cn_tables c) = Inr (t, x) \<and> cn_tables c' = t"
  by (auto simp: dml_def execute_def split: list.splits if_splits sum.splits)

lemma change_Inr: "sql_change f c = (c', Inr x) \<Longrightarrow> \<exists>t. f (cn_tables c) = Inr (t, x) \<and> cn_tables c' = t"
  by (auto simp: sql_change_def execute_def split: list.splits if_splits sum.splits)

section \<open>Atomicity\<close>

text \<open>No transaction is open.\<close>

definition idle :: "'t connection \<Rightarrow> bool" where
  "idle c \<longleftrightarrow> cn_saved c = None"

lemma idle_connect [simp]: "idle (connect t fs)" "cn_tables (connect t fs) = t" "cn_faults (connect t fs) = fs"
  by (simp_all add: connect_def idle_def)

text \<open>
  A body keeps the rows an idle connection started from: it either still runs outside a
  transaction and has changed nothing, or inside one that began with them.
\<close>

definition from_tables :: "'t \<Rightarrow> 't connection \<Rightarrow> bool" where
  "from_tables t c \<longleftrightarrow> (case cn_saved c of None \<Rightarrow> cn_tables c = t | Some t' \<Rightarrow> t' = t)"

lemma from_tables_idle: "idle c \<Longrightarrow> from_tables (cn_tables c) c"
  by (simp add: from_tables_def idle_def)

lemma preserves_execute: "preserves P f \<Longrightarrow> (\<And>c fs. P c \<Longrightarrow> P (c\<lparr>cn_faults := fs\<rparr>)) \<Longrightarrow> preserves P (execute f)"
  unfolding preserves_def execute_def by (auto split: list.split)

lemma from_tables_faults: "from_tables t c \<Longrightarrow> from_tables t (c\<lparr>cn_faults := fs\<rparr>)"
  by (auto simp: from_tables_def split: option.splits)

lemma from_tables_select [preserves_intros]: "preserves (from_tables t) (sql_select f)"
  unfolding sql_select_def by (rule preserves_execute) (simp_all add: preserves_def from_tables_faults)

lemma from_tables_dml [preserves_intros]: "preserves (from_tables t) (dml f)"
  unfolding dml_def
  by (rule preserves_execute)
    (auto simp: preserves_def from_tables_def implicit_begin_def split: option.splits sum.splits)

lemma rollback_restores: "from_tables t c \<Longrightarrow> conn_rollback c = (c\<lparr>cn_tables := t, cn_saved := None\<rparr>, Inr ())"
  by (auto simp: conn_rollback_def from_tables_def split: option.splits)

text \<open>A transaction that raises leaves the tables as they were; one that returns keeps those of its body.\<close>

lemma in_transaction_result:
  assumes "preserves (from_tables (cn_tables c)) body" "idle c" "in_transaction body c = (c', r)"
  shows "idle c'" and "r = Inl e \<Longrightarrow> cn_tables c' = cn_tables c"
    and "r = Inr x \<Longrightarrow> \<exists>c1. body c = (c1, Inr x) \<and> cn_tables c' = cn_tables c1"
proof -
  obtain c1 r1 where b: "body c = (c1, r1)" by fastforce
  have from1: "from_tables (cn_tables c) c1"
    using preservesD [OF assms(1) from_tables_idle [OF assms(2)] b] .
  have failed: "idle c' \<and> cn_tables c' = cn_tables c \<and> r = Inl e"
    if "from_tables (cn_tables c) c2" "bind_act conn_rollback (\<lambda>_. raise_act e) c2 = (c', r)" for c2 e
    using that rollback_restores [OF that(1)] by (auto simp: idle_def)
  have "idle c' \<and> (case r of Inl e \<Rightarrow> cn_tables c' = cn_tables c
      | Inr x \<Rightarrow> \<exists>c1. body c = (c1, Inr x) \<and> cn_tables c' = cn_tables c1)"
  proof (cases r1)
    case (Inl e)
    then have "bind_act conn_rollback (\<lambda>_. raise_act e) c1 = (c', r)"
      using assms(3) b by (simp add: in_transaction_def)
    then show ?thesis using failed [OF from1] by fastforce
  next
    case (Inr x)
    obtain c2 r2 where c2: "conn_commit c1 = (c2, r2)" by fastforce
    show ?thesis
    proof (cases r2)
      case (Inl e)
      then have "bind_act conn_rollback (\<lambda>_. raise_act e) c2 = (c', r)"
        using assms(3) b c2 \<open>r1 = Inr x\<close>
        by (auto simp: in_transaction_def bind_act_def catch_act_def split: prod.splits sum.splits)
      moreover have "from_tables (cn_tables c) c2"
        using c2 from1 Inl by (auto simp: conn_commit_def execute_def from_tables_faults split: if_splits list.splits)
      ultimately show ?thesis using failed by fastforce
    next
      case (Inr u)
      then have "c' = c2" "r = Inr x"
        using assms(3) b c2 \<open>r1 = Inr x\<close> by (simp_all add: in_transaction_def bind_act_def catch_act_def)
      moreover have "idle c2 \<and> cn_tables c2 = cn_tables c1"
        using c2 Inr by (auto simp: conn_commit_def execute_def idle_def split: if_splits list.splits)
      ultimately show ?thesis using b \<open>r1 = Inr x\<close> by simp
    qed
  qed
  then show "idle c'" "r = Inl e \<Longrightarrow> cn_tables c' = cn_tables c"
    "r = Inr x \<Longrightarrow> \<exists>c1. body c = (c1, Inr x) \<and> cn_tables c' = cn_tables c1" by auto
qed

text \<open>Inside an explicit transaction that began with the tables \<open>t\<close>.\<close>

definition in_tx :: "'t \<Rightarrow> 't connection \<Rightarrow> bool" where
  "in_tx t c \<longleftrightarrow> cn_saved c = Some t"

lemma in_tx_statements [preserves_intros]:
  "preserves (in_tx t) (sql_select f)" "preserves (in_tx t) (sql_change g)"
  unfolding sql_select_def sql_change_def
  by (rule preserves_execute; auto simp: preserves_def in_tx_def split: sum.split)+

lemma begin_cases:
  assumes "idle c" "sql_begin c = (c', r)"
  shows "cn_tables c' = cn_tables c" "r = Inr () \<and> in_tx (cn_tables c) c' \<or> (\<exists>e. r = Inl e) \<and> idle c'"
  using assms by (auto simp: sql_begin_def execute_def idle_def in_tx_def split: list.splits if_splits)

lemma rollback_in_tx: "in_tx t c \<Longrightarrow> sql_rollback c = (c\<lparr>cn_tables := t, cn_saved := None\<rparr>, Inr ())"
  by (simp add: sql_rollback_def in_tx_def)

lemma commit_cases:
  assumes "in_tx t c" "sql_commit c = (c', r)"
  shows "cn_tables c' = cn_tables c" "r = Inr () \<and> idle c' \<or> (\<exists>e. r = Inl e) \<and> in_tx t c'"
  using assms by (auto simp: sql_commit_def execute_def idle_def in_tx_def split: list.splits if_splits)

lemma guarded_transaction_result:
  assumes body: "preserves (in_tx (cn_tables c)) body" and c: "idle c"
    and undo: "undo \<in> {sql_rollback, suppress_act sql_rollback}" and run: "guarded_transaction undo body c = (c', r)"
  shows "idle c' \<and> (case r of
      Inl e \<Rightarrow> cn_tables c' = cn_tables c
    | Inr x \<Rightarrow> \<exists>c0 c1 keep. cn_tables c0 = cn_tables c \<and> body c0 = (c1, Inr (keep, x))
        \<and> cn_tables c' = (if keep then cn_tables c1 else cn_tables c))"
proof -
  obtain c0 r0 where b: "sql_begin c = (c0, r0)" by fastforce
  note bc = begin_cases [OF c b]
  have undone: "c' = c2\<lparr>cn_tables := cn_tables c, cn_saved := None\<rparr> \<and> r = Inl e"
    if "in_tx (cn_tables c) c2" "bind_act undo (\<lambda>_. raise_act e) c2 = (c', r)" for c2 and e
    using that undo rollback_in_tx [OF that(1)] by auto
  show ?thesis
  proof (cases r0)
    case (Inl e)
    then show ?thesis using run b bc by (auto simp: guarded_transaction_def)
  next
    case (Inr u)
    then have tx: "in_tx (cn_tables c) c0" using bc by auto
    obtain c1 r1 where r1: "body c0 = (c1, r1)" by fastforce
    have tx1: "in_tx (cn_tables c) c1" using preservesD [OF body tx r1] .
    show ?thesis
    proof (cases r1)
      case (Inl e)
      then have "bind_act undo (\<lambda>_. raise_act e) c1 = (c', r)"
        using run b Inr r1 by (simp add: guarded_transaction_def)
      from undone [OF tx1 this] show ?thesis by (simp add: idle_def)
    next
      case (Inr y)
      obtain keep x where y: "y = (keep, x)" by fastforce
      show ?thesis
      proof (cases keep)
        case True
        obtain c2 r2 where c2: "sql_commit c1 = (c2, r2)" by fastforce
        note cc = commit_cases [OF tx1 c2]
        show ?thesis
        proof (cases r2)
          case (Inl e)
          then have "in_tx (cn_tables c) c2" using cc by auto
          moreover have "bind_act undo (\<lambda>_. raise_act e) c2 = (c', r)"
            using run b \<open>r0 = Inr u\<close> r1 Inr y True c2 Inl
            by (auto simp: guarded_transaction_def bind_act_def catch_act_def split: prod.splits sum.splits)
          ultimately have "c' = c2\<lparr>cn_tables := cn_tables c, cn_saved := None\<rparr> \<and> r = Inl e" by (rule undone)
          then show ?thesis by (simp add: idle_def)
        next
          case (Inr v)
          have "c' = c2" "r = Inr x"
            using run b \<open>r0 = Inr u\<close> r1 \<open>r1 = Inr y\<close> y True c2 Inr
            by (auto simp: guarded_transaction_def bind_act_def catch_act_def)
          then show ?thesis using cc Inr bc(1) r1 \<open>r1 = Inr y\<close> y True by auto
        qed
      next
        case False
        have "c' = c1\<lparr>cn_tables := cn_tables c, cn_saved := None\<rparr>" "r = Inr x"
          using run b \<open>r0 = Inr u\<close> r1 Inr y False rollback_in_tx [OF tx1]
          by (auto simp: guarded_transaction_def bind_act_def catch_act_def)
        then show ?thesis using bc(1) r1 Inr y False by (auto simp: idle_def)
      qed
    qed
  qed
qed

lemma explicit_transaction_result:
  assumes body: "preserves (in_tx (cn_tables c)) body" and c: "idle c" and run: "explicit_transaction body c = (c', r)"
  shows "idle c' \<and> (case r of
      Inl e \<Rightarrow> cn_tables c' = cn_tables c
    | Inr x \<Rightarrow> \<exists>c0 c1. cn_tables c0 = cn_tables c \<and> body c0 = (c1, Inr x) \<and> cn_tables c' = cn_tables c1)"
proof -
  obtain c0 r0 where b: "sql_begin c = (c0, r0)" by fastforce
  note bc = begin_cases [OF c b]
  have undone: "idle c' \<and> cn_tables c' = cn_tables c \<and> r = Inl e"
    if "in_tx (cn_tables c) c2 \<or> idle c2 \<and> cn_tables c2 = cn_tables c"
      "bind_act (suppress_act sql_rollback) (\<lambda>_. raise_act e) c2 = (c', r)" for c2 and e
    using that rollback_in_tx by (auto simp: bind_act_def sql_rollback_def idle_def in_tx_def)
  show ?thesis
  proof (cases r0)
    case (Inl e)
    then have "bind_act (suppress_act sql_rollback) (\<lambda>_. raise_act e) c0 = (c', r)"
      using run b by (simp add: explicit_transaction_def)
    then have "idle c' \<and> cn_tables c' = cn_tables c \<and> r = Inl e" using bc Inl by (intro undone) auto
    then show ?thesis by simp
  next
    case (Inr u)
    then have tx: "in_tx (cn_tables c) c0" using bc by auto
    obtain c1 r1 where r1: "body c0 = (c1, r1)" by fastforce
    have tx1: "in_tx (cn_tables c) c1" using preservesD [OF body tx r1] .
    show ?thesis
    proof (cases r1)
      case (Inl e)
      then have "bind_act (suppress_act sql_rollback) (\<lambda>_. raise_act e) c1 = (c', r)"
        using run b Inr r1 by (simp add: explicit_transaction_def)
      then have "idle c' \<and> cn_tables c' = cn_tables c \<and> r = Inl e" using tx1 by (intro undone) auto
      then show ?thesis by simp
    next
      case (Inr x)
      obtain c2 r2 where c2: "sql_commit c1 = (c2, r2)" by fastforce
      note cc = commit_cases [OF tx1 c2]
      show ?thesis
      proof (cases r2)
        case (Inl e)
        then have "in_tx (cn_tables c) c2" using cc by auto
        moreover have "bind_act (suppress_act sql_rollback) (\<lambda>_. raise_act e) c2 = (c', r)"
          using run b \<open>r0 = Inr u\<close> r1 Inr c2 Inl
          by (simp add: explicit_transaction_def bind_act_def catch_act_def)
        ultimately have "idle c' \<and> cn_tables c' = cn_tables c \<and> r = Inl e" by (intro undone) auto
        then show ?thesis by simp
      next
        case (Inr v)
        have "c' = c2" "r = Inr x"
          using run b \<open>r0 = Inr u\<close> r1 \<open>r1 = Inr x\<close> c2 Inr
          by (auto simp: explicit_transaction_def bind_act_def catch_act_def)
        then show ?thesis using cc Inr bc(1) r1 \<open>r1 = Inr x\<close> by auto
      qed
    qed
  qed
qed

text \<open>Without faults every statement succeeds.\<close>

lemma no_faults [simp]:
  assumes "cn_faults c = []"
  shows "sql_select f c = (c, Inr (f (cn_tables c)))"
    "conn_commit c = (c\<lparr>cn_saved := None\<rparr>, Inr ())"
    "dml g c = (case g (cn_tables c) of Inl e \<Rightarrow> (implicit_begin c, Inl e)
      | Inr (t, x) \<Rightarrow> ((implicit_begin c)\<lparr>cn_tables := t\<rparr>, Inr x))"
  using assms by (auto simp: sql_select_def execute_def conn_commit_def dml_def)

lemma implicit_begin_simps [simp]:
  "cn_tables (implicit_begin c) = cn_tables c" "cn_faults (implicit_begin c) = cn_faults c"
  by (simp_all add: implicit_begin_def split: option.split)

section \<open>Restart\<close>

text \<open>What the database file holds, and a new connection to it after the process has ended.\<close>

definition committed :: "'t connection \<Rightarrow> 't" where
  "committed c = (case cn_saved c of None \<Rightarrow> cn_tables c | Some t \<Rightarrow> t)"

definition reopen :: "bool list \<Rightarrow> 't connection \<Rightarrow> 't connection" where
  "reopen faults c = connect (committed c) faults"

lemma committed_idle: "idle c \<Longrightarrow> committed c = cn_tables c"
  by (simp add: committed_def idle_def)

text \<open>What holds of the tables, now and after a rollback.\<close>

definition stored :: "('t \<Rightarrow> bool) \<Rightarrow> 't connection \<Rightarrow> bool" where
  "stored P c \<longleftrightarrow> P (cn_tables c) \<and> P (committed c)"

lemma stored_faults: "stored P c \<Longrightarrow> stored P (c\<lparr>cn_faults := fs\<rparr>)"
  by (auto simp: stored_def committed_def split: option.splits)

lemma stored_reopen [simp]: "stored P c \<Longrightarrow> stored P (reopen fs c)"
  by (auto simp: stored_def reopen_def committed_def connect_def split: option.splits)

lemma stored_select: "preserves (stored P) (sql_select f)"
  unfolding sql_select_def by (rule preserves_execute) (simp_all add: preserves_def stored_faults)

lemma stored_dml:
  assumes "\<And>t t' x. P t \<Longrightarrow> f t = Inr (t', x) \<Longrightarrow> P t'"
  shows "preserves (stored P) (dml f)"
  unfolding dml_def
proof (rule preserves_execute [OF preservesI])
  fix c c' r
  assume "stored P c" and r: "(case f (cn_tables c) of Inl e \<Rightarrow> (implicit_begin c, Inl e)
      | Inr (t, x) \<Rightarrow> ((implicit_begin c)\<lparr>cn_tables := t\<rparr>, Inr x)) = (c', r)"
  then have "P (cn_tables c)" "P (committed c)" by (simp_all add: stored_def)
  moreover have "committed ((implicit_begin c)\<lparr>cn_tables := t\<rparr>) = committed c" "committed (implicit_begin c) = committed c"
    "cn_tables (implicit_begin c) = cn_tables c" for t
    by (auto simp: committed_def implicit_begin_def split: option.splits)
  ultimately show "stored P c'" using r assms [of "cn_tables c"] by (auto simp: stored_def split: sum.splits)
qed (rule stored_faults)

lemma stored_commit: "preserves (stored P) conn_commit"
proof (rule preservesI)
  fix c c' r
  assume "stored P c" "conn_commit c = (c', r)"
  then show "stored P c'"
    by (auto simp: conn_commit_def execute_def stored_def committed_def split: if_splits list.splits option.splits)
qed

lemmas stored_intros = stored_select stored_dml stored_commit

end
