(* ===== verification/SQLite_Event_Log.thy ===== *)
theory SQLite_Event_Log
  imports SQLite_Connection Event_Log
begin

text \<open>
  \<^verbatim>\<open>persistence/sqlite_event_log.py\<close>: the event log on two SQLite tables.  The text in the payload
  column is represented by the value it reads back to, the payload with its keys in order.  The log
  fulfils the contract of an event log under any faults of the database, and without faults it
  answers every sequence of commits exactly as the in-memory log does.
\<close>

section \<open>Tables\<close>

record commit_row =
  cr_commit_sequence :: int
  cr_stream_run_id :: string
  cr_commit_id :: string
  cr_created_at :: string
  cr_event_count :: int

record event_row =
  er_commit_sequence :: int
  er_event_index :: int
  er_stream_run_id :: string
  er_event_run_id :: string
  er_commit_offset :: int
  er_event_id :: string
  er_event_type :: string
  er_event_class :: event_class
  er_event_authority :: event_authority
  er_ordering_key :: string
  er_wake_policy :: wake_policy
  er_created_at :: string
  er_idempotency_key :: "string option"
  er_payload_ref :: "string option"
  er_payload_json :: "jdict option"

text \<open>The \<^verbatim>\<open>AUTOINCREMENT\<close> counter of the commits is part of the database and of a rollback.\<close>

record event_tables =
  et_action_commits :: "commit_row list"
  et_runtime_events :: "event_row list"
  et_commit_sequence :: int

type_synonym event_connection = "event_tables connection"

definition initialize_schema :: event_tables where
  "initialize_schema = \<lparr>et_action_commits = [], et_runtime_events = [], et_commit_sequence = 0\<rparr>"

definition integrity_error :: "string \<Rightarrow> exn" where
  "integrity_error msg = OtherError ''IntegrityError'' msg"

section \<open>The log\<close>

definition serialize_payload :: "jdict option \<Rightarrow> jdict option" where
  "serialize_payload payload_json = map_option json_sort_dict payload_json"

definition stream_offsets :: "event_tables \<Rightarrow> string \<Rightarrow> int list" where
  "stream_offsets t run_id =
     map er_commit_offset (filter (\<lambda>r. er_stream_run_id r = run_id) (et_runtime_events t))"

text \<open>\<^verbatim>\<open>SELECT COALESCE(MAX(commit_offset), 0)\<close>\<close>

definition coalesce_max :: "int list \<Rightarrow> int" where
  "coalesce_max offsets = (if offsets = [] then 0 else Max (set offsets))"

definition sqe_max_offset :: "string \<Rightarrow> (event_connection, int) act" where
  "sqe_max_offset run_id = sql_select (\<lambda>t. coalesce_max (stream_offsets t run_id))"

definition load_next_offset :: "string \<Rightarrow> (event_connection, int) act" where
  "load_next_offset stream_run_id =
     bind_act (sql_select (\<lambda>t. coalesce_max (stream_offsets t stream_run_id))) (\<lambda>max_offset.
     return_act (max_offset + 1))"

text \<open>The \<^verbatim>\<open>INSERT\<close> statements with the constraints of the schema, for tables of any name.\<close>

definition commit_insert :: "action_commit \<Rightarrow> event_tables \<Rightarrow> (event_tables \<times> int) result" where
  "commit_insert commit t =
     (if cm_events commit = [] then Inl (integrity_error ''CHECK constraint failed: event_count > 0'')
      else
        let sequence = et_commit_sequence t + 1
        in Inr (t\<lparr>et_commit_sequence := sequence,
                  et_action_commits := et_action_commits t @
                    [\<lparr>cr_commit_sequence = sequence, cr_stream_run_id = cm_run_id commit,
                      cr_commit_id = cm_commit_id commit, cr_created_at = cm_created_at commit,
                      cr_event_count = int (length (cm_events commit))\<rparr>]\<rparr>, sequence))"

definition unique_failed :: "string \<Rightarrow> string \<Rightarrow> string \<Rightarrow> exn" where
  "unique_failed table a b = integrity_error (''UNIQUE constraint failed: '' @ table @ ''.'' @ a @ '', '' @ table @ ''.'' @ b)"

definition event_insert :: "string \<Rightarrow> event_row \<Rightarrow> event_tables \<Rightarrow> (event_tables \<times> unit) result" where
  "event_insert table row t =
     (if list_ex (\<lambda>r. er_stream_run_id r = er_stream_run_id row \<and> er_commit_offset r = er_commit_offset row)
          (et_runtime_events t)
      then Inl (unique_failed table ''stream_run_id'' ''commit_offset'')
      else if list_ex (\<lambda>r. er_commit_sequence r = er_commit_sequence row \<and> er_event_index r = er_event_index row)
          (et_runtime_events t)
      then Inl (unique_failed table ''commit_sequence'' ''event_index'')
      else if \<not> list_ex (\<lambda>r. cr_commit_sequence r = er_commit_sequence row) (et_action_commits t)
      then Inl (integrity_error ''FOREIGN KEY constraint failed'')
      else Inr (t\<lparr>et_runtime_events := et_runtime_events t @ [row]\<rparr>, ()))"

definition insert_commit_row :: "action_commit \<Rightarrow> (event_connection, int) act" where
  "insert_commit_row commit = dml (commit_insert commit)"

definition insert_event_row :: "event_row \<Rightarrow> (event_connection, unit) act" where
  "insert_event_row row = dml (event_insert ''runtime_events'' row)"

text \<open>The row of an event, with the text \<open>ser\<close> makes of its payload.\<close>

definition event_row_of ::
  "(jdict option \<Rightarrow> jdict option) \<Rightarrow> string \<Rightarrow> int \<Rightarrow> int \<Rightarrow> int \<Rightarrow> runtime_event \<Rightarrow> event_row" where
  "event_row_of ser stream_run_id commit_sequence starting_offset event_index event =
     \<lparr>er_commit_sequence = commit_sequence, er_event_index = event_index, er_stream_run_id = stream_run_id,
      er_event_run_id = ev_run_id event, er_commit_offset = starting_offset + event_index,
      er_event_id = ev_event_id event, er_event_type = ev_event_type event,
      er_event_class = ev_event_class event, er_event_authority = ev_event_authority event,
      er_ordering_key = ev_ordering_key event, er_wake_policy = ev_wake_policy event,
      er_created_at = ev_created_at event, er_idempotency_key = ev_idempotency_key event,
      er_payload_ref = ev_payload_ref event, er_payload_json = ser (ev_payload_json event)\<rparr>"

fun insert_event_rows ::
  "string \<Rightarrow> int \<Rightarrow> int \<Rightarrow> int \<Rightarrow> runtime_event list \<Rightarrow> (event_connection, unit) act" where
  "insert_event_rows stream_run_id commit_sequence starting_offset event_index [] = return_act ()"
| "insert_event_rows stream_run_id commit_sequence starting_offset event_index (event # events) =
     bind_act (insert_event_row (event_row_of serialize_payload stream_run_id commit_sequence starting_offset event_index event)) (\<lambda>_.
     insert_event_rows stream_run_id commit_sequence starting_offset (event_index + 1) events)"

text \<open>The block under \<^verbatim>\<open>with self._connection\<close>; only the inserts open a transaction.\<close>

definition append_block :: "action_commit \<Rightarrow> (event_connection, int) act" where
  "append_block commit =
     bind_act (load_next_offset (cm_run_id commit)) (\<lambda>next_offset.
     bind_act (insert_commit_row commit) (\<lambda>commit_sequence.
     bind_act (insert_event_rows (cm_run_id commit) commit_sequence next_offset 0 (cm_events commit)) (\<lambda>_.
     return_act commit_sequence)))"

definition sqe_append_action_commit :: "event_connection \<Rightarrow> action_commit \<Rightarrow> event_connection \<times> string result" where
  "sqe_append_action_commit c commit =
     (if cm_events commit = [] then (c, Inl (ValueError ''ActionCommit.events must contain at least one event.''))
      else bind_act (in_transaction (append_block commit)) (\<lambda>commit_sequence.
        return_act (''commit-ref-'' @ show_int commit_sequence)) c)"

definition row_to_runtime_event :: "event_row \<Rightarrow> runtime_event" where
  "row_to_runtime_event row =
     \<lparr>ev_run_id = er_event_run_id row, ev_event_id = er_event_id row, ev_commit_offset = er_commit_offset row,
      ev_event_type = er_event_type row, ev_event_class = er_event_class row,
      ev_event_authority = er_event_authority row, ev_ordering_key = er_ordering_key row,
      ev_wake_policy = er_wake_policy row, ev_created_at = er_created_at row,
      ev_idempotency_key = er_idempotency_key row, ev_payload_ref = er_payload_ref row,
      ev_payload_json = er_payload_json row, ev_schema_version = ''1''\<rparr>"

text \<open>\<^verbatim>\<open>WHERE stream_run_id = ? AND commit_offset > ? ORDER BY commit_offset ASC\<close>\<close>

definition select_events :: "event_tables \<Rightarrow> string \<Rightarrow> int \<Rightarrow> runtime_event list" where
  "select_events t run_id after_offset =
     map row_to_runtime_event (sort_key er_commit_offset
       (filter (\<lambda>r. er_stream_run_id r = run_id \<and> er_commit_offset r > after_offset) (et_runtime_events t)))"

definition sqe_load :: "string \<Rightarrow> int \<Rightarrow> (event_connection, runtime_event list) act" where
  "sqe_load run_id after_offset = sql_select (\<lambda>t. select_events t run_id after_offset)"

section \<open>The tables stay consistent\<close>

text \<open>
  The offsets of a run are 1, 2, 3, ... in the order of insertion, and every commit number is at
  most the counter.
\<close>

definition stream_rows :: "event_tables \<Rightarrow> string \<Rightarrow> event_row list" where
  "stream_rows t run_id = filter (\<lambda>r. er_stream_run_id r = run_id) (et_runtime_events t)"

definition tables_ok :: "event_tables \<Rightarrow> bool" where
  "tables_ok t \<longleftrightarrow>
     (\<forall>run_id. map er_commit_offset (stream_rows t run_id) = map (\<lambda>i. 1 + int i) [0..<length (stream_rows t run_id)]) \<and>
     (\<forall>r\<in>set (et_runtime_events t). er_commit_sequence r \<le> et_commit_sequence t)"

definition sqe_invar :: "event_connection \<Rightarrow> bool" where
  "sqe_invar c \<longleftrightarrow> idle c \<and> tables_ok (cn_tables c)"

lemma tables_ok_initial [simp]: "tables_ok initialize_schema"
  by (simp add: tables_ok_def initialize_schema_def stream_rows_def)

lemma coalesce_max_offsets: "coalesce_max (map (\<lambda>i. 1 + int i) [0..<n]) = int n"
proof (cases n)
  case (Suc m)
  have "Max (set (map (\<lambda>i. 1 + int i) [0..<n])) = int n"
    by (rule Max_eqI) (auto simp: Suc intro!: image_eqI [of _ _ m])
  then show ?thesis by (simp add: coalesce_max_def Suc)
qed (simp add: coalesce_max_def)

lemma next_offset_ok: "tables_ok t \<Longrightarrow> coalesce_max (stream_offsets t run_id) = int (length (stream_rows t run_id))"
  using coalesce_max_offsets [of "length (stream_rows t run_id)"]
  by (simp add: stream_offsets_def tables_ok_def stream_rows_def)

text \<open>The rows a commit adds.\<close>

fun rows_of :: "(jdict option \<Rightarrow> jdict option) \<Rightarrow> string \<Rightarrow> int \<Rightarrow> int \<Rightarrow> int \<Rightarrow> runtime_event list \<Rightarrow> event_row list" where
  "rows_of ser run_id sequence start i [] = []"
| "rows_of ser run_id sequence start i (e # es) = event_row_of ser run_id sequence start i e # rows_of ser run_id sequence start (i + 1) es"

lemma rows_of_append: "rows_of ser run_id sequence start i (es @ fs) =
    rows_of ser run_id sequence start i es @ rows_of ser run_id sequence start (i + int (length es)) fs"
  by (induction es arbitrary: i) (simp_all add: ac_simps)

lemma length_rows_of [simp]: "length (rows_of ser run_id sequence start i es) = length es"
  by (induction es arbitrary: i) auto

lemma insert_event_rows_Inr:
  "insert_event_rows run_id sequence start i es c = (c', Inr u) \<Longrightarrow>
     cn_tables c' = (cn_tables c)\<lparr>et_runtime_events := et_runtime_events (cn_tables c) @ rows_of serialize_payload run_id sequence start i es\<rparr>"
proof (induction es arbitrary: i c)
  case (Cons e es)
  from Cons.prems obtain c1 where 1: "insert_event_row (event_row_of serialize_payload run_id sequence start i e) c = (c1, Inr ())"
    "insert_event_rows run_id sequence start (i + 1) es c1 = (c', Inr u)"
    by (auto elim!: bind_act_InrE)
  have "cn_tables c1 = (cn_tables c)\<lparr>et_runtime_events := et_runtime_events (cn_tables c) @ [event_row_of serialize_payload run_id sequence start i e]\<rparr>"
    using dml_Inr [OF 1(1) [unfolded insert_event_row_def]] by (auto simp: event_insert_def split: if_splits)
  with Cons.IH [OF 1(2)] show ?case by simp
qed simp

lemma from_tables_event_rows [preserves_intros]:
  "preserves (from_tables t) (insert_event_rows run_id sequence start i es)"
proof (induction es arbitrary: i)
  case Nil
  show ?case unfolding insert_event_rows.simps by (rule preserves_pure(1))
next
  case (Cons e es)
  then show ?case unfolding insert_event_rows.simps insert_event_row_def by (intro preserves_intros)
qed

lemma from_tables_append_block: "preserves (from_tables t) (append_block commit)"
  unfolding append_block_def load_next_offset_def insert_commit_row_def by (intro preserves_intros)

text \<open>The tables after a commit.\<close>

definition append_rows :: "(jdict option \<Rightarrow> jdict option) \<Rightarrow> event_tables \<Rightarrow> action_commit \<Rightarrow> event_tables" where
  "append_rows ser t commit =
     t\<lparr>et_commit_sequence := et_commit_sequence t + 1,
       et_action_commits := et_action_commits t @
         [\<lparr>cr_commit_sequence = et_commit_sequence t + 1, cr_stream_run_id = cm_run_id commit,
           cr_commit_id = cm_commit_id commit, cr_created_at = cm_created_at commit,
           cr_event_count = int (length (cm_events commit))\<rparr>],
       et_runtime_events := et_runtime_events t @
         rows_of ser (cm_run_id commit) (et_commit_sequence t + 1)
           (coalesce_max (stream_offsets t (cm_run_id commit)) + 1) 0 (cm_events commit)\<rparr>"

lemma append_block_Inr:
  assumes "append_block commit c = (c', Inr seq)"
  shows "cn_tables c' = append_rows serialize_payload (cn_tables c) commit \<and> seq = et_commit_sequence (cn_tables c) + 1"
proof -
  from assms obtain c1 n c2 c3 where
    1: "load_next_offset (cm_run_id commit) c = (c1, Inr n)" and
    2: "insert_commit_row commit c1 = (c2, Inr seq)" and
    3: "insert_event_rows (cm_run_id commit) seq n 0 (cm_events commit) c2 = (c3, Inr ())" and c': "c' = c3"
    unfolding append_block_def by (auto elim!: bind_act_InrE)
  from 1 have n: "cn_tables c1 = cn_tables c" "n = coalesce_max (stream_offsets (cn_tables c) (cm_run_id commit)) + 1"
    unfolding load_next_offset_def by (auto elim!: bind_act_InrE dest!: select_Inr)
  have seq: "seq = et_commit_sequence (cn_tables c) + 1" and
    c2: "cn_tables c2 = (append_rows serialize_payload (cn_tables c) commit)\<lparr>et_runtime_events := et_runtime_events (cn_tables c)\<rparr>"
    using dml_Inr [OF 2 [unfolded insert_commit_row_def]] n(1)
    by (auto simp: append_rows_def commit_insert_def Let_def split: if_splits)
  show ?thesis using insert_event_rows_Inr [OF 3] c' seq n(2) c2 by (simp add: append_rows_def)
qed

lemma sqe_append_cases:
  assumes inv: "idle c" and run: "sqe_append_action_commit c commit = (c', r)"
  shows "idle c'" and "r = Inl e \<Longrightarrow> cn_tables c' = cn_tables c"
    and "r = Inr ref \<Longrightarrow> cm_events commit \<noteq> [] \<and> cn_tables c' = append_rows serialize_payload (cn_tables c) commit
      \<and> ref = ''commit-ref-'' @ show_int (et_commit_sequence (cn_tables c) + 1)"
proof -
  have "idle c' \<and> (case r of Inl e \<Rightarrow> cn_tables c' = cn_tables c
      | Inr ref \<Rightarrow> cm_events commit \<noteq> [] \<and> cn_tables c' = append_rows serialize_payload (cn_tables c) commit
          \<and> ref = ''commit-ref-'' @ show_int (et_commit_sequence (cn_tables c) + 1))"
  proof (cases "cm_events commit = []")
    case True
    then show ?thesis using run inv by (auto simp: sqe_append_action_commit_def)
  next
    case False
    obtain c1 r1 where t: "in_transaction (append_block commit) c = (c1, r1)" by fastforce
    note tr = in_transaction_result [OF from_tables_append_block inv t]
    show ?thesis
    proof (cases r1)
      case (Inl e)
      then show ?thesis using run False t tr(1,2) by (auto simp: sqe_append_action_commit_def)
    next
      case (Inr seq)
      from tr(3) [OF Inr] obtain c2 where "append_block commit c = (c2, Inr seq)" "cn_tables c1 = cn_tables c2" by blast
      then show ?thesis using run False t tr(1) Inr append_block_Inr [of commit c c2 seq]
        by (auto simp: sqe_append_action_commit_def)
    qed
  qed
  then show "idle c'" "r = Inl e \<Longrightarrow> cn_tables c' = cn_tables c"
    "r = Inr ref \<Longrightarrow> cm_events commit \<noteq> [] \<and> cn_tables c' = append_rows serialize_payload (cn_tables c) commit
      \<and> ref = ''commit-ref-'' @ show_int (et_commit_sequence (cn_tables c) + 1)" by auto
qed

section \<open>The contract\<close>

lemma rows_of_stream:
  "filter (\<lambda>r. er_stream_run_id r = run) (rows_of ser run_id sequence start i es) =
     (if run = run_id then rows_of ser run_id sequence start i es else [])"
  by (induction es arbitrary: i) (auto simp: event_row_of_def)

lemma rows_of_offsets: "map er_commit_offset (rows_of ser run_id sequence start i es) = map (\<lambda>j. start + i + int j) [0..<length es]"
proof (induction es arbitrary: i)
  case (Cons e es)
  have "map (\<lambda>j. start + i + int j) [0..<Suc n] = (start + i) # map (\<lambda>j. start + (i + 1) + int j) [0..<n]" for n
    by (simp add: upt_conv_Cons map_Suc_upt [symmetric] del: upt_Suc)
  with Cons show ?case by (simp add: event_row_of_def)
qed simp

lemma rows_of_sequence: "r \<in> set (rows_of ser run_id sequence start i es) \<Longrightarrow> er_commit_sequence r = sequence"
  by (induction es arbitrary: i) (auto simp: event_row_of_def)

lemma rows_of_same: "list_all2 same_event es (map row_to_runtime_event (rows_of serialize_payload run_id sequence start i es))"
  by (induction es arbitrary: i)
    (auto simp: same_event_def row_to_runtime_event_def event_row_of_def serialize_payload_def)

lemma stream_rows_append:
  "stream_rows (append_rows ser t commit) run_id = stream_rows t run_id @
     (if run_id = cm_run_id commit then rows_of ser run_id (et_commit_sequence t + 1)
        (coalesce_max (stream_offsets t run_id) + 1) 0 (cm_events commit) else [])"
  by (simp add: stream_rows_def append_rows_def rows_of_stream)

lemma offsets_extend:
  "map (\<lambda>i. 1 + int i) [0..<n] @ map (\<lambda>j. int n + 1 + int j) [0..<m] = map (\<lambda>i. 1 + int i) [0..<n + m]"
proof -
  have "map (\<lambda>j. int n + 1 + int j) [0..<m] = map (\<lambda>i. 1 + int i) [n..<n + m]"
    by (simp add: map_add_upt [symmetric] comp_def ac_simps)
  then show ?thesis by (simp add: upt_add_eq_append [of 0 n m])
qed

lemma tables_ok_append:
  assumes "tables_ok t"
  shows "tables_ok (append_rows ser t commit)"
proof -
  have "map er_commit_offset (stream_rows (append_rows ser t commit) r) =
      map (\<lambda>i. 1 + int i) [0..<length (stream_rows (append_rows ser t commit) r)]" for r
    using assms offsets_extend [of "length (stream_rows t r)" "length (cm_events commit)"] next_offset_ok [OF assms, of r]
    by (auto simp: stream_rows_append rows_of_offsets tables_ok_def)
  moreover have "er_commit_sequence r \<le> et_commit_sequence t + 1"
    if "r \<in> set (et_runtime_events (append_rows ser t commit))" for r
    using assms that by (auto simp: append_rows_def tables_ok_def dest!: rows_of_sequence)
  ultimately show ?thesis by (simp add: tables_ok_def append_rows_def)
qed

lemma select_events_all:
  assumes "tables_ok t"
  shows "select_events t run_id k = filter (\<lambda>e. ev_commit_offset e > k) (map row_to_runtime_event (stream_rows t run_id))"
proof -
  let ?rows = "filter (\<lambda>r. er_stream_run_id r = run_id \<and> er_commit_offset r > k) (et_runtime_events t)"
  have "sorted (map er_commit_offset (stream_rows t run_id))"
    using assms by (simp add: tables_ok_def sorted_iff_nth_mono)
  then have "sorted (map er_commit_offset (filter (\<lambda>r. er_commit_offset r > k) (stream_rows t run_id)))"
    by (rule sorted_filter)
  then have "sort_key er_commit_offset ?rows = ?rows"
    by (intro sort_key_sorted) (simp add: stream_rows_def conj_commute)
  then show ?thesis
    by (simp add: select_events_def stream_rows_def filter_map comp_def row_to_runtime_event_def conj_commute)
qed

lemma select_events_0:
  assumes "tables_ok t"
  shows "select_events t run_id 0 = map row_to_runtime_event (stream_rows t run_id)"
proof -
  have "set (map er_commit_offset (stream_rows t run_id)) \<subseteq> {0<..}"
    using assms by (auto simp: tables_ok_def)
  then have "\<forall>e\<in>set (map row_to_runtime_event (stream_rows t run_id)). 0 < ev_commit_offset e"
    by (auto simp: row_to_runtime_event_def)
  then show ?thesis unfolding select_events_all [OF assms, of run_id 0] by (rule filter_True)
qed

lemma stream_offsets_from:
  assumes "tables_ok t"
  shows "offsets_from 1 (map row_to_runtime_event (stream_rows t run_id))"
  using assms by (simp add: offsets_from_def tables_ok_def comp_def row_to_runtime_event_def)

interpretation slog: event_log_port sqe_append_action_commit "\<lambda>c. select_events (cn_tables c)" sqe_invar "\<lambda>_ _ _. True"
proof
  fix s run_id k
  assume "sqe_invar s"
  then have ok: "tables_ok (cn_tables s)" by (simp add: sqe_invar_def)
  show "select_events (cn_tables s) run_id k =
      filter (\<lambda>e. ev_commit_offset e > k) (select_events (cn_tables s) run_id 0)"
    by (simp only: select_events_0 [OF ok] select_events_all [OF ok, of run_id k])
  show "offsets_from 1 (select_events (cn_tables s) run_id 0)"
    by (simp add: select_events_0 [OF ok] stream_offsets_from [OF ok])
next
  fix s commit s' and res :: "string result"
  assume "sqe_invar s" "sqe_append_action_commit s commit = (s', res)"
  then show "sqe_invar s'"
    using sqe_append_cases [of s commit s' res] tables_ok_append [of "cn_tables s" serialize_payload commit]
    by (cases res) (auto simp: sqe_invar_def)
next
  fix s commit s' e run_id
  assume "sqe_invar s" "sqe_append_action_commit s commit = (s', Inl e)"
  then show "select_events (cn_tables s') run_id 0 = select_events (cn_tables s) run_id 0"
    using sqe_append_cases(2) by (auto simp: sqe_invar_def)
next
  fix s commit s' ref
  assume "sqe_invar s" "sqe_append_action_commit s commit = (s', Inr ref)"
  then have ok: "tables_ok (cn_tables s)" "cn_tables s' = append_rows serialize_payload (cn_tables s) commit"
    using sqe_append_cases(3) by (auto simp: sqe_invar_def)
  let ?new = "map row_to_runtime_event (rows_of serialize_payload (cm_run_id commit) (et_commit_sequence (cn_tables s) + 1)
    (coalesce_max (stream_offsets (cn_tables s) (cm_run_id commit)) + 1) 0 (cm_events commit))"
  have "select_events (cn_tables s') (cm_run_id commit) 0 = select_events (cn_tables s) (cm_run_id commit) 0 @ ?new"
    using ok tables_ok_append [OF ok(1), of serialize_payload commit] by (simp add: select_events_0 stream_rows_append)
  then show "\<exists>new. select_events (cn_tables s') (cm_run_id commit) 0 =
      select_events (cn_tables s) (cm_run_id commit) 0 @ new \<and> list_all2 same_event (cm_events commit) new"
    using rows_of_same by blast
next
  fix s commit s' ref run_id
  assume "sqe_invar s" "sqe_append_action_commit s commit = (s', Inr ref)" "run_id \<noteq> cm_run_id commit"
  then have ok: "tables_ok (cn_tables s)" "cn_tables s' = append_rows serialize_payload (cn_tables s) commit" "run_id \<noteq> cm_run_id commit"
    using sqe_append_cases(3) by (auto simp: sqe_invar_def)
  then show "select_events (cn_tables s') run_id 0 = select_events (cn_tables s) run_id 0"
    using tables_ok_append [OF ok(1), of serialize_payload commit] by (simp add: select_events_0 stream_rows_append)
qed

section \<open>The same log as in memory\<close>

text \<open>Without faults no constraint stands in the way of a commit.\<close>

definition room_for :: "string \<Rightarrow> int \<Rightarrow> int \<Rightarrow> int \<Rightarrow> event_tables \<Rightarrow> bool" where
  "room_for run_id sequence start i t \<longleftrightarrow>
     (\<forall>r\<in>set (et_runtime_events t).
        (er_stream_run_id r = run_id \<longrightarrow> er_commit_offset r < start + i) \<and>
        (er_commit_sequence r = sequence \<longrightarrow> er_event_index r < i)) \<and>
     list_ex (\<lambda>r. cr_commit_sequence r = sequence) (et_action_commits t)"

lemma insert_event_rows_ok:
  assumes "cn_faults c = []" "room_for run_id sequence start i (cn_tables c)"
  shows "\<exists>c'. insert_event_rows run_id sequence start i es c = (c', Inr ()) \<and> cn_faults c' = []"
  using assms
proof (induction es arbitrary: c i)
  case (Cons e es)
  let ?row = "event_row_of serialize_payload run_id sequence start i e"
  let ?c = "(implicit_begin c)\<lparr>cn_tables := (cn_tables c)\<lparr>et_runtime_events := et_runtime_events (cn_tables c) @ [?row]\<rparr>\<rparr>"
  have row: "er_stream_run_id ?row = run_id" "er_commit_offset ?row = start + i"
    "er_commit_sequence ?row = sequence" "er_event_index ?row = i"
    by (simp_all add: event_row_of_def)
  have "insert_event_row ?row c = (?c, Inr ())"
    using Cons.prems by (auto simp: insert_event_row_def event_insert_def room_for_def row list_ex_iff)
  moreover have "room_for run_id sequence start (i + 1) (cn_tables ?c)"
    using Cons.prems(2) by (auto simp: room_for_def row)
  then obtain c' where "insert_event_rows run_id sequence start (i + 1) es ?c = (c', Inr ())" "cn_faults c' = []"
    using Cons.IH [of ?c "i + 1"] Cons.prems(1) by auto
  ultimately show ?case by simp
qed simp

lemma sqe_append_ok:
  assumes ok: "tables_ok (cn_tables c)" "cn_faults c = []" "idle c" "cm_events commit \<noteq> []"
  shows "\<exists>c'. sqe_append_action_commit c commit =
      (c', Inr (''commit-ref-'' @ show_int (et_commit_sequence (cn_tables c) + 1))) \<and> cn_faults c' = []"
proof -
  let ?t = "cn_tables c" and ?run = "cm_run_id commit"
  let ?n = "coalesce_max (stream_offsets ?t ?run) + 1" and ?seq = "et_commit_sequence ?t + 1"
  let ?c = "(implicit_begin c)\<lparr>cn_tables := ?t\<lparr>et_commit_sequence := ?seq, et_action_commits := et_action_commits ?t @
    [\<lparr>cr_commit_sequence = ?seq, cr_stream_run_id = ?run, cr_commit_id = cm_commit_id commit,
      cr_created_at = cm_created_at commit, cr_event_count = int (length (cm_events commit))\<rparr>]\<rparr>\<rparr>"
  have "room_for ?run ?seq ?n 0 (cn_tables ?c)"
  proof -
    have "er_commit_offset r < ?n" if "r \<in> set (et_runtime_events ?t)" "er_stream_run_id r = ?run" for r
    proof -
      have "er_commit_offset r \<in> set (map er_commit_offset (stream_rows ?t ?run))"
        using that by (auto simp: stream_rows_def)
      then show ?thesis using ok(1) next_offset_ok [OF ok(1), of ?run] unfolding tables_ok_def by auto
    qed
    moreover have "er_commit_sequence r < ?seq" if "r \<in> set (et_runtime_events ?t)" for r
      using that ok(1) by (auto simp: tables_ok_def)
    ultimately show ?thesis by (fastforce simp: room_for_def)
  qed
  then obtain c' where rows: "insert_event_rows ?run ?seq ?n 0 (cm_events commit) ?c = (c', Inr ())" "cn_faults c' = []"
    using insert_event_rows_ok [of ?c ?run ?seq ?n 0 "cm_events commit"] ok(2) by auto
  have "load_next_offset ?run c = (c, Inr ?n)"
    using ok(2) by (simp add: load_next_offset_def)
  moreover have "insert_commit_row commit c = (?c, Inr ?seq)"
    using ok(2,4) by (simp add: insert_commit_row_def commit_insert_def Let_def)
  ultimately have "append_block commit c = (c', Inr ?seq)"
    using rows(1) by (simp add: append_block_def)
  then have "in_transaction (append_block commit) c = (c'\<lparr>cn_saved := None\<rparr>, Inr ?seq)"
    using rows(2) by (simp add: in_transaction_def)
  then show ?thesis using ok(4) rows(2) by (simp add: sqe_append_action_commit_def)
qed

fun append_log :: "('s \<Rightarrow> action_commit \<Rightarrow> 's \<times> string result) \<Rightarrow> 's \<Rightarrow> action_commit list \<Rightarrow> 's \<times> string result list" where
  "append_log f s [] = (s, [])"
| "append_log f s (c # cs) =
     (case f s c of (s', r) \<Rightarrow> (case append_log f s' cs of (s'', rs) \<Rightarrow> (s'', r # rs)))"

definition sorted_payload :: "runtime_event \<Rightarrow> runtime_event" where
  "sorted_payload e = e\<lparr>ev_payload_json := serialize_payload (ev_payload_json e)\<rparr>"

text \<open>Both logs hold the same events of every run and are at the same commit number.\<close>

definition same_log :: "event_connection \<Rightarrow> event_log \<Rightarrow> bool" where
  "same_log c s \<longleftrightarrow> sqe_invar c \<and> cn_faults c = [] \<and> log_invar s \<and>
     et_commit_sequence (cn_tables c) = el_commit_sequence s \<and>
     (\<forall>run_id. select_events (cn_tables c) run_id 0 = map sorted_payload (load_events s run_id 0))"

lemma rows_of_events:
  "map row_to_runtime_event (rows_of serialize_payload run_id sequence start i es) = map sorted_payload (normalize_events (start + i) es)"
  by (induction es arbitrary: i)
    (simp_all add: row_to_runtime_event_def event_row_of_def sorted_payload_def normalize_event_def ac_simps)

lemma append_keeps_runs:
  assumes "log_invar s" "append_action_commit s commit = (s', r)"
  shows "set (map fst (el_events_by_run s')) \<subseteq> insert (cm_run_id commit) (set (map fst (el_events_by_run s)))"
proof (cases "cm_events commit = []")
  case True
  then show ?thesis using assms(2) by (auto simp: append_action_commit_def)
next
  case False
  have ext: "set (map fst (log_extend s commit)) \<subseteq> insert (cm_run_id commit) (set (map fst (el_events_by_run s)))"
    unfolding log_extend_keys by auto
  have pop: "set (map fst (dict_pop k d)) \<subseteq> set (map fst d)" for k and d :: "(string, runtime_event list) dict"
    unfolding dict_pop_def AList.delete_eq by auto
  have "el_events_by_run s' = log_extend s commit
      \<or> el_events_by_run s' = dict_pop (fst (hd (log_extend s commit))) (log_extend s commit)"
    using assms(2) unfolding append_action_commit_eq [OF assms(1) False] by (auto simp: Let_def split: if_splits)
  then show ?thesis using ext subset_trans [OF pop ext] by (elim disjE) simp_all
qed

lemma no_eviction:
  assumes "log_invar s" "set (map fst (el_events_by_run s)) \<subseteq> R" "cm_run_id commit \<in> R" "finite R" "card R \<le> 5000"
  shows "log_retains s commit run_id"
proof (cases "dict_has (el_events_by_run s) (cm_run_id commit)")
  case False
  then have "cm_run_id commit \<notin> set (map fst (el_events_by_run s))" by (auto simp: dict_has_def)
  then have "card (insert (cm_run_id commit) (set (map fst (el_events_by_run s)))) = Suc (length (el_events_by_run s))"
    using assms(1) by (simp add: log_invar_def dict_wf_def distinct_card flip: set_map)
  moreover have "card (insert (cm_run_id commit) (set (map fst (el_events_by_run s)))) \<le> card R"
    using assms(2-4) by (intro card_mono) auto
  ultimately show ?thesis using assms(5) by (simp add: log_retains_def MAX_RETAINED_RUNS_def)
qed (simp add: log_retains_def)

lemma same_log_append:
  assumes same: "same_log c s" and runs: "set (map fst (el_events_by_run s)) \<subseteq> R" "cm_run_id commit \<in> R" "finite R" "card R \<le> 5000"
    and c': "sqe_append_action_commit c commit = (c', r)" and s': "append_action_commit s commit = (s', r')"
  shows "same_log c' s' \<and> r = r'"
proof (cases "cm_events commit = []")
  case True
  then show ?thesis using same c' s' by (auto simp: sqe_append_action_commit_def append_action_commit_def)
next
  case False
  have ok: "tables_ok (cn_tables c)" "cn_faults c = []" "idle c" "log_invar s"
    using same by (auto simp: same_log_def sqe_invar_def)
  have r': "r' = Inr (''commit-ref-'' @ show_int (el_commit_sequence s + 1))" "el_commit_sequence s' = el_commit_sequence s + 1"
    using s' unfolding append_action_commit_eq [OF ok(4) False] by (auto simp: Let_def split: if_splits)
  have r: "r = Inr (''commit-ref-'' @ show_int (et_commit_sequence (cn_tables c) + 1))" "cn_faults c' = []"
    using sqe_append_ok [OF ok(1-3) False] c' by auto
  have t: "cn_tables c' = append_rows serialize_payload (cn_tables c) commit" using sqe_append_cases(3) [OF ok(3) c' r(1)] by blast
  have "select_events (cn_tables c') run_id 0 = map sorted_payload (load_events s' run_id 0)" for run_id
  proof -
    have old: "map row_to_runtime_event (stream_rows (cn_tables c) run_id) = map sorted_payload (load_events s run_id 0)"
      using same select_events_0 [OF ok(1), of run_id] by (simp add: same_log_def)
    then have len: "length (stream_rows (cn_tables c) run_id) = length (load_events s run_id 0)"
      by (metis length_map)
    have "load_events s' run_id 0 = load_events s run_id 0 @ (if run_id = cm_run_id commit
        then normalize_events (int (length (load_events s run_id 0)) + 1) (cm_events commit) else [])"
      using log_append_load [OF ok(4) s' [unfolded r'(1)], of run_id] no_eviction [OF ok(4) runs, of run_id] by simp
    then show ?thesis
      using old len select_events_0 [OF tables_ok_append [OF ok(1), of serialize_payload commit], of run_id] next_offset_ok [OF ok(1), of run_id]
      by (cases "run_id = cm_run_id commit") (simp_all add: t stream_rows_append rows_of_events)
  qed
  moreover have "sqe_invar c'" using slog.append_invar [OF _ c'] ok by (simp add: sqe_invar_def)
  ultimately show ?thesis
    using r r' t same log_invar_append [OF ok(4) s'] by (simp add: same_log_def append_rows_def)
qed

lemma same_log_append_log:
  assumes "same_log c s" "set (map fst (el_events_by_run s)) \<subseteq> R" "cm_run_id ` set commits \<subseteq> R" "finite R" "card R \<le> 5000"
  shows "same_log (fst (append_log sqe_append_action_commit c commits)) (fst (append_log append_action_commit s commits))
    \<and> snd (append_log sqe_append_action_commit c commits) = snd (append_log append_action_commit s commits)"
  using assms(1-3)
proof (induction commits arbitrary: c s)
  case (Cons x xs)
  obtain c' r where c': "sqe_append_action_commit c x = (c', r)" by fastforce
  obtain s' r' where s': "append_action_commit s x = (s', r')" by fastforce
  have "cm_run_id x \<in> R" using Cons.prems(3) by simp
  note step = same_log_append [OF Cons.prems(1,2) this assms(4,5) c' s']
  have "set (map fst (el_events_by_run s')) \<subseteq> R"
    by (rule subset_trans [OF append_keeps_runs [OF _ s']])
      (use Cons.prems(1,2) \<open>cm_run_id x \<in> R\<close> in \<open>simp_all add: same_log_def\<close>)
  with Cons.IH [of c' s'] step Cons.prems(3) c' s' show ?case by (auto split: prod.splits)
qed simp

text \<open>
  C5 (equivalence): without faults the SQLite log gives the same references for every sequence of
  commits as the in-memory log, and reads the same events back, with the keys of payloads in
  order, as long as no run is pushed out of memory.
\<close>

theorem sqlite_log_equals_in_memory:
  assumes "card (cm_run_id ` set commits) \<le> 5000"
  shows "snd (append_log sqe_append_action_commit (connect initialize_schema []) commits) =
      snd (append_log append_action_commit empty_event_log commits)
    \<and> select_events (cn_tables (fst (append_log sqe_append_action_commit (connect initialize_schema []) commits))) run_id k =
      map sorted_payload (load_events (fst (append_log append_action_commit empty_event_log commits)) run_id k)"
proof -
  have "same_log (connect initialize_schema []) empty_event_log"
    by (simp add: same_log_def sqe_invar_def connect_def idle_def)
      (simp add: initialize_schema_def empty_event_log_def select_events_def load_events_def dict_get_or_def dict_get_def)
  then have "same_log (fst (append_log sqe_append_action_commit (connect initialize_schema []) commits))
        (fst (append_log append_action_commit empty_event_log commits))
      \<and> snd (append_log sqe_append_action_commit (connect initialize_schema []) commits) =
        snd (append_log append_action_commit empty_event_log commits)"
    by (rule same_log_append_log [OF _ _ subset_refl]) (use assms in \<open>simp_all add: empty_event_log_def\<close>)
  moreover have "select_events (cn_tables c) run_id k = map sorted_payload (load_events s run_id k)" if "same_log c s" for c s
  proof -
    have inv: "sqe_invar c" "log_invar s" "select_events (cn_tables c) run_id 0 = map sorted_payload (load_events s run_id 0)"
      using that by (auto simp: same_log_def)
    have "filter (\<lambda>e. ev_commit_offset e > k) (map sorted_payload es) = map sorted_payload (filter (\<lambda>e. ev_commit_offset e > k) es)" for es
      by (simp add: filter_map comp_def sorted_payload_def)
    then show ?thesis using slog.load_after [OF inv(1), of run_id k] mlog.load_after [OF inv(2), of run_id k] inv(3) by simp
  qed
  ultimately show ?thesis by blast
qed

theorem sqlite_log_equals_in_memory_witness:
  "select_events (cn_tables (fst (append_log sqe_append_action_commit (connect initialize_schema [])
       [sample_commit ''r1'' [sample_event ''a'' ''run.created''], sample_commit ''r2'' []]))) ''r1'' 0 =
     [sorted_payload (normalize_event 1 (sample_event ''a'' ''run.created''))]
   \<and> length (snd (append_log sqe_append_action_commit (connect initialize_schema [])
       [sample_commit ''r1'' [sample_event ''a'' ''run.created''], sample_commit ''r2'' []])) = 2"
proof -
  let ?cs = "[sample_commit ''r1'' [sample_event ''a'' ''run.created''], sample_commit ''r2'' []]"
  have "card (cm_run_id ` set ?cs) \<le> 5000" by (simp add: sample_commit_def card_insert_if)
  note eq = sqlite_log_equals_in_memory [OF this, of "''r1''" 0]
  have "load_events (fst (append_log append_action_commit empty_event_log ?cs)) ''r1'' 0 =
      [normalize_event 1 (sample_event ''a'' ''run.created'')]"
    "length (snd (append_log append_action_commit empty_event_log ?cs)) = 2"
    by code_simp+
  with eq show ?thesis by simp
qed

end
