(* ===== verification/Colocated_Bundle.thy ===== *)
theory Colocated_Bundle
  imports SQLite_Event_Log SQLite_Dedupe Turn_Safety
begin

text \<open>
  \<^verbatim>\<open>persistence/sqlite_colocated_bundle.py\<close>: the event log and the dispatch ledger on one SQLite
  connection, so that reserving a key and appending the events of the dispatch are one transaction.
  The ledger fulfils the contract of a dedupe store under any faults, and
  \<^verbatim>\<open>atomic_dispatch_record\<close> changes both tables or neither.
\<close>

section \<open>Tables\<close>

record colocated_tables =
  ct_events :: event_tables
  ct_dedupe :: "dedupe_record list"

type_synonym colocated_connection = "colocated_tables connection"

definition co_initialize_schema :: colocated_tables where
  "co_initialize_schema = \<lparr>ct_events = initialize_schema, ct_dedupe = []\<rparr>"

text \<open>A statement on the two tables of the event log.\<close>

definition on_events :: "(event_tables \<Rightarrow> (event_tables \<times> 'a) result) \<Rightarrow> colocated_tables \<Rightarrow> (colocated_tables \<times> 'a) result" where
  "on_events f t = map_sum id (\<lambda>(e, x). (t\<lparr>ct_events := e\<rparr>, x)) (f (ct_events t))"

section \<open>The view of the event log\<close>

definition co_max_offset :: "string \<Rightarrow> (colocated_connection, int) act" where
  "co_max_offset run_id = sql_select (\<lambda>t. coalesce_max (stream_offsets (ct_events t) run_id))"

definition co_next_offset :: "string \<Rightarrow> (colocated_connection, int) act" where
  "co_next_offset run_id =
     bind_act (sql_select (\<lambda>t. coalesce_max (stream_offsets (ct_events t) run_id))) (\<lambda>offset.
     return_act (offset + 1))"

definition co_insert_commit_row :: "action_commit \<Rightarrow> (colocated_connection, int) act" where
  "co_insert_commit_row commit = sql_change (on_events (commit_insert commit))"

text \<open>\<^verbatim>\<open>json.dumps\<close> keeps the order of the keys here.\<close>

definition dump_payload :: "jdict option \<Rightarrow> jdict option" where
  "dump_payload payload_json = payload_json"

fun co_insert_event_rows ::
  "string \<Rightarrow> int \<Rightarrow> int \<Rightarrow> int \<Rightarrow> runtime_event list \<Rightarrow> (colocated_connection, unit) act" where
  "co_insert_event_rows run_id seq start_offset idx [] = return_act ()"
| "co_insert_event_rows run_id seq start_offset idx (event # events) =
     bind_act (sql_change (on_events (event_insert ''colocated_runtime_events''
       (event_row_of dump_payload run_id seq start_offset idx event)))) (\<lambda>_.
     co_insert_event_rows run_id seq start_offset (idx + 1) events)"

text \<open>The three calls both methods make inside their transaction.\<close>

definition co_append_body :: "action_commit \<Rightarrow> (colocated_connection, int) act" where
  "co_append_body commit =
     bind_act (co_next_offset (cm_run_id commit)) (\<lambda>next_offset.
     bind_act (co_insert_commit_row commit) (\<lambda>seq.
     bind_act (co_insert_event_rows (cm_run_id commit) seq next_offset 0 (cm_events commit)) (\<lambda>_.
     return_act seq)))"

definition co_append_action_commit :: "action_commit \<Rightarrow> (colocated_connection, string) act" where
  "co_append_action_commit commit =
     (if cm_events commit = [] then raise_act (ValueError ''ActionCommit.events must contain at least one event.'')
      else bind_act (explicit_transaction (co_append_body commit)) (\<lambda>seq.
        return_act (''commit-ref-'' @ show_int seq)))"

text \<open>\<^verbatim>\<open>row["idempotency_key"] or None\<close>: an empty string is read back as \<^verbatim>\<open>None\<close>.\<close>

definition co_row_to_event :: "event_row \<Rightarrow> runtime_event" where
  "co_row_to_event row =
     \<lparr>ev_run_id = er_event_run_id row, ev_event_id = er_event_id row, ev_commit_offset = er_commit_offset row,
      ev_event_type = er_event_type row, ev_event_class = er_event_class row,
      ev_event_authority = er_event_authority row, ev_ordering_key = er_ordering_key row,
      ev_wake_policy = er_wake_policy row, ev_created_at = er_created_at row,
      ev_idempotency_key = or_else (er_idempotency_key row) None,
      ev_payload_ref = or_else (er_payload_ref row) None,
      ev_payload_json = er_payload_json row, ev_schema_version = ''1''\<rparr>"

definition co_select_events :: "event_tables \<Rightarrow> string \<Rightarrow> int \<Rightarrow> runtime_event list" where
  "co_select_events t run_id after_offset =
     map co_row_to_event (sort_key er_commit_offset
       (filter (\<lambda>r. er_stream_run_id r = run_id \<and> er_commit_offset r > after_offset) (et_runtime_events t)))"

definition co_load :: "string \<Rightarrow> int \<Rightarrow> (colocated_connection, runtime_event list) act" where
  "co_load run_id after_offset = sql_select (\<lambda>t. co_select_events (ct_events t) run_id after_offset)"

section \<open>The view of the dedupe store\<close>

definition co_get :: "string \<Rightarrow> (colocated_connection, dedupe_record option) act" where
  "co_get key = sql_select (\<lambda>t. row_with_key (ct_dedupe t) key)"

text \<open>\<^verbatim>\<open>INSERT INTO colocated_dedupe_store\<close>, whose key is the primary key of the table.\<close>

definition co_insert_record :: "dedupe_record \<Rightarrow> (colocated_connection, unit) act" where
  "co_insert_record r = sql_change (\<lambda>t.
     if row_with_key (ct_dedupe t) (dr_dispatch_idempotency_key r) \<noteq> None
     then Inl (integrity_error ''UNIQUE constraint failed: colocated_dedupe_store.dispatch_idempotency_key'')
     else Inr (t\<lparr>ct_dedupe := ct_dedupe t @ [r]\<rparr>, ()))"

text \<open>\<^verbatim>\<open>SET state = ?, peer_operation_id = ?, external_ack_ref = ? WHERE dispatch_idempotency_key = ?\<close>\<close>

definition co_update_record ::
  "string \<Rightarrow> dedupe_state \<Rightarrow> string option \<Rightarrow> string option \<Rightarrow> (colocated_connection, nat) act" where
  "co_update_record key state peer ack = sql_change (\<lambda>t.
     Inr (t\<lparr>ct_dedupe := map (\<lambda>r. if dr_dispatch_idempotency_key r = key
              then r\<lparr>dr_state := state, dr_peer_operation_id := peer, dr_external_ack_ref := ack\<rparr> else r) (ct_dedupe t)\<rparr>,
          length (filter (\<lambda>r. dr_dispatch_idempotency_key r = key) (ct_dedupe t))))"

definition co_new_record :: "idempotency_envelope \<Rightarrow> dedupe_state \<Rightarrow> string option \<Rightarrow> dedupe_record" where
  "co_new_record envelope state peer =
     \<lparr>dr_dispatch_idempotency_key = en_dispatch_idempotency_key envelope,
      dr_operation_fingerprint = en_operation_fingerprint envelope,
      dr_attempt_seq = en_attempt_seq envelope, dr_state = state,
      dr_peer_operation_id = peer, dr_external_ack_ref = None\<rparr>"

definition co_reserve :: "idempotency_envelope \<Rightarrow> (colocated_connection, dedupe_reservation) act" where
  "co_reserve envelope = guarded_transaction sql_rollback
     (bind_act (co_get (en_dispatch_idempotency_key envelope)) (\<lambda>existing.
      case existing of
        Some r \<Rightarrow> return_act (False, duplicate_reservation r)
      | None \<Rightarrow>
          bind_act (co_insert_record (co_new_record envelope Reserved (en_peer_operation_id envelope))) (\<lambda>_.
          return_act (True, accepted_reservation))))"

definition co_reserve_and_dispatch ::
  "idempotency_envelope \<Rightarrow> string option \<Rightarrow> (colocated_connection, dedupe_reservation) act" where
  "co_reserve_and_dispatch envelope peer_operation_id = guarded_transaction (suppress_act sql_rollback)
     (bind_act (co_get (en_dispatch_idempotency_key envelope)) (\<lambda>existing.
      case existing of
        Some r \<Rightarrow> return_act (False, duplicate_reservation r)
      | None \<Rightarrow>
          bind_act (co_insert_record (co_new_record envelope Dispatched
            (or_else peer_operation_id (en_peer_operation_id envelope)))) (\<lambda>_.
          return_act (True, accepted_reservation))))"

text \<open>
  The part the four mark methods share: the record must exist and be in one of the \<open>allowed\<close> states;
  the new row count must be one.
\<close>

definition co_mark ::
  "string \<Rightarrow> dedupe_state list \<Rightarrow> dedupe_state \<Rightarrow> (dedupe_record \<Rightarrow> string option) \<Rightarrow> (dedupe_record \<Rightarrow> string option)
     \<Rightarrow> (colocated_connection, unit) act" where
  "co_mark key allowed target peer ack = explicit_transaction
     (bind_act (co_get key) (\<lambda>existing.
      case existing of
        None \<Rightarrow> raise_act (DedupeStoreStateError (''Unknown dispatch_idempotency_key: '' @ key @ ''.''))
      | Some r \<Rightarrow>
          if dr_state r \<notin> set allowed then raise_act (cannot_transition (dr_state r) (dedupe_state_str target))
          else bind_act (co_update_record key target (peer r) (ack r)) (\<lambda>rowcount.
            if rowcount \<noteq> 1
            then raise_act (DedupeStoreStateError (''Lost-update: key '' @ repr_str key @ '' disappeared.''))
            else return_act ())))"

definition co_mark_dispatched :: "string \<Rightarrow> string option \<Rightarrow> (colocated_connection, unit) act" where
  "co_mark_dispatched key peer_operation_id =
     co_mark key [Reserved, Dispatched] Dispatched
       (\<lambda>r. or_else peer_operation_id (dr_peer_operation_id r)) dr_external_ack_ref"

definition co_mark_acknowledged :: "string \<Rightarrow> string option \<Rightarrow> (colocated_connection, unit) act" where
  "co_mark_acknowledged key external_ack_ref =
     co_mark key [Dispatched, Acknowledged] Acknowledged
       dr_peer_operation_id (\<lambda>r. or_else external_ack_ref (dr_external_ack_ref r))"

definition co_mark_succeeded :: "string \<Rightarrow> string option \<Rightarrow> (colocated_connection, unit) act" where
  "co_mark_succeeded key external_ack_ref =
     co_mark key [Acknowledged, Succeeded] Succeeded
       dr_peer_operation_id (\<lambda>r. or_else external_ack_ref (dr_external_ack_ref r))"

definition co_mark_unknown_effect :: "string \<Rightarrow> (colocated_connection, unit) act" where
  "co_mark_unknown_effect key =
     co_mark key [Dispatched, Unknown_effect] Unknown_effect dr_peer_operation_id dr_external_ack_ref"

definition co_count_by_run :: "string \<Rightarrow> (colocated_connection, nat) act" where
  "co_count_by_run run_id = sql_select (\<lambda>t.
     length (filter (\<lambda>r. sql_like (like_escape run_id @ '':%'') (dr_dispatch_idempotency_key r)) (ct_dedupe t)))"

definition co_port :: "colocated_connection dedupe_port" where
  "co_port =
     \<lparr>port_reserve = (\<lambda>c env. co_reserve env c),
      port_mark_dispatched = (\<lambda>c k p. co_mark_dispatched k p c),
      port_mark_acknowledged = (\<lambda>c k a. co_mark_acknowledged k a c),
      port_mark_succeeded = (\<lambda>c k a. co_mark_succeeded k a c),
      port_mark_unknown_effect = (\<lambda>c k. co_mark_unknown_effect k c),
      port_reserve_and_dispatch = (\<lambda>c env p. co_reserve_and_dispatch env p c),
      port_get = (\<lambda>c k. co_get k c)\<rparr>"

section \<open>The atomic dispatch record\<close>

definition atomic_dispatch_record ::
  "action_commit \<Rightarrow> idempotency_envelope \<Rightarrow> (colocated_connection, string \<times> dedupe_reservation) act" where
  "atomic_dispatch_record commit envelope =
     (if cm_events commit = [] then raise_act (ValueError ''ActionCommit.events must contain at least one event.'')
      else guarded_transaction sql_rollback
        (bind_act (co_get (en_dispatch_idempotency_key envelope)) (\<lambda>existing.
         case existing of
           Some r \<Rightarrow> return_act (False, ('''', duplicate_reservation r))
         | None \<Rightarrow>
             bind_act (co_insert_record (co_new_record envelope Reserved (en_peer_operation_id envelope))) (\<lambda>_.
             bind_act (co_append_body commit) (\<lambda>seq.
             return_act (True, (''commit-ref-'' @ show_int seq, accepted_reservation)))))))"

section \<open>The ledger implements the port\<close>

definition co_invar :: "colocated_connection \<Rightarrow> bool" where
  "co_invar c \<longleftrightarrow> idle c \<and> distinct (map dr_dispatch_idempotency_key (ct_dedupe (cn_tables c)))
     \<and> tables_ok (ct_events (cn_tables c))"

definition co_ledger :: "colocated_connection \<Rightarrow> ledger" where
  "co_ledger c = row_with_key (ct_dedupe (cn_tables c))"

lemma co_invar_initial: "co_invar (connect co_initialize_schema faults)" "co_ledger (connect co_initialize_schema faults) = Map.empty"
  by (auto simp: co_invar_def co_initialize_schema_def co_ledger_def)

lemma co_new_record_fresh: "co_new_record env st p = fresh_record env st p"
  by (simp add: co_new_record_def fresh_record_def)

lemma in_tx_event_rows [preserves_intros]: "preserves (in_tx t) (co_insert_event_rows run_id seq start idx es)"
proof (induction es arbitrary: idx)
  case Nil
  show ?case unfolding co_insert_event_rows.simps by (rule preserves_pure(1))
next
  case (Cons e es)
  then show ?case unfolding co_insert_event_rows.simps by (intro preserves_intros)
qed

lemma in_tx_co [preserves_intros]:
  "preserves (in_tx t) (co_get k)" "preserves (in_tx t) (co_insert_record r)"
  "preserves (in_tx t) (co_update_record k st p a)" "preserves (in_tx t) (co_append_body commit)"
  unfolding co_get_def co_insert_record_def co_update_record_def co_append_body_def co_next_offset_def co_insert_commit_row_def
  by (intro preserves_intros)+

lemma co_get_Inr: "co_get k c = (c', Inr x) \<Longrightarrow> cn_tables c' = cn_tables c \<and> x = row_with_key (ct_dedupe (cn_tables c)) k"
  unfolding co_get_def by (auto dest: select_Inr)

lemma co_insert_Inr:
  assumes "co_insert_record r c = (c', Inr u)"
  shows "cn_tables c' = (cn_tables c)\<lparr>ct_dedupe := ct_dedupe (cn_tables c) @ [r]\<rparr>"
  using change_Inr [OF assms [unfolded co_insert_record_def]] by (auto split: if_splits)

text \<open>A new row for an absent key extends the ledger.\<close>

lemma ledger_insert:
  assumes "row_with_key rows (dr_dispatch_idempotency_key r) = None" "distinct (map dr_dispatch_idempotency_key rows)"
  shows "row_with_key (rows @ [r]) = (row_with_key rows)(dr_dispatch_idempotency_key r \<mapsto> r)"
    and "distinct (map dr_dispatch_idempotency_key (rows @ [r]))"
proof -
  show "row_with_key (rows @ [r]) = (row_with_key rows)(dr_dispatch_idempotency_key r \<mapsto> r)"
    using assms(1) by (auto simp: row_with_key_append fun_eq_iff split: option.splits)
  have "dr_dispatch_idempotency_key r \<notin> set (map dr_dispatch_idempotency_key rows)"
    using assms(1) unfolding row_with_key_None .
  then show "distinct (map dr_dispatch_idempotency_key (rows @ [r]))" using assms(2) by simp
qed

definition co_insert_if_absent ::
  "dedupe_record \<Rightarrow> (colocated_connection, bool \<times> dedupe_reservation) act" where
  "co_insert_if_absent new =
     bind_act (co_get (dr_dispatch_idempotency_key new)) (\<lambda>existing.
      case existing of
        Some r \<Rightarrow> return_act (False, duplicate_reservation r)
      | None \<Rightarrow> bind_act (co_insert_record new) (\<lambda>_. return_act (True, accepted_reservation)))"

lemma in_tx_insert_if_absent: "preserves (in_tx t) (co_insert_if_absent new)"
  unfolding co_insert_if_absent_def by (intro preserves_intros)

lemma co_insert_law:
  assumes inv: "co_invar c" and run: "guarded_transaction undo (co_insert_if_absent new) c = (c', res)"
    and undo: "undo \<in> {sql_rollback, suppress_act sql_rollback}"
  shows "co_invar c' \<and> (case res of Inl e \<Rightarrow> co_ledger c' = co_ledger c
    | Inr r \<Rightarrow> (co_ledger c', r) =
        (case co_ledger c (dr_dispatch_idempotency_key new) of
           Some x \<Rightarrow> (co_ledger c, duplicate_reservation x)
         | None \<Rightarrow> ((co_ledger c)(dr_dispatch_idempotency_key new \<mapsto> new), accepted_reservation)))"
proof -
  have idle: "idle c" using inv by (simp add: co_invar_def)
  note law = guarded_transaction_result [OF in_tx_insert_if_absent idle undo run]
  show ?thesis
  proof (cases res)
    case (Inl e)
    with law inv show ?thesis by (simp add: co_invar_def co_ledger_def)
  next
    case (Inr r)
    with law obtain c0 c1 keep where 0: "cn_tables c0 = cn_tables c" and b: "co_insert_if_absent new c0 = (c1, Inr (keep, r))"
      and c': "cn_tables c' = (if keep then cn_tables c1 else cn_tables c)" "idle c'" by auto
    from b obtain c2 x where g: "co_get (dr_dispatch_idempotency_key new) c0 = (c2, Inr x)"
      and k: "(case x of Some r \<Rightarrow> return_act (False, duplicate_reservation r)
        | None \<Rightarrow> bind_act (co_insert_record new) (\<lambda>_. return_act (True, accepted_reservation))) c2 = (c1, Inr (keep, r))"
      unfolding co_insert_if_absent_def by (auto elim!: bind_act_InrE)
    have x: "cn_tables c2 = cn_tables c" "co_ledger c (dr_dispatch_idempotency_key new) = x"
      using co_get_Inr [OF g] 0 by (simp_all add: co_ledger_def)
    show ?thesis
    proof (cases x)
      case (Some y)
      then show ?thesis using k c' x inv Inr by (simp add: co_invar_def co_ledger_def)
    next
      case None
      have "co_insert_record new c2 = (c1, Inr ())" and r: "keep" "r = accepted_reservation"
        using k None by (auto elim!: bind_act_InrE)
      then have "cn_tables c1 = (cn_tables c)\<lparr>ct_dedupe := ct_dedupe (cn_tables c) @ [new]\<rparr>"
        using co_insert_Inr x(1) by auto
      with r None show ?thesis
        using inv x(2) c' Inr ledger_insert [of "ct_dedupe (cn_tables c)" new] by (simp add: co_invar_def co_ledger_def)
    qed
  qed
qed

lemma co_insert_if_absent_eq:
  "co_reserve env = guarded_transaction sql_rollback (co_insert_if_absent (fresh_record env Reserved (en_peer_operation_id env)))"
  "co_reserve_and_dispatch env p = guarded_transaction (suppress_act sql_rollback)
     (co_insert_if_absent (fresh_record env Dispatched (or_else p (en_peer_operation_id env))))"
  unfolding co_reserve_def co_reserve_and_dispatch_def co_insert_if_absent_def co_new_record_fresh fresh_record_simps
  by (rule refl)+

definition mark_states :: "mark \<Rightarrow> dedupe_state list" where
  "mark_states m = filter (mark_from m) [Reserved, Dispatched, Acknowledged, Succeeded, Unknown_effect]"

lemma mark_states_iff: "st \<in> set (mark_states m) \<longleftrightarrow> mark_from m st"
  by (cases st) (auto simp: mark_states_def)

lemma co_mark_eq:
  "port_mark co_port c m k = co_mark k (mark_states m) (mark_target m)
     (\<lambda>r. dr_peer_operation_id (mark_record m r)) (\<lambda>r. dr_external_ack_ref (mark_record m r)) c"
  by (cases m) (simp_all add: co_port_def co_mark_dispatched_def co_mark_acknowledged_def co_mark_succeeded_def
      co_mark_unknown_effect_def mark_states_def)

lemma co_mark_law:
  assumes inv: "co_invar c" and run: "port_mark co_port c m k = (c', res)"
  shows "co_invar c' \<and> (case res of Inl e \<Rightarrow> co_ledger c' = co_ledger c
    | Inr u \<Rightarrow> (\<exists>r. co_ledger c k = Some r \<and> mark_from m (dr_state r)
        \<and> co_ledger c' = (co_ledger c)(k \<mapsto> mark_record m r)))"
proof -
  let ?set = "\<lambda>r x. x\<lparr>dr_state := mark_target m, dr_peer_operation_id := dr_peer_operation_id (mark_record m r),
      dr_external_ack_ref := dr_external_ack_ref (mark_record m r)\<rparr>"
  let ?rest = "\<lambda>existing. case existing of
        None \<Rightarrow> raise_act (DedupeStoreStateError (''Unknown dispatch_idempotency_key: '' @ k @ ''.''))
      | Some r \<Rightarrow>
          if dr_state r \<notin> set (mark_states m) then raise_act (cannot_transition (dr_state r) (dedupe_state_str (mark_target m)))
          else bind_act (co_update_record k (mark_target m) (dr_peer_operation_id (mark_record m r))
              (dr_external_ack_ref (mark_record m r))) (\<lambda>rowcount.
            if rowcount \<noteq> 1
            then raise_act (DedupeStoreStateError (''Lost-update: key '' @ repr_str k @ '' disappeared.''))
            else return_act ())"
  have idle: "idle c" using inv by (simp add: co_invar_def)
  have body: "preserves (in_tx t) (bind_act (co_get k) ?rest)" for t by (intro preserves_intros)
  note law = explicit_transaction_result [OF body idle run [unfolded co_mark_eq co_mark_def]]
  show ?thesis
  proof (cases res)
    case (Inl e)
    with law inv show ?thesis by (simp add: co_invar_def co_ledger_def)
  next
    case (Inr u)
    from law [unfolded Inr sum.case] obtain c0 c1 where 0: "cn_tables c0 = cn_tables c"
      and b: "bind_act (co_get k) ?rest c0 = (c1, Inr u)" and c': "cn_tables c' = cn_tables c1" "idle c'" by blast
    from b obtain c2 x where g: "co_get k c0 = (c2, Inr x)" and rest: "?rest x c2 = (c1, Inr u)" by (rule bind_act_InrE)
    have x: "cn_tables c2 = cn_tables c" "co_ledger c k = x" using co_get_Inr [OF g] 0 by (simp_all add: co_ledger_def)
    from rest obtain r where r: "x = Some r" "mark_from m (dr_state r)"
      and upd: "\<exists>n. co_update_record k (mark_target m) (dr_peer_operation_id (mark_record m r))
        (dr_external_ack_ref (mark_record m r)) c2 = (c1, Inr n)"
      by (auto simp: mark_states_iff split: option.splits if_splits elim!: bind_act_InrE)
    have t: "cn_tables c1 = (cn_tables c)\<lparr>ct_dedupe := map (\<lambda>y. if dr_dispatch_idempotency_key y = k then ?set r y else y)
        (ct_dedupe (cn_tables c))\<rparr>"
      using upd unfolding co_update_record_def by (auto dest!: change_Inr simp: x(1))
    have f: "?set r r = mark_record m r" by (cases m; cases r) simp_all
    have "co_ledger c' = (co_ledger c)(k := map_option (?set r) (co_ledger c k))"
      by (simp add: co_ledger_def c' t row_with_key_update)
    then have "co_ledger c' = (co_ledger c)(k \<mapsto> mark_record m r)" by (simp only: x(2) r(1) option.map f)
    moreover have "map dr_dispatch_idempotency_key (ct_dedupe (cn_tables c')) = map dr_dispatch_idempotency_key (ct_dedupe (cn_tables c))"
      by (simp add: c' t)
    moreover have "ct_events (cn_tables c') = ct_events (cn_tables c)" by (simp add: c' t)
    ultimately show ?thesis using inv c'(2) x(2) r Inr unfolding co_invar_def by simp
  qed
qed

interpretation co: dedupe_store_port co_port co_invar co_ledger
proof
  fix s env s' res
  assume inv: "co_invar s" and "port_reserve co_port s env = (s', res)"
  then show "co_invar s' \<and> (case res of Inl e \<Rightarrow> co_ledger s' = co_ledger s
      | Inr r \<Rightarrow> (co_ledger s', r) =
          ledger_reserve (co_ledger s) env (fresh_record env Reserved (en_peer_operation_id env)))"
    using co_insert_law [OF inv, of sql_rollback "fresh_record env Reserved (en_peer_operation_id env)" s' res] by (auto simp: co_port_def co_insert_if_absent_eq ledger_reserve_def split: sum.splits option.splits)
next
  fix s env p s' res
  assume inv: "co_invar s" and "port_reserve_and_dispatch co_port s env p = (s', res)"
  then show "co_invar s' \<and> (case res of Inl e \<Rightarrow> co_ledger s' = co_ledger s
      | Inr r \<Rightarrow> (co_ledger s', r) = ledger_reserve (co_ledger s) env
          (fresh_record env Dispatched (or_else p (en_peer_operation_id env))))"
    using co_insert_law [OF inv, of "suppress_act sql_rollback" "fresh_record env Dispatched (or_else p (en_peer_operation_id env))" s' res] by (auto simp: co_port_def co_insert_if_absent_eq ledger_reserve_def split: sum.splits option.splits)
next
  fix s m k s' res
  assume "co_invar s" "port_mark co_port s m k = (s', res)"
  then show "co_invar s' \<and> (case res of Inl e \<Rightarrow> co_ledger s' = co_ledger s
      | Inr u \<Rightarrow> (\<exists>r. co_ledger s k = Some r \<and> mark_from m (dr_state r)
          \<and> co_ledger s' = (co_ledger s)(k \<mapsto> mark_record m r)))"
    by (rule co_mark_law)
next
  fix s k s' res
  assume "co_invar s" "port_get co_port s k = (s', res)"
  then show "co_invar s' \<and> co_ledger s' = co_ledger s
      \<and> (case res of Inl e \<Rightarrow> True | Inr r \<Rightarrow> r = co_ledger s k)"
    by (auto simp: co_port_def co_invar_def co_ledger_def co_get_def sql_select_def execute_def idle_def
        split: list.splits if_splits sum.splits)
qed

section \<open>Both tables or neither\<close>

lemma co_insert_event_rows_Inr:
  "co_insert_event_rows run_id seq start i es c = (c', Inr u) \<Longrightarrow>
     cn_tables c' = (cn_tables c)\<lparr>ct_events := (ct_events (cn_tables c))\<lparr>et_runtime_events :=
       et_runtime_events (ct_events (cn_tables c)) @ rows_of dump_payload run_id seq start i es\<rparr>\<rparr>"
proof (induction es arbitrary: i c)
  case (Cons e es)
  let ?row = "event_row_of dump_payload run_id seq start i e"
  from Cons.prems obtain c1 where 1: "sql_change (on_events (event_insert ''colocated_runtime_events'' ?row)) c = (c1, Inr ())"
    "co_insert_event_rows run_id seq start (i + 1) es c1 = (c', Inr u)"
    by (auto elim!: bind_act_InrE)
  have "cn_tables c1 = (cn_tables c)\<lparr>ct_events := (ct_events (cn_tables c))\<lparr>et_runtime_events :=
      et_runtime_events (ct_events (cn_tables c)) @ [?row]\<rparr>\<rparr>"
    using change_Inr [OF 1(1)] by (auto simp: on_events_def event_insert_def split: if_splits)
  with Cons.IH [OF 1(2)] show ?case by simp
qed simp

lemma co_append_body_Inr:
  assumes "co_append_body commit c = (c', Inr seq)"
  shows "cn_tables c' = (cn_tables c)\<lparr>ct_events := append_rows dump_payload (ct_events (cn_tables c)) commit\<rparr>
    \<and> seq = et_commit_sequence (ct_events (cn_tables c)) + 1"
proof -
  from assms obtain c1 n c2 c3 where
    1: "co_next_offset (cm_run_id commit) c = (c1, Inr n)" and
    2: "co_insert_commit_row commit c1 = (c2, Inr seq)" and
    3: "co_insert_event_rows (cm_run_id commit) seq n 0 (cm_events commit) c2 = (c3, Inr ())" and c': "c' = c3"
    unfolding co_append_body_def by (auto elim!: bind_act_InrE)
  from 1 have n: "cn_tables c1 = cn_tables c" "n = coalesce_max (stream_offsets (ct_events (cn_tables c)) (cm_run_id commit)) + 1"
    unfolding co_next_offset_def by (auto elim!: bind_act_InrE dest!: select_Inr)
  have seq: "seq = et_commit_sequence (ct_events (cn_tables c)) + 1" and
    c2: "cn_tables c2 = (cn_tables c)\<lparr>ct_events := (append_rows dump_payload (ct_events (cn_tables c)) commit)\<lparr>et_runtime_events :=
      et_runtime_events (ct_events (cn_tables c))\<rparr>\<rparr>"
    using change_Inr [OF 2 [unfolded co_insert_commit_row_def]] n(1)
    by (auto simp: on_events_def append_rows_def commit_insert_def Let_def split: if_splits)
  show ?thesis using co_insert_event_rows_Inr [OF 3] c' seq n(2) c2 by (simp add: append_rows_def)
qed

text \<open>How an event comes back from the log.\<close>

definition read_back :: "runtime_event \<Rightarrow> runtime_event" where
  "read_back e = e\<lparr>ev_idempotency_key := or_else (ev_idempotency_key e) None, ev_payload_ref := or_else (ev_payload_ref e) None\<rparr>"

lemma co_row_read_back: "co_row_to_event r = read_back (row_to_runtime_event r)"
  by (simp add: co_row_to_event_def read_back_def row_to_runtime_event_def)

lemma co_select_read_back: "co_select_events t run_id k = map read_back (select_events t run_id k)"
  by (simp add: co_select_events_def select_events_def co_row_read_back)

lemma raw_rows_of_events:
  "map row_to_runtime_event (rows_of dump_payload run_id sequence start i es) = normalize_events (start + i) es"
  by (induction es arbitrary: i)
    (simp_all add: row_to_runtime_event_def event_row_of_def normalize_event_def dump_payload_def ac_simps)

lemma co_select_append:
  assumes "tables_ok t"
  shows "co_select_events (append_rows dump_payload t commit) run_id 0 = co_select_events t run_id 0 @
    (if run_id = cm_run_id commit
     then map read_back (normalize_events (int (length (co_select_events t run_id 0)) + 1) (cm_events commit)) else [])"
proof -
  have "length (co_select_events t run_id 0) = length (stream_rows t run_id)"
    by (simp add: co_select_read_back select_events_0 [OF assms])
  then show ?thesis
    using tables_ok_append [OF assms, of dump_payload commit]
    by (simp add: co_select_read_back select_events_0 [OF assms] select_events_0 next_offset_ok [OF assms] stream_rows_append raw_rows_of_events del: map_map)
qed

text \<open>
  C2 (safety): whatever statement fails, the call either raises and leaves the ledger and the log
  as they were, or reports a duplicate and leaves them as they were, or reserves an unused key and
  appends all events of the commit to its run with the next offsets.
\<close>

theorem dispatch_record_atomic:
  assumes inv: "co_invar c" and run: "atomic_dispatch_record commit env c = (c', r)"
  shows "co_invar c' \<and> (case r of
      Inl e \<Rightarrow> cn_tables c' = cn_tables c
    | Inr (ref, reservation) \<Rightarrow> cm_events commit \<noteq> [] \<and>
        (case co_ledger c (en_dispatch_idempotency_key env) of
           Some x \<Rightarrow> ref = '''' \<and> reservation = duplicate_reservation x \<and> cn_tables c' = cn_tables c
         | None \<Rightarrow> reservation = accepted_reservation
             \<and> co_ledger c' = (co_ledger c)(en_dispatch_idempotency_key env \<mapsto> fresh_record env Reserved (en_peer_operation_id env))
             \<and> (\<forall>run_id. co_select_events (ct_events (cn_tables c')) run_id 0 =
                  co_select_events (ct_events (cn_tables c)) run_id 0 @
                  (if run_id = cm_run_id commit
                   then map read_back (normalize_events (int (length (co_select_events (ct_events (cn_tables c)) run_id 0)) + 1) (cm_events commit))
                   else []))))"
proof (cases "cm_events commit = []")
  case True
  then show ?thesis using inv run by (auto simp: atomic_dispatch_record_def)
next
  case False
  let ?k = "en_dispatch_idempotency_key env" and ?new = "fresh_record env Reserved (en_peer_operation_id env)"
  let ?rest = "\<lambda>existing. case existing of
        Some r \<Rightarrow> return_act (False, ('''', duplicate_reservation r))
      | None \<Rightarrow> bind_act (co_insert_record ?new) (\<lambda>_. bind_act (co_append_body commit) (\<lambda>seq.
          return_act (True, (''commit-ref-'' @ show_int seq, accepted_reservation))))"
  let ?body = "bind_act (co_get ?k) ?rest"
  have t: "guarded_transaction sql_rollback ?body c = (c', r)"
    using run unfolding atomic_dispatch_record_def co_new_record_fresh if_not_P [OF False] .
  have body: "preserves (in_tx (cn_tables c)) ?body" by (intro preserves_intros)
  have idle: "idle c" using inv by (simp add: co_invar_def)
  note law = guarded_transaction_result [OF body idle insertI1 t]
  show ?thesis
  proof (cases r)
    case (Inl e)
    with law inv show ?thesis by (simp add: co_invar_def)
  next
    case (Inr y)
    from law [unfolded Inr sum.case] obtain c0 c1 keep where 0: "cn_tables c0 = cn_tables c"
      and b: "?body c0 = (c1, Inr (keep, y))"
      and c': "cn_tables c' = (if keep then cn_tables c1 else cn_tables c)" "idle c'" by blast
    from b obtain c2 x where g: "co_get ?k c0 = (c2, Inr x)" and rest: "?rest x c2 = (c1, Inr (keep, y))" by (rule bind_act_InrE)
    have x: "cn_tables c2 = cn_tables c" "co_ledger c ?k = x" using co_get_Inr [OF g] 0 by (simp_all add: co_ledger_def)
    show ?thesis
    proof (cases x)
      case (Some z)
      then show ?thesis using rest c' x inv Inr False by (auto simp: co_invar_def)
    next
      case None
      from rest obtain c3 seq where ins: "co_insert_record ?new c2 = (c3, Inr ())"
        and app: "co_append_body commit c3 = (c1, Inr seq)" and y: "keep" "y = (''commit-ref-'' @ show_int seq, accepted_reservation)"
        unfolding None option.case by (auto elim!: bind_act_InrE)
      have tables: "cn_tables c' = (cn_tables c)\<lparr>ct_dedupe := ct_dedupe (cn_tables c) @ [?new],
          ct_events := append_rows dump_payload (ct_events (cn_tables c)) commit\<rparr>"
        using co_append_body_Inr [OF app] co_insert_Inr [OF ins] x(1) c'(1) y(1) by simp
      show ?thesis
        using inv None x(2) y c'(2) Inr False tables_ok_append [of "ct_events (cn_tables c)" dump_payload commit]
          ledger_insert [of "ct_dedupe (cn_tables c)" ?new] co_select_append [of "ct_events (cn_tables c)" commit]
        by (simp add: co_invar_def co_ledger_def tables)
    qed
  qed
qed

definition sample_dispatch :: "bool list \<Rightarrow> colocated_connection \<times> (string \<times> dedupe_reservation) result" where
  "sample_dispatch faults = atomic_dispatch_record (sample_commit ''r1'' [sample_event ''a'' ''run.created''])
     (sample_envelope ''k'') (connect co_initialize_schema faults)"

text \<open>The call returns without faults and raises when the last statement, \<^verbatim>\<open>COMMIT\<close>, fails.\<close>

theorem dispatch_record_atomic_witness:
  "co_ledger (fst (sample_dispatch [])) ''k'' \<noteq> None
   \<and> length (co_select_events (ct_events (cn_tables (fst (sample_dispatch [])))) ''r1'' 0) = 1
   \<and> cn_tables (fst (sample_dispatch [False, False, False, False, False, False, True])) = co_initialize_schema"
proof -
  let ?x = "sample_dispatch []" and ?y = "sample_dispatch [False, False, False, False, False, False, True]"
  have x: "snd ?x = Inr (''commit-ref-1'', accepted_reservation)" by code_simp
  have y: "snd ?y = Inl (OperationalError ''database is locked'')" by code_simp
  note inv = co_invar_initial(1)
  have "atomic_dispatch_record (sample_commit ''r1'' [sample_event ''a'' ''run.created'']) (sample_envelope ''k'')
      (connect co_initialize_schema []) = (fst ?x, Inr (''commit-ref-1'', accepted_reservation))"
    using x by (simp add: sample_dispatch_def prod_eq_iff)
  note px = dispatch_record_atomic [OF inv this]
  have "atomic_dispatch_record (sample_commit ''r1'' [sample_event ''a'' ''run.created'']) (sample_envelope ''k'')
      (connect co_initialize_schema [False, False, False, False, False, False, True]) =
      (fst ?y, Inl (OperationalError ''database is locked''))"
    using y by (simp add: sample_dispatch_def prod_eq_iff)
  note py = dispatch_record_atomic [OF inv this]
  have "co_select_events (ct_events co_initialize_schema) ''r1'' 0 = []" by code_simp
  then show ?thesis using px py by (simp add: co_invar_initial(2) sample_commit_def sample_envelope_def)
qed

text \<open>
  With the ledger of the bundle, under any pattern of statement faults and any
  interleaving of turns, calls made under a reservation have distinct keys, and the executor runs
  without a reservation only for actions declared as idempotent writes.
\<close>

theorem executor_called_once_per_key_colocated:
  assumes "te_port eng = co_port"
    "(pool_step eng)\<^sup>*\<^sup>* \<lparr>tp_world = \<lparr>tw_store = connect co_initialize_schema faults, tw_env = env, tw_calls = []\<rparr>, tp_turns = []\<rparr> p"
  shows "distinct (map xl_key (filter xl_dedupe_available (tw_calls (tp_world p))))
    \<and> (\<forall>c \<in> set (tw_calls (tp_world p)). xl_dedupe_available c
         \<or> act_effect_class (xl_action c) = IDEMPOTENT_WRITE)"
  using co.executor_called_once_per_key [OF assms(1) _ assms(2)] co_invar_initial(1) by simp blast

end
