(* ===== verification/Projection_Cache.thy ===== *)
theory Projection_Cache
  imports SQLite_Event_Log Projection
begin

text \<open>
  \<^verbatim>\<open>persistence/sqlite_projection_cache.py\<close>: snapshots of projections in SQLite, and the service that
  seeds the in-memory projections from them after a restart.  A snapshot reads back as the
  projection it was made from; and with the SQLite event log, whatever statements fail and however
  often the process restarts, a projection read through the service is the replay of all events of
  its run.
\<close>

section \<open>Snapshots\<close>

fun lifecycle_str :: "run_lifecycle_state \<Rightarrow> string" where
  "lifecycle_str Created = ''created''"
| "lifecycle_str Ready = ''ready''"
| "lifecycle_str Dispatching = ''dispatching''"
| "lifecycle_str Waiting_result = ''waiting_result''"
| "lifecycle_str Waiting_external = ''waiting_external''"
| "lifecycle_str Recovering = ''recovering''"
| "lifecycle_str Completed = ''completed''"
| "lifecycle_str Failed = ''failed''"
| "lifecycle_str Aborted = ''aborted''"

definition lifecycle_states :: "run_lifecycle_state list" where
  "lifecycle_states = [Created, Ready, Dispatching, Waiting_result, Waiting_external, Recovering, Completed, Failed, Aborted]"

definition json_opt :: "string option \<Rightarrow> json" where
  "json_opt v = (case v of None \<Rightarrow> JNull | Some s \<Rightarrow> JStr s)"

text \<open>\<^verbatim>\<open>dataclasses.asdict\<close>, which converts the nested policy versions too.\<close>

definition policy_versions_to_dict :: "run_policy_versions \<Rightarrow> jdict" where
  "policy_versions_to_dict pv =
     [(''route_policy_version'', json_opt (pv_route_policy_version pv)),
      (''acceptance_policy_version'', json_opt (pv_acceptance_policy_version pv)),
      (''memory_policy_version'', json_opt (pv_memory_policy_version pv)),
      (''skill_policy_version'', json_opt (pv_skill_policy_version pv)),
      (''evaluation_policy_version'', json_opt (pv_evaluation_policy_version pv)),
      (''task_view_policy_version'', json_opt (pv_task_view_policy_version pv)),
      (''pinned_at'', JStr (pv_pinned_at pv))]"

definition projection_to_dict :: "run_projection \<Rightarrow> jdict" where
  "projection_to_dict p =
     [(''run_id'', JStr (pr_run_id p)),
      (''lifecycle_state'', JStr (lifecycle_str (pr_lifecycle_state p))),
      (''projected_offset'', JInt (pr_projected_offset p)),
      (''waiting_external'', JBool (pr_waiting_external p)),
      (''ready_for_dispatch'', JBool (pr_ready_for_dispatch p)),
      (''current_action_id'', json_opt (pr_current_action_id p)),
      (''recovery_mode'', json_opt (pr_recovery_mode p)),
      (''recovery_reason'', json_opt (pr_recovery_reason p)),
      (''active_child_runs'', JList (map JStr (pr_active_child_runs p))),
      (''policy_versions'', (case pr_policy_versions p of None \<Rightarrow> JNull | Some pv \<Rightarrow> JDict (policy_versions_to_dict pv))),
      (''task_contract_ref'', json_opt (pr_task_contract_ref p))]"

text \<open>
  Reading a field back.  The dictionary is untyped in the source; a value of another type than the
  field's has no counterpart in the record and is an error here.  The round trip below shows that a
  stored snapshot has none.
\<close>

definition other_type :: "string \<Rightarrow> exn" where
  "other_type field = TypeError field"

definition require_field :: "jdict \<Rightarrow> string \<Rightarrow> json result" where
  "require_field d k = (case dict_get d k of None \<Rightarrow> Inl (KeyError k) | Some v \<Rightarrow> Inr v)"

definition text_field :: "string \<Rightarrow> json \<Rightarrow> string result" where
  "text_field k v = (case v of JStr s \<Rightarrow> Inr s | _ \<Rightarrow> Inl (other_type k))"

definition bool_field :: "string \<Rightarrow> json \<Rightarrow> bool result" where
  "bool_field k v = (case v of JBool b \<Rightarrow> Inr b | _ \<Rightarrow> Inl (other_type k))"

definition int_field :: "string \<Rightarrow> json \<Rightarrow> int result" where
  "int_field k v = (case v of JInt i \<Rightarrow> Inr i | _ \<Rightarrow> Inl (other_type k))"

definition opt_field :: "string \<Rightarrow> json \<Rightarrow> string option result" where
  "opt_field k v = (case v of JNull \<Rightarrow> Inr None | JStr s \<Rightarrow> Inr (Some s) | _ \<Rightarrow> Inl (other_type k))"

fun text_list_field :: "string \<Rightarrow> json list \<Rightarrow> string list result" where
  "text_list_field k [] = Inr []"
| "text_list_field k (v # vs) =
     bind_result (text_field k v) (\<lambda>s. bind_result (text_list_field k vs) (\<lambda>ss. Inr (s # ss)))"

definition list_field :: "string \<Rightarrow> json \<Rightarrow> string list result" where
  "list_field k v = (case v of JList vs \<Rightarrow> text_list_field k vs | _ \<Rightarrow> Inl (other_type k))"

definition lifecycle_field :: "string \<Rightarrow> json \<Rightarrow> run_lifecycle_state result" where
  "lifecycle_field k v =
     bind_result (text_field k v) (\<lambda>s.
       case find (\<lambda>st. lifecycle_str st = s) lifecycle_states of None \<Rightarrow> Inl (other_type k) | Some st \<Rightarrow> Inr st)"

text \<open>\<^verbatim>\<open>RunPolicyVersions(**pv)\<close>: absent fields take their defaults, other keys are refused.\<close>

definition policy_fields :: "string list" where
  "policy_fields = [''route_policy_version'', ''acceptance_policy_version'', ''memory_policy_version'',
     ''skill_policy_version'', ''evaluation_policy_version'', ''task_view_policy_version'', ''pinned_at'']"

definition dict_to_policy_versions :: "jdict \<Rightarrow> run_policy_versions result" where
  "dict_to_policy_versions d =
     (case find (\<lambda>k. k \<notin> set policy_fields) (map fst d) of
        Some k \<Rightarrow> Inl (TypeError (''RunPolicyVersions.__init__() got an unexpected keyword argument '' @ repr_str k))
      | None \<Rightarrow>
          bind_result (opt_field ''route_policy_version'' (jget d ''route_policy_version'')) (\<lambda>route.
          bind_result (opt_field ''acceptance_policy_version'' (jget d ''acceptance_policy_version'')) (\<lambda>acceptance.
          bind_result (opt_field ''memory_policy_version'' (jget d ''memory_policy_version'')) (\<lambda>memory.
          bind_result (opt_field ''skill_policy_version'' (jget d ''skill_policy_version'')) (\<lambda>skill.
          bind_result (opt_field ''evaluation_policy_version'' (jget d ''evaluation_policy_version'')) (\<lambda>evaluation.
          bind_result (opt_field ''task_view_policy_version'' (jget d ''task_view_policy_version'')) (\<lambda>task_view.
          bind_result (text_field ''pinned_at'' (case dict_get d ''pinned_at'' of None \<Rightarrow> JStr '''' | Some v \<Rightarrow> v)) (\<lambda>pinned_at.
          Inr \<lparr>pv_route_policy_version = route, pv_acceptance_policy_version = acceptance,
               pv_memory_policy_version = memory, pv_skill_policy_version = skill,
               pv_evaluation_policy_version = evaluation, pv_task_view_policy_version = task_view,
               pv_pinned_at = pinned_at\<rparr>))))))))"

definition policy_versions_field :: "json \<Rightarrow> run_policy_versions option result" where
  "policy_versions_field v =
     (case v of
        JNull \<Rightarrow> Inr None
      | JDict d \<Rightarrow> bind_result (dict_to_policy_versions d) (\<lambda>pv. Inr (Some pv))
      | _ \<Rightarrow> Inl (other_type ''policy_versions''))"

definition dict_to_projection :: "jdict \<Rightarrow> run_projection result" where
  "dict_to_projection d =
     bind_result (policy_versions_field (jget d ''policy_versions'')) (\<lambda>policy_versions.
     bind_result (bind_result (require_field d ''run_id'') (text_field ''run_id'')) (\<lambda>run_id.
     bind_result (bind_result (require_field d ''lifecycle_state'') (lifecycle_field ''lifecycle_state'')) (\<lambda>lifecycle_state.
     bind_result (bind_result (require_field d ''projected_offset'') (int_field ''projected_offset'')) (\<lambda>projected_offset.
     bind_result (bind_result (require_field d ''waiting_external'') (bool_field ''waiting_external'')) (\<lambda>waiting_external.
     bind_result (bind_result (require_field d ''ready_for_dispatch'') (bool_field ''ready_for_dispatch'')) (\<lambda>ready_for_dispatch.
     bind_result (opt_field ''current_action_id'' (jget d ''current_action_id'')) (\<lambda>current_action_id.
     bind_result (opt_field ''recovery_mode'' (jget d ''recovery_mode'')) (\<lambda>recovery_mode.
     bind_result (opt_field ''recovery_reason'' (jget d ''recovery_reason'')) (\<lambda>recovery_reason.
     bind_result (list_field ''active_child_runs''
         (case dict_get d ''active_child_runs'' of None \<Rightarrow> JList [] | Some v \<Rightarrow> v)) (\<lambda>active_child_runs.
     bind_result (opt_field ''task_contract_ref'' (jget d ''task_contract_ref'')) (\<lambda>task_contract_ref.
     Inr \<lparr>pr_run_id = run_id, pr_lifecycle_state = lifecycle_state, pr_projected_offset = projected_offset,
          pr_waiting_external = waiting_external, pr_ready_for_dispatch = ready_for_dispatch,
          pr_current_action_id = current_action_id, pr_recovery_mode = recovery_mode,
          pr_recovery_reason = recovery_reason, pr_active_child_runs = active_child_runs,
          pr_policy_versions = policy_versions, pr_task_contract_ref = task_contract_ref\<rparr>)))))))))))"

section \<open>The snapshot cache\<close>

record snapshot_row =
  ss_run_id :: string
  ss_projected_offset :: int
  ss_snapshot_json :: jdict
  ss_updated_at :: string

type_synonym snapshot_connection = "snapshot_row list connection"

text \<open>
  \<^verbatim>\<open>INSERT ... ON CONFLICT(run_id) DO UPDATE\<close>; the time of \<^verbatim>\<open>datetime('now')\<close> is an argument.  The text of
  the snapshot is represented by the value it reads back to, with its keys in order.
\<close>

definition upsert_snapshot :: "snapshot_row \<Rightarrow> snapshot_row list \<Rightarrow> (snapshot_row list \<times> unit) result" where
  "upsert_snapshot row rows =
     (if list_ex (\<lambda>r. ss_run_id r = ss_run_id row) rows
      then Inr (map (\<lambda>r. if ss_run_id r = ss_run_id row then row else r) rows, ())
      else Inr (rows @ [row], ()))"

definition cache_save :: "string \<Rightarrow> run_projection \<Rightarrow> (snapshot_connection, unit) act" where
  "cache_save now projection =
     bind_act (dml (upsert_snapshot
       \<lparr>ss_run_id = pr_run_id projection, ss_projected_offset = pr_projected_offset projection,
        ss_snapshot_json = json_sort_dict (projection_to_dict projection), ss_updated_at = now\<rparr>)) (\<lambda>_.
     conn_commit)"

definition cache_load :: "string \<Rightarrow> (snapshot_connection, run_projection option) act" where
  "cache_load run_id =
     bind_act (sql_select (\<lambda>rows. find (\<lambda>r. ss_run_id r = run_id) rows)) (\<lambda>row.
     case row of
       None \<Rightarrow> return_act None
     | Some r \<Rightarrow>
         (case dict_to_projection (ss_snapshot_json r) of
            Inl e \<Rightarrow> raise_act e
          | Inr p \<Rightarrow> return_act (Some p)))"

definition cache_delete :: "string \<Rightarrow> (snapshot_connection, unit) act" where
  "cache_delete run_id =
     bind_act (dml (\<lambda>rows. Inr (filter (\<lambda>r. ss_run_id r \<noteq> run_id) rows, ()))) (\<lambda>_. conn_commit)"

section \<open>The cached service\<close>

text \<open>The state of the service: the projections of the inner service and the connection of the cache.\<close>

type_synonym cached_projections = "snapshot_connection \<times> projections"

definition maybe_seed :: "string \<Rightarrow> (cached_projections, unit) act" where
  "maybe_seed run_id = (\<lambda>(c, ps).
     if dict_has ps run_id then ((c, ps), Inr ())
     else
       (case cache_load run_id c of
          (c', Inl e) \<Rightarrow> ((c', ps), Inl e)
        | (c', Inr None) \<Rightarrow> ((c', ps), Inr ())
        | (c', Inr (Some p)) \<Rightarrow> ((c', dict_set run_id p ps), Inr ())))"

text \<open>A call of the inner service.\<close>

definition on_inner :: "(projections \<Rightarrow> projections \<times> 'a result) \<Rightarrow> (cached_projections, 'a) act" where
  "on_inner f = (\<lambda>(c, ps). case f ps of (ps', r) \<Rightarrow> ((c, ps'), r))"

definition cached_catch_up ::
  "projection_config \<Rightarrow> (string \<Rightarrow> int \<Rightarrow> runtime_event list) \<Rightarrow> string \<Rightarrow> string \<Rightarrow> int \<Rightarrow> (cached_projections, run_projection) act" where
  "cached_catch_up cfg load now run_id through_offset =
     bind_act (maybe_seed run_id) (\<lambda>_.
     bind_act (on_inner (\<lambda>ps. catch_up cfg load ps run_id through_offset)) (\<lambda>projection.
     bind_act (on_fst (cache_save now projection)) (\<lambda>_.
     return_act projection)))"

definition cached_readiness ::
  "projection_config \<Rightarrow> (string \<Rightarrow> int \<Rightarrow> runtime_event list) \<Rightarrow> string \<Rightarrow> int \<Rightarrow> (cached_projections, bool) act" where
  "cached_readiness cfg load run_id required_offset =
     bind_act (maybe_seed run_id) (\<lambda>_. on_inner (\<lambda>ps. readiness cfg load ps run_id required_offset))"

definition cached_get ::
  "projection_config \<Rightarrow> (string \<Rightarrow> int \<Rightarrow> runtime_event list) \<Rightarrow> string \<Rightarrow> (cached_projections, run_projection) act" where
  "cached_get cfg load run_id =
     bind_act (maybe_seed run_id) (\<lambda>_. on_inner (\<lambda>ps. get_projection cfg load ps run_id))"

section \<open>Snapshots read back\<close>

lemma dict_get_json_sort_dict:
  assumes "distinct (map fst d)"
  shows "dict_get (json_sort_dict d) k = map_option json_sort (dict_get d k)"
proof -
  let ?d = "map (\<lambda>(k, v). (k, json_sort v)) d"
  have keys: "map fst ?d = map fst d" by (simp add: comp_def case_prod_unfold)
  have "map_of (sort_key fst ?d) = map_of ?d"
    by (rule map_of_inject_set [THEN iffD2]) (use assms in \<open>simp_all add: keys [symmetric] distinct_map del: map_map\<close>)
  then show ?thesis by (simp add: json_sort_dict_def dict_get_def map_of_map)
qed

lemma json_sort_dict_keys: "set (map fst (json_sort_dict d)) = set (map fst d)"
  by (force simp: json_sort_dict_def)

lemma json_sort_JDict: "json_sort (JDict d) = JDict (json_sort_dict d)"
  by (simp add: json_sort_dict_def)

lemma json_sort_opt [simp]: "json_sort (json_opt v) = json_opt v"
  by (cases v) (simp_all add: json_opt_def)

lemma opt_field_json_opt [simp]: "opt_field k (json_opt v) = Inr v"
  by (cases v) (simp_all add: opt_field_def json_opt_def)

lemma text_list_field_strings [simp]: "text_list_field k (map JStr ss) = Inr ss"
  by (induction ss) (simp_all add: text_field_def)

lemma lifecycle_field_str [simp]: "lifecycle_field k (JStr (lifecycle_str st)) = Inr st"
  by (cases st) (simp_all add: lifecycle_field_def text_field_def lifecycle_states_def)

lemma dict_to_policy_versions_inverse: "dict_to_policy_versions (json_sort_dict (policy_versions_to_dict pv)) = Inr pv"
proof -
  let ?d = "policy_versions_to_dict pv"
  have "find (\<lambda>k. k \<notin> set policy_fields) (map fst (json_sort_dict ?d)) = None"
    using json_sort_dict_keys [of ?d] by (auto simp: find_None_iff policy_fields_def policy_versions_to_dict_def)
  moreover have "distinct (map fst ?d)" by (simp add: policy_versions_to_dict_def)
  note get = dict_get_json_sort_dict [OF this]
  ultimately show ?thesis
    unfolding dict_to_policy_versions_def jget_def get
    by (simp add: policy_versions_to_dict_def dict_get_def text_field_def)
qed

lemma policy_versions_field_inverse:
  "policy_versions_field (json_sort (case v of None \<Rightarrow> JNull | Some pv \<Rightarrow> JDict (policy_versions_to_dict pv))) = Inr v"
  by (cases v) (simp_all add: policy_versions_field_def json_sort_JDict dict_to_policy_versions_inverse del: json_sort.simps(2))

text \<open>
  A projection stored as a snapshot reads back unchanged, its policy versions and
  child runs included.
\<close>

theorem snapshot_roundtrip: "dict_to_projection (json_sort_dict (projection_to_dict p)) = Inr p"
proof -
  let ?d = "projection_to_dict p"
  have "distinct (map fst ?d)" by (simp add: projection_to_dict_def)
  note get = dict_get_json_sort_dict [OF this]
  have fields: "dict_get ?d ''policy_versions'' =
      Some (case pr_policy_versions p of None \<Rightarrow> JNull | Some pv \<Rightarrow> JDict (policy_versions_to_dict pv))"
    "dict_get ?d ''active_child_runs'' = Some (JList (map JStr (pr_active_child_runs p)))"
    "dict_get ?d ''run_id'' = Some (JStr (pr_run_id p))"
    "dict_get ?d ''lifecycle_state'' = Some (JStr (lifecycle_str (pr_lifecycle_state p)))"
    "dict_get ?d ''projected_offset'' = Some (JInt (pr_projected_offset p))"
    "dict_get ?d ''waiting_external'' = Some (JBool (pr_waiting_external p))"
    "dict_get ?d ''ready_for_dispatch'' = Some (JBool (pr_ready_for_dispatch p))"
    "dict_get ?d ''current_action_id'' = Some (json_opt (pr_current_action_id p))"
    "dict_get ?d ''recovery_mode'' = Some (json_opt (pr_recovery_mode p))"
    "dict_get ?d ''recovery_reason'' = Some (json_opt (pr_recovery_reason p))"
    "dict_get ?d ''task_contract_ref'' = Some (json_opt (pr_task_contract_ref p))"
    by (simp_all add: projection_to_dict_def dict_get_def)
  show ?thesis
    unfolding dict_to_projection_def jget_def require_field_def get fields
    by (simp add: policy_versions_field_inverse text_field_def int_field_def bool_field_def list_field_def comp_def)
qed

section \<open>A kernel that survives restarts\<close>

text \<open>
  The SQLite event log, the snapshot cache and the projections in memory.  A restart loses the
  projections and every uncommitted row, and begins with new faults.
\<close>

record durable_kernel =
  dk_log :: event_connection
  dk_snapshots :: snapshot_connection
  dk_projections :: projections

abbreviation durable_load :: "durable_kernel \<Rightarrow> string \<Rightarrow> int \<Rightarrow> runtime_event list" where
  "durable_load k \<equiv> select_events (cn_tables (dk_log k))"

abbreviation durable_service :: "durable_kernel \<Rightarrow> cached_projections" where
  "durable_service k \<equiv> (dk_snapshots k, dk_projections k)"

inductive durable_step :: "projection_config \<Rightarrow> durable_kernel \<Rightarrow> durable_kernel \<Rightarrow> bool"
  for cfg where
  durable_append:
    "sqe_append_action_commit (dk_log k) commit = (l, res) \<Longrightarrow> durable_step cfg k (k\<lparr>dk_log := l\<rparr>)"
| durable_get:
    "cached_get cfg (durable_load k) run_id (durable_service k) = ((c, ps), res) \<Longrightarrow>
     durable_step cfg k (k\<lparr>dk_snapshots := c, dk_projections := ps\<rparr>)"
| durable_readiness:
    "cached_readiness cfg (durable_load k) run_id required (durable_service k) = ((c, ps), ready) \<Longrightarrow>
     durable_step cfg k (k\<lparr>dk_snapshots := c, dk_projections := ps\<rparr>)"
| durable_catch_up:
    "cached_catch_up cfg (durable_load k) now run_id through (durable_service k) = ((c, ps), res) \<Longrightarrow>
     durable_step cfg k (k\<lparr>dk_snapshots := c, dk_projections := ps\<rparr>)"
| durable_delete:
    "cache_delete run_id (dk_snapshots k) = (c, done) \<Longrightarrow> durable_step cfg k (k\<lparr>dk_snapshots := c\<rparr>)"
| durable_restart:
    "durable_step cfg k (k\<lparr>dk_log := reopen fs (dk_log k), dk_snapshots := reopen gs (dk_snapshots k), dk_projections := []\<rparr>)"

definition new_kernel :: "bool list \<Rightarrow> bool list \<Rightarrow> durable_kernel" where
  "new_kernel fs gs = \<lparr>dk_log = connect initialize_schema fs, dk_snapshots = connect [] gs, dk_projections = []\<rparr>"

text \<open>Every snapshot is that of a replayed prefix of its run.\<close>

definition snapshots_ok :: "projection_config \<Rightarrow> (string \<Rightarrow> int \<Rightarrow> runtime_event list) \<Rightarrow> snapshot_row list \<Rightarrow> bool" where
  "snapshots_ok cfg load rows \<longleftrightarrow>
     (\<forall>r\<in>set rows. \<exists>p. ss_snapshot_json r = json_sort_dict (projection_to_dict p) \<and> cache_ok cfg load [(ss_run_id r, p)])"

definition service_ok :: "projection_config \<Rightarrow> (string \<Rightarrow> int \<Rightarrow> runtime_event list) \<Rightarrow> cached_projections \<Rightarrow> bool" where
  "service_ok cfg load s \<longleftrightarrow> stored (snapshots_ok cfg load) (fst s) \<and> cache_ok cfg load (snd s)"

lemma cache_ok_one: "cache_ok cfg load [(r, p)] \<longleftrightarrow> (\<exists>xs ys. load r 0 = xs @ ys \<and> replay cfg (default_projection r) xs = Inr p)"
  by (auto simp: cache_ok_def dict_get_def)

lemma cache_ok_insert: "cache_ok cfg load ps \<Longrightarrow> cache_ok cfg load [(r, p)] \<Longrightarrow> cache_ok cfg load (dict_set r p ps)"
  unfolding cache_ok_one by (auto simp: cache_ok_def)

lemma cache_load_cases:
  assumes ok: "stored (snapshots_ok cfg load) c" and run: "cache_load run_id c = (c', r)"
  shows "stored (snapshots_ok cfg load) c'"
    and "case r of Inl e \<Rightarrow> e = OperationalError ''database is locked'' \<and> cn_faults c \<noteq> []
       | Inr None \<Rightarrow> True | Inr (Some p) \<Rightarrow> cache_ok cfg load [(run_id, p)]"
proof -
  obtain c1 r1 where s: "sql_select (\<lambda>rows. find (\<lambda>r. ss_run_id r = run_id) rows) c = (c1, r1)" by fastforce
  have c1: "stored (snapshots_ok cfg load) c1" using preservesD [OF stored_select ok s] .
  have err: "e = OperationalError ''database is locked'' \<and> cn_faults c \<noteq> []" if "r1 = Inl e" for e
    using s that by (auto simp: sql_select_def execute_def split: list.splits if_splits)
  have found: "\<exists>p. dict_to_projection (ss_snapshot_json x) = Inr p \<and> cache_ok cfg load [(run_id, p)]" if "r1 = Inr (Some x)" for x
  proof -
    have "find (\<lambda>r. ss_run_id r = run_id) (cn_tables c) = Some x" using select_Inr s that by fastforce
    then have "x \<in> set (cn_tables c)" "ss_run_id x = run_id" by (auto simp: find_Some_iff)
    then show ?thesis using ok snapshot_roundtrip by (fastforce simp: stored_def snapshots_ok_def)
  qed
  consider e where "r1 = Inl e" | "r1 = Inr None" | x where "r1 = Inr (Some x)" by (metis sumE option.exhaust)
  then have "stored (snapshots_ok cfg load) c' \<and> (case r of Inl e \<Rightarrow> e = OperationalError ''database is locked'' \<and> cn_faults c \<noteq> []
       | Inr None \<Rightarrow> True | Inr (Some p) \<Rightarrow> cache_ok cfg load [(run_id, p)])"
  proof cases
    case 1
    then show ?thesis using run s c1 err by (auto simp: cache_load_def)
  next
    case 2
    then show ?thesis using run s c1 by (auto simp: cache_load_def)
  next
    case (3 x)
    then show ?thesis using run s c1 found [OF 3] by (auto simp: cache_load_def)
  qed
  then show "stored (snapshots_ok cfg load) c'"
    "case r of Inl e \<Rightarrow> e = OperationalError ''database is locked'' \<and> cn_faults c \<noteq> []
       | Inr None \<Rightarrow> True | Inr (Some p) \<Rightarrow> cache_ok cfg load [(run_id, p)]" by auto
qed

lemma service_ok_seed: "preserves (service_ok cfg load) (maybe_seed run_id)"
proof (rule preservesI)
  fix s s' r
  assume ok: "service_ok cfg load s" and run: "maybe_seed run_id s = (s', r)"
  obtain c ps where s: "s = (c, ps)" by fastforce
  obtain c1 r1 where l: "cache_load run_id c = (c1, r1)" by fastforce
  have "stored (snapshots_ok cfg load) c" "cache_ok cfg load ps" using ok s by (simp_all add: service_ok_def)
  note cases = cache_load_cases [OF this(1) l]
  show "service_ok cfg load s'"
    using ok run s l cases \<open>cache_ok cfg load ps\<close> cache_ok_insert
    by (cases "dict_has ps run_id"; cases r1) (auto simp: maybe_seed_def service_ok_def split: option.splits)
qed

lemma seed_error:
  assumes "service_ok cfg load (c, ps)" "maybe_seed run_id (c, ps) = (s', Inl e)"
  shows "e = OperationalError ''database is locked'' \<and> cn_faults c \<noteq> []"
proof -
  obtain c1 r1 where l: "cache_load run_id c = (c1, r1)" by fastforce
  have "stored (snapshots_ok cfg load) c" using assms(1) by (simp add: service_ok_def)
  from cache_load_cases(2) [OF this l] show ?thesis
    using assms(2) l by (auto simp: maybe_seed_def split: if_splits sum.splits option.splits)
qed

lemma on_inner_eq: "on_inner f (c, ps) = ((c, fst (f ps)), snd (f ps))"
  by (simp add: on_inner_def case_prod_unfold)

lemma snapshots_ok_upsert:
  assumes "snapshots_ok cfg load rows" "upsert_snapshot row rows = Inr (rows', u)"
    "ss_snapshot_json row = json_sort_dict (projection_to_dict p)" "cache_ok cfg load [(ss_run_id row, p)]"
  shows "snapshots_ok cfg load rows'"
  using assms by (auto simp: upsert_snapshot_def snapshots_ok_def split: if_splits)

lemma stored_save:
  assumes "cache_ok cfg load [(pr_run_id p, p)]"
  shows "preserves (stored (snapshots_ok cfg load)) (cache_save now p)"
  unfolding cache_save_def
  by (intro preserves_bind stored_intros) (rule snapshots_ok_upsert, assumption+, use assms in simp_all)

lemma stored_delete: "preserves (stored (snapshots_ok cfg load)) (cache_delete run_id)"
  unfolding cache_delete_def by (intro preserves_bind stored_intros) (auto simp: snapshots_ok_def)

text \<open>Reading from a log that fulfils its contract.\<close>

context event_log_port
begin

lemma cached_get_correct:
  assumes inv: "invar l" and mig: "migration_keeps_offset cfg" and ok: "service_ok cfg (load l) (c, ps)"
    and run: "cached_get cfg (load l) run_id (c, ps) = (s', r)"
  shows "service_ok cfg (load l) s'"
    and "r = replay cfg (default_projection run_id) (load l run_id 0)
      \<or> r = Inl (OperationalError ''database is locked'') \<and> cn_faults c \<noteq> []"
proof -
  obtain c1 ps1 r1 where s: "maybe_seed run_id (c, ps) = ((c1, ps1), r1)" by (metis surj_pair)
  have ok1: "service_ok cfg (load l) (c1, ps1)" using preservesD [OF service_ok_seed ok s] .
  obtain ps2 r2 where g: "get_projection cfg (load l) ps1 run_id = (ps2, r2)" by fastforce
  have "cache_ok cfg (load l) ps1" using ok1 by (simp add: service_ok_def)
  note get = get_projection_correct [OF inv mig this g]
  show "service_ok cfg (load l) s'"
    using run s g get(2) ok1 by (cases r1) (auto simp: cached_get_def on_inner_eq service_ok_def)
  show "r = replay cfg (default_projection run_id) (load l run_id 0)
      \<or> r = Inl (OperationalError ''database is locked'') \<and> cn_faults c \<noteq> []"
    using run s g get(1) seed_error [OF ok] by (cases r1) (auto simp: cached_get_def on_inner_eq)
qed

lemma cached_readiness_ok:
  assumes inv: "invar l" and mig: "migration_keeps_offset cfg"
  shows "preserves (service_ok cfg (load l)) (cached_readiness cfg (load l) run_id required)"
  unfolding cached_readiness_def
proof (intro preserves_bind service_ok_seed preservesI)
  fix u s s' r
  assume ok: "service_ok cfg (load l) s" and run: "on_inner (\<lambda>ps. readiness cfg (load l) ps run_id required) s = (s', r)"
  obtain c ps where s: "s = (c, ps)" by fastforce
  obtain ps2 r2 where g: "get_projection cfg (load l) ps run_id = (ps2, r2)" by fastforce
  have "cache_ok cfg (load l) ps" using ok s by (simp add: service_ok_def)
  note get = get_projection_correct [OF inv mig this g]
  show "service_ok cfg (load l) s'"
    using run s g get(2) ok by (cases r2) (auto simp: on_inner_eq service_ok_def readiness_def)
qed

lemma cached_catch_up_ok:
  assumes inv: "invar l" and mig: "migration_keeps_offset cfg"
  shows "preserves (service_ok cfg (load l)) (cached_catch_up cfg (load l) now run_id through)"
  unfolding cached_catch_up_def
proof (rule preserves_bind [OF service_ok_seed], rule preservesI)
  fix u s s' r
  assume ok: "service_ok cfg (load l) s" and run: "bind_act (on_inner (\<lambda>ps. catch_up cfg (load l) ps run_id through)) (\<lambda>projection.
     bind_act (on_fst (cache_save now projection)) (\<lambda>_. return_act projection)) s = (s', r)"
  obtain c ps where s: "s = (c, ps)" by fastforce
  have cache: "cache_ok cfg (load l) ps" "stored (snapshots_ok cfg (load l)) c" using ok s by (simp_all add: service_ok_def)
  obtain ps2 r2 where g: "catch_up cfg (load l) ps run_id through = (ps2, r2)" by fastforce
  then have inner: "on_inner (\<lambda>ps. catch_up cfg (load l) ps run_id through) s = ((c, ps2), r2)" by (simp add: s on_inner_eq)
  show "service_ok cfg (load l) s'"
  proof (cases r2)
    case (Inl e)
    then have "ps2 = ps" using g by (auto simp: catch_up_def Let_def split: sum.splits)
    then show ?thesis using run inner Inl cache by (auto simp: service_ok_def)
  next
    case (Inr p)
    note cu = catch_up_correct [OF inv mig cache(1) g [unfolded Inr]]
    then obtain xs ys where xs: "load l run_id 0 = xs @ ys" "replay cfg (default_projection run_id) xs = Inr p" by blast
    have "pr_run_id p = run_id" using replay_run_id [OF xs(2)] by (simp add: default_projection_def)
    then have one: "cache_ok cfg (load l) [(pr_run_id p, p)]" unfolding cache_ok_one using xs by auto
    obtain c3 r3 where w: "cache_save now p c = (c3, r3)" by fastforce
    have "stored (snapshots_ok cfg (load l)) c3" using preservesD [OF stored_save [OF one] cache(2) w] .
    then show ?thesis using run inner Inr cu(1) on_fst_simp [of "cache_save now p" c c3 r3 ps2] w
      by (cases r3) (auto simp: service_ok_def bind_act_def)
  qed
qed

lemma service_ok_append:
  assumes "invar l" "append l commit = (l', res)" "service_ok cfg (load l) s"
    and kept: "\<And>r. retained l commit r"
  shows "service_ok cfg (load l') s"
proof -
  have keep: "cache_ok cfg (load l) qs \<Longrightarrow> cache_ok cfg (load l') qs" for qs
    by (rule cache_ok_append [OF assms(1,2) _ kept])
  then have "snapshots_ok cfg (load l) rows \<Longrightarrow> snapshots_ok cfg (load l') rows" for rows
    unfolding snapshots_ok_def by blast
  with keep assms(3) show ?thesis by (auto simp: service_ok_def stored_def)
qed

end

definition durable_ok :: "projection_config \<Rightarrow> durable_kernel \<Rightarrow> bool" where
  "durable_ok cfg k \<longleftrightarrow> sqe_invar (dk_log k) \<and> service_ok cfg (durable_load k) (durable_service k)"

lemma durable_ok_new: "durable_ok cfg (new_kernel fs gs)"
  by (simp add: durable_ok_def new_kernel_def sqe_invar_def service_ok_def stored_def committed_idle snapshots_ok_def)

lemma durable_step_ok:
  assumes mig: "migration_keeps_offset cfg" and "durable_step cfg k k'" and ok: "durable_ok cfg k"
  shows "durable_ok cfg k'"
proof -
  have inv: "sqe_invar (dk_log k)" and serv: "service_ok cfg (durable_load k) (durable_service k)"
    using ok by (simp_all add: durable_ok_def)
  from assms(2) show ?thesis
  proof cases
    case (durable_append commit l res)
    then show ?thesis
      using slog.append_invar [OF inv durable_append(2)] slog.service_ok_append [OF inv durable_append(2) serv]
      by (simp add: durable_ok_def)
  next
    case (durable_get run_id c ps res)
    then show ?thesis using slog.cached_get_correct(1) [OF inv mig serv] inv by (simp add: durable_ok_def)
  next
    case (durable_readiness run_id required c ps ready)
    then show ?thesis
      using preservesD [OF slog.cached_readiness_ok [OF inv mig] serv] inv by (simp add: durable_ok_def)
  next
    case (durable_catch_up now run_id through c ps res)
    then show ?thesis
      using preservesD [OF slog.cached_catch_up_ok [OF inv mig] serv] inv by (simp add: durable_ok_def)
  next
    case (durable_delete run_id c u)
    then show ?thesis
      using preservesD [OF stored_delete _ durable_delete(2)] ok by (simp add: durable_ok_def service_ok_def)
  next
    case (durable_restart gs fs)
    have "cn_tables (reopen fs (dk_log k)) = cn_tables (dk_log k)" "sqe_invar (reopen fs (dk_log k))"
      using inv by (simp_all add: reopen_def sqe_invar_def committed_idle)
    then show ?thesis using durable_restart serv by (simp add: durable_ok_def service_ok_def)
  qed
qed

text \<open>
  C4 (equivalence): however commits, reads, catch-ups, deletions of snapshots, failing statements
  and restarts interleave, reading a projection through the snapshot cache gives exactly the replay
  of all events the SQLite log holds of the run, or raises because the snapshot database failed.
\<close>

theorem durable_projection_equals_full_replay:
  assumes "migration_keeps_offset cfg" "(durable_step cfg)\<^sup>*\<^sup>* (new_kernel fs gs) k"
    "cached_get cfg (durable_load k) run_id (durable_service k) = (s', r)"
  shows "r = replay cfg (default_projection run_id) (durable_load k run_id 0)
    \<or> r = Inl (OperationalError ''database is locked'') \<and> cn_faults (dk_snapshots k) \<noteq> []"
proof -
  from assms(2) have "durable_ok cfg k"
    by (induction rule: rtranclp_induct) (simp_all add: durable_ok_new durable_step_ok [OF assms(1)])
  then show ?thesis using slog.cached_get_correct(2) [OF _ assms(1) _ assms(3)] by (simp add: durable_ok_def)
qed

text \<open>Two events are committed, the first is projected and stored, the process restarts.\<close>

definition sample_kernel1 :: durable_kernel where
  "sample_kernel1 = (new_kernel [] [])\<lparr>dk_log := fst (sqe_append_action_commit (dk_log (new_kernel [] []))
     (sample_commit ''r1'' [sample_event ''a'' ''run.created'', sample_event ''b'' ''run.ready'']))\<rparr>"

definition sample_caught_up :: cached_projections where
  "sample_caught_up = fst (cached_catch_up plain_config (durable_load sample_kernel1) ''now'' ''r1'' 1 (durable_service sample_kernel1))"

definition sample_kernel2 :: durable_kernel where
  "sample_kernel2 = sample_kernel1\<lparr>dk_snapshots := fst sample_caught_up, dk_projections := snd sample_caught_up\<rparr>"

definition sample_kernel3 :: durable_kernel where
  "sample_kernel3 = sample_kernel2\<lparr>dk_log := reopen [] (dk_log sample_kernel2),
     dk_snapshots := reopen [] (dk_snapshots sample_kernel2), dk_projections := []\<rparr>"

lemma sample_durable_steps: "(durable_step plain_config)\<^sup>*\<^sup>* (new_kernel [] []) sample_kernel3"
proof -
  have "durable_step plain_config (new_kernel [] []) sample_kernel1"
    unfolding sample_kernel1_def by (rule durable_append [OF prod.collapse [symmetric]])
  moreover have "durable_step plain_config sample_kernel1 sample_kernel2"
    unfolding sample_kernel2_def
    by (rule durable_catch_up [of _ _ "''now''" "''r1''" 1 _ _ "snd (cached_catch_up plain_config (durable_load sample_kernel1)
      ''now'' ''r1'' 1 (durable_service sample_kernel1))"]) (simp add: sample_caught_up_def)
  moreover have "durable_step plain_config sample_kernel2 sample_kernel3"
    unfolding sample_kernel3_def by (rule durable_restart)
  ultimately show ?thesis by (meson rtranclp.rtrancl_refl rtranclp.rtrancl_into_rtrancl)
qed

theorem durable_projection_equals_full_replay_witness:
  "length (cn_tables (dk_snapshots sample_kernel3)) = 1 \<and> dk_projections sample_kernel3 = []
   \<and> snd (cached_get plain_config (durable_load sample_kernel3) ''r1'' (durable_service sample_kernel3)) =
       replay plain_config (default_projection ''r1'') (durable_load sample_kernel3 ''r1'' 0)"
proof -
  have "cn_faults (dk_snapshots sample_kernel3) = []" by (simp add: sample_kernel3_def reopen_def)
  with durable_projection_equals_full_replay [OF plain_config_keeps_offset sample_durable_steps prod.collapse [symmetric], of "''r1''"]
  have "snd (cached_get plain_config (durable_load sample_kernel3) ''r1'' (durable_service sample_kernel3)) =
      replay plain_config (default_projection ''r1'') (durable_load sample_kernel3 ''r1'' 0)" by simp
  moreover have "length (cn_tables (dk_snapshots sample_kernel3)) = 1" by code_simp
  moreover have "dk_projections sample_kernel3 = []" by (simp add: sample_kernel3_def)
  ultimately show ?thesis by blast
qed

end
