(* ===== verification/SQLite_Stores.thy ===== *)
theory SQLite_Stores
  imports Projection_Cache Run_Actor
begin

text \<open>
  The smaller SQLite stores: \<^verbatim>\<open>persistence/sqlite_decision_deduper.py\<close>,
  \<^verbatim>\<open>sqlite_recovery_outcome_store.py\<close>, \<^verbatim>\<open>sqlite_turn_intent_log.py\<close> and \<^verbatim>\<open>sqlite_task_view_log.py\<close>.  The
  rows of a table with a generated id are in the order of their ids.  The deduper fulfils the
  contract of a decision deduper; the outcome store answers as the in-memory store does while the
  times of the outcomes of a run do not decrease.
\<close>

section \<open>Decision deduper\<close>

record fingerprint_row =
  fp_fingerprint :: string
  fp_run_id :: string
  fp_created_at :: pyfloat

type_synonym deduper_connection = "fingerprint_row list connection"

definition sqd_seen :: "string \<Rightarrow> (deduper_connection, bool) act" where
  "sqd_seen fingerprint = sql_select (list_ex (\<lambda>r. fp_fingerprint r = fingerprint))"

text \<open>\<^verbatim>\<open>INSERT OR IGNORE\<close>, committed by itself; \<open>now\<close> is the value of \<^verbatim>\<open>time.time()\<close>.\<close>

definition sqd_mark :: "pyfloat \<Rightarrow> string \<Rightarrow> string \<Rightarrow> (deduper_connection, unit) act" where
  "sqd_mark now fingerprint run_id = sql_change (\<lambda>rows.
     Inr (if list_ex (\<lambda>r. fp_fingerprint r = fingerprint) rows then rows
          else rows @ [\<lparr>fp_fingerprint = fingerprint, fp_run_id = run_id, fp_created_at = now\<rparr>], ()))"

section \<open>Recovery outcomes\<close>

record outcome_row =
  or_run_id :: string
  or_action_id :: "string option"
  or_recovery_mode :: string
  or_outcome_state :: string
  or_written_at :: string
  or_operator_escalation_ref :: "string option"
  or_emitted_event_ids_json :: "json option"

type_synonym outcome_connection = "outcome_row list connection"

definition sqo_write_outcome :: "recovery_outcome \<Rightarrow> (outcome_connection, unit) act" where
  "sqo_write_outcome outcome = in_transaction (dml (\<lambda>rows. Inr (rows @
     [\<lparr>or_run_id = ro_run_id outcome, or_action_id = ro_action_id outcome,
       or_recovery_mode = ro_recovery_mode outcome, or_outcome_state = ro_outcome_state outcome,
       or_written_at = ro_written_at outcome,
       or_operator_escalation_ref = ro_operator_escalation_ref outcome,
       or_emitted_event_ids_json = Some (JList (map JStr (ro_emitted_event_ids outcome)))\<rparr>], ())))"

text \<open>\<^verbatim>\<open>ORDER BY written_at DESC, id DESC LIMIT 1\<close>\<close>

fun later_row :: "('r \<Rightarrow> string) \<Rightarrow> 'r option \<Rightarrow> 'r \<Rightarrow> 'r option" where
  "later_row written_at None r = Some r"
| "later_row written_at (Some b) r = (if written_at b \<le> written_at r then Some r else Some b)"

definition latest_row :: "('r \<Rightarrow> string) \<Rightarrow> 'r list \<Rightarrow> 'r option" where
  "latest_row written_at rows = foldl (later_row written_at) None rows"

text \<open>\<open>None\<close> stands for a text that is not JSON.\<close>

definition deserialize_ids :: "json option \<Rightarrow> string list" where
  "deserialize_ids payload =
     (case payload of
        None \<Rightarrow> []
      | Some v \<Rightarrow>
          (case v of
             JList vs \<Rightarrow> concat (map (\<lambda>v. case v of JStr s \<Rightarrow> [s] | _ \<Rightarrow> []) vs)
           | _ \<Rightarrow> []))"

definition outcome_of_row :: "outcome_row \<Rightarrow> recovery_outcome" where
  "outcome_of_row row =
     \<lparr>ro_run_id = or_run_id row, ro_action_id = or_action_id row, ro_recovery_mode = or_recovery_mode row,
      ro_outcome_state = or_outcome_state row, ro_written_at = or_written_at row,
      ro_operator_escalation_ref = or_operator_escalation_ref row,
      ro_emitted_event_ids = deserialize_ids (or_emitted_event_ids_json row)\<rparr>"

definition sqo_latest_for_run :: "string \<Rightarrow> (outcome_connection, recovery_outcome option) act" where
  "sqo_latest_for_run run_id = sql_select (\<lambda>rows.
     map_option outcome_of_row (latest_row or_written_at (filter (\<lambda>r. or_run_id r = run_id) rows)))"

section \<open>Turn intents\<close>

type_synonym intent_connection = "turn_intent_record list connection"

text \<open>\<^verbatim>\<open>ON CONFLICT(intent_commit_ref) DO UPDATE\<close> keeps the id of the row.\<close>

definition upsert_intent :: "turn_intent_record \<Rightarrow> turn_intent_record list \<Rightarrow> turn_intent_record list" where
  "upsert_intent intent rows =
     (if list_ex (\<lambda>r. it_intent_commit_ref r = it_intent_commit_ref intent) rows
      then map (\<lambda>r. if it_intent_commit_ref r = it_intent_commit_ref intent then intent else r) rows
      else rows @ [intent])"

definition sqi_write_intent :: "turn_intent_record \<Rightarrow> (intent_connection, unit) act" where
  "sqi_write_intent intent = in_transaction (dml (\<lambda>rows. Inr (upsert_intent intent rows, ())))"

definition sqi_latest_for_run :: "string \<Rightarrow> (intent_connection, turn_intent_record option) act" where
  "sqi_latest_for_run run_id = sql_select (\<lambda>rows.
     latest_row it_written_at (filter (\<lambda>r. it_run_id r = run_id) rows))"

section \<open>Task views\<close>

record task_view_record =
  tv_task_view_id :: string
  tv_run_id :: string
  tv_selected_model_role :: string
  tv_assembled_at :: string
  tv_decision_ref :: "string option"
  tv_stage_id :: "string option"
  tv_branch_id :: "string option"
  tv_task_contract_ref :: "string option"
  tv_evidence_refs :: "string list"
  tv_memory_refs :: "string list"
  tv_knowledge_refs :: "string list"
  tv_policy_versions :: "run_policy_versions option"
  tv_schema_version :: string

record task_view_row =
  vr_task_view_id :: string
  vr_run_id :: string
  vr_decision_ref :: "string option"
  vr_selected_model_role :: string
  vr_assembled_at :: string
  vr_stage_id :: "string option"
  vr_branch_id :: "string option"
  vr_task_contract_ref :: "string option"
  vr_evidence_refs :: json
  vr_memory_refs :: json
  vr_knowledge_refs :: json
  vr_policy_versions_json :: json
  vr_schema_version :: string

type_synonym task_view_connection = "task_view_row list connection"

definition task_view_policies_to_dict :: "run_policy_versions option \<Rightarrow> json" where
  "task_view_policies_to_dict pv =
     (case pv of
        None \<Rightarrow> JNull
      | Some pv \<Rightarrow> JDict
          [(''route_policy_version'', json_opt (pv_route_policy_version pv)),
           (''skill_policy_version'', json_opt (pv_skill_policy_version pv)),
           (''evaluation_policy_version'', json_opt (pv_evaluation_policy_version pv)),
           (''task_view_policy_version'', json_opt (pv_task_view_policy_version pv)),
           (''pinned_at'', JStr (pv_pinned_at pv))])"

definition task_view_row_of :: "task_view_record \<Rightarrow> task_view_row" where
  "task_view_row_of record =
     \<lparr>vr_task_view_id = tv_task_view_id record, vr_run_id = tv_run_id record,
      vr_decision_ref = tv_decision_ref record, vr_selected_model_role = tv_selected_model_role record,
      vr_assembled_at = tv_assembled_at record, vr_stage_id = tv_stage_id record,
      vr_branch_id = tv_branch_id record, vr_task_contract_ref = tv_task_contract_ref record,
      vr_evidence_refs = JList (map JStr (tv_evidence_refs record)),
      vr_memory_refs = JList (map JStr (tv_memory_refs record)),
      vr_knowledge_refs = JList (map JStr (tv_knowledge_refs record)),
      vr_policy_versions_json = task_view_policies_to_dict (tv_policy_versions record),
      vr_schema_version = tv_schema_version record\<rparr>"

text \<open>\<^verbatim>\<open>ON CONFLICT(task_view_id) DO NOTHING\<close>\<close>

definition tvl_write :: "task_view_record \<Rightarrow> (task_view_connection, unit) act" where
  "tvl_write record = in_transaction (dml (\<lambda>rows.
     Inr (if list_ex (\<lambda>r. vr_task_view_id r = tv_task_view_id record) rows then rows
          else rows @ [task_view_row_of record], ())))"

text \<open>The lists are untyped in the source; a list of other values is an error here.\<close>

definition row_to_record :: "task_view_row \<Rightarrow> task_view_record result" where
  "row_to_record row =
     bind_result (if vr_policy_versions_json row = JDict [] then Inr None
                  else policy_versions_field (vr_policy_versions_json row)) (\<lambda>pv.
     bind_result (list_field ''evidence_refs'' (vr_evidence_refs row)) (\<lambda>evidence_refs.
     bind_result (list_field ''memory_refs'' (vr_memory_refs row)) (\<lambda>memory_refs.
     bind_result (list_field ''knowledge_refs'' (vr_knowledge_refs row)) (\<lambda>knowledge_refs.
     Inr \<lparr>tv_task_view_id = vr_task_view_id row, tv_run_id = vr_run_id row,
          tv_selected_model_role = vr_selected_model_role row, tv_assembled_at = vr_assembled_at row,
          tv_decision_ref = vr_decision_ref row, tv_stage_id = vr_stage_id row,
          tv_branch_id = vr_branch_id row, tv_task_contract_ref = vr_task_contract_ref row,
          tv_evidence_refs = evidence_refs, tv_memory_refs = memory_refs,
          tv_knowledge_refs = knowledge_refs, tv_policy_versions = pv,
          tv_schema_version = vr_schema_version row\<rparr>))))"

fun rows_to_records :: "task_view_row list \<Rightarrow> task_view_record list result" where
  "rows_to_records [] = Inr []"
| "rows_to_records (r # rs) =
     bind_result (row_to_record r) (\<lambda>x. bind_result (rows_to_records rs) (\<lambda>xs. Inr (x # xs)))"

text \<open>Raise what the conversion of the rows raises.\<close>

definition return_result :: "'a result \<Rightarrow> ('s, 'a) act" where
  "return_result r = (case r of Inl e \<Rightarrow> raise_act e | Inr x \<Rightarrow> return_act x)"

definition opt_record :: "task_view_row option \<Rightarrow> task_view_record option result" where
  "opt_record row = (case row of None \<Rightarrow> Inr None | Some r \<Rightarrow> bind_result (row_to_record r) (\<lambda>x. Inr (Some x)))"

definition tvl_get_by_id :: "string \<Rightarrow> (task_view_connection, task_view_record option) act" where
  "tvl_get_by_id task_view_id =
     bind_act (sql_select (find (\<lambda>r. vr_task_view_id r = task_view_id))) (\<lambda>row. return_result (opt_record row))"

text \<open>
  SQLite fixes no order between rows of equal \<^verbatim>\<open>assembled_at\<close>: \<open>scan\<close> is the order in which it visits
  the rows.
\<close>

definition tvl_get_by_decision ::
  "(task_view_row list \<Rightarrow> task_view_row list) \<Rightarrow> string \<Rightarrow> string \<Rightarrow> (task_view_connection, task_view_record option) act" where
  "tvl_get_by_decision scan run_id decision_ref =
     bind_act (sql_select (\<lambda>rows. latest_row vr_assembled_at
       (filter (\<lambda>r. vr_run_id r = run_id \<and> vr_decision_ref r = Some decision_ref) (scan rows)))) (\<lambda>row.
     return_result (opt_record row))"

definition tvl_list_for_run ::
  "(task_view_row list \<Rightarrow> task_view_row list) \<Rightarrow> string \<Rightarrow> (task_view_connection, task_view_record list) act" where
  "tvl_list_for_run scan run_id =
     bind_act (sql_select (\<lambda>rows. sort_key vr_assembled_at (filter (\<lambda>r. vr_run_id r = run_id) (scan rows)))) (\<lambda>rows.
     return_result (rows_to_records rows))"

definition tvl_bind_to_decision :: "string \<Rightarrow> string \<Rightarrow> (task_view_connection, unit) act" where
  "tvl_bind_to_decision task_view_id decision_ref = in_transaction (dml (\<lambda>rows.
     Inr (map (\<lambda>r. if vr_task_view_id r = task_view_id then r\<lparr>vr_decision_ref := Some decision_ref\<rparr> else r) rows, ())))"

section \<open>Each decision once\<close>

text \<open>The contract of a deduper: a call that raises changes nothing.\<close>

locale decision_deduper_port =
  fixes seen :: "'s \<Rightarrow> string \<Rightarrow> 's \<times> bool result"
    and mark :: "'s \<Rightarrow> string \<Rightarrow> 's \<times> unit result"
    and marked :: "'s \<Rightarrow> string set"
  assumes seen_law: "seen s f = (s', r) \<Longrightarrow> marked s' = marked s \<and> (case r of Inl e \<Rightarrow> True | Inr b \<Rightarrow> b = (f \<in> marked s))"
    and mark_law: "mark s f = (s', u) \<Longrightarrow> marked s' = (case u of Inl e \<Rightarrow> marked s | Inr _ \<Rightarrow> insert f (marked s))"

text \<open>The use the run actor makes of it: a decision round goes on when its fingerprint is new and is marked.\<close>

definition decision_gate ::
  "('s \<Rightarrow> string \<Rightarrow> 's \<times> bool result) \<Rightarrow> ('s \<Rightarrow> string \<Rightarrow> 's \<times> unit result) \<Rightarrow> 's \<Rightarrow> string \<Rightarrow> 's \<times> bool result" where
  "decision_gate seen mark s f =
     (case seen s f of
        (s1, Inl e) \<Rightarrow> (s1, Inl e)
      | (s1, Inr True) \<Rightarrow> (s1, Inr False)
      | (s1, Inr False) \<Rightarrow> (case mark s1 f of (s2, Inl e) \<Rightarrow> (s2, Inl e) | (s2, Inr _) \<Rightarrow> (s2, Inr True)))"

fun decided :: "('s \<Rightarrow> string \<Rightarrow> 's \<times> bool result) \<Rightarrow> ('s \<Rightarrow> string \<Rightarrow> 's \<times> unit result) \<Rightarrow> 's \<Rightarrow> string list \<Rightarrow> string list" where
  "decided seen mark s [] = []"
| "decided seen mark s (f # fs) =
     (case decision_gate seen mark s f of
        (s', r) \<Rightarrow> (if r = Inr True then [f] else []) @ decided seen mark s' fs)"

context decision_deduper_port
begin

lemma gate_law:
  assumes "decision_gate seen mark s f = (s', r)"
  shows "marked s \<subseteq> marked s'" "r = Inr True \<Longrightarrow> f \<notin> marked s \<and> f \<in> marked s'"
proof -
  obtain s1 b where s1: "seen s f = (s1, b)" by fastforce
  obtain s2 u where s2: "mark s1 f = (s2, u)" by fastforce
  have "marked s \<subseteq> marked s' \<and> (r = Inr True \<longrightarrow> f \<notin> marked s \<and> f \<in> marked s')"
    using assms seen_law [OF s1] mark_law [OF s2] s1 s2 unfolding decision_gate_def
    by (auto split: sum.splits bool.splits)
  then show "marked s \<subseteq> marked s'" "r = Inr True \<Longrightarrow> f \<notin> marked s \<and> f \<in> marked s'" by blast+
qed

lemma decided_once: "distinct (decided seen mark s fs) \<and> set (decided seen mark s fs) \<inter> marked s = {}"
proof (induction fs arbitrary: s)
  case (Cons f fs)
  obtain s' r where g: "decision_gate seen mark s f = (s', r)" by fastforce
  note law = gate_law [OF g]
  show ?case using Cons.IH [of s'] law g by auto
qed simp

end

definition marked_fingerprints :: "deduper_connection \<Rightarrow> string set" where
  "marked_fingerprints c = fp_fingerprint ` set (cn_tables c)"

interpretation sqd: decision_deduper_port "\<lambda>c f. sqd_seen f c" "\<lambda>c f. sqd_mark now f run_id c" marked_fingerprints
proof
  fix s f s' and r :: "bool result"
  assume "sqd_seen f s = (s', r)"
  then show "marked_fingerprints s' = marked_fingerprints s \<and> (case r of Inl e \<Rightarrow> True | Inr b \<Rightarrow> b = (f \<in> marked_fingerprints s))"
    by (auto simp: sqd_seen_def sql_select_def execute_def marked_fingerprints_def list_ex_iff split: list.splits if_splits)
next
  fix s f s' and u :: "unit result"
  assume "sqd_mark now f run_id s = (s', u)"
  then show "marked_fingerprints s' = (case u of Inl e \<Rightarrow> marked_fingerprints s | Inr _ \<Rightarrow> insert f (marked_fingerprints s))"
    by (auto simp: sqd_mark_def sql_change_def execute_def marked_fingerprints_def list_ex_iff split: list.splits if_splits)
qed

interpretation memd: decision_deduper_port "\<lambda>s f. (s, Inr (deduper_seen s f))" "\<lambda>s f. (deduper_mark s f, Inr ())" set
  by unfold_locales (auto simp: deduper_seen_def deduper_mark_def)

text \<open>
  With the SQLite deduper, whatever statements fail, the rounds that go on have
  distinct fingerprints that were not marked before.
\<close>

theorem sqlite_deduper_decides_once:
  "distinct (decided (\<lambda>c f. sqd_seen f c) (\<lambda>c f. sqd_mark now f run_id c) c fingerprints)
   \<and> set (decided (\<lambda>c f. sqd_seen f c) (\<lambda>c f. sqd_mark now f run_id c) c fingerprints) \<inter> marked_fingerprints c = {}"
  by (rule sqd.decided_once)

section \<open>The latest outcome\<close>

lemma latest_row_snoc: "latest_row f (rs @ [r]) = later_row f (latest_row f rs) r"
  by (simp add: latest_row_def)

lemma latest_row_max:
  "latest_row f rs = Some r \<Longrightarrow> r \<in> set rs \<and> (\<forall>x\<in>set rs. f x \<le> f r)"
proof (induction rs arbitrary: r rule: rev_induct)
  case (snoc x rs)
  show ?case
  proof (cases "latest_row f rs")
    case None
    have "rs = []" using None by (cases rs rule: rev_cases) (auto simp: latest_row_snoc elim: later_row.elims split: if_splits)
    with snoc.prems show ?thesis by (simp add: latest_row_def)
  next
    case (Some b)
    with snoc.IH [OF Some] snoc.prems show ?thesis by (auto simp: latest_row_snoc split: if_splits)
  qed
qed (simp add: latest_row_def)

lemma latest_row_sorted: "sorted (map f rs) \<Longrightarrow> latest_row f rs = (if rs = [] then None else Some (last rs))"
proof (induction rs rule: rev_induct)
  case (snoc r rs)
  then show ?case by (cases "rs = []") (auto simp: latest_row_snoc sorted_append latest_row_def)
qed (simp add: latest_row_def)

definition outcome_row_of :: "recovery_outcome \<Rightarrow> outcome_row" where
  "outcome_row_of outcome =
     \<lparr>or_run_id = ro_run_id outcome, or_action_id = ro_action_id outcome,
      or_recovery_mode = ro_recovery_mode outcome, or_outcome_state = ro_outcome_state outcome,
      or_written_at = ro_written_at outcome,
      or_operator_escalation_ref = ro_operator_escalation_ref outcome,
      or_emitted_event_ids_json = Some (JList (map JStr (ro_emitted_event_ids outcome)))\<rparr>"

lemma outcome_row_inverse [simp]: "outcome_of_row (outcome_row_of outcome) = outcome"
proof -
  have "deserialize_ids (Some (JList (map JStr ids))) = ids" for ids
    by (induction ids) (simp_all add: deserialize_ids_def)
  then show ?thesis by (simp add: outcome_of_row_def outcome_row_of_def)
qed

text \<open>A store that is asked to write a sequence of outcomes.\<close>

definition write_outcomes :: "recovery_outcome list \<Rightarrow> outcome_connection \<Rightarrow> outcome_connection" where
  "write_outcomes outcomes c = foldl (\<lambda>c outcome. fst (sqo_write_outcome outcome c)) c outcomes"

lemma write_outcome_ok:
  assumes "idle c" "cn_faults c = []"
  shows "sqo_write_outcome outcome c = (c\<lparr>cn_tables := cn_tables c @ [outcome_row_of outcome]\<rparr>, Inr ())"
  using assms unfolding sqo_write_outcome_def
  by (cases c) (simp add: in_transaction_def dml_def execute_def conn_commit_def implicit_begin_def idle_def outcome_row_of_def
      bind_act_def catch_act_def)

lemma write_outcomes_rows:
  "idle c \<Longrightarrow> cn_faults c = [] \<Longrightarrow>
     write_outcomes outcomes c = c\<lparr>cn_tables := cn_tables c @ map outcome_row_of outcomes\<rparr>"
proof (induction outcomes arbitrary: c)
  case (Cons x xs)
  then show ?case using Cons.IH [of "c\<lparr>cn_tables := cn_tables c @ [outcome_row_of x]\<rparr>"]
    by (simp add: write_outcomes_def write_outcome_ok idle_def)
qed (simp add: write_outcomes_def)

lemma memory_outcomes:
  "dict_get_or (foldl write_outcome s outcomes) run_id [] = dict_get_or s run_id [] @ filter (\<lambda>x. ro_run_id x = run_id) outcomes"
  by (induction outcomes arbitrary: s) (auto simp: write_outcome_def dict_get_or_def)

text \<open>
  Without faults, when the times of the outcomes written for a run never decrease,
  the SQLite store answers the latest outcome of the run as the in-memory store does.
\<close>

theorem sqlite_latest_outcome_equals_in_memory:
  assumes "sorted (map ro_written_at (filter (\<lambda>x. ro_run_id x = run_id) outcomes))"
  shows "snd (sqo_latest_for_run run_id (write_outcomes outcomes (connect [] []))) =
    Inr (latest_for_run (foldl write_outcome [] outcomes) run_id)"
proof -
  let ?os = "filter (\<lambda>x. ro_run_id x = run_id) outcomes"
  have rows: "filter (\<lambda>r. or_run_id r = run_id) (map outcome_row_of outcomes) = map outcome_row_of ?os"
    by (induction outcomes) (auto simp: outcome_row_of_def)
  have "sorted (map or_written_at (map outcome_row_of ?os))"
    using assms by (simp add: comp_def outcome_row_of_def)
  note latest = latest_row_sorted [OF this]
  have "snd (sqo_latest_for_run run_id (write_outcomes outcomes (connect [] []))) =
      Inr (map_option outcome_of_row (latest_row or_written_at (map outcome_row_of ?os)))"
    by (simp add: write_outcomes_rows sqo_latest_for_run_def sql_select_def execute_def rows)
  also have "\<dots> = Inr (if ?os = [] then None else Some (last ?os))"
    unfolding latest by (auto simp: last_map)
  also have "\<dots> = Inr (latest_for_run (foldl write_outcome [] outcomes) run_id)"
    by (simp add: latest_for_run_def memory_outcomes Let_def)
  finally show ?thesis .
qed

definition sample_outcome :: "string \<Rightarrow> string \<Rightarrow> recovery_outcome" where
  "sample_outcome state time =
     \<lparr>ro_run_id = ''r1'', ro_action_id = Some ''a1'', ro_recovery_mode = ''abort'', ro_outcome_state = state,
      ro_written_at = time, ro_operator_escalation_ref = None, ro_emitted_event_ids = [''e1'', ''e2'']\<rparr>"

theorem sqlite_latest_outcome_equals_in_memory_witness:
  "snd (sqo_latest_for_run ''r1'' (write_outcomes [sample_outcome ''scheduled'' ''t1'', sample_outcome ''aborted'' ''t1''] (connect [] []))) =
     Inr (Some (sample_outcome ''aborted'' ''t1''))"
proof -
  let ?os = "[sample_outcome ''scheduled'' ''t1'', sample_outcome ''aborted'' ''t1'']"
  have "sorted (map ro_written_at (filter (\<lambda>x. ro_run_id x = ''r1'') ?os))" by (simp add: sample_outcome_def)
  note eq = sqlite_latest_outcome_equals_in_memory [OF this]
  have "latest_for_run (foldl write_outcome [] ?os) ''r1'' = Some (sample_outcome ''aborted'' ''t1'')" by code_simp
  with eq show ?thesis by (simp only:)
qed

text \<open>When the clock goes back the stores disagree: SQLite keeps answering the older outcome.\<close>

lemma latest_outcome_differs_when_clock_goes_back:
  "let os = [sample_outcome ''scheduled'' ''t2'', sample_outcome ''aborted'' ''t1'']
   in snd (sqo_latest_for_run ''r1'' (write_outcomes os (connect [] []))) = Inr (Some (sample_outcome ''scheduled'' ''t2''))
      \<and> latest_for_run (foldl write_outcome [] os) ''r1'' = Some (sample_outcome ''aborted'' ''t1'')"
  by code_simp

section \<open>Turn intents are written once per reference\<close>

definition intents_ok :: "intent_connection \<Rightarrow> bool" where
  "intents_ok c \<longleftrightarrow> idle c \<and> distinct (map it_intent_commit_ref (cn_tables c))"

lemma upsert_intent_refs:
  assumes "distinct (map it_intent_commit_ref rows)"
  shows "distinct (map it_intent_commit_ref (upsert_intent intent rows))"
    "map_of (map (\<lambda>r. (it_intent_commit_ref r, r)) (upsert_intent intent rows)) =
      (map_of (map (\<lambda>r. (it_intent_commit_ref r, r)) rows))(it_intent_commit_ref intent \<mapsto> intent)"
proof -
  let ?f = "\<lambda>r. if it_intent_commit_ref r = it_intent_commit_ref intent then intent else r"
  let ?m = "\<lambda>rows. map_of (map (\<lambda>r. (it_intent_commit_ref r, r)) rows)"
  have refs: "map it_intent_commit_ref (map ?f rows) = map it_intent_commit_ref rows" by simp
  have upd: "?m (map ?f rows) k = (if k = it_intent_commit_ref intent \<and> list_ex (\<lambda>r. it_intent_commit_ref r = it_intent_commit_ref intent) rows
      then Some intent else ?m rows k)" for k
    by (induction rows) auto
  have new: "?m (rows @ [intent]) k = (case ?m rows k of None \<Rightarrow> if k = it_intent_commit_ref intent then Some intent else None | Some r \<Rightarrow> Some r)" for k
    by (induction rows) auto
  have absent: "?m rows (it_intent_commit_ref intent) = None"
    if "\<not> list_ex (\<lambda>r. it_intent_commit_ref r = it_intent_commit_ref intent) rows"
    using that by (induction rows) auto
  show "distinct (map it_intent_commit_ref (upsert_intent intent rows))"
    using assms refs by (auto simp: upsert_intent_def list_ex_iff simp del: map_map)
  show "?m (upsert_intent intent rows) = (?m rows)(it_intent_commit_ref intent \<mapsto> intent)"
  proof
    fix k
    show "?m (upsert_intent intent rows) k = ((?m rows)(it_intent_commit_ref intent \<mapsto> intent)) k"
      using upd [of k] new [of k] absent by (auto simp: upsert_intent_def split: option.splits)
  qed
qed

text \<open>The stored intent of each reference.\<close>

definition stored_intents :: "intent_connection \<Rightarrow> string \<rightharpoonup> turn_intent_record" where
  "stored_intents c = map_of (map (\<lambda>r. (it_intent_commit_ref r, r)) (cn_tables c))"

lemma write_intent_effect:
  assumes "intents_ok c" "sqi_write_intent intent c = (c', r)"
  shows "intents_ok c' \<and> stored_intents c' =
    (case r of Inl e \<Rightarrow> stored_intents c | Inr _ \<Rightarrow> (stored_intents c)(it_intent_commit_ref intent \<mapsto> intent))"
proof -
  have "idle c" using assms(1) by (simp add: intents_ok_def)
  note tr = in_transaction_result [OF from_tables_dml this assms(2) [unfolded sqi_write_intent_def]]
  show ?thesis
  proof (cases r)
    case (Inl e)
    then show ?thesis using tr(1,2) assms(1) by (simp add: intents_ok_def stored_intents_def)
  next
    case (Inr u)
    from tr(3) [OF Inr] obtain c1 where "dml (\<lambda>rows. Inr (upsert_intent intent rows, ())) c = (c1, Inr u)" "cn_tables c' = cn_tables c1"
      by blast
    then have "cn_tables c' = upsert_intent intent (cn_tables c)" using dml_Inr by fastforce
    then show ?thesis using upsert_intent_refs [of "cn_tables c" intent] tr(1) assms(1) Inr
      by (simp add: intents_ok_def stored_intents_def)
  qed
qed

section \<open>Task views read back\<close>

text \<open>What the log keeps of the policy versions: two of the fields are not stored.\<close>

definition kept_policies :: "run_policy_versions \<Rightarrow> run_policy_versions" where
  "kept_policies pv = pv\<lparr>pv_acceptance_policy_version := None, pv_memory_policy_version := None\<rparr>"

lemma row_to_record_inverse:
  "row_to_record (task_view_row_of record) = Inr (record\<lparr>tv_policy_versions := map_option kept_policies (tv_policy_versions record)\<rparr>)"
proof -
  have "(if task_view_policies_to_dict v = JDict [] then Inr None else policy_versions_field (task_view_policies_to_dict v)) =
      Inr (map_option kept_policies v)" for v
    by (cases v) (simp_all add: task_view_policies_to_dict_def policy_versions_field_def dict_to_policy_versions_def policy_fields_def
        jget_def dict_get_def kept_policies_def opt_field_def [of _ JNull] text_field_def)
  note pv = this
  show ?thesis
    unfolding row_to_record_def task_view_row_of_def task_view_row.select_convs pv
    by (simp add: list_field_def)
qed

text \<open>
  A task view that was written under a new id is read back by that id with all its
  fields, except that the acceptance and memory policy versions are lost.
\<close>

theorem task_view_roundtrip:
  assumes "idle c" "\<not> list_ex (\<lambda>r. vr_task_view_id r = tv_task_view_id record) (cn_tables c)"
    and w: "tvl_write record c = (c1, Inr ())" and g: "tvl_get_by_id (tv_task_view_id record) c1 = (c2, Inr view)"
  shows "view = Some (record\<lparr>tv_policy_versions := map_option kept_policies (tv_policy_versions record)\<rparr>)"
proof -
  note tr = in_transaction_result(3) [OF from_tables_dml assms(1) w [unfolded tvl_write_def] refl]
  then have rows: "cn_tables c1 = cn_tables c @ [task_view_row_of record]" using assms(2) by (auto dest!: dml_Inr)
  have "find (\<lambda>r. vr_task_view_id r = tv_task_view_id record) (xs @ [task_view_row_of record]) = Some (task_view_row_of record)"
    if "\<not> list_ex (\<lambda>r. vr_task_view_id r = tv_task_view_id record) xs" for xs
    using that by (induction xs) (auto simp: task_view_row_of_def)
  then have found: "find (\<lambda>r. vr_task_view_id r = tv_task_view_id record) (cn_tables c1) = Some (task_view_row_of record)"
    using assms(2) rows by simp
  from g obtain c3 row where "sql_select (find (\<lambda>r. vr_task_view_id r = tv_task_view_id record)) c1 = (c3, Inr row)"
    and "return_result (opt_record row) c3 = (c2, Inr view)"
    unfolding tvl_get_by_id_def by (rule bind_act_InrE)
  then show ?thesis using select_Inr found by (fastforce simp: return_result_def opt_record_def row_to_record_inverse)
qed

definition sample_task_view :: task_view_record where
  "sample_task_view =
     \<lparr>tv_task_view_id = ''v1'', tv_run_id = ''r1'', tv_selected_model_role = ''heavy_reasoning'',
      tv_assembled_at = ''t1'', tv_decision_ref = None, tv_stage_id = Some ''s1'', tv_branch_id = None,
      tv_task_contract_ref = None, tv_evidence_refs = [''e1''], tv_memory_refs = [], tv_knowledge_refs = [],
      tv_policy_versions = Some \<lparr>pv_route_policy_version = Some ''1'', pv_acceptance_policy_version = Some ''2'',
        pv_memory_policy_version = Some ''3'', pv_skill_policy_version = None, pv_evaluation_policy_version = None,
        pv_task_view_policy_version = None, pv_pinned_at = ''t0''\<rparr>,
      tv_schema_version = ''1''\<rparr>"

theorem task_view_roundtrip_witness:
  "snd (tvl_get_by_id ''v1'' (fst (tvl_write sample_task_view (connect [] [])))) =
     Inr (Some (sample_task_view\<lparr>tv_policy_versions := map_option kept_policies (tv_policy_versions sample_task_view)\<rparr>))"
proof -
  let ?c = "connect [] [] :: task_view_connection"
  let ?w = "tvl_write sample_task_view ?c"
  have w: "?w = (fst ?w, Inr ())" by code_simp
  have "\<exists>view. snd (tvl_get_by_id ''v1'' (fst ?w)) = Inr view"
    by (rule exI [of _ "Some (sample_task_view\<lparr>tv_policy_versions := map_option kept_policies (tv_policy_versions sample_task_view)\<rparr>)"]) code_simp
  then obtain view where g: "tvl_get_by_id (tv_task_view_id sample_task_view) (fst ?w) = (fst (tvl_get_by_id ''v1'' (fst ?w)), Inr view)"
    by (metis prod.collapse sample_task_view_def task_view_record.select_convs(1))
  have "\<not> list_ex (\<lambda>r. vr_task_view_id r = tv_task_view_id sample_task_view) (cn_tables ?c)" by simp
  note view = task_view_roundtrip [OF idle_connect(1) this w g]
  have "tv_task_view_id sample_task_view = ''v1''" by (simp add: sample_task_view_def)
  with arg_cong [where f = snd, OF g] view show ?thesis by (simp only: snd_conv)
qed

end
