(* ===== verification/Facade_Contracts.thy ===== *)
theory Facade_Contracts
  imports Kernel_Contracts
begin

text \<open>
  The requests and responses of \<^verbatim>\<open>kernel/contracts.py\<close> that the platform exchanges with the kernel
  facade and the facade with a workflow gateway.
\<close>

section \<open>Runs\<close>

record start_run_request =
  srq_initiator :: string
  srq_run_kind :: string
  srq_session_id :: "string option"
  srq_input_ref :: "string option"
  srq_input_json :: "jdict option"
  srq_context_ref :: "string option"
  srq_parent_run_id :: "string option"
  srq_trace_context :: "string option"
  srq_task_contract_ref :: "string option"
  srq_initial_stage_id :: "string option"
  srq_route_policy_version :: "string option"
  srq_skill_policy_version :: "string option"
  srq_evaluation_policy_version :: "string option"
  srq_task_view_policy_version :: "string option"

record start_run_response =
  sp_run_id :: string
  sp_temporal_workflow_id :: string
  sp_lifecycle_state :: run_lifecycle_state

record signal_run_request =
  gq_run_id :: string
  gq_signal_type :: string
  gq_signal_payload :: "jdict option"
  gq_caused_by :: "string option"

record cancel_run_request =
  cq_run_id :: string
  cq_reason :: string
  cq_caused_by :: "string option"

record resume_run_request =
  rq_run_id :: string
  rq_snapshot_id :: "string option"
  rq_caused_by :: "string option"

record query_run_response =
  qr_run_id :: string
  qr_lifecycle_state :: run_lifecycle_state
  qr_projected_offset :: int
  qr_waiting_external :: bool
  qr_current_action_id :: "string option"
  qr_recovery_mode :: "string option"
  qr_recovery_reason :: "string option"
  qr_active_child_runs :: "string list"
  qr_policy_versions :: "run_policy_versions option"
  qr_active_stage_id :: "string option"

record query_run_dashboard_response =
  qd_run_id :: string
  qd_lifecycle_state :: run_lifecycle_state
  qd_projected_offset :: int
  qd_waiting_external :: bool
  qd_recovery_mode :: "string option"
  qd_recovery_reason :: "string option"
  qd_active_child_runs_count :: nat
  qd_correlation_hint :: string

record spawn_child_run_request =
  pq_parent_run_id :: string
  pq_child_kind :: string
  pq_input_ref :: "string option"
  pq_input_json :: "jdict option"
  pq_context_ref :: "string option"
  pq_task_id :: "string option"
  pq_inherit_policy_versions :: bool
  pq_policy_version_overrides :: "(string, string) dict option"
  pq_notify_parent_on_complete :: bool

record spawn_child_run_response =
  pp_child_run_id :: string
  pp_lifecycle_state :: run_lifecycle_state

record approval_request =
  aq_run_id :: string
  aq_approval_ref :: string
  aq_approved :: bool
  aq_reviewer_id :: string
  aq_reason :: "string option"
  aq_caused_by :: "string option"

section \<open>Trace views\<close>

fun trace_failure_code_str :: "trace_failure_code \<Rightarrow> string" where
  "trace_failure_code_str MISSING_EVIDENCE = ''missing_evidence''"
| "trace_failure_code_str INVALID_CONTEXT = ''invalid_context''"
| "trace_failure_code_str HARNESS_DENIED = ''harness_denied''"
| "trace_failure_code_str MODEL_OUTPUT_INVALID = ''model_output_invalid''"
| "trace_failure_code_str MODEL_REFUSAL = ''model_refusal''"
| "trace_failure_code_str CALLBACK_TIMEOUT = ''callback_timeout''"
| "trace_failure_code_str NO_PROGRESS = ''no_progress''"
| "trace_failure_code_str CONTRADICTORY_EVIDENCE = ''contradictory_evidence''"
| "trace_failure_code_str UNSAFE_ACTION_BLOCKED = ''unsafe_action_blocked''"
| "trace_failure_code_str EXPLORATION_BUDGET_EXHAUSTED = ''exploration_budget_exhausted''"
| "trace_failure_code_str EXECUTION_BUDGET_EXHAUSTED = ''execution_budget_exhausted''"

lemma trace_failure_code_str_nonempty [simp]: "trace_failure_code_str code \<noteq> []"
  by (cases code) simp_all

record trace_branch_view =
  tb_branch_id :: string
  tb_stage_id :: string
  tb_state :: string
  tb_opened_at :: string
  tb_parent_branch_id :: "string option"
  tb_proposed_by :: "string option"
  tb_failure_code :: "string option"
  tb_policy_versions :: "run_policy_versions option"

record trace_stage_view =
  ts_stage_id :: string
  ts_state :: string
  ts_entered_at :: string
  ts_exited_at :: "string option"
  ts_branch_id :: "string option"
  ts_failure_code :: "string option"

record trace_runtime_view =
  trv_run_id :: string
  trv_run_state :: string
  trv_wait_state :: string
  trv_review_state :: string
  trv_active_stage_id :: "string option"
  trv_branches :: "trace_branch_view list"
  trv_policy_versions :: "run_policy_versions option"
  trv_projected_at :: "string option"
  trv_stages :: "trace_stage_view list"

record open_branch_request =
  ob_run_id :: string
  ob_branch_id :: string
  ob_stage_id :: string
  ob_parent_branch_id :: "string option"
  ob_proposed_by :: "string option"

record branch_state_update_request =
  bu_run_id :: string
  bu_branch_id :: string
  bu_new_state :: string
  bu_failure_code :: "trace_failure_code option"
  bu_reason :: "string option"

record human_gate_request =
  hg_gate_ref :: string
  hg_gate_type :: string
  hg_run_id :: string
  hg_trigger_reason :: string
  hg_trigger_source :: string
  hg_stage_id :: "string option"
  hg_branch_id :: "string option"
  hg_artifact_ref :: "string option"
  hg_caused_by :: "string option"

record human_gate_resolution =
  hr_gate_ref :: string
  hr_gate_type :: string
  hr_resolution :: string
  hr_resolved_by :: "string option"
  hr_resolved_at :: "string option"
  hr_stage_id :: "string option"
  hr_branch_id :: "string option"

record run_postmortem_view =
  pm_run_id :: string
  pm_task_id :: "string option"
  pm_run_kind :: string
  pm_outcome :: string
  pm_stages :: "trace_stage_view list"
  pm_branches :: "trace_branch_view list"
  pm_total_action_count :: nat
  pm_failure_codes :: "string list"
  pm_duration_ms :: int
  pm_human_gate_resolutions :: "human_gate_resolution list"
  pm_policy_versions :: "run_policy_versions option"
  pm_event_count :: int
  pm_created_at :: "string option"
  pm_completed_at :: "string option"

record child_run_summary =
  cs_child_run_id :: string
  cs_child_kind :: string
  cs_task_id :: "string option"
  cs_lifecycle_state :: run_lifecycle_state
  cs_outcome :: "run_lifecycle_state option"
  cs_created_at :: "string option"
  cs_completed_at :: "string option"
  cs_query_error :: "string option"

end
