(* ===== verification/Agent_Core_Adapters.thy ===== *)
theory Agent_Core_Adapters
  imports Facade_Contracts Capability_Snapshot Projection
begin

text \<open>
  \<^verbatim>\<open>adapters/agent_core\<close>: the translation between a platform and the kernel.  The context adapter binds
  sessions and runs to contexts, the checkpoint adapter names snapshots of a projection and reads
  their names back, the session adapter routes callbacks to the runs of a session, the runner
  adapter builds start requests.  A session object of the platform is a string, nothing, or an
  object known by what its members \<^verbatim>\<open>session_id\<close> and \<^verbatim>\<open>workflow_id\<close> give.
\<close>

section \<open>Contexts\<close>

record agent_core_context_input =
  ci_session_id :: "string option"
  ci_context_ref :: "string option"
  ci_context_json :: "jdict option"

record runtime_context_binding =
  cb_binding_ref :: string
  cb_hot_context_ref :: "string option"
  cb_warm_context_ref :: "string option"
  cb_content_hash :: "string option"
  cb_workspace_rules_md_ref :: "string option"
  cb_workspace_summary_md_ref :: "string option"

record agent_core_context_export =
  ce_run_id :: string
  ce_context_ref :: string
  ce_summary_ref :: "string option"

record context_adapter =
  ca_binding_by_run :: "(string, string) dict"
  ca_context_by_binding :: "(string, string) dict"

definition AgentCoreContextAdapter :: context_adapter where
  "AgentCoreContextAdapter = \<lparr>ca_binding_by_run = [], ca_context_by_binding = []\<rparr>"

text \<open>An f-string renders an absent session id as \<^verbatim>\<open>None\<close>.\<close>

definition fstring_opt :: "string option \<Rightarrow> string" where
  "fstring_opt v = (case v of None \<Rightarrow> ''None'' | Some s \<Rightarrow> s)"

definition build_context_content_hash :: "(rat \<Rightarrow> string) \<Rightarrow> agent_core_context_input \<Rightarrow> string" where
  "build_context_content_hash float_repr input_value =
     (let payload = JDict
        [(''session_id'', json_opt_str (ci_session_id input_value)),
         (''context_ref'', json_opt_str (ci_context_ref input_value)),
         (''context_json'', JDict (case ci_context_json input_value of None \<Rightarrow> [] | Some d \<Rightarrow> d))]
      in sha256_hexdigest (utf8_encode (json_dumps float_repr True payload)))"

definition bind_context ::
  "(rat \<Rightarrow> string) \<Rightarrow> agent_core_context_input \<Rightarrow> context_adapter \<Rightarrow> context_adapter \<times> runtime_context_binding" where
  "bind_context float_repr input_value ca =
     (let binding_ref = ''ctx:'' @ fstring_opt (ci_session_id input_value)
      in ((case ci_context_ref input_value of
             None \<Rightarrow> ca
           | Some context_ref \<Rightarrow> ca\<lparr>ca_context_by_binding := dict_set binding_ref context_ref (ca_context_by_binding ca)\<rparr>),
          \<lparr>cb_binding_ref = binding_ref, cb_hot_context_ref = ci_context_ref input_value,
           cb_warm_context_ref = ci_context_ref input_value,
           cb_content_hash = Some (build_context_content_hash float_repr input_value),
           cb_workspace_rules_md_ref = Some (''ctx-rules:'' @ fstring_opt (ci_session_id input_value)),
           cb_workspace_summary_md_ref = Some (''ctx-summary:'' @ fstring_opt (ci_session_id input_value))\<rparr>))"

definition bind_run_context :: "string \<Rightarrow> string \<Rightarrow> context_adapter \<Rightarrow> context_adapter" where
  "bind_run_context run_id binding_ref ca =
     ca\<lparr>ca_binding_by_run := dict_set run_id binding_ref (ca_binding_by_run ca)\<rparr>"

definition resolve_run_context :: "string \<Rightarrow> context_adapter \<Rightarrow> string option" where
  "resolve_run_context run_id ca = dict_get (ca_binding_by_run ca) run_id"

definition export_context :: "string \<Rightarrow> context_adapter \<Rightarrow> agent_core_context_export" where
  "export_context run_id ca =
     (let binding_ref = dict_get_or (ca_binding_by_run ca) run_id '''';
          context_ref = dict_get_or (ca_context_by_binding ca) binding_ref (''ctx:'' @ run_id)
      in \<lparr>ce_run_id = run_id, ce_context_ref = context_ref, ce_summary_ref = Some (''ctx-summary:'' @ run_id)\<rparr>)"

section \<open>Checkpoints\<close>

record agent_core_checkpoint_view =
  cv_run_id :: string
  cv_snapshot_id :: "string option"
  cv_projected_offset :: int
  cv_lifecycle_state :: run_lifecycle_state

record agent_core_resume_input =
  rs_run_id :: string
  rs_snapshot_id :: "string option"

record kernel_resume_request =
  kr_run_id :: string
  kr_snapshot_id :: "string option"
  kr_snapshot_offset :: "int option"

type_synonym checkpoint_adapter = "(string, run_projection) dict"

definition bind_projection :: "run_projection \<Rightarrow> checkpoint_adapter \<Rightarrow> checkpoint_adapter" where
  "bind_projection projection cp = dict_set (pr_run_id projection) projection cp"

definition snapshot_name :: "string \<Rightarrow> int \<Rightarrow> string" where
  "snapshot_name run_id offset = ''snapshot:'' @ run_id @ '':'' @ show_int offset"

definition export_checkpoint_view :: "checkpoint_adapter \<Rightarrow> string \<Rightarrow> agent_core_checkpoint_view" where
  "export_checkpoint_view cp run_id =
     (case dict_get cp run_id of
        None \<Rightarrow> \<lparr>cv_run_id = run_id, cv_snapshot_id = None, cv_projected_offset = 0, cv_lifecycle_state = Created\<rparr>
      | Some p \<Rightarrow>
          \<lparr>cv_run_id = run_id, cv_snapshot_id = Some (snapshot_name run_id (pr_projected_offset p)),
           cv_projected_offset = pr_projected_offset p, cv_lifecycle_state = pr_lifecycle_state p\<rparr>)"

text \<open>\<^verbatim>\<open>s.rpartition(':')\<close>, \<^verbatim>\<open>None\<close> when there is no colon.\<close>

definition rpartition_colon :: "string \<Rightarrow> (string \<times> string) option" where
  "rpartition_colon s =
     (case dropWhile (\<lambda>c. c \<noteq> CHR '':'') (rev s) of
        [] \<Rightarrow> None
      | _ # before \<Rightarrow> Some (rev before, rev (takeWhile (\<lambda>c. c \<noteq> CHR '':'') (rev s))))"

text \<open>
  \<^verbatim>\<open>str.isdigit\<close> holds below code point 256 for the decimal digits and three superscripts, which
  \<^verbatim>\<open>int\<close> refuses.
\<close>

definition decimal_digit :: "char \<Rightarrow> bool" where
  "decimal_digit c = (let n = of_char c :: nat in 48 \<le> n \<and> n \<le> 57)"

definition py_isdigit :: "string \<Rightarrow> bool" where
  "py_isdigit s = (s \<noteq> [] \<and> list_all (\<lambda>c. decimal_digit c \<or> (of_char c :: nat) \<in> {178, 179, 185}) s)"

definition snapshot_digits :: "string \<Rightarrow> int" where
  "snapshot_digits s = foldl (\<lambda>n c. 10 * n + (int (of_char c) - 48)) 0 s"

definition py_int :: "string \<Rightarrow> int result" where
  "py_int s =
     (if s \<noteq> [] \<and> list_all decimal_digit s then Inr (snapshot_digits s)
      else Inl (ValueError (''invalid literal for int() with base 10: '' @ repr_str s)))"

definition parse_snapshot_id :: "string \<Rightarrow> (string \<times> int) result" where
  "parse_snapshot_id snapshot_id =
     (let bad = Inl (ValueError ''Invalid snapshot_id format. Expected 'snapshot:<run_id>:<offset>'.'')
      in if \<not> startswith snapshot_id ''snapshot:'' then bad
         else
           (case rpartition_colon (removeprefix snapshot_id ''snapshot:'') of
              None \<Rightarrow> bad
            | Some (run_id, offset_value) \<Rightarrow>
                if run_id = [] then Inl (ValueError ''Invalid snapshot_id: run_id must be non-empty.'')
                else if \<not> py_isdigit offset_value
                then Inl (ValueError ''Invalid snapshot_id: offset must be a non-negative integer.'')
                else bind_result (py_int offset_value) (\<lambda>offset. Inr (run_id, offset))))"

definition import_resume_request :: "agent_core_resume_input \<Rightarrow> kernel_resume_request result" where
  "import_resume_request input_value =
     bind_result
       (case rs_snapshot_id input_value of
          None \<Rightarrow> Inr None
        | Some snapshot_id \<Rightarrow>
            bind_result (parse_snapshot_id snapshot_id) (\<lambda>(parsed_run_id, parsed_offset).
              if parsed_run_id \<noteq> rs_run_id input_value
              then Inl (ValueError ''snapshot_id run_id does not match resume request run_id.'')
              else Inr (Some parsed_offset)))
       (\<lambda>snapshot_offset.
          Inr \<lparr>kr_run_id = rs_run_id input_value, kr_snapshot_id = rs_snapshot_id input_value,
               kr_snapshot_offset = snapshot_offset\<rparr>)"

section \<open>Sessions\<close>

text \<open>
  What a session of the platform is to the adapters: a string, or an object whose members are
  absent, a function giving a string, a string, or something else.
\<close>

datatype session_member = NoMember | CallGives "string option" | StrMember string | OtherMember

datatype platform_session = SessionStr string | SessionObject session_member session_member

text \<open>
  \<^verbatim>\<open>str(session_id_fn())\<close> renders \<^verbatim>\<open>None\<close> as a text; a workflow id function that gives \<^verbatim>\<open>None\<close>
  counts as absent.
\<close>

definition extract_session_id :: "platform_session option \<Rightarrow> string option" where
  "extract_session_id session =
     (case session of
        None \<Rightarrow> None
      | Some (SessionStr s) \<Rightarrow> Some s
      | Some (SessionObject (CallGives v) _) \<Rightarrow> Some (fstring_opt v)
      | Some (SessionObject (StrMember s) _) \<Rightarrow> Some s
      | Some (SessionObject _ _) \<Rightarrow> None)"

definition extract_workflow_id :: "platform_session option \<Rightarrow> string option" where
  "extract_workflow_id session =
     (case session of
        Some (SessionObject _ (CallGives (Some s))) \<Rightarrow> Some s
      | Some (SessionObject _ (StrMember s)) \<Rightarrow> Some s
      | _ \<Rightarrow> None)"

record session_run_binding =
  sb_run_id :: string
  sb_binding_kind :: string

record agent_core_callback_input =
  cbk_session_id :: string
  cbk_callback_type :: string
  cbk_callback_payload :: "jdict option"
  cbk_run_id :: "string option"
  cbk_caused_by :: "string option"

type_synonym session_adapter = "(string, session_run_binding list) dict"

definition bind_run_to_session :: "string \<Rightarrow> string \<Rightarrow> string \<Rightarrow> session_adapter \<Rightarrow> session_adapter" where
  "bind_run_to_session session_id run_id binding_kind sa =
     (let bindings = dict_get_or sa session_id [];
          candidate = \<lparr>sb_run_id = run_id, sb_binding_kind = binding_kind\<rparr>
      in dict_set session_id (if candidate \<in> set bindings then bindings else bindings @ [candidate]) sa)"

definition bind_openjiuwen_session ::
  "platform_session option \<Rightarrow> string \<Rightarrow> string \<Rightarrow> session_adapter \<Rightarrow> session_adapter \<times> unit result" where
  "bind_openjiuwen_session session run_id binding_kind sa =
     (if \<not> truthy (extract_session_id session)
      then (sa, Inl (ValueError ''session must provide session_id() or a session_id field.''))
      else (bind_run_to_session (the (extract_session_id session)) run_id binding_kind sa, Inr ()))"

definition resolve_session_run :: "session_adapter \<Rightarrow> string \<Rightarrow> string list" where
  "resolve_session_run sa session_id = map sb_run_id (dict_get_or sa session_id [])"

definition resolve_session_run_by_kind :: "session_adapter \<Rightarrow> string \<Rightarrow> string \<Rightarrow> string list" where
  "resolve_session_run_by_kind sa session_id binding_kind =
     map sb_run_id (filter (\<lambda>b. sb_binding_kind b = binding_kind) (dict_get_or sa session_id []))"

definition resolve_openjiuwen_session :: "session_adapter \<Rightarrow> platform_session option \<Rightarrow> string list" where
  "resolve_openjiuwen_session sa session =
     (if \<not> truthy (extract_session_id session) then [] else resolve_session_run sa (the (extract_session_id session)))"

definition translate_callback :: "session_adapter \<Rightarrow> agent_core_callback_input \<Rightarrow> signal_run_request" where
  "translate_callback sa input_value =
     \<lparr>gq_run_id = (case cbk_run_id input_value of
          Some run_id \<Rightarrow> run_id
        | None \<Rightarrow>
            let bindings = dict_get_or sa (cbk_session_id input_value) []
            in if bindings = [] then cbk_session_id input_value else sb_run_id (last bindings)),
      gq_signal_type = cbk_callback_type input_value, gq_signal_payload = cbk_callback_payload input_value,
      gq_caused_by = cbk_caused_by input_value\<rparr>"

section \<open>Runners\<close>

record agent_core_runner_start_input =
  rn_runner_kind :: string
  rn_session_id :: "string option"
  rn_goal_ref :: "string option"
  rn_goal_json :: "jdict option"
  rn_context_ref :: "string option"

record agent_core_child_spawn_input =
  rc_parent_run_id :: string
  rc_runner_kind :: string
  rc_child_goal_ref :: "string option"
  rc_child_goal_json :: "jdict option"

definition from_runner_start :: "agent_core_runner_start_input \<Rightarrow> start_run_request" where
  "from_runner_start i =
     \<lparr>srq_initiator = ''agent_core_runner'', srq_run_kind = rn_runner_kind i, srq_session_id = rn_session_id i,
      srq_input_ref = rn_goal_ref i, srq_input_json = rn_goal_json i, srq_context_ref = rn_context_ref i,
      srq_parent_run_id = None, srq_trace_context = None, srq_task_contract_ref = None, srq_initial_stage_id = None,
      srq_route_policy_version = None, srq_skill_policy_version = None, srq_evaluation_policy_version = None,
      srq_task_view_policy_version = None\<rparr>"

definition from_runner_child_spawn :: "agent_core_child_spawn_input \<Rightarrow> spawn_child_run_request" where
  "from_runner_child_spawn i =
     \<lparr>pq_parent_run_id = rc_parent_run_id i, pq_child_kind = rc_runner_kind i, pq_input_ref = rc_child_goal_ref i,
      pq_input_json = rc_child_goal_json i, pq_context_ref = None, pq_task_id = None,
      pq_inherit_policy_versions = True, pq_policy_version_overrides = None, pq_notify_parent_on_complete = True\<rparr>"

definition from_openjiuwen_run_call ::
  "string \<Rightarrow> jdict option \<Rightarrow> platform_session option \<Rightarrow> string option \<Rightarrow> start_run_request" where
  "from_openjiuwen_run_call runner_kind inputs session context_ref =
     from_runner_start \<lparr>rn_runner_kind = runner_kind, rn_session_id = extract_session_id session, rn_goal_ref = None,
       rn_goal_json = inputs, rn_context_ref = context_ref\<rparr>"

definition from_openjiuwen_child_run_call ::
  "string \<Rightarrow> jdict option \<Rightarrow> platform_session option \<Rightarrow> spawn_child_run_request result" where
  "from_openjiuwen_child_run_call runner_kind child_inputs parent_session =
     (let parent_run_id = or_else (extract_workflow_id parent_session) (extract_session_id parent_session)
      in if \<not> truthy parent_run_id
         then Inl (ValueError ''parent_session must provide workflow_id() or session_id().'')
         else Inr (from_runner_child_spawn \<lparr>rc_parent_run_id = the parent_run_id, rc_runner_kind = runner_kind,
           rc_child_goal_ref = None, rc_child_goal_json = child_inputs\<rparr>))"

section \<open>Snapshot names read back\<close>

lemma snapshot_digits_snoc: "snapshot_digits (s @ [c]) = 10 * snapshot_digits s + (int (of_char c) - 48)"
  by (simp add: snapshot_digits_def)

lemma snapshot_digits_show_nat: "snapshot_digits (show_nat n) = int n"
proof (induction n rule: show_nat.induct)
  case (1 n)
  show ?case
  proof (cases "n < 10")
    case True
    then show ?thesis by (subst show_nat.simps) (simp add: snapshot_digits_def of_char_digit_char)
  next
    case False
    then have "snapshot_digits (show_nat n) = 10 * int (n div 10) + int (n mod 10)"
      using 1 by (subst show_nat.simps) (simp add: snapshot_digits_snoc of_char_digit_char)
    then show ?thesis using div_mult_mod_eq [of n 10] by linarith
  qed
qed

lemma show_nat_decimal: "list_all decimal_digit (show_nat n)"
  using show_nat_digits [of n] by (auto simp: list_all_iff decimal_digit_def of_char_digit_char)

lemma py_int_show: "py_int (show_nat n) = Inr (int n)"
  by (simp add: py_int_def show_nat_decimal snapshot_digits_show_nat)

lemma rpartition_colon_append: "CHR '':'' \<notin> set t \<Longrightarrow> rpartition_colon (s @ CHR '':'' # t) = Some (s, t)"
proof -
  assume "CHR '':'' \<notin> set t"
  then have t: "\<And>c. c \<in> set (rev t) \<Longrightarrow> c \<noteq> CHR '':''" by auto
  have "dropWhile (\<lambda>c. c \<noteq> CHR '':'') (rev t @ CHR '':'' # rev s) = CHR '':'' # rev s"
    "takeWhile (\<lambda>c. c \<noteq> CHR '':'') (rev t @ CHR '':'' # rev s) = rev t"
    by (subst dropWhile_append2 takeWhile_append2, erule t, simp)+
  then show ?thesis by (simp add: rpartition_colon_def)
qed

text \<open>
  C18 (roundtrip): the name of a checkpoint, whatever colons the run id has, resumes the run at the
  offset of the projection it was made of; under the name of another run it is refused.
\<close>

theorem snapshot_name_roundtrip:
  assumes "export_checkpoint_view (bind_projection p cp) (pr_run_id p) = cv" "pr_run_id p \<noteq> []" "0 \<le> pr_projected_offset p"
  shows "import_resume_request \<lparr>rs_run_id = run, rs_snapshot_id = cv_snapshot_id cv\<rparr> =
    (if run = pr_run_id p
     then Inr \<lparr>kr_run_id = run, kr_snapshot_id = cv_snapshot_id cv, kr_snapshot_offset = Some (pr_projected_offset p)\<rparr>
     else Inl (ValueError ''snapshot_id run_id does not match resume request run_id.''))"
proof -
  have sn: "show_int (pr_projected_offset p) = show_nat (nat (pr_projected_offset p))"
    using assms(3) by (simp add: show_int_def)
  have cv: "cv_snapshot_id cv = Some (snapshot_name (pr_run_id p) (pr_projected_offset p))"
    using assms(1) by (auto simp: export_checkpoint_view_def bind_projection_def)
  have "py_isdigit (show_nat n)" for n
    using show_nat_decimal [of n] by (auto simp: py_isdigit_def list_all_iff)
  then have "parse_snapshot_id (snapshot_name (pr_run_id p) (pr_projected_offset p)) = Inr (pr_run_id p, pr_projected_offset p)"
    using assms(2,3) rpartition_colon_append [OF show_nat_no_sign(2), of "pr_run_id p"]
    by (simp add: parse_snapshot_id_def snapshot_name_def startswith_def removeprefix_def sn py_int_show)
  then show ?thesis by (simp add: import_resume_request_def cv)
qed

theorem snapshot_name_roundtrip_witness:
  "import_resume_request \<lparr>rs_run_id = ''p:c'', rs_snapshot_id = Some ''snapshot:p:c:12''\<rparr> =
     Inr \<lparr>kr_run_id = ''p:c'', kr_snapshot_id = Some ''snapshot:p:c:12'', kr_snapshot_offset = Some 12\<rparr>"
proof -
  let ?p = "(default_projection ''p:c'')\<lparr>pr_projected_offset := 12\<rparr>"
  have "cv_snapshot_id (export_checkpoint_view (bind_projection ?p []) (pr_run_id ?p)) = Some ''snapshot:p:c:12''"
    by code_simp
  with snapshot_name_roundtrip [OF refl, where p = ?p and cp = "[]" and run = "''p:c''"] show ?thesis by (simp add: default_projection_def)
qed

section \<open>Contexts and sessions\<close>

text \<open>
  A context is kept per session, not per run: a second run of the session with another context
  changes what the first one exports.
\<close>

lemma context_shared_by_session:
  assumes "cb_binding_ref b1 \<noteq> []" "r1 \<noteq> r2"
    "bind_context fr \<lparr>ci_session_id = s, ci_context_ref = Some c1, ci_context_json = None\<rparr> ca = (ca1, b1)"
    "bind_context fr \<lparr>ci_session_id = s, ci_context_ref = Some c2, ci_context_json = None\<rparr>
       (bind_run_context r1 (cb_binding_ref b1) ca1) = (ca2, b2)"
  shows "ce_context_ref (export_context r1 (bind_run_context r2 (cb_binding_ref b2) ca2)) = c2"
  using assms
  by (auto simp: bind_context_def bind_run_context_def export_context_def Let_def dict_get_or_def)

text \<open>Bindings of a session are distinct and in the order they were first made.\<close>

definition session_wf :: "session_adapter \<Rightarrow> bool" where
  "session_wf sa \<longleftrightarrow> (\<forall>s bs. dict_get sa s = Some bs \<longrightarrow> distinct bs)"

lemma session_wf_bind: "session_wf sa \<Longrightarrow> session_wf (bind_run_to_session s r k sa)"
  by (auto simp: session_wf_def bind_run_to_session_def Let_def dict_get_or_def split: option.splits)

text \<open>
  A callback goes to the latest run that was first bound: binding a run again, with the kind it
  has, does not make it the latest.
\<close>

lemma rebound_run_not_latest:
  assumes "r1 \<noteq> r2" "dict_get sa s = None"
    "sa' = bind_run_to_session s r1 k (bind_run_to_session s r2 k (bind_run_to_session s r1 k sa))"
    "cbk_session_id c = s" "cbk_run_id c = None"
  shows "gq_run_id (translate_callback sa' c) = r2"
  using assms by (simp add: translate_callback_def bind_run_to_session_def dict_get_or_def Let_def)

end
