(* ===== verification/Trace_Registry.thy ===== *)
theory Trace_Registry
  imports Agent_Core_Adapters Projection_Cache Event_Log
begin

text \<open>
  The state a \<^verbatim>\<open>KernelFacade\<close> (\<^verbatim>\<open>adapters/facade/kernel_facade.py\<close>) keeps beside its collaborators, and
  the operations on it: tracking of runs with eviction, the registries of branches, stages and human
  gates, and their reconstruction from the \<^verbatim>\<open>trace.*\<close> events of the log.  The sets of the source are
  lists without duplicates.
\<close>

section \<open>State\<close>

record facade_state =
  fa_draining :: bool
  fa_in_flight_count :: int
  fa_branch_registry :: "(string, (string, trace_branch_view) dict) dict"
  fa_stage_registry :: "(string, (string, trace_stage_view) dict) dict"
  fa_submitted_approvals :: "(string \<times> string) list"
  fa_open_human_gates :: "(string, string list) dict"
  fa_resolved_human_gates :: "(string, string list) dict"
  fa_gate_types :: "(string, (string, string) dict) dict"
  fa_gate_resolutions :: "(string, (string, string) dict) dict"
  fa_rebuild_offsets :: "(string, int) dict"
  fa_tracked_run_order :: "string list"
  fa_tracked_run_set :: "string list"
  fa_run_created_at :: "(string, string) dict"
  fa_run_completed_at :: "(string, string) dict"
  fa_child_kind :: "(string, string) dict"
  fa_all_child_runs :: "(string, string list) dict"
  fa_context_adapter :: "context_adapter option"
  fa_checkpoint_adapter :: "checkpoint_adapter option"

definition initial_facade :: "context_adapter option \<Rightarrow> checkpoint_adapter option \<Rightarrow> facade_state" where
  "initial_facade context_adapter checkpoint_adapter =
     \<lparr>fa_draining = False, fa_in_flight_count = 0, fa_branch_registry = [], fa_stage_registry = [],
      fa_submitted_approvals = [], fa_open_human_gates = [], fa_resolved_human_gates = [], fa_gate_types = [],
      fa_gate_resolutions = [], fa_rebuild_offsets = [], fa_tracked_run_order = [], fa_tracked_run_set = [],
      fa_run_created_at = [], fa_run_completed_at = [], fa_child_kind = [], fa_all_child_runs = [],
      fa_context_adapter = context_adapter, fa_checkpoint_adapter = checkpoint_adapter\<rparr>"

text \<open>\<^verbatim>\<open>s.add(x)\<close>\<close>

definition set_add :: "'a \<Rightarrow> 'a list \<Rightarrow> 'a list" where
  "set_add x xs = (if x \<in> set xs then xs else xs @ [x])"

text \<open>\<^verbatim>\<open>d.setdefault(k, {})[i] = v\<close> and \<^verbatim>\<open>d.setdefault(k, set()).add(v)\<close>\<close>

definition nested_set :: "'k \<Rightarrow> 'i \<Rightarrow> 'v \<Rightarrow> ('k, ('i, 'v) dict) dict \<Rightarrow> ('k, ('i, 'v) dict) dict" where
  "nested_set k i v d = dict_set k (dict_set i v (dict_get_or d k [])) d"

definition nested_add :: "'k \<Rightarrow> 'v \<Rightarrow> ('k, 'v list) dict \<Rightarrow> ('k, 'v list) dict" where
  "nested_add k v d = dict_set k (set_add v (dict_get_or d k [])) d"

definition nested_get :: "('k, ('i, 'v) dict) dict \<Rightarrow> 'k \<Rightarrow> 'i \<Rightarrow> 'v option" where
  "nested_get d k i = dict_get (dict_get_or d k []) i"

section \<open>Tracking of runs\<close>

definition purge_run_state :: "string \<Rightarrow> facade_state \<Rightarrow> facade_state" where
  "purge_run_state run_id fa =
     fa\<lparr>fa_branch_registry := dict_pop run_id (fa_branch_registry fa),
        fa_stage_registry := dict_pop run_id (fa_stage_registry fa),
        fa_submitted_approvals := filter (\<lambda>k. fst k \<noteq> run_id) (fa_submitted_approvals fa),
        fa_open_human_gates := dict_pop run_id (fa_open_human_gates fa),
        fa_resolved_human_gates := dict_pop run_id (fa_resolved_human_gates fa),
        fa_gate_types := dict_pop run_id (fa_gate_types fa),
        fa_gate_resolutions := dict_pop run_id (fa_gate_resolutions fa),
        fa_rebuild_offsets := dict_pop run_id (fa_rebuild_offsets fa)\<rparr>"

definition evict_oldest_run :: "facade_state \<Rightarrow> facade_state" where
  "evict_oldest_run fa =
     (case fa_tracked_run_order fa of
        [] \<Rightarrow> fa
      | oldest # order \<Rightarrow>
          purge_run_state oldest
            (fa\<lparr>fa_tracked_run_order := order,
                fa_tracked_run_set := filter (\<lambda>r. r \<noteq> oldest) (fa_tracked_run_set fa)\<rparr>))"

text \<open>
  The \<^verbatim>\<open>while\<close> loop of \<^verbatim>\<open>_touch_run\<close>.  Order and set hold the same runs, so the loop has ended when the
  order is empty (\<open>evict_runs_bound\<close> below); the limit is not negative.
\<close>

function evict_runs :: "nat \<Rightarrow> facade_state \<Rightarrow> facade_state" where
  "evict_runs max_tracked_runs fa =
     (if length (fa_tracked_run_set fa) > max_tracked_runs \<and> fa_tracked_run_order fa \<noteq> []
      then evict_runs max_tracked_runs (evict_oldest_run fa)
      else fa)"
  by pat_completeness auto
termination
  by (relation "measure (\<lambda>(m, fa). length (fa_tracked_run_order fa))")
    (auto simp: evict_oldest_run_def purge_run_state_def split: list.split)

declare evict_runs.simps [simp del]

definition touch_run :: "nat \<Rightarrow> string \<Rightarrow> facade_state \<Rightarrow> facade_state" where
  "touch_run max_tracked_runs run_id fa =
     (if run_id \<in> set (fa_tracked_run_set fa) then fa
      else evict_runs max_tracked_runs
        (fa\<lparr>fa_tracked_run_set := fa_tracked_run_set fa @ [run_id],
            fa_tracked_run_order := fa_tracked_run_order fa @ [run_id]\<rparr>))"

definition cleanup_completed_run :: "string \<Rightarrow> facade_state \<Rightarrow> facade_state" where
  "cleanup_completed_run run_id fa =
     purge_run_state run_id
       (fa\<lparr>fa_tracked_run_set := filter (\<lambda>r. r \<noteq> run_id) (fa_tracked_run_set fa),
           fa_tracked_run_order := remove1 run_id (fa_tracked_run_order fa)\<rparr>)"

section \<open>Reconstruction from the log\<close>

text \<open>
  One event.  The view of an opened branch or stage is built before anything is changed; a changed
  state is read only when the branch or stage is known; the set of open gates of the run exists
  before the name of the gate is read.
\<close>

definition opened_branch_view :: "runtime_event \<Rightarrow> jdict \<Rightarrow> trace_branch_view result" where
  "opened_branch_view ev p =
     bind_result (bind_result (require_field p ''branch_id'') (text_field ''branch_id'')) (\<lambda>branch_id.
     bind_result (bind_result (require_field p ''stage_id'') (text_field ''stage_id'')) (\<lambda>stage_id.
     bind_result (text_field ''state'' (dict_get_or p ''state'' (JStr ''active''))) (\<lambda>state.
     bind_result (text_field ''opened_at'' (dict_get_or p ''opened_at'' (JStr (ev_created_at ev)))) (\<lambda>opened_at.
     bind_result (opt_field ''parent_branch_id'' (jget p ''parent_branch_id'')) (\<lambda>parent_branch_id.
     bind_result (opt_field ''proposed_by'' (jget p ''proposed_by'')) (\<lambda>proposed_by.
     Inr \<lparr>tb_branch_id = branch_id, tb_stage_id = stage_id, tb_state = state, tb_opened_at = opened_at,
          tb_parent_branch_id = parent_branch_id, tb_proposed_by = proposed_by, tb_failure_code = None,
          tb_policy_versions = None\<rparr>))))))"

definition opened_stage_view :: "runtime_event \<Rightarrow> jdict \<Rightarrow> trace_stage_view result" where
  "opened_stage_view ev p =
     bind_result (bind_result (require_field p ''stage_id'') (text_field ''stage_id'')) (\<lambda>stage_id.
     bind_result (text_field ''state'' (dict_get_or p ''state'' (JStr ''active''))) (\<lambda>state.
     bind_result (text_field ''entered_at'' (dict_get_or p ''entered_at'' (JStr (ev_created_at ev)))) (\<lambda>entered_at.
     bind_result (opt_field ''branch_id'' (jget p ''branch_id'')) (\<lambda>branch_id.
     Inr \<lparr>ts_stage_id = stage_id, ts_state = state, ts_entered_at = entered_at, ts_exited_at = None,
          ts_branch_id = branch_id, ts_failure_code = None\<rparr>))))"

definition changed_branch_view :: "jdict \<Rightarrow> trace_branch_view \<Rightarrow> trace_branch_view result" where
  "changed_branch_view p existing =
     bind_result (bind_result (require_field p ''new_state'') (text_field ''new_state'')) (\<lambda>new_state.
     bind_result (opt_field ''failure_code'' (jget p ''failure_code'')) (\<lambda>failure_code.
     Inr (existing\<lparr>tb_state := new_state, tb_failure_code := or_else failure_code (tb_failure_code existing)\<rparr>)))"

definition changed_stage_view :: "jdict \<Rightarrow> trace_stage_view \<Rightarrow> trace_stage_view result" where
  "changed_stage_view p existing =
     bind_result (bind_result (require_field p ''new_state'') (text_field ''new_state'')) (\<lambda>new_state.
     bind_result (opt_field ''exited_at'' (jget p ''exited_at'')) (\<lambda>exited_at.
     bind_result (opt_field ''failure_code'' (jget p ''failure_code'')) (\<lambda>failure_code.
     Inr (existing\<lparr>ts_state := new_state, ts_exited_at := or_else exited_at (ts_exited_at existing),
            ts_failure_code := or_else failure_code (ts_failure_code existing)\<rparr>))))"

definition lift_fa :: "facade_state result \<Rightarrow> facade_state \<Rightarrow> facade_state \<times> unit result" where
  "lift_fa r fa = (case r of Inl e \<Rightarrow> (fa, Inl e) | Inr fa' \<Rightarrow> (fa', Inr ()))"

definition apply_trace_event :: "string \<Rightarrow> runtime_event \<Rightarrow> (facade_state, unit) act" where
  "apply_trace_event run_id ev fa =
     (let p = (case ev_payload_json ev of None \<Rightarrow> [] | Some d \<Rightarrow> d);
          gate = bind_result (require_field p ''gate_ref'') (text_field ''gate_ref'')
      in if ev_event_type ev = ''trace.branch_opened''
         then lift_fa (bind_result (opened_branch_view ev p) (\<lambda>view.
           Inr (if nested_get (fa_branch_registry fa) run_id (tb_branch_id view) = None
                then fa\<lparr>fa_branch_registry := nested_set run_id (tb_branch_id view) view (fa_branch_registry fa)\<rparr>
                else fa))) fa
         else if ev_event_type ev = ''trace.branch_state_changed''
         then lift_fa (bind_result (bind_result (require_field p ''branch_id'') (text_field ''branch_id'')) (\<lambda>branch_id.
           case nested_get (fa_branch_registry fa) run_id branch_id of
             None \<Rightarrow> Inr fa
           | Some existing \<Rightarrow> bind_result (changed_branch_view p existing) (\<lambda>updated.
               Inr (fa\<lparr>fa_branch_registry := nested_set run_id branch_id updated (fa_branch_registry fa)\<rparr>)))) fa
         else if ev_event_type ev = ''trace.stage_opened''
         then lift_fa (bind_result (opened_stage_view ev p) (\<lambda>view.
           Inr (if nested_get (fa_stage_registry fa) run_id (ts_stage_id view) = None
                then fa\<lparr>fa_stage_registry := nested_set run_id (ts_stage_id view) view (fa_stage_registry fa)\<rparr>
                else fa))) fa
         else if ev_event_type ev = ''trace.stage_state_changed''
         then lift_fa (bind_result (bind_result (require_field p ''stage_id'') (text_field ''stage_id'')) (\<lambda>stage_id.
           case nested_get (fa_stage_registry fa) run_id stage_id of
             None \<Rightarrow> Inr fa
           | Some existing \<Rightarrow> bind_result (changed_stage_view p existing) (\<lambda>updated.
               Inr (fa\<lparr>fa_stage_registry := nested_set run_id stage_id updated (fa_stage_registry fa)\<rparr>)))) fa
         else if ev_event_type ev = ''trace.human_gate_opened''
         then lift_fa (bind_result gate (\<lambda>gate_ref.
           Inr (fa\<lparr>fa_open_human_gates := nested_add run_id gate_ref (fa_open_human_gates fa)\<rparr>)))
           (fa\<lparr>fa_open_human_gates := dict_setdefault run_id [] (fa_open_human_gates fa)\<rparr>)
         else if ev_event_type ev = ''trace.human_gate_resolved''
         then lift_fa (bind_result gate (\<lambda>gate_ref.
           Inr (fa\<lparr>fa_open_human_gates := nested_add run_id gate_ref (fa_open_human_gates fa),
                   fa_resolved_human_gates := nested_add run_id gate_ref (fa_resolved_human_gates fa)\<rparr>)))
           (fa\<lparr>fa_open_human_gates := dict_setdefault run_id [] (fa_open_human_gates fa)\<rparr>)
         else (fa, Inr ()))"

fun apply_trace_events :: "string \<Rightarrow> runtime_event list \<Rightarrow> (facade_state, unit) act" where
  "apply_trace_events run_id [] = return_act ()"
| "apply_trace_events run_id (ev # evs) = bind_act (apply_trace_event run_id ev) (\<lambda>_. apply_trace_events run_id evs)"

definition is_trace_event :: "runtime_event \<Rightarrow> bool" where
  "is_trace_event e = startswith (ev_event_type e) ''trace.''"

text \<open>
  \<^verbatim>\<open>_rebuild_trace_state_from_events\<close> on the events it has loaded.  The offset moves only when every
  event was applied.
\<close>

definition rebuild_offset :: "int \<Rightarrow> runtime_event list \<Rightarrow> int" where
  "rebuild_offset after trace_events = foldl (\<lambda>m e. if ev_commit_offset e > m then ev_commit_offset e else m) after trace_events"

definition rebuild_from_events :: "string \<Rightarrow> runtime_event list \<Rightarrow> (facade_state, unit) act" where
  "rebuild_from_events run_id events =
     bind_act (read_act (\<lambda>fa. dict_get_or (fa_rebuild_offsets fa) run_id 0)) (\<lambda>after.
     bind_act (apply_trace_events run_id (filter is_trace_event events)) (\<lambda>_.
     modify_act (\<lambda>fa. fa\<lparr>fa_rebuild_offsets :=
       dict_set run_id (rebuild_offset after (filter is_trace_event events)) (fa_rebuild_offsets fa)\<rparr>)))"

section \<open>Tracked runs\<close>

definition tracked_ok :: "nat \<Rightarrow> facade_state \<Rightarrow> bool" where
  "tracked_ok m fa \<longleftrightarrow> distinct (fa_tracked_run_order fa) \<and> distinct (fa_tracked_run_set fa) \<and>
     set (fa_tracked_run_order fa) = set (fa_tracked_run_set fa) \<and> length (fa_tracked_run_set fa) \<le> m"

lemma purge_tracked [simp]:
  "fa_tracked_run_order (purge_run_state r fa) = fa_tracked_run_order fa"
  "fa_tracked_run_set (purge_run_state r fa) = fa_tracked_run_set fa"
  by (simp_all add: purge_run_state_def)

lemma evict_runs_bound:
  "distinct (fa_tracked_run_order fa) \<Longrightarrow> distinct (fa_tracked_run_set fa) \<Longrightarrow>
     set (fa_tracked_run_order fa) = set (fa_tracked_run_set fa) \<Longrightarrow> tracked_ok m (evict_runs m fa)"
proof (induction m fa rule: evict_runs.induct)
  case (1 m fa)
  show ?case
  proof (cases "fa_tracked_run_order fa")
    case Nil
    then have "fa_tracked_run_set fa = []" using "1.prems"(3) by simp
    then show ?thesis using Nil by (simp add: evict_runs.simps tracked_ok_def)
  next
    case (Cons r order)
    let ?fa = "evict_oldest_run fa"
    have e: "fa_tracked_run_order ?fa = order" "fa_tracked_run_set ?fa = filter (\<lambda>x. x \<noteq> r) (fa_tracked_run_set fa)"
      using Cons by (simp_all add: evict_oldest_run_def)
    have "tracked_ok m (evict_runs m ?fa)"
      if "length (fa_tracked_run_set fa) > m"
      using "1.IH" "1.prems" that Cons by (auto simp: e)
    then show ?thesis
      using "1.prems" Cons by (subst evict_runs.simps) (auto simp: tracked_ok_def)
  qed
qed

text \<open>The run that is touched is tracked afterwards, and nothing is evicted while there is room.\<close>

lemma touch_run_ok: "tracked_ok m fa \<Longrightarrow> tracked_ok m (touch_run m r fa)"
  by (auto simp: touch_run_def intro!: evict_runs_bound) (auto simp: tracked_ok_def)

lemma cleanup_ok: "tracked_ok m fa \<Longrightarrow> tracked_ok m (cleanup_completed_run r fa)"
  using le_trans [OF length_filter_le [of "\<lambda>x. x \<noteq> r" "fa_tracked_run_set fa"], of m]
  by (auto simp: tracked_ok_def cleanup_completed_run_def)

definition room :: "nat \<Rightarrow> string \<Rightarrow> facade_state \<Rightarrow> bool" where
  "room m r fa \<longleftrightarrow> r \<in> set (fa_tracked_run_set fa) \<or> length (fa_tracked_run_set fa) < m"

lemma touch_run_room:
  "room m r fa \<Longrightarrow> touch_run m r fa =
     (if r \<in> set (fa_tracked_run_set fa) then fa
      else fa\<lparr>fa_tracked_run_set := fa_tracked_run_set fa @ [r], fa_tracked_run_order := fa_tracked_run_order fa @ [r]\<rparr>)"
  unfolding touch_run_def room_def by (subst evict_runs.simps) auto

section \<open>Registries that are replayed\<close>

text \<open>
  A registry under facts that open an entry once and change it.  Changes absorb themselves when a
  sequence of them has the same effect when it is repeated.
\<close>

datatype ('i, 'v) reg_fact = Opened 'i 'v | Changed 'i "'v \<Rightarrow> 'v"

fun reg_apply :: "('i, 'v) reg_fact \<Rightarrow> ('i, 'v) dict \<Rightarrow> ('i, 'v) dict" where
  "reg_apply (Opened i v) d = (if dict_get d i = None then dict_set i v d else d)"
| "reg_apply (Changed i c) d = (case dict_get d i of None \<Rightarrow> d | Some v \<Rightarrow> dict_set i (c v) d)"

fun entry_apply :: "'i \<Rightarrow> ('i, 'v) reg_fact \<Rightarrow> 'v option \<Rightarrow> 'v option" where
  "entry_apply i (Opened j v) e = (if i = j \<and> e = None then Some v else e)"
| "entry_apply i (Changed j c) e = (if i = j then map_option c e else e)"

fun changes_of :: "'i \<Rightarrow> ('i, 'v) reg_fact list \<Rightarrow> ('v \<Rightarrow> 'v) list" where
  "changes_of i [] = []"
| "changes_of i (Opened j v # fs) = changes_of i fs"
| "changes_of i (Changed j c # fs) = (if i = j then c # changes_of i fs else changes_of i fs)"

text \<open>Every entry is opened once, before it is changed.\<close>

fun facts_valid :: "'i list \<Rightarrow> ('i, 'v) reg_fact list \<Rightarrow> bool" where
  "facts_valid known [] = True"
| "facts_valid known (Opened i v # fs) = (i \<notin> set known \<and> facts_valid (known @ [i]) fs)"
| "facts_valid known (Changed i c # fs) = (i \<in> set known \<and> facts_valid known fs)"

lemma entry_reg_apply: "dict_get (reg_apply f d) i = entry_apply i f (dict_get d i)"
  by (cases f) (auto split: option.split)

lemma entry_fold: "dict_get (fold reg_apply fs d) i = fold (entry_apply i) fs (dict_get d i)"
  by (induction fs arbitrary: d) (simp_all add: entry_reg_apply)

lemma reg_apply_wf: "dict_wf d \<Longrightarrow> dict_wf (fold reg_apply fs d)"
proof (induction fs arbitrary: d)
  case (Cons f fs)
  then show ?case by (cases f) (auto split: option.split)
qed simp

lemma fold_entry_Some: "fold (entry_apply i) fs (Some u) = Some (fold (\<lambda>c. c) (changes_of i fs) u)"
  by (induction fs arbitrary: u rule: changes_of.induct) auto

lemma changes_unknown: "facts_valid known fs \<Longrightarrow> i \<notin> set known \<Longrightarrow>
    fold (entry_apply i) fs None = None \<and> changes_of i fs = [] \<or>
    (\<exists>v. fold (entry_apply i) fs None = Some (fold (\<lambda>c. c) (changes_of i fs) v))"
proof (induction known fs rule: facts_valid.induct)
  case (2 known j v fs)
  then show ?case by (cases "i = j") (auto simp: fold_entry_Some)
qed auto

lemma reg_keys: "map fst (fold reg_apply fs d) = map fst d"
  if "\<And>j v. Opened j v \<in> set fs \<Longrightarrow> dict_has d j"
  using that
proof (induction fs arbitrary: d)
  case (Cons f fs)
  have keys: "map fst (reg_apply f d) = map fst d"
    using Cons.prems by (cases f) (auto simp: dict_has_iff dict_keys_set split: option.split)
  then have "dict_has (reg_apply f d) j" if "Opened j v \<in> set fs" for j v
    using Cons.prems that by (metis dict_has_def list.set_intros(2))
  from Cons.IH [OF this] keys show ?case by simp
qed simp

lemma opened_known: "Opened j v \<in> set fs \<Longrightarrow> dict_has (fold reg_apply fs d) j"
proof (induction fs arbitrary: d)
  case (Cons f fs)
  show ?case
  proof (cases "Opened j v \<in> set fs")
    case True
    then show ?thesis using Cons.IH by simp
  next
    case False
    then have f: "f = Opened j v" using Cons.prems by simp
    have "dict_get (reg_apply f d) j \<noteq> None" by (cases "dict_get d j") (simp_all add: f)
    then obtain u where "dict_get (reg_apply f d) j = Some u" by blast
    then show ?thesis by (simp add: dict_has_iff entry_fold fold_entry_Some)
  qed
qed simp

lemma dict_eqI: "dict_wf d \<Longrightarrow> map fst d = map fst d' \<Longrightarrow> (\<And>k. dict_get d k = dict_get d' k) \<Longrightarrow> d = d'"
proof (induction d arbitrary: d')
  case (Cons x d)
  obtain k v where x: "x = (k, v)" by (rule prod.exhaust)
  from Cons.prems(2) x obtain v' e where d': "d' = (k, v') # e" "map fst d = map fst e" by (cases d') auto
  have "v = v'" using Cons.prems(3) [of k] by (simp add: x d' dict_get_def)
  moreover have "dict_get d k' = dict_get e k'" for k'
  proof (cases "k' = k")
    case True
    then have "k' \<notin> set (map fst d)" "k' \<notin> set (map fst e)" using Cons.prems(1) d'(2) by (auto simp: x dict_wf_def)
    then show ?thesis by (simp add: dict_get_def map_of_eq_None_iff [THEN iffD2])
  next
    case False
    then show ?thesis using Cons.prems(3) [of k'] by (simp add: x d' dict_get_def)
  qed
  ultimately show ?case using Cons.IH [of e] Cons.prems(1) d' x by (simp add: dict_wf_def)
qed (simp add: dict_get_def)

text \<open>Replaying the facts again on what they gave changes nothing.\<close>

lemma reg_replay_again:
  assumes "dict_wf d" "facts_valid (map fst d) fs"
    and absorb: "\<And>i u. fold (\<lambda>c. c) (changes_of i fs) (fold (\<lambda>c. c) (changes_of i fs) u) = fold (\<lambda>c. c) (changes_of i fs) u"
  shows "fold reg_apply fs (fold reg_apply fs d) = fold reg_apply fs d"
proof (rule dict_eqI)
  let ?d = "fold reg_apply fs d"
  show "dict_wf (fold reg_apply fs ?d)" using assms(1) by (intro reg_apply_wf)
  show "map fst (fold reg_apply fs ?d) = map fst ?d" by (rule reg_keys) (rule opened_known)
  fix i
  show "dict_get (fold reg_apply fs ?d) i = dict_get ?d i"
  proof (cases "dict_get d i")
    case (Some u)
    then show ?thesis by (simp add: entry_fold fold_entry_Some absorb)
  next
    case None
    then have "i \<notin> set (map fst d)" by (simp add: dict_get_def map_of_eq_None_iff)
    from changes_unknown [OF assms(2) this] show ?thesis
    proof (elim disjE conjE exE)
      assume n: "fold (entry_apply i) fs None = None" "changes_of i fs = []"
      then show ?thesis by (simp add: entry_fold None)
    next
      fix v
      assume "fold (entry_apply i) fs None = Some (fold (\<lambda>c. c) (changes_of i fs) v)"
      then show ?thesis by (simp add: entry_fold None fold_entry_Some absorb)
    qed
  qed
qed

section \<open>The trace of a run as a fold of facts\<close>

text \<open>
  The abstract view of the registries of one run, and the facts that \<^verbatim>\<open>trace.*\<close> events state.
\<close>

record run_tables =
  rt_branches :: "(string, trace_branch_view) dict"
  rt_stages :: "(string, trace_stage_view) dict"
  rt_open :: "string list"
  rt_resolved :: "string list"

definition trace_of :: "facade_state \<Rightarrow> string \<Rightarrow> run_tables" where
  "trace_of fa run_id =
     \<lparr>rt_branches = dict_get_or (fa_branch_registry fa) run_id [], rt_stages = dict_get_or (fa_stage_registry fa) run_id [],
      rt_open = dict_get_or (fa_open_human_gates fa) run_id [], rt_resolved = dict_get_or (fa_resolved_human_gates fa) run_id []\<rparr>"

datatype trace_fact =
    BranchFact "(string, trace_branch_view) reg_fact"
  | StageFact "(string, trace_stage_view) reg_fact"
  | GateOpened string
  | GateResolved string
  | NoFact

definition branch_change :: "string \<Rightarrow> string option \<Rightarrow> trace_branch_view \<Rightarrow> trace_branch_view" where
  "branch_change new_state failure_code v =
     v\<lparr>tb_state := new_state, tb_failure_code := or_else failure_code (tb_failure_code v)\<rparr>"

definition stage_change :: "string \<Rightarrow> string option \<Rightarrow> string option \<Rightarrow> trace_stage_view \<Rightarrow> trace_stage_view" where
  "stage_change new_state exited_at failure_code v =
     v\<lparr>ts_state := new_state, ts_exited_at := or_else exited_at (ts_exited_at v),
       ts_failure_code := or_else failure_code (ts_failure_code v)\<rparr>"

fun fact_apply :: "trace_fact \<Rightarrow> run_tables \<Rightarrow> run_tables" where
  "fact_apply (BranchFact f) rt = rt\<lparr>rt_branches := reg_apply f (rt_branches rt)\<rparr>"
| "fact_apply (StageFact f) rt = rt\<lparr>rt_stages := reg_apply f (rt_stages rt)\<rparr>"
| "fact_apply (GateOpened g) rt = rt\<lparr>rt_open := set_add g (rt_open rt)\<rparr>"
| "fact_apply (GateResolved g) rt = rt\<lparr>rt_open := set_add g (rt_open rt), rt_resolved := set_add g (rt_resolved rt)\<rparr>"
| "fact_apply NoFact rt = rt"

text \<open>What an event states, in terms of its type and payload.\<close>

definition states_fact :: "runtime_event \<Rightarrow> trace_fact \<Rightarrow> bool" where
  "states_fact ev tf \<longleftrightarrow>
     (let p = (case ev_payload_json ev of None \<Rightarrow> [] | Some d \<Rightarrow> d); t = ev_event_type ev
      in case tf of
           BranchFact (Opened i v) \<Rightarrow> t = ''trace.branch_opened'' \<and> opened_branch_view ev p = Inr v \<and> i = tb_branch_id v
         | BranchFact (Changed i c) \<Rightarrow> t = ''trace.branch_state_changed'' \<and> dict_get p ''branch_id'' = Some (JStr i) \<and>
             (\<exists>s f. dict_get p ''new_state'' = Some (JStr s) \<and> opt_field ''failure_code'' (jget p ''failure_code'') = Inr f
               \<and> c = branch_change s f)
         | StageFact (Opened i v) \<Rightarrow> t = ''trace.stage_opened'' \<and> opened_stage_view ev p = Inr v \<and> i = ts_stage_id v
         | StageFact (Changed i c) \<Rightarrow> t = ''trace.stage_state_changed'' \<and> dict_get p ''stage_id'' = Some (JStr i) \<and>
             (\<exists>s x f. dict_get p ''new_state'' = Some (JStr s) \<and> opt_field ''exited_at'' (jget p ''exited_at'') = Inr x
               \<and> opt_field ''failure_code'' (jget p ''failure_code'') = Inr f \<and> c = stage_change s x f)
         | GateOpened g \<Rightarrow> t = ''trace.human_gate_opened'' \<and> dict_get p ''gate_ref'' = Some (JStr g)
         | GateResolved g \<Rightarrow> t = ''trace.human_gate_resolved'' \<and> dict_get p ''gate_ref'' = Some (JStr g)
         | NoFact \<Rightarrow> t \<notin> {''trace.branch_opened'', ''trace.branch_state_changed'', ''trace.stage_opened'',
             ''trace.stage_state_changed'', ''trace.human_gate_opened'', ''trace.human_gate_resolved''})"

text \<open>Two states of a facade that differ in the registries only.\<close>

definition blank_registries :: "facade_state \<Rightarrow> facade_state" where
  "blank_registries fa =
     fa\<lparr>fa_branch_registry := [], fa_stage_registry := [], fa_open_human_gates := [], fa_resolved_human_gates := []\<rparr>"

definition same_rest :: "facade_state \<Rightarrow> facade_state \<Rightarrow> bool" where
  "same_rest fa fa' \<longleftrightarrow> blank_registries fa' = blank_registries fa"

lemma same_rest_refl [simp]: "same_rest fa fa"
  by (simp add: same_rest_def)

lemma same_rest_trans: "same_rest a b \<Longrightarrow> same_rest b c \<Longrightarrow> same_rest a c"
  by (simp add: same_rest_def)

lemma same_rest_fields:
  assumes "same_rest fa fa'"
  shows "fa_tracked_run_set fa' = fa_tracked_run_set fa" "fa_tracked_run_order fa' = fa_tracked_run_order fa"
    "fa_rebuild_offsets fa' = fa_rebuild_offsets fa" "fa_gate_resolutions fa' = fa_gate_resolutions fa"
    "fa_submitted_approvals fa' = fa_submitted_approvals fa"
proof -
  note eq = assms [unfolded same_rest_def]
  from arg_cong [OF eq, of fa_tracked_run_set] arg_cong [OF eq, of fa_tracked_run_order]
    arg_cong [OF eq, of fa_rebuild_offsets] arg_cong [OF eq, of fa_gate_resolutions] arg_cong [OF eq, of fa_submitted_approvals]
  show "fa_tracked_run_set fa' = fa_tracked_run_set fa" "fa_tracked_run_order fa' = fa_tracked_run_order fa"
    "fa_rebuild_offsets fa' = fa_rebuild_offsets fa" "fa_gate_resolutions fa' = fa_gate_resolutions fa"
    "fa_submitted_approvals fa' = fa_submitted_approvals fa"
    by (simp_all add: blank_registries_def)
qed

lemma nested_simps [simp]:
  "dict_get_or (nested_set k i v d) k' [] = (if k' = k then dict_set i v (dict_get_or d k []) else dict_get_or d k' [])"
  "dict_get_or (nested_add k x e) k' [] = (if k' = k then set_add x (dict_get_or e k []) else dict_get_or e k' [])"
  by (simp_all add: nested_set_def nested_add_def dict_get_or_def)

lemma apply_trace_event_fact:
  assumes "states_fact ev tf"
  obtains fa' where "apply_trace_event run ev fa = (fa', Inr ())" "same_rest fa fa'"
    "trace_of fa' r = (if r = run then fact_apply tf (trace_of fa run) else trace_of fa r)"
proof -
  note defs = states_fact_def apply_trace_event_def lift_fa_def trace_of_def same_rest_def blank_registries_def
    nested_get_def Let_def require_field_def text_field_def changed_branch_view_def changed_stage_view_def
    branch_change_def stage_change_def
  have "snd (apply_trace_event run ev fa) = Inr () \<and> same_rest fa (fst (apply_trace_event run ev fa)) \<and>
    trace_of (fst (apply_trace_event run ev fa)) r = (if r = run then fact_apply tf (trace_of fa run) else trace_of fa r)"
  proof (cases tf)
    case (BranchFact f)
    then show ?thesis using assms by (cases f) (auto simp: defs split: option.splits)
  next
    case (StageFact f)
    then show ?thesis using assms by (cases f) (auto simp: defs split: option.splits)
  qed (use assms in \<open>simp_all add: defs\<close>)
  then show thesis using that by (metis prod.collapse)
qed

text \<open>The facts of a sequence of trace events, applied in order.\<close>

lemma apply_trace_events_facts:
  assumes "list_all2 states_fact evs tfs"
  obtains fa' where "apply_trace_events run evs fa = (fa', Inr ())" "same_rest fa fa'"
    "\<And>r. trace_of fa' r = (if r = run then fold fact_apply tfs (trace_of fa run) else trace_of fa r)"
proof -
  have "\<exists>fa'. apply_trace_events run evs fa = (fa', Inr ()) \<and> same_rest fa fa' \<and>
      (\<forall>r. trace_of fa' r = (if r = run then fold fact_apply tfs (trace_of fa run) else trace_of fa r))"
    using assms
  proof (induction arbitrary: fa rule: list_all2_induct)
    case (Cons ev evs tf tfs)
    obtain fa1 where 1: "apply_trace_event run ev fa = (fa1, Inr ())" "same_rest fa fa1"
      by (rule apply_trace_event_fact [OF Cons.hyps(1)])
    have tr: "trace_of fa1 r = (if r = run then fact_apply tf (trace_of fa run) else trace_of fa r)" for r
      using apply_trace_event_fact [OF Cons.hyps(1), of run fa r] 1(1) by (metis prod.inject)
    from Cons.IH [of fa1] obtain fa' where "apply_trace_events run evs fa1 = (fa', Inr ())" "same_rest fa1 fa'"
      "\<forall>r. trace_of fa' r = (if r = run then fold fact_apply tfs (trace_of fa1 run) else trace_of fa1 r)" by blast
    then show ?case using 1 tr by (auto intro: same_rest_trans)
  qed simp
  then show thesis using that by blast
qed

text \<open>The facts about one registry.\<close>

definition branch_facts :: "trace_fact list \<Rightarrow> (string, trace_branch_view) reg_fact list" where
  "branch_facts tfs = List.map_filter (\<lambda>tf. case tf of BranchFact f \<Rightarrow> Some f | _ \<Rightarrow> None) tfs"

definition stage_facts :: "trace_fact list \<Rightarrow> (string, trace_stage_view) reg_fact list" where
  "stage_facts tfs = List.map_filter (\<lambda>tf. case tf of StageFact f \<Rightarrow> Some f | _ \<Rightarrow> None) tfs"

definition gates_opened :: "trace_fact list \<Rightarrow> string list" where
  "gates_opened tfs = List.map_filter (\<lambda>tf. case tf of GateOpened g \<Rightarrow> Some g | GateResolved g \<Rightarrow> Some g | _ \<Rightarrow> None) tfs"

definition gates_resolved :: "trace_fact list \<Rightarrow> string list" where
  "gates_resolved tfs = List.map_filter (\<lambda>tf. case tf of GateResolved g \<Rightarrow> Some g | _ \<Rightarrow> None) tfs"

lemmas fact_lists = branch_facts_def stage_facts_def gates_opened_def gates_resolved_def

lemma fold_fact_apply:
  "fold fact_apply tfs rt =
     \<lparr>rt_branches = fold reg_apply (branch_facts tfs) (rt_branches rt),
      rt_stages = fold reg_apply (stage_facts tfs) (rt_stages rt),
      rt_open = fold set_add (gates_opened tfs) (rt_open rt),
      rt_resolved = fold set_add (gates_resolved tfs) (rt_resolved rt)\<rparr>"
proof (induction tfs arbitrary: rt)
  case (Cons tf tfs)
  show ?case unfolding fold_simps comp_apply by (subst Cons.IH) (cases tf; simp add: fact_lists map_filter_simps)
qed (simp add: fact_lists map_filter_simps)

lemma set_fold_add [simp]: "set (fold set_add gs xs) = set xs \<union> set gs"
  by (induction gs arbitrary: xs) (auto simp: set_add_def)

lemma or_else_assoc: "or_else (or_else a b) c = or_else a (or_else b c)"
  by (simp add: or_else_def)

text \<open>A sequence of changes leaves the last state, and the last values that were given.\<close>

lemma branch_changes_absorb:
  assumes "\<forall>c\<in>set cs. \<exists>s f. c = branch_change s f"
  shows "fold (\<lambda>c. c) cs (fold (\<lambda>c. c) cs u) = fold (\<lambda>c. c) cs u"
proof -
  have "\<exists>st f. \<forall>u. fold (\<lambda>c. c) cs u = u\<lparr>tb_state := (case st of None \<Rightarrow> tb_state u | Some s \<Rightarrow> s),
      tb_failure_code := or_else f (tb_failure_code u)\<rparr>"
    using assms
  proof (induction cs)
    case Nil
    show ?case by (rule exI [of _ None], rule exI [of _ None]) simp
  next
    case (Cons c cs)
    then obtain st f s g where "\<forall>u. fold (\<lambda>c. c) cs u = u\<lparr>tb_state := (case st of None \<Rightarrow> tb_state u | Some s \<Rightarrow> s),
        tb_failure_code := or_else f (tb_failure_code u)\<rparr>" "c = branch_change s g" by auto
    then show ?case
      by (intro exI [of _ "Some (case st of None \<Rightarrow> s | Some s' \<Rightarrow> s')"] exI [of _ "or_else f g"])
        (simp add: branch_change_def or_else_assoc split: option.split)
  qed
  then obtain st f where "fold (\<lambda>c. c) cs u = u\<lparr>tb_state := (case st of None \<Rightarrow> tb_state u | Some s \<Rightarrow> s),
      tb_failure_code := or_else f (tb_failure_code u)\<rparr>" for u by blast
  then show ?thesis by (simp add: or_else_assoc [symmetric] split: option.split)
qed

lemma stage_changes_absorb:
  assumes "\<forall>c\<in>set cs. \<exists>s x f. c = stage_change s x f"
  shows "fold (\<lambda>c. c) cs (fold (\<lambda>c. c) cs u) = fold (\<lambda>c. c) cs u"
proof -
  have "\<exists>st x f. \<forall>u. fold (\<lambda>c. c) cs u = u\<lparr>ts_state := (case st of None \<Rightarrow> ts_state u | Some s \<Rightarrow> s),
      ts_exited_at := or_else x (ts_exited_at u), ts_failure_code := or_else f (ts_failure_code u)\<rparr>"
    using assms
  proof (induction cs)
    case Nil
    show ?case by (rule exI [of _ None], rule exI [of _ None], rule exI [of _ None]) simp
  next
    case (Cons c cs)
    then obtain st x f where "\<forall>u. fold (\<lambda>c. c) cs u = u\<lparr>ts_state := (case st of None \<Rightarrow> ts_state u | Some s \<Rightarrow> s),
        ts_exited_at := or_else x (ts_exited_at u), ts_failure_code := or_else f (ts_failure_code u)\<rparr>" by auto
    moreover obtain s y g where "c = stage_change s y g" using Cons.prems by auto
    ultimately show ?case
      by (intro exI [of _ "Some (case st of None \<Rightarrow> s | Some s' \<Rightarrow> s')"] exI [of _ "or_else x y"] exI [of _ "or_else f g"])
        (simp add: stage_change_def or_else_assoc split: option.split)
  qed
  then obtain st x f where "fold (\<lambda>c. c) cs u = u\<lparr>ts_state := (case st of None \<Rightarrow> ts_state u | Some s \<Rightarrow> s),
      ts_exited_at := or_else x (ts_exited_at u), ts_failure_code := or_else f (ts_failure_code u)\<rparr>" for u by blast
  then show ?thesis by (simp add: or_else_assoc [symmetric] split: option.split)
qed

lemma changes_of_in: "c \<in> set (changes_of i fs) \<Longrightarrow> Changed i c \<in> set fs"
  by (induction i fs rule: changes_of.induct) (auto split: if_splits)

lemma facts_valid_append:
  "facts_valid (map fst d) (fs @ gs) \<Longrightarrow> dict_wf d \<Longrightarrow>
     facts_valid (map fst d) fs \<and> facts_valid (map fst (fold reg_apply fs d)) gs"
proof (induction fs arbitrary: d)
  case (Cons f fs)
  show ?case
  proof (cases f)
    case (Opened i v)
    then have "dict_get d i = None" using Cons.prems by (simp add: dict_get_def map_of_eq_None_iff)
    then have "map fst (reg_apply f d) = map fst d @ [i]" by (simp add: Opened dict_keys_set dict_has_iff)
    then show ?thesis using Cons.IH [of "reg_apply f d"] Cons.prems reg_apply_wf [of d "[f]"] by (simp add: Opened)
  next
    case (Changed i c)
    then have "dict_has d i" using Cons.prems by (simp add: dict_has_def)
    then have "map fst (reg_apply f d) = map fst d" by (auto simp: Changed dict_keys_set split: option.split)
    then show ?thesis using Cons.IH [of "reg_apply f d"] Cons.prems reg_apply_wf [of d "[f]"] by (simp add: Changed)
  qed
qed simp

text \<open>
  The registries of a run agree with the log: every trace event states a fact, entries are opened
  once and before they change, and the registries are what the facts give.  A gate that was resolved
  counts as opened once the log is read.
\<close>

definition registries_agree :: "trace_fact list \<Rightarrow> run_tables \<Rightarrow> bool" where
  "registries_agree tfs rt \<longleftrightarrow>
     facts_valid [] (branch_facts tfs) \<and> facts_valid [] (stage_facts tfs) \<and>
     rt_branches rt = fold reg_apply (branch_facts tfs) [] \<and> rt_stages rt = fold reg_apply (stage_facts tfs) [] \<and>
     set (rt_resolved rt) = set (gates_resolved tfs) \<and> set (rt_open rt) \<subseteq> set (gates_opened tfs) \<and>
     set (gates_opened tfs) \<subseteq> set (rt_open rt) \<union> set (rt_resolved rt)"

definition trace_consistent :: "string \<Rightarrow> runtime_event list \<Rightarrow> facade_state \<Rightarrow> bool" where
  "trace_consistent run_id es fa \<longleftrightarrow>
     (\<exists>tfs. list_all2 states_fact (filter is_trace_event es) tfs \<and> registries_agree tfs (trace_of fa run_id))"

lemma fact_lists_in: "f \<in> set (branch_facts tfs) \<longleftrightarrow> BranchFact f \<in> set tfs" "g \<in> set (stage_facts tfs) \<longleftrightarrow> StageFact g \<in> set tfs"
  by (force simp: fact_lists map_filter_def split: trace_fact.splits)+

lemma registries_agree_branch_changes:
  assumes "list_all2 states_fact evs tfs"
  shows "c \<in> set (changes_of i (branch_facts tfs)) \<Longrightarrow> \<exists>s f. c = branch_change s f"
    and "c' \<in> set (changes_of i (stage_facts tfs)) \<Longrightarrow> \<exists>s x f. c' = stage_change s x f"
proof -
  have st: "\<exists>ev. states_fact ev tf" if "tf \<in> set tfs" for tf
    using assms that by (metis in_set_conv_nth list_all2_conv_all_nth)
  show "\<exists>s f. c = branch_change s f" if "c \<in> set (changes_of i (branch_facts tfs))"
    using st [of "BranchFact (Changed i c)"] changes_of_in [OF that]
    by (auto simp: fact_lists_in states_fact_def Let_def)
  show "\<exists>s x f. c' = stage_change s x f" if "c' \<in> set (changes_of i (stage_facts tfs))"
    using st [of "StageFact (Changed i c')"] changes_of_in [OF that]
    by (auto simp: fact_lists_in states_fact_def Let_def)
qed

text \<open>Applying a tail of the facts again completes the open gates and changes nothing else.\<close>

lemma replay_tail:
  assumes agree: "registries_agree (xs @ ys) rt" and st: "list_all2 states_fact evs ys"
  shows "registries_agree (xs @ ys) (fold fact_apply ys rt)"
    and "rt_branches (fold fact_apply ys rt) = rt_branches rt" "rt_stages (fold fact_apply ys rt) = rt_stages rt"
proof -
  have app: "branch_facts (xs @ ys) = branch_facts xs @ branch_facts ys" "stage_facts (xs @ ys) = stage_facts xs @ stage_facts ys"
    "gates_opened (xs @ ys) = gates_opened xs @ gates_opened ys" "gates_resolved (xs @ ys) = gates_resolved xs @ gates_resolved ys"
    by (simp_all add: fact_lists map_filter_def)
  let ?b = "fold reg_apply (branch_facts xs) []" and ?s = "fold reg_apply (stage_facts xs) []"
  have v: "facts_valid (map fst ?b) (branch_facts ys)" "facts_valid (map fst ?s) (stage_facts ys)"
    using agree facts_valid_append [of "[]"] by (auto simp: registries_agree_def app)
  have b: "fold reg_apply (branch_facts ys) (rt_branches rt) = rt_branches rt"
    using reg_replay_again [OF reg_apply_wf v(1) branch_changes_absorb] registries_agree_branch_changes(1) [OF st] agree
    by (auto simp: registries_agree_def app)
  have s: "fold reg_apply (stage_facts ys) (rt_stages rt) = rt_stages rt"
    using reg_replay_again [OF reg_apply_wf v(2) stage_changes_absorb] registries_agree_branch_changes(2) [OF st] agree
    by (auto simp: registries_agree_def app)
  show "rt_branches (fold fact_apply ys rt) = rt_branches rt" "rt_stages (fold fact_apply ys rt) = rt_stages rt"
    using b s by (simp_all add: fold_fact_apply)
  have "set (gates_resolved ys) \<subseteq> set (gates_resolved (xs @ ys))" "set (gates_opened ys) \<subseteq> set (gates_opened (xs @ ys))"
    by (auto simp: app)
  then show "registries_agree (xs @ ys) (fold fact_apply ys rt)"
    using agree b s by (auto simp: registries_agree_def fold_fact_apply)
qed

text \<open>
  Reading the log again, from any earlier offset: the registries stay in agreement and the branches
  and stages are the same.
\<close>

lemma rebuild_consistent:
  assumes c: "trace_consistent run es fa" and es: "es = before @ new"
  obtains fa' where "rebuild_from_events run new fa = (fa', Inr ())" "trace_consistent run es fa'"
    "rt_branches (trace_of fa' run) = rt_branches (trace_of fa run)" "rt_stages (trace_of fa' run) = rt_stages (trace_of fa run)"
    "set (rt_open (trace_of fa run)) \<subseteq> set (rt_open (trace_of fa' run))"
    "\<And>r. r \<noteq> run \<Longrightarrow> trace_of fa' r = trace_of fa r"
    "fa_tracked_run_set fa' = fa_tracked_run_set fa" "fa_tracked_run_order fa' = fa_tracked_run_order fa"
    "fa_gate_resolutions fa' = fa_gate_resolutions fa" "fa_submitted_approvals fa' = fa_submitted_approvals fa"
proof -
  obtain tfs where tfs: "list_all2 states_fact (filter is_trace_event es) tfs" "registries_agree tfs (trace_of fa run)"
    using c by (auto simp: trace_consistent_def)
  then obtain xs ys where xy: "tfs = xs @ ys" "list_all2 states_fact (filter is_trace_event new) ys"
    by (auto simp: es list_all2_append1)
  obtain fa1 where fa1: "apply_trace_events run (filter is_trace_event new) fa = (fa1, Inr ())" "same_rest fa fa1"
    "\<And>r. trace_of fa1 r = (if r = run then fold fact_apply ys (trace_of fa run) else trace_of fa r)"
    by (rule apply_trace_events_facts [OF xy(2)]) blast
  define fa' where "fa' = fa1\<lparr>fa_rebuild_offsets := dict_set run
    (rebuild_offset (dict_get_or (fa_rebuild_offsets fa) run 0) (filter is_trace_event new)) (fa_rebuild_offsets fa1)\<rparr>"
  have run: "rebuild_from_events run new fa = (fa', Inr ())"
    using fa1(1) by (simp add: rebuild_from_events_def fa'_def)
  have tr: "trace_of fa' r = trace_of fa1 r" for r by (simp add: trace_of_def fa'_def)
  note tail = replay_tail [OF tfs(2) [unfolded xy(1)] xy(2)]
  show thesis
    by (rule that [OF run])
      (use tail tfs(1) xy(1) same_rest_fields [OF fa1(2)] in
        \<open>auto simp: trace_consistent_def tr fa1(3) fa'_def [symmetric] fold_fact_apply\<close>, simp_all add: fa'_def)
qed

end
