(* ===== verification/Kernel_Facade.thy ===== *)
theory Kernel_Facade
  imports Trace_Registry Python_Float Turn_Engine Task_Manager SQLite_Stores
begin

text \<open>
  \<^verbatim>\<open>adapters/facade/kernel_facade.py\<close>: the only entry from a platform into the kernel, with the
  adapter of its gateway and the coordinator that counts operations in flight.  The gateway, the
  stores and the clock act on a world \<open>'g\<close>; the facade adds its own state to it.
\<close>

section \<open>Collaborators\<close>

text \<open>An optional collaborator that was not given is \<^verbatim>\<open>None\<close>.\<close>

record 'g facade_ports =
  fp_start_workflow :: "start_run_request \<Rightarrow> ('g, (string, string) dict) act"
  fp_signal_workflow :: "string \<Rightarrow> signal_run_request \<Rightarrow> ('g, unit) act"
  fp_cancel_workflow :: "string \<Rightarrow> string \<Rightarrow> ('g, unit) act"
  fp_query_projection :: "string \<Rightarrow> ('g, run_projection) act"
  fp_start_child_workflow :: "string \<Rightarrow> spawn_child_run_request \<Rightarrow> ('g, (string, string) dict) act"
  fp_stream_run_events :: "string \<Rightarrow> ('g, runtime_event list) act"
  fp_execute_turn :: "string \<Rightarrow> action \<Rightarrow> (action \<Rightarrow> ('g, json) act) \<Rightarrow> string \<Rightarrow> ('g, turn_result) act"
  fp_event_append :: "(action_commit \<Rightarrow> ('g, string) act) option"
  fp_event_load :: "string \<Rightarrow> int \<Rightarrow> ('g, runtime_event list) act"
  fp_now :: "('g, string) act"
  fp_uuid :: "('g, string) act"
  fp_count_by_run :: "(string \<Rightarrow> ('g, nat) act) option"
  fp_dedupe_get :: "(string \<Rightarrow> ('g, dedupe_record option) act) option"
  fp_register_task :: "(task_descriptor \<Rightarrow> ('g, unit) act) option"
  fp_get_health :: "(string \<Rightarrow> ('g, task_health_status option) act) option"
  fp_list_session_tasks :: "(string \<Rightarrow> ('g, task_descriptor list) act) option"
  fp_view_write :: "(task_view_record \<Rightarrow> ('g, unit) act) option"
  fp_view_get_by_id :: "(string \<Rightarrow> ('g, task_view_record option) act) option"
  fp_view_get_by_decision :: "(string \<Rightarrow> string \<Rightarrow> ('g, task_view_record option) act) option"
  fp_view_bind :: "(string \<Rightarrow> string \<Rightarrow> ('g, unit) act) option"

record facade_config =
  fc_max_tracked_runs :: nat
  fc_drain_coordinator :: bool
  fc_float_repr :: "rat \<Rightarrow> string"

type_synonym 'g facade = "'g \<times> facade_state"

definition fa_modify :: "(facade_state \<Rightarrow> facade_state) \<Rightarrow> ('g facade, unit) act" where
  "fa_modify f = modify_act (\<lambda>(g, fa). (g, f fa))"

definition fa_read :: "(facade_state \<Rightarrow> 'a) \<Rightarrow> ('g facade, 'a) act" where
  "fa_read f = read_act (\<lambda>(g, fa). f fa)"

definition fa_act :: "(facade_state, 'a) act \<Rightarrow> ('g facade, 'a) act" where
  "fa_act m st = (case m (snd st) of (fa, r) \<Rightarrow> ((fst st, fa), r))"

text \<open>
  \<^verbatim>\<open>WorkflowGatewaySignalAdapter.signal_workflow\<close>: a gateway may offer either of two methods, and
  either may be asynchronous.  A synchronous \<^verbatim>\<open>signal_workflow\<close> is called, and then \<^verbatim>\<open>signal_run\<close> as
  well.
\<close>

record 'g gateway_signals =
  gs_signal_workflow :: "(bool \<times> (string \<Rightarrow> signal_run_request \<Rightarrow> ('g, unit) act)) option"
  gs_signal_run :: "(signal_run_request \<Rightarrow> ('g, unit) act) option"

definition adapted_signal_workflow :: "'g gateway_signals \<Rightarrow> string \<Rightarrow> signal_run_request \<Rightarrow> ('g, unit) act" where
  "adapted_signal_workflow gs run_id request =
     (let legacy = (case gs_signal_run gs of
            Some signal_run \<Rightarrow> signal_run request
          | None \<Rightarrow> raise_act (RuntimeError
              ''workflow_gateway must provide signal_workflow(run_id, request) or signal_run(request).''))
      in case gs_signal_workflow gs of
           None \<Rightarrow> legacy
         | Some (awaitable, f) \<Rightarrow> if awaitable then f run_id request else bind_act (f run_id request) (\<lambda>_. legacy))"

section \<open>Draining\<close>

text \<open>\<^verbatim>\<open>DrainCoordinator\<close>; the event that all operations have ended is set when the count is zero.\<close>

definition drain_enter :: "facade_state \<Rightarrow> facade_state" where
  "drain_enter fa = fa\<lparr>fa_in_flight_count := fa_in_flight_count fa + 1\<rparr>"

definition drain_exit :: "facade_state \<Rightarrow> facade_state" where
  "drain_exit fa = fa\<lparr>fa_in_flight_count := max (fa_in_flight_count fa - 1) 0\<rparr>"

definition drained :: "facade_state \<Rightarrow> bool" where
  "drained fa = (fa_in_flight_count fa = 0)"

definition set_draining :: "bool \<Rightarrow> ('g facade, unit) act" where
  "set_draining draining = fa_modify (\<lambda>fa. fa\<lparr>fa_draining := draining\<rparr>)"

text \<open>\<^verbatim>\<open>try ... finally\<close>: the exit runs after the body, whether it raises or not.\<close>

definition guard_write_operation :: "facade_config \<Rightarrow> string \<Rightarrow> ('g facade, 'a) act \<Rightarrow> ('g facade, 'a) act" where
  "guard_write_operation cfg operation body st =
     (if fa_draining (snd st)
      then (st, Inl (RuntimeError (''Kernel is draining; '' @ repr_str operation @ '' is temporarily unavailable.'')))
      else if fc_drain_coordinator cfg
      then (case body (fst st, drain_enter (snd st)) of ((g, fa), r) \<Rightarrow> ((g, drain_exit fa), r))
      else body st)"

section \<open>Signals and trace events\<close>

definition build_signal_observability :: "string \<Rightarrow> string \<Rightarrow> string option \<Rightarrow> jdict" where
  "build_signal_observability operation run_id caused_by =
     [(''correlation_id'', JStr (if truthy caused_by then the caused_by else operation @ '':'' @ run_id)),
      (''event_ref'', JStr (''facade:'' @ operation @ '':'' @ run_id))]"

definition send_signal ::
  "'g facade_ports \<Rightarrow> string \<Rightarrow> string \<Rightarrow> jdict option \<Rightarrow> string option \<Rightarrow> ('g facade, unit) act" where
  "send_signal pt run_id signal_type signal_payload caused_by =
     on_fst (fp_signal_workflow pt run_id \<lparr>gq_run_id = run_id, gq_signal_type = signal_type,
       gq_signal_payload = signal_payload, gq_caused_by = caused_by\<rparr>)"

definition trace_commit :: "string \<Rightarrow> string \<Rightarrow> string \<Rightarrow> string \<Rightarrow> string \<Rightarrow> jdict \<Rightarrow> action_commit" where
  "trace_commit now event_uuid commit_uuid run_id event_type payload =
     \<lparr>cm_run_id = run_id, cm_commit_id = commit_uuid,
      cm_events = [\<lparr>ev_run_id = run_id, ev_event_id = event_uuid, ev_commit_offset = 0, ev_event_type = event_type,
        ev_event_class = Derived, ev_event_authority = Derived_replayable, ev_ordering_key = now,
        ev_wake_policy = Projection_only, ev_created_at = now, ev_idempotency_key = None, ev_payload_ref = None,
        ev_payload_json = Some payload, ev_schema_version = ''1''\<rparr>],
      cm_created_at = now, cm_action = None, cm_caused_by = Some (''kernel_facade.'' @ event_type)\<rparr>"

definition append_trace_event :: "'g facade_ports \<Rightarrow> string \<Rightarrow> string \<Rightarrow> jdict \<Rightarrow> ('g facade, unit) act" where
  "append_trace_event pt run_id event_type payload =
     (case fp_event_append pt of
        None \<Rightarrow> return_act ()
      | Some app \<Rightarrow>
          bind_act (on_fst (fp_now pt)) (\<lambda>now.
          bind_act (on_fst (fp_uuid pt)) (\<lambda>event_uuid.
          bind_act (on_fst (fp_uuid pt)) (\<lambda>commit_uuid.
          bind_act (on_fst (app (trace_commit now event_uuid commit_uuid run_id event_type payload))) (\<lambda>_.
          return_act ())))))"

definition rebuild_trace_state_from_events :: "'g facade_ports \<Rightarrow> string \<Rightarrow> ('g facade, unit) act" where
  "rebuild_trace_state_from_events pt run_id =
     (case fp_event_append pt of
        None \<Rightarrow> return_act ()
      | Some _ \<Rightarrow>
          bind_act (fa_read (\<lambda>fa. dict_get_or (fa_rebuild_offsets fa) run_id 0)) (\<lambda>after.
          bind_act (on_fst (fp_event_load pt run_id after)) (\<lambda>events.
          fa_act (rebuild_from_events run_id events))))"

section \<open>Runs\<close>

definition workflow_run_id :: "(string, string) dict \<Rightarrow> string" where
  "workflow_run_id workflow =
     (if truthy (dict_get workflow ''run_id'') then the (dict_get workflow ''run_id'')
      else dict_get_or workflow ''workflow_id'' '''')"

definition record_created :: "'g facade_ports \<Rightarrow> string \<Rightarrow> ('g facade, unit) act" where
  "record_created pt run_id =
     bind_act (on_fst (fp_now pt)) (\<lambda>now.
     fa_modify (\<lambda>fa. fa\<lparr>fa_run_created_at := dict_set run_id now (fa_run_created_at fa)\<rparr>))"

text \<open>The binding of the session's context, when there is a context adapter.\<close>

definition bind_session_context :: "facade_config \<Rightarrow> start_run_request \<Rightarrow> ('g facade, string option) act" where
  "bind_session_context cfg request =
     fa_act (\<lambda>fa. case fa_context_adapter fa of
         None \<Rightarrow> (fa, Inr None)
       | Some ca \<Rightarrow>
           (case bind_context (fc_float_repr cfg)
                \<lparr>ci_session_id = srq_session_id request, ci_context_ref = srq_context_ref request, ci_context_json = None\<rparr> ca of
              (ca', binding) \<Rightarrow> (fa\<lparr>fa_context_adapter := Some ca'\<rparr>, Inr (Some (cb_binding_ref binding)))))"

definition start_run :: "facade_config \<Rightarrow> 'g facade_ports \<Rightarrow> start_run_request \<Rightarrow> ('g facade, start_run_response) act" where
  "start_run cfg pt request =
     bind_act (bind_session_context cfg request) (\<lambda>binding_ref.
     bind_act (on_fst (fp_start_workflow pt (case binding_ref of
         None \<Rightarrow> request | Some b \<Rightarrow> request\<lparr>srq_context_ref := Some b\<rparr>))) (\<lambda>workflow.
     bind_act (record_created pt (workflow_run_id workflow)) (\<lambda>_.
     bind_act (fa_modify (\<lambda>fa. case (binding_ref, fa_context_adapter fa) of
         (Some b, Some ca) \<Rightarrow> fa\<lparr>fa_context_adapter := Some (bind_run_context (workflow_run_id workflow) b ca)\<rparr>
       | _ \<Rightarrow> fa)) (\<lambda>_.
     return_act \<lparr>sp_run_id = workflow_run_id workflow,
       sp_temporal_workflow_id = dict_get_or workflow ''workflow_id'' '''', sp_lifecycle_state = Created\<rparr>))))"

definition signal_run :: "'g facade_ports \<Rightarrow> signal_run_request \<Rightarrow> ('g facade, unit) act" where
  "signal_run pt request = on_fst (fp_signal_workflow pt (gq_run_id request) request)"

definition is_stream_event_exposed :: "bool \<Rightarrow> runtime_event \<Rightarrow> bool" where
  "is_stream_event_exposed include_derived_diagnostic event \<longleftrightarrow>
     ev_event_authority event = Authoritative_fact \<or>
     include_derived_diagnostic \<and> ev_event_authority event = Derived_diagnostic"

definition stream_run_events :: "'g facade_ports \<Rightarrow> string \<Rightarrow> bool \<Rightarrow> ('g facade, runtime_event list) act" where
  "stream_run_events pt run_id include_derived_diagnostic =
     bind_act (on_fst (fp_stream_run_events pt run_id)) (\<lambda>events.
     return_act (filter (is_stream_event_exposed include_derived_diagnostic) events))"

definition subscribe_events :: "'g facade_ports \<Rightarrow> string \<Rightarrow> ('g facade, runtime_event list) act" where
  "subscribe_events pt run_id = stream_run_events pt run_id False"

text \<open>\<^verbatim>\<open>str(error)\<close>; a \<^verbatim>\<open>KeyError\<close> shows its argument quoted.\<close>

fun exn_str :: "exn \<Rightarrow> string" where
  "exn_str (ValueError m) = m"
| "exn_str (TypeError m) = m"
| "exn_str (KeyError m) = repr_str m"
| "exn_str (RuntimeError m) = m"
| "exn_str (DedupeStoreStateError m) = m"
| "exn_str (CapabilitySnapshotBuildError m) = m"
| "exn_str (PolicyResolutionError m) = m"
| "exn_str (SchemaMigrationError m) = m"
| "exn_str (CompensationExhaustedError m) = m"
| "exn_str (OperationalError m) = m"
| "exn_str (OtherError n m) = m"

definition is_expected_cancel_race_error :: "exn \<Rightarrow> bool" where
  "is_expected_cancel_race_error err =
     list_ex (\<lambda>token. str_contains token (lower (exn_str err)))
       [''not found'', ''already completed'', ''not running'', ''closed'']"

definition cancel_run :: "'g facade_ports \<Rightarrow> cancel_run_request \<Rightarrow> ('g facade, unit) act" where
  "cancel_run pt request =
     bind_act (send_signal pt (cq_run_id request) ''cancel_requested''
       (Some ((''reason'', JStr (cq_reason request)) #
          build_signal_observability ''cancel'' (cq_run_id request) (cq_caused_by request))) (cq_caused_by request)) (\<lambda>_.
     catch_act (on_fst (fp_cancel_workflow pt (cq_run_id request) (cq_reason request))) (\<lambda>err.
       if is_expected_cancel_race_error err then return_act () else raise_act err))"

definition resume_run :: "'g facade_ports \<Rightarrow> resume_run_request \<Rightarrow> ('g facade, unit) act" where
  "resume_run pt request =
     bind_act (fa_read fa_checkpoint_adapter) (\<lambda>checkpoint_adapter.
     if checkpoint_adapter = None then raise_act (RuntimeError ''checkpoint_adapter is required for resume_run.'')
     else
       bind_act (return_result (import_resume_request \<lparr>rs_run_id = rq_run_id request, rs_snapshot_id = rq_snapshot_id request\<rparr>)) (\<lambda>kr.
       send_signal pt (kr_run_id kr) ''resume_from_snapshot''
         (Some ((''snapshot_id'', json_opt (kr_snapshot_id kr)) #
            build_signal_observability ''resume'' (kr_run_id kr) (rq_caused_by request) @
            (case kr_snapshot_offset kr of None \<Rightarrow> [] | Some off \<Rightarrow> [(''snapshot_offset'', JInt off)])))
         (rq_caused_by request)))"

definition escalate_recovery :: "'g facade_ports \<Rightarrow> string \<Rightarrow> string \<Rightarrow> string option \<Rightarrow> ('g facade, unit) act" where
  "escalate_recovery pt run_id reason caused_by =
     send_signal pt run_id ''recovery_escalation''
       (Some ((''reason'', JStr reason) # build_signal_observability ''recovery_escalation'' run_id caused_by)) caused_by"

text \<open>A projection has no field \<^verbatim>\<open>active_stage_id\<close>, so \<^verbatim>\<open>getattr\<close> gives its default.\<close>

definition query_run :: "'g facade_ports \<Rightarrow> string \<Rightarrow> ('g facade, query_run_response) act" where
  "query_run pt run_id =
     bind_act (on_fst (fp_query_projection pt run_id)) (\<lambda>p.
     bind_act (fa_modify (\<lambda>fa. fa\<lparr>fa_checkpoint_adapter := map_option (bind_projection p) (fa_checkpoint_adapter fa)\<rparr>)) (\<lambda>_.
     return_act \<lparr>qr_run_id = pr_run_id p, qr_lifecycle_state = pr_lifecycle_state p,
       qr_projected_offset = pr_projected_offset p, qr_waiting_external = pr_waiting_external p,
       qr_current_action_id = pr_current_action_id p, qr_recovery_mode = pr_recovery_mode p,
       qr_recovery_reason = pr_recovery_reason p, qr_active_child_runs = pr_active_child_runs p,
       qr_policy_versions = pr_policy_versions p, qr_active_stage_id = None\<rparr>))"

definition build_dashboard_correlation_hint :: "query_run_response \<Rightarrow> string" where
  "build_dashboard_correlation_hint r =
     (if truthy (qr_current_action_id r) then ''action:'' @ the (qr_current_action_id r)
      else if truthy (qr_recovery_reason r) then ''recovery:'' @ the (qr_recovery_reason r)
      else if qr_waiting_external r then ''external_wait:'' @ qr_run_id r @ '':'' @ show_int (qr_projected_offset r)
      else ''state:'' @ lifecycle_str (qr_lifecycle_state r) @ '':'' @ qr_run_id r)"

definition query_run_dashboard :: "'g facade_ports \<Rightarrow> string \<Rightarrow> ('g facade, query_run_dashboard_response) act" where
  "query_run_dashboard pt run_id =
     bind_act (query_run pt run_id) (\<lambda>r.
     return_act \<lparr>qd_run_id = qr_run_id r, qd_lifecycle_state = qr_lifecycle_state r,
       qd_projected_offset = qr_projected_offset r, qd_waiting_external = qr_waiting_external r,
       qd_recovery_mode = qr_recovery_mode r, qd_recovery_reason = qr_recovery_reason r,
       qd_active_child_runs_count = length (qr_active_child_runs r),
       qd_correlation_hint = build_dashboard_correlation_hint r\<rparr>)"

section \<open>Child runs\<close>

text \<open>The policy versions a child inherits: the parent's, under the overrides of the request.\<close>

definition inherited_fields :: "run_policy_versions \<Rightarrow> jdict" where
  "inherited_fields pv =
     filter (\<lambda>(k, v). v \<noteq> JNull)
       [(''route_policy_version'', json_opt (pv_route_policy_version pv)),
        (''acceptance_policy_version'', json_opt (pv_acceptance_policy_version pv)),
        (''memory_policy_version'', json_opt (pv_memory_policy_version pv)),
        (''skill_policy_version'', json_opt (pv_skill_policy_version pv)),
        (''evaluation_policy_version'', json_opt (pv_evaluation_policy_version pv)),
        (''task_view_policy_version'', json_opt (pv_task_view_policy_version pv))]"

definition child_policy_versions :: "run_policy_versions \<Rightarrow> (string, string) dict option \<Rightarrow> run_policy_versions result" where
  "child_policy_versions parent overrides =
     (case overrides of
        None \<Rightarrow> Inr parent
      | Some [] \<Rightarrow> Inr parent
      | Some os \<Rightarrow> dict_to_policy_versions (fold (\<lambda>(k, v). dict_set k (JStr v)) os (inherited_fields parent)))"

definition policy_versions_input :: "run_policy_versions \<Rightarrow> json" where
  "policy_versions_input pv = JDict
     [(''route_policy_version'', json_opt (pv_route_policy_version pv)),
      (''acceptance_policy_version'', json_opt (pv_acceptance_policy_version pv)),
      (''memory_policy_version'', json_opt (pv_memory_policy_version pv)),
      (''skill_policy_version'', json_opt (pv_skill_policy_version pv)),
      (''evaluation_policy_version'', json_opt (pv_evaluation_policy_version pv)),
      (''task_view_policy_version'', json_opt (pv_task_view_policy_version pv))]"

definition inherit_policy_versions ::
  "'g facade_ports \<Rightarrow> spawn_child_run_request \<Rightarrow> spawn_child_run_request \<Rightarrow> ('g facade, spawn_child_run_request) act" where
  "inherit_policy_versions pt request request_for_gateway =
     (if \<not> pq_inherit_policy_versions request then return_act request_for_gateway
      else catch_act
        (bind_act (query_run pt (pq_parent_run_id request)) (\<lambda>parent.
         case qr_policy_versions parent of
           None \<Rightarrow> return_act request_for_gateway
         | Some pv \<Rightarrow>
             bind_act (return_result (child_policy_versions pv (pq_policy_version_overrides request))) (\<lambda>child_pvs.
             return_act (request_for_gateway\<lparr>pq_input_json := Some (dict_set ''_inherited_policy_versions''
               (policy_versions_input child_pvs)
               (case pq_input_json request_for_gateway of None \<Rightarrow> [] | Some d \<Rightarrow> d))\<rparr>))))
        (\<lambda>_. return_act request_for_gateway))"

definition resolve_child_lifecycle_state :: "'g facade_ports \<Rightarrow> string \<Rightarrow> ('g facade, run_lifecycle_state) act" where
  "resolve_child_lifecycle_state pt child_run_id =
     catch_act (bind_act (on_fst (fp_query_projection pt child_run_id)) (\<lambda>p. return_act (pr_lifecycle_state p)))
       (\<lambda>_. return_act Created)"

definition spawn_child_run ::
  "'g facade_ports \<Rightarrow> spawn_child_run_request \<Rightarrow> ('g facade, spawn_child_run_response) act" where
  "spawn_child_run pt request =
     bind_act (fa_read (\<lambda>fa.
       case (fa_context_adapter fa, pq_context_ref request) of
         (Some ca, None) \<Rightarrow>
           (case resolve_run_context (pq_parent_run_id request) ca of
              None \<Rightarrow> request
            | Some parent_binding \<Rightarrow> request\<lparr>pq_context_ref := Some parent_binding\<rparr>)
       | _ \<Rightarrow> request)) (\<lambda>bound_request.
     bind_act (inherit_policy_versions pt request bound_request) (\<lambda>request_for_gateway.
     bind_act (on_fst (fp_start_child_workflow pt (pq_parent_run_id request) request_for_gateway)) (\<lambda>workflow.
     let child_run_id = workflow_run_id workflow in
     bind_act (record_created pt child_run_id) (\<lambda>_.
     bind_act (fa_modify (\<lambda>fa. fa\<lparr>fa_child_kind := dict_set child_run_id (pq_child_kind request) (fa_child_kind fa),
         fa_all_child_runs := nested_add (pq_parent_run_id request) child_run_id (fa_all_child_runs fa)\<rparr>)) (\<lambda>_.
     bind_act (send_signal pt (pq_parent_run_id request) ''child_spawned''
         (Some ((''child_run_id'', JStr child_run_id) #
            build_signal_observability ''spawn_child'' (pq_parent_run_id request) None))
         (Some ''kernel_facade.spawn_child_run'')) (\<lambda>_.
     bind_act (resolve_child_lifecycle_state pt child_run_id) (\<lambda>lifecycle_state.
     return_act \<lparr>pp_child_run_id = child_run_id, pp_lifecycle_state = lifecycle_state\<rparr>)))))))"

section \<open>Turns and approvals\<close>

definition facade_execute_turn ::
  "facade_config \<Rightarrow> 'g facade_ports \<Rightarrow> string \<Rightarrow> action \<Rightarrow> (action \<Rightarrow> ('g, json) act) \<Rightarrow> string
     \<Rightarrow> ('g facade, turn_result) act" where
  "facade_execute_turn cfg pt run_id a handler idempotency_key =
     guard_write_operation cfg ''execute_turn'' (on_fst (fp_execute_turn pt run_id a handler idempotency_key))"

definition resolution_text :: "bool \<Rightarrow> string" where
  "resolution_text approved = (if approved then ''approved'' else ''rejected'')"

text \<open>The local record of an approval, made before anything is sent.\<close>

definition register_approval :: "approval_request \<Rightarrow> facade_state \<Rightarrow> facade_state" where
  "register_approval request fa =
     fa\<lparr>fa_submitted_approvals := set_add (aq_run_id request, aq_approval_ref request) (fa_submitted_approvals fa),
        fa_resolved_human_gates := nested_add (aq_run_id request) (aq_approval_ref request) (fa_resolved_human_gates fa),
        fa_gate_resolutions := nested_set (aq_run_id request) (aq_approval_ref request)
          (resolution_text (aq_approved request)) (fa_gate_resolutions fa)\<rparr>"

definition submit_approval :: "facade_config \<Rightarrow> 'g facade_ports \<Rightarrow> approval_request \<Rightarrow> ('g facade, unit) act" where
  "submit_approval cfg pt request =
     guard_write_operation cfg ''submit_approval''
       (bind_act (fa_modify (touch_run (fc_max_tracked_runs cfg) (aq_run_id request))) (\<lambda>_.
        bind_act (fa_read (\<lambda>fa. (aq_run_id request, aq_approval_ref request) \<in> set (fa_submitted_approvals fa))) (\<lambda>duplicate.
        if duplicate then return_act ()
        else
          bind_act (fa_modify (register_approval request)) (\<lambda>_.
          bind_act (send_signal pt (aq_run_id request) ''approval_submitted''
            (Some ([(''approval_ref'', JStr (aq_approval_ref request)), (''approved'', JBool (aq_approved request)),
                    (''reviewer_id'', JStr (aq_reviewer_id request)), (''reason'', json_opt (aq_reason request))] @
               build_signal_observability ''submit_approval'' (aq_run_id request) (aq_caused_by request)))
            (or_else (aq_caused_by request) (Some (''approval:'' @ aq_approval_ref request)))) (\<lambda>_.
          append_trace_event pt (aq_run_id request) ''trace.human_gate_resolved''
            [(''gate_ref'', JStr (aq_approval_ref request)), (''approved'', JBool (aq_approved request))])))))"

section \<open>Stages, branches and gates\<close>

definition new_stage_view :: "string \<Rightarrow> string \<Rightarrow> string option \<Rightarrow> trace_stage_view" where
  "new_stage_view stage_id now branch_id =
     \<lparr>ts_stage_id = stage_id, ts_state = ''active'', ts_entered_at = now, ts_exited_at = None, ts_branch_id = branch_id,
      ts_failure_code = None\<rparr>"

definition open_stage :: "facade_config \<Rightarrow> 'g facade_ports \<Rightarrow> string \<Rightarrow> string \<Rightarrow> string option \<Rightarrow> ('g facade, unit) act" where
  "open_stage cfg pt stage_id run_id branch_id =
     bind_act (fa_modify (touch_run (fc_max_tracked_runs cfg) run_id)) (\<lambda>_.
     bind_act (on_fst (fp_now pt)) (\<lambda>now.
     bind_act (fa_modify (\<lambda>fa. fa\<lparr>fa_stage_registry :=
       nested_set run_id stage_id (new_stage_view stage_id now branch_id) (fa_stage_registry fa)\<rparr>)) (\<lambda>_.
     bind_act (send_signal pt run_id ''stage_opened''
       (Some [(''stage_id'', JStr stage_id), (''branch_id'', json_opt branch_id)]) (Some ''kernel_facade.open_stage'')) (\<lambda>_.
     append_trace_event pt run_id ''trace.stage_opened''
       [(''stage_id'', JStr stage_id), (''state'', JStr ''active''), (''entered_at'', JStr now),
        (''branch_id'', json_opt branch_id)]))))"

definition updated_stage_view :: "string \<Rightarrow> string option \<Rightarrow> string option \<Rightarrow> trace_stage_view \<Rightarrow> trace_stage_view" where
  "updated_stage_view new_state exited_at failure_code existing =
     existing\<lparr>ts_state := new_state,
       ts_exited_at := (if truthy exited_at then exited_at else ts_exited_at existing),
       ts_failure_code := (case failure_code of None \<Rightarrow> ts_failure_code existing | Some c \<Rightarrow> Some c)\<rparr>"

definition mark_stage_state ::
  "facade_config \<Rightarrow> 'g facade_ports \<Rightarrow> string \<Rightarrow> string \<Rightarrow> string \<Rightarrow> string option \<Rightarrow> ('g facade, unit) act" where
  "mark_stage_state cfg pt run_id stage_id new_state failure_code =
     bind_act (fa_modify (touch_run (fc_max_tracked_runs cfg) run_id)) (\<lambda>_.
     bind_act (fa_read (\<lambda>fa. nested_get (fa_stage_registry fa) run_id stage_id)) (\<lambda>existing.
     case existing of
       None \<Rightarrow> raise_act (KeyError (''Stage '' @ repr_str stage_id @ '' not found for run '' @ repr_str run_id @ ''.''))
     | Some view \<Rightarrow>
         bind_act (if new_state = ''completed'' \<or> new_state = ''failed''
           then bind_act (on_fst (fp_now pt)) (\<lambda>now. return_act (Some now)) else return_act None) (\<lambda>exited_at.
         bind_act (fa_modify (\<lambda>fa. fa\<lparr>fa_stage_registry :=
           nested_set run_id stage_id (updated_stage_view new_state exited_at failure_code view) (fa_stage_registry fa)\<rparr>)) (\<lambda>_.
         bind_act (send_signal pt run_id ''stage_state_updated''
           (Some [(''stage_id'', JStr stage_id), (''new_state'', JStr new_state), (''failure_code'', json_opt failure_code)])
           (Some ''kernel_facade.mark_stage_state'')) (\<lambda>_.
         append_trace_event pt run_id ''trace.stage_state_changed''
           [(''stage_id'', JStr stage_id), (''new_state'', JStr new_state), (''exited_at'', json_opt exited_at),
            (''failure_code'', json_opt failure_code)])))))"

definition new_branch_view :: "open_branch_request \<Rightarrow> string \<Rightarrow> trace_branch_view" where
  "new_branch_view request now =
     \<lparr>tb_branch_id = ob_branch_id request, tb_stage_id = ob_stage_id request, tb_state = ''active'', tb_opened_at = now,
      tb_parent_branch_id = ob_parent_branch_id request, tb_proposed_by = ob_proposed_by request,
      tb_failure_code = None, tb_policy_versions = None\<rparr>"

definition open_branch :: "facade_config \<Rightarrow> 'g facade_ports \<Rightarrow> open_branch_request \<Rightarrow> ('g facade, unit) act" where
  "open_branch cfg pt request =
     bind_act (fa_modify (touch_run (fc_max_tracked_runs cfg) (ob_run_id request))) (\<lambda>_.
     bind_act (on_fst (fp_now pt)) (\<lambda>now.
     bind_act (fa_modify (\<lambda>fa. fa\<lparr>fa_branch_registry :=
       nested_set (ob_run_id request) (ob_branch_id request) (new_branch_view request now) (fa_branch_registry fa)\<rparr>)) (\<lambda>_.
     bind_act (send_signal pt (ob_run_id request) ''branch_opened''
       (Some [(''branch_id'', JStr (ob_branch_id request)), (''stage_id'', JStr (ob_stage_id request)),
              (''parent_branch_id'', json_opt (ob_parent_branch_id request)),
              (''proposed_by'', json_opt (ob_proposed_by request))]) (Some ''kernel_facade.open_branch'')) (\<lambda>_.
     append_trace_event pt (ob_run_id request) ''trace.branch_opened''
       [(''branch_id'', JStr (ob_branch_id request)), (''stage_id'', JStr (ob_stage_id request)), (''state'', JStr ''active''),
        (''opened_at'', JStr now), (''parent_branch_id'', json_opt (ob_parent_branch_id request)),
        (''proposed_by'', json_opt (ob_proposed_by request))]))))"

definition updated_branch_view :: "branch_state_update_request \<Rightarrow> trace_branch_view \<Rightarrow> trace_branch_view" where
  "updated_branch_view request existing =
     existing\<lparr>tb_state := bu_new_state request,
       tb_failure_code := (case bu_failure_code request of None \<Rightarrow> tb_failure_code existing
         | Some c \<Rightarrow> Some (trace_failure_code_str c))\<rparr>"

definition mark_branch_state :: "facade_config \<Rightarrow> 'g facade_ports \<Rightarrow> branch_state_update_request \<Rightarrow> ('g facade, unit) act" where
  "mark_branch_state cfg pt request =
     bind_act (fa_modify (touch_run (fc_max_tracked_runs cfg) (bu_run_id request))) (\<lambda>_.
     bind_act (fa_read (\<lambda>fa. nested_get (fa_branch_registry fa) (bu_run_id request) (bu_branch_id request))) (\<lambda>existing.
     case existing of
       None \<Rightarrow> raise_act (KeyError (''Branch '' @ repr_str (bu_branch_id request) @ '' not found for run '' @
         repr_str (bu_run_id request) @ ''.''))
     | Some view \<Rightarrow>
         bind_act (fa_modify (\<lambda>fa. fa\<lparr>fa_branch_registry :=
           nested_set (bu_run_id request) (bu_branch_id request) (updated_branch_view request view) (fa_branch_registry fa)\<rparr>)) (\<lambda>_.
         bind_act (send_signal pt (bu_run_id request) ''branch_state_updated''
           (Some [(''branch_id'', JStr (bu_branch_id request)), (''new_state'', JStr (bu_new_state request)),
                  (''failure_code'', json_opt (map_option trace_failure_code_str (bu_failure_code request))),
                  (''reason'', json_opt (bu_reason request))]) (Some ''kernel_facade.mark_branch_state'')) (\<lambda>_.
         append_trace_event pt (bu_run_id request) ''trace.branch_state_changed''
           [(''branch_id'', JStr (bu_branch_id request)), (''new_state'', JStr (bu_new_state request)),
            (''failure_code'', json_opt (map_option trace_failure_code_str (bu_failure_code request)))]))))"

definition open_human_gate :: "facade_config \<Rightarrow> 'g facade_ports \<Rightarrow> human_gate_request \<Rightarrow> ('g facade, unit) act" where
  "open_human_gate cfg pt request =
     bind_act (fa_modify (touch_run (fc_max_tracked_runs cfg) (hg_run_id request))) (\<lambda>_.
     bind_act (fa_modify (\<lambda>fa. fa\<lparr>
       fa_open_human_gates := nested_add (hg_run_id request) (hg_gate_ref request) (fa_open_human_gates fa),
       fa_gate_types := nested_set (hg_run_id request) (hg_gate_ref request) (hg_gate_type request) (fa_gate_types fa)\<rparr>)) (\<lambda>_.
     bind_act (send_signal pt (hg_run_id request) ''human_gate_opened''
       (Some [(''gate_ref'', JStr (hg_gate_ref request)), (''gate_type'', JStr (hg_gate_type request)),
              (''trigger_reason'', JStr (hg_trigger_reason request)), (''trigger_source'', JStr (hg_trigger_source request)),
              (''stage_id'', json_opt (hg_stage_id request)), (''branch_id'', json_opt (hg_branch_id request)),
              (''artifact_ref'', json_opt (hg_artifact_ref request)), (''caused_by'', json_opt (hg_caused_by request))])
       (Some ''kernel_facade.open_human_gate'')) (\<lambda>_.
     append_trace_event pt (hg_run_id request) ''trace.human_gate_opened''
       [(''gate_ref'', JStr (hg_gate_ref request)), (''gate_type'', JStr (hg_gate_type request))])))"

definition resolve_escalation ::
  "facade_config \<Rightarrow> 'g facade_ports \<Rightarrow> string \<Rightarrow> string option \<Rightarrow> string option \<Rightarrow> ('g facade, unit) act" where
  "resolve_escalation cfg pt run_id resolution_notes caused_by =
     bind_act (fa_modify (touch_run (fc_max_tracked_runs cfg) run_id)) (\<lambda>_.
     bind_act (send_signal pt run_id ''recovery_succeeded''
       (if truthy resolution_notes then Some [(''resolution_notes'', JStr (the resolution_notes))] else None)
       (or_else caused_by (Some (''resolve_escalation:'' @ run_id)))) (\<lambda>_.
     append_trace_event pt run_id ''trace.escalation_resolved'' [(''resolution_notes'', json_opt resolution_notes)]))"

section \<open>Views\<close>

fun lifecycle_to_trace :: "run_lifecycle_state \<Rightarrow> string" where
  "lifecycle_to_trace Created = ''created''"
| "lifecycle_to_trace Ready = ''active''"
| "lifecycle_to_trace Dispatching = ''active''"
| "lifecycle_to_trace Waiting_result = ''active''"
| "lifecycle_to_trace Waiting_external = ''waiting''"
| "lifecycle_to_trace Recovering = ''active''"
| "lifecycle_to_trace Completed = ''completed''"
| "lifecycle_to_trace Failed = ''failed''"
| "lifecycle_to_trace Aborted = ''aborted''"

definition derive_review_state :: "string list \<Rightarrow> string list \<Rightarrow> (string, string) dict \<Rightarrow> string" where
  "derive_review_state open_gates resolved_gates run_gate_resolutions =
     (if open_gates = [] then ''not_required''
      else if list_ex (\<lambda>g. g \<notin> set resolved_gates) open_gates then ''requested''
      else if list_ex (\<lambda>g. dict_get run_gate_resolutions g = Some ''rejected'') resolved_gates then ''rejected''
      else ''approved'')"

definition trace_view :: "string \<Rightarrow> query_run_response \<Rightarrow> facade_state \<Rightarrow> trace_runtime_view" where
  "trace_view run_id response fa =
     \<lparr>trv_run_id = run_id, trv_run_state = lifecycle_to_trace (qr_lifecycle_state response),
      trv_wait_state = (if qr_waiting_external response then ''external_callback'' else ''none''),
      trv_review_state = derive_review_state (dict_get_or (fa_open_human_gates fa) run_id [])
        (dict_get_or (fa_resolved_human_gates fa) run_id []) (dict_get_or (fa_gate_resolutions fa) run_id []),
      trv_active_stage_id = qr_active_stage_id response,
      trv_branches = map snd (dict_get_or (fa_branch_registry fa) run_id []),
      trv_policy_versions = qr_policy_versions response, trv_projected_at = None,
      trv_stages = map snd (dict_get_or (fa_stage_registry fa) run_id [])\<rparr>"

definition query_trace_runtime :: "'g facade_ports \<Rightarrow> string \<Rightarrow> ('g facade, trace_runtime_view) act" where
  "query_trace_runtime pt run_id =
     bind_act (rebuild_trace_state_from_events pt run_id) (\<lambda>_.
     bind_act (query_run pt run_id) (\<lambda>response.
     fa_read (trace_view run_id response)))"

section \<open>Postmortem\<close>

text \<open>
  \<^verbatim>\<open>datetime.fromisoformat\<close> on the texts \<^verbatim>\<open>datetime.now(UTC).isoformat()\<close> gives, the only ones the two
  tables of times hold: year, month, day, hour, minute, second, microseconds unless they are zero,
  and the offset \<^verbatim>\<open>+00:00\<close>.  The value is in microseconds since 1970; another text is a \<^verbatim>\<open>ValueError\<close>.
\<close>

definition days_from_civil :: "int \<Rightarrow> int \<Rightarrow> int \<Rightarrow> int" where
  "days_from_civil y m d =
     (let y' = (if m \<le> 2 then y - 1 else y);
          era = y' div 400;
          yoe = y' - era * 400;
          doy = (153 * (if m > 2 then m - 3 else m + 9) + 2) div 5 + d - 1;
          doe = yoe * 365 + yoe div 4 - yoe div 100 + doy
      in era * 146097 + doe - 719468)"

definition all_digits :: "string \<Rightarrow> bool" where
  "all_digits s = list_all is_digit s"

definition slice :: "nat \<Rightarrow> nat \<Rightarrow> string \<Rightarrow> string" where
  "slice i j s = take (j - i) (drop i s)"

definition month_days :: "int \<Rightarrow> int \<Rightarrow> int" where
  "month_days y m =
     (if m = 2 then (if y mod 4 = 0 \<and> (y mod 100 \<noteq> 0 \<or> y mod 400 = 0) then 29 else 28)
      else if m \<in> {4, 6, 9, 11} then 30 else 31)"

definition fromisoformat :: "string \<Rightarrow> int result" where
  "fromisoformat s =
     (let bad = Inl (ValueError (''Invalid isoformat string: '' @ repr_str s));
          num = (\<lambda>i j. digits_value (slice i j s));
          tail = drop 19 s;
          frac = (if tail = ''+00:00'' then Some 0
                  else if length tail = 13 \<and> take 1 tail = ''.'' \<and> drop 7 tail = ''+00:00'' \<and> all_digits (slice 1 7 tail)
                  then Some (digits_value (slice 1 7 tail)) else None)
      in case frac of
           None \<Rightarrow> bad
         | Some us \<Rightarrow>
             if all_digits (slice 0 4 s) \<and> slice 4 5 s = ''-'' \<and> all_digits (slice 5 7 s) \<and> slice 7 8 s = ''-'' \<and>
                all_digits (slice 8 10 s) \<and> slice 10 11 s = ''T'' \<and> all_digits (slice 11 13 s) \<and> slice 13 14 s = '':'' \<and>
                all_digits (slice 14 16 s) \<and> slice 16 17 s = '':'' \<and> all_digits (slice 17 19 s) \<and>
                1 \<le> num 0 4 \<and> 1 \<le> num 5 7 \<and> num 5 7 \<le> 12 \<and> 1 \<le> num 8 10 \<and> num 8 10 \<le> month_days (num 0 4) (num 5 7) \<and>
                num 11 13 \<le> 23 \<and> num 14 16 \<le> 59 \<and> num 17 19 \<le> 59
             then Inr ((((days_from_civil (num 0 4) (num 5 7) (num 8 10) * 24 + num 11 13) * 60 + num 14 16) * 60
                 + num 17 19) * 1000000 + us)
             else bad)"

text \<open>\<^verbatim>\<open>max(0, int((end - start).total_seconds() * 1000))\<close>, the difference a double of seconds.\<close>

definition float_times_1000_int :: "pyfloat \<Rightarrow> int" where
  "float_times_1000_int f =
     (case f of PFin r \<Rightarrow> (case to_double (r * 1000) of PFin x \<Rightarrow> (if x \<ge> 0 then \<lfloor>x\<rfloor> else \<lceil>x\<rceil>) | _ \<Rightarrow> 0) | _ \<Rightarrow> 0)"

definition duration_ms :: "string option \<Rightarrow> string option \<Rightarrow> int" where
  "duration_ms created_at completed_at =
     (case (created_at, completed_at) of
        (Some c, Some d) \<Rightarrow>
          (case (fromisoformat c, fromisoformat d) of
             (Inr start, Inr finish) \<Rightarrow>
               max 0 (float_times_1000_int (to_double (of_int (finish - start) / 1000000)))
           | _ \<Rightarrow> 0)
      | _ \<Rightarrow> 0)"

text \<open>\<^verbatim>\<open>completed_at\<close> is kept from the first time a terminal state was seen.\<close>

definition note_completed :: "'g facade_ports \<Rightarrow> string \<Rightarrow> ('g facade, string option) act" where
  "note_completed pt run_id =
     bind_act (fa_read (\<lambda>fa. dict_get (fa_run_completed_at fa) run_id)) (\<lambda>known.
     case known of
       Some t \<Rightarrow> return_act (Some t)
     | None \<Rightarrow>
         bind_act (on_fst (fp_now pt)) (\<lambda>now.
         bind_act (fa_modify (\<lambda>fa. fa\<lparr>fa_run_completed_at := dict_set run_id now (fa_run_completed_at fa)\<rparr>)) (\<lambda>_.
         return_act (Some now))))"

definition truthy_codes :: "string option list \<Rightarrow> string list" where
  "truthy_codes codes = map the (filter truthy codes)"

definition gate_resolution :: "(string, string) dict \<Rightarrow> (string, string) dict \<Rightarrow> string \<Rightarrow> human_gate_resolution" where
  "gate_resolution gate_types gate_resolutions gate_ref =
     \<lparr>hr_gate_ref = gate_ref, hr_gate_type = dict_get_or gate_types gate_ref ''final_approval'',
      hr_resolution = dict_get_or gate_resolutions gate_ref ''approved'', hr_resolved_by = None, hr_resolved_at = None,
      hr_stage_id = None, hr_branch_id = None\<rparr>"

definition total_action_count :: "'g facade_ports \<Rightarrow> string \<Rightarrow> ('g facade, nat) act" where
  "total_action_count pt run_id =
     (case fp_count_by_run pt of
        None \<Rightarrow> return_act 0
      | Some count \<Rightarrow>
          catch_act (on_fst (count run_id)) (\<lambda>err.
            if exn_name err = ''NotImplementedError'' then return_act 0 else raise_act err))"

text \<open>A response of the facade has no task and no run kind, so \<^verbatim>\<open>getattr\<close> gives the defaults.\<close>

definition query_run_postmortem :: "'g facade_ports \<Rightarrow> string \<Rightarrow> ('g facade, run_postmortem_view) act" where
  "query_run_postmortem pt run_id =
     bind_act (query_run pt run_id) (\<lambda>response.
     bind_act (query_trace_runtime pt run_id) (\<lambda>trace.
     bind_act (fa_read (\<lambda>fa. map (gate_resolution (dict_get_or (fa_gate_types fa) run_id [])
         (dict_get_or (fa_gate_resolutions fa) run_id [])) (dict_get_or (fa_resolved_human_gates fa) run_id []))) (\<lambda>resolutions.
     bind_act (total_action_count pt run_id) (\<lambda>actions.
     bind_act (fa_read (\<lambda>fa. dict_get (fa_run_created_at fa) run_id)) (\<lambda>created_at.
     bind_act (if trv_run_state trace \<in> {''completed'', ''failed'', ''aborted''} then note_completed pt run_id
         else return_act None) (\<lambda>completed_at.
     return_act
       \<lparr>pm_run_id = run_id, pm_task_id = None, pm_run_kind = ''default'', pm_outcome = trv_run_state trace,
        pm_stages = trv_stages trace, pm_branches = trv_branches trace, pm_total_action_count = actions,
        pm_failure_codes = truthy_codes (map ts_failure_code (trv_stages trace) @ map tb_failure_code (trv_branches trace)),
        pm_duration_ms = duration_ms created_at completed_at, pm_human_gate_resolutions = resolutions,
        pm_policy_versions = trv_policy_versions trace, pm_event_count = qr_projected_offset response,
        pm_created_at = created_at, pm_completed_at = completed_at\<rparr>))))))"

section \<open>Summaries of child runs\<close>

definition known_children :: "string list \<Rightarrow> string list \<Rightarrow> string list" where
  "known_children active_ids all_spawned = foldl (\<lambda>ids cid. if cid \<in> set ids then ids else ids @ [cid]) active_ids all_spawned"

definition child_summary :: "'g facade_ports \<Rightarrow> string \<Rightarrow> ('g facade, child_run_summary) act" where
  "child_summary pt child_id =
     catch_act
       (bind_act (query_run pt child_id) (\<lambda>child_resp.
        let outcome = (if qr_lifecycle_state child_resp \<in> {Completed, Failed, Aborted}
                       then Some (qr_lifecycle_state child_resp) else None) in
        bind_act (fa_read (\<lambda>fa. dict_get (fa_run_created_at fa) child_id)) (\<lambda>created_at.
        bind_act (if outcome = None then return_act None else note_completed pt child_id) (\<lambda>completed.
        fa_read (\<lambda>fa. \<lparr>cs_child_run_id = child_id, cs_child_kind = dict_get_or (fa_child_kind fa) child_id ''child'',
          cs_task_id = None, cs_lifecycle_state = qr_lifecycle_state child_resp, cs_outcome = outcome,
          cs_created_at = created_at, cs_completed_at = completed, cs_query_error = None\<rparr>)))))
       (\<lambda>err. fa_read (\<lambda>fa. \<lparr>cs_child_run_id = child_id,
          cs_child_kind = dict_get_or (fa_child_kind fa) child_id ''child'', cs_task_id = None, cs_lifecycle_state = Created,
          cs_outcome = None, cs_created_at = dict_get (fa_run_created_at fa) child_id, cs_completed_at = None,
          cs_query_error = Some (exn_str err)\<rparr>))"

fun child_summaries :: "'g facade_ports \<Rightarrow> string list \<Rightarrow> ('g facade, child_run_summary list) act" where
  "child_summaries pt [] = return_act []"
| "child_summaries pt (child_id # ids) =
     bind_act (child_summary pt child_id) (\<lambda>summary.
     bind_act (child_summaries pt ids) (\<lambda>summaries. return_act (summary # summaries)))"

definition query_child_runs :: "'g facade_ports \<Rightarrow> string \<Rightarrow> ('g facade, child_run_summary list) act" where
  "query_child_runs pt parent_run_id =
     bind_act (query_run pt parent_run_id) (\<lambda>response.
     bind_act (fa_read (\<lambda>fa. dict_get_or (fa_all_child_runs fa) parent_run_id [])) (\<lambda>all_spawned.
     child_summaries pt (known_children (qr_active_child_runs response) all_spawned)))"

section \<open>Delegation to optional stores\<close>

definition delegate :: "string \<Rightarrow> string \<Rightarrow> ('a \<Rightarrow> ('g, 'b) act) option \<Rightarrow> 'a \<Rightarrow> ('g facade, 'b) act" where
  "delegate operation store f x =
     (case f of
        None \<Rightarrow> raise_act (RuntimeError (operation @ ''() requires a '' @ store @ '' injected at KernelFacade construction.''))
      | Some call \<Rightarrow> on_fst (call x))"

definition facade_register_task :: "'g facade_ports \<Rightarrow> task_descriptor \<Rightarrow> ('g facade, unit) act" where
  "facade_register_task pt = delegate ''register_task'' ''task_registry'' (fp_register_task pt)"

definition get_task_status :: "'g facade_ports \<Rightarrow> string \<Rightarrow> ('g facade, task_health_status option) act" where
  "get_task_status pt = delegate ''get_task_status'' ''task_registry'' (fp_get_health pt)"

definition facade_list_session_tasks :: "'g facade_ports \<Rightarrow> string \<Rightarrow> ('g facade, task_descriptor list) act" where
  "facade_list_session_tasks pt = delegate ''list_session_tasks'' ''task_registry'' (fp_list_session_tasks pt)"

definition record_task_view :: "'g facade_ports \<Rightarrow> task_view_record \<Rightarrow> ('g facade, string) act" where
  "record_task_view pt record =
     bind_act (delegate ''record_task_view'' ''task_view_log'' (fp_view_write pt) record) (\<lambda>_.
     return_act (tv_task_view_id record))"

definition get_task_view_record :: "'g facade_ports \<Rightarrow> string \<Rightarrow> ('g facade, task_view_record option) act" where
  "get_task_view_record pt = delegate ''get_task_view_record'' ''task_view_log'' (fp_view_get_by_id pt)"

definition get_task_view_by_decision ::
  "'g facade_ports \<Rightarrow> string \<Rightarrow> string \<Rightarrow> ('g facade, task_view_record option) act" where
  "get_task_view_by_decision pt run_id decision_ref =
     delegate ''get_task_view_by_decision'' ''task_view_log''
       (map_option (\<lambda>f. f run_id) (fp_view_get_by_decision pt)) decision_ref"

definition bind_task_view_to_decision :: "'g facade_ports \<Rightarrow> string \<Rightarrow> string \<Rightarrow> ('g facade, unit) act" where
  "bind_task_view_to_decision pt task_view_id decision_ref =
     delegate ''bind_task_view_to_decision'' ''task_view_log'' (map_option (\<lambda>f. f task_view_id) (fp_view_bind pt)) decision_ref"

definition get_action_state :: "'g facade_ports \<Rightarrow> string \<Rightarrow> ('g facade, string option) act" where
  "get_action_state pt key =
     (case fp_dedupe_get pt of
        None \<Rightarrow> raise_act (RuntimeError ''get_action_state called but no dedupe_store was injected - idempotency protection is disabled.'')
      | Some get \<Rightarrow>
          bind_act (on_fst (get key)) (\<lambda>record. return_act (map_option (\<lambda>r. dedupe_state_str (dr_state r)) record)))"

definition facade_cleanup_completed_run :: "string \<Rightarrow> ('g facade, unit) act" where
  "facade_cleanup_completed_run run_id = fa_modify (cleanup_completed_run run_id)"

end
