(* ===== verification/Local_Gateway.thy ===== *)
theory Local_Gateway
  imports Run_Guarantees SQLite_Event_Log Facade_Contracts
begin

text \<open>
  \<^verbatim>\<open>substrate/local/adaptor.py\<close>: the gateway that runs the actors of many runs in one process, over
  one kernel state they share.  A call is atomic up to its awaits; the services of a local kernel
  do not suspend, so the task that starts a run has ended when \<^verbatim>\<open>start_workflow\<close> returns.  (The long
  dash in a message of the source is an ASCII hyphen here.)
\<close>

section \<open>The gateway\<close>

record ('l, 's, 'w) local_gateway =
  gw_kernel :: "('l, 's, 'w) kernel_state"
  gw_workflows :: "(string, run_actor) dict"
  gw_run_tasks :: "(string, (string \<times> string) result) dict"
  gw_execute_turn_cache :: "(string, turn_result) dict"

record gateway_config =
  gc_workflow_id_prefix :: string
  gc_max_cache_size :: int

definition LocalWorkflowGateway :: "('l, 's, 'w) kernel_state \<Rightarrow> ('l, 's, 'w) local_gateway" where
  "LocalWorkflowGateway k =
     \<lparr>gw_kernel = k, gw_workflows = [], gw_run_tasks = [], gw_execute_turn_cache = []\<rparr>"

definition resolve_run_id :: "start_run_request \<Rightarrow> string" where
  "resolve_run_id request =
     (case (case srq_input_json request of None \<Rightarrow> JNull | Some d \<Rightarrow> jget d ''run_id'') of
        JStr run_id \<Rightarrow> run_id
      | _ \<Rightarrow>
          if truthy (srq_parent_run_id request) then the (srq_parent_run_id request) @ '':'' @ srq_run_kind request
          else if truthy (srq_session_id request) then the (srq_session_id request) @ '':'' @ srq_run_kind request
          else srq_run_kind request)"

definition workflow_id_for :: "gateway_config \<Rightarrow> string \<Rightarrow> string" where
  "workflow_id_for cfg run_id = gc_workflow_id_prefix cfg @ '':'' @ run_id"

definition local_run_input :: "string \<Rightarrow> start_run_request \<Rightarrow> run_input" where
  "local_run_input run_id request =
     \<lparr>in_run_id = run_id, in_session_id = srq_session_id request, in_parent_run_id = srq_parent_run_id request,
      in_input_ref = srq_input_ref request, in_input_json = srq_input_json request,
      in_runtime_context_ref = srq_context_ref request, in_trace_context = None, in_pending_signals = None,
      in_policy_versions = None, in_initial_stage_id = None, in_task_contract_ref = None\<rparr>"

text \<open>The task of \<^verbatim>\<open>workflow.run\<close>, whose exception stays in the task.\<close>

definition run_workflow ::
  "('l, 's, 'w) actor_services \<Rightarrow> run_input \<Rightarrow> (('l, 's, 'w) actor_state, string \<times> string) act" where
  "run_workflow sv i = bind_act (run_start False sv i) (\<lambda>_. run_finish False sv i)"

definition start_workflow ::
  "gateway_config \<Rightarrow> ('l, 's, 'w) actor_services \<Rightarrow> start_run_request
     \<Rightarrow> (('l, 's, 'w) local_gateway, (string, string) dict) act" where
  "start_workflow cfg sv request g =
     (let run_id = resolve_run_id request
      in if dict_has (gw_workflows g) run_id
         then (g, Inl (ValueError (''LocalWorkflowGateway: duplicate run_id '' @ repr_str run_id @ '' is not allowed'')))
         else
           (case run_workflow sv (local_run_input run_id request) (gw_kernel g, RunActorWorkflow) of
              ((k, a), res) \<Rightarrow>
                (g\<lparr>gw_kernel := k, gw_workflows := dict_set run_id a (gw_workflows g),
                   gw_run_tasks := dict_set run_id res (gw_run_tasks g)\<rparr>,
                 Inr [(''run_id'', run_id), (''workflow_id'', workflow_id_for cfg run_id)])))"

text \<open>A call on the actor of a registered run.\<close>

definition on_workflow ::
  "string \<Rightarrow> run_actor \<Rightarrow> (('l, 's, 'w) actor_state, 'a) act \<Rightarrow> (('l, 's, 'w) local_gateway, 'a) act" where
  "on_workflow run_id a m g =
     (case m (gw_kernel g, a) of
        ((k, a'), res) \<Rightarrow> (g\<lparr>gw_kernel := k, gw_workflows := dict_set run_id a' (gw_workflows g)\<rparr>, res))"

definition signal_workflow ::
  "('l, 's, 'w) actor_services \<Rightarrow> string \<Rightarrow> signal_run_request \<Rightarrow> (('l, 's, 'w) local_gateway, unit) act" where
  "signal_workflow sv run_id request g =
     (case dict_get (gw_workflows g) run_id of
        None \<Rightarrow> (g, Inl (KeyError (''LocalWorkflowGateway: run not found - run_id='' @ repr_str run_id)))
      | Some a \<Rightarrow>
          on_workflow run_id a (signal_actor False sv
            \<lparr>sig_signal_type = gq_signal_type request, sig_signal_payload = gq_signal_payload request,
             sig_caused_by = gq_caused_by request, sig_signal_token = None, sig_from_peer_run_id = None\<rparr>) g)"

text \<open>The task has ended, so there is nothing to cancel but the registration.\<close>

definition cancel_workflow :: "string \<Rightarrow> string \<Rightarrow> (('l, 's, 'w) local_gateway, unit) act" where
  "cancel_workflow run_id reason g =
     (g\<lparr>gw_workflows := dict_pop run_id (gw_workflows g), gw_run_tasks := dict_pop run_id (gw_run_tasks g)\<rparr>, Inr ())"

definition deps_projection_get ::
  "('l, 's, 'w) actor_services \<Rightarrow> string \<Rightarrow> (('l, 's, 'w) local_gateway, run_projection) act" where
  "deps_projection_get sv run_id g =
     (case projection_get sv run_id (gw_kernel g) of (k, res) \<Rightarrow> (g\<lparr>gw_kernel := k\<rparr>, res))"

definition query_projection ::
  "('l, 's, 'w) actor_services \<Rightarrow> string \<Rightarrow> (('l, 's, 'w) local_gateway, run_projection) act" where
  "query_projection sv run_id g =
     (case dict_get (gw_workflows g) run_id of
        Some a \<Rightarrow>
          (case actor_query a of
             Inr p \<Rightarrow> (g, Inr p)
           | Inl _ \<Rightarrow> deps_projection_get sv run_id g)
      | None \<Rightarrow> deps_projection_get sv run_id g)"

definition child_start_request :: "string \<Rightarrow> spawn_child_run_request \<Rightarrow> start_run_request" where
  "child_start_request parent_run_id request =
     (let input_json = (case pq_input_json request of None \<Rightarrow> [] | Some d \<Rightarrow> d);
          child_run_id = (case jget input_json ''child_run_id'' of
              JStr c \<Rightarrow> if c = [] then parent_run_id @ '':'' @ pq_child_kind request else c
            | _ \<Rightarrow> parent_run_id @ '':'' @ pq_child_kind request)
      in \<lparr>srq_initiator = ''kernel'', srq_run_kind = pq_child_kind request,
          srq_session_id = (case jget input_json ''_session_id'' of JStr s \<Rightarrow> if s = [] then None else Some s | _ \<Rightarrow> None),
          srq_input_ref = pq_input_ref request,
          srq_input_json = Some (dict_set ''child_run_id'' (JStr child_run_id) input_json),
          srq_context_ref = None, srq_parent_run_id = Some parent_run_id, srq_trace_context = None,
          srq_task_contract_ref = None, srq_initial_stage_id = None, srq_route_policy_version = None,
          srq_skill_policy_version = None, srq_evaluation_policy_version = None,
          srq_task_view_policy_version = None\<rparr>)"

definition start_child_workflow ::
  "gateway_config \<Rightarrow> ('l, 's, 'w) actor_services \<Rightarrow> string \<Rightarrow> spawn_child_run_request
     \<Rightarrow> (('l, 's, 'w) local_gateway, (string, string) dict) act" where
  "start_child_workflow cfg sv parent_run_id request =
     start_workflow cfg sv (child_start_request parent_run_id request)"

definition stream_events ::
  "('l, 's, 'w) actor_services \<Rightarrow> string \<Rightarrow> ('l, 's, 'w) local_gateway \<Rightarrow> runtime_event list" where
  "stream_events sv run_id g = sv_load sv (kn_log (gw_kernel g)) run_id 0"

definition gateway_shutdown :: "(('l, 's, 'w) local_gateway, unit) act" where
  "gateway_shutdown g = (g\<lparr>gw_workflows := [], gw_run_tasks := []\<rparr>, Inr ())"

section \<open>Turns given by a handler\<close>

definition handler_turn_result :: "string \<Rightarrow> json \<Rightarrow> turn_result" where
  "handler_turn_result idempotency_key output =
     \<lparr>tr_state = ''effect_recorded'', tr_outcome_kind = Outcome_dispatched, tr_decision_ref = idempotency_key,
      tr_decision_fingerprint = idempotency_key, tr_dispatch_dedupe_key = None, tr_intent_commit_ref = None,
      tr_host_kind = None, tr_remote_policy_decision = None, tr_action_commit = Some [(''output'', output)],
      tr_recovery_input = None, tr_emitted_events = []\<rparr>"

text \<open>The part after the await of the handler: record the result, evict the oldest entry above the limit.\<close>

definition record_turn_result ::
  "gateway_config \<Rightarrow> string \<Rightarrow> json \<Rightarrow> (string, turn_result) dict \<Rightarrow> (string, turn_result) dict" where
  "record_turn_result cfg idempotency_key output cache =
     (let cache' = dict_set idempotency_key (handler_turn_result idempotency_key output) cache
      in if int (length cache') > gc_max_cache_size cfg
         then (case cache' of [] \<Rightarrow> [] | (oldest, _) # _ \<Rightarrow> dict_pop oldest cache')
         else cache')"

text \<open>The handler may act on the kernel.\<close>

definition execute_turn ::
  "gateway_config \<Rightarrow> (action \<Rightarrow> (('l, 's, 'w) local_gateway, json) act) \<Rightarrow> action \<Rightarrow> string
     \<Rightarrow> (('l, 's, 'w) local_gateway, turn_result) act" where
  "execute_turn cfg handler a idempotency_key g =
     (case dict_get (gw_execute_turn_cache g) idempotency_key of
        Some result \<Rightarrow> (g, Inr result)
      | None \<Rightarrow>
          bind_act (handler a) (\<lambda>output.
          bind_act (modify_act (\<lambda>g. g\<lparr>gw_execute_turn_cache :=
            record_turn_result cfg idempotency_key output (gw_execute_turn_cache g)\<rparr>)) (\<lambda>_.
          return_act (handler_turn_result idempotency_key output))) g)"

section \<open>Sequences of calls\<close>

text \<open>
  The calls on a gateway, with the commits other parties append to the log and the decisions its
  actors take on them.  A handler works on the part of the world that the turns see.
\<close>

definition handler_local :: "(action \<Rightarrow> (('l, 's, 'w) local_gateway, json) act) \<Rightarrow> bool" where
  "handler_local handler \<longleftrightarrow>
     (\<forall>a g. \<exists>w. fst (handler a g) = g\<lparr>gw_kernel := (gw_kernel g)\<lparr>kn_turn := w\<rparr>\<rparr>)"

inductive gateway_step ::
  "gateway_config \<Rightarrow> ('l, 's, 'w) actor_services \<Rightarrow> ('l, 's, 'w) local_gateway \<Rightarrow> ('l, 's, 'w) local_gateway \<Rightarrow> bool"
  for cfg sv where
  start: "start_workflow cfg sv request g = (g', res) \<Longrightarrow> gateway_step cfg sv g g'"
| start_child: "start_child_workflow cfg sv parent child_request g = (g', res) \<Longrightarrow> gateway_step cfg sv g g'"
| signal: "signal_workflow sv run_id signal_request g = (g', sig_res) \<Longrightarrow> gateway_step cfg sv g g'"
| cancel: "cancel_workflow run_id reason g = (g', can_res) \<Longrightarrow> gateway_step cfg sv g g'"
| query: "query_projection sv run_id g = (g', q_res) \<Longrightarrow> gateway_step cfg sv g g'"
| shutdown: "gateway_shutdown g = (g', s_res) \<Longrightarrow> gateway_step cfg sv g g'"
| turn: "handler_local handler \<Longrightarrow> execute_turn cfg handler a key g = (g', t_res) \<Longrightarrow> gateway_step cfg sv g g'"
| decide: "dict_get (gw_workflows g) (cm_run_id commit) = Some actor \<Longrightarrow>
    on_workflow (cm_run_id commit) actor (process_action_commit sv commit) g = (g', d_res) \<Longrightarrow> gateway_step cfg sv g g'"
| commit: "last_authoritative (cm_events commit) \<Longrightarrow> append_commit sv commit (gw_kernel g) = (k, c_res) \<Longrightarrow>
    gateway_step cfg sv g (g\<lparr>gw_kernel := k\<rparr>)"

section \<open>Many runs over one log\<close>

lemma preserves_read: "(\<And>s. preserves P (g (f s))) \<Longrightarrow> preserves P (bind_act (read_act f) g)"
  by (simp add: preserves_def)

text \<open>
  A log that never forgets a run, as the SQLite log.  Then every call on behalf of one run leaves
  every other run in step as well.
\<close>

locale shared_log = actor_log +
  assumes retains: "retained l commit r"
begin

lemma append_any:
  "last_authoritative (cm_events commit) \<Longrightarrow> preserves (synced sv invar run) (append_commit sv commit)"
  by (rule preservesI) (erule append_synced, assumption, simp_all add: retains)

lemma projection_get_any: "preserves (synced sv invar run) (projection_get sv r)"
proof (cases "r = run")
  case False
  then show ?thesis
    by (auto simp: preserves_def synced_def run_cached_def projection_get_def get_projection_def Let_def split: sum.splits)
qed (simp add: projection_get_preserves)

lemma projection_catch_up_any: "preserves (synced sv invar run) (projection_catch_up sv r through)"
proof (cases "r = run")
  case False
  then show ?thesis
    by (auto simp: preserves_def synced_def run_cached_def projection_catch_up_def catch_up_def Let_def split: sum.splits)
qed (simp add: projection_catch_up_preserves)

lemma readiness_any: "preserves (synced sv invar run) (projection_readiness sv r off)"
proof (cases "r = run")
  case False
  then show ?thesis
    by (auto simp: preserves_def synced_def run_cached_def projection_readiness_def readiness_def get_projection_def Let_def
        split: sum.splits prod.splits)
qed (simp add: readiness_preserves)

lemmas any_run = append_any projection_get_any projection_catch_up_any readiness_any frame_synced_calls

lemma decision_round_any: "preserves (synced sv invar run) (decision_round sv r off a p)"
  unfolding decision_round_def turn_round_def record_turn_outcome_def append_turn_outcome_commit_def
    recover_action_def append_recovery_event_def assert_single_dispatch_attempt_in_turn_def
    assert_recovery_event_type_allowed_def
  by (intro any_run preserves_intros) simp_all

lemma on_fst_any: "preserves (synced sv invar run) m \<Longrightarrow> preserves (\<lambda>st. synced sv invar run (fst st)) (on_fst m)"
  by (rule preserves_on_fst) simp

lemma process_any: "preserves (\<lambda>st. synced sv invar run (fst st)) (process_action_commit sv commit)"
  unfolding process_action_commit_def assert_no_derived_diagnostic_authority_input_def last_event_offset_def
  by (intro on_fst_any any_run decision_round_any preserves_intros) (auto simp: synced_def)

lemma deliver_signal_any: "preserves (\<lambda>st. synced sv invar run (fst st)) (deliver_signal inw sv r sg)"
  unfolding deliver_signal_def trigger_continue_as_new_def
  by (rule preserves_bind [OF preserves_modify], force, rule preserves_bind [OF on_fst_any [OF projection_get_any]],
      rule preserves_read)
    (auto simp: split_beta intro!: on_fst_any any_run process_any preserves_intros)

lemma handle_signal_any: "preserves (\<lambda>st. synced sv invar run (fst st)) (handle_signal inw sv sg)"
  using deliver_signal_any [of run inw _ sg] unfolding preserves_def handle_signal_def by (auto split: option.splits)

lemma signal_actor_any: "preserves (\<lambda>st. synced sv invar run (fst st)) (signal_actor inw sv sg)"
  using handle_signal_any [of run inw sg] unfolding preserves_def signal_actor_def by (auto simp: Let_def)

lemma handle_signals_any: "preserves (\<lambda>st. synced sv invar run (fst st)) (handle_signals inw sv sgs)"
proof (induction sgs)
  case (Cons sg sgs)
  then show ?case unfolding handle_signals.simps by (intro preserves_bind handle_signal_any)
qed (simp add: preserves_def)

lemma run_workflow_any: "preserves (\<lambda>st. synced sv invar run (fst st)) (run_workflow sv i)"
proof -
  have pin: "preserves (\<lambda>st. synced sv invar run (fst st)) (bind_act (read_act (\<lambda>(k, a). policy_versions_pinned_commit r (now_iso sv k) pv))
      (\<lambda>commit. on_fst (append_commit sv commit)))" for r pv
    by (rule preserves_read)
      (auto simp: split_beta policy_versions_pinned_commit_def last_authoritative_def intro!: on_fst_any any_run)
  show ?thesis
    unfolding run_workflow_def run_start_def run_finish_def notify_parent_child_completed_def
    by (intro preserves_bind preserves_modify preserves_option preserves_if preserves_pure handle_signals_any pin on_fst_any any_run) auto
qed

text \<open>What the gateway keeps: every run is in step with the log, and every actor is registered under its run.\<close>

definition gateway_ok :: "('a, 'b, 'c) local_gateway \<Rightarrow> bool" where
  "gateway_ok g \<longleftrightarrow> (\<forall>run. synced sv invar run (gw_kernel g)) \<and>
     (\<forall>run a. dict_get (gw_workflows g) run = Some a \<longrightarrow> ra_run_id a = Some run)"

lemma all_runs: "(\<And>run. preserves (\<lambda>st. synced sv invar run (fst st)) m) \<Longrightarrow> m (k, a) = ((k', a'), res) \<Longrightarrow>
    \<forall>run. synced sv invar run k \<Longrightarrow> synced sv invar r k'"
  using preservesD [of _ m "(k, a)" "(k', a')" res] by fastforce

lemma run_finish_ok: "preserves (actor_ok run) (run_finish False sv i)"
  unfolding run_finish_def notify_parent_child_completed_def by (intro preserves_intros) (auto simp: actor_ok_def)

lemma run_workflow_ok:
  assumes "synced sv invar (in_run_id i) k"
  shows "actor_ok (in_run_id i) (fst (run_workflow sv i (k, a)))"
proof -
  obtain st res where st: "run_start False sv i (k, a) = (st, res)" by fastforce
  have "actor_ok (in_run_id i) st" using run_start_ok [OF assms, of False a] st by simp
  then show ?thesis
    using st preserves_run [OF run_finish_ok] by (cases res) (simp_all add: run_workflow_def)
qed

lemma start_workflow_ok: "preserves gateway_ok (start_workflow cfg sv request)"
proof (rule preservesI)
  fix g g' res
  assume g: "gateway_ok g" and run: "start_workflow cfg sv request g = (g', res)"
  let ?i = "local_run_input (resolve_run_id request) request"
  obtain k a r where w: "run_workflow sv ?i (gw_kernel g, RunActorWorkflow) = ((k, a), r)" by (metis prod.exhaust)
  have "synced sv invar run k" for run
    using all_runs [OF run_workflow_any w] g by (simp add: gateway_ok_def)
  moreover have "ra_run_id a = Some (resolve_run_id request)"
    using run_workflow_ok [of ?i "gw_kernel g" RunActorWorkflow] g w
    by (simp add: gateway_ok_def actor_ok_def local_run_input_def)
  ultimately show "gateway_ok g'"
    using g run w by (auto simp: start_workflow_def gateway_ok_def Let_def dict_get_set split: if_splits)
qed

text \<open>A call on a registered actor that keeps every run in step and the actor its run.\<close>

lemma on_workflow_ok:
  assumes g: "gateway_ok g" "dict_get (gw_workflows g) run = Some a"
    and m: "\<And>r. preserves (\<lambda>st. synced sv invar r (fst st)) m" "preserves (actor_ok run) m"
    and run: "on_workflow run a m g = (g', res)"
  shows "gateway_ok g'"
proof -
  obtain k' a' r where w: "m (gw_kernel g, a) = ((k', a'), r)" by (metis prod.exhaust)
  have "synced sv invar r' k'" for r' using all_runs [OF m(1) w] g by (simp add: gateway_ok_def)
  moreover have "actor_ok run (k', a')"
    using preservesD [OF m(2) _ w] g by (simp add: gateway_ok_def actor_ok_def)
  ultimately show ?thesis
    using g run w by (auto simp: on_workflow_def gateway_ok_def actor_ok_def dict_get_set split: if_splits)
qed

lemma signal_workflow_ok: "preserves gateway_ok (signal_workflow sv run request)"
  by (rule preservesI, unfold signal_workflow_def)
    (auto split: option.splits elim!: on_workflow_ok intro: signal_actor_any signal_actor_ok)

lemma deps_projection_get_ok: "preserves gateway_ok (deps_projection_get sv run)"
  using preservesD [OF projection_get_any]
  by (fastforce simp: preserves_def deps_projection_get_def gateway_ok_def split: prod.splits)

lemma query_projection_ok: "preserves gateway_ok (query_projection sv run)"
  using deps_projection_get_ok [of run]
  by (auto simp: preserves_def query_projection_def split: option.splits sum.splits)

lemma cancel_workflow_ok: "preserves gateway_ok (cancel_workflow run reason)"
  by (auto simp: preserves_def cancel_workflow_def gateway_ok_def dict_get_pop split: if_splits)

lemma gateway_shutdown_ok: "preserves gateway_ok gateway_shutdown"
  by (auto simp: preserves_def gateway_shutdown_def gateway_ok_def dict_get_def)

lemma execute_turn_ok:
  assumes "handler_local handler"
  shows "preserves gateway_ok (execute_turn cfg handler a key)"
proof (rule preservesI)
  fix g g' res
  assume g: "gateway_ok g" and run: "execute_turn cfg handler a key g = (g', res)"
  obtain w r where h: "handler a g = (g\<lparr>gw_kernel := (gw_kernel g)\<lparr>kn_turn := w\<rparr>\<rparr>, r)"
    using assms unfolding handler_local_def by (metis prod.collapse)
  have k: "gateway_ok (g\<lparr>gw_kernel := (gw_kernel g)\<lparr>kn_turn := w\<rparr>\<rparr>)"
    using g by (simp add: gateway_ok_def synced_def)
  show "gateway_ok g'"
    using run h k g
    by (cases r) (auto simp: execute_turn_def gateway_ok_def split: option.splits)
qed

lemma gateway_step_ok: "gateway_step cfg sv g g' \<Longrightarrow> gateway_ok g \<Longrightarrow> gateway_ok g'"
proof (induction rule: gateway_step.induct)
  case (start request g g' res)
  then show ?case by (metis preservesD start_workflow_ok)
next
  case (start_child parent child_request g g' res)
  then show ?case by (metis preservesD start_workflow_ok start_child_workflow_def)
next
  case (signal run_id signal_request g g' sig_res)
  then show ?case by (metis preservesD signal_workflow_ok)
next
  case (cancel run_id reason g g' can_res)
  then show ?case by (metis preservesD cancel_workflow_ok)
next
  case (query run_id g g' q_res)
  then show ?case by (metis preservesD query_projection_ok)
next
  case (shutdown g g' s_res)
  then show ?case by (metis preservesD gateway_shutdown_ok)
next
  case (turn handler a key g g' t_res)
  then show ?case by (metis preservesD execute_turn_ok)
next
  case (decide g commit actor g' d_res)
  then show ?case by (metis on_workflow_ok process_any process_action_commit_ok)
next
  case (commit commit g k c_res)
  then show ?case using preservesD [OF append_any] by (fastforce simp: gateway_ok_def)
qed

lemma gateway_initial: "invar l \<Longrightarrow> (\<And>run. load l run 0 = []) \<Longrightarrow>
    gateway_ok (LocalWorkflowGateway \<lparr>kn_log = l, kn_projections = [], kn_deduper = [], kn_turn = tw\<rparr>)"
  by (simp add: gateway_ok_def LocalWorkflowGateway_def synced_def run_cached_def dict_get_def sv_load)

lemma gateway_reachable_ok:
  assumes "invar l" "\<And>run. load l run 0 = []"
    "(gateway_step cfg sv)\<^sup>*\<^sup>* (LocalWorkflowGateway \<lparr>kn_log = l, kn_projections = [], kn_deduper = [], kn_turn = tw\<rparr>) g"
  shows "gateway_ok g"
  using assms(3) by (induction rule: rtranclp_induct) (auto intro: gateway_step_ok gateway_initial [OF assms(1,2)])

text \<open>A signal for one run adds nothing to another.\<close>

definition other_log :: "string \<Rightarrow> runtime_event list \<Rightarrow> ('a, 'b, 'c) kernel_state \<Rightarrow> bool" where
  "other_log r es k \<longleftrightarrow> invar (kn_log k) \<and> load (kn_log k) r 0 = es"

lemma other_log_append: "cm_run_id commit \<noteq> r \<Longrightarrow> preserves (other_log r es) (append_commit sv commit)"
proof (rule preservesI)
  fix k k' res
  assume r: "cm_run_id commit \<noteq> r" and k: "other_log r es k" and run: "append_commit sv commit k = (k', res)"
  obtain l where l: "append (kn_log k) commit = (l, res)" "k' = k\<lparr>kn_log := l\<rparr>"
    using run by (auto simp: append_commit_def sv_append split: prod.splits)
  then show "other_log r es k'"
    using k r retains append_invar [OF _ l(1)] append_error [of "kn_log k" commit l] append_other [of "kn_log k" commit l]
    by (cases res) (auto simp: other_log_def)
qed

lemma other_log_calls:
  "preserves (other_log r es) (projection_get sv run)" "preserves (other_log r es) (projection_catch_up sv run off)"
  "preserves (other_log r es) (projection_readiness sv run off)"
  by (auto simp: preserves_def other_log_def projection_get_def projection_catch_up_def projection_readiness_def split: prod.splits)

lemma other_log_frame: "frame_act m \<Longrightarrow> preserves (other_log r es) m"
  by (simp add: preserves_def frame_act_def other_log_def)

lemmas other_run = other_log_append other_log_calls frame_calls [THEN other_log_frame]

lemma on_fst_other: "preserves (other_log r es) m \<Longrightarrow> preserves (\<lambda>st. other_log r es (fst st)) (on_fst m)"
  by (rule preserves_on_fst) simp

lemma decision_round_other: "run \<noteq> r \<Longrightarrow> preserves (other_log r es) (decision_round sv run off a p)"
  unfolding decision_round_def turn_round_def record_turn_outcome_def append_turn_outcome_commit_def
    recover_action_def append_recovery_event_def assert_single_dispatch_attempt_in_turn_def
    assert_recovery_event_type_allowed_def
  by (intro other_run preserves_intros) simp_all

lemma process_other:
  "cm_run_id commit \<noteq> r \<Longrightarrow> preserves (\<lambda>st. other_log r es (fst st)) (process_action_commit sv commit)"
  unfolding process_action_commit_def assert_no_derived_diagnostic_authority_input_def last_event_offset_def
  by (intro on_fst_other other_run decision_round_other preserves_intros) (auto simp: other_log_def)

lemma deliver_signal_other:
  "run \<noteq> r \<Longrightarrow> preserves (\<lambda>st. other_log r es (fst st)) (deliver_signal inw sv run sg)"
  unfolding deliver_signal_def trigger_continue_as_new_def
  by (rule preserves_bind [OF preserves_modify], force, rule preserves_bind [OF on_fst_other [OF other_run(2)]],
      rule preserves_read)
    (auto simp: split_beta intro!: on_fst_other other_run process_other preserves_intros)

text \<open>
  A signal for a registered run that its actor does not drop: the append fails and no run changes,
  or its event is the next event of the run and the gateway answers a query with the replay of the
  log.  No other run changes.
\<close>

lemma signal_workflow_effect:
  assumes g: "gateway_ok g" "dict_get (gw_workflows g) run = Some a" "run \<noteq> []"
    and sg: "sg = \<lparr>sig_signal_type = gq_signal_type request, sig_signal_payload = gq_signal_payload request,
      sig_caused_by = gq_caused_by request, sig_signal_token = None, sig_from_peer_run_id = None\<rparr>"
      "\<not> signal_dropped a sg"
    and run: "signal_workflow sv run request g = (g', res)"
  shows "(\<forall>r. r \<noteq> run \<longrightarrow> stream_events sv r g' = stream_events sv r g) \<and>
    (case res of
       Inl e \<Rightarrow> stream_events sv run g' = stream_events sv run g
     | Inr _ \<Rightarrow> \<exists>e p. stream_events sv run g' = stream_events sv run g @ [e]
         \<and> ev_event_type e = signal_event_type (gq_signal_type request)
         \<and> query_projection sv run g' = (g', Inr p) \<and> current_projection sv run (gw_kernel g') = Inr p)"
proof -
  let ?k = "gw_kernel g" and ?d = "deliver_signal False sv run sg"
  have s: "synced sv invar run ?k" and id: "ra_run_id a = Some run" using g by (simp_all add: gateway_ok_def)
  have d: "signal_actor False sv sg (?k, a) = ?d (?k, a)"
    using id g(3) sg(2) by (simp add: signal_actor_def handle_signal_def)
  obtain k' a' where k': "?d (?k, a) = ((k', a'), res)"
    and g': "g' = g\<lparr>gw_kernel := k', gw_workflows := dict_set run a' (gw_workflows g)\<rparr>"
    using run d g(2) sg(1) by (auto simp: signal_workflow_def on_workflow_def split: prod.splits)
  have other: "load (kn_log k') r 0 = load (kn_log ?k) r 0" if "r \<noteq> run" for r
    using preservesD [OF deliver_signal_other [OF that [symmetric], of "load (kn_log ?k) r 0"] _ k'] s
    by (simp add: other_log_def synced_def)
  have "case res of
       Inl e \<Rightarrow> load (kn_log k') run 0 = load (kn_log ?k) run 0
     | Inr _ \<Rightarrow> \<exists>e p. load (kn_log k') run 0 = load (kn_log ?k) run 0 @ [e]
         \<and> ev_event_type e = signal_event_type (gq_signal_type request)
         \<and> actor_query a' = Inr p \<and> current_projection sv run k' = Inr p"
  proof (rule deliver_signal_run [OF s, of False sg a])
    fix k1 a1 p new
    assume c: "fst (?d (?k, a)) = (k1, a1)"
      "a1 = (signal_received a sg p)\<lparr>ra_continued_as := ra_continued_as a1\<rparr>"
      "current_projection sv run k1 = Inr p" "load (kn_log k1) run 0 = load (kn_log ?k) run 0 @ [new]"
      "ev_event_type new = signal_event_type (sig_signal_type sg)"
      "snd (?d (?k, a)) = Inr () \<or> False \<and> ra_continued_as a1 \<noteq> None"
    have "ra_run_id a1 = Some run" "ra_last_projection a1 = Some p"
      using id by (subst c(2), simp add: signal_received_def)+
    then have "actor_query a1 = Inr p" using g(3) by (simp add: actor_query_def)
    then show ?thesis using c k' sg(1) by simp
  qed (use k' in auto)
  then show ?thesis
    using other g' by (auto simp: stream_events_def sv_load query_projection_def split: sum.splits)
qed

end

section \<open>Over the SQLite log\<close>

text \<open>The services of a local kernel over a database file; a recovery gate does not write the log.\<close>

definition sqlite_services ::
  "('w \<Rightarrow> recovery_input \<Rightarrow> 'w \<times> recovery_decision result) \<Rightarrow> (event_connection, 's, 'w) actor_services
     \<Rightarrow> (event_connection, 's, 'w) actor_services" where
  "sqlite_services gate sv =
     sv\<lparr>sv_append := sqe_append_action_commit, sv_load := (\<lambda>c. select_events (cn_tables c)),
        sv_projection := (sv_projection sv)\<lparr>pc_event_schema_migrator := None\<rparr>,
        sv_decide := (\<lambda>l w x. case gate w x of (w', r) \<Rightarrow> ((l, w'), r))\<rparr>"

interpretation srun: shared_log sqe_append_action_commit "\<lambda>c. select_events (cn_tables c)" sqe_invar "\<lambda>_ _ _. True"
  "sqlite_services gate sv" for gate sv
  by unfold_locales (auto simp: sqlite_services_def split: prod.splits)

text \<open>A gateway after any calls since it was opened over an empty database.\<close>

definition gateway_reachable ::
  "gateway_config \<Rightarrow> (event_connection, 's, 'w) actor_services \<Rightarrow> bool list \<Rightarrow> ('s, 'w) turn_world
     \<Rightarrow> (event_connection, 's, 'w) local_gateway \<Rightarrow> bool" where
  "gateway_reachable cfg sv faults tw g \<longleftrightarrow>
     (gateway_step cfg sv)\<^sup>*\<^sup>* (LocalWorkflowGateway
        \<lparr>kn_log = connect initialize_schema faults, kn_projections = [], kn_deduper = [], kn_turn = tw\<rparr>) g"

lemma srun_reachable_ok:
  "gateway_reachable cfg (sqlite_services gate sv) faults tw g \<Longrightarrow> srun.gateway_ok gate sv g"
  unfolding gateway_reachable_def
  by (erule srun.gateway_reachable_ok [rotated 2])
    (simp_all add: sqe_invar_def connect_def idle_def select_events_def initialize_schema_def
      tables_ok_initial [unfolded initialize_schema_def])


text \<open>A gateway that has started one run.\<close>

definition sample_gateway_config :: gateway_config where
  "sample_gateway_config = \<lparr>gc_workflow_id_prefix = ''run'', gc_max_cache_size = 5000\<rparr>"

definition sample_sqlite_services :: "(event_connection, dedupe_mem, unit) actor_services" where
  "sample_sqlite_services =
     \<lparr>sv_append = sqe_append_action_commit, sv_load = (\<lambda>c. select_events (cn_tables c)),
      sv_projection = \<lparr>pc_reject_derived_diagnostic = True, pc_event_schema_migrator = None,
        pc_target_event_schema_version = None\<rparr>,
      sv_engine = sample_engine, sv_decide = (\<lambda>l w x. case sample_run_gate w x of (w', r) \<Rightarrow> ((l, w'), r)),
      sv_on_action_success = None, sv_write_intent = None, sv_write_outcome = None,
      sv_history_event_threshold = 10000, sv_workflow_id_prefix = ''agent-kernel''\<rparr>"

definition sample_start_request :: "string \<Rightarrow> start_run_request" where
  "sample_start_request run_kind =
     \<lparr>srq_initiator = ''user'', srq_run_kind = run_kind, srq_session_id = None, srq_input_ref = None,
      srq_input_json = None, srq_context_ref = None, srq_parent_run_id = None, srq_trace_context = None,
      srq_task_contract_ref = None, srq_initial_stage_id = None, srq_route_policy_version = None,
      srq_skill_policy_version = None, srq_evaluation_policy_version = None, srq_task_view_policy_version = None\<rparr>"

definition sample_gateway :: "(event_connection, dedupe_mem, unit) local_gateway" where
  "sample_gateway = fst (start_workflow sample_gateway_config (sqlite_services sample_run_gate sample_sqlite_services)
     (sample_start_request ''r1'') (LocalWorkflowGateway
       \<lparr>kn_log = connect initialize_schema [], kn_projections = [], kn_deduper = [], kn_turn = sample_turn_world\<rparr>))"

definition sample_signal_request :: "string \<Rightarrow> signal_run_request" where
  "sample_signal_request t = \<lparr>gq_run_id = ''r1'', gq_signal_type = t, gq_signal_payload = None, gq_caused_by = Some ''user-1''\<rparr>"

lemma sample_gateway_reachable:
  "gateway_reachable sample_gateway_config (sqlite_services sample_run_gate sample_sqlite_services) []
     sample_turn_world sample_gateway"
  unfolding gateway_reachable_def sample_gateway_def
  by (rule r_into_rtranclp, rule gateway_step.start [OF prod.collapse [symmetric]])

lemma sample_gateway_actor: "map (\<lambda>(r, a). (r, ra_seen_signal_tokens a)) (gw_workflows sample_gateway) = [(''r1'', [])]"
  by code_simp


section \<open>Handler turns run once\<close>

text \<open>The key of a recorded turn leaves the cache only after as many other turns as the cache holds.\<close>

definition cached_turn :: "string \<Rightarrow> turn_result \<Rightarrow> nat \<Rightarrow> (string, turn_result) dict \<Rightarrow> bool" where
  "cached_turn key r n cache \<longleftrightarrow> distinct (map fst cache) \<and> (\<exists>xs ys. cache = xs @ (key, r) # ys \<and> length ys \<le> n)"

lemma cached_turn_get: "cached_turn key r n cache \<Longrightarrow> dict_get cache key = Some r"
  unfolding cached_turn_def dict_get_def
  by (metis in_set_conv_decomp map_of_eq_Some_iff)

lemma dict_pop_head: "fst x \<notin> fst ` set xs \<Longrightarrow> dict_pop (fst x) (x # xs) = xs"
  by (cases x) (simp add: dict_pop_def AList.delete_idem)

lemma dict_set_new: "dict_get d k = None \<Longrightarrow> dict_set k v d = d @ [(k, v)]"
  by (induction d) (auto simp: dict_set_def dict_get_def split: if_splits)

lemma cached_turn_record_new:
  assumes "distinct (map fst cache)" "dict_get cache key = None" "0 < gc_max_cache_size cfg"
  shows "cached_turn key (handler_turn_result key out) 0 (record_turn_result cfg key out cache)"
proof -
  have new: "dict_set key (handler_turn_result key out) cache = cache @ [(key, handler_turn_result key out)]"
    by (rule dict_set_new [OF assms(2)])
  have k: "key \<notin> set (map fst cache)" using assms(2) by (simp add: dict_get_def map_of_eq_None_iff)
  show ?thesis
  proof (cases cache)
    case Nil
    then show ?thesis using new assms(3) by (simp add: record_turn_result_def cached_turn_def)
  next
    case (Cons x xs)
    have "dict_pop (fst x) (cache @ [(key, handler_turn_result key out)]) = xs @ [(key, handler_turn_result key out)]"
      unfolding Cons append_Cons by (rule dict_pop_head) (use Cons assms(1) k in auto)
    then show ?thesis
      using new Cons assms(1) k by (cases x) (auto simp: record_turn_result_def cached_turn_def Let_def)
  qed
qed

lemma cached_turn_record_other:
  assumes c: "cached_turn key r n cache" and k: "dict_get cache k = None" and n: "int n + 1 < gc_max_cache_size cfg"
  shows "cached_turn key r (Suc n) (record_turn_result cfg k out cache)"
proof -
  obtain xs ys where cache: "cache = xs @ (key, r) # ys" "length ys \<le> n" and d: "distinct (map fst cache)"
    using c by (auto simp: cached_turn_def)
  let ?new = "(k, handler_turn_result k out)"
  have k': "k \<notin> set (map fst cache)" using k by (simp add: dict_get_def map_of_eq_None_iff)
  have set: "dict_set k (handler_turn_result k out) cache = cache @ [?new]" by (rule dict_set_new [OF k])
  show ?thesis
  proof (cases "int (length (cache @ [?new])) > gc_max_cache_size cfg")
    case True
    then obtain x xs' where xs: "xs = x # xs'" using cache n by (cases xs) auto
    have "dict_pop (fst x) (cache @ [?new]) = xs' @ (key, r) # ys @ [?new]"
      unfolding cache(1) xs append_Cons append_assoc by (rule dict_pop_head) (use d k' in \<open>auto simp: cache(1) xs\<close>)
    then have "record_turn_result cfg k out cache = xs' @ (key, r) # ys @ [?new]"
      using True set by (cases x) (simp add: record_turn_result_def cache(1) xs Let_def)
    moreover have "distinct (map fst (xs' @ (key, r) # ys @ [?new]))" using d k' by (auto simp: cache(1) xs)
    ultimately show ?thesis using cache(2) unfolding cached_turn_def
      by (intro conjI exI [of _ xs'] exI [of _ "ys @ [?new]"]) simp_all
  next
    case False
    then have "record_turn_result cfg k out cache = xs @ (key, r) # ys @ [?new]"
      using set by (simp add: record_turn_result_def cache(1) Let_def)
    moreover have "distinct (map fst (xs @ (key, r) # ys @ [?new]))" using d k' by (auto simp: cache(1))
    ultimately show ?thesis using cache(2) unfolding cached_turn_def
      by (intro conjI exI [of _ xs] exI [of _ "ys @ [?new]"]) simp_all
  qed
qed

text \<open>A sequence of turns, each by its own handler.\<close>

fun execute_turns ::
  "gateway_config \<Rightarrow> ((action \<Rightarrow> (('l, 's, 'w) local_gateway, json) act) \<times> action \<times> string) list
     \<Rightarrow> ('l, 's, 'w) local_gateway \<Rightarrow> ('l, 's, 'w) local_gateway" where
  "execute_turns cfg [] g = g"
| "execute_turns cfg ((handler, a, key) # turns) g = execute_turns cfg turns (fst (execute_turn cfg handler a key g))"

lemma handler_local_cache:
  "handler_local handler \<Longrightarrow> gw_execute_turn_cache (fst (handler a g)) = gw_execute_turn_cache g"
  unfolding handler_local_def by (metis local_gateway.select_convs(4) local_gateway.surjective local_gateway.update_convs(1))

lemma execute_turn_cache:
  assumes "handler_local handler" "execute_turn cfg handler a key g = (g', res)"
  shows "gw_execute_turn_cache g' = gw_execute_turn_cache g \<or>
    dict_get (gw_execute_turn_cache g) key = None \<and>
    (\<exists>out. gw_execute_turn_cache g' = record_turn_result cfg key out (gw_execute_turn_cache g))"
    and "res = Inr r \<Longrightarrow> dict_get (gw_execute_turn_cache g) key = None \<Longrightarrow> \<exists>out. r = handler_turn_result key out
      \<and> gw_execute_turn_cache g' = record_turn_result cfg key out (gw_execute_turn_cache g)"
proof -
  obtain g1 r1 where h: "handler a g = (g1, r1)" by fastforce
  then have "gw_execute_turn_cache g1 = gw_execute_turn_cache g" using handler_local_cache [OF assms(1), of a g] by simp
  then show "gw_execute_turn_cache g' = gw_execute_turn_cache g \<or>
    dict_get (gw_execute_turn_cache g) key = None \<and>
    (\<exists>out. gw_execute_turn_cache g' = record_turn_result cfg key out (gw_execute_turn_cache g))"
    "res = Inr r \<Longrightarrow> dict_get (gw_execute_turn_cache g) key = None \<Longrightarrow> \<exists>out. r = handler_turn_result key out
      \<and> gw_execute_turn_cache g' = record_turn_result cfg key out (gw_execute_turn_cache g)"
    using assms(2) h by (cases r1; auto simp: execute_turn_def split: option.splits)+
qed

lemma execute_turns_cached:
  assumes "\<forall>(handler, a, k) \<in> set turns. handler_local handler"
    "cached_turn key r n (gw_execute_turn_cache g)" "int n + int (length turns) < gc_max_cache_size cfg"
  shows "cached_turn key r (n + length turns) (gw_execute_turn_cache (execute_turns cfg turns g))"
  using assms
proof (induction turns arbitrary: n g)
  case (Cons t turns)
  obtain handler a k where t: "t = (handler, a, k)" by (rule prod_cases3)
  obtain g' res where g': "execute_turn cfg handler a k g = (g', res)" by fastforce
  have h: "handler_local handler" using Cons.prems(1) t by simp
  have "cached_turn key r (Suc n) (gw_execute_turn_cache g')"
    using execute_turn_cache(1) [OF h g']
  proof (elim disjE conjE exE)
    assume "gw_execute_turn_cache g' = gw_execute_turn_cache g"
    then show ?thesis using Cons.prems(2) by (auto simp: cached_turn_def intro: le_SucI)
  next
    fix out
    assume "dict_get (gw_execute_turn_cache g) k = None"
      "gw_execute_turn_cache g' = record_turn_result cfg k out (gw_execute_turn_cache g)"
    then show ?thesis using cached_turn_record_other [OF Cons.prems(2)] Cons.prems(3) by simp
  qed
  from Cons.IH [OF _ this] show ?case using Cons.prems g' t by simp
qed simp

lemma record_turn_distinct: "distinct (map fst cache) \<Longrightarrow> distinct (map fst (record_turn_result cfg key out cache))"
  using distinct_update [of cache key "handler_turn_result key out"] distinct_delete
  by (fastforce simp: record_turn_result_def Let_def dict_pop_def dict_set_def split: list.split)

lemma execute_turns_distinct:
  "\<forall>(handler, a, k) \<in> set turns. handler_local handler \<Longrightarrow> distinct (map fst (gw_execute_turn_cache g)) \<Longrightarrow>
     distinct (map fst (gw_execute_turn_cache (execute_turns cfg turns g)))"
proof (induction turns arbitrary: g)
  case (Cons t turns)
  obtain handler a k where t: "t = (handler, a, k)" by (rule prod_cases3)
  obtain g' res where g': "execute_turn cfg handler a k g = (g', res)" by fastforce
  have "distinct (map fst (gw_execute_turn_cache g'))"
    using execute_turn_cache(1) [OF _ g'] Cons.prems record_turn_distinct by (auto simp: t)
  from Cons.IH [OF _ this] show ?case using Cons.prems g' t by simp
qed simp

text \<open>
  C17 (safety): a turn that was executed under an idempotency key is not executed again.  A later
  call with the key returns the recorded result, runs no handler and changes nothing, as long as
  fewer other turns were executed in between than the cache holds.
\<close>

theorem execute_turn_once:
  assumes "\<forall>(h, a, k) \<in> set before. handler_local h" "\<forall>(h, a, k) \<in> set turns. handler_local h" "handler_local handler"
    and "g = execute_turns cfg before (LocalWorkflowGateway k0)"
    and "dict_get (gw_execute_turn_cache g) key = None" "execute_turn cfg handler a key g = (g', Inr r)"
    and "int (length turns) < gc_max_cache_size cfg"
  shows "execute_turn cfg handler' a' key (execute_turns cfg turns g') = (execute_turns cfg turns g', Inr r)"
proof -
  have d: "distinct (map fst (gw_execute_turn_cache g))"
    using execute_turns_distinct [OF assms(1)] assms(4) by (simp add: LocalWorkflowGateway_def)
  obtain out where out: "r = handler_turn_result key out"
    "gw_execute_turn_cache g' = record_turn_result cfg key out (gw_execute_turn_cache g)"
    using execute_turn_cache(2) [OF assms(3,6) refl assms(5)] by blast
  have "0 < gc_max_cache_size cfg" using assms(7) by simp
  then have "cached_turn key r 0 (gw_execute_turn_cache g')"
    using cached_turn_record_new [OF d assms(5)] out by simp
  from cached_turn_get [OF execute_turns_cached [OF assms(2) this]] assms(7) show ?thesis
    by (simp add: execute_turn_def)
qed

text \<open>
  A second call that starts while the first one awaits its handler finds no entry and runs its
  handler as well: the check and the record are on different sides of the await.
\<close>

definition interleaved_turns ::
  "gateway_config \<Rightarrow> (action \<Rightarrow> (('l, 's, 'w) local_gateway, json) act) \<Rightarrow> action \<Rightarrow> string
     \<Rightarrow> (('l, 's, 'w) local_gateway, turn_result \<times> turn_result) act" where
  "interleaved_turns cfg handler a key =
     bind_act (handler a) (\<lambda>out1.
     bind_act (execute_turn cfg handler a key) (\<lambda>second.
     bind_act (modify_act (\<lambda>g. g\<lparr>gw_execute_turn_cache := record_turn_result cfg key out1 (gw_execute_turn_cache g)\<rparr>)) (\<lambda>_.
     return_act (handler_turn_result key out1, second))))"

lemma concurrent_turns_both_run:
  assumes "dict_get (gw_execute_turn_cache g) key = None"
    "\<And>g. handler a g = (g\<lparr>gw_kernel := f (gw_kernel g)\<rparr>, Inr out)"
  shows "gw_kernel (fst (interleaved_turns cfg handler a key g)) = f (f (gw_kernel g))"
  using assms by (simp add: interleaved_turns_def execute_turn_def bind_act_def)

section \<open>Child runs\<close>

text \<open>
  The id the caller gives a child is put into the input under the key \<^verbatim>\<open>child_run_id\<close>, and the run id
  is read from the key \<^verbatim>\<open>run_id\<close>: a child of a kind always gets the id parent:kind, and a second
  child of the kind is refused.
\<close>

lemma child_run_id_ignored:
  assumes "parent \<noteq> []" "\<And>d. pq_input_json request = Some d \<Longrightarrow> dict_get d ''run_id'' = None"
  shows "resolve_run_id (child_start_request parent request) = parent @ '':'' @ pq_child_kind request"
  using assms
  by (auto simp: resolve_run_id_def child_start_request_def Let_def jget_def truthy_def split: option.splits json.splits)

text \<open>A turn with a handler that counts its runs in the world of the turns.\<close>

definition sample_handler :: "action \<Rightarrow> (('l, 's, nat) local_gateway, json) act" where
  "sample_handler a g =
     (g\<lparr>gw_kernel := (gw_kernel g)\<lparr>kn_turn := (kn_turn (gw_kernel g))\<lparr>tw_env := Suc (tw_env (kn_turn (gw_kernel g)))\<rparr>\<rparr>\<rparr>,
      Inr (JInt (int (tw_env (kn_turn (gw_kernel g))))))"

definition sample_turn_gateway :: "(event_connection, dedupe_mem, nat) local_gateway" where
  "sample_turn_gateway = LocalWorkflowGateway
     \<lparr>kn_log = connect initialize_schema [], kn_projections = [], kn_deduper = [],
      kn_turn = \<lparr>tw_store = [], tw_env = 0, tw_calls = []\<rparr>\<rparr>"

lemma sample_handler_local: "handler_local sample_handler"
  unfolding handler_local_def sample_handler_def by (intro allI exI) simp

definition sample_turned :: "(event_connection, dedupe_mem, nat) local_gateway" where
  "sample_turned = fst (execute_turn sample_gateway_config sample_handler (sample_action ''a1'' READ_ONLY) ''k1'' sample_turn_gateway)"

lemma sample_turned_run:
  "execute_turn sample_gateway_config sample_handler (sample_action ''a1'' READ_ONLY) ''k1'' sample_turn_gateway =
     (sample_turned, Inr (handler_turn_result ''k1'' (JInt 0)))"
  by (simp add: sample_turned_def execute_turn_def sample_turn_gateway_def LocalWorkflowGateway_def dict_get_def sample_handler_def
      bind_act_def)

theorem execute_turn_once_witness:
  "execute_turn sample_gateway_config sample_handler (sample_action ''a1'' READ_ONLY) ''k1''
      (execute_turns sample_gateway_config [(sample_handler, sample_action ''a2'' READ_ONLY, ''k2'')] sample_turned) =
    (execute_turns sample_gateway_config [(sample_handler, sample_action ''a2'' READ_ONLY, ''k2'')] sample_turned,
     Inr (handler_turn_result ''k1'' (JInt 0)))"
  by (rule execute_turn_once [where before = "[]" and handler = sample_handler and g = sample_turn_gateway,
        OF _ _ sample_handler_local _ _ sample_turned_run])
    (simp_all add: sample_handler_local sample_turn_gateway_def LocalWorkflowGateway_def dict_get_def sample_gateway_config_def)

end
