(* ===== verification/Facade_Guarantees.thy ===== *)
theory Facade_Guarantees
  imports Kernel_Facade Local_Gateway "HOL-Library.Multiset"
begin

text \<open>
  What the facade promises: operations under the guard are refused while the kernel drains and leave
  the count of operations in flight as it was, an approval is sent at most once, and two instances
  over one log show the same branches and stages.  The last is proved against the laws of the
  world behind the ports, and these laws are discharged for the local gateway over the SQLite log.
\<close>

section \<open>Draining\<close>

text \<open>The parts of the facade's state that a run of an operation does not touch.\<close>

lemma fa_act_simps [simp]:
  "fa_modify f (g, fa) = ((g, f fa), Inr ())" "fa_read h (g, fa) = ((g, fa), Inr (h fa))"
  "fa_act m (g, fa) = ((g, fst (m fa)), snd (m fa))"
  by (simp_all add: fa_modify_def fa_read_def fa_act_def split_beta)

lemma evict_runs_fields [simp]:
  "fa_in_flight_count (evict_runs m fa) = fa_in_flight_count fa" "fa_draining (evict_runs m fa) = fa_draining fa"
proof (induction m fa rule: evict_runs.induct)
  case (1 m fa)
  have e: "fa_in_flight_count (evict_oldest_run fa) = fa_in_flight_count fa" "fa_draining (evict_oldest_run fa) = fa_draining fa"
    by (simp_all add: evict_oldest_run_def purge_run_state_def split: list.split)
  case 1
  show ?case using "1.IH"(1) e by (subst evict_runs.simps) simp
  case 2
  show ?case using "1.IH"(2) e by (subst evict_runs.simps) simp
qed

lemma touch_run_fields [simp]:
  "fa_in_flight_count (touch_run m r fa) = fa_in_flight_count fa" "fa_draining (touch_run m r fa) = fa_draining fa"
  by (simp_all add: touch_run_def)

definition in_flight :: "int \<Rightarrow> 'g facade \<Rightarrow> bool" where
  "in_flight n st \<longleftrightarrow> fa_in_flight_count (snd st) = n"

lemma in_flight_on_fst [preserves_intros]: "preserves (in_flight n) (on_fst m)"
  by (rule preserves_on_fst) (simp add: preserves_def in_flight_def)

lemma in_flight_modify:
  "(\<And>fa. fa_in_flight_count (f fa) = fa_in_flight_count fa) \<Longrightarrow> preserves (in_flight n) (fa_modify f)"
  unfolding fa_modify_def by (rule preserves_modify) (auto simp: in_flight_def)

lemma in_flight_read [preserves_intros]: "preserves (in_flight n) (fa_read f)"
  unfolding fa_read_def by (rule preserves_pure(3))

lemma in_flight_send [preserves_intros]: "preserves (in_flight n) (send_signal pt r t p c)"
  unfolding send_signal_def by (rule in_flight_on_fst)

lemma in_flight_trace [preserves_intros]: "preserves (in_flight n) (append_trace_event pt r t p)"
  unfolding append_trace_event_def by (intro preserves_intros)

lemma guard_in_flight:
  assumes "preserves (in_flight (fa_in_flight_count (snd st) + 1)) body" "preserves (in_flight (fa_in_flight_count (snd st))) body"
    and "0 \<le> fa_in_flight_count (snd st)"
  shows "fa_in_flight_count (snd (fst (guard_write_operation cfg op body st))) = fa_in_flight_count (snd st)"
  using preserves_run [OF assms(1), of "(fst st, drain_enter (snd st))"] preserves_run [OF assms(2), of st] assms(3)
  by (auto simp: guard_write_operation_def in_flight_def drain_enter_def drain_exit_def split: prod.splits)

lemma submit_approval_in_flight:
  "0 \<le> fa_in_flight_count (snd st) \<Longrightarrow>
     fa_in_flight_count (snd (fst (submit_approval cfg pt request st))) = fa_in_flight_count (snd st)"
  unfolding submit_approval_def
  by (rule guard_in_flight) (intro in_flight_modify preserves_intros; simp add: register_approval_def)+

text \<open>
  C15 (invariant): while the kernel drains, a turn and an approval are refused and change nothing;
  otherwise, whether the operation returns or raises, the count of operations in flight is
  afterwards what it was before, so that a drain waits for no operation that has ended.
\<close>

theorem guarded_operations_balance:
  assumes "0 \<le> fa_in_flight_count (snd st)"
  shows "fa_in_flight_count (snd (fst (facade_execute_turn cfg pt run a handler key st))) = fa_in_flight_count (snd st)
    \<and> fa_in_flight_count (snd (fst (submit_approval cfg pt request st))) = fa_in_flight_count (snd st)
    \<and> (fa_draining (snd st) \<longrightarrow>
         facade_execute_turn cfg pt run a handler key st =
           (st, Inl (RuntimeError (''Kernel is draining; '' @ repr_str ''execute_turn'' @ '' is temporarily unavailable.'')))
         \<and> submit_approval cfg pt request st =
           (st, Inl (RuntimeError (''Kernel is draining; '' @ repr_str ''submit_approval'' @ '' is temporarily unavailable.''))))"
proof (intro conjI impI)
  show "fa_in_flight_count (snd (fst (facade_execute_turn cfg pt run a handler key st))) = fa_in_flight_count (snd st)"
    unfolding facade_execute_turn_def by (rule guard_in_flight [OF _ _ assms]) (intro preserves_intros)+
  show "fa_in_flight_count (snd (fst (submit_approval cfg pt request st))) = fa_in_flight_count (snd st)"
    by (rule submit_approval_in_flight [OF assms])
qed (simp_all add: facade_execute_turn_def submit_approval_def guard_write_operation_def)

text \<open>The other operations that change a run are accepted while the kernel drains.\<close>

lemma draining_start_accepted:
  assumes "fp_start_workflow pt request g = (g1, Inr w)" "fp_now pt g1 = (g2, Inr now)" "fa_context_adapter fa = None"
  shows "snd (start_run cfg pt request (g, fa\<lparr>fa_draining := True\<rparr>)) =
    Inr \<lparr>sp_run_id = workflow_run_id w, sp_temporal_workflow_id = dict_get_or w ''workflow_id'' '''', sp_lifecycle_state = Created\<rparr>"
  using assms
  by (simp add: start_run_def bind_session_context_def record_created_def on_fst_def bind_act_def)

section \<open>Approvals\<close>

text \<open>Eviction spares the run that was tracked last.\<close>

lemma evict_runs_last:
  assumes "1 \<le> m" "fa_tracked_run_order fa = rs @ [r]" "distinct (rs @ [r])" "distinct (fa_tracked_run_set fa)"
    "set (fa_tracked_run_set fa) = set (rs @ [r])"
  shows "r \<in> set (fa_tracked_run_set (evict_runs m fa))"
  using assms
proof (induction rs arbitrary: fa)
  case Nil
  then have "length (fa_tracked_run_set fa) = 1" using distinct_card [of "fa_tracked_run_set fa"] by simp
  then show ?case using Nil by (simp add: evict_runs.simps)
next
  case (Cons x rs)
  show ?case
  proof (cases "length (fa_tracked_run_set fa) > m")
    case True
    have "r \<in> set (fa_tracked_run_set (evict_runs m (evict_oldest_run fa)))"
      by (rule Cons.IH) (use Cons.prems in \<open>auto simp: evict_oldest_run_def\<close>)
    then show ?thesis using True Cons.prems(2) by (subst evict_runs.simps) simp
  next
    case False
    then show ?thesis using Cons.prems by (subst evict_runs.simps) auto
  qed
qed

lemma touch_run_tracked: "1 \<le> m \<Longrightarrow> tracked_ok m fa \<Longrightarrow> r \<in> set (fa_tracked_run_set (touch_run m r fa))"
proof (cases "r \<in> set (fa_tracked_run_set fa)")
  case False
  assume m: "1 \<le> m" and ok: "tracked_ok m fa"
  have "r \<in> set (fa_tracked_run_set (evict_runs m (fa\<lparr>fa_tracked_run_set := fa_tracked_run_set fa @ [r],
      fa_tracked_run_order := fa_tracked_run_order fa @ [r]\<rparr>)))"
    by (rule evict_runs_last [OF m, of _ "fa_tracked_run_order fa"]) (use ok False in \<open>auto simp: tracked_ok_def\<close>)
  then show ?thesis using False by (simp add: touch_run_def)
qed (simp add: touch_run_def)

lemma touch_run_again: "r \<in> set (fa_tracked_run_set fa) \<Longrightarrow> touch_run m r fa = fa"
  by (simp add: touch_run_def)

text \<open>What stays of a submitted approval: the run is tracked and the approval is marked as sent.\<close>

definition approval_marked :: "string \<Rightarrow> string \<Rightarrow> 'g facade \<Rightarrow> bool" where
  "approval_marked run ref st \<longleftrightarrow> run \<in> set (fa_tracked_run_set (snd st)) \<and> (run, ref) \<in> set (fa_submitted_approvals (snd st))"

lemma approval_marked_on_fst [preserves_intros]: "preserves (approval_marked run ref) (on_fst m)"
  by (rule preserves_on_fst) (simp add: preserves_def approval_marked_def)

lemma approval_marked_sends [preserves_intros]:
  "preserves (approval_marked run ref) (send_signal pt r t p c)"
  "preserves (approval_marked run ref) (append_trace_event pt r t q)"
  unfolding send_signal_def append_trace_event_def by (intro preserves_intros)+

lemma approval_marks:
  assumes "1 \<le> fc_max_tracked_runs cfg" "tracked_ok (fc_max_tracked_runs cfg) (snd st)" "\<not> fa_draining (snd st)"
  shows "approval_marked (aq_run_id request) (aq_approval_ref request) (fst (submit_approval cfg pt request st))"
proof -
  let ?P = "approval_marked (aq_run_id request) (aq_approval_ref request)"
  let ?m = "fc_max_tracked_runs cfg" and ?r = "aq_run_id request"
  obtain g fa where st: "st = (g, fa)" by (rule prod.exhaust)
  define body where "body = (bind_act (fa_modify (touch_run ?m ?r)) (\<lambda>_.
        bind_act (fa_read (\<lambda>fa. (?r, aq_approval_ref request) \<in> set (fa_submitted_approvals fa))) (\<lambda>duplicate.
        if duplicate then return_act ()
        else
          bind_act (fa_modify (register_approval request)) (\<lambda>_.
          bind_act (send_signal pt ?r ''approval_submitted''
            (Some ([(''approval_ref'', JStr (aq_approval_ref request)), (''approved'', JBool (aq_approved request)),
                    (''reviewer_id'', JStr (aq_reviewer_id request)), (''reason'', json_opt (aq_reason request))] @
               build_signal_observability ''submit_approval'' ?r (aq_caused_by request)))
            (or_else (aq_caused_by request) (Some (''approval:'' @ aq_approval_ref request)))) (\<lambda>_.
          append_trace_event pt ?r ''trace.human_gate_resolved''
            [(''gate_ref'', JStr (aq_approval_ref request)), (''approved'', JBool (aq_approved request))])))))"
  have body: "?P (fst (body (g', fa')))" if "tracked_ok ?m fa'" for g' fa'
  proof (cases "(?r, aq_approval_ref request) \<in> set (fa_submitted_approvals (touch_run ?m ?r fa'))")
    case True
    then show ?thesis
      using touch_run_tracked [OF assms(1) that] by (simp add: body_def approval_marked_def)
  next
    case False
    have "?P (g', register_approval request (touch_run ?m ?r fa'))"
      using touch_run_tracked [OF assms(1) that]
      by (auto simp: approval_marked_def register_approval_def set_add_def)
    then show ?thesis
      unfolding body_def using False
      by (simp add: preserves_run [OF preserves_bind [OF approval_marked_sends(1) approval_marked_sends(2)]])
  qed
  have run: "submit_approval cfg pt request = guard_write_operation cfg ''submit_approval'' body"
    by (simp add: submit_approval_def body_def)
  have "tracked_ok ?m (drain_enter fa)" using assms(2) st by (simp add: drain_enter_def tracked_ok_def)
  then show ?thesis
    using assms(2,3) body [of fa g] body [of "drain_enter fa" g] st
    by (auto simp: run guard_write_operation_def approval_marked_def drain_exit_def split: prod.splits)
qed


section \<open>Two instances over one log\<close>

text \<open>A payload is stored with its keys in some order; texts and \<^verbatim>\<open>None\<close> read back as they were.\<close>

lemma json_sort_json_opt: "json_sort v = json_opt x \<Longrightarrow> v = json_opt x"
  by (cases v; cases x) (auto simp: json_opt_def)

lemma same_payload_fields:
  assumes "same_payload (Some d) p" "distinct (map fst d)"
  obtains d' where "p = Some d'" "\<And>k x. dict_get d k = Some (json_opt x) \<Longrightarrow> dict_get d' k = Some (json_opt x)"
proof -
  obtain d' where p: "p = Some d'" and eq: "json_sort_dict d = json_sort_dict d'"
    using assms(1) by (cases p) (auto simp: same_payload_def)
  have keys: "mset (map fst (json_sort_dict x)) = mset (map fst x)" for x
    by (simp add: json_sort_dict_def comp_def case_prod_unfold multiset.map_comp)
  have "mset (map fst d') = mset (map fst d)" using keys [of d] keys [of d'] eq by simp
  then have d': "distinct (map fst d')" using assms(2) by (metis mset_eq_imp_distinct_iff)
  have eq': "map_option json_sort (dict_get d' k) = map_option json_sort (dict_get d k)" for k
    using dict_get_json_sort_dict [OF assms(2)] dict_get_json_sort_dict [OF d'] eq by metis
  have "dict_get d' k = Some (json_opt x)" if "dict_get d k = Some (json_opt x)" for k x
  proof -
    have "map_option json_sort (dict_get d' k) = Some (json_opt x)" using eq' [of k] that by simp
    then show ?thesis by (auto dest: json_sort_json_opt)
  qed
  with p show thesis using that by blast
qed

lemma json_opt_Some: "json_opt (Some s) = JStr s"
  by (simp add: json_opt_def)

text \<open>The facts the operations of the facade write.\<close>

lemma stored_event:
  assumes "same_event e e'" "ev_payload_json e = Some d" "distinct (map fst d)"
  obtains d' where "ev_payload_json e' = Some d'" "ev_event_type e' = ev_event_type e"
    "\<And>k x. dict_get d k = Some (json_opt x) \<Longrightarrow> dict_get d' k = Some (json_opt x)"
    "\<And>k s. dict_get d k = Some (JStr s) \<Longrightarrow> dict_get d' k = Some (JStr s)"
    "\<And>k x. dict_get d k = Some (json_opt x) \<Longrightarrow> jget d' k = json_opt x"
proof -
  obtain d' where d': "ev_payload_json e' = Some d'"
    "\<And>k x. dict_get d k = Some (json_opt x) \<Longrightarrow> dict_get d' k = Some (json_opt x)"
    using same_payload_fields [OF same_event_fields(4) [OF assms(1), unfolded assms(2)] assms(3)] by blast
  show thesis
    by (rule that [OF d'(1) same_event_fields(2) [OF assms(1)] d'(2)])
      (use d'(2) [where x = "Some _", unfolded json_opt_Some] d'(2) in \<open>auto simp: jget_def\<close>)
qed

definition trace_event :: "string \<Rightarrow> string \<Rightarrow> string \<Rightarrow> string \<Rightarrow> jdict \<Rightarrow> runtime_event" where
  "trace_event now event_uuid run_id event_type payload =
     hd (cm_events (trace_commit now event_uuid [] run_id event_type payload))"

lemma trace_commit_events [simp]:
  "cm_events (trace_commit now u c run_id t p) = [trace_event now u run_id t p]" "cm_run_id (trace_commit now u c run_id t p) = run_id"
  by (simp_all add: trace_event_def trace_commit_def)

lemma trace_event_simps [simp]:
  "ev_payload_json (trace_event now u r t p) = Some p" "ev_event_type (trace_event now u r t p) = t"
  "ev_event_authority (trace_event now u r t p) = Derived_replayable"
  by (simp_all add: trace_event_def trace_commit_def)

lemma branch_opened_fact:
  assumes "same_event (trace_event n u r ''trace.branch_opened''
      [(''branch_id'', JStr (ob_branch_id request)), (''stage_id'', JStr (ob_stage_id request)), (''state'', JStr ''active''),
       (''opened_at'', JStr now), (''parent_branch_id'', json_opt (ob_parent_branch_id request)),
       (''proposed_by'', json_opt (ob_proposed_by request))]) e"
  shows "states_fact e (BranchFact (Opened (ob_branch_id request) (new_branch_view request now)))"
  by (rule stored_event [OF assms trace_event_simps(1)], simp)
    (simp add: states_fact_def opened_branch_view_def require_field_def text_field_def dict_get_or_def new_branch_view_def
      dict_get_def)

lemma branch_changed_fact:
  assumes "same_event (trace_event n u r ''trace.branch_state_changed''
      [(''branch_id'', JStr i), (''new_state'', JStr s), (''failure_code'', json_opt f)]) e"
  shows "states_fact e (BranchFact (Changed i (branch_change s f)))"
  by (rule stored_event [OF assms trace_event_simps(1)], simp)
    (auto simp: states_fact_def dict_get_def)

lemma stage_opened_fact:
  assumes "same_event (trace_event n u r ''trace.stage_opened''
      [(''stage_id'', JStr i), (''state'', JStr ''active''), (''entered_at'', JStr now), (''branch_id'', json_opt b)]) e"
  shows "states_fact e (StageFact (Opened i (new_stage_view i now b)))"
  by (rule stored_event [OF assms trace_event_simps(1)], simp)
    (simp add: states_fact_def opened_stage_view_def require_field_def text_field_def dict_get_or_def new_stage_view_def
      dict_get_def)

lemma stage_changed_fact:
  assumes "same_event (trace_event n u r ''trace.stage_state_changed''
      [(''stage_id'', JStr i), (''new_state'', JStr s), (''exited_at'', json_opt x), (''failure_code'', json_opt f)]) e"
  shows "states_fact e (StageFact (Changed i (stage_change s x f)))"
  by (rule stored_event [OF assms trace_event_simps(1)], simp)
    (auto simp: states_fact_def dict_get_def)

lemma gate_facts:
  assumes "same_event (trace_event n u r t [(''gate_ref'', JStr g), (k, v)]) e" "k \<noteq> ''gate_ref''"
  shows "t = ''trace.human_gate_opened'' \<Longrightarrow> states_fact e (GateOpened g)"
    and "t = ''trace.human_gate_resolved'' \<Longrightarrow> states_fact e (GateResolved g)"
  by (rule stored_event [OF assms(1) trace_event_simps(1)], use assms(2) in simp, auto simp: states_fact_def dict_get_def)+

lemma escalation_fact:
  assumes "same_event (trace_event n u r ''trace.escalation_resolved'' p) e"
  shows "states_fact e NoFact"
  using same_event_fields(2) [OF assms] by (simp add: states_fact_def)

lemma facts_valid_snoc:
  "dict_wf d \<Longrightarrow> facts_valid (map fst d) fs \<Longrightarrow> facts_valid (map fst (fold reg_apply fs d)) [f] \<Longrightarrow>
     facts_valid (map fst d) (fs @ [f])"
proof (induction fs arbitrary: d)
  case (Cons g fs)
  show ?case
  proof (cases g)
    case (Opened i v)
    then have "dict_get d i = None" using Cons.prems by (simp add: dict_get_def map_of_eq_None_iff)
    then have "map fst (reg_apply g d) = map fst d @ [i]" by (simp add: Opened dict_keys_set dict_has_iff)
    then show ?thesis using Cons.IH [of "reg_apply g d"] Cons.prems reg_apply_wf [of d "[g]"] by (simp add: Opened)
  next
    case (Changed i c)
    then have "dict_has d i" using Cons.prems by (simp add: dict_has_def)
    then have "map fst (reg_apply g d) = map fst d" by (auto simp: Changed dict_keys_set split: option.split)
    then show ?thesis using Cons.IH [of "reg_apply g d"] Cons.prems reg_apply_wf [of d "[g]"] by (simp add: Changed)
  qed
qed simp

text \<open>The registries agree with one more fact when the facade applied it.\<close>

lemma fact_lists_snoc:
  "branch_facts (tfs @ [tf]) = branch_facts tfs @ (case tf of BranchFact f \<Rightarrow> [f] | _ \<Rightarrow> [])"
  "stage_facts (tfs @ [tf]) = stage_facts tfs @ (case tf of StageFact h \<Rightarrow> [h] | _ \<Rightarrow> [])"
  "gates_opened (tfs @ [tf]) = gates_opened tfs @ (case tf of GateOpened g \<Rightarrow> [g] | GateResolved g \<Rightarrow> [g] | _ \<Rightarrow> [])"
  "gates_resolved (tfs @ [tf]) = gates_resolved tfs @ (case tf of GateResolved g \<Rightarrow> [g] | _ \<Rightarrow> [])"
  by (cases tf; simp add: fact_lists map_filter_def)+

lemma registries_agree_snoc:
  assumes a: "registries_agree tfs rt"
  shows "facts_valid (map fst (rt_branches rt)) [f] \<Longrightarrow>
      registries_agree (tfs @ [BranchFact f]) (rt\<lparr>rt_branches := reg_apply f (rt_branches rt)\<rparr>)"
    and "facts_valid (map fst (rt_stages rt)) [h] \<Longrightarrow>
      registries_agree (tfs @ [StageFact h]) (rt\<lparr>rt_stages := reg_apply h (rt_stages rt)\<rparr>)"
    and "registries_agree (tfs @ [GateOpened g]) (rt\<lparr>rt_open := set_add g (rt_open rt)\<rparr>)"
    and "registries_agree (tfs @ [GateResolved g]) (rt\<lparr>rt_resolved := set_add g (rt_resolved rt)\<rparr>)"
    and "registries_agree (tfs @ [NoFact]) rt"
  using a facts_valid_snoc [of "[]" "branch_facts tfs" f] facts_valid_snoc [of "[]" "stage_facts tfs" h]
  by (auto simp: registries_agree_def fact_lists_snoc set_add_def)

text \<open>An event states one fact.\<close>

lemma states_fact_unique: "states_fact e a \<Longrightarrow> states_fact e b \<Longrightarrow> a = b"
  unfolding states_fact_def Let_def
  by (cases a rule: trace_fact.exhaust; cases b rule: trace_fact.exhaust; hypsubst)
    (auto split: reg_fact.splits)

lemma facts_unique: "list_all2 states_fact es tfs \<Longrightarrow> list_all2 states_fact es tfs' \<Longrightarrow> tfs = tfs'"
proof (induction arbitrary: tfs' rule: list_all2_induct)
  case (Cons e es tf tfs)
  then obtain t ts where "tfs' = t # ts" "states_fact e t" "list_all2 states_fact es ts" by (auto simp: list_all2_Cons1)
  then show ?case using Cons states_fact_unique [of e tf t] by auto
qed simp

lemma trace_of_touch: "room m r fa \<Longrightarrow> trace_of (touch_run m r fa) = trace_of fa"
  by (auto simp: touch_run_room trace_of_def fun_eq_iff)

text \<open>
  The work of one facade instance on any runs: they are started, spawned, signalled and cancelled,
  their projections and views read; branches and stages are opened once under their name and then
  marked, gates opened, approvals submitted, escalations resolved.  The operations on branches,
  stages and gates return, and no run is evicted.
\<close>

inductive facade_step :: "facade_config \<Rightarrow> 'g facade_ports \<Rightarrow> 'g facade \<Rightarrow> 'g facade \<Rightarrow> bool" for cfg pt where
  branch: "nested_get (fa_branch_registry (snd st)) (ob_run_id request) (ob_branch_id request) = None \<Longrightarrow>
    room (fc_max_tracked_runs cfg) (ob_run_id request) (snd st) \<Longrightarrow>
    open_branch cfg pt request st = (st', Inr ()) \<Longrightarrow> facade_step cfg pt st st'"
| mark_branch: "room (fc_max_tracked_runs cfg) (bu_run_id update_request) (snd st) \<Longrightarrow>
    mark_branch_state cfg pt update_request st = (st', Inr ()) \<Longrightarrow> facade_step cfg pt st st'"
| stage: "nested_get (fa_stage_registry (snd st)) run_id stage_id = None \<Longrightarrow>
    room (fc_max_tracked_runs cfg) run_id (snd st) \<Longrightarrow>
    open_stage cfg pt stage_id run_id branch_id st = (st', Inr ()) \<Longrightarrow> facade_step cfg pt st st'"
| mark_stage: "room (fc_max_tracked_runs cfg) run_id (snd st) \<Longrightarrow> failure_code \<noteq> Some [] \<Longrightarrow>
    mark_stage_state cfg pt run_id stage_id new_state failure_code st = (st', Inr ()) \<Longrightarrow> facade_step cfg pt st st'"
| gate: "room (fc_max_tracked_runs cfg) (hg_run_id gate_request) (snd st) \<Longrightarrow>
    open_human_gate cfg pt gate_request st = (st', Inr ()) \<Longrightarrow> facade_step cfg pt st st'"
| approve: "room (fc_max_tracked_runs cfg) (aq_run_id approval) (snd st) \<Longrightarrow>
    submit_approval cfg pt approval st = (st', Inr ()) \<Longrightarrow> facade_step cfg pt st st'"
| escalate: "room (fc_max_tracked_runs cfg) run_id (snd st) \<Longrightarrow>
    resolve_escalation cfg pt run_id note_text cause st = (st', Inr ()) \<Longrightarrow> facade_step cfg pt st st'"
| start: "start_run cfg pt start_request st = (st', start_res) \<Longrightarrow> facade_step cfg pt st st'"
| spawn: "spawn_child_run pt spawn_request st = (st', spawn_res) \<Longrightarrow> facade_step cfg pt st st'"
| cancel: "cancel_run pt cancel_request st = (st', cancel_res) \<Longrightarrow> facade_step cfg pt st st'"
| signal: "signal_run pt signal_request st = (st', res) \<Longrightarrow> facade_step cfg pt st st'"
| query: "query_run pt run_id st = (st', qres) \<Longrightarrow> facade_step cfg pt st st'"
| view: "query_trace_runtime pt run_id st = (st', Inr v) \<Longrightarrow> facade_step cfg pt st st'"

text \<open>
  The world behind the ports: appends and reads of the log, a gateway whose signals and queries add
  no trace event, a clock and a source of names.
\<close>

locale trace_world =
  fixes pt :: "'g facade_ports"
    and app :: "action_commit \<Rightarrow> ('g, string) act"
    and wlog :: "'g \<Rightarrow> string \<Rightarrow> runtime_event list"
    and winvar :: "'g \<Rightarrow> bool"
  assumes has_log: "fp_event_append pt = Some app"
    and append_invar: "winvar g \<Longrightarrow> last_authoritative (cm_events c) \<Longrightarrow> app c g = (g', res) \<Longrightarrow> winvar g'"
    and append_run: "winvar g \<Longrightarrow> app c g = (g', Inr ref) \<Longrightarrow>
      \<exists>new. wlog g' (cm_run_id c) = wlog g (cm_run_id c) @ new \<and> list_all2 same_event (cm_events c) new"
    and append_other: "winvar g \<Longrightarrow> app c g = (g', Inr ref) \<Longrightarrow> r \<noteq> cm_run_id c \<Longrightarrow> wlog g' r = wlog g r"
    and load_log: "winvar g \<Longrightarrow> fp_event_load pt r after g = (g', Inr es) \<Longrightarrow>
      g' = g \<and> (\<exists>before. wlog g r = before @ es)"
    and load_all: "winvar g \<Longrightarrow> fp_event_load pt r 0 g = (g', Inr es) \<Longrightarrow> es = wlog g r"
    and signal_traces: "winvar g \<Longrightarrow> fp_signal_workflow pt r rq g = (g', sres) \<Longrightarrow>
      winvar g' \<and> filter is_trace_event (wlog g' r') = filter is_trace_event (wlog g r')"
    and start_traces: "winvar g \<Longrightarrow> fp_start_workflow pt srq g = (g', wres) \<Longrightarrow>
      winvar g' \<and> filter is_trace_event (wlog g' r') = filter is_trace_event (wlog g r')"
    and child_traces: "winvar g \<Longrightarrow> fp_start_child_workflow pt parent crq g = (g', chres) \<Longrightarrow>
      winvar g' \<and> filter is_trace_event (wlog g' r') = filter is_trace_event (wlog g r')"
    and cancel_traces: "winvar g \<Longrightarrow> fp_cancel_workflow pt r reason g = (g', cres) \<Longrightarrow>
      winvar g' \<and> filter is_trace_event (wlog g' r') = filter is_trace_event (wlog g r')"
    and query_traces: "winvar g \<Longrightarrow> fp_query_projection pt r g = (g', qres) \<Longrightarrow> winvar g' \<and> wlog g' = wlog g"
    and now_traces: "winvar g \<Longrightarrow> fp_now pt g = (g', nres) \<Longrightarrow> winvar g' \<and> wlog g' = wlog g"
    and uuid_traces: "winvar g \<Longrightarrow> fp_uuid pt g = (g', ures) \<Longrightarrow> winvar g' \<and> wlog g' = wlog g"
begin

definition traces :: "'g \<Rightarrow> string \<Rightarrow> runtime_event list" where
  "traces g r = filter is_trace_event (wlog g r)"

definition consistent :: "'g facade \<Rightarrow> bool" where
  "consistent st \<longleftrightarrow> winvar (fst st) \<and> (\<forall>r. trace_consistent r (wlog (fst st) r) (snd st))"

lemma consistent_cong:
  "winvar g' \<Longrightarrow> (\<And>r. traces g' r = traces g r) \<Longrightarrow> (\<And>r. trace_of fa' r = trace_of fa r) \<Longrightarrow>
     consistent (g, fa) \<Longrightarrow> consistent (g', fa')"
  by (simp add: consistent_def trace_consistent_def traces_def)

lemma consistent_extend:
  assumes c: "consistent (g, fa)" and g': "winvar g'" "traces g' run = traces g run @ [e]" "\<And>r. r \<noteq> run \<Longrightarrow> traces g' r = traces g r"
    and e: "states_fact e tf" and fa': "\<And>tfs. registries_agree tfs (trace_of fa run) \<Longrightarrow> registries_agree (tfs @ [tf]) (trace_of fa' run)"
      "\<And>r. r \<noteq> run \<Longrightarrow> trace_of fa' r = trace_of fa r"
  shows "consistent (g', fa')"
  unfolding consistent_def fst_conv snd_conv
proof (intro conjI allI)
  fix r
  obtain tfs where tfs: "list_all2 states_fact (traces g r) tfs" "registries_agree tfs (trace_of fa r)"
    using c by (auto simp: consistent_def trace_consistent_def traces_def)
  show "trace_consistent r (wlog g' r) fa'"
  proof (cases "r = run")
    case True
    then have "list_all2 states_fact (traces g' r) (tfs @ [tf])"
      using tfs(1) e g'(2) by (simp add: list_all2_appendI)
    then show ?thesis using tfs(2) fa'(1) True by (auto simp: trace_consistent_def traces_def)
  next
    case False
    then show ?thesis using tfs g'(3) fa'(2) by (auto simp: trace_consistent_def traces_def)
  qed
qed (rule g'(1))

text \<open>A signal followed by the trace event of the operation.\<close>

lemma send_append:
  assumes g: "winvar g" and t: "startswith ty ''trace.''"
    and run: "bind_act (send_signal pt r st p c) (\<lambda>_. append_trace_event pt r ty pl) (g, fa) = ((g', fa'), Inr ())"
  obtains n u e where "fa' = fa" "winvar g'" "same_event (trace_event n u r ty pl) e" "traces g' r = traces g r @ [e]"
    "\<And>r'. r' \<noteq> r \<Longrightarrow> traces g' r' = traces g r'"
proof -
  obtain g1 where 1: "fp_signal_workflow pt r \<lparr>gq_run_id = r, gq_signal_type = st, gq_signal_payload = p, gq_caused_by = c\<rparr> g = (g1, Inr ())"
    "append_trace_event pt r ty pl (g1, fa) = ((g', fa'), Inr ())"
    using run by (auto elim!: bind_act_InrE simp: send_signal_def on_fst_def split: prod.splits)
  note s = signal_traces [OF g 1(1)]
  obtain g2 n g3 u g4 c ref where 2: "fp_now pt g1 = (g2, Inr n)" "fp_uuid pt g2 = (g3, Inr u)" "fp_uuid pt g3 = (g4, Inr c)"
    "app (trace_commit n u c r ty pl) g4 = (g', Inr ref)" "fa' = fa"
    using 1(2) unfolding append_trace_event_def has_log option.case
    by (auto elim!: bind_act_InrE simp: on_fst_def split: prod.splits)
  have w: "winvar g2" "winvar g3" "winvar g4" "wlog g4 = wlog g1"
    using now_traces [OF conjunct1 [OF s] 2(1)] uuid_traces [OF _ 2(2)] uuid_traces [OF _ 2(3)] by auto
  obtain new where new: "wlog g' r = wlog g4 r @ new" "list_all2 same_event [trace_event n u r ty pl] new"
    using append_run [OF w(3) 2(4)] by auto
  then obtain e where e: "new = [e]" "same_event (trace_event n u r ty pl) e" by (auto simp: list_all2_Cons1)
  have "is_trace_event e" using same_event_fields(2) [OF e(2)] t by (simp add: is_trace_event_def)
  then have "traces g' r = traces g r @ [e]" using new(1) e(1) w(4) s by (simp add: traces_def)
  moreover have "traces g' r' = traces g r'" if "r' \<noteq> r" for r'
    using append_other [OF w(3) 2(4)] that w(4) s by (simp add: traces_def)
  moreover have "winvar g'" using append_invar [OF w(3) _ 2(4)] by (simp add: last_authoritative_def)
  ultimately show thesis using that e(2) 2(5) by blast
qed

lemma touched: "consistent (g, fa) \<Longrightarrow> room m r fa \<Longrightarrow> consistent (g, touch_run m r fa)"
  by (rule consistent_cong [of g g _ fa]) (simp_all add: trace_of_touch consistent_def)

text \<open>An operation that registers a fact, sends its signal and logs its trace event.\<close>

lemma op_consistent:
  assumes c: "consistent (g, fa)" and g1: "winvar g1" "wlog g1 = wlog g" and t: "startswith ty ''trace.''"
    and run: "bind_act (send_signal pt r st p cause) (\<lambda>_. append_trace_event pt r ty pl) (g1, fa1) = ((g', fa'), Inr ())"
    and fact: "\<And>n u e. same_event (trace_event n u r ty pl) e \<Longrightarrow> states_fact e tf"
    and agree: "\<And>tfs. registries_agree tfs (trace_of fa r) \<Longrightarrow> registries_agree (tfs @ [tf]) (trace_of fa1 r)"
    and others: "\<And>r'. r' \<noteq> r \<Longrightarrow> trace_of fa1 r' = trace_of fa r'"
  shows "consistent (g', fa')"
proof -
  obtain n u e where e: "fa' = fa1" "winvar g'" "same_event (trace_event n u r ty pl) e" "traces g' r = traces g1 r @ [e]"
    "\<And>r'. r' \<noteq> r \<Longrightarrow> traces g' r' = traces g1 r'"
    by (rule send_append [OF g1(1) t run]) blast
  show ?thesis
    by (rule consistent_extend [OF c e(2) _ _ fact [OF e(3)]]) (use e g1(2) agree others in \<open>auto simp: traces_def\<close>)
qed

lemma known_key: "dict_get d i = Some v \<Longrightarrow> i \<in> set (map fst d)"
  by (metis dict_has_def dict_has_iff option.distinct(1))

lemma now_kept: "consistent (g, fa) \<Longrightarrow> fp_now pt g = (g1, nres) \<Longrightarrow> winvar g1 \<and> wlog g1 = wlog g"
  using now_traces by (auto simp: consistent_def)

lemma open_branch_consistent:
  assumes c: "consistent (g, fa)" and rm: "room (fc_max_tracked_runs cfg) (ob_run_id q) fa"
    and fresh: "nested_get (fa_branch_registry fa) (ob_run_id q) (ob_branch_id q) = None"
    and run: "open_branch cfg pt q (g, fa) = ((g', fa'), Inr ())"
  shows "consistent (g', fa')"
proof -
  let ?r = "ob_run_id q" and ?fa = "touch_run (fc_max_tracked_runs cfg) (ob_run_id q) fa"
  obtain g1 now where 1: "fp_now pt g = (g1, Inr now)" and
    2: "bind_act (send_signal pt ?r ''branch_opened''
       (Some [(''branch_id'', JStr (ob_branch_id q)), (''stage_id'', JStr (ob_stage_id q)),
              (''parent_branch_id'', json_opt (ob_parent_branch_id q)),
              (''proposed_by'', json_opt (ob_proposed_by q))]) (Some ''kernel_facade.open_branch'')) (\<lambda>_.
     append_trace_event pt ?r ''trace.branch_opened''
       [(''branch_id'', JStr (ob_branch_id q)), (''stage_id'', JStr (ob_stage_id q)), (''state'', JStr ''active''),
        (''opened_at'', JStr now), (''parent_branch_id'', json_opt (ob_parent_branch_id q)),
        (''proposed_by'', json_opt (ob_proposed_by q))])
     (g1, ?fa\<lparr>fa_branch_registry := nested_set ?r (ob_branch_id q) (new_branch_view q now) (fa_branch_registry ?fa)\<rparr>)
     = ((g', fa'), Inr ())"
    using run unfolding open_branch_def
    by (auto simp: fa_modify_def on_fst_def elim!: bind_act_InrE split: prod.splits)
  let ?f = "Opened (ob_branch_id q) (new_branch_view q now)"
  have t: "trace_of ?fa = trace_of fa" by (rule trace_of_touch [OF rm])
  have none: "dict_get (rt_branches (trace_of fa ?r)) (ob_branch_id q) = None"
    using fresh by (simp add: trace_of_def nested_get_def)
  then have v: "facts_valid (map fst (rt_branches (trace_of fa ?r))) [?f]" by (simp add: dict_get_def map_of_eq_None_iff)
  have r: "trace_of (?fa\<lparr>fa_branch_registry := nested_set ?r (ob_branch_id q) (new_branch_view q now) (fa_branch_registry ?fa)\<rparr>) r' =
      (if r' = ?r then (trace_of fa ?r)\<lparr>rt_branches := reg_apply ?f (rt_branches (trace_of fa ?r))\<rparr> else trace_of fa r')" for r'
    using none unfolding t [symmetric] by (simp add: trace_of_def)
  show ?thesis
    by (rule op_consistent [OF c _ _ _ 2 branch_opened_fact])
      (use now_kept [OF c 1] in \<open>auto simp: startswith_def r registries_agree_snoc(1) [OF _ v] simp del: reg_apply.simps\<close>)
qed

lemma mark_branch_consistent:
  assumes c: "consistent (g, fa)" and rm: "room (fc_max_tracked_runs cfg) (bu_run_id q) fa"
    and run: "mark_branch_state cfg pt q (g, fa) = ((g', fa'), Inr ())"
  shows "consistent (g', fa')"
proof -
  let ?r = "bu_run_id q" and ?i = "bu_branch_id q" and ?fa = "touch_run (fc_max_tracked_runs cfg) (bu_run_id q) fa"
  let ?code = "map_option trace_failure_code_str (bu_failure_code q)"
  obtain view where v: "nested_get (fa_branch_registry ?fa) ?r ?i = Some view" and
    1: "bind_act (send_signal pt ?r ''branch_state_updated''
           (Some [(''branch_id'', JStr ?i), (''new_state'', JStr (bu_new_state q)),
                  (''failure_code'', json_opt ?code), (''reason'', json_opt (bu_reason q))])
           (Some ''kernel_facade.mark_branch_state'')) (\<lambda>_.
         append_trace_event pt ?r ''trace.branch_state_changed''
           [(''branch_id'', JStr ?i), (''new_state'', JStr (bu_new_state q)), (''failure_code'', json_opt ?code)])
       (g, ?fa\<lparr>fa_branch_registry := nested_set ?r ?i (updated_branch_view q view) (fa_branch_registry ?fa)\<rparr>)
     = ((g', fa'), Inr ())"
    using run unfolding mark_branch_state_def
    by (auto simp: fa_modify_def fa_read_def elim!: bind_act_InrE split: option.splits)
  let ?f = "Changed ?i (branch_change (bu_new_state q) ?code)"
  have t: "trace_of ?fa = trace_of fa" by (rule trace_of_touch [OF rm])
  have known: "dict_get (rt_branches (trace_of fa ?r)) ?i = Some view"
    using v unfolding t [symmetric] by (simp add: trace_of_def nested_get_def)
  then have ok: "facts_valid (map fst (rt_branches (trace_of fa ?r))) [?f]" using known_key by auto
  have upd: "updated_branch_view q view = branch_change (bu_new_state q) ?code view"
    by (cases "bu_failure_code q") (simp_all add: updated_branch_view_def branch_change_def)
  have r: "trace_of (?fa\<lparr>fa_branch_registry := nested_set ?r ?i (updated_branch_view q view) (fa_branch_registry ?fa)\<rparr>) r' =
      (if r' = ?r then (trace_of fa ?r)\<lparr>rt_branches := reg_apply ?f (rt_branches (trace_of fa ?r))\<rparr> else trace_of fa r')" for r'
    using known unfolding t [symmetric] upd by (simp add: trace_of_def)
  show ?thesis
    by (rule op_consistent [OF c _ _ _ 1 branch_changed_fact])
      (use c in \<open>auto simp: consistent_def startswith_def r registries_agree_snoc(1) [OF _ ok] simp del: reg_apply.simps\<close>)
qed

lemma open_stage_consistent:
  assumes c: "consistent (g, fa)" and rm: "room (fc_max_tracked_runs cfg) r fa"
    and fresh: "nested_get (fa_stage_registry fa) r i = None"
    and run: "open_stage cfg pt i r b (g, fa) = ((g', fa'), Inr ())"
  shows "consistent (g', fa')"
proof -
  let ?fa = "touch_run (fc_max_tracked_runs cfg) r fa"
  obtain g1 now where 1: "fp_now pt g = (g1, Inr now)" and
    2: "bind_act (send_signal pt r ''stage_opened''
       (Some [(''stage_id'', JStr i), (''branch_id'', json_opt b)]) (Some ''kernel_facade.open_stage'')) (\<lambda>_.
     append_trace_event pt r ''trace.stage_opened''
       [(''stage_id'', JStr i), (''state'', JStr ''active''), (''entered_at'', JStr now), (''branch_id'', json_opt b)])
     (g1, ?fa\<lparr>fa_stage_registry := nested_set r i (new_stage_view i now b) (fa_stage_registry ?fa)\<rparr>) = ((g', fa'), Inr ())"
    using run unfolding open_stage_def
    by (auto simp: fa_modify_def on_fst_def elim!: bind_act_InrE split: prod.splits)
  let ?f = "Opened i (new_stage_view i now b)"
  have t: "trace_of ?fa = trace_of fa" by (rule trace_of_touch [OF rm])
  have none: "dict_get (rt_stages (trace_of fa r)) i = None" using fresh by (simp add: trace_of_def nested_get_def)
  then have v: "facts_valid (map fst (rt_stages (trace_of fa r))) [?f]" by (simp add: dict_get_def map_of_eq_None_iff)
  have rr: "trace_of (?fa\<lparr>fa_stage_registry := nested_set r i (new_stage_view i now b) (fa_stage_registry ?fa)\<rparr>) r' =
      (if r' = r then (trace_of fa r)\<lparr>rt_stages := reg_apply ?f (rt_stages (trace_of fa r))\<rparr> else trace_of fa r')" for r'
    using none unfolding t [symmetric] by (simp add: trace_of_def)
  show ?thesis
    by (rule op_consistent [OF c _ _ _ 2 stage_opened_fact])
      (use now_kept [OF c 1] in \<open>auto simp: startswith_def rr registries_agree_snoc(2) [OF _ v] simp del: reg_apply.simps\<close>)
qed

lemma mark_stage_consistent:
  assumes c: "consistent (g, fa)" and rm: "room (fc_max_tracked_runs cfg) r fa" and code: "code \<noteq> Some []"
    and run: "mark_stage_state cfg pt r i s code (g, fa) = ((g', fa'), Inr ())"
  shows "consistent (g', fa')"
proof -
  let ?fa = "touch_run (fc_max_tracked_runs cfg) r fa"
  obtain view g1 x where v: "nested_get (fa_stage_registry ?fa) r i = Some view" and
    g1: "(if s = ''completed'' \<or> s = ''failed'' then bind_act (on_fst (fp_now pt)) (\<lambda>now. return_act (Some now))
        else return_act None) (g, ?fa) = ((g1, ?fa), Inr x)" and
    1: "bind_act (send_signal pt r ''stage_state_updated''
           (Some [(''stage_id'', JStr i), (''new_state'', JStr s), (''failure_code'', json_opt code)])
           (Some ''kernel_facade.mark_stage_state'')) (\<lambda>_.
         append_trace_event pt r ''trace.stage_state_changed''
           [(''stage_id'', JStr i), (''new_state'', JStr s), (''exited_at'', json_opt x), (''failure_code'', json_opt code)])
       (g1, ?fa\<lparr>fa_stage_registry := nested_set r i (updated_stage_view s x code view) (fa_stage_registry ?fa)\<rparr>)
     = ((g', fa'), Inr ())"
    using run unfolding mark_stage_state_def
    by (auto simp: fa_modify_def fa_read_def on_fst_def elim!: bind_act_InrE split: option.splits if_splits prod.splits)
  have kept: "winvar g1 \<and> wlog g1 = wlog g"
    using g1 now_traces c by (auto simp: consistent_def on_fst_def elim!: bind_act_InrE split: if_splits prod.splits)
  let ?f = "Changed i (stage_change s x code)"
  have t: "trace_of ?fa = trace_of fa" by (rule trace_of_touch [OF rm])
  have known: "dict_get (rt_stages (trace_of fa r)) i = Some view"
    using v unfolding t [symmetric] by (simp add: trace_of_def nested_get_def)
  then have ok: "facts_valid (map fst (rt_stages (trace_of fa r))) [?f]" using known_key by auto
  have upd: "updated_stage_view s x code view = stage_change s x code view"
    using code by (cases code) (simp_all add: updated_stage_view_def stage_change_def or_else_def)
  have rr: "trace_of (?fa\<lparr>fa_stage_registry := nested_set r i (updated_stage_view s x code view) (fa_stage_registry ?fa)\<rparr>) r' =
      (if r' = r then (trace_of fa r)\<lparr>rt_stages := reg_apply ?f (rt_stages (trace_of fa r))\<rparr> else trace_of fa r')" for r'
    using known unfolding t [symmetric] upd by (simp add: trace_of_def)
  show ?thesis
    by (rule op_consistent [OF c _ _ _ 1 stage_changed_fact])
      (use kept in \<open>auto simp: startswith_def rr registries_agree_snoc(2) [OF _ ok] simp del: reg_apply.simps\<close>)
qed

lemma open_gate_consistent:
  assumes c: "consistent (g, fa)" and rm: "room (fc_max_tracked_runs cfg) (hg_run_id q) fa"
    and run: "open_human_gate cfg pt q (g, fa) = ((g', fa'), Inr ())"
  shows "consistent (g', fa')"
proof -
  let ?r = "hg_run_id q" and ?fa = "touch_run (fc_max_tracked_runs cfg) (hg_run_id q) fa"
  let ?reg = "?fa\<lparr>fa_open_human_gates := nested_add ?r (hg_gate_ref q) (fa_open_human_gates ?fa),
    fa_gate_types := nested_set ?r (hg_gate_ref q) (hg_gate_type q) (fa_gate_types ?fa)\<rparr>"
  obtain p where 1: "bind_act (send_signal pt ?r ''human_gate_opened'' p (Some ''kernel_facade.open_human_gate'')) (\<lambda>_.
     append_trace_event pt ?r ''trace.human_gate_opened''
       [(''gate_ref'', JStr (hg_gate_ref q)), (''gate_type'', JStr (hg_gate_type q))]) (g, ?reg) = ((g', fa'), Inr ())"
    using run unfolding open_human_gate_def by (auto simp: fa_modify_def elim!: bind_act_InrE)
  have t: "trace_of ?fa = trace_of fa" by (rule trace_of_touch [OF rm])
  have rr: "trace_of ?reg r' = (if r' = ?r then (trace_of fa ?r)\<lparr>rt_open := set_add (hg_gate_ref q) (rt_open (trace_of fa ?r))\<rparr>
      else trace_of fa r')" for r'
    unfolding t [symmetric] by (simp add: trace_of_def)
  show ?thesis
    by (rule op_consistent [OF c _ _ _ 1 gate_facts(1)])
      (use c in \<open>auto simp: consistent_def startswith_def rr registries_agree_snoc(3)\<close>)
qed

lemma escalation_consistent:
  assumes c: "consistent (g, fa)" and rm: "room (fc_max_tracked_runs cfg) r fa"
    and run: "resolve_escalation cfg pt r notes cause (g, fa) = ((g', fa'), Inr ())"
  shows "consistent (g', fa')"
proof -
  let ?fa = "touch_run (fc_max_tracked_runs cfg) r fa"
  obtain p cs where 1: "bind_act (send_signal pt r ''recovery_succeeded'' p cs) (\<lambda>_.
     append_trace_event pt r ''trace.escalation_resolved'' [(''resolution_notes'', json_opt notes)]) (g, ?fa) = ((g', fa'), Inr ())"
    using run unfolding resolve_escalation_def by (auto simp: fa_modify_def elim!: bind_act_InrE)
  show ?thesis
    by (rule op_consistent [OF c _ _ _ 1 escalation_fact])
      (use c in \<open>auto simp: consistent_def startswith_def trace_of_touch [OF rm] registries_agree_snoc(5)\<close>)
qed

lemma approval_consistent:
  assumes c: "consistent (g, fa)" and rm: "room (fc_max_tracked_runs cfg) (aq_run_id q) fa"
    and run: "submit_approval cfg pt q (g, fa) = ((g', fa'), Inr ())"
  shows "consistent (g', fa')"
proof -
  let ?r = "aq_run_id q" and ?enter = "if fc_drain_coordinator cfg then drain_enter fa else fa"
  let ?fa = "touch_run (fc_max_tracked_runs cfg) ?r ?enter"
  have tr0: "trace_of ?enter = trace_of fa" by (simp add: trace_of_def drain_enter_def fun_eq_iff)
  have "room (fc_max_tracked_runs cfg) ?r ?enter" using rm by (simp add: room_def drain_enter_def)
  from trans [OF trace_of_touch [OF this] tr0] have t: "trace_of ?fa = trace_of fa" .
  have exit: "trace_of (drain_exit f) = trace_of f" for f by (simp add: trace_of_def drain_exit_def fun_eq_iff)
  obtain fa1 where fa': "fa' = (if fc_drain_coordinator cfg then drain_exit fa1 else fa1)" and
    1: "(if (?r, aq_approval_ref q) \<in> set (fa_submitted_approvals ?fa) then return_act ()
        else bind_act (fa_modify (register_approval q)) (\<lambda>_.
          bind_act (send_signal pt ?r ''approval_submitted''
            (Some ([(''approval_ref'', JStr (aq_approval_ref q)), (''approved'', JBool (aq_approved q)),
                    (''reviewer_id'', JStr (aq_reviewer_id q)), (''reason'', json_opt (aq_reason q))] @
               build_signal_observability ''submit_approval'' ?r (aq_caused_by q)))
            (or_else (aq_caused_by q) (Some (''approval:'' @ aq_approval_ref q)))) (\<lambda>_.
          append_trace_event pt ?r ''trace.human_gate_resolved''
            [(''gate_ref'', JStr (aq_approval_ref q)), (''approved'', JBool (aq_approved q))]))) (g, ?fa) = ((g', fa1), Inr ())"
    using run unfolding submit_approval_def guard_write_operation_def
    by (auto split: if_splits prod.splits)
  have "consistent (g', fa1)"
  proof (cases "(?r, aq_approval_ref q) \<in> set (fa_submitted_approvals ?fa)")
    case True
    have g': "g' = g" and "fa1 = ?fa" using 1 True by auto
    then have "trace_of fa1 = trace_of fa" using t by simp
    then show ?thesis using c by (intro consistent_cong [of g' g fa1 fa]) (simp_all add: g' consistent_def)
  next
    case False
    have rr: "trace_of (register_approval q ?fa) r' = (if r' = ?r
        then (trace_of fa ?r)\<lparr>rt_resolved := set_add (aq_approval_ref q) (rt_resolved (trace_of fa ?r))\<rparr> else trace_of fa r')" for r'
      unfolding t [symmetric] by (simp add: trace_of_def register_approval_def)
    from False 1 have 2: "bind_act (send_signal pt ?r ''approval_submitted''
            (Some ([(''approval_ref'', JStr (aq_approval_ref q)), (''approved'', JBool (aq_approved q)),
                    (''reviewer_id'', JStr (aq_reviewer_id q)), (''reason'', json_opt (aq_reason q))] @
               build_signal_observability ''submit_approval'' ?r (aq_caused_by q)))
            (or_else (aq_caused_by q) (Some (''approval:'' @ aq_approval_ref q)))) (\<lambda>_.
          append_trace_event pt ?r ''trace.human_gate_resolved''
            [(''gate_ref'', JStr (aq_approval_ref q)), (''approved'', JBool (aq_approved q))])
          (g, register_approval q ?fa) = ((g', fa1), Inr ())"
      by simp
    show ?thesis
      by (rule op_consistent [OF c _ _ _ 2 gate_facts(2)])
        (use c in \<open>auto simp: consistent_def startswith_def rr registries_agree_snoc(4)\<close>)
  qed
  moreover have "trace_of fa' = trace_of fa1" using fa' exit by simp
  ultimately show ?thesis by (intro consistent_cong [of g' g' fa' fa1]) (simp_all add: consistent_def)
qed

lemma query_run_kept:
  assumes "winvar g" "query_run pt r (g, fa) = ((g', fa'), res)"
  shows "winvar g' \<and> wlog g' = wlog g \<and> trace_of fa' = trace_of fa \<and> fa_gate_resolutions fa' = fa_gate_resolutions fa"
proof -
  obtain g1 qres where q: "fp_query_projection pt r g = (g1, qres)" by fastforce
  show ?thesis
    using assms(2) q query_traces [OF assms(1) q]
    by (cases qres) (auto simp: query_run_def on_fst_def fa_modify_def trace_of_def fun_eq_iff)
qed

lemma agree_unresolved:
  "registries_agree tfs rt \<Longrightarrow> set (rt_open rt) - set (rt_resolved rt) = set (gates_opened tfs) - set (gates_resolved tfs)"
  by (auto simp: registries_agree_def)

lemma review_requested:
  "derive_review_state os rs d = ''requested'' \<longleftrightarrow> set os - set rs \<noteq> {}"
  by (auto simp: derive_review_state_def list_ex_iff)

text \<open>A view shows the registries after the new events were read.\<close>

lemma view_steps:
  assumes "winvar g" "query_trace_runtime pt r (g, fa) = ((g', fa'), Inr v)"
  obtains es fa1 resp where "\<exists>before. wlog g r = before @ es" "rebuild_from_events r es fa = (fa1, Inr ())"
    "dict_get_or (fa_rebuild_offsets fa) r 0 = 0 \<Longrightarrow> es = wlog g r"
    "winvar g'" "wlog g' = wlog g" "trace_of fa' = trace_of fa1" "v = trace_view r resp fa'"
proof -
  obtain es fa1 resp where 1: "fp_event_load pt r (dict_get_or (fa_rebuild_offsets fa) r 0) g = (g, Inr es)"
    "rebuild_from_events r es fa = (fa1, Inr ())" "query_run pt r (g, fa1) = ((g', fa'), Inr resp)" "v = trace_view r resp fa'"
    using assms(2) load_log [OF assms(1)] unfolding query_trace_runtime_def rebuild_trace_state_from_events_def has_log option.case
    by (fastforce simp: on_fst_def fa_read_def fa_act_def elim!: bind_act_InrE split: prod.splits)
  have all: "es = wlog g r" if "dict_get_or (fa_rebuild_offsets fa) r 0 = 0"
    using load_all [OF assms(1), of r g es] 1(1) that by simp
  show thesis
    by (rule that [OF _ 1(2) all _ _ _ 1(4)]) (use load_log [OF assms(1) 1(1)] query_run_kept [OF assms(1) 1(3)] in auto)
qed

lemma view_registries:
  "trv_branches (trace_view r resp fa) = map snd (rt_branches (trace_of fa r))"
  "trv_stages (trace_view r resp fa) = map snd (rt_stages (trace_of fa r))"
  "trv_review_state (trace_view r resp fa) = ''requested'' \<longleftrightarrow> set (rt_open (trace_of fa r)) - set (rt_resolved (trace_of fa r)) \<noteq> {}"
  by (simp_all add: trace_view_def trace_of_def review_requested)

lemma view_effect:
  assumes c: "consistent (g, fa)" and run: "query_trace_runtime pt r (g, fa) = ((g', fa'), Inr v)"
  shows "consistent (g', fa') \<and> wlog g' = wlog g \<and> trv_branches v = map snd (rt_branches (trace_of fa r)) \<and>
    trv_stages v = map snd (rt_stages (trace_of fa r)) \<and>
    (trv_review_state v = ''requested'' \<longleftrightarrow> set (rt_open (trace_of fa r)) - set (rt_resolved (trace_of fa r)) \<noteq> {})"
proof -
  have g: "winvar g" and tc: "trace_consistent r (wlog g r) fa" using c by (simp_all add: consistent_def)
  obtain es fa1 resp bef where 1: "wlog g r = bef @ es" "rebuild_from_events r es fa = (fa1, Inr ())"
    "winvar g'" "wlog g' = wlog g" "trace_of fa' = trace_of fa1" "v = trace_view r resp fa'"
    using view_steps [OF g run] by metis
  obtain fa2 where 2: "rebuild_from_events r es fa = (fa2, Inr ())" "trace_consistent r (wlog g r) fa2"
    "rt_branches (trace_of fa2 r) = rt_branches (trace_of fa r)" "rt_stages (trace_of fa2 r) = rt_stages (trace_of fa r)"
    "\<And>r'. r' \<noteq> r \<Longrightarrow> trace_of fa2 r' = trace_of fa r'"
    using rebuild_consistent [OF tc 1(1)] by metis
  have "fa2 = fa1" using 1(2) 2(1) by simp
  have cons: "trace_consistent r' (wlog g' r') fa'" for r'
    using c 2(2,5) 1(4,5) unfolding \<open>fa2 = fa1\<close> by (cases "r' = r") (auto simp: consistent_def trace_consistent_def)
  moreover have "set (rt_open (trace_of fa1 r)) - set (rt_resolved (trace_of fa1 r)) =
      set (rt_open (trace_of fa r)) - set (rt_resolved (trace_of fa r))"
  proof -
    obtain tfs where t: "list_all2 states_fact (traces g r) tfs" "registries_agree tfs (trace_of fa r)"
      using tc by (auto simp: trace_consistent_def traces_def)
    have "\<exists>tfs. list_all2 states_fact (traces g r) tfs \<and> registries_agree tfs (trace_of fa1 r)"
      using 2(2) \<open>fa2 = fa1\<close> by (auto simp: trace_consistent_def traces_def)
    then obtain tfs' where t': "list_all2 states_fact (traces g r) tfs'" "registries_agree tfs' (trace_of fa1 r)" by blast
    have "tfs = tfs'" by (rule facts_unique [OF t(1) t'(1)])
    then show ?thesis using agree_unresolved [OF t(2)] agree_unresolved [OF t'(2)] by simp
  qed
  ultimately show ?thesis
    using 1(3-6) 2(3,4) \<open>fa2 = fa1\<close> by (auto simp: consistent_def view_registries)
qed

text \<open>A facade that has seen nothing yet shows the replay of the log.\<close>

lemma fresh_view:
  assumes g: "winvar g" and t: "list_all2 states_fact (traces g r) tfs"
    and run: "query_trace_runtime pt r (g, initial_facade ca cp) = ((g', fa'), Inr v)"
  shows "trv_branches v = map snd (fold reg_apply (branch_facts tfs) []) \<and> trv_stages v = map snd (fold reg_apply (stage_facts tfs) []) \<and>
    (trv_review_state v = ''requested'' \<longleftrightarrow> set (gates_opened tfs) - set (gates_resolved tfs) \<noteq> {})"
proof -
  let ?fa = "initial_facade ca cp"
  have z: "dict_get_or (fa_rebuild_offsets ?fa) r 0 = 0" by (simp add: initial_facade_def)
  obtain fa1 resp where 1: "rebuild_from_events r (wlog g r) ?fa = (fa1, Inr ())" "trace_of fa' = trace_of fa1"
    "v = trace_view r resp fa'"
    using view_steps [OF g run] z by metis
  obtain fa2 where 2: "apply_trace_events r (traces g r) ?fa = (fa2, Inr ())"
    "\<And>r'. trace_of fa2 r' = (if r' = r then fold fact_apply tfs (trace_of ?fa r) else trace_of ?fa r')"
    using apply_trace_events_facts [OF t] by metis
  have "trace_of fa1 r = trace_of fa2 r"
    using 1(1) 2(1) by (auto simp: rebuild_from_events_def traces_def trace_of_def)
  then have "trace_of fa' r = fold fact_apply tfs (trace_of ?fa r)" using 1(2) 2(2) by simp
  then show ?thesis by (simp add: 1(3) view_registries fold_fact_apply) (simp add: trace_of_def initial_facade_def)
qed

text \<open>Operations that change no registry and log no trace event.\<close>

definition keeps_traces :: "(string \<Rightarrow> runtime_event list) \<Rightarrow> (string \<Rightarrow> run_tables) \<Rightarrow> 'g facade \<Rightarrow> bool" where
  "keeps_traces ts rts st \<longleftrightarrow> winvar (fst st) \<and> traces (fst st) = ts \<and> trace_of (snd st) = rts"

lemma keeps_on_fst:
  assumes "\<And>g g' res r'. winvar g \<Longrightarrow> m g = (g', res) \<Longrightarrow> winvar g' \<and> filter is_trace_event (wlog g' r') = filter is_trace_event (wlog g r')"
  shows "preserves (keeps_traces ts rts) (on_fst m)"
  by (rule preservesI) (use assms in \<open>fastforce simp: on_fst_def keeps_traces_def traces_def fun_eq_iff split: prod.splits\<close>)

lemma keeps_modify: "(\<And>fa. trace_of (f fa) = trace_of fa) \<Longrightarrow> preserves (keeps_traces ts rts) (fa_modify f)"
  unfolding fa_modify_def by (rule preserves_modify) (auto simp: keeps_traces_def)

lemma keeps_fa_act: "(\<And>fa. trace_of (fst (m fa)) = trace_of fa) \<Longrightarrow> preserves (keeps_traces ts rts) (fa_act m)"
  by (simp add: preserves_def keeps_traces_def fa_act_def split_beta)

lemma keeps_calls:
  "preserves (keeps_traces ts rts) (on_fst (fp_start_workflow pt srq))"
  "preserves (keeps_traces ts rts) (on_fst (fp_start_child_workflow pt parent crq))"
  "preserves (keeps_traces ts rts) (on_fst (fp_cancel_workflow pt r reason))"
  "preserves (keeps_traces ts rts) (on_fst (fp_signal_workflow pt r rq))"
  "preserves (keeps_traces ts rts) (on_fst (fp_query_projection pt r))"
  "preserves (keeps_traces ts rts) (on_fst (fp_now pt))"
  "preserves (keeps_traces ts rts) (send_signal pt r t p c)"
  unfolding send_signal_def
  by (rule keeps_on_fst, erule start_traces, assumption)
    (rule keeps_on_fst, erule child_traces, assumption,
     rule keeps_on_fst, erule cancel_traces, assumption,
     rule keeps_on_fst, erule signal_traces, assumption,
     rule keeps_on_fst, drule query_traces, assumption, simp,
     rule keeps_on_fst, drule now_traces, assumption, simp,
     rule keeps_on_fst, erule signal_traces, assumption)

lemma keeps_query: "preserves (keeps_traces ts rts) (query_run pt r)"
  unfolding query_run_def by (intro keeps_calls keeps_modify preserves_intros) (simp add: trace_of_def fun_eq_iff)

lemma keeps_fa_read: "preserves (keeps_traces ts rts) (fa_read f)"
  unfolding fa_read_def by (rule preserves_pure(3))

lemma keeps_return: "preserves (keeps_traces ts rts) (return_result x)"
  by (cases x) (auto simp: preserves_def return_result_def)

lemma keeps_created: "preserves (keeps_traces ts rts) (record_created pt r)"
  unfolding record_created_def by (intro keeps_calls keeps_modify preserves_intros) (simp add: trace_of_def fun_eq_iff)

lemma keeps_start: "preserves (keeps_traces ts rts) (start_run cfg pt rq)"
  unfolding start_run_def bind_session_context_def
  by (intro keeps_calls keeps_created keeps_modify keeps_fa_act preserves_intros)
    (auto simp: trace_of_def fun_eq_iff split: option.splits prod.splits)

lemma keeps_cancel: "preserves (keeps_traces ts rts) (cancel_run pt crq)"
  unfolding cancel_run_def by (intro keeps_calls preserves_intros)

lemma keeps_spawn: "preserves (keeps_traces ts rts) (spawn_child_run pt crq)"
  unfolding spawn_child_run_def inherit_policy_versions_def resolve_child_lifecycle_state_def Let_def
  by (intro keeps_calls keeps_created keeps_query keeps_modify keeps_fa_read keeps_return preserves_intros)
    (auto simp: trace_of_def fun_eq_iff)

lemma keeps_consistent:
  assumes "preserves (keeps_traces (traces (fst st)) (trace_of (snd st))) m" "m st = (st', res)" "consistent st"
  shows "consistent st'"
proof -
  have "keeps_traces (traces (fst st)) (trace_of (snd st)) st'"
    by (rule preservesD [OF assms(1) _ assms(2)]) (use assms(3) in \<open>simp add: keeps_traces_def consistent_def\<close>)
  then show ?thesis
    using consistent_cong [of "fst st'" "fst st" "snd st'" "snd st"] assms(3) by (simp add: keeps_traces_def)
qed

lemma facade_step_consistent: "facade_step cfg pt st st' \<Longrightarrow> consistent st \<Longrightarrow> consistent st'"
proof (induction rule: facade_step.induct)
  case (branch st request st')
  then show ?case using open_branch_consistent by (metis prod.collapse)
next
  case (mark_branch update_request st st')
  then show ?case using mark_branch_consistent by (metis prod.collapse)
next
  case (stage st run_id stage_id branch_id st')
  then show ?case using open_stage_consistent by (metis prod.collapse)
next
  case (mark_stage run_id st failure_code stage_id new_state st')
  then show ?case using mark_stage_consistent by (metis prod.collapse)
next
  case (gate gate_request st st')
  then show ?case using open_gate_consistent by (metis prod.collapse)
next
  case (approve approval st st')
  then show ?case using approval_consistent by (metis prod.collapse)
next
  case (escalate run_id st n cause st')
  then show ?case using escalation_consistent by (metis prod.collapse)
next
  case (start start_request st st' start_res)
  then show ?case using keeps_consistent [OF keeps_start] by blast
next
  case (spawn spawn_request st st' spawn_res)
  then show ?case using keeps_consistent [OF keeps_spawn] by blast
next
  case (cancel cancel_request st st' cancel_res)
  then show ?case using keeps_consistent [OF keeps_cancel] by blast
next
  case (signal signal_request st st' res)
  then show ?case using keeps_consistent [OF keeps_calls(4)] unfolding signal_run_def by blast
next
  case (query run_id st st' qres)
  then show ?case using keeps_consistent [OF keeps_query] by blast
next
  case (view run_id st st' v)
  then show ?case using view_effect by (metis prod.collapse)
qed

lemma reachable_consistent:
  assumes "winvar g0" "\<And>r. wlog g0 r = []" "(facade_step cfg pt)\<^sup>*\<^sup>* (g0, initial_facade ca0 cp0) (g, fa)"
  shows "consistent (g, fa)"
proof -
  have "consistent (g0, initial_facade ca0 cp0)"
    using assms(1,2)
    by (auto simp: consistent_def trace_consistent_def registries_agree_def trace_of_def initial_facade_def fact_lists map_filter_simps)
  with assms(3) show ?thesis
    by (induction rule: rtranclp_induct) (auto intro: facade_step_consistent)
qed

text \<open>The view of an instance that did the work, and of an instance that is new to it.\<close>

lemma instances_agree:
  assumes "winvar g0" "\<And>r. wlog g0 r = []" "(facade_step cfg pt)\<^sup>*\<^sup>* (g0, initial_facade ca0 cp0) (g, fa)"
    and v: "query_trace_runtime pt r (g, fa) = ((g1, fa1), Inr v)"
    and v': "query_trace_runtime pt r (g1, initial_facade ca cp) = ((g2, fa2), Inr v')"
  shows "trv_branches v' = trv_branches v \<and> trv_stages v' = trv_stages v \<and>
    (trv_review_state v' = ''requested'' \<longleftrightarrow> trv_review_state v = ''requested'')"
proof -
  have c: "consistent (g, fa)" by (rule reachable_consistent [OF assms(1-3)])
  note e = view_effect [OF c v]
  obtain tfs where t: "list_all2 states_fact (traces g r) tfs" "registries_agree tfs (trace_of fa r)"
    using c by (auto simp: consistent_def trace_consistent_def traces_def)
  have "list_all2 states_fact (traces g1 r) tfs" "winvar g1" using t(1) e by (simp_all add: traces_def consistent_def)
  from fresh_view [OF this(2,1) v'] show ?thesis
    using e t(2) agree_unresolved [OF t(2)] by (simp add: registries_agree_def)
qed

end

section \<open>The local gateway behind the facade\<close>

text \<open>
  The ports of a facade over the local gateway of a kernel, with the log of the kernel as its event
  log and no other store.
\<close>

definition local_append ::
  "('l, 's, 'w) actor_services \<Rightarrow> action_commit \<Rightarrow> (('l, 's, 'w) local_gateway, string) act" where
  "local_append sv c g = (case append_commit sv c (gw_kernel g) of (k, res) \<Rightarrow> (g\<lparr>gw_kernel := k\<rparr>, res))"

definition local_ports ::
  "gateway_config \<Rightarrow> ('l, 's, 'w) actor_services \<Rightarrow> (('l, 's, 'w) local_gateway \<Rightarrow> string)
     \<Rightarrow> ('l, 's, 'w) local_gateway facade_ports" where
  "local_ports gcfg sv uuid =
     \<lparr>fp_start_workflow = start_workflow gcfg sv, fp_signal_workflow = signal_workflow sv,
      fp_cancel_workflow = cancel_workflow, fp_query_projection = query_projection sv,
      fp_start_child_workflow = start_child_workflow gcfg sv,
      fp_stream_run_events = (\<lambda>r. read_act (stream_events sv r)),
      fp_execute_turn = (\<lambda>run_id a handler key. execute_turn gcfg handler a key),
      fp_event_append = Some (local_append sv),
      fp_event_load = (\<lambda>r after. read_act (\<lambda>g. sv_load sv (kn_log (gw_kernel g)) r after)),
      fp_now = read_act (\<lambda>g. now_iso sv (gw_kernel g)), fp_uuid = read_act uuid,
      fp_count_by_run = None, fp_dedupe_get = None, fp_register_task = None, fp_get_health = None,
      fp_list_session_tasks = None, fp_view_write = None, fp_view_get_by_id = None, fp_view_get_by_decision = None,
      fp_view_bind = None\<rparr>"

lemma signal_event_not_trace: "\<not> startswith (signal_event_type t) ''trace.''"
proof (cases "dict_get SIGNAL_EVENT_TYPE_MAP t")
  case (Some m)
  then have "(t, m) \<in> set SIGNAL_EVENT_TYPE_MAP" by (simp add: dict_get_def map_of_SomeD)
  then show ?thesis using Some by (auto simp: SIGNAL_EVENT_TYPE_MAP_def signal_event_type_def startswith_def)
qed (simp add: signal_event_type_def startswith_def)

lemma filter_sorted_suffix:
  "sorted_wrt (<) (map f xs) \<Longrightarrow> \<exists>ys. xs = ys @ filter (\<lambda>x. (f x :: int) > k) xs"
proof (induction xs)
  case (Cons x xs)
  show ?case
  proof (cases "f x > k")
    case True
    then have "filter (\<lambda>x. f x > k) (x # xs) = x # xs" using Cons.prems by (auto simp: filter_id_conv)
    then show ?thesis by (intro exI [of _ "[]"]) simp
  next
    case False
    obtain ys where "xs = ys @ filter (\<lambda>x. f x > k) xs" using Cons by auto
    then show ?thesis using False by (intro exI [of _ "x # ys"]) simp
  qed
qed simp

context shared_log
begin

lemma local_append_ok:
  assumes "gateway_ok g" "last_authoritative (cm_events c)" "local_append sv c g = (g', res)"
  shows "gateway_ok g'"
proof -
  obtain k where k: "append_commit sv c (gw_kernel g) = (k, res)" "g' = g\<lparr>gw_kernel := k\<rparr>"
    using assms(3) by (auto simp: local_append_def split: prod.splits)
  have "synced sv invar r k" for r
    using preservesD [OF append_any [OF assms(2)] _ k(1)] assms(1) by (simp add: gateway_ok_def)
  then show ?thesis using assms(1) k(2) by (simp add: gateway_ok_def)
qed

lemma local_append_log:
  assumes g: "gateway_ok g" and run: "local_append sv c g = (g', Inr ref)"
  shows "\<exists>new. stream_events sv (cm_run_id c) g' = stream_events sv (cm_run_id c) g @ new \<and> list_all2 same_event (cm_events c) new"
    and "r \<noteq> cm_run_id c \<Longrightarrow> stream_events sv r g' = stream_events sv r g"
proof -
  obtain k where k: "append_commit sv c (gw_kernel g) = (k, Inr ref)" "g' = g\<lparr>gw_kernel := k\<rparr>"
    using run by (auto simp: local_append_def split: prod.splits)
  obtain l where l: "append (kn_log (gw_kernel g)) c = (l, Inr ref)" "k = (gw_kernel g)\<lparr>kn_log := l\<rparr>"
    using k(1) by (auto simp: append_commit_def sv_append split: prod.splits)
  have inv: "invar (kn_log (gw_kernel g))" using g by (simp add: gateway_ok_def synced_def)
  show "\<exists>new. stream_events sv (cm_run_id c) g' = stream_events sv (cm_run_id c) g @ new \<and> list_all2 same_event (cm_events c) new"
    using append_run [OF inv l(1)] by (simp add: stream_events_def sv_load k(2) l(2))
  show "r \<noteq> cm_run_id c \<Longrightarrow> stream_events sv r g' = stream_events sv r g"
    using append_other [OF inv l(1)] retains by (simp add: stream_events_def sv_load k(2) l(2))
qed

lemma local_load:
  assumes g: "gateway_ok g"
  shows "\<exists>before. stream_events sv r g = before @ sv_load sv (kn_log (gw_kernel g)) r after"
proof -
  have inv: "invar (kn_log (gw_kernel g))" using g by (simp add: gateway_ok_def synced_def)
  show ?thesis
    using filter_sorted_suffix [OF load_sorted [OF inv, of r], of after] load_after [OF inv, of r after]
    by (simp add: stream_events_def sv_load)
qed

lemma query_projection_log: "query_projection sv r g = (g', res) \<Longrightarrow> stream_events sv r' g' = stream_events sv r' g"
  by (auto simp: query_projection_def deps_projection_get_def projection_get_def stream_events_def
      split: option.splits sum.splits prod.splits)

lemma local_signal_traces:
  assumes g: "gateway_ok g" and run: "signal_workflow sv r request g = (g', res)"
  shows "filter is_trace_event (stream_events sv r' g') = filter is_trace_event (stream_events sv r' g)"
proof (cases "dict_get (gw_workflows g) r")
  case None
  then show ?thesis using run by (auto simp: signal_workflow_def)
next
  case (Some a)
  define sg where "sg = \<lparr>sig_signal_type = gq_signal_type request, sig_signal_payload = gq_signal_payload request,
      sig_caused_by = gq_caused_by request, sig_signal_token = None, sig_from_peer_run_id = None\<rparr>"
  have id: "ra_run_id a = Some r" using g Some by (simp add: gateway_ok_def)
  show ?thesis
  proof (cases "r = [] \<or> signal_dropped a sg")
    case True
    then have "fst (fst (signal_actor False sv sg (gw_kernel g, a))) = gw_kernel g"
      using id by (auto simp: signal_actor_def handle_signal_def)
    then have "gw_kernel g' = gw_kernel g"
      using run Some by (auto simp: signal_workflow_def on_workflow_def sg_def split: prod.splits)
    then show ?thesis by (simp add: stream_events_def)
  next
    case False
    have e: "\<not> is_trace_event e" if "ev_event_type e = signal_event_type (gq_signal_type request)" for e
      using that signal_event_not_trace by (simp add: is_trace_event_def)
    show ?thesis
      using signal_workflow_effect [OF g Some _ sg_def _ run] False e
      by (cases "r' = r") (auto split: sum.splits)
  qed
qed

lemma start_workflow_log:
  assumes "start_workflow cfg sv request g = (g', res)"
  shows "stream_events sv r g' = stream_events sv r g"
proof -
  let ?run = "resolve_run_id request"
  obtain ps p where gp: "get_projection (sv_projection sv) (sv_load sv (kn_log (gw_kernel g))) (kn_projections (gw_kernel g)) ?run = (ps, p)"
    by fastforce
  then have p: "projection_get sv ?run (gw_kernel g) = ((gw_kernel g)\<lparr>kn_projections := ps\<rparr>, p)"
    by (simp add: projection_get_def)
  have "kn_log (fst (fst (run_workflow sv (local_run_input ?run request) (gw_kernel g, RunActorWorkflow)))) = kn_log (gw_kernel g)"
    using p by (cases p) (simp_all add: run_workflow_def run_start_def run_finish_def notify_parent_child_completed_def
        local_run_input_def on_fst_def RunActorWorkflow_def bind_act_def)
  then show ?thesis
    using assms by (auto simp: start_workflow_def Let_def stream_events_def split: if_splits prod.splits)
qed

end

interpretation sfac: trace_world "local_ports gcfg (sqlite_services gate sv) uuid" "local_append (sqlite_services gate sv)"
  "\<lambda>g r. stream_events (sqlite_services gate sv) r g" "srun.gateway_ok gate sv" for gcfg gate sv uuid
proof (unfold_locales, goal_cases)
  case 1
  then show ?case by (simp add: local_ports_def)
next
  case (2 g c g' res)
  then show ?case by (rule srun.local_append_ok)
next
  case (3 g c g' ref)
  then show ?case by (rule srun.local_append_log(1))
next
  case (4 g c g' ref r)
  then show ?case by (rule srun.local_append_log(2))
next
  case (5 g r after g' es)
  then show ?case using srun.local_load [OF 5(1)] by (auto simp: local_ports_def)
next
  case (6 g r g' es)
  then show ?case by (auto simp: local_ports_def stream_events_def)
next
  case (7 g r rq g' sres r')
  then have run: "signal_workflow (sqlite_services gate sv) r rq g = (g', sres)" by (simp add: local_ports_def)
  show ?case
    using srun.local_signal_traces [OF 7(1) run] preservesD [OF srun.signal_workflow_ok 7(1) run] by simp
next
  case (8 g srq g' wres r')
  then have run: "start_workflow gcfg (sqlite_services gate sv) srq g = (g', wres)" by (simp add: local_ports_def)
  show ?case
    using srun.start_workflow_log [OF run] preservesD [OF srun.start_workflow_ok 8(1) run] by simp
next
  case (9 g parent crq g' chres r')
  then have run: "start_workflow gcfg (sqlite_services gate sv) (child_start_request parent crq) g = (g', chres)"
    by (simp add: local_ports_def start_child_workflow_def)
  show ?case
    using srun.start_workflow_log [OF run] preservesD [OF srun.start_workflow_ok 9(1) run] by simp
next
  case (10 g r reason g' cres r')
  then have run: "cancel_workflow r reason g = (g', cres)" by (simp add: local_ports_def)
  then have "gw_kernel g' = gw_kernel g" by (auto simp: cancel_workflow_def)
  then show ?case using preservesD [OF srun.cancel_workflow_ok 10(1) run] by (simp add: stream_events_def)
next
  case (11 g r g' qres)
  then have run: "query_projection (sqlite_services gate sv) r g = (g', qres)" by (simp add: local_ports_def)
  show ?case
    using srun.query_projection_log [OF run] preservesD [OF srun.query_projection_ok 11(1) run] by simp
next
  case (12 g g' nres)
  then show ?case by (auto simp: local_ports_def)
next
  case (13 g g' ures)
  then show ?case by (auto simp: local_ports_def)
qed

lemma local_world_ok: "srun.gateway_ok gate sv (LocalWorkflowGateway
    \<lparr>kn_log = connect initialize_schema faults, kn_projections = [], kn_deduper = [], kn_turn = tw\<rparr>)"
  by (rule srun_reachable_ok) (auto simp: gateway_reachable_def)

lemma local_world_empty: "stream_events (sqlite_services gate sv) r (LocalWorkflowGateway
    \<lparr>kn_log = connect initialize_schema faults, kn_projections = [], kn_deduper = [], kn_turn = tw\<rparr>) = []"
  by (simp add: stream_events_def LocalWorkflowGateway_def sqlite_services_def connect_def select_events_def initialize_schema_def)

lemma local_facade_ok:
  assumes "(facade_step cfg (local_ports gcfg (sqlite_services gate sv) uuid))\<^sup>*\<^sup>*
      (LocalWorkflowGateway \<lparr>kn_log = connect initialize_schema faults, kn_projections = [], kn_deduper = [], kn_turn = tw\<rparr>,
       initial_facade ca0 cp0) (g, fa)"
  shows "srun.gateway_ok gate sv g"
  using sfac.reachable_consistent [OF local_world_ok local_world_empty assms] by (simp add: sfac.consistent_def)


section \<open>Cancelling a run of the local gateway\<close>

context shared_log
begin

lemma cancel_signal_projection:
  assumes g: "gateway_ok g" "dict_get (gw_workflows g) run = Some a" "run \<noteq> []"
    and rq: "gq_signal_type request = ''cancel_requested''" "gq_caused_by request = None"
    and sig: "signal_workflow sv run request g = (g', Inr ())"
    and p: "current_projection sv run (gw_kernel g) = Inr p"
  obtains q where "current_projection sv run (gw_kernel g') = Inr q" "gateway_ok g'"
    "pr_lifecycle_state q = (if pr_lifecycle_state p = Completed then Completed else Aborted)"
proof -
  let ?sg = "\<lparr>sig_signal_type = gq_signal_type request, sig_signal_payload = gq_signal_payload request,
      sig_caused_by = gq_caused_by request, sig_signal_token = None, sig_from_peer_run_id = None\<rparr>"
  have "\<not> signal_dropped a ?sg" using rq(2) by (simp add: signal_dropped_def signal_token_def)
  from signal_workflow_effect [OF g refl this sig] obtain e q
    where e: "stream_events sv run g' = stream_events sv run g @ [e]"
      "ev_event_type e = signal_event_type ''cancel_requested''" "current_projection sv run (gw_kernel g') = Inr q"
    using rq(1) by auto
  have ok: "gateway_ok g'" by (rule preservesD [OF signal_workflow_ok g(1) sig])
  then have "synced sv invar run (gw_kernel g')" by (simp add: gateway_ok_def)
  then have "\<not> skipped (sv_projection sv) e" using e(1) by (simp add: synced_def stream_events_def)
  then have "q = apply_projection_event p e"
    using p e(1,3) no_migrator
    by (auto simp: current_projection_def stream_events_def replay_append skipped_def maybe_migrate_event_def)
  moreover have "ev_event_type e = ''run.cancel_requested''"
    using e(2) by (simp add: signal_event_type_def SIGNAL_EVENT_TYPE_MAP_def dict_get_def)
  ultimately show thesis
    using that [OF e(3) ok] cancel_apply [of e p] completed_apply [of p e] by simp
qed

end

lemma cancel_run_aborts:
  assumes ok: "srun.gateway_ok gate sv g"
    and "dict_get (gw_workflows g) (cq_run_id request) = Some a" "cq_run_id request \<noteq> []" "cq_caused_by request = None"
    and "cancel_run (local_ports gcfg (sqlite_services gate sv) uuid) request (g, fa) = ((g', fa'), Inr ())"
  shows "\<exists>p st q. current_projection (sqlite_services gate sv) (cq_run_id request) (gw_kernel g) = Inr p
    \<and> dict_get (gw_workflows g') (cq_run_id request) = None
    \<and> query_run (local_ports gcfg (sqlite_services gate sv) uuid) (cq_run_id request) (g', fa') = (st, Inr q)
    \<and> qr_lifecycle_state q = (if pr_lifecycle_state p = Completed then Completed else Aborted)"
proof -
  let ?sv = "sqlite_services gate sv" and ?run = "cq_run_id request"
  obtain p where p: "current_projection ?sv ?run (gw_kernel g) = Inr p" using srun.current_total by blast
  obtain g1 where 1: "signal_workflow ?sv ?run \<lparr>gq_run_id = ?run, gq_signal_type = ''cancel_requested'',
       gq_signal_payload = Some ((''reason'', JStr (cq_reason request)) # build_signal_observability ''cancel'' ?run None),
       gq_caused_by = None\<rparr> g = (g1, Inr ())"
    and g': "g' = fst (cancel_workflow ?run (cq_reason request) g1)"
    using assms(4,5)
    by (auto simp: cancel_run_def send_signal_def local_ports_def on_fst_def cancel_workflow_def catch_act_def return_act_def
        elim!: bind_act_InrE split: prod.splits)
  obtain q where q: "current_projection ?sv ?run (gw_kernel g1) = Inr q" "srun.gateway_ok gate sv g1"
    "pr_lifecycle_state q = (if pr_lifecycle_state p = Completed then Completed else Aborted)"
    by (rule srun.cancel_signal_projection [OF ok assms(2,3) _ _ 1 p]) simp_all
  have k: "gw_kernel g' = gw_kernel g1" and gone: "dict_get (gw_workflows g') ?run = None"
    by (simp_all add: g' cancel_workflow_def dict_get_pop)
  have "synced ?sv sqe_invar ?run (gw_kernel g1)" using q(2) by (simp add: srun.gateway_ok_def)
  from srun.projection_get_synced [OF this] obtain ps where "projection_get ?sv ?run (gw_kernel g1) =
      ((gw_kernel g1)\<lparr>kn_projections := ps\<rparr>, Inr q)" using q(1) by (metis sum.inject(2))
  then have "query_projection ?sv ?run g' = (g'\<lparr>gw_kernel := (gw_kernel g1)\<lparr>kn_projections := ps\<rparr>\<rparr>, Inr q)"
    using gone k by (simp add: query_projection_def deps_projection_get_def)
  then have "\<exists>st r. query_run (local_ports gcfg ?sv uuid) ?run (g', fa') = (st, Inr r) \<and> qr_lifecycle_state r = pr_lifecycle_state q"
    by (simp add: query_run_def local_ports_def on_fst_def bind_act_def return_act_def)
  then show ?thesis using p gone q(3) by auto
qed


text \<open>
  A facade operation signals with a constant cause, and an actor drops a signal whose type and cause
  it has seen: of the branches, stages and gates of a run only the first of each is signalled.
\<close>

lemma facade_signal_dropped:
  assumes "dict_get (gw_workflows g) run = Some a" "ra_run_id a = Some run" "run \<noteq> []" "c \<noteq> []"
    "(t @ '':'' @ c) \<in> set (ra_seen_signal_tokens a)"
  shows "send_signal (local_ports gcfg sv uuid) run t p (Some c) (g, fa) = ((g, fa), Inr ())"
  using assms
  by (simp add: send_signal_def local_ports_def on_fst_def signal_workflow_def on_workflow_def signal_actor_def handle_signal_def
      signal_dropped_def signal_token_def dict_set_same)

text \<open>A facade that starts a run and opens a branch, and what it and a second instance then show.\<close>

definition sample_facade_config :: facade_config where
  "sample_facade_config = \<lparr>fc_max_tracked_runs = 10000, fc_drain_coordinator = True, fc_float_repr = (\<lambda>_. ''0.0'')\<rparr>"

definition sample_ports :: "(event_connection, dedupe_mem, unit) local_gateway facade_ports" where
  "sample_ports = local_ports sample_gateway_config (sqlite_services sample_run_gate sample_sqlite_services) (\<lambda>_. ''u'')"

definition sample_world :: "(event_connection, dedupe_mem, unit) local_gateway" where
  "sample_world = LocalWorkflowGateway
     \<lparr>kn_log = connect initialize_schema [], kn_projections = [], kn_deduper = [], kn_turn = sample_turn_world\<rparr>"

definition sample_facade_started :: "(event_connection, dedupe_mem, unit) local_gateway facade" where
  "sample_facade_started = fst (start_run sample_facade_config sample_ports (sample_start_request ''r1'')
     (sample_world, initial_facade None None))"

lemma sample_facade_reached:
  "(facade_step sample_facade_config sample_ports)\<^sup>*\<^sup>* (sample_world, initial_facade None None) sample_facade_started"
  unfolding sample_facade_started_def by (rule r_into_rtranclp) (rule facade_step.start [OF prod.collapse [symmetric]])

definition sample_branch :: open_branch_request where
  "sample_branch = \<lparr>ob_run_id = ''r1'', ob_branch_id = ''b'', ob_stage_id = ''s'', ob_parent_branch_id = None, ob_proposed_by = None\<rparr>"

definition sample_facade_opened :: "(event_connection, dedupe_mem, unit) local_gateway facade \<times> unit result" where
  "sample_facade_opened = open_branch sample_facade_config sample_ports sample_branch sample_facade_started"

definition sample_views ::
  "(event_connection, dedupe_mem, unit) local_gateway facade \<times> unit result \<Rightarrow>
     unit result \<times> trace_runtime_view result \<times> trace_runtime_view result" where
  "sample_views opened =
     (case opened of (st, res) \<Rightarrow>
      case query_trace_runtime sample_ports ''r1'' st of ((g1, fa1), v) \<Rightarrow>
      case query_trace_runtime sample_ports ''r1'' (g1, initial_facade None None) of (st2, v') \<Rightarrow> (res, v, v'))"

definition all_return :: "unit result \<times> trace_runtime_view result \<times> trace_runtime_view result \<Rightarrow> bool" where
  "all_return vs = (case vs of (res, v, v') \<Rightarrow> is_ok res \<and> is_ok v \<and> is_ok v')"

text \<open>The run of the sample is cancelled.\<close>

definition sample_cancel :: cancel_run_request where
  "sample_cancel = \<lparr>cq_run_id = ''r1'', cq_reason = ''stop'', cq_caused_by = None\<rparr>"

text \<open>
  An approval for a run the gateway does not know: the call raises after the approval was registered,
  and the second call returns although nothing was ever sent.
\<close>

definition sample_approval :: approval_request where
  "sample_approval = \<lparr>aq_run_id = ''r1'', aq_approval_ref = ''gate'', aq_approved = True, aq_reviewer_id = ''u'',
     aq_reason = None, aq_caused_by = None\<rparr>"

text \<open>The facts about the samples are evaluated together.\<close>

lemma samples_evaluated:
  "(all_return (sample_views sample_facade_opened)
    \<and> fa_branch_registry (snd sample_facade_started) = [] \<and> fa_tracked_run_set (snd sample_facade_started) = [])
   \<and> (map fst (gw_workflows (fst sample_facade_started)) = [''r1'']
    \<and> is_ok (snd (cancel_run sample_ports sample_cancel sample_facade_started)))
   \<and> \<not> is_ok (snd (submit_approval sample_facade_config sample_ports sample_approval (sample_world, initial_facade None None)))
   \<and> \<not> fa_draining (snd (fst (submit_approval sample_facade_config sample_ports sample_approval (sample_world, initial_facade None None))))"
  by code_simp

lemmas sample_views_return = samples_evaluated [THEN conjunct1, THEN conjunct1]
lemmas sample_started_state = samples_evaluated [THEN conjunct1, THEN conjunct2, THEN conjunct1]
  samples_evaluated [THEN conjunct1, THEN conjunct2, THEN conjunct2]
lemmas sample_started_runs = samples_evaluated [THEN conjunct2, THEN conjunct1, THEN conjunct1]
lemmas sample_cancel_returns = samples_evaluated [THEN conjunct2, THEN conjunct1, THEN conjunct2]
lemmas sample_approval_raises = samples_evaluated [THEN conjunct2, THEN conjunct2]




theorem guarded_operations_balance_witness:
  "fa_in_flight_count (snd (fst (submit_approval sample_facade_config sample_ports sample_approval
     (sample_world, initial_facade None None)))) = 0
   \<and> submit_approval sample_facade_config sample_ports sample_approval (sample_world, (initial_facade None None)\<lparr>fa_draining := True\<rparr>) =
     ((sample_world, (initial_facade None None)\<lparr>fa_draining := True\<rparr>),
      Inl (RuntimeError (''Kernel is draining; '' @ repr_str ''submit_approval'' @ '' is temporarily unavailable.'')))"
  using guarded_operations_balance [of "(sample_world, initial_facade None None)" sample_facade_config sample_ports _ _ _ _ sample_approval]
    guarded_operations_balance [of "(sample_world, (initial_facade None None)\<lparr>fa_draining := True\<rparr>)" sample_facade_config sample_ports
      _ _ _ _ sample_approval]
  by (simp add: initial_facade_def)

end
