(* ===== verification/Facade_Wellformed.thy ===== *)
theory Facade_Wellformed
  imports Facade_Guarantees
begin

text \<open>
  The state of a facade is well-formed whatever is called and whatever the gateway, the log and the
  clock answer: names of registry entries are the names inside the entries, sets have no duplicates,
  the tracked runs stay within the limit and the count of operations in flight is not negative.
\<close>

section \<open>Well-formed states\<close>

definition registry_wf :: "('v \<Rightarrow> string) \<Rightarrow> (string, (string, 'v) dict) dict \<Rightarrow> bool" where
  "registry_wf name_of reg \<longleftrightarrow> dict_wf reg \<and>
     (\<forall>r d. dict_get reg r = Some d \<longrightarrow> dict_wf d \<and> (\<forall>i v. dict_get d i = Some v \<longrightarrow> name_of v = i))"

definition sets_wf :: "(string, string list) dict \<Rightarrow> bool" where
  "sets_wf reg \<longleftrightarrow> dict_wf reg \<and> (\<forall>r xs. dict_get reg r = Some xs \<longrightarrow> distinct xs)"

definition checkpoint_wf :: "checkpoint_adapter option \<Rightarrow> bool" where
  "checkpoint_wf cp \<longleftrightarrow> (\<forall>d r p. cp = Some d \<longrightarrow> dict_get d r = Some p \<longrightarrow> pr_run_id p = r)"

text \<open>The registries and the count alone; eviction keeps them at every step.\<close>

definition parts_wf :: "facade_state \<Rightarrow> bool" where
  "parts_wf fa \<longleftrightarrow> 0 \<le> fa_in_flight_count fa \<and>
     registry_wf tb_branch_id (fa_branch_registry fa) \<and> registry_wf ts_stage_id (fa_stage_registry fa) \<and>
     sets_wf (fa_open_human_gates fa) \<and> sets_wf (fa_resolved_human_gates fa) \<and> sets_wf (fa_all_child_runs fa) \<and>
     distinct (fa_submitted_approvals fa) \<and> checkpoint_wf (fa_checkpoint_adapter fa)"

definition facade_wf :: "nat \<Rightarrow> facade_state \<Rightarrow> bool" where
  "facade_wf m fa \<longleftrightarrow> tracked_ok m fa \<and> parts_wf fa"

named_theorems wf_simps \<open>well-formedness of updated registries\<close>

lemma registry_wf_set [wf_simps]:
  "registry_wf f reg \<Longrightarrow> f v = i \<Longrightarrow> registry_wf f (nested_set r i v reg)"
  by (fastforce simp: registry_wf_def nested_set_def dict_get_or_def split: option.splits if_splits)

lemma registry_wf_pop [wf_simps]: "registry_wf f reg \<Longrightarrow> registry_wf f (dict_pop r reg)"
  by (auto simp: registry_wf_def split: if_splits)

lemma registry_wf_get: "registry_wf f reg \<Longrightarrow> nested_get reg r i = Some v \<Longrightarrow> f v = i"
  by (auto simp: registry_wf_def nested_get_def dict_get_or_def split: option.splits)

lemma sets_wf_add [wf_simps]: "sets_wf reg \<Longrightarrow> sets_wf (nested_add r x reg)"
  by (fastforce simp: sets_wf_def nested_add_def set_add_def dict_get_or_def split: option.splits if_splits)

lemma sets_wf_pop [wf_simps]: "sets_wf reg \<Longrightarrow> sets_wf (dict_pop r reg)"
  by (auto simp: sets_wf_def split: if_splits)

lemma sets_wf_setdefault [wf_simps]: "sets_wf reg \<Longrightarrow> sets_wf (dict_setdefault r [] reg)"
  by (auto simp: sets_wf_def dict_setdefault_def split: if_splits)

lemma set_add_distinct [wf_simps]: "distinct xs \<Longrightarrow> distinct (set_add x xs)"
  by (simp add: set_add_def)

lemma checkpoint_wf_bind [wf_simps]: "checkpoint_wf cp \<Longrightarrow> checkpoint_wf (map_option (bind_projection p) cp)"
  by (auto simp: checkpoint_wf_def bind_projection_def split: if_splits)

lemma tracked_ok_cong:
  "tracked_ok m fa \<Longrightarrow> fa_tracked_run_order fa' = fa_tracked_run_order fa \<Longrightarrow>
     fa_tracked_run_set fa' = fa_tracked_run_set fa \<Longrightarrow> tracked_ok m fa'"
  by (simp add: tracked_ok_def)

section \<open>Operations on the state\<close>

lemma evict_runs_parts: "parts_wf fa \<Longrightarrow> parts_wf (evict_runs m fa)"
proof (induction m fa rule: evict_runs.induct)
  case (1 m fa)
  have "parts_wf (evict_oldest_run fa)"
    using "1.prems" by (auto simp: evict_oldest_run_def purge_run_state_def parts_wf_def intro: wf_simps split: list.split)
  then show ?case using "1.IH" "1.prems" by (subst evict_runs.simps) simp
qed

lemma touch_run_parts: "parts_wf fa \<Longrightarrow> parts_wf (touch_run m r fa)"
  by (auto simp: touch_run_def intro!: evict_runs_parts) (simp add: parts_wf_def)

lemma touch_run_wf: "facade_wf m fa \<Longrightarrow> facade_wf m (touch_run m r fa)"
  by (simp add: facade_wf_def touch_run_ok touch_run_parts)

lemma cleanup_wf: "facade_wf m fa \<Longrightarrow> facade_wf m (cleanup_completed_run r fa)"
  by (auto simp: facade_wf_def cleanup_ok cleanup_completed_run_def [of r fa] purge_run_state_def parts_wf_def
      simp del: purge_tracked intro!: wf_simps)
    (use cleanup_ok [of m fa r] in \<open>simp add: cleanup_completed_run_def purge_run_state_def\<close>)

lemma changed_view_name:
  "changed_branch_view p v = Inr v' \<Longrightarrow> tb_branch_id v' = tb_branch_id v"
  "changed_stage_view p w = Inr w' \<Longrightarrow> ts_stage_id w' = ts_stage_id w"
  by (auto simp: changed_branch_view_def changed_stage_view_def bind_result_def split: sum.splits)

lemma apply_trace_event_wf: "preserves (facade_wf m) (apply_trace_event run_id ev)"
proof (rule preservesI)
  fix fa fa' r
  assume wf: "facade_wf m fa" and run: "apply_trace_event run_id ev fa = (fa', r)"
  note names = registry_wf_get [of tb_branch_id "fa_branch_registry fa" run_id]
    registry_wf_get [of ts_stage_id "fa_stage_registry fa" run_id]
  show "facade_wf m fa'"
    using wf run unfolding apply_trace_event_def Let_def
    by (simp only: split: if_split_asm)
      (auto simp: lift_fa_def bind_result_def facade_wf_def parts_wf_def tracked_ok_def
        dest!: changed_view_name intro!: wf_simps dest: names split: if_splits sum.splits option.splits)
qed

lemma apply_trace_events_wf: "preserves (facade_wf m) (apply_trace_events run_id evs)"
proof (induction evs)
  case (Cons ev evs)
  then show ?case unfolding apply_trace_events.simps by (intro preserves_intros apply_trace_event_wf)
qed (simp add: preserves_def)

lemma rebuild_from_events_wf: "preserves (facade_wf m) (rebuild_from_events run_id evs)"
  unfolding rebuild_from_events_def
  by (intro preserves_intros apply_trace_events_wf) (simp add: facade_wf_def parts_wf_def tracked_ok_def)

section \<open>Operations of the facade\<close>

definition wf_st :: "nat \<Rightarrow> 'g facade \<Rightarrow> bool" where
  "wf_st m st = facade_wf m (snd st)"

lemma wf_on_fst [preserves_intros]: "preserves (wf_st m) (on_fst f)"
  by (rule preserves_on_fst) (simp add: preserves_def wf_st_def)

lemma wf_read [preserves_intros]: "preserves (wf_st m) (fa_read f)"
  unfolding fa_read_def by (rule preserves_pure(3))

lemma wf_modify: "(\<And>fa. facade_wf m fa \<Longrightarrow> facade_wf m (f fa)) \<Longrightarrow> preserves (wf_st m) (fa_modify f)"
  unfolding fa_modify_def by (rule preserves_modify) (auto simp: wf_st_def)

lemma wf_touch [preserves_intros]: "preserves (wf_st m) (fa_modify (touch_run m r))"
  by (rule wf_modify) (rule touch_run_wf)

lemma wf_act: "preserves (facade_wf m) f \<Longrightarrow> preserves (wf_st m) (fa_act f)"
  by (auto simp: preserves_def wf_st_def fa_act_def split: prod.splits)

lemma wf_return_result [preserves_intros]: "preserves (wf_st m) (return_result r)"
  by (cases r) (simp_all add: preserves_def return_result_def)

text \<open>A branch or stage that is looked up has the name it was looked up by.\<close>

lemma preserves_read_bind:
  assumes "\<And>st. P st \<Longrightarrow> Q (f (snd st))" "\<And>x. Q x \<Longrightarrow> preserves P (k x)"
  shows "preserves P (bind_act (fa_read f) k)"
  using assms by (auto simp: preserves_def fa_read_def bind_act_def read_act_def)

lemmas wf_updates = facade_wf_def parts_wf_def tracked_ok_def

lemma wf_send [preserves_intros]: "preserves (wf_st m) (send_signal pt r t p c)"
  unfolding send_signal_def by (rule wf_on_fst)

lemma wf_trace [preserves_intros]: "preserves (wf_st m) (append_trace_event pt r t p)"
  unfolding append_trace_event_def by (intro preserves_intros)

lemma wf_rebuild [preserves_intros]: "preserves (wf_st m) (rebuild_trace_state_from_events pt r)"
  unfolding rebuild_trace_state_from_events_def by (intro preserves_intros wf_act rebuild_from_events_wf)

lemma wf_created [preserves_intros]: "preserves (wf_st m) (record_created pt r)"
  unfolding record_created_def by (intro preserves_intros wf_modify) (simp add: wf_updates)

lemma wf_start: "preserves (wf_st m) (start_run cfg pt rq)"
  unfolding start_run_def bind_session_context_def
  by (intro preserves_intros wf_modify wf_act)
    (auto simp: preserves_def wf_updates split: option.splits prod.splits)

lemma wf_query [preserves_intros]: "preserves (wf_st m) (query_run pt r)"
  unfolding query_run_def by (intro preserves_intros wf_modify) (simp add: wf_updates checkpoint_wf_bind)

lemma wf_inherit [preserves_intros]: "preserves (wf_st m) (inherit_policy_versions pt a b)"
  unfolding inherit_policy_versions_def by (intro preserves_intros)

lemma wf_spawn: "preserves (wf_st m) (spawn_child_run pt rq)"
  unfolding spawn_child_run_def resolve_child_lifecycle_state_def Let_def
  by (intro preserves_intros wf_modify) (simp add: wf_updates sets_wf_add)

lemma wf_cancel: "preserves (wf_st m) (cancel_run pt rq)"
  unfolding cancel_run_def by (intro preserves_intros)

lemma wf_resume: "preserves (wf_st m) (resume_run pt rq)"
  unfolding resume_run_def by (intro preserves_intros)

lemma wf_guard: "preserves (wf_st m) body \<Longrightarrow> preserves (wf_st m) (guard_write_operation cfg op body)"
proof (rule preservesI)
  fix st st' r
  assume body: "preserves (wf_st m) body" and st: "wf_st m st" and run: "guard_write_operation cfg op body st = (st', r)"
  have "wf_st m (fst st, drain_enter (snd st))" using st by (simp add: wf_st_def wf_updates drain_enter_def)
  note entered = preserves_run [OF body this]
  show "wf_st m st'"
    using run st entered preserves_run [OF body st]
    by (auto simp: guard_write_operation_def wf_st_def wf_updates drain_exit_def split: if_splits prod.splits)
qed

lemma wf_approval: "preserves (wf_st (fc_max_tracked_runs cfg)) (submit_approval cfg pt rq)"
  unfolding submit_approval_def
  by (intro wf_guard preserves_intros wf_modify) (simp add: wf_updates register_approval_def set_add_distinct sets_wf_add)

lemma wf_turn: "preserves (wf_st m) (facade_execute_turn cfg pt run a h key)"
  unfolding facade_execute_turn_def by (intro wf_guard preserves_intros)

lemma wf_open_stage: "preserves (wf_st (fc_max_tracked_runs cfg)) (open_stage cfg pt s r b)"
  unfolding open_stage_def
  by (intro preserves_intros wf_modify) (simp add: wf_updates registry_wf_set new_stage_view_def)

lemma wf_open_branch: "preserves (wf_st (fc_max_tracked_runs cfg)) (open_branch cfg pt rq)"
  unfolding open_branch_def
  by (intro preserves_intros wf_modify) (simp add: wf_updates registry_wf_set new_branch_view_def)

lemma wf_mark_stage: "preserves (wf_st (fc_max_tracked_runs cfg)) (mark_stage_state cfg pt r s new c)"
  unfolding mark_stage_state_def
proof (rule preserves_bind [OF wf_touch], rule preserves_read_bind [where Q = "\<lambda>v. \<forall>x. v = Some x \<longrightarrow> ts_stage_id x = s"])
  show "\<forall>x. nested_get (fa_stage_registry (snd st)) r s = Some x \<longrightarrow> ts_stage_id x = s"
    if "wf_st (fc_max_tracked_runs cfg) st" for st :: "'a facade"
    using that registry_wf_get [of ts_stage_id] by (auto simp: wf_st_def facade_wf_def parts_wf_def)
qed (auto split: option.split intro!: preserves_intros wf_modify simp: wf_updates updated_stage_view_def registry_wf_set)

lemma wf_mark_branch: "preserves (wf_st (fc_max_tracked_runs cfg)) (mark_branch_state cfg pt rq)"
  unfolding mark_branch_state_def
proof (rule preserves_bind [OF wf_touch], rule preserves_read_bind [where Q = "\<lambda>v. \<forall>x. v = Some x \<longrightarrow> tb_branch_id x = bu_branch_id rq"])
  show "\<forall>x. nested_get (fa_branch_registry (snd st)) (bu_run_id rq) (bu_branch_id rq) = Some x \<longrightarrow> tb_branch_id x = bu_branch_id rq"
    if "wf_st (fc_max_tracked_runs cfg) st" for st :: "'a facade"
    using that registry_wf_get [of tb_branch_id] by (auto simp: wf_st_def facade_wf_def parts_wf_def)
qed (auto split: option.split intro!: preserves_intros wf_modify simp: wf_updates updated_branch_view_def registry_wf_set)

lemma wf_gate: "preserves (wf_st (fc_max_tracked_runs cfg)) (open_human_gate cfg pt rq)"
  unfolding open_human_gate_def by (intro preserves_intros wf_modify) (simp add: wf_updates sets_wf_add)

lemma wf_escalation: "preserves (wf_st (fc_max_tracked_runs cfg)) (resolve_escalation cfg pt r n c)"
  unfolding resolve_escalation_def by (intro preserves_intros)

lemma wf_view [preserves_intros]: "preserves (wf_st m) (query_trace_runtime pt r)"
  unfolding query_trace_runtime_def by (intro preserves_intros)

lemma wf_note_completed [preserves_intros]: "preserves (wf_st m) (note_completed pt r)"
  unfolding note_completed_def by (intro preserves_intros wf_modify) (simp add: wf_updates)

lemma wf_postmortem: "preserves (wf_st m) (query_run_postmortem pt r)"
  unfolding query_run_postmortem_def total_action_count_def by (intro preserves_intros)

lemma wf_children: "preserves (wf_st m) (child_summaries pt ids)"
proof (induction ids)
  case (Cons i ids)
  then show ?case unfolding child_summaries.simps child_summary_def Let_def by (intro preserves_intros)
qed (simp add: preserves_def)

lemma wf_calls:
  "preserves (wf_st m) (query_run_dashboard pt r)" "preserves (wf_st m) (escalate_recovery pt r reason c)"
  "preserves (wf_st m) (signal_run pt sq)" "preserves (wf_st m) (stream_run_events pt r d)"
  "preserves (wf_st m) (query_child_runs pt r)" "preserves (wf_st m) (get_action_state pt key)"
  unfolding query_run_dashboard_def escalate_recovery_def signal_run_def stream_run_events_def query_child_runs_def
    get_action_state_def Let_def
  by (intro preserves_intros wf_children)+

lemma wf_delegate: "preserves (wf_st m) (delegate op store f x)"
  unfolding delegate_def by (intro preserves_intros)

section \<open>Any sequence of calls\<close>

text \<open>A call of the facade, whether it returns or raises.\<close>

inductive facade_call :: "facade_config \<Rightarrow> 'g facade_ports \<Rightarrow> 'g facade \<Rightarrow> 'g facade \<Rightarrow> bool" for cfg pt where
  start: "start_run cfg pt start_request st = (st', start_res) \<Longrightarrow> facade_call cfg pt st st'"
| signal: "signal_run pt signal_request st = (st', signal_res) \<Longrightarrow> facade_call cfg pt st st'"
| stream: "stream_run_events pt run_id diagnostic st = (st', stream_res) \<Longrightarrow> facade_call cfg pt st st'"
| cancel: "cancel_run pt cancel_request st = (st', cancel_res) \<Longrightarrow> facade_call cfg pt st st'"
| resume: "resume_run pt resume_request st = (st', resume_res) \<Longrightarrow> facade_call cfg pt st st'"
| escalate: "escalate_recovery pt run_id reason cause st = (st', escalate_res) \<Longrightarrow> facade_call cfg pt st st'"
| query: "query_run pt run_id st = (st', query_res) \<Longrightarrow> facade_call cfg pt st st'"
| dashboard: "query_run_dashboard pt run_id st = (st', dashboard_res) \<Longrightarrow> facade_call cfg pt st st'"
| spawn: "spawn_child_run pt spawn_request st = (st', spawn_res) \<Longrightarrow> facade_call cfg pt st st'"
| turn: "facade_execute_turn cfg pt run_id a handler key st = (st', turn_res) \<Longrightarrow> facade_call cfg pt st st'"
| approve: "submit_approval cfg pt approval st = (st', approval_res) \<Longrightarrow> facade_call cfg pt st st'"
| stage: "open_stage cfg pt stage_id run_id branch_id st = (st', stage_res) \<Longrightarrow> facade_call cfg pt st st'"
| mark_stage: "mark_stage_state cfg pt run_id stage_id new_state code st = (st', mark_res) \<Longrightarrow> facade_call cfg pt st st'"
| branch: "open_branch cfg pt branch_request st = (st', branch_res) \<Longrightarrow> facade_call cfg pt st st'"
| mark_branch: "mark_branch_state cfg pt update_request st = (st', update_res) \<Longrightarrow> facade_call cfg pt st st'"
| gate: "open_human_gate cfg pt gate_request st = (st', gate_res) \<Longrightarrow> facade_call cfg pt st st'"
| resolve: "resolve_escalation cfg pt run_id note_text cause st = (st', resolve_res) \<Longrightarrow> facade_call cfg pt st st'"
| view: "query_trace_runtime pt run_id st = (st', view_res) \<Longrightarrow> facade_call cfg pt st st'"
| postmortem: "query_run_postmortem pt run_id st = (st', postmortem_res) \<Longrightarrow> facade_call cfg pt st st'"
| children: "query_child_runs pt run_id st = (st', children_res) \<Longrightarrow> facade_call cfg pt st st'"
| action_state: "get_action_state pt key st = (st', state_res) \<Longrightarrow> facade_call cfg pt st st'"
| drain: "set_draining b st = (st', drain_res) \<Longrightarrow> facade_call cfg pt st st'"
| cleanup: "facade_cleanup_completed_run run_id st = (st', cleanup_res) \<Longrightarrow> facade_call cfg pt st st'"

lemma wf_set_draining: "preserves (wf_st m) (set_draining b)"
  unfolding set_draining_def by (rule wf_modify) (simp add: wf_updates)

lemma wf_cleanup: "preserves (wf_st m) (facade_cleanup_completed_run r)"
  unfolding facade_cleanup_completed_run_def by (rule wf_modify) (rule cleanup_wf)

lemmas facade_steps_wf = wf_start wf_calls wf_cancel wf_resume wf_query wf_spawn wf_turn wf_approval wf_open_stage wf_mark_stage
  wf_open_branch wf_mark_branch wf_gate wf_escalation wf_view wf_postmortem wf_set_draining wf_cleanup

lemma facade_call_wf: "facade_call cfg pt st st' \<Longrightarrow> wf_st (fc_max_tracked_runs cfg) st \<Longrightarrow> wf_st (fc_max_tracked_runs cfg) st'"
  by (induction rule: facade_call.induct) (erule facade_steps_wf [THEN preservesD, rotated], assumption)+

text \<open>
  C14 (type): whatever sequence of calls a new facade receives and whatever the gateway, the log, the
  stores and the clock answer or raise, its state stays well-formed: a branch or stage is registered
  under its own name, a checkpoint under the run it is of, no set holds an element twice, no more
  runs are tracked than configured, and the count of operations in flight is never negative.
\<close>

theorem facade_state_well_typed:
  assumes "(facade_call cfg pt)\<^sup>*\<^sup>* (g, initial_facade ca None) (g', fa)"
  shows "tracked_ok (fc_max_tracked_runs cfg) fa \<and> 0 \<le> fa_in_flight_count fa
    \<and> registry_wf tb_branch_id (fa_branch_registry fa) \<and> registry_wf ts_stage_id (fa_stage_registry fa)
    \<and> sets_wf (fa_open_human_gates fa) \<and> sets_wf (fa_resolved_human_gates fa) \<and> sets_wf (fa_all_child_runs fa)
    \<and> distinct (fa_submitted_approvals fa) \<and> checkpoint_wf (fa_checkpoint_adapter fa)"
proof -
  have "wf_st (fc_max_tracked_runs cfg) (g, initial_facade ca None)"
    by (simp add: wf_st_def wf_updates initial_facade_def registry_wf_def sets_wf_def checkpoint_wf_def)
  with assms have "wf_st (fc_max_tracked_runs cfg) (g', fa)"
    by (induction rule: rtranclp_induct) (auto intro: facade_call_wf)
  then show ?thesis by (simp add: wf_st_def facade_wf_def parts_wf_def)
qed

theorem facade_state_well_typed_witness:
  "\<exists>g fa. sample_facade_opened = ((g, fa), Inr ()) \<and> tracked_ok 10000 fa \<and> registry_wf tb_branch_id (fa_branch_registry fa)"
proof -
  obtain g fa where o: "sample_facade_opened = ((g, fa), Inr ())"
    using sample_views_return
    by (cases sample_facade_opened) (auto simp: sample_views_def all_return_def split: prod.splits elim!: is_okE)
  have "facade_call sample_facade_config sample_ports (sample_world, initial_facade None None) sample_facade_started"
    unfolding sample_facade_started_def by (rule facade_call.start [OF prod.collapse [symmetric]])
  moreover have "facade_call sample_facade_config sample_ports sample_facade_started (g, fa)"
    by (rule facade_call.branch [OF o [unfolded sample_facade_opened_def]])
  ultimately have "(facade_call sample_facade_config sample_ports)\<^sup>*\<^sup>* (sample_world, initial_facade None None) (g, fa)" by auto
  from facade_state_well_typed [OF this] show ?thesis by (simp add: sample_facade_config_def o)
qed

end
