(* ===== verification/Kernel_Registries.thy ===== *)
theory Kernel_Registries
  imports Run_Actor Facade_Contracts Recovery_Planner
begin

text \<open>
  The tables the kernel declares its vocabulary in: \<^verbatim>\<open>kernel/event_registry.py\<close>,
  \<^verbatim>\<open>kernel/action_type_registry.py\<close>, \<^verbatim>\<open>kernel/failure_code_registry.py\<close> with the mappings of
  \<^verbatim>\<open>kernel/failure_mappings.py\<close>, and the manifest and health answers of the facade that are built from
  them.  The descriptions of the entries, prose for readers, are left out.  A frozen set is a set.
  A warning that is only logged is not part of the result.
\<close>

section \<open>A registry of named entries\<close>

text \<open>What the registries share: an entry is found under its name, and a name is registered once.\<close>

locale type_registry =
  fixes register :: "'r \<Rightarrow> 'd \<Rightarrow> 'r result"
    and get :: "'r \<Rightarrow> string \<Rightarrow> 'd option"
    and name_of :: "'d \<Rightarrow> string"
  assumes register_get: "register r d = Inr r' \<Longrightarrow> get r' n = (if n = name_of d then Some d else get r n)"
    and register_refused: "(\<exists>e. register r d = Inl e) \<longleftrightarrow> get r (name_of d) \<noteq> None"
begin

lemma register_fresh: "get r (name_of d) = None \<Longrightarrow> \<exists>r'. register r d = Inr r'"
  using register_refused [of r d] by (cases "register r d") auto

end

text \<open>The loop that registers the entries of a list at import time.\<close>

fun register_all :: "('r \<Rightarrow> 'd \<Rightarrow> 'r result) \<Rightarrow> 'd list \<Rightarrow> 'r \<Rightarrow> 'r result" where
  "register_all register [] r = Inr r"
| "register_all register (d # ds) r = bind_result (register r d) (register_all register ds)"

context type_registry
begin

lemma register_all_ok:
  assumes "distinct (map name_of ds)" "\<forall>d \<in> set ds. get r (name_of d) = None"
  shows "\<exists>r'. register_all register ds r = Inr r' \<and>
    (\<forall>n. get r' n = (case map_of (map (\<lambda>d. (name_of d, d)) ds) n of None \<Rightarrow> get r n | Some d \<Rightarrow> Some d))"
  using assms
proof (induction ds arbitrary: r)
  case (Cons d ds)
  obtain r1 where r1: "register r d = Inr r1" using register_fresh [of r d] Cons.prems(2) by auto
  have new: "name_of d \<notin> set (map name_of ds)" using Cons.prems(1) by simp
  then have "\<forall>x \<in> set ds. get r1 (name_of x) = None"
    using register_get [OF r1] Cons.prems(2) by (auto simp: image_iff)
  then obtain r' where r': "register_all register ds r1 = Inr r'"
    "\<forall>n. get r' n = (case map_of (map (\<lambda>d. (name_of d, d)) ds) n of None \<Rightarrow> get r1 n | Some d \<Rightarrow> Some d)"
    using Cons.IH [of r1] Cons.prems(1) by auto
  have "map_of (map (\<lambda>d. (name_of d, d)) ds) (name_of d) = None" using new by (simp add: map_of_eq_None_iff image_image)
  then have "\<forall>n. get r' n = (case map_of (map (\<lambda>d. (name_of d, d)) (d # ds)) n of None \<Rightarrow> get r n | Some x \<Rightarrow> Some x)"
    using r'(2) register_get [OF r1] by (auto split: option.split)
  then show ?case using r1 r'(1) by auto
qed simp

lemma register_all_duplicate:
  "\<not> distinct (map name_of ds) \<Longrightarrow> \<exists>e. register_all register ds r = Inl e"
proof (induction ds arbitrary: r)
  case (Cons d ds)
  have known: "\<exists>e. register_all register ds r = Inl e"
    if "get r n \<noteq> None" "n \<in> name_of ` set ds" for r n
    using that
  proof (induction ds arbitrary: r)
    case (Cons x xs)
    then show ?case
      by (cases "register r x"; cases "n = name_of x")
        (use register_refused [of r x] register_get [of r x _ n] in auto)
  qed simp
  show ?case
  proof (cases "register r d")
    case (Inr r1)
    then show ?thesis
      using Cons known [of r1 "name_of d"] register_get [OF Inr, of "name_of d"] by (cases "name_of d \<in> name_of ` set ds") auto
  qed simp
qed simp

end

definition quoted :: "string \<Rightarrow> string" where
  "quoted s = [CHR 0x27] @ s @ [CHR 0x27]"

section \<open>Event types\<close>

record event_type_descriptor =
  et_event_type :: string
  et_authority :: string
  et_affects_replay :: bool
  et_recovery_path_allowed :: bool
  et_schema_version :: string

definition CURRENT_EVENT_SCHEMA_VERSION :: string where
  "CURRENT_EVENT_SCHEMA_VERSION = ''1''"

definition EventTypeDescriptor :: "string \<Rightarrow> string \<Rightarrow> bool \<Rightarrow> bool \<Rightarrow> event_type_descriptor" where
  "EventTypeDescriptor event_type authority affects_replay recovery_path_allowed =
     \<lparr>et_event_type = event_type, et_authority = authority, et_affects_replay = affects_replay,
      et_recovery_path_allowed = recovery_path_allowed, et_schema_version = CURRENT_EVENT_SCHEMA_VERSION\<rparr>"

type_synonym event_type_registry = "(string, event_type_descriptor) dict"

definition register_event_type :: "event_type_registry \<Rightarrow> event_type_descriptor \<Rightarrow> event_type_registry result" where
  "register_event_type entries d =
     (if dict_has entries (et_event_type d)
      then Inl (ValueError (''Event type '' @ quoted (et_event_type d) @ '' is already registered. '' @
        ''Use a unique event_type string or update the existing entry.''))
      else Inr (dict_set (et_event_type d) d entries))"

definition get_event_type :: "event_type_registry \<Rightarrow> string \<Rightarrow> event_type_descriptor option" where
  "get_event_type entries event_type = dict_get entries event_type"

definition all_event_types :: "event_type_registry \<Rightarrow> event_type_descriptor list" where
  "all_event_types entries = sort_key et_event_type (map snd entries)"

definition known_event_types :: "event_type_registry \<Rightarrow> string set" where
  "known_event_types entries = set (map fst entries)"

definition KERNEL_EVENTS_1 :: "event_type_descriptor list" where
  "KERNEL_EVENTS_1 =
     [EventTypeDescriptor ''run.created'' ''RunActor'' True False,
      EventTypeDescriptor ''run.started'' ''RunActor'' True False,
      EventTypeDescriptor ''run.completed'' ''RunActor'' True False,
      EventTypeDescriptor ''run.aborted'' ''RunActor'' True False,
      EventTypeDescriptor ''run.child_completed'' ''RunActor'' True False,
      EventTypeDescriptor ''turn.intent_committed'' ''TurnEngine'' True False,
      EventTypeDescriptor ''turn.snapshot_built'' ''TurnEngine'' True False,
      EventTypeDescriptor ''turn.admission_checked'' ''Admission'' True False,
      EventTypeDescriptor ''turn.dispatch_blocked'' ''Admission'' True False,
      EventTypeDescriptor ''turn.dispatched'' ''Executor'' True False,
      EventTypeDescriptor ''turn.dispatch_acknowledged'' ''Executor'' True False,
      EventTypeDescriptor ''turn.effect_unknown'' ''Executor'' True False,
      EventTypeDescriptor ''turn.effect_recorded'' ''Executor'' True False,
      EventTypeDescriptor ''turn.completed_noop'' ''TurnEngine'' True False,
      EventTypeDescriptor ''turn.recovery_pending'' ''Recovery'' True False,
      EventTypeDescriptor ''turn.branch_dispatched'' ''Executor'' False False,
      EventTypeDescriptor ''turn.branch_acknowledged'' ''Executor'' False False]"

definition KERNEL_EVENTS_2 :: "event_type_descriptor list" where
  "KERNEL_EVENTS_2 =
     [EventTypeDescriptor ''turn.branch_failed'' ''Executor'' False False,
      EventTypeDescriptor ''turn.parallel_joined'' ''TurnEngine'' True False,
      EventTypeDescriptor ''turn.branch_rollback_intent'' ''Executor'' False False,
      EventTypeDescriptor ''recovery.plan_selected'' ''Recovery'' False True,
      EventTypeDescriptor ''recovery.outcome_recorded'' ''Recovery'' True False,
      EventTypeDescriptor ''recovery.human_escalation'' ''Recovery'' True False,
      EventTypeDescriptor ''signal.received'' ''RunActor'' True False,
      EventTypeDescriptor ''signal.child_completed'' ''RunActor'' True False,
      EventTypeDescriptor ''run.dispatching'' ''RunActor'' True False,
      EventTypeDescriptor ''run.recovering'' ''RunActor'' True True,
      EventTypeDescriptor ''run.ready'' ''RunActor'' True False,
      EventTypeDescriptor ''run.waiting_result'' ''RunActor'' True False,
      EventTypeDescriptor ''run.recovery_aborted'' ''Recovery'' True True,
      EventTypeDescriptor ''run.waiting_external'' ''RunActor'' True True,
      EventTypeDescriptor ''run.waiting_human_input'' ''RunActor'' True True,
      EventTypeDescriptor ''run.cancel_requested'' ''RunActor'' True False,
      EventTypeDescriptor ''run.resume_requested'' ''RunActor'' True False]"

definition KERNEL_EVENTS_3 :: "event_type_descriptor list" where
  "KERNEL_EVENTS_3 =
     [EventTypeDescriptor ''run.approval_submitted'' ''RunActor'' True False,
      EventTypeDescriptor ''run.recovery_succeeded'' ''Recovery'' True False,
      EventTypeDescriptor ''run.heartbeat'' ''RunHeartbeatMonitor'' False False,
      EventTypeDescriptor ''run.heartbeat_timeout'' ''RunHeartbeatMonitor'' True False,
      EventTypeDescriptor ''derived_diagnostic'' ''ObservabilityHook'' False False,
      EventTypeDescriptor ''task.registered'' ''TaskManager'' True False,
      EventTypeDescriptor ''task.attempt_started'' ''TaskManager'' True False,
      EventTypeDescriptor ''task.attempt_completed'' ''TaskManager'' True False,
      EventTypeDescriptor ''task.attempt_failed'' ''TaskManager'' True False,
      EventTypeDescriptor ''task.restarting'' ''TaskManager'' True False,
      EventTypeDescriptor ''task.reflecting'' ''TaskManager'' True False,
      EventTypeDescriptor ''task.completed'' ''TaskManager'' True False,
      EventTypeDescriptor ''task.escalated'' ''TaskManager'' True False,
      EventTypeDescriptor ''task.aborted'' ''TaskManager'' True False,
      EventTypeDescriptor ''run.child_run_completed'' ''RunActor'' True False]"

definition TRACE_LIFECYCLE_EVENTS :: "event_type_descriptor list" where
  "TRACE_LIFECYCLE_EVENTS =
     [EventTypeDescriptor ''branch.opened'' ''RunActor'' True False,
      EventTypeDescriptor ''branch.state_updated'' ''RunActor'' True False,
      EventTypeDescriptor ''branch.pruned'' ''RunActor'' True False,
      EventTypeDescriptor ''branch.succeeded'' ''RunActor'' True False,
      EventTypeDescriptor ''branch.failed'' ''RunActor'' True False,
      EventTypeDescriptor ''task_view.recorded'' ''RunActor'' True False,
      EventTypeDescriptor ''human_gate.opened'' ''RunActor'' True False,
      EventTypeDescriptor ''run.policy_versions_pinned'' ''RunActor'' True False]"

definition FACADE_TRACE_EVENTS :: "event_type_descriptor list" where
  "FACADE_TRACE_EVENTS =
     [EventTypeDescriptor ''trace.branch_opened'' ''derived_replayable'' True False,
      EventTypeDescriptor ''trace.branch_state_changed'' ''derived_replayable'' True False,
      EventTypeDescriptor ''trace.stage_opened'' ''derived_replayable'' True False,
      EventTypeDescriptor ''trace.stage_state_changed'' ''derived_replayable'' True False,
      EventTypeDescriptor ''trace.human_gate_opened'' ''derived_replayable'' True False,
      EventTypeDescriptor ''trace.human_gate_resolved'' ''derived_replayable'' True False]"

definition KERNEL_EVENTS :: "event_type_descriptor list" where
  "KERNEL_EVENTS = KERNEL_EVENTS_1 @ KERNEL_EVENTS_2 @ KERNEL_EVENTS_3"

text \<open>The module registers the kernel's events, then the lifecycle events one by one, then the facade's.\<close>

definition build_event_registry :: "event_type_registry result" where
  "build_event_registry =
     bind_result (register_all register_event_type KERNEL_EVENTS []) (\<lambda>r.
     bind_result (register_all register_event_type TRACE_LIFECYCLE_EVENTS r)
       (register_all register_event_type FACADE_TRACE_EVENTS))"

definition KERNEL_EVENT_REGISTRY :: event_type_registry where
  "KERNEL_EVENT_REGISTRY = (case build_event_registry of Inl _ \<Rightarrow> [] | Inr r \<Rightarrow> r)"

definition recovery_allowed_event_types :: "string set" where
  "recovery_allowed_event_types =
     set (map et_event_type (filter et_recovery_path_allowed (all_event_types KERNEL_EVENT_REGISTRY)))"

definition validate_event_type :: "string \<Rightarrow> bool \<Rightarrow> bool result" where
  "validate_event_type event_type strict =
     (if event_type \<in> known_event_types KERNEL_EVENT_REGISTRY then Inr True
      else if startswith event_type ''signal.'' then Inr True
      else if strict
      then Inl (ValueError (''Event type '' @ quoted event_type @ '' is not registered in KERNEL_EVENT_REGISTRY. '' @
        ''Call KERNEL_EVENT_REGISTRY.register() at module import time to prevent '' @
        ''semantic pollution across teams.''))
      else Inr False)"

definition validate_event_schema_version :: "string \<Rightarrow> bool \<Rightarrow> bool result" where
  "validate_event_schema_version schema_version strict =
     (if schema_version = CURRENT_EVENT_SCHEMA_VERSION then Inr True
      else if strict
      then Inl (ValueError (''RuntimeEvent schema_version='' @ repr_str schema_version @ '' does not match '' @
        ''current version='' @ repr_str CURRENT_EVENT_SCHEMA_VERSION @ ''. '' @
        ''Events from older deployments may be missing fields or carry '' @
        ''incompatible payload shapes.''))
      else Inr False)"

definition current_event_schema_version :: string where
  "current_event_schema_version = CURRENT_EVENT_SCHEMA_VERSION"

section \<open>Action types\<close>

record action_type_descriptor =
  at_action_type :: string
  at_executor_hint :: string
  at_is_idempotent :: bool
  at_supports_dedupe :: bool
  at_allowed_effect_classes :: "string list"

type_synonym action_type_registry = "(string, action_type_descriptor) dict"

definition register_action_type :: "action_type_registry \<Rightarrow> action_type_descriptor \<Rightarrow> action_type_registry result" where
  "register_action_type entries d =
     (if dict_has entries (at_action_type d)
      then Inl (ValueError (''Action type '' @ quoted (at_action_type d) @ '' is already registered. '' @
        ''Use a unique action_type string or update the existing entry.''))
      else Inr (dict_set (at_action_type d) d entries))"

definition get_action_type :: "action_type_registry \<Rightarrow> string \<Rightarrow> action_type_descriptor option" where
  "get_action_type entries action_type = dict_get entries action_type"

definition known_action_types :: "action_type_registry \<Rightarrow> string set" where
  "known_action_types entries = set (map fst entries)"

definition all_action_types :: "action_type_registry \<Rightarrow> action_type_descriptor list" where
  "all_action_types entries = sort_key at_action_type (map snd entries)"

definition KERNEL_ACTION_TYPES :: "action_type_descriptor list" where
  "KERNEL_ACTION_TYPES =
     [\<lparr>at_action_type = ''tool_call'', at_executor_hint = ''local_process'', at_is_idempotent = False,
       at_supports_dedupe = True, at_allowed_effect_classes = []\<rparr>,
      \<lparr>at_action_type = ''mcp_call'', at_executor_hint = ''local_process'', at_is_idempotent = False,
       at_supports_dedupe = True, at_allowed_effect_classes = []\<rparr>,
      \<lparr>at_action_type = ''skill_script'', at_executor_hint = ''local_process'', at_is_idempotent = False,
       at_supports_dedupe = True, at_allowed_effect_classes = []\<rparr>,
      \<lparr>at_action_type = ''sub_agent'', at_executor_hint = ''remote_service'', at_is_idempotent = True,
       at_supports_dedupe = True, at_allowed_effect_classes = []\<rparr>,
      \<lparr>at_action_type = ''noop'', at_executor_hint = ''local_process'', at_is_idempotent = True,
       at_supports_dedupe = False, at_allowed_effect_classes = []\<rparr>]"

definition KERNEL_ACTION_TYPE_REGISTRY :: action_type_registry where
  "KERNEL_ACTION_TYPE_REGISTRY = (case register_all register_action_type KERNEL_ACTION_TYPES [] of Inl _ \<Rightarrow> [] | Inr r \<Rightarrow> r)"

definition KNOWN_EFFECT_CLASSES :: "string list" where
  "KNOWN_EFFECT_CLASSES = [''read_only'', ''compensatable_write'', ''fire_forget'', ''irreversible_write'']"

definition validate_effect_class :: "string \<Rightarrow> bool \<Rightarrow> bool result" where
  "validate_effect_class effect_class strict =
     (if effect_class \<in> set KNOWN_EFFECT_CLASSES then Inr True
      else if strict
      then Inl (ValueError (''Effect class '' @ quoted effect_class @ '' is not in KNOWN_EFFECT_CLASSES '' @
        ''(['' @ join '', '' (map repr_str (sort KNOWN_EFFECT_CLASSES)) @ '']). Add it to KNOWN_EFFECT_CLASSES or '' @
        ''accept reduced admission heuristics for this class.''))
      else Inr False)"

definition validate_action_type :: "string \<Rightarrow> bool \<Rightarrow> bool result" where
  "validate_action_type action_type strict =
     (if action_type \<in> known_action_types KERNEL_ACTION_TYPE_REGISTRY then Inr True
      else if strict
      then Inl (ValueError (''Action type '' @ quoted action_type @ '' is not registered in KERNEL_ACTION_TYPE_REGISTRY. '' @
        ''Call KERNEL_ACTION_TYPE_REGISTRY.register() at module import time to prevent '' @
        ''semantic pollution across teams.''))
      else Inr False)"

section \<open>Failure codes\<close>

record failure_code_registry =
  fr_recovery_map :: "(trace_failure_code, string) dict"
  fr_gate_map :: "(trace_failure_code, string option) dict"

definition FailureCodeRegistry :: failure_code_registry where
  "FailureCodeRegistry = \<lparr>fr_recovery_map = [], fr_gate_map = []\<rparr>"

definition register_recovery :: "trace_failure_code \<Rightarrow> string \<Rightarrow> failure_code_registry \<Rightarrow> failure_code_registry" where
  "register_recovery code action r = r\<lparr>fr_recovery_map := dict_set code action (fr_recovery_map r)\<rparr>"

definition register_gate :: "trace_failure_code \<Rightarrow> string option \<Rightarrow> failure_code_registry \<Rightarrow> failure_code_registry" where
  "register_gate code gate_type r = r\<lparr>fr_gate_map := dict_set code gate_type (fr_gate_map r)\<rparr>"

text \<open>\<^verbatim>\<open>dict.update\<close>\<close>

definition dict_update :: "('k, 'v) dict \<Rightarrow> ('k, 'v) dict \<Rightarrow> ('k, 'v) dict" where
  "dict_update new d = fold (\<lambda>(k, v). dict_set k v) new d"

definition register_batch ::
  "(trace_failure_code, string) dict option \<Rightarrow> (trace_failure_code, string option) dict option
     \<Rightarrow> failure_code_registry \<Rightarrow> failure_code_registry" where
  "register_batch recovery gates r =
     (let r = (case recovery of None \<Rightarrow> r | Some m \<Rightarrow>
                 if m = [] then r else r\<lparr>fr_recovery_map := dict_update m (fr_recovery_map r)\<rparr>)
      in case gates of None \<Rightarrow> r | Some m \<Rightarrow> if m = [] then r else r\<lparr>fr_gate_map := dict_update m (fr_gate_map r)\<rparr>)"

definition get_recovery :: "failure_code_registry \<Rightarrow> trace_failure_code \<Rightarrow> string option" where
  "get_recovery r code = dict_get (fr_recovery_map r) code"

definition get_gate :: "failure_code_registry \<Rightarrow> trace_failure_code \<Rightarrow> string option" where
  "get_gate r code = (case dict_get (fr_gate_map r) code of None \<Rightarrow> None | Some g \<Rightarrow> g)"

definition has_mapping :: "failure_code_registry \<Rightarrow> trace_failure_code \<Rightarrow> bool" where
  "has_mapping r code \<longleftrightarrow> dict_has (fr_recovery_map r) code \<or> dict_has (fr_gate_map r) code"

definition FAILURE_RECOVERY_MAP :: "(trace_failure_code, string) dict" where
  "FAILURE_RECOVERY_MAP =
     [(MISSING_EVIDENCE, ''task_view_degradation''), (INVALID_CONTEXT, ''pre_call_abort''),
      (HARNESS_DENIED, ''approval_escalation''), (MODEL_OUTPUT_INVALID, ''retry_or_downgrade_model''),
      (MODEL_REFUSAL, ''alternate_model_or_human''), (CALLBACK_TIMEOUT, ''recovery_path''),
      (NO_PROGRESS, ''watchdog_handling''), (CONTRADICTORY_EVIDENCE, ''human_gate_c''),
      (UNSAFE_ACTION_BLOCKED, ''human_gate_approval''), (EXPLORATION_BUDGET_EXHAUSTED, ''cts_termination_or_gate_b''),
      (EXECUTION_BUDGET_EXHAUSTED, ''cts_termination_or_gate_b'')]"

definition FAILURE_GATE_MAP :: "(trace_failure_code, string option) dict" where
  "FAILURE_GATE_MAP =
     [(MISSING_EVIDENCE, None), (INVALID_CONTEXT, None), (HARNESS_DENIED, Some ''gate_d''), (MODEL_OUTPUT_INVALID, None),
      (MODEL_REFUSAL, None), (CALLBACK_TIMEOUT, None), (NO_PROGRESS, Some ''gate_b''), (CONTRADICTORY_EVIDENCE, Some ''gate_a''),
      (UNSAFE_ACTION_BLOCKED, Some ''gate_d''), (EXPLORATION_BUDGET_EXHAUSTED, Some ''gate_b''),
      (EXECUTION_BUDGET_EXHAUSTED, Some ''gate_b'')]"

section \<open>Manifest and health of the facade\<close>

definition PROTOCOL_VERSION :: string where
  "PROTOCOL_VERSION = ''1.0.0''"

definition INTERACTION_TARGETS :: "string set" where
  "INTERACTION_TARGETS = {''agent_peer'', ''it_service'', ''data_system'', ''tool_executor'', ''human_actor'', ''event_stream''}"

definition GOVERNANCE_FEATURES :: "string set" where
  "GOVERNANCE_FEATURES = {''approval_gate'', ''at_most_once_dedupe'', ''speculation_mode'', ''replay_fidelity'',
     ''recovery_gate'', ''capability_snapshot_sha256''}"

definition SUBSTRATE_LIMITATIONS :: "(string, string set) dict" where
  "SUBSTRATE_LIMITATIONS =
     [(''local_fsm'', {''no_child_workflow_isolation'', ''no_temporal_history'', ''no_cross_process_speculation''}),
      (''temporal'', {})]"

definition substrate_limitations :: "string \<Rightarrow> string set" where
  "substrate_limitations substrate_type = dict_get_or SUBSTRATE_LIMITATIONS substrate_type {}"

record kernel_manifest =
  mf_kernel_version :: string
  mf_protocol_version :: string
  mf_supported_action_types :: "string set"
  mf_supported_interaction_targets :: "string set"
  mf_supported_recovery_modes :: "string set"
  mf_supported_governance_features :: "string set"
  mf_supported_event_types :: "string set"
  mf_substrate_type :: string
  mf_capability_snapshot_schema_version :: string
  mf_substrate_limitations :: "string set"
  mf_trace_protocol_version :: string
  mf_supported_trace_features :: "string set"

definition get_manifest :: "string \<Rightarrow> string \<Rightarrow> kernel_manifest" where
  "get_manifest kernel_version substrate_type =
     \<lparr>mf_kernel_version = kernel_version, mf_protocol_version = PROTOCOL_VERSION,
      mf_supported_action_types = known_action_types KERNEL_ACTION_TYPE_REGISTRY,
      mf_supported_interaction_targets = INTERACTION_TARGETS,
      mf_supported_recovery_modes = known_actions KERNEL_RECOVERY_MODE_REGISTRY,
      mf_supported_governance_features = GOVERNANCE_FEATURES,
      mf_supported_event_types = known_event_types KERNEL_EVENT_REGISTRY,
      mf_substrate_type = substrate_type, mf_capability_snapshot_schema_version = ''2'',
      mf_substrate_limitations = substrate_limitations substrate_type, mf_trace_protocol_version = ''2.8'',
      mf_supported_trace_features = {''run_policy_version_freeze'', ''trace_runtime_view'', ''task_view_record'',
        ''task_view_late_bind'', ''branch_lifecycle'', ''stage_lifecycle'', ''human_gate'', ''action_state_query'',
        ''trace_failure_code'', ''side_effect_class'', ''evolve_postmortem'', ''child_run_orchestration''}\<rparr>"

text \<open>What \<^verbatim>\<open>getattr\<close> finds on the health probe: nothing that can be called, a coroutine function, or a function.\<close>

datatype probe_method = NoProbe | AsyncProbe | SyncProbe "jdict result"

definition health_answer :: "string \<Rightarrow> string \<Rightarrow> probe_method \<Rightarrow> jdict result" where
  "health_answer method substrate_type probe =
     (case probe of
        SyncProbe r \<Rightarrow> r
      | AsyncProbe \<Rightarrow> Inl (TypeError (''KernelHealthProbe.'' @ method @ '' must be synchronous; got an async method. '' @
          ''Wrap it in a sync adapter before injecting.''))
      | NoProbe \<Rightarrow> Inr [(''status'', JStr ''ok''), (''substrate'', JStr substrate_type)])"

definition facade_get_health :: "string \<Rightarrow> probe_method \<Rightarrow> jdict result" where
  "facade_get_health substrate_type probe = health_answer ''liveness'' substrate_type probe"

definition facade_get_health_readiness :: "string \<Rightarrow> probe_method \<Rightarrow> jdict result" where
  "facade_get_health_readiness substrate_type probe = health_answer ''readiness'' substrate_type probe"

section \<open>The registries\<close>

interpretation ereg: type_registry register_event_type get_event_type et_event_type
  by unfold_locales (auto simp: register_event_type_def get_event_type_def dict_has_iff split: if_splits)

interpretation areg: type_registry register_action_type get_action_type at_action_type
  by unfold_locales (auto simp: register_action_type_def get_action_type_def dict_has_iff split: if_splits)


interpretation mreg: type_registry "\<lambda>r d. register_mode r (fst d) (snd d)" "\<lambda>r n. map_option (Pair n) (get_mode r n)" fst
  by unfold_locales (auto simp: register_mode_def get_mode_def split: option.splits)

text \<open>No name is registered twice, so the module can be imported.\<close>

lemma kernel_event_names_distinct:
  "distinct (map et_event_type (KERNEL_EVENTS @ TRACE_LIFECYCLE_EVENTS @ FACADE_TRACE_EVENTS))"
  by code_simp

lemma kernel_event_registry:
  "build_event_registry = Inr (map (\<lambda>d. (et_event_type d, d)) (KERNEL_EVENTS @ TRACE_LIFECYCLE_EVENTS @ FACADE_TRACE_EVENTS))"
  by code_simp

lemma kernel_action_type_registry:
  "register_all register_action_type KERNEL_ACTION_TYPES [] = Inr (map (\<lambda>d. (at_action_type d, d)) KERNEL_ACTION_TYPES)"
  by code_simp

lemma known_event_types_eq:
  "known_event_types KERNEL_EVENT_REGISTRY = set (map et_event_type (KERNEL_EVENTS @ TRACE_LIFECYCLE_EVENTS @ FACADE_TRACE_EVENTS))"
  by (simp add: KERNEL_EVENT_REGISTRY_def kernel_event_registry known_event_types_def image_image)

lemma recovery_allowed_eq:
  "recovery_allowed_event_types =
     {''recovery.plan_selected'', ''run.recovering'', ''run.recovery_aborted'', ''run.waiting_external'', ''run.waiting_human_input''}"
proof -
  have "recovery_allowed_event_types = set (map et_event_type (filter et_recovery_path_allowed
      (KERNEL_EVENTS @ TRACE_LIFECYCLE_EVENTS @ FACADE_TRACE_EVENTS)))"
    by (simp add: recovery_allowed_event_types_def all_event_types_def KERNEL_EVENT_REGISTRY_def kernel_event_registry filter_sort
        comp_def del: filter_append)
  also have "\<dots> = {''recovery.plan_selected'', ''run.recovering'', ''run.recovery_aborted'', ''run.waiting_external'', ''run.waiting_human_input''}"
    by code_simp
  finally show ?thesis .
qed

lemma registered_types:
  "{''run.resume_requested'', ''run.cancel_requested'', ''run.recovery_aborted'', ''run.waiting_external'', ''run.recovery_succeeded'',
    ''run.approval_submitted'', ''run.child_run_completed'', ''run.dispatching'', ''run.recovering'', ''run.ready'',
    ''run.policy_versions_pinned'', ''recovery.plan_selected''} \<subseteq> known_event_types KERNEL_EVENT_REGISTRY"
  "''run.plan_submitted'' \<notin> known_event_types KERNEL_EVENT_REGISTRY" "''run.speculation_committed'' \<notin> known_event_types KERNEL_EVENT_REGISTRY"
  "''trace.escalation_resolved'' \<notin> known_event_types KERNEL_EVENT_REGISTRY"
  unfolding known_event_types_eq by code_simp+

text \<open>
  The events that a run actor appends on its own account are declared.  Whatever
  the outcome of a turn and whatever the mode of a recovery, their event types pass the strict
  validation, and the type of a recovery event is one the registry allows on that path.  The event
  type of a signal passes it for every signal but two, which have event types no module declares.
\<close>

theorem actor_event_types_registered:
  "validate_event_type (turn_outcome_event_type outcome) True = Inr True
   \<and> validate_event_type (recovery_event_type mode) True = Inr True \<and> recovery_event_type mode \<in> recovery_allowed_event_types
   \<and> (validate_event_type (signal_event_type t) True = Inr True \<longleftrightarrow> t \<notin> {''plan_submitted'', ''speculation_committed''})"
proof (intro conjI)
  show "validate_event_type (turn_outcome_event_type outcome) True = Inr True"
    using registered_types(1) by (cases outcome) (simp_all add: validate_event_type_def)
  show "validate_event_type (recovery_event_type mode) True = Inr True" "recovery_event_type mode \<in> recovery_allowed_event_types"
    using registered_types(1) by (simp_all add: validate_event_type_def recovery_event_type_def recovery_allowed_eq)
  show "validate_event_type (signal_event_type t) True = Inr True \<longleftrightarrow> t \<notin> {''plan_submitted'', ''speculation_committed''}"
  proof (cases "dict_get SIGNAL_EVENT_TYPE_MAP t")
    case None
    then show ?thesis
      by (auto simp: signal_event_type_def validate_event_type_def startswith_def SIGNAL_EVENT_TYPE_MAP_def dict_get_def)
  next
    case (Some et)
    then have "(t, et) \<in> set SIGNAL_EVENT_TYPE_MAP" by (simp add: dict_get_def map_of_SomeD)
    then show ?thesis
      using Some registered_types
      by (auto simp: SIGNAL_EVENT_TYPE_MAP_def signal_event_type_def validate_event_type_def startswith_def)
  qed
qed

text \<open>The actor keeps an allowlist of its own, which lacks two types that the registry allows on the recovery path.\<close>

lemma recovery_allowlists_differ:
  "event_type \<in> {''recovery.plan_selected'', ''run.waiting_human_input''} \<Longrightarrow> event_type \<in> recovery_allowed_event_types \<and>
     (\<exists>e. assert_recovery_event_type_allowed event_type s = (s, Inl e))"
  by (auto simp: recovery_allowed_eq assert_recovery_event_type_allowed_def raise_act_def)

text \<open>The vocabulary of effect classes lacks a class that actions have, and holds one that none has.\<close>

lemma effect_classes_differ:
  "validate_effect_class (effect_class_str c) True = Inr True \<longleftrightarrow> c \<noteq> IDEMPOTENT_WRITE"
  "validate_effect_class ''fire_forget'' True = Inr True" "effect_class_str c \<noteq> ''fire_forget''"
  by (cases c; simp add: validate_effect_class_def KNOWN_EFFECT_CLASSES_def)+

text \<open>What the manifest calls recovery modes are plan actions.\<close>

lemma manifest_recovery_modes:
  "mf_supported_recovery_modes (get_manifest v s) = {''schedule_compensation'', ''notify_human_operator'', ''abort_run''}"
  by (auto simp: get_manifest_def known_actions_def kernel_registry_eq BUILTIN_MAPPINGS_def)

text \<open>The standard mappings cover every failure code, and a batch overrides what was registered.\<close>

lemma dict_get_update: "dict_get (dict_update new d) k = (case map_of (rev new) k of None \<Rightarrow> dict_get d k | Some v \<Rightarrow> Some v)"
  by (induction new arbitrary: d) (auto simp: dict_update_def map_add_def split: option.split)

lemma standard_mappings_total:
  "get_recovery (register_batch (Some FAILURE_RECOVERY_MAP) (Some FAILURE_GATE_MAP) r) code \<noteq> None
   \<and> get_gate (register_batch (Some FAILURE_RECOVERY_MAP) (Some FAILURE_GATE_MAP) r) code = the (map_of FAILURE_GATE_MAP code)"
  by (cases code) (simp_all add: register_batch_def get_recovery_def get_gate_def dict_get_update FAILURE_RECOVERY_MAP_def FAILURE_GATE_MAP_def)

end
