(* ===== verification/Event_Export.thy ===== *)
theory Event_Export
  imports Run_Lifecycle SQLite_Event_Log "HOL-Library.Multiset"
begin

text \<open>
  \<^verbatim>\<open>kernel/event_export.py\<close>: the event log that exports every commit in the background, and the store that
  accumulates exported commits into a trace of each run.  A background task is a commit that waits for
  its export; tasks end in any order, and one that times out or raises is dropped.
\<close>

section \<open>Traces of runs\<close>

record turn_trace =
  tt_action_id :: string
  tt_action_type :: string
  tt_effect_class :: string
  tt_host_kind :: "string option"
  tt_outcome_kind :: "string option"
  tt_recovery_mode :: "string option"
  tt_turn_event_types :: "string list"
  tt_committed_at :: string
  tt_dedupe_outcome :: "string option"

record run_trace =
  xt_run_id :: string
  xt_turns :: "turn_trace list"
  xt_lifecycle_event_types :: "string list"
  xt_failure_count :: int
  xt_is_terminal :: bool
  xt_terminal_state :: "string option"
  xt_first_commit_at :: "string option"
  xt_last_commit_at :: "string option"

definition RunTrace :: "string \<Rightarrow> run_trace" where
  "RunTrace run_id =
     \<lparr>xt_run_id = run_id, xt_turns = [], xt_lifecycle_event_types = [], xt_failure_count = 0, xt_is_terminal = False,
      xt_terminal_state = None, xt_first_commit_at = None, xt_last_commit_at = None\<rparr>"

definition TERMINAL_EVENT_TYPES :: "string list" where
  "TERMINAL_EVENT_TYPES = [''run.completed'', ''run.aborted'']"

definition infer_outcome_kind :: "string list \<Rightarrow> string option" where
  "infer_outcome_kind event_types =
     (if ''turn.recovery_pending'' \<in> set event_types \<or> ''turn.effect_unknown'' \<in> set event_types then Some ''recovery_pending''
      else if ''turn.dispatch_acknowledged'' \<in> set event_types \<or> ''turn.effect_recorded'' \<in> set event_types
        \<or> ''turn.dispatched'' \<in> set event_types then Some ''dispatched''
      else if ''turn.dispatch_blocked'' \<in> set event_types then Some ''blocked''
      else if ''turn.completed_noop'' \<in> set event_types then Some ''noop''
      else None)"

definition infer_dedupe_outcome :: "string list \<Rightarrow> string option" where
  "infer_dedupe_outcome event_types =
     (if ''turn.dispatched'' \<in> set event_types
      then (if ''turn.dedupe_degraded'' \<in> set event_types then Some ''degraded'' else Some ''accepted'')
      else if ''turn.dispatch_blocked'' \<in> set event_types then Some ''duplicate''
      else None)"

text \<open>The first event of the given types whose payload holds a text under the key.\<close>

fun first_payload_text :: "string list \<Rightarrow> string \<Rightarrow> runtime_event list \<Rightarrow> string option" where
  "first_payload_text types key [] = None"
| "first_payload_text types key (e # es) =
     (case (ev_event_type e \<in> set types, ev_payload_json e) of
        (True, Some d) \<Rightarrow> (case jget d key of JStr s \<Rightarrow> Some s | _ \<Rightarrow> first_payload_text types key es)
      | _ \<Rightarrow> first_payload_text types key es)"

definition infer_recovery_mode :: "string list \<Rightarrow> runtime_event list \<Rightarrow> string option" where
  "infer_recovery_mode event_types events =
     (case first_payload_text [''recovery.plan_selected''] ''planned_mode'' events of
        Some mode \<Rightarrow> Some mode
      | None \<Rightarrow>
          if ''run.waiting_external'' \<in> set event_types \<or> ''run.waiting_human_input'' \<in> set event_types then Some ''human_escalation''
          else if ''run.recovery_aborted'' \<in> set event_types then Some ''abort''
          else if ''run.recovery_succeeded'' \<in> set event_types then Some ''static_compensation''
          else None)"

definition infer_host_kind :: "runtime_event list \<Rightarrow> string option" where
  "infer_host_kind events =
     first_payload_text [''turn.dispatched'', ''turn.dispatch_acknowledged'', ''turn.effect_unknown''] ''host_kind'' events"

definition build_turn_trace :: "action_commit \<Rightarrow> action \<Rightarrow> string list \<Rightarrow> turn_trace" where
  "build_turn_trace commit a event_types =
     \<lparr>tt_action_id = act_action_id a, tt_action_type = act_action_type a,
      tt_effect_class = effect_class_str (act_effect_class a), tt_host_kind = infer_host_kind (cm_events commit),
      tt_outcome_kind = infer_outcome_kind event_types,
      tt_recovery_mode = infer_recovery_mode event_types (cm_events commit), tt_turn_event_types = event_types,
      tt_committed_at = cm_created_at commit, tt_dedupe_outcome = infer_dedupe_outcome event_types\<rparr>"

text \<open>\<^verbatim>\<open>et.split(".")[1]\<close>\<close>

definition after_dot :: "string \<Rightarrow> string" where
  "after_dot et = takeWhile (\<lambda>c. c \<noteq> CHR ''.'') (drop 1 (dropWhile (\<lambda>c. c \<noteq> CHR ''.'') et))"

definition track_lifecycle :: "string \<Rightarrow> run_trace \<Rightarrow> run_trace" where
  "track_lifecycle et t =
     (if startswith et ''run.'' \<and> et \<notin> set (xt_lifecycle_event_types t)
      then t\<lparr>xt_lifecycle_event_types := xt_lifecycle_event_types t @ [et]\<rparr> else t)"

definition detect_terminal :: "string \<Rightarrow> run_trace \<Rightarrow> run_trace" where
  "detect_terminal et t =
     (if et \<in> set TERMINAL_EVENT_TYPES \<and> \<not> xt_is_terminal t
      then t\<lparr>xt_is_terminal := True, xt_terminal_state := Some (after_dot et)\<rparr> else t)"

definition absorb :: "action_commit \<Rightarrow> run_trace \<Rightarrow> run_trace" where
  "absorb commit t =
     (let t = t\<lparr>xt_first_commit_at := (case xt_first_commit_at t of None \<Rightarrow> Some (cm_created_at commit) | Some c \<Rightarrow> Some c),
                xt_last_commit_at := Some (cm_created_at commit)\<rparr>;
          event_types = map ev_event_type (cm_events commit);
          t = fold track_lifecycle event_types t;
          t = fold detect_terminal event_types t
      in case cm_action commit of
           None \<Rightarrow> t
         | Some a \<Rightarrow>
             (let turn = build_turn_trace commit a event_types;
                  t = t\<lparr>xt_turns := xt_turns t @ [turn]\<rparr>
              in if tt_outcome_kind turn = Some ''recovery_pending''
                 then t\<lparr>xt_failure_count := xt_failure_count t + 1\<rparr> else t))"

type_synonym run_trace_store = "(string, run_trace) dict"

definition export_commit :: "action_commit \<Rightarrow> run_trace_store \<Rightarrow> run_trace_store" where
  "export_commit commit traces =
     (let traces = (if dict_has traces (cm_run_id commit) then traces
                    else dict_set (cm_run_id commit) (RunTrace (cm_run_id commit)) traces)
      in dict_set (cm_run_id commit) (absorb commit (the (dict_get traces (cm_run_id commit)))) traces)"

definition get_trace :: "run_trace_store \<Rightarrow> string \<Rightarrow> run_trace option" where
  "get_trace traces run_id = dict_get traces run_id"

definition all_traces :: "run_trace_store \<Rightarrow> run_trace list" where
  "all_traces traces = sort_key xt_run_id (map snd traces)"

definition terminal_runs :: "run_trace_store \<Rightarrow> run_trace list" where
  "terminal_runs traces = filter xt_is_terminal (map snd traces)"

definition failed_runs :: "run_trace_store \<Rightarrow> run_trace list" where
  "failed_runs traces = filter (\<lambda>t. xt_failure_count t > 0) (map snd traces)"

section \<open>The exporting log\<close>

record 'l exporting_log =
  xl_inner :: 'l
  xl_background_tasks :: "action_commit list"

record export_config =
  xc_event_schema_migrator :: "migrations option"
  xc_target_event_schema_version :: "string option"

definition maybe_migrate_commit :: "export_config \<Rightarrow> action_commit \<Rightarrow> action_commit result" where
  "maybe_migrate_commit cfg commit =
     (case (xc_event_schema_migrator cfg, xc_target_event_schema_version cfg) of
        (Some migs, Some target) \<Rightarrow>
          bind_result (migrate_batch migs (cm_events commit) target) (\<lambda>events. Inr (commit\<lparr>cm_events := events\<rparr>))
      | _ \<Rightarrow> Inr commit)"

definition exporting_append ::
  "('l \<Rightarrow> action_commit \<Rightarrow> 'l \<times> string result) \<Rightarrow> export_config \<Rightarrow> 'l exporting_log \<Rightarrow> action_commit
     \<Rightarrow> 'l exporting_log \<times> string result" where
  "exporting_append append_inner cfg x commit =
     (case append_inner (xl_inner x) commit of
        (l, Inl e) \<Rightarrow> (x\<lparr>xl_inner := l\<rparr>, Inl e)
      | (l, Inr commit_ref) \<Rightarrow>
          (case maybe_migrate_commit cfg commit of
             Inl e \<Rightarrow> (x\<lparr>xl_inner := l\<rparr>, Inl e)
           | Inr export \<Rightarrow> (x\<lparr>xl_inner := l, xl_background_tasks := xl_background_tasks x @ [export]\<rparr>, Inr commit_ref)))"

definition exporting_load :: "('l \<Rightarrow> string \<Rightarrow> int \<Rightarrow> runtime_event list) \<Rightarrow> 'l exporting_log \<Rightarrow> string \<Rightarrow> int \<Rightarrow> runtime_event list" where
  "exporting_load load x run_id after_offset = load (xl_inner x) run_id after_offset"

text \<open>An export that times out or raises leaves the state of the platform store as it was then.\<close>

definition safe_export :: "(action_commit \<Rightarrow> ('x, unit) act) \<Rightarrow> action_commit \<Rightarrow> ('x, unit) act" where
  "safe_export export commit = suppress_act (export commit)"

definition exporting_close :: "('l \<Rightarrow> 'l) \<Rightarrow> 'l exporting_log \<Rightarrow> 'l exporting_log" where
  "exporting_close close_inner x = x\<lparr>xl_inner := close_inner (xl_inner x), xl_background_tasks := []\<rparr>"

section \<open>What a trace says of the commits it absorbed\<close>

definition commit_types :: "action_commit list \<Rightarrow> string set" where
  "commit_types cs = (\<Union>c \<in> set cs. ev_event_type ` set (cm_events c))"

lemma track_lifecycle_fold:
  "set (xt_lifecycle_event_types (fold track_lifecycle ets t)) =
     set (xt_lifecycle_event_types t) \<union> {et \<in> set ets. startswith et ''run.''}"
  "distinct (xt_lifecycle_event_types t) \<Longrightarrow> distinct (xt_lifecycle_event_types (fold track_lifecycle ets t))"
  "xt_is_terminal (fold track_lifecycle ets t) = xt_is_terminal t"
  "xt_terminal_state (fold track_lifecycle ets t) = xt_terminal_state t"
  by (induction ets arbitrary: t) (auto simp: track_lifecycle_def)

lemma detect_terminal_fold:
  "xt_is_terminal (fold detect_terminal ets t) \<longleftrightarrow> xt_is_terminal t \<or> (\<exists>et \<in> set ets. et \<in> set TERMINAL_EVENT_TYPES)"
  "xt_lifecycle_event_types (fold detect_terminal ets t) = xt_lifecycle_event_types t"
  by (induction ets arbitrary: t) (auto simp: detect_terminal_def)

lemma absorb_facts:
  "set (xt_lifecycle_event_types (absorb c t)) =
     set (xt_lifecycle_event_types t) \<union> {et \<in> commit_types [c]. startswith et ''run.''}"
  "distinct (xt_lifecycle_event_types t) \<Longrightarrow> distinct (xt_lifecycle_event_types (absorb c t))"
  "xt_is_terminal (absorb c t) \<longleftrightarrow> xt_is_terminal t \<or> (\<exists>et \<in> commit_types [c]. et \<in> set TERMINAL_EVENT_TYPES)"
  by (auto simp: absorb_def Let_def commit_types_def track_lifecycle_fold detect_terminal_fold split: option.split)

lemma absorb_all_facts:
  "set (xt_lifecycle_event_types (fold absorb cs t)) =
     set (xt_lifecycle_event_types t) \<union> {et \<in> commit_types cs. startswith et ''run.''}"
  "distinct (xt_lifecycle_event_types t) \<Longrightarrow> distinct (xt_lifecycle_event_types (fold absorb cs t))"
  "xt_is_terminal (fold absorb cs t) \<longleftrightarrow> xt_is_terminal t \<or> (\<exists>et \<in> commit_types cs. et \<in> set TERMINAL_EVENT_TYPES)"
proof (induction cs arbitrary: t)
  case (Cons c cs)
  have split: "commit_types (c # cs) = commit_types [c] \<union> commit_types cs" by (simp add: commit_types_def)
  { case 1 show ?case unfolding split using Cons.IH(1) [of "absorb c t"] absorb_facts(1) [of c t] by auto }
  { case 2 then show ?case using Cons.IH(2) [of "absorb c t"] absorb_facts(2) [of t c] by simp }
  { case 3 show ?case unfolding split using Cons.IH(3) [of "absorb c t"] absorb_facts(3) [of c t] by auto }
qed (simp_all add: commit_types_def)

text \<open>The store holds, for every run, the fold of the commits it was given.\<close>

definition of_run :: "string \<Rightarrow> action_commit list \<Rightarrow> action_commit list" where
  "of_run r cs = filter (\<lambda>c. cm_run_id c = r) cs"

definition store_of :: "action_commit list \<Rightarrow> run_trace_store \<Rightarrow> bool" where
  "store_of cs ts \<longleftrightarrow> (\<forall>r. get_trace ts r =
     (if of_run r cs = [] then None else Some (fold absorb (of_run r cs) (RunTrace r))))"

lemma store_of_export:
  assumes "store_of cs ts"
  shows "store_of (cs @ [c]) (export_commit c ts)"
  unfolding store_of_def
proof
  fix r
  have "get_trace ts r = (if of_run r cs = [] then None else Some (fold absorb (of_run r cs) (RunTrace r)))"
    using assms by (simp add: store_of_def)
  then show "get_trace (export_commit c ts) r =
      (if of_run r (cs @ [c]) = [] then None else Some (fold absorb (of_run r (cs @ [c])) (RunTrace r)))"
    by (cases "cm_run_id c = r") (auto simp: export_commit_def get_trace_def of_run_def dict_has_iff Let_def split: if_splits)
qed

section \<open>Export is transparent\<close>

locale exported_log = event_log_port append load invar retained
  for append :: "'l \<Rightarrow> action_commit \<Rightarrow> 'l \<times> string result"
    and load :: "'l \<Rightarrow> string \<Rightarrow> int \<Rightarrow> runtime_event list"
    and invar :: "'l \<Rightarrow> bool"
    and retained :: "'l \<Rightarrow> action_commit \<Rightarrow> string \<Rightarrow> bool" +
  fixes cfg :: export_config
  assumes no_migration: "xc_event_schema_migrator cfg = None \<or> xc_target_event_schema_version cfg = None"
begin

lemma exporting_append_eq:
  "exporting_append append cfg x commit =
     (case append (xl_inner x) commit of (l, res) \<Rightarrow>
        (x\<lparr>xl_inner := l, xl_background_tasks := xl_background_tasks x @ (if is_ok res then [commit] else [])\<rparr>, res))"
  using no_migration
  by (auto simp: exporting_append_def maybe_migrate_commit_def split: prod.split sum.split option.split)

end

text \<open>The exporting log is a log again, with the same guarantees, whatever becomes of the exports.\<close>

sublocale exported_log \<subseteq> xlog: event_log_port "exporting_append append cfg" "exporting_load load" "\<lambda>x. invar (xl_inner x)"
  "\<lambda>x. retained (xl_inner x)"
proof (unfold_locales, goal_cases)
  case (1 x run_id k)
  show ?case unfolding exporting_load_def by (rule load_after [OF 1])
next
  case (2 x run_id)
  then show ?case using load_offsets by (simp add: exporting_load_def)
next
  case (3 x commit x' res)
  then show ?case using append_invar by (auto simp: exporting_append_eq split: prod.splits)
next
  case (4 x commit x' e run_id)
  then show ?case using append_error by (auto simp: exporting_append_eq exporting_load_def split: prod.splits)
next
  case (5 x commit x' ref)
  then show ?case using append_run by (auto simp: exporting_append_eq exporting_load_def split: prod.splits)
next
  case (6 x commit x' ref run_id)
  then show ?case using append_other by (auto simp: exporting_append_eq exporting_load_def split: prod.splits)
qed

text \<open>The commits of many parties and the background tasks, which end in any order.\<close>

inductive export_step ::
  "('l \<Rightarrow> action_commit \<Rightarrow> 'l \<times> string result) \<Rightarrow> export_config \<Rightarrow> 'l exporting_log \<times> run_trace_store
     \<Rightarrow> 'l exporting_log \<times> run_trace_store \<Rightarrow> bool" for append cfg where
  commit: "exporting_append append cfg x c = (x', res) \<Longrightarrow> export_step append cfg (x, ts) (x', ts)"
| export: "xl_background_tasks x = before @ c # after \<Longrightarrow>
    safe_export (\<lambda>c ts. (export_commit c ts, Inr ())) c ts = (ts', res) \<Longrightarrow>
    export_step append cfg (x, ts) (x\<lparr>xl_background_tasks := before @ after\<rparr>, ts')"

context exported_log
begin

definition tracked :: "'l exporting_log \<times> run_trace_store \<Rightarrow> bool" where
  "tracked st \<longleftrightarrow> invar (xl_inner (fst st)) \<and>
     (\<exists>cs ds. mset cs = mset ds + mset (xl_background_tasks (fst st)) \<and> store_of ds (snd st) \<and>
       (\<forall>r. list_all2 same_event (concat (map cm_events (of_run r cs))) (load (xl_inner (fst st)) r 0)))"

lemma same_event_types: "list_all2 same_event es es' \<Longrightarrow> ev_event_type ` set es' = ev_event_type ` set es"
  by (induction rule: list_all2_induct) (auto simp: same_event_fields)

lemma tracked_step:
  assumes keeps: "\<And>l c r. retained l c r"
  shows "export_step append cfg st st' \<Longrightarrow> tracked st \<Longrightarrow> tracked st'"
proof (induction rule: export_step.induct)
  case (commit x c x' res ts)
  obtain cs ds where inv: "invar (xl_inner x)" "mset cs = mset ds + mset (xl_background_tasks x)" "store_of ds ts"
    "\<And>r. list_all2 same_event (concat (map cm_events (of_run r cs))) (load (xl_inner x) r 0)"
    using commit.prems by (auto simp: tracked_def)
  obtain l where l: "append (xl_inner x) c = (l, res)"
    "x' = x\<lparr>xl_inner := l, xl_background_tasks := xl_background_tasks x @ (if is_ok res then [c] else [])\<rparr>"
    using commit.hyps by (auto simp: exporting_append_eq split: prod.splits)
  show ?case
  proof (cases res)
    case (Inl e)
    then have "load l r 0 = load (xl_inner x) r 0" for r using append_error [OF inv(1)] l(1) by simp
    then show ?thesis using inv l Inl append_invar [OF inv(1) l(1)] by (auto simp: tracked_def)
  next
    case (Inr ref)
    obtain new where new: "load l (cm_run_id c) 0 = load (xl_inner x) (cm_run_id c) 0 @ new" "list_all2 same_event (cm_events c) new"
      using append_run [OF inv(1)] l(1) Inr by blast
    have "list_all2 same_event (concat (map cm_events (of_run r (cs @ [c])))) (load l r 0)" for r
      using inv(4) [of r] new append_other [OF inv(1) _ _ keeps, of c l ref r] l(1) Inr
      by (cases "r = cm_run_id c") (auto simp: of_run_def list_all2_appendI)
    moreover have "mset (cs @ [c]) = mset ds + mset (xl_background_tasks x')" using inv(2) l(2) Inr by simp
    moreover have "invar (xl_inner x')" using append_invar [OF inv(1) l(1)] l(2) by simp
    ultimately show ?thesis
      unfolding tracked_def fst_conv snd_conv using inv(3) l(2) by (intro conjI exI [of _ "cs @ [c]"] exI [of _ ds] allI) simp_all
  qed
next
  case (export x before c after ts ts' res)
  obtain cs ds where inv: "invar (xl_inner x)" "mset cs = mset ds + mset (xl_background_tasks x)" "store_of ds ts"
    "\<And>r. list_all2 same_event (concat (map cm_events (of_run r cs))) (load (xl_inner x) r 0)"
    using export.prems by (auto simp: tracked_def)
  have "ts' = export_commit c ts" using export.hyps(2) by (simp add: safe_export_def)
  then have "store_of (ds @ [c]) ts'" using store_of_export [OF inv(3)] by simp
  moreover have "mset cs = mset (ds @ [c]) + mset (before @ after)" using inv(2) export.hyps(1) by simp
  ultimately show ?case
    unfolding tracked_def fst_conv snd_conv using inv(1,4) by (intro conjI exI [of _ cs] exI [of _ "ds @ [c]"] allI) simp_all
qed

lemma tracked_reachable:
  assumes "\<And>l c r. retained l c r" "invar l" "\<And>r. load l r 0 = []"
    and "(export_step append cfg)\<^sup>*\<^sup>* (\<lparr>xl_inner = l, xl_background_tasks = []\<rparr>, []) st"
  shows "tracked st"
proof -
  have "tracked (\<lparr>xl_inner = l, xl_background_tasks = []\<rparr>, [])"
    unfolding tracked_def using assms(2,3)
    by (intro conjI exI [of _ "[]"]) (simp_all add: store_of_def of_run_def get_trace_def dict_get_def)
  with assms(4) show ?thesis by (induction rule: rtranclp_induct) (auto intro: tracked_step [OF assms(1)])
qed

lemma tracked_quiescent:
  assumes "tracked (x, ts)" "xl_background_tasks x = []"
  shows "case get_trace ts r of
      None \<Rightarrow> load (xl_inner x) r 0 = []
    | Some t \<Rightarrow> set (xt_lifecycle_event_types t) = {et \<in> ev_event_type ` set (load (xl_inner x) r 0). startswith et ''run.''}
        \<and> distinct (xt_lifecycle_event_types t)
        \<and> (xt_is_terminal t \<longleftrightarrow> (\<exists>e \<in> set (load (xl_inner x) r 0). ev_event_type e \<in> set TERMINAL_EVENT_TYPES))"
proof -
  obtain cs ds where inv: "mset cs = mset ds" "store_of ds ts"
    "list_all2 same_event (concat (map cm_events (of_run r cs))) (load (xl_inner x) r 0)"
    using assms by (auto simp: tracked_def)
  have perm: "set (of_run r ds) = set (of_run r cs)" using mset_eq_setD [OF inv(1)] by (auto simp: of_run_def)
  have types: "commit_types (of_run r ds) = ev_event_type ` set (load (xl_inner x) r 0)"
    using same_event_types [OF inv(3)] perm by (auto simp: commit_types_def)
  show ?thesis
  proof (cases "of_run r ds = []")
    case True
    then have "of_run r cs = []" using perm by (metis set_empty)
    then show ?thesis using inv(2,3) True by (simp add: store_of_def)
  next
    case False
    then have "get_trace ts r = Some (fold absorb (of_run r ds) (RunTrace r))" using inv(2) by (simp add: store_of_def)
    then show ?thesis
      using absorb_all_facts [where cs = "of_run r ds" and t = "RunTrace r"] types by (auto simp: RunTrace_def)
  qed
qed

end

section \<open>Over the SQLite log\<close>

definition export_all :: export_config where
  "export_all = \<lparr>xc_event_schema_migrator = None, xc_target_event_schema_version = None\<rparr>"

interpretation sxl: exported_log sqe_append_action_commit "\<lambda>c. select_events (cn_tables c)" sqe_invar "\<lambda>_ _ _. True" export_all
  by unfold_locales (simp add: export_all_def)

interpretation mxl: exported_log append_action_commit load_events log_invar log_retains export_all
  by unfold_locales (simp add: export_all_def)

text \<open>
  C19 (equivalence): exported traces agree with the log.  Over the SQLite log with database faults,
  whatever the commits and whatever the order in which their background tasks end, once no task is
  left the trace of a run lists exactly the lifecycle events of its log, each once, and is terminal
  exactly when the log has a terminal event; a run without a trace has no events.
\<close>

theorem trace_store_reflects_log:
  assumes "(export_step sqe_append_action_commit export_all)\<^sup>*\<^sup>*
      (\<lparr>xl_inner = connect initialize_schema faults, xl_background_tasks = []\<rparr>, []) (x, ts)"
    and "xl_background_tasks x = []"
  shows "case get_trace ts r of
      None \<Rightarrow> select_events (cn_tables (xl_inner x)) r 0 = []
    | Some t \<Rightarrow>
        set (xt_lifecycle_event_types t) =
          {et \<in> ev_event_type ` set (select_events (cn_tables (xl_inner x)) r 0). startswith et ''run.''}
        \<and> distinct (xt_lifecycle_event_types t)
        \<and> (xt_is_terminal t \<longleftrightarrow>
             (\<exists>e \<in> set (select_events (cn_tables (xl_inner x)) r 0). ev_event_type e \<in> set TERMINAL_EVENT_TYPES))"
proof (rule sxl.tracked_quiescent [OF sxl.tracked_reachable [OF _ _ _ assms(1)] assms(2)])
  show "sqe_invar (connect initialize_schema faults)"
    by (simp add: sqe_invar_def connect_def idle_def tables_ok_initial)
qed (simp_all add: connect_def select_events_def initialize_schema_def)

definition sample_export_commit :: action_commit where
  "sample_export_commit = sample_commit ''r1'' [sample_event ''a'' ''run.completed'']"

definition sample_exporting :: "event_connection exporting_log" where
  "sample_exporting = fst (exporting_append sqe_append_action_commit export_all
     \<lparr>xl_inner = connect initialize_schema [], xl_background_tasks = []\<rparr> sample_export_commit)"

lemma sample_exporting_tasks: "map cm_run_id (xl_background_tasks sample_exporting) = [''r1'']"
  by code_simp

lemma sample_export_traces:
  "map_option xt_terminal_state (get_trace (export_commit sample_export_commit []) ''r1'') = Some (Some ''completed'')"
  by code_simp

theorem trace_store_reflects_log_witness:
  "\<exists>t. get_trace (export_commit sample_export_commit []) ''r1'' = Some t \<and>
    (xt_is_terminal t \<longleftrightarrow> (\<exists>e \<in> set (select_events (cn_tables (xl_inner sample_exporting)) ''r1'' 0).
       ev_event_type e \<in> set TERMINAL_EVENT_TYPES))"
proof -
  let ?x0 = "\<lparr>xl_inner = connect initialize_schema [], xl_background_tasks = []\<rparr>"
  have commit: "export_step sqe_append_action_commit export_all (?x0, []) (sample_exporting, [])"
    unfolding sample_exporting_def by (rule export_step.commit [OF prod.collapse [symmetric]])
  have tasks: "xl_background_tasks sample_exporting = [] @ [sample_export_commit] @ []"
    using sample_exporting_tasks
    by (auto simp: sample_exporting_def sxl.exporting_append_eq split: prod.splits if_splits)
  have "export_step sqe_append_action_commit export_all (sample_exporting, [])
      (sample_exporting\<lparr>xl_background_tasks := [] @ []\<rparr>, export_commit sample_export_commit [])"
    by (rule export_step.export) (use tasks in \<open>simp_all add: safe_export_def\<close>)
  with commit have "(export_step sqe_append_action_commit export_all)\<^sup>*\<^sup>* (?x0, [])
      (sample_exporting\<lparr>xl_background_tasks := [] @ []\<rparr>, export_commit sample_export_commit [])" by auto
  from trace_store_reflects_log [OF this, of "''r1''"] sample_export_traces show ?thesis by auto
qed

text \<open>
  A migration for the export that fails: the commit is in the log, and the caller is told that the
  append failed.
\<close>

lemma migration_failure_after_append:
  assumes "append_inner (xl_inner x) commit = (l, Inr ref)" "maybe_migrate_commit cfg commit = Inl e"
  shows "exporting_append append_inner cfg x commit = (x\<lparr>xl_inner := l\<rparr>, Inl e)"
  using assms by (simp add: exporting_append_def)

end
