(* ===== verification/Service_Verifier.thy ===== *)
theory Service_Verifier
  imports SQLite_Dedupe Dispatch_Policy Run_Actor
begin

text \<open>
  \<^verbatim>\<open>kernel/remote_service_verifier.py\<close>: scenarios that check the policy for remote services and the
  dispatch ledger together, over any store behind the dedupe port.
\<close>

section \<open>Scenarios\<close>

datatype fail_mode = Fail_none | Fail_timeout | Fail_reject_key | Fail_transient_500

record remote_service_sim_profile =
  sp_accepts_key :: bool
  sp_stable_ack :: bool
  sp_conflict_on_duplicate :: bool
  sp_fail_mode :: fail_mode

definition RemoteServiceSimProfile :: remote_service_sim_profile where
  "RemoteServiceSimProfile = \<lparr>sp_accepts_key = True, sp_stable_ack = True, sp_conflict_on_duplicate = True, sp_fail_mode = Fail_none\<rparr>"

record verification_scenario =
  vs_name :: string
  vs_profile :: remote_service_sim_profile
  vs_declared_level :: external_idempotency_level
  vs_contract :: "remote_service_idempotency_contract option"
  vs_expected_effective_level :: external_idempotency_level
  vs_expected_can_claim_guaranteed :: bool
  vs_expected_dedupe_terminal_state :: string

record verification_result =
  vr_scenario_name :: string
  vr_passed :: bool
  vr_policy_decision :: remote_dispatch_policy_decision
  vr_actual_dedupe_state :: "string option"
  vr_failure_reason :: "string option"

definition exactly_once_contract :: remote_service_idempotency_contract where
  "exactly_once_contract = \<lparr>rc_accepts_dispatch_idempotency_key = True, rc_returns_stable_ack = True,
     rc_peer_retry_model = ''exactly_once_claimed'', rc_default_retry_policy = ''bounded_retry''\<rparr>"

definition STANDARD_SCENARIOS :: "verification_scenario list" where
  "STANDARD_SCENARIOS =
     [\<lparr>vs_name = ''happy_path_guaranteed'', vs_profile = RemoteServiceSimProfile, vs_declared_level = Guaranteed,
       vs_contract = Some exactly_once_contract, vs_expected_effective_level = Guaranteed,
       vs_expected_can_claim_guaranteed = True, vs_expected_dedupe_terminal_state = ''acknowledged''\<rparr>,
      \<lparr>vs_name = ''missing_contract_downgrade'',
       vs_profile = RemoteServiceSimProfile\<lparr>sp_accepts_key := False, sp_stable_ack := False\<rparr>, vs_declared_level = Guaranteed,
       vs_contract = None, vs_expected_effective_level = Best_effort,
       vs_expected_can_claim_guaranteed = False, vs_expected_dedupe_terminal_state = ''acknowledged''\<rparr>,
      \<lparr>vs_name = ''timeout_to_unknown_effect'', vs_profile = RemoteServiceSimProfile\<lparr>sp_fail_mode := Fail_timeout\<rparr>,
       vs_declared_level = Best_effort,
       vs_contract = Some \<lparr>rc_accepts_dispatch_idempotency_key = True, rc_returns_stable_ack = False,
         rc_peer_retry_model = ''at_least_once'', rc_default_retry_policy = ''no_auto_retry''\<rparr>,
       vs_expected_effective_level = Best_effort,
       vs_expected_can_claim_guaranteed = False, vs_expected_dedupe_terminal_state = ''unknown_effect''\<rparr>,
      \<lparr>vs_name = ''conflict_409_dedupe_hit'', vs_profile = RemoteServiceSimProfile\<lparr>sp_conflict_on_duplicate := True\<rparr>,
       vs_declared_level = Guaranteed, vs_contract = Some exactly_once_contract, vs_expected_effective_level = Guaranteed,
       vs_expected_can_claim_guaranteed = True, vs_expected_dedupe_terminal_state = ''acknowledged''\<rparr>,
      \<lparr>vs_name = ''reject_key_fallback'',
       vs_profile = RemoteServiceSimProfile\<lparr>sp_fail_mode := Fail_reject_key, sp_accepts_key := False\<rparr>, vs_declared_level = Guaranteed,
       vs_contract = Some \<lparr>rc_accepts_dispatch_idempotency_key = False, rc_returns_stable_ack = True,
         rc_peer_retry_model = ''at_most_once'', rc_default_retry_policy = ''no_auto_retry''\<rparr>,
       vs_expected_effective_level = Best_effort,
       vs_expected_can_claim_guaranteed = False, vs_expected_dedupe_terminal_state = ''acknowledged''\<rparr>]"

section \<open>The verifier\<close>

definition scenario_key :: "verification_scenario \<Rightarrow> string" where
  "scenario_key scenario = ''verify:'' @ vs_name scenario"

definition scenario_envelope :: "verification_scenario \<Rightarrow> idempotency_envelope" where
  "scenario_envelope scenario =
     \<lparr>en_dispatch_idempotency_key = scenario_key scenario, en_operation_fingerprint = ''fp:'' @ vs_name scenario,
      en_attempt_seq = 1, en_effect_scope = ''remote_service'', en_capability_snapshot_hash = ''verify_hash'',
      en_host_kind = Remote_service, en_peer_operation_id = None, en_policy_snapshot_ref = None, en_rule_bundle_hash = None\<rparr>"

definition failed_result ::
  "verification_scenario \<Rightarrow> remote_dispatch_policy_decision \<Rightarrow> string option \<Rightarrow> string \<Rightarrow> verification_result" where
  "failed_result scenario decision state reason =
     \<lparr>vr_scenario_name = vs_name scenario, vr_passed = False, vr_policy_decision = decision,
      vr_actual_dedupe_state = state, vr_failure_reason = Some reason\<rparr>"

definition repr_bool :: "bool \<Rightarrow> string" where
  "repr_bool b = (if b then ''True'' else ''False'')"

definition settle_scenario :: "'s dedupe_port \<Rightarrow> verification_scenario \<Rightarrow> ('s, unit) act" where
  "settle_scenario port scenario s =
     (if sp_fail_mode (vs_profile scenario) = Fail_timeout then port_mark_unknown_effect port s (scenario_key scenario)
      else port_mark_acknowledged port s (scenario_key scenario) (Some (''ack:'' @ vs_name scenario)))"

text \<open>The second dispatch of the conflict scenario; its result is whether the replay was accepted.\<close>

definition replay_scenario :: "'s dedupe_port \<Rightarrow> verification_scenario \<Rightarrow> ('s, bool) act" where
  "replay_scenario port scenario =
     (if vs_name scenario = ''conflict_409_dedupe_hit'' \<and> sp_conflict_on_duplicate (vs_profile scenario)
      then bind_act (\<lambda>s. port_reserve_and_dispatch port s (scenario_envelope scenario) None) (\<lambda>replay. return_act (rv_accepted replay))
      else return_act False)"

definition run_one :: "'s dedupe_port \<Rightarrow> verification_scenario \<Rightarrow> ('s, verification_result) act" where
  "run_one port scenario =
     (let decision = evaluate_remote_service_policy (Some (vs_declared_level scenario)) (vs_contract scenario)
      in if rpd_effective_idempotency_level decision \<noteq> vs_expected_effective_level scenario
         then return_act (failed_result scenario decision None
           (''effective_idempotency_level mismatch: expected '' @
            repr_str (idempotency_level_str (vs_expected_effective_level scenario)) @ '', got '' @
            repr_str (idempotency_level_str (rpd_effective_idempotency_level decision))))
         else if rpd_can_claim_guaranteed decision \<noteq> vs_expected_can_claim_guaranteed scenario
         then return_act (failed_result scenario decision None
           (''can_claim_guaranteed mismatch: expected '' @ repr_bool (vs_expected_can_claim_guaranteed scenario) @
            '', got '' @ repr_bool (rpd_can_claim_guaranteed decision)))
         else
           bind_act (\<lambda>s. port_reserve_and_dispatch port s (scenario_envelope scenario) None) (\<lambda>first_reservation.
           if \<not> rv_accepted first_reservation
           then return_act (failed_result scenario decision None ''initial reservation rejected unexpectedly'')
           else
             bind_act (settle_scenario port scenario) (\<lambda>_.
             bind_act (replay_scenario port scenario) (\<lambda>replay_accepted.
             if replay_accepted
             then return_act (failed_result scenario decision None ''expected duplicate dedupe hit, but replay was accepted'')
             else
               bind_act (\<lambda>s. port_get port s (scenario_key scenario)) (\<lambda>record.
               let actual_state = (case record of None \<Rightarrow> ''missing'' | Some r \<Rightarrow> dedupe_state_str (dr_state r))
               in if actual_state \<noteq> vs_expected_dedupe_terminal_state scenario
                  then return_act (failed_result scenario decision (Some actual_state)
                    (''dedupe terminal state mismatch: expected '' @ repr_str (vs_expected_dedupe_terminal_state scenario) @
                     '', got '' @ repr_str actual_state))
                  else return_act \<lparr>vr_scenario_name = vs_name scenario, vr_passed = True, vr_policy_decision = decision,
                    vr_actual_dedupe_state = Some actual_state, vr_failure_reason = None\<rparr>)))))"

fun run_scenarios :: "'s dedupe_port \<Rightarrow> verification_scenario list \<Rightarrow> ('s, verification_result list) act" where
  "run_scenarios port [] = return_act []"
| "run_scenarios port (s # ss) =
     bind_act (run_one port s) (\<lambda>r. bind_act (run_scenarios port ss) (\<lambda>rs. return_act (r # rs)))"

text \<open>No scenarios, or an empty list of them, means the standard ones.\<close>

definition run_all :: "'s dedupe_port \<Rightarrow> verification_scenario list option \<Rightarrow> ('s, verification_result list) act" where
  "run_all port scenarios =
     run_scenarios port (case scenarios of None \<Rightarrow> STANDARD_SCENARIOS | Some ss \<Rightarrow> if ss = [] then STANDARD_SCENARIOS else ss)"

section \<open>What a verdict means\<close>

definition policy_expected :: "verification_scenario \<Rightarrow> bool" where
  "policy_expected sc \<longleftrightarrow>
     (let d = evaluate_remote_service_policy (Some (vs_declared_level sc)) (vs_contract sc)
      in rpd_effective_idempotency_level d = vs_expected_effective_level sc
       \<and> rpd_can_claim_guaranteed d = vs_expected_can_claim_guaranteed sc)"

definition settled_state :: "verification_scenario \<Rightarrow> string" where
  "settled_state sc = (if sp_fail_mode (vs_profile sc) = Fail_timeout then ''unknown_effect'' else ''acknowledged'')"

context dedupe_store_port
begin

lemma settle_scenario_law:
  assumes "invar s" "settle_scenario port sc s = (s', Inr u)"
  shows "invar s' \<and> (\<exists>r. ledger s (scenario_key sc) = Some r \<and>
    (\<exists>r'. ledger s' = (ledger s)(scenario_key sc \<mapsto> r') \<and> dedupe_state_str (dr_state r') = settled_state sc))"
proof (cases "sp_fail_mode (vs_profile sc) = Fail_timeout")
  case True
  then have "port_mark port s MarkUnknown (scenario_key sc) = (s', Inr u)" using assms(2) by (simp add: settle_scenario_def)
  from mark_law [OF assms(1) this] show ?thesis using True by (auto simp: settled_state_def)
next
  case False
  then have "port_mark port s (MarkAcknowledged (Some (''ack:'' @ vs_name sc))) (scenario_key sc) = (s', Inr u)"
    using assms(2) by (simp add: settle_scenario_def)
  from mark_law [OF assms(1) this] show ?thesis using False by (auto simp: settled_state_def)
qed

lemma replay_scenario_law:
  assumes "invar s" "ledger s (scenario_key sc) \<noteq> None" "replay_scenario port sc s = (s', Inr b)"
  shows "invar s' \<and> ledger s' = ledger s \<and> \<not> b"
proof (cases "vs_name sc = ''conflict_409_dedupe_hit'' \<and> sp_conflict_on_duplicate (vs_profile sc)")
  case True
  then obtain res where "port_reserve_and_dispatch port s (scenario_envelope sc) None = (s', Inr res)" "b = rv_accepted res"
    using assms(3) by (auto simp: replay_scenario_def elim!: bind_act_InrE)
  with reserve_and_dispatch_law [OF assms(1) this(1)] assms(2) show ?thesis
    by (auto simp: ledger_reserve_def scenario_envelope_def split: option.splits)
qed (use assms in \<open>auto simp: replay_scenario_def\<close>)

lemma run_one_verdict:
  assumes "invar s" "run_one port sc s = (s', Inr v)"
  shows "invar s' \<and> (vr_passed v \<longleftrightarrow>
      policy_expected sc \<and> ledger s (scenario_key sc) = None \<and> vs_expected_dedupe_terminal_state sc = settled_state sc)
    \<and> (\<forall>k. k \<noteq> scenario_key sc \<longrightarrow> ledger s' k = ledger s k) \<and> (policy_expected sc \<longrightarrow> ledger s' (scenario_key sc) \<noteq> None)"
proof (cases "policy_expected sc")
  case False
  then show ?thesis
    using assms by (auto simp: run_one_def policy_expected_def Let_def failed_result_def split: if_splits)
next
  case True
  define d where "d = evaluate_remote_service_policy (Some (vs_declared_level sc)) (vs_contract sc)"
  have pol: "rpd_effective_idempotency_level d = vs_expected_effective_level sc"
    "rpd_can_claim_guaranteed d = vs_expected_can_claim_guaranteed sc"
    using True by (simp_all add: policy_expected_def d_def Let_def)
  obtain s1 res where 1: "port_reserve_and_dispatch port s (scenario_envelope sc) None = (s1, Inr res)"
    using assms(2) pol by (auto simp: run_one_def Let_def d_def [symmetric] elim!: bind_act_InrE)
  note law = reserve_and_dispatch_law [OF assms(1) 1]
  show ?thesis
  proof (cases "ledger s (scenario_key sc)")
    case (Some r)
    then have "\<not> rv_accepted res" "ledger s1 = ledger s" "invar s1"
      using law by (auto simp: ledger_reserve_def scenario_envelope_def)
    then show ?thesis
      using assms(2) pol 1 Some by (auto simp: run_one_def Let_def d_def [symmetric] bind_act_def failed_result_def)
  next
    case None
    then obtain rec where acc: "rv_accepted res" "ledger s1 = (ledger s)(scenario_key sc \<mapsto> rec)" "invar s1"
      using law by (auto simp: ledger_reserve_def scenario_envelope_def)
    obtain s2 s3 b s4 g where rest: "settle_scenario port sc s1 = (s2, Inr ())" "replay_scenario port sc s2 = (s3, Inr b)"
      "\<not> b \<longrightarrow> port_get port s3 (scenario_key sc) = (s4, Inr g)"
      "b \<longrightarrow> v = failed_result sc d None ''expected duplicate dedupe hit, but replay was accepted'' \<and> s' = s3"
      "\<not> b \<longrightarrow> s' = s4 \<and> vr_passed v = ((case g of None \<Rightarrow> ''missing'' | Some r \<Rightarrow> dedupe_state_str (dr_state r))
          = vs_expected_dedupe_terminal_state sc)"
      using assms(2) pol 1 acc(1)
      by (auto simp: run_one_def Let_def d_def [symmetric] failed_result_def elim!: bind_act_InrE split: if_splits)
    obtain r' where 2: "invar s2" "ledger s2 = (ledger s1)(scenario_key sc \<mapsto> r')" "dedupe_state_str (dr_state r') = settled_state sc"
      using settle_scenario_law [OF acc(3) rest(1)] by blast
    have 3: "invar s3" "ledger s3 = ledger s2" "\<not> b" using replay_scenario_law [OF 2(1) _ rest(2)] 2(2) by auto
    have "invar s4 \<and> ledger s4 = ledger s3 \<and> g = ledger s3 (scenario_key sc)" using get_law [OF 3(1)] rest(3) 3(3) by fastforce
    then show ?thesis using rest(5) 3 2 acc(2) None True by auto
  qed
qed

lemma run_scenarios_verdicts:
  assumes "invar s" "distinct (map vs_name scs)" "run_scenarios port scs s = (s', Inr vs)"
  shows "invar s' \<and> map vr_passed vs = map (\<lambda>sc. policy_expected sc \<and> ledger s (scenario_key sc) = None \<and>
      vs_expected_dedupe_terminal_state sc = settled_state sc) scs
    \<and> (\<forall>sc \<in> set scs. policy_expected sc \<longrightarrow> ledger s' (scenario_key sc) \<noteq> None)
    \<and> (\<forall>k. k \<notin> scenario_key ` set scs \<longrightarrow> ledger s' k = ledger s k)"
  using assms
proof (induction scs arbitrary: s vs)
  case (Cons sc scs)
  obtain s1 v rest where 1: "run_one port sc s = (s1, Inr v)" "run_scenarios port scs s1 = (s', Inr rest)" "vs = v # rest"
    using Cons.prems(3) by (auto elim!: bind_act_InrE)
  note one = run_one_verdict [OF Cons.prems(1) 1(1)]
  have other: "scenario_key x \<noteq> scenario_key sc" if "x \<in> set scs" for x
    using Cons.prems(2) that by (auto simp: scenario_key_def image_iff)
  have "invar s1" "distinct (map vs_name scs)" using one Cons.prems(2) by simp_all
  note all = Cons.IH [OF this 1(2)]
  have "ledger s1 (scenario_key x) = ledger s (scenario_key x)" if "x \<in> set scs" for x using one other [OF that] by simp
  then have "map vr_passed rest = map (\<lambda>sc. policy_expected sc \<and> ledger s (scenario_key sc) = None \<and>
      vs_expected_dedupe_terminal_state sc = settled_state sc) scs" using all by simp
  moreover have "scenario_key sc \<notin> scenario_key ` set scs" using other by (metis imageE)
  ultimately show ?case using one all 1(3) by auto
qed simp

end

lemma standard_scenarios:
  "distinct (map vs_name STANDARD_SCENARIOS)"
  "\<forall>sc \<in> set STANDARD_SCENARIOS. policy_expected sc \<and> vs_expected_dedupe_terminal_state sc = settled_state sc"
  by code_simp+

context dedupe_store_port
begin

lemma standard_verdicts:
  assumes "invar s" "run_all port None s = (s1, Inr vs)"
  shows "invar s1 \<and> map vr_passed vs = map (\<lambda>sc. ledger s (scenario_key sc) = None) STANDARD_SCENARIOS
    \<and> (\<forall>sc \<in> set STANDARD_SCENARIOS. ledger s1 (scenario_key sc) \<noteq> None)"
proof -
  have "run_scenarios port STANDARD_SCENARIOS s = (s1, Inr vs)" using assms(2) by (simp add: run_all_def)
  from run_scenarios_verdicts [OF assms(1) standard_scenarios(1) this] show ?thesis
    using standard_scenarios(2) by (auto cong: map_cong)
qed

lemma second_run_fails:
  assumes "invar s" "run_all port None s = (s1, Inr vs)" "run_all port None s1 = (s2, Inr vs')"
  shows "map vr_passed vs' = map (\<lambda>_. False) STANDARD_SCENARIOS"
proof -
  note one = standard_verdicts [OF assms(1,2)]
  from standard_verdicts [OF conjunct1 [OF one] assms(3)] one show ?thesis by (auto cong: map_cong)
qed

end

text \<open>
  The verdicts of the standard scenarios over the SQLite ledger, whichever
  statements fail.  When the verifier returns, a scenario has passed exactly when its key was not
  in the ledger before; the keys are fixed, so no scenario passes a second time on one ledger.
\<close>

theorem verifier_verdicts:
  assumes "sq_invar s" "run_all sq_port None s = (s1, Inr vs)"
  shows "map vr_passed vs = map (\<lambda>sc. sq_ledger s (scenario_key sc) = None) STANDARD_SCENARIOS
    \<and> (\<forall>s2 vs'. run_all sq_port None s1 = (s2, Inr vs') \<longrightarrow> map vr_passed vs' = [False, False, False, False, False])"
  using sq.standard_verdicts [OF assms] sq.second_run_fails [OF assms] by (auto simp: STANDARD_SCENARIOS_def)

lemma sample_verifier_runs: "is_ok (snd (run_all sq_port None (sq_ensure_schema [])))"
  by code_simp

theorem verifier_verdicts_witness:
  "\<exists>s1 vs. run_all sq_port None (sq_ensure_schema []) = (s1, Inr vs) \<and> map vr_passed vs = [True, True, True, True, True]"
proof -
  obtain s1 vs where run: "run_all sq_port None (sq_ensure_schema []) = (s1, Inr vs)"
    using sample_verifier_runs by (cases "run_all sq_port None (sq_ensure_schema [])"; cases "snd (run_all sq_port None (sq_ensure_schema []))") auto
  have "sq_invar (sq_ensure_schema [])" by (simp add: sq_invar_def sq_ensure_schema_def)
  from verifier_verdicts [OF this run] run show ?thesis
    by (auto simp: STANDARD_SCENARIOS_def sq_ledger_def sq_ensure_schema_def)
qed

lemma mem_verifier_passes: "map_prod (\<lambda>_. ()) (map_sum (\<lambda>_. ()) (map vr_passed)) (run_all mem_port None []) = ((), Inr [True, True, True, True, True])"
  by code_simp

end
