(* ===== verification/Snapshot_Resolver.thy ===== *)
theory Snapshot_Resolver
  imports Turn_Engine
begin

text \<open>
  \<^verbatim>\<open>kernel/capability_snapshot_resolver.py\<close>: the input of a capability snapshot from the payload of an
  action, with structured fields before flat ones before defaults.
\<close>

section \<open>The resolver\<close>

record snapshot_input_resolver =
  sr_default_tenant_policy_ref :: string
  sr_default_permission_mode :: string
  sr_require_declared_snapshot_input :: bool
  sr_require_declarative_bundle_digest :: bool

definition ActionPayloadCapabilitySnapshotInputResolver :: snapshot_input_resolver where
  "ActionPayloadCapabilitySnapshotInputResolver =
     \<lparr>sr_default_tenant_policy_ref = ''policy:default'', sr_default_permission_mode = ''strict'',
      sr_require_declared_snapshot_input = False, sr_require_declarative_bundle_digest = False\<rparr>"

definition as_dict_or_empty :: "json \<Rightarrow> jdict" where
  "as_dict_or_empty v = (case v of JDict d \<Rightarrow> d | _ \<Rightarrow> [])"

definition as_str_list :: "json \<Rightarrow> string list" where
  "as_str_list v =
     (case v of JList xs \<Rightarrow> List.map_filter (\<lambda>item. case item of JStr s \<Rightarrow> if s = [] then None else Some s | _ \<Rightarrow> None) xs
      | _ \<Rightarrow> [])"

definition first_non_empty_optional_string :: "json list \<Rightarrow> string option" where
  "first_non_empty_optional_string values =
     first_some (\<lambda>value. case value of JStr s \<Rightarrow> if s = [] then None else Some s | _ \<Rightarrow> None) values"

definition first_non_empty_text :: "json list \<Rightarrow> string" where
  "first_non_empty_text values = (case first_non_empty_optional_string values of None \<Rightarrow> '''' | Some s \<Rightarrow> s)"

text \<open>The four fields of a digest, by name.\<close>

definition digest_fields :: "jdict \<Rightarrow> jdict \<Rightarrow> (string \<times> string option) list" where
  "digest_fields digest_payload payload =
     map (\<lambda>(field, flat). (field, first_non_empty_optional_string [jget digest_payload field, jget payload flat]))
       [(''bundle_ref'', ''declarative_bundle_ref''),
        (''semantics_version'', ''declarative_bundle_semantics_version''),
        (''content_hash'', ''declarative_bundle_content_hash''),
        (''compile_hash'', ''declarative_bundle_compile_hash'')]"

definition resolve_declarative_bundle_digest :: "jdict \<Rightarrow> declarative_bundle_digest option result" where
  "resolve_declarative_bundle_digest payload =
     (let raw = jget payload ''declarative_bundle_digest''
      in if raw \<noteq> JNull \<and> (case raw of JDict d \<Rightarrow> False | _ \<Rightarrow> True)
         then Inl (CapabilitySnapshotBuildError ''declarative_bundle_digest must be an object when provided.'')
         else
           (let fields = digest_fields (as_dict_or_empty raw) payload;
                missing = map fst (filter (\<lambda>(n, v). v = None) fields);
                text = (\<lambda>n. case dict_get_or fields n None of None \<Rightarrow> '''' | Some s \<Rightarrow> s)
            in if list_all (\<lambda>(n, v). v = None) fields then Inr None
               else if missing \<noteq> []
               then Inl (CapabilitySnapshotBuildError
                 (''declarative_bundle_digest is missing required fields: '' @ join '', '' missing @ ''.''))
               else Inr (Some \<lparr>bd_bundle_ref = text ''bundle_ref'', bd_semantics_version = text ''semantics_version'',
                      bd_content_hash = text ''content_hash'', bd_compile_hash = text ''compile_hash''\<rparr>)))"

definition resolve_input :: "snapshot_input_resolver \<Rightarrow> turn_input \<Rightarrow> action \<Rightarrow> capability_snapshot_input result" where
  "resolve_input rs i a =
     (let raw_payload = jget (action_payload a) ''capability_snapshot_input''
      in if sr_require_declared_snapshot_input rs \<and> (case raw_payload of JDict d \<Rightarrow> False | _ \<Rightarrow> True)
         then Inl (CapabilitySnapshotBuildError ''capability_snapshot_input is required in strict mode.'')
         else
           (let payload = as_dict_or_empty raw_payload;
                policy = as_dict_or_empty (jget payload ''policy'');
                approval = as_dict_or_empty (jget payload ''approval'');
                budget = as_dict_or_empty (jget payload ''budget'');
                bindings = as_dict_or_empty (jget payload ''capability_bindings'');
                session = as_dict_or_empty (jget payload ''session'');
                context = as_dict_or_empty (jget payload ''context'');
                bound = (\<lambda>k. as_str_list (dict_get_or bindings k (dict_get_or payload k (JList []))));
                optional = (\<lambda>d k. first_non_empty_optional_string [jget d k, jget payload k])
            in bind_result (resolve_declarative_bundle_digest payload) (\<lambda>digest.
               if sr_require_declarative_bundle_digest rs \<and> digest = None
               then Inl (CapabilitySnapshotBuildError ''declarative_bundle_digest is required in strict mode.'')
               else Inr
                 \<lparr>si_run_id = ti_run_id i, si_based_on_offset = ti_based_on_offset i,
                  si_tenant_policy_ref = first_non_empty_text [jget policy ''tenant_policy_ref'',
                    jget payload ''tenant_policy_ref'', JStr (sr_default_tenant_policy_ref rs)],
                  si_permission_mode = first_non_empty_text [jget policy ''permission_mode'',
                    jget payload ''permission_mode'', JStr (sr_default_permission_mode rs)],
                  si_tool_bindings = bound ''tool_bindings'', si_mcp_bindings = bound ''mcp_bindings'',
                  si_skill_bindings = bound ''skill_bindings'',
                  si_feature_flags = as_str_list (dict_get_or payload ''feature_flags'' (JList [])),
                  si_context_binding_ref = optional context ''context_binding_ref'',
                  si_context_content_hash = optional context ''context_content_hash'',
                  si_budget_ref = optional budget ''budget_ref'', si_quota_ref = optional budget ''quota_ref'',
                  si_session_mode = optional session ''session_mode'', si_approval_state = optional approval ''approval_state'',
                  si_declarative_bundle_digest = digest, si_peer_run_bindings = []\<rparr>)))"

section \<open>What it resolves to\<close>

lemma first_some_text:
  "first_non_empty_optional_string vs = Some s \<Longrightarrow> s \<noteq> []"
  by (induction vs) (auto simp: first_non_empty_optional_string_def split: json.splits if_splits option.splits)

lemma first_text_not_empty [simp]: "first_non_empty_optional_string vs \<noteq> Some []"
  using first_some_text by blast

lemma first_text_default: "s \<noteq> [] \<Longrightarrow> first_non_empty_text (vs @ [JStr s]) \<noteq> []"
proof -
  assume s: "s \<noteq> []"
  have "first_non_empty_optional_string (vs @ [JStr s]) \<noteq> None"
    using s by (induction vs) (auto simp: first_non_empty_optional_string_def split: json.splits option.splits if_splits)
  then show ?thesis using first_some_text by (auto simp: first_non_empty_text_def)
qed

lemma as_str_list_nonempty: "[] \<notin> set (as_str_list v)"
  by (cases v) (auto simp: as_str_list_def map_filter_def split: json.splits if_splits)

lemma digest_complete:
  "resolve_declarative_bundle_digest payload = Inr (Some d) \<Longrightarrow>
     bd_bundle_ref d \<noteq> [] \<and> bd_semantics_version d \<noteq> [] \<and> bd_content_hash d \<noteq> [] \<and> bd_compile_hash d \<noteq> []"
  by (auto simp: resolve_declarative_bundle_digest_def Let_def digest_fields_def dict_get_or_def dict_get_def
      split: if_splits option.splits dest: first_some_text)

text \<open>
  C20 (error): what a resolved input lacks.  A resolver with non-empty defaults gives, for any payload
  of an action, an error or an input from which the builder makes a snapshot, unless the payload
  names a context without its hash.  A digest that is part of the input is complete, and no binding
  is empty.
\<close>

theorem resolved_input_builds:
  assumes "sr_default_tenant_policy_ref rs \<noteq> []" "sr_default_permission_mode rs \<noteq> []"
    "ti_run_id i \<noteq> []" "0 \<le> ti_based_on_offset i" "resolve_input rs i a = Inr x"
  shows "((\<exists>e. build_snapshot now x = Inl e) \<longleftrightarrow> si_context_binding_ref x \<noteq> None \<and> si_context_content_hash x = None)
    \<and> (\<forall>d. si_declarative_bundle_digest x = Some d \<longrightarrow>
        bd_bundle_ref d \<noteq> [] \<and> bd_semantics_version d \<noteq> [] \<and> bd_content_hash d \<noteq> [] \<and> bd_compile_hash d \<noteq> [])
    \<and> [] \<notin> set (si_tool_bindings x @ si_mcp_bindings x @ si_skill_bindings x @ si_feature_flags x)"
proof -
  have texts: "si_tenant_policy_ref x \<noteq> []" "si_permission_mode x \<noteq> []" "si_run_id x \<noteq> []" "0 \<le> si_based_on_offset x"
    using assms first_text_default [of "sr_default_tenant_policy_ref rs" "[u, v]" for u v]
      first_text_default [of "sr_default_permission_mode rs" "[u, v]" for u v]
    by (auto simp: resolve_input_def Let_def split: if_splits elim!: bind_result_InrE)
  have opt: "si_context_binding_ref x \<noteq> Some []" "si_context_content_hash x \<noteq> Some []"
    using assms(5) by (auto simp: resolve_input_def Let_def split: if_splits elim!: bind_result_InrE)
  have digest: "resolve_declarative_bundle_digest (as_dict_or_empty (jget (action_payload a) ''capability_snapshot_input'')) =
      Inr (si_declarative_bundle_digest x)"
    using assms(5) by (auto simp: resolve_input_def Let_def split: if_splits elim!: bind_result_InrE)
  have "truthy (si_context_binding_ref x) = (si_context_binding_ref x \<noteq> None)"
    "truthy (si_context_content_hash x) = (si_context_content_hash x \<noteq> None)"
    using opt by (auto simp: truthy_def split: option.splits)
  then have "(\<exists>e. build_snapshot now x = Inl e) \<longleftrightarrow> si_context_binding_ref x \<noteq> None \<and> si_context_content_hash x = None"
    using texts by (auto simp: build_snapshot_def validate_input_def Let_def)
  moreover have "[] \<notin> set (si_tool_bindings x @ si_mcp_bindings x @ si_skill_bindings x @ si_feature_flags x)"
    using assms(5) as_str_list_nonempty by (auto simp: resolve_input_def Let_def split: if_splits elim!: bind_result_InrE)
  ultimately show ?thesis using digest digest_complete by fastforce
qed

text \<open>A structured field wins over the flat one, and both over the default.\<close>

lemma policy_priority:
  assumes "resolve_input rs i a = Inr x" "jget (action_payload a) ''capability_snapshot_input'' = JDict payload"
  shows "jget (as_dict_or_empty (jget payload ''policy'')) ''tenant_policy_ref'' = JStr s \<Longrightarrow> s \<noteq> [] \<Longrightarrow> si_tenant_policy_ref x = s"
    and "jget payload ''policy'' = JNull \<Longrightarrow> jget payload ''tenant_policy_ref'' = JStr s \<Longrightarrow> s \<noteq> [] \<Longrightarrow> si_tenant_policy_ref x = s"
  using assms
  by (auto simp: resolve_input_def Let_def as_dict_or_empty_def first_non_empty_text_def first_non_empty_optional_string_def
      jget_def dict_get_def split: if_splits elim!: bind_result_InrE)

definition sample_snapshot_action :: action where
  "sample_snapshot_action = (sample_action ''a1'' READ_ONLY)\<lparr>act_input_json := Some [(''capability_snapshot_input'',
     JDict [(''policy'', JDict [(''tenant_policy_ref'', JStr ''policy:t'')]), (''tool_bindings'', JList [JStr ''t1'', JStr ''''])])]\<rparr>"

definition sample_turn_of_r1 :: turn_input where
  "sample_turn_of_r1 = \<lparr>ti_run_id = ''r1'', ti_through_offset = 1, ti_based_on_offset = 1, ti_trigger_type = Trigger_start, ti_history = []\<rparr>"

lemma sample_resolves:
  "map_sum (\<lambda>_. ()) (\<lambda>x. (si_tenant_policy_ref x, si_tool_bindings x, si_context_binding_ref x))
     (resolve_input ActionPayloadCapabilitySnapshotInputResolver sample_turn_of_r1 sample_snapshot_action) =
   Inr (''policy:t'', [''t1''], None)"
  by code_simp

theorem resolved_input_builds_witness:
  "\<exists>x. resolve_input ActionPayloadCapabilitySnapshotInputResolver sample_turn_of_r1 sample_snapshot_action = Inr x
    \<and> (\<forall>e. build_snapshot ''now'' x \<noteq> Inl e)"
proof -
  obtain x where x: "resolve_input ActionPayloadCapabilitySnapshotInputResolver sample_turn_of_r1 sample_snapshot_action = Inr x"
    "si_context_binding_ref x = None"
    using sample_resolves
    by (cases "resolve_input ActionPayloadCapabilitySnapshotInputResolver sample_turn_of_r1 sample_snapshot_action") auto
  have "(\<exists>e. build_snapshot ''now'' x = Inl e) \<longleftrightarrow> si_context_binding_ref x \<noteq> None \<and> si_context_content_hash x = None"
    by (rule conjunct1 [OF resolved_input_builds [OF _ _ _ _ x(1)]])
      (simp_all add: ActionPayloadCapabilitySnapshotInputResolver_def sample_turn_of_r1_def)
  with x show ?thesis by auto
qed

end
