(* ===== verification/Float_Rounding.thy ===== *)
theory Float_Rounding
  imports Python_Float
begin

text \<open>
  What the kernel's durations rely on of double arithmetic: how far a rounded number is from the
  exact one, on which side of an integer it lies, and that integers below \<open>2 ^ 53\<close> are exact.  A
  duration in seconds is a difference of millisecond readings divided by 1000 (\<open>age_s\<close>); comparing it
  with a limit in whole seconds gives what the exact comparison of milliseconds gives.
\<close>

lemma floor_log2_bounds:
  assumes "0 < r"
  shows "2 powi floor_log2 r \<le> r \<and> r < 2 powi (floor_log2 r + 1)"
proof -
  obtain n d where q: "quotient_of r = (n, d)" by fastforce
  have d: "0 < d" and r: "r = of_int n / of_int d"
    using quotient_of_denom_pos [OF q] quotient_of_div [OF q] by simp_all
  have n: "0 < n" using assms r d by (simp add: zero_less_divide_iff)
  have pw: "2 powi (bitlen x - 1) \<le> (of_int x :: rat) \<and> of_int x < (2 :: rat) powi bitlen x" if "0 < x" for x :: int
  proof -
    have b: "2 ^ nat (bitlen x - 1) \<le> x" "x < 2 ^ nat (bitlen x)" "0 < bitlen x"
      using bitlen_bounds [of x] that bitlen_nonneg [of x] bitlen_eq_zero_iff [of x] by auto
    have "(2 :: rat) ^ nat (bitlen x - 1) \<le> of_int x" "of_int x < (2 :: rat) ^ nat (bitlen x)"
      using b(1,2) by (metis of_int_le_iff of_int_numeral of_int_power, metis of_int_less_iff of_int_numeral of_int_power)
    then show ?thesis using b(3) by (simp add: power_int_def)
  qed
  let ?e = "bitlen n - bitlen d"
  have up: "r < 2 powi (?e + 1)"
  proof -
    have "r < 2 powi bitlen n / of_int d" using pw [OF n] d r by (simp add: divide_strict_right_mono)
    also have "\<dots> \<le> 2 powi bitlen n / 2 powi (bitlen d - 1)" using pw [OF d] d by (intro divide_left_mono) auto
    also have "\<dots> = 2 powi (?e + 1)" by (simp add: power_int_diff [symmetric] algebra_simps)
    finally show ?thesis .
  qed
  have down: "2 powi (?e - 1) \<le> r"
  proof -
    have "(2 :: rat) powi (?e - 1) = 2 powi (bitlen n - 1) / 2 powi bitlen d" by (simp add: power_int_diff [symmetric] algebra_simps)
    also have "\<dots> \<le> of_int n / 2 powi bitlen d" using pw [OF n] by (intro divide_right_mono) auto
    also have "\<dots> \<le> r" unfolding r using pw [OF d] n d by (intro divide_left_mono) auto
    finally show ?thesis .
  qed
  show ?thesis using up down by (auto simp: floor_log2_def q Let_def)
qed

lemma round_half_even_bounds:
  "\<bar>of_int (round_half_even x) - x\<bar> \<le> 1 / 2" "of_int k \<le> x \<Longrightarrow> k \<le> round_half_even x" "x \<le> of_int k \<Longrightarrow> round_half_even x \<le> k"
proof -
  have f: "of_int \<lfloor>x\<rfloor> \<le> x" "x < of_int \<lfloor>x\<rfloor> + 1" by linarith+
  have r: "round_half_even x = (if x - of_int \<lfloor>x\<rfloor> < 1 / 2 then \<lfloor>x\<rfloor>
      else if 1 / 2 < x - of_int \<lfloor>x\<rfloor> then \<lfloor>x\<rfloor> + 1 else if even \<lfloor>x\<rfloor> then \<lfloor>x\<rfloor> else \<lfloor>x\<rfloor> + 1)"
    by (simp add: round_half_even_def Let_def)
  show "\<bar>of_int (round_half_even x) - x\<bar> \<le> 1 / 2" unfolding r using f by (simp add: abs_le_iff)
  show "of_int k \<le> x \<Longrightarrow> k \<le> round_half_even x" unfolding r using le_floor_iff [of k x] by auto
  show "round_half_even x \<le> k" if "x \<le> of_int k"
  proof (cases "x = of_int k")
    case True
    then show ?thesis unfolding r by simp
  next
    case False
    then have "\<lfloor>x\<rfloor> < k" using that by (simp add: floor_less_iff)
    then show ?thesis unfolding r by simp
  qed
qed

text \<open>Below \<open>2 ^ 53\<close> a double is within a relative error of \<open>2 ^ - 53\<close>, and rounding does not cross an integer.\<close>

lemma to_double_positive:
  assumes "2 powi (- 1022) \<le> r" "r < 2 ^ 53"
  obtains m where "to_double r = PFin m" "\<bar>m - r\<bar> \<le> r / 2 ^ 53"
    "\<And>k. of_int k \<le> r \<Longrightarrow> of_int k \<le> m" "\<And>k. r \<le> of_int k \<Longrightarrow> m \<le> of_int k"
proof -
  have pos: "0 < r" using assms(1) by (rule less_le_trans [rotated]) simp
  let ?e = "floor_log2 r" and ?q = "(2 :: rat) powi (floor_log2 r - 52)"
  note e = floor_log2_bounds [OF pos]
  have "(2 :: rat) powi ?e < 2 powi 53" using e assms(2) by simp
  then have e53: "?e < 53" using power_int_increasing [of 53 ?e "2 :: rat"] by (cases "?e < 53") simp_all
  have "(2 :: rat) powi (- 1022) < 2 powi (?e + 1)" using e assms(1) by linarith
  then have e1022: "- 1022 \<le> ?e" using power_int_increasing [of "?e + 1" "- 1022" "2 :: rat"] by (cases "- 1022 \<le> ?e") linarith+
  have q: "0 < ?q" by simp
  define k where "k = round_half_even (r / ?q)"
  let ?m = "of_int k * ?q"
  have unit: "?q = 2 powi ?e / 2 ^ 52" using power_int_diff [of "2 :: rat" ?e 52] by simp
  have int: "\<exists>z. (of_int j :: rat) / ?q = of_int z" for j
  proof -
    have "?q = inverse (2 ^ nat (52 - ?e))"
      using e53 by (cases "?e = 52") (simp_all add: power_int_def power_inverse power_divide inverse_eq_divide)
    then have "of_int j / ?q = of_int j * 2 ^ nat (52 - ?e)" by (simp only: divide_inverse inverse_inverse_eq)
    then show ?thesis by (metis of_int_mult of_int_numeral of_int_power)
  qed
  have "?m - r = (of_int k - r / ?q) * ?q" using q by (simp add: left_diff_distrib)
  then have "\<bar>?m - r\<bar> = \<bar>of_int k - r / ?q\<bar> * ?q" using q by (simp add: abs_mult)
  also have "\<dots> \<le> 1 / 2 * ?q" unfolding k_def by (intro mult_right_mono round_half_even_bounds(1)) simp
  also have "\<dots> \<le> r / 2 ^ 53" using e unfolding unit by (simp add: field_simps)
  finally have near: "\<bar>?m - r\<bar> \<le> r / 2 ^ 53" .
  have "?m < 2 powi 1024"
  proof -
    have "?m \<le> r + r / 2 ^ 53" using near abs_ge_self [of "?m - r"] by linarith
    also have "\<dots> < 2 ^ 54" using assms(2) by simp
    also have "(2 :: rat) ^ 54 \<le> 2 powi 1024" by (simp add: power_int_def)
    finally show ?thesis .
  qed
  then have "to_double r = PFin ?m" using pos e1022 by (simp add: to_double_def Let_def k_def max_absorb1)
  moreover have "of_int j \<le> ?m" if "of_int j \<le> r" for j
  proof -
    obtain z where z: "(of_int j :: rat) / ?q = of_int z" using int by blast
    have "z \<le> k" unfolding k_def using that q by (intro round_half_even_bounds(2)) (simp add: z [symmetric] divide_right_mono)
    then have "of_int z * ?q \<le> ?m" by simp
    then show ?thesis using q by (simp add: z [symmetric])
  qed
  moreover have "?m \<le> of_int j" if "r \<le> of_int j" for j
  proof -
    obtain z where z: "(of_int j :: rat) / ?q = of_int z" using int by blast
    have "k \<le> z" unfolding k_def using that q by (intro round_half_even_bounds(3)) (simp add: z [symmetric] divide_right_mono)
    then have "?m \<le> of_int z * ?q" by simp
    then show ?thesis using q by (simp add: z [symmetric])
  qed
  ultimately show ?thesis using near that by blast
qed

lemma to_double_normal:
  assumes "1 / 1000 \<le> r" "r < 2 ^ 53"
  shows "\<exists>m. to_double r = PFin m \<and> \<bar>m - r\<bar> \<le> r / 2 ^ 53 \<and> (\<forall>k. of_int k \<le> r \<longrightarrow> of_int k \<le> m) \<and> (\<forall>k. r \<le> of_int k \<longrightarrow> m \<le> of_int k)"
proof -
  have "(2 :: rat) powi (- 1022) \<le> 2 powi (- 10)" by (intro power_int_increasing) simp_all
  also have "\<dots> \<le> 1 / 1000" by (simp add: power_int_def power_divide)
  finally have "(2 :: rat) powi (- 1022) \<le> r" using assms(1) by (rule order_trans)
  then show ?thesis using to_double_positive [OF _ assms(2)] by metis
qed

lemma to_double_minus: "to_double r = PFin m \<Longrightarrow> to_double (- r) = PFin (- m)"
  by (auto simp: to_double_def Let_def split: if_splits)

lemma to_double_int:
  assumes "\<bar>n\<bar> < 2 ^ 53"
  shows "to_double (of_int n) = PFin (of_int n)"
proof -
  have pos: "to_double (of_int k) = PFin (of_int k)" if "0 < k" "k < 2 ^ 53" for k :: int
  proof -
    have "(1 :: rat) \<le> of_int k" using that(1) by simp
    then have "(1 :: rat) / 1000 \<le> of_int k" by (rule order_trans [rotated]) simp
    moreover have "(of_int k :: rat) < 2 ^ 53" using that(2) by (metis of_int_less_iff of_int_numeral of_int_power)
    ultimately obtain m where "to_double (of_int k) = PFin m" "of_int k \<le> m" "m \<le> of_int k"
      using to_double_normal [of "of_int k"] by blast
    then show ?thesis by simp
  qed
  consider "n = 0" | "0 < n" | "n < 0" by linarith
  then show ?thesis
  proof cases
    case 1
    then show ?thesis by (simp add: to_double_def)
  next
    case 2
    then show ?thesis using assms pos by simp
  next
    case 3
    then show ?thesis using pos [of "- n"] assms to_double_minus [of "of_int (- n)"] by simp
  qed
qed

section \<open>Durations\<close>

text \<open>\<^verbatim>\<open>(now_ms - then_ms) / 1000.0\<close>: the integer becomes a double, and the quotient is rounded again.\<close>

definition age_s :: "int \<Rightarrow> int \<Rightarrow> rat result" where
  "age_s now_ms then_ms =
     bind_result (float_of_int (now_ms - then_ms))
       (\<lambda>x. case to_double (x / 1000) of PFin y \<Rightarrow> Inr y | _ \<Rightarrow> Inl (OtherError ''OverflowError'' ''Result too large''))"

lemma age_rounded:
  assumes "\<bar>now - then_ms\<bar> < 2 ^ 53"
  obtains y where "age_s now then_ms = Inr y" "\<bar>y - of_int (now - then_ms) / 1000\<bar> \<le> \<bar>of_int (now - then_ms)\<bar> / 1000 / 2 ^ 53"
    "\<And>k. 1000 * k \<le> now - then_ms \<Longrightarrow> of_int k \<le> y" "\<And>k. now - then_ms \<le> 1000 * k \<Longrightarrow> y \<le> of_int k"
proof -
  define n where "n = now - then_ms"
  have age: "age_s now then_ms = (case to_double (of_int n / 1000) of PFin y \<Rightarrow> Inr y | _ \<Rightarrow> Inl (OtherError ''OverflowError'' ''Result too large''))"
    using to_double_int [OF assms] by (simp add: age_s_def float_of_int_def n_def)
  have pos: "\<exists>y. to_double (of_int k / 1000) = PFin y \<and> \<bar>y - of_int k / 1000\<bar> \<le> \<bar>of_int k\<bar> / 1000 / 2 ^ 53
      \<and> (\<forall>j. 1000 * j \<le> k \<longrightarrow> of_int j \<le> y) \<and> (\<forall>j. k \<le> 1000 * j \<longrightarrow> y \<le> of_int j)" if k: "0 < k" "k < 2 ^ 53" for k :: int
  proof -
    have lo: "(1 :: rat) / 1000 \<le> of_int k / 1000" using k by simp
    have "(of_int k :: rat) < 2 ^ 53" using k(2) by (metis of_int_less_iff of_int_numeral of_int_power)
    then have hi: "(of_int k :: rat) / 1000 < 2 ^ 53" by simp
    obtain y where y: "to_double (of_int k / 1000) = PFin y" "\<bar>y - of_int k / 1000\<bar> \<le> of_int k / 1000 / 2 ^ 53"
      and le: "\<And>j. of_int j \<le> of_int k / (1000 :: rat) \<Longrightarrow> of_int j \<le> y" and ge: "\<And>j. of_int k / (1000 :: rat) \<le> of_int j \<Longrightarrow> y \<le> of_int j"
      using to_double_normal [OF lo hi] by blast
    have "of_int j \<le> y" if "1000 * j \<le> k" for j
    proof (rule le)
      have "(of_int (1000 * j) :: rat) \<le> of_int k" using that by (simp only: of_int_le_iff)
      then show "of_int j \<le> of_int k / (1000 :: rat)" by simp
    qed
    moreover have "y \<le> of_int j" if "k \<le> 1000 * j" for j
    proof (rule ge)
      have "(of_int k :: rat) \<le> of_int (1000 * j)" using that by (simp only: of_int_le_iff)
      then show "of_int k / (1000 :: rat) \<le> of_int j" by simp
    qed
    ultimately show ?thesis using y k(1) by auto
  qed
  have ex: "\<exists>y. to_double (of_int n / 1000) = PFin y \<and> \<bar>y - of_int n / 1000\<bar> \<le> \<bar>of_int n\<bar> / 1000 / 2 ^ 53
      \<and> (\<forall>j. 1000 * j \<le> n \<longrightarrow> of_int j \<le> y) \<and> (\<forall>j. n \<le> 1000 * j \<longrightarrow> y \<le> of_int j)"
  proof -
    consider "n = 0" | "0 < n" | "n < 0" by linarith
    then show ?thesis
    proof cases
      case 1
      then show ?thesis by (auto simp: to_double_def)
    next
      case 2
      then show ?thesis using assms by (intro pos) (simp_all add: n_def)
    next
      case 3
      obtain y where y: "to_double (of_int (- n) / 1000) = PFin y" "\<bar>y - of_int (- n) / 1000\<bar> \<le> \<bar>of_int (- n)\<bar> / 1000 / 2 ^ 53"
        "\<forall>j. 1000 * j \<le> - n \<longrightarrow> of_int j \<le> y" "\<forall>j. - n \<le> 1000 * j \<longrightarrow> y \<le> of_int j"
        using pos [of "- n"] 3 assms unfolding n_def by auto
      have "to_double (of_int n / 1000) = PFin (- y)" using to_double_minus [OF y(1)] by simp
      moreover have "\<bar>- y - of_int n / 1000\<bar> \<le> \<bar>of_int n\<bar> / 1000 / 2 ^ 53" using y(2) by (simp add: abs_if split: if_splits)
      moreover have "of_int j \<le> - y" if "1000 * j \<le> n" for j using y(4) that by (metis minus_le_iff mult_minus_right neg_le_iff_le of_int_minus le_minus_iff)
      moreover have "- y \<le> of_int j" if "n \<le> 1000 * j" for j using y(3) that by (metis minus_le_iff mult_minus_right neg_le_iff_le of_int_minus)
      ultimately show ?thesis by blast
    qed
  qed
  then show ?thesis using that age unfolding n_def by auto
qed


text \<open>For readings less than \<open>2 ^ 53\<close> milliseconds apart, comparing the age with a limit in whole seconds is exact.\<close>

lemma age_compare:
  assumes "\<bar>now - then_ms\<bar> < 2 ^ 53"
  shows "\<exists>y. age_s now then_ms = Inr y \<and> (\<forall>t. of_int t \<le> y \<longleftrightarrow> 1000 * t \<le> now - then_ms) \<and> (\<forall>t. of_int t < y \<longleftrightarrow> 1000 * t < now - then_ms)"
proof -
  define n where "n = now - then_ms"
  obtain y where y: "age_s now then_ms = Inr y" "\<bar>y - of_int n / 1000\<bar> \<le> \<bar>of_int n\<bar> / 1000 / 2 ^ 53"
    and le: "\<And>k. 1000 * k \<le> n \<Longrightarrow> of_int k \<le> y" and ge: "\<And>k. n \<le> 1000 * k \<Longrightarrow> y \<le> of_int k"
    using age_rounded [OF assms] unfolding n_def by metis
  have "\<bar>of_int n :: rat\<bar> < 2 ^ 53" using assms unfolding n_def by (metis of_int_abs of_int_less_iff of_int_numeral of_int_power)
  then have near: "\<bar>y - of_int n / 1000\<bar> < 1 / 1000" using y(2) by simp
  have below: "y < of_int t" if "n < 1000 * t" for t
  proof -
    have "(of_int (n + 1) :: rat) \<le> of_int (1000 * t)" using that by (simp only: of_int_le_iff)
    then show ?thesis using near by (simp add: abs_less_iff field_simps)
  qed
  have above: "of_int t < y" if "1000 * t < n" for t
  proof -
    have "(of_int (1000 * t + 1) :: rat) \<le> of_int n" using that by (simp only: of_int_le_iff)
    then show ?thesis using near by (simp add: abs_less_iff field_simps)
  qed
  have "of_int t \<le> y \<longleftrightarrow> 1000 * t \<le> n" for t using le below by (meson leD le_less_linear not_less)
  moreover have "of_int t < y \<longleftrightarrow> 1000 * t < n" for t using ge above by (meson leD le_less_linear not_less)
  ultimately show ?thesis using y(1) unfolding n_def by blast
qed


section \<open>Formatting\<close>

text \<open>\<^verbatim>\<open>f"{x:.<d>f}"\<close> and \<^verbatim>\<open>round(x, 1)\<close> of a finite double, both on its exact value.\<close>

definition format_fixed :: "nat \<Rightarrow> rat \<Rightarrow> string" where
  "format_fixed d x =
     (let k = nat (round_half_even (\<bar>x\<bar> * 10 ^ d));
          digits = show_nat (k mod 10 ^ d)
      in (if x < 0 then ''-'' else '''') @ show_nat (k div 10 ^ d) @
         (if d = 0 then '''' else ''.'' @ replicate (d - length digits) CHR ''0'' @ digits))"

definition round_1 :: "rat \<Rightarrow> pyfloat" where
  "round_1 x = to_double (of_int (round_half_even (x * 10)) / 10)"

end
