(* ===== verification/Health_Probe.thy ===== *)
theory Health_Probe
  imports Kernel_Facade SQLite_Dedupe SQLite_Connection Float_Rounding
begin

text \<open>
  The health probes of \<^verbatim>\<open>runtime/health.py\<close>.  A check is a call that may read and change the
  environment it looks at (a connection, a clock) and may raise; \<open>KernelHealthProbe\<close> runs the
  registered checks and combines their verdicts.
\<close>

section \<open>The probe\<close>

datatype health_status = HS_OK | HS_DEGRADED | HS_UNHEALTHY

fun health_status_str :: "health_status \<Rightarrow> string" where
  "health_status_str HS_OK = ''ok''"
| "health_status_str HS_DEGRADED = ''degraded''"
| "health_status_str HS_UNHEALTHY = ''unhealthy''"

type_synonym verdict = "health_status \<times> string"
type_synonym 'w health_check_fn = "('w, verdict) act"

record 'w health_probe =
  hp_component_name :: string
  hp_checks :: "(string, 'w health_check_fn \<times> bool) dict"

definition KernelHealthProbe :: "'w health_probe" where
  "KernelHealthProbe = \<lparr>hp_component_name = ''agent-kernel'', hp_checks = []\<rparr>"

definition register_check :: "'w health_probe \<Rightarrow> string \<Rightarrow> 'w health_check_fn \<Rightarrow> bool \<Rightarrow> 'w health_probe result" where
  "register_check p name check_fn required_for_startup =
     (if dict_has (hp_checks p) name
      then Inl (ValueError (''Health check '' @ repr_str name @ '' is already registered.''))
      else Inr (p\<lparr>hp_checks := dict_set name (check_fn, required_for_startup) (hp_checks p)\<rparr>))"

definition run_check :: "'w health_probe \<Rightarrow> string \<Rightarrow> ('w, verdict) act" where
  "run_check p name =
     (case dict_get (hp_checks p) name of
        None \<Rightarrow> raise_act (KeyError name)
      | Some (check_fn, _) \<Rightarrow> catch_act check_fn (\<lambda>exc. return_act (HS_UNHEALTHY, exn_str exc)))"

fun run_subset :: "'w health_probe \<Rightarrow> string list \<Rightarrow> ('w, (string, verdict) dict) act" where
  "run_subset p [] = return_act []"
| "run_subset p (name # names) =
     bind_act (run_check p name) (\<lambda>v. bind_act (run_subset p names) (\<lambda>results. return_act ((name, v) # results)))"

definition run_all_checks :: "'w health_probe \<Rightarrow> ('w, (string, verdict) dict) act" where
  "run_all_checks p = run_subset p (map fst (hp_checks p))"

definition format_response :: "'w health_probe \<Rightarrow> int \<Rightarrow> health_status \<Rightarrow> (string, verdict) dict \<Rightarrow> jdict" where
  "format_response p now_ms aggregate results =
     [(''component'', JStr (hp_component_name p)), (''status'', JStr (health_status_str aggregate)),
      (''checks'', JDict (map (\<lambda>(name, s, msg).
         (name, JDict [(''status'', JStr (health_status_str s)), (''message'', JStr msg)])) results)),
      (''timestamp_ms'', JInt now_ms)]"

definition liveness_status :: "health_status list \<Rightarrow> health_status" where
  "liveness_status ss = (if HS_UNHEALTHY \<in> set ss then HS_UNHEALTHY else HS_OK)"

definition readiness_status :: "health_status list \<Rightarrow> health_status" where
  "readiness_status ss =
     (if set ss = {HS_OK} \<or> set ss = {} then HS_OK else if HS_UNHEALTHY \<in> set ss then HS_UNHEALTHY else HS_DEGRADED)"

definition startup_status :: "health_status list \<Rightarrow> health_status" where
  "startup_status ss = (if set ss = {HS_OK} then HS_OK else HS_UNHEALTHY)"

definition statuses :: "(string, verdict) dict \<Rightarrow> health_status list" where
  "statuses results = map (\<lambda>(_, s, _). s) results"

definition liveness :: "'w health_probe \<Rightarrow> int \<Rightarrow> ('w, jdict) act" where
  "liveness p now_ms =
     bind_act (run_all_checks p) (\<lambda>results. return_act (format_response p now_ms (liveness_status (statuses results)) results))"

definition probe_readiness :: "'w health_probe \<Rightarrow> int \<Rightarrow> ('w, jdict) act" where
  "probe_readiness p now_ms =
     bind_act (run_all_checks p) (\<lambda>results. return_act (format_response p now_ms (readiness_status (statuses results)) results))"

definition startup :: "'w health_probe \<Rightarrow> int \<Rightarrow> ('w, jdict) act" where
  "startup p now_ms =
     (let required_names = List.map_filter (\<lambda>(name, _, required). if required then Some name else None) (hp_checks p)
      in if required_names = [] then return_act (format_response p now_ms HS_OK [])
         else bind_act (run_subset p required_names)
           (\<lambda>results. return_act (format_response p now_ms (startup_status (statuses results)) results)))"

section \<open>Ready-made checks\<close>

definition sqlite_dedupe_store_health_check :: "sqlite_db health_check_fn" where
  "sqlite_dedupe_store_health_check =
     catch_act (bind_act (\<lambda>db. sql_exec db (\<lambda>db. (db, Inr ()))) (\<lambda>_. return_act (HS_OK, ''SQLiteDedupeStore reachable'')))
       (\<lambda>exc. return_act (HS_UNHEALTHY, ''SQLiteDedupeStore unreachable: '' @ exn_str exc))"

text \<open>What the duck-typed log offers for counting its events.\<close>

datatype event_count = ListEvents "nat result" | EventsAttribute nat | NoCount

definition event_log_health_check :: "('w \<Rightarrow> event_count) \<Rightarrow> 'w health_check_fn" where
  "event_log_health_check event_log w =
     (w, Inr (let reachable = (\<lambda>count. (HS_OK, ''EventLog reachable ('' @ show_nat count @ '' events)''))
        in case event_log w of
             ListEvents (Inl exc) \<Rightarrow> (HS_UNHEALTHY, ''EventLog unreachable: '' @ exn_str exc)
           | ListEvents (Inr count) \<Rightarrow> reachable count
           | EventsAttribute count \<Rightarrow> reachable count
           | NoCount \<Rightarrow> (HS_OK, ''EventLog reachable (no count available)'')))"

text \<open>
  \<open>elapsed\<close> is the difference of the two readings of the monotonic clock, times 1000.  The rollback in
  the handler is conditional on an open transaction, whoever opened it.
\<close>

definition sqlite_lock_contention_health_check :: "rat \<Rightarrow> int \<Rightarrow> 't connection health_check_fn" where
  "sqlite_lock_contention_health_check elapsed threshold_ms =
     catch_act
       (bind_act sql_begin (\<lambda>_. bind_act sql_rollback (\<lambda>_.
        return_act
          (if elapsed > of_int threshold_ms
           then (HS_DEGRADED, ''SQLite lock acquired in '' @ format_fixed 0 elapsed @ ''ms (threshold '' @
             show_int threshold_ms @ ''ms); possible contention'')
           else (HS_OK, ''SQLite lock acquired in '' @ format_fixed 1 elapsed @ ''ms'')))))
       (\<lambda>exc. bind_act (suppress_act (\<lambda>c. if cn_saved c \<noteq> None then sql_rollback c else (c, Inr ())))
          (\<lambda>_. return_act (HS_UNHEALTHY, ''SQLite lock probe failed: '' @ exn_str exc)))"

section \<open>Checks of the runtime\<close>

text \<open>The checks that \<^verbatim>\<open>KernelRuntime.start\<close> registers for the worker and the outbox reconciler.\<close>

definition worker_health_check :: "('w \<Rightarrow> bool) \<Rightarrow> 'w health_check_fn" where
  "worker_health_check worker_failed w =
     (w, Inr (if worker_failed w then (HS_UNHEALTHY, ''worker_failed'') else (HS_OK, ''worker_running'')))"

definition outbox_health_check :: "('w \<Rightarrow> (int \<times> int) option) \<Rightarrow> 'w health_check_fn" where
  "outbox_health_check last_reconciliation_result w =
     (w, Inr (case last_reconciliation_result w of
        None \<Rightarrow> (HS_OK, ''outbox_reconciler_not_run_yet'')
      | Some (found, repaired) \<Rightarrow>
          if found > 0
          then (HS_DEGRADED, ''outbox_reconciler_found_violations found='' @ show_int found @ '' repaired='' @ show_int repaired)
          else (HS_OK, ''outbox_reconciler_clean'')))"

section \<open>What the probes answer\<close>

lemma run_check_total:
  assumes "name \<in> set (map fst (hp_checks p))"
  shows "\<exists>w' v. run_check p name w = (w', Inr v)"
proof -
  obtain check required where "dict_get (hp_checks p) name = Some (check, required)"
    using assms map_of_eq_None_iff [of "hp_checks p" name] by (cases "map_of (hp_checks p) name") (auto simp: dict_get_def)
  then show ?thesis by (cases "check w"; cases "snd (check w)") (auto simp: run_check_def)
qed

text \<open>Every named check is run once, in order, and its verdict or failure is in the results.\<close>

lemma run_subset_results:
  assumes "set names \<subseteq> set (map fst (hp_checks p))"
  shows "\<exists>w' results. run_subset p names w = (w', Inr results) \<and> map fst results = names"
  using assms
proof (induction names arbitrary: w)
  case (Cons name names)
  obtain w1 v where "run_check p name w = (w1, Inr v)" using run_check_total [of name p w] Cons.prems by auto
  moreover obtain w2 results where "run_subset p names w1 = (w2, Inr results)" "map fst results = names"
    using Cons.IH [of w1] Cons.prems by auto
  ultimately show ?case by simp
qed simp

definition response_status :: "jdict \<Rightarrow> json" where
  "response_status resp = jget resp ''status''"

lemma response_status_format [simp]:
  "response_status (format_response p now_ms s results) = JStr (health_status_str s)"
  by (simp add: response_status_def format_response_def jget_def dict_get_def)

lemma health_status_str_inj [simp]: "health_status_str s = health_status_str t \<longleftrightarrow> s = t"
  by (cases s; cases t) simp_all

text \<open>
  Neither probe raises, whatever the checks do.  Both run the same checks; the kernel is ready only if
  it is alive, and the two probes differ exactly when some check is degraded and none is unhealthy.
\<close>

lemma probes_answer:
  fixes p :: "'w health_probe"
  shows "\<exists>w' results. run_all_checks p w = (w', Inr results) \<and> map fst results = map fst (hp_checks p)
    \<and> liveness p now w = (w', Inr (format_response p now (liveness_status (statuses results)) results))
    \<and> probe_readiness p now w = (w', Inr (format_response p now (readiness_status (statuses results)) results))
    \<and> (readiness_status (statuses results) = HS_OK \<longrightarrow> liveness_status (statuses results) = HS_OK)
    \<and> (readiness_status (statuses results) \<noteq> liveness_status (statuses results)
       \<longleftrightarrow> HS_DEGRADED \<in> set (statuses results) \<and> HS_UNHEALTHY \<notin> set (statuses results))"
proof -
  obtain w' results where run: "run_all_checks p w = (w', Inr results)" "map fst results = map fst (hp_checks p)"
    using run_subset_results [of "map fst (hp_checks p)" p w] by (auto simp: run_all_checks_def)
  let ?ss = "set (statuses results)"
  have "readiness_status (statuses results) = HS_OK \<longleftrightarrow> ?ss \<subseteq> {HS_OK}"
    by (auto simp: readiness_status_def subset_singleton_iff)
  moreover have "?ss \<subseteq> {HS_OK} \<longleftrightarrow> HS_DEGRADED \<notin> ?ss \<and> HS_UNHEALTHY \<notin> ?ss"
    by (metis (full_types) empty_iff health_status.exhaust health_status.distinct insert_iff subset_iff)
  moreover have "liveness_status (statuses results) = (if HS_UNHEALTHY \<in> ?ss then HS_UNHEALTHY else HS_OK)"
    "HS_UNHEALTHY \<in> ?ss \<Longrightarrow> readiness_status (statuses results) = HS_UNHEALTHY"
    by (auto simp: liveness_status_def readiness_status_def)
  ultimately show ?thesis
    using run by (intro exI [of _ w'] exI [of _ results]) (auto simp: liveness_def probe_readiness_def)
qed

text \<open>
  The lock probe leaves an idle connection as it was.  On a connection with an open transaction it
  fails and rolls that transaction back, so what another party wrote in it is lost.
\<close>

lemma lock_probe_idle:
  assumes "idle c" "sqlite_lock_contention_health_check e t c = (c', r)"
  shows "idle c' \<and> cn_tables c' = cn_tables c \<and> is_ok r"
  using assms
  by (auto simp: sqlite_lock_contention_health_check_def idle_def sql_begin_def execute_def sql_rollback_def catch_act_def
      bind_act_def is_ok_def split: list.splits if_splits option.splits)

lemma lock_probe_rolls_back_foreign_transaction:
  assumes "cn_saved c = Some before"
  shows "\<exists>c' msg. sqlite_lock_contention_health_check e t c = (c', Inr (HS_UNHEALTHY, msg)) \<and> cn_tables c' = before \<and> idle c'"
  using assms
  by (auto simp: sqlite_lock_contention_health_check_def idle_def sql_begin_def execute_def sql_rollback_def catch_act_def
      bind_act_def split: list.splits if_splits option.splits)

end
