(* ===== verification/Run_Heartbeat.thy ===== *)
theory Run_Heartbeat
  imports Health_Probe Local_Gateway
begin

text \<open>
  The heartbeats of \<^verbatim>\<open>runtime/heartbeat.py\<close>: \<open>RunHeartbeatMonitor\<close>, which hears of the activity of runs
  through the observability hooks and signals the runs that have been silent for too long,
  \<open>KernelSelfHeartbeat\<close>, which caches what the log and the projection answered, and the watchdog task.
  Readings of the clock are arguments.  The lock makes every method atomic; a hook may run while the
  watchdog awaits the delivery of a signal, so the signal is a call on gateway and monitor together.
\<close>

section \<open>Policy and monitor\<close>

definition MONITORED_STATES :: "string list" where
  "MONITORED_STATES = [''dispatching'', ''waiting_result'', ''waiting_external'', ''waiting_human_input'', ''recovering'']"

definition DEFAULT_STATE_TIMEOUTS :: "(string, int) dict" where
  "DEFAULT_STATE_TIMEOUTS =
     [(''dispatching'', 300), (''waiting_result'', 600), (''waiting_external'', 3600), (''waiting_human_input'', 86400),
      (''recovering'', 180)]"

record heartbeat_policy =
  hb_state_timeout_s :: "(string, int) dict"
  hb_min_heartbeat_interval_s :: int
  hb_stale_check_age_s :: int

definition HeartbeatPolicy :: heartbeat_policy where
  "HeartbeatPolicy = \<lparr>hb_state_timeout_s = [], hb_min_heartbeat_interval_s = 5, hb_stale_check_age_s = 60\<rparr>"

definition timeout_for :: "heartbeat_policy \<Rightarrow> string \<Rightarrow> int option" where
  "timeout_for policy lifecycle_state =
     (if lifecycle_state \<notin> set MONITORED_STATES then None
      else Some (dict_get_or (hb_state_timeout_s policy) lifecycle_state
        (dict_get_or DEFAULT_STATE_TIMEOUTS lifecycle_state 600)))"

record run_heartbeat_entry =
  he_run_id :: string
  he_last_seen_ms :: int
  he_lifecycle_state :: string
  he_heartbeat_count :: int

record heartbeat_monitor =
  hm_policy :: heartbeat_policy
  hm_entries :: "(string, run_heartbeat_entry) dict"
  hm_timed_out :: "string set"

definition RunHeartbeatMonitor :: "heartbeat_policy option \<Rightarrow> heartbeat_monitor" where
  "RunHeartbeatMonitor policy =
     \<lparr>hm_policy = (case policy of None \<Rightarrow> HeartbeatPolicy | Some p \<Rightarrow> p), hm_entries = [], hm_timed_out = {}\<rparr>"

definition touch :: "string \<Rightarrow> string option \<Rightarrow> int \<Rightarrow> heartbeat_monitor \<Rightarrow> heartbeat_monitor" where
  "touch run_id lifecycle_state timestamp_ms m =
     (let entry = (case dict_get (hm_entries m) run_id of
            None \<Rightarrow>
              \<lparr>he_run_id = run_id, he_last_seen_ms = timestamp_ms,
               he_lifecycle_state = (if truthy lifecycle_state then the lifecycle_state else ''ready''), he_heartbeat_count = 1\<rparr>
          | Some e \<Rightarrow>
              e\<lparr>he_last_seen_ms := timestamp_ms, he_heartbeat_count := he_heartbeat_count e + 1,
                he_lifecycle_state := (case lifecycle_state of None \<Rightarrow> he_lifecycle_state e | Some s \<Rightarrow> s)\<rparr>)
      in m\<lparr>hm_entries := dict_set run_id entry (hm_entries m), hm_timed_out := hm_timed_out m - {run_id}\<rparr>)"

definition clear :: "string \<Rightarrow> heartbeat_monitor \<Rightarrow> heartbeat_monitor" where
  "clear run_id m = m\<lparr>hm_entries := dict_pop run_id (hm_entries m), hm_timed_out := hm_timed_out m - {run_id}\<rparr>"

text \<open>The hooks; the arguments the monitor does not look at are left out.\<close>

definition on_turn_state_transition :: "string \<Rightarrow> int \<Rightarrow> heartbeat_monitor \<Rightarrow> heartbeat_monitor" where
  "on_turn_state_transition run_id timestamp_ms = touch run_id None timestamp_ms"

definition on_run_lifecycle_transition :: "string \<Rightarrow> string \<Rightarrow> int \<Rightarrow> heartbeat_monitor \<Rightarrow> heartbeat_monitor" where
  "on_run_lifecycle_transition run_id to_state timestamp_ms m =
     (let m = touch run_id (Some to_state) timestamp_ms m
      in if to_state \<in> {''completed'', ''aborted''} then clear run_id m else m)"

definition on_llm_call :: "string \<Rightarrow> int \<Rightarrow> heartbeat_monitor \<Rightarrow> heartbeat_monitor" where
  "on_llm_call run_id now_ms = touch run_id None now_ms"

definition on_action_dispatch :: "string \<Rightarrow> int \<Rightarrow> heartbeat_monitor \<Rightarrow> heartbeat_monitor" where
  "on_action_dispatch run_id now_ms = touch run_id None now_ms"

definition on_recovery_triggered :: "string \<Rightarrow> heartbeat_monitor \<Rightarrow> heartbeat_monitor" where
  "on_recovery_triggered run_id m = m"

definition record_heartbeat :: "string \<Rightarrow> int \<Rightarrow> heartbeat_monitor \<Rightarrow> heartbeat_monitor" where
  "record_heartbeat run_id now_ms = touch run_id None now_ms"

definition is_alive :: "heartbeat_monitor \<Rightarrow> int \<Rightarrow> string \<Rightarrow> bool result" where
  "is_alive m now_ms run_id =
     (case dict_get (hm_entries m) run_id of
        None \<Rightarrow> Inr True
      | Some e \<Rightarrow>
          (case timeout_for (hm_policy m) (he_lifecycle_state e) of
             None \<Rightarrow> Inr True
           | Some timeout_s \<Rightarrow> map_sum id (\<lambda>age. age < of_int timeout_s) (age_s now_ms (he_last_seen_ms e))))"

definition last_seen_age_s :: "heartbeat_monitor \<Rightarrow> int \<Rightarrow> string \<Rightarrow> rat option result" where
  "last_seen_age_s m now_ms run_id =
     (case dict_get (hm_entries m) run_id of
        None \<Rightarrow> Inr None
      | Some e \<Rightarrow> map_sum id Some (age_s now_ms (he_last_seen_ms e)))"

section \<open>The watchdog\<close>

text \<open>The loop over the tracked runs marks a run when it reports it, so an exception keeps the marks made so far.\<close>

fun scan_entries ::
  "heartbeat_policy \<Rightarrow> int \<Rightarrow> (string, run_heartbeat_entry) dict \<Rightarrow> (string set, string list) act" where
  "scan_entries policy now_ms [] = return_act []"
| "scan_entries policy now_ms ((run_id, e) # es) =
     bind_act (read_act (\<lambda>timed_out. run_id \<in> timed_out)) (\<lambda>signalled.
     if signalled then scan_entries policy now_ms es
     else case timeout_for policy (he_lifecycle_state e) of
       None \<Rightarrow> scan_entries policy now_ms es
     | Some timeout_s \<Rightarrow>
         bind_act (\<lambda>s. (s, age_s now_ms (he_last_seen_ms e))) (\<lambda>age.
         if of_int timeout_s \<le> age
         then bind_act (modify_act (insert run_id)) (\<lambda>_.
              bind_act (scan_entries policy now_ms es) (\<lambda>rs. return_act (run_id # rs)))
         else scan_entries policy now_ms es))"

definition get_timed_out_runs :: "int \<Rightarrow> (heartbeat_monitor, string list) act" where
  "get_timed_out_runs now_ms m =
     (case scan_entries (hm_policy m) now_ms (hm_entries m) (hm_timed_out m) of
        (timed_out, r) \<Rightarrow> (m\<lparr>hm_timed_out := timed_out\<rparr>, r))"

definition discard_timed_out :: "string \<Rightarrow> heartbeat_monitor \<Rightarrow> heartbeat_monitor" where
  "discard_timed_out run_id m = m\<lparr>hm_timed_out := hm_timed_out m - {run_id}\<rparr>"

definition timeout_signal :: "string \<Rightarrow> rat \<Rightarrow> signal_run_request" where
  "timeout_signal run_id age =
     \<lparr>gq_run_id = run_id, gq_signal_type = ''heartbeat_timeout'',
      gq_signal_payload = Some [(''silent_s'', JFloat (round_1 age))],
      gq_caused_by = Some (''heartbeat_monitor:'' @ run_id)\<rparr>"

type_synonym 'g watched = "'g \<times> heartbeat_monitor"

fun signal_timed_out ::
  "(string \<Rightarrow> signal_run_request \<Rightarrow> ('g watched, unit) act) \<Rightarrow> (string \<Rightarrow> int) \<Rightarrow> string list \<Rightarrow> ('g watched, unit) act" where
  "signal_timed_out signal now_ms [] = return_act ()"
| "signal_timed_out signal now_ms (run_id # rs) =
     bind_act (\<lambda>st. (st, last_seen_age_s (snd st) (now_ms run_id) run_id)) (\<lambda>age.
     bind_act (catch_act (signal run_id (timeout_signal run_id (case age of None \<Rightarrow> 0 | Some a \<Rightarrow> a)))
       (\<lambda>exc. modify_act (\<lambda>(g, m). (g, discard_timed_out run_id m)))) (\<lambda>_.
     signal_timed_out signal now_ms rs))"

definition heartbeat_sweep ::
  "(string \<Rightarrow> signal_run_request \<Rightarrow> ('g watched, unit) act) \<Rightarrow> int \<Rightarrow> (string \<Rightarrow> int) \<Rightarrow> ('g watched, unit) act" where
  "heartbeat_sweep signal now_ms later_ms =
     bind_act (\<lambda>(g, m). case get_timed_out_runs now_ms m of (m', r) \<Rightarrow> ((g, m'), r)) (signal_timed_out signal later_ms)"

text \<open>
  The two loops around the sweep, one element per round: the task of \<^verbatim>\<open>start_watchdog\<close> ends with the
  first exception, \<open>HeartbeatWatchdog\<close> goes on.
\<close>

fun start_watchdog :: "('s, unit) act list \<Rightarrow> ('s, unit) act" where
  "start_watchdog [] = return_act ()"
| "start_watchdog (sweep # sweeps) = bind_act sweep (\<lambda>_. start_watchdog sweeps)"

fun watchdog_loop :: "('s, unit) act list \<Rightarrow> ('s, unit) act" where
  "watchdog_loop [] = return_act ()"
| "watchdog_loop (sweep # sweeps) = bind_act (suppress_act sweep) (\<lambda>_. watchdog_loop sweeps)"

datatype watchdog_task = NoTask | TaskRunning | TaskDone

text \<open>\<open>start\<close> says whether it created a task.\<close>

definition watchdog_start :: "watchdog_task \<Rightarrow> watchdog_task \<times> bool" where
  "watchdog_start t = (if t = TaskRunning then (t, False) else (TaskRunning, True))"

definition watchdog_stop :: "watchdog_task \<Rightarrow> watchdog_task" where
  "watchdog_stop t = (case t of TaskRunning \<Rightarrow> TaskDone | _ \<Rightarrow> t)"

section \<open>Health of the runs\<close>

definition repr_list :: "string list \<Rightarrow> string" where
  "repr_list xs = ''['' @ join '', '' (map repr_str xs) @ '']''"

text \<open>\<^verbatim>\<open>timeout_s * 0.8\<close>\<close>

definition near_limit :: "int \<Rightarrow> pyfloat result" where
  "near_limit timeout_s =
     map_sum id (\<lambda>t. case to_double (4 / 5) of PFin c \<Rightarrow> to_double (t * c) | x \<Rightarrow> x) (float_of_int timeout_s)"

definition reaches :: "rat \<Rightarrow> pyfloat \<Rightarrow> bool" where
  "reaches age limit = (case limit of PFin l \<Rightarrow> l \<le> age | PNegInf \<Rightarrow> True | _ \<Rightarrow> False)"

fun classify_entries ::
  "heartbeat_monitor \<Rightarrow> int \<Rightarrow> (string, run_heartbeat_entry) dict \<Rightarrow> (string list \<times> string list) result" where
  "classify_entries m now_ms [] = Inr ([], [])"
| "classify_entries m now_ms ((run_id, e) # es) =
     (case timeout_for (hm_policy m) (he_lifecycle_state e) of
        None \<Rightarrow> classify_entries m now_ms es
      | Some timeout_s \<Rightarrow>
          bind_result (age_s now_ms (he_last_seen_ms e)) (\<lambda>age.
          if of_int timeout_s \<le> age \<and> run_id \<in> hm_timed_out m
          then map_sum id (\<lambda>(already, near). (run_id # already, near)) (classify_entries m now_ms es)
          else bind_result (near_limit timeout_s) (\<lambda>limit.
            map_sum id (\<lambda>(already, near). (already, if reaches age limit then run_id # near else near))
              (classify_entries m now_ms es))))"

definition runs_health_check :: "int \<Rightarrow> heartbeat_monitor health_check_fn" where
  "runs_health_check now_ms m =
     (m, map_sum id (\<lambda>(already, near).
        if already \<noteq> [] then (HS_UNHEALTHY, ''Runs timed out (signal injected): '' @ repr_list already)
        else if near \<noteq> [] then (HS_DEGRADED, ''Runs approaching heartbeat timeout: '' @ repr_list near)
        else (HS_OK, ''All monitored runs within heartbeat policy'')) (classify_entries m now_ms (hm_entries m)))"

section \<open>Health of the kernel\<close>

record self_heartbeat =
  sh_stale_age_s :: int
  sh_event_log :: verdict
  sh_projection :: verdict
  sh_last_refresh_at_ms :: int

definition KernelSelfHeartbeat :: "int \<Rightarrow> self_heartbeat" where
  "KernelSelfHeartbeat stale_age_s =
     \<lparr>sh_stale_age_s = stale_age_s, sh_event_log = (HS_UNHEALTHY, ''not yet checked''),
      sh_projection = (HS_UNHEALTHY, ''not yet checked''), sh_last_refresh_at_ms = 0\<rparr>"

definition PROBE_RUN_ID :: string where
  "PROBE_RUN_ID = ''__kernel_self_probe__''"

definition probe_event_log :: "('w \<Rightarrow> string \<Rightarrow> int \<Rightarrow> 'w \<times> 'e result) \<Rightarrow> ('w, verdict) act" where
  "probe_event_log load =
     catch_act (bind_act (\<lambda>w. load w PROBE_RUN_ID 0) (\<lambda>_. return_act (HS_OK, ''event log read path responsive'')))
       (\<lambda>exc. return_act (HS_UNHEALTHY, ''event log probe failed: '' @ exn_str exc))"

definition probe_projection :: "('w \<Rightarrow> string \<Rightarrow> 'w \<times> 'p result) \<Rightarrow> ('w, verdict) act" where
  "probe_projection get =
     catch_act (bind_act (\<lambda>w. get w PROBE_RUN_ID) (\<lambda>_. return_act (HS_OK, ''projection service responsive'')))
       (\<lambda>exc. return_act (HS_UNHEALTHY, ''projection probe failed: '' @ exn_str exc))"

definition refresh ::
  "('w \<Rightarrow> string \<Rightarrow> int \<Rightarrow> 'w \<times> 'e result) \<Rightarrow> ('w \<Rightarrow> string \<Rightarrow> 'w \<times> 'p result) \<Rightarrow> int
     \<Rightarrow> ('w \<times> self_heartbeat, unit) act" where
  "refresh load get now_ms =
     bind_act (on_fst (probe_event_log load)) (\<lambda>el.
     bind_act (on_fst (probe_projection get)) (\<lambda>pr.
     modify_act (\<lambda>(w, h). (w, h\<lparr>sh_event_log := el, sh_projection := pr, sh_last_refresh_at_ms := now_ms\<rparr>))))"

definition cached_verdict :: "string \<Rightarrow> verdict \<Rightarrow> int \<Rightarrow> self_heartbeat \<Rightarrow> verdict result" where
  "cached_verdict what cached now_ms h =
     (if sh_last_refresh_at_ms h = 0 then Inr (HS_UNHEALTHY, ''kernel self-check has not run yet'')
      else map_sum id (\<lambda>age.
        if age > of_int (sh_stale_age_s h)
        then (HS_DEGRADED, what @ '' check is stale ('' @ format_fixed 0 age @ ''s old); call refresh()'')
        else cached) (age_s now_ms (sh_last_refresh_at_ms h)))"

definition event_log_check :: "int \<Rightarrow> self_heartbeat health_check_fn" where
  "event_log_check now_ms h = (h, cached_verdict ''event log'' (sh_event_log h) now_ms h)"

definition projection_check :: "int \<Rightarrow> self_heartbeat health_check_fn" where
  "projection_check now_ms h = (h, cached_verdict ''projection'' (sh_projection h) now_ms h)"

definition is_stale :: "self_heartbeat \<Rightarrow> int \<Rightarrow> bool result" where
  "is_stale h now_ms =
     (if sh_last_refresh_at_ms h = 0 then Inr True
      else map_sum id (\<lambda>age. age > of_int (sh_stale_age_s h)) (age_s now_ms (sh_last_refresh_at_ms h)))"


section \<open>What a sweep reports\<close>

text \<open>The entries of a monitor are filed under their runs; the readings it keeps are in the range of exact doubles.\<close>

definition monitor_wf :: "heartbeat_monitor \<Rightarrow> bool" where
  "monitor_wf m \<longleftrightarrow> dict_wf (hm_entries m) \<and> (\<forall>r e. dict_get (hm_entries m) r = Some e \<longrightarrow> he_run_id e = r)"

definition in_range :: "int \<Rightarrow> heartbeat_monitor \<Rightarrow> bool" where
  "in_range now_ms m \<longleftrightarrow> (\<forall>(r, e) \<in> set (hm_entries m). \<bar>now_ms - he_last_seen_ms e\<bar> < 2 ^ 53)"

lemma monitor_wf_touch: "monitor_wf m \<Longrightarrow> monitor_wf (touch r s t m)"
  by (auto simp: monitor_wf_def touch_def Let_def split: option.splits)

lemma monitor_wf_clear: "monitor_wf m \<Longrightarrow> monitor_wf (clear r m)"
  by (auto simp: monitor_wf_def clear_def)

text \<open>Silent for at least the timeout of its state, in exact milliseconds.\<close>

definition entry_overdue :: "heartbeat_policy \<Rightarrow> int \<Rightarrow> run_heartbeat_entry \<Rightarrow> bool" where
  "entry_overdue policy now_ms e \<longleftrightarrow>
     (case timeout_for policy (he_lifecycle_state e) of None \<Rightarrow> False | Some t \<Rightarrow> 1000 * t \<le> now_ms - he_last_seen_ms e)"

definition overdue_runs :: "int \<Rightarrow> heartbeat_monitor \<Rightarrow> string list" where
  "overdue_runs now_ms m =
     map fst (filter (\<lambda>(r, e). r \<notin> hm_timed_out m \<and> entry_overdue (hm_policy m) now_ms e) (hm_entries m))"

lemma age_at_least:
  "\<bar>now - then_ms\<bar> < 2 ^ 53 \<Longrightarrow> \<exists>y. age_s now then_ms = Inr y \<and> (\<forall>t. of_int t \<le> y \<longleftrightarrow> 1000 * t \<le> now - then_ms)"
  using age_compare [of now then_ms] by blast

lemma scan_entries_overdue:
  assumes "distinct (map fst es)" "\<forall>(r, e) \<in> set es. \<bar>now_ms - he_last_seen_ms e\<bar> < 2 ^ 53"
  shows "scan_entries policy now_ms es timed_out =
    (timed_out \<union> set (map fst (filter (\<lambda>(r, e). r \<notin> timed_out \<and> entry_overdue policy now_ms e) es)),
     Inr (map fst (filter (\<lambda>(r, e). r \<notin> timed_out \<and> entry_overdue policy now_ms e) es)))"
  using assms
proof (induction es arbitrary: timed_out)
  case (Cons x es)
  obtain r e where x: "x = (r, e)" by fastforce
  obtain y where y: "age_s now_ms (he_last_seen_ms e) = Inr y" "\<And>t. of_int t \<le> y \<longleftrightarrow> 1000 * t \<le> now_ms - he_last_seen_ms e"
    using age_at_least [of now_ms "he_last_seen_ms e"] Cons.prems(2) x by auto
  have fresh: "filter (\<lambda>(r', e). r' \<notin> insert r timed_out \<and> entry_overdue policy now_ms e) es =
      filter (\<lambda>(r', e). r' \<notin> timed_out \<and> entry_overdue policy now_ms e) es"
    using Cons.prems(1) x by (intro filter_cong) (auto simp: rev_image_eqI)
  have IH: "scan_entries policy now_ms es s =
      (s \<union> set (map fst (filter (\<lambda>(r, e). r \<notin> s \<and> entry_overdue policy now_ms e) es)),
       Inr (map fst (filter (\<lambda>(r, e). r \<notin> s \<and> entry_overdue policy now_ms e) es)))" for s
    using Cons.IH [of s] Cons.prems by auto
  show ?case
    using y fresh IH by (auto simp: x entry_overdue_def bind_act_def split: option.splits)
qed simp

lemma get_timed_out_runs_eq:
  assumes "monitor_wf m" "in_range now_ms m"
  shows "get_timed_out_runs now_ms m =
    (m\<lparr>hm_timed_out := hm_timed_out m \<union> set (overdue_runs now_ms m)\<rparr>, Inr (overdue_runs now_ms m))"
  using scan_entries_overdue [of "hm_entries m" now_ms "hm_policy m" "hm_timed_out m"] assms
  by (simp add: get_timed_out_runs_def overdue_runs_def monitor_wf_def in_range_def dict_wf_def)

text \<open>What a sweep asks of the gateway: one signal per overdue run, in the order in which the runs are tracked.\<close>

fun deliveries ::
  "(string \<Rightarrow> signal_run_request \<Rightarrow> ('g, unit) act) \<Rightarrow> (string \<Rightarrow> rat) \<Rightarrow> string list \<Rightarrow> 'g \<Rightarrow> 'g \<times> string set" where
  "deliveries send age [] g = (g, {})"
| "deliveries send age (r # rs) g =
     (case send r (timeout_signal r (age r)) g of
        (g', res) \<Rightarrow> (case deliveries send age rs g' of (g'', failed) \<Rightarrow> (g'', if is_ok res then failed else insert r failed)))"

definition silent_age :: "heartbeat_monitor \<Rightarrow> (string \<Rightarrow> int) \<Rightarrow> string \<Rightarrow> rat" where
  "silent_age m later_ms r = (case last_seen_age_s m (later_ms r) r of Inr (Some a) \<Rightarrow> a | _ \<Rightarrow> 0)"

lemma deliveries_failed: "deliveries send age rs g = (g', failed) \<Longrightarrow> failed \<subseteq> set rs"
  by (induction rs arbitrary: g g' failed) (fastforce split: prod.splits if_splits)+

lemma signal_timed_out_eq:
  assumes "\<And>r. is_ok (last_seen_age_s m (later_ms r) r)"
  shows "signal_timed_out (\<lambda>r q. on_fst (send r q)) later_ms rs (g, m\<lparr>hm_timed_out := s\<rparr>) =
    (case deliveries send (silent_age m later_ms) rs g of
       (g', failed) \<Rightarrow> ((g', m\<lparr>hm_timed_out := s - failed\<rparr>), Inr ()))"
proof (induction rs arbitrary: g s)
  case (Cons r rs)
  obtain age where age: "last_seen_age_s m (later_ms r) r = Inr age"
    using assms [of r] by (cases "last_seen_age_s m (later_ms r) r") auto
  then have same: "last_seen_age_s (m\<lparr>hm_timed_out := t\<rparr>) (later_ms r) r = Inr age" for t
    by (simp add: last_seen_age_s_def)
  obtain g1 res where send: "send r (timeout_signal r (case age of None \<Rightarrow> 0 | Some a \<Rightarrow> a)) g = (g1, res)" by fastforce
  have silent: "silent_age m later_ms r = (case age of None \<Rightarrow> 0 | Some a \<Rightarrow> a)"
    by (simp add: silent_age_def age split: option.split)
  have minus: "s - {r} - f = s - insert r f" for f by auto
  show ?case
    using Cons.IH [of g1 "if is_ok res then s else s - {r}"] send
    by (cases res) (simp_all add: bind_act_def catch_act_def on_fst_def same silent discard_timed_out_def minus split: prod.splits)
qed simp

lemma heartbeat_sweep_eq:
  assumes "monitor_wf m" "in_range now_ms m" "\<And>r. in_range (later_ms r) m"
  shows "heartbeat_sweep (\<lambda>r q. on_fst (send r q)) now_ms later_ms (g, m) =
    (case deliveries send (silent_age m later_ms) (overdue_runs now_ms m) g of
       (g', failed) \<Rightarrow>
         ((g', m\<lparr>hm_timed_out := hm_timed_out m \<union> (set (overdue_runs now_ms m) - failed)\<rparr>), Inr ()))"
proof -
  have ages: "is_ok (last_seen_age_s m (later_ms r) r)" for r
  proof (cases "dict_get (hm_entries m) r")
    case (Some e)
    then have "\<bar>later_ms r - he_last_seen_ms e\<bar> < 2 ^ 53"
      using assms(1) assms(3) [of r] dict_in_set [of "hm_entries m" r e] by (auto simp: in_range_def monitor_wf_def)
    then show ?thesis using Some age_at_least by (fastforce simp: last_seen_age_s_def)
  qed (simp add: last_seen_age_s_def)
  obtain g' failed where d: "deliveries send (silent_age m later_ms) (overdue_runs now_ms m) g = (g', failed)" by fastforce
  have "set (overdue_runs now_ms m) \<inter> hm_timed_out m = {}" by (auto simp: overdue_runs_def)
  then have "hm_timed_out m \<union> set (overdue_runs now_ms m) - failed = hm_timed_out m \<union> (set (overdue_runs now_ms m) - failed)"
    using deliveries_failed [OF d] by auto
  then show ?thesis
    using d by (simp add: heartbeat_sweep_def bind_act_def get_timed_out_runs_eq [OF assms(1,2)] signal_timed_out_eq [OF ages])
qed

text \<open>
  A sweep of the watchdog.  Whatever the gateway does, the sweep returns, it sends one
  signal to each run that is in a monitored state, has been silent for at least the timeout of that
  state and was not signalled since its last activity, in the order in which the runs are tracked,
  and to no other run; afterwards it counts as signalled exactly the runs it counted before and those
  whose signal was delivered.  The comparison is exact to the millisecond although the code computes
  it in doubles, for readings less than \<open>2 ^ 53\<close> milliseconds apart.
\<close>

theorem heartbeat_sweep_signals_overdue:
  assumes "monitor_wf m" "in_range now_ms m" "\<And>r. in_range (later_ms r) m"
  shows "heartbeat_sweep (\<lambda>r q. on_fst (send r q)) now_ms later_ms (g, m) =
    (case deliveries send (silent_age m later_ms) (overdue_runs now_ms m) g of
       (g', failed) \<Rightarrow>
         ((g', m\<lparr>hm_timed_out := hm_timed_out m \<union> (set (overdue_runs now_ms m) - failed)\<rparr>), Inr ()))"
  using assms by (rule heartbeat_sweep_eq)

definition sample_monitor :: heartbeat_monitor where
  "sample_monitor = on_run_lifecycle_transition ''r2'' ''ready'' 1000 (on_run_lifecycle_transition ''r1'' ''dispatching'' 1000 (RunHeartbeatMonitor None))"

lemma sample_monitor_entries:
  "hm_entries sample_monitor =
     [(''r1'', \<lparr>he_run_id = ''r1'', he_last_seen_ms = 1000, he_lifecycle_state = ''dispatching'', he_heartbeat_count = 1\<rparr>),
      (''r2'', \<lparr>he_run_id = ''r2'', he_last_seen_ms = 1000, he_lifecycle_state = ''ready'', he_heartbeat_count = 1\<rparr>)]"
  "hm_timed_out sample_monitor = {}" "hm_policy sample_monitor = HeartbeatPolicy"
  by (simp_all add: sample_monitor_def on_run_lifecycle_transition_def touch_def RunHeartbeatMonitor_def dict_get_def dict_set_def Let_def truthy_def)

lemma sample_monitor_ok: "monitor_wf sample_monitor" "\<bar>now - 1000\<bar> < 2 ^ 53 \<Longrightarrow> in_range now sample_monitor"
  by (auto simp: monitor_wf_def in_range_def sample_monitor_entries dict_wf_def dict_get_def split: if_splits)

lemma sample_overdue: "overdue_runs 301000 sample_monitor = [''r1'']"
  by (simp add: overdue_runs_def sample_monitor_entries entry_overdue_def timeout_for_def HeartbeatPolicy_def MONITORED_STATES_def
      DEFAULT_STATE_TIMEOUTS_def dict_get_or_def dict_get_def)

text \<open>A gateway that records the runs it is asked to signal.\<close>

theorem heartbeat_sweep_signals_overdue_witness:
  "overdue_runs 301000 sample_monitor = [''r1''] \<and>
   heartbeat_sweep (\<lambda>r q. on_fst (\<lambda>sent. (sent @ [r], Inr ()))) 301000 (\<lambda>_. 301000) ([], sample_monitor) =
     (([''r1''], sample_monitor\<lparr>hm_timed_out := {''r1''}\<rparr>), Inr ())"
  using heartbeat_sweep_signals_overdue [of sample_monitor 301000 "\<lambda>_. 301000" "\<lambda>r q sent. (sent @ [r], Inr ())" "[]"]
  by (simp add: sample_monitor_ok sample_overdue sample_monitor_entries)

section \<open>No storm of signals\<close>

text \<open>
  The calls on a monitor in any order, as several tasks may make them, with a record of what happened
  to each run: it was reported by a scan, it was active (or dropped from the monitor), or its signal
  could not be delivered.
\<close>

datatype monitor_event = Reported string | Active string | Undelivered string

inductive monitor_step :: "heartbeat_monitor \<times> monitor_event list \<Rightarrow> heartbeat_monitor \<times> monitor_event list \<Rightarrow> bool" where
  turn_transition: "monitor_step (m, tr) (on_turn_state_transition r t m, tr @ [Active r])"
| lifecycle_transition: "monitor_step (m, tr) (on_run_lifecycle_transition r s t m, tr @ [Active r])"
| llm_call: "monitor_step (m, tr) (on_llm_call r t m, tr @ [Active r])"
| action_dispatch: "monitor_step (m, tr) (on_action_dispatch r t m, tr @ [Active r])"
| heartbeat: "monitor_step (m, tr) (record_heartbeat r t m, tr @ [Active r])"
| recovery: "monitor_step (m, tr) (on_recovery_triggered r m, tr)"
| cleared: "monitor_step (m, tr) (clear r m, tr @ [Active r])"
| scan: "get_timed_out_runs now_ms m = (m', res) \<Longrightarrow>
    monitor_step (m, tr) (m', tr @ (case res of Inl _ \<Rightarrow> [] | Inr rs \<Rightarrow> map Reported rs))"
| delivery_failed: "monitor_step (m, tr) (discard_timed_out r m, tr @ [Undelivered r])"

fun pending_after :: "string set \<Rightarrow> monitor_event list \<Rightarrow> string set" where
  "pending_after s [] = s"
| "pending_after s (Reported r # es) = pending_after (insert r s) es"
| "pending_after s (Active r # es) = pending_after (s - {r}) es"
| "pending_after s (Undelivered r # es) = pending_after (s - {r}) es"

fun reports_ok :: "string set \<Rightarrow> monitor_event list \<Rightarrow> bool" where
  "reports_ok s [] = True"
| "reports_ok s (Reported r # es) = (r \<notin> s \<and> reports_ok (insert r s) es)"
| "reports_ok s (Active r # es) = reports_ok (s - {r}) es"
| "reports_ok s (Undelivered r # es) = reports_ok (s - {r}) es"

lemma pending_append: "pending_after s (xs @ ys) = pending_after (pending_after s xs) ys"
  by (induction s xs rule: pending_after.induct) simp_all

lemma reports_append: "reports_ok s (xs @ ys) \<longleftrightarrow> reports_ok s xs \<and> reports_ok (pending_after s xs) ys"
  by (induction s xs rule: pending_after.induct) auto

lemma pending_stays: "r \<in> s \<Longrightarrow> Active r \<notin> set ys \<Longrightarrow> Undelivered r \<notin> set ys \<Longrightarrow> r \<in> pending_after s ys"
  by (induction s ys rule: pending_after.induct) auto

lemma reported_fresh:
  "reports_ok s (map Reported rs) \<longleftrightarrow> distinct rs \<and> set rs \<inter> s = {}" "pending_after s (map Reported rs) = s \<union> set rs"
  by (induction rs arbitrary: s) auto

lemma scan_marks:
  "scan_entries policy now_ms es s = (s', res) \<Longrightarrow> s \<subseteq> s' \<and> (\<forall>rs. res = Inr rs \<longrightarrow> distinct rs \<and> set rs \<subseteq> s' - s)"
proof (induction es arbitrary: s s' res)
  case (Cons x es)
  obtain r e where x: "x = (r, e)" by fastforce
  show ?case
  proof (cases "r \<in> s \<or> timeout_for policy (he_lifecycle_state e) = None")
    case True
    then have "scan_entries policy now_ms es s = (s', res)" using Cons.prems x by (auto simp: bind_act_def split: if_splits)
    then show ?thesis by (rule Cons.IH)
  next
    case False
    then obtain t where t: "timeout_for policy (he_lifecycle_state e) = Some t" "r \<notin> s" by auto
    show ?thesis
    proof (cases "age_s now_ms (he_last_seen_ms e)")
      case (Inl err)
      then show ?thesis using Cons.prems x t by (auto simp: bind_act_def)
    next
      case (Inr y)
      obtain s1 r1 where i: "scan_entries policy now_ms es (insert r s) = (s1, r1)" by fastforce
      show ?thesis
        using Cons.prems x t Inr i Cons.IH [OF i] Cons.IH [of s s' res]
        by (cases r1) (auto simp: bind_act_def split: if_splits)
    qed
  qed
qed simp

lemma monitor_step_ok:
  assumes "monitor_step (m, tr) (m', tr')" "reports_ok {} tr" "pending_after {} tr \<subseteq> hm_timed_out m"
  shows "reports_ok {} tr' \<and> pending_after {} tr' \<subseteq> hm_timed_out m'"
  using assms
proof (cases rule: monitor_step.cases)
  case (scan now_ms res)
  obtain s' where s': "scan_entries (hm_policy m) now_ms (hm_entries m) (hm_timed_out m) = (s', res)" "m' = m\<lparr>hm_timed_out := s'\<rparr>"
    using scan(2) by (auto simp: get_timed_out_runs_def split: prod.splits)
  show ?thesis
    using scan(1) scan_marks [OF s'(1)] s'(2) assms(2,3)
    by (cases res) (auto simp: reports_append pending_append reported_fresh)
qed (auto simp: reports_append pending_append on_turn_state_transition_def on_run_lifecycle_transition_def on_llm_call_def
    on_action_dispatch_def record_heartbeat_def on_recovery_triggered_def touch_def clear_def discard_timed_out_def Let_def)

lemma monitor_reachable_ok:
  assumes "monitor_step\<^sup>*\<^sup>* (RunHeartbeatMonitor p, []) (m, tr)"
  shows "reports_ok {} tr \<and> pending_after {} tr \<subseteq> hm_timed_out m"
  using assms
proof (induction rule: rtranclp_induct2)
  case (step m tr m' tr')
  then show ?case using monitor_step_ok by blast
qed simp

text \<open>
  No storm of signals.  However the calls on a monitor interleave, also with scans that
  raise, between two reports of a run lies an activity of that run or a failed delivery of its signal.
\<close>

theorem reports_separated:
  assumes "monitor_step\<^sup>*\<^sup>* (RunHeartbeatMonitor p, []) (m, xs @ Reported r # ys @ Reported r # zs)"
  shows "Active r \<in> set ys \<or> Undelivered r \<in> set ys"
  using monitor_reachable_ok [OF assms] pending_stays [of r "insert r (pending_after {} xs)" ys]
  by (auto simp: reports_append pending_append)

definition sample_entry :: "int \<Rightarrow> int \<Rightarrow> string \<times> run_heartbeat_entry" where
  "sample_entry t n = (''r1'', \<lparr>he_run_id = ''r1'', he_last_seen_ms = t, he_lifecycle_state = ''dispatching'', he_heartbeat_count = n\<rparr>)"

definition sample_watched :: "int \<Rightarrow> int \<Rightarrow> string set \<Rightarrow> heartbeat_monitor" where
  "sample_watched t n s = \<lparr>hm_policy = HeartbeatPolicy, hm_entries = [sample_entry t n], hm_timed_out = s\<rparr>"

lemma sample_scan:
  assumes "300000 \<le> now - t" "now - t < 2 ^ 53"
  shows "get_timed_out_runs now (sample_watched t n {}) = (sample_watched t n {''r1''}, Inr [''r1''])"
proof -
  have "monitor_wf (sample_watched t n {})" "in_range now (sample_watched t n {})"
    using assms by (auto simp: monitor_wf_def in_range_def sample_watched_def sample_entry_def dict_wf_def dict_get_def split: if_splits)
  moreover have "overdue_runs now (sample_watched t n {}) = [''r1'']"
    using assms by (simp add: overdue_runs_def sample_watched_def sample_entry_def entry_overdue_def timeout_for_def HeartbeatPolicy_def
        MONITORED_STATES_def DEFAULT_STATE_TIMEOUTS_def dict_get_or_def dict_get_def)
  ultimately show ?thesis by (simp add: get_timed_out_runs_eq) (simp add: sample_watched_def)
qed

theorem reports_separated_witness:
  "\<exists>m. monitor_step\<^sup>*\<^sup>* (RunHeartbeatMonitor None, []) (m, [Active ''r1''] @ Reported ''r1'' # [Active ''r1''] @ Reported ''r1'' # [])
    \<and> (Active ''r1'' \<in> set [Active ''r1''] \<or> Undelivered ''r1'' \<in> set [Active ''r1''])"
proof -
  have s1: "monitor_step (RunHeartbeatMonitor None, []) (sample_watched 0 1 {}, [Active ''r1''])"
    using lifecycle_transition [of "RunHeartbeatMonitor None" "[]" "''r1''" "''dispatching''" 0]
    by (simp add: on_run_lifecycle_transition_def touch_def RunHeartbeatMonitor_def sample_watched_def sample_entry_def dict_get_def
        dict_set_def Let_def truthy_def)
  have s2: "monitor_step (sample_watched 0 1 {}, [Active ''r1'']) (sample_watched 0 1 {''r1''}, [Active ''r1'', Reported ''r1''])"
    using scan [OF sample_scan [of 300000 0 1], of "[Active ''r1'']"] by simp
  have s3: "monitor_step (sample_watched 0 1 {''r1''}, [Active ''r1'', Reported ''r1''])
      (sample_watched 400000 2 {}, [Active ''r1'', Reported ''r1'', Active ''r1''])"
    using heartbeat [of "sample_watched 0 1 {''r1''}" "[Active ''r1'', Reported ''r1'']" "''r1''" 400000]
    by (simp add: record_heartbeat_def touch_def sample_watched_def sample_entry_def dict_get_def dict_set_def Let_def)
  have s4: "monitor_step (sample_watched 400000 2 {}, [Active ''r1'', Reported ''r1'', Active ''r1''])
      (sample_watched 400000 2 {''r1''}, [Active ''r1'', Reported ''r1'', Active ''r1'', Reported ''r1''])"
    using scan [OF sample_scan [of 700000 400000 2], of "[Active ''r1'', Reported ''r1'', Active ''r1'']"] by simp
  have "monitor_step\<^sup>*\<^sup>* (RunHeartbeatMonitor None, [])
      (sample_watched 400000 2 {''r1''}, [Active ''r1''] @ Reported ''r1'' # [Active ''r1''] @ Reported ''r1'' # [])"
    using s1 s2 s3 s4 by (auto intro: converse_rtranclp_into_rtranclp)
  then show ?thesis using reports_separated by blast
qed

section \<open>Findings\<close>

text \<open>
  The kernel calls the hooks for model calls, dispatches and recoveries, never the two for state
  transitions.  A monitor that hears only of those keeps every run in the state \<^verbatim>\<open>ready\<close>, which is not
  monitored, and reports nothing however long a run is silent.
\<close>

inductive wired_step :: "heartbeat_monitor \<Rightarrow> heartbeat_monitor \<Rightarrow> bool" where
  "wired_step m (on_llm_call r t m)"
| "wired_step m (on_action_dispatch r t m)"
| "wired_step m (on_recovery_triggered r m)"
| "wired_step m (record_heartbeat r t m)"
| "get_timed_out_runs now_ms m = (m', res) \<Longrightarrow> wired_step m m'"

lemma scan_unmonitored:
  "\<forall>(r, e) \<in> set es. he_lifecycle_state e = ''ready'' \<Longrightarrow> scan_entries policy now_ms es s = (s, Inr [])"
  by (induction es arbitrary: s) (auto simp: timeout_for_def MONITORED_STATES_def)

lemma wired_monitor_never_reports:
  assumes "wired_step\<^sup>*\<^sup>* (RunHeartbeatMonitor p) m"
  shows "get_timed_out_runs now_ms m = (m, Inr [])"
proof -
  have "dict_wf (hm_entries m) \<and> (\<forall>r e. dict_get (hm_entries m) r = Some e \<longrightarrow> he_lifecycle_state e = ''ready'')"
    using assms
  proof (induction rule: rtranclp_induct)
    case base
    then show ?case by (simp add: RunHeartbeatMonitor_def)
  next
    case (step m m')
    have "get_timed_out_runs now m = (m1, res) \<Longrightarrow> hm_entries m1 = hm_entries m" for now m1 res
      by (auto simp: get_timed_out_runs_def split: prod.splits)
    with step(2,3) show ?case
      by (cases rule: wired_step.cases)
        (auto simp: on_llm_call_def on_action_dispatch_def on_recovery_triggered_def record_heartbeat_def touch_def Let_def truthy_def
          split: option.splits if_splits)
  qed
  then have "scan_entries (hm_policy m) now_ms (hm_entries m) (hm_timed_out m) = (hm_timed_out m, Inr [])"
    by (intro scan_unmonitored) (auto simp: dict_in_set)
  then show ?thesis by (simp add: get_timed_out_runs_def)
qed

text \<open>
  The documented meaning of the health check is the reverse of what it reports: it is unhealthy for a
  run whose signal was delivered, and only degraded for one whose signal could not be delivered.
\<close>

lemma near_limit_below:
  assumes "0 < t" "t < 2 ^ 53"
  shows "\<exists>l. near_limit t = Inr (PFin l) \<and> l \<le> of_int t"
proof -
  obtain c where c: "to_double (4 / 5) = PFin c" "c \<le> 1" "\<bar>c - 4 / 5\<bar> \<le> 4 / 5 / 2 ^ 53"
    using to_double_normal [of "4 / 5"] by (auto dest: spec [of _ 1])
  have t: "(1 :: rat) \<le> of_int t" "(of_int t :: rat) < 2 ^ 53"
    using assms by (simp, metis of_int_less_iff of_int_numeral of_int_power)
  have "1 / 2 \<le> c" using c(3) abs_ge_minus_self [of "c - 4 / 5"] by simp
  then have "1 / 1000 \<le> of_int t * c" using mult_mono [of 1 "of_int t :: rat" "1 / 2" c] t(1) by simp
  moreover have le: "of_int t * c \<le> of_int t" using c(2) t(1) by (simp add: mult_left_le)
  ultimately obtain l where "to_double (of_int t * c) = PFin l" "l \<le> of_int t"
    using to_double_normal [of "of_int t * c"] t(2) by fastforce
  moreover have "to_double (of_int t) = PFin (of_int t)" using to_double_int [of t] assms by simp
  ultimately show ?thesis using c(1) by (simp add: near_limit_def float_of_int_def)
qed

lemma delivered_unhealthy_undelivered_degraded:
  assumes "hm_entries m = [(r, e)]" "timeout_for (hm_policy m) (he_lifecycle_state e) = Some t" "0 < t" "t < 2 ^ 53"
    "1000 * t \<le> now_ms - he_last_seen_ms e" "now_ms - he_last_seen_ms e < 2 ^ 53"
  shows "\<exists>msg. runs_health_check now_ms m = (m, Inr (if r \<in> hm_timed_out m then HS_UNHEALTHY else HS_DEGRADED, msg))"
proof -
  obtain y where y: "age_s now_ms (he_last_seen_ms e) = Inr y" "of_int t \<le> y"
    using age_at_least [of now_ms "he_last_seen_ms e"] assms(3,5,6) by auto
  obtain l where "near_limit t = Inr (PFin l)" "l \<le> of_int t" using near_limit_below [OF assms(3,4)] by blast
  then show ?thesis using y assms(1,2) by (simp add: runs_health_check_def reaches_def)
qed

section \<open>Over the local gateway\<close>

text \<open>
  What a signal to one run leaves alone: the logs and the actors of the other runs, always; and
  everything when the run is not registered or its actor drops the signal.
\<close>

definition signal_unseen :: "string \<Rightarrow> run_actor \<Rightarrow> bool" where
  "signal_unseen r a \<longleftrightarrow> (''heartbeat_timeout:heartbeat_monitor:'' @ r) \<notin> set (ra_seen_signal_tokens a)"

context shared_log
begin

lemma signal_workflow_other:
  assumes g: "gateway_ok g" and run: "signal_workflow sv run request g = (g', res)" and r: "r \<noteq> run"
  shows "stream_events sv r g' = stream_events sv r g \<and> dict_get (gw_workflows g') r = dict_get (gw_workflows g) r"
proof (cases "dict_get (gw_workflows g) run")
  case None
  then show ?thesis using run by (simp add: signal_workflow_def)
next
  case (Some a)
  let ?sg = "\<lparr>sig_signal_type = gq_signal_type request, sig_signal_payload = gq_signal_payload request,
      sig_caused_by = gq_caused_by request, sig_signal_token = None, sig_from_peer_run_id = None\<rparr>"
  have id: "ra_run_id a = Some run" and inv: "invar (kn_log (gw_kernel g))" using g Some by (auto simp: gateway_ok_def synced_def)
  obtain k' a' where w: "signal_actor False sv ?sg (gw_kernel g, a) = ((k', a'), res)"
    and g': "g' = g\<lparr>gw_kernel := k', gw_workflows := dict_set run a' (gw_workflows g)\<rparr>"
    using run Some by (auto simp: signal_workflow_def on_workflow_def split: prod.splits)
  have "load (kn_log k') r 0 = load (kn_log (gw_kernel g)) r 0"
  proof (cases "run = [] \<or> signal_dropped a ?sg")
    case True
    then show ?thesis using w id by (auto simp: signal_actor_def handle_signal_def split: if_splits)
  next
    case False
    then have "deliver_signal False sv run ?sg (gw_kernel g, a) = ((k', a'), res)"
      using w id by (simp add: signal_actor_def handle_signal_def)
    from preservesD [OF deliver_signal_other [OF r [symmetric], of "load (kn_log (gw_kernel g)) r 0"] _ this] inv
    show ?thesis by (simp add: other_log_def)
  qed
  then show ?thesis using g' r by (simp add: stream_events_def sv_load dict_get_set)
qed

lemma timeout_not_dropped:
  "signal_unseen r a \<Longrightarrow> \<not> signal_dropped a \<lparr>sig_signal_type = gq_signal_type (timeout_signal r age),
     sig_signal_payload = gq_signal_payload (timeout_signal r age), sig_caused_by = gq_caused_by (timeout_signal r age),
     sig_signal_token = None, sig_from_peer_run_id = None\<rparr>"
  by (simp add: signal_unseen_def signal_dropped_def signal_token_def timeout_signal_def)

lemma deliveries_durable:
  assumes "gateway_ok g" "distinct rs" "deliveries (signal_workflow sv) age rs g = (g', failed)"
  shows "(\<forall>r. r \<notin> set rs \<longrightarrow> stream_events sv r g' = stream_events sv r g) \<and>
    (\<forall>r \<in> set rs. \<forall>a. dict_get (gw_workflows g) r = Some a \<longrightarrow> r \<noteq> [] \<longrightarrow> signal_unseen r a \<longrightarrow>
       (if r \<in> failed then stream_events sv r g' = stream_events sv r g
        else \<exists>e. stream_events sv r g' = stream_events sv r g @ [e] \<and> ev_event_type e = signal_event_type ''heartbeat_timeout''))"
  using assms
proof (induction rs arbitrary: g g' failed)
  case (Cons x rs)
  obtain g1 res where send: "signal_workflow sv x (timeout_signal x (age x)) g = (g1, res)" by fastforce
  obtain failed1 where rest: "deliveries (signal_workflow sv) age rs g1 = (g', failed1)"
    and failed: "failed = (if is_ok res then failed1 else insert x failed1)"
    using Cons.prems(3) send by (auto split: prod.splits)
  have ok1: "gateway_ok g1" using preservesD [OF signal_workflow_ok Cons.prems(1) send] .
  note other = signal_workflow_other [OF Cons.prems(1) send]
  note IH = Cons.IH [OF ok1 _ rest]
  have x: "x \<notin> set rs" "distinct rs" using Cons.prems(2) by simp_all
  have "x \<notin> failed1" using deliveries_failed [OF rest] x by auto
  have head: "if x \<in> failed then stream_events sv x g' = stream_events sv x g
      else \<exists>e. stream_events sv x g' = stream_events sv x g @ [e] \<and> ev_event_type e = signal_event_type ''heartbeat_timeout''"
    if "dict_get (gw_workflows g) x = Some a" "x \<noteq> []" "signal_unseen x a" for a
  proof -
    have "case res of Inl e \<Rightarrow> stream_events sv x g1 = stream_events sv x g
      | Inr _ \<Rightarrow> \<exists>e. stream_events sv x g1 = stream_events sv x g @ [e] \<and> ev_event_type e = signal_event_type ''heartbeat_timeout''"
      using signal_workflow_effect [OF Cons.prems(1) that(1,2) refl timeout_not_dropped [OF that(3)] send]
      by (auto simp: timeout_signal_def split: sum.splits)
    then show ?thesis using IH x \<open>x \<notin> failed1\<close> failed by (cases res) auto
  qed
  show ?case
  proof (intro conjI allI ballI impI)
    fix r
    assume "r \<notin> set (x # rs)"
    then show "stream_events sv r g' = stream_events sv r g" using IH x(2) other [of r] by simp
  next
    fix r a
    assume r: "r \<in> set (x # rs)" "dict_get (gw_workflows g) r = Some a" "r \<noteq> []" "signal_unseen r a"
    show "if r \<in> failed then stream_events sv r g' = stream_events sv r g
        else \<exists>e. stream_events sv r g' = stream_events sv r g @ [e] \<and> ev_event_type e = signal_event_type ''heartbeat_timeout''"
    proof (cases "r = x")
      case True
      then show ?thesis using head [of a] r by simp
    next
      case False
      then have "dict_get (gw_workflows g1) r = Some a" "stream_events sv r g1 = stream_events sv r g" "r \<in> failed \<longleftrightarrow> r \<in> failed1"
        using other [of r] r(2) failed by auto
      then show ?thesis using IH x(2) r False by auto
    qed
  qed
qed simp

end


text \<open>
  An actor that has handled one signal of the watchdog drops all later ones: the cause is the same for
  every timeout of a run.  The call returns, so the monitor counts the run as signalled.
\<close>

lemma later_timeouts_dropped:
  assumes "dict_get (gw_workflows g) r = Some a" "ra_run_id a = Some r" "r \<noteq> []"
    "(''heartbeat_timeout:heartbeat_monitor:'' @ r) \<in> set (ra_seen_signal_tokens a)"
  shows "signal_workflow sv r (timeout_signal r age) g = (g, Inr ())"
  using assms
  by (simp add: signal_workflow_def on_workflow_def signal_actor_def handle_signal_def signal_dropped_def signal_token_def
      timeout_signal_def dict_set_same)

text \<open>The event of a timeout makes an active run ready for the next dispatch; it does not start a recovery.\<close>

lemma timeout_makes_ready:
  assumes "pr_lifecycle_state p \<in> {Dispatching, Waiting_result}" "\<not> is_lower_priority_operational_conflict p e"
    "ev_event_type e = ''signal.heartbeat_timeout''"
  shows "pr_lifecycle_state (apply_projection_event p e) = Ready \<and> pr_ready_for_dispatch (apply_projection_event p e)"
  using assms
  by (elim insertE) (simp_all add: apply_projection_event_def resolve_projection_transition_def resolve_dynamic_transition_def startswith_def
      STATIC_EVENT_TRANSITIONS_def dict_get_def Let_def)


end
