(* ===== verification/Script_Runtime.thy ===== *)
theory Script_Runtime
  imports Kernel_Effects SQLite_Dedupe Recovery_Gate
begin

text \<open>
  Script execution: the runtimes of \<^verbatim>\<open>kernel/cognitive/script_runtime.py\<close> and
  \<^verbatim>\<open>script_runtime_subprocess.py\<close>, the registry that routes a script to a runtime
  (\<^verbatim>\<open>script_runtime_registry.py\<close>), and the branch monitor of \<^verbatim>\<open>kernel/branch_monitor.py\<close>.  Running a script
  (\<^verbatim>\<open>exec\<close>, a subprocess), decoding its output, the clock and the JSON codec are arguments; a runtime is a
  call on a world of any type.
\<close>

section \<open>Scripts and their results\<close>

record script_activity_input =
  sa_run_id :: string
  sa_action_id :: string
  sa_script_id :: string
  sa_script_content :: string
  sa_host_kind :: string
  sa_parameters :: jdict
  sa_timeout_ms :: int
  sa_heartbeat_interval_ms :: int

record script_result =
  sr_script_id :: string
  sr_exit_code :: int
  sr_stdout :: string
  sr_stderr :: string
  sr_output_json :: "jdict option"
  sr_execution_ms :: int

definition ScriptResult :: "string \<Rightarrow> int \<Rightarrow> string \<Rightarrow> string \<Rightarrow> jdict option \<Rightarrow> int \<Rightarrow> script_result" where
  "ScriptResult script_id exit_code stdout stderr output_json execution_ms =
     \<lparr>sr_script_id = script_id, sr_exit_code = exit_code, sr_stdout = stdout, sr_stderr = stderr,
      sr_output_json = output_json, sr_execution_ms = execution_ms\<rparr>"

type_synonym 'w script_runtime = "script_activity_input \<Rightarrow> ('w, script_result) act"

definition echo_execute_script :: "(jdict \<Rightarrow> string) \<Rightarrow> int \<Rightarrow> 'w script_runtime" where
  "echo_execute_script dumps elapsed i =
     return_act (ScriptResult (sa_script_id i) 0 (dumps (sa_parameters i)) '''' (Some (sa_parameters i)) elapsed)"

text \<open>How waiting for a script ends: it finished in time, or the timeout was reached (or the wait cancelled).\<close>

datatype 'a waited = InTime 'a | TimedOut

definition script_timeout :: "script_activity_input \<Rightarrow> int \<Rightarrow> int" where
  "script_timeout i default_timeout_ms = (if sa_timeout_ms i \<noteq> 0 then sa_timeout_ms i else default_timeout_ms)"

definition timeout_result :: "script_activity_input \<Rightarrow> string \<Rightarrow> int \<Rightarrow> script_result" where
  "timeout_result i budget elapsed =
     ScriptResult (sa_script_id i) (- 1) '''' (''TimeoutError: script exceeded '' @ budget @ '' budget'') None elapsed"

subsection \<open>In the process\<close>

text \<open>The end of \<^verbatim>\<open>exec\<close>: normal, \<^verbatim>\<open>SystemExit\<close> with an integer or another code, or any other exception.\<close>

datatype exec_end = ExecDone | ExecExit "int option" | ExecRaised string string

definition run_sync :: "script_activity_input \<Rightarrow> exec_end \<Rightarrow> string \<Rightarrow> string \<Rightarrow> int \<Rightarrow> script_result" where
  "run_sync i e out err elapsed =
     (let exit_code = (case e of ExecDone \<Rightarrow> 0 | ExecExit (Some c) \<Rightarrow> c | ExecExit None \<Rightarrow> 1 | ExecRaised _ _ \<Rightarrow> 1);
          stderr = err @ (case e of ExecRaised name msg \<Rightarrow> name @ '': '' @ msg @ [CHR 0x0A] | _ \<Rightarrow> '''')
      in ScriptResult (sa_script_id i) exit_code out stderr None elapsed)"

definition in_process_execute_script ::
  "int \<Rightarrow> (string \<Rightarrow> jdict \<Rightarrow> int \<Rightarrow> 'w \<Rightarrow> 'w \<times> (exec_end \<times> string \<times> string) waited \<times> int) \<Rightarrow> 'w script_runtime" where
  "in_process_execute_script default_timeout_ms exec i w =
     (let timeout_ms = script_timeout i default_timeout_ms
      in case exec (sa_script_content i) (sa_parameters i) timeout_ms w of
           (w', TimedOut, elapsed) \<Rightarrow> (w', Inr (timeout_result i (show_int timeout_ms @ ''ms'') elapsed))
         | (w', InTime (e, out, err), elapsed) \<Rightarrow> (w', Inr (run_sync i e out err elapsed)))"

definition in_process_validate_script :: "(string \<Rightarrow> bool) \<Rightarrow> string \<Rightarrow> string \<Rightarrow> bool" where
  "in_process_validate_script compiles script_content host_kind \<longleftrightarrow> host_kind = ''in_process_python'' \<and> compiles script_content"

subsection \<open>In a subprocess\<close>

definition upper :: "string \<Rightarrow> string" where
  "upper s = map (\<lambda>c. let n = of_char c :: nat in if 97 \<le> n \<and> n \<le> 122 then char_of (n - 32) else c) s"

definition env_params :: "(json \<Rightarrow> string) \<Rightarrow> jdict \<Rightarrow> (string, string) dict" where
  "env_params str params = fold (\<lambda>(k, v) d. dict_set (''PARAM_'' @ upper k) (str v) d) params []"

text \<open>A shell process: the exit code, if known, and the decoded output streams.\<close>

type_synonym process_end = "int option \<times> string \<times> string"

definition local_process_execute_script ::
  "int \<Rightarrow> (json \<Rightarrow> string) \<Rightarrow> (string \<Rightarrow> json option) \<Rightarrow>
     (string \<Rightarrow> (string, string) dict \<Rightarrow> int \<Rightarrow> ('w, process_end waited \<times> int) act) \<Rightarrow> 'w script_runtime" where
  "local_process_execute_script default_timeout_ms str loads spawn i =
     (let timeout_ms = script_timeout i default_timeout_ms
      in bind_act (spawn (sa_script_content i) (env_params str (sa_parameters i)) timeout_ms) (\<lambda>(e, elapsed).
         case e of
           TimedOut \<Rightarrow> return_act (timeout_result i (show_int timeout_ms @ ''ms'') elapsed)
         | InTime (returncode, out, err) \<Rightarrow>
             (let output_json = (if strip out = [] then None
                  else case loads (strip out) of Some (JDict d) \<Rightarrow> Some d | _ \<Rightarrow> None)
              in return_act (ScriptResult (sa_script_id i) (case returncode of None \<Rightarrow> 1 | Some c \<Rightarrow> c) out err output_json elapsed))))"

definition local_process_validate_script :: "string \<Rightarrow> string \<Rightarrow> bool" where
  "local_process_validate_script script_content host_kind \<longleftrightarrow> strip script_content \<noteq> []"

record subprocess_script_config =
  sc_timeout_s :: string
  sc_max_output_bytes :: int

text \<open>
  \<open>SubprocessScriptRuntime\<close>; \<open>sc_timeout_s\<close> is the text of the timeout.  The output streams are bytes,
  cut before they are decoded; a negative limit cuts from the end, as a Python slice does.
\<close>

definition cut_bytes :: "int \<Rightarrow> 'b list \<Rightarrow> 'b list" where
  "cut_bytes n bs = (if n \<ge> 0 then take (nat n) bs else take (length bs - nat (- n)) bs)"

definition subprocess_execute_script ::
  "subprocess_script_config \<Rightarrow> (string \<Rightarrow> bool) \<Rightarrow> ('b list \<Rightarrow> string) \<Rightarrow>
     (string \<Rightarrow> ('w, (int option \<times> 'b list \<times> 'b list) waited \<times> int) act) \<Rightarrow> 'w script_runtime" where
  "subprocess_execute_script cfg parses decode spawn i =
     (if \<not> parses (sa_script_content i)
      then return_act (ScriptResult (sa_script_id i) 2 '''' ''SyntaxError: script_content failed syntax validation'' None 0)
      else bind_act (spawn (sa_script_content i)) (\<lambda>(e, elapsed).
        case e of
          TimedOut \<Rightarrow> return_act (timeout_result i (sc_timeout_s cfg @ ''s'') elapsed)
        | InTime (returncode, out, err) \<Rightarrow>
            return_act (ScriptResult (sa_script_id i) (case returncode of None \<Rightarrow> 1 | Some c \<Rightarrow> c)
              (decode (cut_bytes (sc_max_output_bytes cfg) out)) (decode (cut_bytes (sc_max_output_bytes cfg) err)) None elapsed)))"

section \<open>At most once\<close>

definition script_key :: "script_activity_input \<Rightarrow> string" where
  "script_key i = ''script:'' @ sa_run_id i @ '':'' @ sa_action_id i @ '':'' @ sa_script_id i"

text \<open>The host kind of the envelope is an arbitrary text here; the ledger only stores it.\<close>

definition script_envelope :: "(string \<Rightarrow> host_kind) \<Rightarrow> script_activity_input \<Rightarrow> idempotency_envelope" where
  "script_envelope host i =
     \<lparr>en_dispatch_idempotency_key = script_key i, en_operation_fingerprint = script_key i, en_attempt_seq = 1,
      en_effect_scope = ''script:'' @ sa_script_id i, en_capability_snapshot_hash = ''script_runtime'',
      en_host_kind = host (sa_host_kind i), en_peer_operation_id = None, en_policy_snapshot_ref = None, en_rule_bundle_hash = None\<rparr>"

text \<open>The ledger, the world of the inner runtime, and the scripts the inner runtime was called with.\<close>

record ('s, 'w) script_world =
  sw_store :: 's
  sw_env :: 'w
  sw_calls :: "script_activity_input list"

definition on_store :: "('s \<Rightarrow> 's \<times> 'a result) \<Rightarrow> (('s, 'w) script_world, 'a) act" where
  "on_store f w = (case f (sw_store w) of (s, r) \<Rightarrow> (w\<lparr>sw_store := s\<rparr>, r))"

definition call_inner :: "'w script_runtime \<Rightarrow> script_activity_input \<Rightarrow> (('s, 'w) script_world, script_result) act" where
  "call_inner inner i w =
     (case inner i (sw_env w) of (e, r) \<Rightarrow> (w\<lparr>sw_env := e, sw_calls := sw_calls w @ [i]\<rparr>, r))"

text \<open>The inner call of an accepted reservation, with the mark of what became of it.\<close>

definition run_reserved_script ::
  "'s dedupe_port \<Rightarrow> 'w script_runtime \<Rightarrow> script_activity_input \<Rightarrow> (('s, 'w) script_world, script_result) act" where
  "run_reserved_script port inner i =
     bind_act (catch_act (call_inner inner i)
         (\<lambda>exc. bind_act (suppress_act (on_store (\<lambda>s. port_mark port s MarkUnknown (script_key i)))) (\<lambda>_. raise_act exc)))
       (\<lambda>result. bind_act (on_store (\<lambda>s. port_mark port s (MarkAcknowledged None) (script_key i))) (\<lambda>_. return_act result))"

definition dedupe_aware_execute_script ::
  "(string \<Rightarrow> host_kind) \<Rightarrow> 's dedupe_port \<Rightarrow> 'w script_runtime \<Rightarrow> script_activity_input
     \<Rightarrow> (('s, 'w) script_world, script_result) act" where
  "dedupe_aware_execute_script host port inner i =
     bind_act (on_store (\<lambda>s. port_reserve port s (script_envelope host i))) (\<lambda>reservation.
     if \<not> rv_accepted reservation then return_act (ScriptResult (sa_script_id i) 0 '''' '''' None 0)
     else
       bind_act (on_store (\<lambda>s. port_mark port s (MarkDispatched None) (script_key i))) (\<lambda>_.
       run_reserved_script port inner i))"

section \<open>The registry\<close>

record script_runtime_descriptor =
  sd_host_kind :: string
  sd_description :: string
  sd_is_safe_for_production :: bool
  sd_supports_timeout :: bool

record 'w script_runtime_registry =
  rr_runtimes :: "(string, 'w script_runtime) dict"
  rr_descriptors :: "(string, script_runtime_descriptor) dict"
  rr_production_mode :: bool

definition ScriptRuntimeRegistry :: "'w script_runtime_registry" where
  "ScriptRuntimeRegistry = \<lparr>rr_runtimes = [], rr_descriptors = [], rr_production_mode = False\<rparr>"

definition register_runtime ::
  "string \<Rightarrow> 'w script_runtime \<Rightarrow> string \<Rightarrow> bool \<Rightarrow> bool \<Rightarrow> 'w script_runtime_registry \<Rightarrow> 'w script_runtime_registry" where
  "register_runtime host_kind runtime description safe supports_timeout r =
     r\<lparr>rr_runtimes := dict_set host_kind runtime (rr_runtimes r),
       rr_descriptors := dict_set host_kind
         \<lparr>sd_host_kind = host_kind, sd_description = description, sd_is_safe_for_production = safe,
          sd_supports_timeout = supports_timeout\<rparr> (rr_descriptors r)\<rparr>"

definition enable_production_mode :: "'w script_runtime_registry \<Rightarrow> 'w script_runtime_registry" where
  "enable_production_mode r = r\<lparr>rr_production_mode := True\<rparr>"

definition get_runtime :: "'w script_runtime_registry \<Rightarrow> string \<Rightarrow> 'w script_runtime option" where
  "get_runtime r host_kind = dict_get (rr_runtimes r) host_kind"

definition get_descriptor :: "'w script_runtime_registry \<Rightarrow> string \<Rightarrow> script_runtime_descriptor option" where
  "get_descriptor r host_kind = dict_get (rr_descriptors r) host_kind"

definition known_host_kinds :: "'w script_runtime_registry \<Rightarrow> string list" where
  "known_host_kinds r = map fst (rr_runtimes r)"

definition all_descriptors :: "'w script_runtime_registry \<Rightarrow> script_runtime_descriptor list" where
  "all_descriptors r = map snd (rr_descriptors r)"

definition dispatch_script :: "'w script_runtime_registry \<Rightarrow> script_activity_input \<Rightarrow> ('w, script_result) act" where
  "dispatch_script r i =
     (case dict_get (rr_runtimes r) (sa_host_kind i) of
        None \<Rightarrow>
          raise_act (KeyError (''No ScriptRuntime registered for host_kind='' @ repr_str (sa_host_kind i) @ ''. Registered: '' @
            (if rr_runtimes r = [] then ''<none>'' else join '', '' (sort (known_host_kinds r)))))
      | Some runtime \<Rightarrow>
          if rr_production_mode r \<and>
             (case dict_get (rr_descriptors r) (sa_host_kind i) of None \<Rightarrow> False | Some d \<Rightarrow> \<not> sd_is_safe_for_production d)
          then raise_act (RuntimeError (''ScriptRuntime '' @ repr_str (sa_host_kind i) @
            '' is not production-safe; cannot dispatch in production mode''))
          else runtime i)"

text \<open>The three built-in runtimes, and the new timeout of \<^verbatim>\<open>local_process\<close>.\<close>

definition register_builtin_runtimes ::
  "'w script_runtime \<Rightarrow> 'w script_runtime \<Rightarrow> 'w script_runtime \<Rightarrow> 'w script_runtime_registry \<Rightarrow> 'w script_runtime_registry" where
  "register_builtin_runtimes echo in_process local_process r =
     register_runtime ''local_process'' local_process ''asyncio subprocess runtime for local shell scripts.'' True True
       (register_runtime ''in_process_python'' in_process
          ''exec()-based in-process Python runtime. PoC/test only; NOT production-safe.'' False True
          (register_runtime ''echo'' echo ''PoC stub that echoes parameters as JSON. Not for production.'' False False r))"

definition configure_local_process_timeout ::
  "(int \<Rightarrow> 'w script_runtime) \<Rightarrow> int \<Rightarrow> 'w script_runtime_registry \<Rightarrow> 'w script_runtime_registry" where
  "configure_local_process_timeout local_process timeout_ms =
     register_runtime ''local_process'' (local_process timeout_ms) ''asyncio subprocess runtime for local shell scripts.'' True True"

definition validate_host_kind :: "'w script_runtime_registry \<Rightarrow> string \<Rightarrow> bool \<Rightarrow> bool result" where
  "validate_host_kind r host_kind strict =
     (if host_kind \<in> set (known_host_kinds r) then Inr True
      else if strict then Inl (ValueError (''Unknown host_kind='' @ repr_str host_kind @ ''. Known: '' @
        ''['' @ join '', '' (map repr_str (known_host_kinds r)) @ '']''))
      else Inr False)"

section \<open>The branch monitor\<close>

record branch_state =
  bs_action_id :: string
  bs_expected_interval_ms :: int
  bs_last_heartbeat_ms :: rat
  bs_budget_consumed_ratio :: pyfloat
  bs_completed :: bool
  bs_output_produced :: bool

text \<open>
  The last heartbeat is kept as the milliseconds that the code reads back from its ISO text; the
  readings of the clock are arguments.
\<close>

type_synonym branch_monitor = "(string, branch_state) dict"

definition register_branch :: "string \<Rightarrow> int \<Rightarrow> rat \<Rightarrow> (branch_monitor, unit) act" where
  "register_branch action_id expected_interval_ms now_ms m =
     (if dict_has m action_id then (m, Inl (ValueError (''Branch already registered: '' @ repr_str action_id)))
      else (dict_set action_id
        \<lparr>bs_action_id = action_id, bs_expected_interval_ms = expected_interval_ms, bs_last_heartbeat_ms = now_ms,
         bs_budget_consumed_ratio = PFin 0, bs_completed = False, bs_output_produced = False\<rparr> m, Inr ()))"

definition update_branch :: "string \<Rightarrow> (branch_state \<Rightarrow> branch_state) \<Rightarrow> (branch_monitor, unit) act" where
  "update_branch action_id f m =
     (case dict_get m action_id of
        None \<Rightarrow> (m, Inl (KeyError action_id))
      | Some b \<Rightarrow> (dict_set action_id (f b) m, Inr ()))"

definition record_branch_heartbeat :: "string \<Rightarrow> pyfloat \<Rightarrow> bool \<Rightarrow> rat \<Rightarrow> (branch_monitor, unit) act" where
  "record_branch_heartbeat action_id ratio output_produced now_ms =
     update_branch action_id (\<lambda>b. b\<lparr>bs_last_heartbeat_ms := now_ms, bs_budget_consumed_ratio := ratio,
       bs_output_produced := bs_output_produced b \<or> output_produced\<rparr>)"

definition complete_branch :: "string \<Rightarrow> (branch_monitor, unit) act" where
  "complete_branch action_id = update_branch action_id (\<lambda>b. b\<lparr>bs_completed := True\<rparr>)"

text \<open>Both readings are doubles; their difference is rounded once more.\<close>

definition branch_overdue :: "rat \<Rightarrow> branch_state \<Rightarrow> bool" where
  "branch_overdue now_ms b =
     (case to_double (now_ms - bs_last_heartbeat_ms b) of
        PFin elapsed \<Rightarrow> of_int (bs_expected_interval_ms b * 2) < elapsed | PInf \<Rightarrow> True | _ \<Rightarrow> False)"

definition get_stalled_branches :: "rat \<Rightarrow> branch_monitor \<Rightarrow> string list" where
  "get_stalled_branches now_ms m =
     map (\<lambda>(_, b). bs_action_id b) (filter (\<lambda>(_, b). \<not> bs_completed b \<and> branch_overdue now_ms b) m)"

definition DEAD_LOOP_RATIO_THRESHOLD :: pyfloat where
  "DEAD_LOOP_RATIO_THRESHOLD = to_double (9 / 10)"

definition float_ge :: "pyfloat \<Rightarrow> pyfloat \<Rightarrow> bool" where
  "float_ge x y = (case (x, y) of (PFin a, PFin b) \<Rightarrow> b \<le> a | (PInf, PNaN) \<Rightarrow> False | (PInf, _) \<Rightarrow> True
     | (PFin _, PNegInf) \<Rightarrow> True | (PNegInf, PNegInf) \<Rightarrow> True | _ \<Rightarrow> False)"

definition suspected_dead_loop :: "branch_state \<Rightarrow> bool" where
  "suspected_dead_loop b \<longleftrightarrow> float_ge (bs_budget_consumed_ratio b) DEAD_LOOP_RATIO_THRESHOLD \<and> \<not> bs_output_produced b"

definition is_suspected_dead_loop :: "branch_monitor \<Rightarrow> string \<Rightarrow> bool result" where
  "is_suspected_dead_loop m action_id =
     (case dict_get m action_id of None \<Rightarrow> Inl (KeyError action_id) | Some b \<Rightarrow> Inr (suspected_dead_loop b))"

definition build_script_failure_evidence ::
  "branch_monitor \<Rightarrow> string \<Rightarrow> string \<Rightarrow> string \<Rightarrow> string option \<Rightarrow> string option \<Rightarrow> script_failure_evidence result" where
  "build_script_failure_evidence m action_id script_id original_script partial_output stderr_tail =
     (case dict_get m action_id of
        None \<Rightarrow> Inl (KeyError action_id)
      | Some b \<Rightarrow>
          Inr \<lparr>sf_script_id = script_id, sf_failure_kind = ''heartbeat_timeout'',
            sf_budget_consumed_ratio = bs_budget_consumed_ratio b,
            sf_output_produced = (truthy partial_output \<or> bs_output_produced b),
            sf_suspected_cause = (if suspected_dead_loop b then Some ''possible_infinite_loop'' else None),
            sf_partial_output = partial_output, sf_original_script = original_script, sf_stderr_tail = stderr_tail\<rparr>)"


section \<open>Properties\<close>

text \<open>Scripts in sequence over one ledger, whatever each of them returns or raises.\<close>

fun execute_scripts ::
  "(string \<Rightarrow> host_kind) \<Rightarrow> 's dedupe_port \<Rightarrow> 'w script_runtime \<Rightarrow> script_activity_input list \<Rightarrow> ('s, 'w) script_world \<Rightarrow> ('s, 'w) script_world" where
  "execute_scripts host port inner [] w = w"
| "execute_scripts host port inner (i # is) w =
     execute_scripts host port inner is (fst (dedupe_aware_execute_script host port inner i w))"

lemma script_envelope_key [simp]: "en_dispatch_idempotency_key (script_envelope host i) = script_key i"
  by (simp add: script_envelope_def)

context dedupe_store_port
begin

definition scripts_ok :: "('s, 'w) script_world \<Rightarrow> bool" where
  "scripts_ok w \<longleftrightarrow> invar (sw_store w) \<and> distinct (map script_key (sw_calls w))
     \<and> (\<forall>i \<in> set (sw_calls w). ledger (sw_store w) (script_key i) \<noteq> None)"

lemma marked_script_ok:
  assumes "scripts_ok w" "port_mark port (sw_store w) m k = (s', r)"
  shows "scripts_ok (w\<lparr>sw_store := s'\<rparr>)"
  using mark_cases [OF _ assms(2)] assms(1) ledger_le_dom by (fastforce simp: scripts_ok_def)

lemma settle_script_ok:
  assumes "scripts_ok w" "ledger (sw_store w) (script_key i) \<noteq> None" "script_key i \<notin> script_key ` set (sw_calls w)"
  shows "scripts_ok (fst (run_reserved_script port inner i w))"
proof -
  obtain e res where run: "inner i (sw_env w) = (e, res)" by fastforce
  let ?w = "w\<lparr>sw_env := e, sw_calls := sw_calls w @ [i]\<rparr>"
  have ok: "scripts_ok ?w" using assms by (auto simp: scripts_ok_def)
  obtain s1 r1 where m1: "port_mark port (sw_store w) MarkUnknown (script_key i) = (s1, r1)" by fastforce
  obtain s2 r2 where m2: "port_mark port (sw_store w) (MarkAcknowledged None) (script_key i) = (s2, r2)" by fastforce
  show ?thesis
    using marked_script_ok [OF ok, of MarkUnknown "script_key i" s1 r1] marked_script_ok [OF ok, of "MarkAcknowledged None" "script_key i" s2 r2]
      run m1 m2
    by (cases res; cases r2) (simp_all add: run_reserved_script_def bind_act_def catch_act_def call_inner_def on_store_def)
qed

lemma execute_script_ok:
  assumes ok: "scripts_ok w"
  shows "scripts_ok (fst (dedupe_aware_execute_script host port inner i w))"
proof -
  obtain s1 rs where rs: "port_reserve port (sw_store w) (script_envelope host i) = (s1, rs)" by fastforce
  note c1 = reserve_cases [OF _ rs]
  let ?w1 = "w\<lparr>sw_store := s1\<rparr>"
  have ok1: "scripts_ok ?w1" using ok c1(1,2) ledger_le_dom by (fastforce simp: scripts_ok_def)
  show ?thesis
  proof (cases "\<exists>rv. rs = Inr rv \<and> rv_accepted rv")
    case False
    then show ?thesis using rs ok1 by (cases rs) (auto simp: dedupe_aware_execute_script_def bind_act_def on_store_def)
  next
    case True
    then obtain rv where rv: "rs = Inr rv" "rv_accepted rv" by blast
    have new: "ledger (sw_store w) (script_key i) = None" "ledger s1 (script_key i) \<noteq> None"
      using c1(3) [of "script_key i"] ok rv by (simp_all add: reserved_key_def scripts_ok_def)
    obtain s2 u where m: "port_mark port s1 (MarkDispatched None) (script_key i) = (s2, u)" by fastforce
    have ok2: "scripts_ok (w\<lparr>sw_store := s2\<rparr>)" using marked_script_ok [OF ok1, of "MarkDispatched None" "script_key i" s2 u] m by simp
    have "invar s1" using ok1 by (simp add: scripts_ok_def)
    then have "ledger s2 (script_key i) \<noteq> None" using mark_cases(2) [OF _ m] new(2) ledger_le_dom by metis
    then have "scripts_ok (fst (run_reserved_script port inner i (w\<lparr>sw_store := s2\<rparr>)))"
      using ok2 new(1) ok by (intro settle_script_ok) (auto simp: scripts_ok_def)
    then show ?thesis using rs rv m ok2 by (cases u) (simp_all add: dedupe_aware_execute_script_def bind_act_def on_store_def)
  qed
qed

lemma scripts_run_once:
  assumes "invar s"
  shows "distinct (map script_key (sw_calls (execute_scripts host port inner is \<lparr>sw_store = s, sw_env = e, sw_calls = []\<rparr>)))"
proof -
  have "scripts_ok w \<Longrightarrow> scripts_ok (execute_scripts host port inner is w)" for w
    by (induction "is" arbitrary: w) (simp_all add: execute_script_ok)
  then show ?thesis using assms by (fastforce simp: scripts_ok_def)
qed

text \<open>A script whose key is known is not run again; the caller gets an empty success.\<close>

lemma known_script_skipped:
  assumes "invar (sw_store w)" "ledger (sw_store w) (script_key i) \<noteq> None"
    "dedupe_aware_execute_script host port inner i w = (w', Inr r)"
  shows "sw_calls w' = sw_calls w \<and> sw_env w' = sw_env w \<and> r = ScriptResult (sa_script_id i) 0 [] [] None 0"
proof -
  obtain s1 rs where rs: "port_reserve port (sw_store w) (script_envelope host i) = (s1, rs)" by fastforce
  have "\<not> (\<exists>rv. rs = Inr rv \<and> rv_accepted rv)"
    using reserve_cases(3) [OF assms(1) rs, of "script_key i"] assms(2) by (auto simp: reserved_key_def)
  then show ?thesis using assms(3) rs by (cases rs) (auto simp: dedupe_aware_execute_script_def bind_act_def on_store_def)
qed

end

text \<open>
  C24 (safety): A script runs at most once.  Over the SQLite ledger, whichever of its statements fail and
  whatever the inner runtime does, no two calls of the inner runtime in a sequence of executions
  have the same key.
\<close>

theorem scripts_run_at_most_once:
  "distinct (map script_key (sw_calls
     (execute_scripts host sq_port inner is \<lparr>sw_store = sq_ensure_schema faults, sw_env = e, sw_calls = []\<rparr>)))"
  by (rule sq.scripts_run_once) (rule sq_invar_ensure_schema)

lemma scripts_run_at_most_once_mem:
  "distinct (map script_key (sw_calls (execute_scripts host mem_port inner is \<lparr>sw_store = [], sw_env = e, sw_calls = []\<rparr>)))"
  by (rule mem.scripts_run_once) simp

text \<open>
  The reservation and the dispatch mark are two statements: when the second fails the script has not
  run, and a repeated call returns success without running it.  A script that raised is reported as a
  success by a repeated call as well.
\<close>

definition sample_script :: script_activity_input where
  "sample_script = \<lparr>sa_run_id = ''r'', sa_action_id = ''a'', sa_script_id = ''s'', sa_script_content = ''x'', sa_host_kind = ''echo'',
     sa_parameters = [], sa_timeout_ms = 1, sa_heartbeat_interval_ms = 1\<rparr>"

definition failing_runtime :: "unit script_runtime" where
  "failing_runtime i = raise_act (RuntimeError ''boom'')"

definition sample_script_world :: "bool list \<Rightarrow> (sqlite_db, unit) script_world" where
  "sample_script_world faults = \<lparr>sw_store = sq_ensure_schema faults, sw_env = (), sw_calls = []\<rparr>"

definition two_attempts :: "bool list \<Rightarrow> nat \<times> bool \<times> int option" where
  "two_attempts faults =
     (let run = dedupe_aware_execute_script (\<lambda>_. Local_process) sq_port failing_runtime sample_script;
          (w1, r1) = run (sample_script_world faults); (w2, r2) = run w1
      in (length (sw_calls w2), is_ok r1, case r2 of Inl _ \<Rightarrow> None | Inr r \<Rightarrow> Some (sr_exit_code r)))"

lemma unexecuted_script_reported_successful: "two_attempts (replicate 4 False @ [True]) = (0, False, Some 0)"
  by code_simp

lemma failed_script_reported_successful: "two_attempts [] = (1, False, Some 0)"
  by code_simp

text \<open>Identifiers with colons make different scripts share a key.\<close>

lemma script_keys_collide:
  "script_key (sample_script\<lparr>sa_action_id := ''a:b'', sa_script_id := ''c''\<rparr>) =
   script_key (sample_script\<lparr>sa_action_id := ''a'', sa_script_id := ''b:c''\<rparr>)"
  by (simp add: script_key_def)

text \<open>The registrations of a runtime after production mode was enabled.\<close>

inductive registry_step :: "'w script_runtime_registry \<Rightarrow> 'w script_runtime_registry \<Rightarrow> bool" where
  "registry_step r (register_runtime host_kind runtime description safe supports_timeout r)"
| "registry_step r (configure_local_process_timeout local_process timeout_ms r)"
| "registry_step r (enable_production_mode r)"

lemma registry_step_ok:
  assumes "registry_step\<^sup>*\<^sup>* (enable_production_mode (register_builtin_runtimes echo in_process local_process ScriptRuntimeRegistry)) r"
  shows "rr_production_mode r \<and> (\<forall>k. dict_get (rr_runtimes r) k \<noteq> None \<longrightarrow> dict_get (rr_descriptors r) k \<noteq> None)"
  using assms
proof (induction rule: rtranclp_induct)
  case base
  then show ?case
    by (simp add: enable_production_mode_def register_builtin_runtimes_def register_runtime_def ScriptRuntimeRegistry_def)
next
  case (step r r')
  from step(2,3) show ?case
    by (cases rule: registry_step.cases)
      (auto simp: register_runtime_def configure_local_process_timeout_def enable_production_mode_def)
qed

text \<open>
  C25 (safety): Production mode.  Once it is enabled on a registry with the built-in runtimes, whatever
  is registered later, a dispatch calls only a runtime that was registered as safe for production;
  every other dispatch raises and changes nothing.
\<close>

theorem production_mode_runs_safe_runtimes:
  assumes "registry_step\<^sup>*\<^sup>* (enable_production_mode (register_builtin_runtimes echo in_process local_process ScriptRuntimeRegistry)) r"
  shows "(\<exists>runtime d. get_runtime r (sa_host_kind i) = Some runtime \<and> get_descriptor r (sa_host_kind i) = Some d
       \<and> sd_is_safe_for_production d \<and> dispatch_script r i w = runtime i w)
    \<or> (\<exists>e. dispatch_script r i w = (w, Inl e))"
  using registry_step_ok [OF assms]
  by (cases "dict_get (rr_runtimes r) (sa_host_kind i)"; cases "dict_get (rr_descriptors r) (sa_host_kind i)")
    (auto simp: dispatch_script_def get_runtime_def get_descriptor_def)

theorem production_mode_runs_safe_runtimes_witness:
  "dispatch_script (enable_production_mode (register_builtin_runtimes failing_runtime failing_runtime failing_runtime ScriptRuntimeRegistry))
      sample_script () \<noteq> failing_runtime sample_script () \<and>
   (\<exists>e. dispatch_script (enable_production_mode (register_builtin_runtimes failing_runtime failing_runtime failing_runtime ScriptRuntimeRegistry))
      sample_script () = ((), Inl e))"
proof -
  let ?r = "enable_production_mode (register_builtin_runtimes failing_runtime failing_runtime failing_runtime ScriptRuntimeRegistry)"
  have d: "get_descriptor ?r ''echo'' = Some \<lparr>sd_host_kind = ''echo'', sd_description = ''PoC stub that echoes parameters as JSON. Not for production.'',
      sd_is_safe_for_production = False, sd_supports_timeout = False\<rparr>"
    by (simp add: get_descriptor_def enable_production_mode_def register_builtin_runtimes_def register_runtime_def ScriptRuntimeRegistry_def)
  then have e: "\<exists>e. dispatch_script ?r sample_script () = ((), Inl e)"
    using production_mode_runs_safe_runtimes [OF rtranclp.rtrancl_refl, of failing_runtime failing_runtime failing_runtime sample_script "()"]
    by (auto simp: sample_script_def)
  moreover have "dispatch_script ?r sample_script () \<noteq> failing_runtime sample_script ()"
    by (simp add: dispatch_script_def sample_script_def failing_runtime_def enable_production_mode_def register_builtin_runtimes_def
        register_runtime_def ScriptRuntimeRegistry_def)
  ultimately show ?thesis by blast
qed

text \<open>A completed branch is never stalled, and evidence without output names the suspected loop.\<close>

lemma completed_branch_not_stalled:
  assumes "complete_branch a m = (m', Inr ())" "dict_wf m" "\<forall>(k, b) \<in> set m. bs_action_id b = k"
  shows "a \<notin> set (get_stalled_branches now_ms m')"
proof -
  obtain b where b: "dict_get m a = Some b" "m' = dict_set a (b\<lparr>bs_completed := True\<rparr>) m"
    using assms(1) by (auto simp: complete_branch_def update_branch_def split: option.splits)
  have "bs_action_id c = k \<and> (k = a \<longrightarrow> bs_completed c)" if "(k, c) \<in> set m'" for k c
  proof -
    have "dict_get m' k = Some c" using that dict_in_set [of m' k c] b(2) assms(2) by (simp add: dict_wf_set)
    then show ?thesis using b assms(2,3) dict_in_set [OF assms(2)] by (fastforce simp: dict_get_set split: if_splits)
  qed
  then show ?thesis by (fastforce simp: get_stalled_branches_def)
qed

end
