(* ===== verification/Http_Service.thy ===== *)
theory Http_Service
  imports Facade_Wellformed Kernel_Registries
begin

text \<open>
  The HTTP service of \<^verbatim>\<open>service/http_server.py\<close>, \<^verbatim>\<open>service/serialization.py\<close> and
  \<^verbatim>\<open>service/auth_middleware.py\<close>: one handler per route over the operations of the facade, the
  conversion between JSON bodies and requests, the route table and the check of the API key.  The
  choice of a route is Starlette's: it is an argument, and what is used of it is stated where it is
  used.  The requests of the facade are typed while Python stores whatever the body holds, so a
  handler whose body has a field of a type the request does not declare answers \<open>Unspecified\<close>, and
  nothing is said about it.
\<close>

section \<open>Reading a JSON body\<close>

text \<open>\<^verbatim>\<open>data.get(...)\<close> and \<^verbatim>\<open>data[...]\<close> on a body that is not an object.\<close>

definition get_error :: "json \<Rightarrow> exn" where
  "get_error v = OtherError ''AttributeError'' (repr_str (json_type_name v) @ '' object has no attribute '' @ repr_str ''get'')"

definition subscript_error :: "json \<Rightarrow> exn" where
  "subscript_error v = TypeError (case v of
       JList _ \<Rightarrow> ''list indices must be integers or slices, not str''
     | JStr _ \<Rightarrow> ''string indices must be integers, not '' @ repr_str ''str''
     | _ \<Rightarrow> repr_str (json_type_name v) @ '' object is not subscriptable'')"

definition as_object :: "(json \<Rightarrow> exn) \<Rightarrow> json \<Rightarrow> jdict parsed" where
  "as_object err v = (case v of JDict d \<Rightarrow> Typed d | _ \<Rightarrow> Raises (err v))"

fun optional_text :: "string \<Rightarrow> json \<Rightarrow> string option parsed" where
  "optional_text k JNull = Typed None"
| "optional_text k (JStr s) = Typed (Some s)"
| "optional_text k _ = Untyped k"

fun plain_text :: "string \<Rightarrow> json \<Rightarrow> string parsed" where
  "plain_text k (JStr s) = Typed s"
| "plain_text k _ = Untyped k"

fun plain_flag :: "string \<Rightarrow> json \<Rightarrow> bool parsed" where
  "plain_flag k (JBool b) = Typed b"
| "plain_flag k _ = Untyped k"

fun optional_object :: "string \<Rightarrow> json \<Rightarrow> jdict option parsed" where
  "optional_object k JNull = Typed None"
| "optional_object k (JDict d) = Typed (Some d)"
| "optional_object k _ = Untyped k"

fun texts :: "string \<Rightarrow> json list \<Rightarrow> string list parsed" where
  "texts k [] = Typed []"
| "texts k (v # vs) = bind_parsed (plain_text k v) (\<lambda>s. bind_parsed (texts k vs) (\<lambda>ss. Typed (s # ss)))"

fun plain_texts :: "string \<Rightarrow> json \<Rightarrow> string list parsed" where
  "plain_texts k (JList vs) = texts k vs"
| "plain_texts k _ = Untyped k"

fun optional_text_map :: "string \<Rightarrow> json \<Rightarrow> (string, string) dict option parsed" where
  "optional_text_map k JNull = Typed None"
| "optional_text_map k (JDict d) = bind_parsed (texts k (map snd d)) (\<lambda>vs. Typed (Some (zip (map fst d) vs)))"
| "optional_text_map k _ = Untyped k"

text \<open>\<^verbatim>\<open>data.get(k)\<close>, \<^verbatim>\<open>data.get(k, default)\<close> and \<^verbatim>\<open>data[k]\<close>\<close>

definition get_text :: "jdict \<Rightarrow> string \<Rightarrow> string option parsed" where
  "get_text data k = optional_text k (jget data k)"

definition get_with_default :: "(string \<Rightarrow> json \<Rightarrow> 'a parsed) \<Rightarrow> jdict \<Rightarrow> string \<Rightarrow> 'a \<Rightarrow> 'a parsed" where
  "get_with_default conv data k dflt = (case dict_get data k of None \<Rightarrow> Typed dflt | Some v \<Rightarrow> conv k v)"

definition item :: "(string \<Rightarrow> json \<Rightarrow> 'a parsed) \<Rightarrow> jdict \<Rightarrow> string \<Rightarrow> 'a parsed" where
  "item conv data k = (case dict_get data k of None \<Rightarrow> Raises (KeyError k) | Some v \<Rightarrow> conv k v)"

section \<open>Requests\<close>

text \<open>\<^verbatim>\<open>data.get(k) or pvs.get(k)\<close>\<close>

definition policy_version :: "jdict \<Rightarrow> jdict \<Rightarrow> string \<Rightarrow> string option parsed" where
  "policy_version data pvs k = (if py_bool (jget data k) then get_text data k else get_text pvs k)"

definition nested_policy_versions :: "jdict \<Rightarrow> jdict parsed" where
  "nested_policy_versions data =
     (let v = jget data ''policy_versions''
      in if \<not> py_bool v then Typed [] else case v of JDict d \<Rightarrow> Typed d | _ \<Rightarrow> Untyped ''policy_versions'')"

definition deserialize_start_run :: "json \<Rightarrow> start_run_request parsed" where
  "deserialize_start_run body =
     bind_parsed (as_object get_error body) (\<lambda>data.
     bind_parsed (nested_policy_versions data) (\<lambda>pvs.
     bind_parsed (get_with_default plain_text data ''initiator'' ''user'') (\<lambda>initiator.
     bind_parsed (get_with_default plain_text data ''run_kind'' ''default'') (\<lambda>run_kind.
     bind_parsed (optional_object ''input_json'' (jget data ''input_json'')) (\<lambda>input_json.
     bind_parsed (get_text data ''session_id'') (\<lambda>session_id.
     bind_parsed (get_text data ''parent_run_id'') (\<lambda>parent_run_id.
     bind_parsed (get_text data ''initial_stage_id'') (\<lambda>initial_stage_id.
     bind_parsed (get_text data ''task_contract_ref'') (\<lambda>task_contract_ref.
     bind_parsed (policy_version data pvs ''route_policy_version'') (\<lambda>route.
     bind_parsed (policy_version data pvs ''skill_policy_version'') (\<lambda>skill.
     bind_parsed (policy_version data pvs ''evaluation_policy_version'') (\<lambda>evaluation.
     bind_parsed (policy_version data pvs ''task_view_policy_version'') (\<lambda>task_view.
     Typed \<lparr>srq_initiator = initiator, srq_run_kind = run_kind, srq_session_id = session_id, srq_input_ref = None,
       srq_input_json = input_json, srq_context_ref = None, srq_parent_run_id = parent_run_id, srq_trace_context = None,
       srq_task_contract_ref = task_contract_ref, srq_initial_stage_id = initial_stage_id,
       srq_route_policy_version = route, srq_skill_policy_version = skill,
       srq_evaluation_policy_version = evaluation, srq_task_view_policy_version = task_view\<rparr>)))))))))))))"

definition deserialize_signal_run :: "string \<Rightarrow> json \<Rightarrow> signal_run_request parsed" where
  "deserialize_signal_run run_id body =
     bind_parsed (as_object subscript_error body) (\<lambda>data.
     bind_parsed (item plain_text data ''signal_type'') (\<lambda>signal_type.
     bind_parsed (get_with_default optional_object data ''signal_payload'' (Some [])) (\<lambda>signal_payload.
     bind_parsed (get_text data ''caused_by'') (\<lambda>caused_by.
     Typed \<lparr>gq_run_id = run_id, gq_signal_type = signal_type, gq_signal_payload = signal_payload, gq_caused_by = caused_by\<rparr>))))"

definition deserialize_cancel_run :: "string \<Rightarrow> json \<Rightarrow> cancel_run_request parsed" where
  "deserialize_cancel_run run_id body =
     bind_parsed (as_object get_error body) (\<lambda>data.
     bind_parsed (get_with_default plain_text data ''reason'' '''') (\<lambda>reason.
     bind_parsed (get_text data ''caused_by'') (\<lambda>caused_by.
     Typed \<lparr>cq_run_id = run_id, cq_reason = reason, cq_caused_by = caused_by\<rparr>)))"

definition deserialize_resume_run :: "string \<Rightarrow> json \<Rightarrow> resume_run_request parsed" where
  "deserialize_resume_run run_id body =
     bind_parsed (as_object get_error body) (\<lambda>data.
     bind_parsed (get_text data ''caused_by'') (\<lambda>caused_by.
     Typed \<lparr>rq_run_id = run_id, rq_snapshot_id = None, rq_caused_by = caused_by\<rparr>))"

definition deserialize_spawn_child_run :: "string \<Rightarrow> json \<Rightarrow> spawn_child_run_request parsed" where
  "deserialize_spawn_child_run run_id body =
     bind_parsed (as_object subscript_error body) (\<lambda>data.
     bind_parsed (item plain_text data ''child_kind'') (\<lambda>child_kind.
     bind_parsed (get_text data ''input_ref'') (\<lambda>input_ref.
     bind_parsed (optional_object ''input_json'' (jget data ''input_json'')) (\<lambda>input_json.
     bind_parsed (get_text data ''context_ref'') (\<lambda>context_ref.
     bind_parsed (get_text data ''task_id'') (\<lambda>task_id.
     bind_parsed (get_with_default plain_flag data ''inherit_policy_versions'' True) (\<lambda>inherit.
     bind_parsed (optional_text_map ''policy_version_overrides'' (jget data ''policy_version_overrides'')) (\<lambda>overrides.
     bind_parsed (get_with_default plain_flag data ''notify_parent_on_complete'' True) (\<lambda>notify.
     Typed \<lparr>pq_parent_run_id = run_id, pq_child_kind = child_kind, pq_input_ref = input_ref, pq_input_json = input_json,
       pq_context_ref = context_ref, pq_task_id = task_id, pq_inherit_policy_versions = inherit,
       pq_policy_version_overrides = overrides, pq_notify_parent_on_complete = notify\<rparr>)))))))))"

definition deserialize_approval :: "string \<Rightarrow> json \<Rightarrow> approval_request parsed" where
  "deserialize_approval run_id body =
     bind_parsed (as_object subscript_error body) (\<lambda>data.
     bind_parsed (item plain_text data ''approval_ref'') (\<lambda>approval_ref.
     bind_parsed (item plain_flag data ''approved'') (\<lambda>approved.
     bind_parsed (get_with_default plain_text data ''reviewer_id'' ''anonymous'') (\<lambda>reviewer_id.
     bind_parsed (get_text data ''reason'') (\<lambda>reason.
     bind_parsed (get_text data ''caused_by'') (\<lambda>caused_by.
     Typed \<lparr>aq_run_id = run_id, aq_approval_ref = approval_ref, aq_approved = approved, aq_reviewer_id = reviewer_id,
       aq_reason = reason, aq_caused_by = caused_by\<rparr>))))))"

definition deserialize_open_branch :: "string \<Rightarrow> json \<Rightarrow> open_branch_request parsed" where
  "deserialize_open_branch run_id body =
     bind_parsed (as_object subscript_error body) (\<lambda>data.
     bind_parsed (item plain_text data ''branch_id'') (\<lambda>branch_id.
     bind_parsed (item plain_text data ''stage_id'') (\<lambda>stage_id.
     bind_parsed (get_text data ''parent_branch_id'') (\<lambda>parent_branch_id.
     bind_parsed (get_text data ''proposed_by'') (\<lambda>proposed_by.
     Typed \<lparr>ob_run_id = run_id, ob_branch_id = branch_id, ob_stage_id = stage_id,
       ob_parent_branch_id = parent_branch_id, ob_proposed_by = proposed_by\<rparr>)))))"

text \<open>The failure code of the body is a text; the request of the facade declares a member of an enumeration.\<close>

definition deserialize_branch_state_update :: "string \<Rightarrow> string \<Rightarrow> json \<Rightarrow> (branch_state_update_request \<times> string option) parsed" where
  "deserialize_branch_state_update run_id branch_id body =
     bind_parsed (as_object subscript_error body) (\<lambda>data.
     bind_parsed (item plain_text data ''new_state'') (\<lambda>new_state.
     bind_parsed (get_text data ''failure_code'') (\<lambda>failure_code.
     bind_parsed (get_text data ''reason'') (\<lambda>reason.
     Typed (\<lparr>bu_run_id = run_id, bu_branch_id = branch_id, bu_new_state = new_state, bu_failure_code = None,
       bu_reason = reason\<rparr>, failure_code)))))"

definition deserialize_human_gate :: "string \<Rightarrow> json \<Rightarrow> human_gate_request parsed" where
  "deserialize_human_gate run_id body =
     bind_parsed (as_object subscript_error body) (\<lambda>data.
     bind_parsed (item plain_text data ''gate_ref'') (\<lambda>gate_ref.
     bind_parsed (item plain_text data ''gate_type'') (\<lambda>gate_type.
     bind_parsed (item plain_text data ''trigger_reason'') (\<lambda>trigger_reason.
     bind_parsed (item plain_text data ''trigger_source'') (\<lambda>trigger_source.
     bind_parsed (get_text data ''stage_id'') (\<lambda>stage_id.
     bind_parsed (get_text data ''branch_id'') (\<lambda>branch_id.
     bind_parsed (get_text data ''artifact_ref'') (\<lambda>artifact_ref.
     bind_parsed (get_text data ''caused_by'') (\<lambda>caused_by.
     Typed \<lparr>hg_gate_ref = gate_ref, hg_gate_type = gate_type, hg_run_id = run_id, hg_trigger_reason = trigger_reason,
       hg_trigger_source = trigger_source, hg_stage_id = stage_id, hg_branch_id = branch_id,
       hg_artifact_ref = artifact_ref, hg_caused_by = caused_by\<rparr>)))))))))"

definition body_policy_versions :: "jdict \<Rightarrow> run_policy_versions option parsed" where
  "body_policy_versions data =
     (let v = jget data ''policy_versions''
      in if \<not> py_bool v then Typed None
         else case v of
           JDict d \<Rightarrow>
             if list_all (\<lambda>(k, x). case x of JStr _ \<Rightarrow> True | JNull \<Rightarrow> k \<noteq> ''pinned_at'' | _ \<Rightarrow> False) d
             then (case dict_to_policy_versions d of Inl e \<Rightarrow> Raises e | Inr pv \<Rightarrow> Typed (Some pv))
             else Untyped ''policy_versions''
         | _ \<Rightarrow> Untyped ''policy_versions'')"

definition deserialize_task_view :: "string \<Rightarrow> json \<Rightarrow> task_view_record parsed" where
  "deserialize_task_view run_id body =
     bind_parsed (as_object get_error body) (\<lambda>data.
     bind_parsed (body_policy_versions data) (\<lambda>policy_versions.
     bind_parsed (item plain_text data ''task_view_id'') (\<lambda>task_view_id.
     bind_parsed (item plain_text data ''selected_model_role'') (\<lambda>selected_model_role.
     bind_parsed (item plain_text data ''assembled_at'') (\<lambda>assembled_at.
     bind_parsed (get_text data ''decision_ref'') (\<lambda>decision_ref.
     bind_parsed (get_text data ''stage_id'') (\<lambda>stage_id.
     bind_parsed (get_text data ''branch_id'') (\<lambda>branch_id.
     bind_parsed (get_text data ''task_contract_ref'') (\<lambda>task_contract_ref.
     bind_parsed (get_with_default plain_texts data ''evidence_refs'' []) (\<lambda>evidence_refs.
     bind_parsed (get_with_default plain_texts data ''memory_refs'' []) (\<lambda>memory_refs.
     bind_parsed (get_with_default plain_texts data ''knowledge_refs'' []) (\<lambda>knowledge_refs.
     Typed \<lparr>tv_task_view_id = task_view_id, tv_run_id = run_id, tv_selected_model_role = selected_model_role,
       tv_assembled_at = assembled_at, tv_decision_ref = decision_ref, tv_stage_id = stage_id, tv_branch_id = branch_id,
       tv_task_contract_ref = task_contract_ref, tv_evidence_refs = evidence_refs, tv_memory_refs = memory_refs,
       tv_knowledge_refs = knowledge_refs, tv_policy_versions = policy_versions, tv_schema_version = ''1''\<rparr>))))))))))))"

section \<open>Responses\<close>

datatype http_response =
    JSONResponse int json
  | EventStream "json list"
  | ServerError exn
  | RouterResponse int
  | Unspecified string

definition error_response :: "int \<Rightarrow> string \<Rightarrow> http_response" where
  "error_response status detail = JSONResponse status (JDict [(''error'', JStr detail)])"

definition ok_response :: "int \<Rightarrow> http_response" where
  "ok_response status = JSONResponse status (JDict [(''ok'', JBool True)])"

text \<open>\<^verbatim>\<open>serialize_dataclass\<close>: the fields in the order of the class, frozen sets as sorted lists.\<close>

definition json_policy_versions :: "run_policy_versions option \<Rightarrow> json" where
  "json_policy_versions v = (case v of None \<Rightarrow> JNull | Some pv \<Rightarrow> JDict (policy_versions_to_dict pv))"

definition json_texts :: "string list \<Rightarrow> json" where
  "json_texts xs = JList (map JStr xs)"

definition serialize_start_run_response :: "start_run_response \<Rightarrow> json" where
  "serialize_start_run_response r = JDict
     [(''run_id'', JStr (sp_run_id r)), (''temporal_workflow_id'', JStr (sp_temporal_workflow_id r)),
      (''lifecycle_state'', JStr (lifecycle_str (sp_lifecycle_state r)))]"

definition serialize_query_run_response :: "query_run_response \<Rightarrow> json" where
  "serialize_query_run_response r = JDict
     [(''run_id'', JStr (qr_run_id r)), (''lifecycle_state'', JStr (lifecycle_str (qr_lifecycle_state r))),
      (''projected_offset'', JInt (qr_projected_offset r)), (''waiting_external'', JBool (qr_waiting_external r)),
      (''current_action_id'', json_opt (qr_current_action_id r)), (''recovery_mode'', json_opt (qr_recovery_mode r)),
      (''recovery_reason'', json_opt (qr_recovery_reason r)), (''active_child_runs'', json_texts (qr_active_child_runs r)),
      (''policy_versions'', json_policy_versions (qr_policy_versions r)), (''active_stage_id'', json_opt (qr_active_stage_id r))]"

definition serialize_dashboard :: "query_run_dashboard_response \<Rightarrow> json" where
  "serialize_dashboard r = JDict
     [(''run_id'', JStr (qd_run_id r)), (''lifecycle_state'', JStr (lifecycle_str (qd_lifecycle_state r))),
      (''projected_offset'', JInt (qd_projected_offset r)), (''waiting_external'', JBool (qd_waiting_external r)),
      (''recovery_mode'', json_opt (qd_recovery_mode r)), (''recovery_reason'', json_opt (qd_recovery_reason r)),
      (''active_child_runs_count'', JInt (int (qd_active_child_runs_count r))), (''correlation_hint'', JStr (qd_correlation_hint r))]"

definition serialize_branch_view :: "trace_branch_view \<Rightarrow> json" where
  "serialize_branch_view b = JDict
     [(''branch_id'', JStr (tb_branch_id b)), (''stage_id'', JStr (tb_stage_id b)), (''state'', JStr (tb_state b)),
      (''opened_at'', JStr (tb_opened_at b)), (''parent_branch_id'', json_opt (tb_parent_branch_id b)),
      (''proposed_by'', json_opt (tb_proposed_by b)), (''failure_code'', json_opt (tb_failure_code b)),
      (''policy_versions'', json_policy_versions (tb_policy_versions b))]"

definition serialize_stage_view :: "trace_stage_view \<Rightarrow> json" where
  "serialize_stage_view s = JDict
     [(''stage_id'', JStr (ts_stage_id s)), (''state'', JStr (ts_state s)), (''entered_at'', JStr (ts_entered_at s)),
      (''exited_at'', json_opt (ts_exited_at s)), (''branch_id'', json_opt (ts_branch_id s)),
      (''failure_code'', json_opt (ts_failure_code s))]"

definition serialize_trace_view :: "trace_runtime_view \<Rightarrow> json" where
  "serialize_trace_view v = JDict
     [(''run_id'', JStr (trv_run_id v)), (''run_state'', JStr (trv_run_state v)), (''wait_state'', JStr (trv_wait_state v)),
      (''review_state'', JStr (trv_review_state v)), (''active_stage_id'', json_opt (trv_active_stage_id v)),
      (''branches'', JList (map serialize_branch_view (trv_branches v))),
      (''policy_versions'', json_policy_versions (trv_policy_versions v)), (''projected_at'', json_opt (trv_projected_at v)),
      (''stages'', JList (map serialize_stage_view (trv_stages v)))]"

definition serialize_gate_resolution :: "human_gate_resolution \<Rightarrow> json" where
  "serialize_gate_resolution r = JDict
     [(''gate_ref'', JStr (hr_gate_ref r)), (''gate_type'', JStr (hr_gate_type r)), (''resolution'', JStr (hr_resolution r)),
      (''resolved_by'', json_opt (hr_resolved_by r)), (''resolved_at'', json_opt (hr_resolved_at r)),
      (''stage_id'', json_opt (hr_stage_id r)), (''branch_id'', json_opt (hr_branch_id r))]"

definition serialize_postmortem :: "run_postmortem_view \<Rightarrow> json" where
  "serialize_postmortem v = JDict
     [(''run_id'', JStr (pm_run_id v)), (''task_id'', json_opt (pm_task_id v)), (''run_kind'', JStr (pm_run_kind v)),
      (''outcome'', JStr (pm_outcome v)), (''stages'', JList (map serialize_stage_view (pm_stages v))),
      (''branches'', JList (map serialize_branch_view (pm_branches v))),
      (''total_action_count'', JInt (int (pm_total_action_count v))), (''failure_codes'', json_texts (pm_failure_codes v)),
      (''duration_ms'', JInt (pm_duration_ms v)),
      (''human_gate_resolutions'', JList (map serialize_gate_resolution (pm_human_gate_resolutions v))),
      (''policy_versions'', json_policy_versions (pm_policy_versions v)), (''event_count'', JInt (pm_event_count v)),
      (''created_at'', json_opt (pm_created_at v)), (''completed_at'', json_opt (pm_completed_at v))]"

definition serialize_spawn_response :: "spawn_child_run_response \<Rightarrow> json" where
  "serialize_spawn_response r = JDict
     [(''child_run_id'', JStr (pp_child_run_id r)), (''lifecycle_state'', JStr (lifecycle_str (pp_lifecycle_state r)))]"

definition serialize_child_summary :: "child_run_summary \<Rightarrow> json" where
  "serialize_child_summary c = JDict
     [(''child_run_id'', JStr (cs_child_run_id c)), (''child_kind'', JStr (cs_child_kind c)), (''task_id'', json_opt (cs_task_id c)),
      (''lifecycle_state'', JStr (lifecycle_str (cs_lifecycle_state c))),
      (''outcome'', json_opt (map_option lifecycle_str (cs_outcome c))), (''created_at'', json_opt (cs_created_at c)),
      (''completed_at'', json_opt (cs_completed_at c)), (''query_error'', json_opt (cs_query_error c))]"

fun task_state_str :: "task_lifecycle_state \<Rightarrow> string" where
  "task_state_str Task_pending = ''pending''"
| "task_state_str Task_running = ''running''"
| "task_state_str Task_completed = ''completed''"
| "task_state_str Task_failed = ''failed''"
| "task_state_str Task_restarting = ''restarting''"
| "task_state_str Task_reflecting = ''reflecting''"
| "task_state_str Task_escalated = ''escalated''"
| "task_state_str Task_aborted = ''aborted''"

definition serialize_task_health :: "task_health_status \<Rightarrow> json" where
  "serialize_task_health h = JDict
     [(''task_id'', JStr (th_task_id h)), (''lifecycle_state'', JStr (task_state_str (th_lifecycle_state h))),
      (''current_run_id'', json_opt (th_current_run_id h)), (''attempt_seq'', JInt (int (th_attempt_seq h))),
      (''max_attempts'', JInt (th_max_attempts h)),
      (''last_heartbeat_ms'', (case th_last_heartbeat_ms h of None \<Rightarrow> JNull | Some t \<Rightarrow> JInt t)),
      (''consecutive_missed_beats'', JInt (th_consecutive_missed_beats h)), (''is_stalled'', JBool (th_is_stalled h))]"

definition json_set :: "string set \<Rightarrow> json" where
  "json_set xs = json_texts (sorted_list_of_set xs)"

definition serialize_manifest :: "kernel_manifest \<Rightarrow> json" where
  "serialize_manifest m = JDict
     [(''kernel_version'', JStr (mf_kernel_version m)), (''protocol_version'', JStr (mf_protocol_version m)),
      (''supported_action_types'', json_set (mf_supported_action_types m)),
      (''supported_interaction_targets'', json_set (mf_supported_interaction_targets m)),
      (''supported_recovery_modes'', json_set (mf_supported_recovery_modes m)),
      (''supported_governance_features'', json_set (mf_supported_governance_features m)),
      (''supported_event_types'', json_set (mf_supported_event_types m)), (''substrate_type'', JStr (mf_substrate_type m)),
      (''capability_snapshot_schema_version'', JStr (mf_capability_snapshot_schema_version m)),
      (''substrate_limitations'', json_set (mf_substrate_limitations m)),
      (''trace_protocol_version'', JStr (mf_trace_protocol_version m)),
      (''supported_trace_features'', json_set (mf_supported_trace_features m))]"

definition serialize_event :: "runtime_event \<Rightarrow> json" where
  "serialize_event e = JDict
     [(''run_id'', JStr (ev_run_id e)), (''event_id'', JStr (ev_event_id e)), (''commit_offset'', JInt (ev_commit_offset e)),
      (''event_type'', JStr (ev_event_type e)), (''event_class'', JStr (event_class_str (ev_event_class e))),
      (''event_authority'', JStr (event_authority_str (ev_event_authority e))), (''ordering_key'', JStr (ev_ordering_key e)),
      (''wake_policy'', JStr (wake_policy_str (ev_wake_policy e))), (''created_at'', JStr (ev_created_at e)),
      (''idempotency_key'', json_opt (ev_idempotency_key e)), (''payload_ref'', json_opt (ev_payload_ref e)),
      (''payload_json'', (case ev_payload_json e of None \<Rightarrow> JNull | Some d \<Rightarrow> JDict d)), (''schema_version'', JStr (ev_schema_version e))]"

text \<open>\<^verbatim>\<open>asdict\<close> of a dictionary raises.\<close>

definition serialize_plain_dict :: "jdict \<Rightarrow> json result" where
  "serialize_plain_dict d = Inl (TypeError ''asdict() should be called on dataclass instances'')"

section \<open>The application\<close>

text \<open>
  The body of a request is its length in bytes with what \<^verbatim>\<open>json.loads\<close> makes of it.  The probe may
  act on the world behind the facade.
\<close>

record http_request =
  ht_method :: string
  ht_path :: string
  ht_headers :: "(string \<times> string) list"
  ht_query :: "(string, string) dict"
  ht_body :: "nat \<times> json result"

record 'g http_app =
  ha_config :: facade_config
  ha_ports :: "'g facade_ports"
  ha_api_key :: "string option"
  ha_max_body_bytes :: int
  ha_metrics :: "('g \<Rightarrow> json list) option"
  ha_health_probe :: "('g, probe_method) act"
  ha_kernel_version :: string
  ha_substrate_type :: string
  ha_openapi_spec :: json

definition json_body :: "'g http_app \<Rightarrow> http_request \<Rightarrow> json result" where
  "json_body app request =
     (let (len, loads) = ht_body request
      in if len = 0 then Inr (JDict [])
         else if int len > ha_max_body_bytes app
         then Inl (ValueError (''request body too large: '' @ show_nat len @ '' bytes (max '' @ show_int (ha_max_body_bytes app) @ '')''))
         else loads)"

type_synonym path_params = "(string, string) dict"
type_synonym 'g handler = "'g http_app \<Rightarrow> path_params \<Rightarrow> http_request \<Rightarrow> ('g facade, http_response) act"

definition path_param :: "path_params \<Rightarrow> string \<Rightarrow> (string \<Rightarrow> ('s, 'a) act) \<Rightarrow> ('s, 'a) act" where
  "path_param params k f = (case dict_get params k of None \<Rightarrow> raise_act (KeyError k) | Some v \<Rightarrow> f v)"

text \<open>\<^verbatim>\<open>data = await _json_body(request)\<close>, outside the \<^verbatim>\<open>try\<close>\<close>

definition with_body :: "'g http_app \<Rightarrow> http_request \<Rightarrow> (json \<Rightarrow> ('s, http_response) act) \<Rightarrow> ('s, http_response) act" where
  "with_body app request f = (case json_body app request of Inl e \<Rightarrow> raise_act e | Inr data \<Rightarrow> f data)"

text \<open>\<^verbatim>\<open>try: ... except Exception as exc: return _error(status, str(exc))\<close>\<close>

definition guarded :: "int \<Rightarrow> ('s, http_response) act \<Rightarrow> ('s, http_response) act" where
  "guarded status m = catch_act m (\<lambda>exc. return_act (error_response status (exn_str exc)))"

definition with_parsed :: "'a parsed \<Rightarrow> ('a \<Rightarrow> ('s, http_response) act) \<Rightarrow> ('s, http_response) act" where
  "with_parsed p f = (case p of Typed x \<Rightarrow> f x | Raises e \<Rightarrow> raise_act e | Untyped k \<Rightarrow> return_act (Unspecified k))"

text \<open>Await an operation of the facade and answer.\<close>

definition answer :: "int \<Rightarrow> ('a \<Rightarrow> json) \<Rightarrow> ('s, 'a) act \<Rightarrow> ('s, http_response) act" where
  "answer status ser m = bind_act m (\<lambda>r. return_act (JSONResponse status (ser r)))"

definition answer_ok :: "int \<Rightarrow> ('s, 'a) act \<Rightarrow> ('s, http_response) act" where
  "answer_ok status m = bind_act m (\<lambda>_. return_act (ok_response status))"

section \<open>Handlers\<close>

definition post_runs :: "'g handler" where
  "post_runs app params request =
     with_body app request (\<lambda>data.
     guarded 400 (with_parsed (deserialize_start_run data) (\<lambda>req.
       answer 201 serialize_start_run_response (start_run (ha_config app) (ha_ports app) req))))"

definition get_run :: "'g handler" where
  "get_run app params request =
     path_param params ''run_id'' (\<lambda>run_id.
     guarded 404 (answer 200 serialize_query_run_response (query_run (ha_ports app) run_id)))"

definition get_run_dashboard :: "'g handler" where
  "get_run_dashboard app params request =
     path_param params ''run_id'' (\<lambda>run_id.
     guarded 404 (answer 200 serialize_dashboard (query_run_dashboard (ha_ports app) run_id)))"

definition get_run_trace :: "'g handler" where
  "get_run_trace app params request =
     path_param params ''run_id'' (\<lambda>run_id.
     guarded 404 (answer 200 serialize_trace_view (query_trace_runtime (ha_ports app) run_id)))"

definition get_run_postmortem :: "'g handler" where
  "get_run_postmortem app params request =
     path_param params ''run_id'' (\<lambda>run_id.
     guarded 404 (answer 200 serialize_postmortem (query_run_postmortem (ha_ports app) run_id)))"

definition get_run_events :: "'g handler" where
  "get_run_events app params request =
     path_param params ''run_id'' (\<lambda>run_id.
     let include_diagnostic = (lower (dict_get_or (ht_query request) ''include_derived_diagnostic'' ''false'') = ''true'')
     in catch_act
       (bind_act (stream_run_events (ha_ports app) run_id include_diagnostic)
         (\<lambda>events. return_act (EventStream (map serialize_event events))))
       (\<lambda>exc. return_act (EventStream [JDict [(''error'', JStr (exn_str exc))]])))"

definition post_run_signal :: "'g handler" where
  "post_run_signal app params request =
     path_param params ''run_id'' (\<lambda>run_id.
     with_body app request (\<lambda>data.
     guarded 400 (with_parsed (deserialize_signal_run run_id data) (\<lambda>req.
       answer_ok 200 (signal_run (ha_ports app) req)))))"

definition post_run_cancel :: "'g handler" where
  "post_run_cancel app params request =
     path_param params ''run_id'' (\<lambda>run_id.
     with_body app request (\<lambda>data.
     guarded 400 (with_parsed (deserialize_cancel_run run_id data) (\<lambda>req.
       answer_ok 200 (cancel_run (ha_ports app) req)))))"

definition post_run_resume :: "'g handler" where
  "post_run_resume app params request =
     path_param params ''run_id'' (\<lambda>run_id.
     with_body app request (\<lambda>data.
     guarded 400 (with_parsed (deserialize_resume_run run_id data) (\<lambda>req.
       answer_ok 200 (resume_run (ha_ports app) req)))))"

definition post_run_children :: "'g handler" where
  "post_run_children app params request =
     path_param params ''run_id'' (\<lambda>run_id.
     with_body app request (\<lambda>data.
     guarded 400 (with_parsed (deserialize_spawn_child_run run_id data) (\<lambda>req.
       answer 201 serialize_spawn_response (spawn_child_run (ha_ports app) req)))))"

definition get_run_children :: "'g handler" where
  "get_run_children app params request =
     path_param params ''run_id'' (\<lambda>run_id.
     guarded 404 (answer 200 (\<lambda>cs. JList (map serialize_child_summary cs)) (query_child_runs (ha_ports app) run_id)))"

definition post_run_approval :: "'g handler" where
  "post_run_approval app params request =
     path_param params ''run_id'' (\<lambda>run_id.
     with_body app request (\<lambda>data.
     guarded 400 (with_parsed (deserialize_approval run_id data) (\<lambda>req.
       answer_ok 200 (submit_approval (ha_config app) (ha_ports app) req)))))"

definition post_run_stage_open :: "'g handler" where
  "post_run_stage_open app params request =
     path_param params ''run_id'' (\<lambda>run_id.
     path_param params ''stage_id'' (\<lambda>stage_id.
     with_body app request (\<lambda>data.
     guarded 400 (with_parsed (bind_parsed (as_object get_error data) (\<lambda>d. get_text d ''branch_id'')) (\<lambda>branch_id.
       answer_ok 201 (open_stage (ha_config app) (ha_ports app) stage_id run_id branch_id))))))"

definition put_run_stage_state :: "'g handler" where
  "put_run_stage_state app params request =
     path_param params ''run_id'' (\<lambda>run_id.
     path_param params ''stage_id'' (\<lambda>stage_id.
     with_body app request (\<lambda>data.
     guarded 400 (with_parsed (bind_parsed (as_object subscript_error data) (\<lambda>d.
         bind_parsed (item plain_text d ''new_state'') (\<lambda>new_state.
         bind_parsed (get_text d ''failure_code'') (\<lambda>failure_code. Typed (new_state, failure_code))))) (\<lambda>(new_state, failure_code).
       answer_ok 200 (mark_stage_state (ha_config app) (ha_ports app) run_id stage_id new_state failure_code))))))"

definition post_run_branches :: "'g handler" where
  "post_run_branches app params request =
     path_param params ''run_id'' (\<lambda>run_id.
     with_body app request (\<lambda>data.
     guarded 400 (with_parsed (deserialize_open_branch run_id data) (\<lambda>req.
       answer_ok 201 (open_branch (ha_config app) (ha_ports app) req)))))"

text \<open>
  \<^verbatim>\<open>mark_branch_state\<close> with a text as failure code: an empty one counts as absent, and of any other the
  verb reads \<^verbatim>\<open>value\<close>, which a text does not have, once it has found the branch.
\<close>

definition mark_branch_state_text ::
  "facade_config \<Rightarrow> 'g facade_ports \<Rightarrow> branch_state_update_request \<Rightarrow> string option \<Rightarrow> ('g facade, unit) act" where
  "mark_branch_state_text cfg pt request failure_code =
     (if \<not> truthy failure_code then mark_branch_state cfg pt request
      else
        bind_act (fa_modify (touch_run (fc_max_tracked_runs cfg) (bu_run_id request))) (\<lambda>_.
        bind_act (fa_read (\<lambda>fa. nested_get (fa_branch_registry fa) (bu_run_id request) (bu_branch_id request))) (\<lambda>existing.
        raise_act (case existing of
            None \<Rightarrow> KeyError (''Branch '' @ repr_str (bu_branch_id request) @ '' not found for run '' @ repr_str (bu_run_id request) @ ''.'')
          | Some _ \<Rightarrow> OtherError ''AttributeError'' (repr_str ''str'' @ '' object has no attribute '' @ repr_str ''value'')))))"

definition put_run_branch_state :: "'g handler" where
  "put_run_branch_state app params request =
     path_param params ''run_id'' (\<lambda>run_id.
     path_param params ''branch_id'' (\<lambda>branch_id.
     with_body app request (\<lambda>data.
     guarded 400 (with_parsed (deserialize_branch_state_update run_id branch_id data) (\<lambda>(req, failure_code).
       answer_ok 200 (mark_branch_state_text (ha_config app) (ha_ports app) req failure_code))))))"

definition post_run_human_gates :: "'g handler" where
  "post_run_human_gates app params request =
     path_param params ''run_id'' (\<lambda>run_id.
     with_body app request (\<lambda>data.
     guarded 400 (with_parsed (deserialize_human_gate run_id data) (\<lambda>req.
       answer_ok 201 (open_human_gate (ha_config app) (ha_ports app) req)))))"

definition post_run_resolve_escalation :: "'g handler" where
  "post_run_resolve_escalation app params request =
     path_param params ''run_id'' (\<lambda>run_id.
     with_body app request (\<lambda>data.
     guarded 400 (with_parsed (bind_parsed (as_object get_error data) (\<lambda>d.
         bind_parsed (get_text d ''resolution_notes'') (\<lambda>resolution_notes.
         bind_parsed (get_text d ''caused_by'') (\<lambda>caused_by. Typed (resolution_notes, caused_by))))) (\<lambda>(resolution_notes, caused_by).
       answer_ok 200 (resolve_escalation (ha_config app) (ha_ports app) run_id resolution_notes caused_by)))))"

definition post_run_task_views :: "'g handler" where
  "post_run_task_views app params request =
     path_param params ''run_id'' (\<lambda>run_id.
     with_body app request (\<lambda>data.
     guarded 400 (with_parsed (deserialize_task_view run_id data) (\<lambda>record.
       answer 201 (\<lambda>tv_id. JDict [(''task_view_id'', JStr tv_id)]) (record_task_view (ha_ports app) record)))))"

definition put_task_view_decision :: "'g handler" where
  "put_task_view_decision app params request =
     path_param params ''task_view_id'' (\<lambda>task_view_id.
     with_body app request (\<lambda>data.
     guarded 400 (with_parsed (bind_parsed (as_object subscript_error data) (\<lambda>d. item plain_text d ''decision_ref'')) (\<lambda>decision_ref.
       answer_ok 200 (bind_task_view_to_decision (ha_ports app) task_view_id decision_ref)))))"

definition post_run_turn :: "'g handler" where
  "post_run_turn app params request =
     return_act (error_response 501 ''execute_turn requires in-process mode; use KernelDirectAdapter'')"

text \<open>\<^verbatim>\<open>TaskDescriptor(**data)\<close>; the policy of a restart is left out or of another type than declared.\<close>

definition task_required :: "string list" where
  "task_required = [''task_id'', ''session_id'', ''task_kind'', ''goal_description'']"

definition task_optional :: "string list" where
  "task_optional = [''parent_task_id'', ''dependency_task_ids'', ''restart_policy'', ''metadata'']"

fun listed_names :: "string list \<Rightarrow> string" where
  "listed_names [a] = repr_str a"
| "listed_names [a, b] = repr_str a @ '' and '' @ repr_str b"
| "listed_names ns = join '', '' (map repr_str (butlast ns)) @ '', and '' @ repr_str (last ns)"

definition missing_arguments :: "string list \<Rightarrow> exn" where
  "missing_arguments ns = TypeError (''TaskDescriptor.__init__() missing '' @ show_nat (length ns) @
     '' required positional argument'' @ (if length ns = 1 then '''' else ''s'') @ '': '' @ listed_names ns)"

definition task_kinds :: "(string \<times> task_kind) list" where
  "task_kinds = [(''root'', Kind_root), (''plan_step'', Kind_plan_step), (''parallel_branch'', Kind_parallel_branch),
     (''speculative_candidate'', Kind_speculative_candidate)]"

definition plain_task_kind :: "string \<Rightarrow> json \<Rightarrow> task_kind parsed" where
  "plain_task_kind k v = (case v of JStr s \<Rightarrow> (case map_of task_kinds s of None \<Rightarrow> Untyped k | Some kind \<Rightarrow> Typed kind) | _ \<Rightarrow> Untyped k)"

definition plain_object :: "string \<Rightarrow> json \<Rightarrow> jdict parsed" where
  "plain_object k v = (case v of JDict d \<Rightarrow> Typed d | _ \<Rightarrow> Untyped k)"

definition TaskRestartPolicy :: task_restart_policy where
  "TaskRestartPolicy = \<lparr>tp_max_attempts = 3, tp_backoff_base_ms = 2000, tp_max_backoff_ms = 30000,
     tp_on_exhausted = Exhausted_reflect, tp_heartbeat_timeout_ms = 300000\<rparr>"

definition task_descriptor_of_body :: "json \<Rightarrow> task_descriptor parsed" where
  "task_descriptor_of_body body =
     bind_parsed (as_object (\<lambda>v. TypeError (''agent_kernel.kernel.task_manager.contracts.TaskDescriptor() argument after ** must be a mapping, not '' @
       json_type_name v)) body) (\<lambda>data.
     case find (\<lambda>k. k \<notin> set (task_required @ task_optional)) (map fst data) of
       Some k \<Rightarrow> Raises (TypeError (''TaskDescriptor.__init__() got an unexpected keyword argument '' @ repr_str k))
     | None \<Rightarrow>
         (case filter (\<lambda>k. \<not> dict_has data k) task_required of
            n # ns \<Rightarrow> Raises (missing_arguments (n # ns))
          | [] \<Rightarrow>
              bind_parsed (item plain_text data ''task_id'') (\<lambda>task_id.
              bind_parsed (item plain_text data ''session_id'') (\<lambda>session_id.
              bind_parsed (item plain_task_kind data ''task_kind'') (\<lambda>task_kind.
              bind_parsed (item plain_text data ''goal_description'') (\<lambda>goal_description.
              bind_parsed (get_text data ''parent_task_id'') (\<lambda>parent_task_id.
              bind_parsed (get_with_default plain_texts data ''dependency_task_ids'' []) (\<lambda>dependency_task_ids.
              bind_parsed (get_with_default (\<lambda>k v. Untyped k) data ''restart_policy'' TaskRestartPolicy) (\<lambda>restart_policy.
              bind_parsed (get_with_default plain_object data ''metadata'' []) (\<lambda>metadata.
              Typed \<lparr>ds_task_id = task_id, ds_session_id = session_id, ds_task_kind = task_kind,
                ds_goal_description = goal_description, ds_parent_task_id = parent_task_id,
                ds_dependency_task_ids = dependency_task_ids, ds_restart_policy = restart_policy, ds_metadata = metadata\<rparr>))))))))))"

definition post_tasks :: "'g handler" where
  "post_tasks app params request =
     with_body app request (\<lambda>data.
     guarded 400 (with_parsed (task_descriptor_of_body data) (\<lambda>descriptor.
       answer_ok 201 (facade_register_task (ha_ports app) descriptor))))"

definition http_get_task_status :: "'g handler" where
  "http_get_task_status app params request =
     path_param params ''task_id'' (\<lambda>task_id.
     guarded 400 (bind_act (get_task_status (ha_ports app) task_id) (\<lambda>status.
       return_act (case status of
           None \<Rightarrow> error_response 404 (''task '' @ repr_str task_id @ '' not found'')
         | Some s \<Rightarrow> JSONResponse 200 (serialize_task_health s)))))"

definition http_get_manifest :: "'g handler" where
  "http_get_manifest app params request =
     return_act (JSONResponse 200 (serialize_manifest (get_manifest (ha_kernel_version app) (ha_substrate_type app))))"

definition get_health_liveness :: "'g handler" where
  "get_health_liveness app params request = return_act (JSONResponse 200 (JDict [(''status'', JStr ''alive'')]))"

definition get_health_readiness :: "'g handler" where
  "get_health_readiness app params request =
     guarded 503 (bind_act (on_fst (ha_health_probe app)) (\<lambda>probe.
       bind_act (return_result (facade_get_health (ha_substrate_type app) probe)) (\<lambda>health.
       bind_act (return_result (serialize_plain_dict health)) (\<lambda>body.
       return_act (JSONResponse 200 body)))))"

definition get_metrics :: "'g handler" where
  "get_metrics app params request =
     read_act (\<lambda>(g, fa). JSONResponse 200 (JList (case ha_metrics app of None \<Rightarrow> [] | Some snapshot \<Rightarrow> snapshot g)))"

definition http_get_action_state :: "'g handler" where
  "http_get_action_state app params request =
     path_param params ''key'' (\<lambda>key.
     bind_act (get_action_state (ha_ports app) key) (\<lambda>state.
     return_act (case state of
         None \<Rightarrow> error_response 404 ''action not found''
       | Some s \<Rightarrow> JSONResponse 200 (JDict [(''state'', JStr s)]))))"

definition get_openapi :: "'g handler" where
  "get_openapi app params request = return_act (JSONResponse 200 (ha_openapi_spec app))"

section \<open>Routes and authentication\<close>

type_synonym route = "string \<times> string"

definition build_routes :: "(route \<times> 'g handler) list" where
  "build_routes =
     [((''POST'', ''/runs''), post_runs),
      ((''GET'', ''/runs/{run_id}''), get_run),
      ((''GET'', ''/runs/{run_id}/dashboard''), get_run_dashboard),
      ((''GET'', ''/runs/{run_id}/trace''), get_run_trace),
      ((''GET'', ''/runs/{run_id}/postmortem''), get_run_postmortem),
      ((''GET'', ''/runs/{run_id}/events''), get_run_events),
      ((''POST'', ''/runs/{run_id}/signal''), post_run_signal),
      ((''POST'', ''/runs/{run_id}/cancel''), post_run_cancel),
      ((''POST'', ''/runs/{run_id}/resume''), post_run_resume),
      ((''POST'', ''/runs/{run_id}/children''), post_run_children),
      ((''GET'', ''/runs/{run_id}/children''), get_run_children),
      ((''POST'', ''/runs/{run_id}/approval''), post_run_approval),
      ((''POST'', ''/runs/{run_id}/stages/{stage_id}/open''), post_run_stage_open),
      ((''PUT'', ''/runs/{run_id}/stages/{stage_id}/state''), put_run_stage_state),
      ((''POST'', ''/runs/{run_id}/branches''), post_run_branches),
      ((''PUT'', ''/runs/{run_id}/branches/{branch_id}/state''), put_run_branch_state),
      ((''POST'', ''/runs/{run_id}/human-gates''), post_run_human_gates),
      ((''POST'', ''/runs/{run_id}/resolve-escalation''), post_run_resolve_escalation),
      ((''POST'', ''/runs/{run_id}/task-views''), post_run_task_views),
      ((''PUT'', ''/task-views/{task_view_id}/decision''), put_task_view_decision),
      ((''POST'', ''/runs/{run_id}/turn''), post_run_turn),
      ((''POST'', ''/tasks''), post_tasks),
      ((''GET'', ''/tasks/{task_id}/status''), http_get_task_status),
      ((''GET'', ''/manifest''), http_get_manifest),
      ((''GET'', ''/health/liveness''), get_health_liveness),
      ((''GET'', ''/health/readiness''), get_health_readiness),
      ((''GET'', ''/actions/{key}/state''), http_get_action_state),
      ((''GET'', ''/metrics''), get_metrics),
      ((''GET'', ''/openapi.json''), get_openapi)]"

text \<open>
  The router gets the routes and the request; it answers with the position of a route and the path
  parameters, or with a status of its own.  An exception that leaves a handler is Starlette's to answer.
\<close>

type_synonym router = "route list \<Rightarrow> string \<Rightarrow> string \<Rightarrow> (nat \<times> path_params) option"

definition starlette_app :: "router \<Rightarrow> int \<Rightarrow> 'g http_app \<Rightarrow> http_request \<Rightarrow> 'g facade \<Rightarrow> 'g facade \<times> http_response" where
  "starlette_app router unmatched app request st =
     (case router (map fst (build_routes :: (route \<times> 'g handler) list)) (ht_method request) (ht_path request) of
        None \<Rightarrow> (st, RouterResponse unmatched)
      | Some (i, params) \<Rightarrow>
          if length (build_routes :: (route \<times> 'g handler) list) \<le> i then (st, RouterResponse unmatched)
          else case snd (build_routes ! i) app params request st of
                 (st', Inl exc) \<Rightarrow> (st', ServerError exc)
               | (st', Inr response) \<Rightarrow> (st', response))"

definition EXEMPT_PATHS :: "string list" where
  "EXEMPT_PATHS = [''/health/liveness'', ''/health/readiness'', ''/manifest'', ''/metrics'', ''/openapi.json'']"

text \<open>\<^verbatim>\<open>dict(headers)\<close> keeps the last of several headers with one name.\<close>

definition authorized :: "string option \<Rightarrow> http_request \<Rightarrow> bool" where
  "authorized api_key request =
     (case api_key of
        None \<Rightarrow> True
      | Some key \<Rightarrow> ht_path request \<in> set EXEMPT_PATHS
          \<or> (case map_of (rev (ht_headers request)) ''authorization'' of None \<Rightarrow> '''' | Some v \<Rightarrow> v) = ''Bearer '' @ key)"

definition create_app :: "router \<Rightarrow> int \<Rightarrow> 'g http_app \<Rightarrow> http_request \<Rightarrow> 'g facade \<Rightarrow> 'g facade \<times> http_response" where
  "create_app router unmatched app request st =
     (if authorized (ha_api_key app) request then starlette_app router unmatched app request st
      else (st, error_response 401 ''unauthorized''))"

section \<open>Invariants under requests\<close>

lemma starlette_appE:
  assumes "starlette_app router unmatched app request (st :: 'g facade) = (st', response)"
  obtains "st' = st" "response = RouterResponse unmatched"
  | i params res where "router (map fst (build_routes :: (route \<times> 'g handler) list)) (ht_method request) (ht_path request) = Some (i, params)"
      "i < length (build_routes :: (route \<times> 'g handler) list)" "snd (build_routes ! i) app params request st = (st', res)"
      "response = (case res of Inl exc \<Rightarrow> ServerError exc | Inr r \<Rightarrow> r)"
  using assms by (auto simp: starlette_app_def not_le split: option.splits prod.splits if_splits sum.splits)

lemma preserves_path_param [preserves_intros]: "(\<And>v. preserves P (f v)) \<Longrightarrow> preserves P (path_param params k f)"
  unfolding path_param_def by (intro preserves_intros)

lemma preserves_with_body [preserves_intros]: "(\<And>data. preserves P (f data)) \<Longrightarrow> preserves P (with_body app request f)"
  unfolding with_body_def by (auto split: sum.split intro: preserves_intros)

lemma preserves_guarded [preserves_intros]: "preserves P m \<Longrightarrow> preserves P (guarded status m)"
  unfolding guarded_def by (intro preserves_intros)

lemma preserves_with_parsed [preserves_intros]: "(\<And>x. preserves P (f x)) \<Longrightarrow> preserves P (with_parsed p f)"
  unfolding with_parsed_def by (auto split: parsed.split intro: preserves_intros)

lemma preserves_answer [preserves_intros]:
  "preserves P m \<Longrightarrow> preserves P (answer status ser m)" "preserves P m \<Longrightarrow> preserves P (answer_ok status m)"
  unfolding answer_def answer_ok_def by (intro preserves_intros; assumption)+

lemma preserves_prod [preserves_intros]: "(\<And>a b. preserves P (f a b)) \<Longrightarrow> preserves P (case x of (a, b) \<Rightarrow> f a b)"
  by (cases x) simp

lemma preserves_return_result: "preserves P (return_result r)"
  by (cases r) (simp_all add: preserves_def return_result_def)

lemmas handler_defs =
  post_runs_def get_run_def get_run_dashboard_def get_run_trace_def get_run_postmortem_def get_run_events_def
  post_run_signal_def post_run_cancel_def post_run_resume_def post_run_children_def get_run_children_def
  post_run_approval_def post_run_stage_open_def put_run_stage_state_def post_run_branches_def put_run_branch_state_def
  post_run_human_gates_def post_run_resolve_escalation_def post_run_task_views_def put_task_view_decision_def
  post_run_turn_def post_tasks_def http_get_task_status_def http_get_manifest_def get_health_liveness_def
  get_health_readiness_def http_get_action_state_def get_metrics_def get_openapi_def

text \<open>What the service relies on: every operation of the facade it calls keeps the invariant, whether it returns or raises.\<close>

locale facade_invariant =
  fixes cfg :: facade_config and pt :: "'g facade_ports" and P :: "'g facade \<Rightarrow> bool"
  assumes keeps_start: "preserves P (start_run cfg pt start_request)"
    and keeps_query: "preserves P (query_run pt run_id)"
    and keeps_dashboard: "preserves P (query_run_dashboard pt run_id)"
    and keeps_view: "preserves P (query_trace_runtime pt run_id)"
    and keeps_postmortem: "preserves P (query_run_postmortem pt run_id)"
    and keeps_stream: "preserves P (stream_run_events pt run_id diagnostic)"
    and keeps_signal: "preserves P (signal_run pt signal_request)"
    and keeps_cancel: "preserves P (cancel_run pt cancel_request)"
    and keeps_resume: "preserves P (resume_run pt resume_request)"
    and keeps_spawn: "preserves P (spawn_child_run pt spawn_request)"
    and keeps_children: "preserves P (query_child_runs pt run_id)"
    and keeps_approval: "preserves P (submit_approval cfg pt approval)"
    and keeps_open_stage: "preserves P (open_stage cfg pt stage_id run_id branch_id)"
    and keeps_mark_stage: "preserves P (mark_stage_state cfg pt run_id stage_id new_state failure_code)"
    and keeps_open_branch: "preserves P (open_branch cfg pt branch_request)"
    and keeps_mark_branch: "preserves P (mark_branch_state cfg pt update_request)"
    and keeps_touch: "preserves P (fa_modify (touch_run (fc_max_tracked_runs cfg) run_id))"
    and keeps_gate: "preserves P (open_human_gate cfg pt gate_request)"
    and keeps_escalation: "preserves P (resolve_escalation cfg pt run_id resolution_notes caused_by)"
    and keeps_record_view: "preserves P (record_task_view pt view_record)"
    and keeps_bind_view: "preserves P (bind_task_view_to_decision pt task_view_id decision_ref)"
    and keeps_register: "preserves P (facade_register_task pt descriptor)"
    and keeps_task_status: "preserves P (get_task_status pt task_id)"
    and keeps_action_state: "preserves P (get_action_state pt key)"
begin

lemma keeps_mark_branch_text: "preserves P (mark_branch_state_text cfg pt request failure_code)"
  unfolding mark_branch_state_text_def fa_read_def by (intro preserves_intros keeps_mark_branch keeps_touch)

lemmas keeps = keeps_start keeps_query keeps_dashboard keeps_view keeps_postmortem keeps_stream keeps_signal keeps_cancel
  keeps_resume keeps_spawn keeps_children keeps_approval keeps_open_stage keeps_mark_stage keeps_open_branch keeps_mark_branch_text
  keeps_gate keeps_escalation keeps_record_view keeps_bind_view keeps_register keeps_task_status keeps_action_state

lemma handler_keeps:
  assumes "ha_config app = cfg" "ha_ports app = pt" "preserves P (on_fst (ha_health_probe app))"
  shows
    "preserves P (post_runs app params request)" "preserves P (get_run app params request)"
    "preserves P (get_run_dashboard app params request)" "preserves P (get_run_trace app params request)"
    "preserves P (get_run_postmortem app params request)" "preserves P (get_run_events app params request)"
    "preserves P (post_run_signal app params request)" "preserves P (post_run_cancel app params request)"
    "preserves P (post_run_resume app params request)" "preserves P (post_run_children app params request)"
    "preserves P (get_run_children app params request)" "preserves P (post_run_approval app params request)"
    "preserves P (post_run_stage_open app params request)" "preserves P (put_run_stage_state app params request)"
    "preserves P (post_run_branches app params request)" "preserves P (put_run_branch_state app params request)"
    "preserves P (post_run_human_gates app params request)"
    "preserves P (post_run_resolve_escalation app params request)"
    "preserves P (post_run_task_views app params request)" "preserves P (put_task_view_decision app params request)"
    "preserves P (post_run_turn app params request)" "preserves P (post_tasks app params request)"
    "preserves P (http_get_task_status app params request)" "preserves P (http_get_manifest app params request)"
    "preserves P (get_health_liveness app params request)" "preserves P (get_health_readiness app params request)"
    "preserves P (http_get_action_state app params request)" "preserves P (get_metrics app params request)"
    "preserves P (get_openapi app params request)"
  unfolding handler_defs Let_def assms(1,2)
  by (intro preserves_intros preserves_return_result keeps assms(3))+

lemma handlers_keep:
  assumes "ha_config app = cfg" "ha_ports app = pt" "preserves P (on_fst (ha_health_probe app))"
  shows "\<forall>x \<in> set build_routes. preserves P (snd x app params request)"
  using handler_keeps [OF assms] by (simp add: build_routes_def)

text \<open>Any request, authorized or not and whatever the router makes of it.\<close>

lemma request_keeps:
  assumes "ha_config app = cfg" "ha_ports app = pt" "preserves P (on_fst (ha_health_probe app))"
    and "P st" "create_app router unmatched app request st = (st', response)"
  shows "P st'"
proof -
  have "P st'" if i: "i < length (build_routes :: (route \<times> 'g handler) list)"
    and run: "snd (build_routes ! i) app params request st = (st', res)" for i params res
  proof -
    have "build_routes ! i \<in> set (build_routes :: (route \<times> 'g handler) list)" using i by simp
    then have "preserves P (snd (build_routes ! i) app params request)"
      using handlers_keep [OF assms(1-3)] by blast
    then show ?thesis using assms(4) run by (rule preservesD)
  qed
  then show ?thesis using assms(4,5) by (auto simp: create_app_def elim!: starlette_appE split: if_splits)
qed

end

interpretation http_wf: facade_invariant cfg pt "wf_st (fc_max_tracked_runs cfg)" for cfg pt
  by unfold_locales
    (intro facade_steps_wf wf_touch wf_delegate preserves_bind preserves_pure
      | simp add: record_task_view_def bind_task_view_to_decision_def facade_register_task_def get_task_status_def)+

section \<open>Requests without the key\<close>

text \<open>
  What is used of Starlette's router: the route it selects is one of the table, and a path matches a
  template when both have the same segments, where a segment in braces matches any text and becomes
  a path parameter.
\<close>

fun path_segments :: "string \<Rightarrow> string list" where
  "path_segments [] = [[]]"
| "path_segments (c # cs) =
     (if c = CHR ''/'' then [] # path_segments cs
      else case path_segments cs of [] \<Rightarrow> [[c]] | s # ss \<Rightarrow> (c # s) # ss)"

definition segment_matches :: "path_params \<Rightarrow> string \<Rightarrow> string \<Rightarrow> bool" where
  "segment_matches params t p = (if startswith t ''{'' then dict_get params (butlast (tl t)) = Some p else p = t)"

definition template_matches :: "string \<Rightarrow> path_params \<Rightarrow> string \<Rightarrow> bool" where
  "template_matches t params p = list_all2 (segment_matches params) (path_segments t) (path_segments p)"

definition lawful_router :: "router \<Rightarrow> bool" where
  "lawful_router router \<longleftrightarrow> (\<forall>routes verb path i params. router routes verb path = Some (i, params) \<longrightarrow>
     i < length routes \<and> fst (routes ! i) = verb \<and> template_matches (snd (routes ! i)) params path)"

lemma lawful_routerD:
  "lawful_router router \<Longrightarrow> router routes verb path = Some (i, params) \<Longrightarrow>
     i < length routes \<and> fst (routes ! i) = verb \<and> template_matches (snd (routes ! i)) params path"
  by (simp add: lawful_router_def)

text \<open>The handlers of the exempt paths only read, apart from what the health probe does.\<close>

definition only_probes :: "'g handler \<Rightarrow> bool" where
  "only_probes h \<longleftrightarrow> (\<forall>app params request st. snd (fst (h app params request st)) = snd st \<and>
     (fst (fst (h app params request st)) = fst st \<or> fst (fst (h app params request st)) = fst (ha_health_probe app (fst st))))"

lemma only_probesD:
  "only_probes h \<Longrightarrow> h app params request (g, fa) = ((g', fa'), res) \<Longrightarrow> fa' = fa \<and> (g' = g \<or> g' = fst (ha_health_probe app g))"
  unfolding only_probes_def by (metis fst_conv snd_conv)

lemma exempt_handlers_read:
  "only_probes http_get_manifest" "only_probes get_health_liveness" "only_probes get_metrics" "only_probes get_openapi"
  by (simp_all add: only_probes_def http_get_manifest_def get_health_liveness_def get_metrics_def get_openapi_def return_act_def read_act_def)

lemma readiness_answer:
  "get_health_readiness app params request st =
     (case ha_health_probe app (fst st) of (g, r) \<Rightarrow> ((g, snd st), Inr (error_response 503 (case r of
        Inl e \<Rightarrow> exn_str e
      | Inr probe \<Rightarrow> (case facade_get_health (ha_substrate_type app) probe of
          Inl e \<Rightarrow> exn_str e | Inr _ \<Rightarrow> ''asdict() should be called on dataclass instances'')))))"
  by (auto simp: get_health_readiness_def guarded_def catch_act_def bind_act_def on_fst_def return_act_def return_result_def
      serialize_plain_dict_def split: prod.splits sum.splits)

lemma readiness_only_probes: "only_probes get_health_readiness"
  by (auto simp: only_probes_def readiness_answer split: prod.splits)

lemma exempt_path_routes:
  "\<forall>x \<in> set build_routes. \<forall>p \<in> set EXEMPT_PATHS. template_matches (snd (fst x)) params p \<longrightarrow> only_probes (snd x)"
  using exempt_handlers_read readiness_only_probes
  by (simp add: build_routes_def EXEMPT_PATHS_def template_matches_def segment_matches_def startswith_def)

text \<open>The readiness route never answers that the service is ready.\<close>

lemma readiness_always_unavailable:
  "\<exists>text. snd (get_health_readiness app params request st) = Inr (error_response 503 text)"
  by (auto simp: readiness_answer split: prod.splits)

end
