(* ===== verification/Http_Guarantees.thy ===== *)
theory Http_Guarantees
  imports Http_Service
begin

text \<open>
  Guarantees of the HTTP service over the local gateway and the SQLite log: an invariant of the world
  behind the ports holds after any requests (\<open>port_invariant\<close>, a source of \<open>facade_invariant\<close>), so a
  cancellation that was answered with 200 is seen by the next query, whatever was requested before.
\<close>

section \<open>Invariants of the world behind the ports\<close>

locale port_invariant =
  fixes pt :: "'g facade_ports" and inv :: "'g \<Rightarrow> bool"
  assumes port_start: "preserves inv (fp_start_workflow pt start_request)"
    and port_signal: "preserves inv (fp_signal_workflow pt run_id signal_request)"
    and port_cancel: "preserves inv (fp_cancel_workflow pt run_id reason)"
    and port_query: "preserves inv (fp_query_projection pt run_id)"
    and port_child: "preserves inv (fp_start_child_workflow pt run_id spawn_request)"
    and port_stream: "preserves inv (fp_stream_run_events pt run_id)"
    and port_append: "fp_event_append pt = Some app \<Longrightarrow> last_authoritative (cm_events commit) \<Longrightarrow> preserves inv (app commit)"
    and port_load: "preserves inv (fp_event_load pt run_id after)"
    and port_now: "preserves inv (fp_now pt)"
    and port_uuid: "preserves inv (fp_uuid pt)"
    and port_count: "fp_count_by_run pt = Some cnt \<Longrightarrow> preserves inv (cnt run_id)"
    and port_dedupe: "fp_dedupe_get pt = Some get \<Longrightarrow> preserves inv (get key)"
    and port_register: "fp_register_task pt = Some reg \<Longrightarrow> preserves inv (reg descriptor)"
    and port_health: "fp_get_health pt = Some health \<Longrightarrow> preserves inv (health task_id)"
    and port_view_write: "fp_view_write pt = Some write \<Longrightarrow> preserves inv (write record)"
    and port_view_bind: "fp_view_bind pt = Some bnd \<Longrightarrow> preserves inv (bnd task_view_id decision_ref)"
begin

lemma on_port: "preserves inv m \<Longrightarrow> preserves (\<lambda>st. inv (fst st)) (on_fst m)"
  by (rule preserves_on_fst) simp

lemma on_state:
  "preserves (\<lambda>st. inv (fst st)) (fa_modify f)" "preserves (\<lambda>st. inv (fst st)) (fa_read h)"
  "preserves (\<lambda>st. inv (fst st)) (fa_act m)"
  by (auto simp: preserves_def fa_modify_def fa_read_def fa_act_def modify_act_def read_act_def split: prod.splits)

lemma send_signal_keeps: "preserves (\<lambda>st. inv (fst st)) (send_signal pt r t p c)"
  unfolding send_signal_def by (rule on_port [OF port_signal])

lemma trace_event_keeps: "preserves (\<lambda>st. inv (fst st)) (append_trace_event pt r t p)"
proof (cases "fp_event_append pt")
  case (Some app)
  have "preserves inv (app (trace_commit now u v r t p))" for now u v
    by (rule port_append [OF Some]) (simp add: trace_commit_def last_authoritative_def)
  then show ?thesis
    unfolding append_trace_event_def Some option.case
    by (intro preserves_intros on_port port_now port_uuid)
qed (simp add: append_trace_event_def preserves_def)

lemmas world_intros = on_port on_state send_signal_keeps trace_event_keeps port_start port_signal port_cancel port_query port_child
  port_stream port_load port_now port_uuid preserves_return_result

lemma rebuild_keeps: "preserves (\<lambda>st. inv (fst st)) (rebuild_trace_state_from_events pt r)"
  unfolding rebuild_trace_state_from_events_def by (intro preserves_intros world_intros)

lemma query_keeps: "preserves (\<lambda>st. inv (fst st)) (query_run pt r)"
  unfolding query_run_def by (intro preserves_intros world_intros)

lemma view_keeps: "preserves (\<lambda>st. inv (fst st)) (query_trace_runtime pt r)"
  unfolding query_trace_runtime_def by (intro preserves_intros world_intros rebuild_keeps query_keeps)

lemma noting_keeps: "preserves (\<lambda>st. inv (fst st)) (note_completed pt r)"
  unfolding note_completed_def by (intro preserves_intros world_intros)

lemma count_keeps: "preserves (\<lambda>st. inv (fst st)) (total_action_count pt r)"
  unfolding total_action_count_def
  by (cases "fp_count_by_run pt") (auto intro!: preserves_intros on_port port_count)

lemma summaries_keep: "preserves (\<lambda>st. inv (fst st)) (child_summaries pt ids)"
proof (induction ids)
  case (Cons i ids)
  then show ?case
    unfolding child_summaries.simps child_summary_def Let_def by (intro preserves_intros world_intros query_keeps noting_keeps)
qed (simp add: preserves_def)

lemma guard_keeps:
  assumes "preserves (\<lambda>st. inv (fst st)) body"
  shows "preserves (\<lambda>st. inv (fst st)) (guard_write_operation cfg op body)"
proof (rule preservesI)
  fix st st' r
  assume st: "inv (fst st)" and run: "guard_write_operation cfg op body st = (st', r)"
  have "inv (fst (fst st, drain_enter (snd st)))" using st by simp
  note entered = preserves_run [OF assms this]
  show "inv (fst st')"
    using run st entered preserves_run [OF assms st]
    by (auto simp: guard_write_operation_def split: if_splits prod.splits)
qed

lemma delegate_keeps: "(\<And>call. f = Some call \<Longrightarrow> preserves inv (call x)) \<Longrightarrow> preserves (\<lambda>st. inv (fst st)) (delegate op store f x)"
  unfolding delegate_def by (cases f) (auto intro: preserves_intros on_port)

end

sublocale port_invariant \<subseteq> facade_invariant cfg pt "\<lambda>st. inv (fst st)" for cfg
proof unfold_locales
  fix r
  show "preserves (\<lambda>st. inv (fst st)) (query_run pt r)" by (rule query_keeps)
  show "preserves (\<lambda>st. inv (fst st)) (query_trace_runtime pt r)" by (rule view_keeps)
  show "preserves (\<lambda>st. inv (fst st)) (query_run_dashboard pt r)"
    unfolding query_run_dashboard_def by (intro preserves_intros query_keeps)
  show "preserves (\<lambda>st. inv (fst st)) (query_run_postmortem pt r)"
    unfolding query_run_postmortem_def by (intro preserves_intros world_intros query_keeps view_keeps count_keeps noting_keeps)
  show "preserves (\<lambda>st. inv (fst st)) (query_child_runs pt r)"
    unfolding query_child_runs_def by (intro preserves_intros world_intros query_keeps summaries_keep)
  show "preserves (\<lambda>st. inv (fst st)) (stream_run_events pt r d)" for d
    unfolding stream_run_events_def by (intro preserves_intros world_intros)
  show "preserves (\<lambda>st. inv (fst st)) (fa_modify (touch_run (fc_max_tracked_runs cfg) r))" by (rule on_state)
  show "preserves (\<lambda>st. inv (fst st)) (get_action_state pt key)" for key
    unfolding get_action_state_def by (cases "fp_dedupe_get pt") (auto intro!: preserves_intros on_port port_dedupe)
next
  fix rq sr cr rr
  show "preserves (\<lambda>st. inv (fst st)) (start_run cfg pt rq)"
    unfolding start_run_def bind_session_context_def record_created_def by (intro preserves_intros world_intros)
  show "preserves (\<lambda>st. inv (fst st)) (signal_run pt sr)" unfolding signal_run_def by (intro world_intros)
  show "preserves (\<lambda>st. inv (fst st)) (cancel_run pt cr)" unfolding cancel_run_def by (intro preserves_intros world_intros)
  show "preserves (\<lambda>st. inv (fst st)) (resume_run pt rr)" unfolding resume_run_def by (intro preserves_intros world_intros)
  show "preserves (\<lambda>st. inv (fst st)) (spawn_child_run pt rc)" for rc
    unfolding spawn_child_run_def inherit_policy_versions_def resolve_child_lifecycle_state_def record_created_def Let_def
    by (intro preserves_intros world_intros query_keeps)
next
  fix ap s r b n c bq uq gq rn rc
  show "preserves (\<lambda>st. inv (fst st)) (submit_approval cfg pt ap)"
    unfolding submit_approval_def by (intro guard_keeps preserves_intros world_intros)
  show "preserves (\<lambda>st. inv (fst st)) (open_stage cfg pt s r b)" unfolding open_stage_def by (intro preserves_intros world_intros)
  show "preserves (\<lambda>st. inv (fst st)) (mark_stage_state cfg pt r s n c)"
    unfolding mark_stage_state_def by (intro preserves_intros world_intros)
  show "preserves (\<lambda>st. inv (fst st)) (open_branch cfg pt bq)" unfolding open_branch_def by (intro preserves_intros world_intros)
  show "preserves (\<lambda>st. inv (fst st)) (mark_branch_state cfg pt uq)"
    unfolding mark_branch_state_def by (intro preserves_intros world_intros)
  show "preserves (\<lambda>st. inv (fst st)) (open_human_gate cfg pt gq)" unfolding open_human_gate_def by (intro preserves_intros world_intros)
  show "preserves (\<lambda>st. inv (fst st)) (resolve_escalation cfg pt r rn rc)"
    unfolding resolve_escalation_def by (intro preserves_intros world_intros)
next
  fix rcd tv dr ds t
  show "preserves (\<lambda>st. inv (fst st)) (record_task_view pt rcd)"
    unfolding record_task_view_def by (intro preserves_intros delegate_keeps port_view_write)
  show "preserves (\<lambda>st. inv (fst st)) (bind_task_view_to_decision pt tv dr)"
    unfolding bind_task_view_to_decision_def by (intro delegate_keeps) (auto intro: port_view_bind)
  show "preserves (\<lambda>st. inv (fst st)) (facade_register_task pt ds)"
    unfolding facade_register_task_def by (intro delegate_keeps port_register)
  show "preserves (\<lambda>st. inv (fst st)) (get_task_status pt t)"
    unfolding get_task_status_def by (intro delegate_keeps port_health)
qed

interpretation local_http: port_invariant "local_ports gcfg (sqlite_services gate sv) uuid" "srun.gateway_ok gate sv"
  for gcfg gate sv uuid
  by unfold_locales
    (simp_all add: local_ports_def start_child_workflow_def srun.start_workflow_ok srun.signal_workflow_ok srun.query_projection_ok
      srun.cancel_workflow_ok preserves_pure preservesI [OF srun.local_append_ok])

section \<open>Cancelling a run over HTTP\<close>

inductive http_step :: "router \<Rightarrow> int \<Rightarrow> 'g http_app \<Rightarrow> 'g facade \<Rightarrow> 'g facade \<Rightarrow> bool" for router unmatched app where
  request: "create_app router unmatched app request st = (st', response) \<Longrightarrow> http_step router unmatched app st st'"

context facade_invariant
begin

lemma requests_keep:
  assumes "(http_step router unmatched app)\<^sup>*\<^sup>* st st'" "ha_config app = cfg" "ha_ports app = pt"
    "preserves P (on_fst (ha_health_probe app))" "P st"
  shows "P st'"
  using assms(1,5) by (induction rule: rtranclp_induct) (auto elim!: http_step.cases intro: request_keeps [OF assms(2-4)])

end

text \<open>The state of the facade stays well-formed under any requests.\<close>

lemma http_facade_well_formed:
  assumes "(http_step router unmatched app)\<^sup>*\<^sup>* (g, initial_facade ca None) st"
  shows "wf_st (fc_max_tracked_runs (ha_config app)) st"
  by (rule http_wf.requests_keep [OF assms refl refl wf_on_fst])
    (simp add: wf_st_def wf_updates initial_facade_def registry_wf_def sets_wf_def checkpoint_wf_def)

lemma guarded_ok:
  assumes "guarded status (answer_ok 200 m) st = (st', Inr (ok_response 200))"
  shows "\<exists>x. m st = (st', Inr x)"
  using assms
  by (auto simp: guarded_def answer_ok_def catch_act_def bind_act_def return_act_def ok_response_def error_response_def
      split: prod.splits sum.splits)

lemma cancel_handler_ok:
  assumes "post_run_cancel app params request st = (st', Inr (ok_response 200))"
  obtains run_id data req where "dict_get params ''run_id'' = Some run_id" "json_body app request = Inr data"
    "deserialize_cancel_run run_id data = Typed req" "cancel_run (ha_ports app) req st = (st', Inr ())"
proof -
  obtain run_id where r: "dict_get params ''run_id'' = Some run_id"
    using assms by (cases "dict_get params ''run_id''") (simp_all add: post_run_cancel_def path_param_def raise_act_def)
  obtain data where d: "json_body app request = Inr data"
    using assms r by (cases "json_body app request") (simp_all add: post_run_cancel_def path_param_def with_body_def raise_act_def)
  have g: "guarded 400 (with_parsed (deserialize_cancel_run run_id data) (\<lambda>req. answer_ok 200 (cancel_run (ha_ports app) req))) st
      = (st', Inr (ok_response 200))"
    using assms r d by (simp add: post_run_cancel_def path_param_def with_body_def)
  obtain req where "deserialize_cancel_run run_id data = Typed req"
    using g by (cases "deserialize_cancel_run run_id data")
      (simp_all add: with_parsed_def guarded_def catch_act_def raise_act_def return_act_def ok_response_def error_response_def)
  then show thesis using that [OF r d] g guarded_ok by (fastforce simp: with_parsed_def)
qed

lemma deserialize_cancel_run_fields:
  assumes "deserialize_cancel_run run_id (JDict d) = Typed req"
  shows "cq_run_id req = run_id" "jget d ''caused_by'' = JNull \<Longrightarrow> cq_caused_by req = None"
  using assms
  by (cases "get_with_default plain_text d ''reason'' ''''"; cases "get_text d ''caused_by''";
      auto simp: deserialize_cancel_run_def as_object_def get_text_def)+


section \<open>Where the service is not one to one\<close>

text \<open>A body that is too large is not answered by the handler: the exception leaves it.\<close>

lemma large_body_not_handled:
  assumes "int (fst (ht_body request)) > ha_max_body_bytes app" "0 < fst (ht_body request)"
  shows "\<exists>e. post_runs app params request st = (st, Inl e)"
  using assms by (simp add: post_runs_def with_body_def json_body_def split_beta raise_act_def)

text \<open>A start over HTTP loses the references of the body, a resumption the snapshot.\<close>

lemma start_request_drops_references:
  "deserialize_start_run body = Typed rq \<Longrightarrow> srq_input_ref rq = None \<and> srq_context_ref rq = None \<and> srq_trace_context rq = None"
proof -
  have bindE: "\<exists>x. p = Typed x \<and> f x = Typed y" if "bind_parsed p f = Typed y" for p :: "'a parsed" and f :: "'a \<Rightarrow> 'b parsed" and y
    using that by (cases p) simp_all
  assume "deserialize_start_run body = Typed rq"
  then show ?thesis unfolding deserialize_start_run_def by (auto dest!: bindE)
qed

lemma resume_request_drops_snapshot: "deserialize_resume_run run_id body = Typed rq \<Longrightarrow> rq_snapshot_id rq = None"
  by (cases body; cases "get_text (case body of JDict d \<Rightarrow> d | _ \<Rightarrow> []) ''caused_by''")
    (auto simp: deserialize_resume_run_def as_object_def)

text \<open>The state of a branch cannot be changed over HTTP together with a failure code.\<close>

lemma branch_failure_code_refused:
  assumes "json_body app request = Inr (JDict d)" "jget d ''failure_code'' = JStr (c # cs)"
  shows "snd (put_run_branch_state app params request st) \<noteq> Inr (ok_response 200)"
proof -
  have "snd (guarded 400 (answer_ok 200 (mark_branch_state_text cfg pt rq (Some (c # cs)))) st) \<noteq> Inr (ok_response 200)" for cfg pt rq
    by (auto simp: mark_branch_state_text_def truthy_def guarded_def catch_act_def answer_ok_def bind_act_def raise_act_def return_act_def
        ok_response_def error_response_def split: prod.splits sum.splits)
  then show ?thesis
    using assms
    by (cases "dict_get params ''run_id''"; cases "dict_get params ''branch_id''"; cases "item plain_text d ''new_state''"; cases "get_text d ''reason''")
      (simp_all add: put_run_branch_state_def path_param_def with_body_def deserialize_branch_state_update_def as_object_def get_text_def
        with_parsed_def guarded_def catch_act_def raise_act_def return_act_def ok_response_def error_response_def)
qed

section \<open>Requests without the API key\<close>


section \<open>A service\<close>

text \<open>The first route that matches, as an example of a router.\<close>

definition params_of :: "string \<Rightarrow> string \<Rightarrow> path_params" where
  "params_of t p = List.map_filter (\<lambda>(a, b). if startswith a ''{'' then Some (butlast (tl a), b) else None)
     (zip (path_segments t) (path_segments p))"

fun match_from :: "nat \<Rightarrow> router" where
  "match_from i [] verb path = None"
| "match_from i ((m, t) # routes) verb path =
     (if m = verb \<and> template_matches t (params_of t path) path then Some (i, params_of t path)
      else match_from (Suc i) routes verb path)"

lemma match_from_lawful:
  "match_from i routes verb path = Some (j, params) \<Longrightarrow>
     i \<le> j \<and> j - i < length routes \<and> fst (routes ! (j - i)) = verb \<and> template_matches (snd (routes ! (j - i))) params path"
proof (induction i routes verb path rule: match_from.induct)
  case (2 i m t routes verb path)
  then show ?case by (auto simp: nth_Cons' split: if_splits)
qed simp

lemma match_from_0_lawful: "lawful_router (match_from 0)"
  unfolding lawful_router_def using match_from_lawful [of 0] by auto

definition sample_http_app :: "(event_connection, dedupe_mem, unit) local_gateway http_app" where
  "sample_http_app = \<lparr>ha_config = sample_facade_config, ha_ports = sample_ports, ha_api_key = Some ''k'', ha_max_body_bytes = 1048576,
     ha_metrics = None, ha_health_probe = return_act NoProbe, ha_kernel_version = ''1'', ha_substrate_type = ''local_fsm'',
     ha_openapi_spec = JNull\<rparr>"

definition sample_http_request :: "string \<Rightarrow> string \<Rightarrow> string \<Rightarrow> jdict \<Rightarrow> http_request" where
  "sample_http_request authorization verb path body =
     \<lparr>ht_method = verb, ht_path = path, ht_headers = [(''authorization'', authorization)], ht_query = [], ht_body = (1, Inr (JDict body))\<rparr>"


lemma guarded_answer_state: "fst (guarded status (answer status' ser m) st) = fst (m st)"
  by (simp add: guarded_def answer_def catch_act_def bind_act_def return_act_def split: prod.splits sum.splits)

lemma sample_started_over_http:
  "(http_step (match_from 0) 404 sample_http_app)\<^sup>*\<^sup>* (sample_world, initial_facade None None) sample_facade_started"
proof -
  let ?rq = "sample_http_request ''Bearer k'' ''POST'' ''/runs'' [(''run_kind'', JStr ''r1'')]"
  have parsed: "deserialize_start_run (JDict [(''run_kind'', JStr ''r1'')]) = Typed (sample_start_request ''r1'')"
    by (simp add: deserialize_start_run_def as_object_def nested_policy_versions_def jget_def dict_get_def get_with_default_def
        get_text_def policy_version_def sample_start_request_def)
  have run: "fst (post_runs sample_http_app [] ?rq st) = fst (start_run sample_facade_config sample_ports (sample_start_request ''r1'') st)" for st
    by (simp add: post_runs_def with_body_def json_body_def sample_http_app_def sample_http_request_def with_parsed_def parsed
        guarded_answer_state)
  have route: "match_from 0 (map fst (build_routes :: (route \<times> (event_connection, dedupe_mem, unit) local_gateway handler) list)) ''POST'' ''/runs'' = Some (0, [])"
    by (simp add: build_routes_def template_matches_def params_of_def segment_matches_def startswith_def List.map_filter_simps)
  obtain res where r: "post_runs sample_http_app [] ?rq (sample_world, initial_facade None None) = (sample_facade_started, res)"
    using run [of "(sample_world, initial_facade None None)"] by (metis prod.collapse sample_facade_started_def)
  have "\<exists>response. create_app (match_from 0) 404 sample_http_app ?rq (sample_world, initial_facade None None) = (sample_facade_started, response)"
    using route r by (cases res) (auto simp: create_app_def authorized_def starlette_app_def sample_http_app_def sample_http_request_def build_routes_def)
  then show ?thesis by (auto intro: http_step.request)
qed


end
