(* ===== verification/Reasoning.thy ===== *)
theory Reasoning
  imports Recovery_Gate Turn_Engine Admission Kernel_Effects
begin

text \<open>
  The cognitive services: the context port of \<^verbatim>\<open>kernel/cognitive/context_port.py\<close>, the gateways to
  language models of \<^verbatim>\<open>llm_gateway*.py\<close> with their retries, \<^verbatim>\<open>inference_activity.py\<close>, the parsers of
  \<^verbatim>\<open>output_parser.py\<close> and the loop of \<^verbatim>\<open>kernel/reasoning_loop.py\<close>.  The clients of the providers, the
  clock, fresh names and \<^verbatim>\<open>json.loads\<close> are arguments.
\<close>

section \<open>Context windows\<close>

text \<open>A tool definition is kept as the JSON object of its three fields.\<close>

definition tool_definition :: "string \<Rightarrow> string \<Rightarrow> json \<Rightarrow> json" where
  "tool_definition name description input_schema =
     JDict [(''name'', JStr name), (''description'', JStr description), (''input_schema'', input_schema)]"

definition tool_field :: "json \<Rightarrow> string \<Rightarrow> json" where
  "tool_field td k = (case td of JDict d \<Rightarrow> jget d k | _ \<Rightarrow> JNull)"

definition build_system_instructions :: "capability_snapshot \<Rightarrow> string" where
  "build_system_instructions snapshot = join [CHR 0x0A] (sn_feature_flags snapshot)"

definition build_tool_definitions :: "capability_snapshot \<Rightarrow> json list" where
  "build_tool_definitions snapshot =
     map (\<lambda>name. tool_definition name (''Tool binding: '' @ name) (JDict [(''type'', JStr ''object''), (''properties'', JDict [])]))
       (sn_tool_bindings snapshot)"

definition build_skill_definitions :: "capability_snapshot \<Rightarrow> json list" where
  "build_skill_definitions snapshot =
     map (\<lambda>ref. JDict [(''skill_id'', JStr ref), (''description'', JStr (''Skill binding: '' @ ref)), (''script_ids'', JList []),
       (''input_schema'', JNull)]) (sn_skill_bindings snapshot)"

definition assemble ::
  "capability_snapshot \<Rightarrow> runtime_event list \<Rightarrow> inference_config option \<Rightarrow> jdict option \<Rightarrow> context_window" where
  "assemble snapshot history inference_config recovery_context =
     \<lparr>cx_system_instructions = build_system_instructions snapshot,
      cx_tool_definitions = build_tool_definitions snapshot,
      cx_skill_definitions = build_skill_definitions snapshot,
      cx_history = map (\<lambda>e. [(''role'', JStr (event_authority_str (ev_event_authority e))), (''content'', JStr (ev_event_type e))]) history,
      cx_current_state = [(''projected_events'', JInt (int (length history)))],
      cx_memory_ref = None, cx_recovery_context = recovery_context, cx_inference_config = inference_config\<rparr>"

section \<open>Model output\<close>

record token_usage =
  tu_input_tokens :: int
  tu_output_tokens :: int
  tu_reasoning_tokens :: int

record tool_call =
  tc_id :: string
  tc_name :: string
  tc_arguments :: json

record model_output =
  mo_raw_text :: string
  mo_tool_calls :: "tool_call list"
  mo_finish_reason :: string
  mo_usage :: "(string, int) dict"
  mo_latency_ms :: int
  mo_token_usage :: "token_usage option"

definition token_counts :: "(int \<times> int) option \<Rightarrow> (string, int) dict \<times> token_usage option" where
  "token_counts counts =
     (case counts of
        None \<Rightarrow> ([], None)
      | Some (i, out) \<Rightarrow> ([(''input_tokens'', i), (''output_tokens'', out)],
          Some \<lparr>tu_input_tokens = i, tu_output_tokens = out, tu_reasoning_tokens = 0\<rparr>))"

definition estimate_tokens :: "(rat \<Rightarrow> string) \<Rightarrow> context_window \<Rightarrow> int" where
  "estimate_tokens float_repr context =
     max 1 (int (length (cx_system_instructions context) +
       sum_list (map (\<lambda>msg. sum_list (map (\<lambda>(_, v). length (py_str float_repr v)) msg)) (cx_history context))) div 4)"

definition echo_infer :: "(rat \<Rightarrow> string) \<Rightarrow> context_window \<Rightarrow> string \<Rightarrow> model_output" where
  "echo_infer float_repr context idempotency_key =
     (let (usage, tokens) = token_counts (Some (estimate_tokens float_repr context, 10))
      in case cx_tool_definitions context of
           first_tool # _ \<Rightarrow>
             \<lparr>mo_raw_text = '''',
              mo_tool_calls = [\<lparr>tc_id = ''echo-'' @ take 8 idempotency_key,
                tc_name = (case as_str (tool_field first_tool ''name'') of None \<Rightarrow> '''' | Some n \<Rightarrow> n), tc_arguments = JDict []\<rparr>],
              mo_finish_reason = ''tool_calls'', mo_usage = usage, mo_latency_ms = 0, mo_token_usage = tokens\<rparr>
         | [] \<Rightarrow>
             \<lparr>mo_raw_text = ''echo:'' @ idempotency_key, mo_tool_calls = [], mo_finish_reason = ''stop'', mo_usage = usage,
              mo_latency_ms = 0, mo_token_usage = tokens\<rparr>)"

section \<open>Retries on rate limits\<close>

text \<open>What a call of a provider raises: a rate limit with the wait the server asks for, another status, or anything else.\<close>

datatype llm_error =
    LLMRateLimitError string string "pyfloat option"
  | LLMProviderError string int string
  | OtherException exn

definition parse_retry_after :: "(string, string) dict option \<Rightarrow> pyfloat option" where
  "parse_retry_after headers =
     (case headers of
        None \<Rightarrow> None
      | Some hs \<Rightarrow>
          (case or_else (dict_get hs ''retry-after'') (dict_get hs ''Retry-After'') of
             None \<Rightarrow> None
           | Some raw \<Rightarrow> float_of_string raw))"

definition MAX_RETRIES :: nat where
  "MAX_RETRIES = 3"

definition RETRY_BASE_DELAY_S :: rat where
  "RETRY_BASE_DELAY_S = 1"

type_synonym ('w, 'r) llm_call = "'w \<Rightarrow> 'w \<times> (llm_error + 'r)"

text \<open>
  The world is paired with the delays slept so far.  \<^verbatim>\<open>asyncio.sleep\<close> raises for a delay that is not a
  number; an infinite delay, which never ends, is recorded like any other.  \<open>k\<close> is the number of attempts that are left after this one.
\<close>

fun retry_attempts ::
  "nat \<Rightarrow> rat \<Rightarrow> ('w, 'r) llm_call \<Rightarrow> 'w \<times> pyfloat list \<Rightarrow> ('w \<times> pyfloat list) \<times> (llm_error + 'r)" where
  "retry_attempts k backoff call (w, slept) =
     (case call w of
        (w', Inr r) \<Rightarrow> ((w', slept), Inr r)
      | (w', Inl (LLMRateLimitError provider message retry_after)) \<Rightarrow>
          (case k of
             0 \<Rightarrow> ((w', slept), Inl (LLMRateLimitError provider message retry_after))
           | Suc k' \<Rightarrow>
               (let delay = (case retry_after of None \<Rightarrow> PFin backoff | Some s \<Rightarrow> s)
                in if delay = PNaN
                   then ((w', slept), Inl (OtherException (ValueError ''Invalid delay: NaN (not a number)'')))
                   else retry_attempts k' (backoff * 2) call (w', slept @ [delay])))
      | (w', Inl e) \<Rightarrow> ((w', slept), Inl e))"

definition with_rate_limit_retry ::
  "('w, 'r) llm_call \<Rightarrow> 'w \<times> pyfloat list \<Rightarrow> ('w \<times> pyfloat list) \<times> (llm_error + 'r)" where
  "with_rate_limit_retry = retry_attempts (MAX_RETRIES - 1) RETRY_BASE_DELAY_S"

section \<open>The providers\<close>

text \<open>
  What the client of a provider does with the arguments of a call: it answers, or raises its rate limit
  error (with the headers of the response, if any), its status error, or something else.
\<close>

datatype 'r client_answer =
    Answered 'r
  | ClientRateLimit string "(string, string) dict option"
  | ClientStatus int string
  | ClientRaised exn

fun translate_answer :: "string \<Rightarrow> 'r client_answer \<Rightarrow> llm_error + 'r" where
  "translate_answer provider (Answered r) = Inr r"
| "translate_answer provider (ClientRateLimit message headers) = Inl (LLMRateLimitError provider message (parse_retry_after headers))"
| "translate_answer provider (ClientStatus status message) = Inl (LLMProviderError provider status message)"
| "translate_answer provider (ClientRaised e) = Inl (OtherException e)"

definition provider_call :: "string \<Rightarrow> (jdict \<Rightarrow> 'w \<Rightarrow> 'w \<times> 'r client_answer) \<Rightarrow> jdict \<Rightarrow> ('w, 'r) llm_call" where
  "provider_call provider client kwargs w = (case client kwargs w of (w', a) \<Rightarrow> (w', translate_answer provider a))"

definition user_message :: "string \<Rightarrow> json" where
  "user_message content = JDict [(''role'', JStr ''user''), (''content'', JStr content)]"

definition openai_build_messages :: "(rat \<Rightarrow> string) \<Rightarrow> context_window \<Rightarrow> json list" where
  "openai_build_messages float_repr context =
     (if cx_system_instructions context = [] then []
      else [JDict [(''role'', JStr ''system''), (''content'', JStr (cx_system_instructions context))]]) @
     map (\<lambda>m. user_message (py_str float_repr (JDict m))) (cx_history context)"

definition openai_build_tools :: "context_window \<Rightarrow> json list" where
  "openai_build_tools context =
     map (\<lambda>td. JDict [(''type'', JStr ''function''), (''function'', JDict [(''name'', tool_field td ''name''),
       (''description'', tool_field td ''description''), (''parameters'', tool_field td ''input_schema'')])]) (cx_tool_definitions context)"

definition openai_kwargs :: "(rat \<Rightarrow> string) \<Rightarrow> string option \<Rightarrow> context_window \<Rightarrow> inference_config \<Rightarrow> jdict" where
  "openai_kwargs float_repr model_ref context config =
     [(''model'', JStr (if truthy model_ref then the model_ref else ic_model_ref config)),
      (''messages'', JList (openai_build_messages float_repr context)),
      (''max_tokens'', JInt (tb_max_output (ic_token_budget config))), (''temperature'', JFloat (ic_temperature config))] @
     (if cx_tool_definitions context = [] then [] else [(''tools'', JList (openai_build_tools context))]) @
     (if ic_stop_sequences config = [] then [] else [(''stop'', JList (map JStr (ic_stop_sequences config)))])"

record openai_choice =
  oc_content :: "string option"
  oc_finish_reason :: "string option"
  oc_tool_calls :: "(string \<times> string \<times> string) list"

record openai_response =
  or_choices :: "openai_choice list"
  or_usage :: "(int \<times> int) option"

definition openai_finish_reason :: "string option \<Rightarrow> string" where
  "openai_finish_reason raw =
     (case raw of Some r \<Rightarrow> if r \<in> {''stop'', ''tool_calls'', ''length''} then r else ''stop'' | None \<Rightarrow> ''stop'')"

text \<open>Arguments that are not JSON become an empty object.\<close>

definition openai_normalise_response :: "(string \<Rightarrow> json result) \<Rightarrow> int \<Rightarrow> openai_response \<Rightarrow> model_output result" where
  "openai_normalise_response loads latency_ms response =
     (case or_choices response of
        [] \<Rightarrow> Inl (OtherError ''IndexError'' ''list index out of range'')
      | choice # _ \<Rightarrow>
          (let (usage, tokens) = token_counts (or_usage response)
           in Inr \<lparr>mo_raw_text = (case oc_content choice of None \<Rightarrow> '''' | Some t \<Rightarrow> t),
                   mo_tool_calls = map (\<lambda>(i, name, arguments). \<lparr>tc_id = i, tc_name = name,
                     tc_arguments = (case loads arguments of Inl _ \<Rightarrow> JDict [] | Inr v \<Rightarrow> v)\<rparr>) (oc_tool_calls choice),
                   mo_finish_reason = openai_finish_reason (oc_finish_reason choice),
                   mo_usage = usage, mo_latency_ms = latency_ms, mo_token_usage = tokens\<rparr>))"

definition normalised :: "('s \<times> (llm_error + 'r)) \<Rightarrow> ('r \<Rightarrow> model_output result) \<Rightarrow> 's \<times> (llm_error + model_output)" where
  "normalised answer conv =
     (case answer of
        (s, Inl e) \<Rightarrow> (s, Inl e)
      | (s, Inr r) \<Rightarrow> (s, case conv r of Inl e \<Rightarrow> Inl (OtherException e) | Inr m \<Rightarrow> Inr m))"

definition openai_infer ::
  "(rat \<Rightarrow> string) \<Rightarrow> (string \<Rightarrow> json result) \<Rightarrow> (jdict \<Rightarrow> 'w \<Rightarrow> 'w \<times> openai_response client_answer) \<Rightarrow> string option \<Rightarrow> int
     \<Rightarrow> context_window \<Rightarrow> inference_config \<Rightarrow> string \<Rightarrow> 'w \<times> pyfloat list \<Rightarrow> ('w \<times> pyfloat list) \<times> (llm_error + model_output)" where
  "openai_infer float_repr loads client model_ref latency_ms context config idempotency_key s =
     normalised (with_rate_limit_retry (provider_call ''openai'' client (openai_kwargs float_repr model_ref context config)) s)
       (openai_normalise_response loads latency_ms)"

definition anthropic_build_messages :: "(rat \<Rightarrow> string) \<Rightarrow> context_window \<Rightarrow> json list" where
  "anthropic_build_messages float_repr context =
     (if cx_history context = [] then [user_message ''Begin.'']
      else map (\<lambda>m. user_message (py_str float_repr (JDict m))) (cx_history context))"

definition anthropic_build_tools :: "context_window \<Rightarrow> json list" where
  "anthropic_build_tools context =
     map (\<lambda>td. JDict [(''name'', tool_field td ''name''), (''description'', tool_field td ''description''),
       (''input_schema'', tool_field td ''input_schema'')]) (cx_tool_definitions context)"

definition anthropic_options :: "context_window \<Rightarrow> jdict" where
  "anthropic_options context =
     (if cx_system_instructions context = [] then [] else [(''system'', JStr (cx_system_instructions context))]) @
     (if cx_tool_definitions context = [] then [] else [(''tools'', JList (anthropic_build_tools context))])"

definition anthropic_kwargs :: "(rat \<Rightarrow> string) \<Rightarrow> string option \<Rightarrow> context_window \<Rightarrow> inference_config \<Rightarrow> jdict" where
  "anthropic_kwargs float_repr model_ref context config =
     [(''model'', JStr (if truthy model_ref then the model_ref else ic_model_ref config)),
      (''messages'', JList (anthropic_build_messages float_repr context)),
      (''max_tokens'', JInt (tb_max_output (ic_token_budget config)))] @
     anthropic_options context @
     (if ic_temperature config = PFin 0 then [] else [(''temperature'', JFloat (ic_temperature config))])"

datatype anthropic_block = TextBlock string | ToolUseBlock string string json | OtherBlock

record anthropic_response =
  ar_content :: "anthropic_block list"
  ar_stop_reason :: "string option"
  ar_usage :: "(int \<times> int) option"

definition anthropic_finish_reason :: "string option \<Rightarrow> string" where
  "anthropic_finish_reason stop_reason =
     (if stop_reason = Some ''tool_use'' then ''tool_calls''
      else if stop_reason = Some ''max_tokens'' then ''length'' else ''stop'')"

definition anthropic_normalise_response :: "int \<Rightarrow> anthropic_response \<Rightarrow> model_output" where
  "anthropic_normalise_response latency_ms response =
     (let (usage, tokens) = token_counts (ar_usage response)
      in \<lparr>mo_raw_text = concat (map (\<lambda>b. case b of TextBlock t \<Rightarrow> t | _ \<Rightarrow> []) (ar_content response)),
          mo_tool_calls = List.map_filter (\<lambda>b. case b of
              ToolUseBlock i name input \<Rightarrow> Some \<lparr>tc_id = i, tc_name = name,
                tc_arguments = (case input of JDict _ \<Rightarrow> input | _ \<Rightarrow> JDict [])\<rparr>
            | _ \<Rightarrow> None) (ar_content response),
          mo_finish_reason = anthropic_finish_reason (ar_stop_reason response),
          mo_usage = usage, mo_latency_ms = latency_ms, mo_token_usage = tokens\<rparr>)"

definition anthropic_infer ::
  "(rat \<Rightarrow> string) \<Rightarrow> (jdict \<Rightarrow> 'w \<Rightarrow> 'w \<times> anthropic_response client_answer) \<Rightarrow> string option \<Rightarrow> int
     \<Rightarrow> context_window \<Rightarrow> inference_config \<Rightarrow> string \<Rightarrow> 'w \<times> pyfloat list \<Rightarrow> ('w \<times> pyfloat list) \<times> (llm_error + model_output)" where
  "anthropic_infer float_repr client model_ref latency_ms context config idempotency_key s =
     normalised (with_rate_limit_retry (provider_call ''anthropic'' client (anthropic_kwargs float_repr model_ref context config)) s)
       (\<lambda>r. Inr (anthropic_normalise_response latency_ms r))"

section \<open>Gateways from a configuration\<close>

record llm_gateway_config =
  lg_provider :: string
  lg_model :: string
  lg_api_key :: string
  lg_max_tokens :: int
  lg_timeout_s :: pyfloat
  lg_temperature :: pyfloat

definition env_required :: "(string, string) dict \<Rightarrow> string \<Rightarrow> string result" where
  "env_required env k = (case dict_get env k of None \<Rightarrow> Inl (KeyError k) | Some v \<Rightarrow> Inr v)"

definition env_int :: "(string, string) dict \<Rightarrow> string \<Rightarrow> int \<Rightarrow> int result" where
  "env_int env k dflt =
     (case dict_get env k of
        None \<Rightarrow> Inr dflt
      | Some s \<Rightarrow> (case int_of_string s of
          None \<Rightarrow> Inl (ValueError (''invalid literal for int() with base 10: '' @ repr_str s)) | Some i \<Rightarrow> Inr i))"

definition env_float :: "(string, string) dict \<Rightarrow> string \<Rightarrow> pyfloat \<Rightarrow> pyfloat result" where
  "env_float env k dflt =
     (case dict_get env k of
        None \<Rightarrow> Inr dflt
      | Some s \<Rightarrow> (case float_of_string s of
          None \<Rightarrow> Inl (ValueError (''could not convert string to float: '' @ repr_str s)) | Some x \<Rightarrow> Inr x))"

definition from_env :: "(string, string) dict \<Rightarrow> llm_gateway_config result" where
  "from_env env =
     bind_result (env_required env ''AGENT_KERNEL_LLM_PROVIDER'') (\<lambda>provider.
     bind_result (env_required env ''AGENT_KERNEL_LLM_MODEL'') (\<lambda>model.
     let api_key = or_else (dict_get env ''AGENT_KERNEL_LLM_API_KEY'')
           (if provider = ''anthropic'' then dict_get env ''ANTHROPIC_API_KEY'' else Some (dict_get_or env ''OPENAI_API_KEY'' ''''))
     in
     bind_result (env_int env ''AGENT_KERNEL_LLM_MAX_TOKENS'' 4096) (\<lambda>max_tokens.
     bind_result (env_float env ''AGENT_KERNEL_LLM_TIMEOUT_S'' (PFin 60)) (\<lambda>timeout_s.
     bind_result (env_float env ''AGENT_KERNEL_LLM_TEMPERATURE'' (PFin 0)) (\<lambda>temperature.
     Inr \<lparr>lg_provider = provider, lg_model = model, lg_api_key = (case api_key of None \<Rightarrow> '''' | Some k \<Rightarrow> k),
       lg_max_tokens = max_tokens, lg_timeout_s = timeout_s, lg_temperature = temperature\<rparr>)))))"

record 'w llm_gateway =
  lm_infer :: "context_window \<Rightarrow> inference_config \<Rightarrow> string \<Rightarrow> 'w \<times> pyfloat list \<Rightarrow> ('w \<times> pyfloat list) \<times> (llm_error + model_output)"
  lm_count_tokens :: "context_window \<Rightarrow> string \<Rightarrow> 'w \<times> pyfloat list \<Rightarrow> ('w \<times> pyfloat list) \<times> (llm_error + int)"

text \<open>
  The clients: the call of each provider, Anthropic's count, and \<^verbatim>\<open>tiktoken\<close>'s count of a text for a
  model, which is missing when the package is absent or does not know the model.
\<close>

record 'w llm_clients =
  lc_float_repr :: "rat \<Rightarrow> string"
  lc_loads :: "string \<Rightarrow> json result"
  lc_latency_ms :: int
  lc_openai :: "jdict \<Rightarrow> 'w \<Rightarrow> 'w \<times> openai_response client_answer"
  lc_anthropic :: "jdict \<Rightarrow> 'w \<Rightarrow> 'w \<times> anthropic_response client_answer"
  lc_anthropic_count :: "jdict \<Rightarrow> 'w \<Rightarrow> 'w \<times> int result"
  lc_tiktoken :: "string \<Rightarrow> string \<Rightarrow> nat option"

definition effective_model :: "llm_gateway_config \<Rightarrow> string \<Rightarrow> string" where
  "effective_model config model_ref = (if model_ref = [] then lg_model config else model_ref)"

definition openai_count_tokens ::
  "'w llm_clients \<Rightarrow> llm_gateway_config \<Rightarrow> context_window \<Rightarrow> string \<Rightarrow> 's \<Rightarrow> 's \<times> (llm_error + int)" where
  "openai_count_tokens clients config context model_ref s =
     (let text = cx_system_instructions context @
            concat (map (\<lambda>msg. join '' '' (map (\<lambda>(_, v). py_str (lc_float_repr clients) v) msg)) (cx_history context))
      in (s, Inr (case lc_tiktoken clients (effective_model config model_ref) text of
           None \<Rightarrow> estimate_tokens (lc_float_repr clients) context
         | Some n \<Rightarrow> max 1 (int n))))"

definition anthropic_count_tokens ::
  "'w llm_clients \<Rightarrow> llm_gateway_config \<Rightarrow> context_window \<Rightarrow> string \<Rightarrow> 'w \<times> pyfloat list \<Rightarrow> ('w \<times> pyfloat list) \<times> (llm_error + int)" where
  "anthropic_count_tokens clients config context model_ref s =
     (case lc_anthropic_count clients ([(''model'', JStr (effective_model config model_ref)),
          (''messages'', JList (anthropic_build_messages (lc_float_repr clients) context))] @ anthropic_options context) (fst s) of
        (w, Inr n) \<Rightarrow> ((w, snd s), Inr n)
      | (w, Inl _) \<Rightarrow> ((w, snd s), Inr (estimate_tokens (lc_float_repr clients) context)))"

definition create_llm_gateway :: "'w llm_clients \<Rightarrow> llm_gateway_config \<Rightarrow> 'w llm_gateway result" where
  "create_llm_gateway clients config =
     (if lg_provider config = ''anthropic''
      then Inr \<lparr>lm_infer = anthropic_infer (lc_float_repr clients) (lc_anthropic clients) (Some (lg_model config)) (lc_latency_ms clients),
                lm_count_tokens = anthropic_count_tokens clients config\<rparr>
      else if lg_provider config = ''openai''
      then Inr \<lparr>lm_infer = openai_infer (lc_float_repr clients) (lc_loads clients) (lc_openai clients) (Some (lg_model config)) (lc_latency_ms clients),
                lm_count_tokens = openai_count_tokens clients config\<rparr>
      else Inl (ValueError (''Unknown LLM provider: '' @ repr_str (lg_provider config))))"

definition EchoLLMGateway :: "(rat \<Rightarrow> string) \<Rightarrow> 'w llm_gateway" where
  "EchoLLMGateway float_repr =
     \<lparr>lm_infer = (\<lambda>context config idempotency_key s. (s, Inr (echo_infer float_repr context idempotency_key))),
      lm_count_tokens = (\<lambda>context model_ref s. (s, Inr (estimate_tokens float_repr context)))\<rparr>"

record inference_activity_input =
  ii_run_id :: string
  ii_turn_id :: string
  ii_context_window :: context_window
  ii_config :: inference_config
  ii_idempotency_key :: string

text \<open>An estimate over the budget is only logged.\<close>

definition execute_inference ::
  "inference_activity_input \<Rightarrow> 'w llm_gateway \<Rightarrow> 'w \<times> pyfloat list \<Rightarrow> ('w \<times> pyfloat list) \<times> (llm_error + model_output)" where
  "execute_inference i gateway s =
     (case lm_count_tokens gateway (ii_context_window i) (ic_model_ref (ii_config i)) s of
        (s', Inl e) \<Rightarrow> (s', Inl e)
      | (s', Inr _) \<Rightarrow> lm_infer gateway (ii_context_window i) (ii_config i) (ii_idempotency_key i) s')"

section \<open>Parsers\<close>

type_synonym 'w output_parser = "model_output \<Rightarrow> string \<Rightarrow> 'w \<Rightarrow> 'w \<times> action list parsed"

definition new_action :: "string \<Rightarrow> string \<Rightarrow> string \<Rightarrow> effect_class \<Rightarrow> jdict option \<Rightarrow> action" where
  "new_action action_id run_id action_type effect_class input_json =
     \<lparr>act_action_id = action_id, act_run_id = run_id, act_action_type = action_type, act_effect_class = effect_class,
      act_external_idempotency_level = None, act_interaction_target = None, act_input_ref = None, act_input_json = input_json,
      act_policy_tags = [], act_timeout_ms = None, act_side_effect_class = None\<rparr>"

text \<open>\<open>uuid\<close> gives a fresh name.\<close>

definition resolve_action_id :: "('w \<Rightarrow> 'w \<times> string) \<Rightarrow> string \<Rightarrow> 'w \<Rightarrow> 'w \<times> string" where
  "resolve_action_id uuid raw_id w =
     (if raw_id \<noteq> [] then (w, ''act-'' @ raw_id) else case uuid w of (w', u) \<Rightarrow> (w', ''act-'' @ u))"

definition tool_action :: "(string, effect_class) dict \<Rightarrow> string \<Rightarrow> string \<Rightarrow> tool_call \<Rightarrow> action" where
  "tool_action effect_map run_id action_id tc =
     new_action action_id run_id (tc_name tc) (dict_get_or effect_map (tc_name tc) READ_ONLY) (as_dict (tc_arguments tc))"

fun tool_actions :: "(string, effect_class) dict \<Rightarrow> ('w \<Rightarrow> 'w \<times> string) \<Rightarrow> string \<Rightarrow> tool_call list \<Rightarrow> 'w \<Rightarrow> 'w \<times> action list" where
  "tool_actions effect_map uuid run_id [] w = (w, [])"
| "tool_actions effect_map uuid run_id (tc # tcs) w =
     (case resolve_action_id uuid (tc_id tc) w of (w1, action_id) \<Rightarrow>
      case tool_actions effect_map uuid run_id tcs w1 of (w2, actions) \<Rightarrow>
        (w2, tool_action effect_map run_id action_id tc # actions))"

definition tool_call_parse :: "(string, effect_class) dict \<Rightarrow> ('w \<Rightarrow> 'w \<times> string) \<Rightarrow> 'w output_parser" where
  "tool_call_parse effect_map uuid output run_id w =
     (case tool_actions effect_map uuid run_id (mo_tool_calls output) w of (w', actions) \<Rightarrow> (w', Typed actions))"

definition valid_effect_classes :: "(string \<times> effect_class) list" where
  "valid_effect_classes = map (\<lambda>c. (effect_class_str c, c)) [READ_ONLY, IDEMPOTENT_WRITE, COMPENSATABLE_WRITE, IRREVERSIBLE_WRITE]"

definition valid_interaction_targets :: "(string \<times> interaction_target) list" where
  "valid_interaction_targets = [(''agent_peer'', Agent_peer), (''it_service'', It_service), (''data_system'', Data_system),
     (''tool_executor'', Tool_executor), (''human_actor'', Human_actor), (''event_stream'', Event_stream)]"

text \<open>\<^verbatim>\<open>v in frozenset(...)\<close>: a list or a dictionary cannot be hashed.\<close>

definition member_of :: "(string \<times> 'a) list \<Rightarrow> json \<Rightarrow> 'a option parsed" where
  "member_of valid v =
     (case v of
        JStr s \<Rightarrow> Typed (map_of valid s)
      | JList _ \<Rightarrow> Raises (TypeError (''unhashable type: '' @ repr_str ''list''))
      | JDict _ \<Rightarrow> Raises (TypeError (''unhashable type: '' @ repr_str ''dict''))
      | _ \<Rightarrow> Typed None)"

text \<open>\<^verbatim>\<open>True\<close> is an \<^verbatim>\<open>int\<close>.\<close>

definition positive_timeout :: "json \<Rightarrow> int option" where
  "positive_timeout v = (case v of JInt t \<Rightarrow> if 0 < t then Some t else None | JBool b \<Rightarrow> if b then Some 1 else None | _ \<Rightarrow> None)"

definition item_action_id :: "('w \<Rightarrow> 'w \<times> string) \<Rightarrow> json \<Rightarrow> 'w \<Rightarrow> 'w \<times> string parsed" where
  "item_action_id uuid v w =
     (if py_bool v then (w, case v of JStr s \<Rightarrow> Typed s | _ \<Rightarrow> Untyped ''action_id'')
      else case uuid w of (w', u) \<Rightarrow> (w', Typed (''act-'' @ u)))"

definition parse_item :: "('w \<Rightarrow> 'w \<times> string) \<Rightarrow> json \<Rightarrow> string \<Rightarrow> 'w \<Rightarrow> 'w \<times> action option parsed" where
  "parse_item uuid item run_id w =
     (case item of
        JDict d \<Rightarrow>
          (case jget d ''action_type'' of
             JStr action_type \<Rightarrow>
               if action_type = [] then (w, Typed None)
               else
                 (case member_of valid_effect_classes (jget d ''effect_class'') of
                    Typed (Some effect_class) \<Rightarrow>
                      (case member_of valid_interaction_targets (jget d ''interaction_target'') of
                         Typed interaction_target \<Rightarrow>
                           (case item_action_id uuid (jget d ''action_id'') w of (w', r) \<Rightarrow>
                             (w', bind_parsed r (\<lambda>action_id. Typed (Some
                               ((new_action action_id run_id action_type effect_class (as_dict (jget d ''input_json'')))
                                 \<lparr>act_interaction_target := interaction_target, act_timeout_ms := positive_timeout (jget d ''timeout_ms'')\<rparr>)))))
                       | Raises e \<Rightarrow> (w, Raises e)
                       | Untyped k \<Rightarrow> (w, Untyped k))
                  | Typed None \<Rightarrow> (w, Typed None)
                  | Raises e \<Rightarrow> (w, Raises e)
                  | Untyped k \<Rightarrow> (w, Untyped k))
           | _ \<Rightarrow> (w, Typed None))
      | _ \<Rightarrow> (w, Typed None))"

fun parse_items :: "('w \<Rightarrow> 'w \<times> string) \<Rightarrow> string \<Rightarrow> json list \<Rightarrow> 'w \<Rightarrow> 'w \<times> action list parsed" where
  "parse_items uuid run_id [] w = (w, Typed [])"
| "parse_items uuid run_id (item # items) w =
     (case parse_item uuid item run_id w of
        (w1, Typed a) \<Rightarrow>
          (case parse_items uuid run_id items w1 of (w2, r) \<Rightarrow>
             (w2, bind_parsed r (\<lambda>actions. Typed (case a of None \<Rightarrow> actions | Some x \<Rightarrow> x # actions))))
      | (w1, Raises e) \<Rightarrow> (w1, Raises e)
      | (w1, Untyped k) \<Rightarrow> (w1, Untyped k))"

definition json_mode_parse :: "(string \<Rightarrow> json result) \<Rightarrow> ('w \<Rightarrow> 'w \<times> string) \<Rightarrow> 'w output_parser" where
  "json_mode_parse loads uuid output run_id w =
     (let raw = strip (mo_raw_text output)
      in if raw = [] then (w, Typed [])
         else case loads raw of
                Inl e \<Rightarrow> (w, if exn_name e = ''JSONDecodeError'' then Typed [] else Raises e)
              | Inr (JList items) \<Rightarrow> parse_items uuid run_id items w
              | Inr _ \<Rightarrow> (w, Typed []))"

section \<open>The loop\<close>

record reasoning_result =
  rr_actions :: "action list"
  rr_model_output :: model_output
  rr_context_window :: context_window
  rr_inference_config :: inference_config

datatype reasoning_end = Reasoned reasoning_result | InferenceRaised llm_error | ParserRaised exn | ParserUntyped string

text \<open>The call of the observability hook is suppressed when it raises and is left out.\<close>

definition run_once ::
  "('w \<Rightarrow> 'w \<times> string) \<Rightarrow> 'w llm_gateway \<Rightarrow> 'w output_parser \<Rightarrow> string \<Rightarrow> capability_snapshot \<Rightarrow> runtime_event list \<Rightarrow> inference_config
     \<Rightarrow> jdict option \<Rightarrow> string option \<Rightarrow> context_window option \<Rightarrow> 'w \<times> pyfloat list \<Rightarrow> ('w \<times> pyfloat list) \<times> reasoning_end" where
  "run_once uuid gateway parser run_id snapshot history inference_config recovery_context idempotency_key prebuilt_context s =
     (let (s1, key) = (if truthy idempotency_key then (s, the idempotency_key) else case uuid (fst s) of (w, u) \<Rightarrow> ((w, snd s), u));
          context = (case prebuilt_context of None \<Rightarrow> assemble snapshot history (Some inference_config) recovery_context | Some c \<Rightarrow> c)
      in case lm_infer gateway context inference_config key s1 of
           (s2, Inl e) \<Rightarrow> (s2, InferenceRaised e)
         | (s2, Inr output) \<Rightarrow>
             (case parser output run_id (fst s2) of
                (w3, Typed actions) \<Rightarrow> ((w3, snd s2), Reasoned \<lparr>rr_actions = actions, rr_model_output = output, rr_context_window = context,
                  rr_inference_config = inference_config\<rparr>)
              | (w3, Raises e) \<Rightarrow> ((w3, snd s2), ParserRaised e)
              | (w3, Untyped k) \<Rightarrow> ((w3, snd s2), ParserUntyped k)))"

section \<open>The gate's reasoning loop\<close>

fun llm_exn :: "llm_error \<Rightarrow> exn" where
  "llm_exn (LLMRateLimitError provider message _) = OtherError ''LLMRateLimitError'' (''['' @ provider @ ''] HTTP 429: '' @ message)"
| "llm_exn (LLMProviderError provider status message) = OtherError ''LLMProviderError'' (''['' @ provider @ ''] HTTP '' @ show_int status @ '': '' @ message)"
| "llm_exn (OtherException e) = e"

text \<open>The loop as the recovery gate calls it: no history, a context of the gate and a key.\<close>

definition gate_loop :: "('w \<Rightarrow> 'w \<times> string) \<Rightarrow> 'w llm_gateway \<Rightarrow> (string, effect_class) dict \<Rightarrow> ('w \<times> pyfloat list) reasoning_loop" where
  "gate_loop uuid gateway effect_map env run_id snap history config context key =
     (case run_once uuid gateway (tool_call_parse effect_map uuid) run_id snap [] config None (Some key) (Some context) env of
        (env', Reasoned r) \<Rightarrow> (env', Inr (rr_actions r))
      | (env', InferenceRaised e) \<Rightarrow> (env', Inl (llm_exn e))
      | (env', ParserRaised e) \<Rightarrow> (env', Inl e)
      | (env', ParserUntyped k) \<Rightarrow> (env', Inl (OtherError ''Untyped'' k)))"

section \<open>Retries\<close>

fun world_after :: "('w, 'r) llm_call \<Rightarrow> nat \<Rightarrow> 'w \<Rightarrow> 'w" where
  "world_after call 0 w = w"
| "world_after call (Suc n) w = world_after call n (fst (call w))"

definition rate_limited :: "llm_error + 'r \<Rightarrow> bool" where
  "rate_limited r = (case r of Inl (LLMRateLimitError _ _ _) \<Rightarrow> True | _ \<Rightarrow> False)"

text \<open>The delay after attempt \<open>i\<close> whose answer was \<open>r\<close>.\<close>

definition delay_after :: "rat \<Rightarrow> nat \<Rightarrow> llm_error + 'r \<Rightarrow> pyfloat" where
  "delay_after backoff i r = (case r of Inl (LLMRateLimitError _ _ (Some s)) \<Rightarrow> s | _ \<Rightarrow> PFin (backoff * 2 ^ i))"

definition retry_spec :: "nat \<Rightarrow> rat \<Rightarrow> ('w, 'r) llm_call \<Rightarrow> 'w \<Rightarrow> nat \<Rightarrow> 'w \<Rightarrow> pyfloat list \<Rightarrow> llm_error + 'r \<Rightarrow> bool" where
  "retry_spec k backoff call w n w' delays r \<longleftrightarrow>
     (let ans = (\<lambda>i. snd (call (world_after call i w)))
      in n \<le> k \<and> w' = world_after call (Suc n) w \<and> delays = map (\<lambda>i. delay_after backoff i (ans i)) [0..<n]
         \<and> (\<forall>i<n. rate_limited (ans i))
         \<and> (r = ans n \<and> (rate_limited r \<longrightarrow> n = k)
            \<or> r = Inl (OtherException (ValueError ''Invalid delay: NaN (not a number)'')) \<and> n < k
              \<and> rate_limited (ans n) \<and> delay_after backoff n (ans n) = PNaN))"

lemma retry_spec_Suc:
  assumes "retry_spec k (backoff * 2) call (fst (call w)) n w' delays r" "rate_limited (snd (call w))"
  shows "retry_spec (Suc k) backoff call w (Suc n) w' (delay_after backoff 0 (snd (call w)) # delays) r"
proof -
  have shift: "delay_after (backoff * 2) i a = delay_after backoff (Suc i) a" for i and a :: "llm_error + 'b"
    by (simp add: delay_after_def mult.assoc split: sum.splits llm_error.splits option.splits)
  have split: "map f [0..<Suc n] = f 0 # map (\<lambda>i. f (Suc i)) [0..<n]" for f :: "nat \<Rightarrow> pyfloat" by (simp add: upt_conv_Cons map_Suc_upt [symmetric] del: upt_Suc)
  show ?thesis using assms by (auto simp: retry_spec_def Let_def shift split less_Suc_eq_0_disj simp del: upt_Suc)
qed

lemma retry_attempts_spec:
  "retry_attempts k backoff call (w, slept) = ((w', slept'), r) \<Longrightarrow>
     \<exists>n delays. slept' = slept @ delays \<and> retry_spec k backoff call w n w' delays r"
proof (induction k arbitrary: backoff w slept)
  case 0
  obtain w1 a where c: "call w = (w1, a)" by fastforce
  have "slept' = slept \<and> w' = w1 \<and> r = a"
    using 0 c by (cases a) (auto split: llm_error.splits)
  then show ?case using c by (intro exI [of _ 0] exI [of _ "[]"]) (simp add: retry_spec_def)
next
  case (Suc k)
  obtain w1 a where c: "call w = (w1, a)" by fastforce
  show ?case
  proof (cases "rate_limited a")
    case False
    then have "slept' = slept \<and> w' = w1 \<and> r = a"
      using Suc.prems c by (cases a) (auto simp: rate_limited_def split: llm_error.splits)
    then show ?thesis using c False by (intro exI [of _ 0] exI [of _ "[]"]) (simp add: retry_spec_def)
  next
    case True
    then obtain p m ra where a: "a = Inl (LLMRateLimitError p m ra)" by (auto simp: rate_limited_def split: sum.splits llm_error.splits)
    define delay where "delay = delay_after backoff 0 a"
    have delay: "(case ra of None \<Rightarrow> PFin backoff | Some s \<Rightarrow> s) = delay" by (simp add: delay_def delay_after_def a split: option.split)
    show ?thesis
    proof (cases "delay = PNaN")
      case nan: True
      then have "slept' = slept \<and> w' = w1 \<and> r = Inl (OtherException (ValueError ''Invalid delay: NaN (not a number)''))"
        using Suc.prems c delay by (simp add: a)
      then show ?thesis using c True nan by (intro exI [of _ 0] exI [of _ "[]"]) (simp add: retry_spec_def delay_def)
    next
      case False
      then have "retry_attempts k (backoff * 2) call (w1, slept @ [delay]) = ((w', slept'), r)"
        using Suc.prems c delay by (simp add: a)
      from Suc.IH [OF this] obtain n delays where n: "slept' = (slept @ [delay]) @ delays"
        "retry_spec k (backoff * 2) call w1 n w' delays r" by blast
      have "retry_spec (Suc k) backoff call w (Suc n) w' (delay # delays) r"
        using retry_spec_Suc [of k backoff call w n w' delays r] n(2) c True by (simp add: delay_def)
      then show ?thesis using n(1) by (intro exI [of _ "Suc n"] exI [of _ "delay # delays"]) simp
    qed
  qed
qed

text \<open>
  C27 (bounds): retries on rate limits.  Whatever the provider answers, it is called one to three times,
  and only an answer with status 429 leads to another call; before the second and the third call the
  gateway sleeps as long as the server asked, or one and two seconds; the answer of the last call is
  the result, so a rate limit is raised only after three calls, unless the server asks for a wait that
  is not a number.
\<close>

theorem rate_limit_retries_bounded:
  assumes "with_rate_limit_retry call (w, slept) = ((w', slept'), r)"
  shows "\<exists>n delays. n \<le> 2 \<and> slept' = slept @ delays \<and> w' = world_after call (Suc n) w
    \<and> delays = map (\<lambda>i. delay_after 1 i (snd (call (world_after call i w)))) [0..<n]
    \<and> (\<forall>i<n. rate_limited (snd (call (world_after call i w))))
    \<and> (r = snd (call (world_after call n w)) \<and> (rate_limited r \<longrightarrow> n = 2)
       \<or> r = Inl (OtherException (ValueError ''Invalid delay: NaN (not a number)''))
         \<and> delay_after 1 n (snd (call (world_after call n w))) = PNaN)"
  using retry_attempts_spec [of 2 1 call w slept w' slept' r] assms
  by (auto simp: with_rate_limit_retry_def MAX_RETRIES_def RETRY_BASE_DELAY_S_def retry_spec_def Let_def)

text \<open>A provider that is busy twice and then answers.\<close>

definition busy_provider :: "(nat, nat) llm_call" where
  "busy_provider w = (Suc w, if w < 2 then Inl (LLMRateLimitError ''openai'' ''busy'' (if w = 0 then Some (PFin 7) else None)) else Inr w)"

theorem rate_limit_retries_bounded_witness:
  "with_rate_limit_retry busy_provider (0, []) = ((3, [PFin 7, PFin 2]), Inr 2) \<and>
   (\<exists>n. n \<le> 2 \<and> 3 = world_after busy_provider (Suc n) 0)"
proof -
  have run: "with_rate_limit_retry busy_provider (0, []) = ((3, [PFin 7, PFin 2]), Inr 2)"
    by (simp add: with_rate_limit_retry_def MAX_RETRIES_def RETRY_BASE_DELAY_S_def busy_provider_def numeral_2_eq_2)
  from rate_limit_retries_bounded [OF run] run show ?thesis by blast
qed

section \<open>Actions of the model\<close>

lemma tool_actions_of_run:
  "tool_actions effect_map uuid run_id tcs w = (w', actions) \<Longrightarrow> a \<in> set actions \<Longrightarrow>
     act_run_id a = run_id \<and> startswith (act_action_id a) ''act-'' \<and> act_effect_class a = dict_get_or effect_map (act_action_type a) READ_ONLY
     \<and> (\<exists>tc \<in> set tcs. act_action_type a = tc_name tc \<and> act_input_json a = as_dict (tc_arguments tc))"
proof (induction tcs arbitrary: w w' actions)
  case (Cons tc tcs)
  obtain w1 i where i: "resolve_action_id uuid (tc_id tc) w = (w1, i)" by fastforce
  obtain as where as: "tool_actions effect_map uuid run_id tcs w1 = (w', as)" "actions = tool_action effect_map run_id i tc # as"
    using Cons.prems(1) i by (auto split: prod.splits)
  have "startswith i ''act-''" using i by (auto simp: resolve_action_id_def startswith_def split: if_splits prod.splits)
  then show ?case using Cons.IH [OF as(1)] Cons.prems(2) as(2) by (auto simp: tool_action_def new_action_def)
qed simp

lemma gate_loop_actions:
  assumes "gate_loop uuid gateway effect_map env run_id snap history config context key = (env', Inr actions)" "a \<in> set actions"
  shows "act_run_id a = run_id \<and> startswith (act_action_id a) ''act-'' \<and> act_effect_class a = dict_get_or effect_map (act_action_type a) READ_ONLY"
proof -
  obtain tcs w w' where "tool_actions effect_map uuid run_id tcs w = (w', actions)"
    using assms(1)
    by (auto simp: gate_loop_def run_once_def tool_call_parse_def Let_def split: prod.splits sum.splits if_splits reasoning_end.splits)
  from tool_actions_of_run [OF this assms(2)] show ?thesis by blast
qed

lemma reflected_action:
  assumes "decide_reflect_and_retry g x reason env = (env', Inr d)" "rd_mode d = ''reflect_and_retry''" "rg_reasoning_loop g = Some loop"
  shows "\<exists>snap config ctx key a as. loop env (ri_run_id x) snap [] config ctx key = (env', Inr (a # as))
    \<and> rd_corrected_action d = Some a \<and> rd_run_id d = ri_run_id x"
proof -
  have fb: "rd_mode (fallback_decision p x reason) \<noteq> ''reflect_and_retry''" for p
    by (simp add: fallback_decision_def RecoveryDecision_def)
  obtain policy build where some: "rg_reflection_policy g = Some policy" "rg_reflection_builder g = Some build"
    using assms(1,3) by (auto simp: decide_reflect_and_retry_def split: option.splits)
  obtain snap config ctx key r where run: "loop env (ri_run_id x) snap [] config ctx key = (env', r)"
    and d: "d = (case r of Inl e \<Rightarrow> fallback_decision policy x reason | Inr [] \<Rightarrow> fallback_decision policy x reason
      | Inr (a # as) \<Rightarrow> (RecoveryDecision (ri_run_id x) ''reflect_and_retry''
          (reason @ '':reflect_and_retry:round='' @ show_int (ri_reflection_round x + 1)))\<lparr>rd_corrected_action := Some a\<rparr>)"
    using assms(1,3) some unfolding decide_reflect_and_retry_def Let_def
    by (simp split: sum.splits prod.splits)
  obtain a as where r: "r = Inr (a # as)"
    using d fb assms(2) by (cases r) (auto split: list.splits)
  then have "rd_corrected_action d = Some a" "rd_run_id d = ri_run_id x" using d by (simp_all add: RecoveryDecision_def)
  then show ?thesis using run unfolding r by blast
qed

text \<open>
  C26 (safety): reflection.  A gate that reflects with a language model behind the tool-call parser:
  whatever the model answers, a decision to retry carries an action of the run that failed, and its
  effect class is the one configured for its tool, read-only for an unknown tool; the model cannot
  choose it.
\<close>

theorem corrected_action_of_run:
  assumes "rg_reasoning_loop g = Some (gate_loop uuid gateway effect_map)" "rg_modes g = KERNEL_RECOVERY_MODE_REGISTRY"
    and "decide g failing_action t t' x st = (st', Inr d)" "rd_mode d = ''reflect_and_retry''"
  shows "\<exists>a. rd_corrected_action d = Some a \<and> act_run_id a = ri_run_id x \<and> rd_run_id d = ri_run_id x
    \<and> act_effect_class a = dict_get_or effect_map (act_action_type a) READ_ONLY"
  using assms(3)
proof (cases rule: decide_cases)
  case opened
  then show ?thesis using assms(4) by (simp add: RecoveryDecision_def)
next
  case (planned plan mode0 w1 mode reason comp_id esc_ref)
  have reflect: "should_reflect g x mode"
  proof (rule ccontr)
    assume "\<not> should_reflect g x mode"
    then have "rd_mode d = mode" using planned(5) by simp
    then show False using assms(2,4) check_compensation_mode(1) [OF planned(3)] builtin_mode planned(2) by auto
  qed
  then obtain env' d0 where d0: "decide_reflect_and_retry g x reason (cw_env w1) = (env', Inr d0)"
    "rd_mode d0 = ''reflect_and_retry''" "rd_corrected_action d = rd_corrected_action d0" "rd_run_id d = rd_run_id d0"
    using planned(5) assms(4) by (auto simp: attach_backoff_def)
  from reflected_action [OF d0(1,2) assms(1)] obtain env snap config ctx key a as where
    "gate_loop uuid gateway effect_map env (ri_run_id x) snap [] config ctx key = (env', Inr (a # as))"
    and a: "rd_corrected_action d0 = Some a" "rd_run_id d0 = ri_run_id x" by blast
  from gate_loop_actions [OF this(1), of a] have "act_run_id a = ri_run_id x"
    "act_effect_class a = dict_get_or effect_map (act_action_type a) READ_ONLY" by simp_all
  then show ?thesis using a d0(3,4) by simp
qed

text \<open>A gate that reflects with the OpenAI gateway; the model calls a tool that is configured as an idempotent write.\<close>

definition tool_calling_client :: "jdict \<Rightarrow> nat \<Rightarrow> nat \<times> openai_response client_answer" where
  "tool_calling_client kwargs w =
     (Suc w, Answered \<lparr>or_choices = [\<lparr>oc_content = None, oc_finish_reason = Some ''tool_calls'',
        oc_tool_calls = [(''c1'', ''patch'', ''{}'')]\<rparr>], or_usage = Some (12, 3)\<rparr>)"

definition reflecting_loop :: "(nat \<times> pyfloat list) reasoning_loop" where
  "reflecting_loop =
     gate_loop (\<lambda>w. (Suc w, ''u'')) \<lparr>lm_infer = openai_infer (\<lambda>_. []) (\<lambda>_. Inr (JDict [])) tool_calling_client None 5,
       lm_count_tokens = (\<lambda>_ _ s. (s, Inr 1))\<rparr> [(''patch'', IDEMPOTENT_WRITE)]"

definition reflecting_gate :: "(dedupe_mem, breaker_table, nat \<times> pyfloat list) recovery_gate" where
  "reflecting_gate =
     \<lparr>rg_policy = PlannerHeuristicPolicy, rg_modes = KERNEL_RECOVERY_MODE_REGISTRY, rg_compensation_registry = None,
      rg_reflection_policy = Some \<lparr>rp_max_rounds = 3, rp_reflection_timeout_ms = 1000,
        rp_reflectable_failure_kinds = [''executor_transient''], rp_non_reflectable_failure_kinds = [], rp_escalate_on_exhaustion = True\<rparr>,
      rg_reasoning_loop = Some reflecting_loop, rg_reflection_builder = Some build_reflection_context, rg_default_inference_config = None,
      rg_circuit_breaker_policy = None, rg_circuit_breaker_store = None, rg_dedupe_store = None, rg_randint = (\<lambda>_. 0),
      rg_utc_now = (\<lambda>_. ''now'')\<rparr>"

definition reflecting_state :: "(dedupe_mem, breaker_table, nat \<times> pyfloat list) gate_state" where
  "reflecting_state =
     \<lparr>gs_failure_counts = [], gs_counters = \<lparr>bc_circuit_failures = [], bc_circuit_last_failure_mono = []\<rparr>, gs_breaker = [],
      gs_world = \<lparr>cw_store = [], cw_env = (0, []), cw_calls = [], cw_sleeps = []\<rparr>\<rparr>"

definition reflecting_input :: recovery_input where
  "reflecting_input = (sample_recovery_input ''executor_transient'')\<lparr>ri_capability_snapshot := Some (sample_snapshot ''strict'')\<rparr>"

definition reflecting_run :: "string option \<times> action option" where
  "reflecting_run =
     (case snd (decide reflecting_gate None 10 10 reflecting_input reflecting_state) of
        Inl _ \<Rightarrow> (None, None) | Inr d \<Rightarrow> (Some (rd_mode d), rd_corrected_action d))"

lemma reflecting_run_corrects:
  "reflecting_run = (Some ''reflect_and_retry'', Some (new_action ''act-c1'' ''r1'' ''patch'' IDEMPOTENT_WRITE (Some [])))"
  by code_simp

theorem corrected_action_of_run_witness:
  "\<exists>st' d a. decide reflecting_gate None 10 10 reflecting_input reflecting_state = (st', Inr d)
     \<and> rd_corrected_action d = Some a \<and> act_run_id a = ''r1'' \<and> act_effect_class a = IDEMPOTENT_WRITE"
proof -
  obtain st' d where d: "decide reflecting_gate None 10 10 reflecting_input reflecting_state = (st', Inr d)" "rd_mode d = ''reflect_and_retry''"
    "rd_corrected_action d = Some (new_action ''act-c1'' ''r1'' ''patch'' IDEMPOTENT_WRITE (Some []))"
    using reflecting_run_corrects unfolding reflecting_run_def
    by (cases "decide reflecting_gate None 10 10 reflecting_input reflecting_state") (auto split: sum.splits)
  have g: "rg_reasoning_loop reflecting_gate = Some reflecting_loop" "rg_modes reflecting_gate = KERNEL_RECOVERY_MODE_REGISTRY"
    by (simp_all add: reflecting_gate_def)
  from corrected_action_of_run [OF g(1) [unfolded reflecting_loop_def] g(2) d(1,2)] d show ?thesis
    by (auto simp: new_action_def reflecting_input_def sample_recovery_input_def dict_get_or_def dict_get_def)
qed

section \<open>Where code and documentation differ\<close>

text \<open>The key of the call is not sent to the provider.\<close>

lemma idempotency_key_unused:
  "openai_infer float_repr loads client model_ref latency context config key = openai_infer float_repr loads client model_ref latency context config key'"
  "anthropic_infer float_repr client' model_ref latency context config key = anthropic_infer float_repr client' model_ref latency context config key'"
  by (simp_all add: fun_eq_iff openai_infer_def anthropic_infer_def)

text \<open>Of a configuration only the provider and the model matter.\<close>

lemma configured_limits_unused:
  "create_llm_gateway clients (config\<lparr>lg_max_tokens := m, lg_timeout_s := t, lg_temperature := x\<rparr>) =
   create_llm_gateway clients config"
  by (simp add: create_llm_gateway_def fun_eq_iff openai_count_tokens_def anthropic_count_tokens_def effective_model_def)

text \<open>The JSON parser raises on an effect class that is a list, although it is documented to skip invalid items.\<close>

lemma json_mode_parser_raises:
  "snd (parse_items uuid run_id (JDict [(''action_type'', JStr ''t''), (''effect_class'', JList [])] # items) w)
     = Raises (TypeError (''unhashable type: '' @ repr_str ''list''))"
  by (simp add: parse_item_def member_of_def jget_def dict_get_def)

end
