(* ===== verification/Metrics.thy ===== *)
theory Metrics
  imports Float_Rounding Kernel_Effects "HOL-Library.Product_Lexorder"
begin

text \<open>
  The metrics collector of \<^verbatim>\<open>runtime/metrics.py\<close> and the fan-out of \<^verbatim>\<open>CompositeObservabilityHook\<close> in
  \<^verbatim>\<open>runtime/observability_hooks.py\<close>.  A call of a hook is a \<open>hook_event\<close> with the arguments of the
  method; a hook is a call that may raise on a state of its own.  The lock of the collector makes
  each of its operations atomic.
\<close>

section \<open>Hooks\<close>

datatype hook_event =
    TurnStateTransition string string string string int int
  | TurnPhase string string string int
  | RunLifecycleTransition string string string int
  | LlmCall string string int json
  | ActionDispatch string string string string int
  | RecoveryTriggered string string string
  | AdmissionEvaluated string string bool int
  | DispatchAttempted string string string int
  | ParallelBranchResult string string string string "string option"
  | DedupeHit string string string
  | ReflectionRound string string int bool
  | CircuitBreakerTrip string string int bool
  | BranchRollbackTriggered string string string string

type_synonym 's hook = "hook_event \<Rightarrow> ('s, unit) act"

text \<open>An exception of one hook does not keep the event from the others.\<close>

fun composite :: "'s hook list \<Rightarrow> 's hook" where
  "composite [] e = return_act ()"
| "composite (h # hs) e = bind_act (suppress_act (h e)) (\<lambda>_. composite hs e)"

fun deliver :: "'s hook \<Rightarrow> hook_event list \<Rightarrow> ('s, unit) act" where
  "deliver h [] = return_act ()"
| "deliver h (e # es) = bind_act (h e) (\<lambda>_. deliver h es)"

section \<open>The collector\<close>

text \<open>A set of labels is the sorted list of its items.\<close>

type_synonym labels = "(string \<times> string) list"

definition label_key :: "(string, string) dict option \<Rightarrow> labels" where
  "label_key ls = (case ls of None \<Rightarrow> [] | Some d \<Rightarrow> sort (remdups d))"

record metrics =
  mc_counters :: "(string, (labels, int) dict) dict"
  mc_gauges :: "(string, (labels, pyfloat) dict) dict"

definition KernelMetricsCollector :: metrics where
  "KernelMetricsCollector = \<lparr>mc_counters = [], mc_gauges = []\<rparr>"

definition get_counter :: "metrics \<Rightarrow> string \<Rightarrow> (string, string) dict option \<Rightarrow> int" where
  "get_counter m name ls = dict_get_or (dict_get_or (mc_counters m) name []) (label_key ls) 0"

definition inc :: "string \<Rightarrow> (string, string) dict option \<Rightarrow> metrics \<Rightarrow> metrics" where
  "inc name ls m =
     (let bucket = dict_get_or (mc_counters m) name []
      in m\<lparr>mc_counters := dict_set name (dict_set (label_key ls) (dict_get_or bucket (label_key ls) 0 + 1) bucket) (mc_counters m)\<rparr>)"

definition get_gauge :: "metrics \<Rightarrow> string \<Rightarrow> (string, string) dict option \<Rightarrow> pyfloat" where
  "get_gauge m name ls = dict_get_or (dict_get_or (mc_gauges m) name []) (label_key ls) (PFin 0)"

definition set_gauge :: "string \<Rightarrow> pyfloat \<Rightarrow> (string, string) dict option \<Rightarrow> metrics \<Rightarrow> metrics" where
  "set_gauge name v ls m =
     m\<lparr>mc_gauges := dict_set name (dict_set (label_key ls) v (dict_get_or (mc_gauges m) name [])) (mc_gauges m)\<rparr>"

record metric_point =
  mp_name :: string
  mp_value :: pyfloat
  mp_labels :: "(string, string) dict"
  mp_timestamp_ms :: int

definition points :: "('v \<Rightarrow> pyfloat) \<Rightarrow> int \<Rightarrow> (string, (labels, 'v) dict) dict \<Rightarrow> metric_point list" where
  "points val now_ms d =
     concat (map (\<lambda>(name, buckets). map (\<lambda>(key, v). \<lparr>mp_name = name, mp_value = val v, mp_labels = key, mp_timestamp_ms = now_ms\<rparr>) buckets) d)"

text \<open>A count is far below the range of a \<^verbatim>\<open>float\<close>.\<close>

definition snapshot :: "metrics \<Rightarrow> int \<Rightarrow> metric_point list" where
  "snapshot m now_ms = points (\<lambda>v. to_double (of_int v)) now_ms (mc_counters m) @ points id now_ms (mc_gauges m)"

definition TURN_OUTCOME_MAP :: "(string, string) dict" where
  "TURN_OUTCOME_MAP = [(''dispatched'', ''dispatched''), (''completed_noop'', ''noop''), (''dispatch_blocked'', ''blocked''),
     (''recovery_pending'', ''recovery_pending'')]"

definition TERMINAL_LIFECYCLE_STATES :: "(string, string) dict" where
  "TERMINAL_LIFECYCLE_STATES = [(''completed'', ''completed''), (''aborted'', ''aborted''), (''failed'', ''failed'')]"

definition float_plus :: "pyfloat \<Rightarrow> rat \<Rightarrow> pyfloat" where
  "float_plus x r = (case x of PFin a \<Rightarrow> to_double (a + r) | _ \<Rightarrow> x)"

text \<open>\<^verbatim>\<open>max(0.0, x)\<close>: the second argument only when it is greater.\<close>

definition at_least_zero :: "pyfloat \<Rightarrow> pyfloat" where
  "at_least_zero x = (case x of PFin a \<Rightarrow> if 0 < a then x else PFin 0 | PInf \<Rightarrow> PInf | _ \<Rightarrow> PFin 0)"

definition one_label :: "string \<Rightarrow> string \<Rightarrow> (string, string) dict option" where
  "one_label k v = Some [(k, v)]"

definition metrics_run_lifecycle_transition :: "string \<Rightarrow> metrics \<Rightarrow> metrics" where
  "metrics_run_lifecycle_transition to_state m =
     (let m1 = (if to_state = ''ready''
            then let m' = inc ''runs_started_total'' None m
                 in set_gauge ''active_runs'' (float_plus (get_gauge m' ''active_runs'' None) 1) None m'
            else m)
      in case dict_get TERMINAL_LIFECYCLE_STATES to_state of
           None \<Rightarrow> m1
         | Some terminal_outcome \<Rightarrow>
             let m' = inc ''runs_completed_total'' (one_label ''outcome'' terminal_outcome) m1
             in set_gauge ''active_runs'' (at_least_zero (float_plus (get_gauge m' ''active_runs'' None) (- 1))) None m')"

fun collect :: "hook_event \<Rightarrow> metrics \<Rightarrow> metrics" where
  "collect (TurnStateTransition run_id action_id from_state to_state turn_offset timestamp_ms) m =
     (case dict_get TURN_OUTCOME_MAP to_state of
        None \<Rightarrow> m
      | Some outcome \<Rightarrow> inc ''turns_executed_total'' (one_label ''outcome'' outcome) m)"
| "collect (TurnPhase run_id action_id phase_name elapsed) m = inc ''turn_phase_invocations_total'' (one_label ''phase'' phase_name) m"
| "collect (RunLifecycleTransition run_id from_state to_state timestamp_ms) m = metrics_run_lifecycle_transition to_state m"
| "collect (LlmCall run_id model_ref latency_ms token_usage) m = inc ''llm_calls_total'' (one_label ''model_ref'' model_ref) m"
| "collect (ActionDispatch run_id action_id action_type outcome_kind latency_ms) m =
     inc ''action_dispatches_total'' (one_label ''outcome'' outcome_kind) m"
| "collect (RecoveryTriggered run_id reason_code mode) m = inc ''recovery_decisions_total'' (one_label ''mode'' mode) m"
| "collect (AdmissionEvaluated run_id action_id admitted latency_ms) m =
     inc ''admission_evaluations_total'' (one_label ''outcome'' (if admitted then ''admitted'' else ''rejected'')) m"
| "collect (DispatchAttempted run_id action_id dedupe_outcome latency_ms) m =
     inc ''dispatch_attempts_total'' (one_label ''dedupe_outcome'' dedupe_outcome) m"
| "collect (ParallelBranchResult run_id group_key action_id outcome failure_code) m =
     inc ''parallel_branch_results_total'' (one_label ''outcome'' outcome) m"
| "collect (DedupeHit run_id action_id outcome) m = inc ''dedupe_hits_total'' (one_label ''outcome'' outcome) m"
| "collect (ReflectionRound run_id action_id round_num corrected) m =
     inc ''reflection_rounds_total'' (one_label ''corrected'' (if corrected then ''true'' else ''false'')) m"
| "collect (CircuitBreakerTrip run_id effect_class failure_count tripped) m =
     (if tripped then inc ''circuit_breaker_trips_total'' (one_label ''effect_class'' effect_class) m else m)"
| "collect (BranchRollbackTriggered run_id group_key action_id join_strategy) m =
     inc ''branch_rollbacks_total'' (one_label ''join_strategy'' join_strategy) m"

definition collector_hook :: "metrics hook" where
  "collector_hook e = modify_act (collect e)"

section \<open>The counters count events\<close>

text \<open>What an event adds one to.\<close>

fun increments :: "hook_event \<Rightarrow> (string \<times> labels) list" where
  "increments (TurnStateTransition _ _ _ to_state _ _) =
     (case dict_get TURN_OUTCOME_MAP to_state of None \<Rightarrow> [] | Some o' \<Rightarrow> [(''turns_executed_total'', [(''outcome'', o')])])"
| "increments (TurnPhase _ _ phase _) = [(''turn_phase_invocations_total'', [(''phase'', phase)])]"
| "increments (RunLifecycleTransition _ _ to_state _) =
     (if to_state = ''ready'' then [(''runs_started_total'', [])] else []) @
     (case dict_get TERMINAL_LIFECYCLE_STATES to_state of None \<Rightarrow> [] | Some o' \<Rightarrow> [(''runs_completed_total'', [(''outcome'', o')])])"
| "increments (LlmCall _ model_ref _ _) = [(''llm_calls_total'', [(''model_ref'', model_ref)])]"
| "increments (ActionDispatch _ _ _ outcome _) = [(''action_dispatches_total'', [(''outcome'', outcome)])]"
| "increments (RecoveryTriggered _ _ mode) = [(''recovery_decisions_total'', [(''mode'', mode)])]"
| "increments (AdmissionEvaluated _ _ admitted _) =
     [(''admission_evaluations_total'', [(''outcome'', if admitted then ''admitted'' else ''rejected'')])]"
| "increments (DispatchAttempted _ _ outcome _) = [(''dispatch_attempts_total'', [(''dedupe_outcome'', outcome)])]"
| "increments (ParallelBranchResult _ _ _ outcome _) = [(''parallel_branch_results_total'', [(''outcome'', outcome)])]"
| "increments (DedupeHit _ _ outcome) = [(''dedupe_hits_total'', [(''outcome'', outcome)])]"
| "increments (ReflectionRound _ _ _ corrected) = [(''reflection_rounds_total'', [(''corrected'', if corrected then ''true'' else ''false'')])]"
| "increments (CircuitBreakerTrip _ effect_class _ tripped) =
     (if tripped then [(''circuit_breaker_trips_total'', [(''effect_class'', effect_class)])] else [])"
| "increments (BranchRollbackTriggered _ _ _ strategy) = [(''branch_rollbacks_total'', [(''join_strategy'', strategy)])]"

lemma label_key_simps [simp]: "label_key None = []" "label_key (one_label k v) = [(k, v)]"
  by (simp_all add: label_key_def one_label_def)

lemma get_counter_inc:
  "get_counter (inc name ls m) name' ls' = get_counter m name' ls' + (if name = name' \<and> label_key ls = label_key ls' then 1 else 0)"
  by (auto simp: get_counter_def inc_def Let_def dict_get_or_def dict_get_set split: option.splits)

lemma get_counter_set_gauge [simp]: "get_counter (set_gauge name v ls m) = get_counter m"
  by (simp add: fun_eq_iff get_counter_def set_gauge_def)

lemma get_gauge_simps [simp]:
  "get_gauge (inc name ls m) = get_gauge m" "get_gauge (set_gauge name v ls m) name ls = v"
  by (simp_all add: fun_eq_iff get_gauge_def set_gauge_def inc_def Let_def dict_get_or_def dict_get_set)

lemma collect_counts:
  "get_counter (collect e m) name ls = get_counter m name ls + int (count_list (increments e) (name, label_key ls))"
  by (cases e)
    (auto simp: get_counter_inc metrics_run_lifecycle_transition_def Let_def split: option.splits)

text \<open>The collector among other hooks, which have a state of their own.\<close>

definition others :: "'t hook list \<Rightarrow> (metrics \<times> 't) hook list" where
  "others hs = map (\<lambda>h e s. map_prod (Pair (fst s)) id (h e (snd s))) hs"

definition among :: "'t hook list \<Rightarrow> 't hook list \<Rightarrow> (metrics \<times> 't) hook" where
  "among before after = composite (others before @ (\<lambda>e. on_fst (collector_hook e)) # others after)"

lemma composite_append: "fst (composite (hs @ hs') e s) = fst (composite hs' e (fst (composite hs e s)))"
  by (induction hs arbitrary: s) (simp_all add: return_act_def bind_act_def suppress_act_def)

lemma composite_returns [simp]: "snd (composite hs e s) = Inr ()"
  by (induction hs arbitrary: s) (simp_all add: return_act_def bind_act_def suppress_act_def)

lemma composite_others [simp]: "fst (fst (composite (others hs) e s)) = fst s"
  by (induction hs arbitrary: s) (simp_all add: others_def return_act_def bind_act_def suppress_act_def)

lemma among_collects: "fst (fst (among before after e s)) = collect e (fst s)"
  by (simp add: among_def composite_append bind_act_def suppress_act_def on_fst_def collector_hook_def modify_act_def split: prod.splits)

lemma among_returns: "snd (among before after e s) = Inr ()"
  by (simp add: among_def)

lemma deliver_Cons: "deliver (among before after) (e # es) s = deliver (among before after) es (fst (among before after e s))"
  using among_returns [of before after e s] by (cases "among before after e s") simp

lemma delivered_counts:
  "get_counter (fst (fst (deliver (among before after) es s))) name ls =
     get_counter (fst s) name ls + int (count_list (concat (map increments es)) (name, label_key ls))"
  "snd (deliver (among before after) es s) = Inr ()"
  by (induction es arbitrary: s)
    (simp_all add: deliver_Cons among_collects collect_counts del: deliver.simps(2))


section \<open>The gauge of active runs\<close>

text \<open>A run that is made ready twice counts twice, and is still counted after it has completed.\<close>

lemma active_runs_overcounts:
  "get_gauge (fold collect [RunLifecycleTransition ''r'' ''created'' ''ready'' 0, RunLifecycleTransition ''r'' ''waiting'' ''ready'' 1,
     RunLifecycleTransition ''r'' ''ready'' ''completed'' 2] KernelMetricsCollector) ''active_runs'' None = PFin 1"
proof -
  have "to_double (0 + 1) = PFin 1" "to_double (1 + 1) = PFin 2" "to_double (2 - 1) = PFin 1"
    using to_double_int [of 1] to_double_int [of 2] by simp_all
  moreover have "get_gauge KernelMetricsCollector ''active_runs'' None = PFin 0"
    by (simp add: get_gauge_def KernelMetricsCollector_def dict_get_or_def dict_get_def)
  ultimately show ?thesis
    by (simp add: metrics_run_lifecycle_transition_def Let_def TERMINAL_LIFECYCLE_STATES_def float_plus_def at_least_zero_def
      dict_get_def)
qed

end
