(* ===== verification/Store_Migrations.thy ===== *)
theory Store_Migrations
  imports SQLite_Connection
begin

text \<open>
  The schema migrations of \<^verbatim>\<open>kernel/persistence/migrations.py\<close>.  A script is the list of its statements,
  each a function on the rest of the database that may raise; \<^verbatim>\<open>executescript\<close> runs them outside a
  transaction, one by one.  The built-in migrations are given with their statements on a schema of
  tables, columns and indexes.
\<close>

section \<open>Migrations\<close>

record 'd migration =
  mg_version :: int
  mg_description :: string
  mg_sql :: "('d \<Rightarrow> 'd result) list"

text \<open>The rows of \<^verbatim>\<open>schema_migrations\<close>, if the table exists, and the rest of the database.\<close>

record 'd migration_db =
  md_versions :: "(int \<times> string) list option"
  md_data :: 'd

fun first_duplicate :: "int list \<Rightarrow> int list \<Rightarrow> int option" where
  "first_duplicate seen [] = None"
| "first_duplicate seen (v # vs) = (if v \<in> set seen then Some v else first_duplicate (v # seen) vs)"

definition sorted_migrations :: "'d migration list \<Rightarrow> 'd migration list option \<Rightarrow> 'd migration list result" where
  "sorted_migrations kernel_migrations extra_migrations =
     (let ms = sort_key mg_version (kernel_migrations @ (case extra_migrations of None \<Rightarrow> [] | Some xs \<Rightarrow> xs))
      in case first_duplicate [] (map mg_version ms) of
           None \<Rightarrow> Inr ms
         | Some v \<Rightarrow> Inl (ValueError (''Duplicate migration version '' @ show_int v @ '' detected.'')))"

definition ensure_migrations_table :: "('d migration_db connection, unit) act" where
  "ensure_migrations_table =
     bind_act (sql_change (\<lambda>d. Inr (case md_versions d of None \<Rightarrow> d\<lparr>md_versions := Some []\<rparr> | Some _ \<Rightarrow> d, ()))) (\<lambda>_. conn_commit)"

definition no_migrations_table :: exn where
  "no_migrations_table = OperationalError ''no such table: schema_migrations''"

definition applied_versions :: "('d migration_db connection, int list) act" where
  "applied_versions =
     sql_change (\<lambda>d. case md_versions d of None \<Rightarrow> Inl no_migrations_table | Some vs \<Rightarrow> Inr (d, map fst vs))"

definition run_statement :: "('d \<Rightarrow> 'd result) \<Rightarrow> ('d migration_db connection, unit) act" where
  "run_statement q = sql_change (\<lambda>d. bind_result (q (md_data d)) (\<lambda>x. Inr (d\<lparr>md_data := x\<rparr>, ())))"

fun run_statements :: "('d \<Rightarrow> 'd result) list \<Rightarrow> ('d migration_db connection, unit) act" where
  "run_statements [] = return_act ()"
| "run_statements (q # qs) = bind_act (run_statement q) (\<lambda>_. run_statements qs)"

definition executescript :: "('d \<Rightarrow> 'd result) list \<Rightarrow> ('d migration_db connection, unit) act" where
  "executescript qs = bind_act conn_commit (\<lambda>_. run_statements qs)"

definition insert_version :: "'d migration \<Rightarrow> ('d migration_db connection, unit) act" where
  "insert_version m =
     dml (\<lambda>d. case md_versions d of
         None \<Rightarrow> Inl no_migrations_table
       | Some vs \<Rightarrow>
           if mg_version m \<in> set (map fst vs)
           then Inl (OtherError ''IntegrityError'' ''UNIQUE constraint failed: schema_migrations.version'')
           else Inr (d\<lparr>md_versions := Some (vs @ [(mg_version m, mg_description m)])\<rparr>, ()))"

definition apply_migration :: "'d migration \<Rightarrow> ('d migration_db connection, unit) act" where
  "apply_migration m = in_transaction (bind_act (executescript (mg_sql m)) (\<lambda>_. insert_version m))"

fun apply_migrations :: "'d migration list \<Rightarrow> ('d migration_db connection, unit) act" where
  "apply_migrations [] = return_act ()"
| "apply_migrations (m # ms) = bind_act (apply_migration m) (\<lambda>_. apply_migrations ms)"

definition apply_all :: "'d migration list \<Rightarrow> ('d migration_db connection, nat) act" where
  "apply_all ms =
     bind_act ensure_migrations_table (\<lambda>_.
     bind_act applied_versions (\<lambda>vs.
     let pending = filter (\<lambda>m. mg_version m \<notin> set vs) ms
     in bind_act (apply_migrations (sort_key mg_version pending)) (\<lambda>_. return_act (length pending))))"

section \<open>The built-in migrations\<close>

datatype ddl =
    CreateTable string "string list"
  | CreateIndex string string "string list"
  | AddColumn string string

record db_schema =
  ds_tables :: "(string, string list) dict"
  ds_indexes :: "string list"

text \<open>\<^verbatim>\<open>CREATE ... IF NOT EXISTS\<close> looks for the table of an index first, then for the index.\<close>

fun run_ddl :: "ddl \<Rightarrow> db_schema \<Rightarrow> db_schema result" where
  "run_ddl (CreateTable t cols) s = Inr (if dict_has (ds_tables s) t then s else s\<lparr>ds_tables := dict_set t cols (ds_tables s)\<rparr>)"
| "run_ddl (CreateIndex i t cols) s =
     (case dict_get (ds_tables s) t of
        None \<Rightarrow> Inl (OperationalError (''no such table: main.'' @ t))
      | Some cs \<Rightarrow>
          if i \<in> set (ds_indexes s) then Inr s
          else case filter (\<lambda>c. c \<notin> set cs) cols of
                 c # _ \<Rightarrow> Inl (OperationalError (''no such column: '' @ c))
               | [] \<Rightarrow> Inr (s\<lparr>ds_indexes := ds_indexes s @ [i]\<rparr>))"
| "run_ddl (AddColumn t c) s =
     (case dict_get (ds_tables s) t of
        None \<Rightarrow> Inl (OperationalError (''no such table: '' @ t))
      | Some cs \<Rightarrow>
          if c \<in> set cs then Inl (OperationalError (''duplicate column name: '' @ c))
          else Inr (s\<lparr>ds_tables := dict_set t (cs @ [c]) (ds_tables s)\<rparr>))"

definition KERNEL_MIGRATIONS :: "db_schema migration list" where
  "KERNEL_MIGRATIONS =
     [\<lparr>mg_version = 1, mg_description = ''Initial schema: runtime_events, turn_intents,dedupe_store, recovery_outcomes'',
       mg_sql = map run_ddl
        [CreateTable ''runtime_events'' [''id'', ''run_id'', ''commit_offset'', ''event_type'', ''payload_json'', ''occurred_at''],
         CreateIndex ''idx_runtime_events_run_id'' ''runtime_events'' [''run_id''],
         CreateTable ''turn_intents'' [''id'', ''run_id'', ''turn_offset'', ''intent_json'', ''recorded_at''],
         CreateIndex ''idx_turn_intents_run_id'' ''turn_intents'' [''run_id''],
         CreateTable ''dedupe_store'' [''idempotency_key'', ''state'', ''updated_at''],
         CreateTable ''recovery_outcomes'' [''id'', ''run_id'', ''action_id'', ''recovery_mode'', ''reason'', ''recorded_at''],
         CreateIndex ''idx_recovery_outcomes_run_id'' ''recovery_outcomes'' [''run_id'']]\<rparr>,
      \<lparr>mg_version = 2, mg_description = ''Add schema_version column to runtime_events for snapshotversioning'',
       mg_sql = map run_ddl [AddColumn ''runtime_events'' ''schema_version'']\<rparr>]"

definition SchemaMigrationManager :: "db_schema migration list option \<Rightarrow> db_schema migration list result" where
  "SchemaMigrationManager extra_migrations = sorted_migrations KERNEL_MIGRATIONS extra_migrations"

section \<open>Migrations are recorded in order\<close>

text \<open>No transaction is open and \<open>vs\<close> are the recorded migrations.\<close>

definition recorded :: "(int \<times> string) list \<Rightarrow> 'd migration_db connection \<Rightarrow> bool" where
  "recorded vs c \<longleftrightarrow> idle c \<and> md_versions (cn_tables c) = Some vs"

lemma recorded_faults: "recorded vs c \<Longrightarrow> recorded vs (c\<lparr>cn_faults := fs\<rparr>)"
  by (simp add: recorded_def idle_def)

lemma recorded_commit [preserves_intros]: "preserves (recorded vs) conn_commit"
  by (simp add: preserves_def conn_commit_def recorded_def idle_def)

lemma recorded_statement [preserves_intros]: "preserves (recorded vs) (run_statement q)"
  unfolding run_statement_def sql_change_def
  by (rule preserves_execute) (auto simp: preserves_def recorded_def idle_def bind_result_def split: sum.splits)

lemma recorded_script [preserves_intros]: "preserves (recorded vs) (executescript qs)"
proof -
  have "preserves (recorded vs) (run_statements qs)"
    by (induction qs) (simp_all only: run_statements.simps, intro preserves_intros, intro preserves_intros)
  then show ?thesis unfolding executescript_def by (intro preserves_intros)
qed

text \<open>Applying one migration records it when it returns, and leaves the records alone when it raises.\<close>

lemma apply_migration_cases:
  assumes c: "recorded vs c" and run: "apply_migration m c = (c', r)"
  shows "(\<exists>e. r = Inl e) \<and> recorded vs c' \<or> r = Inr () \<and> recorded (vs @ [(mg_version m, mg_description m)]) c'"
proof -
  obtain c1 r1 where s: "executescript (mg_sql m) c = (c1, r1)" by fastforce
  have c1: "recorded vs c1" using preservesD [OF recorded_script c s] .
  show ?thesis
  proof (cases r1)
    case (Inl e)
    then show ?thesis using run s c1
      by (auto simp: apply_migration_def in_transaction_def bind_act_def catch_act_def conn_rollback_def recorded_def idle_def)
  next
    case (Inr u)
    then show ?thesis using run s c1
      by (auto simp: apply_migration_def in_transaction_def bind_act_def catch_act_def conn_rollback_def conn_commit_def
          insert_version_def dml_def execute_def implicit_begin_def recorded_def idle_def split: list.splits if_splits)
  qed
qed

definition row :: "'d migration \<Rightarrow> int \<times> string" where
  "row m = (mg_version m, mg_description m)"

lemma apply_migrations_cases:
  "recorded vs c \<Longrightarrow> apply_migrations ms c = (c', r) \<Longrightarrow>
     \<exists>k \<le> length ms. recorded (vs @ map row (take k ms)) c' \<and> (r = Inr () \<longrightarrow> k = length ms)"
proof (induction ms arbitrary: vs c)
  case (Cons m ms)
  obtain c1 r1 where one: "apply_migration m c = (c1, r1)" by fastforce
  from apply_migration_cases [OF Cons.prems(1) one] show ?case
  proof (elim disjE conjE exE)
    fix e assume e: "r1 = Inl e" "recorded vs c1"
    then show ?thesis using Cons.prems(2) one by (intro exI [of _ 0]) auto
  next
    assume r1: "r1 = Inr ()" "recorded (vs @ [(mg_version m, mg_description m)]) c1"
    then have "apply_migrations ms c1 = (c', r)" using Cons.prems(2) one by simp
    from Cons.IH [OF r1(2) this] obtain k where "k \<le> length ms"
      "recorded ((vs @ [(mg_version m, mg_description m)]) @ map row (take k ms)) c'" "r = Inr () \<longrightarrow> k = length ms" by blast
    then show ?thesis by (intro exI [of _ "Suc k"]) (simp add: row_def [of m])
  qed
qed simp

text \<open>The first \<open>k\<close> migrations are recorded, in this order; \<open>k\<close> is 0 while there is no table.\<close>

definition recorded_prefix :: "'d migration list \<Rightarrow> nat \<Rightarrow> 'd migration_db connection \<Rightarrow> bool" where
  "recorded_prefix ms k c \<longleftrightarrow> idle c \<and> k \<le> length ms
     \<and> (case md_versions (cn_tables c) of None \<Rightarrow> k = 0 | Some vs \<Rightarrow> vs = map row (take k ms))"

lemma pending_drop:
  assumes "distinct (map mg_version ms)" "sorted (map mg_version ms)"
  shows "sort_key mg_version (filter (\<lambda>m. mg_version m \<notin> set (map mg_version (take k ms))) ms) = drop k ms"
    and "filter (\<lambda>m. mg_version m \<notin> set (map mg_version (take k ms))) ms = drop k ms"
proof -
  let ?P = "\<lambda>m. mg_version m \<notin> set (map mg_version (take k ms))"
  have "distinct (map mg_version (take k ms) @ map mg_version (drop k ms))"
    using assms(1) by (simp flip: map_append)
  then have "filter ?P (drop k ms) = drop k ms" by (auto simp: filter_id_conv)
  moreover have "filter ?P (take k ms) = []" by (auto simp: filter_empty_conv)
  moreover have "filter ?P ms = filter ?P (take k ms) @ filter ?P (drop k ms)" by (metis append_take_drop_id filter_append)
  ultimately show "filter ?P ms = drop k ms" by simp
  then show "sort_key mg_version (filter ?P ms) = drop k ms"
    using assms(2) by (simp add: sort_key_id_if_sorted drop_map [symmetric] sorted_wrt_drop)
qed

lemma map_fst_row [simp]: "fst \<circ> row = mg_version"
  by (simp add: fun_eq_iff row_def)

text \<open>
  A call of \<open>apply_all\<close>, whichever statements fail, only appends to the recorded migrations, in the
  order of their versions; when it returns all are recorded and the result is the number of those
  that were not.
\<close>

theorem migrations_recorded_in_order:
  assumes ms: "distinct (map mg_version ms)" "sorted (map mg_version ms)"
    and c: "recorded_prefix ms k c" and run: "apply_all ms c = (c', r)"
  shows "\<exists>k'. k \<le> k' \<and> recorded_prefix ms k' c' \<and> (\<forall>n. r = Inr n \<longrightarrow> k' = length ms \<and> n = length ms - k)"
proof -
  obtain c1 r1 where e: "ensure_migrations_table c = (c1, r1)" by fastforce
  have c1: "recorded_prefix ms k c1 \<and> (r1 = Inr () \<longrightarrow> recorded (map row (take k ms)) c1)"
    using e c by (auto simp: ensure_migrations_table_def sql_change_def execute_def bind_act_def conn_commit_def recorded_prefix_def
        recorded_def idle_def split: list.splits if_splits option.splits)
  show ?thesis
  proof (cases r1)
    case (Inl x)
    then show ?thesis using run e c1 by (auto simp: apply_all_def)
  next
    case (Inr u)
    then have c1: "recorded (map row (take k ms)) c1" using c1 by simp
    obtain c2 r2 where a: "applied_versions c1 = (c2, r2)" by fastforce
    have c2: "recorded (map row (take k ms)) c2" "\<And>vs. r2 = Inr vs \<Longrightarrow> vs = map mg_version (take k ms)"
      using a c1 by (auto simp: applied_versions_def sql_change_def execute_def recorded_def idle_def split: list.splits if_splits)
    have prefix: "recorded_prefix ms k' c0" if "recorded (map row (take k' ms)) c0" "k' \<le> length ms" for k' c0
      using that by (simp add: recorded_prefix_def recorded_def)
    have k: "k \<le> length ms" using c by (simp add: recorded_prefix_def)
    show ?thesis
    proof (cases r2)
      case (Inl x)
      then show ?thesis using run e \<open>r1 = Inr u\<close> a prefix [OF c2(1) k] by (auto simp: apply_all_def)
    next
      case (Inr vs)
      obtain c3 r3 where m: "apply_migrations (drop k ms) c2 = (c3, r3)" by fastforce
      from apply_migrations_cases [OF c2(1) m] obtain j where j: "j \<le> length ms - k"
        "recorded (map row (take k ms @ take j (drop k ms))) c3" "r3 = Inr () \<longrightarrow> j = length ms - k" by auto
      have "recorded_prefix ms (k + j) c3" using j(1,2) k by (intro prefix) (simp_all add: take_add)
      moreover have "c' = c3" "r = bind_result r3 (\<lambda>_. Inr (length ms - k))"
        using run e \<open>r1 = Inr u\<close> a Inr c2(2) [OF Inr] m pending_drop [OF ms, of k]
        by (auto simp: apply_all_def Let_def bind_act_def bind_result_def split: sum.splits)
      ultimately show ?thesis using j(3) k by (intro exI [of _ "k + j"]) (auto simp: bind_result_def split: sum.splits)
    qed
  qed
qed

section \<open>Migrations that cannot be repeated\<close>

definition fresh_database :: "bool list \<Rightarrow> db_schema migration_db connection" where
  "fresh_database faults = connect \<lparr>md_versions = None, md_data = \<lparr>ds_tables = [], ds_indexes = []\<rparr>\<rparr> faults"

text \<open>Without faults a fresh database is migrated once.\<close>

lemma fresh_database_migrated:
  "snd (apply_all KERNEL_MIGRATIONS (fresh_database [])) = Inr 2"
  "snd (apply_all KERNEL_MIGRATIONS (fst (apply_all KERNEL_MIGRATIONS (fresh_database [])))) = Inr 0"
  by code_simp+

text \<open>
  The script of a migration is not part of the transaction that records it: when the thirteenth
  statement, the record of the second migration, fails, the column stays, and every later call
  raises.
\<close>

definition half_migrated :: "db_schema migration_db connection" where
  "half_migrated = fst (apply_all KERNEL_MIGRATIONS (fresh_database (replicate 12 False @ [True])))"

lemma half_migrated_stuck:
  "snd (apply_all KERNEL_MIGRATIONS half_migrated) = Inl (OperationalError ''duplicate column name: schema_version'')
   \<and> cn_tables (fst (apply_all KERNEL_MIGRATIONS half_migrated)) = cn_tables half_migrated"
  by code_simp

text \<open>A database in which the event log has created its tables cannot be migrated.\<close>

lemma event_log_database_not_migrated:
  "snd (apply_all KERNEL_MIGRATIONS (connect \<lparr>md_versions = None, md_data = \<lparr>ds_tables = [(''runtime_events'',
      [''id'', ''commit_sequence'', ''event_index'', ''stream_run_id'', ''event_run_id'', ''commit_offset'', ''event_id'', ''event_type'',
       ''event_class'', ''event_authority'', ''ordering_key'', ''wake_policy'', ''created_at'', ''idempotency_key'', ''payload_ref'', ''payload_json''])], ds_indexes = []\<rparr>\<rparr> []))
     = Inl (OperationalError ''no such column: run_id'')"
  by code_simp

end
