(* ===== verification/Replay_Fidelity.thy ===== *)
theory Replay_Fidelity
  imports Turn_Engine
begin

text \<open>
  The verifier of \<^verbatim>\<open>kernel/replay_fidelity.py\<close>, which runs a turn on two engines over one ledger and one
  event log and compares what it captured after each.  The log is part of the environment of the
  engines; \<open>load\<close> reads it.
\<close>

section \<open>The verifier\<close>

record turn_fidelity_record =
  tf_outcome_kind :: turn_outcome_kind
  tf_snapshot_hash :: "string option"
  tf_dedupe_state :: "dedupe_state option"
  tf_event_count :: nat

record fidelity_report =
  fr_run_id :: string
  fr_original :: turn_fidelity_record
  fr_replay :: turn_fidelity_record

definition snapshot_hash_matches :: "fidelity_report \<Rightarrow> bool" where
  "snapshot_hash_matches rep \<longleftrightarrow> tf_snapshot_hash (fr_original rep) = tf_snapshot_hash (fr_replay rep)"

definition is_idempotent :: "fidelity_report \<Rightarrow> bool" where
  "is_idempotent rep \<longleftrightarrow> snapshot_hash_matches rep \<and> tf_event_count (fr_replay rep) = tf_event_count (fr_original rep)"

type_synonym 'w log_load = "'w \<Rightarrow> string \<Rightarrow> 'w \<times> runtime_event list result"

text \<open>Without an action the identity cannot be built, which is suppressed like a failing lookup.\<close>

definition captured_dedupe_state ::
  "(rat \<Rightarrow> string) \<Rightarrow> 's dedupe_port \<Rightarrow> turn_input \<Rightarrow> action option \<Rightarrow> 's \<Rightarrow> 's \<times> dedupe_state option" where
  "captured_dedupe_state float_repr port i action s =
     (case action of
        None \<Rightarrow> (s, None)
      | Some a \<Rightarrow>
          (case port_get port s (tid_dispatch_dedupe_key (build_turn_identity float_repr i a None)) of
             (s', Inl _) \<Rightarrow> (s', None)
           | (s', Inr r) \<Rightarrow> (s', map_option dr_state r)))"

definition capture ::
  "(rat \<Rightarrow> string) \<Rightarrow> 's dedupe_port \<Rightarrow> 'w log_load \<Rightarrow> turn_result \<Rightarrow> turn_input \<Rightarrow> action option \<Rightarrow> ('s, 'w) turn_world
     \<Rightarrow> ('s, 'w) turn_world \<times> turn_fidelity_record" where
  "capture float_repr port load result i action w =
     (case captured_dedupe_state float_repr port i action (tw_store w) of (s', state) \<Rightarrow>
      case load (tw_env w) (ti_run_id i) of (env', events) \<Rightarrow>
        (w\<lparr>tw_store := s', tw_env := env'\<rparr>,
         \<lparr>tf_outcome_kind = tr_outcome_kind result,
          tf_snapshot_hash = (if tr_outcome_kind result = Outcome_noop then None else Some (tr_decision_fingerprint result)),
          tf_dedupe_state = state,
          tf_event_count = (case events of Inl _ \<Rightarrow> 0 | Inr es \<Rightarrow> length es)\<rparr>))"

definition captured_turn ::
  "(rat \<Rightarrow> string) \<Rightarrow> 's dedupe_port \<Rightarrow> 'w log_load \<Rightarrow> ('s, 'w) turn_engine \<Rightarrow> turn_input \<Rightarrow> action option \<Rightarrow> ('s, 'w) turn_world
     \<Rightarrow> ('s, 'w) turn_world \<times> turn_fidelity_record result" where
  "captured_turn float_repr port load engine i action w =
     (case run_turn engine i action w of
        (w', Inl e) \<Rightarrow> (w', Inl e)
      | (w', Inr result) \<Rightarrow> (case capture float_repr port load result i action w' of (w'', r) \<Rightarrow> (w'', Inr r)))"

definition verify ::
  "(rat \<Rightarrow> string) \<Rightarrow> 's dedupe_port \<Rightarrow> 'w log_load \<Rightarrow> ('s, 'w) turn_engine \<Rightarrow> ('s, 'w) turn_engine \<Rightarrow> turn_input \<Rightarrow> action option
     \<Rightarrow> ('s, 'w) turn_world \<Rightarrow> ('s, 'w) turn_world \<times> fidelity_report result" where
  "verify float_repr port load engine replay_engine i action w =
     (case captured_turn float_repr port load engine i action w of
        (w1, Inl e) \<Rightarrow> (w1, Inl e)
      | (w1, Inr original) \<Rightarrow>
          (case captured_turn float_repr port load replay_engine i action w1 of
             (w2, Inl e) \<Rightarrow> (w2, Inl e)
           | (w2, Inr replay) \<Rightarrow> (w2, Inr \<lparr>fr_run_id = ti_run_id i, fr_original = original, fr_replay = replay\<rparr>)))"

section \<open>What the verdict depends on\<close>

definition turn_fingerprint :: "turn_input \<Rightarrow> action \<Rightarrow> string" where
  "turn_fingerprint i a =
     ti_run_id i @ '':'' @ turn_trigger_str (ti_trigger_type i) @ '':'' @ act_action_id a @ '':'' @ show_int (ti_based_on_offset i)"

text \<open>A context of a turn of the action, whose identity and result carry the fingerprint of the turn.\<close>

definition fingerprinted :: "turn_input \<Rightarrow> action \<Rightarrow> turn_phase_context \<Rightarrow> bool" where
  "fingerprinted i a ctx \<longleftrightarrow> tc_input ctx = i \<and> tc_action ctx = Some a
     \<and> (\<forall>tid. tc_turn_identity ctx = Some tid \<longrightarrow> tid_decision_fingerprint tid = turn_fingerprint i a)
     \<and> (\<forall>r. tc_result ctx = Some r \<longrightarrow> tr_decision_fingerprint r = turn_fingerprint i a)"

lemma result_fingerprints [simp]:
  "tr_decision_fingerprint (turn_result_of st kind tid evs) = tid_decision_fingerprint tid"
  "tr_decision_fingerprint (blocked_result tid dp evs) = tid_decision_fingerprint tid"
  "tr_decision_fingerprint (build_recovery_pending_turn_result i a tid x hk rpd evs) = tid_decision_fingerprint tid"
  "tid_decision_fingerprint (build_turn_identity float_repr i a h) = turn_fingerprint i a"
  by (simp_all add: turn_result_of_def blocked_result_def build_recovery_pending_turn_result_def build_turn_identity_def
      turn_fingerprint_def Let_def)

lemmas fingerprint_simps = fingerprinted_def conclude_def emit_def Let_def

lemma fingerprinted_phases:
  assumes "fingerprinted i a ctx"
  shows "snd (phase_noop_or_reasoning eng ctx w) = Inr ctx' \<Longrightarrow> fingerprinted i a ctx'"
    and "snd (phase_snapshot eng ctx w) = Inr ctx' \<Longrightarrow> fingerprinted i a ctx'"
    and "snd (phase_admission eng ctx w) = Inr ctx' \<Longrightarrow> fingerprinted i a ctx'"
    and "snd (phase_dispatch_policy eng ctx w) = Inr ctx' \<Longrightarrow> fingerprinted i a ctx'"
  using assms
  by (auto simp: phase_noop_or_reasoning_def phase_snapshot_def phase_admission_def phase_dispatch_policy_def fingerprint_simps
      split: option.splits prod.splits sum.splits if_splits)

lemma fingerprinted_dedupe:
  assumes "fingerprinted i a ctx" "snd (phase_dedupe eng ctx w) = Inr ctx'"
  shows "fingerprinted i a ctx'"
  using assms by (auto simp: phase_dedupe_def fingerprint_simps split: option.splits prod.splits sum.splits if_splits)

lemma fingerprinted_execute:
  assumes "fingerprinted i a ctx" "snd (phase_execute eng ctx w) = Inr ctx'"
  shows "fingerprinted i a ctx'"
  using assms
  by (auto simp: phase_execute_def record_outcome_def fingerprint_simps split: option.splits prod.splits sum.splits if_splits)

lemma fingerprinted_phase:
  assumes "fingerprinted i a ctx" "run_phase eng name ctx w = (w', Inr ctx')"
  shows "fingerprinted i a ctx'"
  using assms fingerprinted_phases [OF assms(1), of eng w ctx'] fingerprinted_dedupe [OF assms(1), of eng w ctx']
    fingerprinted_execute [OF assms(1), of eng w ctx']
  by (simp add: run_phase_def split: if_splits)

lemma run_phases_fingerprint:
  "run_phases eng phases ctx w = (w', Inr r) \<Longrightarrow> fingerprinted i a ctx \<Longrightarrow> tr_decision_fingerprint r = turn_fingerprint i a"
proof (induction phases arbitrary: ctx w)
  case (Cons p phases)
  then obtain w1 ctx1 where p: "run_phase eng p ctx w = (w1, Inr ctx1)" by (auto split: prod.splits sum.splits)
  have "fingerprinted i a ctx1" using fingerprinted_phase [OF Cons.prems(2) p] .
  then show ?case using Cons p by (auto simp: fingerprinted_def split: option.splits)
qed simp

lemma captured_hash:
  assumes "captured_turn float_repr port load eng i (Some a) w = (w', Inr r)"
  shows "tf_snapshot_hash r = (if tf_outcome_kind r = Outcome_noop then None else Some (turn_fingerprint i a))"
proof -
  obtain w1 result where run: "run_turn eng i (Some a) w = (w1, Inr result)"
    and r: "r = snd (capture float_repr port load result i (Some a) w1)"
    using assms by (auto simp: captured_turn_def split: prod.splits sum.splits)
  have "tr_decision_fingerprint result = turn_fingerprint i a"
    using run unfolding run_turn_def by (rule run_phases_fingerprint) (simp add: fingerprinted_def initial_context_def)
  then show ?thesis by (simp add: r capture_def split: prod.splits)
qed

text \<open>
  For a turn of an action the two engines, the ledger and the snapshots have no part in the
  comparison of the hashes: they match unless exactly one of the turns is a noop.  The states of
  the ledger are captured and not compared.
\<close>

theorem fidelity_verdict:
  assumes "verify float_repr port load engine replay_engine i (Some a) w = (w', Inr rep)"
  shows "snapshot_hash_matches rep
      \<longleftrightarrow> (tf_outcome_kind (fr_original rep) = Outcome_noop \<longleftrightarrow> tf_outcome_kind (fr_replay rep) = Outcome_noop)"
proof -
  obtain w1 r1 r2 where "captured_turn float_repr port load engine i (Some a) w = (w1, Inr r1)"
    "captured_turn float_repr port load replay_engine i (Some a) w1 = (w', Inr r2)"
    and rep: "fr_original rep = r1" "fr_replay rep = r2"
    using assms by (auto simp: verify_def split: prod.splits sum.splits)
  from captured_hash [OF this(1)] captured_hash [OF this(2)] show ?thesis
    by (auto simp: snapshot_hash_matches_def rep)
qed

end
