(* ===== verification/Spec2Isabelle.thy ===== *)
theory Spec2Isabelle
  imports Run_Guarantees Retry_Executor Task_Manager Admission Outbox Colocated_Bundle SQLite_Stores
    Facade_Wellformed Kernel_Registries Event_Export Service_Verifier Snapshot_Resolver
    Run_Heartbeat Script_Runtime Http_Guarantees Reasoning Metrics
    Store_Migrations Replay_Fidelity
begin

text \<open>
  A verification development of the agent kernel (\<^verbatim>\<open>agent_kernel\<close>), a runtime that executes the
  actions of autonomous agents under an event-sourced lifecycle with at-most-once dispatch.

  \<^bold>\<open>The program.\<close>  A run is owned by an actor (\<^verbatim>\<open>substrate/temporal/run_actor_workflow.py\<close>).  Signals
  and action commits go into the event log; the projection service replays the log into the state
  of the run; the actor decides on a commit once the projection has caught up with it.  A decision
  is a turn of the turn engine (\<^verbatim>\<open>kernel/turn_engine.py\<close>): it freezes a capability snapshot, asks for
  admission, resolves where to dispatch, reserves the dispatch key in the ledger, calls the
  executor and records what is known about the effect.  Failures and unknown effects go to the
  recovery gate, which plans, compensates, reflects or escalates behind a circuit breaker.  Beside
  this path run the task manager with its watchdog and the reconciliation of ledger and log.  A
  platform reaches the runs through the facade and a gateway.

  \<^bold>\<open>Conventions.\<close>  Python exceptions are values of \<open>exn\<close>, a call that may raise returns \<open>exn + 'a\<close>
  (\<open>result\<close>), and a call that also changes state returns the state it reached together with the
  result, so the state at an exception is visible.  Dictionaries keep their insertion order and
  are association lists with distinct keys; sets that are only tested are lists or sets; integers
  are \<open>int\<close> because Python's are unbounded, and 32-bit words appear only inside SHA-256.  Clocks,
  random numbers, executors, admission services, language models and files are arguments: a
  function of an environment of arbitrary type, so what they do is not restricted.  The code is
  cooperative (asyncio), so a call is atomic up to its awaits; where calls of several turns
  interleave the step relations say at which boundaries.

  \<^bold>\<open>Shared theories.\<close>
  \<^item> \<open>Kernel_Prelude\<close>: exceptions, results, dictionaries, Python string functions, JSON values.
  \<^item> \<open>Kernel_Effects\<close>: sequencing of stateful calls that may raise, and preservation of invariants.
  \<^item> \<open>Kernel_Contracts\<close>: the data types of \<^verbatim>\<open>kernel/contracts.py\<close>.
  \<^item> \<open>Python_Float\<close>, \<open>Sha256\<close>: doubles, canonical JSON, UTF-8 and SHA-256 of the standard library.

  \<^bold>\<open>Dispatch ledger.\<close>  \<open>Dedupe_Store\<close> models \<^verbatim>\<open>kernel/dedupe_store.py\<close>: the port is the record
  \<open>dedupe_port\<close>, its contract the locale \<open>dedupe_store_port\<close> over an abstract map from keys to
  records, and \<open>InMemoryDedupeStore\<close> interprets it.  \<open>SQLite_Dedupe\<close> models
  \<^verbatim>\<open>kernel/persistence/sqlite_dedupe_store.py\<close> over a table with transactions in which every statement
  may fail according to an arbitrary list of faults; it interprets the same locale.  Lemmas: no key
  is accepted twice, records never regress, a failed mark leaves no trace, and without faults both
  stores agree on every sequence of calls.

  \<^bold>\<open>Event log and projection.\<close>  \<open>Event_Log\<close> and \<open>Projection\<close> model the log and the projection
  service of \<^verbatim>\<open>kernel/minimal_runtime.py\<close>; \<open>Schema_Migration\<close> the migrator of
  \<^verbatim>\<open>kernel/persistence/event_schema_migration.py\<close> with its breadth-first search, whose termination is
  proved.  The contract of a log is the locale \<open>event_log_port\<close>.  Lemmas: offsets are 1, 2, 3, ...,
  commits are appended whole, reading through the cache equals a full replay, projections are
  coherent, and completed and aborted runs stay so.

  \<^bold>\<open>Snapshots, keys and dispatch policy.\<close>  \<open>Capability_Snapshot\<close> models
  \<^verbatim>\<open>kernel/capability_snapshot.py\<close> and \<^verbatim>\<open>kernel/idempotency_key_policy.py\<close>; \<open>Dispatch_Policy\<close> the host
  resolution of the turn engine, \<^verbatim>\<open>kernel/remote_service_policy.py\<close>, \<^verbatim>\<open>kernel/failure_evidence.py\<close> and
  the static admission of \<^verbatim>\<open>kernel/minimal_runtime.py\<close>; \<open>Admission\<close> the rules of
  \<^verbatim>\<open>kernel/admission\<close>.  Lemmas: hashes depend only on the capabilities, dispatch keys of different
  runs differ, a guarantee is only claimed when it is backed, and the rate limit of a tenant holds
  for every sequence of requests at times that do not go back.

  \<^bold>\<open>Turn engine.\<close>  \<open>Turn_Engine\<close> models the phases of \<^verbatim>\<open>kernel/turn_engine.py\<close> and \<open>run_turn\<close>.
  \<open>Turn_Safety\<close> proves, inside the locale of the ledger and then for both stores, that whatever the
  interleaving of the phases of concurrent turns the executor runs at most once per key, that a
  turn ends with a result when its services answer, and that the result agrees with the ledger.
  \<open>Turn_Trace\<close> shows that a turn emits at most one dispatch event; \<open>Replay_Fidelity\<close> models
  \<^verbatim>\<open>kernel/replay_fidelity.py\<close> and shows what its verdict depends on.

  \<^bold>\<open>Recovery.\<close>  \<open>Recovery_Planner\<close>, \<open>Circuit_Breaker\<close>, \<open>Compensation\<close>, \<open>Retry_Executor\<close> and
  \<open>Recovery_Gate\<close> model \<^verbatim>\<open>kernel/recovery\<close>, the SQLite breaker store and \<^verbatim>\<open>kernel/retry_executor.py\<close>.
  The breaker stores share the locale \<open>breaker_store\<close>.  Lemmas: an open circuit rejects, both stores
  implement one breaker, compensation handlers are called a bounded number of times and leave the
  ledger in a final state, decisions are well-formed and backoffs bounded.

  \<^bold>\<open>Tasks and outbox.\<close>  \<open>Task_Manager\<close> models \<^verbatim>\<open>kernel/task_manager\<close>: replaying the logged events
  restores the registry up to the fields no event carries, and the watchdog handles stalled tasks
  only.  \<open>Outbox\<close> models \<^verbatim>\<open>kernel/persistence/consistency.py\<close> and \<^verbatim>\<open>dispatch_outbox_reconciler.py\<close> over
  the locales \<open>enumerable_store_port\<close> and \<open>reliable_store_port\<close>: a reconciliation pass repairs exactly
  the orphaned keys of the run.

  \<^bold>\<open>Run actor.\<close>  \<open>Run_Actor\<close> models \<^verbatim>\<open>run_actor_workflow.py\<close> and \<^verbatim>\<open>kernel/peer_auth.py\<close> over any log,
  ledger and gate.  \<open>Run_Lifecycle\<close> defines the steps around an actor (signals, decisions, commits of
  other parties, reads) and proves in the locale \<open>actor_log\<close>, which extends \<open>event_log_port\<close>, that the
  actor stays in step with the log.  \<open>Run_Guarantees\<close> interprets it on the in-memory log: queries are
  current after a signal, a caused signal is applied once, a commit is decided once, every decision
  leaves its record, and a cancel request aborts.

  \<^bold>\<open>SQLite.\<close>  \<open>SQLite_Connection\<close> models a connection of the \<^verbatim>\<open>sqlite3\<close> module over tables of any type:
  statements that may fail, implicit and explicit transactions, restarts.  \<open>SQLite_Event_Log\<close> models
  \<^verbatim>\<open>persistence/sqlite_event_log.py\<close> (an interpretation of \<open>event_log_port\<close> under any faults, and equal
  to the in-memory log without); \<open>Colocated_Bundle\<close> models \<^verbatim>\<open>sqlite_colocated_bundle.py\<close> (an
  interpretation of \<open>dedupe_store_port\<close>, and the dispatch record changes log and ledger together or
  not at all); \<open>Projection_Cache\<close> models \<^verbatim>\<open>sqlite_projection_cache.py\<close> (snapshots read back unchanged,
  and projections equal a full replay across faults and restarts); \<open>SQLite_Stores\<close> models the decision
  deduper, the outcome store, the turn intent log and the task view log; \<open>Store_Migrations\<close> models
  \<^verbatim>\<open>persistence/migrations.py\<close>, where migrations are recorded in order whichever statements fail.

  \<^bold>\<open>Facade and local substrate.\<close>  The platform talks to the kernel through the facade
  (\<^verbatim>\<open>adapters/facade/kernel_facade.py\<close>), which turns requests into calls of a workflow gateway and keeps
  registries of branches, stages and gates that it also writes to the log.  \<open>Facade_Contracts\<close> holds
  the requests and views, \<open>Agent_Core_Adapters\<close> the adapters of \<^verbatim>\<open>adapters/agent_core\<close> between a platform
  and the kernel, \<open>Trace_Registry\<close> the facade's state with the tracking of runs and the reconstruction
  of the registries from the log, \<open>Kernel_Facade\<close> the operations over a record of ports
  (\<open>facade_ports\<close>).  \<open>Local_Gateway\<close> models the gateway of \<^verbatim>\<open>substrate/local/adaptor.py\<close>, many actors over
  one log, in the locale \<open>shared_log\<close>, interpreted on the SQLite log.  \<open>Facade_Guarantees\<close> states what
  the facade needs of the world behind its ports as the locale \<open>trace_world\<close>, interprets it on the
  local gateway over the SQLite log and proves that two instances show the same trace, that an
  approval is sent at most once, that draining balances and that a cancellation ends in an aborted
  run.  \<open>Facade_Wellformed\<close> proves the state of the facade well-formed under any calls.

  \<^bold>\<open>Registries and export.\<close>  \<open>Kernel_Registries\<close> models the registries of event types, action types and
  failure codes (\<^verbatim>\<open>kernel/event_registry.py\<close>, \<^verbatim>\<open>action_type_registry.py\<close>, \<^verbatim>\<open>failure_code_registry.py\<close>,
  \<^verbatim>\<open>failure_mappings.py\<close>) with the entries they declare, over the locale \<open>type_registry\<close>, and the manifest
  and health methods of the facade.  \<open>Event_Export\<close> models \<^verbatim>\<open>kernel/event_export.py\<close>: a log that hands every
  commit to background tasks is itself an \<open>event_log_port\<close> (a \<open>sublocale\<close> of \<open>exported_log\<close>), and once the
  tasks have ended the exported traces agree with the log.  \<open>Service_Verifier\<close> models
  \<^verbatim>\<open>kernel/remote_service_verifier.py\<close> over any ledger, \<open>Snapshot_Resolver\<close>
  \<^verbatim>\<open>kernel/capability_snapshot_resolver.py\<close>.

  \<^bold>\<open>Heartbeats, health and scripts.\<close>  \<open>Float_Rounding\<close> bounds the rounding of doubles and shows that ages
  are compared exactly with limits in whole seconds.  \<open>Health_Probe\<close> models \<^verbatim>\<open>runtime/health.py\<close> and the
  checks the runtime registers, \<open>Run_Heartbeat\<close> \<^verbatim>\<open>runtime/heartbeat.py\<close>: a sweep of the watchdog signals
  exactly the overdue runs, a run is not signalled again before it was active, and over the local
  gateway a delivered signal is stored.  \<open>Script_Runtime\<close> models the script runtimes and their registry
  (\<^verbatim>\<open>kernel/cognitive/script_runtime*.py\<close>) over the ledger's contract, and \<^verbatim>\<open>kernel/branch_monitor.py\<close>.

  \<^bold>\<open>HTTP service.\<close>  \<open>Http_Service\<close> models the handlers, the serialisation and the key check of
  \<^verbatim>\<open>service/\<close>.  The locale \<open>facade_invariant\<close> says what the handlers rely on of the facade and is
  interpreted on the well-formedness of its state; \<open>Http_Guarantees\<close> derives it (a \<open>sublocale\<close>) from
  \<open>port_invariant\<close>, an invariant of the world behind the ports, interpreted on the local gateway.
  Lemmas: requests without the key change nothing, a cancellation over HTTP is visible to the next
  query.  A body with fields of undeclared types has the answer \<open>Unspecified\<close>, about which nothing is said.

  \<^bold>\<open>Reasoning and metrics.\<close>  \<open>Reasoning\<close> models the context port, the gateways to language models with
  their retries and configuration, the parsers and the loop (\<^verbatim>\<open>kernel/cognitive\<close>,
  \<^verbatim>\<open>kernel/reasoning_loop.py\<close>).  Lemmas: a provider is called at most three times and the waits are those it
  asks for, and the action of a reflecting gate belongs to the run that failed and has the effect
  class configured for its tool.  \<open>Metrics\<close> models \<^verbatim>\<open>runtime/metrics.py\<close> and the composite hook of
  \<^verbatim>\<open>runtime/observability_hooks.py\<close>: the counters are the numbers of the delivered events, whatever the
  other hooks do.

  \<^bold>\<open>Bounds and fuel.\<close>  No definition uses fuel: loops are structural recursions over the list they
  walk, or, for the path search and the number formats, functions with a termination proof.  The
  retry, rate limit and compensation loops recurse on the attempts that are left.  Bounds of the code (5000
  retained runs, 30 s of backoff, the limits of the policies) are the constants of the code.

  \<^bold>\<open>Not modelled.\<close>  The Temporal and PostgreSQL backends, Starlette's routing and the clients of the
  language models (software that is not part of the repository); the logging and OpenTelemetry hooks and
  the Kafka exporter (no state the modelled components read); locks, thread pools and connection pools, whose effect is that
  a call is atomic.  \<^verbatim>\<open>external/\<close> holds a copy of the Temporal SDK, which the kernel only calls.
\<close>

end
